(* ===== verification/Prelude.thy ===== *)
theory Prelude
  imports Main "HOL-Library.List_Lexorder" "HOL-Library.Product_Lexorder" "HOL-Library.Char_ord"
begin

text \<open>
  Shared vocabulary of the development: the result and state-exception types in which every
  fallible operation of the bot is written, the Python string operations the sources use
  (\<open>strip\<close>, \<open>casefold\<close>, \<open>startswith\<close>, \<open>in\<close>, \<open>split\<close>), and list tables (the rows of one
  SQLite table, in insertion order) with the facts that every table proof uses.

  Strings are lists of \<open>char\<close>: code points below 256.  On them \<open>py_strip\<close> and \<open>py_casefold\<close>
  agree with Python's \<open>str.strip\<close> and \<open>str.casefold\<close>, except that casefold of U+00B5 leaves
  that range and is kept as it is.
\<close>

named_theorems fsm_facts \<open>facts of the workflow state machine\<close>
named_theorems repo_defs \<open>the unfolding equations of the repository operations\<close>
named_theorems inv_intros \<open>introduction rules of the invariants\<close>

section \<open>Results and state-exception computations\<close>

definition rbind :: "'e + 'a \<Rightarrow> ('a \<Rightarrow> 'e + 'b) \<Rightarrow> 'e + 'b" where
  "rbind r f = (case r of Inl e \<Rightarrow> Inl e | Inr x \<Rightarrow> f x)"

lemma rbind_simps [simp]:
  "rbind (Inl e) f = Inl e"
  "rbind (Inr x) f = f x"
  by (simp_all add: rbind_def)

lemma rbind_eq_Inr: "rbind r f = Inr y \<longleftrightarrow> (\<exists>x. r = Inr x \<and> f x = Inr y)"
  by (cases r) simp_all

definition ensure :: "bool \<Rightarrow> 'e \<Rightarrow> 'e + unit" where
  "ensure b e = (if b then Inr () else Inl e)"

lemma ensure_simps [simp]:
  "ensure True e = Inr ()"
  "ensure False e = Inl e"
  by (simp_all add: ensure_def)

lemma ensure_eq_Inr [simp]: "ensure b e = Inr u \<longleftrightarrow> b"
  by (simp add: ensure_def)

text \<open>
  A computation over a state \<open>'s\<close> that may raise: it returns the outcome together with the state
  it leaves, also when it raises (a raise does not undo the writes before it; \<open>sx_txn\<close> does).
\<close>

type_synonym ('s, 'e, 'a) sx = "'s \<Rightarrow> ('e + 'a) \<times> 's"

definition sx_return :: "'a \<Rightarrow> ('s, 'e, 'a) sx" where
  "sx_return x = (\<lambda>s. (Inr x, s))"

definition sx_raise :: "'e \<Rightarrow> ('s, 'e, 'a) sx" where
  "sx_raise e = (\<lambda>s. (Inl e, s))"

definition sx_bind :: "('s, 'e, 'a) sx \<Rightarrow> ('a \<Rightarrow> ('s, 'e, 'b) sx) \<Rightarrow> ('s, 'e, 'b) sx" where
  "sx_bind m f = (\<lambda>s. case m s of (Inl e, s') \<Rightarrow> (Inl e, s') | (Inr x, s') \<Rightarrow> f x s')"

definition sx_lift :: "'e + 'a \<Rightarrow> ('s, 'e, 'a) sx" where
  "sx_lift r = (\<lambda>s. (r, s))"

definition sx_ensure :: "bool \<Rightarrow> 'e \<Rightarrow> ('s, 'e, unit) sx" where
  "sx_ensure b e = (\<lambda>s. (ensure b e, s))"

definition sx_get :: "('s \<Rightarrow> 'a) \<Rightarrow> ('s, 'e, 'a) sx" where
  "sx_get f = (\<lambda>s. (Inr (f s), s))"

definition sx_modify :: "('s \<Rightarrow> 's) \<Rightarrow> ('s, 'e, unit) sx" where
  "sx_modify f = (\<lambda>s. (Inr (), f s))"

text \<open>A transaction: an exception rolls the state back to the one at its start.\<close>

definition sx_txn :: "('s, 'e, 'a) sx \<Rightarrow> ('s, 'e, 'a) sx" where
  "sx_txn m = (\<lambda>s. case m s of (Inl e, s') \<Rightarrow> (Inl e, s) | (Inr x, s') \<Rightarrow> (Inr x, s'))"

fun sx_each :: "('a \<Rightarrow> ('s, 'e, unit) sx) \<Rightarrow> 'a list \<Rightarrow> ('s, 'e, unit) sx" where
  "sx_each f [] = sx_return ()"
| "sx_each f (x # xs) = sx_bind (f x) (\<lambda>_. sx_each f xs)"

lemmas sx_defs = sx_return_def sx_raise_def sx_bind_def sx_lift_def sx_ensure_def sx_get_def
  sx_modify_def sx_txn_def

lemma sx_return_app [simp]: "sx_return x s = (Inr x, s)" by (simp add: sx_return_def)
lemma sx_raise_app [simp]: "sx_raise e s = (Inl e, s)" by (simp add: sx_raise_def)
lemma sx_lift_app [simp]: "sx_lift r s = (r, s)" by (simp add: sx_lift_def)
lemma sx_ensure_app [simp]: "sx_ensure b e s = (ensure b e, s)" by (simp add: sx_ensure_def)
lemma sx_get_app [simp]: "sx_get f s = (Inr (f s), s)" by (simp add: sx_get_def)
lemma sx_modify_app [simp]: "sx_modify f s = (Inr (), f s)" by (simp add: sx_modify_def)

lemma sx_bind_app:
  "sx_bind m f s = (case m s of (Inl e, s') \<Rightarrow> (Inl e, s') | (Inr x, s') \<Rightarrow> f x s')"
  by (simp add: sx_bind_def)

lemma sx_bind_Inr: "m s = (Inr x, s') \<Longrightarrow> sx_bind m f s = f x s'"
  by (simp add: sx_bind_def)

lemma sx_bind_Inl: "m s = (Inl e, s') \<Longrightarrow> sx_bind m f s = (Inl e, s')"
  by (simp add: sx_bind_def)

lemma sx_bind_eq_Inr:
  "sx_bind m f s = (Inr y, t) \<longleftrightarrow> (\<exists>x s'. m s = (Inr x, s') \<and> f x s' = (Inr y, t))"
  by (auto simp: sx_bind_def split: prod.splits sum.splits)

lemma sx_bind_simps [simp]:
  "sx_bind (sx_return x) f = f x"
  "sx_bind (sx_raise e) f = sx_raise e"
  "sx_bind (sx_lift (Inr x)) f = f x"
  "sx_bind (sx_lift (Inl e)) f = sx_raise e"
  "sx_bind (sx_ensure True e) g = g ()"
  "sx_bind (sx_ensure False e) g = sx_raise e"
  by (simp_all add: sx_defs fun_eq_iff)

lemma sx_bind_get [simp]: "sx_bind (sx_get g) f s = f (g s) s"
  by (simp add: sx_bind_def)

lemma sx_bind_modify [simp]: "sx_bind (sx_modify g) f s = f () (g s)"
  by (simp add: sx_bind_def)

lemma sx_txn_Inl: "sx_txn m s = (Inl e, s') \<Longrightarrow> s' = s"
  by (auto simp: sx_txn_def split: prod.splits sum.splits)

lemma sx_txn_Inr: "sx_txn m s = (Inr x, s') \<longleftrightarrow> m s = (Inr x, s')"
  by (auto simp: sx_txn_def split: prod.splits sum.splits)

lemma sx_txn_cases:
  assumes "sx_txn m s = (r, s')"
  obtains (rolled_back) e where "r = Inl e" and "s' = s"
    | (committed) x where "r = Inr x" and "m s = (Inr x, s')"
  using assms by (auto simp: sx_txn_def split: prod.splits sum.splits)

text \<open>An invariant that every step of a loop keeps is kept by the loop, raising or not.\<close>

lemma sx_each_inv:
  assumes "\<And>x s r s'. x \<in> set xs \<Longrightarrow> P s \<Longrightarrow> f x s = (r, s') \<Longrightarrow> P s'"
    and "P s" and "sx_each f xs s = (r, s')"
  shows "P s'"
  using assms
proof (induction xs arbitrary: s)
  case Nil
  then show ?case by simp
next
  case (Cons x xs)
  obtain q t where step: "f x s = (q, t)" by (cases "f x s")
  have t: "P t" using Cons.prems(1)[of x s q t] Cons.prems(2) step by simp
  show ?case
  proof (cases q)
    case (Inl e)
    with step Cons.prems(3) have "s' = t" by (simp add: sx_bind_def)
    with t show ?thesis by simp
  next
    case (Inr u)
    with step Cons.prems(3) have "sx_each f xs t = (r, s')" by (simp add: sx_bind_def)
    moreover have "\<And>y v q w. y \<in> set xs \<Longrightarrow> P v \<Longrightarrow> f y v = (q, w) \<Longrightarrow> P w"
      using Cons.prems(1) by (meson list.set_intros(2))
    ultimately show ?thesis using Cons.IH[of t] t by blast
  qed
qed

text \<open>A predicate that a computation keeps, whether it returns or raises.\<close>

definition sx_keeps :: "('s \<Rightarrow> bool) \<Rightarrow> ('s, 'e, 'a) sx \<Rightarrow> bool" where
  "sx_keeps P m \<longleftrightarrow> (\<forall>s. P s \<longrightarrow> P (snd (m s)))"

lemma sx_keepsD: "sx_keeps P m \<Longrightarrow> P s \<Longrightarrow> P (snd (m s))"
  by (simp add: sx_keeps_def)

lemma sx_keeps_basic [inv_intros]:
  "sx_keeps P (sx_return x)" "sx_keeps P (sx_raise e)" "sx_keeps P (sx_lift r)" "sx_keeps P (sx_ensure b e)"
  by (simp_all add: sx_keeps_def)

lemma sx_keeps_bind [inv_intros]:
  assumes "sx_keeps P m" and "\<And>x. sx_keeps P (f x)"
  shows "sx_keeps P (sx_bind m f)"
proof -
  have "P (snd (sx_bind m f s))" if "P s" for s
  proof (cases "m s")
    case (Pair r t)
    from sx_keepsD[OF assms(1) that] Pair have t: "P t" by simp
    show ?thesis
    proof (cases r)
      case (Inl e)
      with Pair t show ?thesis by (simp add: sx_bind_def)
    next
      case (Inr x)
      with Pair sx_keepsD[OF assms(2)[of x] t] show ?thesis by (simp add: sx_bind_def)
    qed
  qed
  then show ?thesis by (simp add: sx_keeps_def)
qed

lemma keeps_if [inv_intros]: "\<lbrakk>b \<Longrightarrow> sx_keeps P m; \<not> b \<Longrightarrow> sx_keeps P m'\<rbrakk> \<Longrightarrow> sx_keeps P (if b then m else m')"
  by simp

lemma keeps_case_option [inv_intros]:
  "\<lbrakk>x = None \<Longrightarrow> sx_keeps P m; \<And>y. x = Some y \<Longrightarrow> sx_keeps P (f y)\<rbrakk> \<Longrightarrow> sx_keeps P (case x of None \<Rightarrow> m | Some y \<Rightarrow> f y)"
  by (cases x) auto

lemma keeps_sum [inv_intros]:
  "\<lbrakk>\<And>e. r = Inl e \<Longrightarrow> sx_keeps P (f e); \<And>x. r = Inr x \<Longrightarrow> sx_keeps P (g x)\<rbrakk> \<Longrightarrow>
     sx_keeps P (case r of Inl e \<Rightarrow> f e | Inr x \<Rightarrow> g x)"
  by (cases r) auto

lemma keeps_get [inv_intros]: "sx_keeps P (sx_get f)"
  by (simp add: sx_keeps_def sx_get_def)

lemma keeps_modify: "(\<And>s. P s \<Longrightarrow> P (f s)) \<Longrightarrow> sx_keeps P (sx_modify f)"
  by (simp add: sx_keeps_def sx_modify_def)

text \<open>The step of \<open>sx_bind\<close> from a state: what holds after the first computation returned.\<close>

lemma snd_bind_cases:
  assumes "P (snd (m s))" and "\<And>x t. m s = (Inr x, t) \<Longrightarrow> P (snd (f x t))"
  shows "P (snd (sx_bind m f s))"
proof (cases "m s")
  case (Pair r t)
  with assms show ?thesis by (cases r) (auto simp: sx_bind_def)
qed

section \<open>Python strings\<close>

definition is_space :: "char \<Rightarrow> bool" where
  "is_space c = (let n = (of_char c :: nat) in
     (9 \<le> n \<and> n \<le> 13) \<or> (28 \<le> n \<and> n \<le> 32) \<or> n = 133 \<or> n = 160)"

definition py_strip :: "string \<Rightarrow> string" where
  "py_strip s = rev (dropWhile is_space (rev (dropWhile is_space s)))"

definition fold_char :: "char \<Rightarrow> string" where
  "fold_char c = (let n = (of_char c :: nat) in
     if (65 \<le> n \<and> n \<le> 90) \<or> (192 \<le> n \<and> n \<le> 222 \<and> n \<noteq> 215) then [char_of (n + 32)]
     else if n = 223 then ''ss'' else [c])"

definition py_casefold :: "string \<Rightarrow> string" where
  "py_casefold s = concat (map fold_char s)"

definition starts_with :: "string \<Rightarrow> string \<Rightarrow> bool" where
  "starts_with p s \<longleftrightarrow> take (length p) s = p"

fun contains :: "string \<Rightarrow> string \<Rightarrow> bool" where
  "contains p [] = (p = [])"
| "contains p (c # cs) = (starts_with p (c # cs) \<or> contains p cs)"

fun split_on :: "char \<Rightarrow> string \<Rightarrow> string list" where
  "split_on d [] = [[]]"
| "split_on d (c # cs) =
     (if c = d then [] # split_on d cs
      else (case split_on d cs of [] \<Rightarrow> [[c]] | w # ws \<Rightarrow> (c # w) # ws))"

definition is_lower_letter :: "char \<Rightarrow> bool" where
  "is_lower_letter c = (let n = (of_char c :: nat) in 97 \<le> n \<and> n \<le> 122)"

definition is_digit :: "char \<Rightarrow> bool" where
  "is_digit c = (let n = (of_char c :: nat) in 48 \<le> n \<and> n \<le> 57)"

definition is_lower_hex :: "char \<Rightarrow> bool" where
  "is_lower_hex c = (let n = (of_char c :: nat) in (48 \<le> n \<and> n \<le> 57) \<or> (97 \<le> n \<and> n \<le> 102))"

definition lower_char :: "char \<Rightarrow> char" where
  "lower_char c = (let n = (of_char c :: nat) in
     if (65 \<le> n \<and> n \<le> 90) \<or> (192 \<le> n \<and> n \<le> 222 \<and> n \<noteq> 215) then char_of (n + 32) else c)"

definition py_lower :: "string \<Rightarrow> string" where
  "py_lower s = map lower_char s"

definition digits_value :: "string \<Rightarrow> nat" where
  "digits_value s = foldl (\<lambda>n c. 10 * n + ((of_char c :: nat) - 48)) 0 s"

lemma starts_with_append [simp]: "starts_with p (p @ s)"
  by (simp add: starts_with_def)

lemma starts_with_iff: "starts_with p s \<longleftrightarrow> (\<exists>t. s = p @ t)"
  by (metis append_eq_conv_conj append_take_drop_id starts_with_def)

lemma split_on_not_Nil [simp]: "split_on d s \<noteq> []"
  by (induction s) (auto split: list.splits)

lemma split_on_no_delim: "d \<notin> set s \<Longrightarrow> split_on d s = [s]"
  by (induction s) auto

lemma split_on_append:
  "d \<notin> set a \<Longrightarrow> split_on d (a @ d # b) = a # split_on d b"
  by (induction a) auto

lemma contains_char: "contains [c] s \<longleftrightarrow> c \<in> set s"
  by (induction s) (auto simp: starts_with_def)

lemma dropWhile_idem_id: "(\<And>x. x \<in> set xs \<Longrightarrow> \<not> P x) \<Longrightarrow> dropWhile P xs = xs"
  by (cases xs) auto

lemma py_strip_no_space: "(\<And>c. c \<in> set s \<Longrightarrow> \<not> is_space c) \<Longrightarrow> py_strip s = s"
proof -
  assume a: "\<And>c. c \<in> set s \<Longrightarrow> \<not> is_space c"
  then have "dropWhile is_space s = s" by (rule dropWhile_idem_id)
  moreover from a have "dropWhile is_space (rev s) = rev s"
    by (intro dropWhile_idem_id) simp
  ultimately show ?thesis by (simp add: py_strip_def)
qed

lemma set_py_strip: "set (py_strip s) \<subseteq> set s"
  unfolding py_strip_def by (metis set_dropWhileD set_rev subsetI)

lemma length_py_strip: "length (py_strip s) \<le> length s"
  unfolding py_strip_def by (metis length_dropWhile_le length_rev order_trans)

lemma py_strip_Nil [simp]: "py_strip [] = []"
  by (simp add: py_strip_def)

text \<open>The decimal text of a natural number, as \<open>str\<close> and f-strings write it.\<close>

fun decimal :: "nat \<Rightarrow> string" where
  "decimal n = (if n < 10 then [char_of (48 + n)] else decimal (n div 10) @ [char_of (48 + n mod 10)])"

declare decimal.simps [simp del]

lemma of_char_digit: "a < 10 \<Longrightarrow> of_char (char_of (48 + a) :: char) = (48 + a :: nat)"
  by (simp add: take_bit_eq_mod)

lemma digit_char_inject: "a < 10 \<Longrightarrow> b < 10 \<Longrightarrow> (char_of (48 + a) :: char) = char_of (48 + b) \<Longrightarrow> a = (b :: nat)"
  using of_char_digit[of a] of_char_digit[of b] by simp

definition decimal_int :: "int \<Rightarrow> string" where
  "decimal_int i = (if i < 0 then ''-'' @ decimal (nat (- i)) else decimal (nat i))"

lemma decimal_not_Nil [simp]: "decimal n \<noteq> []"
  by (subst decimal.simps) simp

lemma length_decimal: "length (decimal n) = 1 \<longleftrightarrow> n < 10"
  by (subst decimal.simps) simp

lemma decimal_inject: "decimal m = decimal n \<longleftrightarrow> m = n"
proof
  show "decimal m = decimal n \<Longrightarrow> m = n"
  proof (induction m arbitrary: n rule: decimal.induct)
    case (1 m)
    show ?case
    proof (cases "m < 10")
      case True
      with "1.prems" have "n < 10" using length_decimal[of m] length_decimal[of n] by simp
      with True "1.prems" have "(char_of (48 + m) :: char) = char_of (48 + n)" by (simp add: decimal.simps[of m] decimal.simps[of n])
      with digit_char_inject[of m n] True \<open>n < 10\<close> show ?thesis by blast
    next
      case False
      with "1.prems" have n: "\<not> n < 10" using length_decimal[of m] length_decimal[of n] by simp
      with False "1.prems" have eq: "decimal (m div 10) @ [char_of (48 + m mod 10)] = decimal (n div 10) @ [char_of (48 + n mod 10)]"
        using decimal.simps[of m] decimal.simps[of n] by simp
      then have "decimal (m div 10) = decimal (n div 10)" by blast
      with "1.IH" False have "m div 10 = n div 10" by blast
      moreover have "m mod 10 = n mod 10" using eq digit_char_inject[of "m mod 10" "n mod 10"]
        unfolding append1_eq_conv by simp
      ultimately have "m div 10 = n div 10" "m mod 10 = n mod 10" by blast+
      then show ?thesis by (metis div_mult_mod_eq)
    qed
  qed
qed simp

lemma set_decimal: "c \<in> set (decimal n) \<Longrightarrow> 48 \<le> (of_char c :: nat) \<and> (of_char c :: nat) \<le> 57"
proof (induction n rule: decimal.induct)
  case (1 n)
  then show ?case
    using of_char_digit[of n] of_char_digit[of "n mod 10"]
    by (auto simp: decimal.simps[of n] split: if_splits)
qed

lemma is_digit_code: "d < 10 \<Longrightarrow> is_digit (char_of (48 + d))" for d :: nat
  by (simp add: is_digit_def of_char_digit Let_def del: of_char_of)

lemma decimal_digits: "c \<in> set (decimal n) \<Longrightarrow> is_digit c"
proof (induction n rule: decimal.induct)
  case (1 n)
  then show ?case using is_digit_code[of n] is_digit_code[of "n mod 10"]
    by (cases "n < 10") (auto simp: decimal.simps[of n])
qed

lemma digits_value_snoc: "digits_value (s @ [c]) = 10 * digits_value s + ((of_char c :: nat) - 48)"
  by (simp add: digits_value_def)

lemma digits_value_decimal: "digits_value (decimal n) = n"
proof (induction n rule: decimal.induct)
  case (1 n)
  show ?case
  proof (cases "n < 10")
    case True
    then show ?thesis using of_char_digit[of n] by (simp add: decimal.simps[of n] digits_value_def del: of_char_of)
  next
    case False
    then show ?thesis using 1 of_char_digit[of "n mod 10"]
      by (simp add: decimal.simps[of n] digits_value_snoc del: of_char_of)
  qed
qed

lemma length_decimal_le: "n < 10 ^ k \<Longrightarrow> 0 < k \<Longrightarrow> length (decimal n) \<le> k"
proof (induction k arbitrary: n)
  case (Suc k)
  show ?case
  proof (cases "n < 10")
    case False
    with Suc.prems have "n div 10 < 10 ^ k" by (simp add: less_mult_imp_div_less mult.commute)
    moreover from False Suc.prems have "0 < k" by (cases k) auto
    ultimately have "length (decimal (n div 10)) \<le> k" by (rule Suc.IH)
    with False show ?thesis by (simp add: decimal.simps[of n])
  qed (simp add: decimal.simps[of n])
qed simp

section \<open>Tables as lists of rows\<close>

text \<open>
  A table is the list of its rows in insertion order.  \<open>find_row\<close> is a \<open>SELECT\<close> by primary key,
  \<open>update_rows\<close> an \<open>UPDATE ... WHERE\<close>, \<open>filter\<close> a \<open>DELETE\<close>.
\<close>

definition find_row :: "('r \<Rightarrow> 'k) \<Rightarrow> 'k \<Rightarrow> 'r list \<Rightarrow> 'r option" where
  "find_row key k rows = List.find (\<lambda>r. key r = k) rows"

definition update_rows :: "('r \<Rightarrow> bool) \<Rightarrow> ('r \<Rightarrow> 'r) \<Rightarrow> 'r list \<Rightarrow> 'r list" where
  "update_rows P f rows = map (\<lambda>r. if P r then f r else r) rows"

definition count_rows :: "('r \<Rightarrow> bool) \<Rightarrow> 'r list \<Rightarrow> nat" where
  "count_rows P rows = length (filter P rows)"

lemma find_row_simps [simp]:
  "find_row key k [] = None"
  "find_row key k (r # rows) = (if key r = k then Some r else find_row key k rows)"
  by (simp_all add: find_row_def)

lemma find_row_append:
  "find_row key k (xs @ ys) = (case find_row key k xs of None \<Rightarrow> find_row key k ys | Some r \<Rightarrow> Some r)"
  by (induction xs) auto

lemma find_row_Some: "find_row key k rows = Some r \<Longrightarrow> r \<in> set rows \<and> key r = k"
  by (induction rows) (auto split: if_splits)

lemma find_row_None: "find_row key k rows = None \<longleftrightarrow> k \<notin> key ` set rows"
  by (induction rows) auto

lemma find_row_unique:
  "distinct (map key rows) \<Longrightarrow> r \<in> set rows \<Longrightarrow> find_row key (key r) rows = Some r"
  by (induction rows) (auto simp: image_iff)

lemma find_row_filter_other:
  "(\<And>r. r \<in> set rows \<Longrightarrow> key r = k \<Longrightarrow> P r) \<Longrightarrow> find_row key k (filter P rows) = find_row key k rows"
  by (induction rows) auto

lemma find_row_filter_drop:
  "(\<And>r. r \<in> set rows \<Longrightarrow> key r = k \<Longrightarrow> \<not> P r) \<Longrightarrow> find_row key k (filter P rows) = None"
  by (induction rows) auto

lemma map_key_update_rows:
  "(\<And>r. key (f r) = key r) \<Longrightarrow> map key (update_rows P f rows) = map key rows"
  by (simp add: update_rows_def)

lemma find_row_update_rows:
  "(\<And>r. key (f r) = key r) \<Longrightarrow>
     find_row key k (update_rows P f rows) =
     map_option (\<lambda>r. if P r then f r else r) (find_row key k rows)"
  by (induction rows) (auto simp: update_rows_def)

lemma set_update_rows: "set (update_rows P f rows) = (\<lambda>r. if P r then f r else r) ` set rows"
  by (simp add: update_rows_def)

lemma update_rows_none: "(\<And>r. r \<in> set rows \<Longrightarrow> \<not> P r) \<Longrightarrow> update_rows P f rows = rows"
  by (induction rows) (auto simp: update_rows_def)

lemma count_rows_zero: "count_rows P rows = 0 \<longleftrightarrow> (\<forall>r \<in> set rows. \<not> P r)"
  by (auto simp: count_rows_def filter_empty_conv)

lemma count_rows_unique:
  "distinct (map key rows) \<Longrightarrow>
     count_rows (\<lambda>r. key r = k \<and> P r) rows =
     (case find_row key k rows of None \<Rightarrow> 0 | Some r \<Rightarrow> if P r then 1 else 0)"
proof (induction rows)
  case Nil
  then show ?case by (simp add: count_rows_def)
next
  case (Cons r rows)
  have "key r = k \<Longrightarrow> filter (\<lambda>x. key x = k \<and> P x) rows = []"
    using Cons.prems by (auto simp: filter_empty_conv rev_image_eqI)
  then show ?case
    using Cons by (auto simp: count_rows_def)
qed

lemma distinct_map_filter_rows: "distinct (map f rows) \<Longrightarrow> distinct (map f (filter P rows))"
  by (induction rows) auto

lemma option_case_eq_Some:
  "(case x of None \<Rightarrow> None | Some y \<Rightarrow> f y) = Some z \<longleftrightarrow> (\<exists>y. x = Some y \<and> f y = Some z)"
  by (cases x) auto

section \<open>JSON documents\<close>

text \<open>
  The values \<open>json.dumps\<close> accepts and \<open>json.loads\<close> returns.  An object is the list of its members;
  \<open>json_get\<close> is the dictionary lookup.  Only the document structure is modelled: the text
  between \<open>dumps\<close> and \<open>loads\<close> is the standard library's.
\<close>

datatype json =
    JNull | JBool bool | JInt int | JStr string | JArr "json list" | JObj "(string \<times> json) list"

fun json_get :: "json \<Rightarrow> string \<Rightarrow> json option" where
  "json_get (JObj ms) k = map_of ms k"
| "json_get _ k = None"

fun json_string :: "json \<Rightarrow> string option" where
  "json_string (JStr s) = Some s"
| "json_string _ = None"

fun json_strings :: "json \<Rightarrow> string list option" where
  "json_strings (JArr js) = those (map json_string js)"
| "json_strings _ = None"

lemma json_strings_map [simp]: "json_strings (JArr (map JStr xs)) = Some xs"
  by (induction xs) auto

end
