(* ===== verification/Errors.thy ===== *)
theory Errors
  imports Prelude
begin

text \<open>
  The error vocabulary of \<open>src/src/dztgbot/domain/errors.py\<close>: the classification enums, the
  validating constructor of \<open>ErrorClassification\<close>, the domain exceptions with the classification
  each of them carries, and the type \<open>exn\<close> of every exception a modelled operation can raise.
  A dataclass whose \<open>__post_init__\<close> raises is a function into \<open>exn + record\<close>.
\<close>

section \<open>Classification enums\<close>

datatype error_kind =
    EK_VALIDATION | EK_AUTHENTICATION | EK_PERMISSION | EK_RATE_LIMIT | EK_CONNECTIVITY | EK_TIMEOUT
  | EK_PROVIDER_REJECTION | EK_PROVIDER_CONTRACT | EK_CONFLICT | EK_STALE_ACTION | EK_STORAGE
  | EK_INTERNAL

datatype operation =
    OP_WORKFLOW_TRANSITION | OP_CALLBACK | OP_PERSISTENCE | OP_ANALYSIS | OP_AUTHENTICATION
  | OP_JIRA_CREATE | OP_JIRA_UPDATE | OP_JIRA_ATTACHMENT | OP_VPN | OP_TELEGRAM

datatype retryability = RT_NEVER | RT_AUTOMATIC | RT_EXPLICIT

datatype mutation_certainty =
    MC_NOT_APPLICABLE | MC_NOT_DISPATCHED | MC_DEFINITELY_NOT_APPLIED | MC_UNKNOWN | MC_APPLIED

datatype safe_error_code =
    SC_INVALID_STATE_TRANSITION | SC_REVISION_CONFLICT | SC_STATE_CONFLICT | SC_STALE_ACTION
  | SC_VALIDATION_FAILED | SC_AUTHENTICATION_FAILED | SC_PERMISSION_DENIED | SC_RATE_LIMITED
  | SC_CONNECTIVITY_FAILED | SC_TIMED_OUT | SC_PROVIDER_REJECTED | SC_PROVIDER_CONTRACT_FAILED
  | SC_OUTCOME_UNKNOWN | SC_STORAGE_FAILED | SC_INTERNAL_FAILURE

fun safe_code_value :: "safe_error_code \<Rightarrow> string" where
  "safe_code_value SC_INVALID_STATE_TRANSITION = ''invalid_state_transition''"
| "safe_code_value SC_REVISION_CONFLICT = ''revision_conflict''"
| "safe_code_value SC_STATE_CONFLICT = ''state_conflict''"
| "safe_code_value SC_STALE_ACTION = ''stale_action''"
| "safe_code_value SC_VALIDATION_FAILED = ''validation_failed''"
| "safe_code_value SC_AUTHENTICATION_FAILED = ''authentication_failed''"
| "safe_code_value SC_PERMISSION_DENIED = ''permission_denied''"
| "safe_code_value SC_RATE_LIMITED = ''rate_limited''"
| "safe_code_value SC_CONNECTIVITY_FAILED = ''connectivity_failed''"
| "safe_code_value SC_TIMED_OUT = ''timed_out''"
| "safe_code_value SC_PROVIDER_REJECTED = ''provider_rejected''"
| "safe_code_value SC_PROVIDER_CONTRACT_FAILED = ''provider_contract_failed''"
| "safe_code_value SC_OUTCOME_UNKNOWN = ''outcome_unknown''"
| "safe_code_value SC_STORAGE_FAILED = ''storage_failed''"
| "safe_code_value SC_INTERNAL_FAILURE = ''internal_failure''"

fun mutating_operation :: "operation \<Rightarrow> bool" where
  "mutating_operation OP_JIRA_CREATE = True"
| "mutating_operation OP_JIRA_UPDATE = True"
| "mutating_operation OP_JIRA_ATTACHMENT = True"
| "mutating_operation _ = False"

fun certainly_retryable_outcome :: "mutation_certainty \<Rightarrow> bool" where
  "certainly_retryable_outcome MC_NOT_APPLICABLE = True"
| "certainly_retryable_outcome MC_NOT_DISPATCHED = True"
| "certainly_retryable_outcome MC_DEFINITELY_NOT_APPLIED = True"
| "certainly_retryable_outcome _ = False"

record classification =
  ec_kind :: error_kind
  ec_operation :: operation
  ec_retryability :: retryability
  ec_certainty :: mutation_certainty
  ec_safe_code :: safe_error_code

section \<open>Exceptions\<close>

text \<open>
  The subclasses of \<open>DomainError\<close> with the attributes their constructors store.  The state
  arguments are the state values (strings), as \<open>_state_value\<close> stores them.
\<close>

datatype domain_error =
    InvalidStateTransitionError string string
  | RevisionConflictError int int
  | StateConflictError string string
  | DraftNotFoundError string
  | DraftAccessDeniedError string int int
  | SubmissionServiceError classification
  | ClassifiedOperationError classification

datatype repository_error =
    WorkflowRepositoryError | WorkflowNotFoundError | WorkflowDataError | MigrationError
  | AttemptClaimConflictError | CallbackRecordConflictError

datatype exn =
    DomainError domain_error
  | RepositoryError repository_error string
  | ValueError string
  | TypeError string
  | IntegrityError
  | CallbackParseError string
  | IntakeValidationError string
  | AttachmentRejected string
  | UserStoreError string
  | RulesStoreError string
  | OSError
  | OtherError string

text \<open>\<open>ErrorClassification.__post_init__\<close>: the three guards in the order of the source.\<close>

definition ErrorClassification ::
  "error_kind \<Rightarrow> operation \<Rightarrow> retryability \<Rightarrow> mutation_certainty \<Rightarrow> safe_error_code \<Rightarrow>
   exn + classification" where
  "ErrorClassification kind op retry certainty code =
     (if certainty \<noteq> MC_NOT_APPLICABLE \<and> \<not> mutating_operation op then
        Inl (ValueError ''external mutation certainty is valid only for Jira mutations'')
      else if (certainty = MC_UNKNOWN \<or> certainty = MC_APPLIED) \<and> retry \<noteq> RT_NEVER then
        Inl (ValueError ''unknown or applied external mutations cannot be classified as retryable'')
      else if retry \<noteq> RT_NEVER \<and> \<not> certainly_retryable_outcome certainty then
        Inl (ValueError ''retry requires certainty that the external mutation was not applied'')
      else Inr \<lparr>ec_kind = kind, ec_operation = op, ec_retryability = retry,
                ec_certainty = certainty, ec_safe_code = code\<rparr>)"

definition can_retry :: "classification \<Rightarrow> bool" where
  "can_retry c \<longleftrightarrow> ec_retryability c \<noteq> RT_NEVER"

definition classification_requires_reconciliation :: "classification \<Rightarrow> bool" where
  "classification_requires_reconciliation c \<longleftrightarrow> ec_certainty c = MC_UNKNOWN"

definition classify_definite_mutation_failure ::
  "operation \<Rightarrow> error_kind \<Rightarrow> safe_error_code \<Rightarrow> retryability \<Rightarrow> bool \<Rightarrow> exn + classification" where
  "classify_definite_mutation_failure op kind code retry dispatched =
     (let certainty = (if dispatched then MC_DEFINITELY_NOT_APPLIED else MC_NOT_DISPATCHED)
      in ErrorClassification kind op retry certainty code)"

definition classify_unknown_mutation_outcome :: "operation \<Rightarrow> error_kind \<Rightarrow> exn + classification" where
  "classify_unknown_mutation_outcome op kind =
     ErrorClassification kind op RT_NEVER MC_UNKNOWN SC_OUTCOME_UNKNOWN"

text \<open>
  The classification a domain exception carries.  The constructors of the source build it with
  \<open>ErrorClassification(...)\<close>, which never raises on these arguments
  (\<open>domain_error_classification_valid\<close> below).
\<close>

definition plain_classification :: "error_kind \<Rightarrow> operation \<Rightarrow> safe_error_code \<Rightarrow> classification" where
  "plain_classification kind op code =
     \<lparr>ec_kind = kind, ec_operation = op, ec_retryability = RT_NEVER,
      ec_certainty = MC_NOT_APPLICABLE, ec_safe_code = code\<rparr>"

fun classification_of :: "domain_error \<Rightarrow> classification" where
  "classification_of (InvalidStateTransitionError _ _) =
     plain_classification EK_CONFLICT OP_WORKFLOW_TRANSITION SC_INVALID_STATE_TRANSITION"
| "classification_of (RevisionConflictError _ _) =
     plain_classification EK_STALE_ACTION OP_WORKFLOW_TRANSITION SC_REVISION_CONFLICT"
| "classification_of (StateConflictError _ _) =
     plain_classification EK_STALE_ACTION OP_WORKFLOW_TRANSITION SC_STATE_CONFLICT"
| "classification_of (DraftNotFoundError _) =
     plain_classification EK_STALE_ACTION OP_WORKFLOW_TRANSITION SC_STALE_ACTION"
| "classification_of (DraftAccessDeniedError _ _ _) =
     plain_classification EK_PERMISSION OP_WORKFLOW_TRANSITION SC_PERMISSION_DENIED"
| "classification_of (SubmissionServiceError c) = c"
| "classification_of (ClassifiedOperationError c) = c"

definition domain_error_code :: "domain_error \<Rightarrow> string" where
  "domain_error_code e = safe_code_value (ec_safe_code (classification_of e))"

section \<open>What the constructor guarantees\<close>

lemma ErrorClassification_Inr:
  "ErrorClassification kind op retry certainty code = Inr c \<longleftrightarrow>
     c = \<lparr>ec_kind = kind, ec_operation = op, ec_retryability = retry,
          ec_certainty = certainty, ec_safe_code = code\<rparr> \<and>
     (certainty = MC_NOT_APPLICABLE \<or> mutating_operation op) \<and>
     (retry = RT_NEVER \<or> certainly_retryable_outcome certainty)"
  by (cases certainty) (auto simp: ErrorClassification_def)

lemma domain_error_classification_valid:
  "ErrorClassification kind op RT_NEVER MC_NOT_APPLICABLE code = Inr (plain_classification kind op code)"
  by (simp add: ErrorClassification_def plain_classification_def)

text \<open>
  Retry safety of the error taxonomy: whatever arguments an \<open>ErrorClassification\<close> is built
  from, if the constructor accepts them then an external mutation whose outcome is unknown or
  that was applied is not retryable, an unknown outcome always demands reconciliation, and any
  statement about an external mutation is about a Jira mutation.
\<close>

theorem classification_retry_safe:
  assumes "ErrorClassification kind op retry certainty code = Inr c"
  shows "(can_retry c \<longrightarrow> ec_certainty c \<noteq> MC_UNKNOWN \<and> ec_certainty c \<noteq> MC_APPLIED) \<and>
         (classification_requires_reconciliation c \<longrightarrow> \<not> can_retry c) \<and>
         (ec_certainty c \<noteq> MC_NOT_APPLICABLE \<longrightarrow> mutating_operation (ec_operation c))"
  using assms
  by (auto simp: ErrorClassification_Inr can_retry_def classification_requires_reconciliation_def)

theorem classification_retry_safe_witness:
  "\<exists>c. ErrorClassification EK_RATE_LIMIT OP_JIRA_CREATE RT_EXPLICIT MC_DEFINITELY_NOT_APPLIED
         SC_RATE_LIMITED = Inr c \<and> can_retry c \<and> ec_certainty c \<noteq> MC_UNKNOWN"
proof -
  let ?c = "\<lparr>ec_kind = EK_RATE_LIMIT, ec_operation = OP_JIRA_CREATE, ec_retryability = RT_EXPLICIT,
             ec_certainty = MC_DEFINITELY_NOT_APPLIED, ec_safe_code = SC_RATE_LIMITED\<rparr>"
  have built: "ErrorClassification EK_RATE_LIMIT OP_JIRA_CREATE RT_EXPLICIT MC_DEFINITELY_NOT_APPLIED
         SC_RATE_LIMITED = Inr ?c"
    by (simp add: ErrorClassification_def)
  then show ?thesis
    using classification_retry_safe [OF built] by (auto simp: can_retry_def)
qed

end
