(* ===== verification/Fsm.thy ===== *)
theory Fsm
  imports Errors
begin

text \<open>
  The workflow state machine of \<open>src/src/dztgbot/domain/fsm.py\<close>: the nineteen durable states, the
  table of legal transitions, the compare-and-swap command and \<open>evaluate_transition\<close>.  The
  lemmas read the table (terminal, expirable and unknown-outcome states), and the reachability
  results say which histories the table allows.
\<close>

section \<open>States and legal transitions\<close>

datatype draft_state =
    COLLECTING | ANALYZING | ANALYSIS_FAILED | REVIEW | EDITING | SUBMITTING | SUBMISSION_RETRYABLE
  | SUBMISSION_UNKNOWN | CREATED | ATTACHING | ATTACHMENT_PARTIAL | COMPLETE | UPDATE_REVIEW
  | UPDATING | UPDATE_RETRYABLE | UPDATE_UNKNOWN | CANCELLED | EXPIRED | ABANDONED_UNKNOWN

fun state_value :: "draft_state \<Rightarrow> string" where
  "state_value COLLECTING = ''collecting''"
| "state_value ANALYZING = ''analyzing''"
| "state_value ANALYSIS_FAILED = ''analysis_failed''"
| "state_value REVIEW = ''review''"
| "state_value EDITING = ''editing''"
| "state_value SUBMITTING = ''submitting''"
| "state_value SUBMISSION_RETRYABLE = ''submission_retryable''"
| "state_value SUBMISSION_UNKNOWN = ''submission_unknown''"
| "state_value CREATED = ''created''"
| "state_value ATTACHING = ''attaching''"
| "state_value ATTACHMENT_PARTIAL = ''attachment_partial''"
| "state_value COMPLETE = ''complete''"
| "state_value UPDATE_REVIEW = ''update_review''"
| "state_value UPDATING = ''updating''"
| "state_value UPDATE_RETRYABLE = ''update_retryable''"
| "state_value UPDATE_UNKNOWN = ''update_unknown''"
| "state_value CANCELLED = ''cancelled''"
| "state_value EXPIRED = ''expired''"
| "state_value ABANDONED_UNKNOWN = ''abandoned_unknown''"

definition all_states :: "draft_state list" where
  "all_states = [COLLECTING, ANALYZING, ANALYSIS_FAILED, REVIEW, EDITING, SUBMITTING,
     SUBMISSION_RETRYABLE, SUBMISSION_UNKNOWN, CREATED, ATTACHING, ATTACHMENT_PARTIAL, COMPLETE,
     UPDATE_REVIEW, UPDATING, UPDATE_RETRYABLE, UPDATE_UNKNOWN, CANCELLED, EXPIRED, ABANDONED_UNKNOWN]"

text \<open>The lookup \<open>DraftState(value)\<close> of the enum, which raises on a value that is no member.\<close>

definition draft_state_of_value :: "string \<Rightarrow> exn + draft_state" where
  "draft_state_of_value v =
     (case List.find (\<lambda>s. state_value s = v) all_states of
        None \<Rightarrow> Inl (ValueError ''not a valid DraftState'') | Some s \<Rightarrow> Inr s)"

fun allowed_targets :: "draft_state \<Rightarrow> draft_state list" where
  "allowed_targets COLLECTING = [ANALYZING, REVIEW, CANCELLED, EXPIRED]"
| "allowed_targets ANALYZING = [REVIEW, ANALYSIS_FAILED, CANCELLED]"
| "allowed_targets ANALYSIS_FAILED = [ANALYZING, CANCELLED, EXPIRED]"
| "allowed_targets REVIEW = [EDITING, SUBMITTING, CANCELLED, EXPIRED]"
| "allowed_targets EDITING = [REVIEW, CANCELLED, EXPIRED]"
| "allowed_targets SUBMITTING = [CREATED, SUBMISSION_RETRYABLE, SUBMISSION_UNKNOWN]"
| "allowed_targets SUBMISSION_RETRYABLE = [SUBMITTING, EDITING, CANCELLED, EXPIRED]"
| "allowed_targets SUBMISSION_UNKNOWN = [CREATED, SUBMISSION_RETRYABLE, ABANDONED_UNKNOWN]"
| "allowed_targets CREATED = [ATTACHING, COMPLETE]"
| "allowed_targets ATTACHING = [COMPLETE, ATTACHMENT_PARTIAL]"
| "allowed_targets ATTACHMENT_PARTIAL = [ATTACHING, COMPLETE, UPDATE_REVIEW]"
| "allowed_targets COMPLETE = [UPDATE_REVIEW]"
| "allowed_targets UPDATE_REVIEW = [UPDATING, COMPLETE]"
| "allowed_targets UPDATING = [COMPLETE, UPDATE_RETRYABLE, UPDATE_UNKNOWN]"
| "allowed_targets UPDATE_RETRYABLE = [UPDATING, UPDATE_REVIEW, COMPLETE]"
| "allowed_targets UPDATE_UNKNOWN = [COMPLETE, UPDATE_RETRYABLE, ABANDONED_UNKNOWN]"
| "allowed_targets CANCELLED = []"
| "allowed_targets EXPIRED = []"
| "allowed_targets ABANDONED_UNKNOWN = []"

definition is_transition_allowed :: "draft_state \<Rightarrow> draft_state \<Rightarrow> bool" where
  "is_transition_allowed current target \<longleftrightarrow> target \<in> set (allowed_targets current)"

definition unknown_outcome_states :: "draft_state list" where
  "unknown_outcome_states = [SUBMISSION_UNKNOWN, UPDATE_UNKNOWN, ABANDONED_UNKNOWN]"

definition expirable_states :: "draft_state list" where
  "expirable_states = [COLLECTING, ANALYSIS_FAILED, REVIEW, EDITING, SUBMISSION_RETRYABLE]"

definition terminal_states :: "draft_state list" where
  "terminal_states = [CANCELLED, EXPIRED, ABANDONED_UNKNOWN]"

definition is_expirable :: "draft_state \<Rightarrow> bool" where
  "is_expirable s \<longleftrightarrow> s \<in> set expirable_states"

definition requires_reconciliation :: "draft_state \<Rightarrow> bool" where
  "requires_reconciliation s \<longleftrightarrow> s \<in> set unknown_outcome_states"

definition validate_transition :: "draft_state \<Rightarrow> draft_state \<Rightarrow> exn + unit" where
  "validate_transition current target =
     (if \<not> is_transition_allowed current target
      then Inl (DomainError (InvalidStateTransitionError (state_value current) (state_value target)))
      else Inr ())"

section \<open>Compare-and-swap commands\<close>

record transition_command =
  tc_workflow_id :: string
  tc_expected_revision :: int
  tc_expected_state :: draft_state
  tc_target_state :: draft_state
  tc_reason_code :: "string option"

record transition_result =
  tr_workflow_id :: string
  tr_previous_state :: draft_state
  tr_current_state :: draft_state
  tr_previous_revision :: int
  tr_current_revision :: int
  tr_reason_code :: "string option"

text \<open>The pattern \<open>[a-z0-9][a-z0-9_.-]{0,63}\<close>, matched in full.\<close>

definition reason_char :: "char \<Rightarrow> bool" where
  "reason_char c \<longleftrightarrow> is_lower_letter c \<or> is_digit c \<or> c \<in> set ''_.-''"

definition reason_code_ok :: "string \<Rightarrow> bool" where
  "reason_code_ok r = (case r of [] \<Rightarrow> False
     | c # cs \<Rightarrow> (is_lower_letter c \<or> is_digit c) \<and> length cs \<le> 63 \<and> list_all reason_char cs)"

definition control_or_space :: "char \<Rightarrow> bool" where
  "control_or_space c \<longleftrightarrow> is_space c \<or> (of_char c :: nat) < 32"

definition TransitionCommand ::
  "string \<Rightarrow> int \<Rightarrow> draft_state \<Rightarrow> draft_state \<Rightarrow> string option \<Rightarrow> exn + transition_command" where
  "TransitionCommand wid erev est tgt reason =
     (if wid = [] \<or> length wid > 128 then
        Inl (ValueError ''workflow_id must contain 1 to 128 characters'')
      else if list_ex control_or_space wid then
        Inl (ValueError ''workflow_id must not contain whitespace or control characters'')
      else if erev < 1 then Inl (ValueError ''expected_revision must be at least 1'')
      else if (case reason of None \<Rightarrow> False | Some r \<Rightarrow> \<not> reason_code_ok r) then
        Inl (ValueError ''reason_code must be a safe lowercase code'')
      else Inr \<lparr>tc_workflow_id = wid, tc_expected_revision = erev, tc_expected_state = est,
                tc_target_state = tgt, tc_reason_code = reason\<rparr>)"

definition TransitionResult ::
  "string \<Rightarrow> draft_state \<Rightarrow> draft_state \<Rightarrow> int \<Rightarrow> int \<Rightarrow> string option \<Rightarrow> exn + transition_result" where
  "TransitionResult wid pst cst prev cur reason =
     (if prev < 1 then Inl (ValueError ''previous_revision must be at least 1'')
      else if cur \<noteq> prev + 1 then Inl (ValueError ''current_revision must increment exactly once'')
      else Inr \<lparr>tr_workflow_id = wid, tr_previous_state = pst, tr_current_state = cst,
                tr_previous_revision = prev, tr_current_revision = cur, tr_reason_code = reason\<rparr>)"

definition evaluate_transition ::
  "transition_command \<Rightarrow> draft_state \<Rightarrow> int \<Rightarrow> exn + transition_result" where
  "evaluate_transition cmd actual_state actual_revision =
     (if actual_revision \<noteq> tc_expected_revision cmd then
        Inl (DomainError (RevisionConflictError (tc_expected_revision cmd) actual_revision))
      else if actual_state \<noteq> tc_expected_state cmd then
        Inl (DomainError (StateConflictError (state_value (tc_expected_state cmd))
                                             (state_value actual_state)))
      else rbind (validate_transition actual_state (tc_target_state cmd)) (\<lambda>_.
        TransitionResult (tc_workflow_id cmd) actual_state (tc_target_state cmd)
          actual_revision (actual_revision + 1) (tc_reason_code cmd)))"

section \<open>Facts of the table\<close>

lemma all_states_complete [simp]: "s \<in> set all_states"
  by (cases s) (simp_all add: all_states_def)

text \<open>The states are an enumeration of the library, so that quantifiers over them are computed.\<close>

instantiation draft_state :: enum
begin

definition enum_draft_state :: "draft_state list" where
  "enum_draft_state = all_states"

definition enum_all_draft_state :: "(draft_state \<Rightarrow> bool) \<Rightarrow> bool" where
  "enum_all_draft_state P = list_all P all_states"

definition enum_ex_draft_state :: "(draft_state \<Rightarrow> bool) \<Rightarrow> bool" where
  "enum_ex_draft_state P = list_ex P all_states"

instance
proof
  show "(UNIV :: draft_state set) = set enum_class.enum" by (auto simp: enum_draft_state_def all_states_complete)
  show "distinct (enum_class.enum :: draft_state list)" by (simp add: enum_draft_state_def all_states_def)
  show "enum_class.enum_all P \<longleftrightarrow> Ball UNIV P" "enum_class.enum_ex P \<longleftrightarrow> Bex UNIV P" for P :: "draft_state \<Rightarrow> bool"
    by (auto simp: enum_all_draft_state_def enum_ex_draft_state_def list_all_iff list_ex_iff all_states_complete)
qed

end

lemma state_value_inj: "state_value s = state_value t \<Longrightarrow> s = t"
  by (cases s; cases t) simp_all

lemma state_value_inj_iff [simp]: "state_value s = state_value t \<longleftrightarrow> s = t"
  by (auto dest: state_value_inj)

lemma state_value_nonempty [simp]: "state_value s \<noteq> []"
  by (cases s) simp_all

lemma draft_state_of_value [simp]: "draft_state_of_value (state_value s) = Inr s"
  by (cases s) (simp_all add: draft_state_of_value_def all_states_def)

lemma draft_state_of_value_Inr: "draft_state_of_value v = Inr s \<Longrightarrow> v = state_value s"
  by (auto simp: draft_state_of_value_def find_Some_iff split: option.splits)

lemma validate_transition_Inr [simp]:
  "validate_transition s t = Inr u \<longleftrightarrow> is_transition_allowed s t"
  by (simp add: validate_transition_def)

lemma TransitionCommand_Inr:
  "TransitionCommand wid erev est tgt reason = Inr cmd \<longleftrightarrow>
     wid \<noteq> [] \<and> length wid \<le> 128 \<and> \<not> list_ex control_or_space wid \<and> 1 \<le> erev \<and>
     (\<forall>r. reason = Some r \<longrightarrow> reason_code_ok r) \<and>
     cmd = \<lparr>tc_workflow_id = wid, tc_expected_revision = erev, tc_expected_state = est,
            tc_target_state = tgt, tc_reason_code = reason\<rparr>"
  by (auto simp: TransitionCommand_def split: option.splits)

lemma allowed_irrefl [fsm_facts]: "\<not> is_transition_allowed s s"
  by (cases s) (simp_all add: is_transition_allowed_def)

lemma expirable_targets [fsm_facts]: "is_transition_allowed s EXPIRED \<longleftrightarrow> is_expirable s"
  by (cases s) (simp_all add: is_transition_allowed_def is_expirable_def expirable_states_def)

lemma expired_not_expirable [simp]: "\<not> is_expirable EXPIRED"
  by (simp add: is_expirable_def expirable_states_def)

text \<open>A workflow starts in COLLECTING: it is the only state that no transition enters.\<close>

lemma only_collecting_is_initial: "\<forall>t. (\<forall>s. \<not> is_transition_allowed s t) \<longleftrightarrow> t = COLLECTING"
  by code_simp

text \<open>
  The three derived sets of the state machine agree with its transition table: a state is
  terminal exactly when it has no successor, ordinary expiry may act on a state exactly when the
  table has an edge from it to EXPIRED, and a state in which a Jira mutation is in flight
  (SUBMITTING, UPDATING, ATTACHING) can be neither cancelled nor expired.
\<close>

theorem state_sets_match_table:
  "(allowed_targets s = [] \<longleftrightarrow> s \<in> set terminal_states) \<and>
   (is_transition_allowed s EXPIRED \<longleftrightarrow> is_expirable s) \<and>
   (s \<in> {SUBMITTING, UPDATING, ATTACHING} \<longrightarrow>
      \<not> is_transition_allowed s CANCELLED \<and> \<not> is_expirable s)"
  by (cases s) (simp_all add: is_transition_allowed_def is_expirable_def expirable_states_def
      terminal_states_def)

theorem state_sets_match_table_witness:
  "\<not> is_transition_allowed SUBMITTING CANCELLED"
  using state_sets_match_table [of SUBMITTING] by simp

section \<open>Histories of one workflow\<close>

text \<open>
  \<open>fsm_run s p\<close>: the states \<open>p\<close> follow \<open>s\<close> by legal transitions.  \<open>reaches\<close> is the reflexive and
  transitive closure of the table.
\<close>

fun fsm_run :: "draft_state \<Rightarrow> draft_state list \<Rightarrow> bool" where
  "fsm_run s [] = True"
| "fsm_run s (t # p) = (is_transition_allowed s t \<and> fsm_run t p)"

inductive reaches :: "draft_state \<Rightarrow> draft_state \<Rightarrow> bool" where
  reaches_refl: "reaches s s"
| reaches_step: "reaches s t \<Longrightarrow> is_transition_allowed t u \<Longrightarrow> reaches s u"

inductive_cases reachesE: "reaches s t"

lemma reaches_trans: "reaches t u \<Longrightarrow> reaches s t \<Longrightarrow> reaches s u"
  by (induction rule: reaches.induct) (auto intro: reaches_step)

lemma reaches_closed:
  assumes "reaches s t" and "s \<in> S"
    and "\<And>x. x \<in> S \<Longrightarrow> set (allowed_targets x) \<subseteq> S"
  shows "t \<in> S"
  using assms
proof (induction rule: reaches.induct)
  case (reaches_step s t u)
  then show ?case by (auto simp: is_transition_allowed_def)
qed

lemma fsm_run_reaches: "fsm_run s p \<Longrightarrow> reaches s (last (s # p))"
proof (induction p arbitrary: s)
  case (Cons t p)
  then have "is_transition_allowed s t" and "reaches t (last (t # p))" by auto
  moreover have "reaches s t"
    using \<open>is_transition_allowed s t\<close> reaches_refl reaches_step by blast
  ultimately show ?case by (auto dest: reaches_trans)
qed (simp add: reaches_refl)

lemma fsm_run_append: "fsm_run s (p @ q) \<longleftrightarrow> fsm_run s p \<and> fsm_run (last (s # p)) q"
  by (induction p arbitrary: s) auto

definition post_create_states :: "draft_state set" where
  "post_create_states = {CREATED, ATTACHING, ATTACHMENT_PARTIAL, COMPLETE, UPDATE_REVIEW, UPDATING,
     UPDATE_RETRYABLE, UPDATE_UNKNOWN, ABANDONED_UNKNOWN}"

lemma post_create_closed [fsm_facts]:
  "x \<in> post_create_states \<Longrightarrow> set (allowed_targets x) \<subseteq> post_create_states"
  by (auto simp: post_create_states_def)

lemma created_reaches: "reaches CREATED s \<Longrightarrow> s \<in> post_create_states"
  by (rule reaches_closed [OF _ _ post_create_closed]) (auto simp: post_create_states_def)

text \<open>
  A workflow whose issue was created is never submitted again: no history that passes through
  CREATED ever returns to SUBMITTING, to the review states or to an open submission outcome, and
  it can no longer be cancelled or expire.
\<close>

theorem no_resubmission_after_create:
  assumes "reaches CREATED s"
  shows "s \<notin> {SUBMITTING, REVIEW, EDITING, SUBMISSION_RETRYABLE, SUBMISSION_UNKNOWN, COLLECTING,
              ANALYZING, ANALYSIS_FAILED, CANCELLED, EXPIRED}"
  using created_reaches [OF assms] by (auto simp: post_create_states_def)

theorem no_resubmission_after_create_witness:
  "reaches CREATED UPDATING \<and> UPDATING \<noteq> SUBMITTING"
proof -
  have "reaches CREATED UPDATING"
    using fsm_run_reaches [of CREATED "[COMPLETE, UPDATE_REVIEW, UPDATING]"]
    by (simp add: is_transition_allowed_def)
  then show ?thesis using no_resubmission_after_create [of UPDATING] by simp
qed

lemma unknown_run_without_retryable:
  "fsm_run s p \<Longrightarrow> SUBMISSION_RETRYABLE \<notin> set p \<Longrightarrow> s \<in> insert SUBMISSION_UNKNOWN post_create_states \<Longrightarrow>
     set p \<subseteq> insert SUBMISSION_UNKNOWN post_create_states"
proof (induction p arbitrary: s)
  case (Cons t p)
  have "t \<in> insert SUBMISSION_UNKNOWN post_create_states"
    using Cons.prems by (cases s) (auto simp: is_transition_allowed_def post_create_states_def)
  with Cons show ?case by auto
qed simp

lemma update_unknown_run:
  "fsm_run s p \<Longrightarrow> UPDATE_RETRYABLE \<notin> set p \<Longrightarrow> COMPLETE \<notin> set p \<Longrightarrow>
     s \<in> {UPDATE_UNKNOWN, ABANDONED_UNKNOWN} \<Longrightarrow> set p \<subseteq> {UPDATE_UNKNOWN, ABANDONED_UNKNOWN}"
proof (induction p arbitrary: s)
  case (Cons t p)
  have "t \<in> {UPDATE_UNKNOWN, ABANDONED_UNKNOWN}"
    using Cons.prems by (cases s) (auto simp: is_transition_allowed_def)
  with Cons show ?case by auto
qed simp

text \<open>
  An unknown outcome is never dispatched again without a verdict: in every history from
  SUBMISSION_UNKNOWN that reaches SUBMITTING, the workflow was first put back to
  SUBMISSION_RETRYABLE, and in every history from UPDATE_UNKNOWN that reaches UPDATING the update
  was first resolved as retryable or as complete.
\<close>

theorem unknown_outcome_needs_verdict:
  "(fsm_run SUBMISSION_UNKNOWN p \<and> SUBMITTING \<in> set p \<longrightarrow> SUBMISSION_RETRYABLE \<in> set p) \<and>
   (fsm_run UPDATE_UNKNOWN q \<and> UPDATING \<in> set q \<longrightarrow> UPDATE_RETRYABLE \<in> set q \<or> COMPLETE \<in> set q)"
  using unknown_run_without_retryable [of SUBMISSION_UNKNOWN p] update_unknown_run [of UPDATE_UNKNOWN q]
  by (auto simp: post_create_states_def)

theorem unknown_outcome_needs_verdict_witness:
  "fsm_run SUBMISSION_UNKNOWN [SUBMISSION_RETRYABLE, SUBMITTING] \<and>
   fsm_run UPDATE_UNKNOWN [UPDATE_RETRYABLE, UPDATING] \<and>
   SUBMISSION_RETRYABLE \<in> set [SUBMISSION_RETRYABLE, SUBMITTING]"
  using unknown_outcome_needs_verdict [of "[SUBMISSION_RETRYABLE, SUBMITTING]" "[UPDATE_RETRYABLE, UPDATING]"]
  by (simp add: is_transition_allowed_def)

definition settled :: "draft_state \<Rightarrow> bool" where
  "settled s \<longleftrightarrow> s = COMPLETE \<or> s \<in> set terminal_states"

fun settle_path :: "draft_state \<Rightarrow> draft_state list" where
  "settle_path SUBMITTING = [CREATED, COMPLETE]"
| "settle_path COLLECTING = [CANCELLED]"
| "settle_path ANALYZING = [CANCELLED]"
| "settle_path ANALYSIS_FAILED = [CANCELLED]"
| "settle_path REVIEW = [CANCELLED]"
| "settle_path EDITING = [CANCELLED]"
| "settle_path SUBMISSION_RETRYABLE = [CANCELLED]"
| "settle_path SUBMISSION_UNKNOWN = [ABANDONED_UNKNOWN]"
| "settle_path CANCELLED = []"
| "settle_path EXPIRED = []"
| "settle_path ABANDONED_UNKNOWN = []"
| "settle_path COMPLETE = []"
| "settle_path _ = [COMPLETE]"

text \<open>
  No state of the table is a trap: from every state a settled one (COMPLETE or a terminal
  state) is reached by at most two legal transitions.
\<close>

theorem every_state_can_settle:
  "\<exists>p. fsm_run s p \<and> length p \<le> 2 \<and> settled (last (s # p))"
proof -
  have "fsm_run s (settle_path s) \<and> length (settle_path s) \<le> 2 \<and> settled (last (s # settle_path s))"
    by (cases s) (simp_all add: is_transition_allowed_def settled_def terminal_states_def)
  then show ?thesis by blast
qed

section \<open>Compare-and-swap\<close>

lemma evaluate_transition_Inr:
  "evaluate_transition cmd st rv = Inr res \<longleftrightarrow>
     rv = tc_expected_revision cmd \<and> st = tc_expected_state cmd \<and>
     is_transition_allowed st (tc_target_state cmd) \<and> 1 \<le> rv \<and>
     res = \<lparr>tr_workflow_id = tc_workflow_id cmd, tr_previous_state = st,
            tr_current_state = tc_target_state cmd, tr_previous_revision = rv,
            tr_current_revision = rv + 1, tr_reason_code = tc_reason_code cmd\<rparr>"
  by (auto simp: evaluate_transition_def TransitionResult_def rbind_eq_Inr)

lemma evaluate_transition_illegal:
  "rv = tc_expected_revision cmd \<Longrightarrow> st = tc_expected_state cmd \<Longrightarrow>
     \<not> is_transition_allowed st (tc_target_state cmd) \<Longrightarrow>
     evaluate_transition cmd st rv =
       Inl (DomainError (InvalidStateTransitionError (state_value st) (state_value (tc_target_state cmd))))"
  by (simp add: evaluate_transition_def validate_transition_def)

text \<open>
  Compare-and-swap has one winner: once a command against version \<open>rv\<close> has been accepted, every
  command built against the same version, whatever it asks for and from whichever worker, is
  refused with a revision conflict at the version the winner left, and so is the winner's replay.
\<close>

theorem cas_single_winner:
  assumes "evaluate_transition winner st rv = Inr res"
    and "tc_expected_revision loser = rv"
  shows "evaluate_transition loser (tr_current_state res) (tr_current_revision res) =
           Inl (DomainError (RevisionConflictError rv (rv + 1))) \<and>
         tr_current_revision res = tr_previous_revision res + 1 \<and>
         is_transition_allowed (tr_previous_state res) (tr_current_state res)"
proof -
  from assms(1) have "tr_current_revision res = rv + 1" and "tr_previous_revision res = rv"
    and "is_transition_allowed (tr_previous_state res) (tr_current_state res)"
    by (auto simp: evaluate_transition_Inr)
  with assms(2) show ?thesis by (simp add: evaluate_transition_def)
qed

definition sample_cas :: "draft_state \<Rightarrow> transition_command" where
  "sample_cas target = \<lparr>tc_workflow_id = ''d1'', tc_expected_revision = 3, tc_expected_state = REVIEW,
     tc_target_state = target, tc_reason_code = None\<rparr>"

theorem cas_single_winner_witness:
  "\<exists>res. evaluate_transition (sample_cas SUBMITTING) REVIEW 3 = Inr res \<and>
     evaluate_transition (sample_cas CANCELLED) (tr_current_state res) (tr_current_revision res) =
       Inl (DomainError (RevisionConflictError 3 4))"
proof -
  obtain res where ok: "evaluate_transition (sample_cas SUBMITTING) REVIEW 3 = Inr res"
    by (simp add: evaluate_transition_Inr sample_cas_def is_transition_allowed_def)
  have "tc_expected_revision (sample_cas CANCELLED) = 3" by (simp add: sample_cas_def)
  from cas_single_winner [OF ok this] ok show ?thesis by auto
qed

end
