(* ===== verification/Models.thy ===== *)
theory Models
  imports Fsm
begin

text \<open>
  The domain entities of \<open>src/src/dztgbot/domain/models.py\<close>.  Every frozen dataclass is a record;
  its \<open>__post_init__\<close> is a function \<open>*_post_init\<close> that returns the record or the exception, which
  is also what \<open>dataclasses.replace\<close> runs on the updated copy.  A \<open>datetime\<close> is an instant in
  microseconds, either timezone-aware or naive.
\<close>

section \<open>Instants\<close>

datatype datetime = Aware (dt_instant: int) | Naive (dt_instant: int)

fun tz_aware :: "datetime \<Rightarrow> bool" where
  "tz_aware (Aware _) = True"
| "tz_aware (Naive _) = False"

lemma tz_aware_conv: "tz_aware d \<longleftrightarrow> d = Aware (dt_instant d)"
  by (cases d) simp_all

definition opt_tz_aware :: "datetime option \<Rightarrow> bool" where
  "opt_tz_aware d = (case d of None \<Rightarrow> True | Some x \<Rightarrow> tz_aware x)"

lemma opt_tz_aware_simps [simp]:
  "opt_tz_aware None" "opt_tz_aware (Some d) = tz_aware d"
  by (simp_all add: opt_tz_aware_def)

section \<open>Value objects\<close>

datatype media_kind = MEDIA_TEXT | MEDIA_PHOTO | MEDIA_DOCUMENT | MEDIA_VIDEO | MEDIA_VOICE

record jira_template =
  jt_project_key :: string
  jt_issue_type :: string
  jt_summary :: string
  jt_description :: string
  jt_priority :: string
  jt_labels :: "string list"
  jt_components :: "string list"
  jt_assignee :: string
  jt_acceptance_criteria :: "string list"

record source_message =
  sm_message_id :: int
  sm_chat_id :: int
  sm_sender_id :: int
  sm_text :: string
  sm_media_kind :: media_kind
  sm_received_at :: datetime

definition source_message_post_init :: "source_message \<Rightarrow> exn + source_message" where
  "source_message_post_init m =
     (if sm_message_id m \<le> 0 then Inl (ValueError ''message_id must be positive'')
      else if sm_chat_id m = 0 then Inl (ValueError ''chat_id must not be 0'')
      else if sm_sender_id m \<le> 0 then Inl (ValueError ''sender_id must be positive'')
      else if \<not> tz_aware (sm_received_at m) then
        Inl (ValueError ''received_at must be timezone-aware (UTC)'')
      else Inr m)"

record attachment =
  at_file_id :: string
  at_file_unique_id :: string
  at_media_kind :: media_kind
  at_file_name :: "string option"
  at_file_size :: "int option"
  at_uploaded_id :: "string option"

definition attachment_post_init :: "attachment \<Rightarrow> exn + attachment" where
  "attachment_post_init a =
     (if at_file_id a = [] \<or> at_file_unique_id a = []
      then Inl (ValueError ''file_id and file_unique_id must not be empty'') else Inr a)"

record submission_attempt =
  sa_attempt_id :: string
  sa_draft_id :: string
  sa_request_hash :: string
  sa_attempt_number :: int
  sa_started_at :: datetime
  sa_completed_at :: "datetime option"
  sa_status :: string
  sa_error_summary :: "string option"

definition submission_attempt_post_init :: "submission_attempt \<Rightarrow> exn + submission_attempt" where
  "submission_attempt_post_init a =
     (if sa_attempt_id a = [] \<or> sa_draft_id a = [] then
        Inl (ValueError ''attempt_id and draft_id must not be empty'')
      else if sa_attempt_number a \<le> 0 then Inl (ValueError ''attempt_number must be positive'')
      else if \<not> tz_aware (sa_started_at a) then
        Inl (ValueError ''started_at must be timezone-aware (UTC)'')
      else if \<not> opt_tz_aware (sa_completed_at a) then
        Inl (ValueError ''completed_at must be timezone-aware (UTC)'')
      else Inr a)"

record published_issue =
  pi_issue_key :: string
  pi_issue_id :: string
  pi_issue_url :: string
  pi_published_at :: datetime

definition published_issue_post_init :: "published_issue \<Rightarrow> exn + published_issue" where
  "published_issue_post_init p =
     (if pi_issue_key p = [] \<or> pi_issue_url p = [] then
        Inl (ValueError ''issue_key and issue_url must not be empty'')
      else if \<not> tz_aware (pi_published_at p) then
        Inl (ValueError ''published_at must be timezone-aware (UTC)'')
      else Inr p)"

section \<open>The draft aggregate\<close>

record draft =
  d_draft_id :: string
  d_owner_id :: int
  d_chat_id :: int
  d_thread_id :: "int option"
  d_state :: draft_state
  d_revision :: int
  d_template :: "jira_template option"
  d_source_messages :: "source_message list"
  d_attachments :: "attachment list"
  d_created_at :: datetime
  d_updated_at :: datetime
  d_published_issue :: "published_issue option"
  d_last_error :: "string option"

definition draft_post_init :: "draft \<Rightarrow> exn + draft" where
  "draft_post_init d =
     (if d_draft_id d = [] then Inl (ValueError ''draft_id must not be empty'')
      else if d_owner_id d \<le> 0 then Inl (ValueError ''owner_id must be a positive integer'')
      else if d_chat_id d = 0 then Inl (ValueError ''chat_id must not be 0'')
      else if d_revision d < 1 then Inl (ValueError ''revision must be >= 1'')
      else if \<not> tz_aware (d_created_at d) \<or> \<not> tz_aware (d_updated_at d) then
        Inl (ValueError ''created_at and updated_at must be timezone-aware (UTC)'')
      else Inr d)"

text \<open>
  \<open>Draft.create_new\<close>, with the clock reading \<open>now\<close> and the fresh identifier \<open>new_id\<close> of
  \<open>uuid4\<close> as arguments; an absent or empty \<open>draft_id\<close> selects the fresh one.
\<close>

definition draft_create_new ::
  "int \<Rightarrow> string \<Rightarrow> int \<Rightarrow> int \<Rightarrow> int option \<Rightarrow> string option \<Rightarrow> exn + draft" where
  "draft_create_new now new_id owner chat thread did =
     draft_post_init
       \<lparr>d_draft_id = (case did of None \<Rightarrow> new_id | Some i \<Rightarrow> if i = [] then new_id else i),
        d_owner_id = owner, d_chat_id = chat, d_thread_id = thread, d_state = COLLECTING,
        d_revision = 1, d_template = None, d_source_messages = [], d_attachments = [],
        d_created_at = Aware now, d_updated_at = Aware now, d_published_issue = None,
        d_last_error = None\<rparr>"

section \<open>Views of Jira issues\<close>

record jira_transition_view =
  tv_transition_id :: string
  tv_name :: string
  tv_to_status :: string
  tv_has_screen :: bool

definition transition_view_post_init :: "jira_transition_view \<Rightarrow> exn + jira_transition_view" where
  "transition_view_post_init t =
     (if tv_transition_id t = [] \<or> tv_name t = [] \<or> tv_to_status t = []
      then Inl (ValueError ''transition_id, name, and to_status must not be empty'') else Inr t)"

record jira_issue_view =
  iv_issue_key :: string
  iv_issue_id :: string
  iv_summary :: string
  iv_status :: string
  iv_priority :: string
  iv_assignee :: string
  iv_reporter :: string
  iv_epic_key :: string
  iv_epic_name :: string
  iv_sprint_name :: string
  iv_is_flagged :: bool
  iv_blocker_keys :: "string list"
  iv_description :: string
  iv_issue_url :: string
  iv_last_comment_summary :: string
  iv_updated_at :: string
  iv_is_watching :: bool

definition issue_view_post_init :: "jira_issue_view \<Rightarrow> exn + jira_issue_view" where
  "issue_view_post_init v =
     (if iv_issue_key v = [] \<or> iv_issue_id v = []
      then Inl (ValueError ''issue_key and issue_id must not be empty'') else Inr v)"

record jira_search_result =
  sr_total :: int
  sr_issues :: "jira_issue_view list"
  sr_jql :: string

section \<open>What the constructors guarantee\<close>

definition valid_draft :: "draft \<Rightarrow> bool" where
  "valid_draft d \<longleftrightarrow> d_draft_id d \<noteq> [] \<and> 0 < d_owner_id d \<and> d_chat_id d \<noteq> 0 \<and> 1 \<le> d_revision d \<and>
     tz_aware (d_created_at d) \<and> tz_aware (d_updated_at d)"

lemma draft_post_init_Inr [simp]: "draft_post_init d = Inr d' \<longleftrightarrow> d' = d \<and> valid_draft d"
  by (auto simp: draft_post_init_def valid_draft_def)

definition valid_source :: "source_message \<Rightarrow> bool" where
  "valid_source m \<longleftrightarrow> 0 < sm_message_id m \<and> sm_chat_id m \<noteq> 0 \<and> 0 < sm_sender_id m \<and> tz_aware (sm_received_at m)"

lemma source_message_post_init_Inr [simp]:
  "source_message_post_init m = Inr m' \<longleftrightarrow> m' = m \<and> valid_source m"
  by (auto simp: source_message_post_init_def valid_source_def)

definition valid_attachment :: "attachment \<Rightarrow> bool" where
  "valid_attachment a \<longleftrightarrow> at_file_id a \<noteq> [] \<and> at_file_unique_id a \<noteq> []"

lemma attachment_post_init_Inr [simp]:
  "attachment_post_init a = Inr a' \<longleftrightarrow> a' = a \<and> valid_attachment a"
  by (auto simp: attachment_post_init_def valid_attachment_def)

definition valid_published :: "published_issue \<Rightarrow> bool" where
  "valid_published p \<longleftrightarrow> pi_issue_key p \<noteq> [] \<and> pi_issue_url p \<noteq> [] \<and> tz_aware (pi_published_at p)"

lemma published_issue_post_init_Inr [simp]:
  "published_issue_post_init p = Inr p' \<longleftrightarrow> p' = p \<and> valid_published p"
  by (auto simp: published_issue_post_init_def valid_published_def)

definition valid_attempt :: "submission_attempt \<Rightarrow> bool" where
  "valid_attempt a \<longleftrightarrow> sa_attempt_id a \<noteq> [] \<and> sa_draft_id a \<noteq> [] \<and> 0 < sa_attempt_number a \<and>
     tz_aware (sa_started_at a) \<and> opt_tz_aware (sa_completed_at a)"

lemma submission_attempt_post_init_Inr [simp]:
  "submission_attempt_post_init a = Inr a' \<longleftrightarrow> a' = a \<and> valid_attempt a"
  by (auto simp: submission_attempt_post_init_def valid_attempt_def)

end
