(* ===== verification/Callbacks.thy ===== *)
theory Callbacks
  imports Models
begin

text \<open>
  The callback grammar of \<open>src/src/dztgbot/domain/callbacks.py\<close>: the twenty-three allowlisted
  actions, the wire format \<open>j1:<action>:<token>\<close> with its strict parser and encoder, and the
  records that bind an opaque token to an actor, a chat and a version of a draft.

  \<open>hashlib.sha256(...).hexdigest()\<close> is the argument \<open>sha\<close> of the definitions that hash.  The
  payload of a button is \<open>None\<close> or a string; the type test of the source has no counterpart.
\<close>

section \<open>Actions\<close>

datatype callback_action =
    A_CONFIRM | A_EDIT | A_CANCEL | A_COPY_LINK | A_COPY_SUMMARY | A_EDIT_PUBLISHED | A_TOGGLE_TYPE
  | A_TOGGLE_PRIORITY | A_RETRY | A_RECONCILE | A_MOVE_TRANSITION | A_SELECT_TRANSITION | A_QUICK_EDIT
  | A_ADD_COMMENT | A_BLOCK_ISSUE | A_UNBLOCK_ISSUE | A_ASSIGN_ISSUE | A_ASSIGN_ME | A_CREATE_SUBTASK
  | A_QUICK_FILTER | A_REFRESH_CARD | A_WATCH_ISSUE | A_UNWATCH_ISSUE

fun action_value :: "callback_action \<Rightarrow> string" where
  "action_value A_CONFIRM = ''cfm''"
| "action_value A_EDIT = ''edt''"
| "action_value A_CANCEL = ''cnl''"
| "action_value A_COPY_LINK = ''cpl''"
| "action_value A_COPY_SUMMARY = ''cps''"
| "action_value A_EDIT_PUBLISHED = ''edp''"
| "action_value A_TOGGLE_TYPE = ''ttyp''"
| "action_value A_TOGGLE_PRIORITY = ''tpri''"
| "action_value A_RETRY = ''rty''"
| "action_value A_RECONCILE = ''rcn''"
| "action_value A_MOVE_TRANSITION = ''mv''"
| "action_value A_SELECT_TRANSITION = ''smv''"
| "action_value A_QUICK_EDIT = ''qed''"
| "action_value A_ADD_COMMENT = ''cmt''"
| "action_value A_BLOCK_ISSUE = ''blk''"
| "action_value A_UNBLOCK_ISSUE = ''ubk''"
| "action_value A_ASSIGN_ISSUE = ''asn''"
| "action_value A_ASSIGN_ME = ''asme''"
| "action_value A_CREATE_SUBTASK = ''sub''"
| "action_value A_QUICK_FILTER = ''flt''"
| "action_value A_REFRESH_CARD = ''rfh''"
| "action_value A_WATCH_ISSUE = ''wtc''"
| "action_value A_UNWATCH_ISSUE = ''uwtc''"

definition all_actions :: "callback_action list" where
  "all_actions = [A_CONFIRM, A_EDIT, A_CANCEL, A_COPY_LINK, A_COPY_SUMMARY, A_EDIT_PUBLISHED,
     A_TOGGLE_TYPE, A_TOGGLE_PRIORITY, A_RETRY, A_RECONCILE, A_MOVE_TRANSITION, A_SELECT_TRANSITION,
     A_QUICK_EDIT, A_ADD_COMMENT, A_BLOCK_ISSUE, A_UNBLOCK_ISSUE, A_ASSIGN_ISSUE, A_ASSIGN_ME,
     A_CREATE_SUBTASK, A_QUICK_FILTER, A_REFRESH_CARD, A_WATCH_ISSUE, A_UNWATCH_ISSUE]"

definition allowlist :: "string list" where
  "allowlist = map action_value all_actions"

text \<open>\<open>CallbackAction(value)\<close>: the member with that value.\<close>

definition action_of_value :: "string \<Rightarrow> callback_action option" where
  "action_of_value v = List.find (\<lambda>a. action_value a = v) all_actions"

definition ONE_SHOT_ACTIONS :: "callback_action list" where
  "ONE_SHOT_ACTIONS = [A_CONFIRM, A_CANCEL, A_RETRY, A_RECONCILE, A_EDIT_PUBLISHED, A_SELECT_TRANSITION,
     A_BLOCK_ISSUE, A_UNBLOCK_ISSUE, A_ASSIGN_ME]"

definition default_one_shot :: "callback_action \<Rightarrow> bool" where
  "default_one_shot a \<longleftrightarrow> a \<in> set ONE_SHOT_ACTIONS"

lemma all_actions_complete [simp]: "a \<in> set all_actions"
  by (cases a) (simp_all add: all_actions_def)

lemma action_value_inj [simp]: "action_value a = action_value b \<longleftrightarrow> a = b"
  by (cases a; cases b) simp_all

lemma action_of_value_value [simp]: "action_of_value (action_value a) = Some a"
  by (cases a) (simp_all add: action_of_value_def all_actions_def)

lemma action_of_value_Some: "action_of_value v = Some a \<longleftrightarrow> v = action_value a"
proof
  assume "action_of_value v = Some a"
  then show "v = action_value a" by (auto simp: action_of_value_def find_Some_iff)
next
  assume "v = action_value a"
  then show "action_of_value v = Some a" by (simp only: action_of_value_value)
qed

lemma in_allowlist: "v \<in> set allowlist \<longleftrightarrow> (\<exists>a. v = action_value a)"
  by (auto simp: allowlist_def)

section \<open>Tokens and the wire format\<close>

definition CALLBACK_DATA_MAX_LENGTH :: nat where "CALLBACK_DATA_MAX_LENGTH = 64"
definition CALLBACK_VERSION :: string where "CALLBACK_VERSION = ''j1''"
definition OPAQUE_TOKEN_BYTES :: nat where "OPAQUE_TOKEN_BYTES = 16"
definition OPAQUE_TOKEN_HEX_LENGTH :: nat where "OPAQUE_TOKEN_HEX_LENGTH = OPAQUE_TOKEN_BYTES * 2"
definition TOKEN_HASH_HEX_LENGTH :: nat where "TOKEN_HASH_HEX_LENGTH = 64"

definition opaque_token_ok :: "string \<Rightarrow> bool" where
  "opaque_token_ok t \<longleftrightarrow> length t = OPAQUE_TOKEN_HEX_LENGTH \<and> list_all is_lower_hex t"

definition action_pattern_ok :: "string \<Rightarrow> bool" where
  "action_pattern_ok a \<longleftrightarrow> 2 \<le> length a \<and> length a \<le> 4 \<and> list_all is_lower_letter a"

text \<open>
  The full match of \<open>CALLBACK_DATA_PATTERN\<close>: its action and token groups.  The greedy
  \<open>[a-z]{2,4}\<close> needs no backtracking, because a colon is not a letter.
\<close>

definition callback_data_match :: "string \<Rightarrow> (string \<times> string) option" where
  "callback_data_match raw =
     (if starts_with (CALLBACK_VERSION @ '':'') raw then
        (let rest = drop (length CALLBACK_VERSION + 1) raw;
             action = takeWhile is_lower_letter rest;
             tail = dropWhile is_lower_letter rest
         in if action_pattern_ok action \<and> tail \<noteq> [] \<and> hd tail = CHR '':'' \<and> opaque_token_ok (tl tail)
            then Some (action, tl tail) else None)
      else None)"

record parsed_callback =
  pc_version :: string
  pc_action :: callback_action
  pc_opaque_token :: string

definition is_ascii :: "string \<Rightarrow> bool" where
  "is_ascii s \<longleftrightarrow> list_all (\<lambda>c. (of_char c :: nat) < 128) s"

definition parse_callback_data :: "string option \<Rightarrow> exn + parsed_callback" where
  "parse_callback_data raw_opt =
     (case raw_opt of
        None \<Rightarrow> Inl (CallbackParseError ''callback_data_missing'')
      | Some raw \<Rightarrow>
          if raw = [] then Inl (CallbackParseError ''callback_data_empty'')
          else if length raw > CALLBACK_DATA_MAX_LENGTH then
            Inl (CallbackParseError ''callback_data_too_long'')
          else if \<not> is_ascii raw then Inl (CallbackParseError ''callback_data_non_ascii'')
          else (case callback_data_match raw of
              None \<Rightarrow>
                if \<not> starts_with (CALLBACK_VERSION @ '':'') raw then
                  Inl (CallbackParseError ''callback_version_unsupported'')
                else (case split_on (CHR '':'') raw of
                    [_, action_part, token_part] \<Rightarrow>
                      if \<not> action_pattern_ok action_part then
                        Inl (CallbackParseError ''callback_action_alphabet'')
                      else if action_part \<notin> set allowlist then
                        Inl (CallbackParseError ''callback_action_unknown'')
                      else if \<not> opaque_token_ok token_part then
                        Inl (CallbackParseError ''callback_token_alphabet'')
                      else Inl (CallbackParseError ''callback_data_malformed'')
                  | _ \<Rightarrow> Inl (CallbackParseError ''callback_segment_count''))
            | Some (action, token) \<Rightarrow>
                (case action_of_value action of
                   None \<Rightarrow> Inl (CallbackParseError ''callback_action_unknown'')
                 | Some a \<Rightarrow> Inr \<lparr>pc_version = CALLBACK_VERSION, pc_action = a, pc_opaque_token = token\<rparr>)))"

text \<open>
  \<open>encode_callback_data\<close> takes the action's value: an enum member is passed as \<open>action_value\<close> of
  it, a plain string as it is.
\<close>

definition encode_callback_data :: "string \<Rightarrow> string \<Rightarrow> exn + string" where
  "encode_callback_data action token =
     (if action \<notin> set allowlist then Inl (CallbackParseError ''callback_action_unknown'')
      else if \<not> opaque_token_ok token then Inl (CallbackParseError ''callback_token_alphabet'')
      else
        (let encoded = CALLBACK_VERSION @ '':'' @ action @ '':'' @ token
         in if length encoded > CALLBACK_DATA_MAX_LENGTH then
              Inl (CallbackParseError ''callback_data_too_long'')
            else rbind (parse_callback_data (Some encoded)) (\<lambda>_. Inr encoded)))"

definition parsed_callback_encode :: "parsed_callback \<Rightarrow> exn + string" where
  "parsed_callback_encode p = encode_callback_data (action_value (pc_action p)) (pc_opaque_token p)"

definition generate_opaque_token :: "(nat \<Rightarrow> string) \<Rightarrow> nat \<Rightarrow> exn + string" where
  "generate_opaque_token token_hex nbytes =
     (if nbytes < OPAQUE_TOKEN_BYTES then
        Inl (ValueError ''opaque tokens must be at least 16 bytes (128 bits)'')
      else Inr (token_hex nbytes))"

definition hash_opaque_token :: "(string \<Rightarrow> string) \<Rightarrow> string \<Rightarrow> exn + string" where
  "hash_opaque_token sha token =
     (if \<not> opaque_token_ok token then Inl (CallbackParseError ''callback_token_alphabet'')
      else Inr (sha token))"

section \<open>Authorization records\<close>

record callback_token_record =
  ct_token_hash :: string
  ct_draft_id :: string
  ct_owner_user_id :: int
  ct_chat_id :: int
  ct_message_thread_id :: "int option"
  ct_preview_message_id :: "int option"
  ct_expected_revision :: int
  ct_expected_state :: string
  ct_action :: callback_action
  ct_expires_at :: datetime
  ct_one_shot :: bool
  ct_consumed_at :: "datetime option"

definition token_record_post_init :: "callback_token_record \<Rightarrow> exn + callback_token_record" where
  "token_record_post_init r =
     (if length (ct_token_hash r) \<noteq> TOKEN_HASH_HEX_LENGTH then
        Inl (ValueError ''token_hash must be a SHA-256 hex digest'')
      else if \<not> list_all is_lower_hex (ct_token_hash r) then
        Inl (ValueError ''token_hash must be lowercase hex'')
      else if ct_draft_id r = [] then Inl (ValueError ''draft_id must not be empty'')
      else if ct_owner_user_id r \<le> 0 then Inl (ValueError ''owner_user_id must be positive'')
      else if ct_chat_id r = 0 then Inl (ValueError ''chat_id must not be zero'')
      else if ct_expected_revision r < 1 then Inl (ValueError ''expected_revision must be >= 1'')
      else if ct_expected_state r = [] then Inl (ValueError ''expected_state must not be empty'')
      else if \<not> tz_aware (ct_expires_at r) then
        Inl (ValueError ''expires_at must be timezone-aware (UTC)'')
      else if \<not> opt_tz_aware (ct_consumed_at r) then
        Inl (ValueError ''consumed_at must be timezone-aware (UTC)'')
      else Inr r)"

record callback_auth_input =
  ai_actor_user_id :: int
  ai_chat_id :: int
  ai_chat_type :: string
  ai_message_thread_id :: "int option"
  ai_preview_message_id :: "int option"
  ai_action :: callback_action
  ai_opaque_token :: string
  ai_now :: datetime

definition auth_input_post_init :: "callback_auth_input \<Rightarrow> exn + callback_auth_input" where
  "auth_input_post_init i =
     (if ai_actor_user_id i \<le> 0 then Inl (ValueError ''actor_user_id must be positive'')
      else if ai_chat_id i = 0 then Inl (ValueError ''chat_id must not be zero'')
      else if \<not> tz_aware (ai_now i) then Inl (ValueError ''now must be timezone-aware (UTC)'')
      else if \<not> opaque_token_ok (ai_opaque_token i) then
        Inl (ValueError ''opaque_token failed alphabet/length checks'')
      else Inr i)"

definition build_token_record ::
  "(string \<Rightarrow> string) \<Rightarrow> string \<Rightarrow> string \<Rightarrow> int \<Rightarrow> int \<Rightarrow> callback_action \<Rightarrow> int \<Rightarrow> string \<Rightarrow> datetime \<Rightarrow>
   int option \<Rightarrow> int option \<Rightarrow> bool option \<Rightarrow> exn + callback_token_record" where
  "build_token_record sha token draft_id owner chat action rv st expires thread preview one_shot =
     rbind (hash_opaque_token sha token) (\<lambda>h.
       token_record_post_init
         \<lparr>ct_token_hash = h, ct_draft_id = draft_id, ct_owner_user_id = owner, ct_chat_id = chat,
          ct_message_thread_id = thread, ct_preview_message_id = preview,
          ct_expected_revision = rv, ct_expected_state = st, ct_action = action,
          ct_expires_at = expires,
          ct_one_shot = (case one_shot of None \<Rightarrow> default_one_shot action | Some b \<Rightarrow> b),
          ct_consumed_at = None\<rparr>)"

definition valid_token_record :: "callback_token_record \<Rightarrow> bool" where
  "valid_token_record r \<longleftrightarrow> length (ct_token_hash r) = TOKEN_HASH_HEX_LENGTH \<and>
     list_all is_lower_hex (ct_token_hash r) \<and> ct_draft_id r \<noteq> [] \<and> 0 < ct_owner_user_id r \<and>
     ct_chat_id r \<noteq> 0 \<and> 1 \<le> ct_expected_revision r \<and> ct_expected_state r \<noteq> [] \<and>
     tz_aware (ct_expires_at r) \<and> opt_tz_aware (ct_consumed_at r)"

lemma token_record_post_init_Inr [simp]:
  "token_record_post_init r = Inr r' \<longleftrightarrow> r' = r \<and> valid_token_record r"
  by (auto simp: token_record_post_init_def valid_token_record_def)

section \<open>The grammar is read and written consistently\<close>

lemma is_lower_letter_colon [simp]: "\<not> is_lower_letter (CHR '':'')"
  by (simp add: is_lower_letter_def)

lemma is_lower_hex_colon [simp]: "\<not> is_lower_hex (CHR '':'')"
  by (simp add: is_lower_hex_def)

lemma is_lower_hex_ascii: "is_lower_hex c \<Longrightarrow> (of_char c :: nat) < 128"
  by (auto simp: is_lower_hex_def Let_def)

lemma action_value_shape:
  "2 \<le> length (action_value a)" "length (action_value a) \<le> 4" "list_all is_lower_letter (action_value a)"
  "is_ascii (action_value a)"
  by (cases a; simp add: is_lower_letter_def is_ascii_def)+

lemma action_value_pattern [simp]: "action_pattern_ok (action_value a)"
  by (simp add: action_pattern_ok_def action_value_shape)

definition wire :: "callback_action \<Rightarrow> string \<Rightarrow> string" where
  "wire a token = CALLBACK_VERSION @ '':'' @ action_value a @ '':'' @ token"

lemma takeWhile_letters:
  "list_all is_lower_letter xs \<Longrightarrow> takeWhile is_lower_letter (xs @ CHR '':'' # ys) = xs"
  "list_all is_lower_letter xs \<Longrightarrow> dropWhile is_lower_letter (xs @ CHR '':'' # ys) = CHR '':'' # ys"
  by (induction xs) auto

lemma callback_data_match_wire:
  "opaque_token_ok token \<Longrightarrow> callback_data_match (wire a token) = Some (action_value a, token)"
  by (simp add: callback_data_match_def wire_def CALLBACK_VERSION_def starts_with_def Let_def
      takeWhile_letters action_value_shape)

lemma callback_data_match_Some:
  assumes "callback_data_match raw = Some (action, token)"
  shows "raw = CALLBACK_VERSION @ '':'' @ action @ '':'' @ token \<and> opaque_token_ok token"
proof -
  let ?rest = "drop (length CALLBACK_VERSION + 1) raw"
  let ?tail = "dropWhile is_lower_letter ?rest"
  from assms have pre: "starts_with (CALLBACK_VERSION @ '':'') raw"
    and tail: "?tail \<noteq> []" "hd ?tail = CHR '':''" "opaque_token_ok (tl ?tail)"
    and res: "action = takeWhile is_lower_letter ?rest" "token = tl ?tail"
    by (auto simp: callback_data_match_def Let_def split: if_splits)
  from pre have "raw = (CALLBACK_VERSION @ '':'') @ ?rest"
    by (auto simp: starts_with_iff)
  moreover have "?rest = action @ CHR '':'' # token"
    using tail res by (metis list.collapse takeWhile_dropWhile_id)
  ultimately show ?thesis using tail res by simp
qed

lemma wire_length: "opaque_token_ok token \<Longrightarrow> wire a token \<noteq> [] \<and> length (wire a token) \<le> 40"
  using action_value_shape(2) [of a]
  by (simp add: wire_def opaque_token_ok_def CALLBACK_VERSION_def OPAQUE_TOKEN_HEX_LENGTH_def
      OPAQUE_TOKEN_BYTES_def)

lemma wire_ascii: "opaque_token_ok token \<Longrightarrow> is_ascii (wire a token)"
  using action_value_shape(4) [of a]
  by (auto simp: wire_def opaque_token_ok_def CALLBACK_VERSION_def is_ascii_def list_all_iff
      is_lower_hex_ascii)

lemma parse_wire:
  "opaque_token_ok token \<Longrightarrow>
     parse_callback_data (Some (wire a token)) =
       Inr \<lparr>pc_version = CALLBACK_VERSION, pc_action = a, pc_opaque_token = token\<rparr>"
  using wire_length [of token a] wire_ascii [of token a]
  by (simp add: parse_callback_data_def callback_data_match_wire CALLBACK_DATA_MAX_LENGTH_def)

lemma encode_wire:
  "encode_callback_data (action_value a) token = Inr w \<longleftrightarrow> opaque_token_ok token \<and> w = wire a token"
proof (cases "opaque_token_ok token")
  case True
  have "\<not> CALLBACK_DATA_MAX_LENGTH < length (wire a token)"
    using wire_length [OF True, of a] by (simp add: CALLBACK_DATA_MAX_LENGTH_def)
  with True parse_wire [OF True, of a] show ?thesis
    by (auto simp: encode_callback_data_def in_allowlist Let_def wire_def)
qed (simp add: encode_callback_data_def)

lemma parse_Inr_wire:
  assumes "parse_callback_data (Some raw) = Inr p"
  shows "raw = wire (pc_action p) (pc_opaque_token p) \<and> opaque_token_ok (pc_opaque_token p) \<and>
         pc_version p = CALLBACK_VERSION"
  using assms
  by (auto simp: parse_callback_data_def wire_def action_of_value_Some
      split: if_splits option.splits prod.splits list.splits dest!: callback_data_match_Some)

text \<open>
  C1. The parser accepts exactly what the encoder writes: a payload parses to an action and a
  token if and only if encoding that action and token gives that payload back, so no two payloads
  mean the same button and no payload outside the grammar means any.
\<close>

theorem parse_iff_encode:
  "(parse_callback_data (Some raw) = Inr p) \<longleftrightarrow>
     (pc_version p = CALLBACK_VERSION \<and> parsed_callback_encode p = Inr raw)"
  using parse_Inr_wire [of raw p] parse_wire [of "pc_opaque_token p" "pc_action p"]
  by (auto simp: parsed_callback_encode_def encode_wire)

text \<open>
  The encoder never fails on a button the bot can render: for every allowlisted action and
  every well-formed 128-bit token it returns a payload, which is ASCII, within Telegram's 64 bytes
  (at most 40), and parses back to the same action and token.
\<close>

theorem encode_total_within_limit:
  assumes "opaque_token_ok token"
  shows "\<exists>w. encode_callback_data (action_value a) token = Inr w \<and> is_ascii w \<and>
             length w \<le> CALLBACK_DATA_MAX_LENGTH \<and>
             parse_callback_data (Some w) =
               Inr \<lparr>pc_version = CALLBACK_VERSION, pc_action = a, pc_opaque_token = token\<rparr>"
  using assms encode_wire [of a token "wire a token"] wire_length [OF assms, of a]
    wire_ascii [OF assms, of a] parse_wire [OF assms, of a]
  by (auto simp: CALLBACK_DATA_MAX_LENGTH_def)

definition sample_token :: string where "sample_token = ''0123456789abcdef0123456789abcdef''"

lemma sample_token_ok: "opaque_token_ok sample_token"
  by (simp add: opaque_token_ok_def sample_token_def is_lower_hex_def OPAQUE_TOKEN_HEX_LENGTH_def
      OPAQUE_TOKEN_BYTES_def)

theorem encode_total_within_limit_witness:
  "opaque_token_ok sample_token \<and>
   (\<exists>w. encode_callback_data (action_value A_TOGGLE_TYPE) sample_token = Inr w \<and>
        parse_callback_data (Some w) = Inr \<lparr>pc_version = CALLBACK_VERSION, pc_action = A_TOGGLE_TYPE,
          pc_opaque_token = sample_token\<rparr>)"
  using encode_total_within_limit [OF sample_token_ok, of A_TOGGLE_TYPE] sample_token_ok by blast

text \<open>The nine labels a refused payload can be reported with; none of them carries the payload.\<close>

definition parse_error_codes :: "string list" where
  "parse_error_codes = [''callback_data_missing'', ''callback_data_empty'', ''callback_data_too_long'',
     ''callback_data_non_ascii'', ''callback_version_unsupported'', ''callback_segment_count'',
     ''callback_action_alphabet'', ''callback_action_unknown'', ''callback_token_alphabet'']"

lemma split_on_segments:
  "split_on d s = [a, b, c] \<Longrightarrow> s = a @ d # b @ d # c \<and> d \<notin> set a \<and> d \<notin> set b"
proof -
  have one: "split_on d s = [x] \<Longrightarrow> s = x" for s x
    by (induction s arbitrary: x) (auto split: if_splits list.splits)
  have two: "split_on d s = [x, y] \<Longrightarrow> s = x @ d # y \<and> d \<notin> set x" for s x y
    by (induction s arbitrary: x) (auto split: if_splits list.splits dest: one)
  show "split_on d s = [a, b, c] \<Longrightarrow> ?thesis"
    by (induction s arbitrary: a) (auto split: if_splits list.splits dest: two)
qed

lemma segments_match:
  assumes "starts_with (CALLBACK_VERSION @ '':'') raw"
    and "split_on (CHR '':'') raw = [v, a, t]" and "action_pattern_ok a" and "opaque_token_ok t"
  shows "callback_data_match raw = Some (a, t)"
proof -
  from split_on_segments [OF assms(2)]
  have raw: "raw = v @ CHR '':'' # a @ CHR '':'' # t" and v: "CHR '':'' \<notin> set v" by auto
  from assms(1) obtain rest where "raw = CALLBACK_VERSION @ CHR '':'' # rest"
    by (auto simp: starts_with_iff)
  then have "split_on (CHR '':'') raw = CALLBACK_VERSION # split_on (CHR '':'') rest"
    by (simp add: split_on_append CALLBACK_VERSION_def)
  with assms(2) have "v = CALLBACK_VERSION" by simp
  with raw assms(1,3,4) show ?thesis
    by (simp add: callback_data_match_def Let_def takeWhile_letters action_pattern_ok_def)
qed

text \<open>
  A refused payload is reported by a fixed label: whatever an attacker sends, the parser either
  accepts it or raises \<open>CallbackParseError\<close> with one of nine constants of the program, so no part of
  the payload reaches a log through the error (and the fallback label
  \<open>callback_data_malformed\<close> is unreachable).
\<close>

theorem parse_errors_are_constants:
  "(\<exists>p. parse_callback_data raw = Inr p) \<or>
   parse_callback_data raw \<in> (\<lambda>c. Inl (CallbackParseError c)) ` set parse_error_codes"
proof -
  have "\<not> (\<exists>r v a t. raw = Some r \<and> callback_data_match r = None \<and>
          starts_with (CALLBACK_VERSION @ '':'') r \<and> split_on (CHR '':'') r = [v, a, t] \<and>
          action_pattern_ok a \<and> opaque_token_ok t)"
    using segments_match by fastforce
  then show ?thesis
    unfolding parse_callback_data_def
    by (auto simp: parse_error_codes_def split: option.splits list.splits)
qed

end
