(* ===== verification/Workflow_Tables.thy ===== *)
theory Workflow_Tables
  imports Callbacks
begin

text \<open>
  The schema of the workflow database (\<open>migrations/001_initial.sql\<close> to \<open>004_notifications.sql\<close> beside
  \<open>src/src/dztgbot/infrastructure/persistence/workflow_sqlite.py\<close>): one record per table row, its
  CHECK constraints, its PRIMARY KEY, UNIQUE and partial unique indexes as a clash relation between
  two rows, and the statements the repository issues (\<open>INSERT\<close>, \<open>UPDATE\<close>, \<open>DELETE\<close> with the foreign
  keys' \<open>ON DELETE CASCADE\<close>, \<open>ORDER BY ... LIMIT\<close>).

  The locale \<open>sql_table\<close> is the contract of one table: what an accepted statement keeps of the
  constraints.  It is interpreted on each of the eight tables.  A column restricted by
  CHECK to an enum's values has the enum as its type; the one column whose CHECK lists fewer
  values than the enum (\<open>callback_tokens.action\<close>) keeps it as a condition.  A timestamp column
  holds the UTC instant its text denotes: \<open>to_db_datetime\<close> writes fixed-width ISO text, whose
  order is the order of instants.
\<close>

section \<open>Timestamps and scalar checks\<close>

definition to_db_datetime :: "datetime \<Rightarrow> exn + datetime" where
  "to_db_datetime d =
     (if \<not> tz_aware d then Inl (ValueError ''datetime must be timezone-aware'')
      else Inr (Aware (dt_instant d)))"

definition from_db_datetime :: "datetime \<Rightarrow> exn + datetime" where
  "from_db_datetime d =
     (if \<not> tz_aware d then Inl (RepositoryError WorkflowDataError ''workflow_data_invalid'')
      else Inr (Aware (dt_instant d)))"

definition validate_datetime :: "datetime \<Rightarrow> exn + unit" where
  "validate_datetime d = ensure (tz_aware d) (ValueError ''must be timezone-aware'')"

definition validate_limit :: "int \<Rightarrow> exn + unit" where
  "validate_limit n = ensure (1 \<le> n \<and> n \<le> 10000) (ValueError ''limit must be between 1 and 10000'')"

definition safe_code_char :: "char \<Rightarrow> bool" where
  "safe_code_char c \<longleftrightarrow> is_lower_letter c \<or> is_digit c \<or> c \<in> set ''_.-''"

definition validate_safe_code :: "string option \<Rightarrow> exn + unit" where
  "validate_safe_code v =
     (case v of
        None \<Rightarrow> Inr ()
      | Some s \<Rightarrow> ensure (s \<noteq> [] \<and> length s \<le> 128 \<and> list_all safe_code_char s)
                        (ValueError ''must be a safe lowercase code''))"

definition opt_to_db :: "datetime option \<Rightarrow> exn + datetime option" where
  "opt_to_db d = (case d of None \<Rightarrow> Inr None | Some x \<Rightarrow> rbind (to_db_datetime x) (\<lambda>y. Inr (Some y)))"

definition opt_from_db :: "datetime option \<Rightarrow> exn + datetime option" where
  "opt_from_db d = (case d of None \<Rightarrow> Inr None | Some x \<Rightarrow> rbind (from_db_datetime x) (\<lambda>y. Inr (Some y)))"

lemma to_db_datetime_Inr [simp]: "to_db_datetime d = Inr d' \<longleftrightarrow> tz_aware d \<and> d' = d"
  by (cases d) (auto simp: to_db_datetime_def)

lemma from_db_datetime_Inr [simp]: "from_db_datetime d = Inr d' \<longleftrightarrow> tz_aware d \<and> d' = d"
  by (cases d) (auto simp: from_db_datetime_def)

lemma opt_to_db_Inr [simp]: "opt_to_db d = Inr d' \<longleftrightarrow> opt_tz_aware d \<and> d' = d"
  by (cases d) (auto simp: opt_to_db_def rbind_eq_Inr)

lemma opt_from_db_Inr [simp]: "opt_from_db d = Inr d' \<longleftrightarrow> opt_tz_aware d \<and> d' = d"
  by (cases d) (auto simp: opt_from_db_def rbind_eq_Inr)

lemma validate_datetime_Inr [simp]: "validate_datetime d = Inr u \<longleftrightarrow> tz_aware d"
  by (simp add: validate_datetime_def)

lemma validate_limit_Inr [simp]: "validate_limit n = Inr u \<longleftrightarrow> 1 \<le> n \<and> n \<le> 10000"
  by (simp add: validate_limit_def)

section \<open>Statements\<close>

definition sql_insert :: "('r \<Rightarrow> bool) \<Rightarrow> ('r \<Rightarrow> 'r \<Rightarrow> bool) \<Rightarrow> 'r \<Rightarrow> 'r list \<Rightarrow> exn + 'r list" where
  "sql_insert check clash r rows =
     (if check r \<and> list_all (\<lambda>x. \<not> clash x r) rows then Inr (rows @ [r]) else Inl IntegrityError)"

fun sql_insert_many ::
  "('r \<Rightarrow> bool) \<Rightarrow> ('r \<Rightarrow> 'r \<Rightarrow> bool) \<Rightarrow> 'r list \<Rightarrow> 'r list \<Rightarrow> exn + 'r list" where
  "sql_insert_many check clash [] rows = Inr rows"
| "sql_insert_many check clash (r # rs) rows =
     rbind (sql_insert check clash r rows) (sql_insert_many check clash rs)"

text \<open>
  \<open>UPDATE ... SET ... WHERE\<close> on columns that no unique index covers: the row count and the table,
  or an integrity error if an updated row fails its CHECK.
\<close>

definition sql_update :: "('r \<Rightarrow> bool) \<Rightarrow> ('r \<Rightarrow> bool) \<Rightarrow> ('r \<Rightarrow> 'r) \<Rightarrow> 'r list \<Rightarrow> exn + nat \<times> 'r list" where
  "sql_update check P f rows =
     (if list_all (\<lambda>r. P r \<longrightarrow> check (f r)) rows then Inr (count_rows P rows, update_rows P f rows)
      else Inl IntegrityError)"

text \<open>\<open>INSERT ... ON CONFLICT(key) DO UPDATE\<close>: the row with the same key takes the new values.\<close>

definition sql_upsert ::
  "('r \<Rightarrow> bool) \<Rightarrow> ('r \<Rightarrow> 'r \<Rightarrow> bool) \<Rightarrow> ('r \<Rightarrow> 'k) \<Rightarrow> 'r \<Rightarrow> 'r list \<Rightarrow> exn + 'r list" where
  "sql_upsert check clash key r rows =
     (if \<not> check r \<or> list_ex (\<lambda>x. key x \<noteq> key r \<and> clash x r) rows then Inl IntegrityError
      else if list_ex (\<lambda>x. key x = key r) rows
        then Inr (update_rows (\<lambda>x. key x = key r) (\<lambda>_. r) rows)
      else Inr (rows @ [r]))"

text \<open>\<open>SELECT ... WHERE P ORDER BY key LIMIT n\<close>.\<close>

definition sql_select :: "('r \<Rightarrow> bool) \<Rightarrow> ('r \<Rightarrow> 'k::linorder) \<Rightarrow> int \<Rightarrow> 'r list \<Rightarrow> 'r list" where
  "sql_select P key n rows = take (nat n) (sort_key key (filter P rows))"

definition table_ok :: "('r \<Rightarrow> bool) \<Rightarrow> ('r \<Rightarrow> 'r \<Rightarrow> bool) \<Rightarrow> 'r list \<Rightarrow> bool" where
  "table_ok check clash rows \<longleftrightarrow> list_all check rows \<and> sorted_wrt (\<lambda>x y. \<not> clash x y) rows"

lemma sql_select_subset: "set (sql_select P key n rows) \<subseteq> {r \<in> set rows. P r}"
  by (auto simp: sql_select_def dest: in_set_takeD)

lemma length_sql_select: "length (sql_select P key n rows) \<le> nat n"
  by (simp add: sql_select_def)

lemma sql_insert_Inr:
  "sql_insert check clash r rows = Inr rows' \<longleftrightarrow>
     check r \<and> (\<forall>x \<in> set rows. \<not> clash x r) \<and> rows' = rows @ [r]"
  by (auto simp: sql_insert_def list_all_iff)

lemma sql_insert_many_Inr:
  "sql_insert_many check clash rs rows = Inr rows' \<Longrightarrow> rows' = rows @ rs"
  by (induction rs arbitrary: rows) (fastforce simp: rbind_eq_Inr sql_insert_Inr)+

lemma sql_update_Inr:
  "sql_update check P f rows = Inr (n, rows') \<longleftrightarrow>
     (\<forall>r \<in> set rows. P r \<longrightarrow> check (f r)) \<and> n = count_rows P rows \<and> rows' = update_rows P f rows"
  by (auto simp: sql_update_def list_all_iff)

section \<open>The contract of one table\<close>

text \<open>
  The constraints of a table as its clients rely on them: the clash relation of its unique indexes
  is symmetric.  Every statement then keeps \<open>table_ok\<close>.
\<close>

locale sql_table =
  fixes check :: "'r \<Rightarrow> bool" and clash :: "'r \<Rightarrow> 'r \<Rightarrow> bool"
  assumes clash_sym: "clash x y \<longleftrightarrow> clash y x"
begin

lemma ok_Nil: "table_ok check clash []"
  by (simp add: table_ok_def)

lemma ok_insert: "table_ok check clash rows \<Longrightarrow> sql_insert check clash r rows = Inr rows' \<Longrightarrow> table_ok check clash rows'"
  by (auto simp: table_ok_def sql_insert_Inr sorted_wrt_append)

lemma ok_insert_many:
  "table_ok check clash rows \<Longrightarrow> sql_insert_many check clash rs rows = Inr rows' \<Longrightarrow>
     table_ok check clash rows'"
  by (induction rs arbitrary: rows) (auto simp: rbind_eq_Inr dest: ok_insert)

lemma ok_filter: "table_ok check clash rows \<Longrightarrow> table_ok check clash (filter P rows)"
  by (auto simp: table_ok_def list_all_iff sorted_wrt_filter)

lemma ok_update_rows:
  assumes "table_ok check clash rows"
    and "\<And>r. r \<in> set rows \<Longrightarrow> P r \<Longrightarrow> check (f r)"
    and "\<And>x y. x \<in> set rows \<Longrightarrow> y \<in> set rows \<Longrightarrow>
           clash (if P x then f x else x) (if P y then f y else y) \<Longrightarrow> clash x y"
  shows "table_ok check clash (update_rows P f rows)"
proof -
  from assms(1) have "sorted_wrt (\<lambda>x y. \<not> clash x y) rows" by (simp add: table_ok_def)
  then have "sorted_wrt (\<lambda>x y. \<not> clash (if P x then f x else x) (if P y then f y else y)) rows"
    by (rule sorted_wrt_mono_rel[rotated]) (use assms(3) in blast)
  with assms(1,2) show ?thesis
    by (auto simp: table_ok_def update_rows_def sorted_wrt_map list_all_iff)
qed

lemma ok_update:
  assumes "table_ok check clash rows" and "sql_update check P f rows = Inr (n, rows')"
    and "\<And>x y. x \<in> set rows \<Longrightarrow> y \<in> set rows \<Longrightarrow>
           clash (if P x then f x else x) (if P y then f y else y) \<Longrightarrow> clash x y"
  shows "table_ok check clash rows'"
  using ok_update_rows[OF assms(1) _ assms(3)] assms(2) by (auto simp: sql_update_Inr)

end

text \<open>A table whose key is unique: a \<open>SELECT\<close> by key finds at most the one row that has it.\<close>

locale keyed_table = sql_table check clash for check :: "'r \<Rightarrow> bool" and clash +
  fixes key :: "'r \<Rightarrow> 'k"
  assumes key_clash: "key x = key y \<Longrightarrow> clash x y"
begin

lemma ok_distinct: "table_ok check clash rows \<Longrightarrow> distinct (map key rows)"
  unfolding table_ok_def
  by (induction rows) (auto simp: image_iff dest: key_clash)

lemma ok_find: "table_ok check clash rows \<Longrightarrow> r \<in> set rows \<Longrightarrow> find_row key (key r) rows = Some r"
  by (simp add: find_row_unique ok_distinct)

lemma ok_count:
  "table_ok check clash rows \<Longrightarrow> count_rows (\<lambda>r. key r = k \<and> P r) rows =
     (case find_row key k rows of None \<Rightarrow> 0 | Some r \<Rightarrow> if P r then 1 else 0)"
  by (simp add: count_rows_unique ok_distinct)

lemma ok_upsert:
  assumes ok: "table_ok check clash rows" and up: "sql_upsert check clash key r rows = Inr rows'"
  shows "table_ok check clash rows'"
proof (cases "list_ex (\<lambda>x. key x = key r) rows")
  case True
  with up have rows': "rows' = update_rows (\<lambda>x. key x = key r) (\<lambda>_. r) rows" and c: "check r"
    and free: "\<And>x. x \<in> set rows \<Longrightarrow> key x \<noteq> key r \<Longrightarrow> \<not> clash x r"
    by (auto simp: sql_upsert_def list_ex_iff split: if_splits)
  show ?thesis unfolding rows'
    using ok c free by (intro ok_update_rows) (auto simp: clash_sym intro: key_clash split: if_splits)
next
  case False
  with up have "rows' = rows @ [r]" "check r" "\<forall>x \<in> set rows. \<not> clash x r"
    by (auto simp: sql_upsert_def list_ex_iff split: if_splits)
  with ok show ?thesis by (auto simp: table_ok_def sorted_wrt_append)
qed

end

section \<open>Rows and their constraints\<close>

datatype attachment_status = AS_PENDING | AS_UPLOADING | AS_UPLOADED | AS_FAILED | AS_SKIPPED

fun attachment_targets :: "attachment_status \<Rightarrow> attachment_status list" where
  "attachment_targets AS_PENDING = [AS_UPLOADING, AS_SKIPPED]"
| "attachment_targets AS_UPLOADING = [AS_UPLOADED, AS_FAILED]"
| "attachment_targets AS_FAILED = [AS_UPLOADING, AS_SKIPPED]"
| "attachment_targets AS_UPLOADED = []"
| "attachment_targets AS_SKIPPED = []"

record wf_row =
  w_draft_id :: string
  w_owner_id :: int
  w_chat_id :: int
  w_thread_id :: "int option"
  w_state :: draft_state
  w_revision :: int
  w_template_json :: "json option"
  w_created_at :: datetime
  w_updated_at :: datetime
  w_expires_at :: "datetime option"
  w_last_error :: "string option"

definition wf_check :: "wf_row \<Rightarrow> bool" where
  "wf_check r \<longleftrightarrow> 0 < w_owner_id r \<and> w_chat_id r \<noteq> 0 \<and> 1 \<le> w_revision r"

definition wf_clash :: "wf_row \<Rightarrow> wf_row \<Rightarrow> bool" where
  "wf_clash x y \<longleftrightarrow> w_draft_id x = w_draft_id y"

record src_row =
  s_draft_id :: string
  s_position :: nat
  s_message :: source_message

definition src_check :: "src_row \<Rightarrow> bool" where
  "src_check r \<longleftrightarrow> 0 < sm_message_id (s_message r) \<and> sm_chat_id (s_message r) \<noteq> 0 \<and>
     0 < sm_sender_id (s_message r)"

definition src_clash :: "src_row \<Rightarrow> src_row \<Rightarrow> bool" where
  "src_clash x y \<longleftrightarrow> s_draft_id x = s_draft_id y \<and>
     (s_position x = s_position y \<or>
      (sm_chat_id (s_message x) = sm_chat_id (s_message y) \<and>
       sm_message_id (s_message x) = sm_message_id (s_message y)))"

record att_row =
  q_draft_id :: string
  q_position :: nat
  q_attachment :: attachment
  q_status :: attachment_status
  q_last_error_code :: "string option"
  q_updated_at :: datetime

definition att_check :: "att_row \<Rightarrow> bool" where
  "att_check r \<longleftrightarrow> at_file_id (q_attachment r) \<noteq> [] \<and> at_file_unique_id (q_attachment r) \<noteq> [] \<and>
     (case at_file_size (q_attachment r) of None \<Rightarrow> True | Some n \<Rightarrow> 0 \<le> n)"

definition att_clash :: "att_row \<Rightarrow> att_row \<Rightarrow> bool" where
  "att_clash x y \<longleftrightarrow> q_draft_id x = q_draft_id y \<and>
     (q_position x = q_position y \<or>
      at_file_unique_id (q_attachment x) = at_file_unique_id (q_attachment y))"

record pub_row =
  u_draft_id :: string
  u_issue :: published_issue

definition pub_check :: "pub_row \<Rightarrow> bool" where
  "pub_check r \<longleftrightarrow> pi_issue_key (u_issue r) \<noteq> [] \<and> pi_issue_id (u_issue r) \<noteq> [] \<and> pi_issue_url (u_issue r) \<noteq> []"

definition pub_clash :: "pub_row \<Rightarrow> pub_row \<Rightarrow> bool" where
  "pub_clash x y \<longleftrightarrow> u_draft_id x = u_draft_id y \<or> pi_issue_key (u_issue x) = pi_issue_key (u_issue y)"

text \<open>The actions \<open>callback_tokens.action\<close> admits: ten of the twenty-three of the enum.\<close>

definition stored_actions :: "callback_action list" where
  "stored_actions = [A_CONFIRM, A_EDIT, A_CANCEL, A_COPY_LINK, A_COPY_SUMMARY, A_EDIT_PUBLISHED,
     A_TOGGLE_TYPE, A_TOGGLE_PRIORITY, A_RETRY, A_RECONCILE]"

definition cb_check :: "callback_token_record \<Rightarrow> bool" where
  "cb_check r \<longleftrightarrow> length (ct_token_hash r) = 64 \<and> list_all is_lower_hex (ct_token_hash r) \<and>
     0 < ct_owner_user_id r \<and> ct_chat_id r \<noteq> 0 \<and>
     (case ct_preview_message_id r of None \<Rightarrow> True | Some m \<Rightarrow> 0 < m) \<and>
     1 \<le> ct_expected_revision r \<and> ct_expected_state r \<in> set (map state_value all_states) \<and>
     ct_action r \<in> set stored_actions"

definition coalesce_preview :: "callback_token_record \<Rightarrow> int" where
  "coalesce_preview r = (case ct_preview_message_id r of None \<Rightarrow> -1 | Some m \<Rightarrow> m)"

definition cb_clash :: "callback_token_record \<Rightarrow> callback_token_record \<Rightarrow> bool" where
  "cb_clash x y \<longleftrightarrow> ct_token_hash x = ct_token_hash y \<or>
     (ct_draft_id x = ct_draft_id y \<and> ct_expected_revision x = ct_expected_revision y \<and>
      ct_action x = ct_action y \<and> coalesce_preview x = coalesce_preview y)"

definition attempt_statuses :: "string list" where
  "attempt_statuses = [''pending'', ''success'', ''failed'', ''unknown'']"

fun attempt_targets :: "string \<Rightarrow> string list" where
  "attempt_targets st =
     (if st = ''pending'' then [''success'', ''failed'', ''unknown'']
      else if st = ''unknown'' then [''success'', ''failed''] else [])"

definition sa_check :: "submission_attempt \<Rightarrow> bool" where
  "sa_check r \<longleftrightarrow> sa_request_hash r \<noteq> [] \<and> 0 < sa_attempt_number r \<and> sa_status r \<in> set attempt_statuses"

text \<open>The primary key, \<open>UNIQUE (draft_id, attempt_number)\<close> and \<open>uq_attempts_one_active_per_draft\<close>.\<close>

definition sa_clash :: "submission_attempt \<Rightarrow> submission_attempt \<Rightarrow> bool" where
  "sa_clash x y \<longleftrightarrow> sa_attempt_id x = sa_attempt_id y \<or>
     (sa_draft_id x = sa_draft_id y \<and>
      (sa_attempt_number x = sa_attempt_number y \<or>
       (sa_status x = ''pending'' \<and> sa_status y = ''pending'')))"

record card_row =
  c_chat_id :: int
  c_message_id :: int
  c_issue_key :: string
  c_owner_id :: int
  c_updated_at :: datetime

definition card_check :: "card_row \<Rightarrow> bool" where
  "card_check r \<longleftrightarrow> 2 \<le> length (c_issue_key r)"

definition card_key :: "card_row \<Rightarrow> int \<times> int" where
  "card_key r = (c_chat_id r, c_message_id r)"

definition card_clash :: "card_row \<Rightarrow> card_row \<Rightarrow> bool" where
  "card_clash x y \<longleftrightarrow> card_key x = card_key y"

record notif_row =
  n_user_id :: int
  n_issue_key :: string
  n_last_updated :: string

definition notif_key :: "notif_row \<Rightarrow> int \<times> string" where
  "notif_key r = (n_user_id r, n_issue_key r)"

definition notif_clash :: "notif_row \<Rightarrow> notif_row \<Rightarrow> bool" where
  "notif_clash x y \<longleftrightarrow> notif_key x = notif_key y"

interpretation wf: keyed_table wf_check wf_clash w_draft_id
  by unfold_locales (auto simp: wf_clash_def)

interpretation src: sql_table src_check src_clash
  by unfold_locales (auto simp: src_clash_def)

interpretation att: sql_table att_check att_clash
  by unfold_locales (auto simp: att_clash_def)

interpretation pub: keyed_table pub_check pub_clash u_draft_id
  by unfold_locales (auto simp: pub_clash_def)

interpretation cb: keyed_table cb_check cb_clash ct_token_hash
  by unfold_locales (auto simp: cb_clash_def)

interpretation sa: keyed_table sa_check sa_clash sa_attempt_id
  by unfold_locales (auto simp: sa_clash_def)

interpretation card: keyed_table card_check card_clash card_key
  by unfold_locales (auto simp: card_clash_def)

interpretation notif: keyed_table "\<lambda>_. True" notif_clash notif_key
  by unfold_locales (auto simp: notif_clash_def)

section \<open>The database\<close>

record db =
  db_workflows :: "wf_row list"
  db_sources :: "src_row list"
  db_attachments :: "att_row list"
  db_published :: "pub_row list"
  db_callbacks :: "callback_token_record list"
  db_attempts :: "submission_attempt list"
  db_cards :: "card_row list"
  db_notifications :: "notif_row list"

definition empty_db :: db where
  "empty_db = \<lparr>db_workflows = [], db_sources = [], db_attachments = [], db_published = [],
     db_callbacks = [], db_attempts = [], db_cards = [], db_notifications = []\<rparr>"

definition find_workflow :: "db \<Rightarrow> string \<Rightarrow> wf_row option" where
  "find_workflow d k = find_row w_draft_id k (db_workflows d)"

text \<open>\<open>DELETE FROM workflows WHERE P\<close> with the cascades of the five referencing tables.\<close>

definition delete_workflows :: "(wf_row \<Rightarrow> bool) \<Rightarrow> db \<Rightarrow> db" where
  "delete_workflows P d =
     (let gone = map w_draft_id (filter P (db_workflows d)) in
      d\<lparr>db_workflows := filter (\<lambda>r. \<not> P r) (db_workflows d),
        db_sources := filter (\<lambda>r. s_draft_id r \<notin> set gone) (db_sources d),
        db_attachments := filter (\<lambda>r. q_draft_id r \<notin> set gone) (db_attachments d),
        db_published := filter (\<lambda>r. u_draft_id r \<notin> set gone) (db_published d),
        db_callbacks := filter (\<lambda>r. ct_draft_id r \<notin> set gone) (db_callbacks d),
        db_attempts := filter (\<lambda>r. sa_draft_id r \<notin> set gone) (db_attempts d)\<rparr>)"

text \<open>
  The invariant of the database: every table keeps its constraints and every child row references a
  workflow.
\<close>

definition tables_ok :: "db \<Rightarrow> bool" where
  "tables_ok d \<longleftrightarrow>
     table_ok wf_check wf_clash (db_workflows d) \<and> table_ok src_check src_clash (db_sources d) \<and>
     table_ok att_check att_clash (db_attachments d) \<and> table_ok pub_check pub_clash (db_published d) \<and>
     table_ok cb_check cb_clash (db_callbacks d) \<and> table_ok sa_check sa_clash (db_attempts d) \<and>
     table_ok card_check card_clash (db_cards d) \<and> table_ok (\<lambda>_. True) notif_clash (db_notifications d)"

definition children_ok :: "db \<Rightarrow> bool" where
  "children_ok d \<longleftrightarrow>
     (let ids = w_draft_id ` set (db_workflows d) in
      s_draft_id ` set (db_sources d) \<subseteq> ids \<and> q_draft_id ` set (db_attachments d) \<subseteq> ids \<and>
      u_draft_id ` set (db_published d) \<subseteq> ids \<and> ct_draft_id ` set (db_callbacks d) \<subseteq> ids \<and>
      sa_draft_id ` set (db_attempts d) \<subseteq> ids)"

definition db_ok :: "db \<Rightarrow> bool" where
  "db_ok d \<longleftrightarrow> tables_ok d \<and> children_ok d"

lemma empty_db_ok: "db_ok empty_db"
  by (simp add: db_ok_def tables_ok_def children_ok_def empty_db_def table_ok_def)

lemma references_after_delete:
  "f ` set xs \<subseteq> key ` set rows \<Longrightarrow>
     f ` {x \<in> set xs. f x \<notin> key ` {r \<in> set rows. P r}} \<subseteq> key ` {r \<in> set rows. \<not> P r}"
  by blast

lemma delete_workflows_ok:
  assumes "db_ok d"
  shows "db_ok (delete_workflows P d)"
proof -
  have "tables_ok (delete_workflows P d)"
    using assms
    by (simp add: db_ok_def tables_ok_def delete_workflows_def Let_def wf.ok_filter src.ok_filter
        att.ok_filter pub.ok_filter cb.ok_filter sa.ok_filter)
  moreover have "children_ok (delete_workflows P d)"
    using assms
    by (simp add: db_ok_def children_ok_def delete_workflows_def Let_def references_after_delete)
  ultimately show ?thesis by (simp add: db_ok_def)
qed

end
