(* ===== verification/Workflow_Sqlite.thy ===== *)
theory Workflow_Sqlite
  imports Workflow_Tables
begin

text \<open>
  The operations of \<open>SQLiteWorkflowRepository\<close>
  (\<open>src/src/dztgbot/infrastructure/persistence/workflow_sqlite.py\<close>).  The body of an operation is a
  function from the database to a result and the database it commits, or the exception it
  raises: every body runs in a transaction that its \<open>except\<close> branch rolls back, so a raise leaves
  no database of its own.  \<open>repo_run\<close> is \<open>_run\<close>: the initialisation check, the body, and the
  translation of what the body raises.  The operations named \<open>repo_*\<close> are the public coroutines
  with the validation they do before \<open>_run\<close>; \<open>now\<close> stands for the clock reading inside a body.

  Not modelled: the connection itself (locking, busy timeouts, journal modes) and SQLite's 64-bit
  limit on integers; a foreign writer that stores a template document whose scalar fields are not
  strings.  Ties that a query leaves unordered come in insertion order.
\<close>

type_synonym 'a db_op = "db \<Rightarrow> exn + ('a \<times> db)"

record repo =
  rp_db :: db
  rp_initialized :: bool

section \<open>Running a body\<close>

fun translate_error :: "exn \<Rightarrow> exn" where
  "translate_error (DomainError e) = DomainError e"
| "translate_error (RepositoryError c m) = RepositoryError c m"
| "translate_error IntegrityError =
     RepositoryError WorkflowRepositoryError ''workflow_repository_operation_failed''"
| "translate_error (ValueError m) = RepositoryError WorkflowDataError ''workflow_data_invalid''"
| "translate_error (TypeError m) = RepositoryError WorkflowDataError ''workflow_data_invalid''"
| "translate_error (CallbackParseError m) = RepositoryError WorkflowDataError ''workflow_data_invalid''"
| "translate_error e = e"

definition repo_run :: "'a db_op \<Rightarrow> (repo, exn, 'a) sx" where
  "repo_run f = (\<lambda>s.
     if \<not> rp_initialized s then
       (Inl (RepositoryError WorkflowRepositoryError ''workflow_repository_not_initialized''), s)
     else (case f (rp_db s) of
         Inl e \<Rightarrow> (Inl (translate_error e), s)
       | Inr (x, d) \<Rightarrow> (Inr x, s\<lparr>rp_db := d\<rparr>)))"

definition rmap :: "('a \<Rightarrow> 'e + 'b) \<Rightarrow> 'a list \<Rightarrow> 'e + 'b list" where
  "rmap f xs = foldr (\<lambda>x acc. rbind (f x) (\<lambda>y. rbind acc (\<lambda>ys. Inr (y # ys)))) xs (Inr [])"

lemma rmap_simps [simp]:
  "rmap f [] = Inr []"
  "rmap f (x # xs) = rbind (f x) (\<lambda>y. rbind (rmap f xs) (\<lambda>ys. Inr (y # ys)))"
  by (simp_all add: rmap_def)

lemma rmap_same:
  "(\<And>x. x \<in> set xs \<Longrightarrow> f x = Inr (g x)) \<Longrightarrow> rmap f xs = Inr (map g xs)"
  by (induction xs) simp_all

section \<open>Template documents\<close>

definition template_to_json :: "jira_template option \<Rightarrow> json option" where
  "template_to_json tpl =
     (case tpl of
        None \<Rightarrow> None
      | Some t \<Rightarrow> Some (JObj
          [(''acceptance_criteria'', JArr (map JStr (jt_acceptance_criteria t))),
           (''assignee'', JStr (jt_assignee t)),
           (''components'', JArr (map JStr (jt_components t))),
           (''description'', JStr (jt_description t)),
           (''issue_type'', JStr (jt_issue_type t)),
           (''labels'', JArr (map JStr (jt_labels t))),
           (''priority'', JStr (jt_priority t)),
           (''project_key'', JStr (jt_project_key t)),
           (''summary'', JStr (jt_summary t))]))"

definition template_invalid :: exn where
  "template_invalid = RepositoryError WorkflowDataError ''workflow_template_invalid''"

definition json_field :: "(json \<Rightarrow> 'a option) \<Rightarrow> json \<Rightarrow> string \<Rightarrow> exn + 'a" where
  "json_field conv doc k =
     (case json_get doc k of
        None \<Rightarrow> Inl template_invalid
      | Some j \<Rightarrow> (case conv j of None \<Rightarrow> Inl template_invalid | Some x \<Rightarrow> Inr x))"

text \<open>\<open>tuple(value)\<close>: the elements of an array, the characters of a string.\<close>

fun json_sequence :: "json \<Rightarrow> string list option" where
  "json_sequence (JArr js) = those (map json_string js)"
| "json_sequence (JStr s) = Some (map (\<lambda>c. [c]) s)"
| "json_sequence (JObj ms) = Some (map fst ms)"
| "json_sequence _ = None"

definition template_from_json :: "json option \<Rightarrow> exn + jira_template option" where
  "template_from_json v =
     (case v of
        None \<Rightarrow> Inr None
      | Some doc \<Rightarrow>
          rbind (json_field json_string doc ''project_key'') (\<lambda>pk.
          rbind (json_field json_string doc ''issue_type'') (\<lambda>it.
          rbind (json_field json_string doc ''summary'') (\<lambda>su.
          rbind (json_field json_string doc ''description'') (\<lambda>de.
          rbind (json_field json_string doc ''priority'') (\<lambda>pr.
          rbind (json_field json_sequence doc ''labels'') (\<lambda>la.
          rbind (json_field json_sequence doc ''components'') (\<lambda>co.
          rbind (json_field json_string doc ''assignee'') (\<lambda>asg.
          rbind (json_field json_sequence doc ''acceptance_criteria'') (\<lambda>ac.
            Inr (Some \<lparr>jt_project_key = pk, jt_issue_type = it, jt_summary = su,
              jt_description = de, jt_priority = pr, jt_labels = la, jt_components = co,
              jt_assignee = asg, jt_acceptance_criteria = ac\<rparr>)))))))))))"

lemma those_json_string_map [simp]: "those (map (json_string \<circ> JStr) xs) = Some xs"
  by (induction xs) auto

lemma template_json_roundtrip [simp]: "template_from_json (template_to_json t) = Inr t"
  by (cases t) (simp_all add: template_from_json_def template_to_json_def json_field_def)

section \<open>save\<close>

definition save_guard :: "wf_row option \<Rightarrow> draft \<Rightarrow> exn + unit" where
  "save_guard existing dr =
     (case existing of
        None \<Rightarrow> Inr ()
      | Some r \<Rightarrow>
          if w_revision r \<noteq> d_revision dr - 1 then
            Inl (DomainError (RevisionConflictError (d_revision dr - 1) (w_revision r)))
          else if w_state r \<noteq> d_state dr then validate_transition (w_state r) (d_state dr)
          else Inr ())"

definition workflow_row_of :: "draft \<Rightarrow> datetime option \<Rightarrow> exn + wf_row" where
  "workflow_row_of dr expiry =
     rbind (to_db_datetime (d_created_at dr)) (\<lambda>cr.
     rbind (to_db_datetime (d_updated_at dr)) (\<lambda>up.
       Inr \<lparr>w_draft_id = d_draft_id dr, w_owner_id = d_owner_id dr, w_chat_id = d_chat_id dr,
            w_thread_id = d_thread_id dr, w_state = d_state dr, w_revision = d_revision dr,
            w_template_json = template_to_json (d_template dr), w_created_at = cr, w_updated_at = up,
            w_expires_at = expiry, w_last_error = d_last_error dr\<rparr>))"

definition save_workflow_row :: "wf_row option \<Rightarrow> draft \<Rightarrow> datetime option \<Rightarrow> db \<Rightarrow> exn + db" where
  "save_workflow_row existing dr expiry d =
     rbind (workflow_row_of dr expiry) (\<lambda>row.
       (case existing of
          None \<Rightarrow> rbind (sql_insert wf_check wf_clash row (db_workflows d))
                   (\<lambda>rows. Inr (d\<lparr>db_workflows := rows\<rparr>))
        | Some r \<Rightarrow>
            rbind (sql_update wf_check
                (\<lambda>x. w_draft_id x = d_draft_id dr \<and> w_revision x = d_revision dr - 1) (\<lambda>_. row) (db_workflows d))
              (\<lambda>(n, rows).
                 if n \<noteq> 1 then Inl (DomainError (RevisionConflictError (d_revision dr - 1) (w_revision r)))
                 else Inr (d\<lparr>db_workflows := rows\<rparr>))))"

definition save_sources :: "draft \<Rightarrow> db \<Rightarrow> exn + db" where
  "save_sources dr d =
     (let kept = filter (\<lambda>r. s_draft_id r \<noteq> d_draft_id dr) (db_sources d) in
      rbind (rmap (\<lambda>(i, m). rbind (to_db_datetime (sm_received_at m)) (\<lambda>at.
               Inr \<lparr>s_draft_id = d_draft_id dr, s_position = i, s_message = m\<lparr>sm_received_at := at\<rparr>\<rparr>))
             (enumerate 0 (d_source_messages dr))) (\<lambda>new.
      rbind (sql_insert_many src_check src_clash new kept) (\<lambda>rows. Inr (d\<lparr>db_sources := rows\<rparr>))))"

text \<open>
  The row of one attachment: an upload id on the draft wins, then the transfer metadata already
  stored under the same \<open>file_unique_id\<close>, then a fresh pending transfer.
\<close>

definition attachment_row :: "draft \<Rightarrow> att_row list \<Rightarrow> nat \<times> attachment \<Rightarrow> exn + att_row" where
  "attachment_row dr old = (\<lambda>(i, a).
     (let fresh = (\<lambda>st up. rbind (to_db_datetime (d_updated_at dr)) (\<lambda>at.
            Inr \<lparr>q_draft_id = d_draft_id dr, q_position = i, q_attachment = a\<lparr>at_uploaded_id := up\<rparr>,
                 q_status = st, q_last_error_code = None, q_updated_at = at\<rparr>))
      in if at_uploaded_id a \<noteq> None \<and> at_uploaded_id a \<noteq> Some [] then fresh AS_UPLOADED (at_uploaded_id a)
         else (case find_row (\<lambda>q. at_file_unique_id (q_attachment q)) (at_file_unique_id a) old of
             Some q \<Rightarrow> Inr \<lparr>q_draft_id = d_draft_id dr, q_position = i,
                 q_attachment = a\<lparr>at_uploaded_id := at_uploaded_id (q_attachment q)\<rparr>, q_status = q_status q,
                 q_last_error_code = q_last_error_code q, q_updated_at = q_updated_at q\<rparr>
           | None \<Rightarrow> fresh AS_PENDING None)))"

definition save_attachments :: "draft \<Rightarrow> db \<Rightarrow> exn + db" where
  "save_attachments dr d =
     (let old = filter (\<lambda>r. q_draft_id r = d_draft_id dr) (db_attachments d);
          kept = filter (\<lambda>r. q_draft_id r \<noteq> d_draft_id dr) (db_attachments d) in
      rbind (rmap (attachment_row dr old) (enumerate 0 (d_attachments dr))) (\<lambda>new.
      rbind (sql_insert_many att_check att_clash new kept) (\<lambda>rows. Inr (d\<lparr>db_attachments := rows\<rparr>))))"

definition upsert_published_issue :: "string \<Rightarrow> published_issue \<Rightarrow> db \<Rightarrow> exn + db" where
  "upsert_published_issue k issue d =
     rbind (to_db_datetime (pi_published_at issue)) (\<lambda>at.
     rbind (sql_upsert pub_check pub_clash u_draft_id
              \<lparr>u_draft_id = k, u_issue = issue\<lparr>pi_published_at := at\<rparr>\<rparr> (db_published d))
       (\<lambda>rows. Inr (d\<lparr>db_published := rows\<rparr>)))"

definition save_published :: "wf_row option \<Rightarrow> draft \<Rightarrow> db \<Rightarrow> exn + db" where
  "save_published existing dr d =
     (case d_published_issue dr of
        None \<Rightarrow> if existing = None
          then Inr (d\<lparr>db_published := filter (\<lambda>u. u_draft_id u \<noteq> d_draft_id dr) (db_published d)\<rparr>)
          else Inr d
      | Some issue \<Rightarrow> upsert_published_issue (d_draft_id dr) issue d)"

definition save_sync :: "draft \<Rightarrow> datetime option \<Rightarrow> unit db_op" where
  "save_sync dr expires_at d =
     (let existing = find_workflow d (d_draft_id dr) in
      rbind (save_guard existing dr) (\<lambda>_.
      rbind (case expires_at of
               Some e \<Rightarrow> rbind (to_db_datetime e) (\<lambda>x. Inr (Some x))
             | None \<Rightarrow> Inr (case existing of None \<Rightarrow> None | Some r \<Rightarrow> w_expires_at r)) (\<lambda>expiry.
      rbind (save_workflow_row existing dr expiry d) (\<lambda>d1.
      rbind (save_sources dr d1) (\<lambda>d2.
      rbind (save_attachments dr d2) (\<lambda>d3.
      rbind (save_published existing dr d3) (\<lambda>d4. Inr ((), d4))))))))"

definition repo_save :: "draft \<Rightarrow> datetime option \<Rightarrow> (repo, exn, unit) sx" where
  "repo_save dr expires_at =
     sx_bind (sx_lift (case expires_at of None \<Rightarrow> Inr () | Some e \<Rightarrow> validate_datetime e)) (\<lambda>_.
     sx_bind (sx_lift (validate_safe_code (d_last_error dr))) (\<lambda>_.
       repo_run (save_sync dr expires_at)))"

section \<open>Loading a draft\<close>

definition published_of_row :: "pub_row \<Rightarrow> exn + published_issue" where
  "published_of_row u =
     rbind (from_db_datetime (pi_published_at (u_issue u))) (\<lambda>at.
       published_issue_post_init ((u_issue u)\<lparr>pi_published_at := at\<rparr>))"

definition source_of_row :: "src_row \<Rightarrow> exn + source_message" where
  "source_of_row s =
     rbind (from_db_datetime (sm_received_at (s_message s))) (\<lambda>at.
       source_message_post_init ((s_message s)\<lparr>sm_received_at := at\<rparr>))"

definition load_draft :: "db \<Rightarrow> string \<Rightarrow> exn + draft option" where
  "load_draft d k =
     (case find_workflow d k of
        None \<Rightarrow> Inr None
      | Some row \<Rightarrow>
          (let source_rows = sort_key s_position (filter (\<lambda>s. s_draft_id s = k) (db_sources d));
               attachment_rows = sort_key q_position (filter (\<lambda>q. q_draft_id q = k) (db_attachments d));
               published_row = find_row u_draft_id k (db_published d) in
           rbind (case published_row of None \<Rightarrow> Inr None
                  | Some u \<Rightarrow> rbind (published_of_row u) (\<lambda>p. Inr (Some p))) (\<lambda>published.
           rbind (template_from_json (w_template_json row)) (\<lambda>tpl.
           rbind (rmap source_of_row source_rows) (\<lambda>srcs.
           rbind (rmap (\<lambda>q. attachment_post_init (q_attachment q)) attachment_rows) (\<lambda>atts.
           rbind (from_db_datetime (w_created_at row)) (\<lambda>cr.
           rbind (from_db_datetime (w_updated_at row)) (\<lambda>up.
           rbind (draft_post_init
             \<lparr>d_draft_id = w_draft_id row, d_owner_id = w_owner_id row, d_chat_id = w_chat_id row,
              d_thread_id = w_thread_id row, d_state = w_state row, d_revision = w_revision row,
              d_template = tpl, d_source_messages = srcs, d_attachments = atts, d_created_at = cr,
              d_updated_at = up, d_published_issue = published, d_last_error = w_last_error row\<rparr>)
             (\<lambda>dr. Inr (Some dr))))))))))"

definition get_by_id_sync :: "string \<Rightarrow> draft option db_op" where
  "get_by_id_sync k d = rbind (load_draft d k) (\<lambda>r. Inr (r, d))"

definition repo_get_by_id :: "string \<Rightarrow> (repo, exn, draft option) sx" where
  "repo_get_by_id k = repo_run (get_by_id_sync k)"

definition workflow_not_found :: exn where
  "workflow_not_found = RepositoryError WorkflowNotFoundError ''workflow_not_found''"

definition get_expiry_sync :: "string \<Rightarrow> datetime option db_op" where
  "get_expiry_sync k d =
     (case find_workflow d k of
        None \<Rightarrow> Inl workflow_not_found
      | Some row \<Rightarrow> rbind (opt_from_db (w_expires_at row)) (\<lambda>e. Inr (e, d)))"

definition repo_get_expiry :: "string \<Rightarrow> (repo, exn, datetime option) sx" where
  "repo_get_expiry k = repo_run (get_expiry_sync k)"

section \<open>Compare-and-swap and expiry\<close>

text \<open>\<open>EXPIRABLE_STATES\<close> decides whether the row keeps its expiry.\<close>

definition cas_sync :: "int \<Rightarrow> string \<Rightarrow> int \<Rightarrow> draft_state \<Rightarrow> string option \<Rightarrow> draft db_op" where
  "cas_sync now k expected_revision target last_error d =
     (case find_workflow d k of
        None \<Rightarrow> Inl workflow_not_found
      | Some row \<Rightarrow>
          rbind (TransitionCommand k expected_revision (w_state row) target (Some ''repository.cas'')) (\<lambda>cmd.
          rbind (evaluate_transition cmd (w_state row) (w_revision row)) (\<lambda>res.
          (let expiry = (if target \<in> set expirable_states then w_expires_at row else None) in
           rbind (to_db_datetime (Aware now)) (\<lambda>at.
           rbind (sql_update wf_check
             (\<lambda>r. w_draft_id r = k \<and> w_state r = tr_previous_state res \<and> w_revision r = tr_previous_revision res)
             (\<lambda>r. r\<lparr>w_state := tr_current_state res, w_revision := tr_current_revision res,
                    w_updated_at := at, w_expires_at := expiry, w_last_error := last_error\<rparr>)
             (db_workflows d)) (\<lambda>(n, rows).
           if n \<noteq> 1 then Inl (DomainError (RevisionConflictError expected_revision (w_revision row)))
           else
             (let d' = d\<lparr>db_workflows := rows\<rparr> in
              rbind (load_draft d' k) (\<lambda>loaded.
              (case loaded of None \<Rightarrow> Inl workflow_not_found | Some dr \<Rightarrow> Inr (dr, d'))))))))))"

definition repo_cas ::
  "int \<Rightarrow> string \<Rightarrow> int \<Rightarrow> draft_state \<Rightarrow> string option \<Rightarrow> (repo, exn, draft) sx" where
  "repo_cas now k expected_revision target last_error =
     sx_bind (sx_lift (validate_safe_code last_error)) (\<lambda>_.
       repo_run (cas_sync now k expected_revision target last_error))"

definition expired_row :: "datetime \<Rightarrow> wf_row \<Rightarrow> bool" where
  "expired_row before r \<longleftrightarrow>
     (case w_expires_at r of None \<Rightarrow> False | Some e \<Rightarrow> dt_instant e \<le> dt_instant before) \<and>
     w_state r \<in> set expirable_states"

definition expiry_key :: "wf_row \<Rightarrow> int \<times> string" where
  "expiry_key r = (case w_expires_at r of None \<Rightarrow> 0 | Some e \<Rightarrow> dt_instant e, w_draft_id r)"

definition list_expired_sync :: "datetime \<Rightarrow> int \<Rightarrow> draft list db_op" where
  "list_expired_sync before n d =
     rbind (to_db_datetime before) (\<lambda>b.
     rbind (rmap (\<lambda>r. load_draft d (w_draft_id r)) (sql_select (expired_row b) expiry_key n (db_workflows d)))
       (\<lambda>ds. Inr (concat (map (case_option [] (\<lambda>x. [x])) ds), d)))"

definition repo_list_expired :: "datetime \<Rightarrow> int \<Rightarrow> (repo, exn, draft list) sx" where
  "repo_list_expired before n =
     sx_bind (sx_lift (validate_datetime before)) (\<lambda>_.
     sx_bind (sx_lift (validate_limit n)) (\<lambda>_. repo_run (list_expired_sync before n)))"

text \<open>The loop of \<open>_expire_eligible_sync\<close> over the selected rows.\<close>

fun expire_rows :: "datetime \<Rightarrow> wf_row list \<Rightarrow> nat \<Rightarrow> wf_row list \<Rightarrow> exn + nat \<times> wf_row list" where
  "expire_rows at [] changed table = Inr (changed, table)"
| "expire_rows at (row # rest) changed table =
     rbind (TransitionCommand (w_draft_id row) (w_revision row) (w_state row) EXPIRED (Some ''workflow.expired'')) (\<lambda>cmd.
     rbind (evaluate_transition cmd (w_state row) (w_revision row)) (\<lambda>res.
     rbind (sql_update wf_check
       (\<lambda>r. w_draft_id r = w_draft_id row \<and> w_state r = tr_previous_state res \<and>
            w_revision r = tr_previous_revision res)
       (\<lambda>r. r\<lparr>w_state := tr_current_state res, w_revision := tr_current_revision res,
              w_updated_at := at, w_expires_at := None\<rparr>) table) (\<lambda>(n, table').
     expire_rows at rest (changed + n) table')))"

definition expire_eligible_sync :: "int \<Rightarrow> datetime \<Rightarrow> int \<Rightarrow> nat db_op" where
  "expire_eligible_sync now before n d =
     rbind (to_db_datetime before) (\<lambda>b.
     rbind (to_db_datetime (Aware now)) (\<lambda>at.
     rbind (expire_rows at (sql_select (expired_row b) expiry_key n (db_workflows d)) 0 (db_workflows d))
       (\<lambda>(changed, rows). Inr (changed, d\<lparr>db_workflows := rows\<rparr>))))"

definition repo_expire_eligible :: "int \<Rightarrow> datetime \<Rightarrow> int \<Rightarrow> (repo, exn, nat) sx" where
  "repo_expire_eligible now before n =
     sx_bind (sx_lift (validate_datetime before)) (\<lambda>_.
     sx_bind (sx_lift (validate_limit n)) (\<lambda>_. repo_run (expire_eligible_sync now before n)))"

section \<open>Deletion\<close>

definition deletable_retention_states :: "draft_state list" where
  "deletable_retention_states = [CANCELLED, EXPIRED, COMPLETE]"

definition delete_sync :: "string \<Rightarrow> bool db_op" where
  "delete_sync k d =
     (let P = (\<lambda>r. w_draft_id r = k \<and> w_state r \<in> set deletable_retention_states) in
      Inr (count_rows P (db_workflows d) = 1, delete_workflows P d))"

definition repo_delete :: "string \<Rightarrow> (repo, exn, bool) sx" where
  "repo_delete k = repo_run (delete_sync k)"

definition terminal_row :: "datetime \<Rightarrow> wf_row \<Rightarrow> bool" where
  "terminal_row before r \<longleftrightarrow>
     dt_instant (w_updated_at r) \<le> dt_instant before \<and> w_state r \<in> set deletable_retention_states"

definition updated_key :: "wf_row \<Rightarrow> int \<times> string" where
  "updated_key r = (dt_instant (w_updated_at r), w_draft_id r)"

definition delete_terminal_sync :: "datetime \<Rightarrow> int \<Rightarrow> nat db_op" where
  "delete_terminal_sync before n d =
     rbind (to_db_datetime before) (\<lambda>b.
       (let ids = map w_draft_id (sql_select (terminal_row b) updated_key n (db_workflows d)) in
        Inr (length ids, foldl (\<lambda>acc k. delete_workflows (\<lambda>r. w_draft_id r = k) acc) d ids)))"

definition repo_delete_terminal :: "datetime \<Rightarrow> int \<Rightarrow> (repo, exn, nat) sx" where
  "repo_delete_terminal before n =
     sx_bind (sx_lift (validate_datetime before)) (\<lambda>_.
     sx_bind (sx_lift (validate_limit n)) (\<lambda>_. repo_run (delete_terminal_sync before n)))"

section \<open>Callback tokens\<close>

definition store_callback_sync :: "callback_token_record \<Rightarrow> unit db_op" where
  "store_callback_sync r d =
     rbind (draft_state_of_value (ct_expected_state r)) (\<lambda>st.
     (case find_workflow d (ct_draft_id r) of
        None \<Rightarrow> Inl workflow_not_found
      | Some w \<Rightarrow>
          if w_owner_id w \<noteq> ct_owner_user_id r \<or> w_chat_id w \<noteq> ct_chat_id r \<or>
             w_thread_id w \<noteq> ct_message_thread_id r \<or> w_revision w \<noteq> ct_expected_revision r \<or>
             w_state w \<noteq> st
          then Inl (RepositoryError CallbackRecordConflictError ''callback_binding_conflict'')
          else
            rbind (to_db_datetime (ct_expires_at r)) (\<lambda>e.
            rbind (opt_to_db (ct_consumed_at r)) (\<lambda>c.
            (case sql_insert cb_check cb_clash
                    (r\<lparr>ct_expected_state := state_value st, ct_expires_at := e, ct_consumed_at := c\<rparr>)
                    (db_callbacks d) of
               Inl _ \<Rightarrow> Inl (RepositoryError CallbackRecordConflictError ''callback_record_conflict'')
             | Inr rows \<Rightarrow> Inr ((), d\<lparr>db_callbacks := rows\<rparr>))))))"

definition repo_store_callback :: "callback_token_record \<Rightarrow> (repo, exn, unit) sx" where
  "repo_store_callback r = repo_run (store_callback_sync r)"

definition get_callback_sync :: "string \<Rightarrow> callback_token_record option db_op" where
  "get_callback_sync h d =
     (case find_row ct_token_hash h (db_callbacks d) of
        None \<Rightarrow> Inr (None, d)
      | Some r \<Rightarrow>
          rbind (from_db_datetime (ct_expires_at r)) (\<lambda>e.
          rbind (opt_from_db (ct_consumed_at r)) (\<lambda>c.
          rbind (token_record_post_init (r\<lparr>ct_expires_at := e, ct_consumed_at := c\<rparr>))
            (\<lambda>x. Inr (Some x, d)))))"

definition repo_get_callback :: "string \<Rightarrow> (repo, exn, callback_token_record option) sx" where
  "repo_get_callback h = repo_run (get_callback_sync h)"

definition consumable :: "string \<Rightarrow> datetime \<Rightarrow> callback_token_record \<Rightarrow> bool" where
  "consumable h at r \<longleftrightarrow> ct_token_hash r = h \<and> ct_one_shot r \<and> ct_consumed_at r = None \<and>
     dt_instant at < dt_instant (ct_expires_at r)"

definition consume_callback_sync :: "string \<Rightarrow> datetime \<Rightarrow> bool db_op" where
  "consume_callback_sync h consumed_at d =
     rbind (to_db_datetime consumed_at) (\<lambda>c.
       Inr (count_rows (consumable h c) (db_callbacks d) = 1,
            d\<lparr>db_callbacks := update_rows (consumable h c) (\<lambda>r. r\<lparr>ct_consumed_at := Some c\<rparr>) (db_callbacks d)\<rparr>))"

definition repo_consume_callback :: "string \<Rightarrow> datetime \<Rightarrow> (repo, exn, bool) sx" where
  "repo_consume_callback h consumed_at =
     sx_bind (sx_lift (validate_datetime consumed_at)) (\<lambda>_. repo_run (consume_callback_sync h consumed_at))"

definition active_token :: "string \<Rightarrow> datetime \<Rightarrow> callback_token_record \<Rightarrow> bool" where
  "active_token k at r \<longleftrightarrow> ct_draft_id r = k \<and> ct_consumed_at r = None \<and>
     dt_instant at < dt_instant (ct_expires_at r)"

definition invalidate_tokens_sync :: "string \<Rightarrow> datetime \<Rightarrow> nat db_op" where
  "invalidate_tokens_sync k at d =
     rbind (to_db_datetime at) (\<lambda>t.
       Inr (count_rows (active_token k t) (db_callbacks d),
            d\<lparr>db_callbacks := update_rows (active_token k t) (\<lambda>r. r\<lparr>ct_expires_at := t\<rparr>) (db_callbacks d)\<rparr>))"

definition repo_invalidate_tokens :: "string \<Rightarrow> datetime \<Rightarrow> (repo, exn, nat) sx" where
  "repo_invalidate_tokens k at =
     sx_bind (sx_ensure (k \<noteq> []) (ValueError ''draft_id must not be empty'')) (\<lambda>_.
     sx_bind (sx_lift (validate_datetime at)) (\<lambda>_. repo_run (invalidate_tokens_sync k at)))"

definition delete_expired_callbacks_sync :: "datetime \<Rightarrow> int \<Rightarrow> nat db_op" where
  "delete_expired_callbacks_sync before n d =
     rbind (to_db_datetime before) (\<lambda>b.
       (let hashes = map ct_token_hash
              (sql_select (\<lambda>r. dt_instant (ct_expires_at r) \<le> dt_instant b)
                 (\<lambda>r. dt_instant (ct_expires_at r)) n (db_callbacks d)) in
        Inr (length hashes,
             d\<lparr>db_callbacks := filter (\<lambda>r. ct_token_hash r \<notin> set hashes) (db_callbacks d)\<rparr>)))"

definition repo_delete_expired_callbacks :: "datetime \<Rightarrow> int \<Rightarrow> (repo, exn, nat) sx" where
  "repo_delete_expired_callbacks before n =
     sx_bind (sx_lift (validate_datetime before)) (\<lambda>_.
     sx_bind (sx_lift (validate_limit n)) (\<lambda>_. repo_run (delete_expired_callbacks_sync before n)))"

section \<open>Submission attempts\<close>

definition attempt_claim_states :: "draft_state list" where
  "attempt_claim_states = [SUBMITTING, UPDATING, ATTACHING]"

definition attempt_values :: "submission_attempt \<Rightarrow> exn + submission_attempt" where
  "attempt_values a =
     (if sa_status a \<notin> set attempt_statuses then Inl (ValueError ''attempt status is invalid'')
      else rbind (validate_safe_code (sa_error_summary a)) (\<lambda>_.
           rbind (to_db_datetime (sa_started_at a)) (\<lambda>st.
           rbind (opt_to_db (sa_completed_at a)) (\<lambda>co.
             Inr (a\<lparr>sa_started_at := st, sa_completed_at := co\<rparr>)))))"

text \<open>
  A refused insert is a lost race if the draft has a pending attempt, an error otherwise.  The two
  results \<open>False\<close> leave the database as it was (the source rolls back before returning).
\<close>

definition claim_attempt_sync :: "submission_attempt \<Rightarrow> bool db_op" where
  "claim_attempt_sync a d =
     (if sa_status a \<noteq> ''pending'' \<or> sa_completed_at a \<noteq> None then
        Inl (ValueError ''a claimed attempt must be pending and incomplete'')
      else (case find_workflow d (sa_draft_id a) of
          None \<Rightarrow> Inl workflow_not_found
        | Some w \<Rightarrow>
            if w_state w \<notin> set attempt_claim_states then Inr (False, d)
            else rbind (attempt_values a) (\<lambda>v.
              (case sql_insert sa_check sa_clash v (db_attempts d) of
                 Inr rows \<Rightarrow> Inr (True, d\<lparr>db_attempts := rows\<rparr>)
               | Inl e \<Rightarrow>
                   if list_ex (\<lambda>x. sa_draft_id x = sa_draft_id a \<and> sa_status x = ''pending'') (db_attempts d)
                   then Inr (False, d) else Inl e))))"

definition repo_claim_attempt :: "submission_attempt \<Rightarrow> (repo, exn, bool) sx" where
  "repo_claim_attempt a = repo_run (claim_attempt_sync a)"

definition repo_record_attempt :: "submission_attempt \<Rightarrow> (repo, exn, unit) sx" where
  "repo_record_attempt a =
     sx_bind (repo_claim_attempt a) (\<lambda>claimed.
       sx_ensure claimed (RepositoryError AttemptClaimConflictError ''attempt_claim_conflict''))"

definition update_attempt_sync :: "submission_attempt \<Rightarrow> unit db_op" where
  "update_attempt_sync a d =
     (if sa_status a \<notin> set attempt_statuses then Inl (ValueError ''attempt status is invalid'')
      else if sa_status a \<noteq> ''pending'' \<and> sa_completed_at a = None then
        Inl (ValueError ''completed attempt requires completed_at'')
      else rbind (validate_safe_code (sa_error_summary a)) (\<lambda>_.
        (case find_row sa_attempt_id (sa_attempt_id a) (db_attempts d) of
           None \<Rightarrow> Inl (RepositoryError WorkflowNotFoundError ''attempt_not_found'')
         | Some row \<Rightarrow>
             if sa_draft_id row \<noteq> sa_draft_id a then
               Inl (RepositoryError WorkflowDataError ''attempt_draft_mismatch'')
             else rbind (to_db_datetime (sa_started_at a)) (\<lambda>st.
               if sa_request_hash row \<noteq> sa_request_hash a \<or>
                  sa_attempt_number row \<noteq> sa_attempt_number a \<or> sa_started_at row \<noteq> st then
                 Inl (RepositoryError WorkflowDataError ''attempt_identity_mismatch'')
               else if sa_status a \<noteq> sa_status row \<and>
                       sa_status a \<notin> set (attempt_targets (sa_status row)) then
                 Inl (RepositoryError WorkflowDataError ''attempt_status_transition_invalid'')
               else rbind (opt_to_db (sa_completed_at a)) (\<lambda>co.
                 rbind (sql_update sa_check
                   (\<lambda>r. sa_attempt_id r = sa_attempt_id a \<and> sa_draft_id r = sa_draft_id a)
                   (\<lambda>r. r\<lparr>sa_completed_at := co, sa_status := sa_status a,
                          sa_error_summary := sa_error_summary a\<rparr>) (db_attempts d))
                   (\<lambda>(n, rows). Inr ((), d\<lparr>db_attempts := rows\<rparr>)))))))"

definition repo_update_attempt :: "submission_attempt \<Rightarrow> (repo, exn, unit) sx" where
  "repo_update_attempt a = repo_run (update_attempt_sync a)"

definition get_latest_attempt_sync :: "string \<Rightarrow> submission_attempt option db_op" where
  "get_latest_attempt_sync k d =
     (case sort_key (\<lambda>a. - sa_attempt_number a) (filter (\<lambda>a. sa_draft_id a = k) (db_attempts d)) of
        [] \<Rightarrow> Inr (None, d)
      | a # _ \<Rightarrow>
          rbind (from_db_datetime (sa_started_at a)) (\<lambda>st.
          rbind (opt_from_db (sa_completed_at a)) (\<lambda>co.
          rbind (submission_attempt_post_init (a\<lparr>sa_started_at := st, sa_completed_at := co\<rparr>))
            (\<lambda>x. Inr (Some x, d)))))"

definition repo_get_latest_attempt :: "string \<Rightarrow> (repo, exn, submission_attempt option) sx" where
  "repo_get_latest_attempt k = repo_run (get_latest_attempt_sync k)"

section \<open>Attachment transfers and published issues\<close>

record stored_attachment =
  st_position :: nat
  st_attachment :: attachment
  st_status :: attachment_status
  st_last_error_code :: "string option"
  st_updated_at :: datetime

definition stored_attachment_of_row :: "att_row \<Rightarrow> exn + stored_attachment" where
  "stored_attachment_of_row q =
     rbind (attachment_post_init (q_attachment q)) (\<lambda>a.
     rbind (from_db_datetime (q_updated_at q)) (\<lambda>up.
       Inr \<lparr>st_position = q_position q, st_attachment = a, st_status = q_status q,
            st_last_error_code = q_last_error_code q, st_updated_at = up\<rparr>))"

definition list_attachments_sync :: "string \<Rightarrow> stored_attachment list db_op" where
  "list_attachments_sync k d =
     rbind (rmap stored_attachment_of_row
              (sort_key q_position (filter (\<lambda>q. q_draft_id q = k) (db_attachments d)))) (\<lambda>xs. Inr (xs, d))"

definition repo_list_attachments :: "string \<Rightarrow> (repo, exn, stored_attachment list) sx" where
  "repo_list_attachments k = repo_run (list_attachments_sync k)"

definition transfer_row :: "string \<Rightarrow> string \<Rightarrow> attachment_status \<Rightarrow> att_row \<Rightarrow> bool" where
  "transfer_row k uid st q \<longleftrightarrow> q_draft_id q = k \<and> at_file_unique_id (q_attachment q) = uid \<and> q_status q = st"

definition set_attachment_status_sync ::
  "string \<Rightarrow> string \<Rightarrow> attachment_status \<Rightarrow> attachment_status \<Rightarrow> datetime \<Rightarrow> string option \<Rightarrow>
   string option \<Rightarrow> bool db_op" where
  "set_attachment_status_sync k uid expected target updated_at uploaded err d =
     rbind (to_db_datetime updated_at) (\<lambda>up.
       Inr (count_rows (transfer_row k uid expected) (db_attachments d) = 1,
            d\<lparr>db_attachments := update_rows (transfer_row k uid expected)
               (\<lambda>q. q\<lparr>q_status := target, q_attachment := (q_attachment q)\<lparr>at_uploaded_id := uploaded\<rparr>,
                      q_last_error_code := err, q_updated_at := up\<rparr>) (db_attachments d)\<rparr>))"

definition repo_set_attachment_status ::
  "string \<Rightarrow> string \<Rightarrow> attachment_status \<Rightarrow> attachment_status \<Rightarrow> datetime \<Rightarrow> string option \<Rightarrow>
   string option \<Rightarrow> (repo, exn, bool) sx" where
  "repo_set_attachment_status k uid expected target updated_at uploaded err =
     sx_bind (sx_lift (validate_datetime updated_at)) (\<lambda>_.
     sx_bind (sx_lift (validate_safe_code err)) (\<lambda>_.
     sx_bind (sx_ensure (target \<in> set (attachment_targets expected))
                (ValueError ''attachment status transition is invalid'')) (\<lambda>_.
     sx_bind (sx_ensure (\<not> (target = AS_UPLOADED \<and> (uploaded = None \<or> uploaded = Some [])))
                (ValueError ''uploaded attachment requires its Jira attachment id'')) (\<lambda>_.
       repo_run (set_attachment_status_sync k uid expected target updated_at uploaded err)))))"

definition store_published_issue_sync :: "string \<Rightarrow> published_issue \<Rightarrow> unit db_op" where
  "store_published_issue_sync k issue d =
     (if find_workflow d k = None then Inl workflow_not_found
      else rbind (upsert_published_issue k issue d) (\<lambda>d'. Inr ((), d')))"

definition repo_store_published_issue :: "string \<Rightarrow> published_issue \<Rightarrow> (repo, exn, unit) sx" where
  "repo_store_published_issue k issue = repo_run (store_published_issue_sync k issue)"

definition get_published_issue_sync :: "string \<Rightarrow> published_issue option db_op" where
  "get_published_issue_sync k d =
     (case find_row u_draft_id k (db_published d) of
        None \<Rightarrow> Inr (None, d)
      | Some u \<Rightarrow> rbind (published_of_row u) (\<lambda>p. Inr (Some p, d)))"

definition repo_get_published_issue :: "string \<Rightarrow> (repo, exn, published_issue option) sx" where
  "repo_get_published_issue k = repo_run (get_published_issue_sync k)"

section \<open>Card messages and notifications\<close>

definition register_card_message_sync :: "int \<Rightarrow> int \<Rightarrow> int \<Rightarrow> string \<Rightarrow> int \<Rightarrow> unit db_op" where
  "register_card_message_sync now chat msg key owner d =
     rbind (to_db_datetime (Aware now)) (\<lambda>at.
     rbind (sql_upsert card_check card_clash card_key
              \<lparr>c_chat_id = chat, c_message_id = msg, c_issue_key = key, c_owner_id = owner, c_updated_at = at\<rparr>
              (db_cards d)) (\<lambda>rows. Inr ((), d\<lparr>db_cards := rows\<rparr>)))"

definition repo_register_card_message :: "int \<Rightarrow> int \<Rightarrow> int \<Rightarrow> string \<Rightarrow> int \<Rightarrow> (repo, exn, unit) sx" where
  "repo_register_card_message now chat msg key owner = repo_run (register_card_message_sync now chat msg key owner)"

definition get_card_messages_sync :: "string \<Rightarrow> (int \<times> int \<times> int) list db_op" where
  "get_card_messages_sync key d =
     Inr (map (\<lambda>r. (c_chat_id r, c_message_id r, c_owner_id r))
            (sort_key (\<lambda>r. - dt_instant (c_updated_at r)) (filter (\<lambda>r. c_issue_key r = key) (db_cards d))), d)"

definition repo_get_card_messages :: "string \<Rightarrow> (repo, exn, (int \<times> int \<times> int) list) sx" where
  "repo_get_card_messages key = repo_run (get_card_messages_sync key)"

definition get_last_notified_sync :: "int \<Rightarrow> string \<Rightarrow> string option db_op" where
  "get_last_notified_sync user key d =
     Inr (map_option n_last_updated (find_row notif_key (user, key) (db_notifications d)), d)"

definition repo_get_last_notified :: "int \<Rightarrow> string \<Rightarrow> (repo, exn, string option) sx" where
  "repo_get_last_notified user key = repo_run (get_last_notified_sync user key)"

definition record_notification_sync :: "int \<Rightarrow> string \<Rightarrow> string \<Rightarrow> unit db_op" where
  "record_notification_sync user key upd d =
     rbind (sql_upsert (\<lambda>_. True) notif_clash notif_key
              \<lparr>n_user_id = user, n_issue_key = key, n_last_updated = upd\<rparr> (db_notifications d))
       (\<lambda>rows. Inr ((), d\<lparr>db_notifications := rows\<rparr>))"

definition repo_record_notification :: "int \<Rightarrow> string \<Rightarrow> string \<Rightarrow> (repo, exn, unit) sx" where
  "repo_record_notification user key upd = repo_run (record_notification_sync user key upd)"

end
