(* ===== verification/Workflow_Invariant.thy ===== *)
theory Workflow_Invariant
  imports Workflow_Sqlite
begin

text \<open>
  The invariant of the workflow database: every operation of the repository keeps \<open>db_ok\<close>, whatever
  its arguments and whether it returns or raises.  One lemma per body, then the operations as a
  datatype (\<open>repo_op\<close>) and the theorem for every sequence of them.
\<close>

section \<open>One table at a time\<close>

lemma db_ok_workflows:
  "db_ok d \<Longrightarrow> table_ok wf_check wf_clash rows \<Longrightarrow>
     w_draft_id ` set (db_workflows d) \<subseteq> w_draft_id ` set rows \<Longrightarrow> db_ok (d\<lparr>db_workflows := rows\<rparr>)"
  by (simp add: db_ok_def tables_ok_def children_ok_def Let_def) (elim conjE, intro conjI; erule subset_trans)

lemma db_ok_sources:
  "db_ok d \<Longrightarrow> table_ok src_check src_clash rows \<Longrightarrow>
     s_draft_id ` set rows \<subseteq> w_draft_id ` set (db_workflows d) \<Longrightarrow> db_ok (d\<lparr>db_sources := rows\<rparr>)"
  by (simp add: db_ok_def tables_ok_def children_ok_def Let_def)

lemma db_ok_attachments:
  "db_ok d \<Longrightarrow> table_ok att_check att_clash rows \<Longrightarrow>
     q_draft_id ` set rows \<subseteq> w_draft_id ` set (db_workflows d) \<Longrightarrow> db_ok (d\<lparr>db_attachments := rows\<rparr>)"
  by (simp add: db_ok_def tables_ok_def children_ok_def Let_def)

lemma db_ok_published:
  "db_ok d \<Longrightarrow> table_ok pub_check pub_clash rows \<Longrightarrow>
     u_draft_id ` set rows \<subseteq> w_draft_id ` set (db_workflows d) \<Longrightarrow> db_ok (d\<lparr>db_published := rows\<rparr>)"
  by (simp add: db_ok_def tables_ok_def children_ok_def Let_def)

lemma db_ok_callbacks:
  "db_ok d \<Longrightarrow> table_ok cb_check cb_clash rows \<Longrightarrow>
     ct_draft_id ` set rows \<subseteq> w_draft_id ` set (db_workflows d) \<Longrightarrow> db_ok (d\<lparr>db_callbacks := rows\<rparr>)"
  by (simp add: db_ok_def tables_ok_def children_ok_def Let_def)

lemma db_ok_attempts:
  "db_ok d \<Longrightarrow> table_ok sa_check sa_clash rows \<Longrightarrow>
     sa_draft_id ` set rows \<subseteq> w_draft_id ` set (db_workflows d) \<Longrightarrow> db_ok (d\<lparr>db_attempts := rows\<rparr>)"
  by (simp add: db_ok_def tables_ok_def children_ok_def Let_def)

lemma db_ok_cards: "db_ok d \<Longrightarrow> table_ok card_check card_clash rows \<Longrightarrow> db_ok (d\<lparr>db_cards := rows\<rparr>)"
  by (simp add: db_ok_def tables_ok_def children_ok_def Let_def)

lemma db_ok_notifications:
  "db_ok d \<Longrightarrow> table_ok (\<lambda>_. True) notif_clash rows \<Longrightarrow> db_ok (d\<lparr>db_notifications := rows\<rparr>)"
  by (simp add: db_ok_def tables_ok_def children_ok_def Let_def)

lemma db_ok_tables:
  assumes "db_ok d"
  shows "table_ok wf_check wf_clash (db_workflows d)" "table_ok src_check src_clash (db_sources d)"
    "table_ok att_check att_clash (db_attachments d)" "table_ok pub_check pub_clash (db_published d)"
    "table_ok cb_check cb_clash (db_callbacks d)" "table_ok sa_check sa_clash (db_attempts d)"
    "table_ok card_check card_clash (db_cards d)" "table_ok (\<lambda>_. True) notif_clash (db_notifications d)"
  using assms by (simp_all add: db_ok_def tables_ok_def)

lemma db_ok_references:
  assumes "db_ok d"
  shows "s_draft_id ` set (db_sources d) \<subseteq> w_draft_id ` set (db_workflows d)"
    "q_draft_id ` set (db_attachments d) \<subseteq> w_draft_id ` set (db_workflows d)"
    "u_draft_id ` set (db_published d) \<subseteq> w_draft_id ` set (db_workflows d)"
    "ct_draft_id ` set (db_callbacks d) \<subseteq> w_draft_id ` set (db_workflows d)"
    "sa_draft_id ` set (db_attempts d) \<subseteq> w_draft_id ` set (db_workflows d)"
  using assms by (simp_all add: db_ok_def children_ok_def Let_def)

lemma image_update_rows:
  "(\<And>r. P r \<Longrightarrow> key (f r) = key r) \<Longrightarrow> key ` set (update_rows P f rows) = key ` set rows"
proof -
  assume "\<And>r. P r \<Longrightarrow> key (f r) = key r"
  then have "(\<lambda>r. key (if P r then f r else r)) ` set rows = key ` set rows" by (intro image_cong) auto
  then show ?thesis by (simp only: set_update_rows image_image)
qed

lemma find_workflow_Some: "find_workflow d k = Some r \<Longrightarrow> r \<in> set (db_workflows d) \<and> w_draft_id r = k"
  unfolding find_workflow_def by (rule find_row_Some)

lemma find_workflow_in_ids: "find_workflow d k = Some r \<Longrightarrow> k \<in> w_draft_id ` set (db_workflows d)"
  using find_workflow_Some[of d k r] by blast

text \<open>An \<open>UPDATE\<close> of workflows that leaves the key alone.\<close>

lemma wf_update_ok:
  assumes "table_ok wf_check wf_clash rows" and "sql_update wf_check P f rows = Inr (n, rows')"
    and "\<And>r. P r \<Longrightarrow> w_draft_id (f r) = w_draft_id r"
  shows "table_ok wf_check wf_clash rows' \<and> w_draft_id ` set rows' = w_draft_id ` set rows"
proof
  have key: "w_draft_id (if P r then f r else r) = w_draft_id r" for r using assms(3) by simp
  show "table_ok wf_check wf_clash rows'"
    by (rule wf.ok_update[OF assms(1,2)]) (simp only: wf_clash_def key)
  have "rows' = update_rows P f rows" using assms(2) by (simp add: sql_update_Inr)
  then show "w_draft_id ` set rows' = w_draft_id ` set rows"
    using image_update_rows[of P w_draft_id f rows] assms(3) by simp
qed

section \<open>One body at a time\<close>

lemma save_workflow_row_ok:
  assumes "db_ok d" and "save_workflow_row (find_workflow d (d_draft_id dr)) dr expiry d = Inr d'"
  shows "db_ok d' \<and> d_draft_id dr \<in> w_draft_id ` set (db_workflows d')"
proof -
  from assms(2) obtain row where row: "workflow_row_of dr expiry = Inr row"
    by (auto simp: save_workflow_row_def rbind_eq_Inr)
  then have id: "w_draft_id row = d_draft_id dr" by (auto simp: workflow_row_of_def rbind_eq_Inr)
  show ?thesis
  proof (cases "find_workflow d (d_draft_id dr)")
    case None
    with assms(2) row obtain rows where ins: "sql_insert wf_check wf_clash row (db_workflows d) = Inr rows"
      and d': "d' = d\<lparr>db_workflows := rows\<rparr>"
      by (auto simp: save_workflow_row_def rbind_eq_Inr)
    from ins have rows: "set rows = insert row (set (db_workflows d))" by (auto simp: sql_insert_Inr)
    have "table_ok wf_check wf_clash rows" by (rule wf.ok_insert[OF db_ok_tables(1)[OF assms(1)] ins])
    then have "db_ok d'" unfolding d' using assms(1) rows by (intro db_ok_workflows) auto
    with d' rows id show ?thesis by simp
  next
    case (Some old)
    let ?P = "\<lambda>x. w_draft_id x = d_draft_id dr \<and> w_revision x = d_revision dr - 1"
    from assms(2) row Some obtain n rows
      where up: "sql_update wf_check ?P (\<lambda>_. row) (db_workflows d) = Inr (n, rows)"
        and d': "d' = d\<lparr>db_workflows := rows\<rparr>"
      by (auto simp: save_workflow_row_def rbind_eq_Inr split: if_splits)
    have "table_ok wf_check wf_clash rows \<and> w_draft_id ` set rows = w_draft_id ` set (db_workflows d)"
      by (rule wf_update_ok[OF db_ok_tables(1)[OF assms(1)] up]) (simp add: id)
    with d' assms(1) find_workflow_in_ids[OF Some] show ?thesis by (auto intro: db_ok_workflows)
  qed
qed

lemma rmap_Inr_set:
  "rmap f xs = Inr ys \<Longrightarrow> (\<And>x y. x \<in> set xs \<Longrightarrow> f x = Inr y \<Longrightarrow> Q y) \<Longrightarrow> \<forall>y \<in> set ys. Q y"
  by (induction xs arbitrary: ys) (fastforce simp: rbind_eq_Inr)+

lemma save_sources_ok:
  assumes "db_ok d" and "d_draft_id dr \<in> w_draft_id ` set (db_workflows d)" and "save_sources dr d = Inr d'"
  shows "db_ok d' \<and> db_workflows d' = db_workflows d"
proof -
  from assms(3) obtain new rows where
    new: "rmap (\<lambda>(i, m). rbind (to_db_datetime (sm_received_at m)) (\<lambda>at.
               Inr \<lparr>s_draft_id = d_draft_id dr, s_position = i, s_message = m\<lparr>sm_received_at := at\<rparr>\<rparr>))
             (enumerate 0 (d_source_messages dr)) = Inr new"
    and ins: "sql_insert_many src_check src_clash new
                (filter (\<lambda>r. s_draft_id r \<noteq> d_draft_id dr) (db_sources d)) = Inr rows"
    and d': "d' = d\<lparr>db_sources := rows\<rparr>"
    by (auto simp: save_sources_def Let_def rbind_eq_Inr)
  from new have "\<forall>r \<in> set new. s_draft_id r = d_draft_id dr"
    by (rule rmap_Inr_set) (auto simp: rbind_eq_Inr)
  with sql_insert_many_Inr[OF ins] db_ok_references(1)[OF assms(1)] assms(2)
  have "s_draft_id ` set rows \<subseteq> w_draft_id ` set (db_workflows d)" by auto
  moreover have "table_ok src_check src_clash rows"
    by (rule src.ok_insert_many[OF src.ok_filter[OF db_ok_tables(2)[OF assms(1)]] ins])
  ultimately show ?thesis using d' assms(1) by (auto intro: db_ok_sources)
qed

lemma attachment_row_draft: "attachment_row dr old p = Inr r \<Longrightarrow> q_draft_id r = d_draft_id dr"
  by (cases p) (auto simp: attachment_row_def Let_def rbind_eq_Inr split: if_splits option.splits)

lemma save_attachments_ok:
  assumes "db_ok d" and "d_draft_id dr \<in> w_draft_id ` set (db_workflows d)" and "save_attachments dr d = Inr d'"
  shows "db_ok d' \<and> db_workflows d' = db_workflows d"
proof -
  let ?old = "filter (\<lambda>r. q_draft_id r = d_draft_id dr) (db_attachments d)"
  from assms(3) obtain new rows where
    new: "rmap (attachment_row dr ?old) (enumerate 0 (d_attachments dr)) = Inr new"
    and ins: "sql_insert_many att_check att_clash new
                (filter (\<lambda>r. q_draft_id r \<noteq> d_draft_id dr) (db_attachments d)) = Inr rows"
    and d': "d' = d\<lparr>db_attachments := rows\<rparr>"
    by (auto simp: save_attachments_def Let_def rbind_eq_Inr)
  from new have "\<forall>r \<in> set new. q_draft_id r = d_draft_id dr"
    by (rule rmap_Inr_set) (rule attachment_row_draft)
  with sql_insert_many_Inr[OF ins] db_ok_references(2)[OF assms(1)] assms(2)
  have "q_draft_id ` set rows \<subseteq> w_draft_id ` set (db_workflows d)" by auto
  moreover have "table_ok att_check att_clash rows"
    by (rule att.ok_insert_many[OF att.ok_filter[OF db_ok_tables(3)[OF assms(1)]] ins])
  ultimately show ?thesis using d' assms(1) by (auto intro: db_ok_attachments)
qed

lemma sql_upsert_set: "sql_upsert check clash key r rows = Inr rows' \<Longrightarrow> set rows' \<subseteq> insert r (set rows)"
  by (auto simp: sql_upsert_def set_update_rows split: if_splits)

lemma upsert_published_ok:
  assumes "db_ok d" and "k \<in> w_draft_id ` set (db_workflows d)" and "upsert_published_issue k issue d = Inr d'"
  shows "db_ok d' \<and> db_workflows d' = db_workflows d"
proof -
  let ?r = "\<lparr>u_draft_id = k, u_issue = issue\<lparr>pi_published_at := pi_published_at issue\<rparr>\<rparr>"
  from assms(3) obtain rows where up: "sql_upsert pub_check pub_clash u_draft_id ?r (db_published d) = Inr rows"
    and d': "d' = d\<lparr>db_published := rows\<rparr>"
    by (auto simp: upsert_published_issue_def rbind_eq_Inr)
  from sql_upsert_set[OF up] have "u_draft_id ` set rows \<subseteq> insert k (u_draft_id ` set (db_published d))"
    by (auto simp: image_iff)
  also have "\<dots> \<subseteq> w_draft_id ` set (db_workflows d)"
    using db_ok_references(3)[OF assms(1)] assms(2) by simp
  finally have "u_draft_id ` set rows \<subseteq> w_draft_id ` set (db_workflows d)" .
  with pub.ok_upsert[OF db_ok_tables(4)[OF assms(1)] up] d' assms(1) show ?thesis
    by (auto intro: db_ok_published)
qed

lemma save_published_ok:
  assumes "db_ok d" and "d_draft_id dr \<in> w_draft_id ` set (db_workflows d)"
    and "save_published existing dr d = Inr d'"
  shows "db_ok d' \<and> db_workflows d' = db_workflows d"
proof (cases "d_published_issue dr")
  case None
  have "db_ok (d\<lparr>db_published := filter (\<lambda>u. u_draft_id u \<noteq> d_draft_id dr) (db_published d)\<rparr>)"
    using db_ok_references(3)[OF assms(1)]
    by (intro db_ok_published[OF assms(1)] pub.ok_filter db_ok_tables(4)[OF assms(1)]) auto
  with None assms(1,3) show ?thesis by (auto simp: save_published_def split: if_splits)
next
  case (Some issue)
  with assms upsert_published_ok[OF assms(1,2)] show ?thesis by (simp add: save_published_def)
qed

lemma save_sync_ok:
  assumes "db_ok d" and "save_sync dr exp d = Inr (u, d')"
  shows "db_ok d'"
proof -
  let ?old = "find_workflow d (d_draft_id dr)"
  from assms(2) obtain expiry d1 d2 d3 where
    1: "save_workflow_row ?old dr expiry d = Inr d1" and 2: "save_sources dr d1 = Inr d2"
    and 3: "save_attachments dr d2 = Inr d3" and 4: "save_published ?old dr d3 = Inr d'"
    by (auto simp: save_sync_def Let_def rbind_eq_Inr)
  from save_workflow_row_ok[OF assms(1) 1]
  have ok1: "db_ok d1" and id: "d_draft_id dr \<in> w_draft_id ` set (db_workflows d1)" by simp_all
  from save_sources_ok[OF ok1 id 2] id
  have ok2: "db_ok d2" and id2: "d_draft_id dr \<in> w_draft_id ` set (db_workflows d2)" by simp_all
  from save_attachments_ok[OF ok2 id2 3] id2
  have ok3: "db_ok d3" and id3: "d_draft_id dr \<in> w_draft_id ` set (db_workflows d3)" by simp_all
  from save_published_ok[OF ok3 id3 4] show ?thesis by simp
qed

lemma cas_sync_commit:
  assumes "cas_sync now k rv target err d = Inr (dr, d')"
  obtains row rows where "find_workflow d k = Some row"
    and "w_revision row = rv" and "is_transition_allowed (w_state row) target" and "1 \<le> rv"
    and "sql_update wf_check (\<lambda>r. w_draft_id r = k \<and> w_state r = w_state row \<and> w_revision r = rv)
           (\<lambda>r. r\<lparr>w_state := target, w_revision := rv + 1, w_updated_at := Aware now,
              w_expires_at := (if target \<in> set expirable_states then w_expires_at row else None),
              w_last_error := err\<rparr>) (db_workflows d) = Inr (1, rows)"
    and "d' = d\<lparr>db_workflows := rows\<rparr>" and "load_draft d' k = Inr (Some dr)"
  using assms
  by (auto simp: cas_sync_def rbind_eq_Inr Let_def TransitionCommand_Inr evaluate_transition_Inr
      split: option.splits if_splits)

lemma cas_sync_ok:
  assumes "db_ok d" and "cas_sync now k rv target err d = Inr (dr, d')"
  shows "db_ok d'"
proof (cases rule: cas_sync_commit[OF assms(2)])
  case (1 row rows)
  have "table_ok wf_check wf_clash rows \<and> w_draft_id ` set rows = w_draft_id ` set (db_workflows d)"
    by (rule wf_update_ok[OF db_ok_tables(1)[OF assms(1)] 1(5)]) simp
  then show ?thesis unfolding 1(6) by (intro db_ok_workflows[OF assms(1)]) auto
qed

lemma expire_rows_ok:
  assumes "expire_rows at sel n rows = Inr (m, rows')" and "table_ok wf_check wf_clash rows"
  shows "table_ok wf_check wf_clash rows' \<and> w_draft_id ` set rows' = w_draft_id ` set rows"
  using assms
proof (induction sel arbitrary: n rows)
  case Nil
  then show ?case by simp
next
  case (Cons row sel)
  from Cons.prems(1) obtain res :: transition_result and k rows1 where
    up: "sql_update wf_check
       (\<lambda>r. w_draft_id r = w_draft_id row \<and> w_state r = tr_previous_state res \<and>
            w_revision r = tr_previous_revision res)
       (\<lambda>r. r\<lparr>w_state := tr_current_state res, w_revision := tr_current_revision res,
              w_updated_at := at, w_expires_at := None\<rparr>) rows = Inr (k, rows1)"
    and rest: "expire_rows at sel (n + k) rows1 = Inr (m, rows')"
    by (auto simp: rbind_eq_Inr)
  have "table_ok wf_check wf_clash rows1 \<and> w_draft_id ` set rows1 = w_draft_id ` set rows"
    by (rule wf_update_ok[OF Cons.prems(2) up]) simp
  with Cons.IH[OF rest] show ?case by simp
qed

lemma expire_eligible_sync_ok:
  assumes "db_ok d" and "expire_eligible_sync now before n d = Inr (m, d')"
  shows "db_ok d'"
proof -
  from assms(2) obtain sel rows where "expire_rows (Aware now) sel 0 (db_workflows d) = Inr (m, rows)"
    and d': "d' = d\<lparr>db_workflows := rows\<rparr>"
    by (auto simp: expire_eligible_sync_def rbind_eq_Inr)
  from expire_rows_ok[OF this(1) db_ok_tables(1)[OF assms(1)]] show ?thesis
    unfolding d' by (intro db_ok_workflows[OF assms(1)]) auto
qed

lemma delete_sync_ok: "db_ok d \<Longrightarrow> delete_sync k d = Inr (b, d') \<Longrightarrow> db_ok d'"
  by (auto simp: delete_sync_def Let_def delete_workflows_ok)

lemma delete_terminal_sync_ok:
  assumes "db_ok d" and "delete_terminal_sync before n d = Inr (m, d')"
  shows "db_ok d'"
proof -
  have "db_ok (foldl (\<lambda>acc k. delete_workflows (\<lambda>r. w_draft_id r = k) acc) d ids)" for ids
    using assms(1) by (induction ids arbitrary: d) (simp_all add: delete_workflows_ok)
  with assms(2) show ?thesis by (auto simp: delete_terminal_sync_def rbind_eq_Inr Let_def)
qed

lemma store_callback_commit:
  assumes "store_callback_sync r d = Inr (u, d')"
  obtains w rows where "find_workflow d (ct_draft_id r) = Some w"
    and "w_owner_id w = ct_owner_user_id r" and "w_chat_id w = ct_chat_id r"
    and "w_thread_id w = ct_message_thread_id r" and "w_revision w = ct_expected_revision r"
    and "ct_expected_state r = state_value (w_state w)"
    and "sql_insert cb_check cb_clash r (db_callbacks d) = Inr rows"
    and "d' = d\<lparr>db_callbacks := rows\<rparr>"
proof -
  from assms obtain st w where st: "draft_state_of_value (ct_expected_state r) = Inr st"
    and w: "find_workflow d (ct_draft_id r) = Some w" "w_state w = st"
    by (auto simp: store_callback_sync_def rbind_eq_Inr split: option.splits if_splits)
  from draft_state_of_value_Inr[OF st] have "ct_expected_state r = state_value st" .
  then have same: "r\<lparr>ct_expected_state := state_value st\<rparr> = r" by (cases r) simp
  from assms st w \<open>ct_expected_state r = state_value st\<close> show ?thesis
    using that by (auto simp: store_callback_sync_def rbind_eq_Inr same split: if_splits sum.splits)
qed

lemma store_callback_sync_ok:
  assumes "db_ok d" and "store_callback_sync r d = Inr (u, d')"
  shows "db_ok d'"
proof (cases rule: store_callback_commit[OF assms(2)])
  case (1 w rows)
  from 1(7) have "ct_draft_id ` set rows = insert (ct_draft_id r) (ct_draft_id ` set (db_callbacks d))"
    by (auto simp: sql_insert_Inr)
  also have "\<dots> \<subseteq> w_draft_id ` set (db_workflows d)"
    using find_workflow_in_ids[OF 1(1)] db_ok_references(4)[OF assms(1)] by simp
  finally show ?thesis unfolding 1(8)
    by (intro db_ok_callbacks[OF assms(1)] cb.ok_insert[OF db_ok_tables(5)[OF assms(1)] 1(7)])
qed

text \<open>An \<open>UPDATE\<close> of callback tokens that only touches their expiry or consumption.\<close>

lemma callbacks_update_ok:
  assumes "db_ok d"
    and "\<And>r. ct_token_hash (f r) = ct_token_hash r" "\<And>r. cb_check (f r) = cb_check r"
    and "\<And>r s. cb_clash (f r) s = cb_clash r s" "\<And>r s. cb_clash s (f r) = cb_clash s r"
    and "\<And>r. ct_draft_id (f r) = ct_draft_id r"
  shows "db_ok (d\<lparr>db_callbacks := update_rows P f (db_callbacks d)\<rparr>)"
proof (rule db_ok_callbacks[OF assms(1)])
  have ok: "table_ok cb_check cb_clash (db_callbacks d)" by (rule db_ok_tables(5)[OF assms(1)])
  then show "table_ok cb_check cb_clash (update_rows P f (db_callbacks d))"
    by (intro cb.ok_update_rows) (auto simp: assms table_ok_def list_all_iff split: if_splits)
  show "ct_draft_id ` set (update_rows P f (db_callbacks d)) \<subseteq> w_draft_id ` set (db_workflows d)"
    using db_ok_references(4)[OF assms(1)] image_update_rows[of P ct_draft_id f "db_callbacks d"] assms(6)
    by simp
qed

lemma consume_callback_sync_ok: "db_ok d \<Longrightarrow> consume_callback_sync h c d = Inr (b, d') \<Longrightarrow> db_ok d'"
  by (auto simp: consume_callback_sync_def rbind_eq_Inr cb_check_def cb_clash_def coalesce_preview_def
      intro!: callbacks_update_ok)

lemma invalidate_tokens_sync_ok: "db_ok d \<Longrightarrow> invalidate_tokens_sync k c d = Inr (b, d') \<Longrightarrow> db_ok d'"
  by (auto simp: invalidate_tokens_sync_def rbind_eq_Inr cb_check_def cb_clash_def coalesce_preview_def
      intro!: callbacks_update_ok)

lemma delete_expired_callbacks_sync_ok:
  assumes "db_ok d" and "delete_expired_callbacks_sync before n d = Inr (m, d')"
  shows "db_ok d'"
proof -
  from assms(2) obtain P where d': "d' = d\<lparr>db_callbacks := filter P (db_callbacks d)\<rparr>"
    by (auto simp: delete_expired_callbacks_sync_def rbind_eq_Inr Let_def)
  show ?thesis unfolding d'
    using db_ok_references(4)[OF assms(1)]
    by (intro db_ok_callbacks[OF assms(1)] cb.ok_filter db_ok_tables(5)[OF assms(1)]) auto
qed

lemma attempt_values_Inr:
  "attempt_values a = Inr v \<longleftrightarrow> sa_status a \<in> set attempt_statuses \<and> validate_safe_code (sa_error_summary a) = Inr () \<and>
     tz_aware (sa_started_at a) \<and> opt_tz_aware (sa_completed_at a) \<and> v = a"
  by (auto simp: attempt_values_def rbind_eq_Inr)

lemma claim_attempt_shape:
  assumes "claim_attempt_sync a d = Inr (b, d')"
  shows "(\<not> b \<and> d' = d) \<or>
    (b \<and> sa_status a = ''pending'' \<and>
     (\<exists>w. find_workflow d (sa_draft_id a) = Some w \<and> w_state w \<in> set attempt_claim_states) \<and>
     (\<exists>rows. sql_insert sa_check sa_clash a (db_attempts d) = Inr rows \<and> d' = d\<lparr>db_attempts := rows\<rparr>))"
  using assms
  by (auto simp: claim_attempt_sync_def rbind_eq_Inr attempt_values_Inr
      split: if_splits option.splits sum.splits)

lemma claim_attempt_sync_ok:
  assumes "db_ok d" and "claim_attempt_sync a d = Inr (b, d')"
  shows "db_ok d'"
proof (cases b)
  case False
  with claim_attempt_shape[OF assms(2)] assms(1) show ?thesis by simp
next
  case True
  with claim_attempt_shape[OF assms(2)] obtain w rows where w: "find_workflow d (sa_draft_id a) = Some w"
    and ins: "sql_insert sa_check sa_clash a (db_attempts d) = Inr rows" and d': "d' = d\<lparr>db_attempts := rows\<rparr>"
    by blast
  from ins have "sa_draft_id ` set rows = insert (sa_draft_id a) (sa_draft_id ` set (db_attempts d))"
    by (auto simp: sql_insert_Inr)
  also have "\<dots> \<subseteq> w_draft_id ` set (db_workflows d)"
    using find_workflow_in_ids[OF w] db_ok_references(5)[OF assms(1)] by simp
  finally show ?thesis unfolding d'
    by (intro db_ok_attempts[OF assms(1)] sa.ok_insert[OF db_ok_tables(6)[OF assms(1)] ins])
qed

lemma update_attempt_commit:
  assumes "update_attempt_sync a d = Inr (u, d')"
  obtains row n rows where "find_row sa_attempt_id (sa_attempt_id a) (db_attempts d) = Some row"
    and "sa_draft_id row = sa_draft_id a" and "sa_request_hash row = sa_request_hash a"
    and "sa_attempt_number row = sa_attempt_number a"
    and "sa_status a = sa_status row \<or> sa_status a \<in> set (attempt_targets (sa_status row))"
    and "sql_update sa_check (\<lambda>r. sa_attempt_id r = sa_attempt_id a \<and> sa_draft_id r = sa_draft_id a)
           (\<lambda>r. r\<lparr>sa_completed_at := sa_completed_at a, sa_status := sa_status a,
                  sa_error_summary := sa_error_summary a\<rparr>) (db_attempts d) = Inr (n, rows)"
    and "d' = d\<lparr>db_attempts := rows\<rparr>"
  using assms
  by (auto simp: update_attempt_sync_def rbind_eq_Inr simp del: attempt_targets.simps
      split: if_splits option.splits)

lemma attempt_target_not_pending: "''pending'' \<notin> set (attempt_targets st)"
  by simp

lemma update_attempt_sync_ok:
  assumes "db_ok d" and "update_attempt_sync a d = Inr (u, d')"
  shows "db_ok d'"
proof (cases rule: update_attempt_commit[OF assms(2)])
  case (1 row n rows)
  let ?P = "\<lambda>r. sa_attempt_id r = sa_attempt_id a \<and> sa_draft_id r = sa_draft_id a"
  let ?f = "\<lambda>r. r\<lparr>sa_completed_at := sa_completed_at a, sa_status := sa_status a,
                  sa_error_summary := sa_error_summary a\<rparr>"
  have ok: "table_ok sa_check sa_clash (db_attempts d)" by (rule db_ok_tables(6)[OF assms(1)])
  have only: "r = row" if "r \<in> set (db_attempts d)" "sa_attempt_id r = sa_attempt_id a" for r
    using sa.ok_find[OF ok that(1)] that(2) 1(1) by simp
  have pending: "sa_status (if ?P r then ?f r else r) = ''pending'' \<Longrightarrow> sa_status r = ''pending''"
    if "r \<in> set (db_attempts d)" for r
    using 1(5) only[OF that] attempt_target_not_pending[of "sa_status row"]
    by (auto simp del: attempt_targets.simps split: if_splits)
  have "table_ok sa_check sa_clash rows"
  proof (rule sa.ok_update[OF ok 1(6)])
    fix x y
    assume "x \<in> set (db_attempts d)" and "y \<in> set (db_attempts d)"
      and clash: "sa_clash (if ?P x then ?f x else x) (if ?P y then ?f y else y)"
    moreover have "sa_attempt_id (if ?P r then ?f r else r) = sa_attempt_id r"
      "sa_draft_id (if ?P r then ?f r else r) = sa_draft_id r"
      "sa_attempt_number (if ?P r then ?f r else r) = sa_attempt_number r" for r by simp_all
    ultimately show "sa_clash x y"
      using pending[of x] pending[of y] unfolding sa_clash_def by metis
  qed
  moreover have "sa_draft_id ` set rows = sa_draft_id ` set (db_attempts d)"
    using 1(6) image_update_rows[of ?P sa_draft_id ?f "db_attempts d"] by (simp add: sql_update_Inr)
  ultimately show ?thesis unfolding 1(7)
    using db_ok_references(5)[OF assms(1)] by (intro db_ok_attempts[OF assms(1)]) auto
qed

lemma set_attachment_status_sync_ok:
  assumes "db_ok d" and "set_attachment_status_sync k uid e t up upl err d = Inr (b, d')"
  shows "db_ok d'"
proof -
  let ?f = "\<lambda>q. q\<lparr>q_status := t, q_attachment := (q_attachment q)\<lparr>at_uploaded_id := upl\<rparr>,
                      q_last_error_code := err, q_updated_at := up\<rparr>"
  let ?P = "transfer_row k uid e"
  from assms(2) have d': "d' = d\<lparr>db_attachments := update_rows ?P ?f (db_attachments d)\<rparr>"
    by (auto simp: set_attachment_status_sync_def rbind_eq_Inr)
  have ok: "table_ok att_check att_clash (db_attachments d)" by (rule db_ok_tables(3)[OF assms(1)])
  have "table_ok att_check att_clash (update_rows ?P ?f (db_attachments d))"
    using ok by (intro att.ok_update_rows)
      (auto simp: table_ok_def list_all_iff att_check_def att_clash_def split: if_splits)
  moreover have "q_draft_id ` set (update_rows ?P ?f (db_attachments d)) = q_draft_id ` set (db_attachments d)"
    using image_update_rows[of ?P q_draft_id ?f "db_attachments d"] by simp
  ultimately show ?thesis unfolding d'
    using db_ok_references(2)[OF assms(1)] by (intro db_ok_attachments[OF assms(1)]) auto
qed

lemma store_published_issue_sync_ok:
  assumes "db_ok d" and "store_published_issue_sync k issue d = Inr (u, d')"
  shows "db_ok d'"
proof -
  from assms(2) obtain w where w: "find_workflow d k = Some w"
    and up: "upsert_published_issue k issue d = Inr d'"
    by (auto simp: store_published_issue_sync_def rbind_eq_Inr split: if_splits)
  from upsert_published_ok[OF assms(1) find_workflow_in_ids[OF w] up] show ?thesis by simp
qed

lemma register_card_message_sync_ok:
  "db_ok d \<Longrightarrow> register_card_message_sync now chat msg key owner d = Inr (u, d') \<Longrightarrow> db_ok d'"
  by (auto simp: register_card_message_sync_def rbind_eq_Inr
      intro!: db_ok_cards card.ok_upsert[OF db_ok_tables(7)])

lemma record_notification_sync_ok:
  "db_ok d \<Longrightarrow> record_notification_sync user key upd d = Inr (u, d') \<Longrightarrow> db_ok d'"
  by (auto simp: record_notification_sync_def rbind_eq_Inr
      intro!: db_ok_notifications notif.ok_upsert[OF db_ok_tables(8)])

section \<open>Every sequence of operations\<close>

text \<open>The public operations that write, with the clock reading each of them makes.\<close>

datatype repo_op =
    OpSave draft "datetime option"
  | OpCas int string int draft_state "string option"
  | OpExpireEligible int datetime int
  | OpDelete string
  | OpDeleteTerminal datetime int
  | OpStoreCallback callback_token_record
  | OpConsumeCallback string datetime
  | OpInvalidateTokens string datetime
  | OpDeleteExpiredCallbacks datetime int
  | OpClaimAttempt submission_attempt
  | OpUpdateAttempt submission_attempt
  | OpSetAttachmentStatus string string attachment_status attachment_status datetime "string option" "string option"
  | OpStorePublishedIssue string published_issue
  | OpRegisterCard int int int string int
  | OpRecordNotification int string string

fun exec_op :: "repo_op \<Rightarrow> repo \<Rightarrow> repo" where
  "exec_op (OpSave dr e) s = snd (repo_save dr e s)"
| "exec_op (OpCas now k rv t err) s = snd (repo_cas now k rv t err s)"
| "exec_op (OpExpireEligible now b n) s = snd (repo_expire_eligible now b n s)"
| "exec_op (OpDelete k) s = snd (repo_delete k s)"
| "exec_op (OpDeleteTerminal b n) s = snd (repo_delete_terminal b n s)"
| "exec_op (OpStoreCallback r) s = snd (repo_store_callback r s)"
| "exec_op (OpConsumeCallback h c) s = snd (repo_consume_callback h c s)"
| "exec_op (OpInvalidateTokens k c) s = snd (repo_invalidate_tokens k c s)"
| "exec_op (OpDeleteExpiredCallbacks b n) s = snd (repo_delete_expired_callbacks b n s)"
| "exec_op (OpClaimAttempt a) s = snd (repo_claim_attempt a s)"
| "exec_op (OpUpdateAttempt a) s = snd (repo_update_attempt a s)"
| "exec_op (OpSetAttachmentStatus k uid e t up upl err) s = snd (repo_set_attachment_status k uid e t up upl err s)"
| "exec_op (OpStorePublishedIssue k i) s = snd (repo_store_published_issue k i s)"
| "exec_op (OpRegisterCard now c m key owner) s = snd (repo_register_card_message now c m key owner s)"
| "exec_op (OpRecordNotification u key upd) s = snd (repo_record_notification u key upd s)"

definition exec_ops :: "repo_op list \<Rightarrow> repo \<Rightarrow> repo" where
  "exec_ops ops s = foldl (\<lambda>st op. exec_op op st) s ops"

lemma repo_run_cases:
  obtains "snd (repo_run f s) = s" | x d where "f (rp_db s) = Inr (x, d)" "snd (repo_run f s) = s\<lparr>rp_db := d\<rparr>"
  by (cases "rp_initialized s"; cases "f (rp_db s)") (auto simp: repo_run_def split: prod.splits)

lemma snd_bind_lift: "snd (sx_bind (sx_lift r) f s) = (case r of Inl e \<Rightarrow> s | Inr x \<Rightarrow> snd (f x s))"
  by (simp add: sx_bind_def split: sum.splits)

lemma snd_bind_ensure: "snd (sx_bind (sx_ensure b e) f s) = (if b then snd (f () s) else s)"
  by (simp add: sx_bind_def ensure_def)

text \<open>
  Every operation either leaves the repository as it was or commits the database of its body: the
  shape all results on operations are read off from.
\<close>

definition op_body :: "repo_op \<Rightarrow> db \<Rightarrow> exn + db" where
  "op_body op d = (case op of
     OpSave dr e \<Rightarrow> rbind (save_sync dr e d) (\<lambda>r. Inr (snd r))
   | OpCas now k rv t err \<Rightarrow> rbind (cas_sync now k rv t err d) (\<lambda>r. Inr (snd r))
   | OpExpireEligible now b n \<Rightarrow> rbind (expire_eligible_sync now b n d) (\<lambda>r. Inr (snd r))
   | OpDelete k \<Rightarrow> rbind (delete_sync k d) (\<lambda>r. Inr (snd r))
   | OpDeleteTerminal b n \<Rightarrow> rbind (delete_terminal_sync b n d) (\<lambda>r. Inr (snd r))
   | OpStoreCallback r \<Rightarrow> rbind (store_callback_sync r d) (\<lambda>r. Inr (snd r))
   | OpConsumeCallback h c \<Rightarrow> rbind (consume_callback_sync h c d) (\<lambda>r. Inr (snd r))
   | OpInvalidateTokens k c \<Rightarrow> rbind (invalidate_tokens_sync k c d) (\<lambda>r. Inr (snd r))
   | OpDeleteExpiredCallbacks b n \<Rightarrow> rbind (delete_expired_callbacks_sync b n d) (\<lambda>r. Inr (snd r))
   | OpClaimAttempt a \<Rightarrow> rbind (claim_attempt_sync a d) (\<lambda>r. Inr (snd r))
   | OpUpdateAttempt a \<Rightarrow> rbind (update_attempt_sync a d) (\<lambda>r. Inr (snd r))
   | OpSetAttachmentStatus k uid e t up upl err \<Rightarrow>
       rbind (set_attachment_status_sync k uid e t up upl err d) (\<lambda>r. Inr (snd r))
   | OpStorePublishedIssue k i \<Rightarrow> rbind (store_published_issue_sync k i d) (\<lambda>r. Inr (snd r))
   | OpRegisterCard now c m key owner \<Rightarrow> rbind (register_card_message_sync now c m key owner d) (\<lambda>r. Inr (snd r))
   | OpRecordNotification u key upd \<Rightarrow> rbind (record_notification_sync u key upd d) (\<lambda>r. Inr (snd r)))"

lemma snd_repo_run: "snd (repo_run f s) = s \<or>
   (\<exists>d. rbind (f (rp_db s)) (\<lambda>r. Inr (snd r)) = Inr d \<and> snd (repo_run f s) = s\<lparr>rp_db := d\<rparr>)"
  by (cases "rp_initialized s"; cases "f (rp_db s)") (auto simp: repo_run_def split: prod.splits)

lemma exec_op_shape:
  "exec_op op s = s \<or> (\<exists>d. op_body op (rp_db s) = Inr d \<and> exec_op op s = s\<lparr>rp_db := d\<rparr>)"
  by (cases op)
    (simp_all add: op_body_def repo_save_def repo_cas_def repo_expire_eligible_def repo_delete_def
      repo_delete_terminal_def repo_store_callback_def repo_consume_callback_def
      repo_invalidate_tokens_def repo_delete_expired_callbacks_def repo_claim_attempt_def
      repo_update_attempt_def repo_set_attachment_status_def repo_store_published_issue_def
      repo_register_card_message_def repo_record_notification_def snd_bind_lift snd_bind_ensure
      snd_repo_run split: sum.split)

lemma op_body_ok: "db_ok d \<Longrightarrow> op_body op d = Inr d' \<Longrightarrow> db_ok d'"
  by (cases op)
    (auto simp: op_body_def rbind_eq_Inr intro: save_sync_ok cas_sync_ok expire_eligible_sync_ok
      delete_sync_ok delete_terminal_sync_ok store_callback_sync_ok consume_callback_sync_ok
      invalidate_tokens_sync_ok delete_expired_callbacks_sync_ok claim_attempt_sync_ok
      update_attempt_sync_ok set_attachment_status_sync_ok store_published_issue_sync_ok
      register_card_message_sync_ok record_notification_sync_ok)

lemma exec_op_ok: "db_ok (rp_db s) \<Longrightarrow> db_ok (rp_db (exec_op op s))"
  using exec_op_shape[of op s] op_body_ok[of "rp_db s" op] by auto

lemma exec_ops_append: "exec_ops (ops @ [op]) s = exec_op op (exec_ops ops s)"
  by (simp add: exec_ops_def)

lemma exec_ops_ok: "db_ok (rp_db s) \<Longrightarrow> db_ok (rp_db (exec_ops ops s))"
  by (induction ops rule: rev_induct) (simp_all add: exec_ops_append exec_op_ok, simp add: exec_ops_def)

definition fresh_repo :: repo where
  "fresh_repo = \<lparr>rp_db = empty_db, rp_initialized = True\<rparr>"

lemma fresh_run_ok: "db_ok (rp_db (exec_ops ops fresh_repo))"
  by (intro exec_ops_ok) (simp add: fresh_repo_def empty_db_ok)

definition pending_attempt :: "string \<Rightarrow> submission_attempt \<Rightarrow> bool" where
  "pending_attempt k a \<longleftrightarrow> sa_draft_id a = k \<and> sa_status a = ''pending''"

lemma clashing_at_most_one:
  assumes "sorted_wrt (\<lambda>x y. \<not> clash x y) rows" and "\<And>x y. P x \<Longrightarrow> P y \<Longrightarrow> clash x y"
  shows "count_rows P rows \<le> 1"
  using assms(1)
proof (induction rows)
  case Nil
  then show ?case by (simp add: count_rows_def)
next
  case (Cons r rows)
  show ?case
  proof (cases "P r")
    case True
    have "\<not> P x" if "x \<in> set rows" for x
      using Cons.prems that assms(2)[OF True, of x] by auto
    then have "count_rows P rows = 0" by (simp add: count_rows_zero)
    with True show ?thesis by (simp add: count_rows_def)
  next
    case False
    with Cons show ?thesis by (simp add: count_rows_def)
  qed
qed

lemma one_pending_attempt: "db_ok d \<Longrightarrow> count_rows (pending_attempt k) (db_attempts d) \<le> 1"
  using db_ok_tables(6)[of d]
  by (intro clashing_at_most_one[of sa_clash]) (auto simp: table_ok_def sa_clash_def pending_attempt_def)

lemma published_keys_distinct:
  "table_ok pub_check pub_clash rows \<Longrightarrow> distinct (map (\<lambda>u. pi_issue_key (u_issue u)) rows)"
  unfolding table_ok_def by (induction rows) (auto simp: pub_clash_def)

text \<open>
  C2. Integrity of the durable store: whatever operations any callers apply to a fresh repository, in
  any order and with any arguments, whether they succeed or raise, it holds one row per draft,
  at most one pending submission attempt per draft, one callback record per token hash, no Jira
  issue key claimed by two drafts, and no token, attempt or published issue of a draft that is
  not there.
\<close>

theorem repository_integrity:
  "(let d = rp_db (exec_ops ops fresh_repo); ids = w_draft_id ` set (db_workflows d) in
     distinct (map w_draft_id (db_workflows d)) \<and>
     count_rows (pending_attempt k) (db_attempts d) \<le> 1 \<and>
     distinct (map ct_token_hash (db_callbacks d)) \<and>
     distinct (map (\<lambda>u. pi_issue_key (u_issue u)) (db_published d)) \<and>
     ct_draft_id ` set (db_callbacks d) \<subseteq> ids \<and> sa_draft_id ` set (db_attempts d) \<subseteq> ids \<and>
     u_draft_id ` set (db_published d) \<subseteq> ids)"
proof -
  have ok: "db_ok (rp_db (exec_ops ops fresh_repo))" by (rule fresh_run_ok)
  from db_ok_tables[OF ok] db_ok_references[OF ok] one_pending_attempt[OF ok]
  show ?thesis by (simp add: Let_def wf.ok_distinct cb.ok_distinct published_keys_distinct)
qed

end
