(* ===== verification/Workflow_Refinement.thy ===== *)
theory Workflow_Refinement
  imports Workflow_Invariant
begin

text \<open>
  What the repository promises of one draft.  Its abstraction is the draft's version (state and
  revision, or absent), and \<open>version_step\<close> is the abstract specification: a version is created,
  revised, moved along an edge of the state machine with the revision incremented by one, or
  removed from a state that retention may delete.  Every operation refines it.  The section on
  each operation says exactly which rows it changes.
\<close>

section \<open>Versions\<close>

definition version :: "db \<Rightarrow> string \<Rightarrow> (draft_state \<times> int) option" where
  "version d k = map_option (\<lambda>r. (w_state r, w_revision r)) (find_workflow d k)"

inductive version_step :: "(draft_state \<times> int) option \<Rightarrow> (draft_state \<times> int) option \<Rightarrow> bool" where
  vs_same: "version_step v v"
| vs_create: "version_step None (Some (s, n))"
| vs_revise: "version_step (Some (s, n)) (Some (s, n + 1))"
| vs_move: "is_transition_allowed s t \<Longrightarrow> version_step (Some (s, n)) (Some (t, n + 1))"
| vs_delete: "s \<in> set deletable_retention_states \<Longrightarrow> version_step (Some (s, n)) None"

inductive_cases version_stepE: "version_step (Some v) w"
inductive_simps version_step_simps:
  "version_step (Some (s, n)) (Some (t, m))" "version_step (Some (s, n)) None"

lemma version_workflows: "db_workflows d' = db_workflows d \<Longrightarrow> version d' k = version d k"
  by (simp add: version_def find_workflow_def)

lemma find_row_update_key:
  "(\<And>r. P r \<Longrightarrow> key (f r) = key r) \<Longrightarrow>
     find_row key k (update_rows P f rows) =
     map_option (\<lambda>r. if P r then f r else r) (find_row key k rows)"
  by (induction rows) (auto simp: update_rows_def)

lemma find_row_update_other:
  "(\<And>r. P r \<Longrightarrow> key (f r) = key r) \<Longrightarrow> (\<And>r. P r \<Longrightarrow> key r \<noteq> k) \<Longrightarrow>
     find_row key k (update_rows P f rows) = find_row key k rows"
  by (induction rows) (auto simp: update_rows_def)

section \<open>save\<close>

lemma save_keeps_workflows:
  "save_sources dr d = Inr d' \<Longrightarrow> db_workflows d' = db_workflows d"
  "save_attachments dr d = Inr d' \<Longrightarrow> db_workflows d' = db_workflows d"
  "upsert_published_issue k i d = Inr d' \<Longrightarrow> db_workflows d' = db_workflows d"
  "save_published e dr d = Inr d' \<Longrightarrow> db_workflows d' = db_workflows d"
  by (auto simp: save_sources_def save_attachments_def upsert_published_issue_def save_published_def
      Let_def rbind_eq_Inr split: option.splits if_splits)

lemma save_sync_workflows:
  assumes "save_sync dr e d = Inr (u, d')"
  obtains expiry d1 where "save_guard (find_workflow d (d_draft_id dr)) dr = Inr ()"
    and "save_workflow_row (find_workflow d (d_draft_id dr)) dr expiry d = Inr d1"
    and "db_workflows d' = db_workflows d1"
  using assms by (auto simp: save_sync_def Let_def rbind_eq_Inr dest!: save_keeps_workflows)

lemma save_row_version:
  assumes "save_workflow_row (find_workflow d (d_draft_id dr)) dr expiry d = Inr d1"
    and "save_guard (find_workflow d (d_draft_id dr)) dr = Inr ()"
  shows "version d1 k = (if k = d_draft_id dr then Some (d_state dr, d_revision dr) else version d k)"
proof -
  from assms(1) obtain row where row: "workflow_row_of dr expiry = Inr row"
    by (auto simp: save_workflow_row_def rbind_eq_Inr)
  then have id: "w_draft_id row = d_draft_id dr" "w_state row = d_state dr" "w_revision row = d_revision dr"
    by (auto simp: workflow_row_of_def rbind_eq_Inr)
  show ?thesis
  proof (cases "find_workflow d (d_draft_id dr)")
    case None
    with assms(1) row have "d1 = d\<lparr>db_workflows := db_workflows d @ [row]\<rparr>"
      by (auto simp: save_workflow_row_def rbind_eq_Inr sql_insert_Inr)
    with None id show ?thesis
      by (auto simp: version_def find_workflow_def find_row_append split: option.splits)
  next
    case (Some old)
    let ?P = "\<lambda>x. w_draft_id x = d_draft_id dr \<and> w_revision x = d_revision dr - 1"
    from assms(1) row Some have d1: "d1 = d\<lparr>db_workflows := update_rows ?P (\<lambda>_. row) (db_workflows d)\<rparr>"
      by (auto simp: save_workflow_row_def rbind_eq_Inr sql_update_Inr split: if_splits)
    have "find_workflow d1 k = map_option (\<lambda>r. if ?P r then row else r) (find_workflow d k)"
      using find_row_update_key[of ?P w_draft_id "\<lambda>_. row" k "db_workflows d"] id
      by (simp add: d1 find_workflow_def)
    moreover have "w_revision old = d_revision dr - 1"
      using assms(2) Some by (auto simp: save_guard_def split: if_splits)
    ultimately show ?thesis
      using Some id find_workflow_Some[of d k]
      by (cases "find_workflow d k") (auto simp: version_def)
  qed
qed

lemma save_guard_step:
  assumes "save_guard (find_workflow d (d_draft_id dr)) dr = Inr ()"
  shows "version_step (version d (d_draft_id dr)) (Some (d_state dr, d_revision dr))"
proof (cases "find_workflow d (d_draft_id dr)")
  case None
  then show ?thesis by (simp add: version_def vs_create)
next
  case (Some r)
  with assms have "d_revision dr = w_revision r + 1"
    and "w_state r = d_state dr \<or> is_transition_allowed (w_state r) (d_state dr)"
    by (auto simp: save_guard_def split: if_splits)
  with Some show ?thesis by (auto simp: version_def intro: vs_revise vs_move)
qed

lemma save_sync_version:
  assumes "save_sync dr e d = Inr (u, d')"
  shows "version_step (version d k) (version d' k) \<and>
         version d' (d_draft_id dr) = Some (d_state dr, d_revision dr)"
proof (cases rule: save_sync_workflows[OF assms])
  case (1 expiry d1)
  have "version d' k = version d1 k" for k by (rule version_workflows[OF 1(3)])
  with save_row_version[OF 1(2,1)] save_guard_step[OF 1(1)] show ?thesis by (auto intro: vs_same)
qed

section \<open>compare_and_swap_state\<close>

lemma cas_sync_version:
  assumes "cas_sync now k rv t err d = Inr (dr, d')"
  shows "\<exists>s. version d k = Some (s, rv) \<and> is_transition_allowed s t \<and>
           version d' j = (if j = k then Some (t, rv + 1) else version d j)"
proof (cases rule: cas_sync_commit[OF assms])
  case (1 row rows)
  let ?P = "\<lambda>r. w_draft_id r = k \<and> w_state r = w_state row \<and> w_revision r = rv"
  let ?f = "\<lambda>r. r\<lparr>w_state := t, w_revision := rv + 1, w_updated_at := Aware now,
     w_expires_at := (if t \<in> set expirable_states then w_expires_at row else None), w_last_error := err\<rparr>"
  have rows: "rows = update_rows ?P ?f (db_workflows d)" using 1(5) by (simp add: sql_update_Inr)
  have "find_workflow d' j = map_option (\<lambda>r. if ?P r then ?f r else r) (find_workflow d j)"
    unfolding find_workflow_def 1(6) rows by (simp add: find_row_update_key)
  note find = this
  show ?thesis
  proof (cases "j = k")
    case True
    with find 1(1,2,3) find_workflow_Some[OF 1(1)] show ?thesis by (simp add: version_def)
  next
    case False
    then have "version d' j = version d j"
      using find by (cases "find_workflow d j") (auto simp: version_def dest: find_workflow_Some)
    with False 1(1,2,3) show ?thesis by (simp add: version_def)
  qed
qed

lemma load_draft_version:
  assumes "load_draft d k = Inr (Some dr)"
  shows "version d k = Some (d_state dr, d_revision dr) \<and> d_draft_id dr = k"
proof -
  from assms obtain row where row: "find_workflow d k = Some row"
    by (auto simp: load_draft_def split: option.splits)
  with assms have "d_state dr = w_state row \<and> d_revision dr = w_revision row \<and> d_draft_id dr = w_draft_id row"
    by (auto simp: load_draft_def Let_def rbind_eq_Inr)
  with row find_workflow_Some[OF row] show ?thesis by (simp add: version_def)
qed

section \<open>expire_eligible\<close>

definition expire_row :: "datetime \<Rightarrow> wf_row \<Rightarrow> wf_row" where
  "expire_row at r = r\<lparr>w_state := EXPIRED, w_revision := w_revision r + 1, w_updated_at := at, w_expires_at := None\<rparr>"

lemma expire_row_key [simp]: "w_draft_id (expire_row at r) = w_draft_id r"
  by (simp add: expire_row_def)

lemma update_rows_cong:
  "(\<And>r. r \<in> set rows \<Longrightarrow> (P r \<longleftrightarrow> Q r) \<and> (Q r \<longrightarrow> f r = g r)) \<Longrightarrow> update_rows P f rows = update_rows Q g rows"
  by (auto simp: update_rows_def)

lemma distinct_key_eq: "distinct (map key rows) \<Longrightarrow> x \<in> set rows \<Longrightarrow> y \<in> set rows \<Longrightarrow> key x = key y \<Longrightarrow> x = y"
  by (metis find_row_unique option.inject)

lemma update_rows_twice:
  "(\<And>r. r \<in> set rows \<Longrightarrow> P r \<Longrightarrow> \<not> Q (f r) \<and> \<not> Q r) \<Longrightarrow>
     update_rows Q f (update_rows P f rows) = update_rows (\<lambda>r. P r \<or> Q r) f rows"
  by (auto simp: update_rows_def)

lemma expire_rows_exact:
  assumes "expire_rows at sel n rows = Inr (m, rows')"
    and "set sel \<subseteq> set rows" and "distinct (map w_draft_id sel)" and "distinct (map w_draft_id rows)"
  shows "rows' = update_rows (\<lambda>r. w_draft_id r \<in> w_draft_id ` set sel) (expire_row at) rows \<and>
         m = n + length sel \<and> (\<forall>r \<in> set sel. is_expirable (w_state r))"
  using assms
proof (induction sel arbitrary: n rows)
  case Nil
  then show ?case by (simp add: update_rows_def)
next
  case (Cons row sel)
  let ?P = "\<lambda>r. w_draft_id r = w_draft_id row \<and> w_state r = w_state row \<and> w_revision r = w_revision row"
  let ?f = "\<lambda>r. r\<lparr>w_state := EXPIRED, w_revision := w_revision row + 1, w_updated_at := at, w_expires_at := None\<rparr>"
  let ?Q = "\<lambda>r. w_draft_id r = w_draft_id row"
  from Cons.prems(1) have exp: "is_expirable (w_state row)"
    and rest: "expire_rows at sel (n + count_rows ?P rows) (update_rows ?P ?f rows) = Inr (m, rows')"
    by (auto simp: rbind_eq_Inr TransitionCommand_Inr evaluate_transition_Inr sql_update_Inr fsm_facts)
  have row: "row \<in> set rows" using Cons.prems(2) by simp
  have only: "r = row" if "r \<in> set rows" "w_draft_id r = w_draft_id row" for r
    using distinct_key_eq[OF Cons.prems(4) that(1) row that(2)] .
  have one: "count_rows ?P rows = 1"
    using count_rows_unique[OF Cons.prems(4), of "w_draft_id row" "\<lambda>r. w_state r = w_state row \<and> w_revision r = w_revision row"]
      find_row_unique[OF Cons.prems(4) row] by simp
  have upd: "update_rows ?P ?f rows = update_rows ?Q (expire_row at) rows"
    by (rule update_rows_cong) (auto simp: expire_row_def dest: only)
  have "set sel \<subseteq> set (update_rows ?Q (expire_row at) rows)"
    using Cons.prems(2,3) by (force simp: set_update_rows image_iff)
  moreover have "distinct (map w_draft_id (update_rows ?Q (expire_row at) rows))"
    using Cons.prems(4) by (simp add: map_key_update_rows)
  ultimately have IH: "rows' = update_rows (\<lambda>r. w_draft_id r \<in> w_draft_id ` set sel) (expire_row at)
        (update_rows ?Q (expire_row at) rows) \<and> m = n + 1 + length sel \<and> (\<forall>r \<in> set sel. is_expirable (w_state r))"
    using Cons.IH[of "n + 1" "update_rows ?Q (expire_row at) rows"] rest Cons.prems(3) by (simp add: one upd)
  have "update_rows (\<lambda>r. w_draft_id r \<in> w_draft_id ` set sel) (expire_row at) (update_rows ?Q (expire_row at) rows) =
        update_rows (\<lambda>r. ?Q r \<or> w_draft_id r \<in> w_draft_id ` set sel) (expire_row at) rows"
    using Cons.prems(3) by (intro update_rows_twice) (auto simp: image_iff)
  moreover have "(\<lambda>r. w_draft_id r \<in> w_draft_id ` set (row # sel)) =
      (\<lambda>r. ?Q r \<or> w_draft_id r \<in> w_draft_id ` set sel)" by auto
  ultimately show ?case using IH exp by simp
qed

lemma expire_eligible_commit:
  assumes "db_ok d" and "expire_eligible_sync now before n d = Inr (m, d')"
  obtains sel where "sel = sql_select (expired_row before) expiry_key n (db_workflows d)"
    and "d' = d\<lparr>db_workflows := update_rows (\<lambda>r. w_draft_id r \<in> w_draft_id ` set sel)
               (expire_row (Aware now)) (db_workflows d)\<rparr>"
    and "m = length sel" and "\<forall>r \<in> set sel. is_expirable (w_state r)" and "set sel \<subseteq> set (db_workflows d)"
proof -
  let ?sel = "sql_select (expired_row before) expiry_key n (db_workflows d)"
  from assms(2) obtain rows where run: "expire_rows (Aware now) ?sel 0 (db_workflows d) = Inr (m, rows)"
    and d': "d' = d\<lparr>db_workflows := rows\<rparr>"
    by (auto simp: expire_eligible_sync_def rbind_eq_Inr)
  have dist: "distinct (map w_draft_id (db_workflows d))"
    by (rule wf.ok_distinct[OF db_ok_tables(1)[OF assms(1)]])
  have sub: "set ?sel \<subseteq> set (db_workflows d)" using sql_select_subset[of "expired_row before"] by fastforce
  have "distinct (map w_draft_id (sort_key expiry_key (filter (expired_row before) (db_workflows d))))"
    using distinct_map_filter_rows[OF dist] by (simp add: distinct_map inj_on_def)
  then have "distinct (map w_draft_id ?sel)"
    unfolding sql_select_def by (simp add: take_map[symmetric] distinct_take)
  from expire_rows_exact[OF run sub this dist] show ?thesis
    using that[OF refl] d' sub by simp
qed

lemma expire_eligible_version:
  assumes "db_ok d" and "expire_eligible_sync now before n d = Inr (m, d')"
  shows "version_step (version d k) (version d' k)"
proof (cases rule: expire_eligible_commit[OF assms])
  case (1 sel)
  let ?P = "\<lambda>r. w_draft_id r \<in> w_draft_id ` set sel"
  have find: "find_workflow d' k = map_option (\<lambda>r. if ?P r then expire_row (Aware now) r else r) (find_workflow d k)"
    using find_row_update_key[of ?P w_draft_id "expire_row (Aware now)" k "db_workflows d"]
    by (simp add: 1(2) find_workflow_def)
  show ?thesis
  proof (cases "find_workflow d k")
    case None
    with find show ?thesis by (simp add: version_def vs_same)
  next
    case (Some r)
    have dist: "distinct (map w_draft_id (db_workflows d))"
      by (rule wf.ok_distinct[OF db_ok_tables(1)[OF assms(1)]])
    have "is_expirable (w_state r)" if "?P r"
    proof -
      from that obtain x where x: "x \<in> set sel" "w_draft_id x = w_draft_id r" by auto
      moreover have "r \<in> set (db_workflows d)" using find_workflow_Some[OF Some] by simp
      ultimately have "x = r" using distinct_key_eq[OF dist] 1(5) by blast
      with x 1(4) show ?thesis by simp
    qed
    with find Some show ?thesis
      by (auto simp: version_def expire_row_def fsm_facts intro: vs_same vs_move)
  qed
qed

section \<open>delete and delete_terminal\<close>

lemma find_after_delete:
  "find_workflow (delete_workflows P d) k = find_row w_draft_id k (filter (\<lambda>r. \<not> P r) (db_workflows d))"
  by (simp add: find_workflow_def delete_workflows_def Let_def)

lemma delete_sync_version:
  assumes "db_ok d" and "delete_sync k d = Inr (b, d')"
  shows "version_step (version d j) (version d' j)"
proof -
  let ?P = "\<lambda>r. w_draft_id r = k \<and> w_state r \<in> set deletable_retention_states"
  from assms(2) have d': "d' = delete_workflows ?P d" by (simp add: delete_sync_def Let_def)
  have "version d' j = (case find_workflow d j of None \<Rightarrow> None
          | Some r \<Rightarrow> if ?P r then None else version d j)"
  proof (cases "find_workflow d j")
    case None
    then have "find_workflow d' j = None"
      unfolding d' find_after_delete by (auto simp: find_row_None find_workflow_def)
    with None show ?thesis by (simp add: version_def)
  next
    case (Some r)
    have dist: "distinct (map w_draft_id (db_workflows d))"
      by (rule wf.ok_distinct[OF db_ok_tables(1)[OF assms(1)]])
    have only: "x = r" if "x \<in> set (db_workflows d)" "w_draft_id x = j" for x
      using distinct_key_eq[OF dist that(1)] find_workflow_Some[OF Some] that(2) by simp
    show ?thesis
    proof (cases "?P r")
      case True
      have "find_workflow d' j = None" unfolding d' find_after_delete
        by (rule find_row_filter_drop) (use True only in blast)
      with True Some show ?thesis by (simp add: version_def)
    next
      case False
      have "find_workflow d' j = find_workflow d j" unfolding d' find_after_delete
        unfolding find_workflow_def by (rule find_row_filter_other) (use False only in blast)
      with False Some show ?thesis by (simp add: version_def)
    qed
  qed
  then show ?thesis
    by (cases "find_workflow d j") (auto simp: version_def intro: vs_same vs_delete)
qed

lemma delete_fold_workflows:
  "db_workflows (foldl (\<lambda>acc k. delete_workflows (\<lambda>r. w_draft_id r = k) acc) d ids) =
     filter (\<lambda>r. w_draft_id r \<notin> set ids) (db_workflows d)"
  by (induction ids arbitrary: d) (auto simp: delete_workflows_def Let_def intro: filter_cong)

lemma delete_terminal_version:
  assumes "db_ok d" and "delete_terminal_sync before n d = Inr (m, d')"
  shows "version_step (version d k) (version d' k)"
proof -
  let ?sel = "sql_select (terminal_row before) updated_key n (db_workflows d)"
  from assms(2) have rows: "db_workflows d' = filter (\<lambda>r. w_draft_id r \<notin> w_draft_id ` set ?sel) (db_workflows d)"
    by (auto simp: delete_terminal_sync_def rbind_eq_Inr Let_def delete_fold_workflows)
  have dist: "distinct (map w_draft_id (db_workflows d))"
    by (rule wf.ok_distinct[OF db_ok_tables(1)[OF assms(1)]])
  show ?thesis
  proof (cases "k \<in> w_draft_id ` set ?sel")
    case False
    then have "find_workflow d' k = find_workflow d k"
      by (auto simp: find_workflow_def rows intro: find_row_filter_other)
    then show ?thesis by (simp add: version_def vs_same)
  next
    case True
    then obtain x where x: "x \<in> set ?sel" "w_draft_id x = k" by blast
    with sql_select_subset[of "terminal_row before" updated_key n "db_workflows d"]
    have "x \<in> set (db_workflows d)" and "w_state x \<in> set deletable_retention_states"
      by (auto simp: terminal_row_def)
    moreover from this have "find_workflow d k = Some x"
      using wf.ok_find[OF db_ok_tables(1)[OF assms(1)], of x] x(2) by (simp add: find_workflow_def)
    moreover have "find_workflow d' k = None"
      using True unfolding find_workflow_def rows find_row_None set_filter by blast
    ultimately show ?thesis by (simp add: version_def vs_delete)
  qed
qed

section \<open>Every operation refines the abstract step\<close>

lemma store_callback_workflows: "store_callback_sync r d = Inr (u, d') \<Longrightarrow> db_workflows d' = db_workflows d"
  by (erule store_callback_commit) simp

lemma claim_attempt_workflows: "claim_attempt_sync a d = Inr (b, d') \<Longrightarrow> db_workflows d' = db_workflows d"
  by (drule claim_attempt_shape) auto

lemma update_attempt_workflows: "update_attempt_sync a d = Inr (u, d') \<Longrightarrow> db_workflows d' = db_workflows d"
  by (erule update_attempt_commit) simp

lemma other_ops_workflows:
  "consume_callback_sync h c d = Inr (b, d') \<Longrightarrow> db_workflows d' = db_workflows d"
  "invalidate_tokens_sync k c d = Inr (n, d') \<Longrightarrow> db_workflows d' = db_workflows d"
  "delete_expired_callbacks_sync t l d = Inr (n, d') \<Longrightarrow> db_workflows d' = db_workflows d"
  "set_attachment_status_sync k uid es ts up upl err d = Inr (b, d') \<Longrightarrow> db_workflows d' = db_workflows d"
  "store_published_issue_sync k i d = Inr (u, d') \<Longrightarrow> db_workflows d' = db_workflows d"
  "register_card_message_sync now ch m key own d = Inr (u, d') \<Longrightarrow> db_workflows d' = db_workflows d"
  "record_notification_sync usr key lst d = Inr (u, d') \<Longrightarrow> db_workflows d' = db_workflows d"
  by (auto simp: consume_callback_sync_def invalidate_tokens_sync_def delete_expired_callbacks_sync_def
      set_attachment_status_sync_def store_published_issue_sync_def register_card_message_sync_def
      record_notification_sync_def rbind_eq_Inr Let_def dest: save_keeps_workflows(3) split: if_splits)

lemmas workflows_untouched = store_callback_workflows claim_attempt_workflows update_attempt_workflows
  other_ops_workflows

lemma version_step_untouched: "db_workflows d' = db_workflows d \<Longrightarrow> version_step (version d k) (version d' k)"
  using version_workflows[of d' d k] by (simp add: vs_same)

lemma cas_sync_step:
  assumes "cas_sync now k rv t err d = Inr (dr, d')"
  shows "version_step (version d j) (version d' j)"
  using cas_sync_version[OF assms, of j] by (auto intro: vs_same vs_move)

lemma op_body_version:
  assumes "db_ok d" and "op_body op d = Inr d'"
  shows "version_step (version d k) (version d' k)"
  using assms(2)
  by (cases op)
    (auto simp: op_body_def rbind_eq_Inr
      dest!: save_sync_version[where k = k] cas_sync_step[where j = k]
        expire_eligible_version[OF assms(1), where k = k] delete_sync_version[OF assms(1), where j = k]
        delete_terminal_version[OF assms(1), where k = k]
      dest: workflows_untouched intro: version_step_untouched)

text \<open>
  C3. The repository refines the version specification: after any sequence of operations on a fresh
  repository, one more operation by anyone changes the version of each draft only by creating it,
  by a revision that keeps its state, by a legal transition with the revision
  incremented by exactly one, or by removing it from CANCELLED, EXPIRED or COMPLETE.
\<close>

theorem repository_refines_versions:
  "version_step (version (rp_db (exec_ops ops fresh_repo)) k)
                (version (rp_db (exec_ops (ops @ [op]) fresh_repo)) k)"
proof -
  let ?s = "exec_ops ops fresh_repo"
  have "version_step (version (rp_db ?s) k) (version (rp_db (exec_op op ?s)) k)"
    using exec_op_shape[of op ?s] op_body_version[OF fresh_run_ok] by (auto intro: vs_same)
  then show ?thesis by (simp add: exec_ops_append)
qed

section \<open>Results of the public operations\<close>

lemma repo_run_Inr:
  "repo_run f s = (Inr x, s') \<longleftrightarrow>
     rp_initialized s \<and> (\<exists>d. f (rp_db s) = Inr (x, d) \<and> s' = s\<lparr>rp_db := d\<rparr>)"
  by (cases "f (rp_db s)") (auto simp: repo_run_def split: prod.splits)

lemma repo_run_Inl:
  "repo_run f s = (Inl e, s') \<longleftrightarrow> s' = s \<and>
     (if rp_initialized s then (\<exists>e0. f (rp_db s) = Inl e0 \<and> e = translate_error e0)
      else e = RepositoryError WorkflowRepositoryError ''workflow_repository_not_initialized'')"
  by (cases "f (rp_db s)") (auto simp: repo_run_def split: prod.splits)

lemma bind_lift_Inr:
  "sx_bind (sx_lift r) f s = (Inr x, s') \<longleftrightarrow> (\<exists>y. r = Inr y \<and> f y s = (Inr x, s'))"
  by (cases r) (simp_all add: sx_bind_def)

lemma repo_cas_Inr:
  "repo_cas now k rv t err s = (Inr dr, s') \<longleftrightarrow> validate_safe_code err = Inr () \<and> rp_initialized s \<and>
     (\<exists>d. cas_sync now k rv t err (rp_db s) = Inr (dr, d) \<and> s' = s\<lparr>rp_db := d\<rparr>)"
  by (auto simp: repo_cas_def bind_lift_Inr repo_run_Inr)

lemma cas_sync_stale:
  assumes "version d k = Some (s, n)" and "rv \<noteq> n" and "1 \<le> rv" and "k \<noteq> []" "length k \<le> 128"
    and "\<not> list_ex control_or_space k"
  shows "cas_sync now k rv t err d = Inl (DomainError (RevisionConflictError rv n))"
proof -
  from assms(1) obtain row where "find_workflow d k = Some row" "w_state row = s" "w_revision row = n"
    by (auto simp: version_def)
  with assms(2-) show ?thesis
    by (simp add: cas_sync_def TransitionCommand_def evaluate_transition_def reason_code_ok_def
        is_lower_letter_def is_digit_def reason_char_def)
qed

text \<open>
  Exclusive compare-and-swap: if one worker's \<open>compare_and_swap_state\<close> against revision \<open>rv\<close>
  returns, the returned draft and the stored row are in the target state at revision \<open>rv + 1\<close>, every
  other draft keeps its version, and any other worker's swap against the same revision, for any
  target, raises the revision conflict and changes nothing.
\<close>

theorem repo_cas_exclusive:
  assumes "repo_cas now k rv t err s = (Inr dr, s')" and "validate_safe_code err2 = Inr ()"
  shows "d_draft_id dr = k \<and> d_state dr = t \<and> d_revision dr = rv + 1 \<and>
         version (rp_db s') k = Some (t, rv + 1) \<and>
         (j \<noteq> k \<longrightarrow> version (rp_db s') j = version (rp_db s) j) \<and>
         repo_cas now2 k rv t2 err2 s' = (Inl (DomainError (RevisionConflictError rv (rv + 1))), s')"
proof -
  from assms(1) obtain d where init: "rp_initialized s"
    and cas: "cas_sync now k rv t err (rp_db s) = Inr (dr, d)" and s': "s' = s\<lparr>rp_db := d\<rparr>"
    by (auto simp: repo_cas_Inr)
  have new: "version d k = Some (t, rv + 1)" and other: "j \<noteq> k \<Longrightarrow> version d j = version (rp_db s) j"
    using cas_sync_version[OF cas, of k] cas_sync_version[OF cas, of j] by auto
  have loaded: "load_draft d k = Inr (Some dr)" by (cases rule: cas_sync_commit[OF cas]) simp
  from cas have ok: "k \<noteq> []" "length k \<le> 128" "\<not> list_ex control_or_space k" "1 \<le> rv"
    by (auto simp: cas_sync_def rbind_eq_Inr TransitionCommand_Inr split: option.splits)
  have "cas_sync now2 k rv t2 err2 d = Inl (DomainError (RevisionConflictError rv (rv + 1)))"
    using cas_sync_stale[OF new, of rv] ok by simp
  then have "repo_cas now2 k rv t2 err2 s' = (Inl (DomainError (RevisionConflictError rv (rv + 1))), s')"
    using init s' assms(2) by (simp add: repo_cas_def repo_run_def)
  with load_draft_version[OF loaded] new other s' show ?thesis by simp
qed

definition sample_row :: "draft_state \<Rightarrow> int \<Rightarrow> wf_row" where
  "sample_row st rv = \<lparr>w_draft_id = ''d1'', w_owner_id = 7, w_chat_id = 7, w_thread_id = None,
     w_state = st, w_revision = rv, w_template_json = None, w_created_at = Aware 10,
     w_updated_at = Aware 20, w_expires_at = Some (Aware 500), w_last_error = None\<rparr>"

definition sample_repo :: "draft_state \<Rightarrow> int \<Rightarrow> repo" where
  "sample_repo st rv = \<lparr>rp_db = empty_db\<lparr>db_workflows := [sample_row st rv]\<rparr>, rp_initialized = True\<rparr>"

lemma sample_repo_ok: "1 \<le> rv \<Longrightarrow> db_ok (rp_db (sample_repo st rv))"
  by (simp add: sample_repo_def sample_row_def db_ok_def tables_ok_def children_ok_def empty_db_def
      table_ok_def wf_check_def)

lemmas repo_eval = repo_run_def find_workflow_def sample_repo_def sample_row_def empty_db_def
  TransitionCommand_def control_or_space_def is_space_def reason_code_ok_def reason_char_def
  is_lower_letter_def is_digit_def evaluate_transition_def validate_transition_def
  is_transition_allowed_def TransitionResult_def sql_update_def wf_check_def count_rows_def
  update_rows_def to_db_datetime_def from_db_datetime_def expirable_states_def

lemma sum_result_Inr: "\<not> isl (fst p) \<Longrightarrow> \<exists>x s'. p = (Inr x, s')"
  by (cases p; cases "fst p") auto

theorem repo_cas_exclusive_witness:
  "\<exists>dr s'. repo_cas 30 ''d1'' 4 SUBMITTING None (sample_repo REVIEW 4) = (Inr dr, s') \<and>
     d_state dr = SUBMITTING \<and>
     repo_cas 31 ''d1'' 4 CANCELLED None s' = (Inl (DomainError (RevisionConflictError 4 5)), s')"
proof -
  have "\<not> isl (fst (repo_cas 30 ''d1'' 4 SUBMITTING None (sample_repo REVIEW 4)))"
    by (simp add: repo_cas_def validate_safe_code_def cas_sync_def repo_eval load_draft_def
        template_from_json_def draft_post_init_def)
  then obtain dr s' where run: "repo_cas 30 ''d1'' 4 SUBMITTING None (sample_repo REVIEW 4) = (Inr dr, s')"
    using sum_result_Inr by blast
  have "validate_safe_code None = Inr ()" by (simp add: validate_safe_code_def)
  from repo_cas_exclusive [OF run this, of _ 31 CANCELLED] run show ?thesis by auto
qed

text \<open>
  \<open>expire_eligible\<close> expires what is due and nothing else: if it returns, it changed at most
  \<open>limit\<close> drafts, exactly the selected ones, each of them was in an expirable state with its deadline
  reached and is now EXPIRED at the next revision without a deadline, and every other row is
  untouched; if no more than \<open>limit\<close> drafts are due, then all due ones were expired.
\<close>

theorem expire_eligible_exact:
  assumes "db_ok (rp_db s)" and "repo_expire_eligible now before n s = (Inr m, s')"
  shows "int m \<le> n \<and>
    (\<exists>ids. length ids = m \<and>
       set ids \<subseteq> w_draft_id ` {r \<in> set (db_workflows (rp_db s)). expired_row before r} \<and>
       db_workflows (rp_db s') =
         update_rows (\<lambda>r. w_draft_id r \<in> set ids) (expire_row (Aware now)) (db_workflows (rp_db s)) \<and>
       (int (count_rows (expired_row before) (db_workflows (rp_db s))) \<le> n \<longrightarrow>
          set ids = w_draft_id ` {r \<in> set (db_workflows (rp_db s)). expired_row before r}))"
proof -
  from assms(2) obtain d where lim: "1 \<le> n" and run: "expire_eligible_sync now before n (rp_db s) = Inr (m, d)"
    and s': "s' = s\<lparr>rp_db := d\<rparr>"
    by (auto simp: repo_expire_eligible_def bind_lift_Inr repo_run_Inr)
  show ?thesis
  proof (cases rule: expire_eligible_commit[OF assms(1) run])
    case (1 sel)
    let ?ids = "map w_draft_id sel"
    have "length sel \<le> nat n" unfolding 1(1) by (rule length_sql_select)
    then have bound: "int m \<le> n" using 1(3) lim by linarith
    have sub: "set sel \<subseteq> {r \<in> set (db_workflows (rp_db s)). expired_row before r}"
      unfolding 1(1) by (rule sql_select_subset)
    have all: "set sel = {r \<in> set (db_workflows (rp_db s)). expired_row before r}"
      if "int (count_rows (expired_row before) (db_workflows (rp_db s))) \<le> n"
      using that lim unfolding 1(1) sql_select_def count_rows_def by simp
    have "length ?ids = m" "set ?ids \<subseteq> w_draft_id ` {r \<in> set (db_workflows (rp_db s)). expired_row before r}"
      "db_workflows (rp_db s') =
         update_rows (\<lambda>r. w_draft_id r \<in> set ?ids) (expire_row (Aware now)) (db_workflows (rp_db s))"
      using 1(2,3) sub s' by auto
    with bound all show ?thesis by (intro conjI exI[of _ ?ids]) auto
  qed
qed

theorem expire_eligible_exact_witness:
  "\<exists>m s'. repo_expire_eligible 600 (Aware 550) 100 (sample_repo REVIEW 4) = (Inr m, s') \<and> int m \<le> 100"
proof -
  have "\<not> isl (fst (repo_expire_eligible 600 (Aware 550) 100 (sample_repo REVIEW 4)))"
    by (simp add: repo_expire_eligible_def validate_limit_def validate_datetime_def
        expire_eligible_sync_def sql_select_def expired_row_def repo_eval)
  then obtain m s' where run: "repo_expire_eligible 600 (Aware 550) 100 (sample_repo REVIEW 4) = (Inr m, s')"
    using sum_result_Inr by blast
  have "db_ok (rp_db (sample_repo REVIEW 4))" by (rule sample_repo_ok) simp
  from expire_eligible_exact [OF this run] run show ?thesis by blast
qed

end
