(* ===== verification/Policy.thy ===== *)
theory Policy
  imports Callbacks
begin

text \<open>
  The pure policies of \<open>src/src/dztgbot/domain/policy.py\<close>: the private-chat, allow-list and
  administrator gates, the deadline of the auth conversation, the classification and normalisation
  of a submitted credential, and the authorization of a button press against its stored record.
  The fixed Chinese texts of \<open>user_message_for_denial\<close> are not modelled: the code is.
\<close>

section \<open>Decisions\<close>

datatype denial_code =
    DC_NOT_PRIVATE_CHAT | DC_NOT_ALLOWED_USER | DC_NOT_ADMIN | DC_MALFORMED_CALLBACK | DC_UNKNOWN_TOKEN
  | DC_FOREIGN_ACTOR | DC_WRONG_CHAT | DC_WRONG_THREAD | DC_WRONG_MESSAGE | DC_ACTION_MISMATCH
  | DC_TOKEN_EXPIRED | DC_TOKEN_CONSUMED | DC_STALE_REVISION | DC_ILLEGAL_STATE | DC_ALREADY_PROCESSING
  | DC_CREDENTIAL_EMPTY | DC_CREDENTIAL_FORMAT_REJECTED | DC_AUTH_EXPIRED | DC_CREDENTIAL_DELETE_FAILED
  | DC_DENIED

datatype credential_kind =
    CK_PAT | CK_REJECTED_PASSWORD | CK_REJECTED_BASIC | CK_REJECTED_COOKIE | CK_REJECTED_EMPTY
  | CK_REJECTED_OTHER

datatype policy_decision = Allow | Deny denial_code

definition decision_allowed :: "policy_decision \<Rightarrow> bool" where
  "decision_allowed d \<longleftrightarrow> d = Allow"

section \<open>Audience gates\<close>

definition is_private_chat :: "string option \<Rightarrow> bool" where
  "is_private_chat chat_type =
     (case chat_type of None \<Rightarrow> False | Some t \<Rightarrow> py_casefold t \<in> {''private''})"

definition require_private_chat :: "string option \<Rightarrow> policy_decision" where
  "require_private_chat chat_type =
     (if is_private_chat chat_type then Allow else Deny DC_NOT_PRIVATE_CHAT)"

definition require_allowed_user :: "int \<Rightarrow> int list option \<Rightarrow> policy_decision" where
  "require_allowed_user actor allowed =
     (case allowed of
        None \<Rightarrow> Allow
      | Some ids \<Rightarrow> if ids = [] then Allow else if actor \<in> set ids then Allow else Deny DC_NOT_ALLOWED_USER)"

definition require_admin :: "int \<Rightarrow> int list \<Rightarrow> policy_decision" where
  "require_admin actor admins = (if actor \<in> set admins then Allow else Deny DC_NOT_ADMIN)"

definition require_private_admin :: "string option \<Rightarrow> int \<Rightarrow> int list \<Rightarrow> policy_decision" where
  "require_private_admin chat_type actor admins =
     (let private = require_private_chat chat_type
      in if \<not> decision_allowed private then private else require_admin actor admins)"

definition may_disclose_jira_identity :: "string option \<Rightarrow> bool" where
  "may_disclose_jira_identity chat_type = is_private_chat chat_type"

definition may_disclose_runtime_rules :: "string option \<Rightarrow> bool" where
  "may_disclose_runtime_rules chat_type = is_private_chat chat_type"

section \<open>The auth conversation\<close>

text \<open>\<open>timedelta(minutes=3)\<close> in microseconds.\<close>

definition AUTH_CONVERSATION_TTL :: int where
  "AUTH_CONVERSATION_TTL = 3 * 60 * 1000000"

definition auth_deadline :: "datetime \<Rightarrow> exn + datetime" where
  "auth_deadline started =
     (if \<not> tz_aware started then Inl (ValueError ''started_at must be timezone-aware (UTC)'')
      else Inr (Aware (dt_instant started + AUTH_CONVERSATION_TTL)))"

definition is_auth_expired :: "datetime \<Rightarrow> datetime \<Rightarrow> exn + bool" where
  "is_auth_expired started now =
     (if \<not> tz_aware now then Inl (ValueError ''now must be timezone-aware (UTC)'')
      else rbind (auth_deadline started) (\<lambda>d. Inr (dt_instant d \<le> dt_instant now)))"

section \<open>Credentials\<close>

function classify_credential_text :: "string \<Rightarrow> credential_kind" where
  "classify_credential_text raw =
     (let text = py_strip raw; lower = py_casefold text in
      if text = [] then CK_REJECTED_EMPTY
      else if starts_with ''basic '' lower then CK_REJECTED_BASIC
      else if contains ''jsessionid='' lower \<or> starts_with ''jsessionid'' lower then CK_REJECTED_COOKIE
      else if contains ''set-cookie:'' lower then CK_REJECTED_COOKIE
      else if starts_with ''bearer '' lower then
        (let token_body = py_strip (drop 7 text) in
         if token_body = [] then CK_REJECTED_EMPTY else classify_credential_text token_body)
      else if CHR '':'' \<in> set text then CK_REJECTED_PASSWORD
      else CK_PAT)"
  by pat_completeness auto

lemma bearer_body_shorter:
  assumes "py_strip raw \<noteq> []"
  shows "length (py_strip (drop 7 (py_strip raw))) < length raw"
proof -
  have "length (py_strip (drop 7 (py_strip raw))) \<le> length (drop 7 (py_strip raw))"
    by (rule length_py_strip)
  also have "\<dots> < length (py_strip raw)" using assms by (cases "py_strip raw") simp_all
  also have "\<dots> \<le> length raw" by (rule length_py_strip)
  finally show ?thesis .
qed

termination classify_credential_text
  by (relation "measure length") (use bearer_body_shorter in auto)

declare classify_credential_text.simps [simp del]

definition classify_credential_input :: "string option \<Rightarrow> credential_kind" where
  "classify_credential_input raw =
     (case raw of None \<Rightarrow> CK_REJECTED_EMPTY | Some r \<Rightarrow> classify_credential_text r)"

text \<open>\<open>str.encode("utf-8")\<close> of the modelled characters, and \<open>base64.b64encode\<close> of the bytes.\<close>

definition utf8_bytes :: "string \<Rightarrow> nat list" where
  "utf8_bytes s = concat (map (\<lambda>c. let n = (of_char c :: nat) in
     if n < 128 then [n] else [192 + n div 64, 128 + n mod 64]) s)"

definition b64_char :: "nat \<Rightarrow> char" where
  "b64_char n = (if n < 26 then char_of (n + 65) else if n < 52 then char_of (n + 71)
     else if n < 62 then char_of (n - 4) else if n = 62 then CHR ''+'' else CHR ''/'')"

fun b64encode :: "nat list \<Rightarrow> string" where
  "b64encode [] = []"
| "b64encode [a] = [b64_char (a div 4), b64_char (a mod 4 * 16), CHR ''='', CHR ''='']"
| "b64encode [a, b] = [b64_char (a div 4), b64_char (a mod 4 * 16 + b div 16), b64_char (b mod 16 * 4), CHR ''='']"
| "b64encode (a # b # c # rest) =
     b64_char (a div 4) # b64_char (a mod 4 * 16 + b div 16) # b64_char (b mod 16 * 4 + c div 64) #
     b64_char (c mod 64) # b64encode rest"

definition normalize_pat_input :: "string \<Rightarrow> bool \<Rightarrow> string option" where
  "normalize_pat_input raw pat_only =
     (if raw = [] \<or> py_strip raw = [] then None
      else
        (let text = py_strip raw; lower = py_casefold text in
         if starts_with ''bearer '' lower then
           (let body = py_strip (drop 7 text) in if body = [] then None else Some body)
         else if \<not> pat_only \<and> starts_with ''basic '' lower then Some text
         else if \<not> pat_only \<and> CHR '':'' \<in> set text \<and> \<not> starts_with ''http'' lower then
           Some (''Basic '' @ b64encode (utf8_bytes text))
         else if classify_credential_input (Some raw) \<noteq> CK_PAT then None
         else Some text))"

definition credential_policy_decision :: "string option \<Rightarrow> bool \<Rightarrow> policy_decision" where
  "credential_policy_decision raw_opt pat_only =
     (case raw_opt of
        None \<Rightarrow> Deny DC_CREDENTIAL_EMPTY
      | Some raw \<Rightarrow>
          if raw = [] \<or> py_strip raw = [] then Deny DC_CREDENTIAL_EMPTY
          else (case normalize_pat_input raw pat_only of
              Some norm \<Rightarrow> Allow
            | None \<Rightarrow> Deny DC_CREDENTIAL_FORMAT_REJECTED))"

section \<open>Authorization of a button press\<close>

definition authorize_callback ::
  "(string \<Rightarrow> string) \<Rightarrow> callback_auth_input \<Rightarrow> callback_token_record option \<Rightarrow> int option \<Rightarrow>
   string option \<Rightarrow> policy_decision" where
  "authorize_callback sha req rec_opt current_revision current_state =
     (let private = require_private_chat (Some (ai_chat_type req)) in
      if \<not> decision_allowed private then private
      else (case rec_opt of
          None \<Rightarrow> Deny DC_UNKNOWN_TOKEN
        | Some r \<Rightarrow>
            (case hash_opaque_token sha (ai_opaque_token req) of
               Inl _ \<Rightarrow> Deny DC_MALFORMED_CALLBACK
             | Inr presented_hash \<Rightarrow>
                 if presented_hash \<noteq> ct_token_hash r then Deny DC_UNKNOWN_TOKEN
                 else if ai_action req \<noteq> ct_action r then Deny DC_ACTION_MISMATCH
                 else if ai_actor_user_id req \<noteq> ct_owner_user_id r then Deny DC_FOREIGN_ACTOR
                 else if ai_chat_id req \<noteq> ct_chat_id r then Deny DC_WRONG_CHAT
                 else if ct_message_thread_id r \<noteq> None \<and>
                         ai_message_thread_id req \<noteq> ct_message_thread_id r then Deny DC_WRONG_THREAD
                 else if ct_preview_message_id r \<noteq> None \<and>
                         ai_preview_message_id req \<noteq> ct_preview_message_id r then Deny DC_WRONG_MESSAGE
                 else if dt_instant (ct_expires_at r) \<le> dt_instant (ai_now req) then Deny DC_TOKEN_EXPIRED
                 else if ct_consumed_at r \<noteq> None then Deny DC_TOKEN_CONSUMED
                 else if current_revision \<noteq> None \<and> current_revision \<noteq> Some (ct_expected_revision r)
                   then Deny DC_STALE_REVISION
                 else (case current_state of
                     None \<Rightarrow> Allow
                   | Some st \<Rightarrow>
                       if st \<noteq> ct_expected_state r then
                         (if py_casefold st = ''submitting'' \<and> ai_action req = A_CONFIRM
                          then Deny DC_ALREADY_PROCESSING else Deny DC_ILLEGAL_STATE)
                       else Allow))))"

section \<open>What an allowed press proves\<close>

lemma Deny_not_allowed [simp]: "\<not> decision_allowed (Deny c)" "decision_allowed Allow"
  by (simp_all add: decision_allowed_def)

lemma require_private_chat_Allow [simp]: "require_private_chat t = Allow \<longleftrightarrow> is_private_chat t"
  by (simp add: require_private_chat_def)

text \<open>A binding of the record: absent means any value is accepted.\<close>

definition binds :: "'a option \<Rightarrow> 'a option \<Rightarrow> bool" where
  "binds required presented \<longleftrightarrow> (required = None \<or> presented = required)"

lemma authorize_callback_allow_cases:
  "authorize_callback sha req rec_opt rv st = Allow \<longleftrightarrow>
     is_private_chat (Some (ai_chat_type req)) \<and> opaque_token_ok (ai_opaque_token req) \<and>
     (\<exists>r. rec_opt = Some r \<and> sha (ai_opaque_token req) = ct_token_hash r \<and> ai_action req = ct_action r \<and>
        ai_actor_user_id req = ct_owner_user_id r \<and> ai_chat_id req = ct_chat_id r \<and>
        binds (ct_message_thread_id r) (ai_message_thread_id req) \<and>
        binds (ct_preview_message_id r) (ai_preview_message_id req) \<and>
        dt_instant (ai_now req) < dt_instant (ct_expires_at r) \<and> ct_consumed_at r = None \<and>
        rv \<in> {None, Some (ct_expected_revision r)} \<and> st \<in> {None, Some (ct_expected_state r)})"
proof (cases rec_opt)
  case None
  then show ?thesis by (simp add: authorize_callback_def require_private_chat_def)
next
  case (Some r)
  show ?thesis
    by (cases "rv"; cases "st")
      (auto simp: authorize_callback_def Some hash_opaque_token_def binds_def require_private_chat_def not_le
        split: if_splits)
qed

text \<open>
  Possession of a token is never enough: a press is allowed exactly when it comes from a private
  chat, the record of its token exists and carries the hash of the presented token, its action, actor
  and chat are the record's, thread and preview message are the record's where the record binds
  them, it is unexpired and unconsumed, and the draft still has the revision and state the button
  was rendered for, as far as the caller supplies them.  One failing condition denies.
\<close>

theorem authorize_callback_allow_iff:
  "authorize_callback sha req rec_opt rv st = Allow \<longleftrightarrow>
     is_private_chat (Some (ai_chat_type req)) \<and> opaque_token_ok (ai_opaque_token req) \<and>
     (\<exists>r. rec_opt = Some r \<and> sha (ai_opaque_token req) = ct_token_hash r \<and> ai_action req = ct_action r \<and>
        ai_actor_user_id req = ct_owner_user_id r \<and> ai_chat_id req = ct_chat_id r \<and>
        binds (ct_message_thread_id r) (ai_message_thread_id req) \<and>
        binds (ct_preview_message_id r) (ai_preview_message_id req) \<and>
        dt_instant (ai_now req) < dt_instant (ct_expires_at r) \<and> ct_consumed_at r = None \<and>
        rv \<in> {None, Some (ct_expected_revision r)} \<and> st \<in> {None, Some (ct_expected_state r)})"
  by (rule authorize_callback_allow_cases)

lemma classify_text_PAT_not_bearer:
  assumes "py_strip raw \<noteq> []" and "\<not> starts_with ''bearer '' (py_casefold (py_strip raw))"
    and "classify_credential_text raw = CK_PAT"
  shows "CHR '':'' \<notin> set (py_strip raw)"
  using assms by (subst (asm) classify_credential_text.simps) (auto simp: Let_def split: if_splits)

definition has_bearer_prefix :: "string \<Rightarrow> bool" where
  "has_bearer_prefix raw \<longleftrightarrow> starts_with ''bearer '' (py_casefold (py_strip raw))"

lemma PAT_nonempty: "classify_credential_text raw = CK_PAT \<Longrightarrow> py_strip raw \<noteq> []"
  by (subst (asm) classify_credential_text.simps) (auto simp: Let_def)

lemma policy_PAT_only_cases:
  "decision_allowed (credential_policy_decision (Some raw) True) \<longleftrightarrow>
     py_strip raw \<noteq> [] \<and>
     (if has_bearer_prefix raw then py_strip (drop 7 (py_strip raw)) \<noteq> []
      else classify_credential_text raw = CK_PAT)"
  by (auto simp: credential_policy_decision_def normalize_pat_input_def has_bearer_prefix_def
      classify_credential_input_def Let_def split: option.splits)

lemma bearer_sample:
  "py_strip ''Bearer bob:hunter2'' = ''Bearer bob:hunter2''"
  "py_casefold ''Bearer bob:hunter2'' = ''bearer bob:hunter2''"
  "py_strip ''bob:hunter2'' = ''bob:hunter2''"
  "py_casefold ''bob:hunter2'' = ''bob:hunter2''"
  by code_simp+

lemma classify_bearer_password:
  "classify_credential_text ''Bearer bob:hunter2'' = CK_REJECTED_PASSWORD"
  by (subst classify_credential_text.simps, subst classify_credential_text.simps)
    (simp add: bearer_sample starts_with_def Let_def)

text \<open>
  What the default, PAT-only policy accepts: without a Bearer prefix, exactly the inputs the
  classifier calls a PAT, and none of them contains a colon (so no \<open>user:password\<close> pair passes).
  With a Bearer prefix the policy accepts every non-empty body, whatever the classifier says of it:
  \<open>Bearer bob:hunter2\<close> is classified as a rejected password and is accepted all the same.
\<close>

theorem pat_only_policy_accepts:
  "(\<not> has_bearer_prefix raw \<longrightarrow>
      decision_allowed (credential_policy_decision (Some raw) True) =
        (classify_credential_input (Some raw) = CK_PAT)) \<and>
   (\<not> has_bearer_prefix raw \<and> decision_allowed (credential_policy_decision (Some raw) True) \<longrightarrow>
      CHR '':'' \<notin> set (py_strip raw)) \<and>
   classify_credential_input (Some ''Bearer bob:hunter2'') = CK_REJECTED_PASSWORD \<and>
   credential_policy_decision (Some ''Bearer bob:hunter2'') True = Allow"
proof (intro conjI impI)
  show "decision_allowed (credential_policy_decision (Some raw) True) =
        (classify_credential_input (Some raw) = CK_PAT)" if "\<not> has_bearer_prefix raw"
    using that PAT_nonempty by (auto simp: policy_PAT_only_cases classify_credential_input_def)
  show "CHR '':'' \<notin> set (py_strip raw)"
    if "\<not> has_bearer_prefix raw \<and> decision_allowed (credential_policy_decision (Some raw) True)"
    using that classify_text_PAT_not_bearer by (auto simp: policy_PAT_only_cases has_bearer_prefix_def)
  show "classify_credential_input (Some ''Bearer bob:hunter2'') = CK_REJECTED_PASSWORD"
    by (simp add: classify_credential_input_def classify_bearer_password)
  show "credential_policy_decision (Some ''Bearer bob:hunter2'') True = Allow"
    by (simp add: credential_policy_decision_def normalize_pat_input_def bearer_sample starts_with_def
        Let_def)
qed

theorem pat_only_policy_accepts_witness:
  "\<not> has_bearer_prefix ''alice:secret'' \<and>
   \<not> decision_allowed (credential_policy_decision (Some ''alice:secret'') True)"
proof -
  have nb: "\<not> has_bearer_prefix ''alice:secret''"
    and st: "py_strip ''alice:secret'' = ''alice:secret''"
    by (simp_all add: has_bearer_prefix_def py_strip_def is_space_def py_casefold_def fold_char_def
        starts_with_def)
  with pat_only_policy_accepts [of "''alice:secret''"] show ?thesis by auto
qed

end
