(* ===== verification/Workflow_Contracts.thy ===== *)
theory Workflow_Contracts
  imports Workflow_Refinement Policy
begin

text \<open>
  Contracts of single repository operations that the services rely on: a stored draft is read back
  as it was saved, a one-shot token is consumed at most once, invalidation stops every earlier
  button of a draft, an attempt claim excludes every other claim of the draft, and which button
  actions the token table can hold at all.
\<close>

section \<open>save and get_by_id\<close>

lemma rmap_Inr_map:
  "rmap f xs = Inr ys \<Longrightarrow> (\<And>x y. x \<in> set xs \<Longrightarrow> f x = Inr y \<Longrightarrow> y = g x) \<Longrightarrow> ys = map g xs"
  by (induction xs arbitrary: ys) (fastforce simp: rbind_eq_Inr)+

lemma rmap_Inr_each: "rmap f xs = Inr ys \<Longrightarrow> x \<in> set xs \<Longrightarrow> \<exists>y. f x = Inr y"
  by (induction xs arbitrary: ys) (auto simp: rbind_eq_Inr)

lemma rmap_map: "rmap f (map g xs) = rmap (f \<circ> g) xs"
  by (induction xs) simp_all

lemma rmap_id_on: "(\<And>x. x \<in> set xs \<Longrightarrow> f x = Inr (h x)) \<Longrightarrow> rmap f xs = Inr (map h xs)"
  by (rule rmap_same)

lemma enumerate_mem: "(i, x) \<in> set (enumerate n xs) \<Longrightarrow> x \<in> set xs"
  by (induction xs arbitrary: n) auto

lemma mem_enumerate: "x \<in> set xs \<Longrightarrow> \<exists>i. (i, x) \<in> set (enumerate n xs)"
  by (induction xs arbitrary: n) auto

lemma sql_insert_many_checks: "sql_insert_many check clash rs rows = Inr rows' \<Longrightarrow> \<forall>r \<in> set rs. check r"
  by (induction rs arbitrary: rows) (auto simp: rbind_eq_Inr sql_insert_Inr)

lemma enumerate_sorted: "sorted (map fst (enumerate n xs))"
  by (simp add: enumerate_eq_zip)

lemma sort_enumerated:
  assumes "\<And>p. key (g p) = fst p"
  shows "sort_key key (map g (enumerate n xs)) = map g (enumerate n xs)"
proof -
  have "map key (map g (enumerate n xs)) = map fst (enumerate n xs)"
    by (simp only: map_map comp_def assms)
  then have "sorted (map key (map g (enumerate n xs)))" by (simp only: enumerate_sorted)
  then show ?thesis by (rule sort_key_id_if_sorted)
qed

definition source_row :: "string \<Rightarrow> nat \<times> source_message \<Rightarrow> src_row" where
  "source_row k = (\<lambda>(i, m). \<lparr>s_draft_id = k, s_position = i, s_message = m\<rparr>)"

lemma save_sources_rows:
  assumes "save_sources dr d = Inr d'"
  shows "d' = d\<lparr>db_sources := filter (\<lambda>r. s_draft_id r \<noteq> d_draft_id dr) (db_sources d) @
           map (source_row (d_draft_id dr)) (enumerate 0 (d_source_messages dr))\<rparr> \<and>
         (\<forall>m \<in> set (d_source_messages dr). valid_source m)"
proof -
  let ?f = "\<lambda>(i, m). rbind (to_db_datetime (sm_received_at m)) (\<lambda>at.
       Inr \<lparr>s_draft_id = d_draft_id dr, s_position = i, s_message = m\<lparr>sm_received_at := at\<rparr>\<rparr>)"
  let ?kept = "filter (\<lambda>r. s_draft_id r \<noteq> d_draft_id dr) (db_sources d)"
  from assms obtain new rows where new: "rmap ?f (enumerate 0 (d_source_messages dr)) = Inr new"
    and ins: "sql_insert_many src_check src_clash new ?kept = Inr rows" and d': "d' = d\<lparr>db_sources := rows\<rparr>"
    by (auto simp: save_sources_def Let_def rbind_eq_Inr)
  have map: "new = map (source_row (d_draft_id dr)) (enumerate 0 (d_source_messages dr))"
    by (rule rmap_Inr_map[OF new]) (auto simp: source_row_def rbind_eq_Inr)
  have checks: "\<forall>r \<in> set new. src_check r"
    by (rule sql_insert_many_checks[OF ins])
  have "valid_source m" if m: "m \<in> set (d_source_messages dr)" for m
  proof -
    from mem_enumerate[OF m, of 0] obtain i where i: "(i, m) \<in> set (enumerate 0 (d_source_messages dr))"
      by blast
    then have "src_check (source_row (d_draft_id dr) (i, m))" using checks map by auto
    moreover have "tz_aware (sm_received_at m)"
      using rmap_Inr_each[OF new i] by (auto simp: rbind_eq_Inr)
    ultimately show ?thesis by (auto simp: src_check_def source_row_def valid_source_def)
  qed
  with d' map sql_insert_many_Inr[OF ins] show ?thesis by auto
qed

lemma filter_own_rows:
  assumes "\<And>r. r \<in> set new \<Longrightarrow> key r = k"
  shows "filter (\<lambda>r. key r = k) (filter (\<lambda>r. key r \<noteq> k) old @ new) = new"
  using assms by simp

lemma rmap_enumerate:
  assumes "\<And>i x. x \<in> set xs \<Longrightarrow> f (g (i, x)) = Inr x"
  shows "rmap f (map g (enumerate n xs)) = Inr xs"
  using assms by (induction xs arbitrary: n) auto

lemma saved_sources:
  assumes "save_sources dr d = Inr d2" and "db_sources d' = db_sources d2"
  shows "rmap source_of_row (sort_key s_position (filter (\<lambda>s. s_draft_id s = d_draft_id dr) (db_sources d'))) =
         Inr (d_source_messages dr)"
proof -
  let ?k = "d_draft_id dr"
  let ?new = "map (source_row ?k) (enumerate 0 (d_source_messages dr))"
  note src = save_sources_rows[OF assms(1)]
  have "db_sources d' = filter (\<lambda>r. s_draft_id r \<noteq> ?k) (db_sources d) @ ?new" using src assms(2) by simp
  then have "filter (\<lambda>s. s_draft_id s = ?k) (db_sources d') = ?new"
    by (simp only:) (rule filter_own_rows, auto simp: source_row_def)
  moreover have "sort_key s_position ?new = ?new"
    by (rule sort_enumerated) (simp add: source_row_def split_beta)
  moreover have "rmap source_of_row ?new = Inr (d_source_messages dr)"
    by (rule rmap_enumerate) (use src in \<open>auto simp: source_row_def source_of_row_def rbind_eq_Inr valid_source_def\<close>)
  ultimately show ?thesis by simp
qed

text \<open>
  What a draft is read back as after it was saved over the stored draft \<open>old\<close>: the draft itself,
  except that an attachment saved without an upload id keeps the one already stored under its
  \<open>file_unique_id\<close>, and a published issue once stored is kept.
\<close>

definition kept_attachment :: "attachment list \<Rightarrow> attachment \<Rightarrow> attachment" where
  "kept_attachment old a =
     (if at_uploaded_id a \<noteq> None \<and> at_uploaded_id a \<noteq> Some [] then a
      else a\<lparr>at_uploaded_id :=
        Option.bind (find_row at_file_unique_id (at_file_unique_id a) old) at_uploaded_id\<rparr>)"

definition stored_draft :: "draft option \<Rightarrow> draft \<Rightarrow> draft" where
  "stored_draft old dr =
     dr\<lparr>d_attachments := map (kept_attachment (case old of None \<Rightarrow> [] | Some p \<Rightarrow> d_attachments p)) (d_attachments dr),
        d_published_issue := (case d_published_issue dr of
            None \<Rightarrow> Option.bind old d_published_issue
          | Some i \<Rightarrow> Some i)\<rparr>"

lemma stored_draft_new: "d_attachments dr = [] \<Longrightarrow> stored_draft None dr = dr"
  by (cases dr) (simp add: stored_draft_def split: option.split)

lemma find_row_sorted:
  assumes "distinct (map key xs)"
  shows "find_row key u (sort_key f xs) = find_row key u xs"
proof -
  have d: "distinct (map key (sort_key f xs))"
    using assms unfolding distinct_map by (auto intro: inj_on_subset)
  show ?thesis
  proof (cases "find_row key u xs")
    case None
    then have "find_row key u (sort_key f xs) = None" by (simp add: find_row_None)
    with None show ?thesis by simp
  next
    case (Some r)
    then have "r \<in> set (sort_key f xs)" and "key r = u" by (auto dest: find_row_Some)
    with find_row_unique[OF d, of r] Some show ?thesis by simp
  qed
qed

lemma find_row_map: "find_row key u (map g xs) = map_option g (find_row (\<lambda>x. key (g x)) u xs)"
  by (induction xs) auto

lemma att_files_distinct:
  assumes "table_ok att_check att_clash rows"
  shows "distinct (map (\<lambda>q. at_file_unique_id (q_attachment q)) (filter (\<lambda>q. q_draft_id q = k) rows))"
  using assms unfolding table_ok_def
  by (induction rows) (auto simp: att_clash_def)

lemma save_attachments_rows:
  assumes "save_attachments dr d = Inr d'" and "table_ok att_check att_clash (db_attachments d)"
    and old: "rmap (\<lambda>q. attachment_post_init (q_attachment q))
      (sort_key q_position (filter (\<lambda>q. q_draft_id q = d_draft_id dr) (db_attachments d))) = Inr old"
  shows "\<exists>new. d' = d\<lparr>db_attachments := filter (\<lambda>r. q_draft_id r \<noteq> d_draft_id dr) (db_attachments d) @ new\<rparr> \<and>
           (\<forall>r \<in> set new. q_draft_id r = d_draft_id dr) \<and> map q_position new = [0..<length new] \<and>
           map q_attachment new = map (kept_attachment old) (d_attachments dr) \<and>
           (\<forall>r \<in> set new. valid_attachment (q_attachment r))"
proof -
  let ?k = "d_draft_id dr"
  let ?rows = "filter (\<lambda>r. q_draft_id r = ?k) (db_attachments d)"
  let ?kept = "filter (\<lambda>r. q_draft_id r \<noteq> ?k) (db_attachments d)"
  from assms(1) obtain new where new: "rmap (attachment_row dr ?rows) (enumerate 0 (d_attachments dr)) = Inr new"
    and ins: "sql_insert_many att_check att_clash new ?kept = Inr (?kept @ new)"
    and d': "d' = d\<lparr>db_attachments := ?kept @ new\<rparr>"
    by (auto simp: save_attachments_def Let_def rbind_eq_Inr dest: sql_insert_many_Inr)
  have "old = map q_attachment (sort_key q_position ?rows)"
    by (rule rmap_Inr_map[OF old]) auto
  then have find: "find_row at_file_unique_id u old =
      map_option q_attachment (find_row (\<lambda>q. at_file_unique_id (q_attachment q)) u ?rows)" for u
    by (simp only: find_row_map find_row_sorted[OF att_files_distinct[OF assms(2)]])
  have row: "q_draft_id r = ?k \<and> q_position r = i \<and> q_attachment r = kept_attachment old a"
    if "attachment_row dr ?rows (i, a) = Inr r" for i a r
    using that by (auto simp: attachment_row_def kept_attachment_def find Let_def rbind_eq_Inr split: if_splits option.splits)
  have rows: "(\<forall>r \<in> set rs. q_draft_id r = ?k) \<and> map q_position rs = [n..<n + length rs] \<and>
        map q_attachment rs = map (kept_attachment old) as"
    if "rmap (attachment_row dr ?rows) (enumerate n as) = Inr rs" for n as rs
    using that
  proof (induction "as" arbitrary: n rs)
    case (Cons a "as")
    from Cons.prems obtain r rs' where r: "attachment_row dr ?rows (n, a) = Inr r" and rs: "rs = r # rs'"
      and rest: "rmap (attachment_row dr ?rows) (enumerate (Suc n) as) = Inr rs'"
      by (auto simp: rbind_eq_Inr)
    from Cons.IH[OF rest] row[OF r] show ?case by (simp add: rs upt_rec)
  qed simp
  have "valid_attachment (q_attachment r)" if "r \<in> set new" for r
    using sql_insert_many_checks[OF ins] that by (auto simp: att_check_def valid_attachment_def)
  with d' rows[OF new] show ?thesis by auto
qed

lemma save_row_found:
  assumes "save_workflow_row (find_workflow d (d_draft_id dr)) dr expiry d = Inr d1"
    and "save_guard (find_workflow d (d_draft_id dr)) dr = Inr ()"
  obtains row where "workflow_row_of dr expiry = Inr row" and "wf_check row"
    and "find_workflow d1 (d_draft_id dr) = Some row" and "d1 = d\<lparr>db_workflows := db_workflows d1\<rparr>"
proof -
  let ?k = "d_draft_id dr"
  let ?P = "\<lambda>x. w_draft_id x = ?k \<and> w_revision x = d_revision dr - 1"
  from assms(1) obtain row where row: "workflow_row_of dr expiry = Inr row"
    by (auto simp: save_workflow_row_def rbind_eq_Inr)
  then have id: "w_draft_id row = ?k" by (auto simp: workflow_row_of_def rbind_eq_Inr)
  show ?thesis
  proof (cases "find_workflow d ?k")
    case None
    with assms(1) row have "wf_check row" and "d1 = d\<lparr>db_workflows := db_workflows d @ [row]\<rparr>"
      by (auto simp: save_workflow_row_def rbind_eq_Inr sql_insert_Inr)
    with None id row that show ?thesis by (simp add: find_workflow_def find_row_append)
  next
    case (Some old)
    with assms(1) row have upd: "sql_update wf_check ?P (\<lambda>_. row) (db_workflows d) = Inr (1, db_workflows d1)"
      and d1: "d1 = d\<lparr>db_workflows := db_workflows d1\<rparr>"
      by (auto simp: save_workflow_row_def rbind_eq_Inr split: if_splits)
    have rev: "w_revision old = d_revision dr - 1"
      using assms(2) Some by (auto simp: save_guard_def split: if_splits)
    from find_workflow_Some[OF Some] upd rev have "wf_check row" by (auto simp: sql_update_Inr)
    moreover have "find_workflow d1 ?k = Some row"
      using find_row_update_key[of ?P w_draft_id "\<lambda>_. row" ?k "db_workflows d"] id upd Some rev find_workflow_Some[OF Some]
      by (simp add: find_workflow_def sql_update_Inr)
    ultimately show ?thesis using that row d1 by blast
  qed
qed

lemma find_row_upsert:
  assumes "sql_upsert check clash key r rows = Inr rows'"
  shows "find_row key (key r) rows' = Some r"
proof -
  have "find_row key (key r) (update_rows (\<lambda>x. key x = key r) (\<lambda>_. r) rows) = Some r" if "list_ex (\<lambda>x. key x = key r) rows"
    using that by (induction rows) (auto simp: update_rows_def)
  moreover have "find_row key (key r) rows = None" if "\<not> list_ex (\<lambda>x. key x = key r) rows"
    using that by (auto simp: find_row_None list_ex_iff image_iff) 
  ultimately show ?thesis
    using assms by (auto simp: sql_upsert_def find_row_append split: if_splits)
qed

lemma load_saved_draft:
  assumes ok: "db_ok d" and old: "load_draft d (d_draft_id dr) = Inr old" and id: "d_draft_id dr \<noteq> []"
    and save: "save_sync dr e d = Inr (u, d')"
  shows "load_draft d' (d_draft_id dr) = Inr (Some (stored_draft old dr)) \<and>
         map_option w_expires_at (find_workflow d' (d_draft_id dr)) =
           Some (if e = None then Option.bind (find_workflow d (d_draft_id dr)) w_expires_at else e)"
proof -
  let ?k = "d_draft_id dr" and ?ex = "find_workflow d (d_draft_id dr)"
  let ?expiry = "if e = None then Option.bind ?ex w_expires_at else e"
  let ?atts = "case old of None \<Rightarrow> [] | Some p \<Rightarrow> d_attachments p"
  from save obtain d1 d2 d3 where guard: "save_guard ?ex dr = Inr ()"
    and 1: "save_workflow_row ?ex dr ?expiry d = Inr d1"
    and 2: "save_sources dr d1 = Inr d2" and 3: "save_attachments dr d2 = Inr d3"
    and 4: "save_published ?ex dr d3 = Inr d'"
    by (cases e; cases ?ex) (auto simp: save_sync_def Let_def rbind_eq_Inr)
  obtain row where row: "workflow_row_of dr ?expiry = Inr row" and chk: "wf_check row"
    and found: "find_workflow d1 ?k = Some row" and d1: "d1 = d\<lparr>db_workflows := db_workflows d1\<rparr>"
    by (rule save_row_found[OF 1 guard])
  note src = save_sources_rows[OF 2]
  have one: "db_attachments d1 = db_attachments d" "db_published d1 = db_published d"
    by (subst d1, simp)+
  have same: "db_attachments d2 = db_attachments d" "db_published d2 = db_published d"
    using src one by auto
  have oldatts: "rmap (\<lambda>q. attachment_post_init (q_attachment q))
      (sort_key q_position (filter (\<lambda>q. q_draft_id q = ?k) (db_attachments d2))) = Inr ?atts"
  proof (cases ?ex)
    case None
    then have "?k \<notin> w_draft_id ` set (db_workflows d)" by (simp add: find_workflow_def find_row_None)
    with db_ok_references(2)[OF ok] have "filter (\<lambda>q. q_draft_id q = ?k) (db_attachments d) = []"
      unfolding filter_empty_conv by (metis image_eqI subsetD)
    moreover have "old = None" using old None by (simp add: load_draft_def)
    ultimately show ?thesis by (simp add: same)
  next
    case (Some r)
    with old show ?thesis by (auto simp: load_draft_def Let_def rbind_eq_Inr same)
  qed
  have "table_ok att_check att_clash (db_attachments d2)" using db_ok_tables[OF ok] by (simp add: same)
  from save_attachments_rows[OF 3 this oldatts] obtain new
    where d3: "d3 = d2\<lparr>db_attachments := filter (\<lambda>r. q_draft_id r \<noteq> ?k) (db_attachments d2) @ new\<rparr>"
      and own: "\<And>r. r \<in> set new \<Longrightarrow> q_draft_id r = ?k" and pos: "map q_position new = [0..<length new]"
      and att: "map q_attachment new = map (kept_attachment ?atts) (d_attachments dr)"
      and va: "\<And>r. r \<in> set new \<Longrightarrow> valid_attachment (q_attachment r)"
    by blast
  have kept: "db_workflows d' = db_workflows d1" "db_sources d' = db_sources d2" "db_attachments d' = db_attachments d3"
    using 4 d3 src by (auto simp: save_published_def upsert_published_issue_def rbind_eq_Inr split: option.splits if_splits)
  have wf: "find_workflow d' ?k = Some row" using found by (simp add: find_workflow_def kept)
  have srcs: "rmap source_of_row (sort_key s_position (filter (\<lambda>s. s_draft_id s = ?k) (db_sources d')))
      = Inr (d_source_messages dr)"
    by (rule saved_sources[OF 2 kept(2)])
  have atts: "rmap (\<lambda>q. attachment_post_init (q_attachment q))
      (sort_key q_position (filter (\<lambda>q. q_draft_id q = ?k) (db_attachments d'))) =
      Inr (map (kept_attachment ?atts) (d_attachments dr))"
  proof -
    have "filter (\<lambda>q. q_draft_id q = ?k) (db_attachments d') = new"
      unfolding kept d3 by (simp add: filter_own_rows[OF own] del: filter_append filter_filter)
    moreover have "sort_key q_position new = new" by (rule sort_key_id_if_sorted) (simp add: pos)
    moreover have "rmap (\<lambda>q. attachment_post_init (q_attachment q)) new = Inr (map q_attachment new)"
      by (rule rmap_same) (simp add: va)
    ultimately show ?thesis by (simp add: att)
  qed
  have pub: "(case find_row u_draft_id ?k (db_published d') of None \<Rightarrow> Inr None
      | Some u \<Rightarrow> rbind (published_of_row u) (\<lambda>p. Inr (Some p))) =
      Inr (case d_published_issue dr of None \<Rightarrow> Option.bind old d_published_issue | Some i \<Rightarrow> Some i)"
  proof (cases "d_published_issue dr")
    case None
    show ?thesis
    proof (cases ?ex)
      case (Some r)
      with 4 None have "d' = d3" by (simp add: save_published_def)
      then have "db_published d' = db_published d" by (simp add: d3 same)
      with old Some None show ?thesis by (auto simp: load_draft_def Let_def rbind_eq_Inr)
    next
      case n: None
      with 4 None have "db_published d' = filter (\<lambda>u. u_draft_id u \<noteq> ?k) (db_published d3)"
        by (auto simp: save_published_def)
      then have "find_row u_draft_id ?k (db_published d') = None" by (simp add: find_row_filter_drop)
      moreover have "old = None" using old n by (simp add: load_draft_def)
      ultimately show ?thesis using None by simp
    qed
  next
    case (Some i)
    with 4 have aware: "tz_aware (pi_published_at i)"
      and up: "sql_upsert pub_check pub_clash u_draft_id \<lparr>u_draft_id = ?k, u_issue = i\<rparr> (db_published d3) = Inr (db_published d')"
      by (auto simp: save_published_def upsert_published_issue_def rbind_eq_Inr)
    moreover have "pub_check \<lparr>u_draft_id = ?k, u_issue = i\<rparr>" using up by (auto simp: sql_upsert_def split: if_splits)
    ultimately show ?thesis
      using Some find_row_upsert[OF up] by (simp add: published_of_row_def rbind_eq_Inr pub_check_def valid_published_def)
  qed
  have fields: "row = \<lparr>w_draft_id = ?k, w_owner_id = d_owner_id dr, w_chat_id = d_chat_id dr,
            w_thread_id = d_thread_id dr, w_state = d_state dr, w_revision = d_revision dr,
            w_template_json = template_to_json (d_template dr), w_created_at = d_created_at dr,
            w_updated_at = d_updated_at dr, w_expires_at = ?expiry, w_last_error = d_last_error dr\<rparr>"
    and aware: "tz_aware (d_created_at dr)" "tz_aware (d_updated_at dr)"
    using row by (auto simp: workflow_row_of_def rbind_eq_Inr)
  show ?thesis
    using aware id chk
    by (simp add: load_draft_def wf srcs atts pub Let_def fields rbind_eq_Inr valid_draft_def wf_check_def stored_draft_def)
qed

text \<open>
  C4. A draft is stored faithfully, whether it is new or replaces a stored revision: what is read
  back after a successful save is exactly \<open>stored_draft\<close> of what was read before it and the draft
  that was saved.  Every field, the template, the messages and the attachments in their order are
  those of the saved draft; only an attachment saved without an upload id keeps the id stored under
  its file, and a published issue once stored is not lost.  The expiry is the one given, or the
  stored one when none is given.
\<close>

theorem save_then_get:
  assumes "db_ok (rp_db s)" and "repo_get_by_id (d_draft_id dr) s = (Inr old, s)" and "d_draft_id dr \<noteq> []"
    and "repo_save dr e s = (Inr (), s')"
  shows "repo_get_by_id (d_draft_id dr) s' = (Inr (Some (stored_draft old dr)), s') \<and>
         fst (repo_get_expiry (d_draft_id dr) s') =
           (if e \<noteq> None then Inr e else if old = None then Inr None else fst (repo_get_expiry (d_draft_id dr) s))"
proof -
  from assms(4) obtain d where init: "rp_initialized s" and s': "s' = s\<lparr>rp_db := d\<rparr>"
    and save: "save_sync dr e (rp_db s) = Inr ((), d)" and aware: "opt_tz_aware e"
    by (cases e) (auto simp: repo_save_def bind_lift_Inr repo_run_Inr)
  from assms(2) have load: "load_draft (rp_db s) (d_draft_id dr) = Inr old"
    by (auto simp: repo_get_by_id_def get_by_id_sync_def repo_run_Inr rbind_eq_Inr)
  then have none: "(find_workflow (rp_db s) (d_draft_id dr) = None) = (old = None)"
    by (auto simp: load_draft_def Let_def rbind_eq_Inr split: option.splits)
  from load_saved_draft[OF assms(1) load assms(3) save] obtain w
    where now: "load_draft d (d_draft_id dr) = Inr (Some (stored_draft old dr))"
      and w: "find_workflow d (d_draft_id dr) = Some w"
      and exp: "w_expires_at w = (if e = None then Option.bind (find_workflow (rp_db s) (d_draft_id dr)) w_expires_at else e)"
    by auto
  have "repo_get_by_id (d_draft_id dr) s' = (Inr (Some (stored_draft old dr)), s')"
    using init s' now by (simp add: repo_get_by_id_def get_by_id_sync_def repo_run_def)
  moreover have "fst (repo_get_expiry (d_draft_id dr) s') =
      (if e \<noteq> None then Inr e else if old = None then Inr None else fst (repo_get_expiry (d_draft_id dr) s))"
  proof (cases e)
    case (Some x)
    with exp aware have "opt_from_db (w_expires_at w) = Inr (Some x)" by simp
    with Some init s' w show ?thesis by (simp add: repo_get_expiry_def get_expiry_sync_def repo_run_def del: opt_from_db_Inr)
  next
    case e: None
    show ?thesis
    proof (cases "find_workflow (rp_db s) (d_draft_id dr)")
      case None
      with exp e have "opt_from_db (w_expires_at w) = Inr None" by simp
      with None e init s' w none show ?thesis
        by (simp add: repo_get_expiry_def get_expiry_sync_def repo_run_def del: opt_from_db_Inr)
    next
      case (Some r)
      with exp e have "w_expires_at w = w_expires_at r" by simp
      with Some e init s' w none show ?thesis
        by (cases "opt_from_db (w_expires_at r)")
          (auto simp: repo_get_expiry_def get_expiry_sync_def repo_run_def simp del: opt_from_db_Inr)
    qed
  qed
  ultimately show ?thesis by blast
qed

text \<open>A second revision of the sample draft, saved without an expiry over the stored first one.\<close>

definition sample_draft :: draft where
  "sample_draft = \<lparr>d_draft_id = ''d1'', d_owner_id = 7, d_chat_id = 7, d_thread_id = None, d_state = REVIEW,
     d_revision = 5, d_template = None,
     d_source_messages = [\<lparr>sm_message_id = 5, sm_chat_id = 7, sm_sender_id = 7, sm_text = ''hello'',
        sm_media_kind = MEDIA_TEXT, sm_received_at = Aware 3\<rparr>],
     d_attachments = [], d_created_at = Aware 1, d_updated_at = Aware 2, d_published_issue = None,
     d_last_error = None\<rparr>"

definition sample_stored :: draft where
  "sample_stored = \<lparr>d_draft_id = ''d1'', d_owner_id = 7, d_chat_id = 7, d_thread_id = None, d_state = REVIEW,
     d_revision = 4, d_template = None, d_source_messages = [], d_attachments = [], d_created_at = Aware 10,
     d_updated_at = Aware 20, d_published_issue = None, d_last_error = None\<rparr>"

theorem save_then_get_witness:
  "\<exists>s'. repo_save sample_draft None (sample_repo REVIEW 4) = (Inr (), s') \<and>
     repo_get_by_id ''d1'' s' = (Inr (Some sample_draft), s') \<and>
     fst (repo_get_expiry ''d1'' s') = Inr (Some (Aware 500))"
proof -
  have "\<not> isl (fst (repo_save sample_draft None (sample_repo REVIEW 4)))"
    by (simp add: repo_save_def validate_safe_code_def save_sync_def repo_eval
        sample_draft_def save_guard_def save_workflow_row_def workflow_row_of_def
        save_sources_def src_check_def sql_insert_def save_attachments_def save_published_def)
  then obtain u s' where "repo_save sample_draft None (sample_repo REVIEW 4) = (Inr u, s')"
    using sum_result_Inr by blast
  then have run: "repo_save sample_draft None (sample_repo REVIEW 4) = (Inr (), s')" by simp
  have ok: "db_ok (rp_db (sample_repo REVIEW 4))" by (rule sample_repo_ok) simp
  have old: "repo_get_by_id (d_draft_id sample_draft) (sample_repo REVIEW 4) = (Inr (Some sample_stored), sample_repo REVIEW 4)"
    by (simp add: sample_draft_def sample_stored_def repo_get_by_id_def get_by_id_sync_def load_draft_def draft_post_init_def
        template_from_json_def repo_eval)
  have "stored_draft (Some sample_stored) sample_draft = sample_draft"
    by (simp add: stored_draft_def sample_draft_def sample_stored_def)
  moreover have "fst (repo_get_expiry ''d1'' (sample_repo REVIEW 4)) = Inr (Some (Aware 500))"
    by (simp add: repo_get_expiry_def get_expiry_sync_def repo_eval opt_from_db_def)
  moreover have "d_draft_id sample_draft = ''d1''" by (simp add: sample_draft_def)
  ultimately show ?thesis using save_then_get [OF ok old _ run] run by simp
qed

section \<open>The stored template\<close>

definition stored_template :: "db \<Rightarrow> string \<Rightarrow> jira_template option" where
  "stored_template d k =
     Option.bind (find_workflow d k) (\<lambda>r. case template_from_json (w_template_json r) of Inr t \<Rightarrow> t | Inl _ \<Rightarrow> None)"

lemma load_stored_template: "load_draft d k = Inr (Some dr) \<Longrightarrow> stored_template d k = d_template dr"
  by (auto simp: load_draft_def stored_template_def Let_def rbind_eq_Inr split: option.splits)

lemma workflows_stored_template: "db_workflows d' = db_workflows d \<Longrightarrow> stored_template d' k = stored_template d k"
  by (simp add: stored_template_def find_workflow_def)

lemma cas_stored_template:
  assumes "cas_sync now k rv t err d = Inr (dr, d')"
  shows "stored_template d' j = stored_template d j"
proof (cases rule: cas_sync_commit[OF assms])
  case (1 row rows)
  let ?P = "\<lambda>r. w_draft_id r = k \<and> w_state r = w_state row \<and> w_revision r = rv"
  let ?f = "\<lambda>r. r\<lparr>w_state := t, w_revision := rv + 1, w_updated_at := Aware now,
     w_expires_at := (if t \<in> set expirable_states then w_expires_at row else None), w_last_error := err\<rparr>"
  have rows: "rows = update_rows ?P ?f (db_workflows d)" using 1(5) by (simp add: sql_update_Inr)
  have "find_workflow d' j = map_option (\<lambda>r. if ?P r then ?f r else r) (find_workflow d j)"
    unfolding find_workflow_def 1(6) rows by (simp add: find_row_update_key)
  then show ?thesis by (cases "find_workflow d j") (simp_all add: stored_template_def)
qed

lemma save_stored_template:
  assumes "save_sync dr e d = Inr (u, d')"
  shows "stored_template d' (d_draft_id dr) = d_template dr"
proof (cases rule: save_sync_workflows[OF assms])
  case (1 expiry d1)
  obtain row where "workflow_row_of dr expiry = Inr row" and "find_workflow d1 (d_draft_id dr) = Some row"
    by (rule save_row_found[OF 1(2,1)])
  then show ?thesis
    using workflows_stored_template[OF 1(3)] by (auto simp: stored_template_def workflow_row_of_def rbind_eq_Inr)
qed

lemma save_loaded_sources:
  assumes "save_sync dr e d = Inr (u, d')" and "db_sources d'' = db_sources d'" and "load_draft d'' (d_draft_id dr) = Inr (Some x)"
  shows "d_source_messages x = d_source_messages dr"
proof -
  from assms(1) obtain d1 d2 d3 ex where 2: "save_sources dr d1 = Inr d2" and 3: "save_attachments dr d2 = Inr d3"
    and 4: "save_published ex dr d3 = Inr d'"
    by (auto simp: save_sync_def Let_def rbind_eq_Inr split: option.splits)
  from 3 4 have "db_sources d' = db_sources d2"
    by (auto simp: save_attachments_def save_published_def upsert_published_issue_def Let_def rbind_eq_Inr split: option.splits if_splits)
  with assms(2) saved_sources[OF 2, of d''] have
    "rmap source_of_row (sort_key s_position (filter (\<lambda>s. s_draft_id s = d_draft_id dr) (db_sources d''))) = Inr (d_source_messages dr)"
    by simp
  with assms(3) show ?thesis by (auto simp: load_draft_def Let_def rbind_eq_Inr split: option.splits)
qed

section \<open>One-shot tokens\<close>

text \<open>
  The contract of a token store as the callback service relies on it: a successful consumption
  spends the token, nothing that others may do to the store revives it, and a spent token is
  not consumed again.
\<close>

locale token_store =
  fixes consume :: "'h \<Rightarrow> datetime \<Rightarrow> ('s, exn, bool) sx"
    and spent :: "'h \<Rightarrow> 's \<Rightarrow> bool"
    and inv :: "'s \<Rightarrow> bool"
    and env :: "'h \<Rightarrow> 's \<Rightarrow> 's \<Rightarrow> bool"
  assumes consume_spends: "inv s \<Longrightarrow> consume h t s = (Inr True, s') \<Longrightarrow> spent h s'"
    and spent_refuses: "spent h s \<Longrightarrow> fst (consume h t s) \<noteq> Inr True"
    and env_keeps_spent: "env h s s' \<Longrightarrow> spent h s \<Longrightarrow> spent h s'"
begin

lemma spent_forever: "(env h)\<^sup>*\<^sup>* s s' \<Longrightarrow> spent h s \<Longrightarrow> spent h s'"
  by (induction rule: rtranclp_induct) (auto dest: env_keeps_spent)

lemma consumed_at_most_once:
  assumes "inv s" and "consume h t s = (Inr True, s1)" and "(env h)\<^sup>*\<^sup>* s1 s2"
  shows "fst (consume h t' s2) \<noteq> Inr True"
  using spent_refuses[OF spent_forever[OF assms(3) consume_spends[OF assms(1,2)]]] .

end

definition spent_token :: "string \<Rightarrow> db \<Rightarrow> bool" where
  "spent_token h d \<longleftrightarrow> (\<forall>r \<in> set (db_callbacks d). ct_token_hash r = h \<longrightarrow> ct_consumed_at r \<noteq> None)"

text \<open>The operation that would issue the token again (a fresh token never has an old hash).\<close>

fun issues_token :: "string \<Rightarrow> repo_op \<Rightarrow> bool" where
  "issues_token h (OpStoreCallback r) = (ct_token_hash r = h)"
| "issues_token h _ = False"

lemma spent_token_subset:
  "set (db_callbacks d') \<subseteq> set (db_callbacks d) \<Longrightarrow> spent_token h d \<Longrightarrow> spent_token h d'"
  by (auto simp: spent_token_def)

lemma callbacks_untouched:
  "save_sources dr d = Inr d' \<Longrightarrow> db_callbacks d' = db_callbacks d"
  "save_attachments dr d = Inr d' \<Longrightarrow> db_callbacks d' = db_callbacks d"
  "upsert_published_issue k i d = Inr d' \<Longrightarrow> db_callbacks d' = db_callbacks d"
  "save_published e dr d = Inr d' \<Longrightarrow> db_callbacks d' = db_callbacks d"
  "save_workflow_row e dr x d = Inr d' \<Longrightarrow> db_callbacks d' = db_callbacks d"
  "expire_eligible_sync now b n d = Inr (m, d') \<Longrightarrow> db_callbacks d' = db_callbacks d"
  by (auto simp: save_sources_def save_attachments_def upsert_published_issue_def save_published_def
      save_workflow_row_def expire_eligible_sync_def Let_def rbind_eq_Inr
      split: option.splits if_splits)

lemma cas_sync_callbacks:
  assumes "cas_sync now k rv t err d = Inr (res, d')"
  shows "db_callbacks d' = db_callbacks d"
proof (cases rule: cas_sync_commit[OF assms])
  case (1 row rows)
  show ?thesis unfolding 1(6) by simp
qed

lemma save_sync_callbacks: "save_sync dr e d = Inr (u, d') \<Longrightarrow> db_callbacks d' = db_callbacks d"
  by (auto simp: save_sync_def Let_def rbind_eq_Inr dest!: callbacks_untouched)

lemma delete_fold_callbacks:
  "set (db_callbacks (foldl (\<lambda>acc k. delete_workflows (\<lambda>r. w_draft_id r = k) acc) d ids)) \<subseteq> set (db_callbacks d)"
proof (induction ids arbitrary: d)
  case (Cons k ids)
  have "set (db_callbacks (delete_workflows (\<lambda>r. w_draft_id r = k) d)) \<subseteq> set (db_callbacks d)"
    by (auto simp: delete_workflows_def Let_def)
  with Cons show ?case by (simp, blast)
qed simp

lemma attempt_ops_callbacks:
  "set_attachment_status_sync k uid es ts up upl err d = Inr (b, d') \<Longrightarrow> db_callbacks d' = db_callbacks d"
  "store_published_issue_sync k i d = Inr (u, d') \<Longrightarrow> db_callbacks d' = db_callbacks d"
  "register_card_message_sync now ch m key own d = Inr (u, d') \<Longrightarrow> db_callbacks d' = db_callbacks d"
  "record_notification_sync usr key lst d = Inr (u, d') \<Longrightarrow> db_callbacks d' = db_callbacks d"
  by (auto simp: set_attachment_status_sync_def store_published_issue_sync_def
      register_card_message_sync_def record_notification_sync_def
      rbind_eq_Inr dest: callbacks_untouched(3) split: if_splits)

lemma claim_attempt_callbacks: "claim_attempt_sync a d = Inr (b, d') \<Longrightarrow> db_callbacks d' = db_callbacks d"
  by (drule claim_attempt_shape) auto

lemma update_attempt_callbacks: "update_attempt_sync a d = Inr (u, d') \<Longrightarrow> db_callbacks d' = db_callbacks d"
  by (erule update_attempt_commit) simp

lemma delete_callbacks:
  "delete_sync k d = Inr (b, d') \<Longrightarrow> set (db_callbacks d') \<subseteq> set (db_callbacks d)"
  "delete_terminal_sync t n d = Inr (m, d') \<Longrightarrow> set (db_callbacks d') \<subseteq> set (db_callbacks d)"
  "delete_expired_callbacks_sync t n d = Inr (m, d') \<Longrightarrow> set (db_callbacks d') \<subseteq> set (db_callbacks d)"
proof -
  show "delete_sync k d = Inr (b, d') \<Longrightarrow> set (db_callbacks d') \<subseteq> set (db_callbacks d)"
    by (auto simp: delete_sync_def Let_def delete_workflows_def)
  show "delete_terminal_sync t n d = Inr (m, d') \<Longrightarrow> set (db_callbacks d') \<subseteq> set (db_callbacks d)"
    using delete_fold_callbacks by (auto simp: delete_terminal_sync_def rbind_eq_Inr Let_def)
  show "delete_expired_callbacks_sync t n d = Inr (m, d') \<Longrightarrow> set (db_callbacks d') \<subseteq> set (db_callbacks d)"
    by (auto simp: delete_expired_callbacks_sync_def rbind_eq_Inr Let_def)
qed

lemma token_updates_keep_spent:
  "consume_callback_sync g c d = Inr (b, d') \<Longrightarrow> spent_token h d \<Longrightarrow> spent_token h d'"
  "invalidate_tokens_sync k c d = Inr (n, d') \<Longrightarrow> spent_token h d \<Longrightarrow> spent_token h d'"
  by (auto simp: consume_callback_sync_def invalidate_tokens_sync_def rbind_eq_Inr spent_token_def
      set_update_rows)

lemma store_callback_keeps_spent:
  "store_callback_sync r d = Inr (u, d') \<Longrightarrow> ct_token_hash r \<noteq> h \<Longrightarrow> spent_token h d \<Longrightarrow> spent_token h d'"
  by (erule store_callback_commit) (auto simp: sql_insert_Inr spent_token_def)

lemma spent_token_same: "db_callbacks d' = db_callbacks d \<Longrightarrow> spent_token h d \<Longrightarrow> spent_token h d'"
  by (simp add: spent_token_def)

lemmas callbacks_same = save_sync_callbacks cas_sync_callbacks callbacks_untouched(6) attempt_ops_callbacks
  claim_attempt_callbacks update_attempt_callbacks

lemma op_keeps_spent:
  assumes "op_body op d = Inr d'" and "\<not> issues_token h op" and "spent_token h d"
  shows "spent_token h d'"
  using assms
  by (cases op)
    (auto simp: op_body_def rbind_eq_Inr
      intro: spent_token_same[OF callbacks_same(1)] spent_token_same[OF callbacks_same(2)]
        spent_token_same[OF callbacks_same(3)] spent_token_same[OF callbacks_same(4)]
        spent_token_same[OF callbacks_same(5)] spent_token_same[OF callbacks_same(6)]
        spent_token_same[OF callbacks_same(7)] spent_token_same[OF callbacks_same(8)]
        spent_token_same[OF callbacks_same(9)]
        spent_token_subset[OF delete_callbacks(1)] spent_token_subset[OF delete_callbacks(2)]
        spent_token_subset[OF delete_callbacks(3)] token_updates_keep_spent store_callback_keeps_spent)

text \<open>One step of the environment of token \<open>h\<close>: any operation that does not issue it again.\<close>

definition repo_env :: "string \<Rightarrow> repo \<Rightarrow> repo \<Rightarrow> bool" where
  "repo_env h s s' \<longleftrightarrow> (\<exists>op. \<not> issues_token h op \<and> s' = exec_op op s)"

lemma exec_ops_env:
  "list_all (\<lambda>op. \<not> issues_token h op) ops \<Longrightarrow> (repo_env h)\<^sup>*\<^sup>* s (exec_ops ops s)"
proof (induction ops rule: rev_induct)
  case (snoc op ops)
  then have "repo_env h (exec_ops ops s) (exec_ops (ops @ [op]) s)"
    by (auto simp: repo_env_def exec_ops_append)
  with snoc show ?case by auto
qed (simp add: exec_ops_def)

lemma repo_consume_Inr:
  "repo_consume_callback h c s = (Inr b, s') \<longleftrightarrow> tz_aware c \<and> rp_initialized s \<and>
     b = (count_rows (consumable h c) (db_callbacks (rp_db s)) = 1) \<and>
     s' = s\<lparr>rp_db := (rp_db s)\<lparr>db_callbacks :=
       update_rows (consumable h c) (\<lambda>r. r\<lparr>ct_consumed_at := Some c\<rparr>) (db_callbacks (rp_db s))\<rparr>\<rparr>"
  by (auto simp: repo_consume_callback_def bind_lift_Inr repo_run_Inr consume_callback_sync_def rbind_eq_Inr)

lemma consume_True_spends:
  assumes "db_ok (rp_db s)" and "repo_consume_callback h c s = (Inr True, s')"
  shows "spent_token h (rp_db s')"
proof -
  let ?rows = "db_callbacks (rp_db s)"
  from assms(2) have "count_rows (consumable h c) ?rows = 1" by (simp add: repo_consume_Inr)
  then obtain r where r: "r \<in> set ?rows" "consumable h c r"
    by (metis count_rows_zero One_nat_def zero_neq_one)
  have "x = r" if "x \<in> set ?rows" "ct_token_hash x = h" for x
    using distinct_key_eq[OF cb.ok_distinct[OF db_ok_tables(5)[OF assms(1)]] that(1) r(1)] r(2) that(2)
    by (simp add: consumable_def)
  with r(2) assms(2) show ?thesis
    by (auto simp: repo_consume_Inr spent_token_def set_update_rows split: if_splits)
qed

lemma spent_not_consumed: "spent_token h (rp_db s) \<Longrightarrow> fst (repo_consume_callback h c s) \<noteq> Inr True"
proof
  assume spent: "spent_token h (rp_db s)" and "fst (repo_consume_callback h c s) = Inr True"
  then obtain s' where "repo_consume_callback h c s = (Inr True, s')" by (metis prod.collapse)
  then have "count_rows (consumable h c) (db_callbacks (rp_db s)) \<noteq> 0" by (simp add: repo_consume_Inr)
  with spent show False by (auto simp: count_rows_zero spent_token_def consumable_def)
qed

lemma env_keeps_spent_token:
  assumes "repo_env h s s'" and "spent_token h (rp_db s)"
  shows "spent_token h (rp_db s')"
proof -
  from assms(1) obtain op where op: "\<not> issues_token h op" "s' = exec_op op s" by (auto simp: repo_env_def)
  from exec_op_shape[of op s] show ?thesis
    using op op_keeps_spent[OF _ op(1) assms(2)] assms(2) by auto
qed

interpretation tokens: token_store repo_consume_callback "\<lambda>h s. spent_token h (rp_db s)"
  "\<lambda>s. db_ok (rp_db s)" repo_env
  by unfold_locales (auto intro: consume_True_spends env_keeps_spent_token dest: spent_not_consumed)

text \<open>
  A one-shot button fires once: after a token has been consumed, no sequence of repository
  operations by anyone (short of storing a new record under the same SHA-256 hash) makes a second
  consumption of it succeed, at whatever time it is tried.
\<close>

theorem consume_at_most_once:
  assumes "db_ok (rp_db s)" and "repo_consume_callback h c s = (Inr True, s')"
    and "list_all (\<lambda>op. \<not> issues_token h op) ops"
  shows "fst (repo_consume_callback h c2 (exec_ops ops s')) \<noteq> Inr True"
  using assms(1,2) by (rule tokens.consumed_at_most_once) (rule exec_ops_env[OF assms(3)])

definition sample_hash :: string where "sample_hash = replicate 64 (CHR ''a'')"

definition sample_record :: callback_token_record where
  "sample_record = \<lparr>ct_token_hash = sample_hash, ct_draft_id = ''d1'', ct_owner_user_id = 7, ct_chat_id = 7,
     ct_message_thread_id = None, ct_preview_message_id = Some 9, ct_expected_revision = 4,
     ct_expected_state = ''review'', ct_action = A_CONFIRM, ct_expires_at = Aware 500, ct_one_shot = True,
     ct_consumed_at = None\<rparr>"

definition sample_token_repo :: repo where
  "sample_token_repo = \<lparr>rp_db = empty_db\<lparr>db_workflows := [sample_row REVIEW 4],
     db_callbacks := [sample_record]\<rparr>, rp_initialized = True\<rparr>"

lemma sample_token_repo_ok: "db_ok (rp_db sample_token_repo)"
  by (simp add: sample_token_repo_def sample_row_def db_ok_def tables_ok_def children_ok_def empty_db_def
      table_ok_def wf_check_def cb_check_def sample_record_def sample_hash_def is_lower_hex_def
      all_states_def stored_actions_def list_all_iff)

theorem consume_at_most_once_witness:
  "\<exists>s'. repo_consume_callback sample_hash (Aware 50) sample_token_repo = (Inr True, s') \<and>
     fst (repo_consume_callback sample_hash (Aware 60)
       (exec_ops [OpInvalidateTokens ''d1'' (Aware 55), OpDeleteExpiredCallbacks (Aware 56) 10] s')) \<noteq> Inr True"
proof -
  obtain s' where run: "repo_consume_callback sample_hash (Aware 50) sample_token_repo = (Inr True, s')"
    by (simp add: repo_consume_Inr sample_token_repo_def consumable_def sample_record_def count_rows_def)
  show ?thesis
    using consume_at_most_once [OF sample_token_repo_ok run,
      of "[OpInvalidateTokens ''d1'' (Aware 55), OpDeleteExpiredCallbacks (Aware 56) 10]" "Aware 60"] run
    by auto
qed

section \<open>Invalidation\<close>

lemma get_callback_row:
  assumes "repo_get_callback h s = (Inr (Some r), s')"
  shows "s' = s \<and> r \<in> set (db_callbacks (rp_db s)) \<and> ct_token_hash r = h \<and> valid_token_record r"
proof -
  from assms obtain x where x: "find_row ct_token_hash h (db_callbacks (rp_db s)) = Some x"
    and r: "r = x\<lparr>ct_expires_at := ct_expires_at x, ct_consumed_at := ct_consumed_at x\<rparr>" "valid_token_record r" "s' = s"
    by (auto simp: repo_get_callback_def repo_run_Inr get_callback_sync_def rbind_eq_Inr
        split: option.splits)
  moreover from r have "r = x" by (cases x) simp
  ultimately show ?thesis using find_row_Some[OF x] by simp
qed

text \<open>
  A new preview kills the old buttons: after the tokens of a draft have been invalidated at time
  \<open>at\<close>, no token record that the store returns for this draft authorizes any press from that
  time on, whoever presses it and whatever version of the draft is presented.
\<close>

theorem invalidation_stops_buttons:
  assumes "repo_invalidate_tokens k at s = (Inr n, s')"
    and "repo_get_callback h s' = (Inr (Some r), s2)" and "ct_draft_id r = k"
    and "dt_instant at \<le> dt_instant (ai_now req)"
  shows "authorize_callback sha req (Some r) rv st \<noteq> Allow"
proof -
  from assms(1) have rows: "db_callbacks (rp_db s') =
      update_rows (active_token k at) (\<lambda>x. x\<lparr>ct_expires_at := at\<rparr>) (db_callbacks (rp_db s))"
    by (auto simp: repo_invalidate_tokens_def bind_lift_Inr repo_run_Inr invalidate_tokens_sync_def rbind_eq_Inr
        sx_bind_eq_Inr ensure_def split: if_splits)
  from get_callback_row[OF assms(2)] obtain x where "x \<in> set (db_callbacks (rp_db s))"
    and x: "r = (if active_token k at x then x\<lparr>ct_expires_at := at\<rparr> else x)"
    by (auto simp: rows set_update_rows)
  have "ct_consumed_at r \<noteq> None \<or> dt_instant (ct_expires_at r) \<le> dt_instant at"
    using x assms(3) by (auto simp: active_token_def not_less)
  with assms(4) show ?thesis by (auto simp: authorize_callback_allow_cases)
qed

definition sample_request :: "int \<Rightarrow> callback_auth_input" where
  "sample_request now = \<lparr>ai_actor_user_id = 7, ai_chat_id = 7, ai_chat_type = ''private'',
     ai_message_thread_id = None, ai_preview_message_id = Some 9, ai_action = A_CONFIRM,
     ai_opaque_token = sample_token, ai_now = Aware now\<rparr>"

theorem invalidation_stops_buttons_witness:
  "\<exists>n s' r s2. repo_invalidate_tokens ''d1'' (Aware 55) sample_token_repo = (Inr n, s') \<and> n = 1 \<and>
     repo_get_callback sample_hash s' = (Inr (Some r), s2) \<and>
     authorize_callback (\<lambda>_. sample_hash) (sample_request 60) (Some r) (Some 4) (Some ''review'') \<noteq> Allow"
proof -
  let ?r = "sample_record\<lparr>ct_expires_at := Aware 55\<rparr>"
  let ?s = "sample_token_repo\<lparr>rp_db := (rp_db sample_token_repo)\<lparr>db_callbacks := [?r]\<rparr>\<rparr>"
  have 1: "repo_invalidate_tokens ''d1'' (Aware 55) sample_token_repo = (Inr 1, ?s)"
    by (simp add: repo_invalidate_tokens_def validate_datetime_def repo_run_def invalidate_tokens_sync_def
        sample_token_repo_def to_db_datetime_def active_token_def sample_record_def count_rows_def update_rows_def)
  have valid: "valid_token_record ?r"
    by (simp add: valid_token_record_def sample_record_def sample_hash_def TOKEN_HASH_HEX_LENGTH_def
        is_lower_hex_def list_all_iff)
  then have 2: "repo_get_callback sample_hash ?s = (Inr (Some ?r), ?s)"
    by (simp add: repo_get_callback_def repo_run_Inr get_callback_sync_def sample_token_repo_def rbind_eq_Inr)
      (simp add: sample_record_def)
  have "ct_draft_id ?r = ''d1''" "dt_instant (Aware 55) \<le> dt_instant (ai_now (sample_request 60))"
    by (simp_all add: sample_record_def sample_request_def)
  from invalidation_stops_buttons [OF 1 2 this] 1 2 show ?thesis by blast
qed

section \<open>Attempt claims\<close>

lemma repo_claim_Inr:
  "repo_claim_attempt a s = (Inr b, s') \<longleftrightarrow> rp_initialized s \<and>
     (\<exists>d. claim_attempt_sync a (rp_db s) = Inr (b, d) \<and> s' = s\<lparr>rp_db := d\<rparr>)"
  by (simp add: repo_claim_attempt_def repo_run_Inr)

lemma pending_blocks_claim:
  assumes "x \<in> set (db_attempts d)" and "sa_draft_id x = sa_draft_id b" and "sa_status x = ''pending''"
    and "claim_attempt_sync b d = Inr (True, d')"
  shows False
  using claim_attempt_shape[OF assms(4)] assms(1-3) by (auto simp: sql_insert_Inr sa_clash_def)

fun releases_attempt :: "submission_attempt \<Rightarrow> repo_op \<Rightarrow> bool" where
  "releases_attempt a (OpUpdateAttempt b) = (sa_attempt_id b = sa_attempt_id a)"
| "releases_attempt a (OpDelete k) = (k = sa_draft_id a)"
| "releases_attempt a (OpDeleteTerminal _ _) = True"
| "releases_attempt a _ = False"

lemma attempts_untouched:
  "save_sources dr d = Inr d' \<Longrightarrow> db_attempts d' = db_attempts d"
  "save_attachments dr d = Inr d' \<Longrightarrow> db_attempts d' = db_attempts d"
  "upsert_published_issue k i d = Inr d' \<Longrightarrow> db_attempts d' = db_attempts d"
  "save_published e dr d = Inr d' \<Longrightarrow> db_attempts d' = db_attempts d"
  "save_workflow_row e dr x d = Inr d' \<Longrightarrow> db_attempts d' = db_attempts d"
  by (auto simp: save_sources_def save_attachments_def upsert_published_issue_def save_published_def
      save_workflow_row_def Let_def rbind_eq_Inr split: option.splits if_splits)

lemma save_sync_attempts: "save_sync dr e d = Inr (u, d') \<Longrightarrow> db_attempts d' = db_attempts d"
  by (auto simp: save_sync_def Let_def rbind_eq_Inr dest!: attempts_untouched)

lemma cas_sync_attempts:
  assumes "cas_sync now k rv t err d = Inr (res, d')"
  shows "db_attempts d' = db_attempts d"
proof (cases rule: cas_sync_commit[OF assms])
  case (1 row rows)
  show ?thesis unfolding 1(6) by simp
qed

lemma store_callback_attempts: "store_callback_sync r d = Inr (u, d') \<Longrightarrow> db_attempts d' = db_attempts d"
  by (erule store_callback_commit) simp

lemma other_ops_attempts:
  "expire_eligible_sync now b n d = Inr (m, d') \<Longrightarrow> db_attempts d' = db_attempts d"
  "consume_callback_sync h c d = Inr (x, d') \<Longrightarrow> db_attempts d' = db_attempts d"
  "invalidate_tokens_sync k c d = Inr (m, d') \<Longrightarrow> db_attempts d' = db_attempts d"
  "delete_expired_callbacks_sync t l d = Inr (m, d') \<Longrightarrow> db_attempts d' = db_attempts d"
  "set_attachment_status_sync k uid es ts up upl err d = Inr (x, d') \<Longrightarrow> db_attempts d' = db_attempts d"
  "store_published_issue_sync k i d = Inr (u, d') \<Longrightarrow> db_attempts d' = db_attempts d"
  "register_card_message_sync now ch mm key own d = Inr (u, d') \<Longrightarrow> db_attempts d' = db_attempts d"
  "record_notification_sync usr key lst d = Inr (u, d') \<Longrightarrow> db_attempts d' = db_attempts d"
  by (auto simp: expire_eligible_sync_def consume_callback_sync_def invalidate_tokens_sync_def
      delete_expired_callbacks_sync_def set_attachment_status_sync_def store_published_issue_sync_def
      register_card_message_sync_def record_notification_sync_def rbind_eq_Inr Let_def
      dest: attempts_untouched(3) split: if_splits)

lemmas attempts_same = save_sync_attempts cas_sync_attempts store_callback_attempts other_ops_attempts

lemma attempt_kept_same: "db_attempts d' = db_attempts d \<Longrightarrow> a \<in> set (db_attempts d) \<Longrightarrow> a \<in> set (db_attempts d')"
  by simp

lemma claim_keeps_attempts: "claim_attempt_sync b d = Inr (x, d') \<Longrightarrow> a \<in> set (db_attempts d) \<Longrightarrow> a \<in> set (db_attempts d')"
  by (drule claim_attempt_shape) (auto simp: sql_insert_Inr)

lemma update_keeps_other_attempt:
  assumes "update_attempt_sync b d = Inr (u, d')" and "sa_attempt_id b \<noteq> sa_attempt_id a" and "a \<in> set (db_attempts d)"
  shows "a \<in> set (db_attempts d')"
proof (cases rule: update_attempt_commit[OF assms(1)])
  case (1 row n rows)
  from 1(6) assms(2,3) have "a \<in> set rows" by (force simp: sql_update_Inr set_update_rows)
  then show ?thesis unfolding 1(7) by simp
qed

lemma delete_keeps_other_attempt:
  "delete_sync k d = Inr (b, d') \<Longrightarrow> k \<noteq> sa_draft_id a \<Longrightarrow> a \<in> set (db_attempts d) \<Longrightarrow> a \<in> set (db_attempts d')"
  by (auto simp: delete_sync_def Let_def delete_workflows_def)

lemma op_keeps_attempt:
  assumes "op_body op d = Inr d'" and "\<not> releases_attempt a op" and "a \<in> set (db_attempts d)"
  shows "a \<in> set (db_attempts d')"
  using assms
  by (cases op)
    (auto simp: op_body_def rbind_eq_Inr dest: attempts_same
      intro: claim_keeps_attempts update_keeps_other_attempt delete_keeps_other_attempt)

lemma ops_keep_attempt:
  "list_all (\<lambda>op. \<not> releases_attempt a op) ops \<Longrightarrow> a \<in> set (db_attempts (rp_db s)) \<Longrightarrow>
     a \<in> set (db_attempts (rp_db (exec_ops ops s)))"
proof (induction ops rule: rev_induct)
  case (snoc op ops)
  then have here: "a \<in> set (db_attempts (rp_db (exec_ops ops s)))" and op: "\<not> releases_attempt a op" by simp_all
  from exec_op_shape[of op "exec_ops ops s"] show ?case
    using here op_keeps_attempt[OF _ op here] by (auto simp: exec_ops_append)
qed (simp add: exec_ops_def)

text \<open>
  One worker owns the mutation: a successful claim proves that the draft is in SUBMITTING, UPDATING
  or ATTACHING and leaves exactly this one pending attempt for it; from then on, as long as the
  attempt is neither updated nor deleted with its draft, every other claim for the draft fails.
\<close>

theorem claim_excludes_others:
  assumes "repo_claim_attempt a s = (Inr True, s')" and "sa_draft_id b = sa_draft_id a"
    and "list_all (\<lambda>op. \<not> releases_attempt a op) ops"
  shows "(\<exists>st n. version (rp_db s') (sa_draft_id a) = Some (st, n) \<and> st \<in> {SUBMITTING, UPDATING, ATTACHING}) \<and>
         sa_status a = ''pending'' \<and> a \<in> set (db_attempts (rp_db s')) \<and>
         fst (repo_claim_attempt b (exec_ops ops s')) \<noteq> Inr True"
proof -
  from assms(1) obtain d where claim: "claim_attempt_sync a (rp_db s) = Inr (True, d)" and s': "s' = s\<lparr>rp_db := d\<rparr>"
    by (auto simp: repo_claim_Inr)
  from claim_attempt_shape[OF claim] obtain w rows where pend: "sa_status a = ''pending''"
    and w: "find_workflow (rp_db s) (sa_draft_id a) = Some w" "w_state w \<in> set attempt_claim_states"
    and rows: "sql_insert sa_check sa_clash a (db_attempts (rp_db s)) = Inr rows"
    and d: "d = (rp_db s)\<lparr>db_attempts := rows\<rparr>" by auto
  have "find_workflow d (sa_draft_id a) = Some w" using w(1) by (simp add: d find_workflow_def)
  moreover have here: "a \<in> set (db_attempts (rp_db s'))" using rows by (simp add: s' d sql_insert_Inr)
  moreover have "fst (repo_claim_attempt b (exec_ops ops s')) \<noteq> Inr True"
  proof
    assume "fst (repo_claim_attempt b (exec_ops ops s')) = Inr True"
    then obtain d2 where "claim_attempt_sync b (rp_db (exec_ops ops s')) = Inr (True, d2)"
      by (metis prod.collapse repo_claim_Inr)
    from pending_blocks_claim[OF ops_keep_attempt[OF assms(3) here] assms(2)[symmetric] pend this]
    show False .
  qed
  ultimately show ?thesis
    using w(2) pend by (simp add: s' version_def attempt_claim_states_def)
qed

definition sample_attempt :: "string \<Rightarrow> int \<Rightarrow> submission_attempt" where
  "sample_attempt aid n = \<lparr>sa_attempt_id = aid, sa_draft_id = ''d1'', sa_request_hash = ''h'',
     sa_attempt_number = n, sa_started_at = Aware 40, sa_completed_at = None, sa_status = ''pending'',
     sa_error_summary = None\<rparr>"

theorem claim_excludes_others_witness:
  "\<exists>s'. repo_claim_attempt (sample_attempt ''a1'' 1) (sample_repo SUBMITTING 5) = (Inr True, s') \<and>
     fst (repo_claim_attempt (sample_attempt ''a2'' 2)
            (exec_ops [OpCas 45 ''d1'' 5 SUBMISSION_UNKNOWN None] s')) \<noteq> Inr True"
proof -
  obtain s' where run: "repo_claim_attempt (sample_attempt ''a1'' 1) (sample_repo SUBMITTING 5) = (Inr True, s')"
    by (simp add: repo_claim_attempt_def repo_run_def claim_attempt_sync_def sample_attempt_def sample_repo_def
        sample_row_def empty_db_def find_workflow_def attempt_claim_states_def attempt_values_def
        attempt_statuses_def validate_safe_code_def to_db_datetime_def opt_to_db_def sql_insert_def sa_check_def)
  have "sa_draft_id (sample_attempt ''a2'' 2) = sa_draft_id (sample_attempt ''a1'' 1)"
    by (simp add: sample_attempt_def)
  from claim_excludes_others [OF run this, of "[OpCas 45 ''d1'' 5 SUBMISSION_UNKNOWN None]"] run
  show ?thesis by auto
qed

section \<open>Which buttons can be stored\<close>

text \<open>
  The token table cannot hold the buttons of an issue card: \<open>store_callback\<close> never succeeds for a
  record whose action is not one of the ten the schema's CHECK lists, although thirteen more
  actions parse, encode and can be built into records; for a record that matches its draft in
  every binding the error is the conflict that otherwise reports a duplicate button.
\<close>

theorem card_buttons_not_storable:
  assumes "ct_action r \<notin> set stored_actions"
  shows "fst (repo_store_callback r s) \<noteq> Inr () \<and>
         set stored_actions \<union> {A_MOVE_TRANSITION, A_SELECT_TRANSITION, A_QUICK_EDIT, A_ADD_COMMENT,
           A_BLOCK_ISSUE, A_UNBLOCK_ISSUE, A_ASSIGN_ISSUE, A_ASSIGN_ME, A_CREATE_SUBTASK, A_QUICK_FILTER,
           A_REFRESH_CARD, A_WATCH_ISSUE, A_UNWATCH_ISSUE} = set all_actions \<and>
         (rp_initialized s \<and> valid_token_record r \<and>
            (\<exists>w. find_workflow (rp_db s) (ct_draft_id r) = Some w \<and> w_owner_id w = ct_owner_user_id r \<and>
               w_chat_id w = ct_chat_id r \<and> w_thread_id w = ct_message_thread_id r \<and>
               w_revision w = ct_expected_revision r \<and> state_value (w_state w) = ct_expected_state r) \<longrightarrow>
          fst (repo_store_callback r s) =
            Inl (RepositoryError CallbackRecordConflictError ''callback_record_conflict''))"
proof (intro conjI impI)
  show "fst (repo_store_callback r s) \<noteq> Inr ()"
  proof
    assume "fst (repo_store_callback r s) = Inr ()"
    then obtain d where "store_callback_sync r (rp_db s) = Inr ((), d)"
      by (metis prod.collapse repo_run_Inr repo_store_callback_def)
    then show False
      by (rule store_callback_commit) (use assms in \<open>auto simp: sql_insert_Inr cb_check_def\<close>)
  qed
  show "set stored_actions \<union> {A_MOVE_TRANSITION, A_SELECT_TRANSITION, A_QUICK_EDIT, A_ADD_COMMENT,
           A_BLOCK_ISSUE, A_UNBLOCK_ISSUE, A_ASSIGN_ISSUE, A_ASSIGN_ME, A_CREATE_SUBTASK, A_QUICK_FILTER,
           A_REFRESH_CARD, A_WATCH_ISSUE, A_UNWATCH_ISSUE} = set all_actions"
    by (auto simp: stored_actions_def all_actions_def)
  assume "rp_initialized s \<and> valid_token_record r \<and>
            (\<exists>w. find_workflow (rp_db s) (ct_draft_id r) = Some w \<and> w_owner_id w = ct_owner_user_id r \<and>
               w_chat_id w = ct_chat_id r \<and> w_thread_id w = ct_message_thread_id r \<and>
               w_revision w = ct_expected_revision r \<and> state_value (w_state w) = ct_expected_state r)"
  then obtain w where w: "rp_initialized s" "valid_token_record r" "find_workflow (rp_db s) (ct_draft_id r) = Some w"
     "w_owner_id w = ct_owner_user_id r" "w_chat_id w = ct_chat_id r" "w_thread_id w = ct_message_thread_id r"
     "w_revision w = ct_expected_revision r" "ct_expected_state r = state_value (w_state w)" by auto
  then have "store_callback_sync r (rp_db s) =
      Inl (RepositoryError CallbackRecordConflictError ''callback_record_conflict'')"
    using assms
    by (auto simp: store_callback_sync_def to_db_datetime_def opt_to_db_def valid_token_record_def
        sql_insert_def cb_check_def split: option.splits)
  with w(1) show "fst (repo_store_callback r s) =
      Inl (RepositoryError CallbackRecordConflictError ''callback_record_conflict'')"
    by (simp add: repo_store_callback_def repo_run_def)
qed

theorem card_buttons_not_storable_witness:
  "ct_action (sample_record\<lparr>ct_action := A_REFRESH_CARD\<rparr>) \<notin> set stored_actions \<and>
   fst (repo_store_callback (sample_record\<lparr>ct_action := A_REFRESH_CARD\<rparr>) (sample_repo REVIEW 4)) \<noteq> Inr ()"
proof -
  have "ct_action (sample_record\<lparr>ct_action := A_REFRESH_CARD\<rparr>) \<notin> set stored_actions"
    by (simp add: stored_actions_def)
  with card_buttons_not_storable [OF this, of "sample_repo REVIEW 4"] show ?thesis by simp
qed

end
