(* ===== verification/Workflow_Service.thy ===== *)
theory Workflow_Service
  imports Workflow_Contracts
begin

text \<open>
  The use cases of \<open>src/src/dztgbot/services/workflow_service.py\<close> over the repository: access-checked
  loading, manual drafts, template edits, the type and priority toggles, cancellation and the
  expiry sweep.  \<open>now\<close> is the reading of the clock (UTC), \<open>new_id\<close> the generated identifier.  A use
  case makes one repository call after another; each call commits on its own.
\<close>

section \<open>Loading with access checks\<close>

definition get_draft :: "string \<Rightarrow> int option \<Rightarrow> int option \<Rightarrow> (repo, exn, draft) sx" where
  "get_draft k actor chat =
     sx_bind (repo_get_by_id k) (\<lambda>found.
       (case found of
          None \<Rightarrow> sx_raise (DomainError (DraftNotFoundError k))
        | Some dr \<Rightarrow>
            if (case actor of None \<Rightarrow> False | Some a \<Rightarrow> d_owner_id dr \<noteq> a) then
              sx_raise (DomainError (DraftAccessDeniedError k (the actor) (case chat of None \<Rightarrow> 0 | Some c \<Rightarrow> c)))
            else if (case chat of None \<Rightarrow> False | Some c \<Rightarrow> d_chat_id dr \<noteq> c) then
              sx_raise (DomainError (DraftAccessDeniedError k (case actor of None \<Rightarrow> 0 | Some a \<Rightarrow> a) (the chat)))
            else sx_return dr))"

section \<open>Use cases\<close>

definition create_manual_draft ::
  "int \<Rightarrow> string \<Rightarrow> int \<Rightarrow> int \<Rightarrow> jira_template \<Rightarrow> int option \<Rightarrow> string option \<Rightarrow> (repo, exn, draft) sx" where
  "create_manual_draft now new_id owner chat tpl thread did =
     sx_bind (sx_lift (draft_post_init
       \<lparr>d_draft_id = (case did of None \<Rightarrow> new_id | Some i \<Rightarrow> if i = [] then new_id else i),
        d_owner_id = owner, d_chat_id = chat, d_thread_id = thread, d_state = REVIEW, d_revision = 1,
        d_template = Some tpl, d_source_messages = [], d_attachments = [], d_created_at = Aware now,
        d_updated_at = Aware now, d_published_issue = None, d_last_error = None\<rparr>)) (\<lambda>dr.
     sx_bind (repo_save dr None) (\<lambda>_. sx_return dr))"

definition update_template ::
  "int \<Rightarrow> string \<Rightarrow> int \<Rightarrow> int \<Rightarrow> jira_template \<Rightarrow> int \<Rightarrow> (repo, exn, draft) sx" where
  "update_template now k owner chat new_template expected_revision =
     sx_bind (get_draft k (Some owner) (Some chat)) (\<lambda>dr.
     sx_bind (sx_ensure (d_revision dr = expected_revision)
                (DomainError (RevisionConflictError expected_revision (d_revision dr)))) (\<lambda>_.
     sx_bind (sx_lift (if d_state dr \<notin> {REVIEW, EDITING, SUBMISSION_RETRYABLE}
                       then validate_transition (d_state dr) REVIEW else Inr ())) (\<lambda>_.
     sx_bind (sx_lift (draft_post_init
       (dr\<lparr>d_state := REVIEW, d_revision := d_revision dr + 1, d_template := Some new_template,
           d_updated_at := Aware now, d_last_error := None\<rparr>))) (\<lambda>updated.
     sx_bind (repo_save updated None) (\<lambda>_. sx_return updated)))))"

text \<open>The value after \<open>cur\<close> in the cycle \<open>xs\<close>; the first one if \<open>cur\<close> is not among them.\<close>

fun index_of :: "string \<Rightarrow> string list \<Rightarrow> nat" where
  "index_of x [] = 0"
| "index_of x (y # ys) = (if x = y then 0 else Suc (index_of x ys))"

definition next_value :: "string list \<Rightarrow> string \<Rightarrow> string \<Rightarrow> string" where
  "next_value xs fallback cur =
     (if cur \<in> set xs then xs ! ((index_of cur xs + 1) mod length xs)
      else if xs \<noteq> [] then hd xs else fallback)"

definition default_issue_types :: "string list" where
  "default_issue_types = [''Task'', ''Bug'', ''Story'']"

definition default_priorities :: "string list" where
  "default_priorities = [''Lowest'', ''Low'', ''Medium'', ''High'', ''Highest'']"

definition toggle_template ::
  "(jira_template \<Rightarrow> jira_template) \<Rightarrow> int \<Rightarrow> string \<Rightarrow> int \<Rightarrow> int \<Rightarrow> int \<Rightarrow> (repo, exn, draft) sx" where
  "toggle_template change now k owner chat expected_revision =
     sx_bind (get_draft k (Some owner) (Some chat)) (\<lambda>dr.
       (case d_template dr of
          None \<Rightarrow> sx_raise (DomainError (StateConflictError (state_value REVIEW) (state_value (d_state dr))))
        | Some tpl \<Rightarrow>
            if d_revision dr \<noteq> expected_revision then
              sx_raise (DomainError (RevisionConflictError expected_revision (d_revision dr)))
            else update_template now k owner chat (change tpl) expected_revision))"

definition toggle_issue_type ::
  "int \<Rightarrow> string \<Rightarrow> int \<Rightarrow> int \<Rightarrow> int \<Rightarrow> string list \<Rightarrow> (repo, exn, draft) sx" where
  "toggle_issue_type now k owner chat expected_revision types =
     toggle_template (\<lambda>t. t\<lparr>jt_issue_type := next_value types ''Task'' (jt_issue_type t)\<rparr>)
       now k owner chat expected_revision"

definition toggle_priority ::
  "int \<Rightarrow> string \<Rightarrow> int \<Rightarrow> int \<Rightarrow> int \<Rightarrow> string list \<Rightarrow> (repo, exn, draft) sx" where
  "toggle_priority now k owner chat expected_revision priorities =
     toggle_template (\<lambda>t. t\<lparr>jt_priority := next_value priorities ''Medium'' (jt_priority t)\<rparr>)
       now k owner chat expected_revision"

definition cancel_draft :: "int \<Rightarrow> string \<Rightarrow> int \<Rightarrow> int \<Rightarrow> int \<Rightarrow> (repo, exn, draft) sx" where
  "cancel_draft now k owner chat expected_revision =
     sx_bind (get_draft k (Some owner) (Some chat)) (\<lambda>dr.
     sx_bind (sx_lift (validate_transition (d_state dr) CANCELLED)) (\<lambda>_.
       repo_cas now k expected_revision CANCELLED None))"

fun transition_conflict :: "exn \<Rightarrow> bool" where
  "transition_conflict (DomainError (RevisionConflictError _ _)) = True"
| "transition_conflict (DomainError (StateConflictError _ _)) = True"
| "transition_conflict (DomainError (InvalidStateTransitionError _ _)) = True"
| "transition_conflict _ = False"

fun expire_loop :: "int \<Rightarrow> draft list \<Rightarrow> nat \<Rightarrow> (repo, exn, nat) sx" where
  "expire_loop now [] count = sx_return count"
| "expire_loop now (dr # rest) count = (\<lambda>s.
     (case repo_cas now (d_draft_id dr) (d_revision dr) EXPIRED
             (Some ''Draft expired due to inactivity'') s of
        (Inr _, s') \<Rightarrow> expire_loop now rest (count + 1) s'
      | (Inl e, s') \<Rightarrow> if transition_conflict e then expire_loop now rest count s' else (Inl e, s')))"

definition expire_eligible_drafts :: "int \<Rightarrow> datetime \<Rightarrow> (repo, exn, nat) sx" where
  "expire_eligible_drafts now before =
     sx_bind (repo_list_expired before 100) (\<lambda>ds. expire_loop now ds 0)"

section \<open>Access control\<close>

lemma repo_get_by_id_Inr:
  "repo_get_by_id k s = (Inr r, s') \<longleftrightarrow> rp_initialized s \<and> load_draft (rp_db s) k = Inr r \<and> s' = s"
  by (auto simp: repo_get_by_id_def repo_run_Inr get_by_id_sync_def rbind_eq_Inr)

lemma repo_get_by_id_state: "snd (repo_get_by_id k s) = s"
  by (auto simp: repo_get_by_id_def repo_run_def get_by_id_sync_def rbind_def split: sum.splits prod.splits)

definition may_access :: "int option \<Rightarrow> int option \<Rightarrow> draft \<Rightarrow> bool" where
  "may_access actor chat dr \<longleftrightarrow>
     (case actor of None \<Rightarrow> True | Some a \<Rightarrow> d_owner_id dr = a) \<and>
     (case chat of None \<Rightarrow> True | Some c \<Rightarrow> d_chat_id dr = c)"

lemma get_draft_Inr:
  "get_draft k actor chat s = (Inr dr, s') \<longleftrightarrow>
     rp_initialized s \<and> load_draft (rp_db s) k = Inr (Some dr) \<and> may_access actor chat dr \<and> s' = s"
proof -
  have "(if (case actor of None \<Rightarrow> False | Some a \<Rightarrow> d_owner_id x \<noteq> a) then
              sx_raise (DomainError (DraftAccessDeniedError k (the actor) (case chat of None \<Rightarrow> 0 | Some c \<Rightarrow> c)))
            else if (case chat of None \<Rightarrow> False | Some c \<Rightarrow> d_chat_id x \<noteq> c) then
              sx_raise (DomainError (DraftAccessDeniedError k (case actor of None \<Rightarrow> 0 | Some a \<Rightarrow> a) (the chat)))
            else sx_return x) s = (Inr dr, s') \<longleftrightarrow> dr = x \<and> may_access actor chat x \<and> s' = s" for x
    by (cases actor; cases chat) (auto simp: may_access_def)
  note denied = this
  show ?thesis
  proof (cases "load_draft (rp_db s) k")
    case (Inl e)
    then show ?thesis by (simp add: get_draft_def sx_bind_eq_Inr repo_get_by_id_Inr)
  next
    case (Inr found)
    then show ?thesis
      using denied by (cases found) (auto simp add: get_draft_def sx_bind_eq_Inr repo_get_by_id_Inr)
  qed
qed

lemma get_draft_state: "snd (get_draft k actor chat s) = s"
  using repo_get_by_id_state[of k s]
  by (auto simp: get_draft_def sx_bind_def split: prod.splits sum.splits option.splits if_splits)

lemma bind_get_draft_denied:
  assumes "\<not> (\<exists>dr. load_draft (rp_db s) k = Inr (Some dr) \<and> may_access actor chat dr)"
  shows "\<exists>e. sx_bind (get_draft k actor chat) f s = (Inl e, s)"
proof (cases "get_draft k actor chat s")
  case (Pair r s')
  have "s' = s" using get_draft_state[of k actor chat s] Pair by simp
  moreover have "\<nexists>dr. r = Inr dr" using Pair assms by (auto simp: get_draft_Inr)
  ultimately show ?thesis using Pair by (cases r) (auto simp: sx_bind_def)
qed

text \<open>
  C5. Drafts are private to their owner and chat: unless the stored draft exists and belongs to the
  calling actor and chat, each of the editing use cases (template update, both toggles, cancellation)
  raises and leaves the repository exactly as it was.
\<close>

theorem editing_needs_ownership:
  assumes "\<not> (\<exists>dr. load_draft (rp_db s) k = Inr (Some dr) \<and> d_owner_id dr = owner \<and> d_chat_id dr = chat)"
  shows "(\<exists>e. update_template now k owner chat tpl rv s = (Inl e, s)) \<and>
         (\<exists>e. toggle_issue_type now k owner chat rv types s = (Inl e, s)) \<and>
         (\<exists>e. toggle_priority now k owner chat rv prios s = (Inl e, s)) \<and>
         (\<exists>e. cancel_draft now k owner chat rv s = (Inl e, s))"
proof -
  have "\<not> (\<exists>dr. load_draft (rp_db s) k = Inr (Some dr) \<and> may_access (Some owner) (Some chat) dr)"
    using assms by (simp add: may_access_def)
  from bind_get_draft_denied[OF this] show ?thesis
    unfolding update_template_def toggle_issue_type_def toggle_priority_def toggle_template_def
      cancel_draft_def by blast
qed

definition sample_template :: jira_template where
  "sample_template = \<lparr>jt_project_key = ''OPS'', jt_issue_type = ''Task'', jt_summary = ''s'',
     jt_description = ''d'', jt_priority = ''High'', jt_labels = [], jt_components = [], jt_assignee = [],
     jt_acceptance_criteria = []\<rparr>"

lemma load_sample:
  "1 \<le> rv \<Longrightarrow> load_draft (rp_db (sample_repo st rv)) ''d1'' =
     Inr (Some \<lparr>d_draft_id = ''d1'', d_owner_id = 7, d_chat_id = 7, d_thread_id = None, d_state = st,
       d_revision = rv, d_template = None, d_source_messages = [], d_attachments = [],
       d_created_at = Aware 10, d_updated_at = Aware 20, d_published_issue = None, d_last_error = None\<rparr>)"
  by (simp add: load_draft_def sample_repo_def sample_row_def empty_db_def find_workflow_def
      template_from_json_def from_db_datetime_def rbind_eq_Inr valid_draft_def)

theorem editing_needs_ownership_witness:
  "\<exists>e. cancel_draft 30 ''d1'' 8 7 4 (sample_repo REVIEW 4) = (Inl e, sample_repo REVIEW 4)"
proof -
  have "\<not> (\<exists>dr. load_draft (rp_db (sample_repo REVIEW 4)) ''d1'' = Inr (Some dr) \<and> d_owner_id dr = 8 \<and> d_chat_id dr = 7)"
    by (auto simp: load_sample)
  from editing_needs_ownership [OF this, of 30 sample_template 4 "[]" "[]"] show ?thesis by blast
qed

section \<open>Template edits\<close>

lemma bind_ensure_Inr:
  "sx_bind (sx_ensure b e) f s = (Inr x, s') \<longleftrightarrow> b \<and> f () s = (Inr x, s')"
  by (cases b) (simp_all add: sx_bind_def)

lemma repo_save_Inr:
  "repo_save dr e s = (Inr u, s') \<longleftrightarrow>
     (case e of None \<Rightarrow> True | Some t \<Rightarrow> tz_aware t) \<and> validate_safe_code (d_last_error dr) = Inr () \<and>
     rp_initialized s \<and> (\<exists>d. save_sync dr e (rp_db s) = Inr ((), d) \<and> s' = s\<lparr>rp_db := d\<rparr>)"
  by (cases e) (auto simp: repo_save_def bind_lift_Inr repo_run_Inr)

lemma load_draft_row:
  "load_draft d k = Inr (Some dr) \<Longrightarrow>
     \<exists>w. find_workflow d k = Some w \<and> w_state w = d_state dr \<and> w_revision w = d_revision dr \<and> d_draft_id dr = k"
  using load_draft_version[of d k dr] by (auto simp: version_def)

lemma update_template_result:
  assumes "update_template now k owner chat tpl rv s = (Inr dr', s')"
  shows "\<exists>dr. load_draft (rp_db s) k = Inr (Some dr) \<and> d_owner_id dr = owner \<and> d_chat_id dr = chat \<and>
           d_revision dr = rv \<and> d_state dr \<in> {COLLECTING, ANALYZING, REVIEW, EDITING} \<and>
           dr' = dr\<lparr>d_state := REVIEW, d_revision := rv + 1, d_template := Some tpl,
                     d_updated_at := Aware now, d_last_error := None\<rparr> \<and>
           version (rp_db s') k = Some (REVIEW, rv + 1)"
proof -
  from assms obtain dr d where load: "load_draft (rp_db s) k = Inr (Some dr)"
    and own: "may_access (Some owner) (Some chat) dr" and rv: "d_revision dr = rv"
    and dr': "dr' = dr\<lparr>d_state := REVIEW, d_revision := d_revision dr + 1, d_template := Some tpl,
           d_updated_at := Aware now, d_last_error := None\<rparr>"
    and save: "save_sync dr' None (rp_db s) = Inr ((), d)" and s': "s' = s\<lparr>rp_db := d\<rparr>"
    by (auto simp: update_template_def sx_bind_eq_Inr get_draft_Inr repo_save_Inr simp del: sx_bind_simps)
  from load_draft_row[OF load] obtain w where w: "find_workflow (rp_db s) k = Some w"
    "w_state w = d_state dr" "d_draft_id dr = k" by blast
  from save obtain "save_guard (Some w) dr' = Inr ()"
    by (rule save_sync_workflows) (simp add: dr' w(1,3))
  with w(2) dr' have "d_state dr = REVIEW \<or> is_transition_allowed (d_state dr) REVIEW"
    by (auto simp: save_guard_def split: if_splits)
  then have "d_state dr \<in> {COLLECTING, ANALYZING, REVIEW, EDITING}"
    by (cases "d_state dr") (simp_all add: is_transition_allowed_def)
  moreover have "version d k = Some (REVIEW, rv + 1)"
    using save_sync_version[OF save, of k] dr' w(3) rv by simp
  ultimately show ?thesis using load own rv dr' s' by (auto simp: may_access_def)
qed

text \<open>
  A template edit is applied to the version it was made for: if \<open>update_template\<close> returns, the stored
  draft belonged to the caller, had the expected revision and was in COLLECTING, ANALYZING, REVIEW or
  EDITING; the returned draft is that draft with the new template in REVIEW at the next revision, and
  that is the version now stored.  In particular an edit in SUBMISSION_RETRYABLE, which the
  service's own guard lets pass, never succeeds.
\<close>

theorem update_template_applies_to_expected_version:
  assumes "update_template now k owner chat tpl rv s = (Inr dr', s')"
  shows "\<exists>dr. load_draft (rp_db s) k = Inr (Some dr) \<and> d_owner_id dr = owner \<and> d_chat_id dr = chat \<and>
           d_revision dr = rv \<and> d_state dr \<in> {COLLECTING, ANALYZING, REVIEW, EDITING} \<and>
           dr' = dr\<lparr>d_state := REVIEW, d_revision := rv + 1, d_template := Some tpl,
                     d_updated_at := Aware now, d_last_error := None\<rparr> \<and>
           version (rp_db s') k = Some (REVIEW, rv + 1)"
  using assms by (rule update_template_result)

theorem update_template_applies_to_expected_version_witness:
  "\<exists>dr s'. update_template 30 ''d1'' 7 7 sample_template 4 (sample_repo EDITING 4) = (Inr dr, s') \<and>
     version (rp_db s') ''d1'' = Some (REVIEW, 5)"
proof -
  have "\<not> isl (fst (update_template 30 ''d1'' 7 7 sample_template 4 (sample_repo EDITING 4)))"
    by (simp add: update_template_def get_draft_def repo_get_by_id_def get_by_id_sync_def repo_run_def
        load_sample sx_bind_app draft_post_init_def repo_save_def validate_safe_code_def save_sync_def)
      (simp add: sample_repo_def find_workflow_def sample_row_def empty_db_def save_guard_def
        validate_transition_def is_transition_allowed_def save_workflow_row_def workflow_row_of_def
        to_db_datetime_def sql_update_def wf_check_def count_rows_def update_rows_def save_sources_def
        save_attachments_def save_published_def)
  then obtain dr s' where run: "update_template 30 ''d1'' 7 7 sample_template 4 (sample_repo EDITING 4) = (Inr dr, s')"
    using sum_result_Inr by blast
  from update_template_applies_to_expected_version [OF run] run show ?thesis by auto
qed

section \<open>Toggles\<close>

lemma index_of_lt: "x \<in> set xs \<Longrightarrow> index_of x xs < length xs \<and> xs ! index_of x xs = x"
  by (induction xs) auto

lemma index_of_nth: "distinct xs \<Longrightarrow> i < length xs \<Longrightarrow> index_of (xs ! i) xs = i"
proof (induction xs arbitrary: i)
  case (Cons y ys)
  then show ?case by (cases i) (auto simp: nth_mem)
qed simp

lemma next_value_nth:
  assumes "distinct xs" and "i < length xs"
  shows "(next_value xs fb ^^ n) (xs ! i) = xs ! ((i + n) mod length xs)"
proof (induction n)
  case 0
  then show ?case using assms(2) by simp
next
  case (Suc n)
  let ?j = "(i + n) mod length xs"
  have j: "?j < length xs" using assms(2) by (cases xs) simp_all
  then have "next_value xs fb (xs ! ?j) = xs ! ((?j + 1) mod length xs)"
    by (simp add: next_value_def index_of_nth[OF assms(1)])
  also have "(?j + 1) mod length xs = (i + Suc n) mod length xs" by (simp add: mod_Suc_eq)
  finally show ?case by (simp add: Suc)
qed

lemma toggle_template_result:
  assumes "toggle_template change now k owner chat rv s = (Inr dr', s')"
  shows "\<exists>dr tpl. load_draft (rp_db s) k = Inr (Some dr) \<and> d_template dr = Some tpl \<and>
           d_template dr' = Some (change tpl) \<and> d_state dr' = REVIEW \<and> d_revision dr' = rv + 1 \<and>
           version (rp_db s') k = Some (REVIEW, rv + 1)"
proof -
  from assms obtain dr tpl where load: "load_draft (rp_db s) k = Inr (Some dr)"
    and tpl: "d_template dr = Some tpl"
    and up: "update_template now k owner chat (change tpl) rv s = (Inr dr', s')"
    by (auto simp: toggle_template_def sx_bind_eq_Inr get_draft_Inr split: option.splits if_splits)
  from update_template_result[OF up] load tpl show ?thesis by auto
qed

text \<open>
  The toggles cycle: a successful toggle of the issue type changes only that field of the
  template, to the successor in the list of types, and advances the draft by one revision in REVIEW;
  for any list of distinct values, toggling as often as the list is long gives the first value back, and
  a value outside the list is replaced by the first of the list.
\<close>

theorem toggle_issue_type_cycles:
  assumes "toggle_issue_type now k owner chat rv types s = (Inr dr', s')" and "distinct types"
    and "types \<noteq> []"
  shows "(\<exists>dr tpl. load_draft (rp_db s) k = Inr (Some dr) \<and> d_template dr = Some tpl \<and>
           d_template dr' = Some (tpl\<lparr>jt_issue_type := next_value types ''Task'' (jt_issue_type tpl)\<rparr>) \<and>
           version (rp_db s') k = Some (REVIEW, rv + 1)) \<and>
         (t \<in> set types \<longrightarrow> (next_value types ''Task'' ^^ length types) t = t) \<and>
         (t \<notin> set types \<longrightarrow> next_value types ''Task'' t = hd types)"
proof -
  have "(next_value types ''Task'' ^^ length types) t = t" if "t \<in> set types"
  proof -
    from index_of_lt[OF that] have i: "index_of t types < length types" "types ! index_of t types = t" by simp_all
    from next_value_nth[OF assms(2) i(1), of "length types" "''Task''"] i show ?thesis by simp
  qed
  moreover have "t \<notin> set types \<longrightarrow> next_value types ''Task'' t = hd types"
    using assms(3) by (simp add: next_value_def)
  ultimately show ?thesis
    using toggle_template_result[OF assms(1)[unfolded toggle_issue_type_def]] by blast
qed

definition sample_review_repo :: repo where
  "sample_review_repo = \<lparr>rp_db = empty_db\<lparr>db_workflows :=
     [(sample_row REVIEW 4)\<lparr>w_template_json := template_to_json (Some sample_template)\<rparr>]\<rparr>, rp_initialized = True\<rparr>"

lemma load_review_sample:
  "load_draft (rp_db sample_review_repo) ''d1'' =
     Inr (Some \<lparr>d_draft_id = ''d1'', d_owner_id = 7, d_chat_id = 7, d_thread_id = None, d_state = REVIEW,
       d_revision = 4, d_template = Some sample_template, d_source_messages = [], d_attachments = [],
       d_created_at = Aware 10, d_updated_at = Aware 20, d_published_issue = None, d_last_error = None\<rparr>)"
  by (simp add: load_draft_def sample_review_repo_def sample_row_def empty_db_def find_workflow_def
      from_db_datetime_def rbind_eq_Inr valid_draft_def)

theorem toggle_issue_type_cycles_witness:
  "\<exists>dr s'. toggle_issue_type 30 ''d1'' 7 7 4 default_issue_types sample_review_repo = (Inr dr, s') \<and>
     version (rp_db s') ''d1'' = Some (REVIEW, 5) \<and>
     (next_value default_issue_types ''Task'' ^^ length default_issue_types) ''Bug'' = ''Bug''"
proof -
  have "\<not> isl (fst (toggle_issue_type 30 ''d1'' 7 7 4 default_issue_types sample_review_repo))"
    by (simp add: toggle_issue_type_def toggle_template_def update_template_def get_draft_def
        repo_get_by_id_def get_by_id_sync_def repo_run_def load_review_sample sx_bind_app
        draft_post_init_def repo_save_def validate_safe_code_def save_sync_def)
      (simp add: sample_review_repo_def find_workflow_def sample_row_def empty_db_def save_guard_def
        save_workflow_row_def workflow_row_of_def to_db_datetime_def sql_update_def wf_check_def
        count_rows_def update_rows_def save_sources_def save_attachments_def save_published_def)
  then obtain dr s' where run: "toggle_issue_type 30 ''d1'' 7 7 4 default_issue_types sample_review_repo = (Inr dr, s')"
    using sum_result_Inr by blast
  have "distinct default_issue_types" "default_issue_types \<noteq> []" "''Bug'' \<in> set default_issue_types"
    by (simp_all add: default_issue_types_def)
  with toggle_issue_type_cycles [OF run this(1,2), of "''Bug''"] run show ?thesis by auto
qed

section \<open>The expiry sweep\<close>

lemma sweep_code_refused:
  "validate_safe_code (Some ''Draft expired due to inactivity'') = Inl (ValueError ''must be a safe lowercase code'')"
  by (simp add: validate_safe_code_def safe_code_char_def is_lower_letter_def is_digit_def)

lemma sweep_step: "repo_cas now k rv EXPIRED (Some ''Draft expired due to inactivity'') s =
    (Inl (ValueError ''must be a safe lowercase code''), s)"
  by (simp add: repo_cas_def sweep_code_refused)

text \<open>
  The service's expiry sweep cannot expire anything: its error text is not a safe code, so
  \<open>expire_eligible_drafts\<close> raises \<open>ValueError\<close> as soon as one draft is due and returns 0 only when none
  is; it never changes the repository.  (The repository's own \<open>expire_eligible\<close> does the work.)
\<close>

theorem expire_eligible_drafts_inert:
  "expire_eligible_drafts now before s =
     (case fst (repo_list_expired before 100 s) of
        Inl e \<Rightarrow> (Inl e, s)
      | Inr [] \<Rightarrow> (Inr 0, s)
      | Inr (_ # _) \<Rightarrow> (Inl (ValueError ''must be a safe lowercase code''), s))"
proof -
  have "snd (repo_list_expired before 100 s) = s"
    by (auto simp: repo_list_expired_def sx_bind_def repo_run_def list_expired_sync_def rbind_def
        split: sum.splits prod.splits)
  then obtain r where r: "repo_list_expired before 100 s = (r, s)" by (metis prod.collapse)
  show ?thesis
  proof (cases r)
    case (Inr ds)
    with r show ?thesis by (cases ds) (simp_all add: expire_eligible_drafts_def sx_bind_def sweep_step)
  qed (simp add: r expire_eligible_drafts_def sx_bind_def)
qed

end
