(* ===== verification/Callback_Service.thy ===== *)
theory Callback_Service
  imports Workflow_Service
begin

text \<open>
  The callback service of \<open>src/src/dztgbot/services/callback_service.py\<close>: authorizing an inbound button
  press against the stored token and the current draft, consuming one-shot tokens, and issuing the
  buttons of a preview.  \<open>sha\<close> is the digest function, \<open>tok i\<close> the token \<open>secrets.token_hex\<close> returns for
  the \<open>i\<close>-th button of a call, \<open>now\<close> the clock reading.
\<close>

section \<open>Authorizing a press\<close>

record auth_result =
  ar_allowed :: bool
  ar_denial_code :: "denial_code option"
  ar_action :: "callback_action option"
  ar_draft :: "draft option"
  ar_record :: "callback_token_record option"
  ar_token_hash :: "string option"

definition result_deny ::
  "denial_code \<Rightarrow> callback_action option \<Rightarrow> draft option \<Rightarrow> callback_token_record option \<Rightarrow>
   string option \<Rightarrow> auth_result" where
  "result_deny code action dr r h = \<lparr>ar_allowed = False, ar_denial_code = Some code, ar_action = action,
     ar_draft = dr, ar_record = r, ar_token_hash = h\<rparr>"

definition result_allow ::
  "callback_action \<Rightarrow> draft \<Rightarrow> callback_token_record \<Rightarrow> string \<Rightarrow> auth_result" where
  "result_allow action dr r h = \<lparr>ar_allowed = True, ar_denial_code = None, ar_action = Some action,
     ar_draft = Some dr, ar_record = Some r, ar_token_hash = Some h\<rparr>"

definition denial_of :: "policy_decision \<Rightarrow> denial_code \<Rightarrow> denial_code" where
  "denial_of d fallback = (case d of Allow \<Rightarrow> fallback | Deny c \<Rightarrow> c)"

text \<open>The part of \<open>authorize\<close> after the record was found.\<close>

definition authorize_record ::
  "(string \<Rightarrow> string) \<Rightarrow> int \<Rightarrow> parsed_callback \<Rightarrow> string \<Rightarrow> callback_token_record \<Rightarrow> int \<Rightarrow> int \<Rightarrow> string \<Rightarrow>
   int option \<Rightarrow> int option \<Rightarrow> (repo, exn, auth_result) sx" where
  "authorize_record sha now p h r actor chat chat_type thread preview =
     sx_bind (repo_get_by_id (ct_draft_id r)) (\<lambda>dr.
     sx_bind (sx_lift (auth_input_post_init
        \<lparr>ai_actor_user_id = actor, ai_chat_id = chat, ai_chat_type = chat_type,
         ai_message_thread_id = thread, ai_preview_message_id = preview, ai_action = pc_action p,
         ai_opaque_token = pc_opaque_token p, ai_now = Aware now\<rparr>)) (\<lambda>req.
     (let decision = authorize_callback sha req (Some r) (map_option d_revision dr)
            (map_option (\<lambda>d. state_value (d_state d)) dr) in
      if \<not> decision_allowed decision then
        sx_return (result_deny (denial_of decision DC_DENIED) (Some (pc_action p)) dr (Some r) (Some h))
      else (case dr of
          None \<Rightarrow> sx_return (result_deny DC_UNKNOWN_TOKEN (Some (pc_action p)) None (Some r) (Some h))
        | Some d \<Rightarrow>
            if ct_one_shot r \<or> default_one_shot (pc_action p) then
              sx_bind (repo_consume_callback h (Aware now)) (\<lambda>consumed.
                if \<not> consumed then
                  sx_return (result_deny DC_TOKEN_CONSUMED (Some (pc_action p)) (Some d) (Some r) (Some h))
                else sx_return (result_allow (pc_action p) d r h))
            else sx_return (result_allow (pc_action p) d r h)))))"

definition authorize ::
  "(string \<Rightarrow> string) \<Rightarrow> int \<Rightarrow> string option \<Rightarrow> int \<Rightarrow> int \<Rightarrow> string \<Rightarrow> int option \<Rightarrow> int option \<Rightarrow>
   (repo, exn, auth_result) sx" where
  "authorize sha now raw actor chat chat_type thread preview =
     (let private = require_private_chat (Some chat_type) in
      if \<not> decision_allowed private then
        sx_return (result_deny (denial_of private DC_NOT_PRIVATE_CHAT) None None None None)
      else (case parse_callback_data raw of
          Inl _ \<Rightarrow> sx_return (result_deny DC_MALFORMED_CALLBACK None None None None)
        | Inr p \<Rightarrow>
            (case hash_opaque_token sha (pc_opaque_token p) of
               Inl _ \<Rightarrow> sx_return (result_deny DC_MALFORMED_CALLBACK None None None None)
             | Inr h \<Rightarrow>
                 sx_bind (repo_get_callback h) (\<lambda>found.
                 (case found of
                    None \<Rightarrow> sx_return (result_deny DC_UNKNOWN_TOKEN (Some (pc_action p)) None None (Some h))
                  | Some r \<Rightarrow> authorize_record sha now p h r actor chat chat_type thread preview)))))"

definition invalidate_preview_tokens :: "int \<Rightarrow> string \<Rightarrow> (repo, exn, nat) sx" where
  "invalidate_preview_tokens now k = repo_invalidate_tokens k (Aware now)"

definition on_preview_revision_committed :: "int \<Rightarrow> string \<Rightarrow> (repo, exn, nat) sx" where
  "on_preview_revision_committed now k = invalidate_preview_tokens now k"

section \<open>Issuing buttons\<close>

record issued_button =
  ib_action :: callback_action
  ib_callback_data :: string
  ib_token_hash :: string
  ib_record :: callback_token_record

text \<open>\<open>timedelta(hours=1)\<close> in microseconds.\<close>

definition DEFAULT_PREVIEW_TOKEN_TTL :: int where
  "DEFAULT_PREVIEW_TOKEN_TTL = 60 * 60 * 1000000"

text \<open>\<open>issued[action] = button\<close> on a dictionary kept as the list of its values in insertion order.\<close>

fun dict_set :: "issued_button \<Rightarrow> issued_button list \<Rightarrow> issued_button list" where
  "dict_set b [] = [b]"
| "dict_set b (x # xs) = (if ib_action x = ib_action b then b # xs else x # dict_set b xs)"

fun issue_loop ::
  "(string \<Rightarrow> string) \<Rightarrow> (nat \<Rightarrow> string) \<Rightarrow> draft \<Rightarrow> datetime \<Rightarrow> int option \<Rightarrow> int \<Rightarrow> callback_action list \<Rightarrow> nat \<Rightarrow>
   issued_button list \<Rightarrow> (repo, exn, issued_button list) sx" where
  "issue_loop sha tok dr expires thread preview [] i issued = sx_return issued"
| "issue_loop sha tok dr expires thread preview (action # rest) i issued =
     sx_bind (sx_lift (generate_opaque_token (\<lambda>_. tok i) OPAQUE_TOKEN_BYTES)) (\<lambda>opaque.
     sx_bind (sx_lift (build_token_record sha opaque (d_draft_id dr) (d_owner_id dr) (d_chat_id dr) action
                (d_revision dr) (state_value (d_state dr)) expires thread (Some preview) None)) (\<lambda>r.
     sx_bind (repo_store_callback r) (\<lambda>_.
     sx_bind (sx_lift (encode_callback_data (action_value action) opaque)) (\<lambda>data.
       issue_loop sha tok dr expires thread preview rest (Suc i)
         (dict_set \<lparr>ib_action = action, ib_callback_data = data, ib_token_hash = ct_token_hash r,
                    ib_record = r\<rparr> issued)))))"

definition issue_preview_buttons ::
  "(string \<Rightarrow> string) \<Rightarrow> (nat \<Rightarrow> string) \<Rightarrow> int \<Rightarrow> draft \<Rightarrow> callback_action list \<Rightarrow> int \<Rightarrow> int option \<Rightarrow>
   int option \<Rightarrow> bool \<Rightarrow> (repo, exn, issued_button list) sx" where
  "issue_preview_buttons sha tok now dr actions preview thread ttl invalidate_previous =
     sx_bind (sx_ensure (0 < preview) (ValueError ''preview_message_id must be positive'')) (\<lambda>_.
     sx_bind (sx_ensure (actions \<noteq> []) (ValueError ''actions must not be empty'')) (\<lambda>_.
     sx_bind (if invalidate_previous
              then sx_bind (repo_invalidate_tokens (d_draft_id dr) (Aware now)) (\<lambda>_. sx_return ())
              else sx_return ()) (\<lambda>_.
     (let expires = Aware (now + (case ttl of None \<Rightarrow> DEFAULT_PREVIEW_TOKEN_TTL | Some t \<Rightarrow> t));
          thread_id = (case thread of None \<Rightarrow> d_thread_id dr | Some t \<Rightarrow> Some t)
      in issue_loop sha tok dr expires thread_id preview actions 0 []))))"

section \<open>What an allowed press proves\<close>

lemma authorize_record_allowed:
  assumes "authorize_record sha now p h r actor chat ct thread preview s = (Inr res, s')" and "ar_allowed res"
  shows "\<exists>dr. load_draft (rp_db s) (ct_draft_id r) = Inr (Some dr) \<and>
           ar_draft res = Some dr \<and> ar_record res = Some r \<and> ar_token_hash res = Some h \<and>
           authorize_callback sha \<lparr>ai_actor_user_id = actor, ai_chat_id = chat, ai_chat_type = ct,
             ai_message_thread_id = thread, ai_preview_message_id = preview, ai_action = pc_action p,
             ai_opaque_token = pc_opaque_token p, ai_now = Aware now\<rparr> (Some r) (Some (d_revision dr))
             (Some (state_value (d_state dr))) = Allow \<and>
           (if ct_one_shot r \<or> default_one_shot (pc_action p)
            then repo_consume_callback h (Aware now) s = (Inr True, s') else s' = s)"
  using assms
  by (auto simp: authorize_record_def sx_bind_eq_Inr repo_get_by_id_Inr Let_def decision_allowed_def
      auth_input_post_init_def result_deny_def result_allow_def split: if_splits option.splits
      simp del: sx_bind_simps)

lemma authorize_allowed:
  assumes "authorize sha now raw actor chat ct thread preview s = (Inr res, s')" and "ar_allowed res"
  shows "\<exists>p r. parse_callback_data raw = Inr p \<and> opaque_token_ok (pc_opaque_token p) \<and>
           repo_get_callback (sha (pc_opaque_token p)) s = (Inr (Some r), s) \<and>
           authorize_record sha now p (sha (pc_opaque_token p)) r actor chat ct thread preview s = (Inr res, s')"
  using assms
  by (auto simp: authorize_def Let_def hash_opaque_token_def sx_bind_eq_Inr result_deny_def
      split: if_splits sum.splits option.splits dest: get_callback_row simp del: sx_bind_simps)

lemma allowed_press_facts:
  assumes ok: "db_ok (rp_db s)"
    and press: "authorize sha now raw actor chat ct thread preview s = (Inr res, s')" and "ar_allowed res"
  shows "\<exists>p r dr. parse_callback_data raw = Inr p \<and> r \<in> set (db_callbacks (rp_db s)) \<and>
           ct_token_hash r = sha (pc_opaque_token p) \<and> ct_action r = pc_action p \<and>
           ct_owner_user_id r = actor \<and> ct_chat_id r = chat \<and> ct_consumed_at r = None \<and>
           now < dt_instant (ct_expires_at r) \<and>
           load_draft (rp_db s) (ct_draft_id r) = Inr (Some dr) \<and> ar_draft res = Some dr \<and>
           d_revision dr = ct_expected_revision r \<and> state_value (d_state dr) = ct_expected_state r \<and>
           (ct_one_shot r \<or> default_one_shot (pc_action p) \<longrightarrow>
              spent_token (sha (pc_opaque_token p)) (rp_db s')) \<and>
           (\<not> ct_one_shot r \<and> \<not> default_one_shot (pc_action p) \<longrightarrow> s' = s)"
proof -
  from authorize_allowed[OF press assms(3)] obtain p r where p: "parse_callback_data raw = Inr p"
    and get: "repo_get_callback (sha (pc_opaque_token p)) s = (Inr (Some r), s)"
    and rec: "authorize_record sha now p (sha (pc_opaque_token p)) r actor chat ct thread preview s = (Inr res, s')"
    by blast
  from authorize_record_allowed[OF rec assms(3)] obtain dr where
    dr: "load_draft (rp_db s) (ct_draft_id r) = Inr (Some dr)" "ar_draft res = Some dr"
    and allow: "authorize_callback sha \<lparr>ai_actor_user_id = actor, ai_chat_id = chat, ai_chat_type = ct,
             ai_message_thread_id = thread, ai_preview_message_id = preview, ai_action = pc_action p,
             ai_opaque_token = pc_opaque_token p, ai_now = Aware now\<rparr> (Some r) (Some (d_revision dr))
             (Some (state_value (d_state dr))) = Allow"
    and consume: "if ct_one_shot r \<or> default_one_shot (pc_action p)
            then repo_consume_callback (sha (pc_opaque_token p)) (Aware now) s = (Inr True, s') else s' = s"
    by blast
  have "ct_one_shot r \<or> default_one_shot (pc_action p) \<longrightarrow> spent_token (sha (pc_opaque_token p)) (rp_db s')"
    using consume by (auto intro: tokens.consume_spends[OF ok])
  with allow dr p consume get_callback_row[OF get] show ?thesis
    by (auto simp: authorize_callback_allow_cases split: if_splits)
qed

text \<open>
  An authorized press is bound and, for a one-shot action, spent: if \<open>authorize\<close> allows a press then
  its payload parses, a record with the hash of its token is stored, unexpired and unconsumed, and
  names this action, actor and chat; the draft it returns is the stored one and still has the
  revision and state the button was rendered for; and a one-shot token is spent in the
  repository it leaves.
\<close>

theorem authorized_press_bound:
  assumes "db_ok (rp_db s)"
    and "authorize sha now raw actor chat ct thread preview s = (Inr res, s')" and "ar_allowed res"
  shows "\<exists>p r dr. parse_callback_data raw = Inr p \<and> r \<in> set (db_callbacks (rp_db s)) \<and>
           ct_token_hash r = sha (pc_opaque_token p) \<and> ct_action r = pc_action p \<and>
           ct_owner_user_id r = actor \<and> ct_chat_id r = chat \<and> ct_consumed_at r = None \<and>
           now < dt_instant (ct_expires_at r) \<and>
           load_draft (rp_db s) (ct_draft_id r) = Inr (Some dr) \<and> ar_draft res = Some dr \<and>
           d_revision dr = ct_expected_revision r \<and> state_value (d_state dr) = ct_expected_state r \<and>
           (ct_one_shot r \<or> default_one_shot (pc_action p) \<longrightarrow>
              spent_token (sha (pc_opaque_token p)) (rp_db s')) \<and>
           (\<not> ct_one_shot r \<and> \<not> default_one_shot (pc_action p) \<longrightarrow> s' = s)"
  using assms by (rule allowed_press_facts)

definition sample_press :: "(repo, exn, auth_result) sx" where
  "sample_press = authorize (\<lambda>_. sample_hash) 50 (Some (wire A_CONFIRM sample_token)) 7 7 ''private'' None (Some 9)"

lemma sample_get: "repo_get_callback sample_hash sample_token_repo = (Inr (Some sample_record), sample_token_repo)"
proof -
  have "valid_token_record sample_record"
    by (simp add: valid_token_record_def sample_record_def sample_hash_def TOKEN_HASH_HEX_LENGTH_def
        is_lower_hex_def list_all_iff)
  then show ?thesis
    by (simp add: repo_get_callback_def repo_run_Inr get_callback_sync_def sample_token_repo_def rbind_eq_Inr)
      (simp add: sample_record_def)
qed

lemma sample_load_token:
  "repo_get_by_id ''d1'' sample_token_repo =
     (Inr (Some \<lparr>d_draft_id = ''d1'', d_owner_id = 7, d_chat_id = 7, d_thread_id = None, d_state = REVIEW,
       d_revision = 4, d_template = None, d_source_messages = [], d_attachments = [],
       d_created_at = Aware 10, d_updated_at = Aware 20, d_published_issue = None, d_last_error = None\<rparr>),
      sample_token_repo)"
  by (simp add: repo_get_by_id_Inr load_draft_def sample_token_repo_def sample_row_def empty_db_def
      find_workflow_def template_from_json_def from_db_datetime_def rbind_eq_Inr valid_draft_def)

lemma sample_consume:
  "\<exists>s'. repo_consume_callback sample_hash (Aware 50) sample_token_repo = (Inr True, s')"
  by (simp add: repo_consume_Inr sample_token_repo_def consumable_def sample_record_def count_rows_def)

lemma private_sample: "is_private_chat (Some ''private'')"
  unfolding is_private_chat_def by simp code_simp

lemma sample_press_allowed: "\<exists>res s'. sample_press sample_token_repo = (Inr res, s') \<and> ar_allowed res"
proof -
  obtain s' where c: "repo_consume_callback sample_hash (Aware 50) sample_token_repo = (Inr True, s')"
    using sample_consume by blast
  have fields: "ct_draft_id sample_record = ''d1''" "ct_token_hash sample_record = sample_hash"
    "ct_owner_user_id sample_record = 7" "ct_chat_id sample_record = 7" "ct_action sample_record = A_CONFIRM"
    "ct_message_thread_id sample_record = None" "ct_preview_message_id sample_record = Some 9"
    "ct_expected_revision sample_record = 4" "ct_expected_state sample_record = ''review''"
    "ct_expires_at sample_record = Aware 500" "ct_one_shot sample_record" "ct_consumed_at sample_record = None"
    by (simp_all add: sample_record_def)
  show ?thesis
    by (simp add: sample_press_def authorize_def require_private_chat_def private_sample parse_wire sample_token_ok
        hash_opaque_token_def sx_bind_app sample_get authorize_record_def fields sample_load_token
        auth_input_post_init_def authorize_callback_def c result_allow_def)
qed

theorem authorized_press_bound_witness:
  "\<exists>res s'. sample_press sample_token_repo = (Inr res, s') \<and> ar_allowed res \<and>
     (\<exists>dr. ar_draft res = Some dr \<and> load_draft (rp_db sample_token_repo) ''d1'' = Inr (Some dr))"
proof -
  obtain res s' where run: "sample_press sample_token_repo = (Inr res, s')" and a: "ar_allowed res"
    using sample_press_allowed by blast
  from authorized_press_bound [OF sample_token_repo_ok run[unfolded sample_press_def] a] run a
  show ?thesis by (auto simp: sample_token_repo_def sample_record_def)
qed

lemma spent_press_denied:
  assumes "parse_callback_data raw = Inr p" and "spent_token (sha (pc_opaque_token p)) (rp_db s)"
    and "db_ok (rp_db s)" and "authorize sha now raw actor chat ct thread preview s = (Inr res, s')"
  shows "\<not> ar_allowed res"
proof
  assume "ar_allowed res"
  from allowed_press_facts[OF assms(3,4) this] assms(1,2) show False
    by (auto simp: spent_token_def)
qed

lemma authorize_allowed_ok:
  assumes "db_ok (rp_db s)"
    and "authorize sha now raw actor chat ct thread preview s = (Inr res, s')" and "ar_allowed res"
  shows "db_ok (rp_db s')"
proof -
  from authorize_allowed[OF assms(2,3)] authorize_record_allowed[OF _ assms(3)]
  have "s' = s \<or> (\<exists>h. repo_consume_callback h (Aware now) s = (Inr True, s'))" by (metis (no_types, lifting))
  then show ?thesis
    using assms(1) consume_callback_sync_ok
    by (auto simp: repo_consume_callback_def bind_lift_Inr repo_run_Inr)
qed

text \<open>
  C6. No replay: once a press with a one-shot action has been authorized, no press with the same
  payload is ever authorized again, by any actor, in any chat, at any time, whatever operations run
  in between (short of storing a new record under the same digest).
\<close>

theorem one_shot_replay_denied:
  assumes "db_ok (rp_db s)"
    and "authorize sha now raw actor chat ct thread preview s = (Inr res, s')" and "ar_allowed res"
    and "parse_callback_data raw = Inr p" and "default_one_shot (pc_action p)"
    and "list_all (\<lambda>op. \<not> issues_token (sha (pc_opaque_token p)) op) ops"
  shows "\<not> (\<exists>res2 s2. authorize sha now2 raw actor2 chat2 ct2 thread2 preview2 (exec_ops ops s') = (Inr res2, s2) \<and>
              ar_allowed res2)"
proof -
  have "spent_token (sha (pc_opaque_token p)) (rp_db s')"
    using allowed_press_facts[OF assms(1-3)] assms(4,5) by auto
  then have "spent_token (sha (pc_opaque_token p)) (rp_db (exec_ops ops s'))"
    by (rule tokens.spent_forever[OF exec_ops_env[OF assms(6)]])
  moreover have "db_ok (rp_db (exec_ops ops s'))" by (rule exec_ops_ok[OF authorize_allowed_ok[OF assms(1-3)]])
  ultimately show ?thesis using spent_press_denied[OF assms(4)] by blast
qed

theorem one_shot_replay_denied_witness:
  "\<exists>res s'. sample_press sample_token_repo = (Inr res, s') \<and> ar_allowed res \<and>
     \<not> (\<exists>res2 s2. sample_press (exec_ops [OpCas 55 ''d1'' 4 SUBMITTING None] s') = (Inr res2, s2) \<and>
          ar_allowed res2)"
proof -
  obtain res s' where run: "sample_press sample_token_repo = (Inr res, s')" and a: "ar_allowed res"
    using sample_press_allowed by blast
  have "default_one_shot (pc_action \<lparr>pc_version = CALLBACK_VERSION, pc_action = A_CONFIRM,
      pc_opaque_token = sample_token\<rparr>)" by (simp add: default_one_shot_def ONE_SHOT_ACTIONS_def)
  from one_shot_replay_denied [OF sample_token_repo_ok run[unfolded sample_press_def] a
      parse_wire[OF sample_token_ok] this, of "[OpCas 55 ''d1'' 4 SUBMITTING None]"] run a
  show ?thesis by (auto simp: sample_press_def)
qed

section \<open>Issued buttons work\<close>

lemma load_draft_callbacks [simp]: "load_draft (d\<lparr>db_callbacks := rows\<rparr>) k = load_draft d k"
  by (cases "find_workflow d k") (simp_all add: load_draft_def find_workflow_def Let_def)

text \<open>A button as \<open>issue_preview_buttons\<close> means it, with its record in the store.\<close>

definition button_for ::
  "(string \<Rightarrow> string) \<Rightarrow> draft \<Rightarrow> datetime \<Rightarrow> int option \<Rightarrow> int \<Rightarrow> callback_token_record list \<Rightarrow> issued_button \<Rightarrow> bool" where
  "button_for sha dr expires thread preview rows b \<longleftrightarrow>
     (\<exists>opaque. opaque_token_ok opaque \<and> ib_callback_data b = wire (ib_action b) opaque \<and>
        ct_token_hash (ib_record b) = sha opaque) \<and>
     ib_record b \<in> set rows \<and> valid_token_record (ib_record b) \<and> ct_action (ib_record b) = ib_action b \<and>
     ct_draft_id (ib_record b) = d_draft_id dr \<and> ct_owner_user_id (ib_record b) = d_owner_id dr \<and>
     ct_chat_id (ib_record b) = d_chat_id dr \<and> ct_message_thread_id (ib_record b) = thread \<and>
     ct_preview_message_id (ib_record b) = Some preview \<and> ct_expected_revision (ib_record b) = d_revision dr \<and>
     ct_expected_state (ib_record b) = state_value (d_state dr) \<and> ct_expires_at (ib_record b) = expires \<and>
     ct_one_shot (ib_record b) = default_one_shot (ib_action b) \<and> ct_consumed_at (ib_record b) = None"

lemma dict_set_mem: "x \<in> set (dict_set b xs) \<Longrightarrow> x = b \<or> x \<in> set xs"
  by (induction b xs rule: dict_set.induct) (auto split: if_splits)

lemma button_for_mono:
  "set rows \<subseteq> set rows' \<Longrightarrow> button_for sha dr e th pv rows b \<Longrightarrow> button_for sha dr e th pv rows' b"
  by (auto simp: button_for_def)

lemma repo_store_callback_Inr:
  "repo_store_callback r s = (Inr u, s') \<Longrightarrow>
     \<exists>rows. sql_insert cb_check cb_clash r (db_callbacks (rp_db s)) = Inr rows \<and> rp_initialized s \<and>
       s' = s\<lparr>rp_db := (rp_db s)\<lparr>db_callbacks := rows\<rparr>\<rparr>"
  by (auto simp: repo_store_callback_def repo_run_Inr elim: store_callback_commit)

lemma issue_loop_result:
  assumes "issue_loop sha tok dr e th pv actions i issued s = (Inr bs, s')"
    and "\<forall>b \<in> set issued. button_for sha dr e th pv (db_callbacks (rp_db s)) b" and "db_ok (rp_db s)"
  shows "(\<forall>b \<in> set bs. button_for sha dr e th pv (db_callbacks (rp_db s')) b) \<and> db_ok (rp_db s') \<and>
         rp_initialized s' = rp_initialized s \<and>
         (\<exists>rows. rp_db s' = (rp_db s)\<lparr>db_callbacks := rows\<rparr>)"
  using assms
proof (induction actions arbitrary: i issued s)
  case Nil
  then show ?case by (auto intro: exI[of _ "db_callbacks (rp_db s)"])
next
  case (Cons a rest)
  from Cons.prems(1) obtain r data s1 where
    build: "build_token_record sha (tok i) (d_draft_id dr) (d_owner_id dr) (d_chat_id dr) a (d_revision dr)
              (state_value (d_state dr)) e th (Some pv) None = Inr r"
    and store: "repo_store_callback r s = (Inr (), s1)"
    and enc: "encode_callback_data (action_value a) (tok i) = Inr data"
    and loop: "issue_loop sha tok dr e th pv rest (Suc i)
        (dict_set \<lparr>ib_action = a, ib_callback_data = data, ib_token_hash = ct_token_hash r, ib_record = r\<rparr> issued)
        s1 = (Inr bs, s')"
    by (auto simp: sx_bind_eq_Inr generate_opaque_token_def simp del: sx_bind_simps split: if_splits)
  let ?b = "\<lparr>ib_action = a, ib_callback_data = data, ib_token_hash = ct_token_hash r, ib_record = r\<rparr>"
  from repo_store_callback_Inr[OF store] obtain rows
    where ins: "sql_insert cb_check cb_clash r (db_callbacks (rp_db s)) = Inr rows"
      and s1: "s1 = s\<lparr>rp_db := (rp_db s)\<lparr>db_callbacks := rows\<rparr>\<rparr>" by blast
  then have rows: "db_callbacks (rp_db s1) = db_callbacks (rp_db s) @ [r]" by (simp add: sql_insert_Inr)
  have new: "button_for sha dr e th pv (db_callbacks (rp_db s1)) ?b"
    using build enc by (auto simp: button_for_def rows build_token_record_def rbind_eq_Inr hash_opaque_token_def
        encode_wire split: if_splits)
  have "\<forall>b \<in> set issued. button_for sha dr e th pv (db_callbacks (rp_db s1)) b"
    using Cons.prems(2) by (auto simp: rows intro: button_for_mono[rotated])
  with new have all: "\<forall>b \<in> set (dict_set ?b issued). button_for sha dr e th pv (db_callbacks (rp_db s1)) b"
    by (auto dest: dict_set_mem)
  have "db_ok (rp_db s1)"
    using store Cons.prems(3) store_callback_sync_ok by (auto simp: repo_store_callback_def repo_run_Inr)
  from Cons.IH[OF loop all this] s1 show ?case by auto
qed

lemma issue_loop_initialized:
  "issue_loop sha tok dr e th pv actions i issued s = (Inr bs, s') \<Longrightarrow> actions \<noteq> [] \<Longrightarrow> rp_initialized s"
  by (cases actions) (auto simp: sx_bind_eq_Inr simp del: sx_bind_simps dest: repo_store_callback_Inr)

lemma issue_buttons_result:
  assumes "issue_preview_buttons sha tok now dr actions pv thread ttl invp s = (Inr bs, s')" and "db_ok (rp_db s)"
  shows "(\<forall>b \<in> set bs. button_for sha dr
             (Aware (now + (case ttl of None \<Rightarrow> DEFAULT_PREVIEW_TOKEN_TTL | Some t \<Rightarrow> t)))
             (case thread of None \<Rightarrow> d_thread_id dr | Some t \<Rightarrow> Some t) pv (db_callbacks (rp_db s')) b) \<and>
         db_ok (rp_db s') \<and> rp_initialized s' \<and> (\<exists>rows. rp_db s' = (rp_db s)\<lparr>db_callbacks := rows\<rparr>)"
proof -
  have ne: "actions \<noteq> []"
    using assms(1) by (auto simp: issue_preview_buttons_def sx_bind_eq_Inr simp del: sx_bind_simps)
  let ?loop = "issue_loop sha tok dr (Aware (now + (case ttl of None \<Rightarrow> DEFAULT_PREVIEW_TOKEN_TTL | Some t \<Rightarrow> t)))
    (case thread of None \<Rightarrow> d_thread_id dr | Some t \<Rightarrow> Some t) pv actions 0 []"
  have "\<exists>s1. ?loop s1 = (Inr bs, s') \<and> db_ok (rp_db s1) \<and> (\<exists>rows. rp_db s1 = (rp_db s)\<lparr>db_callbacks := rows\<rparr>)"
  proof (cases invp)
    case True
    with assms(1) obtain n s1 where "repo_invalidate_tokens (d_draft_id dr) (Aware now) s = (Inr n, s1)"
      and loop: "?loop s1 = (Inr bs, s')"
      by (auto simp: issue_preview_buttons_def sx_bind_eq_Inr Let_def simp del: sx_bind_simps)
    then obtain d where d: "invalidate_tokens_sync (d_draft_id dr) (Aware now) (rp_db s) = Inr (n, d)"
      "rp_db s1 = d"
      by (auto simp: repo_invalidate_tokens_def bind_ensure_Inr bind_lift_Inr repo_run_Inr)
    from d(1) have "d = (rp_db s)\<lparr>db_callbacks := update_rows (active_token (d_draft_id dr) (Aware now))
        (\<lambda>r. r\<lparr>ct_expires_at := Aware now\<rparr>) (db_callbacks (rp_db s))\<rparr>"
      by (auto simp: invalidate_tokens_sync_def rbind_eq_Inr)
    with d(2) have "\<exists>rows. rp_db s1 = (rp_db s)\<lparr>db_callbacks := rows\<rparr>" by blast
    with loop d invalidate_tokens_sync_ok[OF assms(2) d(1)] show ?thesis by blast
  next
    case False
    with assms(1) have "?loop s = (Inr bs, s')"
      by (auto simp: issue_preview_buttons_def sx_bind_eq_Inr Let_def simp del: sx_bind_simps)
    moreover have "rp_db s = (rp_db s)\<lparr>db_callbacks := db_callbacks (rp_db s)\<rparr>" by simp
    ultimately show ?thesis using assms(2) by blast
  qed
  then obtain s1 rows where 1: "?loop s1 = (Inr bs, s')" "db_ok (rp_db s1)" "rp_db s1 = (rp_db s)\<lparr>db_callbacks := rows\<rparr>"
    by blast
  from issue_loop_result[OF 1(1) _ 1(2)] 1(3) issue_loop_initialized[OF 1(1) ne] show ?thesis by auto
qed

lemma button_press_allowed:
  assumes ok: "db_ok (rp_db s)" and init: "rp_initialized s"
    and b: "button_for sha dr e thread pv (db_callbacks (rp_db s)) b"
    and load: "load_draft (rp_db s) (d_draft_id dr) = Inr (Some dr)" and time: "now < dt_instant e"
  shows "\<exists>res s2. authorize sha now (Some (ib_callback_data b)) (d_owner_id dr) (d_chat_id dr) ''private'' thread
           (Some pv) s = (Inr res, s2) \<and> ar_allowed res \<and> ar_action res = Some (ib_action b)"
proof -
  let ?r = "ib_record b"
  from b obtain opaque where tok: "opaque_token_ok opaque" "ib_callback_data b = wire (ib_action b) opaque"
    "ct_token_hash ?r = sha opaque" by (auto simp: button_for_def)
  have r: "?r \<in> set (db_callbacks (rp_db s))" "valid_token_record ?r" "ct_action ?r = ib_action b"
    "ct_draft_id ?r = d_draft_id dr" "ct_owner_user_id ?r = d_owner_id dr" "ct_chat_id ?r = d_chat_id dr"
    "ct_message_thread_id ?r = thread" "ct_preview_message_id ?r = Some pv"
    "ct_expected_revision ?r = d_revision dr" "ct_expected_state ?r = state_value (d_state dr)"
    "ct_expires_at ?r = e" "ct_one_shot ?r = default_one_shot (ib_action b)" "ct_consumed_at ?r = None"
    using b by (simp_all add: button_for_def)
  have find: "find_row ct_token_hash (sha opaque) (db_callbacks (rp_db s)) = Some ?r"
    using cb.ok_find[OF db_ok_tables(5)[OF ok] r(1)] tok(3) by simp
  have "?r\<lparr>ct_expires_at := ct_expires_at ?r, ct_consumed_at := ct_consumed_at ?r\<rparr> = ?r" by (cases ?r) simp
  then have get: "repo_get_callback (sha opaque) s = (Inr (Some ?r), s)"
    using init r(2) find
    by (auto simp: repo_get_callback_def repo_run_Inr get_callback_sync_def rbind_eq_Inr valid_token_record_def)
  have dr: "repo_get_by_id (d_draft_id dr) s = (Inr (Some dr), s)"
    using init load by (simp add: repo_get_by_id_Inr)
  have "count_rows (\<lambda>x. ct_token_hash x = sha opaque \<and>
      (ct_one_shot x \<and> ct_consumed_at x = None \<and> now < dt_instant (ct_expires_at x))) (db_callbacks (rp_db s)) =
      (if default_one_shot (ib_action b) then 1 else 0)"
    using r time by (simp add: cb.ok_count[OF db_ok_tables(5)[OF ok]] find)
  then have consume: "default_one_shot (ib_action b) \<Longrightarrow>
      \<exists>s'. repo_consume_callback (sha opaque) (Aware now) s = (Inr True, s')"
    using init by (simp add: repo_consume_Inr consumable_def[abs_def] conj_assoc)
  have rec: "\<exists>s2. authorize_record sha now \<lparr>pc_version = CALLBACK_VERSION, pc_action = ib_action b,
      pc_opaque_token = opaque\<rparr> (sha opaque) ?r (d_owner_id dr) (d_chat_id dr) ''private'' thread (Some pv) s =
      (Inr (result_allow (ib_action b) dr ?r (sha opaque)), s2)"
    using consume r tok time
    by (cases "default_one_shot (ib_action b)")
      (auto simp: authorize_record_def sx_bind_app dr auth_input_post_init_def valid_token_record_def
        authorize_callback_def require_private_chat_def private_sample hash_opaque_token_def)
  then show ?thesis
    using tok get
    by (auto simp: authorize_def require_private_chat_def private_sample parse_wire hash_opaque_token_def
        sx_bind_app result_allow_def)
qed

text \<open>
  Issued buttons work: if \<open>issue_preview_buttons\<close> returns for a draft as it is stored, then pressing
  any of the returned buttons in the draft's private chat and thread, on the preview message it
  was issued for and before the time to live has passed, is authorized, with the action
  the button was issued for.
\<close>

theorem issued_button_is_authorized:
  assumes "db_ok (rp_db s)" and "load_draft (rp_db s) (d_draft_id dr) = Inr (Some dr)"
    and "issue_preview_buttons sha tok now dr actions pv thread ttl invp s = (Inr bs, s')" and "b \<in> set bs"
    and "now2 < now + (case ttl of None \<Rightarrow> DEFAULT_PREVIEW_TOKEN_TTL | Some t \<Rightarrow> t)"
  shows "\<exists>res s2. authorize sha now2 (Some (ib_callback_data b)) (d_owner_id dr) (d_chat_id dr) ''private''
           (case thread of None \<Rightarrow> d_thread_id dr | Some t \<Rightarrow> Some t) (Some pv) s' = (Inr res, s2) \<and>
           ar_allowed res \<and> ar_action res = Some (ib_action b)"
proof -
  from issue_buttons_result[OF assms(3,1)] assms(4) obtain rows where
    b: "button_for sha dr (Aware (now + (case ttl of None \<Rightarrow> DEFAULT_PREVIEW_TOKEN_TTL | Some t \<Rightarrow> t)))
             (case thread of None \<Rightarrow> d_thread_id dr | Some t \<Rightarrow> Some t) pv (db_callbacks (rp_db s')) b"
    and ok: "db_ok (rp_db s')" and init: "rp_initialized s'" and same: "rp_db s' = (rp_db s)\<lparr>db_callbacks := rows\<rparr>" by blast
  have "load_draft (rp_db s') (d_draft_id dr) = Inr (Some dr)" using assms(2) same by simp
  from button_press_allowed[OF ok init b this, of now2] assms(5) show ?thesis by simp
qed

theorem issued_button_is_authorized_witness:
  "\<exists>dr bs s' res s2. load_draft (rp_db sample_review_repo) ''d1'' = Inr (Some dr) \<and>
     issue_preview_buttons (\<lambda>t. t @ t) (\<lambda>_. sample_token) 100 dr [A_CONFIRM] 9 None None True sample_review_repo = (Inr bs, s') \<and>
     authorize (\<lambda>t. t @ t) 200 (Some (ib_callback_data (hd bs))) 7 7 ''private'' None (Some 9) s' = (Inr res, s2) \<and>
     ar_allowed res"
proof -
  let ?dr = "\<lparr>d_draft_id = ''d1'', d_owner_id = 7, d_chat_id = 7, d_thread_id = None, d_state = REVIEW,
       d_revision = 4, d_template = Some sample_template, d_source_messages = [], d_attachments = [],
       d_created_at = Aware 10, d_updated_at = Aware 20, d_published_issue = None, d_last_error = None\<rparr>"
  let ?issue = "issue_preview_buttons (\<lambda>t. t @ t) (\<lambda>_. sample_token) 100 ?dr [A_CONFIRM] 9 None None True sample_review_repo"
  have enc: "encode_callback_data ''cfm'' sample_token = Inr (wire A_CONFIRM sample_token)"
    using encode_wire[of A_CONFIRM sample_token] sample_token_ok by simp
  have hash: "length sample_token = 32" "list_all is_lower_hex sample_token"
    using sample_token_ok by (simp_all add: opaque_token_ok_def OPAQUE_TOKEN_HEX_LENGTH_def OPAQUE_TOKEN_BYTES_def)
  have "\<exists>b s'. ?issue = (Inr [b], s')"
    by (simp add: issue_preview_buttons_def sx_bind_app repo_invalidate_tokens_def validate_datetime_def
        repo_run_def invalidate_tokens_sync_def to_db_datetime_def Let_def generate_opaque_token_def
        build_token_record_def hash_opaque_token_def sample_token_ok token_record_post_init_def
        TOKEN_HASH_HEX_LENGTH_def hash repo_store_callback_def store_callback_sync_def enc)
      (simp add: sample_review_repo_def sample_row_def empty_db_def find_workflow_def opt_to_db_def
        to_db_datetime_def update_rows_def sql_insert_def cb_check_def hash all_states_def stored_actions_def
        draft_state_of_value_def)
  then obtain b s' where run: "?issue = (Inr [b], s')" by blast
  have ok: "db_ok (rp_db sample_review_repo)"
    by (simp add: sample_review_repo_def sample_row_def db_ok_def tables_ok_def children_ok_def empty_db_def
        table_ok_def wf_check_def)
  have load: "load_draft (rp_db sample_review_repo) (d_draft_id ?dr) = Inr (Some ?dr)"
    using load_review_sample by simp
  have "b \<in> set [b]" and "(200::int) < 100 + (case None of None \<Rightarrow> DEFAULT_PREVIEW_TOKEN_TTL | Some t \<Rightarrow> t)"
    by (simp_all add: DEFAULT_PREVIEW_TOKEN_TTL_def)
  from issued_button_is_authorized [OF ok load run this] run load_review_sample show ?thesis
    by (fastforce simp del: not_None_eq)
qed

end
