(* ===== verification/Submission.thy ===== *)
theory Submission
  imports Workflow_Service
begin

text \<open>
  The submission service of \<open>src/src/dztgbot/services/submission_service.py\<close>: creating and updating a
  Jira issue around a durable attempt claim, and the recovery paths.  The Jira gateway is a record of
  functions; each receives the number of gateway calls made so far, so that equal requests may be
  answered differently.  The world is the repository and the log of the calls that were
  dispatched, each with the durable database at that moment: what a crash during the call leaves.  \<open>doc_hash\<close> is the SHA-256 of the sorted compact JSON text of a document, \<open>aid\<close> the
  fresh attempt identifier, \<open>now\<close> the clock reading of the call.
\<close>

section \<open>Canonical documents\<close>

definition join_lines :: "string list \<Rightarrow> string" where
  "join_lines ls = (case ls of [] \<Rightarrow> [] | l # rest \<Rightarrow> l @ concat (map (\<lambda>x. CHR 0x0A # x) rest))"

definition canonical_description :: "jira_template \<Rightarrow> string" where
  "canonical_description t =
     (if jt_acceptance_criteria t = [] then jt_description t
      else jt_description t @ [CHR 0x0A, CHR 0x0A] @ ''Acceptance Criteria:'' @ [CHR 0x0A] @
           join_lines (map (\<lambda>c. ''* '' @ c) (jt_acceptance_criteria t)))"

definition canonical_fields :: "jira_template \<Rightarrow> (string \<times> json) list" where
  "canonical_fields t =
     [(''project'', JObj [(''key'', JStr (jt_project_key t))]),
      (''issuetype'', JObj [(''name'', JStr (jt_issue_type t))]),
      (''summary'', JStr (jt_summary t)),
      (''description'', JStr (canonical_description t)),
      (''priority'', JObj [(''name'', JStr (jt_priority t))]),
      (''labels'', JArr (map JStr (jt_labels t))),
      (''components'', JArr (map (\<lambda>v. JObj [(''name'', JStr v)]) (jt_components t)))] @
     (if jt_assignee t \<noteq> [] then [(''assignee'', JObj [(''name'', JStr (jt_assignee t))])] else [])"

definition canonical_template_document :: "jira_template \<Rightarrow> json" where
  "canonical_template_document t = JObj (canonical_fields t)"

definition canonical_request_hash :: "(json \<Rightarrow> string) \<Rightarrow> jira_template \<Rightarrow> string" where
  "canonical_request_hash doc_hash t = doc_hash (canonical_template_document t)"

definition complete_template_diff :: "jira_template \<Rightarrow> jira_template \<Rightarrow> (string \<times> json) list" where
  "complete_template_diff before after =
     filter (\<lambda>(k, v). json_get (canonical_template_document before) k \<noteq> Some v) (canonical_fields after)"

section \<open>The world and the gateway\<close>

datatype gateway_call =
    CreateIssue string jira_template string
  | LinkIssues string string
  | UpdateIssue string jira_template
  | FindByHash string string
  | GetIssue string

record sub_world =
  sw_repo :: repo
  sw_calls :: "(gateway_call \<times> db) list"

record submission_gateway =
  g_create :: "nat \<Rightarrow> jira_template \<Rightarrow> string \<Rightarrow> string \<Rightarrow> exn + published_issue"
  g_link :: "nat \<Rightarrow> string \<Rightarrow> string \<Rightarrow> string \<Rightarrow> exn + unit"
  g_update :: "nat \<Rightarrow> string \<Rightarrow> jira_template \<Rightarrow> string \<Rightarrow> exn + unit"
  g_find :: "nat \<Rightarrow> string \<Rightarrow> string \<Rightarrow> string \<Rightarrow> exn + published_issue list"
  g_get :: "nat \<Rightarrow> string \<Rightarrow> string \<Rightarrow> exn + json option"

record submission_result =
  rs_draft :: draft
  rs_attempt :: submission_attempt
  rs_issue :: "published_issue option"
  rs_pending :: bool

definition on_repo :: "(repo, exn, 'a) sx \<Rightarrow> (sub_world, exn, 'a) sx" where
  "on_repo m = (\<lambda>w. case m (sw_repo w) of (r, s) \<Rightarrow> (r, w\<lparr>sw_repo := s\<rparr>))"

text \<open>A dispatched call: it is logged, and its outcome is a value the caller can inspect (\<open>try\<close>).\<close>

definition perform :: "gateway_call \<Rightarrow> (nat \<Rightarrow> exn + 'a) \<Rightarrow> (sub_world, exn, exn + 'a) sx" where
  "perform c answer = (\<lambda>w. (Inr (answer (length (sw_calls w))), w\<lparr>sw_calls := sw_calls w @ [(c, rp_db (sw_repo w))]\<rparr>))"

definition sub_state_error :: exn where
  "sub_state_error = DomainError (SubmissionServiceError
     (plain_classification EK_CONFLICT OP_WORKFLOW_TRANSITION SC_STATE_CONFLICT))"

definition sub_conflict_error :: exn where
  "sub_conflict_error = DomainError (SubmissionServiceError
     (plain_classification EK_CONFLICT OP_PERSISTENCE SC_STATE_CONFLICT))"

definition required_draft :: "string \<Rightarrow> (sub_world, exn, draft) sx" where
  "required_draft k =
     sx_bind (on_repo (repo_get_by_id k)) (\<lambda>found.
       (case found of None \<Rightarrow> sx_raise sub_state_error | Some dr \<Rightarrow> sx_return dr))"

definition new_attempt ::
  "(json \<Rightarrow> string) \<Rightarrow> string \<Rightarrow> int \<Rightarrow> draft \<Rightarrow> jira_template \<Rightarrow> (sub_world, exn, submission_attempt) sx" where
  "new_attempt doc_hash aid now dr tpl =
     sx_bind (on_repo (repo_get_latest_attempt (d_draft_id dr))) (\<lambda>previous.
       sx_lift (submission_attempt_post_init
         \<lparr>sa_attempt_id = aid, sa_draft_id = d_draft_id dr, sa_request_hash = canonical_request_hash doc_hash tpl,
          sa_attempt_number = (case previous of None \<Rightarrow> 1 | Some p \<Rightarrow> sa_attempt_number p + 1),
          sa_started_at = Aware now, sa_completed_at = None, sa_status = ''pending'',
          sa_error_summary = None\<rparr>))"

text \<open>\<open>replace(attempt, status=..., completed_at=now, error_summary=...)\<close> followed by its update.\<close>

definition close_attempt ::
  "int \<Rightarrow> string \<Rightarrow> string option \<Rightarrow> submission_attempt \<Rightarrow> (sub_world, exn, submission_attempt) sx" where
  "close_attempt now status err a =
     sx_bind (sx_lift (submission_attempt_post_init
        (a\<lparr>sa_status := status, sa_completed_at := Some (Aware now), sa_error_summary := err\<rparr>))) (\<lambda>a'.
     sx_bind (on_repo (repo_update_attempt a')) (\<lambda>_. sx_return a'))"

definition move_draft :: "int \<Rightarrow> draft \<Rightarrow> draft_state \<Rightarrow> string option \<Rightarrow> (sub_world, exn, draft) sx" where
  "move_draft now dr target err = on_repo (repo_cas now (d_draft_id dr) (d_revision dr) target err)"

text \<open>\<open>_finish_unknown\<close> and \<open>_finish_update_unknown\<close>; the latter reports the published issue.\<close>

definition finish_unknown ::
  "int \<Rightarrow> draft_state \<Rightarrow> published_issue option \<Rightarrow> draft \<Rightarrow> submission_attempt \<Rightarrow> (sub_world, exn, submission_result) sx" where
  "finish_unknown now target issue dr a =
     sx_bind (close_attempt now ''unknown'' (Some ''outcome_unknown'') a) (\<lambda>u.
     sx_bind (move_draft now dr target (Some ''outcome_unknown'')) (\<lambda>changed.
       sx_return \<lparr>rs_draft = changed, rs_attempt = u, rs_issue = issue, rs_pending = True\<rparr>))"

text \<open>\<open>_finish_failure\<close> and \<open>_finish_update_failure\<close>.\<close>

definition finish_failure ::
  "int \<Rightarrow> draft_state \<Rightarrow> draft_state \<Rightarrow> published_issue option \<Rightarrow> draft \<Rightarrow> submission_attempt \<Rightarrow> domain_error \<Rightarrow>
   (sub_world, exn, submission_result) sx" where
  "finish_failure now retryable unknown issue dr a err =
     (if ec_certainty (classification_of err) = MC_UNKNOWN then finish_unknown now unknown issue dr a
      else
        sx_bind (close_attempt now ''failed'' (Some (domain_error_code err)) a) (\<lambda>f.
        sx_bind (move_draft now dr retryable (Some (domain_error_code err))) (\<lambda>changed.
          sx_return \<lparr>rs_draft = changed, rs_attempt = f, rs_issue = issue, rs_pending = False\<rparr>)))"

section \<open>Creating an issue\<close>

text \<open>The search for \<open>Target PROD Key:\s*([A-Z0-9]+-\d+)\<close>; the groups need no backtracking.\<close>

definition is_upper_or_digit :: "char \<Rightarrow> bool" where
  "is_upper_or_digit c = (let n = (of_char c :: nat) in (65 \<le> n \<and> n \<le> 90) \<or> (48 \<le> n \<and> n \<le> 57))"

definition prod_key_at :: "string \<Rightarrow> string option" where
  "prod_key_at s =
     (if starts_with ''Target PROD Key:'' s then
        (let body = dropWhile is_space (drop 16 s);
             name = takeWhile is_upper_or_digit body; tail = dropWhile is_upper_or_digit body;
             digits = takeWhile is_digit (tl tail)
         in if name \<noteq> [] \<and> tail \<noteq> [] \<and> hd tail = CHR ''-'' \<and> digits \<noteq> []
            then Some (name @ CHR ''-'' # digits) else None)
      else None)"

fun find_prod_key :: "string \<Rightarrow> string option" where
  "find_prod_key [] = None"
| "find_prod_key (c # cs) =
     (case prod_key_at (c # cs) of Some k \<Rightarrow> Some k | None \<Rightarrow> find_prod_key cs)"

definition auto_link :: "submission_gateway \<Rightarrow> string \<Rightarrow> jira_template \<Rightarrow> published_issue \<Rightarrow> (sub_world, exn, unit) sx" where
  "auto_link gw pat tpl issue =
     (case find_prod_key (jt_description tpl) of
        None \<Rightarrow> sx_return ()
      | Some prod_key \<Rightarrow>
          sx_bind (perform (LinkIssues (pi_issue_key issue) prod_key)
                     (\<lambda>n. g_link gw n pat (pi_issue_key issue) prod_key)) (\<lambda>_. sx_return ()))"

text \<open>The part of \<open>submit\<close> after the gateway answered, and the part after the draft has been
  loaded and checked.\<close>

definition record_create ::
  "submission_gateway \<Rightarrow> int \<Rightarrow> string \<Rightarrow> jira_template \<Rightarrow> draft \<Rightarrow> submission_attempt \<Rightarrow> exn + published_issue \<Rightarrow>
   (sub_world, exn, submission_result) sx" where
  "record_create gw now pat tpl submitting a outcome =
     (case outcome of
        Inl (DomainError e) \<Rightarrow> finish_failure now SUBMISSION_RETRYABLE SUBMISSION_UNKNOWN None submitting a e
      | Inl _ \<Rightarrow> finish_unknown now SUBMISSION_UNKNOWN None submitting a
      | Inr issue \<Rightarrow>
          sx_bind (auto_link gw pat tpl issue) (\<lambda>_.
          sx_bind (close_attempt now ''success'' None a) (\<lambda>ok.
          sx_bind (on_repo (repo_store_published_issue (d_draft_id submitting) issue)) (\<lambda>_.
          sx_bind (move_draft now submitting CREATED None) (\<lambda>created.
            sx_return \<lparr>rs_draft = created, rs_attempt = ok, rs_issue = Some issue, rs_pending = False\<rparr>)))))"

definition submit_loaded ::
  "submission_gateway \<Rightarrow> (json \<Rightarrow> string) \<Rightarrow> string \<Rightarrow> int \<Rightarrow> string \<Rightarrow> draft \<Rightarrow> jira_template \<Rightarrow>
   (sub_world, exn, submission_result) sx" where
  "submit_loaded gw doc_hash aid now pat dr tpl =
     sx_bind (move_draft now dr SUBMITTING None) (\<lambda>submitting.
     sx_bind (new_attempt doc_hash aid now submitting tpl) (\<lambda>a.
     sx_bind (on_repo (repo_claim_attempt a)) (\<lambda>claimed.
     if \<not> claimed then sx_raise sub_conflict_error
     else
       sx_bind (perform (CreateIssue (d_draft_id dr) tpl (sa_request_hash a))
                  (\<lambda>n. g_create gw n tpl pat (sa_request_hash a)))
         (record_create gw now pat tpl submitting a))))"

definition submit ::
  "submission_gateway \<Rightarrow> (json \<Rightarrow> string) \<Rightarrow> string \<Rightarrow> int \<Rightarrow> string \<Rightarrow> string \<Rightarrow> int option \<Rightarrow>
   (sub_world, exn, submission_result) sx" where
  "submit gw doc_hash aid now k pat expected_revision =
     sx_bind (required_draft k) (\<lambda>dr.
     sx_bind (sx_ensure (expected_revision = None \<or> expected_revision = Some (d_revision dr))
        (DomainError (RevisionConflictError (the expected_revision) (d_revision dr)))) (\<lambda>_.
     (case d_template dr of
        None \<Rightarrow> sx_raise sub_state_error
      | Some tpl \<Rightarrow>
          if d_state dr \<notin> {REVIEW, SUBMISSION_RETRYABLE} then sx_raise sub_state_error
          else submit_loaded gw doc_hash aid now pat dr tpl)))"

section \<open>Recovery and reconciliation of a creation\<close>

definition latest_attempt :: "string \<Rightarrow> (sub_world, exn, submission_attempt option) sx" where
  "latest_attempt k = on_repo (repo_get_latest_attempt k)"

definition recover_stalled :: "int \<Rightarrow> string \<Rightarrow> (sub_world, exn, submission_result) sx" where
  "recover_stalled now k =
     sx_bind (required_draft k) (\<lambda>dr.
     sx_bind (latest_attempt k) (\<lambda>found.
       (case found of
          None \<Rightarrow> sx_raise sub_state_error
        | Some a \<Rightarrow>
            if d_state dr \<noteq> SUBMITTING then sx_raise sub_state_error
            else (case d_published_issue dr of
                Some issue \<Rightarrow>
                  sx_bind (if sa_status a = ''success'' then sx_return a else close_attempt now ''success'' None a) (\<lambda>ok.
                  sx_bind (move_draft now dr CREATED None) (\<lambda>created.
                    sx_return \<lparr>rs_draft = created, rs_attempt = ok, rs_issue = Some issue, rs_pending = False\<rparr>))
              | None \<Rightarrow>
                  if sa_status a = ''pending'' then finish_unknown now SUBMISSION_UNKNOWN None dr a
                  else sx_raise sub_state_error))))"

definition reconcile_create ::
  "submission_gateway \<Rightarrow> int \<Rightarrow> string \<Rightarrow> string \<Rightarrow> (sub_world, exn, submission_result) sx" where
  "reconcile_create gw now k pat =
     sx_bind (required_draft k) (\<lambda>dr.
     sx_bind (latest_attempt k) (\<lambda>found.
       (case (found, d_template dr) of
          (Some a, Some tpl) \<Rightarrow>
            if d_state dr \<noteq> SUBMISSION_UNKNOWN \<or> sa_status a \<noteq> ''unknown'' then sx_raise sub_state_error
            else
              sx_bind (perform (FindByHash (jt_project_key tpl) (sa_request_hash a))
                         (\<lambda>n. g_find gw n (jt_project_key tpl) (sa_request_hash a) pat)) (\<lambda>outcome.
              sx_bind (sx_lift outcome) (\<lambda>matches.
              (case matches of
                 [issue] \<Rightarrow>
                   sx_bind (close_attempt now ''success'' None a) (\<lambda>ok.
                   sx_bind (on_repo (repo_store_published_issue k issue)) (\<lambda>_.
                   sx_bind (move_draft now dr CREATED None) (\<lambda>created.
                     sx_return \<lparr>rs_draft = created, rs_attempt = ok, rs_issue = Some issue, rs_pending = False\<rparr>)))
               | _ \<Rightarrow> sx_return \<lparr>rs_draft = dr, rs_attempt = a, rs_issue = None, rs_pending = True\<rparr>)))
        | _ \<Rightarrow> sx_raise sub_state_error)))"

definition allow_retry_after_negative_reconciliation :: "int \<Rightarrow> string \<Rightarrow> (sub_world, exn, draft) sx" where
  "allow_retry_after_negative_reconciliation now k =
     sx_bind (required_draft k) (\<lambda>dr.
     sx_bind (latest_attempt k) (\<lambda>found.
       (case found of
          None \<Rightarrow> sx_raise sub_state_error
        | Some a \<Rightarrow>
            if d_state dr \<noteq> SUBMISSION_UNKNOWN \<or> sa_status a \<noteq> ''unknown'' then sx_raise sub_state_error
            else
              sx_bind (close_attempt now ''failed'' (Some ''reconciled_not_created'') a) (\<lambda>_.
                move_draft now dr SUBMISSION_RETRYABLE (Some ''reconciled_not_created'')))))"

section \<open>Updating a published issue\<close>

record update_plan =
  up_draft :: draft
  up_changed_fields :: "(string \<times> json) list"

definition plan_has_changes :: "update_plan \<Rightarrow> bool" where
  "plan_has_changes p \<longleftrightarrow> up_changed_fields p \<noteq> []"

definition prepare_published_update ::
  "int \<Rightarrow> string \<Rightarrow> jira_template \<Rightarrow> int \<Rightarrow> (sub_world, exn, update_plan) sx" where
  "prepare_published_update now k new_template expected_revision =
     sx_bind (required_draft k) (\<lambda>dr.
     sx_bind (sx_ensure (d_revision dr = expected_revision)
        (DomainError (RevisionConflictError expected_revision (d_revision dr)))) (\<lambda>_.
     (case d_template dr of
        None \<Rightarrow> sx_raise sub_state_error
      | Some tpl \<Rightarrow>
          if d_state dr \<notin> {COMPLETE, ATTACHMENT_PARTIAL} \<or> d_published_issue dr = None then sx_raise sub_state_error
          else
            sx_bind (sx_lift (draft_post_init
              (dr\<lparr>d_state := UPDATE_REVIEW, d_revision := d_revision dr + 1,
                  d_template := Some new_template, d_updated_at := Aware now\<rparr>))) (\<lambda>updated.
            sx_bind (on_repo (repo_save updated None)) (\<lambda>_.
              sx_return \<lparr>up_draft = updated, up_changed_fields = complete_template_diff tpl new_template\<rparr>)))))"

definition record_update ::
  "int \<Rightarrow> published_issue \<Rightarrow> draft \<Rightarrow> submission_attempt \<Rightarrow> exn + unit \<Rightarrow> (sub_world, exn, submission_result) sx" where
  "record_update now issue updating a outcome =
     (case outcome of
        Inl (DomainError e) \<Rightarrow>
          finish_failure now UPDATE_RETRYABLE UPDATE_UNKNOWN (d_published_issue updating) updating a e
      | Inl _ \<Rightarrow> finish_unknown now UPDATE_UNKNOWN (d_published_issue updating) updating a
      | Inr _ \<Rightarrow>
          sx_bind (close_attempt now ''success'' None a) (\<lambda>ok.
          sx_bind (move_draft now updating COMPLETE None) (\<lambda>complete.
            sx_return \<lparr>rs_draft = complete, rs_attempt = ok, rs_issue = Some issue, rs_pending = False\<rparr>)))"

definition confirm_loaded ::
  "submission_gateway \<Rightarrow> (json \<Rightarrow> string) \<Rightarrow> string \<Rightarrow> int \<Rightarrow> string \<Rightarrow> draft \<Rightarrow> jira_template \<Rightarrow> published_issue \<Rightarrow>
   (sub_world, exn, submission_result) sx" where
  "confirm_loaded gw doc_hash aid now pat dr tpl issue =
     sx_bind (move_draft now dr UPDATING None) (\<lambda>updating.
     sx_bind (new_attempt doc_hash aid now updating tpl) (\<lambda>a.
     sx_bind (on_repo (repo_claim_attempt a)) (\<lambda>claimed.
     if \<not> claimed then sx_raise sub_conflict_error
     else
       sx_bind (perform (UpdateIssue (pi_issue_key issue) tpl)
                  (\<lambda>n. g_update gw n (pi_issue_key issue) tpl pat))
         (record_update now issue updating a))))"

definition confirm_published_update ::
  "submission_gateway \<Rightarrow> (json \<Rightarrow> string) \<Rightarrow> string \<Rightarrow> int \<Rightarrow> string \<Rightarrow> string \<Rightarrow> int \<Rightarrow>
   (sub_world, exn, submission_result) sx" where
  "confirm_published_update gw doc_hash aid now k pat expected_revision =
     sx_bind (required_draft k) (\<lambda>dr.
     sx_bind (sx_ensure (d_revision dr = expected_revision)
        (DomainError (RevisionConflictError expected_revision (d_revision dr)))) (\<lambda>_.
     (case (d_template dr, d_published_issue dr) of
        (Some tpl, Some issue) \<Rightarrow>
          if d_state dr \<noteq> UPDATE_REVIEW then sx_raise sub_state_error
          else confirm_loaded gw doc_hash aid now pat dr tpl issue
      | _ \<Rightarrow> sx_raise sub_state_error)))"

definition reconcile_update ::
  "submission_gateway \<Rightarrow> int \<Rightarrow> string \<Rightarrow> string \<Rightarrow> (sub_world, exn, submission_result) sx" where
  "reconcile_update gw now k pat =
     sx_bind (required_draft k) (\<lambda>dr.
     sx_bind (latest_attempt k) (\<lambda>found.
       (case (found, d_template dr, d_published_issue dr) of
          (Some a, Some tpl, Some issue) \<Rightarrow>
            if d_state dr \<noteq> UPDATE_UNKNOWN \<or> sa_status a \<noteq> ''unknown'' then sx_raise sub_state_error
            else
              sx_bind (perform (GetIssue (pi_issue_key issue)) (\<lambda>n. g_get gw n (pi_issue_key issue) pat)) (\<lambda>outcome.
              sx_bind (sx_lift outcome) (\<lambda>fields.
              (case fields of
                 None \<Rightarrow> sx_return \<lparr>rs_draft = dr, rs_attempt = a, rs_issue = Some issue, rs_pending = True\<rparr>
               | Some doc \<Rightarrow>
                   if list_ex (\<lambda>(key, v). json_get doc key \<noteq> Some v) (canonical_fields tpl) then
                     sx_return \<lparr>rs_draft = dr, rs_attempt = a, rs_issue = Some issue, rs_pending = True\<rparr>
                   else
                     sx_bind (close_attempt now ''success'' None a) (\<lambda>ok.
                     sx_bind (move_draft now dr COMPLETE None) (\<lambda>complete.
                       sx_return \<lparr>rs_draft = complete, rs_attempt = ok, rs_issue = Some issue, rs_pending = False\<rparr>)))))
        | _ \<Rightarrow> sx_raise sub_state_error)))"

section \<open>Basic facts\<close>

lemma on_repo_Inr: "on_repo m w = (Inr x, w') \<longleftrightarrow> (\<exists>s. m (sw_repo w) = (Inr x, s) \<and> w' = w\<lparr>sw_repo := s\<rparr>)"
  by (auto simp: on_repo_def split: prod.splits)

lemma on_repo_calls: "sw_calls (snd (on_repo m w)) = sw_calls w"
  by (simp add: on_repo_def split: prod.splits)

lemma required_draft_Inr:
  "required_draft k w = (Inr dr, w') \<longleftrightarrow>
     rp_initialized (sw_repo w) \<and> load_draft (rp_db (sw_repo w)) k = Inr (Some dr) \<and> w' = w"
  by (auto simp: required_draft_def sx_bind_eq_Inr on_repo_Inr repo_get_by_id_Inr split: option.splits)

lemma get_latest_Inr:
  "repo_get_latest_attempt k s = (Inr r, s') \<longleftrightarrow>
     rp_initialized s \<and> get_latest_attempt_sync k (rp_db s) = Inr (r, rp_db s) \<and> s' = s"
  by (auto simp: repo_get_latest_attempt_def repo_run_Inr get_latest_attempt_sync_def rbind_eq_Inr
      split: list.splits)

lemma perform_app [simp]:
  "perform c answer w = (Inr (answer (length (sw_calls w))), w\<lparr>sw_calls := sw_calls w @ [(c, rp_db (sw_repo w))]\<rparr>)"
  by (simp add: perform_def)

lemma move_draft_Inr:
  "move_draft now dr t err w = (Inr dr', w') \<longleftrightarrow>
     (\<exists>s. repo_cas now (d_draft_id dr) (d_revision dr) t err (sw_repo w) = (Inr dr', s) \<and> w' = w\<lparr>sw_repo := s\<rparr>)"
  by (simp add: move_draft_def on_repo_Inr)

lemma new_attempt_Inr:
  "new_attempt doc_hash aid now dr tpl w = (Inr a, w') \<Longrightarrow>
     w' = w \<and> sa_draft_id a = d_draft_id dr \<and> sa_request_hash a = canonical_request_hash doc_hash tpl \<and>
     sa_status a = ''pending'' \<and> sa_attempt_id a = aid \<and> sa_completed_at a = None"
  by (auto simp: new_attempt_def sx_bind_eq_Inr on_repo_Inr get_latest_Inr)

end
