(* ===== verification/Submission_Safety.thy ===== *)
theory Submission_Safety
  imports Submission
begin

text \<open>
  What the submission service guarantees: mutations are dispatched behind a durable claim, an unknown
  outcome is never re-dispatched, every outcome of a submission is recorded, and the crash windows that
  the recovery does and does not cover.
\<close>

section \<open>Running service calls\<close>

text \<open>The calls of the two services that move a draft; the results are dropped, the world is kept.\<close>

datatype service_call =
    CallSubmit string int string string "int option"
  | CallRecover int string
  | CallReconcileCreate int string string
  | CallAllowRetry int string
  | CallPrepareUpdate int string jira_template int
  | CallConfirmUpdate string int string string int
  | CallReconcileUpdate int string string
  | CallUpdateTemplate int string int int jira_template int
  | CallToggleType int string int int int "string list"
  | CallTogglePriority int string int int int "string list"
  | CallCancel int string int int int
  | CallExpire int datetime

fun serve :: "submission_gateway \<Rightarrow> (json \<Rightarrow> string) \<Rightarrow> service_call \<Rightarrow> sub_world \<Rightarrow> sub_world" where
  "serve gw dh (CallSubmit aid now k pat rv) w = snd (submit gw dh aid now k pat rv w)"
| "serve gw dh (CallRecover now k) w = snd (recover_stalled now k w)"
| "serve gw dh (CallReconcileCreate now k pat) w = snd (reconcile_create gw now k pat w)"
| "serve gw dh (CallAllowRetry now k) w = snd (allow_retry_after_negative_reconciliation now k w)"
| "serve gw dh (CallPrepareUpdate now k tpl rv) w = snd (prepare_published_update now k tpl rv w)"
| "serve gw dh (CallConfirmUpdate aid now k pat rv) w = snd (confirm_published_update gw dh aid now k pat rv w)"
| "serve gw dh (CallReconcileUpdate now k pat) w = snd (reconcile_update gw now k pat w)"
| "serve gw dh (CallUpdateTemplate now k owner chat tpl rv) w = snd (on_repo (update_template now k owner chat tpl rv) w)"
| "serve gw dh (CallToggleType now k owner chat rv ts) w = snd (on_repo (toggle_issue_type now k owner chat rv ts) w)"
| "serve gw dh (CallTogglePriority now k owner chat rv ps) w = snd (on_repo (toggle_priority now k owner chat rv ps) w)"
| "serve gw dh (CallCancel now k owner chat rv) w = snd (on_repo (cancel_draft now k owner chat rv) w)"
| "serve gw dh (CallExpire now before) w = snd (on_repo (expire_eligible_drafts now before) w)"

definition serve_all :: "submission_gateway \<Rightarrow> (json \<Rightarrow> string) \<Rightarrow> service_call list \<Rightarrow> sub_world \<Rightarrow> sub_world" where
  "serve_all gw dh cs w = fold (serve gw dh) cs w"

lemma serve_all_simps [simp]:
  "serve_all gw dh [] w = w"
  "serve_all gw dh (c # cs) w = serve_all gw dh cs (serve gw dh c w)"
  by (simp_all add: serve_all_def)

section \<open>Mutations are dispatched behind a durable claim\<close>

text \<open>What must be durable when a call is dispatched, so that a crash during it is recognised later.\<close>

fun claimed_call :: "(json \<Rightarrow> string) \<Rightarrow> gateway_call \<times> db \<Rightarrow> bool" where
  "claimed_call dh (CreateIssue k tpl h, d) \<longleftrightarrow>
     h = canonical_request_hash dh tpl \<and> map_option fst (version d k) = Some SUBMITTING \<and> stored_template d k = Some tpl \<and>
     list_ex (\<lambda>a. sa_draft_id a = k \<and> sa_status a = ''pending'' \<and> sa_request_hash a = h) (db_attempts d)"
| "claimed_call dh (UpdateIssue key tpl, d) \<longleftrightarrow>
     list_ex (\<lambda>a. sa_status a = ''pending'' \<and> sa_request_hash a = canonical_request_hash dh tpl \<and>
                  map_option fst (version d (sa_draft_id a)) = Some UPDATING \<and> stored_template d (sa_draft_id a) = Some tpl)
       (db_attempts d)"
| "claimed_call dh (LinkIssues key prod_key, d) \<longleftrightarrow>
     list_ex (\<lambda>a. sa_status a = ''pending'' \<and> map_option fst (version d (sa_draft_id a)) = Some SUBMITTING \<and>
                  Option.bind (stored_template d (sa_draft_id a)) (\<lambda>t. find_prod_key (jt_description t)) = Some prod_key)
       (db_attempts d)"
| "claimed_call dh (FindByHash p h, d) \<longleftrightarrow> True"
| "claimed_call dh (GetIssue key, d) \<longleftrightarrow> True"

abbreviation all_claimed :: "(json \<Rightarrow> string) \<Rightarrow> sub_world \<Rightarrow> bool" where
  "all_claimed dh w \<equiv> list_all (claimed_call dh) (sw_calls w)"

lemma keeps_on_repo_calls: "sx_keeps (\<lambda>w. P (sw_calls w)) (on_repo m)"
  by (simp add: sx_keeps_def on_repo_calls)

lemma keeps_repo_helpers [inv_intros]:
  fixes P :: "(gateway_call \<times> db) list \<Rightarrow> bool"
  shows "sx_keeps (\<lambda>w. P (sw_calls w)) (on_repo m)"
    "sx_keeps (\<lambda>w. P (sw_calls w)) (required_draft k)"
    "sx_keeps (\<lambda>w. P (sw_calls w)) (latest_attempt k)"
    "sx_keeps (\<lambda>w. P (sw_calls w)) (move_draft now dr t err)"
    "sx_keeps (\<lambda>w. P (sw_calls w)) (close_attempt now st err' a)"
    "sx_keeps (\<lambda>w. P (sw_calls w)) (new_attempt dh aid now dr tpl)"
  unfolding required_draft_def latest_attempt_def move_draft_def close_attempt_def new_attempt_def
  by (intro inv_intros keeps_on_repo_calls)+

lemma keeps_finish [inv_intros]:
  fixes P :: "(gateway_call \<times> db) list \<Rightarrow> bool"
  shows "sx_keeps (\<lambda>w. P (sw_calls w)) (finish_unknown now t i dr a)"
    "sx_keeps (\<lambda>w. P (sw_calls w)) (finish_failure now r u i dr a e)"
  unfolding finish_unknown_def finish_failure_def by (intro inv_intros)+

lemma cas_sync_result:
  assumes "cas_sync now k rv t err d = Inr (dr, d')"
  shows "d_draft_id dr = k \<and> d_state dr = t \<and> d_revision dr = rv + 1"
proof -
  have "load_draft d' k = Inr (Some dr)" by (cases rule: cas_sync_commit[OF assms]) simp
  from load_draft_version[OF this] cas_sync_version[OF assms, of k] show ?thesis by auto
qed

lemma keeps_claimed:
  "sx_keeps (all_claimed dh) (move_draft now dr t err)"
  "sx_keeps (all_claimed dh) (new_attempt dh' aid now dr tpl)"
  "sx_keeps (all_claimed dh) (on_repo m)"
  by (rule keeps_repo_helpers(4,6,1)[where P = "list_all (claimed_call dh)"])+

lemma move_draft_version:
  assumes "move_draft now dr t err w = (Inr dr', w')"
  shows "version (rp_db (sw_repo w')) (d_draft_id dr) = Some (t, d_revision dr + 1) \<and>
    d_draft_id dr' = d_draft_id dr \<and> d_state dr' = t \<and> d_revision dr' = d_revision dr + 1 \<and>
    sw_calls w' = sw_calls w \<and> is_transition_allowed (fst (the (version (rp_db (sw_repo w)) (d_draft_id dr)))) t \<and>
    map_option snd (version (rp_db (sw_repo w)) (d_draft_id dr)) = Some (d_revision dr)"
proof -
  from assms obtain d where cas: "cas_sync now (d_draft_id dr) (d_revision dr) t err (rp_db (sw_repo w)) = Inr (dr', d)"
    and w': "w' = w\<lparr>sw_repo := (sw_repo w)\<lparr>rp_db := d\<rparr>\<rparr>"
    by (auto simp: move_draft_Inr repo_cas_Inr)
  from cas_sync_version[OF cas, of "d_draft_id dr"] cas_sync_result[OF cas] show ?thesis by (auto simp: w')
qed

lemma claim_durable:
  assumes "on_repo (repo_claim_attempt a) w = (Inr True, w')"
  shows "sw_calls w' = sw_calls w \<and> version (rp_db (sw_repo w')) k = version (rp_db (sw_repo w)) k \<and>
    a \<in> set (db_attempts (rp_db (sw_repo w'))) \<and> sa_status a = ''pending''"
proof -
  from assms obtain d where claim: "claim_attempt_sync a (rp_db (sw_repo w)) = Inr (True, d)"
    and w': "w' = w\<lparr>sw_repo := (sw_repo w)\<lparr>rp_db := d\<rparr>\<rparr>"
    by (auto simp: on_repo_Inr repo_claim_Inr)
  from claim_attempt_shape[OF claim] obtain rows where "sql_insert sa_check sa_clash a (db_attempts (rp_db (sw_repo w))) = Inr rows"
    and "d = (rp_db (sw_repo w))\<lparr>db_attempts := rows\<rparr>" and "sa_status a = ''pending''" by auto
  then show ?thesis by (simp add: w' sql_insert_Inr version_def find_workflow_def)
qed

lemma move_draft_template:
  "move_draft now dr t err w = (Inr dr', w') \<Longrightarrow> stored_template (rp_db (sw_repo w')) k = stored_template (rp_db (sw_repo w)) k"
  by (auto simp: move_draft_Inr repo_cas_Inr dest: cas_stored_template)

lemma claim_template:
  assumes "on_repo (repo_claim_attempt a) w = (Inr True, w')"
  shows "stored_template (rp_db (sw_repo w')) k = stored_template (rp_db (sw_repo w)) k"
proof -
  from assms obtain d where claim: "claim_attempt_sync a (rp_db (sw_repo w)) = Inr (True, d)"
    and w': "w' = w\<lparr>sw_repo := (sw_repo w)\<lparr>rp_db := d\<rparr>\<rparr>"
    by (auto simp: on_repo_Inr repo_claim_Inr)
  from claim_attempt_shape[OF claim] show ?thesis by (auto simp: w' intro: workflows_stored_template)
qed

text \<open>What the database holds while the claim of a draft stands.\<close>

definition claim_stands :: "(json \<Rightarrow> string) \<Rightarrow> draft_state \<Rightarrow> draft \<Rightarrow> jira_template \<Rightarrow> submission_attempt \<Rightarrow> db \<Rightarrow> bool" where
  "claim_stands dh t dr tpl a d \<longleftrightarrow>
     map_option fst (version d (d_draft_id dr)) = Some t \<and> stored_template d (d_draft_id dr) = Some tpl \<and>
     a \<in> set (db_attempts d) \<and> sa_status a = ''pending'' \<and> sa_draft_id a = d_draft_id dr \<and>
     sa_request_hash a = canonical_request_hash dh tpl"

text \<open>Moving the draft, claiming an attempt and dispatching: the call finds its claim in the database.\<close>

lemma claimed_dispatch:
  assumes w: "all_claimed dh w" and tpl: "stored_template (rp_db (sw_repo w)) (d_draft_id dr) = Some tpl"
    and call: "\<And>d a. claim_stands dh t dr tpl a d \<Longrightarrow> claimed_call dh (call a, d)"
    and rest: "\<And>x a r v. all_claimed dh v \<Longrightarrow> claim_stands dh t dr tpl a (rp_db (sw_repo v)) \<Longrightarrow> all_claimed dh (snd (rest x a r v))"
  shows "all_claimed dh (snd (sx_bind (move_draft now dr t None) (\<lambda>moved.
     sx_bind (new_attempt dh aid now moved tpl) (\<lambda>a.
     sx_bind (on_repo (repo_claim_attempt a)) (\<lambda>claimed.
     if \<not> claimed then sx_raise sub_conflict_error
     else sx_bind (perform (call a) (answer a)) (rest moved a)))) w))"
proof (rule snd_bind_cases)
  show "all_claimed dh (snd (move_draft now dr t None w))"
    by (rule sx_keepsD[OF keeps_claimed(1) w])
next
  fix moved w1 assume mv: "move_draft now dr t None w = (Inr moved, w1)"
  note m = move_draft_version[OF mv] move_draft_template[OF mv, of "d_draft_id dr"]
  show "all_claimed dh (snd (sx_bind (new_attempt dh aid now moved tpl) (\<lambda>a.
     sx_bind (on_repo (repo_claim_attempt a)) (\<lambda>claimed.
     if \<not> claimed then sx_raise sub_conflict_error
     else sx_bind (perform (call a) (answer a)) (rest moved a))) w1))"
  proof (rule snd_bind_cases)
    show "all_claimed dh (snd (new_attempt dh aid now moved tpl w1))"
      by (rule sx_keepsD[OF keeps_claimed(2)]) (use m w in simp)
  next
    fix a w2 assume na: "new_attempt dh aid now moved tpl w1 = (Inr a, w2)"
    note n = new_attempt_Inr[OF na]
    show "all_claimed dh (snd (sx_bind (on_repo (repo_claim_attempt a)) (\<lambda>claimed.
       if \<not> claimed then sx_raise sub_conflict_error
       else sx_bind (perform (call a) (answer a)) (rest moved a)) w2))"
    proof (rule snd_bind_cases)
      show "all_claimed dh (snd (on_repo (repo_claim_attempt a) w2))"
        using m n w by (simp add: on_repo_calls)
    next
      fix claimed w3 assume cl: "on_repo (repo_claim_attempt a) w2 = (Inr claimed, w3)"
      show "all_claimed dh (snd ((if \<not> claimed then sx_raise sub_conflict_error
         else sx_bind (perform (call a) (answer a)) (rest moved a)) w3))"
      proof (cases claimed)
        case False
        have "sw_calls w3 = sw_calls w2" using on_repo_calls[of "repo_claim_attempt a" w2] cl by simp
        with False m n w show ?thesis by simp
      next
        case True
        with cl have cl: "on_repo (repo_claim_attempt a) w2 = (Inr True, w3)" by simp
        note c = claim_durable[OF cl, of "d_draft_id dr"] claim_template[OF cl, of "d_draft_id dr"]
        have stands: "claim_stands dh t dr tpl a (rp_db (sw_repo w3))"
          unfolding claim_stands_def using m n c tpl by auto
        have "all_claimed dh (w3\<lparr>sw_calls := sw_calls w3 @ [(call a, rp_db (sw_repo w3))]\<rparr>)"
          using m n c w call[OF stands] by simp
        from rest[OF this] stands True show ?thesis by (simp add: sx_bind_def)
      qed
    qed
  qed
qed

lemma keeps_perform [inv_intros]:
  "(\<And>d. claimed_call dh (c, d)) \<Longrightarrow> sx_keeps (all_claimed dh) (perform c answer)"
  by (simp add: sx_keeps_def)

lemma link_claimed:
  assumes "all_claimed dh w" and "claim_stands dh SUBMITTING dr tpl a (rp_db (sw_repo w))"
  shows "all_claimed dh (snd (auto_link gw pat tpl issue w))"
  using assms by (auto simp: auto_link_def sx_bind_def claim_stands_def list_ex_iff split: option.splits)

lemma record_create_claimed:
  assumes "all_claimed dh w" and "claim_stands dh SUBMITTING dr tpl a (rp_db (sw_repo w))"
  shows "all_claimed dh (snd (record_create gw now pat tpl sub a outcome w))"
proof (cases outcome)
  case (Inl e)
  have "sx_keeps (all_claimed dh) (record_create gw now pat tpl sub a outcome)"
    unfolding record_create_def Inl by (cases e; simp; intro inv_intros)
  from sx_keepsD[OF this assms(1)] show ?thesis .
next
  case (Inr issue)
  show ?thesis
    unfolding record_create_def Inr sum.case
  proof (rule snd_bind_cases)
    show "all_claimed dh (snd (auto_link gw pat tpl issue w))" by (rule link_claimed[OF assms])
  next
    fix u v assume "auto_link gw pat tpl issue w = (Inr u, v)"
    with link_claimed[OF assms, of gw pat issue] have v: "all_claimed dh v" by simp
    have "sx_keeps (all_claimed dh) (sx_bind (close_attempt now ''success'' None a) (\<lambda>ok.
          sx_bind (on_repo (repo_store_published_issue (d_draft_id sub) issue)) (\<lambda>_.
          sx_bind (move_draft now sub CREATED None) (\<lambda>created.
            sx_return \<lparr>rs_draft = created, rs_attempt = ok, rs_issue = Some issue, rs_pending = False\<rparr>))))"
      by (intro inv_intros)
    from sx_keepsD[OF this v] show "all_claimed dh (snd (sx_bind (close_attempt now ''success'' None a) (\<lambda>ok.
          sx_bind (on_repo (repo_store_published_issue (d_draft_id sub) issue)) (\<lambda>_.
          sx_bind (move_draft now sub CREATED None) (\<lambda>created.
            sx_return \<lparr>rs_draft = created, rs_attempt = ok, rs_issue = Some issue, rs_pending = False\<rparr>))) v))" .
  qed
qed

lemma keeps_record_update: "sx_keeps (all_claimed dh) (record_update now issue dr a outcome)"
  unfolding record_update_def by (cases outcome; (cases "projl outcome")?; simp; intro inv_intros)

lemma loaded_claimed:
  assumes "all_claimed dh w" and "stored_template (rp_db (sw_repo w)) (d_draft_id dr) = Some tpl"
  shows "all_claimed dh (snd (submit_loaded gw dh aid now pat dr tpl w))"
    "all_claimed dh (snd (confirm_loaded gw dh aid now pat dr tpl issue w))"
proof -
  show "all_claimed dh (snd (submit_loaded gw dh aid now pat dr tpl w))"
    unfolding submit_loaded_def
    by (rule claimed_dispatch[OF assms]) (simp add: claim_stands_def list_ex_iff, blast, rule record_create_claimed)
  show "all_claimed dh (snd (confirm_loaded gw dh aid now pat dr tpl issue w))"
    unfolding confirm_loaded_def
    by (rule claimed_dispatch[OF assms]) (auto simp: claim_stands_def list_ex_iff intro: sx_keepsD[OF keeps_record_update])
qed

text \<open>Both calls load the draft they submit.\<close>

lemma keeps_dispatch:
  assumes "\<And>dr w. all_claimed dh w \<Longrightarrow> stored_template (rp_db (sw_repo w)) (d_draft_id dr) = d_template dr \<Longrightarrow> all_claimed dh (snd (f dr w))"
  shows "sx_keeps (all_claimed dh) (sx_bind (required_draft k) f)"
  unfolding sx_keeps_def
proof (intro allI impI)
  fix w assume w: "all_claimed dh w"
  show "all_claimed dh (snd (sx_bind (required_draft k) f w))"
  proof (rule snd_bind_cases)
    show "all_claimed dh (snd (required_draft k w))"
      by (rule sx_keepsD[OF keeps_repo_helpers(2)[where P = "list_all (claimed_call dh)"] w])
  next
    fix dr v assume "required_draft k w = (Inr dr, v)"
    then have "load_draft (rp_db (sw_repo w)) k = Inr (Some dr)" and v: "v = w" by (auto simp: required_draft_Inr)
    with load_stored_template load_draft_version have "stored_template (rp_db (sw_repo w)) (d_draft_id dr) = d_template dr" by blast
    with w v show "all_claimed dh (snd (f dr v))" by (intro assms) simp_all
  qed
qed

lemma keeps_submit:
  "sx_keeps (all_claimed dh) (submit gw dh aid now k pat rv)"
  "sx_keeps (all_claimed dh) (confirm_published_update gw dh aid now k pat n)"
proof -
  show "sx_keeps (all_claimed dh) (submit gw dh aid now k pat rv)"
    unfolding submit_def
    by (rule keeps_dispatch) (auto simp: sx_bind_def sx_ensure_def ensure_def loaded_claimed split: option.split)
  show "sx_keeps (all_claimed dh) (confirm_published_update gw dh aid now k pat n)"
    unfolding confirm_published_update_def
    by (rule keeps_dispatch) (auto simp: sx_bind_def sx_ensure_def ensure_def loaded_claimed split: option.split)
qed

lemma keeps_case_pair [inv_intros]:
  "(\<And>x y. sx_keeps P (f x y)) \<Longrightarrow> sx_keeps P (case p of (x, y) \<Rightarrow> f x y)"
  by (cases p) simp

lemma keeps_case_list [inv_intros]:
  "\<lbrakk>xs = [] \<Longrightarrow> sx_keeps P m; \<And>y ys. xs = y # ys \<Longrightarrow> sx_keeps P (f y ys)\<rbrakk> \<Longrightarrow>
     sx_keeps P (case xs of [] \<Rightarrow> m | y # ys \<Rightarrow> f y ys)"
  by (cases xs) auto

lemma keeps_services:
  "sx_keeps (all_claimed dh) (recover_stalled now k)"
  "sx_keeps (all_claimed dh) (reconcile_create gw now k pat)"
  "sx_keeps (all_claimed dh) (allow_retry_after_negative_reconciliation now k)"
  "sx_keeps (all_claimed dh) (prepare_published_update now k tpl n)"
  "sx_keeps (all_claimed dh) (reconcile_update gw now k pat)"
  unfolding recover_stalled_def reconcile_create_def
    allow_retry_after_negative_reconciliation_def prepare_published_update_def reconcile_update_def
  by (intro inv_intros; simp)+

lemma serve_keeps_claimed: "all_claimed dh w \<Longrightarrow> all_claimed dh (serve gw dh c w)"
  by (cases c) (simp_all add: on_repo_calls keeps_submit[THEN sx_keepsD] keeps_services[THEN sx_keepsD])

text \<open>
  C12. Write-ahead claims of the submission service: whatever sequence of its calls runs from whatever repository, and
  however the gateway answers, each create, update and link it dispatched found its claim in the durable database at
  the moment of dispatch.  A create found its draft in SUBMITTING with the dispatched template stored, and a pending attempt of
  that draft with the canonical hash of that template; an update found the same of a draft in UPDATING; a link found a
  pending attempt of a draft in SUBMITTING whose stored template names the issue it links to.  A crash during the call
  therefore leaves a database that shows it.  (Reads are no mutations, and uploads are not dispatched by this service.)
\<close>

theorem mutations_behind_claims:
  "list_all (claimed_call dh) (sw_calls (serve_all gw dh cs \<lparr>sw_repo = s, sw_calls = []\<rparr>))"
proof -
  have "all_claimed dh w \<Longrightarrow> all_claimed dh (serve_all gw dh cs w)" for w
    by (induction cs arbitrary: w) (simp_all add: serve_keeps_claimed)
  then show ?thesis by simp
qed

section \<open>An unknown outcome is not dispatched again\<close>

definition is_create :: "string \<Rightarrow> gateway_call \<Rightarrow> bool" where
  "is_create k c \<longleftrightarrow> (case c of CreateIssue k' _ _ \<Rightarrow> k' = k | _ \<Rightarrow> False)"

definition creates :: "string \<Rightarrow> sub_world \<Rightarrow> nat" where
  "creates k w = length (filter (\<lambda>(c, d). is_create k c) (sw_calls w))"

definition settled_states :: "draft_state set" where
  "settled_states = insert SUBMISSION_UNKNOWN post_create_states"

definition locked :: "string \<Rightarrow> db \<Rightarrow> bool" where
  "locked k d \<longleftrightarrow> (\<exists>st n. version d k = Some (st, n) \<and> st \<in> settled_states)"

lemma settled_targets: "st \<in> settled_states \<Longrightarrow> is_transition_allowed st t \<Longrightarrow> t \<noteq> SUBMISSION_RETRYABLE \<Longrightarrow> t \<in> settled_states"
  by (cases st) (auto simp: settled_states_def post_create_states_def is_transition_allowed_def)

abbreviation repo_locked :: "string \<Rightarrow> repo \<Rightarrow> bool" where
  "repo_locked k s \<equiv> locked k (rp_db s)"

abbreviation sealed :: "string \<Rightarrow> nat \<Rightarrow> sub_world \<Rightarrow> bool" where
  "sealed k n w \<equiv> repo_locked k (sw_repo w) \<and> creates k w = n"

lemma keeps_repo_run:
  assumes "\<And>d x d'. P d \<Longrightarrow> f d = Inr (x, d') \<Longrightarrow> P d'"
  shows "sx_keeps (\<lambda>s. P (rp_db s)) (repo_run f)"
proof -
  have "P (rp_db (snd (repo_run f s)))" if "P (rp_db s)" for s
  proof (cases "repo_run f s")
    case (Pair r t)
    show ?thesis
    proof (cases r)
      case (Inl e)
      then have "t = s" using Pair repo_run_Inl[of f s e t] by simp
      with Pair that show ?thesis by simp
    next
      case (Inr x)
      with Pair obtain d where "f (rp_db s) = Inr (x, d)" and t: "t = s\<lparr>rp_db := d\<rparr>" by (auto simp: repo_run_Inr)
      from assms[OF that this(1)] Pair t show ?thesis by simp
    qed
  qed
  then show ?thesis by (simp add: sx_keeps_def)
qed

lemma sealed_on_repo [inv_intros]: "sx_keeps (repo_locked k) m \<Longrightarrow> sx_keeps (sealed k n) (on_repo m)"
proof -
  assume keep: "sx_keeps (repo_locked k) m"
  have "sealed k n (snd (on_repo m w))" if "sealed k n w" for w
  proof -
    have "repo_locked k (snd (m (sw_repo w)))" using sx_keepsD[OF keep] that by blast
    then show ?thesis using that by (cases "m (sw_repo w)") (simp add: on_repo_def creates_def)
  qed
  then show ?thesis by (simp add: sx_keeps_def)
qed

lemma locked_workflows: "db_workflows d' = db_workflows d \<Longrightarrow> locked k d' = locked k d"
  using version_workflows[of d' d k] by (simp add: locked_def)

lemma locked_cas: "j \<noteq> k \<or> t \<noteq> SUBMISSION_RETRYABLE \<Longrightarrow> sx_keeps (repo_locked k) (repo_cas now j rv t err)"
proof -
  assume a: "j \<noteq> k \<or> t \<noteq> SUBMISSION_RETRYABLE"
  have "locked k d'" if "locked k d" "cas_sync now j rv t err d = Inr (x, d')" for d x d'
  proof -
    from that(1) obtain st n where v: "version d k = Some (st, n)" "st \<in> settled_states" by (auto simp: locked_def)
    from cas_sync_version[OF that(2), of k] v(1) consider "version d' k = version d k"
      | "j = k" "is_transition_allowed st t" "version d' k = Some (t, rv + 1)" by (cases "k = j") auto
    then show ?thesis
      by cases (use v a settled_targets[OF v(2), of t] in \<open>simp_all add: locked_def\<close>)
  qed
  then have "sx_keeps (repo_locked k) (repo_run (cas_sync now j rv t err))" by (rule keeps_repo_run)
  then show ?thesis unfolding repo_cas_def by (intro inv_intros)
qed

lemma locked_save: "d_draft_id dr \<noteq> k \<or> d_state dr \<in> settled_states \<Longrightarrow> sx_keeps (repo_locked k) (repo_save dr e)"
proof -
  assume a: "d_draft_id dr \<noteq> k \<or> d_state dr \<in> settled_states"
  have "locked k d'" if "locked k d" "save_sync dr e d = Inr (x, d')" for d x d'
  proof (cases rule: save_sync_workflows[OF that(2)])
    case (1 expiry d1)
    from save_row_version[OF 1(2,1), of k] version_workflows[OF 1(3), of k] that(1) a show ?thesis
      by (auto simp: locked_def)
  qed
  then have "sx_keeps (repo_locked k) (repo_run (save_sync dr e))" by (rule keeps_repo_run)
  then show ?thesis unfolding repo_save_def by (intro inv_intros) 
qed

lemma reads_same:
  "get_latest_attempt_sync j d = Inr (x, d') \<Longrightarrow> d' = d"
  "get_by_id_sync j d = Inr (y, d') \<Longrightarrow> d' = d"
  "list_expired_sync before lim d = Inr (z, d') \<Longrightarrow> d' = d"
  by (auto simp: get_latest_attempt_sync_def get_by_id_sync_def list_expired_sync_def rbind_eq_Inr split: list.splits)

lemma keeps_untouched:
  "(\<And>d x d'. f d = Inr (x, d') \<Longrightarrow> db_workflows d' = db_workflows d) \<Longrightarrow> sx_keeps (repo_locked k) (repo_run f)"
  by (rule keeps_repo_run) (metis locked_workflows)

lemma locked_others [inv_intros]:
  "sx_keeps (repo_locked k) (repo_claim_attempt a)"
  "sx_keeps (repo_locked k) (repo_update_attempt a)"
  "sx_keeps (repo_locked k) (repo_store_published_issue j i)"
  "sx_keeps (repo_locked k) (repo_get_latest_attempt j)"
  "sx_keeps (repo_locked k) (repo_get_by_id j)"
  "sx_keeps (repo_locked k) (repo_run (list_expired_sync before lim))"
  unfolding repo_claim_attempt_def repo_update_attempt_def repo_store_published_issue_def
    repo_get_latest_attempt_def repo_get_by_id_def
  by (rule keeps_untouched; force dest: claim_attempt_workflows update_attempt_workflows
      other_ops_workflows reads_same)+

text \<open>The rules of \<open>sx_keeps\<close> that also hand down what the first computation may return.\<close>

named_theorems seal_intros

definition returns :: "('s, 'e, 'a) sx \<Rightarrow> 'a \<Rightarrow> bool" where
  "returns m x \<longleftrightarrow> (\<exists>s s'. m s = (Inr x, s'))"

lemma keeps_bind_returns [seal_intros]:
  assumes "sx_keeps P m" and "\<And>x. returns m x \<Longrightarrow> sx_keeps P (f x)"
  shows "sx_keeps P (sx_bind m f)"
proof -
  have "P (snd (sx_bind m f s))" if "P s" for s
  proof (rule snd_bind_cases)
    show "P (snd (m s))" by (rule sx_keepsD[OF assms(1) that])
    show "P (snd (f x t))" if m: "m s = (Inr x, t)" for x t
    proof -
      have "returns m x" using m by (auto simp: returns_def)
      moreover have "P t" using sx_keepsD[OF assms(1) \<open>P s\<close>] m by simp
      ultimately show ?thesis by (rule sx_keepsD[OF assms(2)])
    qed
  qed
  then show ?thesis by (simp add: sx_keeps_def)
qed

lemma returns_required: "returns (required_draft j) dr \<Longrightarrow> d_draft_id dr = j"
  by (auto simp: returns_def required_draft_Inr dest: load_draft_version)

lemma returns_move: "returns (move_draft now dr t err) dr' \<Longrightarrow> d_draft_id dr' = d_draft_id dr"
  by (auto simp: returns_def dest: move_draft_version)

lemma returns_lift [simp]:
  "returns (\<lambda>s. (r, s)) y \<longleftrightarrow> r = Inr y" "returns (sx_lift r) y \<longleftrightarrow> r = Inr y"
  by (simp_all add: returns_def)

lemma sealed_move: "d_draft_id dr \<noteq> k \<or> t \<noteq> SUBMISSION_RETRYABLE \<Longrightarrow> sx_keeps (sealed k n) (move_draft now dr t err)"
  unfolding move_draft_def by (intro sealed_on_repo locked_cas)

lemma sealed_perform: "\<not> is_create k c \<Longrightarrow> sx_keeps (sealed k n) (perform c answer)"
  by (simp add: sx_keeps_def creates_def)

lemma sealed_helpers [seal_intros]:
  "sx_keeps (sealed k n) (required_draft j)"
  "sx_keeps (sealed k n) (latest_attempt j)"
  "sx_keeps (sealed k n) (close_attempt now st err a)"
  "sx_keeps (sealed k n) (new_attempt dh aid now dr tpl)"
  "sx_keeps (sealed k n) (on_repo (repo_claim_attempt a))"
  "sx_keeps (sealed k n) (on_repo (repo_store_published_issue j i))"
  unfolding required_draft_def latest_attempt_def close_attempt_def new_attempt_def
  by (intro inv_intros)+

lemmas [seal_intros] = sx_keeps_basic keeps_if keeps_case_option keeps_case_pair keeps_case_list

lemma sealed_finish:
  "t \<noteq> SUBMISSION_RETRYABLE \<Longrightarrow> sx_keeps (sealed k n) (finish_unknown now t i dr a)"
  "d_draft_id dr \<noteq> k \<or> r \<noteq> SUBMISSION_RETRYABLE \<Longrightarrow> u \<noteq> SUBMISSION_RETRYABLE \<Longrightarrow>
     sx_keeps (sealed k n) (finish_failure now r u i dr a e)"
proof -
  show unknown: "t \<noteq> SUBMISSION_RETRYABLE \<Longrightarrow> sx_keeps (sealed k n) (finish_unknown now t i dr a)" for t
    unfolding finish_unknown_def by (intro seal_intros sealed_move; simp)
  show "d_draft_id dr \<noteq> k \<or> r \<noteq> SUBMISSION_RETRYABLE \<Longrightarrow> u \<noteq> SUBMISSION_RETRYABLE \<Longrightarrow>
     sx_keeps (sealed k n) (finish_failure now r u i dr a e)"
    unfolding finish_failure_def by (intro seal_intros sealed_move unknown; simp)
qed

lemma sealed_outcome:
  "d_draft_id dr \<noteq> k \<Longrightarrow> sx_keeps (sealed k n) (record_create gw now pat tpl dr a outcome)"
  "sx_keeps (sealed k n) (record_update now issue dr a outcome2)"
proof -
  show "d_draft_id dr \<noteq> k \<Longrightarrow> sx_keeps (sealed k n) (record_create gw now pat tpl dr a outcome)"
    unfolding record_create_def auto_link_def
    by (cases outcome; (cases "projl outcome")?; simp;
        intro seal_intros sealed_move sealed_finish sealed_perform; simp add: is_create_def)
  show "sx_keeps (sealed k n) (record_update now issue dr a outcome2)"
    unfolding record_update_def
    by (cases outcome2; (cases "projl outcome2")?; simp; intro seal_intros sealed_move sealed_finish; simp)
qed

lemma sealed_loaded:
  "d_draft_id dr \<noteq> k \<Longrightarrow> sx_keeps (sealed k n) (submit_loaded gw dh aid now pat dr tpl)"
  "sx_keeps (sealed k n) (confirm_loaded gw dh aid now pat dr tpl issue)"
  unfolding submit_loaded_def confirm_loaded_def
  by (intro seal_intros sealed_move sealed_outcome sealed_perform; simp add: is_create_def returns_move)+

lemma sealed_submission:
  "j \<noteq> k \<Longrightarrow> sx_keeps (sealed k n) (submit gw dh aid now j pat rv)"
  "j \<noteq> k \<Longrightarrow> sx_keeps (sealed k n) (allow_retry_after_negative_reconciliation now j)"
  "sx_keeps (sealed k n) (confirm_published_update gw dh aid now j pat m)"
  "sx_keeps (sealed k n) (recover_stalled now j)"
  "sx_keeps (sealed k n) (reconcile_create gw now j pat)"
  "sx_keeps (sealed k n) (reconcile_update gw now j pat)"
  unfolding submit_def confirm_published_update_def recover_stalled_def reconcile_create_def
    allow_retry_after_negative_reconciliation_def reconcile_update_def
  by (intro seal_intros sealed_move sealed_loaded sealed_finish sealed_perform;
      simp add: is_create_def returns_required)+

lemma sealed_prepare: "sx_keeps (sealed k n) (prepare_published_update now j tpl m)"
  unfolding prepare_published_update_def
  by (intro seal_intros sealed_on_repo locked_save)
     (auto simp: settled_states_def post_create_states_def)

text \<open>A sealed draft cannot be submitted, edited or cancelled.\<close>

lemma locked_load: "locked k d \<Longrightarrow> load_draft d k = Inr (Some dr) \<Longrightarrow> d_state dr \<in> settled_states"
  by (auto simp: locked_def dest: load_draft_version)

lemma required_draft_state: "snd (required_draft k w) = w"
  using repo_get_by_id_state[of k "sw_repo w"]
  by (cases "repo_get_by_id k (sw_repo w)")
     (auto simp: required_draft_def sx_bind_def on_repo_def split: sum.split option.split)

lemma submit_locked:
  assumes "repo_locked k (sw_repo w)"
  shows "snd (submit gw dh aid now k pat rv w) = w"
proof (cases "required_draft k w")
  case (Pair r w1)
  show ?thesis
  proof (cases r)
    case (Inl e)
    then show ?thesis using Pair required_draft_state[of k w] by (simp add: submit_def sx_bind_def)
  next
    case (Inr dr)
    with Pair have "load_draft (rp_db (sw_repo w)) k = Inr (Some dr)" and w1: "w1 = w"
      by (auto simp: required_draft_Inr)
    from locked_load[OF assms this(1)] have "d_state dr \<notin> {REVIEW, SUBMISSION_RETRYABLE}"
      by (auto simp: settled_states_def post_create_states_def)
    then have "snd ((case d_template dr of None \<Rightarrow> sx_raise sub_state_error
        | Some tpl \<Rightarrow> if d_state dr \<notin> {REVIEW, SUBMISSION_RETRYABLE} then sx_raise sub_state_error
                      else submit_loaded gw dh aid now pat dr tpl) w) = w"
      by (cases "d_template dr") auto
    then show ?thesis using Pair Inr w1 by (simp add: submit_def sx_bind_def split: sum.split)
  qed
qed

lemma locked_not_editable:
  "st \<in> settled_states \<Longrightarrow> st \<notin> {REVIEW, EDITING, SUBMISSION_RETRYABLE} \<and>
     \<not> is_transition_allowed st REVIEW \<and> \<not> is_transition_allowed st CANCELLED"
  by (cases st) (auto simp: settled_states_def post_create_states_def is_transition_allowed_def)

lemma keeps_get_draft [seal_intros]: "sx_keeps P (get_draft k actor chat)"
  by (simp add: sx_keeps_def get_draft_state)

lemma keeps_update_template: "sx_keeps (repo_locked k) (update_template now j owner chat tpl rv)"
proof -
  have "repo_locked k (snd (update_template now j owner chat tpl rv s))" if s: "repo_locked k s" for s
    unfolding update_template_def
  proof (rule snd_bind_cases)
    show "repo_locked k (snd (get_draft j (Some owner) (Some chat) s))" using s by (simp add: get_draft_state)
  next
    fix dr t assume "get_draft j (Some owner) (Some chat) s = (Inr dr, t)"
    then have load: "load_draft (rp_db s) j = Inr (Some dr)" and t: "t = s" by (auto simp: get_draft_Inr)
    from load have id: "d_draft_id dr = j" by (auto dest: load_draft_version)
    have edit: "d_draft_id dr \<noteq> k \<or> (\<exists>e. (if d_state dr \<notin> {REVIEW, EDITING, SUBMISSION_RETRYABLE}
        then validate_transition (d_state dr) REVIEW else Inr ()) = Inl e)"
      using locked_not_editable[OF locked_load[OF s, of dr]] load id by (auto simp: validate_transition_def)
    show "repo_locked k (snd (sx_bind (sx_ensure (d_revision dr = rv)
                (DomainError (RevisionConflictError rv (d_revision dr)))) (\<lambda>_.
     sx_bind (sx_lift (if d_state dr \<notin> {REVIEW, EDITING, SUBMISSION_RETRYABLE}
                       then validate_transition (d_state dr) REVIEW else Inr ())) (\<lambda>_.
     sx_bind (sx_lift (draft_post_init
       (dr\<lparr>d_state := REVIEW, d_revision := d_revision dr + 1, d_template := Some tpl,
           d_updated_at := Aware now, d_last_error := None\<rparr>))) (\<lambda>updated.
     sx_bind (repo_save updated None) (\<lambda>_. sx_return updated)))) t))"
      unfolding t
      by (rule sx_keepsD[where P = "repo_locked k", OF _ s], intro seal_intros locked_save) (use edit in auto)
  qed
  then show ?thesis by (simp add: sx_keeps_def)
qed

lemma keeps_edits:
  "sx_keeps (repo_locked k) (toggle_issue_type now j owner chat rv ts)"
  "sx_keeps (repo_locked k) (toggle_priority now j owner chat rv ps)"
  "sx_keeps (repo_locked k) (cancel_draft now j owner chat rv)"
  unfolding toggle_issue_type_def toggle_priority_def toggle_template_def cancel_draft_def
  by (intro seal_intros keeps_update_template locked_cas; simp)+

lemma keeps_expire_loop: "sx_keeps (repo_locked k) (expire_loop now ds c)"
proof (induction ds arbitrary: c)
  case Nil
  show ?case by (simp add: sx_keeps_def)
next
  case (Cons dr ds)
  have "repo_locked k (snd (expire_loop now (dr # ds) c s))" if s: "repo_locked k s" for s
  proof -
    obtain r t where run: "repo_cas now (d_draft_id dr) (d_revision dr) EXPIRED
        (Some ''Draft expired due to inactivity'') s = (r, t)" by fastforce
    have "sx_keeps (repo_locked k) (repo_cas now (d_draft_id dr) (d_revision dr) EXPIRED
        (Some ''Draft expired due to inactivity''))" by (rule locked_cas) simp
    from sx_keepsD[OF this s] run have t: "repo_locked k t" by simp
    from sx_keepsD[OF Cons.IH t] t run show ?thesis by (cases r) simp_all
  qed
  then show ?case by (simp add: sx_keeps_def)
qed

lemma keeps_expire: "sx_keeps (repo_locked k) (expire_eligible_drafts now before)"
  unfolding expire_eligible_drafts_def repo_list_expired_def
  by (intro seal_intros keeps_expire_loop locked_others)

fun allows_retry :: "string \<Rightarrow> service_call \<Rightarrow> bool" where
  "allows_retry k (CallAllowRetry now j) \<longleftrightarrow> j = k"
| "allows_retry k _ \<longleftrightarrow> False"

lemmas sealed_rest = sealed_submission(3-) sealed_prepare sealed_on_repo[OF keeps_update_template]
  sealed_on_repo[OF keeps_edits(1)] sealed_on_repo[OF keeps_edits(2)] sealed_on_repo[OF keeps_edits(3)]
  sealed_on_repo[OF keeps_expire]

lemma serve_sealed:
  assumes "sealed k n w" and "\<not> allows_retry k c"
  shows "sealed k n (serve gw dh c w)"
proof (cases c)
  case (CallSubmit aid now j pat rv)
  show ?thesis
  proof (cases "j = k")
    case True
    with CallSubmit assms(1) show ?thesis by (simp add: submit_locked)
  next
    case False
    from sx_keepsD[OF sealed_submission(1)[OF False] assms(1)] CallSubmit show ?thesis by simp
  qed
next
  case (CallAllowRetry now j)
  with assms(2) have "j \<noteq> k" by simp
  from sx_keepsD[OF sealed_submission(2)[OF this] assms(1)] CallAllowRetry show ?thesis by simp
qed (use sealed_rest[THEN sx_keepsD, OF assms(1)] in simp_all)

lemma serve_all_sealed:
  "sealed k n w \<Longrightarrow> list_all (\<lambda>c. \<not> allows_retry k c) cs \<Longrightarrow> sealed k n (serve_all gw dh cs w)"
proof (induction cs arbitrary: w)
  case (Cons c cs)
  from Cons.prems serve_sealed[where k = k and n = n and w = w and c = c and gw = gw and dh = dh] have "sealed k n (serve gw dh c w)" by simp
  with Cons show ?case by simp
qed simp

text \<open>
  A submission with an unknown outcome is never blindly dispatched again: once the draft is in
  SUBMISSION_UNKNOWN (or its issue exists), no sequence of service calls for any drafts - submissions,
  edits, recoveries, reconciliations, cancellations, sweeps - dispatches another create for it or
  brings it back to a submittable state, unless it contains the explicit negative verdict
  \<open>allow_retry_after_negative_reconciliation\<close> for this draft.
\<close>

theorem unknown_never_redispatched:
  assumes "version (rp_db (sw_repo w)) k = Some (st, n)" and "st \<in> {SUBMISSION_UNKNOWN} \<union> post_create_states"
    and "list_all (\<lambda>c. \<not> allows_retry k c) cs"
  shows "creates k (serve_all gw dh cs w) = creates k w \<and>
         (\<exists>st' n'. version (rp_db (sw_repo (serve_all gw dh cs w))) k = Some (st', n') \<and>
                    st' \<in> {SUBMISSION_UNKNOWN} \<union> post_create_states)"
proof -
  have "sealed k (creates k w) w" using assms(1,2) by (simp add: locked_def settled_states_def)
  from serve_all_sealed[OF this assms(3), of gw dh] show ?thesis
    by (simp add: locked_def settled_states_def)
qed

text \<open>A gateway whose create times out, for evaluation.\<close>

definition sample_issue :: published_issue where
  "sample_issue = \<lparr>pi_issue_key = ''OPS-1'', pi_issue_id = ''1'', pi_issue_url = ''https://jira/OPS-1'',
     pi_published_at = Aware 50\<rparr>"

definition sample_gateway :: "(nat \<Rightarrow> exn + published_issue) \<Rightarrow> submission_gateway" where
  "sample_gateway answer = \<lparr>g_create = (\<lambda>n tpl pat h. answer n), g_link = (\<lambda>n pat a b. Inr ()),
     g_update = (\<lambda>n key tpl pat. Inr ()), g_find = (\<lambda>n pk h pat. Inr []), g_get = (\<lambda>n key pat. Inr None)\<rparr>"

theorem unknown_never_redispatched_witness:
  "creates ''d1'' (serve_all (sample_gateway (\<lambda>_. Inr sample_issue)) (\<lambda>_. ''h'')
       [CallSubmit ''a2'' 60 ''d1'' ''pat'' None, CallCancel 61 ''d1'' 7 7 4, CallSubmit ''a3'' 62 ''d2'' ''pat'' (Some 4)]
       \<lparr>sw_repo = sample_repo SUBMISSION_UNKNOWN 4, sw_calls = []\<rparr>) = 0"
proof -
  let ?w = "\<lparr>sw_repo = sample_repo SUBMISSION_UNKNOWN 4, sw_calls = []\<rparr>"
  have "version (rp_db (sw_repo ?w)) ''d1'' = Some (SUBMISSION_UNKNOWN, 4)"
    by (simp add: version_def find_workflow_def sample_repo_def sample_row_def)
  from unknown_never_redispatched [OF this, of "[CallSubmit ''a2'' 60 ''d1'' ''pat'' None, CallCancel 61 ''d1'' 7 7 4,
      CallSubmit ''a3'' 62 ''d2'' ''pat'' (Some 4)]" "sample_gateway (\<lambda>_. Inr sample_issue)" "\<lambda>_. ''h''"]
  have "creates ''d1'' (serve_all (sample_gateway (\<lambda>_. Inr sample_issue)) (\<lambda>_. ''h'')
       [CallSubmit ''a2'' 60 ''d1'' ''pat'' None, CallCancel 61 ''d1'' 7 7 4, CallSubmit ''a3'' 62 ''d2'' ''pat'' (Some 4)] ?w)
     = creates ''d1'' ?w" by simp
  then show ?thesis by (simp add: creates_def)
qed

section \<open>Outcomes of a submission\<close>

lemma close_attempt_Inr:
  "close_attempt now st err a w = (Inr a', w') \<Longrightarrow>
     a' = a\<lparr>sa_status := st, sa_completed_at := Some (Aware now), sa_error_summary := err\<rparr> \<and>
     sw_calls w' = sw_calls w \<and> version (rp_db (sw_repo w')) k = version (rp_db (sw_repo w)) k"
  by (auto simp: close_attempt_def sx_bind_eq_Inr on_repo_Inr repo_update_attempt_def repo_run_Inr
      dest: update_attempt_workflows intro!: version_workflows)

lemma finish_unknown_Inr:
  assumes "finish_unknown now t i dr a w = (Inr res, w')"
  shows "d_state (rs_draft res) = t \<and> sa_status (rs_attempt res) = ''unknown'' \<and> rs_issue res = i \<and>
    rs_pending res \<and> version (rp_db (sw_repo w')) (d_draft_id dr) = Some (t, d_revision dr + 1)"
  using assms by (auto simp: finish_unknown_def sx_bind_eq_Inr dest!: close_attempt_Inr move_draft_version)

lemma finish_failure_Inr:
  assumes "finish_failure now r u i dr a e w = (Inr res, w')"
  shows "if ec_certainty (classification_of e) = MC_UNKNOWN
    then d_state (rs_draft res) = u \<and> sa_status (rs_attempt res) = ''unknown'' \<and> rs_issue res = i \<and>
      rs_pending res \<and> version (rp_db (sw_repo w')) (d_draft_id dr) = Some (u, d_revision dr + 1)
    else d_state (rs_draft res) = r \<and> sa_status (rs_attempt res) = ''failed'' \<and> rs_issue res = i \<and>
      \<not> rs_pending res \<and> version (rp_db (sw_repo w')) (d_draft_id dr) = Some (r, d_revision dr + 1)"
  using assms finish_unknown_Inr[of now u i dr a w res w']
  by (auto simp: finish_failure_def sx_bind_eq_Inr split: if_splits dest!: close_attempt_Inr move_draft_version)

text \<open>The three outcomes \<open>submit\<close> distinguishes, from the answer of the gateway.\<close>

definition outcome_of :: "exn + published_issue \<Rightarrow> draft_state \<times> string \<times> published_issue option \<times> bool" where
  "outcome_of answer =
     (case answer of
        Inr issue \<Rightarrow> (CREATED, ''success'', Some issue, False)
      | Inl (DomainError e) \<Rightarrow>
          if ec_certainty (classification_of e) = MC_UNKNOWN then (SUBMISSION_UNKNOWN, ''unknown'', None, True)
          else (SUBMISSION_RETRYABLE, ''failed'', None, False)
      | Inl _ \<Rightarrow> (SUBMISSION_UNKNOWN, ''unknown'', None, True))"

lemma record_create_Inr:
  assumes "record_create gw now pat tpl dr a answer w = (Inr res, w')"
  shows "(d_state (rs_draft res), sa_status (rs_attempt res), rs_issue res, rs_pending res) = outcome_of answer \<and>
    version (rp_db (sw_repo w')) (d_draft_id dr) = Some (d_state (rs_draft res), d_revision dr + 1)"
proof (cases answer)
  case (Inr issue)
  with assms show ?thesis
    by (auto simp: record_create_def outcome_of_def sx_bind_eq_Inr dest!: close_attempt_Inr move_draft_version)
next
  case (Inl x)
  show ?thesis
  proof (cases "\<exists>e. x = DomainError e")
    case True
    with assms Inl obtain e where x: "x = DomainError e"
      and f: "finish_failure now SUBMISSION_RETRYABLE SUBMISSION_UNKNOWN None dr a e w = (Inr res, w')"
      by (auto simp: record_create_def)
    from finish_failure_Inr[OF f] show ?thesis unfolding Inl x by (auto simp: outcome_of_def split: if_splits)
  next
    case False
    with assms Inl have "finish_unknown now SUBMISSION_UNKNOWN None dr a w = (Inr res, w')"
      by (cases x) (auto simp: record_create_def)
    from finish_unknown_Inr[OF this] False show ?thesis unfolding Inl by (cases x) (auto simp: outcome_of_def)
  qed
qed

text \<open>Recording an outcome only appends to the calls, and the template stays.\<close>

abbreviation onwards :: "(gateway_call \<times> db) list \<Rightarrow> string \<Rightarrow> jira_template option \<Rightarrow> sub_world \<Rightarrow> bool" where
  "onwards cs k t w \<equiv> stored_template (rp_db (sw_repo w)) k = t \<and> (\<exists>more. sw_calls w = cs @ more)"

lemma onwards_on_repo:
  "(\<And>s x s'. m s = (x, s') \<Longrightarrow> stored_template (rp_db s') k = stored_template (rp_db s) k) \<Longrightarrow> sx_keeps (onwards cs k t) (on_repo m)"
  by (auto simp: sx_keeps_def on_repo_def split: prod.splits)

lemma onwards_run:
  "(\<And>d x d'. f d = Inr (x, d') \<Longrightarrow> db_workflows d' = db_workflows d) \<Longrightarrow> sx_keeps (onwards cs k t) (on_repo (repo_run f))"
  by (intro onwards_on_repo) (auto simp: repo_run_def intro: workflows_stored_template split: if_splits sum.splits)

lemma onwards_move: "sx_keeps (onwards cs k t) (move_draft now dr st err)"
proof -
  have "stored_template (rp_db s') k = stored_template (rp_db s) k"
    if "repo_cas now (d_draft_id dr) (d_revision dr) st err s = (x, s')" for s x s'
  proof (cases x)
    case (Inr dr')
    with that show ?thesis by (auto simp: repo_cas_Inr dest: cas_stored_template)
  next
    case (Inl e)
    with that have "s' = s"
      by (cases "validate_safe_code err") (auto simp: repo_cas_def repo_run_Inl)
    then show ?thesis by simp
  qed
  then show ?thesis unfolding move_draft_def by (rule onwards_on_repo)
qed

lemma onwards_close: "sx_keeps (onwards cs k t) (close_attempt now st err a)"
  unfolding close_attempt_def repo_update_attempt_def
  by (intro inv_intros onwards_run onwards_on_repo) (auto dest: update_attempt_workflows simp: repo_run_def sx_bind_def
      intro: workflows_stored_template split: if_splits sum.splits)

lemma onwards_store: "sx_keeps (onwards cs k t) (on_repo (repo_store_published_issue i issue))"
  unfolding repo_store_published_issue_def by (rule onwards_run) (force dest: other_ops_workflows)

lemma onwards_perform: "sx_keeps (onwards cs k t) (perform c answer)"
  by (auto simp: sx_keeps_def)

lemma record_create_onwards:
  assumes "record_create gw now pat tpl dr a answer w = (x, w')"
  shows "stored_template (rp_db (sw_repo w')) k = stored_template (rp_db (sw_repo w)) k \<and> (\<exists>more. sw_calls w' = sw_calls w @ more)"
proof -
  have "sx_keeps (onwards (sw_calls w) k (stored_template (rp_db (sw_repo w)) k)) (record_create gw now pat tpl dr a answer)"
    unfolding record_create_def finish_failure_def finish_unknown_def auto_link_def
    by (auto split: sum.split exn.split intro!: inv_intros onwards_move onwards_close onwards_store onwards_perform)
  from sx_keepsD[OF this, of w] show ?thesis using assms by simp
qed

lemma submit_result:
  assumes "submit gw dh aid now k pat rv w = (Inr res, w')"
  shows "\<exists>dr tpl. load_draft (rp_db (sw_repo w)) k = Inr (Some dr) \<and> d_template dr = Some tpl \<and>
    (rv = None \<or> rv = Some (d_revision dr)) \<and> d_state dr \<in> {REVIEW, SUBMISSION_RETRYABLE} \<and>
    (d_state (rs_draft res), sa_status (rs_attempt res), rs_issue res, rs_pending res) =
      outcome_of (g_create gw (length (sw_calls w)) tpl pat (canonical_request_hash dh tpl)) \<and>
    version (rp_db (sw_repo w')) k = Some (d_state (rs_draft res), d_revision dr + 2) \<and>
    stored_template (rp_db (sw_repo w')) k = Some tpl \<and>
    (\<exists>d more. sw_calls w' = sw_calls w @ (CreateIssue k tpl (canonical_request_hash dh tpl), d) # more)"
proof -
  from assms obtain dr w1 where rd: "required_draft k w = (Inr dr, w1)"
    and rest: "sx_bind (sx_ensure (rv = None \<or> rv = Some (d_revision dr))
        (DomainError (RevisionConflictError (the rv) (d_revision dr)))) (\<lambda>_.
     (case d_template dr of
        None \<Rightarrow> sx_raise sub_state_error
      | Some tpl \<Rightarrow>
          if d_state dr \<notin> {REVIEW, SUBMISSION_RETRYABLE} then sx_raise sub_state_error
          else submit_loaded gw dh aid now pat dr tpl)) w1 = (Inr res, w')"
    unfolding submit_def sx_bind_eq_Inr[of "required_draft k"] by blast
  from rd have load: "load_draft (rp_db (sw_repo w)) k = Inr (Some dr)" and w1: "w1 = w" by (auto simp: required_draft_Inr)
  from rest w1 obtain tpl where tpl: "d_template dr = Some tpl" and rv: "rv = None \<or> rv = Some (d_revision dr)"
    and st: "d_state dr \<in> {REVIEW, SUBMISSION_RETRYABLE}"
    and run: "submit_loaded gw dh aid now pat dr tpl w = (Inr res, w')"
    by (auto simp: bind_ensure_Inr simp del: insert_iff split: option.splits if_splits)
  from load have id: "d_draft_id dr = k" by (auto dest: load_draft_version)
  from run obtain sub w2 a w3 w4 where mv: "move_draft now dr SUBMITTING None w = (Inr sub, w2)"
    and na: "new_attempt dh aid now sub tpl w2 = (Inr a, w3)"
    and cl: "on_repo (repo_claim_attempt a) w3 = (Inr True, w4)"
    and rc: "record_create gw now pat tpl sub a (g_create gw (length (sw_calls w4)) tpl pat (sa_request_hash a))
      (w4\<lparr>sw_calls := sw_calls w4 @ [(CreateIssue (d_draft_id dr) tpl (sa_request_hash a), rp_db (sw_repo w4))]\<rparr>) = (Inr res, w')"
    by (auto simp: submit_loaded_def sx_bind_eq_Inr split: if_splits)
  note m = move_draft_version[OF mv] and n = new_attempt_Inr[OF na] and c = claim_durable[OF cl, of k]
  have "stored_template (rp_db (sw_repo w4)) k = Some tpl"
    using load_stored_template[OF load] move_draft_template[OF mv, of k] claim_template[OF cl, of k] n tpl by simp
  with record_create_onwards[OF rc, of k] m n c id obtain more where "stored_template (rp_db (sw_repo w')) k = Some tpl"
      "sw_calls w' = sw_calls w @ (CreateIssue k tpl (canonical_request_hash dh tpl), rp_db (sw_repo w4)) # more"
    by auto
  with record_create_Inr[OF rc] m n c id load tpl rv st show ?thesis by auto
qed

text \<open>
  Every submission that returns is accounted for: the stored draft was submittable and had the
  expected revision; the answer of the gateway alone decides the outcome - an issue gives CREATED with
  that issue and a successful attempt, a classified failure whose mutation certainty is not UNKNOWN
  gives SUBMISSION_RETRYABLE with a failed attempt, everything else SUBMISSION_UNKNOWN with
  reconciliation pending - and exactly that state is stored, two revisions later.
\<close>

theorem submit_outcome:
  assumes "submit gw dh aid now k pat rv w = (Inr res, w')"
  shows "\<exists>dr tpl. load_draft (rp_db (sw_repo w)) k = Inr (Some dr) \<and> d_template dr = Some tpl \<and>
    (rv = None \<or> rv = Some (d_revision dr)) \<and> d_state dr \<in> {REVIEW, SUBMISSION_RETRYABLE} \<and>
    (d_state (rs_draft res), sa_status (rs_attempt res), rs_issue res, rs_pending res) =
      outcome_of (g_create gw (length (sw_calls w)) tpl pat (canonical_request_hash dh tpl)) \<and>
    version (rp_db (sw_repo w')) k = Some (d_state (rs_draft res), d_revision dr + 2)"
  using submit_result[OF assms] by blast

theorem submit_outcome_witness:
  "\<exists>res w'. submit (sample_gateway (\<lambda>_. Inl OSError)) (\<lambda>_. ''h'') ''a1'' 60 ''d1'' ''pat'' (Some 4)
       \<lparr>sw_repo = sample_review_repo, sw_calls = []\<rparr> = (Inr res, w') \<and>
     d_state (rs_draft res) = SUBMISSION_UNKNOWN \<and> rs_pending res \<and>
     version (rp_db (sw_repo w')) ''d1'' = Some (SUBMISSION_UNKNOWN, 6)"
proof -
  let ?w = "\<lparr>sw_repo = sample_review_repo, sw_calls = []\<rparr>"
  let ?m = "submit (sample_gateway (\<lambda>_. Inl OSError)) (\<lambda>_. ''h'') ''a1'' 60 ''d1'' ''pat'' (Some 4) ?w"
  have "\<not> isl (fst ?m)"
    by (simp add: submit_def required_draft_def on_repo_def repo_get_by_id_def get_by_id_sync_def repo_run_def
        load_review_sample sx_bind_app)
       (simp add: submit_loaded_def move_draft_def on_repo_def repo_cas_def validate_safe_code_def cas_sync_def
        sx_bind_app repo_eval sample_review_repo_def load_draft_def draft_post_init_def new_attempt_def
        repo_get_latest_attempt_def get_latest_attempt_sync_def submission_attempt_post_init_def
        canonical_request_hash_def repo_claim_attempt_def claim_attempt_sync_def attempt_claim_states_def
        attempt_values_def attempt_statuses_def sql_insert_def sa_check_def sa_clash_def opt_to_db_def
        sample_gateway_def record_create_def finish_unknown_def close_attempt_def repo_update_attempt_def
        update_attempt_sync_def safe_code_char_def)
  then obtain res w' where run: "?m = (Inr res, w')" using sum_result_Inr by blast
  from submit_outcome [OF run] have "outcome_of (Inl OSError) =
      (d_state (rs_draft res), sa_status (rs_attempt res), rs_issue res, rs_pending res) \<and>
      version (rp_db (sw_repo w')) ''d1'' = Some (d_state (rs_draft res), 6)"
    by (auto simp: load_review_sample sample_gateway_def)
  then have "d_state (rs_draft res) = SUBMISSION_UNKNOWN \<and> rs_pending res \<and>
     version (rp_db (sw_repo w')) ''d1'' = Some (SUBMISSION_UNKNOWN, 6)" by (auto simp: outcome_of_def)
  with run show ?thesis by blast
qed

section \<open>Crash windows that recovery does not cover\<close>

fun call_draft :: "service_call \<Rightarrow> string option" where
  "call_draft (CallSubmit aid now k pat rv) = Some k"
| "call_draft (CallRecover now k) = Some k"
| "call_draft (CallReconcileCreate now k pat) = Some k"
| "call_draft (CallAllowRetry now k) = Some k"
| "call_draft (CallPrepareUpdate now k tpl rv) = Some k"
| "call_draft (CallConfirmUpdate aid now k pat rv) = Some k"
| "call_draft (CallReconcileUpdate now k pat) = Some k"
| "call_draft (CallUpdateTemplate now k owner chat tpl rv) = Some k"
| "call_draft (CallToggleType now k owner chat rv ts) = Some k"
| "call_draft (CallTogglePriority now k owner chat rv ps) = Some k"
| "call_draft (CallCancel now k owner chat rv) = Some k"
| "call_draft (CallExpire now before) = None"

text \<open>The draft is being submitted but its latest attempt is not pending (it was completed, or never
  claimed) and no issue is stored; or it is being updated.\<close>

definition stranded :: "db \<Rightarrow> draft \<Rightarrow> bool" where
  "stranded d dr \<longleftrightarrow>
     d_state dr = UPDATING \<or>
     (d_state dr = SUBMITTING \<and> d_published_issue dr = None \<and>
      (case get_latest_attempt_sync (d_draft_id dr) d of
         Inr (Some a, d') \<Rightarrow> sa_status a \<noteq> ''pending''
       | _ \<Rightarrow> True))"

lemma required_draft_loaded:
  assumes "load_draft (rp_db (sw_repo w)) k = Inr (Some dr)"
  shows "(\<exists>e. required_draft k w = (Inl e, w)) \<or> required_draft k w = (Inr dr, w)"
  using assms by (auto simp: required_draft_def sx_bind_def on_repo_def repo_get_by_id_def repo_run_def
      get_by_id_sync_def)

lemma bind_required_unchanged:
  assumes "load_draft (rp_db (sw_repo w)) k = Inr (Some dr)" and "snd (f dr w) = w"
  shows "snd (sx_bind (required_draft k) f w) = w"
  using required_draft_loaded[OF assms(1)] assms(2) by (auto simp: sx_bind_def)

lemma bind_ensure_unchanged: "snd (f () w) = w \<Longrightarrow> snd (sx_bind (sx_ensure b e) f w) = w"
  by (cases b) (simp_all add: sx_bind_def)

lemma bind_get_draft_unchanged:
  assumes "load_draft (rp_db s) k = Inr (Some dr)" and "snd (f dr s) = s"
  shows "snd (sx_bind (get_draft k actor chat) f s) = s"
proof (rule snd_bind_cases[where P = "\<lambda>t. t = s"])
  show "snd (get_draft k actor chat s) = s" by (rule get_draft_state)
  show "snd (f x t) = s" if "get_draft k actor chat s = (Inr x, t)" for x t
    using that assms by (auto simp: get_draft_Inr)
qed

lemma on_repo_unchanged: "snd (m (sw_repo w)) = sw_repo w \<Longrightarrow> snd (on_repo m w) = w"
  by (cases "m (sw_repo w)") (simp add: on_repo_def)

lemma stranded_not_editable:
  "stranded d dr \<Longrightarrow> d_state dr \<notin> {REVIEW, EDITING, SUBMISSION_RETRYABLE} \<and>
     \<not> is_transition_allowed (d_state dr) REVIEW \<and> \<not> is_transition_allowed (d_state dr) CANCELLED"
  by (auto simp: stranded_def is_transition_allowed_def)

lemma stranded_edits:
  assumes load: "load_draft (rp_db s) k = Inr (Some dr)" and str: "stranded (rp_db s) dr"
  shows "snd (update_template now k owner chat tpl rv s) = s" "snd (cancel_draft now k owner chat rv s) = s"
    and "snd (toggle_template ch now k owner chat rv s) = s"
proof -
  note edit = stranded_not_editable[OF str]
  show upd: "snd (update_template now k owner chat tpl rv s) = s" for tpl
    unfolding update_template_def
    by (rule bind_get_draft_unchanged[OF load], rule bind_ensure_unchanged)
       (use edit in \<open>simp add: validate_transition_def sx_bind_def\<close>)
  show "snd (cancel_draft now k owner chat rv s) = s"
    unfolding cancel_draft_def
    by (rule bind_get_draft_unchanged[OF load]) (use edit in \<open>simp add: validate_transition_def sx_bind_def\<close>)
  show "snd (toggle_template ch now k owner chat rv s) = s"
    unfolding toggle_template_def
    by (rule bind_get_draft_unchanged[OF load]) (simp add: upd split: option.split)
qed

lemma latest_attempt_state: "snd (latest_attempt k w) = w"
  unfolding latest_attempt_def
  by (rule on_repo_unchanged) (auto simp: repo_get_latest_attempt_def repo_run_def split: sum.split dest: reads_same)

lemma bind_latest_unchanged:
  assumes "\<And>found. get_latest_attempt_sync k (rp_db (sw_repo w)) = Inr (found, rp_db (sw_repo w)) \<Longrightarrow> snd (f found w) = w"
  shows "snd (sx_bind (latest_attempt k) f w) = w"
proof (rule snd_bind_cases[where P = "\<lambda>t. t = w"])
  show "snd (latest_attempt k w) = w" by (rule latest_attempt_state)
  show "snd (f x t) = w" if "latest_attempt k w = (Inr x, t)" for x t
    using that assms latest_attempt_state[of k w] by (auto simp: latest_attempt_def on_repo_Inr get_latest_Inr)
qed

lemma stranded_submission:
  assumes load: "load_draft (rp_db (sw_repo w)) k = Inr (Some dr)" and str: "stranded (rp_db (sw_repo w)) dr"
  shows "snd (submit gw dh aid now k pat rv w) = w" "snd (reconcile_create gw now k pat w) = w"
    "snd (allow_retry_after_negative_reconciliation now k w) = w"
    "snd (prepare_published_update now k tpl n w) = w" "snd (confirm_published_update gw dh aid now k pat n w) = w"
    "snd (reconcile_update gw now k pat w) = w"
  unfolding submit_def reconcile_create_def allow_retry_after_negative_reconciliation_def
    prepare_published_update_def confirm_published_update_def reconcile_update_def
  by (rule bind_required_unchanged[OF load], (rule bind_ensure_unchanged bind_latest_unchanged)?,
      use str in \<open>auto simp: stranded_def split: option.split\<close>)+

lemma stranded_recover:
  assumes load: "load_draft (rp_db (sw_repo w)) k = Inr (Some dr)" and str: "stranded (rp_db (sw_repo w)) dr"
  shows "snd (recover_stalled now k w) = w"
  unfolding recover_stalled_def
proof (rule bind_required_unchanged[OF load], rule bind_latest_unchanged)
  fix found assume found: "get_latest_attempt_sync k (rp_db (sw_repo w)) = Inr (found, rp_db (sw_repo w))"
  have "d_draft_id dr = k" using load by (auto dest: load_draft_version)
  then show "snd ((case found of
          None \<Rightarrow> sx_raise sub_state_error
        | Some a \<Rightarrow>
            if d_state dr \<noteq> SUBMITTING then sx_raise sub_state_error
            else (case d_published_issue dr of
                Some issue \<Rightarrow>
                  sx_bind (if sa_status a = ''success'' then sx_return a else close_attempt now ''success'' None a) (\<lambda>ok.
                  sx_bind (move_draft now dr CREATED None) (\<lambda>created.
                    sx_return \<lparr>rs_draft = created, rs_attempt = ok, rs_issue = Some issue, rs_pending = False\<rparr>))
              | None \<Rightarrow>
                  if sa_status a = ''pending'' then finish_unknown now SUBMISSION_UNKNOWN None dr a
                  else sx_raise sub_state_error)) w) = w"
    using str found by (cases found) (auto simp: stranded_def)
qed

text \<open>
  C13. Two crash windows have no way out.  A draft in UPDATING, and a draft in SUBMITTING without a
  stored issue whose latest attempt is not pending (the process died between completing the attempt
  and storing the issue, or before claiming one), is stranded: every service call made for it -
  recovery and both reconciliations included - leaves the repository and the call log unchanged, and
  no cancellation is possible.
\<close>

theorem crash_windows_not_recovered:
  assumes "load_draft (rp_db (sw_repo w)) k = Inr (Some dr)" and "stranded (rp_db (sw_repo w)) dr"
    and "call_draft c = Some k"
  shows "serve gw dh c w = w \<and> stranded (rp_db (sw_repo (serve gw dh c w))) dr"
proof -
  have "serve gw dh c w = w"
    using assms(3) stranded_submission[OF assms(1,2)] stranded_recover[OF assms(1,2)] stranded_edits[OF assms(1,2)]
    by (cases c) (auto intro!: on_repo_unchanged simp: toggle_issue_type_def toggle_priority_def)
  with assms(2) show ?thesis by simp
qed

theorem crash_windows_not_recovered_witness:
  "serve (sample_gateway (\<lambda>_. Inr sample_issue)) (\<lambda>_. ''h'') (CallRecover 70 ''d1'')
     \<lparr>sw_repo = sample_repo UPDATING 7, sw_calls = []\<rparr> = \<lparr>sw_repo = sample_repo UPDATING 7, sw_calls = []\<rparr>"
proof -
  let ?w = "\<lparr>sw_repo = sample_repo UPDATING 7, sw_calls = []\<rparr>"
  have "load_draft (rp_db (sw_repo ?w)) ''d1'' = Inr (Some \<lparr>d_draft_id = ''d1'', d_owner_id = 7, d_chat_id = 7,
       d_thread_id = None, d_state = UPDATING, d_revision = 7, d_template = None, d_source_messages = [],
       d_attachments = [], d_created_at = Aware 10, d_updated_at = Aware 20, d_published_issue = None,
       d_last_error = None\<rparr>)" by (simp add: load_sample)
  from crash_windows_not_recovered [OF this, of "CallRecover 70 ''d1''" "sample_gateway (\<lambda>_. Inr sample_issue)" "\<lambda>_. ''h''"]
  show ?thesis by (simp add: stranded_def)
qed

end
