(* ===== verification/Attachment_Service.thy ===== *)
theory Attachment_Service
  imports Workflow_Service
begin

text \<open>
  The upload of a draft's attachments to its issue, \<open>src/src/dztgbot/services/attachment_service.py\<close>.
  The file loader and the Jira gateway are functions that also receive the number of calls made so
  far; file contents are strings of bytes.  The world holds the repository, that number, and the log
  of the uploads that were dispatched: the issue, the file's unique id, its size and whether the
  gateway reported success.
\<close>

section \<open>Policy and content\<close>

record attachment_content =
  ac_content :: string
  ac_filename :: string
  ac_mime_type :: string

definition attachment_content_post_init :: "attachment_content \<Rightarrow> exn + attachment_content" where
  "attachment_content_post_init c =
     (if ac_content c = [] \<or> ac_filename c = [] \<or> ac_mime_type c = []
      then Inl (ValueError ''attachment content metadata must not be empty'') else Inr c)"

record attachment_policy =
  ap_max_count :: int
  ap_max_file_bytes :: int
  ap_max_total_bytes :: int
  ap_allowed_mime_types :: "string list"

definition attachment_policy_post_init :: "attachment_policy \<Rightarrow> exn + attachment_policy" where
  "attachment_policy_post_init p =
     (if min (ap_max_count p) (min (ap_max_file_bytes p) (ap_max_total_bytes p)) \<le> 0
      then Inl (ValueError ''attachment bounds must be positive'')
      else if ap_allowed_mime_types p = [] then Inl (ValueError ''allowed_mime_types must not be empty'')
      else Inr p)"

definition default_attachment_policy :: attachment_policy where
  "default_attachment_policy = \<lparr>ap_max_count = 10, ap_max_file_bytes = 10 * 1024 * 1024,
     ap_max_total_bytes = 25 * 1024 * 1024, ap_allowed_mime_types = [''image/jpeg'', ''image/png'', ''image/webp'']\<rparr>"

section \<open>The world\<close>

record upload =
  ul_issue_key :: string
  ul_unique_id :: string
  ul_size :: int
  ul_done :: bool

record att_world =
  aw_repo :: repo
  aw_calls :: nat
  aw_uploads :: "upload list"

record attachment_ports =
  pt_load :: "nat \<Rightarrow> string \<Rightarrow> exn + attachment_content"
  pt_upload :: "nat \<Rightarrow> string \<Rightarrow> attachment_content \<Rightarrow> string \<Rightarrow> exn + string"

record batch_result =
  br_draft :: draft
  br_uploaded :: nat
  br_failed :: nat
  br_skipped :: nat

definition in_repo :: "(repo, exn, 'a) sx \<Rightarrow> (att_world, exn, 'a) sx" where
  "in_repo m = (\<lambda>w. case m (aw_repo w) of (r, s) \<Rightarrow> (r, w\<lparr>aw_repo := s\<rparr>))"

text \<open>
  \<open>set_attachment_status\<close> as the service reaches it.  The service passes members of its own
  enumeration, which are equal but not identical to the repository's, so the repository's test
  \<open>target_status is AttachmentStatus.UPLOADED\<close> never holds and the identifier it guards is not checked.
\<close>

definition service_set_status ::
  "string \<Rightarrow> string \<Rightarrow> attachment_status \<Rightarrow> attachment_status \<Rightarrow> datetime \<Rightarrow> string option \<Rightarrow>
   string option \<Rightarrow> (repo, exn, bool) sx" where
  "service_set_status k uid expected target updated_at uploaded err =
     sx_bind (sx_lift (validate_datetime updated_at)) (\<lambda>_.
     sx_bind (sx_lift (validate_safe_code err)) (\<lambda>_.
     sx_bind (sx_ensure (target \<in> set (attachment_targets expected))
                (ValueError ''attachment status transition is invalid'')) (\<lambda>_.
       repo_run (set_attachment_status_sync k uid expected target updated_at uploaded err))))"

section \<open>One upload\<close>

text \<open>The handlers of the three \<open>except\<close> clauses differ only in the stored code.\<close>

fun failure_code :: "exn \<Rightarrow> string" where
  "failure_code (AttachmentRejected code) = code"
| "failure_code (DomainError e) = domain_error_code e"
| "failure_code _ = ''attachment_failed''"

text \<open>The body of the \<open>try\<close>: the new identifier and the size, or the exception.\<close>

definition load_checked ::
  "attachment_ports \<Rightarrow> attachment_policy \<Rightarrow> int \<Rightarrow> attachment \<Rightarrow> nat \<Rightarrow> exn + attachment_content" where
  "load_checked pt pol used a n =
     rbind (rbind (pt_load pt n (at_file_id a)) attachment_content_post_init) (\<lambda>c.
       (let size = int (length (ac_content c)) in
        if ac_mime_type c \<notin> set (ap_allowed_mime_types pol) then Inl (AttachmentRejected ''attachment_type_limit'')
        else if size > ap_max_file_bytes pol \<or> used + size > ap_max_total_bytes pol then
          Inl (AttachmentRejected ''attachment_size_limit'')
        else Inr c))"

definition try_upload ::
  "attachment_ports \<Rightarrow> attachment_policy \<Rightarrow> string \<Rightarrow> string \<Rightarrow> int \<Rightarrow> attachment \<Rightarrow>
   (att_world, exn, exn + (string \<times> int)) sx" where
  "try_upload pt pol pat key used a = (\<lambda>w.
     (case load_checked pt pol used a (aw_calls w) of
        Inl e \<Rightarrow> (Inr (Inl e), w\<lparr>aw_calls := aw_calls w + 1\<rparr>)
      | Inr c \<Rightarrow>
          (let answer = pt_upload pt (aw_calls w) key c pat; size = int (length (ac_content c)) in
           (Inr (case answer of Inl e \<Rightarrow> Inl e | Inr i \<Rightarrow> Inr (i, size)),
            w\<lparr>aw_calls := aw_calls w + 1,
              aw_uploads := aw_uploads w @ [\<lparr>ul_issue_key = key, ul_unique_id = at_file_unique_id a,
                ul_size = size, ul_done = (case answer of Inl _ \<Rightarrow> False | Inr _ \<Rightarrow> True)\<rparr>]\<rparr>))))"

section \<open>The batch\<close>

record batch_acc =
  bc_uploaded :: nat
  bc_failed :: nat
  bc_skipped :: nat
  bc_total :: int
  bc_seen :: "string list"

definition empty_acc :: batch_acc where
  "empty_acc = \<lparr>bc_uploaded = 0, bc_failed = 0, bc_skipped = 0, bc_total = 0, bc_seen = []\<rparr>"

definition skip_attachment :: "int \<Rightarrow> string \<Rightarrow> stored_attachment \<Rightarrow> string \<Rightarrow> (att_world, exn, bool) sx" where
  "skip_attachment now k r code =
     (if st_status r = AS_UPLOADING then sx_return False
      else in_repo (service_set_status k (at_file_unique_id (st_attachment r)) (st_status r) AS_SKIPPED
             (Aware now) None (Some code)))"

definition upload_one ::
  "attachment_ports \<Rightarrow> attachment_policy \<Rightarrow> int \<Rightarrow> string \<Rightarrow> string \<Rightarrow> string \<Rightarrow> batch_acc \<Rightarrow> stored_attachment \<Rightarrow>
   (att_world, exn, batch_acc) sx" where
  "upload_one pt pol now k pat key acc r =
     (let uid = at_file_unique_id (st_attachment r) in
      sx_bind (in_repo (service_set_status k uid (st_status r) AS_UPLOADING (Aware now) None None)) (\<lambda>claimed.
      if \<not> claimed then sx_return acc
      else
        sx_bind (try_upload pt pol pat key (bc_total acc) (st_attachment r)) (\<lambda>outcome.
        (case outcome of
           Inl e \<Rightarrow>
             sx_bind (in_repo (service_set_status k uid AS_UPLOADING AS_FAILED (Aware now) None
                       (Some (failure_code e)))) (\<lambda>_.
               sx_return (acc\<lparr>bc_failed := bc_failed acc + 1\<rparr>))
         | Inr (i, n) \<Rightarrow>
             sx_bind (in_repo (service_set_status k uid AS_UPLOADING AS_UPLOADED (Aware now) (Some i) None)) (\<lambda>_.
               sx_return (acc\<lparr>bc_uploaded := bc_uploaded acc + 1, bc_total := bc_total acc + n\<rparr>))))))"

fun upload_loop ::
  "attachment_ports \<Rightarrow> attachment_policy \<Rightarrow> int \<Rightarrow> string \<Rightarrow> string \<Rightarrow> string \<Rightarrow> nat \<Rightarrow> stored_attachment list \<Rightarrow>
   batch_acc \<Rightarrow> (att_world, exn, batch_acc) sx" where
  "upload_loop pt pol now k pat key index [] acc = sx_return acc"
| "upload_loop pt pol now k pat key index (r # rs) acc =
     (let uid = at_file_unique_id (st_attachment r);
          go = upload_loop pt pol now k pat key (index + 1) rs;
          seen = acc\<lparr>bc_seen := uid # bc_seen acc\<rparr>;
          skipped = (\<lambda>a b. if b then a\<lparr>bc_skipped := bc_skipped a + 1\<rparr> else a)
      in
      if st_status r \<in> {AS_UPLOADED, AS_SKIPPED} then go seen
      else if uid \<in> set (bc_seen acc) \<or> int index \<ge> ap_max_count pol then
        sx_bind (skip_attachment now k r
          (if uid \<in> set (bc_seen acc) then ''attachment_duplicate'' else ''attachment_count_limit''))
          (\<lambda>b. go (skipped acc b))
      else if (case at_file_size (st_attachment r) of None \<Rightarrow> False
               | Some n \<Rightarrow> n > ap_max_file_bytes pol \<or> bc_total acc + n > ap_max_total_bytes pol) then
        sx_bind (skip_attachment now k r ''attachment_size_limit'') (\<lambda>b. go (skipped seen b))
      else sx_bind (upload_one pt pol now k pat key seen r) go)"

text \<open>\<open>upload_pending\<close> from its end: the final state, the batch on a draft in ATTACHING, the whole call.\<close>

definition finish_batch ::
  "int \<Rightarrow> string \<Rightarrow> draft \<Rightarrow> batch_acc \<Rightarrow> (att_world, exn, batch_result) sx" where
  "finish_batch now k attaching acc =
     sx_bind (in_repo (repo_list_attachments k)) (\<lambda>final_records.
       (let partial = list_ex (\<lambda>r. st_status r = AS_FAILED) final_records in
        sx_bind (in_repo (repo_cas now k (d_revision attaching)
           (if partial then ATTACHMENT_PARTIAL else COMPLETE)
           (if partial then Some ''attachment_partial'' else None))) (\<lambda>final.
          sx_return \<lparr>br_draft = final, br_uploaded = bc_uploaded acc,
            br_failed = bc_failed acc, br_skipped = bc_skipped acc\<rparr>)))"

definition upload_records ::
  "attachment_ports \<Rightarrow> attachment_policy \<Rightarrow> int \<Rightarrow> string \<Rightarrow> string \<Rightarrow> string \<Rightarrow> draft \<Rightarrow> stored_attachment list \<Rightarrow>
   (att_world, exn, batch_result) sx" where
  "upload_records pt pol now k pat key attaching records =
     sx_bind (upload_loop pt pol now k pat key 0 records empty_acc) (finish_batch now k attaching)"

definition upload_attaching ::
  "attachment_ports \<Rightarrow> attachment_policy \<Rightarrow> int \<Rightarrow> string \<Rightarrow> string \<Rightarrow> string \<Rightarrow> draft \<Rightarrow>
   (att_world, exn, batch_result) sx" where
  "upload_attaching pt pol now k pat key attaching =
     sx_bind (in_repo (repo_list_attachments k)) (upload_records pt pol now k pat key attaching)"

definition upload_found ::
  "attachment_ports \<Rightarrow> attachment_policy \<Rightarrow> int \<Rightarrow> string \<Rightarrow> string \<Rightarrow> draft option \<Rightarrow>
   (att_world, exn, batch_result) sx" where
  "upload_found pt pol now k pat found =
     (case found of
        None \<Rightarrow> sx_raise (ValueError ''attachment_workflow_unavailable'')
      | Some dr \<Rightarrow>
          (case d_published_issue dr of
             None \<Rightarrow> sx_raise (ValueError ''attachment_workflow_unavailable'')
           | Some issue \<Rightarrow>
               if d_state dr \<notin> {CREATED, ATTACHMENT_PARTIAL} then sx_raise (ValueError ''attachment_state_conflict'')
               else if d_attachments dr = [] then
                 sx_bind (in_repo (repo_cas now k (d_revision dr) COMPLETE None)) (\<lambda>complete.
                   sx_return \<lparr>br_draft = complete, br_uploaded = 0, br_failed = 0, br_skipped = 0\<rparr>)
               else
                 sx_bind (in_repo (repo_cas now k (d_revision dr) ATTACHING None))
                   (upload_attaching pt pol now k pat (pi_issue_key issue))))"

definition upload_pending ::
  "attachment_ports \<Rightarrow> attachment_policy \<Rightarrow> int \<Rightarrow> string \<Rightarrow> string \<Rightarrow> (att_world, exn, batch_result) sx" where
  "upload_pending pt pol now k pat = sx_bind (in_repo (repo_get_by_id k)) (upload_found pt pol now k pat)"

section \<open>What a batch uploads\<close>

text \<open>
  A batch over \<open>rs\<close> that started with the accumulator \<open>acc\<close> appends \<open>us\<close> to the upload log: only to the issue,
  each file at most once and only if it was not yet done, within the remaining count and bytes.
\<close>

definition allowed_batch ::
  "attachment_policy \<Rightarrow> string \<Rightarrow> nat \<Rightarrow> stored_attachment list \<Rightarrow> batch_acc \<Rightarrow> upload list \<Rightarrow> bool" where
  "allowed_batch pol key index rs acc us \<longleftrightarrow>
     (\<forall>u \<in> set us. ul_issue_key u = key \<and> ul_size u \<le> ap_max_file_bytes pol) \<and>
     distinct (map ul_unique_id us) \<and> set (map ul_unique_id us) \<inter> set (bc_seen acc) = {} \<and>
     set (map ul_unique_id us) \<subseteq>
       {at_file_unique_id (st_attachment r) | r. r \<in> set rs \<and> st_status r \<notin> {AS_UPLOADED, AS_SKIPPED}} \<and>
     int (index + length us) \<le> max (ap_max_count pol) (int index) \<and>
     bc_total acc + sum_list (map ul_size (filter ul_done us)) \<le> max (ap_max_total_bytes pol) (bc_total acc)"

lemma in_repo_uploads [simp]: "aw_uploads (snd (in_repo m w)) = aw_uploads w"
  by (simp add: in_repo_def split: prod.split)

lemma skip_uploads [simp]: "aw_uploads (snd (skip_attachment now k r code w)) = aw_uploads w"
  by (simp add: skip_attachment_def)

lemma load_checked_Inr:
  "load_checked pt pol used a n = Inr c \<Longrightarrow>
     int (length (ac_content c)) \<le> ap_max_file_bytes pol \<and> used + int (length (ac_content c)) \<le> ap_max_total_bytes pol"
  by (auto simp: load_checked_def rbind_eq_Inr Let_def split: if_splits)

text \<open>One upload logs nothing, or one entry; if it returns a larger total, that entry succeeded.\<close>

lemma upload_one_logs:
  assumes "upload_one pt pol now k pat key acc r w = (x, w')"
  shows "(aw_uploads w' = aw_uploads w \<and> (\<forall>acc'. x = Inr acc' \<longrightarrow> bc_total acc' = bc_total acc \<and> bc_seen acc' = bc_seen acc)) \<or>
    (\<exists>u. aw_uploads w' = aw_uploads w @ [u] \<and> ul_issue_key u = key \<and>
       ul_unique_id u = at_file_unique_id (st_attachment r) \<and> ul_size u \<le> ap_max_file_bytes pol \<and>
       bc_total acc + ul_size u \<le> ap_max_total_bytes pol \<and>
       (\<forall>acc'. x = Inr acc' \<longrightarrow> bc_seen acc' = bc_seen acc \<and>
          bc_total acc' = bc_total acc + (if ul_done u then ul_size u else 0)))"
proof -
  let ?uid = "at_file_unique_id (st_attachment r)"
  let ?close = "\<lambda>st up err acc'. sx_bind (in_repo (service_set_status k ?uid AS_UPLOADING st (Aware now) up err))
    (\<lambda>_. sx_return acc')"
  have close: "aw_uploads z = aw_uploads v \<and> (\<forall>a. x = Inr a \<longrightarrow> a = acc')"
    if "?close st up err acc' v = (x, z)" for st up err acc' v z x
  proof (cases "in_repo (service_set_status k ?uid AS_UPLOADING st (Aware now) up err) v")
    case (Pair y v')
    have "aw_uploads v' = aw_uploads v"
      using in_repo_uploads[of "service_set_status k ?uid AS_UPLOADING st (Aware now) up err" v] Pair by simp
    with Pair that show ?thesis by (cases y) (auto simp: sx_bind_def)
  qed
  obtain y v where claim: "in_repo (service_set_status k ?uid (st_status r) AS_UPLOADING (Aware now) None None) w = (y, v)"
    by fastforce
  have v: "aw_uploads v = aw_uploads w"
    using in_repo_uploads[of "service_set_status k ?uid (st_status r) AS_UPLOADING (Aware now) None None" w] claim by simp
  show ?thesis
  proof (cases "y = Inr True")
    case False
    then have "aw_uploads w' = aw_uploads w \<and> (\<forall>a. x = Inr a \<longrightarrow> a = acc)"
      using assms claim v by (cases y) (auto simp: upload_one_def Let_def sx_bind_def)
    then show ?thesis by auto
  next
    case True
    show ?thesis
    proof (cases "load_checked pt pol (bc_total acc) (st_attachment r) (aw_calls v)")
      case (Inl e)
      with assms claim True have "?close AS_FAILED None (Some (failure_code e)) (acc\<lparr>bc_failed := bc_failed acc + 1\<rparr>)
          (v\<lparr>aw_calls := aw_calls v + 1\<rparr>) = (x, w')"
        by (simp add: upload_one_def sx_bind_def try_upload_def Let_def)
      note c = close[OF this]
      have "aw_uploads w' = aw_uploads w" using conjunct1[OF c] v by simp
      moreover have "\<forall>a. x = Inr a \<longrightarrow> bc_total a = bc_total acc \<and> bc_seen a = bc_seen acc"
      proof (intro allI impI)
        fix a assume "x = Inr a"
        with conjunct2[OF c] have "a = acc\<lparr>bc_failed := bc_failed acc + 1\<rparr>" by blast
        then show "bc_total a = bc_total acc \<and> bc_seen a = bc_seen acc" by simp
      qed
      ultimately show ?thesis by blast
    next
      case (Inr c)
      let ?ans = "pt_upload pt (aw_calls v) key c pat"
      let ?u = "\<lparr>ul_issue_key = key, ul_unique_id = ?uid, ul_size = int (length (ac_content c)),
          ul_done = (case ?ans of Inl _ \<Rightarrow> False | Inr _ \<Rightarrow> True)\<rparr>"
      let ?v = "v\<lparr>aw_calls := aw_calls v + 1, aw_uploads := aw_uploads v @ [?u]\<rparr>"
      have "aw_uploads w' = aw_uploads w @ [?u] \<and> (\<forall>a. x = Inr a \<longrightarrow> bc_seen a = bc_seen acc \<and>
          bc_total a = bc_total acc + (if ul_done ?u then ul_size ?u else 0))"
      proof -
        have logged: "aw_uploads w' = aw_uploads w @ [?u]" if "aw_uploads w' = aw_uploads ?v \<and> Q" for Q
          using conjunct1[OF that] v by simp
        have acc: "\<forall>a. x = Inr a \<longrightarrow> R a" if "Q \<and> (\<forall>a. x = Inr a \<longrightarrow> a = acc')" "R acc'" for Q R acc'
          using that by blast
        show ?thesis
      proof (cases ?ans)
        case (Inl e)
        with assms claim True Inr
        have "?close AS_FAILED None (Some (failure_code e)) (acc\<lparr>bc_failed := bc_failed acc + 1\<rparr>) ?v = (x, w')"
          by (simp add: upload_one_def sx_bind_def try_upload_def Let_def)
        note c = close[OF this]
        show ?thesis by (intro conjI logged[OF c] acc[OF c]) (simp_all add: Inl)
      next
        fix i assume i: "?ans = Inr i"
        with assms claim True Inr have "?close AS_UPLOADED (Some i) None (acc\<lparr>bc_uploaded := bc_uploaded acc + 1,
              bc_total := bc_total acc + int (length (ac_content c))\<rparr>) ?v = (x, w')"
          by (simp add: upload_one_def sx_bind_def try_upload_def Let_def)
        note c = close[OF this]
        show ?thesis by (intro conjI logged[OF c] acc[OF c]) (simp_all add: i)
      qed
      qed
      with load_checked_Inr[OF Inr] show ?thesis by (intro disjI2 exI[of _ ?u]) auto
    qed
  qed
qed

text \<open>The log of a loop step, split over its branches.\<close>

lemma allowed_batch_skip:
  assumes "allowed_batch pol key (index + 1) rs acc' us" and "bc_total acc' = bc_total acc"
    and "set (bc_seen acc) \<subseteq> set (bc_seen acc')" and "int index \<ge> ap_max_count pol \<longrightarrow> us = []"
  shows "allowed_batch pol key index (r # rs) acc us"
  using assms unfolding allowed_batch_def by (auto split: if_splits)

lemma allowed_batch_upload:
  assumes "allowed_batch pol key (index + 1) rs acc' us" and "int index < ap_max_count pol"
    and "ul_issue_key u = key" and "ul_unique_id u = at_file_unique_id (st_attachment r)"
    and "ul_size u \<le> ap_max_file_bytes pol" and "bc_total acc + ul_size u \<le> ap_max_total_bytes pol"
    and "bc_total acc' = bc_total acc + (if ul_done u then ul_size u else 0)"
    and "bc_seen acc' = at_file_unique_id (st_attachment r) # bc_seen acc"
    and "at_file_unique_id (st_attachment r) \<notin> set (bc_seen acc)" and "st_status r \<notin> {AS_UPLOADED, AS_SKIPPED}"
  shows "allowed_batch pol key index (r # rs) acc (u # us)"
  using assms unfolding allowed_batch_def by auto

text \<open>Beyond the count limit nothing is uploaded.\<close>

lemma allowed_batch_Nil: "allowed_batch pol key index rs acc []"
  by (simp add: allowed_batch_def)

lemma allowed_batch_full: "allowed_batch pol key index rs acc us \<Longrightarrow> int index \<ge> ap_max_count pol \<Longrightarrow> us = []"
  by (auto simp: allowed_batch_def)

lemma upload_step:
  assumes "st_status r \<notin> {AS_UPLOADED, AS_SKIPPED}" and "at_file_unique_id (st_attachment r) \<notin> set (bc_seen acc)"
    and "int index < ap_max_count pol"
    and IH: "\<And>acc w. \<exists>us. aw_uploads (snd (go acc w)) = aw_uploads w @ us \<and> allowed_batch pol key (index + 1) rs acc us"
  shows "\<exists>us. aw_uploads (snd (sx_bind (upload_one pt pol now k pat key
            (acc\<lparr>bc_seen := at_file_unique_id (st_attachment r) # bc_seen acc\<rparr>) r) go w)) = aw_uploads w @ us \<and>
          allowed_batch pol key index (r # rs) acc us"
proof -
  let ?seen = "acc\<lparr>bc_seen := at_file_unique_id (st_attachment r) # bc_seen acc\<rparr>"
  obtain x w1 where one: "upload_one pt pol now k pat key ?seen r w = (x, w1)" by fastforce
  have single: "allowed_batch pol key (index + 1) rs acc' us \<Longrightarrow> ul_issue_key u = key \<Longrightarrow>
      ul_unique_id u = at_file_unique_id (st_attachment r) \<Longrightarrow> ul_size u \<le> ap_max_file_bytes pol \<Longrightarrow>
      bc_total acc + ul_size u \<le> ap_max_total_bytes pol \<Longrightarrow>
      bc_total acc' = bc_total acc + (if ul_done u then ul_size u else 0) \<Longrightarrow> bc_seen acc' = bc_seen ?seen \<Longrightarrow>
      allowed_batch pol key index (r # rs) acc (u # us)" for acc' u us
    by (rule allowed_batch_upload) (use assms in simp_all)
  show ?thesis
  proof (cases x)
    case (Inl e)
    with one have run: "sx_bind (upload_one pt pol now k pat key ?seen r) go w = (Inl e, w1)" by (simp add: sx_bind_def)
    from upload_one_logs[OF one] consider "aw_uploads w1 = aw_uploads w"
      | u where "aw_uploads w1 = aw_uploads w @ [u]" "ul_issue_key u = key" "ul_unique_id u = at_file_unique_id (st_attachment r)"
        "ul_size u \<le> ap_max_file_bytes pol" "bc_total acc + ul_size u \<le> ap_max_total_bytes pol" by auto
    then show ?thesis
    proof cases
      case 1
      with run show ?thesis by (intro exI[of _ "[]"]) (simp add: allowed_batch_Nil)
    next
      case 2
      have "allowed_batch pol key index (r # rs) acc [u]"
        by (rule single[where acc' = "?seen\<lparr>bc_total := bc_total acc + (if ul_done u then ul_size u else 0)\<rparr>"])
           (use 2 in \<open>simp_all add: allowed_batch_Nil\<close>)
      with run 2 show ?thesis by (intro exI[of _ "[u]"]) simp
    qed
  next
    case (Inr acc')
    with one have run: "sx_bind (upload_one pt pol now k pat key ?seen r) go w = go acc' w1" by (simp add: sx_bind_def)
    from IH[of acc' w1] obtain us where us: "aw_uploads (snd (go acc' w1)) = aw_uploads w1 @ us"
      "allowed_batch pol key (index + 1) rs acc' us" by blast
    from upload_one_logs[OF one] Inr consider
        "aw_uploads w1 = aw_uploads w" "bc_total acc' = bc_total acc" "bc_seen acc' = bc_seen ?seen"
      | u where "aw_uploads w1 = aw_uploads w @ [u]" "ul_issue_key u = key" "ul_unique_id u = at_file_unique_id (st_attachment r)"
        "ul_size u \<le> ap_max_file_bytes pol" "bc_total acc + ul_size u \<le> ap_max_total_bytes pol"
        "bc_seen acc' = bc_seen ?seen" "bc_total acc' = bc_total acc + (if ul_done u then ul_size u else 0)" by auto
    then show ?thesis
    proof cases
      case 1
      have "allowed_batch pol key index (r # rs) acc us"
        by (rule allowed_batch_skip[OF us(2)]) (use 1 assms in auto)
      with run us(1) 1 show ?thesis by auto
    next
      case 2
      have "allowed_batch pol key index (r # rs) acc (u # us)" by (rule single[OF us(2)]) (use 2 in simp_all)
      with run us(1) 2 show ?thesis by (intro exI[of _ "u # us"]) simp
    qed
  qed
qed

lemma upload_loop_logs:
  "\<exists>us. aw_uploads (snd (upload_loop pt pol now k pat key index rs acc w)) = aw_uploads w @ us \<and>
        allowed_batch pol key index rs acc us"
proof (induction rs arbitrary: index acc w)
  case Nil
  show ?case by (intro exI[of _ "[]"]) (simp add: allowed_batch_Nil)
next
  case (Cons r rs)
  let ?uid = "at_file_unique_id (st_attachment r)"
  let ?go = "upload_loop pt pol now k pat key (index + 1) rs"
  let ?seen = "acc\<lparr>bc_seen := ?uid # bc_seen acc\<rparr>"
  let ?skipped = "\<lambda>a b. if b then a\<lparr>bc_skipped := bc_skipped a + 1\<rparr> else a"
  have skip: "\<exists>us. aw_uploads (snd (sx_bind (skip_attachment now k r code) (\<lambda>b. ?go (?skipped a b)) w)) = aw_uploads w @ us \<and>
      allowed_batch pol key index (r # rs) acc us"
    if "bc_total a = bc_total acc" "set (bc_seen acc) \<subseteq> set (bc_seen a)" for a code
  proof (rule snd_bind_cases)
    show "\<exists>us. aw_uploads (snd (skip_attachment now k r code w)) = aw_uploads w @ us \<and> allowed_batch pol key index (r # rs) acc us"
      by (intro exI[of _ "[]"]) (simp add: allowed_batch_Nil)
    fix b t assume "skip_attachment now k r code w = (Inr b, t)"
    then have t: "aw_uploads t = aw_uploads w" using skip_uploads[of now k r code w] by simp
    from Cons.IH[of "index + 1" "?skipped a b" t] obtain us where
      us: "aw_uploads (snd (?go (?skipped a b) t)) = aw_uploads t @ us" "allowed_batch pol key (index + 1) rs (?skipped a b) us"
      by blast
    have "allowed_batch pol key index (r # rs) acc us"
      by (rule allowed_batch_skip[OF us(2)]) (use that allowed_batch_full[OF us(2)] in auto)
    with us(1) t show "\<exists>us. aw_uploads (snd (?go (?skipped a b) t)) = aw_uploads w @ us \<and> allowed_batch pol key index (r # rs) acc us"
      by auto
  qed
  consider "st_status r \<in> {AS_UPLOADED, AS_SKIPPED}"
    | "st_status r \<notin> {AS_UPLOADED, AS_SKIPPED}" "?uid \<in> set (bc_seen acc) \<or> int index \<ge> ap_max_count pol"
    | "st_status r \<notin> {AS_UPLOADED, AS_SKIPPED}" "?uid \<notin> set (bc_seen acc)" "int index < ap_max_count pol"
      "case at_file_size (st_attachment r) of None \<Rightarrow> False
       | Some n \<Rightarrow> n > ap_max_file_bytes pol \<or> bc_total acc + n > ap_max_total_bytes pol"
    | "st_status r \<notin> {AS_UPLOADED, AS_SKIPPED}" "?uid \<notin> set (bc_seen acc)" "int index < ap_max_count pol"
      "\<not> (case at_file_size (st_attachment r) of None \<Rightarrow> False
          | Some n \<Rightarrow> n > ap_max_file_bytes pol \<or> bc_total acc + n > ap_max_total_bytes pol)" by force
  then show ?case
  proof cases
    case 1
    from Cons.IH[of "index + 1" ?seen w] obtain us where
      us: "aw_uploads (snd (?go ?seen w)) = aw_uploads w @ us" "allowed_batch pol key (index + 1) rs ?seen us" by blast
    have "allowed_batch pol key index (r # rs) acc us"
      by (rule allowed_batch_skip[OF us(2)]) (use allowed_batch_full[OF us(2)] in auto)
    with us(1) 1 show ?thesis by (auto simp: Let_def)
  next
    case 2
    with skip[of acc] show ?thesis by (simp add: Let_def)
  next
    case 3
    have "bc_total ?seen = bc_total acc" "set (bc_seen acc) \<subseteq> set (bc_seen ?seen)" by auto
    from skip[OF this, of "''attachment_size_limit''"] 3 show ?thesis by (simp add: Let_def)
  next
    case 4
    have "upload_loop pt pol now k pat key index (r # rs) acc w = sx_bind (upload_one pt pol now k pat key ?seen r) ?go w"
      using 4 by (simp add: Let_def)
    moreover have "\<exists>us. aw_uploads (snd (sx_bind (upload_one pt pol now k pat key ?seen r) ?go w)) = aw_uploads w @ us \<and>
        allowed_batch pol key index (r # rs) acc us"
      using upload_step[OF 4(1-3) Cons.IH] by simp
    ultimately show ?thesis by simp
  qed
qed

lemma list_attachments_unchanged: "repo_list_attachments k s = (Inr rs, s') \<Longrightarrow> s' = s"
  by (auto simp: repo_list_attachments_def repo_run_Inr list_attachments_sync_def rbind_eq_Inr)

lemma stored_attachment_fields:
  "stored_attachment_of_row q = Inr r \<Longrightarrow> st_attachment r = q_attachment q \<and> st_status r = q_status q"
  by (auto simp: stored_attachment_of_row_def attachment_post_init_def rbind_eq_Inr split: if_splits)

lemma list_attachments_rows:
  assumes "repo_list_attachments k s = (Inr rs, s')" and "r \<in> set rs"
  shows "\<exists>q \<in> set (db_attachments (rp_db s)). q_draft_id q = k \<and> st_attachment r = q_attachment q \<and> st_status r = q_status q"
proof -
  from assms(1) have "rmap stored_attachment_of_row
      (sort_key q_position (filter (\<lambda>q. q_draft_id q = k) (db_attachments (rp_db s)))) = Inr rs"
    by (auto simp: repo_list_attachments_def repo_run_Inr list_attachments_sync_def rbind_eq_Inr)
  then have "\<forall>r \<in> set rs. \<exists>q \<in> set (filter (\<lambda>q. q_draft_id q = k) (db_attachments (rp_db s))).
      stored_attachment_of_row q = Inr r" by (rule rmap_Inr_set) auto
  with assms(2) obtain q where "q \<in> set (db_attachments (rp_db s))" "q_draft_id q = k"
    "stored_attachment_of_row q = Inr r" by auto
  with stored_attachment_fields show ?thesis by auto
qed

lemma cas_keeps_attachments: "repo_cas now k rv t err s = (Inr dr, s') \<Longrightarrow> db_attachments (rp_db s') = db_attachments (rp_db s)"
  by (auto simp: repo_cas_Inr elim!: cas_sync_commit)

lemma in_repo_bind_cases:
  obtains (stop) e t where "sx_bind (in_repo m) f w = (Inl e, t)" and "aw_uploads t = aw_uploads w"
  | (go) x t where "m (aw_repo w) = (Inr x, aw_repo t)" and "aw_uploads t = aw_uploads w"
      and "sx_bind (in_repo m) f w = f x t"
proof (cases "m (aw_repo w)")
  case (Pair r s)
  show thesis
  proof (cases r)
    case (Inl e)
    with Pair show thesis by (intro stop[of e "w\<lparr>aw_repo := s\<rparr>"]) (simp_all add: sx_bind_def in_repo_def)
  next
    case (Inr x)
    with Pair show thesis by (intro go[of x "w\<lparr>aw_repo := s\<rparr>"]) (simp_all add: sx_bind_def in_repo_def)
  qed
qed

lemma bind_uploads:
  "aw_uploads (snd (m w)) = aw_uploads w \<Longrightarrow> (\<And>x t. aw_uploads (snd (f x t)) = aw_uploads t) \<Longrightarrow>
     aw_uploads (snd (sx_bind m f w)) = aw_uploads w"
  by (cases "m w"; cases "fst (m w)") (auto simp: sx_bind_def)

lemma loop_then_keep:
  assumes "\<And>acc t. aw_uploads (snd (rest acc t)) = aw_uploads t"
  shows "\<exists>us. aw_uploads (snd (sx_bind (upload_loop pt pol now k pat key 0 records empty_acc) rest w)) = aw_uploads w @ us \<and>
           allowed_batch pol key 0 records empty_acc us"
proof -
  have "aw_uploads (snd (sx_bind m rest w)) = aw_uploads (snd (m w))" for m
    using assms by (cases "m w"; cases "fst (m w)") (auto simp: sx_bind_def)
  with upload_loop_logs[of pt pol now k pat key 0 records empty_acc w] show ?thesis by simp
qed

lemma finish_batch_uploads: "aw_uploads (snd (finish_batch now k attaching acc t)) = aw_uploads t"
  unfolding finish_batch_def Let_def by (intro bind_uploads) simp_all

lemma upload_pending_cases:
  "aw_uploads (snd (upload_pending pt pol now k pat w)) = aw_uploads w \<or>
   (\<exists>dr issue records us s. load_draft (rp_db (aw_repo w)) k = Inr (Some dr) \<and> d_published_issue dr = Some issue \<and>
      d_state dr \<in> {CREATED, ATTACHMENT_PARTIAL} \<and>
      repo_list_attachments k s = (Inr records, s) \<and> db_attachments (rp_db s) = db_attachments (rp_db (aw_repo w)) \<and>
      aw_uploads (snd (upload_pending pt pol now k pat w)) = aw_uploads w @ us \<and>
      allowed_batch pol (pi_issue_key issue) 0 records empty_acc us)"
proof (cases rule: in_repo_bind_cases[of "repo_get_by_id k" "upload_found pt pol now k pat" w])
  case (stop e t)
  then show ?thesis by (simp add: upload_pending_def)
next
  case (go found w1)
  have load: "load_draft (rp_db (aw_repo w)) k = Inr found" and w1: "aw_repo w1 = aw_repo w"
    using go(1) by (auto simp: repo_get_by_id_Inr)
  note run = go(3)[folded upload_pending_def] and u1 = go(2)
  show ?thesis
  proof (cases "\<exists>dr issue. found = Some dr \<and> d_published_issue dr = Some issue \<and>
      d_state dr \<in> {CREATED, ATTACHMENT_PARTIAL} \<and> d_attachments dr \<noteq> []")
    case False
    then have "aw_uploads (snd (upload_found pt pol now k pat found w1)) = aw_uploads w1"
      unfolding upload_found_def by (auto intro: bind_uploads split: option.split)
    with run u1 show ?thesis by simp
  next
    case True
    then obtain dr issue where found: "found = Some dr" "d_published_issue dr = Some issue"
      "d_state dr \<in> {CREATED, ATTACHMENT_PARTIAL}" "d_attachments dr \<noteq> []" by blast
    let ?key = "pi_issue_key issue"
    have step: "upload_found pt pol now k pat found w1 =
        sx_bind (in_repo (repo_cas now k (d_revision dr) ATTACHING None)) (upload_attaching pt pol now k pat ?key) w1"
      using found by (auto simp: upload_found_def)
    show ?thesis
    proof (cases rule: in_repo_bind_cases[of "repo_cas now k (d_revision dr) ATTACHING None"
          "upload_attaching pt pol now k pat ?key" w1])
      case (stop e t)
      then show ?thesis using run step u1 by simp
    next
      case (go attaching w2)
      have rows: "db_attachments (rp_db (aw_repo w2)) = db_attachments (rp_db (aw_repo w))"
        using cas_keeps_attachments[OF go(1)] w1 by simp
      note moved = go(2,3)
      show ?thesis
      proof (cases rule: in_repo_bind_cases[of "repo_list_attachments k" "upload_records pt pol now k pat ?key attaching" w2])
        case (stop e t)
        then show ?thesis using run step moved u1 by (simp add: upload_attaching_def)
      next
        case (go records w3)
        obtain us where us: "aw_uploads (snd (upload_records pt pol now k pat ?key attaching records w3)) = aw_uploads w3 @ us"
            "allowed_batch pol ?key 0 records empty_acc us"
          using loop_then_keep[of "finish_batch now k attaching", OF finish_batch_uploads, of pt pol now k pat ?key records w3]
          unfolding upload_records_def by blast
        have "upload_pending pt pol now k pat w = upload_records pt pol now k pat ?key attaching records w3"
          using run step moved(2) go(3) by (simp add: upload_attaching_def)
        moreover have "aw_repo w3 = aw_repo w2" using go(1) by (rule list_attachments_unchanged)
        moreover have "aw_uploads w3 = aw_uploads w" using go(2) moved(1) u1 by simp
        ultimately show ?thesis using load found us go(1) rows
          by (intro disjI2 exI[of _ dr] exI[of _ issue] exI[of _ records] exI[of _ us] exI[of _ "aw_repo w2"]) simp
      qed
    qed
  qed
qed

lemma policy_positive:
  "attachment_policy_post_init pol = Inr pol' \<Longrightarrow> pol' = pol \<and> 0 < ap_max_count pol \<and> 0 < ap_max_file_bytes pol \<and> 0 < ap_max_total_bytes pol"
  by (auto simp: attachment_policy_post_init_def min_def split: if_splits)

text \<open>A row of the draft that may still be uploaded.\<close>

definition open_row :: "string \<Rightarrow> string \<Rightarrow> att_row \<Rightarrow> bool" where
  "open_row k uid q \<longleftrightarrow> q_draft_id q = k \<and> at_file_unique_id (q_attachment q) = uid \<and>
     q_status q \<noteq> AS_UPLOADED \<and> q_status q \<noteq> AS_SKIPPED"

text \<open>
  A batch stays within its policy and never repeats an upload: whatever the loader and the gateway
  answer, \<open>upload_pending\<close> dispatches at most \<open>max_count\<close> uploads, no file twice, with at most
  \<open>max_total_bytes\<close> bytes accepted in all; if it dispatches any, the stored draft is in CREATED or
  ATTACHMENT_PARTIAL, every upload goes to that draft's published issue, is no larger than
  \<open>max_file_bytes\<close> and belongs to a row that was neither uploaded nor skipped before.
\<close>

theorem attachment_batch_bounded:
  assumes "attachment_policy_post_init pol = Inr pol"
  shows "\<exists>us. aw_uploads (snd (upload_pending pt pol now k pat w)) = aw_uploads w @ us \<and>
    distinct (map ul_unique_id us) \<and> int (length us) \<le> ap_max_count pol \<and>
    sum_list (map ul_size (filter ul_done us)) \<le> ap_max_total_bytes pol \<and>
    (us = [] \<or> (\<exists>dr issue. load_draft (rp_db (aw_repo w)) k = Inr (Some dr) \<and> d_published_issue dr = Some issue \<and>
       d_state dr \<in> {CREATED, ATTACHMENT_PARTIAL} \<and>
       list_all (\<lambda>u. ul_issue_key u = pi_issue_key issue \<and> ul_size u \<le> ap_max_file_bytes pol \<and>
                     list_ex (open_row k (ul_unique_id u)) (db_attachments (rp_db (aw_repo w)))) us))"
  using upload_pending_cases[of pt pol now k pat w]
proof (elim disjE exE conjE)
  assume "aw_uploads (snd (upload_pending pt pol now k pat w)) = aw_uploads w"
  then show ?thesis using policy_positive[OF assms] by (intro exI[of _ "[]"]) simp
next
  fix dr issue records us s
  assume load: "load_draft (rp_db (aw_repo w)) k = Inr (Some dr)" "d_published_issue dr = Some issue"
      "d_state dr \<in> {CREATED, ATTACHMENT_PARTIAL}"
    and list: "repo_list_attachments k s = (Inr records, s)"
    and rows: "db_attachments (rp_db s) = db_attachments (rp_db (aw_repo w))"
    and us: "aw_uploads (snd (upload_pending pt pol now k pat w)) = aw_uploads w @ us"
    and ok: "allowed_batch pol (pi_issue_key issue) 0 records empty_acc us"
  have "list_ex (open_row k (ul_unique_id u)) (db_attachments (rp_db (aw_repo w)))" if "u \<in> set us" for u
  proof -
    from ok that obtain r where r: "r \<in> set records" "st_status r \<notin> {AS_UPLOADED, AS_SKIPPED}"
      "ul_unique_id u = at_file_unique_id (st_attachment r)" by (auto simp: allowed_batch_def)
    from list_attachments_rows[OF list r(1)] r rows show ?thesis by (auto simp: list_ex_iff open_row_def)
  qed
  then show ?thesis using load us ok policy_positive[OF assms]
    by (intro exI[of _ us]) (auto simp: allowed_batch_def empty_acc_def list_all_iff)
qed

text \<open>One attachment, a loader that returns three bytes and a gateway that accepts them.\<close>

definition sample_ports :: attachment_ports where
  "sample_ports = \<lparr>pt_load = (\<lambda>n fid. Inr \<lparr>ac_content = ''abc'', ac_filename = ''a.png'', ac_mime_type = ''image/png''\<rparr>),
     pt_upload = (\<lambda>n key c pat. Inr ''10'')\<rparr>"

definition sample_created_repo :: repo where
  "sample_created_repo = \<lparr>rp_db = empty_db\<lparr>db_workflows := [sample_row CREATED 6],
     db_attachments := [\<lparr>q_draft_id = ''d1'', q_position = 0, q_attachment = \<lparr>at_file_id = ''f'', at_file_unique_id = ''u'',
        at_media_kind = MEDIA_PHOTO, at_file_name = None, at_file_size = Some 3, at_uploaded_id = None\<rparr>,
        q_status = AS_PENDING, q_last_error_code = None, q_updated_at = Aware 20\<rparr>],
     db_published := [\<lparr>u_draft_id = ''d1'', u_issue = \<lparr>pi_issue_key = ''OPS-1'', pi_issue_id = ''1'',
        pi_issue_url = ''https://jira/OPS-1'', pi_published_at = Aware 50\<rparr>\<rparr>]\<rparr>, rp_initialized = True\<rparr>"

lemma sample_batch:
  "aw_uploads (snd (upload_pending sample_ports default_attachment_policy 60 ''d1'' ''pat''
      \<lparr>aw_repo = sample_created_repo, aw_calls = 0, aw_uploads = []\<rparr>)) =
   [\<lparr>ul_issue_key = ''OPS-1'', ul_unique_id = ''u'', ul_size = 3, ul_done = True\<rparr>]"
  by (simp add: upload_pending_def sx_bind_app in_repo_def repo_get_by_id_def get_by_id_sync_def repo_eval
      sample_created_repo_def load_draft_def draft_post_init_def template_from_json_def
      attachment_post_init_def published_of_row_def published_issue_post_init_def upload_found_def)
     (simp add: sx_bind_app in_repo_def repo_cas_def validate_safe_code_def cas_sync_def repo_eval load_draft_def
      draft_post_init_def template_from_json_def attachment_post_init_def published_of_row_def
      published_issue_post_init_def upload_attaching_def repo_list_attachments_def list_attachments_sync_def
      stored_attachment_of_row_def upload_records_def finish_batch_uploads empty_acc_def default_attachment_policy_def
      upload_one_def service_set_status_def validate_datetime_def set_attachment_status_sync_def transfer_row_def
      try_upload_def load_checked_def sample_ports_def attachment_content_post_init_def Let_def)

theorem attachment_batch_bounded_witness:
  "\<exists>us. aw_uploads (snd (upload_pending sample_ports default_attachment_policy 60 ''d1'' ''pat''
       \<lparr>aw_repo = sample_created_repo, aw_calls = 0, aw_uploads = []\<rparr>)) = us \<and> length us \<le> 10 \<and> us \<noteq> []"
proof -
  have "attachment_policy_post_init default_attachment_policy = Inr default_attachment_policy"
    by (simp add: attachment_policy_post_init_def default_attachment_policy_def)
  from attachment_batch_bounded [OF this, of sample_ports 60 "''d1''" "''pat''"
      "\<lparr>aw_repo = sample_created_repo, aw_calls = 0, aw_uploads = []\<rparr>"]
  show ?thesis unfolding sample_batch by (simp add: default_attachment_policy_def)
qed

end
