(* ===== verification/Intake.thy ===== *)
theory Intake
  imports Workflow_Service "HOL-Library.AList" "HOL-Library.Multiset"
begin

text \<open>
  The intake of messages, \<open>src/src/dztgbot/services/intake_service.py\<close>, with the timer scheduler of
  \<open>src/src/dztgbot/infrastructure/__init__.py\<close> that drives it.  Dictionaries are association lists in
  insertion order.  A scheduled callback is the data its closure captures.  The bodies under the
  collection lock are single steps; delays are milliseconds, \<open>new_id\<close> is the generated identifier.
\<close>

section \<open>Scopes, batches and the service state\<close>

record intake_scope =
  is_owner_id :: int
  is_chat_id :: int
  is_thread_id :: "int option"

definition IntakeScope :: "int \<Rightarrow> int \<Rightarrow> int option \<Rightarrow> exn + intake_scope" where
  "IntakeScope owner chat thread =
     (if owner \<le> 0 then Inl (ValueError ''owner_id must be positive'')
      else if chat = 0 then Inl (ValueError ''chat_id must not be zero'')
      else if (case thread of None \<Rightarrow> False | Some t \<Rightarrow> t \<le> 0) then
        Inl (ValueError ''message_thread_id must be positive when present'')
      else Inr \<lparr>is_owner_id = owner, is_chat_id = chat, is_thread_id = thread\<rparr>)"

record intake_config =
  ic_default_project_key :: string
  ic_batch_window :: int
  ic_max_batch_size :: int
  ic_max_prompt_characters :: int
  ic_max_attachment_bytes :: int
  ic_recent_message_limit :: int

definition intake_config_init :: "intake_config \<Rightarrow> exn + intake_config" where
  "intake_config_init c =
     (if py_strip (ic_default_project_key c) = [] then Inl (ValueError ''default_project_key must not be empty'')
      else if ic_batch_window c \<le> 0 then Inl (ValueError ''batch_window_seconds must be positive'')
      else if ic_max_batch_size c \<le> 0 then Inl (ValueError ''max_batch_size must be positive'')
      else if ic_max_prompt_characters c \<le> 0 then Inl (ValueError ''max_prompt_characters must be positive'')
      else if ic_max_attachment_bytes c \<le> 0 then Inl (ValueError ''max_attachment_bytes must be positive'')
      else if ic_recent_message_limit c < ic_max_batch_size c then
        Inl (ValueError ''recent_message_limit must cover at least one batch'')
      else Inr c)"

definition default_intake_config :: "string \<Rightarrow> intake_config" where
  "default_intake_config project = \<lparr>ic_default_project_key = project, ic_batch_window = 2500,
     ic_max_batch_size = 20, ic_max_prompt_characters = 32000,
     ic_max_attachment_bytes = 20 * 1024 * 1024, ic_recent_message_limit = 2048\<rparr>"

record pending_batch =
  pb_draft_id :: string
  pb_messages :: "source_message list"
  pb_attachments :: "attachment list"
  pb_message_keys :: "(int \<times> int) list"
  pb_attachment_ids :: "string list"
  pb_prompt_characters :: int
  pb_deadline_generation :: nat
  pb_deadline_job_id :: "string option"

record sealed_batch =
  sb_scope :: intake_scope
  sb_draft_id :: string
  sb_messages :: "source_message list"
  sb_attachments :: "attachment list"

record deadline =
  dl_scope :: intake_scope
  dl_draft_id :: string
  dl_generation :: nat
  dl_job_id :: string

record receipt =
  cr_draft_id :: string
  cr_batch_size :: nat
  cr_prompt_characters :: int
  cr_deadline_job_id :: string

type_synonym recent_key = "intake_scope \<times> int \<times> int"

text \<open>
  The service and its scheduler.  \<open>ik_timers\<close> are the cancellable timers by job, \<open>ik_soon\<close> the callbacks
  scheduled without delay, which cannot be cancelled.  \<open>ik_sealed\<close> records the batches handed over to
  processing and \<open>ik_dropped\<close> the batches a cancellation discarded.
\<close>

record intake =
  ik_pending :: "(intake_scope \<times> pending_batch) list"
  ik_recent :: "recent_key list"
  ik_timers :: "(string \<times> deadline) list"
  ik_soon :: "deadline list"
  ik_sealed :: "sealed_batch list"
  ik_dropped :: "(intake_scope \<times> pending_batch) list"

definition empty_intake :: intake where
  "empty_intake = \<lparr>ik_pending = [], ik_recent = [], ik_timers = [], ik_soon = [], ik_sealed = [], ik_dropped = []\<rparr>"

section \<open>The scheduler\<close>

definition cancel_timer :: "string \<Rightarrow> intake \<Rightarrow> intake" where
  "cancel_timer job s = s\<lparr>ik_timers := AList.delete job (ik_timers s)\<rparr>"

definition schedule_timer :: "string \<Rightarrow> int \<Rightarrow> deadline \<Rightarrow> intake \<Rightarrow> intake" where
  "schedule_timer job delay callback s =
     (let s1 = cancel_timer job s in
      if delay \<le> 0 then s1\<lparr>ik_soon := ik_soon s1 @ [callback]\<rparr>
      else s1\<lparr>ik_timers := AList.update job callback (ik_timers s1)\<rparr>)"

section \<open>Collecting one message\<close>

definition validate_message_binding :: "intake_scope \<Rightarrow> source_message \<Rightarrow> exn + unit" where
  "validate_message_binding scope m =
     ensure (sm_chat_id m = is_chat_id scope) (IntakeValidationError ''message_chat_mismatch'')"

definition validate_attachment ::
  "intake_config \<Rightarrow> source_message \<Rightarrow> attachment option \<Rightarrow> pending_batch option \<Rightarrow> exn + unit" where
  "validate_attachment cfg m att batch =
     (if sm_media_kind m = MEDIA_PHOTO \<and> att = None then
        Inl (IntakeValidationError ''photo_attachment_missing'')
      else (case att of
          None \<Rightarrow> Inr ()
        | Some a \<Rightarrow>
            if sm_media_kind m \<noteq> MEDIA_PHOTO \<or> at_media_kind a \<noteq> MEDIA_PHOTO then
              Inl (IntakeValidationError ''attachment_ineligible'')
            else if (case at_file_size a of None \<Rightarrow> False
                     | Some n \<Rightarrow> n < 0 \<or> n > ic_max_attachment_bytes cfg) then
              Inl (IntakeValidationError ''attachment_size'')
            else if (case batch of None \<Rightarrow> False | Some b \<Rightarrow> at_file_unique_id a \<in> set (pb_attachment_ids b)) then
              Inl (IntakeValidationError ''duplicate_attachment'')
            else Inr ()))"

text \<open>\<open>move_to_end\<close> after the insertion, then \<open>popitem(last=False)\<close> while the cache is over its limit.\<close>

definition remember_message :: "intake_config \<Rightarrow> recent_key \<Rightarrow> recent_key list \<Rightarrow> recent_key list" where
  "remember_message cfg key recent =
     (let r = filter (\<lambda>x. x \<noteq> key) recent @ [key] in drop (length r - nat (ic_recent_message_limit cfg)) r)"

definition deadline_job :: "string \<Rightarrow> nat \<Rightarrow> string" where
  "deadline_job draft_id generation = ''intake:'' @ draft_id @ '':'' @ decimal generation"

definition reschedule_deadline :: "intake_config \<Rightarrow> intake_scope \<Rightarrow> pending_batch \<Rightarrow> intake \<Rightarrow> pending_batch \<times> intake" where
  "reschedule_deadline cfg scope b s =
     (let s1 = (case pb_deadline_job_id b of None \<Rightarrow> s | Some job \<Rightarrow> cancel_timer job s);
          generation = pb_deadline_generation b + 1;
          job = deadline_job (pb_draft_id b) generation;
          delay = (if int (length (pb_messages b)) \<ge> ic_max_batch_size cfg then 0 else ic_batch_window cfg)
      in (b\<lparr>pb_deadline_generation := generation, pb_deadline_job_id := Some job\<rparr>,
          schedule_timer job delay \<lparr>dl_scope = scope, dl_draft_id = pb_draft_id b,
            dl_generation = generation, dl_job_id = job\<rparr> s1))"

definition fresh_batch :: "string \<Rightarrow> pending_batch" where
  "fresh_batch new_id = \<lparr>pb_draft_id = new_id, pb_messages = [], pb_attachments = [], pb_message_keys = [],
     pb_attachment_ids = [], pb_prompt_characters = 0, pb_deadline_generation = 0, pb_deadline_job_id = None\<rparr>"

definition append_message :: "source_message \<Rightarrow> attachment option \<Rightarrow> pending_batch \<Rightarrow> pending_batch" where
  "append_message m att b =
     (let b1 = b\<lparr>pb_messages := pb_messages b @ [m],
                 pb_message_keys := List.insert (sm_chat_id m, sm_message_id m) (pb_message_keys b),
                 pb_prompt_characters := pb_prompt_characters b + int (length (sm_text m))\<rparr>
      in (case att of
            None \<Rightarrow> b1
          | Some a \<Rightarrow> b1\<lparr>pb_attachments := pb_attachments b1 @ [a],
                         pb_attachment_ids := List.insert (at_file_unique_id a) (pb_attachment_ids b1)\<rparr>))"

text \<open>The body of \<open>collect_message\<close> under the lock, after the scope was built and bound.\<close>

definition collect_locked ::
  "intake_config \<Rightarrow> string \<Rightarrow> intake_scope \<Rightarrow> source_message \<Rightarrow> attachment option \<Rightarrow> intake \<Rightarrow>
   exn + receipt \<times> intake" where
  "collect_locked cfg new_id scope m att s =
     (let batch = map_of (ik_pending s) scope; recent_key = (scope, sm_chat_id m, sm_message_id m);
          count = (case batch of None \<Rightarrow> 0 | Some b \<Rightarrow> int (length (pb_messages b)));
          chars = (case batch of None \<Rightarrow> 0 | Some b \<Rightarrow> pb_prompt_characters b)
      in
      if recent_key \<in> set (ik_recent s) then Inl (IntakeValidationError ''duplicate_message'')
      else if count \<ge> ic_max_batch_size cfg then Inl (IntakeValidationError ''batch_message_limit'')
      else if chars + int (length (sm_text m)) > ic_max_prompt_characters cfg then
        Inl (IntakeValidationError ''prompt_character_budget'')
      else rbind (validate_attachment cfg m att batch) (\<lambda>_.
        (let b = append_message m att (case batch of None \<Rightarrow> fresh_batch new_id | Some b \<Rightarrow> b);
             s1 = s\<lparr>ik_recent := remember_message cfg recent_key (ik_recent s)\<rparr>;
             (b', s2) = reschedule_deadline cfg scope b s1
         in Inr (\<lparr>cr_draft_id = pb_draft_id b', cr_batch_size = length (pb_messages b'),
                  cr_prompt_characters = pb_prompt_characters b',
                  cr_deadline_job_id = (case pb_deadline_job_id b' of None \<Rightarrow> [] | Some j \<Rightarrow> j)\<rparr>,
                 s2\<lparr>ik_pending := AList.update scope b' (ik_pending s2)\<rparr>))))"

definition collect_message ::
  "intake_config \<Rightarrow> string \<Rightarrow> int \<Rightarrow> int \<Rightarrow> int option \<Rightarrow> source_message \<Rightarrow> attachment option \<Rightarrow>
   (intake, exn, receipt) sx" where
  "collect_message cfg new_id owner chat thread m att = (\<lambda>s.
     (case rbind (IntakeScope owner chat thread) (\<lambda>scope.
             rbind (validate_message_binding scope m) (\<lambda>_. collect_locked cfg new_id scope m att s)) of
        Inl e \<Rightarrow> (Inl e, s)
      | Inr (r, s') \<Rightarrow> (Inr r, s')))"

section \<open>Counting, cancelling and sealing\<close>

definition pending_count :: "int \<Rightarrow> int \<Rightarrow> int option \<Rightarrow> (intake, exn, nat) sx" where
  "pending_count owner chat thread =
     sx_bind (sx_lift (IntakeScope owner chat thread)) (\<lambda>scope.
       sx_get (\<lambda>s. case map_of (ik_pending s) scope of None \<Rightarrow> 0 | Some b \<Rightarrow> length (pb_messages b)))"

definition drop_batch :: "intake_scope \<times> pending_batch \<Rightarrow> intake \<Rightarrow> intake" where
  "drop_batch = (\<lambda>(scope, b) s.
     (case pb_deadline_job_id b of None \<Rightarrow> s | Some job \<Rightarrow> cancel_timer job s)\<lparr>ik_dropped := ik_dropped s @ [(scope, b)]\<rparr>)"

definition cancel_pending :: "int \<Rightarrow> int \<Rightarrow> int option \<Rightarrow> (intake, exn, bool) sx" where
  "cancel_pending owner chat thread =
     sx_bind (sx_lift (IntakeScope owner chat thread)) (\<lambda>scope s.
       (case map_of (ik_pending s) scope of
          None \<Rightarrow> (Inr False, s)
        | Some b \<Rightarrow> (Inr True, drop_batch (scope, b) (s\<lparr>ik_pending := AList.delete scope (ik_pending s)\<rparr>))))"

definition cancel_all_pending :: "(intake, exn, nat) sx" where
  "cancel_all_pending = (\<lambda>s.
     (Inr (length (ik_pending s)), fold drop_batch (ik_pending s) (s\<lparr>ik_pending := []\<rparr>)))"

definition detach_batch :: "intake_scope \<Rightarrow> bool \<Rightarrow> intake \<Rightarrow> sealed_batch option \<times> intake" where
  "detach_batch scope cancel_deadline s =
     (case map_of (ik_pending s) scope of
        None \<Rightarrow> (None, s)
      | Some b \<Rightarrow>
          (let s1 = s\<lparr>ik_pending := AList.delete scope (ik_pending s)\<rparr>;
               s2 = (if cancel_deadline then (case pb_deadline_job_id b of None \<Rightarrow> s1 | Some job \<Rightarrow> cancel_timer job s1) else s1);
               sealed = \<lparr>sb_scope = scope, sb_draft_id = pb_draft_id b, sb_messages = pb_messages b,
                         sb_attachments = pb_attachments b\<rparr>
           in (Some sealed, s2\<lparr>ik_sealed := ik_sealed s2 @ [sealed]\<rparr>)))"

definition flush_scope :: "int \<Rightarrow> int \<Rightarrow> int option \<Rightarrow> (intake, exn, sealed_batch option) sx" where
  "flush_scope owner chat thread =
     sx_bind (sx_lift (IntakeScope owner chat thread)) (\<lambda>scope s.
       (case detach_batch scope True s of (r, s') \<Rightarrow> (Inr r, s')))"

definition deadline_elapsed :: "deadline \<Rightarrow> intake \<Rightarrow> sealed_batch option \<times> intake" where
  "deadline_elapsed dl s =
     (case map_of (ik_pending s) (dl_scope dl) of
        None \<Rightarrow> (None, s)
      | Some b \<Rightarrow>
          if pb_draft_id b \<noteq> dl_draft_id dl \<or> pb_deadline_generation b \<noteq> dl_generation dl \<or>
             pb_deadline_job_id b \<noteq> Some (dl_job_id dl) then (None, s)
          else detach_batch (dl_scope dl) False s)"

text \<open>The event loop runs the timer of a job, or the oldest callback scheduled without delay.\<close>

definition fire_timer :: "string \<Rightarrow> intake \<Rightarrow> sealed_batch option \<times> intake" where
  "fire_timer job s =
     (case map_of (ik_timers s) job of
        None \<Rightarrow> (None, s)
      | Some dl \<Rightarrow> deadline_elapsed dl (s\<lparr>ik_timers := AList.delete job (ik_timers s)\<rparr>))"

definition fire_soon :: "intake \<Rightarrow> sealed_batch option \<times> intake" where
  "fire_soon s =
     (case ik_soon s of
        [] \<Rightarrow> (None, s)
      | dl # rest \<Rightarrow> deadline_elapsed dl (s\<lparr>ik_soon := rest\<rparr>))"

section \<open>Runs\<close>

datatype intake_op =
    ICollect string int int "int option" source_message "attachment option"
  | ICancel int int "int option"
  | ICancelAll
  | IFlush int int "int option"
  | IFireTimer string
  | IFireSoon

fun intake_step :: "intake_config \<Rightarrow> intake_op \<Rightarrow> intake \<Rightarrow> intake" where
  "intake_step cfg (ICollect new_id owner chat thread m att) s = snd (collect_message cfg new_id owner chat thread m att s)"
| "intake_step cfg (ICancel owner chat thread) s = snd (cancel_pending owner chat thread s)"
| "intake_step cfg ICancelAll s = snd (cancel_all_pending s)"
| "intake_step cfg (IFlush owner chat thread) s = snd (flush_scope owner chat thread s)"
| "intake_step cfg (IFireTimer job) s = snd (fire_timer job s)"
| "intake_step cfg IFireSoon s = snd (fire_soon s)"

definition intake_run :: "intake_config \<Rightarrow> intake_op list \<Rightarrow> intake" where
  "intake_run cfg ops = fold (intake_step cfg) ops empty_intake"

lemma intake_run_simps [simp]:
  "intake_run cfg [] = empty_intake" "intake_run cfg (ops @ [op]) = intake_step cfg op (intake_run cfg ops)"
  by (simp_all add: intake_run_def)

text \<open>The shapes of a step: nothing, a collected message, a detached batch, dropped batches.\<close>

definition sealed_of :: "intake_scope \<Rightarrow> pending_batch \<Rightarrow> sealed_batch" where
  "sealed_of scope b = \<lparr>sb_scope = scope, sb_draft_id = pb_draft_id b, sb_messages = pb_messages b,
     sb_attachments = pb_attachments b\<rparr>"

lemma cancel_timer_simps [simp]:
  "ik_pending (cancel_timer j s) = ik_pending s" "ik_recent (cancel_timer j s) = ik_recent s"
  "ik_soon (cancel_timer j s) = ik_soon s" "ik_sealed (cancel_timer j s) = ik_sealed s"
  "ik_dropped (cancel_timer j s) = ik_dropped s" "ik_timers (cancel_timer j s) = AList.delete j (ik_timers s)"
  by (simp_all add: cancel_timer_def)

lemma schedule_timer_simps [simp]:
  "ik_pending (schedule_timer j d c s) = ik_pending s" "ik_recent (schedule_timer j d c s) = ik_recent s"
  "ik_sealed (schedule_timer j d c s) = ik_sealed s" "ik_dropped (schedule_timer j d c s) = ik_dropped s"
  by (simp_all add: schedule_timer_def Let_def)

lemma detach_batch_Some:
  "map_of (ik_pending s) scope = Some b \<Longrightarrow>
     fst (detach_batch scope c s) = Some (sealed_of scope b) \<and>
     ik_pending (snd (detach_batch scope c s)) = AList.delete scope (ik_pending s) \<and>
     ik_sealed (snd (detach_batch scope c s)) = ik_sealed s @ [sealed_of scope b] \<and>
     ik_recent (snd (detach_batch scope c s)) = ik_recent s \<and> ik_dropped (snd (detach_batch scope c s)) = ik_dropped s \<and>
     ik_soon (snd (detach_batch scope c s)) = ik_soon s \<and>
     ik_timers (snd (detach_batch scope c s)) =
       (case (c, pb_deadline_job_id b) of (True, Some job) \<Rightarrow> AList.delete job (ik_timers s) | _ \<Rightarrow> ik_timers s)"
  by (simp add: detach_batch_def sealed_of_def Let_def split: option.split)

lemma detach_batch_None: "map_of (ik_pending s) scope = None \<Longrightarrow> detach_batch scope c s = (None, s)"
  by (simp add: detach_batch_def)

lemma drop_batch_simps [simp]:
  "ik_pending (drop_batch p s) = ik_pending s" "ik_recent (drop_batch p s) = ik_recent s"
  "ik_sealed (drop_batch p s) = ik_sealed s" "ik_dropped (drop_batch p s) = ik_dropped s @ [p]"
  "ik_soon (drop_batch p s) = ik_soon s"
  by (cases p; simp add: drop_batch_def split: option.split)+

lemma drop_all_simps [simp]:
  "ik_pending (fold drop_batch ps s) = ik_pending s" "ik_recent (fold drop_batch ps s) = ik_recent s"
  "ik_sealed (fold drop_batch ps s) = ik_sealed s" "ik_dropped (fold drop_batch ps s) = ik_dropped s @ ps"
  "ik_soon (fold drop_batch ps s) = ik_soon s"
  by (induction ps arbitrary: s) simp_all

text \<open>What a successful \<open>collect_locked\<close> did.\<close>

lemma collect_locked_Inr:
  assumes "collect_locked cfg new_id scope m att s = Inr (r, s')"
  obtains b b' s1 where "b = (case map_of (ik_pending s) scope of None \<Rightarrow> fresh_batch new_id | Some x \<Rightarrow> x)"
    and "s1 = s\<lparr>ik_recent := remember_message cfg (scope, sm_chat_id m, sm_message_id m) (ik_recent s)\<rparr>"
    and "(b', s'\<lparr>ik_pending := ik_pending s\<rparr>) = reschedule_deadline cfg scope (append_message m att b) s1"
    and "ik_pending s' = AList.update scope b' (ik_pending s)"
    and "(scope, sm_chat_id m, sm_message_id m) \<notin> set (ik_recent s)"
    and "int (length (pb_messages b)) < ic_max_batch_size cfg"
    and "pb_prompt_characters b + int (length (sm_text m)) \<le> ic_max_prompt_characters cfg"
    and "validate_attachment cfg m att (map_of (ik_pending s) scope) = Inr ()"
proof -
  let ?b = "case map_of (ik_pending s) scope of None \<Rightarrow> fresh_batch new_id | Some x \<Rightarrow> x"
  let ?s1 = "s\<lparr>ik_recent := remember_message cfg (scope, sm_chat_id m, sm_message_id m) (ik_recent s)\<rparr>"
  obtain b' s2 where re: "reschedule_deadline cfg scope (append_message m att ?b) ?s1 = (b', s2)" by fastforce
  have p2: "ik_pending s2 = ik_pending s"
    using re by (auto simp: reschedule_deadline_def Let_def split: option.splits)
  have "s' = s2\<lparr>ik_pending := AList.update scope b' (ik_pending s2)\<rparr>"
    and ok: "(scope, sm_chat_id m, sm_message_id m) \<notin> set (ik_recent s)"
      "int (length (pb_messages ?b)) < ic_max_batch_size cfg"
      "pb_prompt_characters ?b + int (length (sm_text m)) \<le> ic_max_prompt_characters cfg"
      "validate_attachment cfg m att (map_of (ik_pending s) scope) = Inr ()"
    using assms re
    by (auto simp: collect_locked_def Let_def rbind_eq_Inr fresh_batch_def split: if_splits option.splits)
  with p2 have "s'\<lparr>ik_pending := ik_pending s\<rparr> = s2" "ik_pending s' = AList.update scope b' (ik_pending s)" by simp_all
  with re ok show thesis by (intro that[OF refl refl]) simp_all
qed

section \<open>Bounds of the collected batches\<close>

definition text_total :: "source_message list \<Rightarrow> int" where
  "text_total ms = sum_list (map (\<lambda>m. int (length (sm_text m))) ms)"

definition eligible :: "intake_config \<Rightarrow> attachment \<Rightarrow> bool" where
  "eligible cfg a \<longleftrightarrow> at_media_kind a = MEDIA_PHOTO \<and>
     (case at_file_size a of None \<Rightarrow> True | Some n \<Rightarrow> 0 \<le> n \<and> n \<le> ic_max_attachment_bytes cfg)"

definition contents_ok ::
  "intake_config \<Rightarrow> intake_scope \<Rightarrow> source_message list \<Rightarrow> attachment list \<Rightarrow> bool" where
  "contents_ok cfg scope ms as \<longleftrightarrow> ms \<noteq> [] \<and> int (length ms) \<le> ic_max_batch_size cfg \<and>
     text_total ms \<le> ic_max_prompt_characters cfg \<and> list_all (\<lambda>m. sm_chat_id m = is_chat_id scope) ms \<and>
     list_all (eligible cfg) as \<and> distinct (map at_file_unique_id as) \<and>
     length as \<le> length (filter (\<lambda>m. sm_media_kind m = MEDIA_PHOTO) ms)"

definition batch_ok :: "intake_config \<Rightarrow> intake_scope \<times> pending_batch \<Rightarrow> bool" where
  "batch_ok cfg = (\<lambda>(scope, b). contents_ok cfg scope (pb_messages b) (pb_attachments b) \<and>
     pb_prompt_characters b = text_total (pb_messages b) \<and>
     set (pb_attachment_ids b) = set (map at_file_unique_id (pb_attachments b)))"

definition sealed_ok :: "intake_config \<Rightarrow> sealed_batch \<Rightarrow> bool" where
  "sealed_ok cfg x \<longleftrightarrow> contents_ok cfg (sb_scope x) (sb_messages x) (sb_attachments x)"

definition intake_ok :: "intake_config \<Rightarrow> intake \<Rightarrow> bool" where
  "intake_ok cfg s \<longleftrightarrow> list_all (batch_ok cfg) (ik_pending s) \<and> list_all (sealed_ok cfg) (ik_sealed s) \<and>
     distinct (map fst (ik_pending s)) \<and> distinct (ik_recent s) \<and>
     int (length (ik_recent s)) \<le> max 0 (ic_recent_message_limit cfg)"

lemma set_update_subset: "set (AList.update k v xs) \<subseteq> insert (k, v) (set xs)"
  by (induction xs) auto

lemma set_delete_subset: "set (AList.delete k xs) \<subseteq> set xs"
  by (auto simp: AList.delete_eq)

lemma list_all_subset: "list_all P ys \<Longrightarrow> set xs \<subseteq> set ys \<Longrightarrow> list_all P xs"
  by (auto simp: list_all_iff)

lemma remember_bounds:
  "distinct recent \<Longrightarrow> distinct (remember_message cfg key recent)"
  "int (length (remember_message cfg key recent)) \<le> max 0 (ic_recent_message_limit cfg)"
proof -
  assume "distinct recent"
  then show "distinct (remember_message cfg key recent)"
    unfolding remember_message_def Let_def by (intro distinct_drop) simp
qed (simp add: remember_message_def Let_def)

lemma reschedule_contents:
  assumes "reschedule_deadline cfg scope b s = (b', s')"
  shows "pb_messages b' = pb_messages b \<and> pb_attachments b' = pb_attachments b \<and> pb_draft_id b' = pb_draft_id b \<and>
    pb_prompt_characters b' = pb_prompt_characters b \<and> pb_attachment_ids b' = pb_attachment_ids b \<and>
    ik_pending s' = ik_pending s \<and> ik_recent s' = ik_recent s \<and> ik_sealed s' = ik_sealed s \<and> ik_dropped s' = ik_dropped s"
  using assms by (auto simp: reschedule_deadline_def Let_def split: option.splits)

lemma append_message_ok:
  assumes "b = fresh_batch new_id \<or> batch_ok cfg (scope, b)" and "sm_chat_id m = is_chat_id scope"
    and "int (length (pb_messages b)) < ic_max_batch_size cfg"
    and "pb_prompt_characters b + int (length (sm_text m)) \<le> ic_max_prompt_characters cfg"
    and "validate_attachment cfg m att (if b = fresh_batch new_id then None else Some b) = Inr () \<or>
         validate_attachment cfg m att (Some b) = Inr ()"
  shows "batch_ok cfg (scope, append_message m att b)"
proof -
  have base: "pb_prompt_characters b = text_total (pb_messages b)"
    "set (pb_attachment_ids b) = set (map at_file_unique_id (pb_attachments b))"
    "list_all (\<lambda>m. sm_chat_id m = is_chat_id scope) (pb_messages b)" "list_all (eligible cfg) (pb_attachments b)"
    "distinct (map at_file_unique_id (pb_attachments b))"
    "length (pb_attachments b) \<le> length (filter (\<lambda>m. sm_media_kind m = MEDIA_PHOTO) (pb_messages b))"
    using assms(1) by (auto simp: fresh_batch_def batch_ok_def contents_ok_def text_total_def)
  show ?thesis
  proof (cases att)
    case None
    with base assms(2-4) show ?thesis
      by (auto simp: append_message_def batch_ok_def contents_ok_def text_total_def Let_def)
  next
    case (Some a)
    have "sm_media_kind m = MEDIA_PHOTO" "eligible cfg a" "at_file_unique_id a \<notin> set (pb_attachment_ids b)"
      using assms(5) Some by (auto simp: validate_attachment_def eligible_def fresh_batch_def split: if_splits option.splits)
    with Some base assms(2-4) show ?thesis
      by (auto simp: append_message_def batch_ok_def contents_ok_def text_total_def Let_def)
  qed
qed

lemma detach_ok: "intake_ok cfg s \<Longrightarrow> intake_ok cfg (snd (detach_batch scope c s))"
proof (cases "map_of (ik_pending s) scope")
  case (Some b)
  assume ok: "intake_ok cfg s"
  from ok map_of_SomeD[OF Some] have "sealed_ok cfg (sealed_of scope b)"
    by (auto simp: intake_ok_def list_all_iff batch_ok_def sealed_ok_def sealed_of_def)
  with ok detach_batch_Some[OF Some, of c] show ?thesis
    by (simp add: intake_ok_def distinct_delete list_all_subset[OF _ set_delete_subset])
qed (simp add: detach_batch_None)

lemma deadline_ok: "intake_ok cfg s \<Longrightarrow> intake_ok cfg (snd (deadline_elapsed dl s))"
  by (simp add: deadline_elapsed_def detach_ok split: option.split)

lemma intake_ok_timers: "intake_ok cfg (s\<lparr>ik_timers := t\<rparr>) = intake_ok cfg s" "intake_ok cfg (s\<lparr>ik_soon := q\<rparr>) = intake_ok cfg s"
  by (simp_all add: intake_ok_def)

lemma collect_ok: "intake_ok cfg s \<Longrightarrow> intake_ok cfg (snd (collect_message cfg new_id owner chat thread m att s))"
proof (cases "rbind (IntakeScope owner chat thread) (\<lambda>scope.
    rbind (validate_message_binding scope m) (\<lambda>_. collect_locked cfg new_id scope m att s))")
  case (Inr p)
  assume ok: "intake_ok cfg s"
  obtain r s' where p: "p = (r, s')" by fastforce
  from Inr p obtain scope where bind: "validate_message_binding scope m = Inr ()"
    and run: "collect_locked cfg new_id scope m att s = Inr (r, s')" by (auto simp: rbind_eq_Inr)
  from bind have chat: "sm_chat_id m = is_chat_id scope" by (auto simp: validate_message_binding_def ensure_def split: if_splits)
  have s': "snd (collect_message cfg new_id owner chat thread m att s) = s'"
    using Inr p by (simp add: collect_message_def)
  show ?thesis unfolding s'
  proof (cases rule: collect_locked_Inr[OF run])
    case (1 b b' s1)
    note re = reschedule_contents[OF 1(3)[symmetric]]
    have "b = fresh_batch new_id \<or> batch_ok cfg (scope, b)"
      using 1(1) ok by (auto simp: intake_ok_def list_all_iff split: option.splits dest: map_of_SomeD)
    moreover have "validate_attachment cfg m att (if b = fresh_batch new_id then None else Some b) = Inr () \<or>
         validate_attachment cfg m att (Some b) = Inr ()"
      using 1(1,8) by (auto split: option.splits)
    ultimately have "batch_ok cfg (scope, append_message m att b)" using append_message_ok[of b new_id cfg scope m att] chat 1(6,7) by blast
    with re have "batch_ok cfg (scope, b')" by (simp add: batch_ok_def)
    with ok 1(4) re 1(2) remember_bounds(1)[where recent = "ik_recent s" and cfg = cfg]
      remember_bounds(2)[where recent = "ik_recent s" and cfg = cfg] show "intake_ok cfg s'"
      by (auto simp: intake_ok_def distinct_update list_all_iff dest!: subsetD[OF set_update_subset])
  qed
qed (simp add: collect_message_def)

lemma flush_step:
  "snd (flush_scope owner chat thread s) =
     (case IntakeScope owner chat thread of Inl e \<Rightarrow> s | Inr scope \<Rightarrow> snd (detach_batch scope True s))"
  by (cases "IntakeScope owner chat thread"; cases "detach_batch (projr (IntakeScope owner chat thread)) True s")
     (simp_all add: flush_scope_def sx_bind_def)

lemma intake_step_ok: "intake_ok cfg s \<Longrightarrow> intake_ok cfg (intake_step cfg op s)"
proof (cases op)
  case (ICollect new_id owner chat thread m att)
  then show "intake_ok cfg s \<Longrightarrow> ?thesis" by (simp add: collect_ok)
next
  case (ICancel owner chat thread)
  then show "intake_ok cfg s \<Longrightarrow> ?thesis"
    by (cases "IntakeScope owner chat thread")
       (auto simp: cancel_pending_def sx_bind_def intake_ok_def distinct_delete list_all_subset[OF _ set_delete_subset] split: option.split)
next
  case ICancelAll
  then show "intake_ok cfg s \<Longrightarrow> ?thesis" by (simp add: cancel_all_pending_def intake_ok_def)
next
  case (IFlush owner chat thread)
  then show "intake_ok cfg s \<Longrightarrow> ?thesis"
    by (simp add: flush_step detach_ok split: sum.split)
next
  case (IFireTimer job)
  then show "intake_ok cfg s \<Longrightarrow> ?thesis" by (simp add: fire_timer_def deadline_ok intake_ok_timers split: option.split)
next
  case IFireSoon
  then show "intake_ok cfg s \<Longrightarrow> ?thesis" by (simp add: fire_soon_def deadline_ok intake_ok_timers split: list.split)
qed

text \<open>
  Batches stay within their limits: after any sequence of messages, cancellations, flushes and
  timer callbacks, every pending batch and every batch handed over to processing is non-empty, has at
  most \<open>max_batch_size\<close> messages and \<open>max_prompt_characters\<close> characters, contains only messages of its
  chat and only eligible photos with pairwise different file ids, no more of them than photo messages;
  no scope has two pending batches, and the duplicate cache never exceeds its limit.
\<close>

theorem intake_batches_bounded: "intake_ok cfg (intake_run cfg ops)"
proof (induction ops rule: rev_induct)
  case Nil
  show ?case by (simp add: intake_ok_def empty_intake_def)
qed (simp add: intake_step_ok)

section \<open>No message is lost or handed over twice\<close>

definition batch_contents :: "(intake_scope \<times> pending_batch) list \<Rightarrow> (intake_scope \<times> source_message) multiset" where
  "batch_contents ps = mset (concat (map (\<lambda>(scope, b). map (Pair scope) (pb_messages b)) ps))"

definition sealed_contents :: "sealed_batch list \<Rightarrow> (intake_scope \<times> source_message) multiset" where
  "sealed_contents xs = mset (concat (map (\<lambda>x. map (Pair (sb_scope x)) (sb_messages x)) xs))"

definition held_messages :: "intake \<Rightarrow> (intake_scope \<times> source_message) multiset" where
  "held_messages s = batch_contents (ik_pending s) + sealed_contents (ik_sealed s) + batch_contents (ik_dropped s)"

text \<open>The messages for which \<open>collect_message\<close> returned a receipt.\<close>

fun accepted_by :: "intake_config \<Rightarrow> intake_op \<Rightarrow> intake \<Rightarrow> (intake_scope \<times> source_message) list" where
  "accepted_by cfg (ICollect new_id owner chat thread m att) s =
     (case fst (collect_message cfg new_id owner chat thread m att s) of
        Inl e \<Rightarrow> []
      | Inr r \<Rightarrow> [(\<lparr>is_owner_id = owner, is_chat_id = chat, is_thread_id = thread\<rparr>, m)])"
| "accepted_by cfg _ s = []"

fun accepted :: "intake_config \<Rightarrow> intake_op list \<Rightarrow> intake \<Rightarrow> (intake_scope \<times> source_message) list" where
  "accepted cfg [] s = []"
| "accepted cfg (op # ops) s = accepted_by cfg op s @ accepted cfg ops (intake_step cfg op s)"

lemma batch_contents_simps [simp]:
  "batch_contents [] = {#}"
  "batch_contents ((scope, b) # ps) = mset (map (Pair scope) (pb_messages b)) + batch_contents ps"
  "batch_contents (ps @ qs) = batch_contents ps + batch_contents qs"
  by (simp_all add: batch_contents_def)

lemma sealed_contents_simps [simp]:
  "sealed_contents [] = {#}"
  "sealed_contents (xs @ [x]) = sealed_contents xs + mset (map (Pair (sb_scope x)) (sb_messages x))"
  by (simp_all add: sealed_contents_def)

lemma delete_absent: "k \<notin> fst ` set al \<Longrightarrow> AList.delete k al = al"
  by (induction al) auto

lemma contents_delete:
  "distinct (map fst al) \<Longrightarrow> map_of al k = Some b \<Longrightarrow>
     batch_contents al = batch_contents (AList.delete k al) + mset (map (Pair k) (pb_messages b))"
  by (induction al) (auto simp: delete_absent)

lemma contents_update:
  "distinct (map fst al) \<Longrightarrow>
     batch_contents (AList.update k b al) = batch_contents (AList.delete k al) + mset (map (Pair k) (pb_messages b))"
  by (induction al) (auto simp: delete_absent)

lemma delete_None: "map_of al k = None \<Longrightarrow> AList.delete k al = al"
  by (simp add: delete_absent map_of_eq_None_iff)

lemma held_detach:
  assumes "distinct (map fst (ik_pending s))"
  shows "held_messages (snd (detach_batch scope c s)) = held_messages s"
proof (cases "map_of (ik_pending s) scope")
  case (Some b)
  from contents_delete[OF assms Some] detach_batch_Some[OF Some, of c] show ?thesis
    by (simp add: held_messages_def sealed_of_def ac_simps)
qed (simp add: detach_batch_None)

lemma held_deadline: "distinct (map fst (ik_pending s)) \<Longrightarrow> held_messages (snd (deadline_elapsed dl s)) = held_messages s"
  by (simp add: deadline_elapsed_def held_detach split: option.split)

lemma held_timers [simp]: "held_messages (s\<lparr>ik_timers := t\<rparr>) = held_messages s" "held_messages (s\<lparr>ik_soon := q\<rparr>) = held_messages s"
  by (simp_all add: held_messages_def)

lemma append_message_messages: "pb_messages (append_message m att b) = pb_messages b @ [m]"
  by (simp add: append_message_def Let_def split: option.split)

lemma held_collect:
  assumes "distinct (map fst (ik_pending s))"
  shows "held_messages (intake_step cfg (ICollect new_id owner chat thread m att) s) =
    held_messages s + mset (accepted_by cfg (ICollect new_id owner chat thread m att) s)"
proof (cases "rbind (IntakeScope owner chat thread) (\<lambda>scope.
    rbind (validate_message_binding scope m) (\<lambda>_. collect_locked cfg new_id scope m att s))")
  case (Inr p)
  obtain r s' where p: "p = (r, s')" by fastforce
  from Inr p obtain scope where sc: "IntakeScope owner chat thread = Inr scope"
    and run: "collect_locked cfg new_id scope m att s = Inr (r, s')" by (auto simp: rbind_eq_Inr)
  from sc have scope: "scope = \<lparr>is_owner_id = owner, is_chat_id = chat, is_thread_id = thread\<rparr>"
    by (auto simp: IntakeScope_def split: if_splits)
  have step: "collect_message cfg new_id owner chat thread m att s = (Inr r, s')"
    using Inr p by (simp add: collect_message_def)
  have "held_messages s' = held_messages s + {#(scope, m)#}"
  proof (cases rule: collect_locked_Inr[OF run])
    case (1 b b' s1)
    note re = reschedule_contents[OF 1(3)[symmetric]]
    have old: "batch_contents (ik_pending s) = batch_contents (AList.delete scope (ik_pending s)) + mset (map (Pair scope) (pb_messages b))"
      using 1(1) contents_delete[OF assms, of scope] by (auto simp: delete_None fresh_batch_def split: option.splits)
    show ?thesis using re 1(2,4) contents_update[OF assms, of scope b'] old
      by (simp add: held_messages_def append_message_messages ac_simps)
  qed
  with step scope show ?thesis by simp
qed (simp add: collect_message_def)

lemma held_step:
  assumes "distinct (map fst (ik_pending s))"
  shows "held_messages (intake_step cfg op s) = held_messages s + mset (accepted_by cfg op s)"
proof (cases op)
  case (ICancel owner chat thread)
  then show ?thesis
    using contents_delete[OF assms]
    by (cases "IntakeScope owner chat thread")
       (auto simp: cancel_pending_def sx_bind_def held_messages_def ac_simps split: option.split)
next
  case ICancelAll
  then show ?thesis by (simp add: cancel_all_pending_def held_messages_def ac_simps)
next
  case (IFlush owner chat thread)
  then show ?thesis by (simp add: flush_step held_detach[OF assms] split: sum.split)
next
  case (IFireTimer job)
  then show ?thesis using assms by (simp add: fire_timer_def held_deadline split: option.split)
next
  case IFireSoon
  then show ?thesis using assms by (simp add: fire_soon_def held_deadline split: list.split)
qed (simp only: held_collect[OF assms])

lemma held_fold:
  "intake_ok cfg s \<Longrightarrow> held_messages (fold (intake_step cfg) ops s) = held_messages s + mset (accepted cfg ops s)"
proof (induction ops arbitrary: s)
  case (Cons op ops)
  from Cons.prems have "distinct (map fst (ik_pending s))" by (simp add: intake_ok_def)
  from held_step[OF this, of cfg op] Cons.IH[OF intake_step_ok[OF Cons.prems]] show ?case by (simp add: ac_simps)
qed simp

text \<open>
  C18. Every acknowledged message is in exactly one place: after any sequence of operations, the
  messages for which \<open>collect_message\<close> returned a receipt are, with multiplicity and scope, the messages
  of the pending batches together with those handed over to processing and those a cancellation
  discarded.  No timer, flush or race between them loses a message or hands it over twice.
\<close>

theorem intake_conserves_messages:
  "mset (accepted cfg ops empty_intake) = held_messages (intake_run cfg ops)"
proof -
  have "intake_ok cfg empty_intake" by (simp add: intake_ok_def empty_intake_def)
  from held_fold[OF this] show ?thesis by (simp add: intake_run_def held_messages_def empty_intake_def)
qed

section \<open>Every pending batch has a live deadline\<close>

lemma deadline_job_inject: "deadline_job d g = deadline_job d' g' \<longleftrightarrow> d = d' \<and> g = g'"
proof
  assume eq: "deadline_job d g = deadline_job d' g'"
  have colon: "CHR '':'' \<notin> set (decimal n)" for n
    using set_decimal[of "CHR '':''" n] by auto
  have split: "takeWhile (\<lambda>c. c \<noteq> CHR '':'') (rev (deadline_job x n)) = rev (decimal n) \<and>
      dropWhile (\<lambda>c. c \<noteq> CHR '':'') (rev (deadline_job x n)) = CHR '':'' # rev (''intake:'' @ x)" for x n
    using colon[of n] by (auto simp: deadline_job_def takeWhile_append dropWhile_append)
  from eq split[of d g] split[of d' g'] have "rev (decimal g) = rev (decimal g')"
    "CHR '':'' # rev (''intake:'' @ d) = CHR '':'' # rev (''intake:'' @ d')" by metis+
  then show "d = d' \<and> g = g'" by (simp add: decimal_inject)
qed simp

definition deadline_of :: "intake_scope \<Rightarrow> pending_batch \<Rightarrow> deadline" where
  "deadline_of scope b = \<lparr>dl_scope = scope, dl_draft_id = pb_draft_id b, dl_generation = pb_deadline_generation b,
     dl_job_id = deadline_job (pb_draft_id b) (pb_deadline_generation b)\<rparr>"

definition live :: "intake \<Rightarrow> intake_scope \<Rightarrow> pending_batch \<Rightarrow> bool" where
  "live s scope b \<longleftrightarrow> pb_deadline_job_id b = Some (deadline_job (pb_draft_id b) (pb_deadline_generation b)) \<and>
     (map_of (ik_timers s) (deadline_job (pb_draft_id b) (pb_deadline_generation b)) = Some (deadline_of scope b) \<or>
      deadline_of scope b \<in> set (ik_soon s))"

text \<open>The invariant over the identifiers used so far.\<close>

definition timers_ok :: "string set \<Rightarrow> intake \<Rightarrow> bool" where
  "timers_ok used s \<longleftrightarrow> distinct (map fst (ik_pending s)) \<and>
     distinct (map (\<lambda>p. pb_draft_id (snd p)) (ik_pending s)) \<and>
     (\<forall>(scope, b) \<in> set (ik_pending s). pb_draft_id b \<in> used \<and> live s scope b)"

lemma timers_ok_delete:
  assumes "timers_ok used s" and "ik_pending t = AList.delete scope (ik_pending s)"
    and "\<And>sc x. (sc, x) \<in> set (ik_pending s) \<Longrightarrow> sc \<noteq> scope \<Longrightarrow> live t sc x"
  shows "timers_ok used t"
proof -
  have "distinct (map (\<lambda>p. pb_draft_id (snd p)) (ik_pending t))"
    using assms(1,2) by (simp add: timers_ok_def AList.delete_eq distinct_map_filter)
  with assms show ?thesis by (auto simp: timers_ok_def AList.delete_eq distinct_map_filter)
qed

lemma same_draft_same_scope:
  assumes "timers_ok used s" and "(sc, x) \<in> set (ik_pending s)" and "(sc', y) \<in> set (ik_pending s)"
    and "pb_draft_id x = pb_draft_id y"
  shows "sc = sc'"
proof -
  from assms(1) have "inj_on (\<lambda>p. pb_draft_id (snd p)) (set (ik_pending s))" by (simp add: timers_ok_def distinct_map)
  from inj_onD[OF this _ assms(2,3)] assms(4) show ?thesis by simp
qed

lemma live_s: "timers_ok used s \<Longrightarrow> (sc, x) \<in> set (ik_pending s) \<Longrightarrow> live s sc x"
  by (auto simp: timers_ok_def)

lemma live_other_job:
  assumes "live s sc x" and "ik_soon t = ik_soon s"
    and "ik_timers t = ik_timers s \<or> (\<exists>g. ik_timers t = AList.delete (deadline_job d g) (ik_timers s))"
    and "pb_draft_id x \<noteq> d"
  shows "live t sc x"
  using assms by (auto simp: live_def delete_conv' deadline_job_inject)

lemma detach_timers:
  assumes "timers_ok used s"
  shows "timers_ok used (snd (detach_batch scope c s))"
proof (cases "map_of (ik_pending s) scope")
  case (Some b)
  note mem = map_of_SomeD[OF Some]
  have job: "pb_deadline_job_id b = Some (deadline_job (pb_draft_id b) (pb_deadline_generation b))"
    using live_s[OF assms mem] by (simp add: live_def)
  let ?t = "snd (detach_batch scope c s)"
  note d = detach_batch_Some[OF Some, of c]
  have timers: "ik_timers ?t = ik_timers s \<or> (\<exists>g. ik_timers ?t = AList.delete (deadline_job (pb_draft_id b) g) (ik_timers s))"
    using d job by (auto split: bool.splits)
  show ?thesis
  proof (rule timers_ok_delete[OF assms])
    show "ik_pending ?t = AList.delete scope (ik_pending s)" using d by simp
    fix sc x assume x: "(sc, x) \<in> set (ik_pending s)" and "sc \<noteq> scope"
    with same_draft_same_scope[OF assms x mem] have "pb_draft_id x \<noteq> pb_draft_id b" by blast
    with live_other_job[OF live_s[OF assms x] _ timers] d show "live ?t sc x" by simp
  qed
qed (use assms in \<open>simp add: detach_batch_None\<close>)

text \<open>Running a scheduled callback seals its own batch; no other batch depended on it.\<close>

lemma run_deadline:
  assumes "timers_ok used s" and "ik_pending t = ik_pending s"
    and "(ik_timers t = ik_timers s \<and> ik_soon s = dl # ik_soon t) \<or>
         (ik_soon t = ik_soon s \<and> map_of (ik_timers s) job = Some dl \<and> ik_timers t = AList.delete job (ik_timers s))"
  shows "timers_ok used (snd (deadline_elapsed dl t))"
    and "(sc, x) \<in> set (ik_pending s) \<Longrightarrow> deadline_of sc x = dl \<Longrightarrow> fst (deadline_elapsed dl t) = Some (sealed_of sc x)"
proof -
  have other: "live t sc x" if x: "(sc, x) \<in> set (ik_pending s)" "deadline_of sc x \<noteq> dl" for sc x
    using live_s[OF assms(1) x(1)] assms(3) x(2) by (auto simp: live_def delete_conv')
  have own: "map_of (ik_pending t) sc = Some x \<and> deadline_elapsed dl t = detach_batch sc False t"
    if x: "(sc, x) \<in> set (ik_pending s)" "deadline_of sc x = dl" for sc x
  proof -
    have "map_of (ik_pending t) sc = Some x" using x(1) assms(1,2) by (simp add: timers_ok_def)
    moreover have "pb_deadline_job_id x = Some (dl_job_id dl)"
      using live_s[OF assms(1) x(1)] x(2) by (auto simp: live_def deadline_of_def)
    moreover have "dl_scope dl = sc" "dl_draft_id dl = pb_draft_id x" "dl_generation dl = pb_deadline_generation x"
      using x(2) by (auto simp: deadline_of_def)
    ultimately show ?thesis by (simp add: deadline_elapsed_def)
  qed
  show "(sc, x) \<in> set (ik_pending s) \<Longrightarrow> deadline_of sc x = dl \<Longrightarrow> fst (deadline_elapsed dl t) = Some (sealed_of sc x)"
    using own detach_batch_Some by metis
  show "timers_ok used (snd (deadline_elapsed dl t))"
  proof (cases "\<exists>sc x. (sc, x) \<in> set (ik_pending s) \<and> deadline_of sc x = dl")
    case True
    then obtain sc x where x: "(sc, x) \<in> set (ik_pending s)" "deadline_of sc x = dl" by blast
    note o = own[OF x] and d = detach_batch_Some[OF conjunct1[OF own[OF x]], of False]
    show ?thesis unfolding conjunct2[OF o]
    proof (rule timers_ok_delete[OF assms(1)])
      show "ik_pending (snd (detach_batch sc False t)) = AList.delete sc (ik_pending s)" using d assms(2) by simp
      fix sc' y assume y: "(sc', y) \<in> set (ik_pending s)" "sc' \<noteq> sc"
      then have "deadline_of sc' y \<noteq> dl" using x(2) by (auto simp: deadline_of_def)
      from other[OF y(1) this] d show "live (snd (detach_batch sc False t)) sc' y" by (simp add: live_def)
    qed
  next
    case False
    then have "timers_ok used t" using other assms(1,2) by (auto simp: timers_ok_def)
    then show ?thesis by (simp add: deadline_elapsed_def detach_timers split: option.split)
  qed
qed

lemma timers_ok_mono: "timers_ok used s \<Longrightarrow> used \<subseteq> used' \<Longrightarrow> timers_ok used' s"
  by (auto simp: timers_ok_def)

lemma reschedule_deadline_live:
  assumes "reschedule_deadline cfg scope b s = (b', s')"
    and "pb_deadline_job_id b = None \<or> pb_deadline_job_id b = Some (deadline_job (pb_draft_id b) (pb_deadline_generation b))"
  shows "live s' scope b'" and "live s sc x \<Longrightarrow> pb_draft_id x \<noteq> pb_draft_id b \<Longrightarrow> live s' sc x"
proof -
  let ?job = "deadline_job (pb_draft_id b) (pb_deadline_generation b + 1)"
  have b': "pb_draft_id b' = pb_draft_id b" "pb_deadline_generation b' = pb_deadline_generation b + 1"
    "pb_deadline_job_id b' = Some ?job"
    using assms(1) by (auto simp: reschedule_deadline_def Let_def split: option.splits)
  have dl: "deadline_of scope b' = \<lparr>dl_scope = scope, dl_draft_id = pb_draft_id b,
      dl_generation = pb_deadline_generation b + 1, dl_job_id = ?job\<rparr>" using b' by (simp add: deadline_of_def)
  have s': "\<exists>s1 delay. s' = schedule_timer ?job delay (deadline_of scope b') s1 \<and> ik_soon s1 = ik_soon s \<and>
      (ik_timers s1 = ik_timers s \<or>
       ik_timers s1 = AList.delete (deadline_job (pb_draft_id b) (pb_deadline_generation b)) (ik_timers s))"
  proof (cases "pb_deadline_job_id b")
    case None
    then show ?thesis using assms(1) by (auto simp: reschedule_deadline_def Let_def dl intro!: exI[of _ s])
  next
    case (Some j)
    with assms(2) have "j = deadline_job (pb_draft_id b) (pb_deadline_generation b)" by simp
    then show ?thesis using assms(1) Some
      by (auto simp: reschedule_deadline_def Let_def dl intro!: exI[of _ "cancel_timer j s"])
  qed
  then obtain s1 delay where s1: "s' = schedule_timer ?job delay (deadline_of scope b') s1" "ik_soon s1 = ik_soon s"
    "ik_timers s1 = ik_timers s \<or>
       ik_timers s1 = AList.delete (deadline_job (pb_draft_id b) (pb_deadline_generation b)) (ik_timers s)" by blast
  show "live s' scope b'" using b' by (auto simp: live_def s1(1) schedule_timer_def Let_def update_conv')
  show "live s' sc x" if "live s sc x" "pb_draft_id x \<noteq> pb_draft_id b"
  proof -
    have "live s1 sc x" using live_other_job[OF that(1) s1(2) _ that(2)] s1(3) by blast
    then show ?thesis using that(2)
      by (auto simp: live_def s1(1) schedule_timer_def Let_def update_conv' delete_conv' deadline_job_inject)
  qed
qed

lemma collect_timers:
  assumes "timers_ok used s" and "new_id \<notin> used"
  shows "timers_ok (insert new_id used) (snd (collect_message cfg new_id owner chat thread m att s))"
proof (cases "rbind (IntakeScope owner chat thread) (\<lambda>scope.
    rbind (validate_message_binding scope m) (\<lambda>_. collect_locked cfg new_id scope m att s))")
  case (Inl e)
  then show ?thesis using timers_ok_mono[OF assms(1)] by (auto simp: collect_message_def)
next
  case (Inr p)
  obtain r s' where p: "p = (r, s')" by fastforce
  from Inr p obtain scope where run: "collect_locked cfg new_id scope m att s = Inr (r, s')" by (auto simp: rbind_eq_Inr)
  have s': "snd (collect_message cfg new_id owner chat thread m att s) = s'" using Inr p by (simp add: collect_message_def)
  show ?thesis unfolding s'
  proof (cases rule: collect_locked_Inr[OF run])
    case (1 b b' s1)
    let ?a = "append_message m att b"
    let ?t = "s'\<lparr>ik_pending := ik_pending s\<rparr>"
    have a: "pb_draft_id ?a = pb_draft_id b" "pb_deadline_job_id ?a = pb_deadline_job_id b"
      "pb_deadline_generation ?a = pb_deadline_generation b"
      by (simp_all add: append_message_def Let_def split: option.split)
    have old: "(map_of (ik_pending s) scope = Some b \<and> (scope, b) \<in> set (ik_pending s)) \<or>
        (map_of (ik_pending s) scope = None \<and> b = fresh_batch new_id)"
      using 1(1) by (auto split: option.splits dest: map_of_SomeD)
    have job: "pb_deadline_job_id ?a = None \<or>
        pb_deadline_job_id ?a = Some (deadline_job (pb_draft_id ?a) (pb_deadline_generation ?a))"
      using old live_s[OF assms(1)] unfolding a by (auto simp: live_def fresh_batch_def)
    note new = reschedule_deadline_live[OF 1(3)[symmetric] job]
    have id': "pb_draft_id b' = pb_draft_id b" using reschedule_contents[OF 1(3)[symmetric]] a by simp
    have others: "pb_draft_id x \<noteq> pb_draft_id b" if "(sc, x) \<in> set (ik_pending s)" "sc \<noteq> scope" for sc x
    proof -
      have "pb_draft_id x \<in> used" using assms(1) that(1) by (auto simp: timers_ok_def)
      from old show ?thesis
      proof (elim disjE conjE)
        assume "(scope, b) \<in> set (ik_pending s)"
        with same_draft_same_scope[OF assms(1) that(1)] that(2) show ?thesis by blast
      next
        assume "b = fresh_batch new_id"
        with \<open>pb_draft_id x \<in> used\<close> assms(2) show ?thesis by (auto simp: fresh_batch_def)
      qed
    qed
    have mem: "(sc, x) \<in> set (ik_pending s') \<Longrightarrow> (sc = scope \<and> x = b') \<or> (sc \<noteq> scope \<and> (sc, x) \<in> set (ik_pending s))" for sc x
    proof -
      assume "(sc, x) \<in> set (ik_pending s')"
      moreover have d: "distinct (map fst (ik_pending s'))" using 1(4) assms(1) by (simp add: timers_ok_def distinct_update)
      ultimately have "map_of (ik_pending s') sc = Some x" by simp
      then show ?thesis using 1(4) by (auto simp: update_conv' split: if_splits dest: map_of_SomeD)
    qed
    have live': "live s' sc x" if "(sc, x) \<in> set (ik_pending s')" for sc x
    proof -
      from mem[OF that] show ?thesis
      proof (elim disjE conjE)
        assume "sc = scope" "x = b'"
        with new(1) show ?thesis by (simp add: live_def)
      next
        assume "sc \<noteq> scope" and x: "(sc, x) \<in> set (ik_pending s)"
        have "live s1 sc x" using live_s[OF assms(1) x] by (simp add: live_def 1(2))
        from new(2)[OF this] others[OF x \<open>sc \<noteq> scope\<close>] a show ?thesis by (simp add: live_def)
      qed
    qed
    have ids: "pb_draft_id x \<in> insert new_id used" if "(sc, x) \<in> set (ik_pending s')" for sc x
    proof -
      have used: "pb_draft_id y \<in> used" if "(sc', y) \<in> set (ik_pending s)" for sc' y
        using assms(1) that by (auto simp: timers_ok_def)
      from mem[OF that] show ?thesis
      proof (elim disjE conjE)
        assume "sc = scope" "x = b'"
        with old id' used[of scope b] show ?thesis by (auto simp: fresh_batch_def)
      next
        assume "(sc, x) \<in> set (ik_pending s)"
        with used show ?thesis by blast
      qed
    qed
    have dist: "distinct (map fst (ik_pending s'))" using 1(4) assms(1) by (simp add: timers_ok_def distinct_update)
    have "inj_on (\<lambda>p. pb_draft_id (snd p)) (set (ik_pending s'))"
    proof (rule inj_onI)
      fix p q assume pq: "p \<in> set (ik_pending s')" "q \<in> set (ik_pending s')" "pb_draft_id (snd p) = pb_draft_id (snd q)"
      obtain sc x sc' y where p: "p = (sc, x)" and q: "q = (sc', y)" by fastforce
      have "sc = sc'"
        using mem[OF pq(1)[unfolded p]] mem[OF pq(2)[unfolded q]]
      proof (elim disjE conjE)
        show "sc = sc'" if "sc = scope" "x = b'" "sc' \<noteq> scope" "(sc', y) \<in> set (ik_pending s)"
          using others[OF that(4,3)] pq(3) id' that(2) by (simp add: p q)
        show "sc = sc'" if "sc \<noteq> scope" "(sc, x) \<in> set (ik_pending s)" "sc' = scope" "y = b'"
          using others[OF that(2,1)] pq(3) id' that(4) by (simp add: p q)
        show "sc = sc'" if "(sc, x) \<in> set (ik_pending s)" "(sc', y) \<in> set (ik_pending s)"
          using same_draft_same_scope[OF assms(1) that] pq(3) by (simp add: p q)
      qed simp
      with dist pq show "p = q" unfolding p q by (metis map_of_is_SomeI option.inject)
    qed
    moreover have "distinct (ik_pending s')" using dist by (simp add: distinct_map)
    ultimately have "distinct (map (\<lambda>p. pb_draft_id (snd p)) (ik_pending s'))" by (simp add: distinct_map)
    with dist live' ids show "timers_ok (insert new_id used) s'" by (auto simp: timers_ok_def)
  qed
qed

fun collected_ids :: "intake_op list \<Rightarrow> string list" where
  "collected_ids [] = []"
| "collected_ids (ICollect new_id owner chat thread m att # ops) = new_id # collected_ids ops"
| "collected_ids (_ # ops) = collected_ids ops"

lemma collected_ids_append [simp]: "collected_ids (xs @ ys) = collected_ids xs @ collected_ids ys"
  by (induction xs rule: collected_ids.induct) simp_all

lemma cancel_timers:
  assumes "timers_ok used s"
  shows "timers_ok used (snd (cancel_pending owner chat thread s))"
proof (cases "IntakeScope owner chat thread")
  case (Inl e)
  then show ?thesis using assms by (simp add: cancel_pending_def sx_bind_def)
next
  case (Inr scope)
  show ?thesis
  proof (cases "map_of (ik_pending s) scope")
    case None
    then show ?thesis using assms Inr by (simp add: cancel_pending_def sx_bind_def)
  next
    case (Some b)
    note mem = map_of_SomeD[OF Some]
    let ?t = "drop_batch (scope, b) (s\<lparr>ik_pending := AList.delete scope (ik_pending s)\<rparr>)"
    have job: "pb_deadline_job_id b = Some (deadline_job (pb_draft_id b) (pb_deadline_generation b))"
      using live_s[OF assms mem] by (simp add: live_def)
    have "timers_ok used ?t"
    proof (rule timers_ok_delete[OF assms])
      fix sc x assume x: "(sc, x) \<in> set (ik_pending s)" and "sc \<noteq> scope"
      with same_draft_same_scope[OF assms x mem] have ne: "pb_draft_id x \<noteq> pb_draft_id b" by blast
      show "live ?t sc x"
        by (rule live_other_job[OF live_s[OF assms x] _ _ ne]) (auto simp: drop_batch_def job)
    qed simp
    with Inr Some show ?thesis by (simp add: cancel_pending_def sx_bind_def)
  qed
qed

lemma timers_step:
  assumes "timers_ok used s" and "distinct (collected_ids [op])" and "set (collected_ids [op]) \<inter> used = {}"
  shows "timers_ok (used \<union> set (collected_ids [op])) (intake_step cfg op s)"
proof (cases op)
  case (ICollect new_id owner chat thread m att)
  with collect_timers[OF assms(1)] assms(3) show ?thesis by simp
next
  case (ICancel owner chat thread)
  with cancel_timers[OF assms(1)] show ?thesis by simp
next
  case ICancelAll
  then show ?thesis by (simp add: cancel_all_pending_def timers_ok_def)
next
  case (IFlush owner chat thread)
  then show ?thesis using assms(1) detach_timers by (simp add: flush_step split: sum.split)
next
  case (IFireTimer job)
  show ?thesis
  proof (cases "map_of (ik_timers s) job")
    case None
    with IFireTimer assms(1) show ?thesis by (simp add: fire_timer_def)
  next
    case (Some dl)
    from run_deadline(1)[OF assms(1), of "s\<lparr>ik_timers := AList.delete job (ik_timers s)\<rparr>" dl job] Some IFireTimer
    show ?thesis by (simp add: fire_timer_def)
  qed
next
  case IFireSoon
  show ?thesis
  proof (cases "ik_soon s")
    case Nil
    with IFireSoon assms(1) show ?thesis by (simp add: fire_soon_def)
  next
    case (Cons dl rest)
    from run_deadline(1)[OF assms(1), of "s\<lparr>ik_soon := rest\<rparr>" dl] Cons IFireSoon
    show ?thesis by (simp add: fire_soon_def)
  qed
qed

lemma timers_run: "distinct (collected_ids ops) \<Longrightarrow> timers_ok (set (collected_ids ops)) (intake_run cfg ops)"
proof (induction ops rule: rev_induct)
  case Nil
  show ?case by (simp add: timers_ok_def empty_intake_def)
next
  case (snoc op ops)
  from snoc.prems have "distinct (collected_ids ops)" "distinct (collected_ids [op])"
    "set (collected_ids [op]) \<inter> set (collected_ids ops) = {}" by auto
  from timers_step[OF snoc.IH[OF this(1)] this(2,3), of cfg] show ?case by simp
qed

text \<open>
  C19. No batch is forgotten: with pairwise different generated identifiers, after any sequence of
  operations every pending batch still has its own deadline scheduled, as the cancellable timer of its
  current job or as a callback queued without delay, and running that deadline hands exactly this
  batch over to processing.
\<close>

theorem pending_batch_has_live_deadline:
  assumes "distinct (collected_ids ops)" and "map_of (ik_pending (intake_run cfg ops)) scope = Some b"
  shows "\<exists>job. pb_deadline_job_id b = Some job \<and>
    (fst (fire_timer job (intake_run cfg ops)) = Some (sealed_of scope b) \<or>
     list_ex (\<lambda>dl. fst (deadline_elapsed dl (intake_run cfg ops)) = Some (sealed_of scope b)) (ik_soon (intake_run cfg ops)))"
proof -
  let ?s = "intake_run cfg ops"
  let ?job = "deadline_job (pb_draft_id b) (pb_deadline_generation b)"
  note ok = timers_run[OF assms(1), of cfg] and mem = map_of_SomeD[OF assms(2)]
  have job: "pb_deadline_job_id b = Some ?job"
    and sched: "map_of (ik_timers ?s) ?job = Some (deadline_of scope b) \<or> deadline_of scope b \<in> set (ik_soon ?s)"
    using live_s[OF ok mem] by (auto simp: live_def)
  from sched show ?thesis
  proof
    assume t: "map_of (ik_timers ?s) ?job = Some (deadline_of scope b)"
    from run_deadline(2)[OF ok _ _ mem refl, of "?s\<lparr>ik_timers := AList.delete ?job (ik_timers ?s)\<rparr>" ?job] t
    have "fst (fire_timer ?job ?s) = Some (sealed_of scope b)" by (simp add: fire_timer_def)
    with job show ?thesis by blast
  next
    assume q: "deadline_of scope b \<in> set (ik_soon ?s)"
    have "deadline_elapsed (deadline_of scope b) ?s = detach_batch scope False ?s"
      using assms(2) job by (simp add: deadline_elapsed_def deadline_of_def)
    with detach_batch_Some[OF assms(2), of False] have "fst (deadline_elapsed (deadline_of scope b) ?s) = Some (sealed_of scope b)" by simp
    with q job show ?thesis by (auto simp: list_ex_iff)
  qed
qed

definition sample_message :: "int \<Rightarrow> source_message" where
  "sample_message i = \<lparr>sm_message_id = i, sm_chat_id = 7, sm_sender_id = 7, sm_text = ''hello'',
     sm_media_kind = MEDIA_TEXT, sm_received_at = Aware 10\<rparr>"

definition sample_ops :: "intake_op list" where
  "sample_ops = [ICollect ''a'' 7 7 None (sample_message 1) None, ICollect ''b'' 7 7 None (sample_message 2) None]"

theorem pending_batch_has_live_deadline_witness:
  "\<exists>b. map_of (ik_pending (intake_run (default_intake_config ''OPS'') sample_ops))
         \<lparr>is_owner_id = 7, is_chat_id = 7, is_thread_id = None\<rparr> = Some b \<and> length (pb_messages b) = 2 \<and>
       (\<exists>job. pb_deadline_job_id b = Some job)"
proof -
  let ?scope = "\<lparr>is_owner_id = 7, is_chat_id = 7, is_thread_id = None\<rparr>"
  let ?cfg = "default_intake_config ''OPS''"
  have "\<exists>b. map_of (ik_pending (intake_run ?cfg sample_ops)) ?scope = Some b \<and> length (pb_messages b) = 2"
    by (simp add: intake_run_def sample_ops_def collect_message_def IntakeScope_def validate_message_binding_def
        sample_message_def ensure_def collect_locked_def empty_intake_def default_intake_config_def
        validate_attachment_def append_message_def fresh_batch_def Let_def reschedule_deadline_def remember_message_def)
  then obtain b where b: "map_of (ik_pending (intake_run ?cfg sample_ops)) ?scope = Some b" "length (pb_messages b) = 2" by blast
  have "distinct (collected_ids sample_ops)" by (simp add: sample_ops_def)
  from pending_batch_has_live_deadline [OF this b(1)] b show ?thesis by blast
qed

end
