(* ===== verification/Intake_Analysis.thy ===== *)
theory Intake_Analysis
  imports Intake
begin

text \<open>
  Processing of a sealed batch, \<open>_process_sealed_batch\<close> of \<open>src/src/dztgbot/services/intake_service.py\<close>:
  the draft is stored, moved to ANALYZING, analysed, and the result is written back.  \<open>env\<close> is what
  happens while the service awaits the rules and the analyzer: their answer (the template or the
  exception) and the repository as other operations left it meanwhile.  \<open>ready\<close> and \<open>failed\<close> are the
  observers, \<open>now1\<close> and \<open>now2\<close> the two readings of the clock.
\<close>

section \<open>The PROD reference of a message\<close>

definition is_word_char :: "char \<Rightarrow> bool" where
  "is_word_char c = (let n = (of_char c :: nat) in
     (48 \<le> n \<and> n \<le> 57) \<or> (65 \<le> n \<and> n \<le> 90) \<or> n = 95 \<or> (97 \<le> n \<and> n \<le> 122) \<or>
     n = 170 \<or> n = 178 \<or> n = 179 \<or> n = 181 \<or> n = 185 \<or> n = 186 \<or> (188 \<le> n \<and> n \<le> 190) \<or>
     (192 \<le> n \<and> n \<noteq> 215 \<and> n \<noteq> 247))"

definition ascii_upper :: "string \<Rightarrow> string" where
  "ascii_upper s = map (\<lambda>c. let n = (of_char c :: nat) in if 97 \<le> n \<and> n \<le> 122 then char_of (n - 32) else c) s"

text \<open>\<open>\bPROD-\d+\b\<close> without case at the head of \<open>s\<close>; a shorter run of digits never ends at a boundary.\<close>

definition prod_ref_at :: "string \<Rightarrow> string option" where
  "prod_ref_at s =
     (let digits = takeWhile is_digit (drop 5 s); tail = dropWhile is_digit (drop 5 s) in
      if ascii_upper (take 5 s) = ''PROD-'' \<and> digits \<noteq> [] \<and> (tail = [] \<or> \<not> is_word_char (hd tail))
      then Some (''PROD-'' @ digits) else None)"

fun find_prod_ref :: "bool \<Rightarrow> string \<Rightarrow> string option" where
  "find_prod_ref after_word [] = None"
| "find_prod_ref after_word (c # cs) =
     (case (if after_word then None else prod_ref_at (c # cs)) of
        Some k \<Rightarrow> Some k
      | None \<Rightarrow> find_prod_ref (is_word_char c) cs)"

fun first_prod_ref :: "source_message list \<Rightarrow> string option" where
  "first_prod_ref [] = None"
| "first_prod_ref (m # ms) = (case find_prod_ref False (sm_text m) of Some k \<Rightarrow> Some k | None \<Rightarrow> first_prod_ref ms)"

definition route_template :: "string \<Rightarrow> source_message list \<Rightarrow> jira_template \<Rightarrow> jira_template" where
  "route_template project ms tpl =
     (case first_prod_ref ms of
        None \<Rightarrow> tpl
      | Some k \<Rightarrow> tpl\<lparr>jt_project_key := (if ascii_upper project \<noteq> ''PROD'' then project else ''BOT''),
                     jt_description := jt_description tpl @ [CHR 0x0A, CHR 0x0A] @ ''Target PROD Key: '' @ k\<rparr>)"

section \<open>Processing\<close>

definition collecting_draft :: "int \<Rightarrow> sealed_batch \<Rightarrow> draft" where
  "collecting_draft now sb =
     \<lparr>d_draft_id = sb_draft_id sb, d_owner_id = is_owner_id (sb_scope sb), d_chat_id = is_chat_id (sb_scope sb),
      d_thread_id = is_thread_id (sb_scope sb), d_state = COLLECTING, d_revision = 1, d_template = None,
      d_source_messages = sb_messages sb, d_attachments = sb_attachments sb, d_created_at = Aware now,
      d_updated_at = Aware now, d_published_issue = None, d_last_error = None\<rparr>"

text \<open>\<open>try: m except DomainError: h\<close>; other exceptions propagate.\<close>

definition on_domain_error :: "('s, exn, 'a) sx \<Rightarrow> ('s, exn, 'a) sx \<Rightarrow> ('s, exn, 'a) sx" where
  "on_domain_error m h = (\<lambda>s. case m s of (Inl (DomainError e), s') \<Rightarrow> h s' | r \<Rightarrow> r)"

definition latest_or :: "draft \<Rightarrow> (repo, exn, draft) sx" where
  "latest_or dr = sx_bind (repo_get_by_id (d_draft_id dr)) (\<lambda>r. sx_return (case r of None \<Rightarrow> dr | Some x \<Rightarrow> x))"

text \<open>The result of the guarded write, and whether it was the write that produced it.\<close>

definition write_or_latest :: "(repo, exn, draft) sx \<Rightarrow> draft \<Rightarrow> (repo, exn, draft \<times> bool) sx" where
  "write_or_latest m fallback =
     on_domain_error (sx_bind m (\<lambda>dr. sx_return (dr, True)))
       (sx_bind (latest_or fallback) (\<lambda>dr. sx_return (dr, False)))"

definition then_notify :: "(draft \<Rightarrow> exn + unit) \<Rightarrow> draft \<times> bool \<Rightarrow> (repo, exn, draft) sx" where
  "then_notify observer = (\<lambda>(dr, written).
     if written then sx_bind (sx_lift (observer dr)) (\<lambda>_. sx_return dr) else sx_return dr)"

definition mark_analysis_failed :: "int \<Rightarrow> (draft \<Rightarrow> exn + unit) \<Rightarrow> draft \<Rightarrow> (repo, exn, draft) sx" where
  "mark_analysis_failed now failed analyzing =
     sx_bind (write_or_latest (repo_cas now (d_draft_id analyzing) (d_revision analyzing) ANALYSIS_FAILED (Some ''analysis_failed''))
                analyzing) (then_notify failed)"

definition write_review :: "int \<Rightarrow> (draft \<Rightarrow> exn + unit) \<Rightarrow> draft \<Rightarrow> jira_template \<Rightarrow> (repo, exn, draft) sx" where
  "write_review now ready current tpl =
     sx_bind (sx_lift (draft_post_init
       (current\<lparr>d_state := REVIEW, d_revision := d_revision current + 1, d_template := Some tpl,
                d_updated_at := Aware now, d_last_error := None\<rparr>))) (\<lambda>with_template.
     sx_bind (write_or_latest (sx_bind (repo_save with_template None) (\<lambda>_. sx_return with_template)) with_template)
       (then_notify ready))"

definition finish_analysis ::
  "string \<Rightarrow> int \<Rightarrow> (draft \<Rightarrow> exn + unit) \<Rightarrow> (draft \<Rightarrow> exn + unit) \<Rightarrow> draft \<Rightarrow> exn + jira_template \<Rightarrow>
   (repo, exn, draft) sx" where
  "finish_analysis project now ready failed analyzing answer =
     (case answer of
        Inl e \<Rightarrow> mark_analysis_failed now failed analyzing
      | Inr tpl \<Rightarrow>
          sx_bind (repo_get_by_id (d_draft_id analyzing)) (\<lambda>found.
          (case found of
             None \<Rightarrow> sx_return analyzing
           | Some current \<Rightarrow>
               if d_state current \<noteq> ANALYZING \<or> d_revision current \<noteq> d_revision analyzing then sx_return current
               else write_review now ready current (route_template project (d_source_messages analyzing) tpl))))"

definition process_sealed_batch ::
  "string \<Rightarrow> int \<Rightarrow> int \<Rightarrow> (repo \<Rightarrow> (exn + jira_template) \<times> repo) \<Rightarrow> (draft \<Rightarrow> exn + unit) \<Rightarrow> (draft \<Rightarrow> exn + unit) \<Rightarrow>
   sealed_batch \<Rightarrow> (repo, exn, draft) sx" where
  "process_sealed_batch project now1 now2 env ready failed sb =
     sx_bind (sx_lift (draft_post_init (collecting_draft now1 sb))) (\<lambda>collecting.
     sx_bind (repo_save collecting None) (\<lambda>_.
     sx_bind (repo_cas now1 (d_draft_id collecting) (d_revision collecting) ANALYZING None) (\<lambda>analyzing s.
       (case env s of (answer, s') \<Rightarrow> finish_analysis project now2 ready failed analyzing answer s'))))"

section \<open>What the analysis may write\<close>

lemma get_by_id_cases:
  "(\<exists>e. repo_get_by_id k s = (Inl e, s)) \<or> (\<exists>r. repo_get_by_id k s = (Inr r, s) \<and> load_draft (rp_db s) k = Inr r)"
  using repo_get_by_id_state[of k s] repo_get_by_id_Inr[of k s]
  by (cases "repo_get_by_id k s"; cases "fst (repo_get_by_id k s)") auto

lemma latest_or_state: "snd (latest_or dr s) = s"
  using get_by_id_cases[of "d_draft_id dr" s] by (auto simp: latest_or_def sx_bind_def)

text \<open>A guarded write that fails left the repository alone.\<close>

lemma guarded_cases:
  assumes "\<And>e t. m s = (Inl e, t) \<Longrightarrow> t = s"
  obtains (raised) e where "write_or_latest m fb s = (Inl e, s)"
  | (kept) dr where "write_or_latest m fb s = (Inr (dr, False), s)"
  | (wrote) dr t where "write_or_latest m fb s = (Inr (dr, True), t)" and "m s = (Inr dr, t)"
proof (cases "m s")
  case (Pair r t)
  show thesis
  proof (cases r)
    case (Inr dr)
    with Pair show thesis by (intro wrote[of dr t]) (simp_all add: write_or_latest_def on_domain_error_def sx_bind_def)
  next
    case (Inl e)
    with Pair assms have t: "t = s" by blast
    obtain x where x: "latest_or fb s = (x, s)" using latest_or_state[of fb s] by (metis prod.collapse)
    show thesis
    proof (cases "\<exists>d. e = DomainError d")
      case True
      with Pair Inl t x have "write_or_latest m fb s = (case x of Inl e \<Rightarrow> (Inl e, s) | Inr dr \<Rightarrow> (Inr (dr, False), s))"
        by (auto simp: write_or_latest_def on_domain_error_def sx_bind_def split: sum.split)
      then show thesis using raised kept by (cases x) auto
    next
      case False
      with Pair Inl t have "write_or_latest m fb s = (Inl e, s)"
        by (cases e) (auto simp: write_or_latest_def on_domain_error_def sx_bind_def)
      then show thesis by (rule raised)
    qed
  qed
qed

lemma then_notify_state: "snd (then_notify obs p s) = s"
  by (cases p) (auto simp: then_notify_def sx_bind_def split: sum.split)

lemma then_notify_Inr: "then_notify obs (dr, b) s = (Inr x, t) \<Longrightarrow> x = dr \<and> t = s"
  using then_notify_state[of obs "(dr, b)" s] by (auto simp: then_notify_def sx_bind_def split: sum.splits if_splits)

lemma guarded_result:
  assumes "\<And>e t. m s = (Inl e, t) \<Longrightarrow> t = s" and "sx_bind (write_or_latest m fb) (then_notify obs) s = (Inr dr, s')"
  shows "s' = s \<or> m s = (Inr dr, s')"
proof -
  from assms(2) obtain x b t where g: "write_or_latest m fb s = (Inr (x, b), t)" and n: "then_notify obs (x, b) t = (Inr dr, s')"
    by (auto simp: sx_bind_eq_Inr)
  from then_notify_Inr[OF n] have eq: "x = dr" "t = s'" by simp_all
  show ?thesis by (rule guarded_cases[of m s fb, OF assms(1)]) (use g eq in auto)
qed

lemma repo_cas_Inl_state: "repo_cas now k rv t err s = (Inl e, s') \<Longrightarrow> s' = s"
  by (cases "validate_safe_code err") (auto simp: repo_cas_def repo_run_Inl)

lemma repo_save_Inl_state: "repo_save dr x s = (Inl e, s') \<Longrightarrow> s' = s"
  by (cases x; cases "validate_safe_code (d_last_error dr)"; cases "validate_datetime (the x)")
     (auto simp: repo_save_def repo_run_Inl sx_bind_def split: sum.splits)

lemma guarded_save_result:
  assumes "sx_bind (write_or_latest (sx_bind (repo_save w None) (\<lambda>_. sx_return w)) w) (then_notify obs) s = (Inr dr, s')"
  shows "s' = s \<or> (\<exists>d. dr = w \<and> save_sync w None (rp_db s) = Inr ((), d) \<and> s' = s\<lparr>rp_db := d\<rparr>)"
proof -
  let ?m = "sx_bind (repo_save w None) (\<lambda>_. sx_return w)"
  have "t = s" if "?m s = (Inl e, t)" for e t
    using that by (auto simp: sx_bind_def split: prod.splits sum.splits dest: repo_save_Inl_state)
  then have "s' = s \<or> ?m s = (Inr dr, s')" by (rule guarded_result[OF _ assms])
  then show ?thesis
  proof
    assume "?m s = (Inr dr, s')"
    then obtain u t where "repo_save w None s = (Inr u, t)" and "(sx_return w :: (repo, exn, draft) sx) t = (Inr dr, s')"
      unfolding sx_bind_eq_Inr by blast
    then have "repo_save w None s = (Inr u, s')" and "dr = w" by simp_all
    then show ?thesis unfolding repo_save_Inr by blast
  qed (rule disjI1)
qed

lemma write_review_result:
  assumes "write_review now ready current tpl s = (Inr dr, s')"
    and "version (rp_db s) (d_draft_id current) = Some st"
  shows "s' = s \<or> (d_state dr = REVIEW \<and> d_template dr = Some tpl \<and>
     stored_template (rp_db s') (d_draft_id current) = Some tpl \<and>
     version (rp_db s') (d_draft_id current) = Some (REVIEW, d_revision current + 1))"
proof -
  define w where "w = current\<lparr>d_state := REVIEW, d_revision := d_revision current + 1, d_template := Some tpl,
                d_updated_at := Aware now, d_last_error := None\<rparr>"
  have w: "d_draft_id w = d_draft_id current" "d_state w = REVIEW" "d_revision w = d_revision current + 1"
    "d_template w = Some tpl" by (simp_all add: w_def)
  from assms(1) have "sx_bind (write_or_latest (sx_bind (repo_save w None) (\<lambda>_. sx_return w)) w) (then_notify ready) s = (Inr dr, s')"
    unfolding write_review_def w_def[symmetric] by (simp add: bind_lift_Inr)
  from guarded_save_result[OF this] show ?thesis
  proof
    assume "\<exists>d. dr = w \<and> save_sync w None (rp_db s) = Inr ((), d) \<and> s' = s\<lparr>rp_db := d\<rparr>"
    then obtain d where dr: "dr = w" and sv: "save_sync w None (rp_db s) = Inr ((), d)" and s': "s' = s\<lparr>rp_db := d\<rparr>" by blast
    have "version d (d_draft_id w) = Some (d_state w, d_revision w)"
      using save_sync_version[OF sv, of "d_draft_id w"] by auto
    with dr s' w save_stored_template[OF sv] show ?thesis by simp
  qed simp
qed

lemma mark_failed_result:
  assumes "mark_analysis_failed now failed analyzing s = (Inr dr, s')"
  shows "s' = s \<or> (\<exists>st. version (rp_db s) (d_draft_id analyzing) = Some (ANALYZING, d_revision analyzing)) \<and>
     d_state dr = ANALYSIS_FAILED \<and>
     version (rp_db s') (d_draft_id analyzing) = Some (ANALYSIS_FAILED, d_revision analyzing + 1)"
proof -
  let ?m = "repo_cas now (d_draft_id analyzing) (d_revision analyzing) ANALYSIS_FAILED (Some ''analysis_failed'')"
  have "s' = s \<or> ?m s = (Inr dr, s')"
    using assms guarded_result[of ?m s] repo_cas_Inl_state unfolding mark_analysis_failed_def by blast
  then show ?thesis
  proof
    assume "?m s = (Inr dr, s')"
    then obtain d where cas: "cas_sync now (d_draft_id analyzing) (d_revision analyzing) ANALYSIS_FAILED
        (Some ''analysis_failed'') (rp_db s) = Inr (dr, d)" and s': "s' = s\<lparr>rp_db := d\<rparr>" by (auto simp: repo_cas_Inr)
    from cas_sync_version[OF cas, of "d_draft_id analyzing"] obtain st where
      v: "version (rp_db s) (d_draft_id analyzing) = Some (st, d_revision analyzing)" "is_transition_allowed st ANALYSIS_FAILED"
      "version d (d_draft_id analyzing) = Some (ANALYSIS_FAILED, d_revision analyzing + 1)" by auto
    from v(2) have "st = ANALYZING" by (cases st) (simp_all add: is_transition_allowed_def)
    moreover have "load_draft d (d_draft_id analyzing) = Inr (Some dr)" by (cases rule: cas_sync_commit[OF cas]) simp
    ultimately show ?thesis using v load_draft_version[of d "d_draft_id analyzing" dr] s' by simp
  qed simp
qed

text \<open>The write-back, as a relation between the state left by the analysis and the final state.\<close>

lemma finish_analysis_Inr:
  assumes "finish_analysis project now ready failed analyzing answer s = (Inr dr, s')" and "answer = Inr tpl"
  obtains found where "load_draft (rp_db s) (d_draft_id analyzing) = Inr found"
    and "(case found of None \<Rightarrow> sx_return analyzing
      | Some current \<Rightarrow>
          if d_state current \<noteq> ANALYZING \<or> d_revision current \<noteq> d_revision analyzing then sx_return current
          else write_review now ready current (route_template project (d_source_messages analyzing) tpl)) s = (Inr dr, s')"
proof -
  note run = assms(1)[unfolded assms(2) finish_analysis_def sum.case sx_bind_eq_Inr]
  from run obtain found t where "repo_get_by_id (d_draft_id analyzing) s = (Inr found, t)" and
    rest: "(case found of None \<Rightarrow> sx_return analyzing
      | Some current \<Rightarrow>
          if d_state current \<noteq> ANALYZING \<or> d_revision current \<noteq> d_revision analyzing then sx_return current
          else write_review now ready current (route_template project (d_source_messages analyzing) tpl)) t = (Inr dr, s')"
    by blast
  then show thesis using that[of found] unfolding repo_get_by_id_Inr by blast
qed

lemma finish_analysis_result:
  assumes "finish_analysis project now ready failed analyzing answer s = (Inr dr, s')"
  shows "s' = s \<or>
    (version (rp_db s) (d_draft_id analyzing) = Some (ANALYZING, d_revision analyzing) \<and>
     version (rp_db s') (d_draft_id analyzing) = Some (d_state dr, d_revision analyzing + 1) \<and>
     (case answer of Inl e \<Rightarrow> d_state dr = ANALYSIS_FAILED
      | Inr tpl \<Rightarrow> d_state dr = REVIEW \<and>
          d_template dr = Some (route_template project (d_source_messages analyzing) tpl) \<and>
          stored_template (rp_db s') (d_draft_id analyzing) = d_template dr))"
proof (cases answer)
  case (Inl e)
  with assms mark_failed_result[of now failed analyzing s dr s'] show ?thesis by (auto simp: finish_analysis_def)
next
  case (Inr tpl)
  let ?tpl = "route_template project (d_source_messages analyzing) tpl"
  from assms Inr obtain found where load: "load_draft (rp_db s) (d_draft_id analyzing) = Inr found"
    and run: "(case found of None \<Rightarrow> sx_return analyzing
      | Some current \<Rightarrow>
          if d_state current \<noteq> ANALYZING \<or> d_revision current \<noteq> d_revision analyzing then sx_return current
          else write_review now ready current ?tpl) s = (Inr dr, s')"
    by (elim finish_analysis_Inr)
  show ?thesis
  proof (cases "\<exists>current. found = Some current \<and> d_state current = ANALYZING \<and> d_revision current = d_revision analyzing")
    case False
    with run have "s' = s" by (cases found) (auto split: if_splits)
    then show ?thesis ..
  next
    case True
    then obtain current where cur: "found = Some current" "d_state current = ANALYZING" "d_revision current = d_revision analyzing" by blast
    with load load_draft_version[of "rp_db s" "d_draft_id analyzing" current]
    have v: "version (rp_db s) (d_draft_id analyzing) = Some (ANALYZING, d_revision analyzing)"
      and id: "d_draft_id current = d_draft_id analyzing" by auto
    from run cur have "write_review now ready current ?tpl s = (Inr dr, s')" by simp
    from write_review_result[OF this, of "(ANALYZING, d_revision analyzing)"] v id cur(3) Inr show ?thesis by auto
  qed
qed

lemma process_sealed_result:
  assumes "process_sealed_batch project now1 now2 env ready failed sb s = (Inr dr, s')"
  shows "\<exists>s2 answer s3. env s2 = (answer, s3) \<and> version (rp_db s2) (sb_draft_id sb) = Some (ANALYZING, 2) \<and>
    (s' = s3 \<or>
     (version (rp_db s3) (sb_draft_id sb) = Some (ANALYZING, 2) \<and>
      version (rp_db s') (sb_draft_id sb) = Some (d_state dr, 3) \<and>
      (case answer of Inl e \<Rightarrow> d_state dr = ANALYSIS_FAILED
       | Inr tpl \<Rightarrow> d_state dr = REVIEW \<and> d_template dr = Some (route_template project (sb_messages sb) tpl) \<and>
          stored_template (rp_db s') (sb_draft_id sb) = d_template dr)))"
proof -
  let ?c = "collecting_draft now1 sb"
  from assms obtain u s1 analyzing s2 where save: "repo_save ?c None s = (Inr u, s1)" and cas: "repo_cas now1 (d_draft_id ?c) (d_revision ?c) ANALYZING None s1 = (Inr analyzing, s2)"
    and rest: "(case env s2 of (answer, s3) \<Rightarrow> finish_analysis project now2 ready failed analyzing answer s3) = (Inr dr, s')"
    unfolding process_sealed_batch_def bind_lift_Inr by (auto simp: sx_bind_eq_Inr[of "repo_save _ _"] sx_bind_eq_Inr[of "repo_cas _ _ _ _ _"])
  from cas obtain d where c: "cas_sync now1 (sb_draft_id sb) 1 ANALYZING None (rp_db s1) = Inr (analyzing, d)"
    and s2: "s2 = s1\<lparr>rp_db := d\<rparr>" by (auto simp: repo_cas_Inr collecting_draft_def)
  have v2: "version (rp_db s2) (sb_draft_id sb) = Some (ANALYZING, 2)"
    using cas_sync_version[OF c, of "sb_draft_id sb"] s2 by auto
  have load: "load_draft d (sb_draft_id sb) = Inr (Some analyzing)" by (cases rule: cas_sync_commit[OF c]) simp
  from save obtain d1 where sv: "save_sync ?c None (rp_db s) = Inr ((), d1)" and s1: "s1 = s\<lparr>rp_db := d1\<rparr>"
    by (auto simp: repo_save_Inr)
  have "db_sources d = db_sources d1" by (cases rule: cas_sync_commit[OF c]) (simp add: s1)
  from save_loaded_sources[OF sv this] load have ms: "d_source_messages analyzing = sb_messages sb"
    by (simp add: collecting_draft_def)
  from load load_draft_version[of d "sb_draft_id sb" analyzing] v2 s2
  have an: "d_draft_id analyzing = sb_draft_id sb" "d_revision analyzing = 2" by auto
  obtain answer s3 where env: "env s2 = (answer, s3)" by fastforce
  from rest env have "finish_analysis project now2 ready failed analyzing answer s3 = (Inr dr, s')" by simp
  from finish_analysis_result[OF this, unfolded an ms] env v2 show ?thesis
    by (intro exI[of _ s2] exI[of _ answer] exI[of _ s3] conjI) auto
qed

text \<open>
  A finished analysis never overwrites a concurrent change: \<open>process_sealed_batch\<close> stores the draft,
  moves it to ANALYZING at revision 2 and then waits; whatever other operations did meanwhile, it
  afterwards either leaves the repository exactly as it found it, or the draft was still in
  ANALYZING at revision 2 and it stored its own outcome at revision 3 - ANALYSIS_FAILED if the
  analysis raised, REVIEW with the routed template otherwise.
\<close>

theorem analysis_never_overwrites:
  assumes "process_sealed_batch project now1 now2 env ready failed sb s = (Inr dr, s')"
  shows "\<exists>s2 answer s3. env s2 = (answer, s3) \<and> version (rp_db s2) (sb_draft_id sb) = Some (ANALYZING, 2) \<and>
    (s' = s3 \<or>
     (version (rp_db s3) (sb_draft_id sb) = Some (ANALYZING, 2) \<and>
      version (rp_db s') (sb_draft_id sb) = Some (d_state dr, 3) \<and>
      (case answer of Inl e \<Rightarrow> d_state dr = ANALYSIS_FAILED
       | Inr tpl \<Rightarrow> d_state dr = REVIEW \<and> d_template dr = Some (route_template project (sb_messages sb) tpl) \<and>
          stored_template (rp_db s') (sb_draft_id sb) = d_template dr)))"
  using assms by (rule process_sealed_result)

definition sample_sealed :: sealed_batch where
  "sample_sealed = \<lparr>sb_scope = \<lparr>is_owner_id = 7, is_chat_id = 7, is_thread_id = None\<rparr>, sb_draft_id = ''d1'',
     sb_messages = [sample_message 1], sb_attachments = []\<rparr>"

lemma sample_sealed_reviewed:
  "\<exists>dr s'. process_sealed_batch ''OPS'' 30 40 (\<lambda>s. (Inr tpl, s)) (\<lambda>_. Inr ()) (\<lambda>_. Inr ()) sample_sealed
      \<lparr>rp_db = empty_db, rp_initialized = True\<rparr> = (Inr dr, s') \<and>
     map_option fst (version (rp_db s') ''d1'') = Some REVIEW"
proof -
  let ?run = "process_sealed_batch ''OPS'' 30 40 (\<lambda>s. (Inr tpl, s)) (\<lambda>_. Inr ()) (\<lambda>_. Inr ()) sample_sealed
      \<lparr>rp_db = empty_db, rp_initialized = True\<rparr>"
  have "\<not> isl (fst ?run) \<and> map_option fst (version (rp_db (snd ?run)) ''d1'') = Some REVIEW"
    by ((simp add: process_sealed_batch_def collecting_draft_def sample_sealed_def draft_post_init_def sx_bind_app
        sample_message_def source_message_post_init_def repo_save_def validate_safe_code_def repo_run_def save_sync_def
        save_guard_def find_workflow_def empty_db_def save_workflow_row_def workflow_row_of_def to_db_datetime_def),
      (simp add: repo_eval save_sources_def save_attachments_def save_published_def sql_insert_def wf_check_def),
      (simp add: src_check_def repo_cas_def validate_safe_code_def cas_sync_def load_draft_def draft_post_init_def
        template_from_json_def template_to_json_def source_of_row_def sx_bind_app repo_eval source_message_post_init_def),
      (simp add: finish_analysis_def repo_get_by_id_def get_by_id_sync_def sx_bind_app repo_run_def load_draft_def draft_post_init_def
        template_from_json_def template_to_json_def source_of_row_def repo_eval source_message_post_init_def
        write_review_def route_template_def find_prod_ref.simps is_word_char_def write_or_latest_def on_domain_error_def repo_save_def
        validate_safe_code_def save_sync_def save_guard_def save_workflow_row_def workflow_row_of_def then_notify_def
        save_sources_def save_attachments_def save_published_def sql_insert_def src_check_def version_def))
  then show ?thesis using sum_result_Inr[of ?run] by fastforce
qed

theorem analysis_never_overwrites_witness:
  "\<exists>dr s'. process_sealed_batch ''OPS'' 30 40 (\<lambda>s. (Inr sample_template, s)) (\<lambda>_. Inr ()) (\<lambda>_. Inr ()) sample_sealed
      \<lparr>rp_db = empty_db, rp_initialized = True\<rparr> = (Inr dr, s') \<and> version (rp_db s') ''d1'' \<noteq> None"
proof -
  let ?run = "process_sealed_batch ''OPS'' 30 40 (\<lambda>s. (Inr sample_template, s)) (\<lambda>_. Inr ()) (\<lambda>_. Inr ()) sample_sealed
      \<lparr>rp_db = empty_db, rp_initialized = True\<rparr>"
  from sample_sealed_reviewed[of sample_template] obtain dr s' where run: "?run = (Inr dr, s')" by blast
  from analysis_never_overwrites [OF run] run show ?thesis by (auto simp: sample_sealed_def)
qed

end
