(* ===== verification/Concurrency.thy ===== *)
theory Concurrency
  imports Prelude
begin

text \<open>
  What the two schedulers of the bot (\<open>KeyedProcessor\<close>, \<open>ResourceLimiter\<close>) share.  Their coroutines
  interleave only where they await, and every stretch between two awaits is one step of a machine.
  The contract \<open>draining\<close> is what closing such a machine rests on: its own steps keep the invariant,
  each uses up some of a budget, and one of them is possible while work is admitted.
\<close>

locale draining =
  fixes progress :: "'s \<Rightarrow> 's \<Rightarrow> bool" and holds :: "'s \<Rightarrow> bool" and budget :: "'s \<Rightarrow> nat" and busy :: "'s \<Rightarrow> bool"
  assumes keeps: "holds s \<Longrightarrow> progress s t \<Longrightarrow> holds t"
    and spends: "holds s \<Longrightarrow> progress s t \<Longrightarrow> budget t < budget s"
    and live: "holds s \<Longrightarrow> busy s \<Longrightarrow> \<exists>t. progress s t"
begin

lemma holds_steps: "(progress ^^ n) s t \<Longrightarrow> holds s \<Longrightarrow> holds t"
  by (induction n arbitrary: t) (auto intro: keeps)

lemma steps_bounded: "(progress ^^ n) s t \<Longrightarrow> holds s \<Longrightarrow> n + budget t \<le> budget s"
proof (induction n arbitrary: t)
  case (Suc n)
  then obtain u where u: "(progress ^^ n) s u" "progress u t" by auto
  from spends[OF holds_steps[OF u(1) Suc.prems(2)] u(2)] Suc.IH[OF u(1) Suc.prems(2)] show ?case by simp
qed simp

lemma drains: "holds s \<Longrightarrow> \<exists>n t. (progress ^^ n) s t \<and> \<not> busy t"
proof (induction "budget s" arbitrary: s rule: less_induct)
  case less
  show ?case
  proof (cases "busy s")
    case False
    then show ?thesis by (intro exI[of _ 0] exI[of _ s]) simp
  next
    case True
    from live[OF less.prems this] obtain u where u: "progress s u" ..
    from less.hyps[OF spends[OF less.prems u] keeps[OF less.prems u]]
    obtain n t where "(progress ^^ n) u t" "\<not> busy t" by blast
    with u have "(progress ^^ Suc n) s t" using relpowp_Suc_I2 by metis
    with \<open>\<not> busy t\<close> show ?thesis by blast
  qed
qed

lemma stuck_is_idle: "(progress ^^ n) s t \<Longrightarrow> holds s \<Longrightarrow> \<nexists>u. progress t u \<Longrightarrow> \<not> busy t"
  using live[OF holds_steps] by blast

end

text \<open>Counting the members of a list that hold a resource.\<close>

definition tally :: "('a \<Rightarrow> bool) \<Rightarrow> 'a list \<Rightarrow> int" where
  "tally P xs = int (length (filter P xs))"

lemma tally_simps [simp]:
  "tally P [] = 0"
  "tally P (x # xs) = (if P x then 1 else 0) + tally P xs"
  "tally P (xs @ ys) = tally P xs + tally P ys"
  by (simp_all add: tally_def)

lemma tally_nonneg [simp]: "0 \<le> tally P xs" by (simp add: tally_def)

lemma tally_pos_iff: "0 < tally P xs \<longleftrightarrow> (\<exists>x\<in>set xs. P x)"
  by (induction xs) (auto simp: add_pos_nonneg intro: order.strict_trans2)

lemma tally_zero_iff: "tally P xs = 0 \<longleftrightarrow> (\<forall>x\<in>set xs. \<not> P x)"
  using tally_pos_iff[of P xs] tally_nonneg[of P xs] by (auto simp del: tally_nonneg)

lemma tally_True: "tally (\<lambda>_. True) xs = int (length xs)" by (simp add: tally_def)

lemma tally_mono: "(\<And>x. x \<in> set xs \<Longrightarrow> P x \<Longrightarrow> Q x) \<Longrightarrow> tally P xs \<le> tally Q xs"
  by (induction xs) auto

text \<open>One member, known by a key, is replaced or removed.\<close>

definition change :: "('a \<Rightarrow> 'k) \<Rightarrow> 'k \<Rightarrow> ('a \<Rightarrow> 'a) \<Rightarrow> 'a list \<Rightarrow> 'a list" where
  "change key k f xs = map (\<lambda>x. if key x = k then f x else x) xs"

lemma set_change: "set (change key k f xs) = {x \<in> set xs. key x \<noteq> k} \<union> f ` {x \<in> set xs. key x = k}"
  by (auto simp: change_def)

lemma keys_change [simp]: "(\<And>x. key (f x) = key x) \<Longrightarrow> map key (change key k f xs) = map key xs"
  by (simp add: change_def)

lemma length_change [simp]: "length (change key k f xs) = length xs" by (simp add: change_def)

lemma tally_change:
  assumes "distinct (map key xs)" and "x \<in> set xs"
  shows "tally P (change key (key x) f xs) = tally P xs - (if P x then 1 else 0) + (if P (f x) then 1 else 0)"
  using assms
proof (induction xs)
  case (Cons y ys)
  show ?case
  proof (cases "y = x")
    case True
    from True Cons.prems(1) have "\<forall>z\<in>set ys. key z \<noteq> key x" by (metis distinct.simps(2) imageI list.set_map list.simps(9))
    then have "change key (key x) f ys = ys" by (auto simp: change_def intro!: map_idI)
    with True show ?thesis by (simp add: change_def)
  next
    case False
    with Cons.prems have "x \<in> set ys" "key y \<noteq> key x" by auto
    with Cons show ?thesis by (simp add: change_def)
  qed
qed simp

lemma tally_remove:
  assumes "distinct (map key xs)" and "x \<in> set xs"
  shows "tally P (filter (\<lambda>y. key y \<noteq> key x) xs) = tally P xs - (if P x then 1 else 0)"
  using assms
proof (induction xs)
  case (Cons y ys)
  show ?case
  proof (cases "y = x")
    case True
    from True Cons.prems(1) have "\<forall>z\<in>set ys. key z \<noteq> key x" by (metis distinct.simps(2) imageI list.set_map list.simps(9))
    then have "filter (\<lambda>y. key y \<noteq> key x) ys = ys" by (intro filter_True) simp
    with True show ?thesis by simp
  next
    case False
    with Cons.prems have "x \<in> set ys" "key y \<noteq> key x" by auto
    with Cons show ?thesis by simp
  qed
qed simp

lemma distinct_remove: "distinct (map key xs) \<Longrightarrow> distinct (map key (filter P xs))"
  by (rule distinct_map_filter)

section \<open>Reference-counted registries\<close>

text \<open>
  A registry maps keys to numbered objects that count their users; \<open>users\<close> are the keys and objects
  in use.  An object leaves the registry with its last user.
\<close>

definition registry_ok :: "nat \<Rightarrow> ('k \<times> nat) list \<Rightarrow> (nat \<Rightarrow> int option) \<Rightarrow> ('k \<times> nat) list \<Rightarrow> bool" where
  "registry_ok n reg refs users \<longleftrightarrow>
     distinct (map fst reg) \<and> distinct (map snd reg) \<and> set users = set reg \<and>
     (\<forall>k e. (k, e) \<in> set reg \<longrightarrow> e < n \<and> refs e = Some (tally (\<lambda>u. snd u = e) users))"

lemma registry_okI:
  assumes "distinct (map fst reg)" and "distinct (map snd reg)" and "set users = set reg"
    and "\<And>k e. (k, e) \<in> set reg \<Longrightarrow> e < n" and "\<And>k e. (k, e) \<in> set reg \<Longrightarrow> refs e = Some (tally (\<lambda>u. snd u = e) users)"
  shows "registry_ok n reg refs users"
  using assms unfolding registry_ok_def by blast

lemma registry_okD:
  assumes "registry_ok n reg refs users"
  shows "(k, e) \<in> set users \<longleftrightarrow> (k, e) \<in> set reg"
    and "(k, e) \<in> set reg \<Longrightarrow> map_of reg k = Some e"
    and "(k, e) \<in> set reg \<Longrightarrow> (k', e) \<in> set reg \<Longrightarrow> k = k'"
    and "(k, e) \<in> set reg \<Longrightarrow> e < n"
    and "(k, e) \<in> set reg \<Longrightarrow> refs e = Some (tally (\<lambda>u. snd u = e) users)"
  using assms unfolding registry_ok_def by (auto simp: distinct_map inj_on_def) fastforce

lemma registry_mono: "registry_ok n reg refs users \<Longrightarrow> n \<le> n' \<Longrightarrow> registry_ok n' reg refs users"
  unfolding registry_ok_def by fastforce

lemma registry_joined:
  assumes ok: "registry_ok n reg refs users" and k: "map_of reg k = Some e" "refs e = Some r"
    and perm: "\<And>P. tally P users' = tally P users + (if P (k, e) then 1 else 0)" "set users' = insert (k, e) (set users)"
  shows "registry_ok n reg (refs(e \<mapsto> r + 1)) users'"
proof -
  from k(1) have in_reg: "(k, e) \<in> set reg" by (rule map_of_SomeD)
  show ?thesis
  proof (rule registry_okI)
    show "distinct (map fst reg)" "distinct (map snd reg)" using ok by (simp_all add: registry_ok_def)
    show "set users' = set reg" using ok in_reg perm(2) by (auto simp: registry_ok_def)
    show "e' < n" if "(k', e') \<in> set reg" for k' e' by (rule registry_okD(4)[OF ok that])
    show "(refs(e \<mapsto> r + 1)) e' = Some (tally (\<lambda>u. snd u = e') users')" if "(k', e') \<in> set reg" for k' e'
      using registry_okD(5)[OF ok that] registry_okD(5)[OF ok in_reg] k(2) perm(1) by (cases "e' = e") auto
  qed
qed

lemma registry_opened:
  assumes ok: "registry_ok n reg refs users" and k: "map_of reg k = None" and n: "n \<le> e" "e < n'"
    and perm: "\<And>P. tally P users' = tally P users + (if P (k, e) then 1 else 0)" "set users' = insert (k, e) (set users)"
  shows "registry_ok n' (reg @ [(k, e)]) (refs(e \<mapsto> 1)) users'"
proof -
  have old: "e' \<noteq> e \<and> e' < n'" if "(k', e') \<in> set reg" for k' e' using registry_okD(4)[OF ok that] n by simp
  have none: "tally (\<lambda>u. snd u = e) users = 0"
    unfolding tally_zero_iff using registry_okD(1)[OF ok] old by (metis prod.collapse)
  show ?thesis
  proof (rule registry_okI)
    show "(refs(e \<mapsto> 1)) e' = Some (tally (\<lambda>u. snd u = e') users')" if "(k', e') \<in> set (reg @ [(k, e)])" for k' e'
      using that registry_okD(5)[OF ok, of k' e'] old[of k' e'] none perm(1) by (cases "e' = e") auto
    show "distinct (map fst (reg @ [(k, e)]))" using ok k by (auto simp: registry_ok_def map_of_eq_None_iff)
    show "distinct (map snd (reg @ [(k, e)]))" using ok old by (fastforce simp: registry_ok_def)
    show "set users' = set (reg @ [(k, e)])" using ok perm(2) by (auto simp: registry_ok_def)
    show "e' < n'" if "(k', e') \<in> set (reg @ [(k, e)])" for k' e' using that old n by auto
  qed
qed

lemma registry_left:
  assumes ok: "registry_ok n reg refs users" and k: "(k, e) \<in> set users" "refs e = Some r"
    and perm: "\<And>P. tally P users = tally P users' + (if P (k, e) then 1 else 0)" "set users = insert (k, e) (set users')"
  shows "registry_ok n (if r - 1 = 0 \<and> map_of reg k = Some e then filter (\<lambda>p. fst p \<noteq> k) reg else reg)
           (refs(e \<mapsto> r - 1)) users'"
proof -
  from k(1) registry_okD(1)[OF ok] have in_reg: "(k, e) \<in> set reg" by blast
  note here = registry_okD(2)[OF ok in_reg]
  have r: "r = tally (\<lambda>u. snd u = e) users' + 1" using registry_okD(5)[OF ok in_reg] k(2) perm(1) by simp
  have cnt: "(refs(e \<mapsto> r - 1)) e' = Some (tally (\<lambda>u. snd u = e') users')" if "(k', e') \<in> set reg" for k' e'
    using registry_okD(5)[OF ok that] r perm(1) by (cases "e' = e") auto
  have only: "p = (k, e)" if "p \<in> set reg" "fst p = k \<or> snd p = e" for p
  proof (cases p)
    case (Pair a b)
    with that registry_okD(2)[OF ok, of a b] registry_okD(3)[OF ok, of a e k] here in_reg show ?thesis by auto
  qed
  have users: "set users' = (if r = 1 then set reg - {(k, e)} else set reg)"
  proof (cases "r = 1")
    case True
    then have "tally (\<lambda>u. snd u = e) users' = 0" using r by simp
    then have "(k, e) \<notin> set users'" unfolding tally_zero_iff by auto
    then show ?thesis using True perm(2) ok unfolding registry_ok_def by auto
  next
    case False
    have "0 < tally (\<lambda>u. snd u = e) users'" using False r tally_nonneg[of "\<lambda>u. snd u = e" users'] by linarith
    then obtain u where u: "u \<in> set users'" "snd u = e" unfolding tally_pos_iff by blast
    then have "u \<in> set reg" using perm(2) ok unfolding registry_ok_def by blast
    with u only have "(k, e) \<in> set users'" by metis
    then show ?thesis using False perm(2) ok unfolding registry_ok_def by auto
  qed
  have dist: "distinct (map fst reg)" "distinct (map snd reg)" using ok by (simp_all add: registry_ok_def)
  have sub: "set (if r - 1 = 0 \<and> map_of reg k = Some e then filter (\<lambda>p. fst p \<noteq> k) reg else reg) =
      (if r = 1 then set reg - {(k, e)} else set reg)"
    using only here by auto
  show ?thesis
  proof (rule registry_okI)
    show "set users' = set (if r - 1 = 0 \<and> map_of reg k = Some e then filter (\<lambda>p. fst p \<noteq> k) reg else reg)"
      unfolding sub by (rule users)
    fix k' e' assume "(k', e') \<in> set (if r - 1 = 0 \<and> map_of reg k = Some e then filter (\<lambda>p. fst p \<noteq> k) reg else reg)"
    then have r': "(k', e') \<in> set reg" by (simp split: if_splits)
    show "e' < n" by (rule registry_okD(4)[OF ok r'])
    show "(refs(e \<mapsto> r - 1)) e' = Some (tally (\<lambda>u. snd u = e') users')" by (rule cnt[OF r'])
  qed (use dist in \<open>auto simp: distinct_map_filter\<close>)
qed

end
