(* ===== verification/Keyed_Processor.thy ===== *)
theory Keyed_Processor
  imports Concurrency Policy
begin

text \<open>
  \<open>src/src/dztgbot/infrastructure/keyed_processor.py\<close>: the bounded processor that serialises the work of
  each key.  A caller of \<open>run\<close> is a program of its own; the stretches between its awaits are the steps
  of the machine below.  Futures and entries are objects with an identity, numbered by \<open>kp_next\<close>:
  \<open>kp_done\<close> are the futures with a result and \<open>kp_callbacks\<close> the callbacks registered on a future.
  The operation, its deadline and its cancellation are the environment.
\<close>

section \<open>Keys\<close>

record work_key =
  wk_namespace :: string
  wk_digest :: "nat list"

definition work_key_post_init :: "work_key \<Rightarrow> exn + work_key" where
  "work_key_post_init k =
     (if wk_namespace k \<notin> {''collection'', ''workflow''} then Inl (ValueError ''unsupported work-key namespace'')
      else if length (wk_digest k) \<noteq> 16 then Inl (ValueError ''work-key digest must contain 16 bytes'')
      else Inr k)"

text \<open>\<open>blake2b person payload\<close> is the 16-byte digest with that personalisation.\<close>

type_synonym blake2b = "nat list \<Rightarrow> nat list \<Rightarrow> nat list"

definition opaque_digest :: "blake2b \<Rightarrow> string \<Rightarrow> string \<Rightarrow> nat list" where
  "opaque_digest blake2b person payload = blake2b (take 16 (utf8_bytes person)) (utf8_bytes payload)"

definition collection_payload :: "int \<Rightarrow> int \<Rightarrow> int option \<Rightarrow> string" where
  "collection_payload actor chat thread =
     decimal_int actor @ '':'' @ decimal_int chat @ '':'' @
     decimal_int (case thread of None \<Rightarrow> 0 | Some t \<Rightarrow> t)"

definition for_collection :: "blake2b \<Rightarrow> int \<Rightarrow> int \<Rightarrow> int option \<Rightarrow> exn + work_key" where
  "for_collection blake2b actor chat thread =
     (if actor \<le> 0 then Inl (ValueError ''actor_id must be positive'')
      else if chat = 0 then Inl (ValueError ''chat_id must not be zero'')
      else if (case thread of None \<Rightarrow> False | Some t \<Rightarrow> t \<le> 0) then
        Inl (ValueError ''message_thread_id must be positive when present'')
      else work_key_post_init \<lparr>wk_namespace = ''collection'',
             wk_digest = opaque_digest blake2b ''dztgbot-collection-v1'' (collection_payload actor chat thread)\<rparr>)"

definition for_workflow :: "blake2b \<Rightarrow> string \<Rightarrow> exn + work_key" where
  "for_workflow blake2b draft_id =
     (let normalized = py_strip draft_id in
      if normalized = [] \<or> length normalized > 256 then Inl (ValueError ''draft_id is invalid'')
      else work_key_post_init \<lparr>wk_namespace = ''workflow'',
             wk_digest = opaque_digest blake2b ''dztgbot-workflow-v1'' normalized\<rparr>)"

section \<open>Results\<close>

datatype run_error =
    ProcessorOverloadedError
  | ProcessorDeadlineExceededError
  | ProcessorClosedError
  | RunValueError string
  | OperationRaised exn
  | OperationCancelled

datatype processing_outcome = PO_COMPLETED | PO_OVERLOADED | PO_DEADLINE_EXCEEDED | PO_CLOSED

record 'a processing_result =
  pr_outcome :: processing_outcome
  pr_value :: "'a option"
  pr_feedback :: "string option"

definition pr_completed :: "'a processing_result \<Rightarrow> bool" where
  "pr_completed r = (pr_outcome r = PO_COMPLETED)"

definition SAFE_OVERLOAD_FEEDBACK :: string where
  "SAFE_OVERLOAD_FEEDBACK = ''The service is busy. Please try again shortly.''"

definition SAFE_DEADLINE_FEEDBACK :: string where
  "SAFE_DEADLINE_FEEDBACK = ''The operation took too long. Please try again.''"

definition SAFE_CLOSED_FEEDBACK :: string where
  "SAFE_CLOSED_FEEDBACK = ''The service is stopping. Please try again later.''"

text \<open>
  How the body of \<open>run\<close> ended.  \<open>TimedOut\<close> is any \<open>TimeoutError\<close> that reaches it: the deadline's and
  the operation's own.
\<close>

datatype 'a body_exit = Returned 'a | Raised exn | TimedOut | Cancelled

fun run_exit :: "'a body_exit \<Rightarrow> run_error + 'a" where
  "run_exit (Returned x) = Inr x"
| "run_exit (Raised e) = Inl (OperationRaised e)"
| "run_exit TimedOut = Inl ProcessorDeadlineExceededError"
| "run_exit Cancelled = Inl OperationCancelled"

fun processing_try_run :: "run_error + 'a \<Rightarrow> run_error + 'a processing_result" where
  "processing_try_run (Inl ProcessorOverloadedError) =
     Inr \<lparr>pr_outcome = PO_OVERLOADED, pr_value = None, pr_feedback = Some SAFE_OVERLOAD_FEEDBACK\<rparr>"
| "processing_try_run (Inl ProcessorDeadlineExceededError) =
     Inr \<lparr>pr_outcome = PO_DEADLINE_EXCEEDED, pr_value = None, pr_feedback = Some SAFE_DEADLINE_FEEDBACK\<rparr>"
| "processing_try_run (Inl ProcessorClosedError) =
     Inr \<lparr>pr_outcome = PO_CLOSED, pr_value = None, pr_feedback = Some SAFE_CLOSED_FEEDBACK\<rparr>"
| "processing_try_run (Inl e) = Inl e"
| "processing_try_run (Inr x) = Inr \<lparr>pr_outcome = PO_COMPLETED, pr_value = Some x, pr_feedback = None\<rparr>"

section \<open>State\<close>

record key_entry =
  ke_tail :: nat
  ke_references :: int

text \<open>
  The locals of one \<open>run\<close>.  \<open>Executing\<close> is the body of the \<open>try\<close>, \<open>Cleaning\<close> its \<open>finally\<close> after the
  active count, \<open>Finishing\<close> the wait for \<open>_finish\<close>.
\<close>

datatype run_phase = Executing | Cleaning | Finishing

record caller =
  cl_key :: work_key
  cl_entry :: nat
  cl_predecessor :: nat
  cl_completion :: nat
  cl_turn_acquired :: bool
  cl_slot_acquired :: bool
  cl_active :: bool
  cl_phase :: run_phase

record processor =
  kp_max_concurrency :: int
  kp_capacity :: int
  kp_execution_slots :: int
  kp_drained :: bool
  kp_entries :: "(work_key \<times> nat) list"
  kp_admitted :: int
  kp_active :: int
  kp_closed :: bool
  kp_store :: "nat \<Rightarrow> key_entry option"
  kp_next :: nat
  kp_done :: "nat list"
  kp_callbacks :: "(nat \<times> nat) list"
  kp_callers :: "caller list"

definition KeyedProcessor :: "int \<Rightarrow> int \<Rightarrow> run_error + processor" where
  "KeyedProcessor max_concurrency max_queue_size =
     (if max_concurrency \<le> 0 then Inl (RunValueError ''max_concurrency must be positive'')
      else if max_queue_size < 0 then Inl (RunValueError ''max_queue_size must not be negative'')
      else Inr \<lparr>kp_max_concurrency = max_concurrency, kp_capacity = max_concurrency + max_queue_size,
                kp_execution_slots = max_concurrency, kp_drained = True, kp_entries = [],
                kp_admitted = 0, kp_active = 0, kp_closed = False, kp_store = Map.empty, kp_next = 0,
                kp_done = [], kp_callbacks = [], kp_callers = []\<rparr>)"

record processor_snapshot =
  ps_admitted :: int
  ps_queued :: int
  ps_active :: int
  ps_key_count :: nat
  ps_closed :: bool

definition processor_snapshot_of :: "processor \<Rightarrow> processor_snapshot" where
  "processor_snapshot_of s =
     \<lparr>ps_admitted = kp_admitted s, ps_queued = kp_admitted s - kp_active s, ps_active = kp_active s,
      ps_key_count = length (kp_entries s), ps_closed = kp_closed s\<rparr>"

section \<open>The steps of run\<close>

text \<open>\<open>self._entries.get(key)\<close>, with a fresh entry behind a future that is done when there is none.\<close>

definition entry_for :: "work_key \<Rightarrow> processor \<Rightarrow> nat \<times> processor" where
  "entry_for k s =
     (case map_of (kp_entries s) k of
        Some e \<Rightarrow> (e, s)
      | None \<Rightarrow>
          (let initial = kp_next s; e = kp_next s + 1 in
           (e, s\<lparr>kp_next := kp_next s + 2, kp_done := initial # kp_done s,
                 kp_store := (kp_store s)(e \<mapsto> \<lparr>ke_tail = initial, ke_references = 0\<rparr>),
                 kp_entries := kp_entries s @ [(k, e)]\<rparr>)))"

definition chain_caller :: "work_key \<Rightarrow> nat \<Rightarrow> key_entry \<Rightarrow> processor \<Rightarrow> processor" where
  "chain_caller k e entry s =
     s\<lparr>kp_next := kp_next s + 1,
       kp_store := (kp_store s)(e \<mapsto> \<lparr>ke_tail = kp_next s, ke_references = ke_references entry + 1\<rparr>),
       kp_admitted := kp_admitted s + 1, kp_drained := False,
       kp_callers := kp_callers s @ [\<lparr>cl_key = k, cl_entry = e, cl_predecessor = ke_tail entry,
         cl_completion = kp_next s, cl_turn_acquired = False, cl_slot_acquired = False, cl_active = False,
         cl_phase = Executing\<rparr>]\<rparr>"

definition admit :: "work_key \<Rightarrow> (processor, run_error, unit) sx" where
  "admit k = (\<lambda>s.
     if kp_closed s then (Inl ProcessorClosedError, s)
     else if kp_admitted s \<ge> kp_capacity s then (Inl ProcessorOverloadedError, s)
     else (case entry_for k s of (e, s') \<Rightarrow>
       (case kp_store s' e of None \<Rightarrow> (Inr (), s') | Some entry \<Rightarrow> (Inr (), chain_caller k e entry s'))))"

definition run_admission :: "work_key \<Rightarrow> int option \<Rightarrow> (processor, run_error, unit) sx" where
  "run_admission k total_deadline =
     (if (case total_deadline of None \<Rightarrow> False | Some d \<Rightarrow> d \<le> 0) then
        sx_raise (RunValueError ''total_deadline_seconds must be positive'')
      else admit k)"

abbreviation on_caller :: "caller \<Rightarrow> (caller \<Rightarrow> caller) \<Rightarrow> processor \<Rightarrow> processor" where
  "on_caller c f s \<equiv> s\<lparr>kp_callers := change cl_completion (cl_completion c) f (kp_callers s)\<rparr>"

definition take_turn :: "caller \<Rightarrow> processor \<Rightarrow> processor" where
  "take_turn c s = on_caller c (cl_turn_acquired_update (\<lambda>_. True)) s"

definition take_slot :: "caller \<Rightarrow> processor \<Rightarrow> processor" where
  "take_slot c s =
     on_caller c (cl_slot_acquired_update (\<lambda>_. True)) (s\<lparr>kp_execution_slots := kp_execution_slots s - 1\<rparr>)"

definition start_operation :: "caller \<Rightarrow> processor \<Rightarrow> processor" where
  "start_operation c s = on_caller c (cl_active_update (\<lambda>_. True)) (s\<lparr>kp_active := kp_active s + 1\<rparr>)"

text \<open>The first part of \<open>finally\<close>, reached from any await of the body.\<close>

definition leave_body :: "caller \<Rightarrow> processor \<Rightarrow> processor" where
  "leave_body c s =
     on_caller c (cl_phase_update (\<lambda>_. Cleaning))
       (if cl_active c then s\<lparr>kp_active := kp_active s - 1\<rparr> else s)"

definition complete_turn :: "nat \<Rightarrow> nat \<Rightarrow> bool \<Rightarrow> processor \<Rightarrow> processor" where
  "complete_turn predecessor completion turn_acquired s =
     (if completion \<in> set (kp_done s) then s
      else if turn_acquired \<or> predecessor \<in> set (kp_done s) then s\<lparr>kp_done := completion # kp_done s\<rparr>
      else s\<lparr>kp_callbacks := kp_callbacks s @ [(predecessor, completion)]\<rparr>)"

definition release_slot :: "caller \<Rightarrow> processor \<Rightarrow> processor" where
  "release_slot c s =
     on_caller c (cl_phase_update (\<lambda>_. Finishing))
       (complete_turn (cl_predecessor c) (cl_completion c) (cl_turn_acquired c)
          (if cl_slot_acquired c then s\<lparr>kp_execution_slots := kp_execution_slots s + 1\<rparr> else s))"

definition complete_after_predecessor :: "nat \<times> nat \<Rightarrow> processor \<Rightarrow> processor" where
  "complete_after_predecessor pc s =
     (let s' = s\<lparr>kp_callbacks := remove1 pc (kp_callbacks s)\<rparr> in
      if snd pc \<in> set (kp_done s') then s' else s'\<lparr>kp_done := snd pc # kp_done s'\<rparr>)"

definition drop_reference :: "work_key \<Rightarrow> nat \<Rightarrow> key_entry \<Rightarrow> processor \<Rightarrow> processor" where
  "drop_reference k e entry s =
     (let s' = s\<lparr>kp_store := (kp_store s)(e \<mapsto> entry\<lparr>ke_references := ke_references entry - 1\<rparr>),
                 kp_admitted := kp_admitted s - 1\<rparr>;
          s'' = (if ke_references entry - 1 = 0 \<and> map_of (kp_entries s') k = Some e
                 then s'\<lparr>kp_entries := filter (\<lambda>p. fst p \<noteq> k) (kp_entries s')\<rparr> else s') in
      if kp_admitted s'' = 0 then s''\<lparr>kp_drained := True\<rparr> else s'')"

definition finish :: "caller \<Rightarrow> processor \<Rightarrow> processor" where
  "finish c s =
     (case kp_store s (cl_entry c) of
        None \<Rightarrow> s
      | Some entry \<Rightarrow>
          (drop_reference (cl_key c) (cl_entry c) entry s)
            \<lparr>kp_callers := filter (\<lambda>x. cl_completion x \<noteq> cl_completion c) (kp_callers s)\<rparr>)"

definition close_processor :: "processor \<Rightarrow> processor" where
  "close_processor s =
     (let s' = s\<lparr>kp_closed := True\<rparr> in if kp_admitted s' = 0 then s'\<lparr>kp_drained := True\<rparr> else s')"

section \<open>The machine\<close>

text \<open>
  The steps admitted callers take by themselves.  A body ends when its operation does; with \<open>interrupts\<close>
  also by its deadline or a cancellation, at any await.
\<close>

inductive own_step :: "bool \<Rightarrow> processor \<Rightarrow> processor \<Rightarrow> bool" for interrupts where
  turn: "c \<in> set (kp_callers s) \<Longrightarrow> cl_phase c = Executing \<Longrightarrow> \<not> cl_turn_acquired c \<Longrightarrow>
    cl_predecessor c \<in> set (kp_done s) \<Longrightarrow> own_step interrupts s (take_turn c s)"
| slot: "c \<in> set (kp_callers s) \<Longrightarrow> cl_phase c = Executing \<Longrightarrow> cl_turn_acquired c \<Longrightarrow> \<not> cl_slot_acquired c \<Longrightarrow>
    0 < kp_execution_slots s \<Longrightarrow> own_step interrupts s (take_slot c s)"
| start: "c \<in> set (kp_callers s) \<Longrightarrow> cl_phase c = Executing \<Longrightarrow> cl_slot_acquired c \<Longrightarrow> \<not> cl_active c \<Longrightarrow>
    own_step interrupts s (start_operation c s)"
| leave: "c \<in> set (kp_callers s) \<Longrightarrow> cl_phase c = Executing \<Longrightarrow> cl_active c \<or> interrupts \<Longrightarrow>
    own_step interrupts s (leave_body c s)"
| release: "c \<in> set (kp_callers s) \<Longrightarrow> cl_phase c = Cleaning \<Longrightarrow> own_step interrupts s (release_slot c s)"
| finished: "c \<in> set (kp_callers s) \<Longrightarrow> cl_phase c = Finishing \<Longrightarrow> own_step interrupts s (finish c s)"
| callback: "pc \<in> set (kp_callbacks s) \<Longrightarrow> fst pc \<in> set (kp_done s) \<Longrightarrow>
    own_step interrupts s (complete_after_predecessor pc s)"

inductive processor_reachable :: "int \<Rightarrow> int \<Rightarrow> processor \<Rightarrow> bool" for max_concurrency max_queue_size where
  created: "KeyedProcessor max_concurrency max_queue_size = Inr s \<Longrightarrow> processor_reachable max_concurrency max_queue_size s"
| called: "processor_reachable max_concurrency max_queue_size s \<Longrightarrow> run_admission k deadline s = (r, s') \<Longrightarrow>
    processor_reachable max_concurrency max_queue_size s'"
| closed: "processor_reachable max_concurrency max_queue_size s \<Longrightarrow>
    processor_reachable max_concurrency max_queue_size (close_processor s)"
| stepped: "processor_reachable max_concurrency max_queue_size s \<Longrightarrow> own_step True s s' \<Longrightarrow>
    processor_reachable max_concurrency max_queue_size s'"

lemmas step_defs = take_turn_def take_slot_def start_operation_def leave_body_def

section \<open>The invariant\<close>

text \<open>The counters agree with the callers.\<close>

definition counts_ok :: "int \<Rightarrow> int \<Rightarrow> processor \<Rightarrow> bool" where
  "counts_ok m q s \<longleftrightarrow>
     kp_max_concurrency s = m \<and> kp_capacity s = m + q \<and> 0 < m \<and> 0 \<le> q \<and>
     kp_admitted s = int (length (kp_callers s)) \<and> kp_admitted s \<le> m + q \<and> (kp_drained s \<longleftrightarrow> kp_admitted s = 0) \<and>
     0 \<le> kp_execution_slots s \<and>
     kp_execution_slots s + tally (\<lambda>c. cl_slot_acquired c \<and> cl_phase c \<noteq> Finishing) (kp_callers s) = m \<and>
     kp_active s = tally (\<lambda>c. cl_active c \<and> cl_phase c = Executing) (kp_callers s) \<and>
     distinct (map cl_completion (kp_callers s))"

text \<open>Every caller is counted at the entry its key has, and every entry is in use.\<close>

definition entries_ok :: "processor \<Rightarrow> bool" where
  "entries_ok s \<longleftrightarrow>
     distinct (map fst (kp_entries s)) \<and> distinct (map snd (kp_entries s)) \<and>
     (\<forall>c\<in>set (kp_callers s). (cl_key c, cl_entry c) \<in> set (kp_entries s)) \<and>
     (\<forall>(k, e)\<in>set (kp_entries s). e < kp_next s \<and> (\<exists>entry. kp_store s e = Some entry \<and> ke_tail entry < kp_next s \<and>
        ke_references entry = tally (\<lambda>c. cl_entry c = e) (kp_callers s)))"

definition entries_used :: "processor \<Rightarrow> bool" where
  "entries_used s \<longleftrightarrow> (\<forall>(k, e)\<in>set (kp_entries s). \<exists>c\<in>set (kp_callers s). cl_entry c = e)"

text \<open>
  The chain of completions.  \<open>L\<close> gives every completion ever chained its predecessor and its entry:
  the predecessor is the completion chained before it at that entry, or the entry's first future.
\<close>

type_synonym chain = "nat \<Rightarrow> (nat \<times> nat) option"

definition chained :: "chain \<Rightarrow> nat \<Rightarrow> nat set \<Rightarrow> bool" where
  "chained L n dn \<longleftrightarrow>
     (\<forall>g p e. L g = Some (p, e) \<longrightarrow> p < g \<and> g < n \<and> e < n \<and> (g \<in> dn \<longrightarrow> p \<in> dn) \<and>
        (\<forall>f q. L f = Some (q, e) \<and> f < g \<longrightarrow> f \<le> p) \<and>
        ((\<exists>q. L p = Some (q, e)) \<or> p \<in> dn \<and> (\<forall>f q. L f = Some (q, e) \<longrightarrow> p < f)))"

definition caller_ok :: "chain \<Rightarrow> nat set \<Rightarrow> caller \<Rightarrow> bool" where
  "caller_ok L dn c \<longleftrightarrow>
     L (cl_completion c) = Some (cl_predecessor c, cl_entry c) \<and> (cl_turn_acquired c \<longrightarrow> cl_predecessor c \<in> dn) \<and>
     (cl_slot_acquired c \<longrightarrow> cl_turn_acquired c) \<and> (cl_active c \<longrightarrow> cl_slot_acquired c) \<and>
     (cl_phase c \<noteq> Finishing \<longrightarrow> cl_completion c \<notin> dn)"

definition tail_ok :: "chain \<Rightarrow> nat set \<Rightarrow> nat \<Rightarrow> nat \<Rightarrow> bool" where
  "tail_ok L dn e t \<longleftrightarrow>
     (\<forall>f q. L f = Some (q, e) \<longrightarrow> f \<le> t) \<and> ((\<exists>q. L t = Some (q, e)) \<or> t \<in> dn \<and> (\<forall>f q. L f \<noteq> Some (q, e)))"

definition pending :: "nat \<Rightarrow> caller list \<Rightarrow> bool" where
  "pending g cs \<longleftrightarrow> (\<exists>c\<in>set cs. cl_completion c = g \<and> cl_phase c \<noteq> Finishing)"

definition chain_ok :: "chain \<Rightarrow> processor \<Rightarrow> bool" where
  "chain_ok L s \<longleftrightarrow>
     chained L (kp_next s) (set (kp_done s)) \<and> (\<forall>d\<in>set (kp_done s). d < kp_next s) \<and>
     (\<forall>c\<in>set (kp_callers s). caller_ok L (set (kp_done s)) c) \<and>
     (\<forall>k e entry. (k, e) \<in> set (kp_entries s) \<longrightarrow> kp_store s e = Some entry \<longrightarrow>
        tail_ok L (set (kp_done s)) e (ke_tail entry)) \<and>
     (\<forall>p g. (p, g) \<in> set (kp_callbacks s) \<longrightarrow> (\<exists>e. L g = Some (p, e)) \<and> \<not> pending g (kp_callers s)) \<and>
     (\<forall>g p e. L g = Some (p, e) \<longrightarrow> g \<notin> set (kp_done s) \<longrightarrow> (p, g) \<in> set (kp_callbacks s) \<or> pending g (kp_callers s))"

definition processor_ok :: "int \<Rightarrow> int \<Rightarrow> processor \<Rightarrow> bool" where
  "processor_ok m q s \<longleftrightarrow> counts_ok m q s \<and> entries_ok s \<and> entries_used s \<and> (\<exists>L. chain_ok L s)"

section \<open>The chain\<close>

lemma chained_link:
  assumes "chained L n dn" and "L g = Some (p, e)"
  shows "p < g" "g < n" "e < n" "g \<in> dn \<Longrightarrow> p \<in> dn" "L f = Some (q, e) \<Longrightarrow> f < g \<Longrightarrow> f \<le> p"
    "(\<exists>q. L p = Some (q, e)) \<or> p \<in> dn \<and> (\<forall>f q. L f = Some (q, e) \<longrightarrow> p < f)"
  using assms unfolding chained_def by blast+

lemma chained_done:
  "chained L n dn \<Longrightarrow> L g = Some (p, e) \<Longrightarrow> p \<in> dn \<Longrightarrow> L f = Some (q, e) \<Longrightarrow> f < g \<Longrightarrow> f \<in> dn"
proof (induction g arbitrary: p rule: less_induct)
  case (less g)
  note link = chained_link[OF less.prems(1,2)]
  from link(5)[OF less.prems(4,5)] consider "f = p" | "f < p" by linarith
  then show ?case
  proof cases
    case 1
    with less.prems(3) show ?thesis by simp
  next
    case 2
    with link(6) less.prems(4) obtain q' where q': "L p = Some (q', e)" by (meson less_asym')
    from less.IH[OF link(1) less.prems(1) q' chained_link(4)[OF less.prems(1) q' less.prems(3)] less.prems(4) 2]
    show ?thesis .
  qed
qed

text \<open>A future becoming done after its predecessor keeps the chain.\<close>

lemma chained_complete:
  assumes "chained L n dn" and "L g = Some (p, e)" and "p \<in> dn"
  shows "chained L n (insert g dn)"
  unfolding chained_def
proof (intro allI impI)
  fix g' p' e' assume l: "L g' = Some (p', e')"
  have "p' \<in> insert g dn" if "g' \<in> insert g dn"
    using that assms l chained_link(4)[OF assms(1) l] by (cases "g' = g") auto
  with chained_link[OF assms(1) l]
  show "p' < g' \<and> g' < n \<and> e' < n \<and> (g' \<in> insert g dn \<longrightarrow> p' \<in> insert g dn) \<and>
      (\<forall>f q. L f = Some (q, e') \<and> f < g' \<longrightarrow> f \<le> p') \<and>
      ((\<exists>q. L p' = Some (q, e')) \<or> p' \<in> insert g dn \<and> (\<forall>f q. L f = Some (q, e') \<longrightarrow> p' < f))" by blast
qed

lemma tail_ok_mono: "tail_ok L dn e t \<Longrightarrow> dn \<subseteq> dn' \<Longrightarrow> tail_ok L dn' e t"
  unfolding tail_ok_def by blast

lemma same_completion:
  "distinct (map cl_completion cs) \<Longrightarrow> c \<in> set cs \<Longrightarrow> x \<in> set cs \<Longrightarrow> cl_completion x = cl_completion c \<Longrightarrow> x = c"
  by (metis distinct_map inj_onD)

lemma pending_change:
  assumes "pending g cs" and "distinct (map cl_completion cs)" and "c \<in> set cs"
    and "cl_completion (f c) = cl_completion c" and "g \<noteq> cl_completion c \<or> cl_phase (f c) \<noteq> Finishing"
  shows "pending g (change cl_completion (cl_completion c) f cs)"
  using assms same_completion[OF assms(2,3)] unfolding pending_def set_change by (cases "g = cl_completion c") force+

lemma pending_changeD:
  assumes "pending g (change cl_completion (cl_completion c) f cs)" and "distinct (map cl_completion cs)" and "c \<in> set cs"
    and "cl_completion (f c) = cl_completion c" and "cl_phase (f c) = Finishing \<or> cl_phase c \<noteq> Finishing"
  shows "pending g cs"
  using assms same_completion[OF assms(2,3)] unfolding pending_def set_change by (cases "g = cl_completion c") force+

text \<open>Steps that only move a caller along.\<close>

lemma chain_ok_caller:
  assumes ok: "chain_ok L s"
    and same: "kp_next s' = kp_next s" "kp_done s' = kp_done s" "kp_entries s' = kp_entries s" "kp_store s' = kp_store s"
      "kp_callbacks s' = kp_callbacks s" "kp_callers s' = change cl_completion (cl_completion c) f (kp_callers s)"
    and f: "cl_completion (f c) = cl_completion c" "caller_ok L (set (kp_done s)) c \<Longrightarrow> caller_ok L (set (kp_done s)) (f c)"
      "cl_phase (f c) \<noteq> Finishing" "cl_phase c \<noteq> Finishing"
    and c: "c \<in> set (kp_callers s)" "distinct (map cl_completion (kp_callers s))"
  shows "chain_ok L s'"
proof -
  have "caller_ok L (set (kp_done s)) x" if x: "x \<in> set (kp_callers s')" for x
    using x ok c(1) same_completion[OF c(2,1)] f(2) unfolding same(6) set_change chain_ok_def by blast
  moreover have "pending g (kp_callers s') \<longleftrightarrow> pending g (kp_callers s)" for g
    using pending_change[OF _ c(2,1), of g f] pending_changeD[OF _ c(2,1), of g f] f(1,3,4) same(6) by auto
  ultimately show ?thesis using ok unfolding chain_ok_def same(1-5) by blast
qed

section \<open>Steps of the body\<close>

lemma entries_ok_caller:
  assumes ok: "entries_ok s" and used: "entries_used s"
    and same: "kp_next s' = kp_next s" "kp_entries s' = kp_entries s" "kp_store s' = kp_store s"
      "kp_callers s' = change cl_completion (cl_completion c) f (kp_callers s)"
    and f: "\<And>x. cl_key (f x) = cl_key x" "\<And>x. cl_entry (f x) = cl_entry x"
    and c: "c \<in> set (kp_callers s)" "distinct (map cl_completion (kp_callers s))"
  shows "entries_ok s'" and "entries_used s'"
proof -
  have "tally (\<lambda>c. cl_entry c = e) (kp_callers s') = tally (\<lambda>c. cl_entry c = e) (kp_callers s)" for e
    using tally_change[OF c(2,1), of "\<lambda>c. cl_entry c = e" f] by (simp add: same f)
  moreover have "(cl_key x, cl_entry x) \<in> set (kp_entries s)" if "x \<in> set (kp_callers s')" for x
    using that ok unfolding entries_ok_def same set_change by (auto simp: f)
  ultimately show "entries_ok s'" using ok unfolding entries_ok_def same(1-3) by simp
  have "\<exists>x\<in>set (kp_callers s'). cl_entry x = e" if "\<exists>x\<in>set (kp_callers s). cl_entry x = e" for e
    using that f(2) unfolding same set_change by (auto simp: image_iff)
  then show "entries_used s'" using used unfolding entries_used_def same by fastforce
qed

lemma processor_okI:
  "counts_ok m q s \<Longrightarrow> entries_ok s \<Longrightarrow> entries_used s \<Longrightarrow> chain_ok L s \<Longrightarrow> processor_ok m q s"
  unfolding processor_ok_def by blast

lemma processor_okD:
  assumes "processor_ok m q s"
  obtains L where "counts_ok m q s" and "entries_ok s" and "entries_used s" and "chain_ok L s"
    and "distinct (map cl_completion (kp_callers s))"
  using assms unfolding processor_ok_def counts_ok_def by blast

lemma chain_okD:
  assumes "chain_ok L s"
  shows "chained L (kp_next s) (set (kp_done s))"
    and "(p, g) \<in> set (kp_callbacks s) \<Longrightarrow> \<exists>e. L g = Some (p, e)"
    and "(p, g) \<in> set (kp_callbacks s) \<Longrightarrow> \<not> pending g (kp_callers s)"
    and "L g = Some (p, e) \<Longrightarrow> g \<notin> set (kp_done s) \<Longrightarrow> (p, g) \<in> set (kp_callbacks s) \<or> pending g (kp_callers s)"
    and "(k, e) \<in> set (kp_entries s) \<Longrightarrow> kp_store s e = Some en \<Longrightarrow> tail_ok L (set (kp_done s)) e (ke_tail en)"
    and "d \<in> set (kp_done s) \<Longrightarrow> d < kp_next s"
  using assms unfolding chain_ok_def by blast+

lemma caller_flags:
  assumes "chain_ok L s" and "c \<in> set (kp_callers s)"
  shows "caller_ok L (set (kp_done s)) c"
  using assms unfolding chain_ok_def by blast

lemma body_step_ok:
  assumes ok: "processor_ok m q s" and c: "c \<in> set (kp_callers s)" "cl_phase c = Executing"
  shows "cl_predecessor c \<in> set (kp_done s) \<Longrightarrow> processor_ok m q (take_turn c s)"
    and "cl_turn_acquired c \<Longrightarrow> \<not> cl_slot_acquired c \<Longrightarrow> 0 < kp_execution_slots s \<Longrightarrow> processor_ok m q (take_slot c s)"
    and "cl_slot_acquired c \<Longrightarrow> \<not> cl_active c \<Longrightarrow> processor_ok m q (start_operation c s)"
    and "processor_ok m q (leave_body c s)"
proof -
  from ok obtain L where n: "counts_ok m q s" and e: "entries_ok s" "entries_used s" and L: "chain_ok L s"
    and d: "distinct (map cl_completion (kp_callers s))" by (rule processor_okD)
  note ent = entries_ok_caller[OF e _ _ _ _ _ _ c(1) d]
  note cha = chain_ok_caller[OF L _ _ _ _ _ _ _ _ _ _ c(1) d]
  note rec = n[unfolded counts_ok_def]
  show "processor_ok m q (take_turn c s)" if "cl_predecessor c \<in> set (kp_done s)"
  proof (rule processor_okI)
    show "counts_ok m q (take_turn c s)" using rec c by (simp add: counts_ok_def take_turn_def tally_change)
    show "entries_ok (take_turn c s)" "entries_used (take_turn c s)" by (rule ent[where f = "cl_turn_acquired_update (\<lambda>_. True)"]; simp add: take_turn_def)+
    show "chain_ok L (take_turn c s)" by (rule cha[where f = "cl_turn_acquired_update (\<lambda>_. True)"]; simp add: take_turn_def caller_ok_def c that)
  qed
  show "processor_ok m q (take_slot c s)" if "cl_turn_acquired c" "\<not> cl_slot_acquired c" "0 < kp_execution_slots s"
  proof (rule processor_okI)
    show "counts_ok m q (take_slot c s)" using rec c that by (simp add: counts_ok_def take_slot_def tally_change)
    show "entries_ok (take_slot c s)" "entries_used (take_slot c s)" by (rule ent[where f = "cl_slot_acquired_update (\<lambda>_. True)"]; simp add: take_slot_def)+
    show "chain_ok L (take_slot c s)" by (rule cha[where f = "cl_slot_acquired_update (\<lambda>_. True)"]; simp add: take_slot_def caller_ok_def c that)
  qed
  show "processor_ok m q (start_operation c s)" if "cl_slot_acquired c" "\<not> cl_active c"
  proof (rule processor_okI)
    show "counts_ok m q (start_operation c s)" using rec c that by (simp add: counts_ok_def start_operation_def tally_change)
    show "entries_ok (start_operation c s)" "entries_used (start_operation c s)" by (rule ent[where f = "cl_active_update (\<lambda>_. True)"]; simp add: start_operation_def)+
    show "chain_ok L (start_operation c s)" by (rule cha[where f = "cl_active_update (\<lambda>_. True)"]; simp add: start_operation_def caller_ok_def c that)
  qed
  show "processor_ok m q (leave_body c s)"
  proof (rule processor_okI)
    show "counts_ok m q (leave_body c s)" using rec c by (simp add: counts_ok_def leave_body_def tally_change)
    show "entries_ok (leave_body c s)" "entries_used (leave_body c s)" by (rule ent[where f = "cl_phase_update (\<lambda>_. Cleaning)"]; simp add: leave_body_def)+
    show "chain_ok L (leave_body c s)" by (rule cha[where f = "cl_phase_update (\<lambda>_. Cleaning)"]; simp add: leave_body_def caller_ok_def c)
  qed
qed

section \<open>Releasing and finishing\<close>

lemma complete_turn_same [simp]:
  "kp_max_concurrency (complete_turn p g t s) = kp_max_concurrency s" "kp_capacity (complete_turn p g t s) = kp_capacity s"
  "kp_admitted (complete_turn p g t s) = kp_admitted s" "kp_drained (complete_turn p g t s) = kp_drained s"
  "kp_execution_slots (complete_turn p g t s) = kp_execution_slots s" "kp_active (complete_turn p g t s) = kp_active s"
  "kp_callers (complete_turn p g t s) = kp_callers s" "kp_entries (complete_turn p g t s) = kp_entries s"
  "kp_next (complete_turn p g t s) = kp_next s" "kp_store (complete_turn p g t s) = kp_store s"
  by (simp_all add: complete_turn_def)

lemma caller_ok_complete:
  "caller_ok L dn x \<Longrightarrow> cl_completion x \<noteq> g \<or> cl_phase x = Finishing \<Longrightarrow> caller_ok L (insert g dn) x"
  unfolding caller_ok_def by auto

lemma chain_ok_done:
  assumes ok: "chain_ok L s" and g: "L g = Some (p, e)" "p \<in> set (kp_done s)"
    and same: "kp_next s' = kp_next s" "kp_done s' = g # kp_done s" "kp_entries s' = kp_entries s" "kp_store s' = kp_store s"
    and cb: "\<And>x. x \<in> set (kp_callbacks s') \<Longrightarrow> x \<in> set (kp_callbacks s)"
      "\<And>x. x \<in> set (kp_callbacks s) \<Longrightarrow> snd x \<noteq> g \<Longrightarrow> x \<in> set (kp_callbacks s')"
    and cl: "\<And>x. x \<in> set (kp_callers s') \<Longrightarrow> caller_ok L (insert g (set (kp_done s))) x"
      "\<And>h. pending h (kp_callers s') \<longleftrightarrow> pending h (kp_callers s) \<and> h \<noteq> g"
  shows "chain_ok L s'"
proof -
  have st: "set (kp_done s') = insert g (set (kp_done s))" by (simp add: same)
  have "chained L (kp_next s') (set (kp_done s'))"
    unfolding st same(1) using ok g by (intro chained_complete) (simp_all add: chain_ok_def)
  moreover have "\<forall>d\<in>set (kp_done s'). d < kp_next s'"
    unfolding st same(1) using ok chained_link(2)[of L "kp_next s" "set (kp_done s)" g p e] g(1) by (auto simp: chain_ok_def)
  moreover have "tail_ok L (set (kp_done s')) e' (ke_tail en)"
    if "(k, e') \<in> set (kp_entries s')" "kp_store s' e' = Some en" for k e' en
    using that ok unfolding st same(3,4) chain_ok_def by (intro tail_ok_mono[OF _ subset_insertI]) blast
  moreover have "(\<exists>e. L h = Some (q, e)) \<and> \<not> pending h (kp_callers s')" if "(q, h) \<in> set (kp_callbacks s')" for q h
    using cb(1)[OF that] ok cl(2) unfolding chain_ok_def by blast
  moreover have "(q, h) \<in> set (kp_callbacks s') \<or> pending h (kp_callers s')"
    if "L h = Some (q, e')" "h \<notin> set (kp_done s')" for h q e'
    using that cb(2)[of "(q, h)"] chain_okD(4)[OF ok that(1)] cl(2)[of h] unfolding st by auto
  ultimately show ?thesis using cl(1) unfolding chain_ok_def st by blast
qed

lemma release_chain_ok:
  assumes ok: "chain_ok L s" and c: "c \<in> set (kp_callers s)" "distinct (map cl_completion (kp_callers s))" "cl_phase c = Cleaning"
  shows "chain_ok L (release_slot c s)"
proof -
  let ?g = "cl_completion c" and ?p = "cl_predecessor c" and ?f = "cl_phase_update (\<lambda>_. Finishing)"
  let ?cs = "change cl_completion ?g ?f (kp_callers s)"
  note cok = caller_flags[OF ok c(1), unfolded caller_ok_def]
  have fin: "cl_phase x = Finishing" if "x \<in> set ?cs" "cl_completion x = ?g" for x
    using that unfolding set_change by auto
  have pend: "pending h ?cs \<longleftrightarrow> pending h (kp_callers s) \<and> h \<noteq> ?g" for h
    using pending_change[OF _ c(2,1), of h ?f] pending_changeD[OF _ c(2,1), of h ?f] fin
    unfolding pending_def[of h ?cs] by (auto simp: pending_def)
  have keep: "caller_ok L (set (kp_done s)) x" if "x \<in> set ?cs" for x
    using that ok same_completion[OF c(2,1)] unfolding set_change chain_ok_def by (auto simp: caller_ok_def)
  have cs: "kp_callers (release_slot c s) = ?cs" by (simp add: release_slot_def)
  show ?thesis
  proof (cases "cl_turn_acquired c \<or> ?p \<in> set (kp_done s)")
    case True
    with cok c have new: "kp_done (release_slot c s) = ?g # kp_done s" "kp_callbacks (release_slot c s) = kp_callbacks s"
      by (simp_all add: release_slot_def complete_turn_def)
    show ?thesis
    proof (rule chain_ok_done[OF ok])
      show "L ?g = Some (?p, cl_entry c)" "?p \<in> set (kp_done s)" using cok True by auto
      show "\<And>x. x \<in> set (kp_callers (release_slot c s)) \<Longrightarrow> caller_ok L (insert ?g (set (kp_done s))) x"
        unfolding cs using keep fin by (intro caller_ok_complete) blast+
      show "\<And>h. pending h (kp_callers (release_slot c s)) \<longleftrightarrow> pending h (kp_callers s) \<and> h \<noteq> ?g"
        using pend by (simp add: release_slot_def)
    qed (simp_all add: new, simp_all add: release_slot_def)
  next
    case False
    with cok c have new: "kp_done (release_slot c s) = kp_done s"
      "kp_callbacks (release_slot c s) = kp_callbacks s @ [(?p, ?g)]"
      by (simp_all add: release_slot_def complete_turn_def)
    have rest: "kp_next (release_slot c s) = kp_next s" "kp_entries (release_slot c s) = kp_entries s"
      "kp_store (release_slot c s) = kp_store s" "kp_callers (release_slot c s) = ?cs"
      by (simp_all add: release_slot_def)
    have "(\<exists>e. L h = Some (q, e)) \<and> \<not> pending h ?cs" if "(q, h) \<in> set (kp_callbacks s @ [(?p, ?g)])" for q h
      using that chain_okD(2,3)[OF ok, of q h] cok pend by auto
    moreover have "(q, h) \<in> set (kp_callbacks s @ [(?p, ?g)]) \<or> pending h ?cs"
      if "L h = Some (q, e)" "h \<notin> set (kp_done s)" for h q e
    proof (cases "h = ?g")
      case True
      with that(1) cok show ?thesis by simp
    next
      case False
      with chain_okD(4)[OF ok that] pend[of h] show ?thesis by simp
    qed
    ultimately show ?thesis using ok keep unfolding chain_ok_def new rest by blast
  qed
qed

lemma release_ok:
  assumes "processor_ok m q s" and c: "c \<in> set (kp_callers s)" "cl_phase c = Cleaning"
  shows "processor_ok m q (release_slot c s)"
proof -
  from assms(1) obtain L where n: "counts_ok m q s" and e: "entries_ok s" "entries_used s" and L: "chain_ok L s"
    and d: "distinct (map cl_completion (kp_callers s))" by (rule processor_okD)
  note ent = entries_ok_caller[OF e _ _ _ _ _ _ c(1) d]
  show ?thesis
  proof (rule processor_okI)
    show "counts_ok m q (release_slot c s)"
      using n c by (simp add: counts_ok_def release_slot_def tally_change)
    show "entries_ok (release_slot c s)" "entries_used (release_slot c s)"
      by (rule ent[where f = "cl_phase_update (\<lambda>_. Finishing)"]; simp add: release_slot_def)+
    show "chain_ok L (release_slot c s)" by (rule release_chain_ok[OF L c(1) d c(2)])
  qed
qed

lemma callback_ok:
  assumes "processor_ok m q s" and pc: "(p, g) \<in> set (kp_callbacks s)" "p \<in> set (kp_done s)"
  shows "processor_ok m q (complete_after_predecessor (p, g) s)"
proof -
  let ?s = "complete_after_predecessor (p, g) s"
  from assms(1) obtain L where n: "counts_ok m q s" and e: "entries_ok s" "entries_used s" and L: "chain_ok L s"
    by (rule processor_okD)
  from L pc(1) obtain e' where g: "L g = Some (p, e')" and np: "\<not> pending g (kp_callers s)" unfolding chain_ok_def by blast
  have cb: "set (kp_callbacks ?s) \<subseteq> set (kp_callbacks s)"
    "\<And>x. x \<in> set (kp_callbacks s) \<Longrightarrow> snd x \<noteq> g \<Longrightarrow> x \<in> set (kp_callbacks ?s)"
    by (auto simp: complete_after_predecessor_def Let_def dest: set_remove1_subset[THEN subsetD])
  have chain: "chain_ok L ?s"
  proof (cases "g \<in> set (kp_done s)")
    case True
    then have same: "kp_next ?s = kp_next s" "kp_done ?s = kp_done s" "kp_entries ?s = kp_entries s" "kp_store ?s = kp_store s"
      "kp_callers ?s = kp_callers s" by (simp_all add: complete_after_predecessor_def Let_def)
    have "(q, h) \<in> set (kp_callbacks ?s) \<or> pending h (kp_callers s)" if "L h = Some (q, e)" "h \<notin> set (kp_done s)" for h q e
      using that True chain_okD(4)[OF L that(1)] cb(2)[of "(q, h)"] by auto
    then show ?thesis using L cb(1) unfolding chain_ok_def same by blast
  next
    case False
    show ?thesis
    proof (rule chain_ok_done[OF L g pc(2)])
      show "caller_ok L (insert g (set (kp_done s))) x" if "x \<in> set (kp_callers ?s)" for x
        using that False np L unfolding chain_ok_def pending_def
        by (intro caller_ok_complete) (auto simp: complete_after_predecessor_def Let_def)
      show "pending h (kp_callers ?s) \<longleftrightarrow> pending h (kp_callers s) \<and> h \<noteq> g" for h
        using False np by (auto simp: complete_after_predecessor_def Let_def)
    qed (use False cb in \<open>auto simp: complete_after_predecessor_def Let_def\<close>)
  qed
  show ?thesis
  proof (rule processor_okI[OF _ _ _ chain])
    show "counts_ok m q ?s" using n by (simp add: counts_ok_def complete_after_predecessor_def Let_def)
    show "entries_ok ?s" using e by (simp add: entries_ok_def complete_after_predecessor_def Let_def)
    show "entries_used ?s" using e by (simp add: entries_used_def complete_after_predecessor_def Let_def)
  qed
qed

lemma length_remove:
  assumes "distinct (map key xs)" and "x \<in> set xs"
  shows "int (length (filter (\<lambda>y. key y \<noteq> key x) xs)) = int (length xs) - 1"
  using tally_remove[OF assms, of "\<lambda>_. True"] by (simp add: tally_True)

lemma distinct_snd_eq: "distinct (map snd xs) \<Longrightarrow> (k, e) \<in> set xs \<Longrightarrow> (k', e) \<in> set xs \<Longrightarrow> k = k'"
  unfolding distinct_map inj_on_def by fastforce

lemma entries_okD:
  assumes "entries_ok s"
  shows "c \<in> set (kp_callers s) \<Longrightarrow> (cl_key c, cl_entry c) \<in> set (kp_entries s)"
    and "(k, e) \<in> set (kp_entries s) \<Longrightarrow> (k, e') \<in> set (kp_entries s) \<Longrightarrow> e = e'"
    and "(k, e) \<in> set (kp_entries s) \<Longrightarrow> (k', e) \<in> set (kp_entries s) \<Longrightarrow> k = k'"
    and "(k, e) \<in> set (kp_entries s) \<Longrightarrow> e < kp_next s \<and> (\<exists>entry. kp_store s e = Some entry \<and> ke_tail entry < kp_next s \<and>
        ke_references entry = tally (\<lambda>c. cl_entry c = e) (kp_callers s))"
    and "(k, e) \<in> set (kp_entries s) \<longleftrightarrow> map_of (kp_entries s) k = Some e"
proof -
  from assms have d: "distinct (map fst (kp_entries s))" "distinct (map snd (kp_entries s))"
    and c: "\<forall>c\<in>set (kp_callers s). (cl_key c, cl_entry c) \<in> set (kp_entries s)"
    and e: "\<forall>(k, e)\<in>set (kp_entries s). e < kp_next s \<and> (\<exists>entry. kp_store s e = Some entry \<and> ke_tail entry < kp_next s \<and>
        ke_references entry = tally (\<lambda>c. cl_entry c = e) (kp_callers s))"
    unfolding entries_ok_def by simp_all
  show "c \<in> set (kp_callers s) \<Longrightarrow> (cl_key c, cl_entry c) \<in> set (kp_entries s)" using c by blast
  show "(k, e) \<in> set (kp_entries s) \<Longrightarrow> (k, e') \<in> set (kp_entries s) \<Longrightarrow> e = e'"
    using eq_key_imp_eq_value[OF d(1)] .
  show "(k, e) \<in> set (kp_entries s) \<Longrightarrow> (k', e) \<in> set (kp_entries s) \<Longrightarrow> k = k'"
    by (rule distinct_snd_eq[OF d(2)])
  show "(k, e) \<in> set (kp_entries s) \<Longrightarrow> e < kp_next s \<and> (\<exists>entry. kp_store s e = Some entry \<and> ke_tail entry < kp_next s \<and>
        ke_references entry = tally (\<lambda>c. cl_entry c = e) (kp_callers s))" using e by fast
  show "(k, e) \<in> set (kp_entries s) \<longleftrightarrow> map_of (kp_entries s) k = Some e"
    using map_of_eq_Some_iff[OF d(1)] by metis
qed

lemma drop_reference_same [simp]:
  "kp_max_concurrency (drop_reference k e en s) = kp_max_concurrency s" "kp_capacity (drop_reference k e en s) = kp_capacity s"
  "kp_execution_slots (drop_reference k e en s) = kp_execution_slots s" "kp_active (drop_reference k e en s) = kp_active s"
  "kp_admitted (drop_reference k e en s) = kp_admitted s - 1"
  "kp_drained (drop_reference k e en s) \<longleftrightarrow> kp_drained s \<or> kp_admitted s = 1"
  "kp_next (drop_reference k e en s) = kp_next s" "kp_done (drop_reference k e en s) = kp_done s"
  "kp_callbacks (drop_reference k e en s) = kp_callbacks s" "kp_closed (drop_reference k e en s) = kp_closed s"
  "kp_store (drop_reference k e en s) = (kp_store s)(e \<mapsto> en\<lparr>ke_references := ke_references en - 1\<rparr>)"
  "kp_entries (drop_reference k e en s) = (if ke_references en = 1 \<and> map_of (kp_entries s) k = Some e
     then filter (\<lambda>p. fst p \<noteq> k) (kp_entries s) else kp_entries s)"
  by (auto simp: drop_reference_def Let_def)

lemma finish_eq:
  assumes "entries_ok s" and "c \<in> set (kp_callers s)"
  obtains en where "kp_store s (cl_entry c) = Some en" "ke_references en = tally (\<lambda>x. cl_entry x = cl_entry c) (kp_callers s)"
    and "finish c s = (drop_reference (cl_key c) (cl_entry c) en s)
            \<lparr>kp_callers := filter (\<lambda>x. cl_completion x \<noteq> cl_completion c) (kp_callers s)\<rparr>"
proof -
  from entries_okD(4)[OF assms(1) entries_okD(1)[OF assms]] obtain en where
    "kp_store s (cl_entry c) = Some en" "ke_references en = tally (\<lambda>x. cl_entry x = cl_entry c) (kp_callers s)" by blast
  then show thesis by (intro that) (simp_all add: finish_def)
qed

lemma finish_entries:
  assumes ok: "entries_ok s" "entries_used s" and c: "c \<in> set (kp_callers s)" "distinct (map cl_completion (kp_callers s))"
  shows "entries_ok (finish c s)" and "entries_used (finish c s)"
proof -
  let ?e = "cl_entry c" and ?k = "cl_key c" and ?cs = "filter (\<lambda>x. cl_completion x \<noteq> cl_completion c) (kp_callers s)"
  from finish_eq[OF ok(1) c(1)] obtain en where en: "kp_store s ?e = Some en"
    "ke_references en = tally (\<lambda>x. cl_entry x = ?e) (kp_callers s)" and
    s': "finish c s = (drop_reference ?k ?e en s)\<lparr>kp_callers := ?cs\<rparr>" .
  note key = entries_okD(1)[OF ok(1) c(1)]
  note cnt = tally_remove[OF c(2,1)]
  let ?gone = "ke_references en = 1"
  have ents: "set (kp_entries (finish c s)) = {p \<in> set (kp_entries s). \<not> (?gone \<and> fst p = ?k)}"
    using key entries_okD(5)[OF ok(1)] by (auto simp: s')
  have none: "cl_entry x \<noteq> ?e" if "x \<in> set ?cs" ?gone for x
    using that cnt[of "\<lambda>x. cl_entry x = ?e"] en(2) tally_zero_iff[of "\<lambda>x. cl_entry x = ?e" ?cs] by auto
  have "(cl_key x, cl_entry x) \<in> set (kp_entries (finish c s))" if "x \<in> set (kp_callers (finish c s))" for x
    using that none[of x] entries_okD(1)[OF ok(1), of x] entries_okD(2)[OF ok(1) key] unfolding ents by (auto simp: s')
  moreover have "e < kp_next (finish c s) \<and> (\<exists>entry. kp_store (finish c s) e = Some entry \<and> ke_tail entry < kp_next (finish c s) \<and>
        ke_references entry = tally (\<lambda>c. cl_entry c = e) (kp_callers (finish c s)))"
    if "(k, e) \<in> set (kp_entries (finish c s))" for k e
  proof -
    from that have "(k, e) \<in> set (kp_entries s)" unfolding ents by simp
    from entries_okD(4)[OF ok(1) this] obtain en' where lt: "e < kp_next s" "kp_store s e = Some en'" "ke_tail en' < kp_next s"
      "ke_references en' = tally (\<lambda>x. cl_entry x = e) (kp_callers s)" by blast
    show ?thesis
    proof (cases "e = ?e")
      case True
      with lt en have "en' = en" by simp
      with lt en True cnt[of "\<lambda>x. cl_entry x = ?e"] show ?thesis by (simp add: s')
    next
      case False
      with lt cnt[of "\<lambda>x. cl_entry x = e"] show ?thesis by (simp add: s')
    qed
  qed
  moreover have "distinct (map fst (kp_entries (finish c s)))" "distinct (map snd (kp_entries (finish c s)))"
    using ok(1) by (simp_all add: s' entries_ok_def distinct_map_filter)
  ultimately show "entries_ok (finish c s)" unfolding entries_ok_def by auto
  have "\<exists>x\<in>set ?cs. cl_entry x = e" if "(k, e) \<in> set (kp_entries (finish c s))" for k e
  proof (cases "e = ?e")
    case True
    with that key entries_okD(3)[OF ok(1)] have "\<not> ?gone" unfolding ents by auto
    moreover have "0 < ke_references en" using en(2) c(1) tally_pos_iff[of "\<lambda>x. cl_entry x = ?e"] by auto
    ultimately show ?thesis using cnt[of "\<lambda>x. cl_entry x = ?e"] en(2) True tally_pos_iff[of "\<lambda>x. cl_entry x = ?e" ?cs] by auto
  next
    case False
    from that ok(2) obtain x where x: "x \<in> set (kp_callers s)" "cl_entry x = e" unfolding ents entries_used_def by auto
    with False have "cl_completion x \<noteq> cl_completion c" using same_completion[OF c(2,1)] by blast
    with x show ?thesis by auto
  qed
  then show "entries_used (finish c s)" unfolding entries_used_def by (auto simp: s')
qed

lemma finish_ok:
  assumes "processor_ok m q s" and c: "c \<in> set (kp_callers s)" "cl_phase c = Finishing"
  shows "processor_ok m q (finish c s)"
proof -
  from assms(1) obtain L where n: "counts_ok m q s" and e: "entries_ok s" "entries_used s" and L: "chain_ok L s"
    and d: "distinct (map cl_completion (kp_callers s))" by (rule processor_okD)
  let ?cs = "filter (\<lambda>x. cl_completion x \<noteq> cl_completion c) (kp_callers s)"
  from finish_eq[OF e(1) c(1)] obtain en where en: "kp_store s (cl_entry c) = Some en" and
    s': "finish c s = (drop_reference (cl_key c) (cl_entry c) en s)\<lparr>kp_callers := ?cs\<rparr>" .
  have "0 < length (kp_callers s)" using c(1) by (auto simp: length_pos_if_in_set)
  then have counts: "counts_ok m q (finish c s)"
    using n c d by (auto simp: s' counts_ok_def length_remove tally_remove distinct_remove)
  have pend: "pending g ?cs \<longleftrightarrow> pending g (kp_callers s)" for g
    using c(2) same_completion[OF d c(1)] by (auto simp: pending_def)
  have "tail_ok L (set (kp_done s)) e' (ke_tail en')"
    if "(k, e') \<in> set (kp_entries (finish c s))" "kp_store (finish c s) e' = Some en'" for k e' en'
    using that en chain_okD(5)[OF L, of k e'] by (auto simp: s' split: if_splits)
  then have "chain_ok L (finish c s)" using L unfolding chain_ok_def by (simp add: s' pend)
  with counts finish_entries[OF e c(1) d] show ?thesis by (intro processor_okI)
qed

section \<open>Admission\<close>

lemma entry_for_ok:
  assumes n: "counts_ok m q s" and e: "entries_ok s" and L: "chain_ok L s" and run: "entry_for k s = (e, s')"
  shows "counts_ok m q s'" and "entries_ok s'" and "chain_ok L s'" and "(k, e) \<in> set (kp_entries s')"
    and "set (kp_entries s') \<subseteq> insert (k, e) (set (kp_entries s))" and "kp_callers s' = kp_callers s"
proof -
  have "counts_ok m q s' \<and> entries_ok s' \<and> chain_ok L s' \<and> (k, e) \<in> set (kp_entries s') \<and>
    set (kp_entries s') \<subseteq> insert (k, e) (set (kp_entries s)) \<and> kp_callers s' = kp_callers s"
  proof (cases "map_of (kp_entries s) k")
    case (Some e')
    with run have "e' = e" "s' = s" by (simp_all add: entry_for_def)
    with Some n e L show ?thesis using entries_okD(5)[OF e, of k e] by auto
  next
    case None
    let ?n = "kp_next s"
    from None run have e': "e = ?n + 1" and s': "s' = s\<lparr>kp_next := ?n + 2, kp_done := ?n # kp_done s,
        kp_store := (kp_store s)(?n + 1 \<mapsto> \<lparr>ke_tail = ?n, ke_references = 0\<rparr>), kp_entries := kp_entries s @ [(k, ?n + 1)]\<rparr>"
      by (auto simp: entry_for_def Let_def)
    have counts: "counts_ok m q s'" using n by (simp add: counts_ok_def s')
    have old: "e'' < ?n" if "(k', e'') \<in> set (kp_entries s)" for k' e'' using entries_okD(4)[OF e that] by simp
    have unused: "tally (\<lambda>c. cl_entry c = ?n + 1) (kp_callers s) = 0"
      unfolding tally_zero_iff using entries_okD(1)[OF e] old by fastforce
    have ent: "entries_ok s'"
      unfolding entries_ok_def
    proof (intro conjI)
      show "distinct (map fst (kp_entries s'))" using e None by (auto simp: s' entries_ok_def map_of_eq_None_iff)
      show "distinct (map snd (kp_entries s'))" using e old by (fastforce simp: s' entries_ok_def)
      show "\<forall>c\<in>set (kp_callers s'). (cl_key c, cl_entry c) \<in> set (kp_entries s')" using entries_okD(1)[OF e] by (simp add: s')
      show "\<forall>(k, e)\<in>set (kp_entries s'). e < kp_next s' \<and> (\<exists>entry. kp_store s' e = Some entry \<and> ke_tail entry < kp_next s' \<and>
        ke_references entry = tally (\<lambda>c. cl_entry c = e) (kp_callers s'))"
      proof clarify
        fix k'' e'' assume "(k'', e'') \<in> set (kp_entries s')"
        then consider "(k'', e'') \<in> set (kp_entries s)" | "e'' = ?n + 1" by (auto simp: s')
        then show "e'' < kp_next s' \<and> (\<exists>entry. kp_store s' e'' = Some entry \<and> ke_tail entry < kp_next s' \<and>
          ke_references entry = tally (\<lambda>c. cl_entry c = e'') (kp_callers s'))"
        proof cases
          case 1
          from entries_okD(4)[OF e 1] show ?thesis by (auto simp: s')
        next
          case 2
          then show ?thesis using unused by (simp add: s')
        qed
      qed
    qed
    note ch = chain_okD(1)[OF L]
    have notn: "g \<noteq> ?n" "e'' \<noteq> ?n + 1" if "L g = Some (p, e'')" for g p e'' using chained_link(2,3)[OF ch that] by simp_all
    have c1: "chained L (?n + 2) (insert ?n (set (kp_done s)))"
      unfolding chained_def
    proof (intro allI impI)
      fix g p e'' assume l: "L g = Some (p, e'')"
      from chained_link[OF ch l] notn(1)[OF l]
      show "p < g \<and> g < ?n + 2 \<and> e'' < ?n + 2 \<and> (g \<in> insert ?n (set (kp_done s)) \<longrightarrow> p \<in> insert ?n (set (kp_done s))) \<and>
        (\<forall>f q. L f = Some (q, e'') \<and> f < g \<longrightarrow> f \<le> p) \<and>
        ((\<exists>q. L p = Some (q, e'')) \<or> p \<in> insert ?n (set (kp_done s)) \<and> (\<forall>f q. L f = Some (q, e'') \<longrightarrow> p < f))" by auto
    qed
    have c2: "caller_ok L (insert ?n (set (kp_done s))) c" if "c \<in> set (kp_callers s)" for c
      using caller_flags[OF L that] notn(1)[of "cl_completion c"] by (intro caller_ok_complete) (auto simp: caller_ok_def)
    have c3: "tail_ok L (insert ?n (set (kp_done s))) e'' (ke_tail en)"
      if k: "(k', e'') \<in> set (kp_entries s')" and st: "kp_store s' e'' = Some en" for k' e'' en
    proof (cases "e'' = ?n + 1")
      case True
      with st have "ke_tail en = ?n" by (auto simp: s')
      with True notn show ?thesis unfolding tail_ok_def by blast
    next
      case False
      with k st have "(k', e'') \<in> set (kp_entries s)" "kp_store s e'' = Some en" by (auto simp: s')
      from tail_ok_mono[OF chain_okD(5)[OF L this] subset_insertI] show ?thesis .
    qed
    have "chain_ok L s'"
      using c1 c2 c3 chain_okD(2-4,6)[OF L] unfolding chain_ok_def by (auto simp: s' less_Suc_eq less_SucI)
    with counts ent show ?thesis by (simp add: e' s')
  qed
  then show "counts_ok m q s'" and "entries_ok s'" and "chain_ok L s'" and "(k, e) \<in> set (kp_entries s')"
    and "set (kp_entries s') \<subseteq> insert (k, e) (set (kp_entries s))" and "kp_callers s' = kp_callers s" by blast+
qed

lemma chained_extend:
  assumes ch: "chained L n dn" and dn: "\<forall>d\<in>dn. d < n" and t: "tail_ok L dn e t" "t < n" "e < n"
  shows "chained (L(n \<mapsto> (t, e))) (n + 1) dn"
  unfolding chained_def
proof (intro allI impI)
  fix g p e' assume l: "(L(n \<mapsto> (t, e))) g = Some (p, e')"
  have not_n: "f < n" "q < n" if "L f = Some (q, x)" for f q x using chained_link(1,2)[OF ch that] by simp_all
  show "p < g \<and> g < n + 1 \<and> e' < n + 1 \<and> (g \<in> dn \<longrightarrow> p \<in> dn) \<and>
      (\<forall>f q. (L(n \<mapsto> (t, e))) f = Some (q, e') \<and> f < g \<longrightarrow> f \<le> p) \<and>
      ((\<exists>q. (L(n \<mapsto> (t, e))) p = Some (q, e')) \<or> p \<in> dn \<and> (\<forall>f q. (L(n \<mapsto> (t, e))) f = Some (q, e') \<longrightarrow> p < f))"
  proof (cases "g = n")
    case True
    with l have pe: "p = t" "e' = e" by auto
    have "\<forall>f q. (L(n \<mapsto> (t, e))) f = Some (q, e) \<and> f < n \<longrightarrow> f \<le> t" using t(1) by (auto simp: tail_ok_def)
    moreover have "(\<exists>q. (L(n \<mapsto> (t, e))) t = Some (q, e)) \<or> t \<in> dn \<and> (\<forall>f q. (L(n \<mapsto> (t, e))) f = Some (q, e) \<longrightarrow> t < f)"
      using t(1,2) by (auto simp: tail_ok_def)
    ultimately show ?thesis using True pe t(2,3) dn by auto
  next
    case False
    with l have l': "L g = Some (p, e')" by simp
    note k = chained_link[OF ch l']
    have "\<forall>f q. (L(n \<mapsto> (t, e))) f = Some (q, e') \<and> f < g \<longrightarrow> f \<le> p" using k(2,5) by auto
    moreover have "(\<exists>q. (L(n \<mapsto> (t, e))) p = Some (q, e')) \<or>
        p \<in> dn \<and> (\<forall>f q. (L(n \<mapsto> (t, e))) f = Some (q, e') \<longrightarrow> p < f)"
      using k(1,2,6) by auto
    ultimately show ?thesis using k(1-4) by auto
  qed
qed

lemma chain_caller_chain:
  assumes e: "entries_ok s" and L: "chain_ok L s" and k: "(k, e) \<in> set (kp_entries s)" "kp_store s e = Some en"
  shows "chain_ok (L(kp_next s \<mapsto> (ke_tail en, e))) (chain_caller k e en s)"
proof -
  let ?n = "kp_next s" and ?s = "chain_caller k e en s"
  let ?L = "L(?n \<mapsto> (ke_tail en, e))"
  from entries_okD(4)[OF e k(1)] k(2) have lt: "ke_tail en < ?n" "e < ?n" by auto
  have not_n: "g \<noteq> ?n" if "L g = Some x" for g x using chained_link(2)[OF chain_okD(1)[OF L], of g "fst x" "snd x"] that by auto
  have undone: "?n \<notin> set (kp_done s)" using chain_okD(6)[OF L] by blast
  note tail = chain_okD(5)[OF L k]
  have c1: "chained ?L (?n + 1) (set (kp_done s))"
    using chained_extend[OF chain_okD(1)[OF L] _ tail lt] chain_okD(6)[OF L] by blast
  have c2: "caller_ok ?L (set (kp_done s)) c" if "c \<in> set (kp_callers ?s)" for c
  proof (cases "c \<in> set (kp_callers s)")
    case True
    from caller_flags[OF L this] not_n[of "cl_completion c"] show ?thesis by (auto simp: caller_ok_def)
  next
    case False
    with that undone show ?thesis by (simp add: chain_caller_def caller_ok_def)
  qed
  have c3: "tail_ok ?L (set (kp_done s)) e' (ke_tail en')" if k': "(k', e') \<in> set (kp_entries ?s)" "kp_store ?s e' = Some en'" for k' e' en'
  proof (cases "e' = e")
    case True
    with k' have "ke_tail en' = ?n" by (auto simp: chain_caller_def)
    moreover have "f \<le> ?n" if "L f = Some (q, e)" for f q using chained_link(2)[OF chain_okD(1)[OF L] that] by simp
    ultimately show ?thesis using True unfolding tail_ok_def by auto
  next
    case False
    with k' have "tail_ok L (set (kp_done s)) e' (ke_tail en')"
      by (intro chain_okD(5)[OF L, of k']) (auto simp: chain_caller_def)
    with False show ?thesis unfolding tail_ok_def by (auto dest: not_n)
  qed
  have pend: "pending g (kp_callers ?s) \<longleftrightarrow> pending g (kp_callers s) \<or> g = ?n" for g
    by (auto simp: chain_caller_def pending_def)
  have c4: "(\<exists>e. ?L g = Some (p, e)) \<and> \<not> pending g (kp_callers ?s)" if "(p, g) \<in> set (kp_callbacks ?s)" for p g
    using chain_okD(2,3)[OF L, of p g] that not_n[of g] unfolding pend by (auto simp: chain_caller_def)
  have c5: "(p, g) \<in> set (kp_callbacks ?s) \<or> pending g (kp_callers ?s)" if "?L g = Some (p, e')" "g \<notin> set (kp_done ?s)" for g p e'
    using that chain_okD(4)[OF L, of g p e'] unfolding pend by (auto simp: chain_caller_def)
  have same: "kp_next ?s = ?n + 1" "kp_done ?s = kp_done s" by (simp_all add: chain_caller_def)
  show ?thesis unfolding chain_ok_def same using c1 c2 c3 c4 c5 chain_okD(6)[OF L] by (auto simp: same less_SucI)
qed

lemma chain_caller_ok:
  assumes n: "counts_ok m q s" "kp_admitted s < kp_capacity s" and e: "entries_ok s" and L: "chain_ok L s"
    and used: "\<forall>(k', e')\<in>set (kp_entries s). (k', e') = (k, e) \<or> (\<exists>c\<in>set (kp_callers s). cl_entry c = e')"
    and k: "(k, e) \<in> set (kp_entries s)" "kp_store s e = Some en"
  shows "processor_ok m q (chain_caller k e en s)"
proof -
  let ?n = "kp_next s" and ?s = "chain_caller k e en s"
  from entries_okD(4)[OF e k(1)] k(2) have lt: "ke_tail en < ?n" "e < ?n"
    and cnt: "ke_references en = tally (\<lambda>c. cl_entry c = e) (kp_callers s)" by auto
  have fresh: "cl_completion c < ?n" if "c \<in> set (kp_callers s)" for c
    using caller_flags[OF L that] chained_link(2)[OF chain_okD(1)[OF L]] unfolding caller_ok_def by blast
  have counts: "counts_ok m q ?s" using n fresh by (fastforce simp: counts_ok_def chain_caller_def)
  have ents: "entries_ok ?s"
    unfolding entries_ok_def
  proof (intro conjI)
    show "distinct (map fst (kp_entries ?s))" "distinct (map snd (kp_entries ?s))"
      using e by (simp_all add: entries_ok_def chain_caller_def)
    show "\<forall>c\<in>set (kp_callers ?s). (cl_key c, cl_entry c) \<in> set (kp_entries ?s)"
      using entries_okD(1)[OF e] k(1) by (auto simp: chain_caller_def)
    show "\<forall>(k, e)\<in>set (kp_entries ?s). e < kp_next ?s \<and> (\<exists>entry. kp_store ?s e = Some entry \<and> ke_tail entry < kp_next ?s \<and>
        ke_references entry = tally (\<lambda>c. cl_entry c = e) (kp_callers ?s))"
    proof clarify
      fix k' e' assume "(k', e') \<in> set (kp_entries ?s)"
      then have "(k', e') \<in> set (kp_entries s)" by (simp add: chain_caller_def)
      from entries_okD(4)[OF e this] show "e' < kp_next ?s \<and> (\<exists>entry. kp_store ?s e' = Some entry \<and> ke_tail entry < kp_next ?s \<and>
        ke_references entry = tally (\<lambda>c. cl_entry c = e') (kp_callers ?s))"
        using cnt by (cases "e' = e") (auto simp: chain_caller_def)
    qed
  qed
  have "entries_used ?s" using used k(1) unfolding entries_used_def by (fastforce simp: chain_caller_def)
  with counts ents chain_caller_chain[OF e L k] show ?thesis by (intro processor_okI)
qed

lemma admission_ok:
  assumes "processor_ok m q s" and run: "run_admission k deadline s = (r, s')"
  shows "processor_ok m q s'"
proof -
  from assms(1) obtain L where n: "counts_ok m q s" and e: "entries_ok s" "entries_used s" and L: "chain_ok L s"
    by (rule processor_okD)
  consider "s' = s" | "kp_admitted s < kp_capacity s" "admit k s = (r, s')"
    using run by (auto simp: run_admission_def admit_def split: if_splits option.splits)
  then show ?thesis
  proof cases
    case 1
    with assms(1) show ?thesis by simp
  next
    case 2
    obtain e1 s1 where f: "entry_for k s = (e1, s1)" by fastforce
    note ok = entry_for_ok[OF n e(1) L f]
    from entries_okD(4)[OF ok(2,4)] obtain en where en: "kp_store s1 e1 = Some en" by blast
    show ?thesis
    proof (cases "kp_closed s")
      case True
      with 2 assms(1) show ?thesis by (simp add: admit_def)
    next
      case False
      with 2 f en have s': "s' = chain_caller k e1 en s1" by (simp add: admit_def)
      have same: "kp_admitted s1 = kp_admitted s" "kp_capacity s1 = kp_capacity s"
        using f by (auto simp: entry_for_def Let_def split: option.splits)
      have "\<forall>(k', e')\<in>set (kp_entries s1). (k', e') = (k, e1) \<or> (\<exists>c\<in>set (kp_callers s1). cl_entry c = e')"
        using ok(5) e(2) unfolding entries_used_def ok(6) by fast
      with chain_caller_ok[OF ok(1) _ ok(2,3) this ok(4) en] 2(1) same show ?thesis by (simp add: s')
    qed
  qed
qed

section \<open>The invariant holds in every reachable state\<close>

lemma created_ok: "KeyedProcessor m q = Inr s \<Longrightarrow> processor_ok m q s"
  by (auto simp: KeyedProcessor_def processor_ok_def counts_ok_def entries_ok_def entries_used_def chain_ok_def chained_def
      split: if_splits intro!: exI[of _ Map.empty])

lemma close_ok:
  assumes "processor_ok m q s"
  shows "processor_ok m q (close_processor s)"
proof -
  from assms obtain L where n: "counts_ok m q s" and e: "entries_ok s" "entries_used s" and L: "chain_ok L s"
    by (rule processor_okD)
  show ?thesis
  proof (rule processor_okI)
    show "counts_ok m q (close_processor s)" using n unfolding counts_ok_def close_processor_def Let_def by auto
    show "entries_ok (close_processor s)" using e(1) by (simp add: entries_ok_def close_processor_def Let_def)
    show "entries_used (close_processor s)" using e(2) by (simp add: entries_used_def close_processor_def Let_def)
    show "chain_ok L (close_processor s)" using L by (simp add: chain_ok_def close_processor_def Let_def)
  qed
qed

lemma own_step_ok:
  assumes "own_step interrupts s s'" and "processor_ok m q s"
  shows "processor_ok m q s'"
  using assms
proof (cases rule: own_step.cases)
  case (callback pc)
  with assms(2) callback_ok[of m q s "fst pc" "snd pc"] show ?thesis by simp
qed (use assms(2) in \<open>simp_all add: body_step_ok release_ok finish_ok\<close>)

lemma reachable_ok: "processor_reachable m q s \<Longrightarrow> processor_ok m q s"
proof (induction rule: processor_reachable.induct)
  case (created s)
  then show ?case by (rule created_ok)
next
  case (called s k deadline r s')
  from called.IH called.hyps(2) show ?case by (rule admission_ok)
next
  case (closed s)
  from closed.IH show ?case by (rule close_ok)
next
  case (stepped s s')
  from stepped.hyps(2) stepped.IH show ?case by (rule own_step_ok)
qed

section \<open>Exclusion, order and bounds\<close>

lemma earlier_finished:
  assumes ok: "processor_ok m q s" and c: "c \<in> set (kp_callers s)" and d: "d \<in> set (kp_callers s)"
    and k: "cl_key c = cl_key d" "cl_completion c < cl_completion d" and t: "cl_turn_acquired d"
  shows "cl_phase c = Finishing"
proof (rule ccontr)
  assume run: "cl_phase c \<noteq> Finishing"
  from ok obtain L where e: "entries_ok s" and L: "chain_ok L s" by (rule processor_okD)
  from entries_okD(2)[OF e entries_okD(1)[OF e c]] entries_okD(1)[OF e d] k(1) have "cl_entry c = cl_entry d" by simp
  with caller_flags[OF L c] caller_flags[OF L d] t have
    "L (cl_completion d) = Some (cl_predecessor d, cl_entry d)" "cl_predecessor d \<in> set (kp_done s)"
    "L (cl_completion c) = Some (cl_predecessor c, cl_entry d)" by (simp_all add: caller_ok_def)
  from chained_done[OF chain_okD(1)[OF L] this k(2)] caller_flags[OF L c] run show False by (simp add: caller_ok_def)
qed

definition holds_turn :: "caller \<Rightarrow> bool" where
  "holds_turn c \<longleftrightarrow> cl_turn_acquired c \<and> cl_phase c \<noteq> Finishing"

definition operating :: "caller \<Rightarrow> bool" where
  "operating c \<longleftrightarrow> cl_active c \<and> cl_phase c = Executing"

lemma exclusive:
  assumes ok: "processor_ok m q s" and c: "c \<in> set (kp_callers s)" "holds_turn c" and d: "d \<in> set (kp_callers s)" "holds_turn d"
    and k: "cl_key c = cl_key d"
  shows "c = d"
proof -
  from ok have "distinct (map cl_completion (kp_callers s))" by (simp add: processor_ok_def counts_ok_def)
  moreover have "\<not> cl_completion c < cl_completion d" "\<not> cl_completion d < cl_completion c"
    using earlier_finished[OF ok c(1) d(1) k] earlier_finished[OF ok d(1) c(1) k[symmetric]] c(2) d(2)
    by (auto simp: holds_turn_def)
  then have "cl_completion c = cl_completion d" by linarith
  ultimately show ?thesis using same_completion c(1) d(1) by metis
qed

lemma operating_bounded:
  assumes ok: "processor_ok m q s"
  shows "kp_active s = tally operating (kp_callers s)" and "tally operating (kp_callers s) \<le> m"
    and "int (length (kp_callers s)) \<le> m + q"
proof -
  from ok obtain L where n: "counts_ok m q s" and L: "chain_ok L s" by (rule processor_okD)
  show "kp_active s = tally operating (kp_callers s)" using n by (simp add: counts_ok_def operating_def[abs_def])
  have "tally operating (kp_callers s) \<le> tally (\<lambda>c. cl_slot_acquired c \<and> cl_phase c \<noteq> Finishing) (kp_callers s)"
    by (rule tally_mono) (use caller_flags[OF L] in \<open>auto simp: operating_def caller_ok_def\<close>)
  then show "tally operating (kp_callers s) \<le> m" using n unfolding counts_ok_def by linarith
  show "int (length (kp_callers s)) \<le> m + q" using n unfolding counts_ok_def by linarith
qed

lemma entries_are_keys:
  assumes ok: "processor_ok m q s"
  shows "set (map fst (kp_entries s)) = set (map cl_key (kp_callers s))"
proof -
  from ok have e: "entries_ok s" "entries_used s" by (simp_all add: processor_ok_def)
  have "k \<in> cl_key ` set (kp_callers s)" if ke: "(k, e') \<in> set (kp_entries s)" for k e'
  proof -
    from ke e(2) obtain c where "c \<in> set (kp_callers s)" "cl_entry c = e'" unfolding entries_used_def by fast
    with entries_okD(1,3)[OF e(1)] ke show ?thesis by (metis image_eqI)
  qed
  with entries_okD(1)[OF e(1)] show ?thesis by (force simp: image_iff)
qed

text \<open>
  C20. Serialisation per key: in every state the processor can reach, through any interleaving of calls,
  turns, deadlines, cancellations and completions, an operation whose turn has come runs alone on its
  key and after every caller admitted before it on that key; at most \<open>max_concurrency\<close> operations run
  and at most \<open>max_concurrency + max_queue_size\<close> callers are admitted; the registry holds exactly the
  keys in use.
\<close>

theorem keyed_serialisation:
  assumes "processor_reachable max_concurrency max_queue_size s"
  shows "(\<forall>c\<in>set (kp_callers s). \<forall>d\<in>set (kp_callers s). cl_key c = cl_key d \<longrightarrow>
      (holds_turn c \<and> holds_turn d \<longrightarrow> c = d) \<and>
      (cl_turn_acquired d \<and> cl_completion c < cl_completion d \<longrightarrow> cl_phase c = Finishing)) \<and>
    kp_active s = tally operating (kp_callers s) \<and> kp_active s \<le> max_concurrency \<and>
    int (length (kp_callers s)) \<le> max_concurrency + max_queue_size \<and>
    set (map fst (kp_entries s)) = set (map cl_key (kp_callers s))"
proof -
  note ok = reachable_ok[OF assms]
  show ?thesis
    using exclusive[OF ok] earlier_finished[OF ok] operating_bounded[OF ok] entries_are_keys[OF ok] by fastforce
qed

section \<open>Draining\<close>

text \<open>The steps a caller has left, one more than it needs where its release may register a callback.\<close>

fun phase_weight :: "run_phase \<Rightarrow> nat" where
  "phase_weight Executing = 4"
| "phase_weight Cleaning = 3"
| "phase_weight Finishing = 1"

definition caller_weight :: "caller \<Rightarrow> nat" where
  "caller_weight c = phase_weight (cl_phase c) +
     (if cl_phase c = Executing
      then of_bool (\<not> cl_turn_acquired c) + of_bool (\<not> cl_slot_acquired c) + of_bool (\<not> cl_active c) else 0)"

definition processor_budget :: "processor \<Rightarrow> nat" where
  "processor_budget s = sum_list (map caller_weight (kp_callers s)) + length (kp_callbacks s)"

lemma sum_change:
  fixes w :: "'a \<Rightarrow> nat"
  assumes "distinct (map key xs)" and "x \<in> set xs" and "w (f x) < w x"
  shows "sum_list (map w (change key (key x) f xs)) + (w x - w (f x)) = sum_list (map w xs)"
  using assms
proof (induction xs)
  case (Cons y ys)
  show ?case
  proof (cases "y = x")
    case True
    from True Cons.prems(1) have "\<forall>z\<in>set ys. key z \<noteq> key x" by (metis distinct.simps(2) imageI list.set_map list.simps(9))
    then have "change key (key x) f ys = ys" by (auto simp: change_def intro!: map_idI)
    with True Cons.prems(3) show ?thesis by (simp add: change_def)
  next
    case False
    with Cons.prems have "x \<in> set ys" "key y \<noteq> key x" by auto
    with Cons show ?thesis by (simp add: change_def)
  qed
qed simp

lemma sum_remove:
  fixes w :: "'a \<Rightarrow> nat"
  assumes "distinct (map key xs)" and "x \<in> set xs"
  shows "sum_list (map w (filter (\<lambda>y. key y \<noteq> key x) xs)) + w x = sum_list (map w xs)"
  using assms
proof (induction xs)
  case (Cons y ys)
  show ?case
  proof (cases "y = x")
    case True
    from True Cons.prems(1) have "\<forall>z\<in>set ys. key z \<noteq> key x" by (metis distinct.simps(2) imageI list.set_map list.simps(9))
    then have "filter (\<lambda>y. key y \<noteq> key x) ys = ys" by (intro filter_True) simp
    with True show ?thesis by simp
  next
    case False
    with Cons.prems have "x \<in> set ys" "key y \<noteq> key x" by auto
    with Cons show ?thesis by simp
  qed
qed simp

lemma own_step_spends:
  assumes "own_step interrupts s s'" and "processor_ok m q s"
  shows "processor_budget s' < processor_budget s"
proof -
  from assms(2) obtain L where e: "entries_ok s" and d: "distinct (map cl_completion (kp_callers s))" by (rule processor_okD)
  note less = sum_change[OF d]
  from assms(1) show ?thesis
  proof (cases rule: own_step.cases)
    case (turn c)
    with less[of c caller_weight "cl_turn_acquired_update (\<lambda>_. True)"] show ?thesis
      by (auto simp: processor_budget_def take_turn_def caller_weight_def)
  next
    case (slot c)
    with less[of c caller_weight "cl_slot_acquired_update (\<lambda>_. True)"] show ?thesis
      by (auto simp: processor_budget_def take_slot_def caller_weight_def)
  next
    case (start c)
    with less[of c caller_weight "cl_active_update (\<lambda>_. True)"] show ?thesis
      by (auto simp: processor_budget_def start_operation_def caller_weight_def)
  next
    case (leave c)
    with less[of c caller_weight "cl_phase_update (\<lambda>_. Cleaning)"] show ?thesis
      by (auto simp: processor_budget_def leave_body_def caller_weight_def)
  next
    case (release c)
    have "length (kp_callbacks (release_slot c s)) \<le> length (kp_callbacks s) + 1"
      by (simp add: release_slot_def complete_turn_def)
    with release less[of c caller_weight "cl_phase_update (\<lambda>_. Finishing)"] show ?thesis
      by (auto simp: processor_budget_def caller_weight_def release_slot_def)
  next
    case (finished c)
    from finish_eq[OF e finished(2)] obtain en where
      "finish c s = (drop_reference (cl_key c) (cl_entry c) en s)
            \<lparr>kp_callers := filter (\<lambda>x. cl_completion x \<noteq> cl_completion c) (kp_callers s)\<rparr>" .
    with finished sum_remove[OF d finished(2), of caller_weight] show ?thesis
      by (simp add: processor_budget_def caller_weight_def)
  next
    case (callback pc)
    then have "0 < length (kp_callbacks s)" by (auto simp: length_pos_if_in_set)
    with callback show ?thesis
      by (simp add: processor_budget_def complete_after_predecessor_def Let_def length_remove1)
  qed
qed

lemma callback_ready:
  assumes "chain_ok L s"
  shows "L g = Some (p, e) \<Longrightarrow> g \<notin> set (kp_done s) \<Longrightarrow> \<forall>h\<le>g. \<not> pending h (kp_callers s) \<Longrightarrow>
    \<exists>pc\<in>set (kp_callbacks s). fst pc \<in> set (kp_done s)"
proof (induction g arbitrary: p rule: less_induct)
  case (less g)
  from chain_okD(4)[OF assms less.prems(1,2)] less.prems(3) have cb: "(p, g) \<in> set (kp_callbacks s)" by blast
  show ?case
  proof (cases "p \<in> set (kp_done s)")
    case True
    with cb show ?thesis by force
  next
    case False
    note link = chained_link[OF chain_okD(1)[OF assms] less.prems(1)]
    with False obtain q where q: "L p = Some (q, e)" by blast
    from less.prems(3) link(1) have "\<forall>h\<le>p. \<not> pending h (kp_callers s)" by simp
    from less.IH[OF link(1) q False this] show ?thesis .
  qed
qed

lemma own_step_live:
  assumes ok: "processor_ok m q s" and busy: "kp_callers s \<noteq> []"
  shows "\<exists>t. own_step interrupts s t"
proof -
  from ok obtain L where n: "counts_ok m q s" and L: "chain_ok L s" by (rule processor_okD)
  let ?cs = "set (kp_callers s)"
  consider (other) c where "c \<in> ?cs" "cl_phase c \<noteq> Executing"
    | (operating) c where "c \<in> ?cs" "cl_phase c = Executing" "cl_active c"
    | (slot) c where "c \<in> ?cs" "cl_phase c = Executing" "cl_slot_acquired c" "\<not> cl_active c"
    | (turn) c where "c \<in> ?cs" "cl_phase c = Executing" "cl_turn_acquired c" "\<forall>x\<in>?cs. \<not> cl_slot_acquired x"
    | (waiting) "\<forall>c\<in>?cs. cl_phase c = Executing \<and> \<not> cl_turn_acquired c"
    by blast
  then show ?thesis
  proof cases
    case other
    then show ?thesis by (cases "cl_phase c") (auto intro: own_step.intros)
  next
    case operating
    then show ?thesis by (auto intro: own_step.leave)
  next
    case slot
    then show ?thesis by (auto intro: own_step.start)
  next
    case turn
    then have "tally (\<lambda>c. cl_slot_acquired c \<and> cl_phase c \<noteq> Finishing) (kp_callers s) = 0" by (simp add: tally_zero_iff)
    with n have "0 < kp_execution_slots s" unfolding counts_ok_def by linarith
    with turn own_step.slot[of c s] show ?thesis by blast
  next
    case waiting
    let ?g = "Min (cl_completion ` ?cs)"
    have "?g \<in> cl_completion ` ?cs" using busy by (intro Min_in) auto
    then obtain c where c: "c \<in> ?cs" "cl_completion c = ?g" by (metis imageE)
    have least: "?g \<le> cl_completion x" if "x \<in> ?cs" for x using that by simp
    note fl = caller_flags[OF L c(1), unfolded caller_ok_def]
    show ?thesis
    proof (cases "cl_predecessor c \<in> set (kp_done s)")
      case True
      with waiting c own_step.turn[of c s] show ?thesis by blast
    next
      case False
      note link = chained_link[OF chain_okD(1)[OF L] fl[THEN conjunct1]]
      from link(6) False obtain q where q: "L (cl_predecessor c) = Some (q, cl_entry c)" by blast
      have "\<not> pending h (kp_callers s)" if "h \<le> cl_predecessor c" for h
        using that link(1) least c(2) unfolding pending_def by fastforce
      with callback_ready[OF L q False] obtain pc where "pc \<in> set (kp_callbacks s)" "fst pc \<in> set (kp_done s)" by blast
      then show ?thesis by (blast intro: own_step.callback)
    qed
  qed
qed

interpretation kp: draining "own_step interrupts" "processor_ok m q" processor_budget "\<lambda>s. kp_callers s \<noteq> []"
  for interrupts m q
  by unfold_locales (blast intro: own_step_ok own_step_spends own_step_live)+

text \<open>
  C21. Draining terminates: from every reachable state the admitted callers alone take a bounded number
  of steps, and a maximal run of them - with or without deadlines and cancellations, so also when every
  operation only ever ends by itself - ends with no caller left and the drained event set, which is
  what \<open>close\<close> waits for.
\<close>

theorem processor_drains:
  assumes "processor_reachable max_concurrency max_queue_size s" and "(own_step interrupts ^^ n) s t"
  shows "n \<le> processor_budget s \<and> ((\<nexists>u. own_step interrupts t u) \<longrightarrow> kp_callers t = [] \<and> kp_drained t)"
proof -
  note ok = reachable_ok[OF assms(1)]
  have "processor_ok max_concurrency max_queue_size t" by (rule kp.holds_steps[OF assms(2) ok])
  then have "kp_callers t = [] \<Longrightarrow> kp_drained t" by (simp add: processor_ok_def counts_ok_def)
  with kp.steps_bounded[OF assms(2) ok] kp.stuck_is_idle[OF assms(2) ok] show ?thesis by auto
qed

section \<open>Two callers of one key\<close>

definition sample_key :: work_key where
  "sample_key = \<lparr>wk_namespace = ''workflow'', wk_digest = replicate 16 0\<rparr>"

definition sample_processor :: processor where
  "sample_processor = \<lparr>kp_max_concurrency = 1, kp_capacity = 3, kp_execution_slots = 1, kp_drained = True,
     kp_entries = [], kp_admitted = 0, kp_active = 0, kp_closed = False, kp_store = Map.empty, kp_next = 0,
     kp_done = [], kp_callbacks = [], kp_callers = []\<rparr>"

definition sample_two :: processor where
  "sample_two = snd (run_admission sample_key None (snd (run_admission sample_key (Some 5) sample_processor)))"

lemma sample_two_reachable: "processor_reachable 1 2 sample_two"
proof -
  have "processor_reachable 1 2 sample_processor"
    by (rule processor_reachable.created) (simp add: KeyedProcessor_def sample_processor_def)
  then have "processor_reachable 1 2 (snd (run_admission k d sample_processor))" for k d
    by (rule processor_reachable.called[OF _ surjective_pairing])
  then show ?thesis unfolding sample_two_def by (rule processor_reachable.called[OF _ surjective_pairing])
qed

lemma sample_two_callers:
  "map cl_completion (kp_callers sample_two) = [2, 3]" "map cl_key (kp_callers sample_two) = [sample_key, sample_key]"
  by (simp_all add: sample_two_def run_admission_def admit_def entry_for_def chain_caller_def sample_processor_def)

theorem keyed_serialisation_witness:
  "length (kp_callers sample_two) = 2 \<and> kp_active sample_two = tally operating (kp_callers sample_two) \<and> kp_active sample_two \<le> 1"
proof -
  have "length (kp_callers sample_two) = 2" using sample_two_callers(1) by (metis length_map length_Cons list.size(3) numeral_2_eq_2)
  with keyed_serialisation [OF sample_two_reachable] show ?thesis by blast
qed

theorem processor_drains_witness:
  "\<exists>t. own_step False sample_two t \<and> 1 \<le> processor_budget sample_two"
proof -
  have "kp_callers sample_two \<noteq> []" using sample_two_callers(1) by auto
  from own_step_live[OF reachable_ok[OF sample_two_reachable] this] obtain t where t: "own_step False sample_two t" by blast
  then have "(own_step False ^^ 1) sample_two t" by (simp add: OO_def)
  from processor_drains [OF sample_two_reachable this] t show ?thesis by blast
qed

end
