(* ===== verification/Limits.thy ===== *)
theory Limits
  imports Concurrency Keyed_Processor
begin

text \<open>
  \<open>src/src/dztgbot/services/limits.py\<close>: the resource limiter.  As for the keyed processor, the stretches
  of \<open>run\<close> between two awaits are the steps of a machine; gates are objects numbered by \<open>ls_next\<close>, which
  also numbers the calls.  The clock is an argument, in one unit for all durations; the operation, the
  retry predicate, the deadline and cancellation are the environment.
\<close>

section \<open>Specifications and results\<close>

datatype resource_kind = RK_GEMINI | RK_JIRA | RK_ATTACHMENT

record limit_spec =
  rl_global_limit :: int
  rl_per_actor_limit :: int
  rl_queue_limit :: int
  rl_total_deadline :: int
  rl_retry_budget :: int
  rl_failure_threshold :: int
  rl_cooldown :: int

definition limit_spec_post_init :: "limit_spec \<Rightarrow> exn + limit_spec" where
  "limit_spec_post_init sp =
     (if rl_global_limit sp \<le> 0 \<or> rl_per_actor_limit sp \<le> 0 then Inl (ValueError ''concurrency limits must be positive'')
      else if rl_per_actor_limit sp > rl_global_limit sp then
        Inl (ValueError ''per_actor_limit cannot exceed global_limit'')
      else if rl_queue_limit sp < 0 then Inl (ValueError ''queue_limit must not be negative'')
      else if rl_total_deadline sp \<le> 0 then Inl (ValueError ''total_deadline_seconds must be positive'')
      else if rl_retry_budget sp < 0 then Inl (ValueError ''retry_budget must not be negative'')
      else if rl_failure_threshold sp \<le> 0 \<or> rl_cooldown sp < 0 then Inl (ValueError ''cooldown settings are invalid'')
      else Inr sp)"

text \<open>The control errors carry the number of attempts.\<close>

datatype resource_error =
    ResourceOverloadedError int
  | ResourceDeadlineExceededError int
  | ResourceCooldownError int
  | ResourceLimiterClosedError int
  | LimitArgumentError exn
  | LimitedOperationRaised exn

datatype limit_outcome = LO_COMPLETED | LO_OVERLOADED | LO_DEADLINE_EXCEEDED | LO_COOLDOWN | LO_CLOSED

record 'a limit_result =
  lr_outcome :: limit_outcome
  lr_value :: "'a option"
  lr_attempts :: int
  lr_feedback :: "string option"

definition lr_completed :: "'a limit_result \<Rightarrow> bool" where
  "lr_completed r = (lr_outcome r = LO_COMPLETED)"

definition SAFE_COOLDOWN_FEEDBACK :: string where
  "SAFE_COOLDOWN_FEEDBACK = ''The service is temporarily unavailable. Please try again shortly.''"

definition control_result :: "limit_outcome \<Rightarrow> int \<Rightarrow> string \<Rightarrow> 'a limit_result" where
  "control_result out n feedback = \<lparr>lr_outcome = out, lr_value = None, lr_attempts = n, lr_feedback = Some feedback\<rparr>"

fun limited_try_run :: "resource_error + 'a \<times> int \<Rightarrow> resource_error + 'a limit_result" where
  "limited_try_run (Inl (ResourceOverloadedError n)) = Inr (control_result LO_OVERLOADED n SAFE_OVERLOAD_FEEDBACK)"
| "limited_try_run (Inl (ResourceDeadlineExceededError n)) =
     Inr (control_result LO_DEADLINE_EXCEEDED n SAFE_DEADLINE_FEEDBACK)"
| "limited_try_run (Inl (ResourceCooldownError n)) = Inr (control_result LO_COOLDOWN n SAFE_COOLDOWN_FEEDBACK)"
| "limited_try_run (Inl (ResourceLimiterClosedError n)) = Inr (control_result LO_CLOSED n SAFE_CLOSED_FEEDBACK)"
| "limited_try_run (Inl e) = Inl e"
| "limited_try_run (Inr (x, n)) = Inr \<lparr>lr_outcome = LO_COMPLETED, lr_value = Some x, lr_attempts = n, lr_feedback = None\<rparr>"

text \<open>How the body of \<open>run\<close> ends: the two \<open>except\<close> clauses around the deadline.\<close>

datatype 'a limited_exit = LimitedReturn 'a | OperationFailure exn | LimitedTimeout

fun run_outcome :: "int \<Rightarrow> 'a limited_exit \<Rightarrow> resource_error + 'a \<times> int" where
  "run_outcome attempts (LimitedReturn x) = Inr (x, attempts)"
| "run_outcome attempts (OperationFailure e) = Inl (LimitedOperationRaised e)"
| "run_outcome attempts LimitedTimeout = Inl (ResourceDeadlineExceededError attempts)"

text \<open>The checks at the head of \<open>run\<close>: the retry budget and the deadline in force.\<close>

definition limited_request :: "limit_spec \<Rightarrow> int \<Rightarrow> int option \<Rightarrow> int option \<Rightarrow> exn + int \<times> int" where
  "limited_request sp actor retry_budget total_deadline =
     (let budget = (case retry_budget of None \<Rightarrow> rl_retry_budget sp | Some b \<Rightarrow> b);
          deadline = (case total_deadline of None \<Rightarrow> rl_total_deadline sp | Some d \<Rightarrow> d) in
      if actor \<le> 0 then Inl (ValueError ''actor_id must be positive'')
      else if budget < 0 \<or> budget > rl_retry_budget sp then
        Inl (ValueError ''retry_budget must be within the configured budget'')
      else if deadline \<le> 0 \<or> deadline > rl_total_deadline sp then
        Inl (ValueError ''deadline must be positive and within the configured deadline'')
      else Inr (budget, deadline))"

section \<open>State\<close>

record actor_gate =
  ag_semaphore :: int
  ag_references :: int

text \<open>
  Where one \<open>run\<close> is: before \<open>_acquire\<close>, in its three waits, in the operation, in the three parts of
  \<open>_release\<close>, in the backoff, before \<open>_finish\<close>.  The flag of the release says whether the loop goes on.
\<close>

datatype limited_phase =
    Attempting | WaitingActor | WaitingGlobal | Counting | Operating
  | Releasing bool | Dropping bool | BackingOff | Leaving

record limited_call =
  lc_id :: nat
  lc_actor :: int
  lc_budget :: int
  lc_attempts :: int
  lc_gate :: nat
  lc_phase :: limited_phase

record resource_state =
  ls_spec :: limit_spec
  ls_global_semaphore :: int
  ls_actor_gates :: "(int \<times> nat) list"
  ls_admitted :: int
  ls_active :: int
  ls_consecutive_failures :: int
  ls_cooldown_until :: int
  ls_store :: "nat \<Rightarrow> actor_gate option"
  ls_next :: nat
  ls_calls :: "limited_call list"

definition fresh_resource :: "limit_spec \<Rightarrow> resource_state" where
  "fresh_resource sp = \<lparr>ls_spec = sp, ls_global_semaphore = rl_global_limit sp, ls_actor_gates = [], ls_admitted = 0,
     ls_active = 0, ls_consecutive_failures = 0, ls_cooldown_until = 0, ls_store = Map.empty, ls_next = 0, ls_calls = []\<rparr>"

definition reset_expired_cooldown :: "int \<Rightarrow> resource_state \<Rightarrow> resource_state" where
  "reset_expired_cooldown now s =
     (if ls_cooldown_until s \<noteq> 0 \<and> ls_cooldown_until s \<le> now
      then s\<lparr>ls_cooldown_until := 0, ls_consecutive_failures := 0\<rparr> else s)"

record resource_snapshot =
  rn_admitted :: int
  rn_active :: int
  rn_actor_gate_count :: nat
  rn_consecutive_failures :: int
  rn_cooling_down :: bool

definition resource_snapshot_of :: "int \<Rightarrow> resource_state \<Rightarrow> resource_snapshot \<times> resource_state" where
  "resource_snapshot_of now s =
     (let s' = reset_expired_cooldown now s in
      (\<lparr>rn_admitted = ls_admitted s', rn_active = ls_active s', rn_actor_gate_count = length (ls_actor_gates s'),
        rn_consecutive_failures = ls_consecutive_failures s', rn_cooling_down = (ls_cooldown_until s' > now)\<rparr>, s'))"

section \<open>The steps of run\<close>

text \<open>\<open>_admit\<close>, and the first increment of \<open>attempts\<close>.\<close>

definition admit_call :: "bool \<Rightarrow> int \<Rightarrow> int \<Rightarrow> int \<Rightarrow> (resource_state, resource_error, unit) sx" where
  "admit_call is_closed now actor budget = (\<lambda>s0.
     if is_closed then (Inl (ResourceLimiterClosedError 0), s0)
     else (let s = reset_expired_cooldown now s0 in
       if ls_cooldown_until s > now then (Inl (ResourceCooldownError 0), s)
       else if ls_admitted s \<ge> rl_global_limit (ls_spec s) + rl_queue_limit (ls_spec s) then
         (Inl (ResourceOverloadedError 0), s)
       else (Inr (), s\<lparr>ls_admitted := ls_admitted s + 1, ls_next := ls_next s + 1,
               ls_calls := ls_calls s @ [\<lparr>lc_id = ls_next s, lc_actor = actor, lc_budget = budget, lc_attempts = 1,
                 lc_gate = 0, lc_phase = Attempting\<rparr>]\<rparr>)))"

abbreviation on_call :: "limited_call \<Rightarrow> (limited_call \<Rightarrow> limited_call) \<Rightarrow> resource_state \<Rightarrow> resource_state" where
  "on_call c f s \<equiv> s\<lparr>ls_calls := change lc_id (lc_id c) f (ls_calls s)\<rparr>"

definition in_phase :: "limited_phase \<Rightarrow> limited_call \<Rightarrow> limited_call" where
  "in_phase p c = c\<lparr>lc_phase := p\<rparr>"

text \<open>The head of \<open>_acquire\<close>.\<close>

definition join_gate :: "limited_call \<Rightarrow> resource_state \<Rightarrow> resource_state" where
  "join_gate c s =
     (case map_of (ls_actor_gates s) (lc_actor c) of
        Some e \<Rightarrow>
          (case ls_store s e of
             None \<Rightarrow> s
           | Some g \<Rightarrow> on_call c (\<lambda>x. x\<lparr>lc_gate := e, lc_phase := WaitingActor\<rparr>)
               (s\<lparr>ls_store := (ls_store s)(e \<mapsto> g\<lparr>ag_references := ag_references g + 1\<rparr>)\<rparr>))
      | None \<Rightarrow>
          (let e = ls_next s in
           on_call c (\<lambda>x. x\<lparr>lc_gate := e, lc_phase := WaitingActor\<rparr>)
             (s\<lparr>ls_next := e + 1, ls_actor_gates := ls_actor_gates s @ [(lc_actor c, e)],
                ls_store := (ls_store s)(e \<mapsto> \<lparr>ag_semaphore = rl_per_actor_limit (ls_spec s), ag_references = 1\<rparr>)\<rparr>)))"

definition add_gate_slots :: "nat \<Rightarrow> int \<Rightarrow> resource_state \<Rightarrow> resource_state" where
  "add_gate_slots e n s =
     (case ls_store s e of
        None \<Rightarrow> s
      | Some g \<Rightarrow> s\<lparr>ls_store := (ls_store s)(e \<mapsto> g\<lparr>ag_semaphore := ag_semaphore g + n\<rparr>)\<rparr>)"

definition gate_open :: "nat \<Rightarrow> resource_state \<Rightarrow> bool" where
  "gate_open e s \<longleftrightarrow> (case ls_store s e of None \<Rightarrow> False | Some g \<Rightarrow> 0 < ag_semaphore g)"

definition take_actor_slot :: "limited_call \<Rightarrow> resource_state \<Rightarrow> resource_state" where
  "take_actor_slot c s = on_call c (in_phase WaitingGlobal) (add_gate_slots (lc_gate c) (- 1) s)"

definition take_global_slot :: "limited_call \<Rightarrow> resource_state \<Rightarrow> resource_state" where
  "take_global_slot c s = on_call c (in_phase Counting) (s\<lparr>ls_global_semaphore := ls_global_semaphore s - 1\<rparr>)"

definition count_active :: "limited_call \<Rightarrow> resource_state \<Rightarrow> resource_state" where
  "count_active c s = on_call c (in_phase Operating) (s\<lparr>ls_active := ls_active s + 1\<rparr>)"

definition record_completion :: "bool \<Rightarrow> bool \<Rightarrow> int \<Rightarrow> resource_state \<Rightarrow> resource_state" where
  "record_completion succeeded retryable now s =
     (if succeeded then s\<lparr>ls_consecutive_failures := 0, ls_cooldown_until := 0\<rparr>
      else if retryable then
        (let s' = s\<lparr>ls_consecutive_failures := ls_consecutive_failures s + 1\<rparr> in
         if ls_consecutive_failures s' \<ge> rl_failure_threshold (ls_spec s')
         then s'\<lparr>ls_cooldown_until := now + rl_cooldown (ls_spec s')\<rparr> else s')
      else s)"

datatype attempt_outcome = AttemptSucceeded | AttemptFailed bool | AttemptInterrupted

fun end_attempt :: "attempt_outcome \<Rightarrow> int \<Rightarrow> limited_call \<Rightarrow> resource_state \<Rightarrow> resource_state" where
  "end_attempt AttemptSucceeded now c s = on_call c (in_phase (Releasing False)) (record_completion True False now s)"
| "end_attempt (AttemptFailed retryable) now c s =
     on_call c (in_phase (Releasing (\<not> (\<not> retryable \<or> lc_attempts c > lc_budget c))))
       (record_completion False retryable now s)"
| "end_attempt AttemptInterrupted now c s = on_call c (in_phase (Releasing False)) s"

definition release_slots :: "bool \<Rightarrow> limited_call \<Rightarrow> resource_state \<Rightarrow> resource_state" where
  "release_slots again c s =
     on_call c (in_phase (Dropping again))
       (add_gate_slots (lc_gate c) 1
          (s\<lparr>ls_active := ls_active s - 1, ls_global_semaphore := ls_global_semaphore s + 1\<rparr>))"

definition drop_gate :: "bool \<Rightarrow> limited_call \<Rightarrow> resource_state \<Rightarrow> resource_state" where
  "drop_gate again c s =
     (case ls_store s (lc_gate c) of
        None \<Rightarrow> s
      | Some g \<Rightarrow>
          (let refs = ag_references g - 1;
               s' = s\<lparr>ls_store := (ls_store s)(lc_gate c \<mapsto> g\<lparr>ag_references := refs\<rparr>)\<rparr> in
           on_call c (in_phase (if again then BackingOff else Leaving))
             (if refs = 0 \<and> map_of (ls_actor_gates s') (lc_actor c) = Some (lc_gate c)
              then s'\<lparr>ls_actor_gates := filter (\<lambda>p. fst p \<noteq> lc_actor c) (ls_actor_gates s')\<rparr> else s')))"

text \<open>The loop goes round.\<close>

definition next_attempt :: "limited_call \<Rightarrow> resource_state \<Rightarrow> resource_state" where
  "next_attempt c s = on_call c (\<lambda>x. x\<lparr>lc_attempts := lc_attempts x + 1, lc_phase := Attempting\<rparr>) s"

text \<open>
  An interruption (the deadline, a cancellation, a negative backoff) outside the operation: in \<open>_acquire\<close>
  its handler gives back what was acquired.
\<close>

fun interrupted :: "limited_phase \<Rightarrow> limited_call \<Rightarrow> resource_state \<Rightarrow> resource_state" where
  "interrupted WaitingActor c s = on_call c (in_phase (Dropping False)) s"
| "interrupted WaitingGlobal c s = on_call c (in_phase (Dropping False)) (add_gate_slots (lc_gate c) 1 s)"
| "interrupted Counting c s =
     on_call c (in_phase (Dropping False))
       (add_gate_slots (lc_gate c) 1 (s\<lparr>ls_global_semaphore := ls_global_semaphore s + 1\<rparr>))"
| "interrupted _ c s = on_call c (in_phase Leaving) s"

definition finish_call :: "limited_call \<Rightarrow> resource_state \<Rightarrow> resource_state" where
  "finish_call c s =
     s\<lparr>ls_admitted := ls_admitted s - 1, ls_calls := filter (\<lambda>x. lc_id x \<noteq> lc_id c) (ls_calls s)\<rparr>"

section \<open>The machine of one resource\<close>

inductive call_step :: "bool \<Rightarrow> resource_state \<Rightarrow> resource_state \<Rightarrow> bool" for interrupts where
  join: "c \<in> set (ls_calls s) \<Longrightarrow> lc_phase c = Attempting \<Longrightarrow> call_step interrupts s (join_gate c s)"
| actor: "c \<in> set (ls_calls s) \<Longrightarrow> lc_phase c = WaitingActor \<Longrightarrow> gate_open (lc_gate c) s \<Longrightarrow>
    call_step interrupts s (take_actor_slot c s)"
| global: "c \<in> set (ls_calls s) \<Longrightarrow> lc_phase c = WaitingGlobal \<Longrightarrow> 0 < ls_global_semaphore s \<Longrightarrow>
    call_step interrupts s (take_global_slot c s)"
| count: "c \<in> set (ls_calls s) \<Longrightarrow> lc_phase c = Counting \<Longrightarrow> call_step interrupts s (count_active c s)"
| ended: "c \<in> set (ls_calls s) \<Longrightarrow> lc_phase c = Operating \<Longrightarrow> out = AttemptInterrupted \<longrightarrow> interrupts \<Longrightarrow>
    call_step interrupts s (end_attempt out now c s)"
| release: "c \<in> set (ls_calls s) \<Longrightarrow> lc_phase c = Releasing again \<Longrightarrow> call_step interrupts s (release_slots again c s)"
| drop: "c \<in> set (ls_calls s) \<Longrightarrow> lc_phase c = Dropping again \<Longrightarrow> call_step interrupts s (drop_gate again c s)"
| again: "c \<in> set (ls_calls s) \<Longrightarrow> lc_phase c = BackingOff \<Longrightarrow> call_step interrupts s (next_attempt c s)"
| interrupt: "c \<in> set (ls_calls s) \<Longrightarrow> lc_phase c \<in> {Attempting, WaitingActor, WaitingGlobal, Counting, BackingOff} \<Longrightarrow>
    interrupts \<Longrightarrow> call_step interrupts s (interrupted (lc_phase c) c s)"
| finished: "c \<in> set (ls_calls s) \<Longrightarrow> lc_phase c = Leaving \<Longrightarrow> call_step interrupts s (finish_call c s)"

section \<open>The limiter\<close>

record limiter =
  lm_states :: "resource_kind \<Rightarrow> resource_state"
  lm_drained :: bool
  lm_closed :: bool

definition resource_kinds :: "resource_kind list" where
  "resource_kinds = [RK_GEMINI, RK_JIRA, RK_ATTACHMENT]"

definition ResourceLimiter :: "(resource_kind \<Rightarrow> limit_spec option) \<Rightarrow> exn + limiter" where
  "ResourceLimiter specs =
     (if list_ex (\<lambda>k. specs k = None) resource_kinds then
        Inl (ValueError ''a limit specification is required for every resource kind'')
      else Inr \<lparr>lm_states = (\<lambda>k. fresh_resource (the (specs k))), lm_drained = True, lm_closed = False\<rparr>)"

definition all_drained :: "limiter \<Rightarrow> bool" where
  "all_drained l = list_all (\<lambda>k. ls_admitted (lm_states l k) = 0) resource_kinds"

definition close_limiter :: "limiter \<Rightarrow> limiter" where
  "close_limiter l = (let l' = l\<lparr>lm_closed := True\<rparr> in if all_drained l' then l'\<lparr>lm_drained := True\<rparr> else l')"

definition limited_run :: "resource_kind \<Rightarrow> int \<Rightarrow> int \<Rightarrow> int option \<Rightarrow> int option \<Rightarrow> (limiter, resource_error, unit) sx" where
  "limited_run k now actor retry_budget total_deadline = (\<lambda>l.
     (case limited_request (ls_spec (lm_states l k)) actor retry_budget total_deadline of
        Inl e \<Rightarrow> (Inl (LimitArgumentError e), l)
      | Inr (budget, _) \<Rightarrow>
          (case admit_call (lm_closed l) now actor budget (lm_states l k) of
             (Inl e, s) \<Rightarrow> (Inl e, l\<lparr>lm_states := (lm_states l)(k := s)\<rparr>)
           | (Inr u, s) \<Rightarrow> (Inr u, l\<lparr>lm_states := (lm_states l)(k := s), lm_drained := False\<rparr>))))"

text \<open>A step of a call of one resource; \<open>_finish\<close> sets the drained event with the last call of all.\<close>

definition after_finish :: "limiter \<Rightarrow> limiter" where
  "after_finish l = (if all_drained l then l\<lparr>lm_drained := True\<rparr> else l)"

inductive limiter_step :: "bool \<Rightarrow> limiter \<Rightarrow> limiter \<Rightarrow> bool" for interrupts where
  "call_step interrupts (lm_states l k) s \<Longrightarrow>
    limiter_step interrupts l
      ((if ls_admitted s < ls_admitted (lm_states l k) then after_finish else (\<lambda>x. x)) (l\<lparr>lm_states := (lm_states l)(k := s)\<rparr>))"

inductive limiter_reachable :: "(resource_kind \<Rightarrow> limit_spec option) \<Rightarrow> limiter \<Rightarrow> bool" for specs where
  created: "ResourceLimiter specs = Inr l \<Longrightarrow> limiter_reachable specs l"
| called: "limiter_reachable specs l \<Longrightarrow> limited_run k now actor rb td l = (r, l') \<Longrightarrow> limiter_reachable specs l'"
| closed: "limiter_reachable specs l \<Longrightarrow> limiter_reachable specs (close_limiter l)"
| observed: "limiter_reachable specs l \<Longrightarrow>
    limiter_reachable specs (l\<lparr>lm_states := (lm_states l)(k := snd (resource_snapshot_of now (lm_states l k)))\<rparr>)"
| stepped: "limiter_reachable specs l \<Longrightarrow> limiter_step True l l' \<Longrightarrow> limiter_reachable specs l'"

section \<open>The invariant of one resource\<close>

fun holds_gate :: "limited_phase \<Rightarrow> bool" where
  "holds_gate Attempting = False"
| "holds_gate BackingOff = False"
| "holds_gate Leaving = False"
| "holds_gate _ = True"

fun holds_actor :: "limited_phase \<Rightarrow> bool" where
  "holds_actor WaitingGlobal = True"
| "holds_actor Counting = True"
| "holds_actor Operating = True"
| "holds_actor (Releasing _) = True"
| "holds_actor _ = False"

fun holds_global :: "limited_phase \<Rightarrow> bool" where
  "holds_global Counting = True"
| "holds_global Operating = True"
| "holds_global (Releasing _) = True"
| "holds_global _ = False"

fun counted :: "limited_phase \<Rightarrow> bool" where
  "counted Operating = True"
| "counted (Releasing _) = True"
| "counted _ = False"

fun goes_on :: "limited_phase \<Rightarrow> bool" where
  "goes_on (Releasing again) = again"
| "goes_on (Dropping again) = again"
| "goes_on BackingOff = True"
| "goes_on _ = False"

definition gate_users :: "limited_call list \<Rightarrow> (int \<times> nat) list" where
  "gate_users cs = map (\<lambda>c. (lc_actor c, lc_gate c)) (filter (\<lambda>c. holds_gate (lc_phase c)) cs)"

definition gate_refs :: "resource_state \<Rightarrow> nat \<Rightarrow> int option" where
  "gate_refs s e = map_option ag_references (ls_store s e)"

definition gates_ok :: "resource_state \<Rightarrow> bool" where
  "gates_ok s \<longleftrightarrow>
     registry_ok (ls_next s) (ls_actor_gates s) (gate_refs s) (gate_users (ls_calls s)) \<and>
     (\<forall>a e g. (a, e) \<in> set (ls_actor_gates s) \<longrightarrow> ls_store s e = Some g \<longrightarrow> 0 \<le> ag_semaphore g \<and>
        ag_semaphore g + tally (\<lambda>c. holds_actor (lc_phase c) \<and> lc_gate c = e) (ls_calls s) = rl_per_actor_limit (ls_spec s))"

definition call_ok :: "limit_spec \<Rightarrow> limited_call \<Rightarrow> bool" where
  "call_ok sp c \<longleftrightarrow> 1 \<le> lc_attempts c \<and> lc_attempts c \<le> lc_budget c + 1 \<and> lc_budget c \<le> rl_retry_budget sp \<and>
     (goes_on (lc_phase c) \<longrightarrow> lc_attempts c \<le> lc_budget c)"

definition totals_ok :: "resource_state \<Rightarrow> bool" where
  "totals_ok s \<longleftrightarrow>
     limit_spec_post_init (ls_spec s) = Inr (ls_spec s) \<and>
     distinct (map lc_id (ls_calls s)) \<and> (\<forall>c\<in>set (ls_calls s). lc_id c < ls_next s \<and> call_ok (ls_spec s) c) \<and>
     ls_admitted s = int (length (ls_calls s)) \<and>
     ls_admitted s \<le> rl_global_limit (ls_spec s) + rl_queue_limit (ls_spec s) \<and>
     ls_active s = tally (\<lambda>c. counted (lc_phase c)) (ls_calls s) \<and> 0 \<le> ls_global_semaphore s \<and>
     ls_global_semaphore s + tally (\<lambda>c. holds_global (lc_phase c)) (ls_calls s) = rl_global_limit (ls_spec s)"

definition resource_ok :: "resource_state \<Rightarrow> bool" where
  "resource_ok s \<longleftrightarrow> totals_ok s \<and> gates_ok s"

lemma same_call:
  "totals_ok s \<Longrightarrow> c \<in> set (ls_calls s) \<Longrightarrow> x \<in> set (ls_calls s) \<Longrightarrow> lc_id x = lc_id c \<Longrightarrow> x = c"
  unfolding totals_ok_def by (metis distinct_map inj_onD)

lemma tally_gate_users: "tally P (gate_users cs) = tally (\<lambda>c. holds_gate (lc_phase c) \<and> P (lc_actor c, lc_gate c)) cs"
  by (induction cs) (auto simp: gate_users_def)

lemma set_gate_users: "set (gate_users cs) = (\<lambda>c. (lc_actor c, lc_gate c)) ` {c \<in> set cs. holds_gate (lc_phase c)}"
  by (auto simp: gate_users_def)

lemma gate_users_change_same:
  assumes "\<And>x. x \<in> set cs \<Longrightarrow> lc_id x = i \<Longrightarrow> holds_gate (lc_phase (f x)) = holds_gate (lc_phase x) \<and>
      lc_actor (f x) = lc_actor x \<and> (holds_gate (lc_phase x) \<longrightarrow> lc_gate (f x) = lc_gate x)"
  shows "gate_users (change lc_id i f cs) = gate_users cs"
  using assms by (induction cs) (auto simp: gate_users_def change_def)

text \<open>A caller of the gate: its gate is registered for its actor.\<close>

lemma gate_of_user:
  assumes "gates_ok s" and "c \<in> set (ls_calls s)" and "holds_gate (lc_phase c)"
  obtains g where "(lc_actor c, lc_gate c) \<in> set (ls_actor_gates s)" and "ls_store s (lc_gate c) = Some g"
    and "0 \<le> ag_semaphore g"
    and "ag_semaphore g + tally (\<lambda>x. holds_actor (lc_phase x) \<and> lc_gate x = lc_gate c) (ls_calls s) = rl_per_actor_limit (ls_spec s)"
    and "map_of (ls_actor_gates s) (lc_actor c) = Some (lc_gate c)"
proof -
  from assms(1) have r: "registry_ok (ls_next s) (ls_actor_gates s) (gate_refs s) (gate_users (ls_calls s))"
    by (simp add: gates_ok_def)
  have m: "(lc_actor c, lc_gate c) \<in> set (ls_actor_gates s)"
    using assms(2,3) unfolding registry_okD(1)[OF r, symmetric] set_gate_users by blast
  from registry_okD(5)[OF r m] obtain g where g: "ls_store s (lc_gate c) = Some g" by (auto simp: gate_refs_def)
  with assms(1) m have "0 \<le> ag_semaphore g \<and>
    ag_semaphore g + tally (\<lambda>x. holds_actor (lc_phase x) \<and> lc_gate x = lc_gate c) (ls_calls s) = rl_per_actor_limit (ls_spec s)"
    unfolding gates_ok_def by blast
  with that[OF m g] registry_okD(2)[OF r m] show thesis by blast
qed

section \<open>Steps that move a call along\<close>

definition one_if :: "bool \<Rightarrow> int" where "one_if b = (if b then 1 else 0)"

lemma one_if_simps [simp]: "one_if True = 1" "one_if False = 0" by (simp_all add: one_if_def)

lemma tally_move:
  assumes "totals_ok s" and "c \<in> set (ls_calls s)"
  shows "tally P (change lc_id (lc_id c) f (ls_calls s)) = tally P (ls_calls s) - one_if (P c) + one_if (P (f c))"
  using tally_change[of lc_id "ls_calls s" c P f] assms by (simp add: totals_ok_def one_if_def)

lemma totals_move:
  assumes ok: "totals_ok s" and c: "c \<in> set (ls_calls s)"
    and same: "ls_spec s' = ls_spec s" "ls_next s \<le> ls_next s'" "ls_admitted s' = ls_admitted s"
      "ls_calls s' = change lc_id (lc_id c) f (ls_calls s)"
    and sums: "ls_active s' = ls_active s - one_if (counted (lc_phase c)) + one_if (counted (lc_phase (f c)))"
      "ls_global_semaphore s' = ls_global_semaphore s + one_if (holds_global (lc_phase c)) - one_if (holds_global (lc_phase (f c)))"
      "0 \<le> ls_global_semaphore s'"
    and f: "\<And>x. lc_id (f x) = lc_id x" "call_ok (ls_spec s) c \<Longrightarrow> call_ok (ls_spec s) (f c)"
  shows "totals_ok s'"
proof -
  note t = ok[unfolded totals_ok_def]
  have "lc_id x < ls_next s' \<and> call_ok (ls_spec s) x" if "x \<in> set (ls_calls s')" for x
  proof -
    from that consider "x \<in> set (ls_calls s)" | "x = f c" unfolding same set_change using same_call[OF ok c] by blast
    then show ?thesis using t c f same(2) by cases fastforce+
  qed
  then show ?thesis
    unfolding totals_ok_def using t sums f(1) tally_move[OF ok c, of _ f] by (simp add: same)
qed

lemma gates_move:
  assumes ok: "gates_ok s" and tot: "totals_ok s" and c: "c \<in> set (ls_calls s)"
    and same: "ls_spec s' = ls_spec s" "ls_next s \<le> ls_next s'" "ls_actor_gates s' = ls_actor_gates s"
      "ls_calls s' = change lc_id (lc_id c) f (ls_calls s)"
    and store: "ls_store s' = ls_store (add_gate_slots (lc_gate c) n s)"
      "n = one_if (holds_actor (lc_phase c)) - one_if (holds_actor (lc_phase (f c)))" "n < 0 \<Longrightarrow> gate_open (lc_gate c) s"
    and f: "holds_gate (lc_phase (f c)) = holds_gate (lc_phase c)" "lc_actor (f c) = lc_actor c" "lc_gate (f c) = lc_gate c"
  shows "gates_ok s'"
proof -
  have users: "gate_users (ls_calls s') = gate_users (ls_calls s)"
    unfolding same using f same_call[OF tot c] by (intro gate_users_change_same) blast
  have refs: "gate_refs s' = gate_refs s"
    by (auto simp: gate_refs_def store(1) add_gate_slots_def fun_eq_iff split: option.split)
  from ok have reg: "registry_ok (ls_next s) (ls_actor_gates s) (gate_refs s) (gate_users (ls_calls s))"
    by (simp add: gates_ok_def)
  have "0 \<le> ag_semaphore g' \<and> ag_semaphore g' + tally (\<lambda>x. holds_actor (lc_phase x) \<and> lc_gate x = e) (ls_calls s') =
      rl_per_actor_limit (ls_spec s)" if m: "(a, e) \<in> set (ls_actor_gates s)" and g': "ls_store s' e = Some g'" for a e g'
  proof -
    from registry_okD(5)[OF reg m] obtain g where g: "ls_store s e = Some g" by (auto simp: gate_refs_def)
    from ok m g have lim: "0 \<le> ag_semaphore g"
      "ag_semaphore g + tally (\<lambda>x. holds_actor (lc_phase x) \<and> lc_gate x = e) (ls_calls s) = rl_per_actor_limit (ls_spec s)"
      unfolding gates_ok_def by blast+
    have move: "tally (\<lambda>x. holds_actor (lc_phase x) \<and> lc_gate x = e) (ls_calls s') =
      tally (\<lambda>x. holds_actor (lc_phase x) \<and> lc_gate x = e) (ls_calls s) -
      one_if (holds_actor (lc_phase c) \<and> lc_gate c = e) + one_if (holds_actor (lc_phase (f c)) \<and> lc_gate c = e)"
      unfolding same tally_move[OF tot c] f(3) ..
    show ?thesis
    proof (cases "lc_gate c = e")
      case True
      with g g' have "ag_semaphore g' = ag_semaphore g + n" by (auto simp: store(1) add_gate_slots_def)
      moreover have "0 < ag_semaphore g" if "n < 0" using store(3)[OF that] True g by (simp add: gate_open_def)
      moreover have "- 1 \<le> n" by (simp add: store(2) one_if_def)
      ultimately show ?thesis using True lim move store(2) by (cases "n < 0") auto
    next
      case False
      with g g' have "g' = g" by (auto simp: store(1) add_gate_slots_def split: option.splits)
      with lim move False show ?thesis by simp
    qed
  qed
  with registry_mono[OF reg same(2)] show ?thesis unfolding gates_ok_def users refs same(1,3) by blast
qed

lemma resource_move:
  assumes "resource_ok s" and "c \<in> set (ls_calls s)"
    and "ls_spec s' = ls_spec s" "ls_next s' = ls_next s" "ls_actor_gates s' = ls_actor_gates s" "ls_admitted s' = ls_admitted s"
      "ls_calls s' = change lc_id (lc_id c) f (ls_calls s)"
    and "ls_active s' = ls_active s - one_if (counted (lc_phase c)) + one_if (counted (lc_phase (f c)))"
      "ls_global_semaphore s' = ls_global_semaphore s + one_if (holds_global (lc_phase c)) - one_if (holds_global (lc_phase (f c)))"
      "0 \<le> ls_global_semaphore s'"
    and "ls_store s' = ls_store (add_gate_slots (lc_gate c) n s)"
      "n = one_if (holds_actor (lc_phase c)) - one_if (holds_actor (lc_phase (f c)))" "n < 0 \<Longrightarrow> gate_open (lc_gate c) s"
    and "\<And>x. lc_id (f x) = lc_id x" "call_ok (ls_spec s) c \<Longrightarrow> call_ok (ls_spec s) (f c)"
    and "holds_gate (lc_phase (f c)) = holds_gate (lc_phase c)" "lc_actor (f c) = lc_actor c" "lc_gate (f c) = lc_gate c"
  shows "resource_ok s'"
  using assms totals_move[of s c s' f] gates_move[of s c s' f n] unfolding resource_ok_def by (metis order_refl)

lemma add_gate_slots_0 [simp]: "ls_store (add_gate_slots e 0 s) = ls_store s"
  by (auto simp: add_gate_slots_def fun_eq_iff split: option.split)

lemma add_gate_slots_same [simp]:
  "ls_spec (add_gate_slots e n s) = ls_spec s" "ls_next (add_gate_slots e n s) = ls_next s"
  "ls_actor_gates (add_gate_slots e n s) = ls_actor_gates s" "ls_admitted (add_gate_slots e n s) = ls_admitted s"
  "ls_calls (add_gate_slots e n s) = ls_calls s" "ls_active (add_gate_slots e n s) = ls_active s"
  "ls_global_semaphore (add_gate_slots e n s) = ls_global_semaphore s"
  by (simp_all add: add_gate_slots_def split: option.split)

lemma add_gate_slots_cong:
  "ls_store t = ls_store s \<Longrightarrow> ls_store (add_gate_slots e n t) = ls_store (add_gate_slots e n s)"
  by (simp add: add_gate_slots_def split: option.split)

lemma record_completion_same [simp]:
  "ls_spec (record_completion a b now s) = ls_spec s" "ls_next (record_completion a b now s) = ls_next s"
  "ls_actor_gates (record_completion a b now s) = ls_actor_gates s" "ls_admitted (record_completion a b now s) = ls_admitted s"
  "ls_calls (record_completion a b now s) = ls_calls s" "ls_active (record_completion a b now s) = ls_active s"
  "ls_global_semaphore (record_completion a b now s) = ls_global_semaphore s" "ls_store (record_completion a b now s) = ls_store s"
  by (simp_all add: record_completion_def Let_def)

lemma in_phase_simps [simp]:
  "lc_id (in_phase p c) = lc_id c" "lc_actor (in_phase p c) = lc_actor c" "lc_gate (in_phase p c) = lc_gate c"
  "lc_phase (in_phase p c) = p" "lc_budget (in_phase p c) = lc_budget c" "lc_attempts (in_phase p c) = lc_attempts c"
  by (simp_all add: in_phase_def)

lemma call_step_moves:
  assumes ok: "resource_ok s" and c: "c \<in> set (ls_calls s)"
  shows "lc_phase c = WaitingActor \<Longrightarrow> gate_open (lc_gate c) s \<Longrightarrow> resource_ok (take_actor_slot c s)"
    and "lc_phase c = WaitingGlobal \<Longrightarrow> 0 < ls_global_semaphore s \<Longrightarrow> resource_ok (take_global_slot c s)"
    and "lc_phase c = Counting \<Longrightarrow> resource_ok (count_active c s)"
    and "lc_phase c = Operating \<Longrightarrow> resource_ok (end_attempt out now c s)"
    and "lc_phase c = Releasing again \<Longrightarrow> resource_ok (release_slots again c s)"
    and "lc_phase c = BackingOff \<Longrightarrow> resource_ok (next_attempt c s)"
    and "lc_phase c \<in> {Attempting, WaitingActor, WaitingGlobal, Counting, BackingOff} \<Longrightarrow> resource_ok (interrupted (lc_phase c) c s)"
proof -
  note mv = resource_move[OF ok c]
  have sem: "0 \<le> ls_global_semaphore s" using ok by (simp add: resource_ok_def totals_ok_def)
  show "resource_ok (take_actor_slot c s)" if "lc_phase c = WaitingActor" "gate_open (lc_gate c) s"
    by (rule mv[where f = "in_phase WaitingGlobal" and n = "- 1"]) (use that sem in \<open>auto simp: take_actor_slot_def call_ok_def\<close>)
  show "resource_ok (take_global_slot c s)" if "lc_phase c = WaitingGlobal" "0 < ls_global_semaphore s"
    by (rule mv[where f = "in_phase Counting" and n = 0]) (use that sem in \<open>auto simp: take_global_slot_def call_ok_def\<close>)
  show "resource_ok (count_active c s)" if "lc_phase c = Counting"
    by (rule mv[where f = "in_phase Operating" and n = 0]) (use that sem in \<open>auto simp: count_active_def call_ok_def\<close>)
  show "resource_ok (end_attempt out now c s)" if op: "lc_phase c = Operating"
  proof (cases out)
    case AttemptSucceeded
    show ?thesis
      by (rule mv[where f = "in_phase (Releasing False)" and n = 0]) (use op sem in \<open>auto simp: AttemptSucceeded call_ok_def\<close>)
  next
    case (AttemptFailed retryable)
    show ?thesis
      by (rule mv[where f = "in_phase (Releasing (\<not> (\<not> retryable \<or> lc_attempts c > lc_budget c)))" and n = 0])
        (use op sem in \<open>auto simp: AttemptFailed call_ok_def\<close>)
  next
    case AttemptInterrupted
    show ?thesis
      by (rule mv[where f = "in_phase (Releasing False)" and n = 0]) (use op sem in \<open>auto simp: AttemptInterrupted call_ok_def\<close>)
  qed
  show "resource_ok (release_slots again c s)" if "lc_phase c = Releasing again"
    by (rule mv[where f = "in_phase (Dropping again)" and n = 1])
      (use that sem in \<open>auto simp: release_slots_def call_ok_def intro!: add_gate_slots_cong\<close>)
  show "resource_ok (next_attempt c s)" if "lc_phase c = BackingOff"
    by (rule mv[where f = "\<lambda>x. x\<lparr>lc_attempts := lc_attempts x + 1, lc_phase := Attempting\<rparr>" and n = 0])
      (use that sem in \<open>auto simp: next_attempt_def call_ok_def\<close>)
  show "resource_ok (interrupted (lc_phase c) c s)"
    if "lc_phase c \<in> {Attempting, WaitingActor, WaitingGlobal, Counting, BackingOff}"
  proof -
    from that consider (idle) "lc_phase c \<in> {Attempting, BackingOff}" | (actor) "lc_phase c = WaitingActor"
      | (global) "lc_phase c = WaitingGlobal" | (counting) "lc_phase c = Counting" by blast
    then show ?thesis
    proof cases
      case idle
      show ?thesis
        by (rule mv[where f = "in_phase Leaving" and n = 0]) (use idle sem in \<open>auto simp: call_ok_def\<close>)
    next
      case actor
      show ?thesis
        by (rule mv[where f = "in_phase (Dropping False)" and n = 0]) (use actor sem in \<open>auto simp: call_ok_def\<close>)
    next
      case global
      show ?thesis
        by (rule mv[where f = "in_phase (Dropping False)" and n = 1]) (use global sem in \<open>auto simp: call_ok_def\<close>)
    next
      case counting
      show ?thesis
        by (rule mv[where f = "in_phase (Dropping False)" and n = 1])
          (use counting sem in \<open>auto simp: call_ok_def intro!: add_gate_slots_cong\<close>)
    qed
  qed
qed

section \<open>Joining and leaving a gate\<close>

lemma tally_gate_users_move:
  assumes "totals_ok s" and "c \<in> set (ls_calls s)"
  shows "tally P (gate_users (change lc_id (lc_id c) f (ls_calls s))) = tally P (gate_users (ls_calls s)) -
    one_if (holds_gate (lc_phase c) \<and> P (lc_actor c, lc_gate c)) +
    one_if (holds_gate (lc_phase (f c)) \<and> P (lc_actor (f c), lc_gate (f c)))"
  unfolding tally_gate_users tally_move[OF assms] ..

lemma set_gate_users_move:
  assumes "totals_ok s" and "c \<in> set (ls_calls s)"
  shows "set (gate_users (change lc_id (lc_id c) f (ls_calls s))) =
    (\<lambda>x. (lc_actor x, lc_gate x)) ` {x \<in> set (ls_calls s). x \<noteq> c \<and> holds_gate (lc_phase x)} \<union>
    (if holds_gate (lc_phase (f c)) then {(lc_actor (f c), lc_gate (f c))} else {})"
proof -
  have only: "lc_id x = lc_id c \<longleftrightarrow> x = c" if "x \<in> set (ls_calls s)" for x
    using same_call[OF assms that] by metis
  have "{x \<in> set (ls_calls s). lc_id x \<noteq> lc_id c} = {x \<in> set (ls_calls s). x \<noteq> c}"
    "{x \<in> set (ls_calls s). lc_id x = lc_id c} = {c}" using only assms(2) by auto
  then have eq: "set (change lc_id (lc_id c) f (ls_calls s)) = {x \<in> set (ls_calls s). x \<noteq> c} \<union> {f c}"
    unfolding set_change by simp
  show ?thesis unfolding set_gate_users eq by (cases "holds_gate (lc_phase (f c))") auto
qed

lemma join_gate_ok:
  assumes ok: "resource_ok s" and c: "c \<in> set (ls_calls s)" and p: "lc_phase c = Attempting"
  shows "resource_ok (join_gate c s)"
proof -
  from ok have tot: "totals_ok s" and gates: "gates_ok s" by (simp_all add: resource_ok_def)
  from gates have reg: "registry_ok (ls_next s) (ls_actor_gates s) (gate_refs s) (gate_users (ls_calls s))"
    by (simp add: gates_ok_def)
  have lim: "0 < rl_per_actor_limit (ls_spec s)" "0 \<le> ls_global_semaphore s"
    using tot by (auto simp: totals_ok_def limit_spec_post_init_def split: if_splits)
  have base: "set (gate_users (ls_calls s)) =
      (\<lambda>x. (lc_actor x, lc_gate x)) ` {x \<in> set (ls_calls s). x \<noteq> c \<and> holds_gate (lc_phase x)}"
    using p unfolding set_gate_users by auto
  show ?thesis
  proof (cases "map_of (ls_actor_gates s) (lc_actor c)")
    case (Some e)
    let ?f = "\<lambda>x. x\<lparr>lc_gate := e, lc_phase := WaitingActor\<rparr>"
    from map_of_SomeD[OF Some] registry_okD(5)[OF reg] obtain g where g: "ls_store s e = Some g" by (auto simp: gate_refs_def)
    with Some have s': "join_gate c s = on_call c ?f (s\<lparr>ls_store := (ls_store s)(e \<mapsto> g\<lparr>ag_references := ag_references g + 1\<rparr>)\<rparr>)"
      by (simp add: join_gate_def)
    have refs: "gate_refs (join_gate c s) = (gate_refs s)(e \<mapsto> ag_references g + 1)"
      by (auto simp: s' gate_refs_def fun_eq_iff)
    have r: "registry_ok (ls_next s) (ls_actor_gates s) (gate_refs (join_gate c s)) (gate_users (ls_calls (join_gate c s)))"
      unfolding refs
    proof (rule registry_joined[OF reg Some])
      show "gate_refs s e = Some (ag_references g)" using g by (simp add: gate_refs_def)
      show "tally P (gate_users (ls_calls (join_gate c s))) = tally P (gate_users (ls_calls s)) + (if P (lc_actor c, e) then 1 else 0)" for P
        using tally_gate_users_move[OF tot c, of P ?f] p by (simp add: s' one_if_def)
      show "set (gate_users (ls_calls (join_gate c s))) = insert (lc_actor c, e) (set (gate_users (ls_calls s)))"
        using set_gate_users_move[OF tot c, of ?f] by (simp add: s' base)
    qed
    have "0 \<le> ag_semaphore g' \<and> ag_semaphore g' + tally (\<lambda>x. holds_actor (lc_phase x) \<and> lc_gate x = e') (ls_calls (join_gate c s)) =
        rl_per_actor_limit (ls_spec s)" if "(a, e') \<in> set (ls_actor_gates s)" "ls_store (join_gate c s) e' = Some g'" for a e' g'
    proof -
      from that(2) g obtain g0 where "ls_store s e' = Some g0" "ag_semaphore g' = ag_semaphore g0"
        by (cases "e' = e") (auto simp: s')
      moreover have "tally (\<lambda>x. holds_actor (lc_phase x) \<and> lc_gate x = e') (ls_calls (join_gate c s)) =
          tally (\<lambda>x. holds_actor (lc_phase x) \<and> lc_gate x = e') (ls_calls s)"
        using tally_move[OF tot c, of "\<lambda>x. holds_actor (lc_phase x) \<and> lc_gate x = e'" ?f] p by (simp add: s')
      ultimately show ?thesis using gates that(1) unfolding gates_ok_def by auto
    qed
    with r have "gates_ok (join_gate c s)" unfolding gates_ok_def by (simp add: s')
    moreover have "totals_ok (join_gate c s)"
      by (rule totals_move[OF tot c, where f = ?f]) (use p lim in \<open>auto simp: s' call_ok_def\<close>)
    ultimately show ?thesis by (simp add: resource_ok_def)
  next
    case None
    let ?e = "ls_next s" let ?f = "\<lambda>x. x\<lparr>lc_gate := ?e, lc_phase := WaitingActor\<rparr>"
    let ?g = "\<lparr>ag_semaphore = rl_per_actor_limit (ls_spec s), ag_references = 1\<rparr>"
    from None have s': "join_gate c s = on_call c ?f (s\<lparr>ls_next := ?e + 1, ls_actor_gates := ls_actor_gates s @ [(lc_actor c, ?e)],
        ls_store := (ls_store s)(?e \<mapsto> ?g)\<rparr>)" by (simp add: join_gate_def Let_def)
    have refs: "gate_refs (join_gate c s) = (gate_refs s)(?e \<mapsto> 1)" by (auto simp: s' gate_refs_def fun_eq_iff)
    have r: "registry_ok (?e + 1) (ls_actor_gates s @ [(lc_actor c, ?e)]) (gate_refs (join_gate c s)) (gate_users (ls_calls (join_gate c s)))"
      unfolding refs
    proof (rule registry_opened[OF reg None])
      show "tally P (gate_users (ls_calls (join_gate c s))) = tally P (gate_users (ls_calls s)) + (if P (lc_actor c, ?e) then 1 else 0)" for P
        using tally_gate_users_move[OF tot c, of P ?f] p by (simp add: s' one_if_def)
      show "set (gate_users (ls_calls (join_gate c s))) = insert (lc_actor c, ?e) (set (gate_users (ls_calls s)))"
        using set_gate_users_move[OF tot c, of ?f] by (simp add: s' base)
    qed simp_all
    have none: "tally (\<lambda>x. holds_actor (lc_phase x) \<and> lc_gate x = ?e) (ls_calls s) = 0"
    proof -
      have "\<not> (holds_actor (lc_phase x) \<and> lc_gate x = ?e)" if x: "x \<in> set (ls_calls s)" for x
      proof
        assume h: "holds_actor (lc_phase x) \<and> lc_gate x = ?e"
        then have "holds_gate (lc_phase x)" by (cases "lc_phase x") simp_all
        from gate_of_user[OF gates x this] h registry_okD(4)[OF reg, of "lc_actor x" ?e] show False by auto
      qed
      then show ?thesis by (simp add: tally_zero_iff)
    qed
    have "0 \<le> ag_semaphore g' \<and> ag_semaphore g' + tally (\<lambda>x. holds_actor (lc_phase x) \<and> lc_gate x = e') (ls_calls (join_gate c s)) =
        rl_per_actor_limit (ls_spec s)"
      if "(a, e') \<in> set (ls_actor_gates s @ [(lc_actor c, ?e)])" "ls_store (join_gate c s) e' = Some g'" for a e' g'
    proof -
      have move: "tally (\<lambda>x. holds_actor (lc_phase x) \<and> lc_gate x = e') (ls_calls (join_gate c s)) =
          tally (\<lambda>x. holds_actor (lc_phase x) \<and> lc_gate x = e') (ls_calls s)"
        using tally_move[OF tot c, of "\<lambda>x. holds_actor (lc_phase x) \<and> lc_gate x = e'" ?f] p by (simp add: s')
      show ?thesis
      proof (cases "e' = ?e")
        case True
        with that(2) have "g' = ?g" by (simp add: s')
        with True move none lim show ?thesis by simp
      next
        case False
        with that have "(a, e') \<in> set (ls_actor_gates s)" "ls_store s e' = Some g'" by (auto simp: s')
        with gates move show ?thesis unfolding gates_ok_def by metis
      qed
    qed
    with r have "gates_ok (join_gate c s)" unfolding gates_ok_def by (simp add: s')
    moreover have "totals_ok (join_gate c s)"
      by (rule totals_move[OF tot c, where f = ?f]) (use p lim in \<open>auto simp: s' call_ok_def\<close>)
    ultimately show ?thesis by (simp add: resource_ok_def)
  qed
qed

lemma drop_gate_ok:
  assumes ok: "resource_ok s" and c: "c \<in> set (ls_calls s)" and p: "lc_phase c = Dropping again"
  shows "resource_ok (drop_gate again c s)"
proof -
  from ok have tot: "totals_ok s" and gates: "gates_ok s" by (simp_all add: resource_ok_def)
  from gates have reg: "registry_ok (ls_next s) (ls_actor_gates s) (gate_refs s) (gate_users (ls_calls s))"
    by (simp add: gates_ok_def)
  have sem: "0 \<le> ls_global_semaphore s" using tot by (simp add: totals_ok_def)
  let ?q = "if again then BackingOff else Leaving" let ?f = "in_phase ?q" let ?e = "lc_gate c"
  have h: "holds_gate (lc_phase c)" using p by simp
  from gate_of_user[OF gates c h] obtain g where m: "(lc_actor c, ?e) \<in> set (ls_actor_gates s)" and g: "ls_store s ?e = Some g" by blast
  let ?reg = "if ag_references g - 1 = 0 \<and> map_of (ls_actor_gates s) (lc_actor c) = Some ?e
     then filter (\<lambda>p. fst p \<noteq> lc_actor c) (ls_actor_gates s) else ls_actor_gates s"
  have s': "drop_gate again c s = on_call c ?f (s\<lparr>ls_store := (ls_store s)(?e \<mapsto> g\<lparr>ag_references := ag_references g - 1\<rparr>),
      ls_actor_gates := ?reg\<rparr>)" using g by (simp add: drop_gate_def Let_def)
  have refs: "gate_refs (drop_gate again c s) = (gate_refs s)(?e \<mapsto> ag_references g - 1)" by (auto simp: s' gate_refs_def fun_eq_iff)
  have r: "registry_ok (ls_next s) ?reg (gate_refs (drop_gate again c s)) (gate_users (ls_calls (drop_gate again c s)))"
    unfolding refs
  proof (rule registry_left[OF reg])
    show "(lc_actor c, ?e) \<in> set (gate_users (ls_calls s))" using c h by (auto simp: set_gate_users)
    show "gate_refs s ?e = Some (ag_references g)" using g by (simp add: gate_refs_def)
    show "tally P (gate_users (ls_calls s)) = tally P (gate_users (ls_calls (drop_gate again c s))) +
        (if P (lc_actor c, ?e) then 1 else 0)" for P
      using tally_gate_users_move[OF tot c, of P ?f] h by (simp add: s' one_if_def)
    show "set (gate_users (ls_calls s)) = insert (lc_actor c, ?e) (set (gate_users (ls_calls (drop_gate again c s))))"
      using set_gate_users_move[OF tot c, of ?f] c h by (auto simp: s' set_gate_users)
  qed
  have "0 \<le> ag_semaphore g' \<and> ag_semaphore g' + tally (\<lambda>x. holds_actor (lc_phase x) \<and> lc_gate x = e') (ls_calls (drop_gate again c s)) =
      rl_per_actor_limit (ls_spec s)" if k: "(a, e') \<in> set ?reg" and st: "ls_store (drop_gate again c s) e' = Some g'" for a e' g'
  proof -
    from k have "(a, e') \<in> set (ls_actor_gates s)" by (simp split: if_splits)
    moreover from st g obtain g0 where "ls_store s e' = Some g0" "ag_semaphore g' = ag_semaphore g0"
      by (cases "e' = ?e") (auto simp: s')
    moreover have "tally (\<lambda>x. holds_actor (lc_phase x) \<and> lc_gate x = e') (ls_calls (drop_gate again c s)) =
        tally (\<lambda>x. holds_actor (lc_phase x) \<and> lc_gate x = e') (ls_calls s)"
      using tally_move[OF tot c, of "\<lambda>x. holds_actor (lc_phase x) \<and> lc_gate x = e'" ?f] p by (simp add: s')
    ultimately show ?thesis using gates unfolding gates_ok_def by auto
  qed
  with r have "gates_ok (drop_gate again c s)" unfolding gates_ok_def by (simp add: s')
  moreover have "totals_ok (drop_gate again c s)"
    by (rule totals_move[OF tot c, where f = ?f]) (use p sem in \<open>auto simp: s' call_ok_def\<close>)
  ultimately show ?thesis by (simp add: resource_ok_def)
qed

section \<open>Admission and the end of a call\<close>

lemma finish_call_ok:
  assumes ok: "resource_ok s" and c: "c \<in> set (ls_calls s)" and p: "lc_phase c = Leaving"
  shows "resource_ok (finish_call c s)"
proof -
  from ok have tot: "totals_ok s" and gates: "gates_ok s" by (simp_all add: resource_ok_def)
  let ?cs = "filter (\<lambda>x. lc_id x \<noteq> lc_id c) (ls_calls s)"
  note t = tot[unfolded totals_ok_def]
  have d: "distinct (map lc_id (ls_calls s))" using t by blast
  note rem = tally_remove[OF d c]
  have "totals_ok (finish_call c s)"
    unfolding totals_ok_def using t rem p length_remove[OF d c] by (simp add: finish_call_def distinct_map_filter)
  moreover have "filter (\<lambda>x. holds_gate (lc_phase x)) ?cs = filter (\<lambda>x. holds_gate (lc_phase x)) (ls_calls s)"
    unfolding filter_filter by (rule filter_cong[OF refl]) (metis holds_gate.simps(3) p same_call[OF tot c])
  then have "gate_users ?cs = gate_users (ls_calls s)" by (simp add: gate_users_def)
  then have "gates_ok (finish_call c s)"
    using gates rem p unfolding gates_ok_def by (simp add: finish_call_def gate_refs_def[abs_def])
  ultimately show ?thesis by (simp add: resource_ok_def)
qed

lemma reset_same [simp]:
  "ls_spec (reset_expired_cooldown now s) = ls_spec s" "ls_calls (reset_expired_cooldown now s) = ls_calls s"
  "ls_admitted (reset_expired_cooldown now s) = ls_admitted s"
  by (simp_all add: reset_expired_cooldown_def)

lemma reset_ok: "resource_ok s \<Longrightarrow> resource_ok (reset_expired_cooldown now s)"
  by (simp add: reset_expired_cooldown_def resource_ok_def totals_ok_def gates_ok_def gate_refs_def[abs_def])

lemma add_call_ok:
  assumes ok: "resource_ok s" and room: "ls_admitted s < rl_global_limit (ls_spec s) + rl_queue_limit (ls_spec s)"
    and b: "0 \<le> budget" "budget \<le> rl_retry_budget (ls_spec s)"
  shows "resource_ok (s\<lparr>ls_admitted := ls_admitted s + 1, ls_next := ls_next s + 1,
               ls_calls := ls_calls s @ [\<lparr>lc_id = ls_next s, lc_actor = actor, lc_budget = budget, lc_attempts = 1,
                 lc_gate = 0, lc_phase = Attempting\<rparr>]\<rparr>)" (is "resource_ok ?s")
proof -
  from ok have tot: "totals_ok s" and gates: "gates_ok s" by (simp_all add: resource_ok_def)
  note t = tot[unfolded totals_ok_def]
  have "totals_ok ?s" unfolding totals_ok_def using t room b by (fastforce simp: call_ok_def)
  moreover have "gate_users (ls_calls ?s) = gate_users (ls_calls s)" by (simp add: gate_users_def)
  then have "gates_ok ?s"
    using gates registry_mono[of "ls_next s" "ls_actor_gates s" "gate_refs s" "gate_users (ls_calls s)" "ls_next s + 1"]
    unfolding gates_ok_def by (simp add: gate_refs_def[abs_def])
  ultimately show ?thesis by (simp add: resource_ok_def)
qed

lemma admit_call_cases:
  assumes "admit_call is_closed now actor budget s0 = (r, s')"
  obtains "s' = s0" | "s' = reset_expired_cooldown now s0"
  | s where "s = reset_expired_cooldown now s0" "r = Inr ()"
    "ls_admitted s < rl_global_limit (ls_spec s) + rl_queue_limit (ls_spec s)"
    "s' = s\<lparr>ls_admitted := ls_admitted s + 1, ls_next := ls_next s + 1,
               ls_calls := ls_calls s @ [\<lparr>lc_id = ls_next s, lc_actor = actor, lc_budget = budget, lc_attempts = 1,
                 lc_gate = 0, lc_phase = Attempting\<rparr>]\<rparr>"
proof -
  let ?s = "reset_expired_cooldown now s0"
  let ?full = "rl_global_limit (ls_spec ?s) + rl_queue_limit (ls_spec ?s) \<le> ls_admitted ?s"
  consider "is_closed" | "\<not> is_closed" "ls_cooldown_until ?s > now \<or> ?full"
    | "\<not> is_closed" "\<not> ls_cooldown_until ?s > now" "\<not> ?full" by blast
  then show thesis
  proof cases
    case 1
    with assms show thesis by (intro that(1)) (simp add: admit_call_def)
  next
    case 2
    with assms show thesis by (intro that(2)) (simp add: admit_call_def Let_def split: if_splits)
  next
    case 3
    with assms show thesis by (intro that(3)[of ?s]) (simp_all add: admit_call_def Let_def)
  qed
qed

lemma admit_call_ok:
  assumes "admit_call is_closed now actor budget s = (r, s')" and "resource_ok s" and "0 \<le> budget" "budget \<le> rl_retry_budget (ls_spec s)"
  shows "resource_ok s'"
  using assms(1)
proof (cases rule: admit_call_cases)
  case (3 t)
  with add_call_ok[OF reset_ok[OF assms(2), of now]] assms(3,4) show ?thesis by simp
qed (use assms(2) reset_ok in auto)

lemma call_step_ok:
  assumes "call_step interrupts s s'" and ok: "resource_ok s"
  shows "resource_ok s'"
  using assms(1)
proof (cases rule: call_step.cases)
  case (join c)
  with join_gate_ok[OF ok] show ?thesis by simp
next
  case (drop c again)
  with drop_gate_ok[OF ok] show ?thesis by simp
next
  case (finished c)
  with finish_call_ok[OF ok] show ?thesis by simp
next
  case (release c again)
  with call_step_moves(5)[OF ok] show ?thesis by simp
next
  case (interrupt c)
  from call_step_moves(7)[OF ok interrupt(2,3)] interrupt(1) show ?thesis by simp
next
  case (ended c out now)
  from call_step_moves(4)[OF ok ended(2,3), of out now] ended(1) show ?thesis by simp
qed (use call_step_moves(1-3,6)[OF ok] in simp_all)

section \<open>The budget of one resource\<close>

fun limited_phase_weight :: "limited_phase \<Rightarrow> nat" where
  "limited_phase_weight Attempting = 9"
| "limited_phase_weight WaitingActor = 8"
| "limited_phase_weight WaitingGlobal = 7"
| "limited_phase_weight Counting = 6"
| "limited_phase_weight Operating = 5"
| "limited_phase_weight (Releasing _) = 4"
| "limited_phase_weight (Dropping _) = 3"
| "limited_phase_weight BackingOff = 2"
| "limited_phase_weight Leaving = 1"

definition call_weight :: "limited_call \<Rightarrow> nat" where
  "call_weight c = 10 * nat (lc_budget c + 1 - lc_attempts c) + limited_phase_weight (lc_phase c)"

definition resource_budget :: "resource_state \<Rightarrow> nat" where
  "resource_budget s = sum_list (map call_weight (ls_calls s))"

lemma move_spends:
  assumes "resource_ok s" and "c \<in> set (ls_calls s)" and "ls_calls s' = change lc_id (lc_id c) f (ls_calls s)"
    and "call_weight (f c) < call_weight c"
  shows "resource_budget s' < resource_budget s"
proof -
  from assms(1) have "distinct (map lc_id (ls_calls s))" by (simp add: resource_ok_def totals_ok_def)
  from sum_change[OF this assms(2), of call_weight f] assms(3,4) show ?thesis unfolding resource_budget_def by simp
qed

lemma in_phase_weight: "limited_phase_weight p < limited_phase_weight (lc_phase c) \<Longrightarrow> call_weight (in_phase p c) < call_weight c"
  by (simp add: call_weight_def)

lemma end_attempt_calls:
  "\<exists>again. ls_calls (end_attempt out now c s) = change lc_id (lc_id c) (in_phase (Releasing again)) (ls_calls s)"
  by (cases "(out, now, c, s)" rule: end_attempt.cases) auto

lemma interrupted_calls:
  assumes "lc_phase c \<in> {Attempting, WaitingActor, WaitingGlobal, Counting, BackingOff}"
  shows "\<exists>p. limited_phase_weight p < limited_phase_weight (lc_phase c) \<and>
    ls_calls (interrupted (lc_phase c) c s) = change lc_id (lc_id c) (in_phase p) (ls_calls s)"
  using assms by (elim insertE) (auto intro: exI[of _ Leaving] exI[of _ "Dropping False"])

lemma call_step_spends:
  assumes "call_step interrupts s s'" and ok: "resource_ok s"
  shows "resource_budget s' < resource_budget s"
proof -
  note mv = move_spends[OF ok]
  from ok have tot: "totals_ok s" and gates: "gates_ok s" by (simp_all add: resource_ok_def)
  from assms(1) show ?thesis
  proof (cases rule: call_step.cases)
    case (join c)
    have "\<exists>e. ls_calls s' = change lc_id (lc_id c) (\<lambda>x. x\<lparr>lc_gate := e, lc_phase := WaitingActor\<rparr>) (ls_calls s)"
    proof (cases "map_of (ls_actor_gates s) (lc_actor c)")
      case (Some e)
      from gates have reg: "registry_ok (ls_next s) (ls_actor_gates s) (gate_refs s) (gate_users (ls_calls s))"
        by (simp add: gates_ok_def)
      from registry_okD(5)[OF reg map_of_SomeD[OF Some]] obtain g where "ls_store s e = Some g" by (auto simp: gate_refs_def)
      with Some show ?thesis using join(1) by (intro exI[of _ e]) (simp add: join_gate_def)
    qed (use join(1) in \<open>auto simp: join_gate_def Let_def\<close>)
    then obtain e where "ls_calls s' = change lc_id (lc_id c) (\<lambda>x. x\<lparr>lc_gate := e, lc_phase := WaitingActor\<rparr>) (ls_calls s)" ..
    from mv[OF join(2) this] join(3) show ?thesis by (simp add: call_weight_def)
  next
    case (actor c)
    show ?thesis by (rule mv[OF actor(2), of _ "in_phase WaitingGlobal"]) (use actor in \<open>simp_all add: take_actor_slot_def in_phase_weight\<close>)
  next
    case (global c)
    show ?thesis by (rule mv[OF global(2), of _ "in_phase Counting"]) (use global in \<open>simp_all add: take_global_slot_def in_phase_weight\<close>)
  next
    case (count c)
    show ?thesis by (rule mv[OF count(2), of _ "in_phase Operating"]) (use count in \<open>simp_all add: count_active_def in_phase_weight\<close>)
  next
    case (ended c out now)
    from end_attempt_calls[of out now c s] ended(1) obtain again where
      "ls_calls s' = change lc_id (lc_id c) (in_phase (Releasing again)) (ls_calls s)" by auto
    from mv[OF ended(2) this] ended(3) show ?thesis by (simp add: in_phase_weight)
  next
    case (release c again)
    show ?thesis by (rule mv[OF release(2), of _ "in_phase (Dropping again)"]) (use release in \<open>simp_all add: release_slots_def in_phase_weight\<close>)
  next
    case (drop c again)
    from gate_of_user[OF gates drop(2)] drop(3) obtain g where "ls_store s (lc_gate c) = Some g" by auto
    then show ?thesis
      by (intro mv[OF drop(2), of _ "in_phase (if again then BackingOff else Leaving)"])
        (use drop in \<open>simp_all add: drop_gate_def Let_def in_phase_weight\<close>)
  next
    case (again c)
    from tot again have "lc_attempts c \<le> lc_budget c" unfolding totals_ok_def call_ok_def by fastforce
    then show ?thesis
      by (intro mv[OF again(2), of _ "\<lambda>x. x\<lparr>lc_attempts := lc_attempts x + 1, lc_phase := Attempting\<rparr>"])
        (use again in \<open>simp_all add: next_attempt_def call_weight_def\<close>)
  next
    case (interrupt c)
    from interrupted_calls[OF interrupt(3), of s] interrupt(1) obtain p where
      "limited_phase_weight p < limited_phase_weight (lc_phase c)"
      "ls_calls s' = change lc_id (lc_id c) (in_phase p) (ls_calls s)" by auto
    with mv[OF interrupt(2)] show ?thesis by (simp add: in_phase_weight)
  next
    case (finished c)
    from tot have "distinct (map lc_id (ls_calls s))" by (simp add: totals_ok_def)
    from sum_remove[OF this finished(2), of call_weight] finished show ?thesis
      by (simp add: resource_budget_def finish_call_def call_weight_def)
  qed
qed

text \<open>Without interruptions some call can always go on: a holder, or else the first in line.\<close>

lemma call_step_live:
  assumes ok: "resource_ok s" and busy: "ls_calls s \<noteq> []"
  shows "\<exists>t. call_step interrupts s t"
proof -
  from ok have tot: "totals_ok s" and gates: "gates_ok s" by (simp_all add: resource_ok_def)
  have lim: "0 < rl_global_limit (ls_spec s)" "0 < rl_per_actor_limit (ls_spec s)"
    using tot by (auto simp: totals_ok_def limit_spec_post_init_def split: if_splits)
  let ?cs = "set (ls_calls s)"
  obtain c0 where c0: "c0 \<in> ?cs" using busy by (cases "ls_calls s") auto
  consider (moving) c where "c \<in> ?cs" "lc_phase c \<notin> {WaitingActor, WaitingGlobal}"
    | (global) c where "c \<in> ?cs" "lc_phase c = WaitingGlobal" "\<forall>x\<in>?cs. lc_phase x \<in> {WaitingActor, WaitingGlobal}"
    | (actor) c where "c \<in> ?cs" "\<forall>x\<in>?cs. lc_phase x = WaitingActor"
    using c0 by (cases "\<exists>c\<in>?cs. lc_phase c \<notin> {WaitingActor, WaitingGlobal}"; cases "\<exists>c\<in>?cs. lc_phase c = WaitingGlobal") blast+
  then show ?thesis
  proof cases
    case moving
    then show ?thesis
    proof (cases "lc_phase c")
      case Operating
      with moving(1) call_step.ended[of c s AttemptSucceeded] show ?thesis by blast
    qed (auto intro: call_step.intros)
  next
    case global
    then have "tally (\<lambda>c. holds_global (lc_phase c)) (ls_calls s) = 0" by (auto simp: tally_zero_iff)
    with tot lim have "0 < ls_global_semaphore s" unfolding totals_ok_def by linarith
    with global call_step.global[of c s] show ?thesis by blast
  next
    case actor
    then have p: "lc_phase c = WaitingActor" by blast
    with actor have "holds_gate (lc_phase c)" by simp
    from gate_of_user[OF gates actor(1) this] obtain g where g: "ls_store s (lc_gate c) = Some g"
      "ag_semaphore g + tally (\<lambda>x. holds_actor (lc_phase x) \<and> lc_gate x = lc_gate c) (ls_calls s) = rl_per_actor_limit (ls_spec s)" .
    moreover have "tally (\<lambda>x. holds_actor (lc_phase x) \<and> lc_gate x = lc_gate c) (ls_calls s) = 0"
      using actor(2) by (auto simp: tally_zero_iff)
    ultimately have "gate_open (lc_gate c) s" using lim by (simp add: gate_open_def)
    with actor(1) p call_step.actor[of c s] show ?thesis by blast
  qed
qed

section \<open>The whole limiter\<close>

definition valid_specs :: "(resource_kind \<Rightarrow> limit_spec option) \<Rightarrow> bool" where
  "valid_specs specs \<longleftrightarrow> list_all (\<lambda>k. case specs k of None \<Rightarrow> True | Some sp \<Rightarrow> limit_spec_post_init sp = Inr sp) resource_kinds"

definition limiter_ok :: "(resource_kind \<Rightarrow> limit_spec option) \<Rightarrow> limiter \<Rightarrow> bool" where
  "limiter_ok specs l \<longleftrightarrow>
     (\<forall>k. resource_ok (lm_states l k) \<and> specs k = Some (ls_spec (lm_states l k))) \<and> (lm_drained l \<longleftrightarrow> all_drained l)"

definition limiter_budget :: "limiter \<Rightarrow> nat" where
  "limiter_budget l = sum_list (map (\<lambda>k. resource_budget (lm_states l k)) resource_kinds)"

lemma resource_kinds_all [simp]: "k \<in> set resource_kinds"
  by (cases k) (simp_all add: resource_kinds_def)

lemma all_drained_iff: "all_drained l \<longleftrightarrow> (\<forall>k. ls_admitted (lm_states l k) = 0)"
  by (auto simp: all_drained_def list_all_iff)

lemma call_step_frame:
  assumes "call_step interrupts s s'"
  shows "ls_spec s' = ls_spec s" and "ls_admitted s' = ls_admitted s \<or> ls_admitted s' = ls_admitted s - 1"
proof -
  have e: "ls_spec (end_attempt out now c t) = ls_spec t \<and> ls_admitted (end_attempt out now c t) = ls_admitted t" for out now c t
    by (cases "(out, now, c, t)" rule: end_attempt.cases) simp_all
  have i: "ls_spec (interrupted p c t) = ls_spec t \<and> ls_admitted (interrupted p c t) = ls_admitted t" for p c t
    by (cases p) simp_all
  from assms have "ls_spec s' = ls_spec s \<and> (ls_admitted s' = ls_admitted s \<or> ls_admitted s' = ls_admitted s - 1)"
    by (cases rule: call_step.cases)
      (simp_all add: e i join_gate_def drop_gate_def Let_def take_actor_slot_def take_global_slot_def count_active_def
        release_slots_def next_attempt_def finish_call_def split: option.split)
  then show "ls_spec s' = ls_spec s" and "ls_admitted s' = ls_admitted s \<or> ls_admitted s' = ls_admitted s - 1" by blast+
qed

lemma limiter_step_cases:
  assumes "limiter_step interrupts l l'"
  obtains k s where "call_step interrupts (lm_states l k) s" and "lm_states l' = (lm_states l)(k := s)"
    and "lm_drained l' \<longleftrightarrow> lm_drained l \<or> ls_admitted s < ls_admitted (lm_states l k) \<and> all_drained l'"
  using assms
proof (cases rule: limiter_step.cases)
  case (1 k s)
  then show thesis by (intro that[of k s]) (auto simp: after_finish_def all_drained_def)
qed

lemma limiter_step_ok:
  assumes "limiter_step interrupts l l'" and ok: "limiter_ok specs l"
  shows "limiter_ok specs l'"
  using assms(1)
proof (cases rule: limiter_step_cases)
  case (1 k s)
  from ok have r: "resource_ok (lm_states l k)" by (simp add: limiter_ok_def)
  note fr = call_step_frame[OF 1(1)]
  have "0 < ls_admitted (lm_states l k)" if "\<not> ls_admitted s = ls_admitted (lm_states l k)"
    using that fr(2) call_step_ok[OF 1(1) r] by (auto simp: resource_ok_def totals_ok_def)
  then have "lm_drained l' \<longleftrightarrow> all_drained l'"
    using ok fr(2) 1(3) unfolding limiter_ok_def all_drained_iff 1(2) by (auto split: if_splits)
  moreover have "resource_ok (lm_states l' j) \<and> specs j = Some (ls_spec (lm_states l' j))" for j
    using ok call_step_ok[OF 1(1) r] fr(1) by (simp add: limiter_ok_def 1(2))
  ultimately show ?thesis by (simp add: limiter_ok_def)
qed

lemma limiter_step_spends:
  assumes "limiter_step interrupts l l'" and ok: "limiter_ok specs l"
  shows "limiter_budget l' < limiter_budget l"
  using assms(1)
proof (cases rule: limiter_step_cases)
  case (1 k s)
  from ok have "resource_ok (lm_states l k)" by (simp add: limiter_ok_def)
  from call_step_spends[OF 1(1) this] show ?thesis
    unfolding limiter_budget_def resource_kinds_def 1(2) by (cases k) simp_all
qed

lemma limiter_step_live:
  assumes ok: "limiter_ok specs l" and busy: "\<not> all_drained l"
  shows "\<exists>l'. limiter_step interrupts l l'"
proof -
  from busy obtain k where k: "ls_admitted (lm_states l k) \<noteq> 0" unfolding all_drained_iff by blast
  from ok have r: "resource_ok (lm_states l k)" by (simp add: limiter_ok_def)
  with k have "ls_calls (lm_states l k) \<noteq> []" by (auto simp: resource_ok_def totals_ok_def)
  from call_step_live[OF r this] obtain s where "call_step interrupts (lm_states l k) s" ..
  then show ?thesis by (blast intro: limiter_step.intros)
qed

interpretation lm: draining "limiter_step interrupts" "limiter_ok specs" limiter_budget "\<lambda>l. \<not> all_drained l"
  for interrupts specs
  by unfold_locales (blast intro: limiter_step_ok limiter_step_spends limiter_step_live)+

lemma fresh_resource_ok: "limit_spec_post_init sp = Inr sp \<Longrightarrow> resource_ok (fresh_resource sp)"
  by (auto simp: resource_ok_def totals_ok_def gates_ok_def fresh_resource_def registry_ok_def gate_users_def
      limit_spec_post_init_def split: if_splits)

lemma limiter_created_ok:
  assumes "valid_specs specs" and "ResourceLimiter specs = Inr l"
  shows "limiter_ok specs l"
proof -
  from assms(2) have some: "\<exists>sp. specs k = Some sp" for k
    by (auto simp: ResourceLimiter_def list_ex_iff split: if_splits)
  from assms(2) have l: "lm_states l = (\<lambda>k. fresh_resource (the (specs k)))" "lm_drained l"
    by (auto simp: ResourceLimiter_def split: if_splits)
  have "limit_spec_post_init (the (specs k)) = Inr (the (specs k))" for k
    using assms(1) some[of k] unfolding valid_specs_def list_all_iff by (auto dest!: bspec[OF _ resource_kinds_all[of k]])
  then have "resource_ok (lm_states l k)" for k unfolding l by (rule fresh_resource_ok)
  moreover have "ls_spec (lm_states l k) = the (specs k)" "ls_admitted (lm_states l k) = 0" for k
    by (simp_all add: l fresh_resource_def)
  ultimately show ?thesis using some l(2) by (auto simp: limiter_ok_def all_drained_iff)
qed

lemma limited_request_Inr:
  "limited_request sp actor rb td = Inr (budget, deadline) \<Longrightarrow> 0 \<le> budget \<and> budget \<le> rl_retry_budget sp"
  by (auto simp: limited_request_def Let_def split: if_splits)

lemma limited_run_ok:
  assumes run: "limited_run k now actor rb td l = (r, l')" and ok: "limiter_ok specs l"
  shows "limiter_ok specs l'"
proof (cases "limited_request (ls_spec (lm_states l k)) actor rb td")
  case (Inl e)
  with run ok show ?thesis by (simp add: limited_run_def)
next
  case (Inr bd)
  then obtain budget deadline where req: "limited_request (ls_spec (lm_states l k)) actor rb td = Inr (budget, deadline)"
    by (cases bd) simp
  obtain r' s where adm: "admit_call (lm_closed l) now actor budget (lm_states l k) = (r', s)" by fastforce
  from ok have rk: "resource_ok (lm_states l k)" by (simp add: limiter_ok_def)
  from admit_call_ok[OF adm rk] limited_request_Inr[OF req] have s_ok: "resource_ok s" by blast
  have spec: "ls_spec s = ls_spec (lm_states l k)" using adm by (cases rule: admit_call_cases) auto
  have st: "lm_states l' = (lm_states l)(k := s)" using run req adm by (auto simp: limited_run_def split: sum.splits)
  have all: "resource_ok (lm_states l' j) \<and> specs j = Some (ls_spec (lm_states l' j))" for j
    using ok s_ok spec by (simp add: limiter_ok_def st)
  show ?thesis
  proof (cases r')
    case (Inl e)
    from adm have "ls_admitted s = ls_admitted (lm_states l k)"
      by (cases rule: admit_call_cases) (simp_all add: Inl)
    moreover have "lm_drained l' = lm_drained l" using run req adm Inl by (auto simp: limited_run_def)
    ultimately show ?thesis using ok all by (auto simp: limiter_ok_def all_drained_iff st)
  next
    case (Inr u)
    then have "ls_calls s \<noteq> []"
      using adm by (auto simp: admit_call_def Let_def split: if_splits)
    then have "ls_admitted s \<noteq> 0" using s_ok by (auto simp: resource_ok_def totals_ok_def)
    moreover have "\<not> lm_drained l'" using run req adm Inr by (auto simp: limited_run_def)
    ultimately show ?thesis using all by (auto simp: limiter_ok_def all_drained_iff st)
  qed
qed

lemma limiter_reachable_ok:
  assumes "limiter_reachable specs l" and "valid_specs specs"
  shows "limiter_ok specs l"
  using assms(1)
proof (induction rule: limiter_reachable.induct)
  case (created l)
  with assms(2) show ?case by (rule limiter_created_ok)
next
  case (called l k now actor rb td r l')
  from called.hyps(2) called.IH show ?case by (rule limited_run_ok)
next
  case (closed l)
  then show ?case by (auto simp: close_limiter_def Let_def limiter_ok_def all_drained_def)
next
  case (observed l k now)
  have "ls_admitted (snd (resource_snapshot_of now s)) = ls_admitted s" "ls_spec (snd (resource_snapshot_of now s)) = ls_spec s"
    "resource_ok s \<Longrightarrow> resource_ok (snd (resource_snapshot_of now s))" for s
    using reset_ok by (simp_all add: resource_snapshot_of_def Let_def)
  with observed.IH show ?case by (auto simp: limiter_ok_def all_drained_iff)
next
  case (stepped l l')
  from stepped.hyps(2) stepped.IH show ?case by (rule limiter_step_ok)
qed

section \<open>Bounds\<close>

lemma resource_bounds:
  assumes ok: "resource_ok s"
  shows "ls_active s = tally (\<lambda>c. counted (lc_phase c)) (ls_calls s)" and "ls_active s \<le> rl_global_limit (ls_spec s)"
    and "tally (\<lambda>c. counted (lc_phase c) \<and> lc_actor c = a) (ls_calls s) \<le> rl_per_actor_limit (ls_spec s)"
    and "int (length (ls_calls s)) \<le> rl_global_limit (ls_spec s) + rl_queue_limit (ls_spec s)"
    and "c \<in> set (ls_calls s) \<Longrightarrow> lc_attempts c \<le> lc_budget c + 1 \<and> lc_budget c \<le> rl_retry_budget (ls_spec s)"
    and "set (map fst (ls_actor_gates s)) = lc_actor ` {c \<in> set (ls_calls s). holds_gate (lc_phase c)}"
proof -
  from ok have tot: "totals_ok s" and gates: "gates_ok s" by (simp_all add: resource_ok_def)
  note t = tot[unfolded totals_ok_def]
  from gates have reg: "registry_ok (ls_next s) (ls_actor_gates s) (gate_refs s) (gate_users (ls_calls s))"
    by (simp add: gates_ok_def)
  show act: "ls_active s = tally (\<lambda>c. counted (lc_phase c)) (ls_calls s)" using t by blast
  have "holds_global p" if "counted p" for p using that by (cases p) simp_all
  then have "tally (\<lambda>c. counted (lc_phase c)) (ls_calls s) \<le> tally (\<lambda>c. holds_global (lc_phase c)) (ls_calls s)"
    by (intro tally_mono) blast
  then show "ls_active s \<le> rl_global_limit (ls_spec s)" using t by linarith
  show "int (length (ls_calls s)) \<le> rl_global_limit (ls_spec s) + rl_queue_limit (ls_spec s)" using t by linarith
  show "lc_attempts c \<le> lc_budget c + 1 \<and> lc_budget c \<le> rl_retry_budget (ls_spec s)" if "c \<in> set (ls_calls s)"
    using t that by (simp add: call_ok_def)
  show "set (map fst (ls_actor_gates s)) = lc_actor ` {c \<in> set (ls_calls s). holds_gate (lc_phase c)}"
  proof -
    have "(\<lambda>c. (lc_actor c, lc_gate c)) ` {c \<in> set (ls_calls s). holds_gate (lc_phase c)} = set (ls_actor_gates s)"
      using reg unfolding registry_ok_def set_gate_users by blast
    then have "fst ` set (ls_actor_gates s) = (\<lambda>c. lc_actor c) ` {c \<in> set (ls_calls s). holds_gate (lc_phase c)}"
      by (metis (no_types, lifting) fst_conv image_cong image_image)
    then show ?thesis by simp
  qed
  show "tally (\<lambda>c. counted (lc_phase c) \<and> lc_actor c = a) (ls_calls s) \<le> rl_per_actor_limit (ls_spec s)"
  proof (cases "\<exists>c\<in>set (ls_calls s). counted (lc_phase c) \<and> lc_actor c = a")
    case False
    then have "tally (\<lambda>c. counted (lc_phase c) \<and> lc_actor c = a) (ls_calls s) = 0" by (auto simp: tally_zero_iff)
    with t show ?thesis by (auto simp: limit_spec_post_init_def split: if_splits)
  next
    case True
    have both: "holds_gate p \<and> holds_actor p" if "counted p" for p using that by (cases p) simp_all
    from True obtain c where c: "c \<in> set (ls_calls s)" "counted (lc_phase c)" "lc_actor c = a" by blast
    have hc: "holds_gate (lc_phase c)" using both c(2) by blast
    from gate_of_user[OF gates c(1) hc, unfolded c(3)] obtain g where "(a, lc_gate c) \<in> set (ls_actor_gates s)"
      "ls_store s (lc_gate c) = Some g" and g: "0 \<le> ag_semaphore g"
      "ag_semaphore g + tally (\<lambda>x. holds_actor (lc_phase x) \<and> lc_gate x = lc_gate c) (ls_calls s) = rl_per_actor_limit (ls_spec s)"
      and m: "map_of (ls_actor_gates s) a = Some (lc_gate c)" .
    have "lc_gate x = lc_gate c" if "x \<in> set (ls_calls s)" "counted (lc_phase x)" "lc_actor x = a" for x
    proof -
      have h: "holds_gate (lc_phase x)" using both that(2) by blast
      from gate_of_user[OF gates that(1) h] have "map_of (ls_actor_gates s) (lc_actor x) = Some (lc_gate x)" by blast
      with m that(3) show ?thesis by simp
    qed
    then have "tally (\<lambda>c. counted (lc_phase c) \<and> lc_actor c = a) (ls_calls s) \<le>
        tally (\<lambda>x. holds_actor (lc_phase x) \<and> lc_gate x = lc_gate c) (ls_calls s)"
      by (intro tally_mono) (use both in blast)
    with g show ?thesis by linarith
  qed
qed

text \<open>
  C22. The limits hold: whatever the interleaving of calls, retries, cooldowns, deadlines and
  cancellations, the active count of a resource is the number of its running operations and never
  exceeds the global limit, no actor runs more than the per-actor limit, no more than the global limit
  plus the queue are admitted, and no call dispatches its operation more than once plus its retry
  budget; a gate is kept exactly while an actor uses it.
\<close>

theorem limiter_bounded:
  assumes "valid_specs specs" and "limiter_reachable specs l" and "specs k = Some sp"
  shows "ls_active (lm_states l k) = tally (\<lambda>c. counted (lc_phase c)) (ls_calls (lm_states l k)) \<and>
    ls_active (lm_states l k) \<le> rl_global_limit sp \<and>
    (\<forall>a. tally (\<lambda>c. counted (lc_phase c) \<and> lc_actor c = a) (ls_calls (lm_states l k)) \<le> rl_per_actor_limit sp) \<and>
    int (length (ls_calls (lm_states l k))) \<le> rl_global_limit sp + rl_queue_limit sp \<and>
    (\<forall>c\<in>set (ls_calls (lm_states l k)). lc_attempts c \<le> lc_budget c + 1 \<and> lc_budget c \<le> rl_retry_budget sp) \<and>
    set (map fst (ls_actor_gates (lm_states l k))) =
      lc_actor ` {c \<in> set (ls_calls (lm_states l k)). holds_gate (lc_phase c)}"
proof -
  have ok: "limiter_ok specs l" by (rule limiter_reachable_ok[OF assms(2,1)])
  with assms(3) have "resource_ok (lm_states l k)" "ls_spec (lm_states l k) = sp" by (auto simp: limiter_ok_def)
  with resource_bounds[of "lm_states l k"] show ?thesis by blast
qed

text \<open>
  C23. Every admitted call ends: its own steps - attempts, retries within the budget, releases - are
  bounded by a number known in advance, with or without interruptions, and when none is left no call is
  admitted and the drained event is set, so \<open>close\<close> returns once the running operations have.
\<close>

theorem limiter_drains:
  assumes "valid_specs specs" and "limiter_reachable specs l" and "(limiter_step interrupts ^^ n) l l'"
  shows "n \<le> limiter_budget l \<and> ((\<nexists>u. limiter_step interrupts l' u) \<longrightarrow> all_drained l' \<and> lm_drained l')"
proof -
  have ok: "limiter_ok specs l" by (rule limiter_reachable_ok[OF assms(2,1)])
  have "limiter_ok specs l'" by (rule lm.holds_steps[OF assms(3) ok])
  then have "all_drained l' \<Longrightarrow> lm_drained l'" by (simp add: limiter_ok_def)
  with lm.steps_bounded[OF assms(3) ok] lm.stuck_is_idle[OF assms(3) ok] show ?thesis by auto
qed

section \<open>One call\<close>

definition sample_spec :: limit_spec where
  "sample_spec = \<lparr>rl_global_limit = 2, rl_per_actor_limit = 1, rl_queue_limit = 3, rl_total_deadline = 30,
     rl_retry_budget = 1, rl_failure_threshold = 3, rl_cooldown = 5\<rparr>"

definition sample_limiter :: limiter where
  "sample_limiter = snd (limited_run RK_JIRA 100 7 None None
     \<lparr>lm_states = (\<lambda>k. fresh_resource sample_spec), lm_drained = True, lm_closed = False\<rparr>)"

lemma sample_specs_valid: "valid_specs (\<lambda>_. Some sample_spec)"
  by (simp add: valid_specs_def list_all_iff limit_spec_post_init_def sample_spec_def)

lemma sample_limiter_reachable: "limiter_reachable (\<lambda>_. Some sample_spec) sample_limiter"
  unfolding sample_limiter_def
  by (rule limiter_reachable.called[OF _ surjective_pairing])
    (rule limiter_reachable.created, simp add: ResourceLimiter_def list_ex_iff)

lemma sample_limiter_calls: "length (ls_calls (lm_states sample_limiter RK_JIRA)) = 1"
  by (simp add: sample_limiter_def limited_run_def limited_request_def sample_spec_def admit_call_def
      reset_expired_cooldown_def fresh_resource_def)

theorem limiter_bounded_witness:
  "length (ls_calls (lm_states sample_limiter RK_JIRA)) = 1 \<and> ls_active (lm_states sample_limiter RK_JIRA) \<le> 2"
  using limiter_bounded [OF sample_specs_valid sample_limiter_reachable, of sample_spec RK_JIRA] sample_limiter_calls
  by (simp add: sample_spec_def)

theorem limiter_drains_witness:
  "\<exists>l'. limiter_step False sample_limiter l' \<and> 1 \<le> limiter_budget sample_limiter"
proof -
  have ok: "limiter_ok (\<lambda>_. Some sample_spec) sample_limiter"
    by (rule limiter_reachable_ok[OF sample_limiter_reachable sample_specs_valid])
  then have "ls_admitted (lm_states sample_limiter RK_JIRA) = 1"
    using sample_limiter_calls by (simp add: limiter_ok_def resource_ok_def totals_ok_def)
  then have "\<not> all_drained sample_limiter" unfolding all_drained_iff by (metis zero_neq_one)
  from limiter_step_live[OF ok this] obtain l' where l': "limiter_step False sample_limiter l'" by blast
  then have "(limiter_step False ^^ 1) sample_limiter l'" by (simp add: OO_def)
  from limiter_drains [OF sample_specs_valid sample_limiter_reachable this] l' show ?thesis by blast
qed

end
