(* ===== verification/Jira_Gateway.thy ===== *)
theory Jira_Gateway
  imports Submission_Safety Policy
begin

text \<open>
  \<open>src/src/dztgbot/infrastructure/jira_gateway.py\<close>: the REST adapter.  The HTTP client is a parameter
  \<open>je_http\<close>: the answer to the \<open>n\<close>-th request of the gateway's life; the world is the list of the requests
  sent and the metadata cache.  Parsing JSON text, Python's \<open>str\<close> of nested values, \<open>float\<close> and \<open>int\<close> of a
  text (milliseconds for the former) and SHA-256 are parameters as well.
\<close>

section \<open>Requests and answers\<close>

record http_request =
  hq_method :: string
  hq_path :: string
  hq_headers :: "(string \<times> string) list"
  hq_params :: "(string \<times> json) list"
  hq_json :: "json option"
  hq_file :: "(string \<times> string \<times> string) option"

record http_response =
  hr_status :: int
  hr_retry_after :: "string option"
  hr_content :: string

text \<open>\<open>httpx.TimeoutException\<close>, any other \<open>httpx.TransportError\<close>, an exception of another
  class (by its name), or a response.\<close>

datatype http_outcome = HttpTimeout | HttpTransportError | HttpRaised string | HttpResponse http_response

record jira_metadata =
  jm_project_key :: string
  jm_issue_types :: "string list"
  jm_priorities :: "string list"
  jm_marker_supported :: bool

record http_world =
  hw_requests :: "http_request list"
  hw_cache :: "((string \<times> string) \<times> (int \<times> jira_metadata)) list"
  hw_closed :: bool

record jira_env =
  je_base_url :: string
  je_safe_retries :: nat
  je_metadata_ttl :: int
  je_http :: "nat \<Rightarrow> http_request \<Rightarrow> http_outcome"
  je_parse :: "string \<Rightarrow> json option"
  je_repr :: "json \<Rightarrow> string"
  je_float :: "string \<Rightarrow> int option"
  je_int :: "string \<Rightarrow> int option"
  je_sha256 :: "string \<Rightarrow> string"
  je_blocked_text :: string

type_synonym 'a http_sx = "(http_world, exn, 'a) sx"

section \<open>Python text\<close>

fun py_truthy :: "json \<Rightarrow> bool" where
  "py_truthy JNull = False"
| "py_truthy (JBool b) = b"
| "py_truthy (JInt i) = (i \<noteq> 0)"
| "py_truthy (JStr s) = (s \<noteq> [])"
| "py_truthy (JArr xs) = (xs \<noteq> [])"
| "py_truthy (JObj ms) = (ms \<noteq> [])"

fun py_str :: "jira_env \<Rightarrow> json \<Rightarrow> string" where
  "py_str env (JStr s) = s"
| "py_str env JNull = ''None''"
| "py_str env (JBool b) = (if b then ''True'' else ''False'')"
| "py_str env (JInt i) = decimal_int i"
| "py_str env j = je_repr env j"

definition hex_digit :: "nat \<Rightarrow> char" where
  "hex_digit n = (if n < 10 then char_of (48 + n) else char_of (55 + n))"

definition url_unreserved :: "char \<Rightarrow> bool" where
  "url_unreserved c = (let n = (of_char c :: nat) in
     (48 \<le> n \<and> n \<le> 57) \<or> (65 \<le> n \<and> n \<le> 90) \<or> (97 \<le> n \<and> n \<le> 122) \<or> c \<in> set ''_.-~'')"

text \<open>\<open>urllib.parse.quote(s, safe)\<close>.\<close>

definition url_quote :: "string \<Rightarrow> string \<Rightarrow> string" where
  "url_quote safe s = concat (map (\<lambda>c. if url_unreserved c \<or> c \<in> set safe then [c]
     else concat (map (\<lambda>n. [CHR ''%'', hex_digit (n div 16), hex_digit (n mod 16)]) (utf8_bytes [c]))) s)"

text \<open>\<open>s.split(sep)[1]\<close>: what stands between the first and the second \<open>sep\<close>.\<close>

fun before_text :: "string \<Rightarrow> string \<Rightarrow> string" where
  "before_text sep [] = []"
| "before_text sep (c # cs) = (if starts_with sep (c # cs) then [] else c # before_text sep cs)"

fun after_text :: "string \<Rightarrow> string \<Rightarrow> string" where
  "after_text sep [] = []"
| "after_text sep (c # cs) = (if starts_with sep (c # cs) then drop (length sep) (c # cs) else after_text sep cs)"

section \<open>Canonical fields\<close>

record jira_timeouts =
  jt_connect :: int
  jt_read :: int
  jt_write :: int
  jt_pool :: int

definition jira_timeouts_post_init :: "jira_timeouts \<Rightarrow> exn + jira_timeouts" where
  "jira_timeouts_post_init t =
     (if min (jt_connect t) (min (jt_read t) (min (jt_write t) (jt_pool t))) \<le> 0
      then Inl (ValueError ''Jira timeouts must be positive'') else Inr t)"

definition gateway_init :: "string \<Rightarrow> int \<Rightarrow> int \<Rightarrow> exn + string" where
  "gateway_init base_url metadata_ttl safe_retries =
     (if \<not> starts_with ''http://'' base_url \<and> \<not> starts_with ''https://'' base_url then
        Inl (ValueError ''base_url must be an HTTP(S) URL'')
      else if metadata_ttl \<le> 0 \<or> safe_retries < 0 then Inl (ValueError ''cache TTL and retry count are invalid'')
      else Inr (rev (dropWhile (\<lambda>c. c = CHR ''/'') (rev base_url))))"

definition issue_fields_post_init :: "(string \<times> json) list \<Rightarrow> exn + (string \<times> json) list" where
  "issue_fields_post_init fs = (if fs = [] then Inl (ValueError ''fields must be a non-empty mapping'') else Inr fs)"

definition gateway_description :: "jira_template \<Rightarrow> string" where
  "gateway_description t =
     jt_description t @
     (if jt_acceptance_criteria t \<noteq> []
      then [CHR 0x0A, CHR 0x0A] @ ''Acceptance Criteria:'' @ [CHR 0x0A] @
           join_lines (map (\<lambda>c. ''* '' @ c) (jt_acceptance_criteria t))
      else [])"

definition canonical_issue_fields :: "jira_template \<Rightarrow> exn + (string \<times> json) list" where
  "canonical_issue_fields t =
     (if py_strip (jt_project_key t) = [] then Inl (ValueError ''project_key must not be empty'')
      else if py_strip (jt_issue_type t) = [] then Inl (ValueError ''issue_type must not be empty'')
      else if py_strip (jt_summary t) = [] then Inl (ValueError ''summary must not be empty'')
      else if py_strip (jt_description t) = [] then Inl (ValueError ''description must not be empty'')
      else if py_strip (jt_priority t) = [] then Inl (ValueError ''priority must not be empty'')
      else
        (let fs =
           [(''project'', JObj [(''key'', JStr (jt_project_key t))]),
            (''issuetype'', JObj [(''name'', JStr (jt_issue_type t))]),
            (''summary'', JStr (jt_summary t)),
            (''description'', JStr (gateway_description t)),
            (''priority'', JObj [(''name'', JStr (jt_priority t))]),
            (''labels'', JArr (map JStr (jt_labels t))),
            (''components'', JArr (map (\<lambda>c. JObj [(''name'', JStr c)]) (jt_components t)))] in
         issue_fields_post_init
           (if jt_assignee t \<noteq> [] then fs @ [(''assignee'', JObj [(''name'', JStr (jt_assignee t))])] else fs)))"

definition gateway_request_hash :: "(json \<Rightarrow> string) \<Rightarrow> jira_template \<Rightarrow> exn + string" where
  "gateway_request_hash doc_hash t = rbind (canonical_issue_fields t) (\<lambda>fs. Inr (doc_hash (JObj fs)))"

definition diff_issue_fields :: "jira_template \<Rightarrow> jira_template \<Rightarrow> exn + (string \<times> json) list" where
  "diff_issue_fields before after =
     rbind (canonical_issue_fields before) (\<lambda>old.
     rbind (canonical_issue_fields after) (\<lambda>new.
       Inr (filter (\<lambda>(k, v). map_of old k \<noteq> Some v) new)))"

section \<open>Errors\<close>

record gateway_error =
  ge_classification :: classification
  ge_status_code :: "int option"
  ge_retry_after :: "int option"
  ge_field_codes :: "string list"

definition gateway_exn :: "gateway_error \<Rightarrow> exn" where
  "gateway_exn e = DomainError (ClassifiedOperationError (ge_classification e))"

text \<open>Raising \<open>JiraGatewayError(ErrorClassification(...))\<close>; the constructor may raise instead.\<close>

definition raise_classified :: "exn + classification \<Rightarrow> exn" where
  "raise_classified r = (case r of Inl e \<Rightarrow> e | Inr c \<Rightarrow>
     gateway_exn \<lparr>ge_classification = c, ge_status_code = None, ge_retry_after = None, ge_field_codes = []\<rparr>)"

definition nonmutation_error :: "operation \<Rightarrow> error_kind \<Rightarrow> safe_error_code \<Rightarrow> exn" where
  "nonmutation_error op kind code = raise_classified (ErrorClassification kind op RT_EXPLICIT MC_NOT_APPLICABLE code)"

definition contract_error :: "operation \<Rightarrow> exn" where
  "contract_error op =
     raise_classified (ErrorClassification EK_PROVIDER_CONTRACT op RT_NEVER MC_NOT_APPLICABLE SC_PROVIDER_CONTRACT_FAILED)"

definition parse_retry_after :: "jira_env \<Rightarrow> string option \<Rightarrow> int option" where
  "parse_retry_after env v =
     (case v of None \<Rightarrow> None | Some s \<Rightarrow>
       (case je_float env s of None \<Rightarrow> None | Some ms \<Rightarrow> if 0 \<le> ms \<and> ms \<le> 300000 then Some ms else None))"

definition MAX_ERROR_BODY_BYTES :: nat where
  "MAX_ERROR_BODY_BYTES = 16384"

text \<open>\<open>data["errors"]\<close> raises \<open>KeyError\<close> for an object without that member: the default guards only the test.\<close>

definition bounded_error_fields :: "jira_env \<Rightarrow> http_response \<Rightarrow> exn + string list" where
  "bounded_error_fields env r =
     (case je_parse env (take MAX_ERROR_BODY_BYTES (hr_content r)) of
        Some (JObj ms) \<Rightarrow>
          (case map_of ms ''errors'' of
             None \<Rightarrow> Inl (OtherError ''KeyError'')
           | Some (JObj es) \<Rightarrow> Inr (take 32 (sort (map (\<lambda>k. take 64 k) (remdups (map fst es)))))
           | Some _ \<Rightarrow> Inr [])
      | _ \<Rightarrow> Inr [])"

definition status_kind :: "int \<Rightarrow> error_kind \<times> safe_error_code \<times> retryability" where
  "status_kind status =
     (if status = 401 then (EK_AUTHENTICATION, SC_AUTHENTICATION_FAILED, RT_NEVER)
      else if status = 403 then (EK_PERMISSION, SC_PERMISSION_DENIED, RT_NEVER)
      else if status = 409 then (EK_CONFLICT, SC_PROVIDER_REJECTED, RT_EXPLICIT)
      else if status = 429 then (EK_RATE_LIMIT, SC_RATE_LIMITED, RT_AUTOMATIC)
      else if status \<ge> 500 then (EK_CONNECTIVITY, SC_CONNECTIVITY_FAILED, RT_AUTOMATIC)
      else (EK_PROVIDER_REJECTION, SC_PROVIDER_REJECTED, RT_NEVER))"

definition status_error :: "jira_env \<Rightarrow> http_response \<Rightarrow> operation \<Rightarrow> bool \<Rightarrow> exn + gateway_error" where
  "status_error env r op mutating =
     rbind (bounded_error_fields env r) (\<lambda>fs.
     (case status_kind (hr_status r) of (kind, code, retry) \<Rightarrow>
       rbind
         (if mutating then
            (if hr_status r \<ge> 500 then classify_unknown_mutation_outcome op kind
             else classify_definite_mutation_failure op kind code (if retry \<noteq> RT_NEVER then RT_EXPLICIT else RT_NEVER) True)
          else ErrorClassification kind op retry MC_NOT_APPLICABLE code)
         (\<lambda>c. Inr \<lparr>ge_classification = c, ge_status_code = Some (hr_status r),
                    ge_retry_after = parse_retry_after env (hr_retry_after r), ge_field_codes = fs\<rparr>)))"

section \<open>Sending\<close>

definition request_headers :: "string \<Rightarrow> bool \<Rightarrow> exn + (string \<times> string) list" where
  "request_headers pat attachment =
     (let token = py_strip pat in
      if token = [] then Inl (ValueError ''credential token must be a non-empty string'')
      else
        (let authorization =
           (if starts_with ''basic '' (py_lower token) \<or> starts_with ''bearer '' (py_lower token) then token
            else ''Bearer '' @ token) in
         Inr ([(''Authorization'', authorization), (''Accept'', ''application/json'')] @
              (if attachment then [(''X-Atlassian-Token'', ''no-check'')] else []))))"

definition send :: "jira_env \<Rightarrow> http_request \<Rightarrow> http_world \<Rightarrow> http_outcome \<times> http_world" where
  "send env rq = (\<lambda>w. (je_http env (length (hw_requests w)) rq, w\<lparr>hw_requests := hw_requests w @ [rq]\<rparr>))"

text \<open>\<open>_safe_request\<close> with \<open>n\<close> retries left; \<open>continue\<close> is the recursive call.\<close>

fun safe_attempts :: "jira_env \<Rightarrow> operation \<Rightarrow> http_request \<Rightarrow> nat \<Rightarrow> http_response http_sx" where
  "safe_attempts env op rq n = (\<lambda>w.
     (case send env rq w of
        (HttpTimeout, w') \<Rightarrow>
          (case n of Suc m \<Rightarrow> safe_attempts env op rq m w'
           | 0 \<Rightarrow> (Inl (nonmutation_error op EK_TIMEOUT SC_TIMED_OUT), w'))
      | (HttpTransportError, w') \<Rightarrow>
          (case n of Suc m \<Rightarrow> safe_attempts env op rq m w'
           | 0 \<Rightarrow> (Inl (nonmutation_error op EK_CONNECTIVITY SC_CONNECTIVITY_FAILED), w'))
      | (HttpRaised e, w') \<Rightarrow> (Inl (OtherError e), w')
      | (HttpResponse r, w') \<Rightarrow>
          if hr_status r < 400 then (Inr r, w')
          else (case status_error env r op False of
             Inl e \<Rightarrow> (Inl e, w')
           | Inr ge \<Rightarrow>
               if ec_retryability (ge_classification ge) = RT_AUTOMATIC \<and> n > 0
               then (case n of Suc m \<Rightarrow> safe_attempts env op rq m w' | 0 \<Rightarrow> (Inl (gateway_exn ge), w'))
               else (Inl (gateway_exn ge), w'))))"

declare safe_attempts.simps [simp del]

definition safe_request ::
  "jira_env \<Rightarrow> string \<Rightarrow> string \<Rightarrow> string \<Rightarrow> operation \<Rightarrow> (string \<times> json) list \<Rightarrow> http_response http_sx" where
  "safe_request env http_method path pat op params =
     sx_bind (sx_lift (request_headers pat False)) (\<lambda>hs.
       safe_attempts env op
         \<lparr>hq_method = http_method, hq_path = je_base_url env @ ''/rest/api/2'' @ path, hq_headers = hs, hq_params = params,
          hq_json = None, hq_file = None\<rparr> (je_safe_retries env))"

definition mutation_outcome :: "jira_env \<Rightarrow> operation \<Rightarrow> http_outcome \<Rightarrow> exn + http_response" where
  "mutation_outcome env op out =
     (case out of
        HttpTimeout \<Rightarrow> Inl (raise_classified (classify_unknown_mutation_outcome op EK_TIMEOUT))
      | HttpTransportError \<Rightarrow> Inl (raise_classified (classify_unknown_mutation_outcome op EK_CONNECTIVITY))
      | HttpRaised e \<Rightarrow> Inl (OtherError e)
      | HttpResponse r \<Rightarrow>
          if hr_status r \<ge> 400
          then Inl (case status_error env r op True of Inl e \<Rightarrow> e | Inr ge \<Rightarrow> gateway_exn ge)
          else Inr r)"

definition mutation_request ::
  "jira_env \<Rightarrow> string \<Rightarrow> string \<Rightarrow> string \<Rightarrow> operation \<Rightarrow> json option \<Rightarrow> (string \<times> string \<times> string) option \<Rightarrow> bool \<Rightarrow>
   http_response http_sx" where
  "mutation_request env http_method path pat op payload file attachment =
     sx_bind (sx_lift (request_headers pat attachment)) (\<lambda>hs w.
       (case send env \<lparr>hq_method = http_method, hq_path = je_base_url env @ ''/rest/api/2'' @ path, hq_headers = hs,
                         hq_params = [], hq_json = payload, hq_file = file\<rparr> w of
          (out, w') \<Rightarrow> (mutation_outcome env op out, w')))"

definition json_object :: "jira_env \<Rightarrow> http_response \<Rightarrow> operation \<Rightarrow> string list \<Rightarrow> exn + (string \<times> json) list" where
  "json_object env r op required =
     (case je_parse env (hr_content r) of
        Some (JObj ms) \<Rightarrow> if list_ex (\<lambda>k. map_of ms k = None) required then Inl (contract_error op) else Inr ms
      | _ \<Rightarrow> Inl (contract_error op))"

definition json_array :: "jira_env \<Rightarrow> http_response \<Rightarrow> operation \<Rightarrow> exn + json list" where
  "json_array env r op =
     (case je_parse env (hr_content r) of Some (JArr xs) \<Rightarrow> Inr xs | _ \<Rightarrow> Inl (contract_error op))"

section \<open>Operations\<close>

abbreviation issue_path :: "string \<Rightarrow> string" where
  "issue_path key \<equiv> ''/issue/'' @ url_quote ''-'' key"

definition browse_url :: "jira_env \<Rightarrow> string \<Rightarrow> string" where
  "browse_url env key = je_base_url env @ ''/browse/'' @ url_quote ''-'' key"

definition test_credential :: "jira_env \<Rightarrow> string \<Rightarrow> bool http_sx" where
  "test_credential env pat = (\<lambda>w.
     (case sx_bind (safe_request env ''GET'' ''/myself'' pat OP_AUTHENTICATION [])
             (\<lambda>r. sx_lift (rbind (json_object env r OP_AUTHENTICATION [''name'']) (\<lambda>ms.
                Inr (case map_of ms ''name'' of None \<Rightarrow> False | Some v \<Rightarrow> py_truthy v)))) w of
        (Inl (DomainError (ClassifiedOperationError c)), w') \<Rightarrow>
          (if ec_kind c \<in> {EK_AUTHENTICATION, EK_PERMISSION} then Inr False
           else Inl (DomainError (ClassifiedOperationError c)), w')
      | r \<Rightarrow> r))"

definition created_issue :: "jira_env \<Rightarrow> int \<Rightarrow> http_response \<Rightarrow> exn + published_issue" where
  "created_issue env now r =
     rbind (json_object env r OP_JIRA_CREATE [''id'', ''key'']) (\<lambda>ms.
       (case (map_of ms ''id'', map_of ms ''key'') of
          (Some (JStr i), Some (JStr key)) \<Rightarrow>
            published_issue_post_init \<lparr>pi_issue_key = key, pi_issue_id = i, pi_issue_url = browse_url env key,
              pi_published_at = Aware now\<rparr>
        | _ \<Rightarrow> Inl (contract_error OP_JIRA_CREATE)))"

definition create_payload :: "(string \<times> json) list \<Rightarrow> string \<Rightarrow> json" where
  "create_payload fs idempotency_key =
     JObj ([(''fields'', JObj fs)] @
       (if idempotency_key \<noteq> []
        then [(''properties'', JArr [JObj [(''key'', JStr ''dztgbot.request_hash''), (''value'', JStr idempotency_key)]])]
        else []))"

definition create_issue :: "jira_env \<Rightarrow> int \<Rightarrow> jira_template \<Rightarrow> string \<Rightarrow> string \<Rightarrow> published_issue http_sx" where
  "create_issue env now tpl pat idempotency_key =
     sx_bind (sx_lift (canonical_issue_fields tpl)) (\<lambda>fs.
     sx_bind (mutation_request env ''POST'' ''/issue'' pat OP_JIRA_CREATE
                (Some (create_payload fs idempotency_key)) None False) (\<lambda>r.
       sx_lift (created_issue env now r)))"

definition update_issue_fields :: "jira_env \<Rightarrow> string \<Rightarrow> (string \<times> json) list \<Rightarrow> string \<Rightarrow> unit http_sx" where
  "update_issue_fields env key fs pat =
     (if fs = [] then sx_return ()
      else sx_bind (mutation_request env ''PUT'' (issue_path key) pat OP_JIRA_UPDATE
                      (Some (JObj [(''fields'', JObj fs)])) None False) (\<lambda>_. sx_return ()))"

definition update_issue :: "jira_env \<Rightarrow> string \<Rightarrow> jira_template \<Rightarrow> string \<Rightarrow> unit http_sx" where
  "update_issue env key tpl pat =
     sx_bind (sx_lift (canonical_issue_fields tpl)) (\<lambda>fs. update_issue_fields env key fs pat)"

definition gateway_upload :: "jira_env \<Rightarrow> string \<Rightarrow> string \<Rightarrow> string \<Rightarrow> string \<Rightarrow> string \<Rightarrow> string http_sx" where
  "gateway_upload env key filename content mime pat =
     (if filename = [] \<or> content = [] \<or> mime = [] then sx_raise (ValueError ''attachment fields must not be empty'')
      else
        sx_bind (mutation_request env ''POST'' (issue_path key @ ''/attachments'') pat OP_JIRA_ATTACHMENT None
                   (Some (filename, content, mime)) True) (\<lambda>r.
        sx_lift (rbind (json_array env r OP_JIRA_ATTACHMENT) (\<lambda>xs.
          (case xs of
             [JObj ms] \<Rightarrow>
               (case map_of ms ''id'' of
                  Some (JStr i) \<Rightarrow> if i = [] then Inl (contract_error OP_JIRA_ATTACHMENT) else Inr i
                | _ \<Rightarrow> Inl (contract_error OP_JIRA_ATTACHMENT))
           | _ \<Rightarrow> Inl (contract_error OP_JIRA_ATTACHMENT))))))"

record remote_issue =
  ri_issue_key :: string
  ri_issue_id :: string
  ri_fields :: "(string \<times> json) list"

definition remote_issue_post_init :: "remote_issue \<Rightarrow> exn + remote_issue" where
  "remote_issue_post_init i =
     (if ri_issue_key i = [] \<or> ri_issue_id i = [] then Inl (ValueError ''invalid Jira issue response'') else Inr i)"

definition get_issue :: "jira_env \<Rightarrow> string \<Rightarrow> string \<Rightarrow> remote_issue http_sx" where
  "get_issue env key pat =
     sx_bind (safe_request env ''GET'' (issue_path key) pat OP_JIRA_UPDATE []) (\<lambda>r.
     sx_lift (rbind (json_object env r OP_JIRA_UPDATE [''id'', ''key'', ''fields'']) (\<lambda>ms.
       (case (map_of ms ''id'', map_of ms ''key'', map_of ms ''fields'') of
          (Some (JStr i), Some (JStr k), Some (JObj fs)) \<Rightarrow>
            remote_issue_post_init \<lparr>ri_issue_key = k, ri_issue_id = i, ri_fields = fs\<rparr>
        | _ \<Rightarrow> Inl (contract_error OP_JIRA_UPDATE)))))"

text \<open>\<open>issue.property[...]\<close>: the search by the marker of a create request.\<close>

definition found_issue :: "jira_env \<Rightarrow> int \<Rightarrow> json \<Rightarrow> exn + published_issue" where
  "found_issue env now item =
     (case (json_get item ''id'', json_get item ''key'') of
        (Some (JStr i), Some (JStr k)) \<Rightarrow>
          published_issue_post_init \<lparr>pi_issue_key = k, pi_issue_id = i, pi_issue_url = browse_url env k,
            pi_published_at = Aware now\<rparr>
      | _ \<Rightarrow> Inl (contract_error OP_JIRA_CREATE))"

fun rmap_list :: "('a \<Rightarrow> exn + 'b) \<Rightarrow> 'a list \<Rightarrow> exn + 'b list" where
  "rmap_list f [] = Inr []"
| "rmap_list f (x # xs) = rbind (f x) (\<lambda>y. rbind (rmap_list f xs) (\<lambda>ys. Inr (y # ys)))"

definition find_by_request_hash :: "jira_env \<Rightarrow> int \<Rightarrow> string \<Rightarrow> string \<Rightarrow> string \<Rightarrow> published_issue list http_sx" where
  "find_by_request_hash env now project_key request_hash pat =
     (let jql = ''project = '' @ [CHR 0x22] @ project_key @ [CHR 0x22] @
                '' AND issue.property[dztgbot.request_hash].value = '' @ [CHR 0x22] @ request_hash @ [CHR 0x22] in
      sx_bind (safe_request env ''GET'' ''/search'' pat OP_JIRA_CREATE [(''jql'', JStr jql), (''maxResults'', JInt 2)]) (\<lambda>r.
      sx_lift (rbind (json_object env r OP_JIRA_CREATE [''issues'']) (\<lambda>ms.
        (case map_of ms ''issues'' of
           Some (JArr items) \<Rightarrow> rmap_list (found_issue env now) (take 2 items)
         | _ \<Rightarrow> Inl (contract_error OP_JIRA_CREATE))))))"

section \<open>Issue actions\<close>

definition transition_of :: "jira_env \<Rightarrow> json \<Rightarrow> exn + jira_transition_view list" where
  "transition_of env item =
     (case item of
        JObj ms \<Rightarrow>
          (let text = (\<lambda>k. py_str env (case map_of ms k of None \<Rightarrow> JStr [] | Some v \<Rightarrow> v));
               to_obj = (case map_of ms ''to'' of Some (JObj t) \<Rightarrow> t | _ \<Rightarrow> []);
               to_status = (case map_of to_obj ''name'' of None \<Rightarrow> [] | Some v \<Rightarrow> if py_truthy v then py_str env v else []);
               has_screen = (case map_of ms ''hasScreen'' of None \<Rightarrow> False | Some v \<Rightarrow> py_truthy v) in
           if text ''id'' \<noteq> [] \<and> text ''name'' \<noteq> [] \<and> to_status \<noteq> []
           then rbind (transition_view_post_init \<lparr>tv_transition_id = text ''id'', tv_name = text ''name'',
                         tv_to_status = to_status, tv_has_screen = has_screen\<rparr>) (\<lambda>t. Inr [t])
           else Inr [])
      | _ \<Rightarrow> Inr [])"

definition get_transitions :: "jira_env \<Rightarrow> string \<Rightarrow> string \<Rightarrow> jira_transition_view list http_sx" where
  "get_transitions env key pat =
     sx_bind (safe_request env ''GET'' (issue_path key @ ''/transitions'') pat OP_JIRA_UPDATE []) (\<lambda>r.
     sx_lift (rbind (json_object env r OP_JIRA_UPDATE [''transitions'']) (\<lambda>ms.
       (case map_of ms ''transitions'' of
          Some (JArr items) \<Rightarrow> rbind (rmap_list (transition_of env) items) (\<lambda>tss. Inr (concat tss))
        | _ \<Rightarrow> Inl (contract_error OP_JIRA_UPDATE)))))"

definition execute_transition :: "jira_env \<Rightarrow> string \<Rightarrow> string \<Rightarrow> string \<Rightarrow> string option \<Rightarrow> unit http_sx" where
  "execute_transition env key transition_id pat comment =
     (let payload = JObj ([(''transition'', JObj [(''id'', JStr transition_id)])] @
        (case comment of
           None \<Rightarrow> []
         | Some c \<Rightarrow> if c = [] then []
             else [(''update'', JObj [(''comment'', JArr [JObj [(''add'', JObj [(''body'', JStr c)])]])])])) in
      sx_bind (mutation_request env ''POST'' (issue_path key @ ''/transitions'') pat OP_JIRA_UPDATE (Some payload) None False)
        (\<lambda>_. sx_return ()))"

definition add_comment :: "jira_env \<Rightarrow> string \<Rightarrow> string \<Rightarrow> string \<Rightarrow> string http_sx" where
  "add_comment env key body pat =
     (if py_strip body = [] then sx_raise (ValueError ''comment body must not be empty'')
      else
        sx_bind (mutation_request env ''POST'' (issue_path key @ ''/comment'') pat OP_JIRA_UPDATE
                   (Some (JObj [(''body'', JStr body)])) None False) (\<lambda>r.
        sx_lift (rbind (json_object env r OP_JIRA_UPDATE [''id'']) (\<lambda>ms.
          Inr (py_str env (case map_of ms ''id'' of None \<Rightarrow> JNull | Some v \<Rightarrow> v))))))"

definition assign_issue :: "jira_env \<Rightarrow> string \<Rightarrow> string \<Rightarrow> string \<Rightarrow> unit http_sx" where
  "assign_issue env key assignee pat =
     sx_bind (mutation_request env ''PUT'' (issue_path key @ ''/assignee'') pat OP_JIRA_UPDATE
                (Some (JObj [(''name'', if assignee \<noteq> [] then JStr assignee else JNull)])) None False) (\<lambda>_. sx_return ())"

definition link_payload :: "string \<Rightarrow> string \<Rightarrow> string \<Rightarrow> json" where
  "link_payload link_type inward outward =
     JObj [(''type'', JObj [(''name'', JStr link_type)]), (''inwardIssue'', JObj [(''key'', JStr inward)]),
           (''outwardIssue'', JObj [(''key'', JStr outward)])]"

definition create_generic_issue_link :: "jira_env \<Rightarrow> string \<Rightarrow> string \<Rightarrow> string \<Rightarrow> string \<Rightarrow> unit http_sx" where
  "create_generic_issue_link env pat inward outward link_type =
     sx_bind (mutation_request env ''POST'' ''/issueLink'' pat OP_JIRA_UPDATE
                (Some (link_payload link_type inward outward)) None False) (\<lambda>_. sx_return ())"

definition block_issue :: "jira_env \<Rightarrow> string \<Rightarrow> string \<Rightarrow> string \<Rightarrow> string option \<Rightarrow> unit http_sx" where
  "block_issue env key blocker pat reason =
     sx_bind (mutation_request env ''POST'' ''/issueLink'' pat OP_JIRA_UPDATE
                (Some (link_payload ''Blocks'' key blocker)) None False) (\<lambda>_.
     sx_bind (add_comment env key (je_blocked_text env @ blocker @
                (case reason of None \<Rightarrow> [] | Some t \<Rightarrow> if t = [] then [] else '': '' @ t)) pat) (\<lambda>_. sx_return ()))"

definition watch_issue :: "jira_env \<Rightarrow> string \<Rightarrow> string \<Rightarrow> unit http_sx" where
  "watch_issue env key pat =
     sx_bind (mutation_request env ''POST'' (issue_path key @ ''/watchers'') pat OP_JIRA_UPDATE None None False)
       (\<lambda>_. sx_return ())"

definition unwatch_issue :: "jira_env \<Rightarrow> string \<Rightarrow> string \<Rightarrow> unit http_sx" where
  "unwatch_issue env key pat =
     sx_bind (safe_request env ''GET'' ''/myself'' pat OP_JIRA_UPDATE []) (\<lambda>r.
     sx_bind (sx_lift (json_object env r OP_JIRA_UPDATE [''name''])) (\<lambda>ms.
       (let username = (case map_of ms ''name'' of None \<Rightarrow> [] | Some v \<Rightarrow> if py_truthy v then py_str env v else []) in
        sx_bind (mutation_request env ''DELETE'' (issue_path key @ ''/watchers?username='' @ url_quote ''/'' username) pat
                   OP_JIRA_UPDATE None None False) (\<lambda>_. sx_return ()))))"

definition unblock_issue :: "jira_env \<Rightarrow> string \<Rightarrow> string \<Rightarrow> string \<Rightarrow> unit http_sx" where
  "unblock_issue env key link_id pat =
     sx_bind (mutation_request env ''DELETE'' (''/issueLink/'' @ url_quote ''-'' link_id) pat OP_JIRA_UPDATE None None False)
       (\<lambda>_. sx_return ())"

definition close_gateway :: "bool \<Rightarrow> http_world \<Rightarrow> bool \<times> http_world" where
  "close_gateway owns_client w = (\<not> hw_closed w \<and> owns_client, w\<lparr>hw_closed := True\<rparr>)"

section \<open>Views and searches\<close>

text \<open>\<open>x if isinstance(x, Mapping) else {}\<close>, and \<open>str(m.get(k) or default)\<close>.\<close>

definition member_object :: "(string \<times> json) list \<Rightarrow> string \<Rightarrow> (string \<times> json) list" where
  "member_object ms k = (case map_of ms k of Some (JObj xs) \<Rightarrow> xs | _ \<Rightarrow> [])"

definition text_or :: "jira_env \<Rightarrow> (string \<times> json) list \<Rightarrow> string \<Rightarrow> string \<Rightarrow> string" where
  "text_or env ms k dflt = (case map_of ms k of None \<Rightarrow> dflt | Some v \<Rightarrow> if py_truthy v then py_str env v else dflt)"

definition truthy_or :: "(string \<times> json) list \<Rightarrow> string \<Rightarrow> string \<Rightarrow> json option" where
  "truthy_or ms k1 k2 = (case map_of ms k1 of
     Some v \<Rightarrow> if py_truthy v then Some v else map_of ms k2
   | None \<Rightarrow> map_of ms k2)"

definition sprint_text :: "jira_env \<Rightarrow> (string \<times> json) list \<Rightarrow> string" where
  "sprint_text env ms =
     (case truthy_or ms ''customfield_10007'' ''sprint'' of
        Some (JArr (x # xs)) \<Rightarrow>
          (let s = py_str env (last (x # xs)) in
           if contains ''name='' s then hd (split_on (CHR '','') (before_text ''name='' (after_text ''name='' s))) else s)
      | _ \<Rightarrow> [])"

definition flagged :: "(string \<times> json) list \<Rightarrow> bool" where
  "flagged ms =
     (case truthy_or ms ''customfield_10001'' ''flagged'' of
        Some (JArr xs) \<Rightarrow> list_ex (\<lambda>v. json_get v ''value'' = Some (JStr ''Impediment'')) xs
      | _ \<Rightarrow> False)"

definition blocker_of :: "jira_env \<Rightarrow> json \<Rightarrow> string list" where
  "blocker_of env link =
     (case link of
        JObj ms \<Rightarrow>
          (case map_of (member_object ms ''type'') ''inward'' of
             None \<Rightarrow> []
           | Some inward \<Rightarrow>
               if py_truthy inward \<and> contains ''block'' (py_lower (py_str env inward)) then
                 (case map_of (member_object ms ''inwardIssue'') ''key'' of
                    Some (JStr k) \<Rightarrow> if k = [] then [] else [k]
                  | _ \<Rightarrow> [])
               else [])
      | _ \<Rightarrow> [])"

definition blocker_keys :: "jira_env \<Rightarrow> (string \<times> json) list \<Rightarrow> string list" where
  "blocker_keys env ms = (case map_of ms ''issuelinks'' of Some (JArr links) \<Rightarrow> concat (map (blocker_of env) links) | _ \<Rightarrow> [])"

definition last_comment :: "jira_env \<Rightarrow> (string \<times> json) list \<Rightarrow> string" where
  "last_comment env ms =
     (case map_of (member_object ms ''comment'') ''comments'' of
        Some (JArr (c # cs)) \<Rightarrow>
          (case last (c # cs) of
             JObj m \<Rightarrow> text_or env (member_object m ''author'') ''displayName'' ''User'' @ '': '' @ take 50 (text_or env m ''body'' [])
           | _ \<Rightarrow> [])
      | _ \<Rightarrow> [])"

definition person_text :: "jira_env \<Rightarrow> (string \<times> json) list \<Rightarrow> string \<Rightarrow> string" where
  "person_text env ms k =
     (let p = member_object ms k in text_or env p ''displayName'' (text_or env p ''name'' []))"

definition parse_issue_view :: "jira_env \<Rightarrow> (string \<times> json) list \<Rightarrow> exn + jira_issue_view" where
  "parse_issue_view env data =
     (let text = (\<lambda>k. py_str env (case map_of data k of None \<Rightarrow> JStr [] | Some v \<Rightarrow> v));
          fs = member_object data ''fields'' in
      issue_view_post_init
        \<lparr>iv_issue_key = text ''key'', iv_issue_id = text ''id'', iv_summary = text_or env fs ''summary'' [],
         iv_status = text_or env (member_object fs ''status'') ''name'' ''Open'',
         iv_priority = text_or env (member_object fs ''priority'') ''name'' ''Medium'',
         iv_assignee = person_text env fs ''assignee'', iv_reporter = person_text env fs ''reporter'',
         iv_epic_key = (case map_of fs ''customfield_10008'' of Some (JStr e) \<Rightarrow> e | _ \<Rightarrow> []), iv_epic_name = [],
         iv_sprint_name = sprint_text env fs, iv_is_flagged = flagged fs, iv_blocker_keys = blocker_keys env fs,
         iv_description = text_or env fs ''description'' [], iv_issue_url = browse_url env (text ''key''),
         iv_last_comment_summary = last_comment env fs, iv_updated_at = text_or env fs ''updated'' [],
         iv_is_watching = (case map_of (member_object fs ''watches'') ''isWatching'' of None \<Rightarrow> False | Some v \<Rightarrow> py_truthy v)\<rparr>)"

definition get_issue_details :: "jira_env \<Rightarrow> string \<Rightarrow> string \<Rightarrow> jira_issue_view http_sx" where
  "get_issue_details env key pat =
     sx_bind (safe_request env ''GET'' (issue_path key) pat OP_JIRA_UPDATE [(''expand'', JStr ''renderedFields,names'')]) (\<lambda>r.
     sx_lift (rbind (json_object env r OP_JIRA_UPDATE [''id'', ''key'', ''fields'']) (parse_issue_view env)))"

text \<open>\<open>int(x)\<close> of a member.\<close>

fun py_int :: "jira_env \<Rightarrow> json \<Rightarrow> exn + int" where
  "py_int env (JInt i) = Inr i"
| "py_int env (JBool b) = Inr (if b then 1 else 0)"
| "py_int env (JStr s) = (case je_int env s of None \<Rightarrow> Inl (ValueError ''invalid literal for int()'') | Some i \<Rightarrow> Inr i)"
| "py_int env _ = Inl (TypeError ''int() argument must be a string or a number'')"

definition search_jql :: "jira_env \<Rightarrow> string \<Rightarrow> string \<Rightarrow> int \<Rightarrow> jira_search_result http_sx" where
  "search_jql env pat jql max_results =
     sx_bind (safe_request env ''GET'' ''/search'' pat OP_JIRA_UPDATE
                [(''jql'', JStr jql), (''maxResults'', JInt (min max_results 20)), (''expand'', JStr ''names'')]) (\<lambda>r.
     sx_lift (rbind (json_object env r OP_JIRA_UPDATE [''issues'']) (\<lambda>ms.
       (case map_of ms ''issues'' of
          Some (JArr items) \<Rightarrow>
            rbind (py_int env (case map_of ms ''total'' of None \<Rightarrow> JInt (int (length items)) | Some v \<Rightarrow> v)) (\<lambda>n.
            rbind (rmap_list (parse_issue_view env)
                     (concat (map (\<lambda>item. case item of
                        JObj m \<Rightarrow> if map_of m ''id'' \<noteq> None \<and> map_of m ''key'' \<noteq> None then [m] else []
                      | _ \<Rightarrow> []) items))) (\<lambda>views.
              Inr \<lparr>sr_total = n, sr_issues = views, sr_jql = jql\<rparr>))
        | _ \<Rightarrow> Inl (contract_error OP_JIRA_UPDATE)))))"

section \<open>Create metadata\<close>

definition jira_metadata_post_init :: "jira_metadata \<Rightarrow> exn + jira_metadata" where
  "jira_metadata_post_init m =
     (if jm_project_key m = [] \<or> jm_issue_types m = []
      then Inl (ValueError ''Jira metadata requires project and issue types'') else Inr m)"

definition names_in :: "json list \<Rightarrow> string list" where
  "names_in items = concat (map (\<lambda>i. case json_get i ''name'' of Some (JStr s) \<Rightarrow> [s] | _ \<Rightarrow> []) items)"

definition allowed_priorities :: "json \<Rightarrow> string list" where
  "allowed_priorities issue_type =
     (case json_get issue_type ''fields'' of
        Some (JObj fs) \<Rightarrow>
          (case map_of fs ''priority'' of
             Some (JObj p) \<Rightarrow> (case map_of p ''allowedValues'' of Some (JArr vs) \<Rightarrow> names_in vs | _ \<Rightarrow> [])
           | _ \<Rightarrow> [])
      | _ \<Rightarrow> [])"

fun metadata_of :: "string \<Rightarrow> json list \<Rightarrow> exn + jira_metadata" where
  "metadata_of project_key [] = Inl (contract_error OP_JIRA_CREATE)"
| "metadata_of project_key (p # ps) =
     (if json_get p ''key'' = Some (JStr project_key) then
        (case json_get p ''issuetypes'' of
           Some (JArr types) \<Rightarrow>
             if names_in types \<noteq> [] then
               jira_metadata_post_init
                 \<lparr>jm_project_key = project_key, jm_issue_types = names_in types,
                  jm_priorities = sort (remdups (concat (map allowed_priorities types))), jm_marker_supported = True\<rparr>
             else metadata_of project_key ps
         | _ \<Rightarrow> Inl (contract_error OP_JIRA_CREATE))
      else metadata_of project_key ps)"

definition parse_metadata :: "string \<Rightarrow> (string \<times> json) list \<Rightarrow> exn + jira_metadata" where
  "parse_metadata project_key ms =
     (case map_of ms ''projects'' of Some (JArr ps) \<Rightarrow> metadata_of project_key ps | _ \<Rightarrow> Inl (contract_error OP_JIRA_CREATE))"

text \<open>\<open>now\<close> and \<open>later\<close> are the monotonic clock before the request and after it.\<close>

definition refresh_metadata :: "jira_env \<Rightarrow> int \<Rightarrow> string \<Rightarrow> string \<Rightarrow> string \<times> string \<Rightarrow> jira_metadata http_sx" where
  "refresh_metadata env later project_key pat cache_key =
     sx_bind (safe_request env ''GET'' ''/issue/createmeta'' pat OP_JIRA_CREATE
                [(''projectKeys'', JStr project_key), (''expand'', JStr ''projects.issuetypes.fields'')]) (\<lambda>r.
     sx_bind (sx_lift (rbind (json_object env r OP_JIRA_CREATE [''projects'']) (parse_metadata project_key))) (\<lambda>m.
     sx_bind (sx_modify (\<lambda>w. w\<lparr>hw_cache := (cache_key, (later + je_metadata_ttl env, m)) #
                              filter (\<lambda>e. fst e \<noteq> cache_key) (hw_cache w)\<rparr>)) (\<lambda>_.
       sx_return m)))"

definition get_create_metadata :: "jira_env \<Rightarrow> int \<Rightarrow> int \<Rightarrow> string \<Rightarrow> string \<Rightarrow> jira_metadata http_sx" where
  "get_create_metadata env now later project_key pat = (\<lambda>w.
     (let cache_key = (project_key, take 16 (je_sha256 env pat)) in
      case map_of (hw_cache w) cache_key of
        Some (expiry, m) \<Rightarrow> if expiry > now then (Inr m, w) else refresh_metadata env later project_key pat cache_key w
      | None \<Rightarrow> refresh_metadata env later project_key pat cache_key w))"

section \<open>Canonical fields of the two modules\<close>

text \<open>The first required field of a template that is blank.\<close>

definition blank_field :: "jira_template \<Rightarrow> string option" where
  "blank_field t = map_option fst (find (\<lambda>(name, v). py_strip v = [])
     [(''project_key'', jt_project_key t), (''issue_type'', jt_issue_type t), (''summary'', jt_summary t),
      (''description'', jt_description t), (''priority'', jt_priority t)])"

definition when_filled :: "jira_template \<Rightarrow> exn + 'a \<Rightarrow> exn + 'a" where
  "when_filled t r = (case blank_field t of Some name \<Rightarrow> Inl (ValueError (name @ '' must not be empty'')) | None \<Rightarrow> r)"

lemma gateway_description_canonical: "gateway_description t = canonical_description t"
proof -
  have "(@) ''* '' = (\<lambda>c. ''* '' @ c)" by (rule refl)
  then show ?thesis by (simp add: gateway_description_def canonical_description_def fun_eq_iff[of "(@) _"] cong: map_cong)
qed

lemma canonical_issue_fields_filled: "canonical_issue_fields t = when_filled t (Inr (canonical_fields t))"
  by (simp add: canonical_issue_fields_def when_filled_def blank_field_def canonical_fields_def
      issue_fields_post_init_def gateway_description_canonical)

lemma rbind_when_filled: "rbind (when_filled t r) f = when_filled t (rbind r f)"
  by (cases "blank_field t") (simp_all add: when_filled_def)

text \<open>
  C17. The two modules that build Jira documents agree: on a template whose required fields are filled, the
  gateway's canonical fields, request hash and field diff are those of the submission service, so the hash
  a durable attempt stores is the hash of the document that is sent; on any other template each of the three is
  refused with the name of the first blank field.
\<close>

theorem canonical_fields_agree:
  "canonical_issue_fields t = when_filled t (Inr (canonical_fields t)) \<and>
   gateway_request_hash doc_hash t = when_filled t (Inr (canonical_request_hash doc_hash t)) \<and>
   diff_issue_fields t' t = when_filled t' (when_filled t (Inr (complete_template_diff t' t)))"
  by (simp_all add: gateway_request_hash_def diff_issue_fields_def canonical_issue_fields_filled rbind_when_filled
      canonical_request_hash_def canonical_template_document_def complete_template_diff_def)

section \<open>Retries of a safe request\<close>

text \<open>The answers after which a \<open>GET\<close> is sent again, and what the last answer means to the caller.\<close>

definition transient :: "jira_env \<Rightarrow> http_outcome \<Rightarrow> bool" where
  "transient env out \<longleftrightarrow> (case out of
     HttpTimeout \<Rightarrow> True
   | HttpTransportError \<Rightarrow> True
   | HttpRaised _ \<Rightarrow> False
   | HttpResponse r \<Rightarrow> (hr_status r = 429 \<or> hr_status r \<ge> 500) \<and> \<not> isl (bounded_error_fields env r))"

definition safe_outcome :: "jira_env \<Rightarrow> operation \<Rightarrow> http_outcome \<Rightarrow> exn + http_response" where
  "safe_outcome env op out = (case out of
     HttpTimeout \<Rightarrow> Inl (nonmutation_error op EK_TIMEOUT SC_TIMED_OUT)
   | HttpTransportError \<Rightarrow> Inl (nonmutation_error op EK_CONNECTIVITY SC_CONNECTIVITY_FAILED)
   | HttpRaised e \<Rightarrow> Inl (OtherError e)
   | HttpResponse r \<Rightarrow> if hr_status r < 400 then Inr r
       else Inl (case status_error env r op False of Inl e \<Rightarrow> e | Inr ge \<Rightarrow> gateway_exn ge))"

lemma status_error_safe:
  "status_error env r op False = rbind (bounded_error_fields env r) (\<lambda>fs.
     case status_kind (hr_status r) of (kind, code, retry) \<Rightarrow>
       Inr \<lparr>ge_classification = \<lparr>ec_kind = kind, ec_operation = op, ec_retryability = retry,
              ec_certainty = MC_NOT_APPLICABLE, ec_safe_code = code\<rparr>,
            ge_status_code = Some (hr_status r), ge_retry_after = parse_retry_after env (hr_retry_after r), ge_field_codes = fs\<rparr>)"
  by (simp add: status_error_def ErrorClassification_def split: prod.splits)

lemma status_kind_automatic:
  "status_kind st = (kind, code, retry) \<Longrightarrow> retry = RT_AUTOMATIC \<longleftrightarrow> st = 429 \<or> st \<ge> 500"
  by (auto simp: status_kind_def split: if_splits)

text \<open>One turn of the loop.\<close>

lemma safe_attempts_step:
  "safe_attempts env op rq n w =
     (let out = je_http env (length (hw_requests w)) rq; w' = w\<lparr>hw_requests := hw_requests w @ [rq]\<rparr> in
      if transient env out \<and> n > 0 then safe_attempts env op rq (n - 1) w' else (safe_outcome env op out, w'))"
proof (cases "je_http env (length (hw_requests w)) rq")
  case (HttpResponse r)
  obtain kind code retry where k: "status_kind (hr_status r) = (kind, code, retry)" by (cases "status_kind (hr_status r)") auto
  note auto_iff = status_kind_automatic[OF k]
  show ?thesis
  proof (cases "bounded_error_fields env r")
    case (Inl e)
    then show ?thesis using HttpResponse
      by (subst safe_attempts.simps) (simp add: send_def transient_def safe_outcome_def status_error_safe)
  next
    case (Inr fs)
    then show ?thesis using HttpResponse k auto_iff
      by (subst safe_attempts.simps)
         (cases n; auto simp: send_def transient_def safe_outcome_def status_error_safe)
  qed
qed (subst safe_attempts.simps, cases n, simp_all add: send_def transient_def safe_outcome_def)+

lemma safe_attempts_run:
  "\<exists>j \<le> n. safe_attempts env op rq n w =
       (safe_outcome env op (je_http env (length (hw_requests w) + j) rq),
        w\<lparr>hw_requests := hw_requests w @ replicate (Suc j) rq\<rparr>) \<and>
     (\<forall>i < j. transient env (je_http env (length (hw_requests w) + i) rq)) \<and>
     (j < n \<longrightarrow> \<not> transient env (je_http env (length (hw_requests w) + j) rq))"
proof (induction n arbitrary: w)
  case 0
  show ?case by (rule exI[of _ 0]) (subst safe_attempts_step, simp add: Let_def)
next
  case (Suc n)
  let ?out = "je_http env (length (hw_requests w)) rq" and ?w = "w\<lparr>hw_requests := hw_requests w @ [rq]\<rparr>"
  show ?case
  proof (cases "transient env ?out")
    case False
    then show ?thesis by (intro exI[of _ 0]) (subst safe_attempts_step, simp add: Let_def)
  next
    case True
    from Suc.IH[of ?w] obtain j where j: "j \<le> n"
      "safe_attempts env op rq n ?w = (safe_outcome env op (je_http env (length (hw_requests w) + Suc j) rq),
         w\<lparr>hw_requests := hw_requests w @ replicate (Suc (Suc j)) rq\<rparr>)"
      "\<forall>i < j. transient env (je_http env (length (hw_requests w) + Suc i) rq)"
      "j < n \<longrightarrow> \<not> transient env (je_http env (length (hw_requests w) + Suc j) rq)"
      by auto
    have "safe_attempts env op rq (Suc n) w = safe_attempts env op rq n ?w"
      using True by (subst safe_attempts_step) (simp add: Let_def)
    then show ?thesis using j True by (intro exI[of _ "Suc j"]) (auto simp: less_Suc_eq_0_disj)
  qed
qed

text \<open>
  C16. A read of Jira is retried within its bound and only when it may help: with a non-blank credential,
  \<open>_safe_request\<close> sends the same request between one and \<open>safe_retries + 1\<close> times, every answer before the
  last was a timeout, a transport failure, 429 or a server error, it stops early only at an answer that is none of
  these, the last answer alone decides what the caller sees, and nothing else of the gateway changes.
\<close>

theorem safe_request_retries:
  assumes "safe_request env m path pat op ps w = (r, w')" "py_strip pat \<noteq> []"
  shows "\<exists>rq j. j \<le> je_safe_retries env \<and> hq_method rq = m \<and> hq_path rq = je_base_url env @ ''/rest/api/2'' @ path \<and>
     w' = w\<lparr>hw_requests := hw_requests w @ replicate (Suc j) rq\<rparr> \<and>
     (\<forall>i < j. transient env (je_http env (length (hw_requests w) + i) rq)) \<and>
     (j < je_safe_retries env \<longrightarrow> \<not> transient env (je_http env (length (hw_requests w) + j) rq)) \<and>
     r = safe_outcome env op (je_http env (length (hw_requests w) + j) rq)"
proof -
  from assms(2) obtain hs where hs: "request_headers pat False = Inr hs" by (auto simp: request_headers_def Let_def)
  let ?rq = "\<lparr>hq_method = m, hq_path = je_base_url env @ ''/rest/api/2'' @ path, hq_headers = hs, hq_params = ps,
          hq_json = None, hq_file = None\<rparr>"
  have "(r, w') = safe_attempts env op ?rq (je_safe_retries env) w"
    using assms(1) hs by (simp add: safe_request_def sx_bind_def)
  with safe_attempts_run[of "je_safe_retries env" env op ?rq w] show ?thesis
    by (intro exI[of _ ?rq]) auto
qed

definition sample_jira_env :: "(nat \<Rightarrow> http_request \<Rightarrow> http_outcome) \<Rightarrow> jira_env" where
  "sample_jira_env answers =
     \<lparr>je_base_url = ''https://j'', je_safe_retries = 2, je_metadata_ttl = 60, je_http = answers,
      je_parse = (\<lambda>s. if s = ''created'' then Some (JObj [(''id'', JStr ''7''), (''key'', JStr ''BANK-7'')]) else None),
      je_repr = (\<lambda>_. []), je_float = (\<lambda>_. None), je_int = (\<lambda>_. None), je_sha256 = (\<lambda>s. s),
      je_blocked_text = ''Blocked by ''\<rparr>"

definition idle_world :: http_world where
  "idle_world = \<lparr>hw_requests = [], hw_cache = [], hw_closed = False\<rparr>"

text \<open>A timeout, then 503, then an answer.\<close>

theorem safe_request_retries_witness:
  "\<exists>r w'. safe_request (sample_jira_env (\<lambda>n _. if n = 0 then HttpTimeout else
       HttpResponse \<lparr>hr_status = (if n = 1 then 503 else 200), hr_retry_after = None, hr_content = []\<rparr>))
     ''GET'' ''/myself'' ''pat'' OP_AUTHENTICATION [] idle_world = (r, w') \<and> length (hw_requests w') = 3 \<and> \<not> isl r"
proof -
  let ?env = "sample_jira_env (\<lambda>n _. if n = 0 then HttpTimeout else
       HttpResponse \<lparr>hr_status = (if n = 1 then 503 else 200), hr_retry_after = None, hr_content = []\<rparr>)"
  obtain r w' where run: "safe_request ?env ''GET'' ''/myself'' ''pat'' OP_AUTHENTICATION [] idle_world = (r, w')" by fastforce
  have "py_strip ''pat'' \<noteq> []" by (simp add: py_strip_def is_space_def)
  from safe_request_retries [OF run this] obtain rq j where j: "j \<le> 2"
      "w' = idle_world\<lparr>hw_requests := hw_requests idle_world @ replicate (Suc j) rq\<rparr>"
      "j < 2 \<longrightarrow> \<not> transient ?env (je_http ?env (length (hw_requests idle_world) + j) rq)"
      "r = safe_outcome ?env OP_AUTHENTICATION (je_http ?env (length (hw_requests idle_world) + j) rq)"
    by (auto simp: sample_jira_env_def)
  have again: "transient ?env (je_http ?env 0 rq)" "transient ?env (je_http ?env 1 rq)"
    by (simp_all add: transient_def sample_jira_env_def bounded_error_fields_def)
  have stop: "j < 2 \<Longrightarrow> \<not> transient ?env (je_http ?env j rq)" using j(3) by (simp add: idle_world_def)
  have "j \<noteq> 0" using again(1) stop by (intro notI) simp
  moreover have "j \<noteq> 1" using again(2) stop by (intro notI) simp
  ultimately have "j \<noteq> 0" "j \<noteq> 1" .
  with j(1) have "j = 2" by simp
  with j run show ?thesis by (auto simp: safe_outcome_def sample_jira_env_def idle_world_def)
qed

end
