(* ===== verification/Jira_Submission.thy ===== *)
theory Jira_Submission
  imports Jira_Gateway
begin

text \<open>
  The submission service over the Jira adapter: the gateway of \<open>Submission\<close> is built from the operations of
  \<open>Jira_Gateway\<close>, and what the service records is related to what Jira answered.
\<close>

section \<open>The adapter as the gateway of the service\<close>

text \<open>
  \<open>answers n i\<close> answers the \<open>i\<close>-th request of the \<open>n\<close>-th call of the gateway; the adapter keeps nothing
  between these calls but the metadata cache, which they do not read.
\<close>

definition jira_submission_gateway ::
  "jira_env \<Rightarrow> (nat \<Rightarrow> nat \<Rightarrow> http_request \<Rightarrow> http_outcome) \<Rightarrow> int \<Rightarrow> submission_gateway" where
  "jira_submission_gateway env answers now =
     (let at = (\<lambda>n. env\<lparr>je_http := answers n\<rparr>) in
      \<lparr>g_create = (\<lambda>n tpl pat key. fst (create_issue (at n) now tpl pat key idle_world)),
       g_link = (\<lambda>n pat inward outward. fst (create_generic_issue_link (at n) pat inward outward ''Relates'' idle_world)),
       g_update = (\<lambda>n key tpl pat. fst (update_issue (at n) key tpl pat idle_world)),
       g_find = (\<lambda>n project h pat. fst (find_by_request_hash (at n) now project h pat idle_world)),
       g_get = (\<lambda>n key pat. map_sum id (\<lambda>i. Some (JObj (ri_fields i))) (fst (get_issue (at n) key pat idle_world)))\<rparr>)"

section \<open>What an answer to a create request means\<close>

definition sendable :: "jira_template \<Rightarrow> string \<Rightarrow> bool" where
  "sendable tpl pat \<longleftrightarrow> blank_field tpl = None \<and> py_strip pat \<noteq> []"

definition jira_create_request :: "jira_env \<Rightarrow> jira_template \<Rightarrow> string \<Rightarrow> string \<Rightarrow> http_request" where
  "jira_create_request env tpl pat key =
     \<lparr>hq_method = ''POST'', hq_path = je_base_url env @ ''/rest/api/2/issue'', hq_headers = projr (request_headers pat False),
      hq_params = [], hq_json = Some (create_payload (canonical_fields tpl) key), hq_file = None\<rparr>"

text \<open>The identifier and key of a readable creation answer, and an error body the adapter cannot read.\<close>

definition created_body :: "jira_env \<Rightarrow> http_response \<Rightarrow> (string \<times> string) option" where
  "created_body env r = (case je_parse env (hr_content r) of
     Some (JObj ms) \<Rightarrow>
       (case (map_of ms ''id'', map_of ms ''key'') of (Some (JStr i), Some (JStr k)) \<Rightarrow> Some (i, k) | _ \<Rightarrow> None)
   | _ \<Rightarrow> None)"

definition unreadable_error :: "jira_env \<Rightarrow> http_response \<Rightarrow> bool" where
  "unreadable_error env r = (case je_parse env (take MAX_ERROR_BODY_BYTES (hr_content r)) of
     Some (JObj ms) \<Rightarrow> map_of ms ''errors'' = None | _ \<Rightarrow> False)"

definition create_verdict :: "jira_env \<Rightarrow> jira_template \<Rightarrow> string \<Rightarrow> http_outcome \<Rightarrow> draft_state" where
  "create_verdict env tpl pat answer =
     (if \<not> sendable tpl pat then SUBMISSION_UNKNOWN
      else case answer of
        HttpResponse r \<Rightarrow>
          if hr_status r < 400 then
            (case created_body env r of None \<Rightarrow> SUBMISSION_RETRYABLE
             | Some (i, key) \<Rightarrow> if key = [] then SUBMISSION_UNKNOWN else CREATED)
          else if hr_status r < 500 \<and> \<not> unreadable_error env r then SUBMISSION_RETRYABLE
          else SUBMISSION_UNKNOWN
      | _ \<Rightarrow> SUBMISSION_UNKNOWN)"

lemma bounded_error_fields_Inl: "bounded_error_fields env r = Inl e \<longleftrightarrow> unreadable_error env r \<and> e = OtherError ''KeyError''"
  by (auto simp: bounded_error_fields_def unreadable_error_def split: option.splits json.splits)

lemma contract_error_eq:
  "contract_error op = DomainError (ClassifiedOperationError
     \<lparr>ec_kind = EK_PROVIDER_CONTRACT, ec_operation = op, ec_retryability = RT_NEVER,
      ec_certainty = MC_NOT_APPLICABLE, ec_safe_code = SC_PROVIDER_CONTRACT_FAILED\<rparr>)"
  by (simp add: contract_error_def raise_classified_def ErrorClassification_def gateway_exn_def)

lemma outcome_of_created:
  "fst (outcome_of (created_issue env now r)) = (case created_body env r of None \<Rightarrow> SUBMISSION_RETRYABLE
     | Some (i, key) \<Rightarrow> if key = [] then SUBMISSION_UNKNOWN else CREATED)"
proof -
  have url: "browse_url env key = [] \<Longrightarrow> False" for key by (simp add: browse_url_def)
  show ?thesis
    by (auto simp: created_issue_def json_object_def created_body_def contract_error_eq
        published_issue_post_init_def outcome_of_def dest: url split: option.splits json.splits)
qed

lemma status_error_mutating:
  "\<lbrakk>bounded_error_fields env r = Inr fs; status_kind (hr_status r) = (kind, code, retry); mutating_operation op\<rbrakk> \<Longrightarrow>
   status_error env r op True = Inr
     \<lparr>ge_classification =
        (if hr_status r \<ge> 500
         then \<lparr>ec_kind = kind, ec_operation = op, ec_retryability = RT_NEVER, ec_certainty = MC_UNKNOWN,
               ec_safe_code = SC_OUTCOME_UNKNOWN\<rparr>
         else \<lparr>ec_kind = kind, ec_operation = op, ec_retryability = (if retry \<noteq> RT_NEVER then RT_EXPLICIT else RT_NEVER),
               ec_certainty = MC_DEFINITELY_NOT_APPLIED, ec_safe_code = code\<rparr>),
      ge_status_code = Some (hr_status r), ge_retry_after = parse_retry_after env (hr_retry_after r), ge_field_codes = fs\<rparr>"
  by (simp add: status_error_def classify_unknown_mutation_outcome_def classify_definite_mutation_failure_def
      ErrorClassification_def)

lemma outcome_of_rejected:
  assumes "hr_status r \<ge> 400"
  shows "fst (outcome_of (rbind (mutation_outcome env OP_JIRA_CREATE (HttpResponse r)) (created_issue env now))) =
    (if hr_status r < 500 \<and> \<not> unreadable_error env r then SUBMISSION_RETRYABLE else SUBMISSION_UNKNOWN)"
proof (cases "bounded_error_fields env r")
  case (Inl e)
  then have "unreadable_error env r" "bounded_error_fields env r = Inl (OtherError ''KeyError'')"
    by (simp_all add: bounded_error_fields_Inl)
  with assms show ?thesis by (simp add: mutation_outcome_def status_error_def outcome_of_def)
next
  case (Inr fs)
  then have "\<not> unreadable_error env r" using bounded_error_fields_Inl[of env r "OtherError ''KeyError''"] by simp
  obtain kind code retry where k: "status_kind (hr_status r) = (kind, code, retry)"
    by (cases "status_kind (hr_status r)") auto
  have m: "mutation_outcome env OP_JIRA_CREATE (HttpResponse r) = Inl (gateway_exn (projr (status_error env r OP_JIRA_CREATE True)))"
    using assms by (simp add: mutation_outcome_def status_error_mutating[OF Inr k])
  have "ec_certainty (ge_classification (projr (status_error env r OP_JIRA_CREATE True))) =
      (if hr_status r \<ge> 500 then MC_UNKNOWN else MC_DEFINITELY_NOT_APPLIED)"
    by (simp add: status_error_mutating[OF Inr k])
  with \<open>\<not> unreadable_error env r\<close> show ?thesis
    unfolding m by (simp add: gateway_exn_def outcome_of_def del: not_less)
qed

lemma create_issue_sent:
  assumes "sendable tpl pat"
  shows "create_issue env now tpl pat key idle_world =
    (rbind (mutation_outcome env OP_JIRA_CREATE (je_http env 0 (jira_create_request env tpl pat key))) (created_issue env now),
     idle_world\<lparr>hw_requests := [jira_create_request env tpl pat key]\<rparr>)"
proof -
  from assms obtain hs where hs: "request_headers pat False = Inr hs"
    by (auto simp: sendable_def request_headers_def Let_def)
  from assms have cf: "canonical_issue_fields tpl = Inr (canonical_fields tpl)"
    by (simp add: sendable_def canonical_issue_fields_filled when_filled_def)
  let ?rq = "jira_create_request env tpl pat key"
  have rq: "?rq = \<lparr>hq_method = ''POST'', hq_path = je_base_url env @ ''/rest/api/2'' @ ''/issue'', hq_headers = hs,
     hq_params = [], hq_json = Some (create_payload (canonical_fields tpl) key), hq_file = None\<rparr>"
    by (simp add: jira_create_request_def hs)
  show ?thesis
    unfolding create_issue_def mutation_request_def cf hs
    by (cases "mutation_outcome env OP_JIRA_CREATE (je_http env 0 ?rq)")
       (simp_all add: sx_bind_def send_def idle_world_def rq[symmetric] del: append.simps)
qed

lemma create_issue_unsent:
  "\<not> sendable tpl pat \<Longrightarrow> \<exists>m. create_issue env now tpl pat key w = (Inl (ValueError m), w)"
  by (cases "blank_field tpl")
     (auto simp: sendable_def create_issue_def canonical_issue_fields_filled when_filled_def mutation_request_def
       request_headers_def Let_def sx_bind_def)

lemma create_verdict_outcome:
  "fst (outcome_of (fst (create_issue env now tpl pat key idle_world))) =
     create_verdict env tpl pat (je_http env 0 (jira_create_request env tpl pat key))"
proof (cases "sendable tpl pat")
  case False
  from create_issue_unsent[OF this] obtain m where "create_issue env now tpl pat key idle_world = (Inl (ValueError m), idle_world)"
    by blast
  with False show ?thesis by (simp add: create_verdict_def outcome_of_def)
next
  case True
  note sent = create_issue_sent[OF True]
  show ?thesis
  proof (cases "je_http env 0 (jira_create_request env tpl pat key)")
    case (HttpResponse r)
    show ?thesis
    proof (cases "hr_status r < 400")
      case True
      with HttpResponse \<open>sendable tpl pat\<close> show ?thesis
        by (simp add: sent mutation_outcome_def create_verdict_def outcome_of_created)
    next
      case False
      with HttpResponse \<open>sendable tpl pat\<close> show ?thesis
        by (simp add: sent create_verdict_def outcome_of_rejected)
    qed
  qed (use True in \<open>simp_all add: sent create_verdict_def outcome_of_def mutation_outcome_def raise_classified_def
         classify_unknown_mutation_outcome_def ErrorClassification_def gateway_exn_def\<close>)
qed

lemma pending_iff_unknown: "snd (snd (snd (outcome_of a))) \<longleftrightarrow> fst (outcome_of a) = SUBMISSION_UNKNOWN"
  by (auto simp: outcome_of_def split: sum.splits exn.splits)

lemma g_create_jira:
  "g_create (jira_submission_gateway env answers now) n tpl pat key =
     fst (create_issue (env\<lparr>je_http := answers n\<rparr>) now tpl pat key idle_world)"
  by (simp add: jira_submission_gateway_def Let_def)

lemma verdict_env [simp]:
  "create_verdict (env\<lparr>je_http := f\<rparr>) tpl pat a = create_verdict env tpl pat a"
  "jira_create_request (env\<lparr>je_http := f\<rparr>) tpl pat key = jira_create_request env tpl pat key"
proof -
  have "created_body (env\<lparr>je_http := f\<rparr>) = created_body env" "unreadable_error (env\<lparr>je_http := f\<rparr>) = unreadable_error env"
    by (simp_all add: created_body_def[abs_def] unreadable_error_def[abs_def])
  then show "create_verdict (env\<lparr>je_http := f\<rparr>) tpl pat a = create_verdict env tpl pat a"
    by (cases a) (simp_all add: create_verdict_def)
qed (simp add: jira_create_request_def)

lemma jira_submit_verdict:
  assumes "submit (jira_submission_gateway env answers at) dh aid now k pat rv w = (Inr res, w')"
  shows "\<exists>dr tpl. load_draft (rp_db (sw_repo w)) k = Inr (Some dr) \<and> d_template dr = Some tpl \<and>
    d_state (rs_draft res) = create_verdict env tpl pat (answers (length (sw_calls w)) 0
      (jira_create_request env tpl pat (canonical_request_hash dh tpl))) \<and>
    rs_pending res = (d_state (rs_draft res) = SUBMISSION_UNKNOWN) \<and>
    version (rp_db (sw_repo w')) k = Some (d_state (rs_draft res), d_revision dr + 2)"
proof -
  from submit_result[OF assms] obtain dr tpl where r: "load_draft (rp_db (sw_repo w)) k = Inr (Some dr)" "d_template dr = Some tpl"
    "(d_state (rs_draft res), sa_status (rs_attempt res), rs_issue res, rs_pending res) =
      outcome_of (g_create (jira_submission_gateway env answers at) (length (sw_calls w)) tpl pat (canonical_request_hash dh tpl))"
    "version (rp_db (sw_repo w')) k = Some (d_state (rs_draft res), d_revision dr + 2)" by blast
  let ?a = "fst (create_issue (env\<lparr>je_http := answers (length (sw_calls w))\<rparr>) at tpl pat (canonical_request_hash dh tpl) idle_world)"
  have o: "(d_state (rs_draft res), sa_status (rs_attempt res), rs_issue res, rs_pending res) = outcome_of ?a"
    using r(3) by (simp only: g_create_jira)
  have "fst (outcome_of ?a) = d_state (rs_draft res)" "snd (snd (snd (outcome_of ?a))) = rs_pending res"
    by (simp_all flip: o)
  with r(1,2,4) pending_iff_unknown[of ?a] create_verdict_outcome[of "env\<lparr>je_http := answers (length (sw_calls w))\<rparr>" at tpl pat] show ?thesis
    by auto
qed

text \<open>
  C14. What a submission through Jira leaves behind, by what Jira answered to its single create request: a template
  with a blank required field or a blank credential sends nothing and is recorded as SUBMISSION_UNKNOWN; a timeout, a
  transport failure, a server error or an error body without the member errors is SUBMISSION_UNKNOWN; any other
  status from 400 is SUBMISSION_RETRYABLE; a readable success is CREATED, and an unreadable one SUBMISSION_RETRYABLE.
  Reconciliation is pending exactly in SUBMISSION_UNKNOWN, and that state is stored.
\<close>

theorem jira_submit_outcome:
  assumes "submit (jira_submission_gateway env answers at) dh aid now k pat rv w = (Inr res, w')"
  shows "\<exists>dr tpl. load_draft (rp_db (sw_repo w)) k = Inr (Some dr) \<and> d_template dr = Some tpl \<and>
    d_state (rs_draft res) = create_verdict env tpl pat (answers (length (sw_calls w)) 0
      (jira_create_request env tpl pat (canonical_request_hash dh tpl))) \<and>
    rs_pending res = (d_state (rs_draft res) = SUBMISSION_UNKNOWN) \<and>
    version (rp_db (sw_repo w')) k = Some (d_state (rs_draft res), d_revision dr + 2)"
  using assms by (rule jira_submit_verdict)

section \<open>An accepted creation may be offered again\<close>

lemma accepted_unreadable:
  assumes "submit (jira_submission_gateway env answers at) dh aid now k pat rv w = (Inr res, w')"
    and "load_draft (rp_db (sw_repo w)) k = Inr (Some dr)" "d_template dr = Some tpl" "sendable tpl pat"
    and "answers (length (sw_calls w)) 0 (jira_create_request env tpl pat (canonical_request_hash dh tpl)) = HttpResponse r"
    and "hr_status r < 400" "created_body env r = None"
  shows "d_state (rs_draft res) = SUBMISSION_RETRYABLE \<and> \<not> rs_pending res \<and>
    version (rp_db (sw_repo w')) k = Some (SUBMISSION_RETRYABLE, d_revision dr + 2)"
  using jira_submit_verdict[OF assms(1)] assms(2-7) by (auto simp: create_verdict_def)

text \<open>A submission that returns a result dispatched the stored template, and left it stored.\<close>

lemma submit_sends_stored:
  assumes "submit gw dh aid now k pat rv w = (Inr res, w')" and "stored_template (rp_db (sw_repo w)) k = Some tpl"
  shows "stored_template (rp_db (sw_repo w')) k = Some tpl \<and>
    (\<exists>d more. sw_calls w' = sw_calls w @ (CreateIssue k tpl (canonical_request_hash dh tpl), d) # more)"
proof -
  from submit_result[OF assms(1)] obtain dr t d more where load: "load_draft (rp_db (sw_repo w)) k = Inr (Some dr)"
    and t: "d_template dr = Some t" "stored_template (rp_db (sw_repo w')) k = Some t"
    and calls: "sw_calls w' = sw_calls w @ (CreateIssue k t (canonical_request_hash dh t), d) # more" by blast
  from load_stored_template[OF load] t(1) assms(2) have "t = tpl" by simp
  with t calls show ?thesis by blast
qed

text \<open>
  C15. A creation that Jira accepted is created again: a submission's create request was answered with a success status, but with a
  body that has no identifier and key.  The draft is then stored as SUBMISSION_RETRYABLE, with no reconciliation pending, and the
  next submission that returns a result dispatches a second creation of the same template with the same idempotency hash.
\<close>

theorem accepted_create_may_be_repeated:
  assumes "submit (jira_submission_gateway env answers at) dh aid now k pat rv w = (Inr res, w1)"
    and "load_draft (rp_db (sw_repo w)) k = Inr (Some dr)" "d_template dr = Some tpl" "sendable tpl pat"
    and "answers (length (sw_calls w)) 0 (jira_create_request env tpl pat (canonical_request_hash dh tpl)) = HttpResponse r"
    and "hr_status r < 400" "created_body env r = None"
    and "submit gw dh aid2 now2 k pat2 rv2 w1 = (Inr res2, w2)"
  shows "version (rp_db (sw_repo w1)) k = Some (SUBMISSION_RETRYABLE, d_revision dr + 2) \<and> \<not> rs_pending res \<and>
    (\<exists>d1 d2 m1 m2. sw_calls w1 = sw_calls w @ (CreateIssue k tpl (canonical_request_hash dh tpl), d1) # m1 \<and>
       sw_calls w2 = sw_calls w1 @ (CreateIssue k tpl (canonical_request_hash dh tpl), d2) # m2)"
proof -
  have "stored_template (rp_db (sw_repo w)) k = Some tpl" using load_stored_template[OF assms(2)] assms(3) by simp
  from submit_sends_stored[OF assms(1) this] submit_sends_stored[OF assms(8)] accepted_unreadable[OF assms(1-7)] show ?thesis by blast
qed

text \<open>A run of the review sample against a Jira that answers 201 with an empty body.\<close>

definition accepting_jira :: submission_gateway where
  "accepting_jira = jira_submission_gateway (sample_jira_env (\<lambda>_ _. HttpTimeout))
     (\<lambda>_ _ _. HttpResponse \<lparr>hr_status = 201, hr_retry_after = None, hr_content = []\<rparr>) 60"

lemma sendable_sample: "sendable sample_template ''pat''"
  by (simp add: sendable_def blank_field_def sample_template_def py_strip_def is_space_def)

lemma accepting_create: "g_create accepting_jira n sample_template ''pat'' h = Inl (contract_error OP_JIRA_CREATE)"
  by (simp add: accepting_jira_def g_create_jira create_issue_sent[OF sendable_sample] mutation_outcome_def created_issue_def
      json_object_def sample_jira_env_def)

abbreviation "first_accepting_run \<equiv>
  submit accepting_jira (\<lambda>_. ''h'') ''a1'' 60 ''d1'' ''pat'' (Some 4) \<lparr>sw_repo = sample_review_repo, sw_calls = []\<rparr>"

text \<open>The repository after the first run.\<close>

definition sample_retryable_repo :: repo where
  "sample_retryable_repo = \<lparr>rp_db = empty_db\<lparr>db_workflows :=
       [(sample_row SUBMISSION_RETRYABLE 6)\<lparr>w_template_json := template_to_json (Some sample_template), w_updated_at := Aware 60,
          w_expires_at := None, w_last_error := Some ''provider_contract_failed''\<rparr>],
     db_attempts := [\<lparr>sa_attempt_id = ''a1'', sa_draft_id = ''d1'', sa_request_hash = ''h'', sa_attempt_number = 1,
          sa_started_at = Aware 60, sa_completed_at = Some (Aware 60), sa_status = ''failed'',
          sa_error_summary = Some ''provider_contract_failed''\<rparr>]\<rparr>, rp_initialized = True\<rparr>"

lemma first_run: "\<not> isl (fst first_accepting_run) \<and> sw_repo (snd first_accepting_run) = sample_retryable_repo"
    by (simp add: submit_def required_draft_def on_repo_def repo_get_by_id_def get_by_id_sync_def repo_run_def
        load_review_sample sx_bind_app)
       (simp add: submit_loaded_def move_draft_def on_repo_def repo_cas_def validate_safe_code_def cas_sync_def
        sx_bind_app repo_eval sample_review_repo_def sample_retryable_repo_def load_draft_def draft_post_init_def new_attempt_def
        repo_get_latest_attempt_def get_latest_attempt_sync_def submission_attempt_post_init_def
        canonical_request_hash_def repo_claim_attempt_def claim_attempt_sync_def attempt_claim_states_def
        attempt_values_def attempt_statuses_def sql_insert_def sa_check_def sa_clash_def opt_to_db_def
        accepting_create contract_error_eq record_create_def finish_failure_def domain_error_code_def close_attempt_def
        repo_update_attempt_def update_attempt_sync_def safe_code_char_def)

lemma load_retryable_sample:
  "load_draft (rp_db sample_retryable_repo) ''d1'' =
     Inr (Some \<lparr>d_draft_id = ''d1'', d_owner_id = 7, d_chat_id = 7, d_thread_id = None, d_state = SUBMISSION_RETRYABLE,
       d_revision = 6, d_template = Some sample_template, d_source_messages = [], d_attachments = [],
       d_created_at = Aware 10, d_updated_at = Aware 60, d_published_issue = None,
       d_last_error = Some ''provider_contract_failed''\<rparr>)"
  by (simp add: load_draft_def sample_retryable_repo_def sample_row_def empty_db_def find_workflow_def
      from_db_datetime_def rbind_eq_Inr valid_draft_def)

lemma second_run:
  "\<not> isl (fst (submit accepting_jira (\<lambda>_. ''h'') ''a2'' 70 ''d1'' ''pat'' None \<lparr>sw_repo = sample_retryable_repo, sw_calls = cs\<rparr>))"
    by (simp add: submit_def required_draft_def on_repo_def repo_get_by_id_def get_by_id_sync_def repo_run_def
        load_retryable_sample sx_bind_app)
       (simp add: submit_loaded_def move_draft_def on_repo_def repo_cas_def validate_safe_code_def cas_sync_def
        sx_bind_app repo_eval sample_retryable_repo_def load_draft_def draft_post_init_def new_attempt_def
        repo_get_latest_attempt_def get_latest_attempt_sync_def submission_attempt_post_init_def
        canonical_request_hash_def repo_claim_attempt_def claim_attempt_sync_def attempt_claim_states_def
        attempt_values_def attempt_statuses_def sql_insert_def sa_check_def sa_clash_def opt_to_db_def opt_from_db_def
        accepting_create contract_error_eq record_create_def finish_failure_def domain_error_code_def close_attempt_def
        repo_update_attempt_def update_attempt_sync_def safe_code_char_def)

lemma accepting_runs:
  "\<not> isl (fst first_accepting_run) \<and>
   \<not> isl (fst (submit accepting_jira (\<lambda>_. ''h'') ''a2'' 70 ''d1'' ''pat'' None (snd first_accepting_run)))"
proof -
  have "snd first_accepting_run = \<lparr>sw_repo = sample_retryable_repo, sw_calls = sw_calls (snd first_accepting_run)\<rparr>"
    using first_run by simp
  with first_run second_run show ?thesis by metis
qed

lemma accepting_run:
  "\<exists>res w'. submit accepting_jira (\<lambda>_. ''h'') ''a1'' 60 ''d1'' ''pat'' (Some 4)
       \<lparr>sw_repo = sample_review_repo, sw_calls = []\<rparr> = (Inr res, w')"
  using accepting_runs sum_result_Inr by blast

lemmas accepting_run_jira = accepting_run[unfolded accepting_jira_def]

theorem jira_submit_outcome_witness:
  "\<exists>res w'. submit accepting_jira (\<lambda>_. ''h'') ''a1'' 60 ''d1'' ''pat'' (Some 4)
       \<lparr>sw_repo = sample_review_repo, sw_calls = []\<rparr> = (Inr res, w') \<and> d_state (rs_draft res) = SUBMISSION_RETRYABLE"
proof -
  from accepting_run_jira obtain res w' where run:
    "submit (jira_submission_gateway (sample_jira_env (\<lambda>_ _. HttpTimeout))
       (\<lambda>_ _ _. HttpResponse \<lparr>hr_status = 201, hr_retry_after = None, hr_content = []\<rparr>) 60)
       (\<lambda>_. ''h'') ''a1'' 60 ''d1'' ''pat'' (Some 4) \<lparr>sw_repo = sample_review_repo, sw_calls = []\<rparr> = (Inr res, w')" by blast
  from jira_submit_outcome [OF run] load_review_sample sendable_sample
  have "d_state (rs_draft res) = SUBMISSION_RETRYABLE"
    by (auto simp: create_verdict_def created_body_def sample_jira_env_def)
  with run show ?thesis unfolding accepting_jira_def by blast
qed

theorem accepted_create_may_be_repeated_witness:
  "\<exists>res w1 res2 w2. submit accepting_jira (\<lambda>_. ''h'') ''a1'' 60 ''d1'' ''pat'' (Some 4)
       \<lparr>sw_repo = sample_review_repo, sw_calls = []\<rparr> = (Inr res, w1) \<and>
     submit accepting_jira (\<lambda>_. ''h'') ''a2'' 70 ''d1'' ''pat'' None w1 = (Inr res2, w2) \<and> creates ''d1'' w2 \<ge> 2"
proof -
  obtain res w1 where one: "first_accepting_run = (Inr res, w1)" using accepting_runs sum_result_Inr by blast
  then obtain res2 w2 where two: "submit accepting_jira (\<lambda>_. ''h'') ''a2'' 70 ''d1'' ''pat'' None w1 = (Inr res2, w2)"
    using accepting_runs sum_result_Inr by (metis snd_conv)
  obtain dr where dr: "load_draft (rp_db sample_review_repo) ''d1'' = Inr (Some dr)" "d_template dr = Some sample_template"
    by (simp add: load_review_sample)
  from accepted_create_may_be_repeated [OF one[unfolded accepting_jira_def] _ dr(2) sendable_sample _ _ _ two,
      of "\<lparr>hr_status = 201, hr_retry_after = None, hr_content = []\<rparr>"]
  have "creates ''d1'' w2 \<ge> 2"
    using dr by (auto simp: created_body_def sample_jira_env_def creates_def is_create_def)
  with one two show ?thesis by blast
qed

end
