(* ===== verification/Json_Text.thy ===== *)
theory Json_Text
  imports Prelude "HOL-Library.AList"
begin

text \<open>
  The text format of the standard library's \<open>json\<close> as the credential store uses it:
  \<open>dumps(document, indent=2, ensure_ascii=False)\<close> and \<open>loads\<close>, over the characters of the model (code
  points below 256) and without fractional numbers: a text with another character escape or number is refused.
  The lemma \<open>json_loads_dumps\<close> is the round trip.
\<close>

section \<open>Printing\<close>

definition hex_lower :: "nat \<Rightarrow> char" where
  "hex_lower n = (if n < 10 then char_of (48 + n) else char_of (87 + n))"

definition json_escape :: "char \<Rightarrow> string" where
  "json_escape c = (let n = (of_char c :: nat) in
     if n = 34 then [CHR 0x5C, CHR 0x22] else if n = 92 then [CHR 0x5C, CHR 0x5C]
     else if n = 8 then [CHR 0x5C, CHR ''b''] else if n = 12 then [CHR 0x5C, CHR ''f'']
     else if n = 10 then [CHR 0x5C, CHR ''n''] else if n = 13 then [CHR 0x5C, CHR ''r'']
     else if n = 9 then [CHR 0x5C, CHR ''t'']
     else if n < 32 then [CHR 0x5C, CHR ''u'', CHR ''0'', CHR ''0'', hex_lower (n div 16), hex_lower (n mod 16)]
     else [c])"

definition json_quote :: "string \<Rightarrow> string" where
  "json_quote s = CHR 0x22 # concat (map json_escape s) @ [CHR 0x22]"

definition json_newline :: "nat \<Rightarrow> string" where
  "json_newline l = CHR 0x0A # replicate (2 * l) (CHR '' '')"

fun dump :: "nat \<Rightarrow> json \<Rightarrow> string"
  and dump_items :: "nat \<Rightarrow> json list \<Rightarrow> string"
  and dump_members :: "nat \<Rightarrow> (string \<times> json) list \<Rightarrow> string" where
  "dump l JNull = ''null''"
| "dump l (JBool b) = (if b then ''true'' else ''false'')"
| "dump l (JInt i) = decimal_int i"
| "dump l (JStr s) = json_quote s"
| "dump l (JArr []) = ''[]''"
| "dump l (JArr (x # xs)) =
     CHR ''['' # json_newline (Suc l) @ dump_items (Suc l) (x # xs) @ json_newline l @ '']''"
| "dump l (JObj []) = ''{}''"
| "dump l (JObj (m # ms)) =
     CHR ''{'' # json_newline (Suc l) @ dump_members (Suc l) (m # ms) @ json_newline l @ ''}''"
| "dump_items l [] = []"
| "dump_items l [x] = dump l x"
| "dump_items l (x # y # xs) = dump l x @ CHR '','' # json_newline l @ dump_items l (y # xs)"
| "dump_members l [] = []"
| "dump_members l [(k, v)] = json_quote k @ '': '' @ dump l v"
| "dump_members l ((k, v) # m # ms) =
     json_quote k @ '': '' @ dump l v @ CHR '','' # json_newline l @ dump_members l (m # ms)"

definition json_dumps :: "json \<Rightarrow> string" where
  "json_dumps j = dump 0 j"

section \<open>Reading\<close>

definition json_space :: "char \<Rightarrow> bool" where
  "json_space c \<longleftrightarrow> c \<in> {CHR '' '', CHR 0x09, CHR 0x0A, CHR 0x0D}"

definition skip_space :: "string \<Rightarrow> string" where
  "skip_space s = dropWhile json_space s"

definition hex_value :: "char \<Rightarrow> nat option" where
  "hex_value c = (let n = (of_char c :: nat) in
     if 48 \<le> n \<and> n \<le> 57 then Some (n - 48) else if 97 \<le> n \<and> n \<le> 102 then Some (n - 87)
     else if 65 \<le> n \<and> n \<le> 70 then Some (n - 55) else None)"

definition hex4 :: "char \<Rightarrow> char \<Rightarrow> char \<Rightarrow> char \<Rightarrow> nat option" where
  "hex4 a b c d = (case (hex_value a, hex_value b, hex_value c, hex_value d) of
     (Some p, Some q, Some r, Some t) \<Rightarrow> Some (p * 4096 + q * 256 + r * 16 + t) | _ \<Rightarrow> None)"

definition unescape :: "char \<Rightarrow> char option" where
  "unescape c = (let n = (of_char c :: nat) in
     if n = 34 \<or> n = 92 \<or> n = 47 then Some c else if n = 98 then Some (CHR 0x08)
     else if n = 102 then Some (CHR 0x0C) else if n = 110 then Some (CHR 0x0A)
     else if n = 114 then Some (CHR 0x0D) else if n = 116 then Some (CHR 0x09) else None)"

abbreviation consed :: "char \<Rightarrow> (string \<times> string) option \<Rightarrow> (string \<times> string) option" where
  "consed c r \<equiv> map_option (apfst ((#) c)) r"

text \<open>The rest of a string literal after its opening quote.\<close>

fun read_string :: "string \<Rightarrow> (string \<times> string) option" where
  "read_string [] = None"
| "read_string (c # cs) =
     (if c = CHR 0x22 then Some ([], cs)
      else if c = CHR 0x5C then
        (case cs of
           [] \<Rightarrow> None
         | e # es \<Rightarrow>
             if e = CHR ''u'' then
               (case es of
                  p # q # r # t # rest \<Rightarrow>
                    (case hex4 p q r t of
                       Some n \<Rightarrow> if n < 256 then consed (char_of n) (read_string rest) else None
                     | None \<Rightarrow> None)
                | _ \<Rightarrow> None)
             else (case unescape e of Some d \<Rightarrow> consed d (read_string es) | None \<Rightarrow> None))
      else if (of_char c :: nat) < 32 then None
      else consed c (read_string cs))"

definition no_fraction :: "string \<Rightarrow> bool" where
  "no_fraction s = (case s of [] \<Rightarrow> True | c # _ \<Rightarrow> c \<notin> {CHR ''.'', CHR ''e'', CHR ''E''})"

definition read_nat :: "string \<Rightarrow> (nat \<times> string) option" where
  "read_nat s =
     (let ds = takeWhile is_digit s; rest = dropWhile is_digit s in
      if ds = [] then None
      else if hd ds = CHR ''0'' then (if no_fraction (tl s) then Some (0, tl s) else None)
      else if no_fraction rest then Some (digits_value ds, rest) else None)"

definition read_int :: "string \<Rightarrow> (int \<times> string) option" where
  "read_int s =
     (case s of
        [] \<Rightarrow> None
      | c # cs \<Rightarrow>
          if c = CHR ''-'' then map_option (\<lambda>(n, rest). (- int n, rest)) (read_nat cs)
          else map_option (\<lambda>(n, rest). (int n, rest)) (read_nat s))"

text \<open>A dictionary keeps the position of the first and the value of the last of its equal keys.\<close>

definition json_object_of :: "(string \<times> json) list \<Rightarrow> json" where
  "json_object_of ms = JObj (foldl (\<lambda>acc (k, v). AList.update k v acc) [] ms)"

fun read_value :: "nat \<Rightarrow> string \<Rightarrow> (json \<times> string) option"
  and read_items :: "nat \<Rightarrow> string \<Rightarrow> (json list \<times> string) option"
  and read_members :: "nat \<Rightarrow> string \<Rightarrow> ((string \<times> json) list \<times> string) option" where
  "read_value 0 s = None"
| "read_value (Suc n) s =
     (if starts_with ''null'' s then Some (JNull, drop 4 s)
      else if starts_with ''true'' s then Some (JBool True, drop 4 s)
      else if starts_with ''false'' s then Some (JBool False, drop 5 s)
      else case s of
        [] \<Rightarrow> None
      | c # cs \<Rightarrow>
          if c = CHR 0x22 then map_option (apfst JStr) (read_string cs)
          else if c = CHR ''['' then
            (if starts_with '']'' (skip_space cs) then Some (JArr [], tl (skip_space cs))
             else map_option (apfst JArr) (read_items n (skip_space cs)))
          else if c = CHR ''{'' then
            (if starts_with ''}'' (skip_space cs) then Some (JObj [], tl (skip_space cs))
             else map_option (apfst json_object_of) (read_members n (skip_space cs)))
          else map_option (apfst JInt) (read_int s))"
| "read_items 0 s = None"
| "read_items (Suc n) s =
     (case read_value n s of
        None \<Rightarrow> None
      | Some (v, rest) \<Rightarrow>
          (case skip_space rest of
             c # cs \<Rightarrow>
               if c = CHR '']'' then Some ([v], cs)
               else if c = CHR '','' then map_option (apfst ((#) v)) (read_items n (skip_space cs))
               else None
           | [] \<Rightarrow> None))"
| "read_members 0 s = None"
| "read_members (Suc n) s =
     (case s of
        q # s1 \<Rightarrow>
          if q \<noteq> CHR 0x22 then None
          else (case read_string s1 of
             None \<Rightarrow> None
           | Some (k, s2) \<Rightarrow>
               (case skip_space s2 of
                  d # s3 \<Rightarrow>
                    if d \<noteq> CHR '':'' then None
                    else (case read_value n (skip_space s3) of
                       None \<Rightarrow> None
                     | Some (v, rest) \<Rightarrow>
                         (case skip_space rest of
                            c # cs \<Rightarrow>
                              if c = CHR ''}'' then Some ([(k, v)], cs)
                              else if c = CHR '','' then map_option (apfst ((#) (k, v))) (read_members n (skip_space cs))
                              else None
                          | [] \<Rightarrow> None))
                | [] \<Rightarrow> None))
      | [] \<Rightarrow> None)"

declare read_value.simps [simp del] read_items.simps [simp del] read_members.simps [simp del]

definition json_loads :: "string \<Rightarrow> json option" where
  "json_loads s =
     (case read_value (Suc (length s)) (skip_space s) of
        Some (v, rest) \<Rightarrow> if skip_space rest = [] then Some v else None
      | None \<Rightarrow> None)"

section \<open>Round trip\<close>

text \<open>A string literal.\<close>

lemma hex_value_lower: "n < 16 \<Longrightarrow> hex_value (hex_lower n) = Some n"
  by (auto simp: hex_value_def hex_lower_def Let_def take_bit_eq_mod of_char_of)

lemma special_chars:
  fixes c :: char
  shows "(of_char c :: nat) = 34 \<Longrightarrow> c = CHR 0x22" "(of_char c :: nat) = 92 \<Longrightarrow> c = CHR 0x5C"
    "(of_char c :: nat) = 8 \<Longrightarrow> c = CHR 0x08" "(of_char c :: nat) = 12 \<Longrightarrow> c = CHR 0x0C"
    "(of_char c :: nat) = 10 \<Longrightarrow> c = CHR 0x0A" "(of_char c :: nat) = 13 \<Longrightarrow> c = CHR 0x0D"
    "(of_char c :: nat) = 9 \<Longrightarrow> c = CHR 0x09"
  by (rule of_char_eqI[where ?'a = nat], simp)+

lemma read_string_escape: "read_string (json_escape c @ t) = consed c (read_string t)"
proof -
  let ?n = "of_char c :: nat"
  have bound: "?n < 256" by simp
  consider "?n \<in> {34, 92, 8, 12, 10, 13, 9}" | "?n < 32" "?n \<notin> {8, 12, 10, 13, 9}" | "?n \<ge> 32" "?n \<noteq> 34" "?n \<noteq> 92"
    by force
  then show ?thesis
  proof cases
    case 1
    then consider "c = CHR 0x22" | "c = CHR 0x5C" | "c = CHR 0x08" | "c = CHR 0x0C" | "c = CHR 0x0A" | "c = CHR 0x0D" | "c = CHR 0x09"
      using special_chars[of c] by (elim insertE emptyE) blast+
    then show ?thesis by cases (simp_all add: json_escape_def unescape_def)
  next
    case 2
    then have e: "json_escape c = [CHR 0x5C, CHR ''u'', CHR ''0'', CHR ''0'', hex_lower (?n div 16), hex_lower (?n mod 16)]"
      by (simp add: json_escape_def Let_def)
    have "hex4 (CHR ''0'') (CHR ''0'') (hex_lower (?n div 16)) (hex_lower (?n mod 16)) = Some ?n"
      using 2 by (simp add: hex4_def hex_value_lower) (simp add: hex_value_def)
    then show ?thesis using bound by (simp add: e)
  next
    case 3
    then have e: "json_escape c = [c]" by (simp add: json_escape_def)
    from 3 have "c \<noteq> CHR 0x22" "c \<noteq> CHR 0x5C" by auto
    with 3 show ?thesis by (simp add: e)
  qed
qed

lemma read_string_quoted: "read_string (concat (map json_escape s) @ CHR 0x22 # t) = Some (s, t)"
  by (induction s) (simp_all add: read_string_escape)

text \<open>A whole number.\<close>

definition ends_number :: "string \<Rightarrow> bool" where
  "ends_number t \<longleftrightarrow> (case t of [] \<Rightarrow> True | c # _ \<Rightarrow> \<not> is_digit c) \<and> no_fraction t"

lemma zero_char: "(char_of (48 :: nat) :: char) = CHR ''0''"
  by (rule of_char_eqI[where ?'a = nat]) simp

lemma hd_decimal: "hd (decimal n) = CHR ''0'' \<longleftrightarrow> n = 0"
proof (induction n rule: decimal.induct)
  case (1 n)
  show ?case
  proof (cases "n < 10")
    case True
    with digit_char_inject[of n 0] show ?thesis by (auto simp: decimal.simps[of n] zero_char)
  next
    case False
    then show ?thesis using 1 by (simp add: decimal.simps[of n] hd_append)
  qed
qed

lemma read_nat_decimal: "ends_number t \<Longrightarrow> read_nat (decimal n @ t) = Some (n, t)"
proof -
  assume t: "ends_number t"
  have tw: "takeWhile is_digit (decimal n @ t) = decimal n" "dropWhile is_digit (decimal n @ t) = t"
    using t decimal_digits[of _ n] by (cases t; simp add: ends_number_def takeWhile_append dropWhile_append)+
  have "n = 0 \<Longrightarrow> decimal n = ''0''" by (simp add: decimal.simps[of 0] zero_char)
  moreover have "is_digit (CHR ''0'')" by (simp add: is_digit_def)
  ultimately show ?thesis using t tw hd_decimal[of n] digits_value_decimal[of n]
    by (cases "n = 0") (auto simp: read_nat_def ends_number_def Let_def)
qed

lemma read_int_decimal: "ends_number t \<Longrightarrow> read_int (decimal_int i @ t) = Some (i, t)"
proof (cases "i < 0")
  case True
  moreover assume "ends_number t"
  ultimately show ?thesis by (simp add: read_int_def decimal_int_def read_nat_decimal)
next
  case False
  assume t: "ends_number t"
  obtain c cs where d: "decimal (nat i) = c # cs" by (cases "decimal (nat i)") simp_all
  then have "is_digit c" using decimal_digits[of c "nat i"] by simp
  then have "c \<noteq> CHR ''-''" by (auto simp: is_digit_def)
  then show ?thesis using False read_nat_decimal[OF t, of "nat i"] by (simp add: read_int_def decimal_int_def d)
qed

text \<open>A document whose objects have distinct keys.\<close>

fun json_ok :: "json \<Rightarrow> bool" where
  "json_ok (JArr xs) = (\<forall>x \<in> set xs. json_ok x)"
| "json_ok (JObj ms) = (distinct (map fst ms) \<and> (\<forall>v \<in> set (map snd ms). json_ok v))"
| "json_ok _ = True"

lemma json_object_of_distinct: "distinct (map fst ms) \<Longrightarrow> json_object_of ms = JObj ms"
proof -
  have "distinct (map fst (acc @ ms)) \<Longrightarrow> foldl (\<lambda>acc (k, v). AList.update k v acc) acc ms = acc @ ms" for acc
  proof (induction ms arbitrary: acc)
    case (Cons m ms)
    obtain k v where m: "m = (k, v)" by (cases m)
    have "k \<notin> fst ` set acc \<Longrightarrow> AList.update k v acc = acc @ [(k, v)]" by (induction acc) auto
    with Cons m show ?case by simp
  qed simp
  from this[of "[]"] show "distinct (map fst ms) \<Longrightarrow> json_object_of ms = JObj ms" by (simp add: json_object_of_def)
qed

lemma skip_newline [simp]: "skip_space (json_newline l @ s) = skip_space s"
proof -
  have "json_space c" if "c \<in> set (json_newline l)" for c
    using that by (auto simp: json_newline_def json_space_def)
  then show ?thesis by (simp add: skip_space_def dropWhile_append2)
qed

definition value_start :: "string \<Rightarrow> bool" where
  "value_start s \<longleftrightarrow> (\<exists>c cs. s = c # cs \<and> \<not> json_space c \<and> c \<noteq> CHR '']'' \<and> c \<noteq> CHR ''}'')"

lemma value_start_append: "value_start s \<Longrightarrow> value_start (s @ t)"
  by (auto simp: value_start_def)

lemma skip_value_start: "value_start s \<Longrightarrow> skip_space s = s"
  by (auto simp: value_start_def skip_space_def)

lemma value_start_digit: "is_digit c \<Longrightarrow> value_start (c # cs)"
  by (auto simp: value_start_def is_digit_def json_space_def)

lemma value_start_int: "value_start (decimal_int i)"
proof -
  have "value_start (decimal n)" for n
    using decimal_digits[of "hd (decimal n)" n] value_start_digit[of "hd (decimal n)" "tl (decimal n)"] by (cases "decimal n") simp_all
  then show ?thesis by (auto simp: decimal_int_def) (simp add: value_start_def json_space_def)
qed

lemma value_start_dump: "value_start (dump l j)"
  by (cases "(l, j)" rule: dump.cases) (auto simp: value_start_int, simp_all add: value_start_def json_space_def json_quote_def)

lemma value_start_parts: "xs \<noteq> [] \<Longrightarrow> value_start (dump_items l xs)" "ms \<noteq> [] \<Longrightarrow> value_start (dump_members l ms)"
proof -
  show "xs \<noteq> [] \<Longrightarrow> value_start (dump_items l xs)"
    by (cases "(l, xs)" rule: dump_items.cases) (simp_all add: value_start_append value_start_dump)
  show "ms \<noteq> [] \<Longrightarrow> value_start (dump_members l ms)"
    by (cases "(l, ms)" rule: dump_members.cases) (simp_all add: value_start_def json_space_def json_quote_def)
qed

lemma ends_number_sep: "ends_number (CHR '','' # t)" "ends_number (json_newline l @ t)" "ends_number []"
  by (simp_all add: ends_number_def no_fraction_def is_digit_def json_newline_def)

lemma keyword_starts [simp]:
  "\<not> starts_with (c # w) []" "starts_with (c # w) (d # s) \<longleftrightarrow> d = c \<and> starts_with w s" "starts_with [] s"
  by (auto simp: starts_with_def)

lemma read_value_int:
  assumes "ends_number t"
  shows "read_value (Suc n) (decimal_int i @ t) = Some (JInt i, t)"
proof -
  obtain c cs where d: "decimal_int i = c # cs" using value_start_int[of i] by (auto simp: value_start_def)
  have "is_digit c \<or> c = CHR ''-''"
    using d decimal_digits[of c "nat i"] by (auto simp: decimal_int_def split: if_splits intro: list.set_intros)
  then have "c \<notin> {CHR ''n'', CHR ''t'', CHR ''f'', CHR 0x22, CHR ''['', CHR ''{''}"
    by (auto simp: is_digit_def)
  with read_int_decimal[OF assms, of i] show ?thesis by (simp add: read_value.simps d)
qed

lemma read_value_array:
  assumes "read_items n (s @ json_newline l @ CHR '']'' # t) = Some (xs, t)" "value_start s"
  shows "read_value (Suc n) (CHR ''['' # json_newline k @ s @ json_newline l @ CHR '']'' # t) = Some (JArr xs, t)"
proof -
  have v: "value_start (s @ json_newline l @ CHR '']'' # t)" using assms(2) by (rule value_start_append)
  then have "\<not> starts_with '']'' (s @ json_newline l @ CHR '']'' # t)" by (auto simp: value_start_def)
  with assms(1) skip_value_start[OF v] show ?thesis by (simp add: read_value.simps)
qed

lemma read_value_object:
  assumes "read_members n (s @ json_newline l @ CHR ''}'' # t) = Some (ms, t)" "value_start s" "distinct (map fst ms)"
  shows "read_value (Suc n) (CHR ''{'' # json_newline k @ s @ json_newline l @ CHR ''}'' # t) = Some (JObj ms, t)"
proof -
  have v: "value_start (s @ json_newline l @ CHR ''}'' # t)" using assms(2) by (rule value_start_append)
  then have "\<not> starts_with ''}'' (s @ json_newline l @ CHR ''}'' # t)" by (auto simp: value_start_def)
  with assms(1,3) skip_value_start[OF v] show ?thesis by (simp add: read_value.simps json_object_of_distinct)
qed

lemma skip_close: "skip_space (CHR '']'' # t) = CHR '']'' # t" "skip_space (CHR ''}'' # t) = CHR ''}'' # t"
  "skip_space (CHR '','' # t) = CHR '','' # t" "skip_space (CHR '':'' # t) = CHR '':'' # t"
  "skip_space (CHR '' '' # t) = skip_space t"
  by (simp_all add: skip_space_def json_space_def)

lemma read_member:
  assumes "read_value n (dump l v @ t) = Some (v, t)"
  shows "read_members (Suc n) (json_quote k @ '': '' @ dump l v @ t) =
    (case skip_space t of
       c # cs \<Rightarrow> if c = CHR ''}'' then Some ([(k, v)], cs)
         else if c = CHR '','' then map_option (apfst ((#) (k, v))) (read_members n (skip_space cs)) else None
     | [] \<Rightarrow> None)"
proof -
  have v: "skip_space (dump l v @ t) = dump l v @ t"
    by (rule skip_value_start) (simp add: value_start_append value_start_dump)
  show ?thesis
    by (subst read_members.simps)
       (simp add: json_quote_def read_string_quoted skip_close v assms del: append_Cons add: append_Cons)
qed

lemma read_dump:
  "json_ok j \<Longrightarrow> ends_number t \<Longrightarrow> length (dump l j) \<le> n \<Longrightarrow> read_value n (dump l j @ t) = Some (j, t)"
  "xs \<noteq> [] \<Longrightarrow> (\<forall>x \<in> set xs. json_ok x) \<Longrightarrow> length (dump_items l xs) < n \<Longrightarrow>
     read_items n (dump_items l xs @ json_newline l' @ CHR '']'' # t) = Some (xs, t)"
  "ms \<noteq> [] \<Longrightarrow> (\<forall>v \<in> set (map snd ms). json_ok v) \<Longrightarrow> length (dump_members l ms) < n \<Longrightarrow>
     read_members n (dump_members l ms @ json_newline l' @ CHR ''}'' # t) = Some (ms, t)"
proof (induction l j and l xs and l ms arbitrary: n t and n t l' and n t l' rule: dump_dump_items_dump_members.induct)
  case (1 l)
  then show ?case by (cases n) (simp_all add: read_value.simps)
next
  case (2 l b)
  then show ?case by (cases n; cases b) (simp_all add: read_value.simps)
next
  case (3 l i)
  then show ?case using value_start_int[of i] by (cases n) (auto simp: read_value_int value_start_def)
next
  case (4 l s)
  then show ?case by (cases n) (simp_all add: read_value.simps json_quote_def read_string_quoted)
next
  case (5 l)
  then show ?case by (cases n) (simp_all add: read_value.simps skip_close)
next
  case (6 l x xs)
  then obtain m where n: "n = Suc m" "length (dump_items (Suc l) (x # xs)) < m" by (cases n) (auto simp: json_newline_def)
  have "read_items m (dump_items (Suc l) (x # xs) @ json_newline l @ CHR '']'' # t) = Some (x # xs, t)"
    using 6 n by simp
  from read_value_array[OF this value_start_parts(1)] n show ?case by simp
next
  case (7 l)
  then show ?case by (cases n) (simp_all add: read_value.simps skip_close)
next
  case (8 l m ms)
  then obtain k where n: "n = Suc k" "length (dump_members (Suc l) (m # ms)) < k" by (cases n) (auto simp: json_newline_def)
  have "read_members k (dump_members (Suc l) (m # ms) @ json_newline l @ CHR ''}'' # t) = Some (m # ms, t)"
    using 8 n by simp
  from read_value_object[OF this value_start_parts(2)] n 8(2) show ?case by simp
next
  case (9 l)
  then show ?case by simp
next
  case (10 l x)
  then obtain m where n: "n = Suc m" by (cases n) auto
  have "read_value m (dump l x @ json_newline l' @ CHR '']'' # t) = Some (x, json_newline l' @ CHR '']'' # t)"
    using 10 n by (simp add: ends_number_sep)
  then show ?case by (simp add: n read_items.simps skip_close)
next
  case (11 l x y zs)
  then obtain m where n: "n = Suc m" by (cases n) auto
  let ?t = "json_newline l @ dump_items l (y # zs) @ json_newline l' @ CHR '']'' # t"
  have "read_value m (dump l x @ CHR '','' # ?t) = Some (x, CHR '','' # ?t)"
    using 11 n by (simp add: ends_number_sep)
  moreover have "skip_space (dump_items l (y # zs) @ json_newline l' @ CHR '']'' # t) = dump_items l (y # zs) @ json_newline l' @ CHR '']'' # t"
    by (intro skip_value_start value_start_append value_start_parts) simp
  moreover have "read_items m (dump_items l (y # zs) @ json_newline l' @ CHR '']'' # t) = Some (y # zs, t)"
    using 11 n by simp
  ultimately show ?case by (simp add: n read_items.simps skip_close)
next
  case (12 l)
  then show ?case by simp
next
  case (13 l k v)
  then obtain m where n: "n = Suc m" by (cases n) auto
  have "read_value m (dump l v @ json_newline l' @ CHR ''}'' # t) = Some (v, json_newline l' @ CHR ''}'' # t)"
    using 13 n by (simp add: ends_number_sep)
  from read_member[OF this] show ?case by (simp add: n skip_close)
next
  case (14 l k v m ms)
  then obtain i where n: "n = Suc i" by (cases n) auto
  let ?t = "json_newline l @ dump_members l (m # ms) @ json_newline l' @ CHR ''}'' # t"
  have "read_value i (dump l v @ CHR '','' # ?t) = Some (v, CHR '','' # ?t)"
    using 14 n by (simp add: ends_number_sep)
  moreover have "skip_space (dump_members l (m # ms) @ json_newline l' @ CHR ''}'' # t) = dump_members l (m # ms) @ json_newline l' @ CHR ''}'' # t"
    by (intro skip_value_start value_start_append value_start_parts) simp
  moreover have "read_members i (dump_members l (m # ms) @ json_newline l' @ CHR ''}'' # t) = Some (m # ms, t)"
    using 14 n by simp
  ultimately show ?case using read_member[of i l v "CHR '','' # ?t" k] by (simp add: n skip_close)
qed

text \<open>Whitespace may follow the document.\<close>

lemma json_loads_dumps:
  assumes "json_ok j" "\<And>c. c \<in> set t \<Longrightarrow> json_space c"
  shows "json_loads (json_dumps j @ t) = Some j"
proof -
  have "ends_number t"
    using assms(2)[of "hd t"] by (cases t) (auto simp: ends_number_def no_fraction_def json_space_def is_digit_def)
  from read_dump(1)[OF assms(1) this, of 0 "Suc (length (json_dumps j @ t))"]
  have "read_value (Suc (length (json_dumps j @ t))) (json_dumps j @ t) = Some (j, t)" by (simp add: json_dumps_def)
  moreover have "skip_space (json_dumps j @ t) = json_dumps j @ t"
    unfolding json_dumps_def by (intro skip_value_start value_start_append value_start_dump)
  moreover have "skip_space t = []" using assms(2) by (simp add: skip_space_def dropWhile_eq_Nil_conv)
  ultimately show ?thesis by (simp add: json_loads_def)
qed

end
