(* ===== verification/File_Store.thy ===== *)
theory File_Store
  imports Policy
begin

text \<open>
  The file system the two disk-backed stores rely on (\<open>user_store.py\<close>, \<open>rules.py\<close>): what stands at the named
  paths, an operation counter against which faults are placed, and every content the disk has had, which
  is what a crash can leave.  Temporary files have fresh names that nothing reads, so only their
  renaming changes the disk.  The locale \<open>crash_safe\<close> states what the atomic replacement of a store
  gives its users over a run of operations.
\<close>

section \<open>Nodes, disks and faults\<close>

text \<open>A regular file that decodes as UTF-8, one that does not (with its size), and what is not a regular file.\<close>

datatype node = TextFile string | BinaryFile nat | Directory | OtherNode

type_synonym nodes = "string \<Rightarrow> node option"

record disk =
  dk_nodes :: nodes
  dk_stamps :: "string \<Rightarrow> nat"
  dk_ops :: nat
  dk_history :: "nodes list"

type_synonym 'a disk_sx = "(disk, exn, 'a) sx"

text \<open>\<open>fails n\<close>: the \<open>n\<close>-th operation on the file system raises \<open>OSError\<close> and does nothing.\<close>

type_synonym faults = "nat \<Rightarrow> bool"

definition disk_io :: "faults \<Rightarrow> unit disk_sx" where
  "disk_io fails d = (if fails (dk_ops d) then Inl OSError else Inr (), d\<lparr>dk_ops := Suc (dk_ops d)\<rparr>)"

definition disk_change :: "string list \<Rightarrow> (nodes \<Rightarrow> nodes) \<Rightarrow> disk \<Rightarrow> disk" where
  "disk_change paths f d =
     d\<lparr>dk_nodes := f (dk_nodes d), dk_history := dk_history d @ [f (dk_nodes d)],
       dk_stamps := (\<lambda>p. if p \<in> set paths then Suc (dk_stamps d p) else dk_stamps d p)\<rparr>"

definition disk_put :: "string \<Rightarrow> node \<Rightarrow> disk \<Rightarrow> disk" where
  "disk_put p n = disk_change [p] (\<lambda>ns. ns(p \<mapsto> n))"

definition text_bytes :: "string \<Rightarrow> nat" where
  "text_bytes s = length (utf8_bytes s)"

definition node_size :: "node \<Rightarrow> nat" where
  "node_size n = (case n of TextFile s \<Rightarrow> text_bytes s | BinaryFile k \<Rightarrow> k | _ \<Rightarrow> 0)"

definition is_file :: "node option \<Rightarrow> bool" where
  "is_file n = (case n of Some (TextFile _) \<Rightarrow> True | Some (BinaryFile _) \<Rightarrow> True | _ \<Rightarrow> False)"

text \<open>A temporary file is created and written, then \<open>os.replace\<close> puts it at the path; a directory refuses it.\<close>

definition replace_file :: "faults \<Rightarrow> string \<Rightarrow> node \<Rightarrow> unit disk_sx" where
  "replace_file fails p n =
     sx_bind (disk_io fails) (\<lambda>_.
     sx_bind (disk_io fails) (\<lambda>_.
     sx_bind (sx_get dk_nodes) (\<lambda>ns.
       if ns p = Some Directory then sx_raise OSError else sx_modify (disk_put p n))))"

text \<open>\<open>try: m  except handled: h\<close>.\<close>

definition sx_try :: "('s, 'e, 'a) sx \<Rightarrow> ('e \<Rightarrow> bool) \<Rightarrow> ('e \<Rightarrow> ('s, 'e, 'a) sx) \<Rightarrow> ('s, 'e, 'a) sx" where
  "sx_try m handled h = (\<lambda>s. case m s of
     (Inl e, s') \<Rightarrow> if handled e then h e s' else (Inl e, s')
   | (Inr x, s') \<Rightarrow> (Inr x, s'))"

lemma keeps_try [inv_intros]:
  assumes "sx_keeps P m" and "\<And>e. handled e \<Longrightarrow> sx_keeps P (h e)"
  shows "sx_keeps P (sx_try m handled h)"
proof -
  have "P (snd (sx_try m handled h s))" if "P s" for s
    using sx_keepsD[OF assms(1) that] sx_keepsD[OF assms(2)] by (cases "m s") (auto simp: sx_try_def split: sum.splits)
  then show ?thesis by (simp add: sx_keeps_def)
qed

section \<open>Facts\<close>

lemma disk_io_cases:
  obtains "disk_io fails d = (Inr (), d\<lparr>dk_ops := Suc (dk_ops d)\<rparr>)"
    | "disk_io fails d = (Inl OSError, d\<lparr>dk_ops := Suc (dk_ops d)\<rparr>)"
  by (cases "fails (dk_ops d)") (simp_all add: disk_io_def)

lemma disk_put_simps [simp]:
  "dk_nodes (disk_put p n d) = (dk_nodes d)(p \<mapsto> n)"
  "dk_history (disk_put p n d) = dk_history d @ [(dk_nodes d)(p \<mapsto> n)]"
  "dk_ops (disk_put p n d) = dk_ops d"
  by (simp_all add: disk_put_def disk_change_def)

text \<open>The replacement of a file either happens completely or not at all.\<close>

lemma replace_file_cases:
  obtains (replaced) d' where "replace_file fails p n d = (Inr (), d')" "dk_nodes d' = (dk_nodes d)(p \<mapsto> n)"
      "dk_history d' = dk_history d @ [(dk_nodes d)(p \<mapsto> n)]"
  | (failed) d' where "replace_file fails p n d = (Inl OSError, d')" "dk_nodes d' = dk_nodes d" "dk_history d' = dk_history d"
proof -
  note io = disk_io_def[of fails] replace_file_def[of fails p n]
  show ?thesis
  proof (cases "fails (dk_ops d) \<or> fails (Suc (dk_ops d)) \<or> dk_nodes d p = Some Directory")
    case True
    then show ?thesis
      by (intro failed[of "snd (replace_file fails p n d)"]) (auto simp: io sx_bind_def)
  next
    case False
    then show ?thesis
      by (intro replaced[of "snd (replace_file fails p n d)"]) (auto simp: io sx_bind_def)
  qed
qed

lemma replace_file_reliable:
  assumes "\<And>n. n \<ge> dk_ops d \<Longrightarrow> \<not> fails n" "dk_nodes d p \<noteq> Some Directory"
  shows "\<exists>d'. replace_file fails p n d = (Inr (), d') \<and> dk_nodes d' = (dk_nodes d)(p \<mapsto> n) \<and> dk_ops d' \<ge> dk_ops d"
  using assms by (simp add: replace_file_def disk_io_def sx_bind_def)

section \<open>Crash-safe stores\<close>

text \<open>
  \<open>view\<close> is what the running program answers, \<open>recover\<close> what a restart on a disk content answers.
\<close>

locale crash_safe =
  fixes holds :: "'s \<Rightarrow> bool"
    and view :: "'s \<Rightarrow> 'v"
    and contents :: "'s \<Rightarrow> 'd list"
    and recover :: "'d \<Rightarrow> 'v option"
    and apply_op :: "'o \<Rightarrow> 's \<Rightarrow> 's"
  assumes keeps: "holds s \<Longrightarrow> holds (apply_op x s)"
    and old_or_new: "holds s \<Longrightarrow> \<exists>ds. contents (apply_op x s) = contents s @ ds \<and>
      (\<forall>d \<in> set ds. recover d = Some (view s) \<or> recover d = Some (view (apply_op x s)))"
begin

lemma runs_hold: "holds s \<Longrightarrow> holds (fold apply_op ops s)"
  by (induction ops arbitrary: s) (simp_all add: keeps)

lemma run_contents:
  "holds s \<Longrightarrow> \<exists>ds. contents (fold apply_op ops s) = contents s @ ds \<and>
    (\<forall>d \<in> set ds. \<exists>n \<le> length ops. recover d = Some (view (fold apply_op (take n ops) s)))"
proof (induction ops arbitrary: s)
  case (Cons x xs)
  from old_or_new[OF Cons.prems, of x] obtain ds where ds: "contents (apply_op x s) = contents s @ ds"
    "\<forall>d \<in> set ds. recover d = Some (view s) \<or> recover d = Some (view (apply_op x s))" by blast
  from Cons.IH[OF keeps[OF Cons.prems, of x]] obtain es where
    es: "contents (fold apply_op xs (apply_op x s)) = contents (apply_op x s) @ es"
    "\<forall>d \<in> set es. \<exists>n \<le> length xs. recover d = Some (view (fold apply_op (take n xs) (apply_op x s)))" by blast
  have "\<exists>n \<le> length (x # xs). recover d = Some (view (fold apply_op (take n (x # xs)) s))" if "d \<in> set (ds @ es)" for d
  proof -
    from that consider "d \<in> set ds" | "d \<in> set es" by auto
    then show ?thesis
    proof cases
      case 1
      with ds(2) show ?thesis by (elim ballE disjE) (auto intro: exI[of _ 0] exI[of _ "Suc 0"])
    next
      case 2
      with es(2) obtain n where "n \<le> length xs" "recover d = Some (view (fold apply_op (take n xs) (apply_op x s)))" by blast
      then show ?thesis by (intro exI[of _ "Suc n"]) simp
    qed
  qed
  with ds(1) es(1) show ?case by (intro exI[of _ "ds @ es"]) auto
qed simp

text \<open>Whatever content a crash leaves, a restart answers as after some prefix of the operations.\<close>

lemma crash_recovers:
  assumes "holds s" "contents (fold apply_op ops s) = contents s @ ds" "d \<in> set ds"
  shows "\<exists>n \<le> length ops. recover d = Some (view (fold apply_op (take n ops) s))"
  using run_contents[OF assms(1), of ops] assms(2,3) by auto

end

end
