(* ===== verification/User_Store.thy ===== *)
theory User_Store
  imports Json_Text File_Store
begin

text \<open>
  \<open>src/src/dztgbot/user_store.py\<close>: the credential store of the users, kept in memory and in one JSON file.  An
  operation runs under the store's lock, so each is one transition of the state.  \<open>fails\<close> places
  the faults of the file system.  A dictionary is its list of entries in insertion order.
\<close>

section \<open>Credentials\<close>

record jira_credentials =
  jc_username :: string
  jc_display_name :: string
  jc_pat :: string

definition jira_credentials_post_init :: "jira_credentials \<Rightarrow> exn + jira_credentials" where
  "jira_credentials_post_init c =
     (if py_strip (jc_username c) = [] then Inl (UserStoreError ''jira_username must be a non-empty string'')
      else if py_strip (jc_display_name c) = [] then Inl (UserStoreError ''jira_display_name must be a non-empty string'')
      else if py_strip (jc_pat c) = [] then Inl (UserStoreError ''credential token must be a non-empty string'')
      else Inr c)"

text \<open>\<open>py_repr\<close> is Python's \<open>repr\<close> of a text.\<close>

definition credentials_repr :: "(string \<Rightarrow> string) \<Rightarrow> jira_credentials \<Rightarrow> string" where
  "credentials_repr py_repr c =
     ''JiraCredentials('' @ ''jira_username='' @ py_repr (jc_username c) @ '', '' @
     ''jira_display_name='' @ py_repr (jc_display_name c) @ '', '' @ ''jira_pat=<redacted>)''"

definition MAX_STORE_BYTES :: nat where
  "MAX_STORE_BYTES = 1048576"

section \<open>Documents\<close>

text \<open>
  \<open>str.isdigit\<close> also accepts the superscript digits, which \<open>int\<close> refuses with \<open>ValueError\<close>; it
  refuses more than 4300 digits as well.
\<close>

definition is_py_digit :: "char \<Rightarrow> bool" where
  "is_py_digit c \<longleftrightarrow> is_digit c \<or> (of_char c :: nat) \<in> {178, 179, 185}"

definition py_int_text :: "string \<Rightarrow> exn + nat" where
  "py_int_text s =
     (if list_all is_digit s \<and> length s \<le> 4300 then Inr (digits_value s) else Inl (ValueError ''int''))"

definition parse_user_id_key :: "string \<Rightarrow> exn + int" where
  "parse_user_id_key k =
     (if k \<noteq> [] \<and> list_all is_py_digit k then
        rbind (py_int_text k) (\<lambda>n.
          if n \<le> 0 then Inl (UserStoreError ''Credential entry key must be a positive integer.'') else Inr (int n))
      else Inl (UserStoreError ''Credential entry key is invalid.''))"

definition parse_entry :: "json \<Rightarrow> exn + jira_credentials" where
  "parse_entry entry =
     (case entry of
        JObj ms \<Rightarrow>
          (case (map_of ms ''jira_username'', map_of ms ''jira_display_name'', map_of ms ''jira_pat'') of
             (Some u, Some d, Some p) \<Rightarrow>
               (case u of JStr username \<Rightarrow>
                  if py_strip username = [] then Inl (UserStoreError ''Credential entry username is invalid.'')
                  else (case d of JStr display \<Rightarrow>
                     if py_strip display = [] then Inl (UserStoreError ''Credential entry display name is invalid.'')
                     else (case p of JStr pat \<Rightarrow>
                        if py_strip pat = [] then Inl (UserStoreError ''Credential entry token field is invalid.'')
                        else jira_credentials_post_init \<lparr>jc_username = username, jc_display_name = display, jc_pat = pat\<rparr>
                      | _ \<Rightarrow> Inl (UserStoreError ''Credential entry token field is invalid.''))
                   | _ \<Rightarrow> Inl (UserStoreError ''Credential entry display name is invalid.''))
                | _ \<Rightarrow> Inl (UserStoreError ''Credential entry username is invalid.''))
           | _ \<Rightarrow> Inl (UserStoreError ''Credential entry is missing required fields.''))
      | _ \<Rightarrow> Inl (UserStoreError ''Credential entry must be a JSON object.''))"

fun parse_payload :: "(string \<times> json) list \<Rightarrow> (int \<times> jira_credentials) list \<Rightarrow> exn + (int \<times> jira_credentials) list" where
  "parse_payload [] result = Inr result"
| "parse_payload ((key, entry) # rest) result =
     rbind (parse_user_id_key key) (\<lambda>uid.
     rbind (parse_entry entry) (\<lambda>c. parse_payload rest (AList.update uid c result)))"

definition store_languages :: "string list" where
  "store_languages = [''zh_TW'', ''en'', ''zh_CN'']"

fun parse_languages :: "(string \<times> json) list \<Rightarrow> (int \<times> string) list \<Rightarrow> exn + (int \<times> string) list" where
  "parse_languages [] result = Inr result"
| "parse_languages ((key, v) # rest) result =
     (case v of
        JStr lang \<Rightarrow>
          if lang \<in> set store_languages then
            (case parse_user_id_key key of
               Inr uid \<Rightarrow> parse_languages rest (AList.update uid lang result)
             | Inl (UserStoreError _) \<Rightarrow> parse_languages rest result
             | Inl e \<Rightarrow> Inl e)
          else parse_languages rest result
      | _ \<Rightarrow> parse_languages rest result)"

text \<open>The credentials part of a document: under the versioned envelope, or the whole document.\<close>

definition store_payload :: "(string \<times> json) list \<Rightarrow> exn + (string \<times> json) list" where
  "store_payload data =
     (case map_of data ''credentials'' of
        None \<Rightarrow> Inr data
      | Some payload \<Rightarrow>
          if (case map_of data ''version'' of None \<Rightarrow> True | Some (JInt v) \<Rightarrow> v \<ge> 1 | Some (JBool b) \<Rightarrow> b | _ \<Rightarrow> False) then
            (case payload of JObj ms \<Rightarrow> Inr ms | _ \<Rightarrow> Inl (UserStoreError ''Credentials payload must be a JSON object.''))
          else Inl (UserStoreError ''Credentials store version is invalid.''))"

definition document_languages :: "(string \<times> json) list \<Rightarrow> exn + (int \<times> string) list" where
  "document_languages data = (case map_of data ''languages'' of Some (JObj ls) \<Rightarrow> parse_languages ls [] | _ \<Rightarrow> Inr [])"

record user_store =
  us_credentials :: "(int \<times> jira_credentials) list"
  us_languages :: "(int \<times> string) list"
  us_disk :: disk

type_synonym 'a store_sx = "(user_store, exn, 'a) sx"

text \<open>Parsing a document replaces the languages of the store before it reads the credentials.\<close>

definition parse_store_document :: "json \<Rightarrow> (int \<times> jira_credentials) list store_sx" where
  "parse_store_document data =
     (case data of
        JObj ms \<Rightarrow>
          sx_bind (sx_lift (store_payload ms)) (\<lambda>payload.
          sx_bind (sx_lift (document_languages ms)) (\<lambda>langs.
          sx_bind (sx_modify (\<lambda>s. s\<lparr>us_languages := langs\<rparr>)) (\<lambda>_.
            sx_lift (parse_payload payload []))))
      | _ \<Rightarrow> sx_raise (UserStoreError ''Credentials store root must be a JSON object.''))"

definition credential_member :: "int \<times> jira_credentials \<Rightarrow> string \<times> json" where
  "credential_member = (\<lambda>(uid, c). (decimal_int uid,
     JObj [(''jira_username'', JStr (jc_username c)), (''jira_display_name'', JStr (jc_display_name c)),
           (''jira_pat'', JStr (jc_pat c))]))"

definition store_document :: "(int \<times> jira_credentials) list \<Rightarrow> (int \<times> string) list \<Rightarrow> json" where
  "store_document creds langs =
     JObj [(''version'', JInt 1), (''credentials'', JObj (map credential_member (sort_key fst creds))),
           (''languages'', JObj (map (\<lambda>(uid, l). (decimal_int uid, JStr l)) (sort_key fst langs)))]"

definition serialize_store :: "(int \<times> jira_credentials) list \<Rightarrow> (int \<times> string) list option \<Rightarrow> string store_sx" where
  "serialize_store creds languages =
     sx_bind (sx_get us_languages) (\<lambda>own.
       (let langs = (case languages of None \<Rightarrow> own | Some ls \<Rightarrow> ls);
            text = json_dumps (store_document creds langs) @ [CHR 0x0A] in
        if text_bytes text > MAX_STORE_BYTES then sx_raise (UserStoreError ''Credentials store exceeds maximum allowed size.'')
        else (case json_loads text of
            None \<Rightarrow> sx_raise (ValueError ''json'')
          | Some doc \<Rightarrow> sx_bind (parse_store_document doc) (\<lambda>_. sx_return text))))"

section \<open>The files\<close>

abbreviation previous_path :: "string \<Rightarrow> string" where
  "previous_path p \<equiv> p @ ''.prev''"

abbreviation corrupt_path :: "string \<Rightarrow> string" where
  "corrupt_path p \<equiv> p @ ''.corrupt''"

definition on_disk :: "'a disk_sx \<Rightarrow> 'a store_sx" where
  "on_disk m = (\<lambda>s. case m (us_disk s) of (r, d) \<Rightarrow> (r, s\<lparr>us_disk := d\<rparr>))"

definition copy_file_best_effort :: "faults \<Rightarrow> string \<Rightarrow> string \<Rightarrow> unit disk_sx" where
  "copy_file_best_effort fails src dst =
     sx_bind (disk_io fails) (\<lambda>_.
     sx_bind (sx_get dk_nodes) (\<lambda>ns.
       (case ns src of
          None \<Rightarrow> sx_raise OSError
        | Some n \<Rightarrow>
            if node_size n > MAX_STORE_BYTES then sx_raise (UserStoreError ''Credentials store exceeds maximum allowed size.'')
            else replace_file fails dst n)))"

definition user_atomic_write :: "faults \<Rightarrow> string \<Rightarrow> string \<Rightarrow> unit disk_sx" where
  "user_atomic_write fails path content =
     sx_bind (sx_get dk_nodes) (\<lambda>ns.
       if ns path = Some Directory then
         sx_raise (UserStoreError ''Credentials path must be a regular file, not a directory.'')
       else
         sx_bind (disk_io fails) (\<lambda>_.
         sx_bind (if is_file (ns path)
                  then sx_try (copy_file_best_effort fails path (previous_path path)) (\<lambda>e. e = OSError) (\<lambda>_. sx_return ())
                  else sx_return ()) (\<lambda>_.
           replace_file fails path (TextFile content))))"

definition write_store :: "faults \<Rightarrow> string \<Rightarrow> (int \<times> jira_credentials) list \<Rightarrow> (int \<times> string) list option \<Rightarrow> unit store_sx" where
  "write_store fails path creds languages =
     sx_bind (serialize_store creds languages) (\<lambda>content. on_disk (user_atomic_write fails path content))"

text \<open>What a regular file of text within the size limit says.\<close>

definition read_document :: "string \<Rightarrow> (int \<times> jira_credentials) list store_sx" where
  "read_document raw =
     (if text_bytes raw > MAX_STORE_BYTES then sx_raise (UserStoreError ''Credentials store exceeds maximum allowed size.'')
      else if py_strip raw = [] then parse_store_document (JObj [])
      else (case json_loads raw of
          None \<Rightarrow> sx_raise (UserStoreError ''Credentials store contains invalid JSON.'')
        | Some data \<Rightarrow> parse_store_document data))"

definition read_store_from :: "faults \<Rightarrow> string \<Rightarrow> (int \<times> jira_credentials) list store_sx" where
  "read_store_from fails p =
     sx_bind (on_disk (disk_io fails)) (\<lambda>_.
     sx_bind (sx_get (\<lambda>s. dk_nodes (us_disk s) p)) (\<lambda>n.
       (case n of
          None \<Rightarrow> sx_raise OSError
        | Some (TextFile raw) \<Rightarrow> read_document raw
        | Some (BinaryFile k) \<Rightarrow>
            if k > MAX_STORE_BYTES then sx_raise (UserStoreError ''Credentials store exceeds maximum allowed size.'')
            else sx_raise (OtherError ''UnicodeDecodeError'')
        | Some _ \<Rightarrow> sx_raise (UserStoreError ''Credentials path is not a regular file.''))))"

definition recoverable :: "exn \<Rightarrow> bool" where
  "recoverable e = (case e of OSError \<Rightarrow> True | UserStoreError _ \<Rightarrow> True | OtherError c \<Rightarrow> c = ''UnicodeDecodeError'' | _ \<Rightarrow> False)"

definition quarantine_corrupt :: "faults \<Rightarrow> string \<Rightarrow> unit disk_sx" where
  "quarantine_corrupt fails path =
     sx_bind (sx_get dk_nodes) (\<lambda>ns.
       if \<not> is_file (ns path) then sx_return ()
       else
         sx_try
           (sx_bind (if ns (corrupt_path path) = None then sx_return ()
                     else sx_bind (disk_io fails) (\<lambda>_.
                       if ns (corrupt_path path) = Some Directory then sx_raise OSError
                       else sx_modify (disk_change [corrupt_path path] (\<lambda>ns. ns(corrupt_path path := None))))) (\<lambda>_.
            sx_bind (disk_io fails) (\<lambda>_.
              sx_modify (disk_change [path, corrupt_path path] (\<lambda>ns'. ns'(corrupt_path path := ns path, path := None))))))
           (\<lambda>e. e = OSError) (\<lambda>_. sx_return ()))"

definition recover_previous :: "faults \<Rightarrow> string \<Rightarrow> (int \<times> jira_credentials) list store_sx" where
  "recover_previous fails path =
     sx_bind (sx_get (\<lambda>s. dk_nodes (us_disk s) (previous_path path))) (\<lambda>prev.
       if \<not> is_file prev then sx_return []
       else
         sx_try
           (sx_bind (read_store_from fails (previous_path path)) (\<lambda>recovered.
            sx_bind (sx_try (write_store fails path recovered None)
                       (\<lambda>e. e = OSError \<or> (\<exists>m. e = UserStoreError m)) (\<lambda>_. sx_return ())) (\<lambda>_.
              sx_return recovered)))
           recoverable (\<lambda>_. sx_return []))"

definition load_with_recovery :: "faults \<Rightarrow> string \<Rightarrow> (int \<times> jira_credentials) list store_sx" where
  "load_with_recovery fails path =
     sx_bind (sx_get (\<lambda>s. dk_nodes (us_disk s) path)) (\<lambda>main.
       if main = Some Directory then sx_return []
       else if main = None then recover_previous fails path
       else
         sx_try (read_store_from fails path) recoverable (\<lambda>_.
           sx_bind (on_disk (quarantine_corrupt fails path)) (\<lambda>_. recover_previous fails path)))"

section \<open>Operations\<close>

definition user_store_init :: "disk \<Rightarrow> user_store" where
  "user_store_init d = \<lparr>us_credentials = [], us_languages = [], us_disk = d\<rparr>"

definition initialize_store :: "faults \<Rightarrow> string \<Rightarrow> unit store_sx" where
  "initialize_store fails path =
     sx_bind (load_with_recovery fails path) (\<lambda>creds. sx_modify (\<lambda>s. s\<lparr>us_credentials := creds\<rparr>))"

definition get_credentials :: "int \<Rightarrow> user_store \<Rightarrow> jira_credentials option" where
  "get_credentials uid s = map_of (us_credentials s) uid"

definition get_language :: "int \<Rightarrow> user_store \<Rightarrow> string" where
  "get_language uid s = (case map_of (us_languages s) uid of None \<Rightarrow> ''zh_TW'' | Some l \<Rightarrow> l)"

definition validate_user_id :: "int \<Rightarrow> exn + unit" where
  "validate_user_id uid = ensure (uid > 0) (UserStoreError ''telegram_user_id must be a positive integer'')"

definition set_language :: "faults \<Rightarrow> string \<Rightarrow> int \<Rightarrow> string \<Rightarrow> unit store_sx" where
  "set_language fails path uid language =
     sx_bind (sx_lift (validate_user_id uid)) (\<lambda>_.
       (let valid_lang = (if language \<in> set store_languages then language else ''zh_TW'') in
        sx_bind (sx_get (\<lambda>s. (us_credentials s, AList.update uid valid_lang (us_languages s)))) (\<lambda>(creds, snapshot).
        sx_bind (write_store fails path creds (Some snapshot)) (\<lambda>_.
          sx_modify (\<lambda>s. s\<lparr>us_languages := snapshot\<rparr>)))))"

definition store_credentials :: "faults \<Rightarrow> string \<Rightarrow> int \<Rightarrow> jira_credentials \<Rightarrow> unit store_sx" where
  "store_credentials fails path uid c =
     sx_bind (sx_lift (validate_user_id uid)) (\<lambda>_.
     sx_bind (sx_lift (jira_credentials_post_init c)) (\<lambda>_.
     sx_bind (sx_get (\<lambda>s. AList.update uid c (us_credentials s))) (\<lambda>snapshot.
     sx_bind (write_store fails path snapshot None) (\<lambda>_.
       sx_modify (\<lambda>s. s\<lparr>us_credentials := snapshot\<rparr>)))))"

definition remove_credentials :: "faults \<Rightarrow> string \<Rightarrow> int \<Rightarrow> bool store_sx" where
  "remove_credentials fails path uid =
     sx_bind (sx_lift (validate_user_id uid)) (\<lambda>_.
     sx_bind (sx_get us_credentials) (\<lambda>creds.
       if map_of creds uid = None then sx_return False
       else
         sx_bind (write_store fails path (AList.delete uid creds) None) (\<lambda>_.
         sx_bind (sx_modify (\<lambda>s. s\<lparr>us_credentials := AList.delete uid creds\<rparr>)) (\<lambda>_. sx_return True))))"

section \<open>Reading back what was written\<close>

definition valid_credentials :: "jira_credentials \<Rightarrow> bool" where
  "valid_credentials c \<longleftrightarrow> py_strip (jc_username c) \<noteq> [] \<and> py_strip (jc_display_name c) \<noteq> [] \<and> py_strip (jc_pat c) \<noteq> []"

definition valid_entries :: "(int \<times> jira_credentials) list \<Rightarrow> bool" where
  "valid_entries cs \<longleftrightarrow> distinct (map fst cs) \<and> (\<forall>uid c. (uid, c) \<in> set cs \<longrightarrow> uid > 0 \<and> valid_credentials c)"

definition valid_languages :: "(int \<times> string) list \<Rightarrow> bool" where
  "valid_languages ls \<longleftrightarrow> distinct (map fst ls) \<and> (\<forall>uid l. (uid, l) \<in> set ls \<longrightarrow> uid > 0 \<and> l \<in> set store_languages)"

lemma post_init_valid: "jira_credentials_post_init c = Inr c' \<longleftrightarrow> c' = c \<and> valid_credentials c"
  by (auto simp: jira_credentials_post_init_def valid_credentials_def)

lemma parse_key_decimal:
  "uid > 0 \<Longrightarrow> parse_user_id_key (decimal_int uid) = (if length (decimal_int uid) \<le> 4300 then Inr uid else Inl (ValueError ''int''))"
proof -
  assume "uid > 0"
  then have k: "decimal_int uid = decimal (nat uid)" by (simp add: decimal_int_def)
  have "list_all is_digit (decimal (nat uid))" "list_all is_py_digit (decimal (nat uid))"
    using decimal_digits[of _ "nat uid"] by (auto simp: list_all_iff is_py_digit_def)
  with \<open>uid > 0\<close> k show ?thesis by (simp add: parse_user_id_key_def py_int_text_def digits_value_decimal)
qed

lemma parse_entry_member: "valid_credentials c \<Longrightarrow> parse_entry (snd (credential_member (uid, c))) = Inr c"
  by (simp add: parse_entry_def credential_member_def jira_credentials_post_init_def valid_credentials_def)

lemma update_new: "k \<notin> fst ` set acc \<Longrightarrow> AList.update k v acc = acc @ [(k, v)]"
  by (induction acc) auto

lemma parse_payload_members:
  "\<lbrakk>parse_payload (map credential_member cs) acc = Inr r; valid_entries cs; distinct (map fst (acc @ cs))\<rbrakk> \<Longrightarrow> r = acc @ cs"
proof (induction cs arbitrary: acc)
  case (Cons x cs)
  obtain uid c where x: "x = (uid, c)" by (cases x)
  have v: "uid > 0" "valid_credentials c" "valid_entries cs" using Cons.prems(2) by (auto simp: valid_entries_def x)
  obtain e where m: "credential_member (uid, c) = (decimal_int uid, e)" "parse_entry e = Inr c"
    using parse_entry_member[OF v(2), of uid] by (simp add: credential_member_def)
  have "parse_payload (map credential_member cs) (acc @ [(uid, c)]) = Inr r"
    using Cons.prems(1,3) v m by (auto simp: parse_key_decimal update_new x split: if_splits)
  from Cons.IH[OF this v(3)] Cons.prems(3) show ?case by (simp add: x)
qed simp

lemma parse_languages_members:
  "\<lbrakk>parse_languages (map (\<lambda>(uid, l). (decimal_int uid, JStr l)) ls) acc = Inr r; valid_languages ls; distinct (map fst (acc @ ls))\<rbrakk>
   \<Longrightarrow> r = acc @ ls"
proof (induction ls arbitrary: acc)
  case (Cons x ls)
  obtain uid l where x: "x = (uid, l)" by (cases x)
  have v: "uid > 0" "l \<in> set store_languages" "valid_languages ls" using Cons.prems(2) by (auto simp: valid_languages_def x)
  have "parse_languages (map (\<lambda>(uid, l). (decimal_int uid, JStr l)) ls) (acc @ [(uid, l)]) = Inr r"
    using Cons.prems(1,3) v by (auto simp: parse_key_decimal update_new x split: if_splits)
  from Cons.IH[OF this v(3)] Cons.prems(3) show ?case by (simp add: x)
qed simp

lemma valid_sorted: "valid_entries cs \<Longrightarrow> valid_entries (sort_key fst cs)" "valid_languages ls \<Longrightarrow> valid_languages (sort_key fst ls)"
  by (simp_all add: valid_entries_def valid_languages_def distinct_map)

lemma map_of_sorted: "distinct (map fst xs) \<Longrightarrow> map_of (sort_key fst xs) = map_of xs"
  by (rule map_of_inject_set[THEN iffD2]) (simp_all add: distinct_map)

lemma keys_distinct: "\<lbrakk>distinct (map fst cs); \<And>uid x. (uid, x) \<in> set cs \<Longrightarrow> uid > 0\<rbrakk> \<Longrightarrow> distinct (map (decimal_int \<circ> fst) cs)"
  for cs :: "(int \<times> 'a) list"
proof -
  assume d: "distinct (map fst cs)" and pos: "\<And>uid x. (uid, x) \<in> set cs \<Longrightarrow> uid > 0"
  have "inj_on decimal_int {i. i > 0}" by (auto simp: inj_on_def decimal_int_def decimal_inject)
  moreover have "fst ` set cs \<subseteq> {i. i > 0}" using pos by force
  ultimately have "inj_on decimal_int (fst ` set cs)" by (rule inj_on_subset)
  with d show ?thesis by (auto simp: distinct_map comp_inj_on)
qed

lemma store_document_ok: "valid_entries cs \<Longrightarrow> valid_languages ls \<Longrightarrow> json_ok (store_document cs ls)"
proof -
  assume v: "valid_entries cs" "valid_languages ls"
  have "distinct (map (decimal_int \<circ> fst) (sort_key fst cs))" "distinct (map (decimal_int \<circ> fst) (sort_key fst ls))"
    using valid_sorted(1)[OF v(1)] valid_sorted(2)[OF v(2)] by (auto intro!: keys_distinct simp: valid_entries_def valid_languages_def)
  then show ?thesis by (auto simp: store_document_def credential_member_def comp_def case_prod_beta')
qed

text \<open>Parsing a document of valid entries, when it is not refused, returns these entries.\<close>

lemma parse_store_document_self:
  assumes "fst (parse_store_document (store_document cs ls) s) = Inr r" "valid_entries cs" "valid_languages ls"
  shows "r = sort_key fst cs \<and>
    (\<forall>t. parse_store_document (store_document cs ls) t = (Inr (sort_key fst cs), t\<lparr>us_languages := sort_key fst ls\<rparr>))"
proof -
  note v = valid_sorted(1)[OF assms(2)] valid_sorted(2)[OF assms(3)]
  obtain langs where langs: "parse_languages (map (\<lambda>(uid, l). (decimal_int uid, JStr l)) (sort_key fst ls)) [] = Inr langs"
    and r: "parse_payload (map credential_member (sort_key fst cs)) [] = Inr r"
    using assms(1) by (cases "parse_languages (map (\<lambda>(uid, l). (decimal_int uid, JStr l)) (sort_key fst ls)) []")
      (auto simp: parse_store_document_def store_document_def store_payload_def document_languages_def)
  have "langs = sort_key fst ls" "r = sort_key fst cs"
    using parse_languages_members[OF langs v(2)] parse_payload_members[OF r v(1)] v by (simp_all add: valid_entries_def valid_languages_def)
  with langs r show ?thesis
    by (simp add: parse_store_document_def store_document_def store_payload_def document_languages_def)
qed

text \<open>Nothing else can go wrong: short identifiers and a small text are written.\<close>

lemma parse_payload_short:
  "\<lbrakk>valid_entries cs; \<And>uid c. (uid, c) \<in> set cs \<Longrightarrow> length (decimal_int uid) \<le> 4300\<rbrakk> \<Longrightarrow>
   \<exists>r. parse_payload (map credential_member cs) acc = Inr r"
proof (induction cs arbitrary: acc)
  case (Cons x cs)
  obtain uid c where x: "x = (uid, c)" by (cases x)
  have v: "uid > 0" "valid_credentials c" "valid_entries cs" using Cons.prems(1) by (auto simp: valid_entries_def x)
  obtain e where m: "credential_member (uid, c) = (decimal_int uid, e)" "parse_entry e = Inr c"
    using parse_entry_member[OF v(2), of uid] by (simp add: credential_member_def)
  have l: "length (decimal_int uid) \<le> 4300" using Cons.prems(2)[of uid c] x by simp
  have "\<exists>r. parse_payload (map credential_member cs) (AList.update uid c acc) = Inr r"
    by (rule Cons.IH[OF v(3)], rule Cons.prems(2)) (erule list.set_intros(2))
  with x m l v(1) show ?case by (simp add: parse_key_decimal)
qed simp

lemma parse_languages_short:
  "\<lbrakk>valid_languages ls; \<And>uid l. (uid, l) \<in> set ls \<Longrightarrow> length (decimal_int uid) \<le> 4300\<rbrakk> \<Longrightarrow>
   \<exists>r. parse_languages (map (\<lambda>(uid, l). (decimal_int uid, JStr l)) ls) acc = Inr r"
proof (induction ls arbitrary: acc)
  case (Cons x ls)
  obtain uid l where x: "x = (uid, l)" by (cases x)
  have v: "uid > 0" "l \<in> set store_languages" "valid_languages ls" using Cons.prems(1) by (auto simp: valid_languages_def x)
  have len: "length (decimal_int uid) \<le> 4300" using Cons.prems(2)[of uid l] x by simp
  have "\<exists>r. parse_languages (map (\<lambda>(uid, l). (decimal_int uid, JStr l)) ls) (AList.update uid l acc) = Inr r"
    by (rule Cons.IH[OF v(3)], rule Cons.prems(2)) (erule list.set_intros(2))
  with x len v(1,2) show ?case by (simp add: parse_key_decimal)
qed simp

lemma parse_store_document_short:
  assumes "valid_entries cs" "valid_languages ls" "\<And>uid. uid \<in> fst ` set cs \<union> fst ` set ls \<Longrightarrow> length (decimal_int uid) \<le> 4300"
  shows "parse_store_document (store_document cs ls) t = (Inr (sort_key fst cs), t\<lparr>us_languages := sort_key fst ls\<rparr>)"
proof -
  obtain r1 r2 where "parse_payload (map credential_member (sort_key fst cs)) [] = Inr r1"
    "parse_languages (map (\<lambda>(uid, l). (decimal_int uid, JStr l)) (sort_key fst ls)) [] = Inr r2"
    using parse_payload_short[OF valid_sorted(1)[OF assms(1)], of "[]"] parse_languages_short[OF valid_sorted(2)[OF assms(2)], of "[]"]
      assms(3) by fastforce
  then have "fst (parse_store_document (store_document cs ls) t) = Inr r1"
    by (simp add: parse_store_document_def store_document_def store_payload_def document_languages_def)
  from parse_store_document_self[OF this assms(1,2)] show ?thesis by blast
qed

lemma serialize_ok:
  assumes "valid_entries cs" "valid_languages ls" "\<And>uid. uid \<in> fst ` set cs \<union> fst ` set ls \<Longrightarrow> length (decimal_int uid) \<le> 4300"
    and "ls = (case languages of None \<Rightarrow> us_languages t | Some l \<Rightarrow> l)"
    and "text_bytes (json_dumps (store_document cs ls) @ [CHR 0x0A]) \<le> MAX_STORE_BYTES"
  shows "serialize_store cs languages t = (Inr (json_dumps (store_document cs ls) @ [CHR 0x0A]), t\<lparr>us_languages := sort_key fst ls\<rparr>)"
proof -
  have "json_loads (json_dumps (store_document cs ls) @ [CHR 0x0A]) = Some (store_document cs ls)"
    by (rule json_loads_dumps[OF store_document_ok[OF assms(1,2)]]) (simp add: json_space_def)
  moreover have "parse_store_document (store_document cs ls) t = (Inr (sort_key fst cs), t\<lparr>us_languages := sort_key fst ls\<rparr>)"
    by (rule parse_store_document_short[OF assms(1,2)]) (rule assms(3))
  ultimately show ?thesis using assms(5)
    by (simp add: serialize_store_def assms(4)[symmetric] Let_def sx_bind_app)
qed

section \<open>What a write leaves\<close>

text \<open>The text of a store file, and what reading it answers.\<close>

definition reads :: "string \<Rightarrow> (int \<times> jira_credentials) list \<Rightarrow> (int \<times> string) list \<Rightarrow> bool" where
  "reads raw cs ls \<longleftrightarrow> (\<forall>t. read_document raw t = (Inr cs, t\<lparr>us_languages := ls\<rparr>))"

lemma parse_store_document_state: "\<exists>ls. snd (parse_store_document data t) = t\<lparr>us_languages := ls\<rparr>"
proof -
  have id: "\<exists>ls. t = t\<lparr>us_languages := ls\<rparr>" by (intro exI[of _ "us_languages t"]) simp
  show ?thesis
  proof (cases data)
    case (JObj ms)
    show ?thesis
      by (cases "store_payload ms"; cases "document_languages ms") (use id in \<open>auto simp: parse_store_document_def JObj\<close>)
  qed (use id in \<open>simp_all add: parse_store_document_def\<close>)
qed

lemma serialize_state: "\<exists>ls. snd (serialize_store cs languages t) = t\<lparr>us_languages := ls\<rparr>"
proof -
  have id: "\<exists>ls. t = t\<lparr>us_languages := ls\<rparr>" by (intro exI[of _ "us_languages t"]) simp
  have "\<exists>ls. snd (sx_bind (parse_store_document doc) (\<lambda>_. sx_return x) t) = t\<lparr>us_languages := ls\<rparr>" for doc and x :: string
    using parse_store_document_state[of doc t] by (auto simp: sx_bind_def split: prod.splits sum.splits)
  then show ?thesis using id by (auto simp: serialize_store_def Let_def split: option.splits)
qed

lemma update_mem: "x \<in> set (AList.update k v xs) \<Longrightarrow> x = (k, v) \<or> x \<in> set xs"
  by (induction xs) (auto split: if_splits)

lemma valid_update: "valid_languages ls \<Longrightarrow> uid > 0 \<Longrightarrow> l \<in> set store_languages \<Longrightarrow> valid_languages (AList.update uid l ls)"
  by (auto simp: valid_languages_def distinct_update dest!: update_mem)

lemma valid_entries_update: "valid_entries cs \<Longrightarrow> uid > 0 \<Longrightarrow> valid_credentials c \<Longrightarrow> valid_entries (AList.update uid c cs)"
  by (auto simp: valid_entries_def distinct_update dest!: update_mem)

lemma valid_entries_delete: "valid_entries cs \<Longrightarrow> valid_entries (AList.delete uid cs)"
proof -
  assume v: "valid_entries cs"
  have "distinct (map fst (AList.delete uid cs))" using v by (simp add: valid_entries_def distinct_delete)
  moreover have "set (AList.delete uid cs) \<subseteq> set cs" by (auto simp: AList.delete_eq)
  ultimately show ?thesis using v unfolding valid_entries_def by blast
qed

lemma parse_key_positive: "parse_user_id_key k = Inr uid \<Longrightarrow> uid > 0"
  by (auto simp: parse_user_id_key_def rbind_eq_Inr split: if_splits)

lemma parse_languages_valid: "parse_languages ms acc = Inr ls \<Longrightarrow> valid_languages acc \<Longrightarrow> valid_languages ls"
proof (induction ms acc rule: parse_languages.induct)
  case (2 key v rest acc)
  then show ?case
    by (auto split: json.splits if_splits sum.splits exn.splits dest!: parse_key_positive intro: valid_update)
qed simp

lemma parse_document_languages:
  "valid_languages (us_languages t) \<Longrightarrow> valid_languages (us_languages (snd (parse_store_document data t)))"
proof (cases data)
  case (JObj ms)
  assume t: "valid_languages (us_languages t)"
  have "document_languages ms = Inr ls \<Longrightarrow> valid_languages ls" for ls
    using parse_languages_valid[of _ "[]" ls]
    by (auto simp: document_languages_def valid_languages_def split: option.splits json.splits)
  with t show ?thesis
    by (cases "store_payload ms"; cases "document_languages ms") (auto simp: parse_store_document_def JObj)
qed (simp_all add: parse_store_document_def)

lemma serialize_languages:
  "valid_languages (us_languages t) \<Longrightarrow> valid_languages (us_languages (snd (serialize_store cs languages t)))"
proof -
  assume t: "valid_languages (us_languages t)"
  have "valid_languages (us_languages (snd (sx_bind (parse_store_document doc) (\<lambda>_. sx_return x) t)))" for doc and x :: string
    using parse_document_languages[OF t, of doc] by (auto simp: sx_bind_def split: prod.splits sum.splits)
  with t show ?thesis by (auto simp: serialize_store_def Let_def split: option.splits)
qed

lemma serialized_not_blank: "py_strip (json_dumps (store_document cs ls) @ t) \<noteq> []"
proof -
  have "\<exists>r. json_dumps (store_document cs ls) = CHR ''{'' # r" by (simp add: json_dumps_def store_document_def)
  then obtain r where "json_dumps (store_document cs ls) @ t = CHR ''{'' # r @ t" by auto
  moreover have b: "\<not> is_space (CHR ''{'')" by (simp add: is_space_def)
  ultimately have "CHR ''{'' \<in> set (rev (dropWhile is_space (json_dumps (store_document cs ls) @ t)))" by simp
  with b have "dropWhile is_space (rev (dropWhile is_space (json_dumps (store_document cs ls) @ t))) \<noteq> []"
    unfolding dropWhile_eq_Nil_conv by blast
  then show ?thesis by (simp add: py_strip_def)
qed

lemma serialize_Inr:
  assumes run: "serialize_store cs languages t = (Inr raw, t')" and v: "valid_entries cs"
    and ls: "valid_languages ls" "ls = (case languages of None \<Rightarrow> us_languages t | Some l \<Rightarrow> l)"
  shows "t' = t\<lparr>us_languages := sort_key fst ls\<rparr> \<and> reads raw (sort_key fst cs) (sort_key fst ls)"
proof -
  let ?doc = "store_document cs ls"
  have load: "json_loads (json_dumps ?doc @ [CHR 0x0A]) = Some ?doc"
    by (rule json_loads_dumps[OF store_document_ok[OF v ls(1)]]) (simp add: json_space_def)
  from run load have "text_bytes (json_dumps ?doc @ [CHR 0x0A]) \<le> MAX_STORE_BYTES"
    and "sx_bind (parse_store_document ?doc) (\<lambda>_. sx_return (json_dumps ?doc @ [CHR 0x0A])) t = (Inr raw, t')"
    by (auto simp: serialize_store_def ls(2)[symmetric] Let_def split: if_splits)
  then obtain r where raw: "raw = json_dumps ?doc @ [CHR 0x0A]" "text_bytes raw \<le> MAX_STORE_BYTES"
    and r: "parse_store_document ?doc t = (Inr r, t')" by (auto simp: sx_bind_eq_Inr)
  then have "fst (parse_store_document ?doc t) = Inr r" by simp
  note self = parse_store_document_self[OF this v ls(1)]
  have "read_document raw = parse_store_document ?doc"
    using raw load serialized_not_blank[of cs ls "[CHR 0x0A]"] by (simp add: read_document_def)
  with self r show ?thesis by (simp add: reads_def)
qed

text \<open>The disk of a store, as seen from outside: the node at the path and the contents since.\<close>

definition appends :: "disk \<Rightarrow> disk \<Rightarrow> (nodes \<Rightarrow> bool) \<Rightarrow> bool" where
  "appends d d' ok \<longleftrightarrow> (\<exists>ds. dk_history d' = dk_history d @ ds \<and> (\<forall>ns \<in> set ds. ok ns))"

lemma appends_refl: "dk_history d' = dk_history d \<Longrightarrow> appends d d' ok"
  by (simp add: appends_def)

lemma appends_trans: "appends d d' ok \<Longrightarrow> appends d' d'' ok \<Longrightarrow> appends d d'' ok"
  by (auto simp: appends_def)

lemma appends_mono: "appends d d' ok \<Longrightarrow> (\<And>ns. ok ns \<Longrightarrow> ok' ns) \<Longrightarrow> appends d d' ok'"
  by (auto simp: appends_def)

text \<open>Any failure of the backup copy leaves the store file alone.\<close>

lemma replace_other:
  assumes "replace_file fails q n d = (r, d')" "q \<noteq> p"
  shows "dk_nodes d' p = dk_nodes d p \<and> appends d d' (\<lambda>ns. ns p = dk_nodes d p)"
  using assms by (cases rule: replace_file_cases[of fails q n d]) (auto simp: appends_def)

lemma copy_keeps:
  assumes "copy_file_best_effort fails p q d = (r, d')" "q \<noteq> p"
  shows "dk_nodes d' p = dk_nodes d p \<and> appends d d' (\<lambda>ns. ns p = dk_nodes d p)"
proof (cases rule: disk_io_cases[of fails d])
  case 1
  let ?d = "d\<lparr>dk_ops := Suc (dk_ops d)\<rparr>"
  show ?thesis
  proof (cases "dk_nodes d p")
    case None
    with assms 1 show ?thesis by (auto simp: copy_file_best_effort_def sx_bind_app appends_def)
  next
    case (Some n)
    show ?thesis
    proof (cases "node_size n > MAX_STORE_BYTES")
      case True
      with assms 1 Some show ?thesis by (auto simp: copy_file_best_effort_def sx_bind_app appends_def)
    next
      case False
      with assms 1 Some have "replace_file fails q n ?d = (r, d')" by (simp add: copy_file_best_effort_def sx_bind_app)
      from replace_other[OF this assms(2)] show ?thesis by (simp add: appends_def)
    qed
  qed
next
  case 2
  with assms show ?thesis by (auto simp: copy_file_best_effort_def sx_bind_app appends_def)
qed

text \<open>The write of the store file: at every moment it holds the old content or the new one.\<close>

lemma atomic_write_outcome:
  assumes "user_atomic_write fails p content d = (r, d')"
  shows "(r = Inr () \<and> dk_nodes d' p = Some (TextFile content) \<or> isl r \<and> dk_nodes d' p = dk_nodes d p) \<and>
    appends d d' (\<lambda>ns. ns p = dk_nodes d p \<or> r = Inr () \<and> ns p = Some (TextFile content))"
proof (cases "dk_nodes d p = Some Directory")
  case True
  with assms show ?thesis by (auto simp: user_atomic_write_def appends_def)
next
  case False
  let ?d = "d\<lparr>dk_ops := Suc (dk_ops d)\<rparr>"
  let ?copy = "(if is_file (dk_nodes d p)
                  then sx_try (copy_file_best_effort fails p (previous_path p)) (\<lambda>e. e = OSError) (\<lambda>_. sx_return ())
                  else sx_return ())"
  show ?thesis
  proof (cases rule: disk_io_cases[of fails d])
    case 1
    then have run: "sx_bind ?copy (\<lambda>_. replace_file fails p (TextFile content)) ?d = (r, d')"
      using assms False by (simp add: user_atomic_write_def sx_bind_app[of "disk_io fails"])
    obtain q e where copy: "?copy ?d = (q, e)" by (cases "?copy ?d")
    have k: "dk_nodes e p = dk_nodes d p \<and> appends d e (\<lambda>ns. ns p = dk_nodes d p)"
    proof (cases "is_file (dk_nodes d p)")
      case True
      obtain q0 e0 where c: "copy_file_best_effort fails p (previous_path p) ?d = (q0, e0)"
        by (cases "copy_file_best_effort fails p (previous_path p) ?d")
      then have "e = e0" using copy True by (auto simp: sx_try_def split: sum.splits if_splits)
      moreover have "previous_path p \<noteq> p" by simp
      ultimately show ?thesis using copy_keeps[OF c] by (simp add: appends_def)
    next
      case False
      with copy show ?thesis by (auto simp: appends_def)
    qed
    show ?thesis
    proof (cases q)
      case (Inl x)
      with run copy have "r = Inl x" "d' = e" by (simp_all add: sx_bind_Inl)
      with k show ?thesis by simp
    next
      case (Inr u)
      with run copy have "replace_file fails p (TextFile content) e = (r, d')" by (simp add: sx_bind_Inr)
      then show ?thesis using k
        by (cases rule: replace_file_cases[of fails p "TextFile content" e]) (auto simp: appends_def)
    qed
  next
    case 2
    with assms False show ?thesis by (auto simp: user_atomic_write_def sx_bind_app appends_def)
  qed
qed

lemma write_store_outcome:
  assumes run: "write_store fails p cs languages s = (r, s')" and v: "valid_entries cs"
    and ls: "valid_languages ls" "ls = (case languages of None \<Rightarrow> us_languages s | Some l \<Rightarrow> l)" "valid_languages (us_languages s)"
  shows "us_credentials s' = us_credentials s \<and> valid_languages (us_languages s') \<and>
    (r = Inr () \<and> us_languages s' = sort_key fst ls \<and>
       (\<exists>raw. dk_nodes (us_disk s') p = Some (TextFile raw) \<and> reads raw (sort_key fst cs) (sort_key fst ls) \<and>
         appends (us_disk s) (us_disk s') (\<lambda>ns. ns p = dk_nodes (us_disk s) p \<or> ns p = Some (TextFile raw))) \<or>
     isl r \<and> dk_nodes (us_disk s') p = dk_nodes (us_disk s) p \<and>
       appends (us_disk s) (us_disk s') (\<lambda>ns. ns p = dk_nodes (us_disk s) p))"
proof -
  obtain q t where ser: "serialize_store cs languages s = (q, t)" by (cases "serialize_store cs languages s")
  show ?thesis
  proof (cases q)
    case (Inr raw)
    note w = serialize_Inr[OF ser[unfolded Inr] v ls(1,2)]
    obtain d where d: "user_atomic_write fails p raw (us_disk s) = (r, d)" "s' = t\<lparr>us_disk := d\<rparr>"
      using run ser Inr w by (auto simp: write_store_def sx_bind_Inr on_disk_def split: prod.splits)
    from atomic_write_outcome[OF d(1)] w d(2) valid_sorted(2)[OF ls(1)] show ?thesis
      by (auto intro: appends_mono)
  next
    case (Inl e)
    obtain l where l: "t = s\<lparr>us_languages := l\<rparr>" using serialize_state[of cs languages s] ser by auto
    then have "valid_languages l" using serialize_languages[OF ls(3), of cs languages] ser by simp
    with run ser Inl l show ?thesis by (auto simp: write_store_def sx_bind_Inl appends_refl)
  qed
qed

section \<open>Memory and disk agree\<close>

text \<open>
  The store is in step with its file: the file is a readable document with the credentials that are in
  memory, and the entries in memory are valid.
\<close>

definition store_synced :: "string \<Rightarrow> user_store \<Rightarrow> bool" where
  "store_synced p s \<longleftrightarrow> valid_entries (us_credentials s) \<and> valid_languages (us_languages s) \<and>
     (\<exists>raw cs ls. dk_nodes (us_disk s) p = Some (TextFile raw) \<and> reads raw cs ls \<and>
        map_of cs = map_of (us_credentials s))"

text \<open>What a restart without faults on a disk content answers for each user.\<close>

definition restart_store :: "string \<Rightarrow> nodes \<Rightarrow> (exn + unit) \<times> user_store" where
  "restart_store p ns = initialize_store (\<lambda>_. False) p
     (user_store_init \<lparr>dk_nodes = ns, dk_stamps = (\<lambda>_. 0), dk_ops = 0, dk_history = []\<rparr>)"

definition restart_credentials :: "string \<Rightarrow> nodes \<Rightarrow> (int \<Rightarrow> jira_credentials option) option" where
  "restart_credentials p ns = (case restart_store p ns of
     (Inr _, s) \<Rightarrow> Some (\<lambda>uid. get_credentials uid s) | _ \<Rightarrow> None)"

lemma restart_reads:
  assumes "ns p = Some (TextFile raw)" "reads raw cs ls"
  shows "\<exists>s. restart_store p ns = (Inr (), s) \<and> us_credentials s = cs \<and> us_languages s = ls"
proof -
  let ?d = "\<lparr>dk_nodes = ns, dk_stamps = (\<lambda>_. 0), dk_ops = 0, dk_history = []\<rparr>"
  let ?s = "\<lparr>us_credentials = [], us_languages = ls, us_disk = ?d\<lparr>dk_ops := 1\<rparr>\<rparr>"
  from assms(2) have r: "read_document raw (user_store_init (?d\<lparr>dk_ops := 1\<rparr>)) = (Inr cs, ?s)"
    unfolding reads_def by (simp add: user_store_init_def)
  have "read_store_from (\<lambda>_. False) p (user_store_init ?d) = (Inr cs, ?s)"
    using assms(1) r by (simp add: read_store_from_def sx_bind_def on_disk_def disk_io_def user_store_init_def)
  then have "load_with_recovery (\<lambda>_. False) p (user_store_init ?d) = (Inr cs, ?s)"
    using assms(1) by (simp add: load_with_recovery_def sx_try_def user_store_init_def)
  then show ?thesis by (simp add: restart_store_def initialize_store_def sx_bind_def)
qed

lemma restart_text: "ns p = Some (TextFile raw) \<Longrightarrow> reads raw cs ls \<Longrightarrow> restart_credentials p ns = Some (map_of cs)"
proof -
  assume "ns p = Some (TextFile raw)" "reads raw cs ls"
  then obtain s where "restart_store p ns = (Inr (), s)" "us_credentials s = cs" using restart_reads by blast
  then show ?thesis by (simp add: restart_credentials_def get_credentials_def)
qed

lemma synced_restart: "store_synced p s \<Longrightarrow> restart_credentials p (dk_nodes (us_disk s)) = Some (map_of (us_credentials s))"
  by (auto simp: store_synced_def dest: restart_text)

datatype user_op = OpStore int jira_credentials | OpRemove int | OpLanguage int string

fun apply_user_op :: "faults \<Rightarrow> string \<Rightarrow> user_op \<Rightarrow> user_store \<Rightarrow> user_store" where
  "apply_user_op fails p (OpStore uid c) s = snd (store_credentials fails p uid c s)"
| "apply_user_op fails p (OpRemove uid) s = snd (remove_credentials fails p uid s)"
| "apply_user_op fails p (OpLanguage uid lang) s = snd (set_language fails p uid lang s)"

text \<open>How an operation ends: nothing was written, or the new entries were.\<close>

definition store_moved :: "string \<Rightarrow> user_store \<Rightarrow> user_store \<Rightarrow> bool" where
  "store_moved p s s' \<longleftrightarrow> store_synced p s' \<and>
     (\<exists>ds. dk_history (us_disk s') = dk_history (us_disk s) @ ds \<and>
       (\<forall>ns \<in> set ds. restart_credentials p ns = Some (map_of (us_credentials s)) \<or>
                      restart_credentials p ns = Some (map_of (us_credentials s'))))"

lemma store_moved_refl: "store_synced p s \<Longrightarrow> store_moved p s s"
  by (simp add: store_moved_def)

lemma write_moves:
  assumes sync: "store_synced p s" and run: "write_store fails p cs languages s = (r, s1)"
    and v: "valid_entries cs" "valid_languages ls" "ls = (case languages of None \<Rightarrow> us_languages s | Some l \<Rightarrow> l)"
  shows "isl r \<Longrightarrow> store_moved p s s1"
    and "r = Inr () \<Longrightarrow> valid_languages ls' \<Longrightarrow> store_moved p s (s1\<lparr>us_credentials := cs, us_languages := ls'\<rparr>)"
proof -
  from sync obtain raw0 cs0 ls0 where old: "dk_nodes (us_disk s) p = Some (TextFile raw0)" "reads raw0 cs0 ls0"
    "map_of cs0 = map_of (us_credentials s)" and val: "valid_entries (us_credentials s)" "valid_languages (us_languages s)"
    by (auto simp: store_synced_def)
  note w = write_store_outcome[OF run v val(2)]
  have old_restart: "ns p = dk_nodes (us_disk s) p \<Longrightarrow> restart_credentials p ns = Some (map_of (us_credentials s))" for ns
    using restart_text[of ns p raw0 cs0 ls0] old by simp
  show "store_moved p s s1" if "isl r"
  proof -
    from that w have k: "dk_nodes (us_disk s1) p = dk_nodes (us_disk s) p" "us_credentials s1 = us_credentials s"
      "valid_languages (us_languages s1)" "appends (us_disk s) (us_disk s1) (\<lambda>ns. ns p = dk_nodes (us_disk s) p)" by auto
    then have "store_synced p s1" using old val by (auto simp: store_synced_def)
    moreover from k(4) obtain ds where "dk_history (us_disk s1) = dk_history (us_disk s) @ ds"
      "\<And>ns. ns \<in> set ds \<Longrightarrow> ns p = dk_nodes (us_disk s) p" by (auto simp: appends_def)
    ultimately show ?thesis using old_restart unfolding store_moved_def by blast
  qed
  show "store_moved p s (s1\<lparr>us_credentials := cs, us_languages := ls'\<rparr>)" if "r = Inr ()" "valid_languages ls'"
  proof -
    from that w obtain raw where k: "dk_nodes (us_disk s1) p = Some (TextFile raw)" "reads raw (sort_key fst cs) (sort_key fst ls)"
      "appends (us_disk s) (us_disk s1) (\<lambda>ns. ns p = dk_nodes (us_disk s) p \<or> ns p = Some (TextFile raw))" by auto
    have m: "map_of (sort_key fst cs) = map_of cs" using v(1) by (intro map_of_sorted) (simp add: valid_entries_def)
    have "store_synced p (s1\<lparr>us_credentials := cs, us_languages := ls'\<rparr>)"
      using k(1,2) m v(1) that(2) by (auto simp: store_synced_def)
    moreover have new_restart: "ns p = Some (TextFile raw) \<Longrightarrow> restart_credentials p ns = Some (map_of cs)" for ns
      using restart_text[OF _ k(2)] m by simp
    moreover from k(3) obtain ds where "dk_history (us_disk s1) = dk_history (us_disk s) @ ds"
      "\<And>ns. ns \<in> set ds \<Longrightarrow> ns p = dk_nodes (us_disk s) p \<or> ns p = Some (TextFile raw)" by (auto simp: appends_def)
    ultimately show ?thesis unfolding store_moved_def
      by (intro conjI exI[of _ ds] ballI) (simp_all, metis old_restart new_restart)
  qed
qed

lemma unmoved_credentials: "us_credentials s1 = us_credentials s \<Longrightarrow> s1\<lparr>us_credentials := us_credentials s\<rparr> = s1"
  by (cases s1) simp

lemma op_moves: "store_synced p s \<Longrightarrow> store_moved p s (apply_user_op fails p x s)"
proof (induction fails p x s rule: apply_user_op.induct)
  case (1 fails p uid c s)
  then have val: "valid_entries (us_credentials s)" "valid_languages (us_languages s)" by (auto simp: store_synced_def)
  show ?case
  proof (cases "uid > 0 \<and> valid_credentials c")
    case False
    then have "snd (store_credentials fails p uid c s) = s"
      by (cases "uid > 0") (auto simp: store_credentials_def validate_user_id_def ensure_def jira_credentials_post_init_def valid_credentials_def)
    with 1 show ?thesis by (simp add: store_moved_refl)
  next
    case True
    let ?cs = "AList.update uid c (us_credentials s)"
    obtain r s1 where w: "write_store fails p ?cs None s = (r, s1)" by (cases "write_store fails p ?cs None s")
    have v: "valid_entries ?cs" using val(1) True by (simp add: valid_entries_update)
    have "store_credentials fails p uid c s =
        sx_bind (write_store fails p ?cs None) (\<lambda>_. sx_modify (\<lambda>s. s\<lparr>us_credentials := ?cs\<rparr>)) s"
      using True post_init_valid[of c c] by (simp add: store_credentials_def validate_user_id_def ensure_def)
    then have run: "snd (store_credentials fails p uid c s) = (if isl r then s1 else s1\<lparr>us_credentials := ?cs\<rparr>)"
      using w by (cases r) (simp_all add: sx_bind_def)
    note m = write_moves[OF 1 w v val(2)]
    have s1: "valid_languages (us_languages s1)" using write_store_outcome[OF w v val(2) _ val(2)] by simp
    have "s1\<lparr>us_credentials := ?cs, us_languages := us_languages s1\<rparr> = s1\<lparr>us_credentials := ?cs\<rparr>" by simp
    with run m(1) m(2)[OF _ _ s1] show ?thesis by (cases r) auto
  qed
next
  case (2 fails p uid s)
  then have val: "valid_entries (us_credentials s)" "valid_languages (us_languages s)" by (auto simp: store_synced_def)
  show ?case
  proof (cases "uid > 0 \<and> map_of (us_credentials s) uid \<noteq> None")
    case False
    then have "snd (remove_credentials fails p uid s) = s"
      by (cases "uid > 0") (auto simp: remove_credentials_def validate_user_id_def ensure_def)
    with 2 show ?thesis by (simp add: store_moved_refl)
  next
    case True
    let ?cs = "AList.delete uid (us_credentials s)"
    obtain r s1 where w: "write_store fails p ?cs None s = (r, s1)" by (cases "write_store fails p ?cs None s")
    have v: "valid_entries ?cs" using val(1) by (rule valid_entries_delete)
    have run: "snd (remove_credentials fails p uid s) = (if isl r then s1 else s1\<lparr>us_credentials := ?cs\<rparr>)"
      using True w by (cases r) (auto simp: remove_credentials_def validate_user_id_def ensure_def sx_bind_def sx_modify_def)
    note m = write_moves[OF 2 w v val(2)]
    have s1: "valid_languages (us_languages s1)" using write_store_outcome[OF w v val(2) _ val(2)] by simp
    have "s1\<lparr>us_credentials := ?cs, us_languages := us_languages s1\<rparr> = s1\<lparr>us_credentials := ?cs\<rparr>" by simp
    with run m(1) m(2)[OF _ _ s1] show ?thesis by (cases r) auto
  qed
next
  case (3 fails p uid lang s)
  then have val: "valid_entries (us_credentials s)" "valid_languages (us_languages s)" by (auto simp: store_synced_def)
  show ?case
  proof (cases "uid > 0")
    case False
    then have "snd (set_language fails p uid lang s) = s" by (simp add: set_language_def validate_user_id_def ensure_def)
    with 3 show ?thesis by (simp add: store_moved_refl)
  next
    case True
    let ?l = "if lang \<in> set store_languages then lang else ''zh_TW''"
    let ?ls = "AList.update uid ?l (us_languages s)"
    obtain r s1 where w: "write_store fails p (us_credentials s) (Some ?ls) s = (r, s1)"
      by (cases "write_store fails p (us_credentials s) (Some ?ls) s")
    have vl: "valid_languages ?ls" using val(2) True by (intro valid_update) (auto simp: store_languages_def)
    have run: "snd (set_language fails p uid lang s) = (if isl r then s1 else s1\<lparr>us_languages := ?ls\<rparr>)"
      using True w by (cases r) (simp_all add: set_language_def validate_user_id_def ensure_def sx_bind_def sx_modify_def Let_def)
    note m = write_moves[OF 3 w val(1) vl]
    have "us_credentials s1 = us_credentials s" using write_store_outcome[OF w val(1) vl _ val(2)] by simp
    then have "s1\<lparr>us_credentials := us_credentials s, us_languages := ?ls\<rparr> = s1\<lparr>us_languages := ?ls\<rparr>"
      by (simp add: unmoved_credentials)
    with run m(1) m(2)[OF _ _ vl] show ?thesis by (cases r) auto
  qed
qed

interpretation us: crash_safe "store_synced p" "\<lambda>s. map_of (us_credentials s)" "\<lambda>s. dk_history (us_disk s)"
    "restart_credentials p" "apply_user_op fails p" for p fails
proof
  fix s x assume "store_synced p s"
  from op_moves[OF this] show "store_synced p (apply_user_op fails p x s)" by (simp add: store_moved_def)
next
  fix s x assume "store_synced p s"
  from op_moves[OF this] show "\<exists>ds. dk_history (us_disk (apply_user_op fails p x s)) = dk_history (us_disk s) @ ds \<and>
      (\<forall>d \<in> set ds. restart_credentials p d = Some (map_of (us_credentials s)) \<or>
        restart_credentials p d = Some (map_of (us_credentials (apply_user_op fails p x s))))"
    by (simp add: store_moved_def)
qed

section \<open>The errors of a write\<close>

definition data_error :: "exn \<Rightarrow> bool" where
  "data_error e \<longleftrightarrow> (\<exists>m. e = UserStoreError m \<or> e = ValueError m)"

lemma data_errors [simp]: "data_error (UserStoreError m)" "data_error (ValueError m)"
  by (simp_all add: data_error_def)

lemma rbind_eq_Inl: "rbind r f = Inl e \<longleftrightarrow> r = Inl e \<or> (\<exists>x. r = Inr x \<and> f x = Inl e)"
  by (cases r) auto

lemma parse_key_error: "parse_user_id_key k = Inl e \<Longrightarrow> data_error e"
  by (auto simp: parse_user_id_key_def rbind_eq_Inl py_int_text_def split: if_splits)

lemma parse_entry_error: "parse_entry v = Inl e \<Longrightarrow> data_error e"
  by (auto simp: parse_entry_def jira_credentials_post_init_def split: json.splits option.splits if_splits)

lemma parse_payload_error: "parse_payload ms acc = Inl e \<Longrightarrow> data_error e"
  by (induction ms acc rule: parse_payload.induct) (auto simp: rbind_eq_Inl dest: parse_key_error parse_entry_error)

lemma parse_languages_error: "parse_languages ms acc = Inl e \<Longrightarrow> data_error e"
proof (induction ms acc rule: parse_languages.induct)
  case (2 key v rest acc)
  then show ?case
    by (auto split: json.splits if_splits sum.splits exn.splits dest: parse_key_error)
qed simp

lemma parse_document_error: "parse_store_document data t = (Inl e, t') \<Longrightarrow> data_error e"
proof (cases data)
  case (JObj ms)
  assume run: "parse_store_document data t = (Inl e, t')"
  have "store_payload ms = Inl x \<Longrightarrow> data_error x" for x
    by (auto simp: store_payload_def split: option.splits if_splits json.splits)
  moreover have "document_languages ms = Inl x \<Longrightarrow> data_error x" for x
    by (auto simp: document_languages_def split: option.splits json.splits dest: parse_languages_error)
  ultimately show ?thesis using run JObj parse_payload_error
    by (cases "store_payload ms"; cases "document_languages ms") (auto simp: parse_store_document_def)
qed (auto simp: parse_store_document_def)

lemma write_error:
  assumes "write_store fails p cs languages t = (Inl e, t')"
  shows "e = OSError \<or> data_error e"
proof -
  obtain q u where ser: "serialize_store cs languages t = (q, u)" by (cases "serialize_store cs languages t")
  show ?thesis
  proof (cases q)
    case (Inl x)
    have "data_error x" if "sx_bind (parse_store_document doc) (\<lambda>_. sx_return y) t = (Inl x, u)" for doc and y :: string
      using that parse_document_error[of doc t x] by (auto simp: sx_bind_def split: prod.splits sum.splits)
    then have "data_error x" using ser Inl by (auto simp: serialize_store_def Let_def split: if_splits option.splits)
    then show ?thesis using assms ser Inl by (simp add: write_store_def sx_bind_app)
  next
    case (Inr c)
    then obtain d where aw: "user_atomic_write fails p c (us_disk u) = (Inl e, d)"
      using assms ser by (auto simp: write_store_def sx_bind_app on_disk_def split: prod.splits)
    then show ?thesis
      by (auto simp: user_atomic_write_def sx_bind_def disk_io_def sx_try_def copy_file_best_effort_def replace_file_def
          split: if_splits option.splits)
  qed
qed

section \<open>Properties\<close>

abbreviation run_user_ops :: "faults \<Rightarrow> string \<Rightarrow> user_op list \<Rightarrow> user_store \<Rightarrow> user_store" where
  "run_user_ops fails p ops \<equiv> fold (apply_user_op fails p) ops"

text \<open>
  C24. Memory is updated only with what is on the disk: from a store in step with its file, after any sequence of
  operations with faults of the file system at any moments, the store is in step again, and a
  restart answers for every user the credentials the running store answers.
\<close>

theorem store_matches_disk:
  assumes "store_synced p s"
  shows "store_synced p (run_user_ops fails p ops s) \<and>
    restart_credentials p (dk_nodes (us_disk (run_user_ops fails p ops s))) =
      Some (\<lambda>uid. get_credentials uid (run_user_ops fails p ops s))"
  using us.runs_hold[OF assms, of fails ops] synced_restart by (simp add: get_credentials_def[abs_def])

text \<open>
  C25. A crash loses at most the operation in progress: whatever content the disk had at any moment of a run of
  operations with any faults, a restart on that content answers the credentials of the store after some
  number of completed operations of the run.
\<close>

theorem store_survives_crash:
  assumes "store_synced p s" "dk_history (us_disk (run_user_ops fails p ops s)) = dk_history (us_disk s) @ ds" "ns \<in> set ds"
  shows "\<exists>n \<le> length ops. restart_credentials p ns = Some (map_of (us_credentials (run_user_ops fails p (take n ops) s)))"
  using assms by (rule us.crash_recovers)

text \<open>
  The language of a user is not kept that way: when the write of \<open>set_language\<close> fails, the call raises and the disk
  is unchanged, but the store answers the new language from then on.
\<close>

theorem language_changes_without_write:
  assumes "store_synced p s" "uid > 0" "lang \<in> set store_languages" "fails (dk_ops (us_disk s))"
    and "serialize_store (us_credentials s) (Some (AList.update uid lang (us_languages s))) s = (Inr raw, t)"
  shows "fst (set_language fails p uid lang s) = Inl OSError \<and>
    dk_nodes (us_disk (snd (set_language fails p uid lang s))) = dk_nodes (us_disk s) \<and>
    get_language uid (snd (set_language fails p uid lang s)) = lang"
proof -
  let ?ls = "AList.update uid lang (us_languages s)"
  from assms(1) have val: "valid_entries (us_credentials s)" "valid_languages (us_languages s)" "dk_nodes (us_disk s) p \<noteq> Some Directory"
    by (auto simp: store_synced_def)
  have vl: "valid_languages ?ls" using val(2) assms(2,3) by (intro valid_update)
  have t: "t = s\<lparr>us_languages := sort_key fst ?ls\<rparr>" using serialize_Inr[OF assms(5) val(1) vl] by simp
  have w: "write_store fails p (us_credentials s) (Some ?ls) s = (Inl OSError, t\<lparr>us_disk := (us_disk s)\<lparr>dk_ops := Suc (dk_ops (us_disk s))\<rparr>\<rparr>)"
    using assms(4) val(3) t by (simp add: write_store_def sx_bind_app assms(5) on_disk_def user_atomic_write_def disk_io_def)
  have "set_language fails p uid lang s = (Inl OSError, t\<lparr>us_disk := (us_disk s)\<lparr>dk_ops := Suc (dk_ops (us_disk s))\<rparr>\<rparr>)"
    using assms(2,3) w by (simp add: set_language_def validate_user_id_def ensure_def sx_bind_Inl)
  moreover have "map_of (sort_key fst ?ls) uid = Some lang"
    using map_of_sorted[of ?ls] vl by (simp add: valid_languages_def update_conv')
  ultimately show ?thesis by (simp add: t get_language_def)
qed

text \<open>
  One failed read at start-up rolls the store back: when the main file and the previous copy are readable but the
  first operation on the file system fails, and initialisation returns, the store answers the previous copy and the
  newer file has been put aside as corrupt.
\<close>

theorem failed_read_rolls_back:
  assumes "ns p = Some (TextFile raw)" "ns (previous_path p) = Some (TextFile raw0)" "ns (corrupt_path p) = None"
    and "reads raw0 cs0 ls0"
    and "initialize_store (\<lambda>n. n = 0) p (user_store_init \<lparr>dk_nodes = ns, dk_stamps = st, dk_ops = 0, dk_history = []\<rparr>) = (Inr (), s')"
  shows "us_credentials s' = cs0 \<and> dk_nodes (us_disk s') (corrupt_path p) = Some (TextFile raw)"
proof -
  let ?f = "\<lambda>n::nat. n = 0" and ?d = "\<lparr>dk_nodes = ns, dk_stamps = st, dk_ops = 0, dk_history = []\<rparr>"
  let ?s1 = "user_store_init (?d\<lparr>dk_ops := 1\<rparr>)"
  obtain d2 where q: "quarantine_corrupt ?f p (?d\<lparr>dk_ops := 1\<rparr>) = (Inr (), d2)"
    and d2: "dk_nodes d2 = ns(corrupt_path p := Some (TextFile raw), p := None)" "dk_ops d2 = 2"
    using assms(1,3) by (simp add: quarantine_corrupt_def is_file_def sx_try_def sx_bind_def disk_io_def disk_change_def)
  let ?s2 = "user_store_init d2" and ?s3 = "\<lparr>us_credentials = [], us_languages = ls0, us_disk = d2\<lparr>dk_ops := 3\<rparr>\<rparr>"
  have ne: "previous_path p \<noteq> p" "previous_path p \<noteq> corrupt_path p" "corrupt_path p \<noteq> p" by simp_all
  have prev: "dk_nodes d2 (previous_path p) = Some (TextFile raw0)" using d2 ne assms(2) by simp
  have rd: "read_store_from ?f (previous_path p) ?s2 = (Inr cs0, ?s3)"
    using assms(4) prev d2 by (simp add: read_store_from_def sx_bind_def on_disk_def disk_io_def user_store_init_def reads_def)
  have "load_with_recovery ?f p (user_store_init ?d) = recover_previous ?f p ?s2"
    using assms(1) q by (simp add: load_with_recovery_def sx_try_def read_store_from_def sx_bind_def on_disk_def disk_io_def
        user_store_init_def recoverable_def)
  with assms(5) obtain cs s4 where rec: "recover_previous ?f p ?s2 = (Inr cs, s4)" and s': "s' = s4\<lparr>us_credentials := cs\<rparr>"
    by (auto simp: initialize_store_def sx_bind_eq_Inr)
  obtain r s5 where w: "write_store ?f p cs0 None ?s3 = (r, s5)" by (cases "write_store ?f p cs0 None ?s3")
  have r: "cs = cs0 \<and> s4 = s5"
  proof (cases r)
    case (Inr u)
    with rec rd w prev show ?thesis
      by (simp add: recover_previous_def user_store_init_def is_file_def sx_try_def sx_bind_def)
  next
    case (Inl e)
    with w write_error[of ?f p cs0 None ?s3 e s5] have "e = OSError \<or> data_error e" by simp
    with Inl rec rd w prev show ?thesis
      by (auto simp: data_error_def recover_previous_def user_store_init_def is_file_def sx_try_def sx_bind_def recoverable_def
          split: if_splits exn.splits)
  qed
  have "dk_nodes (us_disk s5) (corrupt_path p) = Some (TextFile raw)"
  proof -
    obtain q t where ser: "serialize_store cs0 None ?s3 = (q, t)" by (cases "serialize_store cs0 None ?s3")
    with serialize_state[of cs0 None ?s3] have td: "us_disk t = d2\<lparr>dk_ops := 3\<rparr>" by auto
    show ?thesis
    proof (cases q)
      case (Inl e)
      with w ser td d2 ne show ?thesis by (auto simp: write_store_def sx_bind_Inl)
    next
      case (Inr c)
      with w ser obtain d5 where aw: "user_atomic_write ?f p c (d2\<lparr>dk_ops := 3\<rparr>) = (r, d5)" and s5: "us_disk s5 = d5"
        by (auto simp: write_store_def sx_bind_Inr on_disk_def td split: prod.splits)
      have "dk_nodes d5 (corrupt_path p) = dk_nodes d2 (corrupt_path p)"
        using aw d2(1) by (auto simp: user_atomic_write_def sx_bind_def disk_io_def is_file_def replace_file_def)
      with s5 d2 ne show ?thesis by simp
    qed
  qed
  with r s' show ?thesis by simp
qed

section \<open>A store of one user\<close>

definition sample_user :: jira_credentials where
  "sample_user = \<lparr>jc_username = ''ann'', jc_display_name = ''Ann'', jc_pat = ''t''\<rparr>"

definition sample_store_text :: string where
  "sample_store_text = json_dumps (store_document [(7, sample_user)] []) @ [CHR 0x0A]"

definition sample_disk :: disk where
  "sample_disk = \<lparr>dk_nodes = [''u'' \<mapsto> TextFile sample_store_text, ''u.prev'' \<mapsto> TextFile []], dk_stamps = (\<lambda>_. 0),
     dk_ops = 0, dk_history = []\<rparr>"

definition sample_user_store :: user_store where
  "sample_user_store = \<lparr>us_credentials = [(7, sample_user)], us_languages = [], us_disk = sample_disk\<rparr>"

lemma sample_user_valid: "valid_entries [(7, sample_user)]" "valid_languages []"
  by (simp_all add: valid_entries_def valid_languages_def valid_credentials_def sample_user_def py_strip_def is_space_def)

lemma text_bytes_le: "text_bytes s \<le> 2 * length s"
  by (induction s) (auto simp: text_bytes_def utf8_bytes_def Let_def)

lemma sample_text_small: "text_bytes sample_store_text \<le> MAX_STORE_BYTES"
proof -
  have "length sample_store_text < 1000"
    by (simp add: sample_store_text_def json_dumps_def store_document_def credential_member_def sample_user_def json_quote_def
        json_newline_def json_escape_def decimal_int_def decimal.simps)
  with text_bytes_le[of sample_store_text] show ?thesis by (simp add: MAX_STORE_BYTES_def)
qed

lemma sample_parse: "parse_store_document (store_document [(7, sample_user)] []) t = (Inr [(7, sample_user)], t\<lparr>us_languages := []\<rparr>)"
  using parse_store_document_short[OF sample_user_valid, of t] by (simp add: decimal_int_def decimal.simps)

lemma sample_reads: "reads sample_store_text [(7, sample_user)] []"
proof -
  have "json_loads sample_store_text = Some (store_document [(7, sample_user)] [])"
    unfolding sample_store_text_def
    by (rule json_loads_dumps[OF store_document_ok[OF sample_user_valid]]) (simp add: json_space_def)
  moreover have "py_strip sample_store_text \<noteq> []" unfolding sample_store_text_def by (rule serialized_not_blank)
  ultimately show ?thesis using sample_text_small by (simp add: reads_def read_document_def sample_parse)
qed

lemma empty_reads: "reads [] [] []"
  by (simp add: reads_def read_document_def text_bytes_def utf8_bytes_def parse_store_document_def store_payload_def document_languages_def)

lemma sample_store_synced: "store_synced ''u'' sample_user_store"
  using sample_reads sample_user_valid by (auto simp: store_synced_def sample_user_store_def sample_disk_def)

lemma store_result: "\<not> isl (fst m) \<Longrightarrow> \<exists>x s. m = (Inr x, s)"
  by (cases m; cases "fst m") auto

text \<open>Removing the user while every write fails.\<close>

theorem store_matches_disk_witness:
  "restart_credentials ''u'' (dk_nodes (us_disk (run_user_ops (\<lambda>_. True) ''u'' [OpRemove 7] sample_user_store))) =
     Some (\<lambda>uid. get_credentials uid (run_user_ops (\<lambda>_. True) ''u'' [OpRemove 7] sample_user_store))"
  using store_matches_disk [OF sample_store_synced] by blast

lemma small_empty: "text_bytes (json_dumps (store_document [] []) @ [CHR 0x0A]) \<le> MAX_STORE_BYTES"
proof -
  have "length (json_dumps (store_document [] []) @ [CHR 0x0A]) < 1000"
    by (simp add: json_dumps_def store_document_def json_quote_def json_newline_def json_escape_def decimal_int_def decimal.simps)
  with text_bytes_le[of "json_dumps (store_document [] []) @ [CHR 0x0A]"] show ?thesis by (simp add: MAX_STORE_BYTES_def)
qed

lemma serialize_empty:
  "us_languages t = [] \<Longrightarrow> serialize_store [] None t = (Inr (json_dumps (store_document [] []) @ [CHR 0x0A]), t)"
  using serialize_ok[OF _ _ _ _ small_empty, where languages = None and t = t] by (simp add: valid_entries_def valid_languages_def)

lemma sample_removed:
  "\<exists>a b. dk_history (us_disk (run_user_ops (\<lambda>_. False) ''u'' [OpRemove 7] sample_user_store)) = [a, b]"
proof -
  have "write_store (\<lambda>_. False) ''u'' [] None sample_user_store =
      (case user_atomic_write (\<lambda>_. False) ''u'' (json_dumps (store_document [] []) @ [CHR 0x0A]) sample_disk of
         (r, d) \<Rightarrow> (r, sample_user_store\<lparr>us_disk := d\<rparr>))"
    by (simp add: write_store_def sx_bind_app serialize_empty sample_user_store_def on_disk_def)
  moreover obtain d a b where "user_atomic_write (\<lambda>_. False) ''u'' (json_dumps (store_document [] []) @ [CHR 0x0A]) sample_disk = (Inr (), d)"
    "dk_history d = [a, b]"
    using sample_text_small
    by (simp add: user_atomic_write_def sx_bind_app sample_disk_def disk_io_def is_file_def sx_try_def copy_file_best_effort_def
        node_size_def replace_file_def disk_put_def disk_change_def)
  ultimately show ?thesis
    by (simp add: remove_credentials_def validate_user_id_def ensure_def sx_bind_app sample_user_store_def)
qed

theorem store_survives_crash_witness:
  "\<exists>ns n. ns \<in> set (dk_history (us_disk (run_user_ops (\<lambda>_. False) ''u'' [OpRemove 7] sample_user_store))) \<and> n \<le> 1 \<and>
     restart_credentials ''u'' ns = Some (map_of (us_credentials (run_user_ops (\<lambda>_. False) ''u'' (take n [OpRemove 7]) sample_user_store)))"
proof -
  obtain a b where h: "dk_history (us_disk (run_user_ops (\<lambda>_. False) ''u'' [OpRemove 7] sample_user_store)) = [a, b]"
    using sample_removed by blast
  then have "dk_history (us_disk (run_user_ops (\<lambda>_. False) ''u'' [OpRemove 7] sample_user_store)) =
      dk_history (us_disk sample_user_store) @ [a, b]" by (simp add: sample_user_store_def sample_disk_def)
  from store_survives_crash [OF sample_store_synced this, of a] obtain n where "n \<le> 1"
    "restart_credentials ''u'' a = Some (map_of (us_credentials (run_user_ops (\<lambda>_. False) ''u'' (take n [OpRemove 7]) sample_user_store)))"
    by auto
  with h show ?thesis by (intro exI[of _ a] exI[of _ n]) simp
qed

theorem language_changes_without_write_witness:
  "fst (set_language (\<lambda>_. True) ''u'' 7 ''en'' sample_user_store) = Inl OSError \<and>
   get_language 7 (snd (set_language (\<lambda>_. True) ''u'' 7 ''en'' sample_user_store)) = ''en''"
proof -
  have v: "valid_languages [(7, ''en'')]" by (simp add: valid_languages_def store_languages_def)
  have "length (json_dumps (store_document [(7, sample_user)] [(7, ''en'')]) @ [CHR 0x0A]) < 1000"
    by (simp add: json_dumps_def store_document_def credential_member_def sample_user_def json_quote_def
        json_newline_def json_escape_def decimal_int_def decimal.simps)
  then have b: "text_bytes (json_dumps (store_document [(7, sample_user)] [(7, ''en'')]) @ [CHR 0x0A]) \<le> MAX_STORE_BYTES"
    using text_bytes_le[of "json_dumps (store_document [(7, sample_user)] [(7, ''en'')]) @ [CHR 0x0A]"] by (simp add: MAX_STORE_BYTES_def)
  have "serialize_store (us_credentials sample_user_store) (Some (AList.update 7 ''en'' (us_languages sample_user_store))) sample_user_store =
      (Inr (json_dumps (store_document [(7, sample_user)] [(7, ''en'')]) @ [CHR 0x0A]), sample_user_store\<lparr>us_languages := [(7, ''en'')]\<rparr>)"
    using serialize_ok[OF sample_user_valid(1) v _ _ b, where languages = "Some [(7, ''en'')]" and t = sample_user_store]
    by (simp add: sample_user_store_def decimal_int_def decimal.simps)
  from language_changes_without_write [OF sample_store_synced _ _ _ this, of "\<lambda>_. True"] show ?thesis
    by (simp add: store_languages_def)
qed

theorem failed_read_rolls_back_witness:
  "\<exists>s'. initialize_store (\<lambda>n. n = 0) ''u'' (user_store_init sample_disk) = (Inr (), s') \<and> us_credentials s' = []"
proof -
  have empty: "read_document [] t = (Inr [], t\<lparr>us_languages := []\<rparr>)" for t using empty_reads by (simp add: reads_def)
  have "\<not> isl (fst (initialize_store (\<lambda>n. n = 0) ''u'' (user_store_init sample_disk)))"
    by (simp add: initialize_store_def load_with_recovery_def user_store_init_def sample_disk_def sx_try_def read_store_from_def
        on_disk_def disk_io_def sx_bind_app recoverable_def quarantine_corrupt_def is_file_def disk_change_def recover_previous_def
        empty write_store_def serialize_empty user_atomic_write_def replace_file_def disk_put_def)
  then obtain s' where run: "initialize_store (\<lambda>n. n = 0) ''u'' (user_store_init sample_disk) = (Inr (), s')"
    using store_result[of "initialize_store (\<lambda>n. n = 0) ''u'' (user_store_init sample_disk)"] by auto
  from failed_read_rolls_back [OF _ _ _ empty_reads run[unfolded sample_disk_def]] have "us_credentials s' = []" by simp
  with run show ?thesis by blast
qed

end
