(* ===== verification/Rules_Store.thy ===== *)
theory Rules_Store
  imports File_Store
begin

text \<open>
  \<open>src/src/dztgbot/rules.py\<close>: the runtime rules, kept in memory, in a primary file and in its previous version.  An
  operation runs under the store's lock.  The signature of a file (device, inode, size, modification time) is
  its stamp on the disk: a change of the file changes it.
\<close>

section \<open>The store\<close>

record rules_store =
  rl_current :: "string option"
  rl_signature :: "nat option"
  rl_disk :: disk

type_synonym 'a rules_sx = "(rules_store, exn, 'a) sx"

definition rules_init :: "int \<Rightarrow> disk \<Rightarrow> exn + rules_store" where
  "rules_init max_bytes d =
     (if max_bytes \<le> 0 then Inl (ValueError ''max_bytes must be positive'')
      else Inr \<lparr>rl_current = None, rl_signature = None, rl_disk = d\<rparr>)"

abbreviation backup_path :: "string \<Rightarrow> string" where
  "backup_path p \<equiv> p @ ''.previous''"

definition with_disk :: "'a disk_sx \<Rightarrow> 'a rules_sx" where
  "with_disk m = (\<lambda>s. case m (rl_disk s) of (r, d) \<Rightarrow> (r, s\<lparr>rl_disk := d\<rparr>))"

definition py_rstrip :: "string \<Rightarrow> string" where
  "py_rstrip s = rev (dropWhile is_space (rev s))"

definition validate_rules :: "string \<Rightarrow> exn + string" where
  "validate_rules rules =
     (if py_strip rules = [] then Inl (RulesStoreError ''Rules must not be empty.'') else Inr (py_strip rules))"

definition file_signature :: "faults \<Rightarrow> string \<Rightarrow> nat option disk_sx" where
  "file_signature fails p =
     sx_try (sx_bind (disk_io fails) (\<lambda>_. sx_get (\<lambda>d. map_option (\<lambda>_. dk_stamps d p) (dk_nodes d p))))
       (\<lambda>e. e = OSError) (\<lambda>_. sx_return None)"

definition read_validated :: "faults \<Rightarrow> nat \<Rightarrow> string \<Rightarrow> string disk_sx" where
  "read_validated fails max_bytes p =
     sx_try
       (sx_bind (disk_io fails) (\<lambda>_.
        sx_bind (sx_get (\<lambda>d. dk_nodes d p)) (\<lambda>n.
          (case n of
             None \<Rightarrow> sx_raise OSError
           | Some Directory \<Rightarrow> sx_raise OSError
           | Some OtherNode \<Rightarrow> sx_raise (RulesStoreError ''Rules path is not a regular file.'')
           | Some f \<Rightarrow>
               if node_size f > max_bytes then sx_raise (RulesStoreError ''Rules file exceeds the configured size limit.'')
               else (case f of TextFile content \<Rightarrow> sx_lift (validate_rules content)
                     | _ \<Rightarrow> sx_raise (OtherError ''UnicodeDecodeError''))))))
       (\<lambda>e. e = OSError \<or> e = OtherError ''UnicodeDecodeError'')
       (\<lambda>_. sx_raise (RulesStoreError ''Could not read rules file''))"

definition rules_atomic_write :: "faults \<Rightarrow> string \<Rightarrow> string \<Rightarrow> unit disk_sx" where
  "rules_atomic_write fails p content =
     sx_bind (disk_io fails) (\<lambda>_. replace_file fails p (TextFile (py_rstrip content @ [CHR 0x0A])))"

definition is_rules_error :: "exn \<Rightarrow> bool" where
  "is_rules_error e = (case e of RulesStoreError _ \<Rightarrow> True | _ \<Rightarrow> False)"

section \<open>Operations\<close>

definition initialize_rules :: "faults \<Rightarrow> nat \<Rightarrow> string \<Rightarrow> unit rules_sx" where
  "initialize_rules fails max_bytes p = (\<lambda>s.
     (case
        (case with_disk (read_validated fails max_bytes p) s of
           (Inl e, s1) \<Rightarrow>
             if is_rules_error e then
               (case with_disk (read_validated fails max_bytes (backup_path p)) s1 of
                  (Inl e', s2) \<Rightarrow>
                    (Inl (if is_rules_error e'
                          then RulesStoreError ''Neither the runtime rules file nor its previous version could be loaded.'' else e'), s2)
                | (Inr loaded, s2) \<Rightarrow>
                    sx_bind (sx_try (with_disk (rules_atomic_write fails p loaded)) (\<lambda>_. True) (\<lambda>_. sx_return ()))
                      (\<lambda>_. sx_return loaded) s2)
             else (Inl e, s1)
         | (Inr loaded, s1) \<Rightarrow>
             sx_bind (with_disk (rules_atomic_write fails (backup_path p) loaded)) (\<lambda>_. sx_return loaded) s1) of
        (Inl e, s3) \<Rightarrow> (Inl e, s3)
      | (Inr loaded, s3) \<Rightarrow>
          sx_bind (sx_modify (\<lambda>s. s\<lparr>rl_current := Some loaded\<rparr>)) (\<lambda>_.
          sx_bind (with_disk (file_signature fails p)) (\<lambda>sig. sx_modify (\<lambda>s. s\<lparr>rl_signature := sig\<rparr>))) s3))"

definition current_rules :: "faults \<Rightarrow> nat \<Rightarrow> string \<Rightarrow> string rules_sx" where
  "current_rules fails max_bytes p =
     sx_bind (sx_get rl_current) (\<lambda>found.
       (case found of
          None \<Rightarrow> sx_raise (RulesStoreError ''Rules store has not been initialized.'')
        | Some current \<Rightarrow>
            sx_bind (with_disk (file_signature fails p)) (\<lambda>sig.
            sx_bind (sx_get rl_signature) (\<lambda>observed.
              if sig = observed then sx_return current
              else
                sx_bind (sx_modify (\<lambda>s. s\<lparr>rl_signature := sig\<rparr>)) (\<lambda>_ s.
                  (case with_disk (read_validated fails max_bytes p) s of
                     (Inl e, s1) \<Rightarrow> if is_rules_error e then (Inr current, s1) else (Inl e, s1)
                   | (Inr loaded, s1) \<Rightarrow>
                       if loaded = current then (Inr current, s1)
                       else
                         sx_bind (with_disk (rules_atomic_write fails (backup_path p) current)) (\<lambda>_.
                         sx_bind (sx_modify (\<lambda>s. s\<lparr>rl_current := Some loaded\<rparr>)) (\<lambda>_. sx_return loaded)) s1))))))"

text \<open>The writes of \<open>replace\<close>, and what it does when one of them raises.\<close>

definition replace_files :: "faults \<Rightarrow> nat \<Rightarrow> string \<Rightarrow> string \<Rightarrow> string \<Rightarrow> string rules_sx" where
  "replace_files fails max_bytes p previous validated =
     sx_bind (with_disk (rules_atomic_write fails (backup_path p) previous)) (\<lambda>_.
     sx_bind (with_disk (rules_atomic_write fails p validated)) (\<lambda>_.
       with_disk (read_validated fails max_bytes p)))"

definition restore_rules :: "faults \<Rightarrow> string \<Rightarrow> string \<Rightarrow> string rules_sx" where
  "restore_rules fails p previous =
     sx_bind (sx_try (with_disk (rules_atomic_write fails p previous)) (\<lambda>_. True) (\<lambda>_. sx_return ())) (\<lambda>_.
     sx_bind (sx_modify (\<lambda>s. s\<lparr>rl_current := Some previous\<rparr>)) (\<lambda>_.
       sx_raise (RulesStoreError ''The new rules could not be saved; the previous rules remain active.'')))"

definition replace_rules :: "faults \<Rightarrow> nat \<Rightarrow> string \<Rightarrow> string \<Rightarrow> unit rules_sx" where
  "replace_rules fails max_bytes p new_rules =
     sx_bind (sx_lift (validate_rules new_rules)) (\<lambda>validated.
     sx_bind (sx_get rl_current) (\<lambda>found.
       (case found of
          None \<Rightarrow> sx_raise (RulesStoreError ''Rules store has not been initialized.'')
        | Some previous \<Rightarrow>
            sx_bind (sx_try (replace_files fails max_bytes p previous validated) (\<lambda>_. True)
                       (\<lambda>_. restore_rules fails p previous)) (\<lambda>reloaded.
            sx_bind (sx_modify (\<lambda>s. s\<lparr>rl_current := Some reloaded\<rparr>)) (\<lambda>_.
            sx_bind (with_disk (file_signature fails p)) (\<lambda>sig. sx_modify (\<lambda>s. s\<lparr>rl_signature := sig\<rparr>)))))))"

section \<open>Stripped texts\<close>

definition stripped :: "string \<Rightarrow> bool" where
  "stripped v \<longleftrightarrow> v \<noteq> [] \<and> \<not> is_space (hd v) \<and> \<not> is_space (last v)"

lemma dropWhile_hd: "v \<noteq> [] \<Longrightarrow> \<not> P (hd v) \<Longrightarrow> dropWhile P v = v"
  by (cases v) simp_all

lemma last_dropWhile: "dropWhile P xs \<noteq> [] \<Longrightarrow> last (dropWhile P xs) = last xs"
  by (metis last_appendR takeWhile_dropWhile_id)

lemma stripped_strip: "py_strip s \<noteq> [] \<Longrightarrow> stripped (py_strip s)"
proof -
  let ?a = "dropWhile is_space s"
  let ?b = "dropWhile is_space (rev ?a)"
  assume "py_strip s \<noteq> []"
  then have b: "?b \<noteq> []" by (simp add: py_strip_def)
  have a: "?a \<noteq> []" using b by (metis dropWhile.simps(1) rev.simps(1))
  have "\<not> is_space (hd ?b)" using hd_dropWhile[OF b] .
  moreover have "last ?b = hd ?a" using last_dropWhile[OF b] a by (simp add: last_rev)
  moreover have "\<not> is_space (hd ?a)" using hd_dropWhile[OF a] .
  ultimately show ?thesis using b by (simp add: stripped_def py_strip_def hd_rev last_rev)
qed

lemma strip_stripped: "stripped v \<Longrightarrow> py_strip v = v"
  by (simp add: stripped_def py_strip_def dropWhile_hd hd_rev)

lemma rstrip_stripped: "stripped v \<Longrightarrow> py_rstrip v = v"
  by (simp add: stripped_def py_rstrip_def dropWhile_hd hd_rev)

lemma strip_newline: "stripped v \<Longrightarrow> py_strip (v @ [CHR 0x0A]) = v"
proof -
  assume v: "stripped v"
  then have "dropWhile is_space (v @ [CHR 0x0A]) = v @ [CHR 0x0A]" by (intro dropWhile_hd) (simp_all add: stripped_def)
  moreover have "is_space (CHR 0x0A)" by (simp add: is_space_def)
  ultimately show ?thesis using v by (simp add: py_strip_def stripped_def dropWhile_hd hd_rev)
qed

lemma validate_rules_Inr: "validate_rules t = Inr v \<longleftrightarrow> v = py_strip t \<and> stripped v"
  using stripped_strip[of t] by (auto simp: validate_rules_def stripped_def)

section \<open>Reading and writing the files\<close>

text \<open>What a file says to the store.\<close>

definition rules_in :: "nat \<Rightarrow> node option \<Rightarrow> string option" where
  "rules_in max_bytes n = (case n of
     Some (TextFile t) \<Rightarrow> if text_bytes t \<le> max_bytes \<and> py_strip t \<noteq> [] then Some (py_strip t) else None
   | _ \<Rightarrow> None)"

lemma rules_in_stripped: "rules_in m n = Some v \<Longrightarrow> stripped v"
  by (auto simp: rules_in_def stripped_strip split: option.splits node.splits if_splits)

lemma rules_in_written: "stripped v \<Longrightarrow> text_bytes (v @ [CHR 0x0A]) \<le> m \<Longrightarrow> rules_in m (Some (TextFile (v @ [CHR 0x0A]))) = Some v"
  by (simp add: rules_in_def strip_newline) (simp add: stripped_def)

lemma read_validated_cases:
  obtains (read) v where "read_validated fails m p d = (Inr v, d\<lparr>dk_ops := Suc (dk_ops d)\<rparr>)" "rules_in m (dk_nodes d p) = Some v"
      "\<not> fails (dk_ops d)"
  | (refused) msg where "read_validated fails m p d = (Inl (RulesStoreError msg), d\<lparr>dk_ops := Suc (dk_ops d)\<rparr>)"
      "fails (dk_ops d) \<or> rules_in m (dk_nodes d p) = None"
proof (cases "fails (dk_ops d)")
  case True
  then show ?thesis by (intro refused) (simp_all add: read_validated_def sx_try_def sx_bind_def disk_io_def)
next
  case False
  show ?thesis
  proof (cases "rules_in m (dk_nodes d p)")
    case (Some v)
    with False show ?thesis
      by (intro read[of v]) (auto simp: read_validated_def sx_try_def sx_bind_def disk_io_def rules_in_def node_size_def
          validate_rules_def split: option.splits node.splits if_splits)
  next
    case None
    with False have "\<exists>msg. read_validated fails m p d = (Inl (RulesStoreError msg), d\<lparr>dk_ops := Suc (dk_ops d)\<rparr>)"
      by (auto simp: read_validated_def sx_try_def sx_bind_def disk_io_def rules_in_def node_size_def
          validate_rules_def split: option.splits node.splits if_splits)
    with None show ?thesis using refused by blast
  qed
qed

lemma rules_write_cases:
  assumes "stripped v"
  obtains (written) d' where "rules_atomic_write fails p v d = (Inr (), d')" "dk_nodes d' = (dk_nodes d)(p \<mapsto> TextFile (v @ [CHR 0x0A]))"
      "dk_history d' = dk_history d @ [(dk_nodes d)(p \<mapsto> TextFile (v @ [CHR 0x0A]))]"
  | (failed) d' where "rules_atomic_write fails p v d = (Inl OSError, d')" "dk_nodes d' = dk_nodes d" "dk_history d' = dk_history d"
proof (cases rule: disk_io_cases[of fails d])
  case 1
  let ?d = "d\<lparr>dk_ops := Suc (dk_ops d)\<rparr>"
  from 1 have w: "rules_atomic_write fails p v d = replace_file fails p (TextFile (v @ [CHR 0x0A])) ?d"
    by (simp add: rules_atomic_write_def sx_bind_app rstrip_stripped[OF assms])
  show ?thesis
    by (cases rule: replace_file_cases[of fails p "TextFile (v @ [CHR 0x0A])" ?d])
      (use w in \<open>auto intro: written failed\<close>)
next
  case 2
  then show ?thesis by (intro failed[of "d\<lparr>dk_ops := Suc (dk_ops d)\<rparr>"]) (simp_all add: rules_atomic_write_def sx_bind_app)
qed

lemma signature_app:
  "file_signature fails p d =
     (Inr (if fails (dk_ops d) then None else map_option (\<lambda>_. dk_stamps d p) (dk_nodes d p)), d\<lparr>dk_ops := Suc (dk_ops d)\<rparr>)"
  by (simp add: file_signature_def sx_try_def sx_bind_def disk_io_def)

section \<open>What the operations leave\<close>

lemma with_disk_app: "with_disk m s = (fst (m (rl_disk s)), s\<lparr>rl_disk := snd (m (rl_disk s))\<rparr>)"
  by (simp add: with_disk_def split: prod.splits)

lemma replace_unvalidated: "py_strip t = [] \<Longrightarrow> \<exists>msg. replace_rules fails m p t s = (Inl (RulesStoreError msg), s)"
  by (simp add: replace_rules_def validate_rules_def)

text \<open>The rollback raises, keeps the previous rules active, and writes nothing but them.\<close>

lemma restore_outcome:
  assumes "stripped old"
  shows "\<exists>msg d'. restore_rules fails p old s = (Inl (RulesStoreError msg), s\<lparr>rl_disk := d', rl_current := Some old\<rparr>) \<and>
    (\<exists>ds. dk_history d' = dk_history (rl_disk s) @ ds \<and>
      (\<forall>ns \<in> set ds. ns = (dk_nodes (rl_disk s))(p \<mapsto> TextFile (old @ [CHR 0x0A]))))"
proof -
  have run: "restore_rules fails p old s = (Inl (RulesStoreError ''The new rules could not be saved; the previous rules remain active.''),
      s\<lparr>rl_disk := d', rl_current := Some old\<rparr>)" if "rules_atomic_write fails p old (rl_disk s) = (q, d')" for q d'
    using that by (cases q) (simp_all add: restore_rules_def sx_bind_def sx_try_def with_disk_app sx_modify_def)
  show ?thesis
  proof (cases rule: rules_write_cases[OF assms, of fails p "rl_disk s"])
    case (1 d')
    with run[OF 1(1)] 1(3) show ?thesis
      by (intro exI conjI) (assumption, assumption, simp)
  next
    case (2 d')
    from run[OF 2(1)] 2(3) show ?thesis
      by (intro exI[of _ "[]"] exI conjI) (assumption, simp, simp)
  qed
qed

text \<open>
  \<open>kept\<close>: a content of the disk from which a restart knows the old or the new rules: the primary file holds one
  of them, or the backup, which is consulted when the primary cannot be read, holds the old ones.
\<close>

definition rules_kept :: "nat \<Rightarrow> string \<Rightarrow> string \<Rightarrow> string \<Rightarrow> nodes \<Rightarrow> bool" where
  "rules_kept m p old new ns \<longleftrightarrow> ns (backup_path p) \<noteq> Some Directory \<and>
     (rules_in m (ns p) \<in> {Some old, Some new} \<or> rules_in m (ns p) = None \<and> rules_in m (ns (backup_path p)) = Some old)"

lemma replace_outcome:
  assumes run: "replace_rules fails m p t s = (r, s')" and cur: "rl_current s = Some old" "stripped old"
    and fits: "text_bytes (old @ [CHR 0x0A]) \<le> m" "rules_in m (dk_nodes (rl_disk s) p) = Some old"
      "dk_nodes (rl_disk s) (backup_path p) \<noteq> Some Directory"
  shows "(if isl r then (\<exists>msg. r = Inl (RulesStoreError msg)) \<and> rl_current s' = Some old
     else rl_current s' = Some (py_strip t) \<and> rules_in m (dk_nodes (rl_disk s') p) = Some (py_strip t) \<and>
       rules_in m (dk_nodes (rl_disk s') (backup_path p)) = Some old) \<and>
    (\<exists>ds. dk_history (rl_disk s') = dk_history (rl_disk s) @ ds \<and> (\<forall>ns \<in> set ds. rules_kept m p old (py_strip t) ns))"
proof (cases "py_strip t = []")
  case True
  from replace_unvalidated[OF this, of fails m p s] obtain msg where "(r, s') = (Inl (RulesStoreError msg), s)" using run by auto
  with cur show ?thesis by simp
next
  case False
  let ?new = "py_strip t"
  have new: "stripped ?new" using stripped_strip[OF False] .
  have ne: "p \<noteq> backup_path p" by simp
  let ?n0 = "dk_nodes (rl_disk s)"
  let ?n1 = "?n0(backup_path p \<mapsto> TextFile (old @ [CHR 0x0A]))"
  let ?n2 = "?n1(p \<mapsto> TextFile (?new @ [CHR 0x0A]))"
  have bk: "rules_in m (Some (TextFile (old @ [CHR 0x0A]))) = Some old" by (rule rules_in_written[OF cur(2) fits(1)])
  have k0: "rules_kept m p old ?new ?n0" using fits by (simp add: rules_kept_def)
  have k0': "rules_kept m p old ?new (?n0(p \<mapsto> TextFile (old @ [CHR 0x0A])))" using fits bk by (simp add: rules_kept_def)
  have k1: "rules_kept m p old ?new ?n1" using fits ne by (simp add: rules_kept_def)
  have k1': "rules_kept m p old ?new (?n1(p \<mapsto> TextFile (old @ [CHR 0x0A])))" using bk ne by (simp add: rules_kept_def)
  have in2: "rules_in m (Some (TextFile (?new @ [CHR 0x0A]))) \<in> {Some ?new, None}"
    using rules_in_written[OF new] by (cases "text_bytes (?new @ [CHR 0x0A]) \<le> m") (auto simp: rules_in_def)
  have k2: "rules_kept m p old ?new ?n2" using in2 bk ne by (auto simp: rules_kept_def)
  have run: "(r, s') = sx_bind (sx_try (replace_files fails m p old ?new) (\<lambda>_. True) (\<lambda>_. restore_rules fails p old)) (\<lambda>reloaded.
            sx_bind (sx_modify (\<lambda>s. s\<lparr>rl_current := Some reloaded\<rparr>)) (\<lambda>_.
            sx_bind (with_disk (file_signature fails p)) (\<lambda>sig. sx_modify (\<lambda>s. s\<lparr>rl_signature := sig\<rparr>)))) s"
    using run cur False by (simp add: replace_rules_def validate_rules_def)
  have failure: "?thesis" if f: "replace_files fails m p old ?new s = (Inl e, u)"
    and h: "dk_history (rl_disk u) = dk_history (rl_disk s) @ hs" "\<And>ns. ns \<in> set hs \<Longrightarrow> rules_kept m p old ?new ns"
    and k: "rules_kept m p old ?new ((dk_nodes (rl_disk u))(p \<mapsto> TextFile (old @ [CHR 0x0A])))" for e u hs
  proof -
    from restore_outcome[OF cur(2), of fails p u] obtain msg d' ds where
      res: "restore_rules fails p old u = (Inl (RulesStoreError msg), u\<lparr>rl_disk := d', rl_current := Some old\<rparr>)"
      and ds: "dk_history d' = dk_history (rl_disk u) @ ds"
        "\<And>ns. ns \<in> set ds \<Longrightarrow> ns = (dk_nodes (rl_disk u))(p \<mapsto> TextFile (old @ [CHR 0x0A]))" by blast
    have "(r, s') = (Inl (RulesStoreError msg), u\<lparr>rl_disk := d', rl_current := Some old\<rparr>)"
      using run f res by (simp add: sx_bind_def sx_try_def)
    moreover have "rules_kept m p old ?new ns" if "ns \<in> set (hs @ ds)" for ns
      using that h(2) ds(2)[of ns] k by auto
    ultimately show ?thesis using h(1) ds(1) by (intro conjI exI[of _ "hs @ ds"]) auto
  qed
  have success: "?thesis" if f: "replace_files fails m p old ?new s = (Inr v, u)"
    and h: "dk_history (rl_disk u) = dk_history (rl_disk s) @ hs" "\<And>ns. ns \<in> set hs \<Longrightarrow> rules_kept m p old ?new ns"
    and k: "v = ?new" "rules_in m (dk_nodes (rl_disk u) p) = Some ?new" "rules_in m (dk_nodes (rl_disk u) (backup_path p)) = Some old"
    for v u hs
  proof -
    obtain sig d' where sig: "file_signature fails p (rl_disk u) = (Inr sig, d')" "dk_nodes d' = dk_nodes (rl_disk u)"
      "dk_history d' = dk_history (rl_disk u)" by (simp add: signature_app)
    have "(r, s') = (Inr (), u\<lparr>rl_current := Some ?new, rl_disk := d', rl_signature := sig\<rparr>)"
      using run f sig(1) k(1) by (simp add: sx_bind_def sx_try_def with_disk_app sx_modify_def)
    with h sig k(2,3) show ?thesis by auto
  qed
  show ?thesis
  proof (cases rule: rules_write_cases[OF cur(2), of fails "backup_path p" "rl_disk s"])
    case failed: (2 d1)
    have "replace_files fails m p old ?new s = (Inl OSError, s\<lparr>rl_disk := d1\<rparr>)"
      using failed(1) by (simp add: replace_files_def sx_bind_def with_disk_app)
    from failure[OF this, of "[]"] show ?thesis using failed(2,3) k0' by simp
  next
    case written: (1 d1)
    show ?thesis
    proof (cases rule: rules_write_cases[OF new, of fails p d1])
      case failed2: (2 d2)
      have "replace_files fails m p old ?new s = (Inl OSError, s\<lparr>rl_disk := d2\<rparr>)"
        using written(1) failed2(1) by (simp add: replace_files_def sx_bind_def with_disk_app)
      from failure[OF this, of "[?n1]"] show ?thesis using written(2,3) failed2(2,3) k1 k1' by simp
    next
      case written2: (1 d2)
      have files: "replace_files fails m p old ?new s = with_disk (read_validated fails m p) (s\<lparr>rl_disk := d2\<rparr>)"
        using written(1) written2(1) by (simp add: replace_files_def sx_bind_def with_disk_app)
      have hist: "dk_history d2 = dk_history (rl_disk s) @ [?n1, ?n2]" "dk_nodes d2 = ?n2" using written written2 by simp_all
      show ?thesis
      proof (cases rule: read_validated_cases[of fails m p d2])
        case rd: (read v)
        have f: "replace_files fails m p old ?new s = (Inr v, s\<lparr>rl_disk := d2\<lparr>dk_ops := Suc (dk_ops d2)\<rparr>\<rparr>)"
          using files rd(1) by (simp add: with_disk_app)
        have v: "v = ?new" using rd(2) in2 hist(2) by auto
        show ?thesis by (rule success[OF f, of "[?n1, ?n2]"]) (use hist k1 k2 rd(2) bk ne v in auto)
      next
        case refused: (refused msg)
        have f: "replace_files fails m p old ?new s = (Inl (RulesStoreError msg), s\<lparr>rl_disk := d2\<lparr>dk_ops := Suc (dk_ops d2)\<rparr>\<rparr>)"
          using files refused(1) by (simp add: with_disk_app)
        have "?n2(p \<mapsto> TextFile (old @ [CHR 0x0A])) = ?n1(p \<mapsto> TextFile (old @ [CHR 0x0A]))" by simp
        then show ?thesis using hist k1 k2 k1' by (intro failure[OF f, of "[?n1, ?n2]"]) auto
      qed
    qed
  qed
qed

section \<open>Replacing the rules\<close>

definition restart_rules :: "nat \<Rightarrow> string \<Rightarrow> nodes \<Rightarrow> string option" where
  "restart_rules m p ns =
     (case initialize_rules (\<lambda>_. False) m p
        \<lparr>rl_current = None, rl_signature = None,
         rl_disk = \<lparr>dk_nodes = ns, dk_stamps = (\<lambda>_. 0), dk_ops = 0, dk_history = []\<rparr>\<rparr> of
      (Inr _, s) \<Rightarrow> rl_current s | (Inl _, _) \<Rightarrow> None)"

lemma reliable_write:
  "\<exists>d'. rules_atomic_write (\<lambda>_. False) p v d = (if dk_nodes d p = Some Directory then Inl OSError else Inr (), d')"
  by (simp add: rules_atomic_write_def replace_file_def sx_bind_def disk_io_def)

lemma kept_restart: "rules_kept m p old new ns \<Longrightarrow> restart_rules m p ns = Some old \<or> restart_rules m p ns = Some new"
proof -
  assume kept: "rules_kept m p old new ns"
  let ?d = "\<lparr>dk_nodes = ns, dk_stamps = (\<lambda>_. 0), dk_ops = 0, dk_history = []\<rparr>"
  let ?s = "\<lparr>rl_current = None, rl_signature = None, rl_disk = ?d\<rparr>"
  show ?thesis
  proof (cases rule: read_validated_cases[of "\<lambda>_. False" m p ?d])
    case (read v)
    obtain d' where "rules_atomic_write (\<lambda>_. False) (backup_path p) v (?d\<lparr>dk_ops := 1\<rparr>) = (Inr (), d')"
      using reliable_write[of "backup_path p" v "?d\<lparr>dk_ops := 1\<rparr>"] kept by (auto simp: rules_kept_def)
    with read(1) have "restart_rules m p ns = Some v"
      by (simp add: restart_rules_def initialize_rules_def with_disk_app sx_bind_def sx_modify_def signature_app)
    with read(2) kept show ?thesis by (auto simp: rules_kept_def)
  next
    case (refused msg)
    then have bk: "rules_in m (ns (backup_path p)) = Some old" using kept by (auto simp: rules_kept_def)
    have "restart_rules m p ns = Some old"
    proof (cases rule: read_validated_cases[of "\<lambda>_. False" m "backup_path p" "?d\<lparr>dk_ops := 1\<rparr>"])
      case (read v)
      with bk have v: "v = old" by simp
      obtain q d' where w: "rules_atomic_write (\<lambda>_. False) p old (?d\<lparr>dk_ops := 2\<rparr>) = (q, d')"
        by (cases "rules_atomic_write (\<lambda>_. False) p old (?d\<lparr>dk_ops := 2\<rparr>)")
      show ?thesis using refused(1) read(1) w
        by (cases q) (simp_all add: restart_rules_def initialize_rules_def with_disk_app sx_bind_def sx_modify_def sx_try_def
            signature_app is_rules_error_def v numeral_2_eq_2)
    next
      case (refused msg')
      with bk show ?thesis by simp
    qed
    then show ?thesis by blast
  qed
qed

text \<open>
  What \<open>replace\<close> leaves, whatever faults the file system has: a return means that the stripped text is active, that the
  primary file reads back as it and that the previous version holds the old rules; otherwise the error is a
  \<open>RulesStoreError\<close> and the old rules stay active.
\<close>

theorem replace_rules_outcome:
  assumes "replace_rules fails m p t s = (r, s')" "rl_current s = Some old" "stripped old"
    and "text_bytes (old @ [CHR 0x0A]) \<le> m" "rules_in m (dk_nodes (rl_disk s) p) = Some old"
      "dk_nodes (rl_disk s) (backup_path p) \<noteq> Some Directory"
  shows "if isl r then (\<exists>msg. r = Inl (RulesStoreError msg)) \<and> rl_current s' = Some old
     else rl_current s' = Some (py_strip t) \<and> rules_in m (dk_nodes (rl_disk s') p) = Some (py_strip t) \<and>
       rules_in m (dk_nodes (rl_disk s') (backup_path p)) = Some old"
  using replace_outcome[OF assms] by simp

text \<open>
  A crash during \<open>replace\<close> leaves usable rules: whatever faults it meets, from every content the disk has had during
  the call a restart activates the old rules or the new ones.
\<close>

theorem replace_rules_survives_crash:
  assumes "replace_rules fails m p t s = (r, s')" "rl_current s = Some old" "stripped old"
    and "text_bytes (old @ [CHR 0x0A]) \<le> m" "rules_in m (dk_nodes (rl_disk s) p) = Some old"
      "dk_nodes (rl_disk s) (backup_path p) \<noteq> Some Directory"
    and "dk_history (rl_disk s') = dk_history (rl_disk s) @ ds" "ns \<in> set ds"
  shows "restart_rules m p ns = Some old \<or> restart_rules m p ns = Some (py_strip t)"
  using replace_outcome[OF assms(1-6)] assms(7,8) kept_restart by auto

section \<open>Any run of the store\<close>

text \<open>Calls of the store, and changes of the disk by others.\<close>

datatype rules_op = OpCurrentRules | OpReplaceRules string | OpEditFile string "node option"

fun apply_rules_op :: "faults \<Rightarrow> nat \<Rightarrow> string \<Rightarrow> rules_op \<Rightarrow> rules_store \<Rightarrow> rules_store" where
  "apply_rules_op fails m p OpCurrentRules s = snd (current_rules fails m p s)"
| "apply_rules_op fails m p (OpReplaceRules t) s = snd (replace_rules fails m p t s)"
| "apply_rules_op fails m p (OpEditFile q n) s = s\<lparr>rl_disk := disk_change [q] (\<lambda>ns. ns(q := n)) (rl_disk s)\<rparr>"

definition rules_active :: "rules_store \<Rightarrow> bool" where
  "rules_active s \<longleftrightarrow> (\<exists>v. rl_current s = Some v \<and> stripped v)"

lemma with_disk_current: "with_disk m s = (r, s') \<Longrightarrow> rl_current s' = rl_current s"
  by (auto simp: with_disk_app)

lemma read_validated_stripped: "with_disk (read_validated fails m p) s = (Inr v, s') \<Longrightarrow> stripped v"
  by (cases rule: read_validated_cases[of fails m p "rl_disk s"]) (auto simp: with_disk_app dest: rules_in_stripped)

lemma active_sx: "rules_active s \<Longrightarrow> rl_current s' = rl_current s \<Longrightarrow> rules_active s'"
  by (simp add: rules_active_def)

lemma current_rules_app:
  assumes "rl_current s = Some c"
  shows "current_rules fails m p s =
    (let d = rl_disk s;
         sig = (if fails (dk_ops d) then None else map_option (\<lambda>_. dk_stamps d p) (dk_nodes d p));
         s1 = s\<lparr>rl_disk := d\<lparr>dk_ops := Suc (dk_ops d)\<rparr>\<rparr> in
     if sig = rl_signature s then (Inr c, s1)
     else (case with_disk (read_validated fails m p) (s1\<lparr>rl_signature := sig\<rparr>) of
         (Inl e, s2) \<Rightarrow> (Inr c, s2)
       | (Inr v, s2) \<Rightarrow>
           if v = c then (Inr c, s2)
           else (case with_disk (rules_atomic_write fails (backup_path p) c) s2 of
               (Inl e, s3) \<Rightarrow> (Inl e, s3)
             | (Inr _, s3) \<Rightarrow> (Inr v, s3\<lparr>rl_current := Some v\<rparr>))))"
proof -
  define sig where "sig = (if fails (dk_ops (rl_disk s)) then None else map_option (\<lambda>_. dk_stamps (rl_disk s) p) (dk_nodes (rl_disk s) p))"
  define s1 where "s1 = s\<lparr>rl_disk := (rl_disk s)\<lparr>dk_ops := Suc (dk_ops (rl_disk s))\<rparr>\<rparr>"
  obtain q s2 where rd: "with_disk (read_validated fails m p) (s1\<lparr>rl_signature := sig\<rparr>) = (q, s2)"
    by (cases "with_disk (read_validated fails m p) (s1\<lparr>rl_signature := sig\<rparr>)")
  have sg: "with_disk (file_signature fails p) s = (Inr sig, s1)" by (simp add: with_disk_app signature_app sig_def s1_def)
  have err: "is_rules_error e" if "q = Inl e" for e
    using rd that by (cases rule: read_validated_cases[of fails m p "rl_disk s1"]) (auto simp: with_disk_app is_rules_error_def)
  have s1_sig: "rl_signature s1 = rl_signature s" by (simp add: s1_def)
  have "current_rules fails m p s = (if sig = rl_signature s then (Inr c, s1)
     else (case (q, s2) of
         (Inl e, s2) \<Rightarrow> (Inr c, s2)
       | (Inr v, s2) \<Rightarrow>
           if v = c then (Inr c, s2)
           else (case with_disk (rules_atomic_write fails (backup_path p) c) s2 of
               (Inl e, s3) \<Rightarrow> (Inl e, s3)
             | (Inr _, s3) \<Rightarrow> (Inr v, s3\<lparr>rl_current := Some v\<rparr>))))"
  proof (cases "sig = rl_signature s")
    case True
    then show ?thesis using assms s1_sig by (simp add: current_rules_def sx_bind_app[of "with_disk (file_signature fails p)"] sg)
  next
    case False
    then have "current_rules fails m p s = (case (q, s2) of
        (Inl e, s1) \<Rightarrow> if is_rules_error e then (Inr c, s1) else (Inl e, s1)
      | (Inr loaded, s1) \<Rightarrow>
          if loaded = c then (Inr c, s1)
          else sx_bind (with_disk (rules_atomic_write fails (backup_path p) c)) (\<lambda>_.
               sx_bind (sx_modify (\<lambda>s. s\<lparr>rl_current := Some loaded\<rparr>)) (\<lambda>_. sx_return loaded)) s1)"
      using assms s1_sig by (simp add: current_rules_def sx_bind_app[of "with_disk (file_signature fails p)"] sg rd)
    moreover obtain w s3 where "with_disk (rules_atomic_write fails (backup_path p) c) s2 = (w, s3)"
      by (cases "with_disk (rules_atomic_write fails (backup_path p) c) s2")
    ultimately show ?thesis using False err
      by (cases q; cases w) (simp_all add: sx_bind_app[of "with_disk (rules_atomic_write fails (backup_path p) c)"])
  qed
  then show ?thesis by (simp add: Let_def rd flip: sig_def s1_def)
qed

lemma current_rules_active: "rules_active s \<Longrightarrow> rules_active (snd (current_rules fails m p s))"
proof -
  assume "rules_active s"
  then obtain c where c: "rl_current s = Some c" "stripped c" by (auto simp: rules_active_def)
  define sig where "sig = (if fails (dk_ops (rl_disk s)) then None else map_option (\<lambda>_. dk_stamps (rl_disk s) p) (dk_nodes (rl_disk s) p))"
  define s1 where "s1 = s\<lparr>rl_disk := (rl_disk s)\<lparr>dk_ops := Suc (dk_ops (rl_disk s))\<rparr>\<rparr>"
  obtain q s2 where rd: "with_disk (read_validated fails m p) (s1\<lparr>rl_signature := sig\<rparr>) = (q, s2)"
    by (cases "with_disk (read_validated fails m p) (s1\<lparr>rl_signature := sig\<rparr>)")
  obtain w s3 where wr: "with_disk (rules_atomic_write fails (backup_path p) c) s2 = (w, s3)"
    by (cases "with_disk (rules_atomic_write fails (backup_path p) c) s2")
  have run: "current_rules fails m p s = (if sig = rl_signature s then (Inr c, s1)
     else (case (q, s2) of
         (Inl e, s2) \<Rightarrow> (Inr c, s2)
       | (Inr v, s2) \<Rightarrow>
           if v = c then (Inr c, s2)
           else (case with_disk (rules_atomic_write fails (backup_path p) c) s2 of
               (Inl e, s3) \<Rightarrow> (Inl e, s3)
             | (Inr _, s3) \<Rightarrow> (Inr v, s3\<lparr>rl_current := Some v\<rparr>))))"
    unfolding current_rules_app[OF c(1)] Let_def by (simp add: rd flip: sig_def s1_def)
  have cur: "rl_current s1 = Some c" "rl_current s2 = Some c" "rl_current s3 = Some c"
    using c(1) with_disk_current[OF rd] with_disk_current[OF wr] by (simp_all add: s1_def)
  show ?thesis
  proof (cases q)
    case (Inl e)
    with run cur c(2) show ?thesis by (simp add: rules_active_def)
  next
    case (Inr v)
    then have "stripped v" using rd read_validated_stripped by blast
    with run cur c(2) Inr wr show ?thesis by (cases w) (simp_all add: rules_active_def)
  qed
qed

lemma replace_rules_active: "rules_active s \<Longrightarrow> rules_active (snd (replace_rules fails m p t s))"
proof -
  assume a: "rules_active s"
  then obtain c where c: "rl_current s = Some c" "stripped c" by (auto simp: rules_active_def)
  show ?thesis
  proof (cases "py_strip t = []")
    case True
    from replace_unvalidated[OF this, of fails m p s] a show ?thesis by auto
  next
    case False
    show ?thesis
    proof (cases "replace_files fails m p c (py_strip t) s")
      case (Pair q u)
      show ?thesis
      proof (cases q)
        case (Inl e)
        from restore_outcome[OF c(2), of fails p u] obtain msg d' where
          "restore_rules fails p c u = (Inl (RulesStoreError msg), u\<lparr>rl_disk := d', rl_current := Some c\<rparr>)" by blast
        with Pair Inl c False show ?thesis
          by (simp add: replace_rules_def validate_rules_def sx_bind_def sx_try_def rules_active_def)
      next
        case (Inr v)
        with Pair have "stripped v"
          by (auto simp: replace_files_def sx_bind_eq_Inr dest: read_validated_stripped)
        with Pair Inr c False show ?thesis
          by (simp add: replace_rules_def validate_rules_def sx_bind_def sx_try_def rules_active_def with_disk_app signature_app sx_modify_def)
      qed
    qed
  qed
qed

lemma rules_op_active: "rules_active s \<Longrightarrow> rules_active (apply_rules_op fails m p x s)"
  by (cases x) (simp_all add: current_rules_active replace_rules_active active_sx)

lemma rules_run_active: "rules_active s \<Longrightarrow> rules_active (fold (apply_rules_op fails m p) ops s)"
  by (induction ops arbitrary: s) (simp_all add: rules_op_active)

lemma initialize_active: "initialize_rules fails m p s = (Inr u, s') \<Longrightarrow> rules_active s'"
proof -
  assume run: "initialize_rules fails m p s = (Inr u, s')"
  have written: "stripped v \<and> t' = t" if "sx_bind (w :: unit rules_sx) (\<lambda>_. sx_return v0) t0 = (Inr v, t')"
    "v0 = v \<Longrightarrow> stripped v" "t' = t" for w v0 v t0 t t'
    using that by (auto simp: sx_bind_eq_Inr)
  have final: "rules_active s'" if "stripped v"
    "sx_bind (sx_modify (\<lambda>s. s\<lparr>rl_current := Some v\<rparr>)) (\<lambda>_.
          sx_bind (with_disk (file_signature fails p)) (\<lambda>sig. sx_modify (\<lambda>s. s\<lparr>rl_signature := sig\<rparr>))) t = (Inr u, s')" for v t
    using that by (auto simp: rules_active_def with_disk_app signature_app sx_bind_app[of "with_disk (file_signature fails p)"])
  show ?thesis
  proof (cases "with_disk (read_validated fails m p) s")
    case (Pair r s1)
    show ?thesis
    proof (cases r)
      case (Inr v)
      then have v: "stripped v" using read_validated_stripped Pair by blast
      show ?thesis using run Pair Inr final[OF v]
        by (auto simp: initialize_rules_def sx_bind_app[of "with_disk (rules_atomic_write fails (backup_path p) v)"] split: prod.splits sum.splits)
    next
      case (Inl e)
      obtain r2 s2 where p2: "with_disk (read_validated fails m (backup_path p)) s1 = (r2, s2)"
        by (cases "with_disk (read_validated fails m (backup_path p)) s1")
      show ?thesis
      proof (cases r2)
        case (Inr v)
        then have v: "stripped v" using read_validated_stripped p2 by blast
        obtain r3 s3 where p3: "sx_try (with_disk (rules_atomic_write fails p v)) (\<lambda>_. True) (\<lambda>_. sx_return ()) s2 = (Inr r3, s3)"
          by (cases "with_disk (rules_atomic_write fails p v) s2"; cases "fst (with_disk (rules_atomic_write fails p v) s2)")
             (auto simp: sx_try_def)
        show ?thesis using run Pair Inl p2 Inr p3 final[OF v]
          by (auto simp: initialize_rules_def sx_bind_app[of "sx_try (with_disk (rules_atomic_write fails p v)) (\<lambda>_. True) (\<lambda>_. sx_return ())"]
              split: if_splits)
      next
        case (Inl e2)
        with run Pair \<open>r = Inl e\<close> p2 show ?thesis by (auto simp: initialize_rules_def split: if_splits)
      qed
    qed
  qed
qed

text \<open>
  There are always usable rules: once the store is initialised, after any sequence of calls, of changes of its files by
  others and of faults, some rules are active, and they are a non-empty stripped text.
\<close>

theorem rules_always_valid:
  assumes "initialize_rules fails m p s0 = (Inr u, s)"
  shows "\<exists>v. rl_current (fold (apply_rules_op fails m p) ops s) = Some v \<and> v \<noteq> [] \<and> py_strip v = v"
proof -
  from rules_run_active[OF initialize_active[OF assms], of fails m p ops] obtain v
    where "rl_current (fold (apply_rules_op fails m p) ops s) = Some v" "stripped v" by (auto simp: rules_active_def)
  then show ?thesis using strip_stripped by (auto simp: stripped_def)
qed

text \<open>
  A reload can be lost: when the primary file has changed to other valid rules and only the write of the previous
  version fails, \<open>current_rules\<close> raises and from then on answers the old rules, as long as the file
  does not change again.
\<close>

theorem failed_backup_hides_reload:
  assumes "rl_current s = Some c" "rules_in m (dk_nodes (rl_disk s) p) = Some v" "v \<noteq> c"
    and "rl_signature s \<noteq> Some (dk_stamps (rl_disk s) p)"
  shows "let run = current_rules (\<lambda>n. n = dk_ops (rl_disk s) + 2) m p s in
    fst run = Inl OSError \<and> rules_in m (dk_nodes (rl_disk (snd run)) p) = Some v \<and>
    fst (current_rules (\<lambda>_. False) m p (snd run)) = Inr c"
proof -
  let ?f = "\<lambda>n. n = dk_ops (rl_disk s) + 2"
  let ?d = "rl_disk s" and ?sig = "Some (dk_stamps (rl_disk s) p)"
  obtain n where n: "dk_nodes ?d p = Some n" using assms(2) by (cases "dk_nodes ?d p") (auto simp: rules_in_def)
  let ?s1 = "s\<lparr>rl_disk := ?d\<lparr>dk_ops := Suc (dk_ops ?d)\<rparr>, rl_signature := ?sig\<rparr>"
  let ?s2 = "?s1\<lparr>rl_disk := ?d\<lparr>dk_ops := Suc (Suc (dk_ops ?d))\<rparr>\<rparr>"
  let ?s3 = "?s1\<lparr>rl_disk := ?d\<lparr>dk_ops := Suc (Suc (Suc (dk_ops ?d)))\<rparr>\<rparr>"
  have rd: "with_disk (read_validated ?f m p) ?s1 = (Inr v, ?s2)"
    using assms(2) by (cases rule: read_validated_cases[of ?f m p "rl_disk ?s1"]) (auto simp: with_disk_app)
  have wr: "with_disk (rules_atomic_write ?f (backup_path p) c) ?s2 = (Inl OSError, ?s3)"
    by (simp add: with_disk_app rules_atomic_write_def sx_bind_def disk_io_def)
  have run: "current_rules ?f m p s = (Inl OSError, ?s3)"
    using assms(3,4) n rd wr by (simp add: current_rules_app[OF assms(1)] Let_def)
  have "rl_current ?s3 = Some c" using assms(1) by simp
  from current_rules_app[OF this, of "\<lambda>_. False" m p] n
  have "fst (current_rules (\<lambda>_. False) m p ?s3) = Inr c" by (simp add: Let_def)
  with run assms(2) show ?thesis by (simp add: Let_def)
qed

section \<open>A small store\<close>

definition sample_rules_store :: "string \<Rightarrow> rules_store" where
  "sample_rules_store t = \<lparr>rl_current = Some ''a'', rl_signature = Some 0,
     rl_disk = \<lparr>dk_nodes = [''r'' \<mapsto> TextFile t], dk_stamps = (\<lambda>_. 1), dk_ops = 0, dk_history = []\<rparr>\<rparr>"

lemma sample_rules_in: "rules_in 10 (Some (TextFile ''a'')) = Some ''a''" "rules_in 10 (Some (TextFile ''b'')) = Some ''b''"
  by (simp_all add: rules_in_def text_bytes_def utf8_bytes_def py_strip_def is_space_def)

lemma sample_rules_ok:
  "rl_current (sample_rules_store t) = Some ''a''" "stripped ''a''" "text_bytes (''a'' @ [CHR 0x0A]) \<le> 10"
  "rules_in 10 (dk_nodes (rl_disk (sample_rules_store ''a'')) ''r'') = Some ''a''"
  "dk_nodes (rl_disk (sample_rules_store t)) (backup_path ''r'') \<noteq> Some Directory"
  using sample_rules_in by (simp_all add: sample_rules_store_def stripped_def is_space_def text_bytes_def utf8_bytes_def)

lemma sample_replace:
  "\<exists>a b s'. replace_rules (\<lambda>_. False) 10 ''r'' '' b'' (sample_rules_store ''a'') = (Inr (), s') \<and>
     dk_history (rl_disk s') = dk_history (rl_disk (sample_rules_store ''a'')) @ [a, b]"
proof -
  have "py_strip '' b'' = ''b''" by (simp add: py_strip_def is_space_def)
  then show ?thesis
    by (simp add: replace_rules_def validate_rules_def sample_rules_store_def sx_bind_app sx_try_def replace_files_def with_disk_app
        rules_atomic_write_def replace_file_def disk_io_def disk_put_def disk_change_def read_validated_def node_size_def
        text_bytes_def utf8_bytes_def py_rstrip_def is_space_def py_strip_def signature_app)
qed

theorem replace_rules_outcome_witness:
  "\<exists>s'. replace_rules (\<lambda>_. False) 10 ''r'' '' b'' (sample_rules_store ''a'') = (Inr (), s') \<and> rl_current s' = Some ''b''"
proof -
  from sample_replace obtain s' where run: "replace_rules (\<lambda>_. False) 10 ''r'' '' b'' (sample_rules_store ''a'') = (Inr (), s')" by blast
  from replace_rules_outcome [OF run sample_rules_ok] run show ?thesis by (simp add: py_strip_def is_space_def)
qed

theorem replace_rules_survives_crash_witness:
  "\<exists>s' ns. replace_rules (\<lambda>_. False) 10 ''r'' '' b'' (sample_rules_store ''a'') = (Inr (), s') \<and> ns \<in> set (dk_history (rl_disk s')) \<and>
     (restart_rules 10 ''r'' ns = Some ''a'' \<or> restart_rules 10 ''r'' ns = Some ''b'')"
proof -
  from sample_replace obtain a b s' where run: "replace_rules (\<lambda>_. False) 10 ''r'' '' b'' (sample_rules_store ''a'') = (Inr (), s')"
    and h: "dk_history (rl_disk s') = dk_history (rl_disk (sample_rules_store ''a'')) @ [a, b]" by blast
  from replace_rules_survives_crash [OF run sample_rules_ok h, of b]
  have "restart_rules 10 ''r'' b = Some ''a'' \<or> restart_rules 10 ''r'' b = Some ''b''" by (simp add: py_strip_def is_space_def)
  with run h show ?thesis by (intro exI[of _ s'] exI[of _ b]) simp
qed

theorem rules_always_valid_witness:
  "\<exists>s v. initialize_rules (\<lambda>_. False) 10 ''r'' (sample_rules_store ''b'') = (Inr (), s) \<and>
     rl_current (fold (apply_rules_op (\<lambda>_. False) 10 ''r'') [OpEditFile ''r'' None, OpCurrentRules] s) = Some v \<and> py_strip v = v"
proof -
  have "\<exists>s. initialize_rules (\<lambda>_. False) 10 ''r'' (sample_rules_store ''b'') = (Inr (), s)"
    by (simp add: initialize_rules_def sample_rules_store_def sx_bind_app sx_try_def with_disk_app validate_rules_def
        rules_atomic_write_def replace_file_def disk_io_def disk_put_def disk_change_def read_validated_def node_size_def
        text_bytes_def utf8_bytes_def py_rstrip_def is_space_def py_strip_def signature_app)
  then obtain s where run: "initialize_rules (\<lambda>_. False) 10 ''r'' (sample_rules_store ''b'') = (Inr (), s)" by blast
  from rules_always_valid [OF run, of "[OpEditFile ''r'' None, OpCurrentRules]"] run show ?thesis by blast
qed

theorem failed_backup_hides_reload_witness:
  "let run = current_rules (\<lambda>n. n = 2) 10 ''r'' (sample_rules_store ''b'') in
   fst run = Inl OSError \<and> fst (current_rules (\<lambda>_. False) 10 ''r'' (snd run)) = Inr ''a''"
proof -
  have "rules_in 10 (dk_nodes (rl_disk (sample_rules_store ''b'')) ''r'') = Some ''b''"
    using sample_rules_in by (simp add: sample_rules_store_def)
  from failed_backup_hides_reload [OF sample_rules_ok(1) this] show ?thesis
    by (simp add: sample_rules_store_def Let_def numeral_2_eq_2)
qed

end
