(* ===== verification/Analysis_Pipeline.thy ===== *)
theory Analysis_Pipeline
  imports Gemini_Gateway Jira_Submission
begin

text \<open>
  The way of a draft from its messages to Jira: the intake service with the Gemini adapter as its
  analyzer, and the submission of what the adapter let through.  The locale \<open>analyzer\<close> is the port
  \<open>AIAnalyzerPort\<close> as \<open>intake_service.py\<close> uses it.
\<close>

section \<open>The analyzer port\<close>

text \<open>
  What the service awaits while a draft is in ANALYZING: the rules, then the analyzer.  \<open>others\<close> is what other
  operations did to the repository meanwhile.
\<close>

definition awaited_answer ::
  "(source_message list \<Rightarrow> string \<Rightarrow> string \<Rightarrow> ('w, exn, jira_template) sx) \<Rightarrow> (repo \<Rightarrow> (exn + string) \<times> repo) \<Rightarrow>
   source_message list \<Rightarrow> string \<Rightarrow> 'w \<Rightarrow> (repo \<Rightarrow> repo) \<Rightarrow> repo \<Rightarrow> (exn + jira_template) \<times> repo" where
  "awaited_answer analyze rules ms project w others s =
     (case rules s of
        (Inl e, s') \<Rightarrow> (Inl e, s')
      | (Inr rt, s') \<Rightarrow> (fst (analyze ms rt project w), others s'))"

locale analyzer =
  fixes analyze :: "source_message list \<Rightarrow> string \<Rightarrow> string \<Rightarrow> ('w, exn, jira_template) sx"
    and ready :: "'w \<Rightarrow> bool" and sound :: "jira_template \<Rightarrow> bool"
  assumes answer_sound: "ready w \<Longrightarrow> analyze ms rules_text project w = (Inr t, w') \<Longrightarrow> sound t"
    and stays_ready: "ready w \<Longrightarrow> ready (snd (analyze ms rules_text project w))"
begin

abbreviation "awaited \<equiv> awaited_answer analyze"

lemma awaited_sound: "ready w \<Longrightarrow> awaited rules ms project w others s = (Inr t, s') \<Longrightarrow> sound t"
proof -
  assume r: "ready w" and "awaited rules ms project w others s = (Inr t, s')"
  then obtain rt where "fst (analyze ms rt project w) = Inr t"
    by (auto simp: awaited_answer_def split: prod.splits sum.splits)
  then show "sound t"
    by (intro answer_sound[OF r, of ms rt project t "snd (analyze ms rt project w)"]) (metis prod.collapse)
qed

text \<open>A draft that is in REVIEW after an analysis nobody interfered with holds a sound answer, routed.\<close>

lemma reviewed_template_sound:
  assumes "process_sealed_batch project now1 now2 (awaited rules ms project w others) on_ready on_failed sb s = (Inr dr, s')"
    and "ready w"
    and alone: "\<And>v. version (rp_db (snd (awaited rules ms project w others v))) (sb_draft_id sb) = version (rp_db v) (sb_draft_id sb)"
    and review: "map_option fst (version (rp_db s') (sb_draft_id sb)) = Some REVIEW"
  shows "\<exists>t. sound t \<and> stored_template (rp_db s') (sb_draft_id sb) = Some (route_template project (sb_messages sb) t) \<and>
     d_template dr = stored_template (rp_db s') (sb_draft_id sb) \<and> version (rp_db s') (sb_draft_id sb) = Some (REVIEW, 3)"
proof -
  from process_sealed_result[OF assms(1)] obtain s2 answer s3 where env: "awaited rules ms project w others s2 = (answer, s3)"
    and v2: "version (rp_db s2) (sb_draft_id sb) = Some (ANALYZING, 2)"
    and res: "s' = s3 \<or>
     (version (rp_db s3) (sb_draft_id sb) = Some (ANALYZING, 2) \<and>
      version (rp_db s') (sb_draft_id sb) = Some (d_state dr, 3) \<and>
      (case answer of Inl e \<Rightarrow> d_state dr = ANALYSIS_FAILED
       | Inr tpl \<Rightarrow> d_state dr = REVIEW \<and> d_template dr = Some (route_template project (sb_messages sb) tpl) \<and>
          stored_template (rp_db s') (sb_draft_id sb) = d_template dr))" by blast
  have "version (rp_db s3) (sb_draft_id sb) = Some (ANALYZING, 2)" using alone[of s2] env v2 by simp
  with review res awaited_sound[OF assms(2), of rules ms project others s2] env show ?thesis
    by (cases answer) auto
qed

end

section \<open>The Gemini adapter provides it\<close>

definition gemini_ready :: "gemini_env \<Rightarrow> bool" where
  "gemini_ready env \<longleftrightarrow> sdk_validates_answers env \<and>
     (\<exists>key injected models deadline retries backoff budgets.
        gemini_gateway_init key injected models deadline retries backoff budgets = Inr (gn_gateway env))"

definition gemini_analyze ::
  "source_message list \<Rightarrow> string \<Rightarrow> string \<Rightarrow> (gemini_env \<times> gemini_world, exn, jira_template) sx" where
  "gemini_analyze ms rules_text project = (\<lambda>(env, w). apsnd (Pair env) (analyze_messages env ms rules_text project w))"

interpretation gemini: analyzer gemini_analyze "gemini_ready \<circ> fst" contract_template
proof
  fix ms rules_text project and p :: "gemini_env \<times> gemini_world" and t p'
  assume "(gemini_ready \<circ> fst) p" and "gemini_analyze ms rules_text project p = (Inr t, p')"
  moreover obtain env w where p: "p = (env, w)" by fastforce
  ultimately have "gemini_ready env" and run: "apsnd (Pair env) (analyze_messages env ms rules_text project w) = (Inr t, p')"
    by (simp_all add: gemini_analyze_def)
  from run obtain w' where "analyze_messages env ms rules_text project w = (Inr t, w')"
    by (cases "analyze_messages env ms rules_text project w") auto
  with \<open>gemini_ready env\<close> show "contract_template t"
    unfolding gemini_ready_def using analyze_contract by blast
next
  fix ms rules_text project and p :: "gemini_env \<times> gemini_world"
  assume "(gemini_ready \<circ> fst) p"
  then show "(gemini_ready \<circ> fst) (snd (gemini_analyze ms rules_text project p))"
    by (cases p) (simp add: gemini_analyze_def)
qed

text \<open>What routing leaves of an answer: a reference to a PROD issue replaces the project and adds one paragraph to the description.\<close>

definition routed :: "string \<Rightarrow> jira_template \<Rightarrow> jira_template \<Rightarrow> bool" where
  "routed project t r \<longleftrightarrow> r = t \<or>
     (\<exists>k. r = t\<lparr>jt_project_key := (if ascii_upper project \<noteq> ''PROD'' then project else ''BOT''),
               jt_description := jt_description t @ [CHR 0x0A, CHR 0x0A] @ ''Target PROD Key: '' @ k\<rparr>)"

lemma route_template_routed: "routed project t (route_template project ms t)"
  by (auto simp: routed_def route_template_def split: option.split)

text \<open>
  C27. What reaches REVIEW comes from the contract: a sealed batch is processed with the Gemini adapter as its analyzer, and no other
  operation changes the version of this draft during the analysis.  If the draft is in REVIEW afterwards, then at revision 3,
  and the stored template, which is also the returned one, is an answer within the response contract as the messages of the batch
  route it: it differs from the answer at most in the project and in a paragraph added to the description.  (With that paragraph
  the description may be longer than the contract allows.)
\<close>

theorem reviewed_draft_within_contract:
  assumes "process_sealed_batch project now1 now2 (awaited_answer gemini_analyze rules ms project (env, w) others)
      on_ready on_failed sb s = (Inr dr, s')"
    and "gemini_ready env"
    and "\<And>v. version (rp_db (snd (awaited_answer gemini_analyze rules ms project (env, w) others v))) (sb_draft_id sb) =
           version (rp_db v) (sb_draft_id sb)"
    and "map_option fst (version (rp_db s') (sb_draft_id sb)) = Some REVIEW"
  shows "\<exists>t r. contract_template t \<and> r = route_template project (sb_messages sb) t \<and> routed project t r \<and>
     stored_template (rp_db s') (sb_draft_id sb) = Some r \<and> d_template dr = Some r \<and>
     version (rp_db s') (sb_draft_id sb) = Some (REVIEW, 3)"
  using gemini.reviewed_template_sound[OF assms(1) _ assms(3,4)] assms(2) route_template_routed by fastforce

section \<open>Answers that cannot be submitted\<close>

text \<open>A field of blanks is long enough for the contract and empty for Jira.\<close>

lemma blank_summary_field: "py_strip (jt_summary t) = [] \<Longrightarrow> blank_field t \<noteq> None"
  by (auto simp: blank_field_def)

lemma blank_submission_unknown:
  assumes "submit (jira_submission_gateway env answers at) dh aid now k pat rv w = (Inr res, w')"
    and "load_draft (rp_db (sw_repo w)) k = Inr (Some dr)" and "d_template dr = Some tpl" and "blank_field tpl \<noteq> None"
  shows "d_state (rs_draft res) = SUBMISSION_UNKNOWN \<and> rs_pending res"
  using jira_submit_verdict[OF assms(1)] assms(2-4) by (auto simp: create_verdict_def sendable_def)

text \<open>
  The response contract lets through what Jira's documents refuse: a summary of blanks is a valid answer of the analyzer, and
  every submission of a draft with that template is recorded as SUBMISSION_UNKNOWN with reconciliation pending,
  although no request was sent.
\<close>

theorem blank_answer_submission_unknown:
  assumes "analyze_messages genv ms rules_text project gw = (Inr tpl, gw')" and "gemini_ready genv"
    and "py_strip (jt_summary tpl) = []"
    and "submit (jira_submission_gateway env answers at) dh aid now k pat rv w = (Inr res, w')"
    and "load_draft (rp_db (sw_repo w)) k = Inr (Some dr)" and "d_template dr = Some tpl"
  shows "contract_template tpl \<and> d_state (rs_draft res) = SUBMISSION_UNKNOWN \<and> rs_pending res"
proof -
  from assms(1,2) have "contract_template tpl" unfolding gemini_ready_def using analyze_contract by blast
  with blank_submission_unknown[OF assms(4-6)] blank_summary_field[OF assms(3)] show ?thesis by blast
qed

section \<open>Samples\<close>

definition sample_ai_template :: "string \<Rightarrow> jira_template" where
  "sample_ai_template summary =
     \<lparr>jt_project_key = ''OPS'', jt_issue_type = ''Task'', jt_summary = summary, jt_description = ''Disk full'',
      jt_priority = ''High'', jt_labels = [''ops''], jt_components = [], jt_assignee = [], jt_acceptance_criteria = []\<rparr>"

abbreviation "idle_gemini \<equiv> \<lparr>gw_preferred = 0, gw_clock = 0, gw_calls = []\<rparr> :: gemini_world"

lemma sample_gemini_ready: "gemini_ready (sample_gemini summary)"
  unfolding gemini_ready_def using sample_gemini_init sample_gemini_validates by blast

lemma sample_gemini_answer:
  "\<exists>w'. analyze_messages (sample_gemini '' '') [sample_message 1] ''rules'' ''OPS'' idle_gemini = (Inr (sample_ai_template '' ''), w')"
  by (simp add: analyze_messages_def sample_gemini_def build_prompt_def sample_message_def default_budgets_def attempt_limit_def
      DEFAULT_MODELS_def try_models.simps generate_and_parse_def await_within_def classify_provider_exception_def
      gemini_error_eq parse_response_def response_candidate_def validate_response_def sample_answer_def gemini_response_keys_def
      required_text_def optional_text_def text_list_def sample_ai_template_def)

lemma sample_awaited:
  "awaited_answer gemini_analyze (\<lambda>s. (Inr ''rules'', s)) [sample_message 1] ''OPS'' (sample_gemini '' '', idle_gemini) id =
     (\<lambda>s. (Inr (sample_ai_template '' ''), s))"
  using sample_gemini_answer by (auto simp: awaited_answer_def gemini_analyze_def fun_eq_iff)

theorem reviewed_draft_within_contract_witness:
  "\<exists>dr s' t. process_sealed_batch ''OPS'' 30 40 (awaited_answer gemini_analyze (\<lambda>s. (Inr ''rules'', s)) [sample_message 1] ''OPS''
       (sample_gemini '' '', idle_gemini) id) (\<lambda>_. Inr ()) (\<lambda>_. Inr ()) sample_sealed
      \<lparr>rp_db = empty_db, rp_initialized = True\<rparr> = (Inr dr, s') \<and> contract_template t \<and>
     stored_template (rp_db s') ''d1'' = Some (route_template ''OPS'' (sb_messages sample_sealed) t)"
proof -
  have id: "sb_draft_id sample_sealed = ''d1''" by (simp add: sample_sealed_def)
  obtain dr s' where raw: "process_sealed_batch ''OPS'' 30 40 (\<lambda>s. (Inr (sample_ai_template '' ''), s)) (\<lambda>_. Inr ()) (\<lambda>_. Inr ())
      sample_sealed \<lparr>rp_db = empty_db, rp_initialized = True\<rparr> = (Inr dr, s')"
    and review: "map_option fst (version (rp_db s') (sb_draft_id sample_sealed)) = Some REVIEW"
    unfolding id using sample_sealed_reviewed[of "sample_ai_template '' ''"] by blast
  have run: "process_sealed_batch ''OPS'' 30 40 (awaited_answer gemini_analyze
       (\<lambda>s. (Inr ''rules'', s)) [sample_message 1] ''OPS'' (sample_gemini '' '', idle_gemini) id) (\<lambda>_. Inr ()) (\<lambda>_. Inr ()) sample_sealed
      \<lparr>rp_db = empty_db, rp_initialized = True\<rparr> = (Inr dr, s')"
    unfolding sample_awaited by (rule raw)
  have alone: "version (rp_db (snd (awaited_answer gemini_analyze (\<lambda>s. (Inr ''rules'', s)) [sample_message 1] ''OPS''
       (sample_gemini '' '', idle_gemini) id v))) (sb_draft_id sample_sealed) = version (rp_db v) (sb_draft_id sample_sealed)" for v
    unfolding sample_awaited by simp
  from reviewed_draft_within_contract [OF run sample_gemini_ready alone review] run id show ?thesis by auto
qed

definition blank_review_repo :: repo where
  "blank_review_repo = \<lparr>rp_db = empty_db\<lparr>db_workflows :=
     [(sample_row REVIEW 4)\<lparr>w_template_json := template_to_json (Some (sample_ai_template '' ''))\<rparr>]\<rparr>, rp_initialized = True\<rparr>"

lemma load_blank_sample:
  "load_draft (rp_db blank_review_repo) ''d1'' =
     Inr (Some \<lparr>d_draft_id = ''d1'', d_owner_id = 7, d_chat_id = 7, d_thread_id = None, d_state = REVIEW,
       d_revision = 4, d_template = Some (sample_ai_template '' ''), d_source_messages = [], d_attachments = [],
       d_created_at = Aware 10, d_updated_at = Aware 20, d_published_issue = None, d_last_error = None\<rparr>)"
  by (simp add: load_draft_def blank_review_repo_def sample_row_def empty_db_def find_workflow_def
      from_db_datetime_def rbind_eq_Inr valid_draft_def)

definition silent_jira :: submission_gateway where
  "silent_jira = jira_submission_gateway (sample_jira_env (\<lambda>_ _. HttpTimeout)) (\<lambda>_ _ _. HttpTimeout) 60"

lemma silent_create: "\<exists>m. g_create silent_jira n (sample_ai_template '' '') ''pat'' h = Inl (ValueError m)"
proof -
  have "\<not> sendable (sample_ai_template '' '') ''pat''"
    by (simp add: sendable_def blank_field_def sample_ai_template_def py_strip_def is_space_def)
  from create_issue_unsent[OF this] show ?thesis
    unfolding silent_jira_def g_create_jira by (metis fst_conv)
qed

lemma blank_run:
  "\<exists>res w'. submit silent_jira (\<lambda>_. ''h'') ''a1'' 60 ''d1'' ''pat'' (Some 4) \<lparr>sw_repo = blank_review_repo, sw_calls = []\<rparr> = (Inr res, w')"
proof -
  let ?m = "submit silent_jira (\<lambda>_. ''h'') ''a1'' 60 ''d1'' ''pat'' (Some 4) \<lparr>sw_repo = blank_review_repo, sw_calls = []\<rparr>"
  obtain m where m: "g_create silent_jira 0 (sample_ai_template '' '') ''pat'' ''h'' = Inl (ValueError m)"
    using silent_create by blast
  have "\<not> isl (fst ?m)"
    by (simp add: submit_def required_draft_def on_repo_def repo_get_by_id_def get_by_id_sync_def repo_run_def
        load_blank_sample sx_bind_app)
       (simp add: submit_loaded_def move_draft_def on_repo_def repo_cas_def validate_safe_code_def cas_sync_def
        sx_bind_app repo_eval blank_review_repo_def load_draft_def draft_post_init_def new_attempt_def
        repo_get_latest_attempt_def get_latest_attempt_sync_def submission_attempt_post_init_def
        canonical_request_hash_def repo_claim_attempt_def claim_attempt_sync_def attempt_claim_states_def
        attempt_values_def attempt_statuses_def sql_insert_def sa_check_def sa_clash_def opt_to_db_def
        m record_create_def finish_unknown_def close_attempt_def
        repo_update_attempt_def update_attempt_sync_def safe_code_char_def)
  then show ?thesis using sum_result_Inr by blast
qed

lemmas blank_run_jira = blank_run[unfolded silent_jira_def]

theorem blank_answer_submission_unknown_witness:
  "\<exists>res w'. submit silent_jira (\<lambda>_. ''h'') ''a1'' 60 ''d1'' ''pat'' (Some 4) \<lparr>sw_repo = blank_review_repo, sw_calls = []\<rparr> = (Inr res, w') \<and>
     contract_template (sample_ai_template '' '') \<and> rs_pending res"
proof -
  from blank_run_jira obtain res w' where run: "submit (jira_submission_gateway (sample_jira_env (\<lambda>_ _. HttpTimeout)) (\<lambda>_ _ _. HttpTimeout) 60)
      (\<lambda>_. ''h'') ''a1'' 60 ''d1'' ''pat'' (Some 4) \<lparr>sw_repo = blank_review_repo, sw_calls = []\<rparr> = (Inr res, w')" by blast
  obtain gw' where answer: "analyze_messages (sample_gemini '' '') [sample_message 1] ''rules'' ''OPS'' idle_gemini =
      (Inr (sample_ai_template '' ''), gw')" using sample_gemini_answer by blast
  have blank: "py_strip (jt_summary (sample_ai_template '' '')) = []"
    by (simp add: sample_ai_template_def py_strip_def is_space_def)
  from blank_answer_submission_unknown [OF answer sample_gemini_ready blank run] load_blank_sample run show ?thesis
    unfolding silent_jira_def by auto
qed

end
