(* ===== verification/Url.thy ===== *)
theory Url
  imports Prelude
begin

text \<open>
  The parts of the standard library's \<open>urllib.parse\<close>, \<open>pathlib\<close>, \<open>str\<close> and \<open>int\<close> the configuration
  uses: \<open>urlparse\<close> with its \<open>hostname\<close>, \<open>port\<close> and user information, POSIX paths, \<open>upper\<close>, \<open>lower\<close>
  and integer texts.  Strings hold code points below 256.
\<close>

section \<open>Text\<close>

definition is_upper_letter :: "char \<Rightarrow> bool" where
  "is_upper_letter c = (let n = (of_char c :: nat) in 65 \<le> n \<and> n \<le> 90)"

text \<open>The upper case of U+00B5 and U+00FF lies outside the character type; they are left alone.\<close>

definition upper_char :: "char \<Rightarrow> string" where
  "upper_char c = (let n = (of_char c :: nat) in
     if (97 \<le> n \<and> n \<le> 122) \<or> (224 \<le> n \<and> n \<le> 254 \<and> n \<noteq> 247) then [char_of (n - 32)]
     else if n = 223 then ''SS'' else [c])"

definition py_upper :: "string \<Rightarrow> string" where
  "py_upper s = concat (map upper_char s)"

text \<open>\<open>int(s)\<close>: blanks around, a sign, digits with single underscores between them, at most 4300 digits.\<close>

definition int_text :: "string \<Rightarrow> int option" where
  "int_text s =
     (let t = py_strip s;
          neg = (case t of c # _ \<Rightarrow> c = CHR ''-'' | [] \<Rightarrow> False);
          body = (case t of c # cs \<Rightarrow> if c = CHR ''-'' \<or> c = CHR ''+'' then cs else t | [] \<Rightarrow> []);
          groups = split_on (CHR ''_'') body;
          ds = concat groups in
      if list_all (\<lambda>g. g \<noteq> [] \<and> list_all is_digit g) groups \<and> length ds \<le> 4300
      then Some (if neg then - int (digits_value ds) else int (digits_value ds)) else None)"

section \<open>Paths\<close>

text \<open>A POSIX path: its root (empty, one or two slashes) and the names after it.\<close>

record path =
  pt_root :: string
  pt_names :: "string list"

definition parse_path :: "string \<Rightarrow> path" where
  "parse_path s =
     (let slashes = length (takeWhile (\<lambda>c. c = CHR ''/'') s) in
      \<lparr>pt_root = (if slashes = 0 then [] else if slashes = 2 then ''//'' else ''/''),
       pt_names = filter (\<lambda>n. n \<noteq> [] \<and> n \<noteq> ''.'') (split_on (CHR ''/'') s)\<rparr>)"

definition is_absolute :: "path \<Rightarrow> bool" where
  "is_absolute p \<longleftrightarrow> pt_root p \<noteq> []"

definition path_parts :: "path \<Rightarrow> string list" where
  "path_parts p = (if pt_root p = [] then [] else [pt_root p]) @ pt_names p"

definition path_parent :: "path \<Rightarrow> path" where
  "path_parent p = p\<lparr>pt_names := butlast (pt_names p)\<rparr>"

definition path_join :: "path \<Rightarrow> string \<Rightarrow> path" where
  "path_join p name = p\<lparr>pt_names := pt_names p @ [name]\<rparr>"

fun join_names :: "string list \<Rightarrow> string" where
  "join_names [] = []"
| "join_names [x] = x"
| "join_names (x # y # xs) = x @ CHR ''/'' # join_names (y # xs)"

definition path_text :: "path \<Rightarrow> string" where
  "path_text p = (if path_parts p = [] then ''.'' else pt_root p @ join_names (pt_names p))"

text \<open>\<open>path.relative_to(root)\<close> succeeds.\<close>

definition path_under :: "path \<Rightarrow> path \<Rightarrow> bool" where
  "path_under p root \<longleftrightarrow> pt_root p = pt_root root \<and> take (length (pt_names root)) (pt_names p) = pt_names root"

section \<open>URLs\<close>

record parsed_url =
  pu_scheme :: string
  pu_netloc :: string
  pu_path :: string
  pu_query :: string
  pu_fragment :: string

definition scheme_char :: "char \<Rightarrow> bool" where
  "scheme_char c \<longleftrightarrow> is_lower_letter c \<or> is_upper_letter c \<or> is_digit c \<or> c \<in> set ''+-.''"

definition before_char :: "char \<Rightarrow> string \<Rightarrow> string" where
  "before_char d s = takeWhile (\<lambda>c. c \<noteq> d) s"

definition after_char :: "char \<Rightarrow> string \<Rightarrow> string" where
  "after_char d s = tl (dropWhile (\<lambda>c. c \<noteq> d) s)"

text \<open>\<open>s.rpartition(d)[2]\<close> and whether \<open>d\<close> occurs.\<close>

definition after_last :: "char \<Rightarrow> string \<Rightarrow> string" where
  "after_last d s = rev (takeWhile (\<lambda>c. c \<noteq> d) (rev s))"

definition clean_url :: "string \<Rightarrow> string" where
  "clean_url s = filter (\<lambda>c. c \<notin> {CHR 0x09, CHR 0x0A, CHR 0x0D}) (dropWhile (\<lambda>c. (of_char c :: nat) \<le> 32) s)"

definition split_scheme :: "string \<Rightarrow> string \<times> string" where
  "split_scheme s =
     (let sc = before_char (CHR '':'') s in
      if CHR '':'' \<in> set s \<and> sc \<noteq> [] \<and> (is_lower_letter (hd sc) \<or> is_upper_letter (hd sc)) \<and> list_all scheme_char sc
      then (py_lower sc, after_char (CHR '':'') s) else ([], s))"

definition split_netloc :: "string \<Rightarrow> string \<times> string" where
  "split_netloc s =
     (if starts_with ''//'' s then
        (let delim = (\<lambda>c. c = CHR ''/'' \<or> c = CHR ''?'' \<or> c = CHR ''#'') in
         (takeWhile (\<lambda>c. \<not> delim c) (drop 2 s), dropWhile (\<lambda>c. \<not> delim c) (drop 2 s)))
      else ([], s))"

text \<open>The last segment of the path loses what follows a semicolon (the parameters).\<close>

definition drop_params :: "string \<Rightarrow> string" where
  "drop_params s =
     (let seg = after_last (CHR ''/'') s in
      take (length s - length seg) s @ before_char (CHR '';'') seg)"

text \<open>\<open>urlparse\<close>; \<open>bracketed\<close> is the library's check of a bracketed host, \<open>None\<close> its \<open>ValueError\<close>.\<close>

definition url_parse :: "(string \<Rightarrow> bool) \<Rightarrow> string \<Rightarrow> parsed_url option" where
  "url_parse bracketed raw =
     (case split_scheme (clean_url raw) of (scheme, s1) \<Rightarrow>
      (case split_netloc s1 of (netloc, s2) \<Rightarrow>
        if (CHR ''['' \<in> set netloc) \<noteq> (CHR '']'' \<in> set netloc) then None
        else if CHR ''['' \<in> set netloc \<and> \<not> bracketed netloc then None
        else
          (let fragment = (if CHR ''#'' \<in> set s2 then after_char (CHR ''#'') s2 else []);
               s3 = before_char (CHR ''#'') s2;
               query = (if CHR ''?'' \<in> set s3 then after_char (CHR ''?'') s3 else []);
               p = before_char (CHR ''?'') s3 in
           Some \<lparr>pu_scheme = scheme, pu_netloc = netloc, pu_path = drop_params p, pu_query = query, pu_fragment = fragment\<rparr>)))"

definition url_hostinfo :: "parsed_url \<Rightarrow> string" where
  "url_hostinfo u = after_last (CHR ''@'') (pu_netloc u)"

definition url_hostname :: "parsed_url \<Rightarrow> string option" where
  "url_hostname u =
     (let info = url_hostinfo u;
          host = (if CHR ''['' \<in> set info then before_char (CHR '']'') (after_char (CHR ''['') info)
                  else before_char (CHR '':'') info) in
      if host = [] then None
      else Some (py_lower (before_char (CHR ''%'') host) @ drop (length (before_char (CHR ''%'') host)) host))"

definition url_port_text :: "parsed_url \<Rightarrow> string" where
  "url_port_text u =
     (let info = url_hostinfo u in
      if CHR ''['' \<in> set info then after_char (CHR '':'') (after_char (CHR '']'') (after_char (CHR ''['') info))
      else after_char (CHR '':'') info)"

text \<open>\<open>None\<close> is the \<open>ValueError\<close> of \<open>port\<close>.\<close>

definition url_port :: "parsed_url \<Rightarrow> int option option" where
  "url_port u =
     (let t = url_port_text u in
      if t = [] then Some None
      else if list_all is_digit t \<and> length t \<le> 4300 \<and> digits_value t \<le> 65535 then Some (Some (int (digits_value t)))
      else None)"

definition url_has_userinfo :: "parsed_url \<Rightarrow> bool" where
  "url_has_userinfo u \<longleftrightarrow> CHR ''@'' \<in> set (pu_netloc u)"

end
