(* ===== verification/Config.thy ===== *)
theory Config
  imports Policy Url
begin

text \<open>
  The configuration, \<open>src/src/dztgbot/config.py\<close>: \<open>Settings.from_environment\<close> over the process environment as
  \<open>load_dotenv\<close> left it.  \<open>config_env\<close> holds what the code takes from its surroundings: the variables, \<open>float\<close> in
  milliseconds (\<open>Some None\<close> for the values without a place in a range: infinities and NaN), the home directories, symbolic link
  resolution, the checkout, and the library's check of bracketed hosts.  The log line about disabled
  certificate verification is not modelled.
\<close>

section \<open>Surroundings and errors\<close>

record config_env =
  ce_vars :: "string \<Rightarrow> string option"
  ce_float :: "string \<Rightarrow> int option option"
  ce_home :: "string \<Rightarrow> path option"
  ce_resolve :: "path \<Rightarrow> path"
  ce_repository_root :: path
  ce_bracketed :: "string \<Rightarrow> bool"

text \<open>The errors the code raises on purpose, and the \<open>ValueError\<close> of \<open>urlparse\<close> and \<open>port\<close>, which it does not catch.\<close>

datatype config_error = RuntimeError string | UrlValueError

definition getenv :: "config_env \<Rightarrow> string \<Rightarrow> string \<Rightarrow> string" where
  "getenv env name dflt = (case ce_vars env name of None \<Rightarrow> dflt | Some v \<Rightarrow> v)"

abbreviation stripped_env :: "config_env \<Rightarrow> string \<Rightarrow> string" where
  "stripped_env env name \<equiv> py_strip (getenv env name [])"

text \<open>\<open>not raw or raw.startswith("TODO_")\<close>.\<close>

definition unset :: "string \<Rightarrow> bool" where
  "unset raw \<longleftrightarrow> raw = [] \<or> starts_with ''TODO_'' raw"

section \<open>Parsing one variable\<close>

definition environment_bool :: "config_env \<Rightarrow> string \<Rightarrow> bool \<Rightarrow> config_error + bool" where
  "environment_bool env name dflt =
     (case ce_vars env name of
        None \<Rightarrow> Inr dflt
      | Some raw \<Rightarrow>
          (let normalized = py_lower (py_strip raw) in
           if normalized \<in> {''1'', ''true'', ''yes'', ''on''} then Inr True
           else if normalized \<in> {''0'', ''false'', ''no'', ''off''} then Inr False
           else Inl (RuntimeError (name @ '' must be true or false.''))))"

definition between_error :: "string \<Rightarrow> int \<Rightarrow> int \<Rightarrow> config_error" where
  "between_error name lo hi =
     RuntimeError (name @ '' must be between '' @ decimal_int lo @ '' and '' @ decimal_int hi @ ''.'')"

definition parse_int :: "config_env \<Rightarrow> string \<Rightarrow> string \<Rightarrow> int \<Rightarrow> int \<Rightarrow> config_error + int" where
  "parse_int env name dflt lo hi =
     (case int_text (py_strip (getenv env name dflt)) of
        None \<Rightarrow> Inl (RuntimeError (name @ '' must be an integer.''))
      | Some v \<Rightarrow> if lo \<le> v \<and> v \<le> hi then Inr v else Inl (between_error name lo hi))"

definition parse_float :: "config_env \<Rightarrow> string \<Rightarrow> string \<Rightarrow> int \<Rightarrow> int \<Rightarrow> config_error + int" where
  "parse_float env name dflt lo hi =
     (case ce_float env (py_strip (getenv env name dflt)) of
        None \<Rightarrow> Inl (RuntimeError (name @ '' must be a number.''))
      | Some None \<Rightarrow> Inl (between_error name lo hi)
      | Some (Some v) \<Rightarrow> if 1000 * lo \<le> v \<and> v \<le> 1000 * hi then Inr v else Inl (between_error name lo hi))"

definition parse_positive_id_set :: "string \<Rightarrow> string \<Rightarrow> bool \<Rightarrow> config_error + int set" where
  "parse_positive_id_set raw name required =
     (case those (map int_text (filter (\<lambda>p. p \<noteq> []) (map py_strip (split_on (CHR '','') raw)))) of
        None \<Rightarrow> Inl (RuntimeError (name @ '' must be a comma-separated list of integers.''))
      | Some ids \<Rightarrow>
          if required \<and> ids = [] then Inl (RuntimeError (name @ '' must contain positive integers.''))
          else if list_ex (\<lambda>i. i \<le> 0) ids then Inl (RuntimeError (name @ '' must contain positive integers.''))
          else Inr (set ids))"

definition parse_optional_allowed_users :: "string \<Rightarrow> config_error + int set option" where
  "parse_optional_allowed_users raw =
     (if unset raw then Inr None
      else rbind (parse_positive_id_set raw ''TELEGRAM_ALLOWED_USER_IDS'' False) (\<lambda>ids.
        Inr (if ids = {} then None else Some ids)))"

text \<open>\<open>Path(raw).expanduser()\<close>: a first name \<open>~user\<close> becomes that user's home directory.\<close>

definition expanduser :: "config_env \<Rightarrow> path \<Rightarrow> config_error + path" where
  "expanduser env p =
     (case pt_names p of
        (CHR 0x7E # user) # rest \<Rightarrow>
          if pt_root p \<noteq> [] then Inr p
          else (case ce_home env user of
             None \<Rightarrow> Inl (RuntimeError ''Could not determine home directory.'')
           | Some home \<Rightarrow> Inr (home\<lparr>pt_names := pt_names home @ rest\<rparr>))
      | _ \<Rightarrow> Inr p)"

definition absolute_path :: "config_env \<Rightarrow> string \<Rightarrow> string \<Rightarrow> config_error + path" where
  "absolute_path env raw problem =
     rbind (expanduser env (parse_path raw)) (\<lambda>p. if is_absolute p then Inr p else Inl (RuntimeError problem))"

definition parse_optional_absolute_path :: "config_env \<Rightarrow> string \<Rightarrow> string \<Rightarrow> config_error + path option" where
  "parse_optional_absolute_path env raw name =
     (if unset raw then Inr None
      else rbind (absolute_path env raw (name @ '' must be an absolute path.'')) (\<lambda>p. Inr (Some p)))"

definition SYNCED_PATH_MARKERS :: "string list" where
  "SYNCED_PATH_MARKERS = [''dropbox'', ''google drive'', ''googledrive'', ''icloud drive'', ''icloudrive'']"

definition is_synced_path :: "path \<Rightarrow> bool" where
  "is_synced_path p \<longleftrightarrow>
     list_ex (\<lambda>part. starts_with ''onedrive'' (py_casefold part) \<or> py_casefold part \<in> set SYNCED_PATH_MARKERS) (path_parts p)"

definition is_under :: "config_env \<Rightarrow> path \<Rightarrow> path \<Rightarrow> bool" where
  "is_under env p root = path_under (ce_resolve env p) (ce_resolve env root)"

definition parse_workflow_db_path :: "config_env \<Rightarrow> string \<Rightarrow> config_error + path option" where
  "parse_workflow_db_path env raw =
     (if unset raw then Inr None
      else rbind (absolute_path env raw ''WORKFLOW_DB_PATH must be an absolute path.'') (\<lambda>p.
        if is_under env p (ce_repository_root env) then
          Inl (RuntimeError ''WORKFLOW_DB_PATH must be outside the Git checkout.'')
        else if is_synced_path p then
          Inl (RuntimeError ''WORKFLOW_DB_PATH must not reside on a cloud-synced path (for example OneDrive, Dropbox, or iCloud).'')
        else Inr (Some p)))"

definition rstrip_slash :: "string \<Rightarrow> string" where
  "rstrip_slash s = rev (dropWhile (\<lambda>c. c = CHR ''/'') (rev s))"

text \<open>The second check for user information can never fail after the first.\<close>

definition parse_jira_url :: "config_env \<Rightarrow> string \<Rightarrow> config_error + string" where
  "parse_jira_url env raw =
     (if unset raw then
        Inl (RuntimeError ''JIRA_URL must be configured with the Jira server base URL (e.g. https://jira.example.com).'')
      else case url_parse (ce_bracketed env) raw of
        None \<Rightarrow> Inl UrlValueError
      | Some u \<Rightarrow>
          if pu_scheme u \<noteq> ''https'' then Inl (RuntimeError ''JIRA_URL must use the https scheme.'')
          else (case url_hostname u of
            None \<Rightarrow> Inl (RuntimeError ''JIRA_URL must include a host name.'')
          | Some host \<Rightarrow>
              if url_has_userinfo u then Inl (RuntimeError ''JIRA_URL must not contain credentials.'')
              else if pu_fragment u \<noteq> [] then Inl (RuntimeError ''JIRA_URL must not contain a fragment.'')
              else if pu_query u \<noteq> [] then Inl (RuntimeError ''JIRA_URL must not contain a query string.'')
              else (case url_port u of
                None \<Rightarrow> Inl UrlValueError
              | Some port \<Rightarrow>
                  Inr (''https://'' @ (case port of None \<Rightarrow> host | Some n \<Rightarrow> host @ '':'' @ decimal_int n) @
                       rstrip_slash (pu_path u)))))"

definition project_key_ok :: "string \<Rightarrow> bool" where
  "project_key_ok k \<longleftrightarrow> k \<noteq> [] \<and> is_upper_letter (hd k) \<and> list_all (\<lambda>c. is_upper_letter c \<or> is_digit c) (tl k) \<and>
     2 \<le> length k \<and> length k \<le> 20"

definition parse_optional_project_key :: "string \<Rightarrow> config_error + string option" where
  "parse_optional_project_key raw =
     (if unset raw then Inr None
      else if project_key_ok (py_upper raw) then Inr (Some (py_upper raw))
      else Inl (RuntimeError (''JIRA_DEFAULT_PROJECT_KEY must be 2-20 characters, '' @
        ''starting with a letter, containing only A-Z and 0-9.'')))"

section \<open>The settings\<close>

record settings =
  st_telegram_bot_token :: string
  st_gemini_api_key :: string
  st_gemini_timeout_seconds :: int
  st_telegram_admin_user_ids :: "int set"
  st_telegram_concurrent_updates :: int
  st_telegram_allowed_user_ids :: "int set option"
  st_jira_rules_path :: path
  st_workflow_db_path :: "path option"
  st_vpn_enabled :: bool
  st_vpn_connection_name :: string
  st_vpn_profile_path :: "path option"
  st_vpn_allow_start :: bool
  st_vpn_nmcli_bin :: path
  st_vpn_sudo_bin :: path
  st_vpn_command_timeout_seconds :: int
  st_log_level :: string
  st_jira_url :: string
  st_jira_verify_ssl :: bool
  st_jira_ca_bundle_path :: "path option"
  st_jira_default_project_key :: "string option"
  st_user_credentials_path :: path
  st_auth_ttl_seconds :: int
  st_auth_pat_only :: bool
  st_private_chat_only :: bool
  st_max_batch_messages :: int
  st_max_message_characters :: int
  st_max_prompt_characters :: int
  st_max_attachment_bytes :: int
  st_max_attachment_count :: int
  st_max_queue_size :: int
  st_max_concurrent_gemini :: int
  st_max_concurrent_jira :: int
  st_notification_poll_interval_seconds :: int

definition secret :: "config_env \<Rightarrow> string \<Rightarrow> config_error + string" where
  "secret env name =
     (let v = stripped_env env name in
      if unset v then Inl (RuntimeError (name @ '' must be supplied through the environment or a local .env file.'')) else Inr v)"

text \<open>The Telegram and Gemini variables: token, key, timeout, administrators, updates, polling, allowlist.\<close>

definition telegram_settings ::
  "config_env \<Rightarrow> config_error + string \<times> string \<times> int \<times> int set \<times> int \<times> int \<times> int set option" where
  "telegram_settings env =
     rbind (secret env ''TELEGRAM_BOT_TOKEN'') (\<lambda>token.
     rbind (secret env ''GEMINI_API_KEY'') (\<lambda>gemini_key.
     rbind (parse_float env ''GEMINI_TIMEOUT_SECONDS'' ''30'' 1 120) (\<lambda>timeout.
     rbind (let raw = stripped_env env ''TELEGRAM_ADMIN_USER_IDS'' in
            if unset raw then
              Inl (RuntimeError ''TELEGRAM_ADMIN_USER_IDS must contain authorised numeric Telegram user IDs.'')
            else parse_positive_id_set raw ''TELEGRAM_ADMIN_USER_IDS'' True) (\<lambda>admins.
     rbind (parse_int env ''TELEGRAM_CONCURRENT_UPDATES'' ''4'' 1 32) (\<lambda>updates.
     rbind (parse_int env ''NOTIFICATION_POLL_INTERVAL_SECONDS'' ''300'' 60 86400) (\<lambda>poll.
     rbind (parse_optional_allowed_users (stripped_env env ''TELEGRAM_ALLOWED_USER_IDS'')) (\<lambda>allowed.
       Inr (token, gemini_key, timeout, admins, updates, poll, allowed))))))))"

text \<open>The files and Jira: rules, database, URL, certificate verification, bundle, project, credentials.\<close>

definition jira_settings ::
  "config_env \<Rightarrow> config_error + path \<times> path option \<times> string \<times> bool \<times> path option \<times> string option \<times> path" where
  "jira_settings env =
     rbind (let raw = stripped_env env ''JIRA_RULES_PATH'' in
            if unset raw then Inl (RuntimeError ''JIRA_RULES_PATH must point to the runtime rules file.'')
            else expanduser env (parse_path raw)) (\<lambda>rules.
     rbind (parse_workflow_db_path env (stripped_env env ''WORKFLOW_DB_PATH'')) (\<lambda>db.
     rbind (parse_jira_url env (stripped_env env ''JIRA_URL'')) (\<lambda>url.
     rbind (environment_bool env ''JIRA_VERIFY_SSL'' True) (\<lambda>verify.
     rbind (parse_optional_absolute_path env (stripped_env env ''JIRA_CA_BUNDLE_PATH'') ''JIRA_CA_BUNDLE_PATH'') (\<lambda>bundle.
     rbind (ensure (bundle = None \<or> verify) (RuntimeError (''JIRA_CA_BUNDLE_PATH requires JIRA_VERIFY_SSL=true; '' @
              ''do not combine a custom CA with verify-disable.''))) (\<lambda>_.
     rbind (parse_optional_project_key (stripped_env env ''JIRA_DEFAULT_PROJECT_KEY'')) (\<lambda>project.
     rbind (let raw = stripped_env env ''USER_CREDENTIALS_PATH'' in
            if unset raw then Inr (path_join (path_parent rules) ''user_credentials.json'')
            else expanduser env (parse_path raw)) (\<lambda>credentials.
       Inr (rules, db, url, verify, bundle, project, credentials)))))))))"

definition todo_blank :: "string \<Rightarrow> string" where
  "todo_blank raw = (if starts_with ''TODO_'' raw then [] else raw)"

definition executable_path :: "config_env \<Rightarrow> string \<Rightarrow> string \<Rightarrow> path" where
  "executable_path env name dflt =
     (let v = py_strip (getenv env name dflt) in parse_path (if v = [] then dflt else v))"

definition vpn_profile :: "config_env \<Rightarrow> bool \<Rightarrow> string \<Rightarrow> string \<Rightarrow> config_error + path option" where
  "vpn_profile env enabled connection raw =
     (if enabled then
        (if connection = [] then Inl (RuntimeError ''VPN_CONNECTION_NAME must be configured when VPN_ENABLED=true.'')
         else if length connection > 128 \<or> list_ex (\<lambda>c. c \<in> {CHR 0x00, CHR 0x0A, CHR 0x0D}) connection then
           Inl (RuntimeError ''VPN_CONNECTION_NAME is invalid.'')
         else if raw = [] then Inl (RuntimeError ''VPN_PROFILE_PATH must be configured when VPN_ENABLED=true.'')
         else rbind (absolute_path env raw ''VPN_PROFILE_PATH must be an absolute path.'') (\<lambda>p. Inr (Some p)))
      else if raw \<noteq> [] then
        rbind (absolute_path env raw ''VPN_PROFILE_PATH must be an absolute path when set.'') (\<lambda>p. Inr (Some p))
      else Inr None)"

definition vpn_settings ::
  "config_env \<Rightarrow> config_error + bool \<times> bool \<times> string \<times> path option \<times> path \<times> path \<times> int" where
  "vpn_settings env =
     rbind (environment_bool env ''VPN_ENABLED'' False) (\<lambda>enabled.
     rbind (environment_bool env ''VPN_ALLOW_START'' False) (\<lambda>allow_start.
     rbind (ensure (\<not> allow_start \<or> enabled) (RuntimeError ''VPN_ALLOW_START cannot be true while VPN_ENABLED is false.'')) (\<lambda>_.
     let connection = todo_blank (stripped_env env ''VPN_CONNECTION_NAME'') in
     rbind (vpn_profile env enabled connection (todo_blank (stripped_env env ''VPN_PROFILE_PATH''))) (\<lambda>profile.
     let nmcli = executable_path env ''VPN_NMCLI_BIN'' ''/usr/bin/nmcli'';
         sudo = executable_path env ''VPN_SUDO_BIN'' ''/usr/bin/sudo'' in
     rbind (ensure (\<not> enabled \<or> is_absolute nmcli) (RuntimeError ''VPN_NMCLI_BIN must be an absolute path.'')) (\<lambda>_.
     rbind (ensure (\<not> enabled \<or> is_absolute sudo) (RuntimeError ''VPN_SUDO_BIN must be an absolute path.'')) (\<lambda>_.
     rbind (parse_float env ''VPN_COMMAND_TIMEOUT_SECONDS'' ''10'' 1 60) (\<lambda>timeout.
       Inr (enabled, allow_start, connection, profile, nmcli, sudo, timeout))))))))"

definition LOG_LEVELS :: "string set" where
  "LOG_LEVELS = {''DEBUG'', ''INFO'', ''WARNING'', ''ERROR'', ''CRITICAL''}"

definition auth_settings :: "config_env \<Rightarrow> config_error + string \<times> int \<times> bool \<times> bool" where
  "auth_settings env =
     (let upper = py_upper (py_strip (getenv env ''LOG_LEVEL'' ''INFO'')); level = (if upper = [] then ''INFO'' else upper) in
      rbind (ensure (level \<in> LOG_LEVELS) (RuntimeError ''LOG_LEVEL must be DEBUG, INFO, WARNING, ERROR, or CRITICAL.'')) (\<lambda>_.
      rbind (parse_int env ''AUTH_TTL_SECONDS'' ''180'' 60 900) (\<lambda>ttl.
      rbind (environment_bool env ''AUTH_PAT_ONLY'' True) (\<lambda>pat_only.
      rbind (ensure pat_only (RuntimeError ''AUTH_PAT_ONLY cannot be false; the first release enforces PAT-only authentication.'')) (\<lambda>_.
      rbind (environment_bool env ''PRIVATE_CHAT_ONLY'' True) (\<lambda>private_only.
      rbind (ensure private_only (RuntimeError ''PRIVATE_CHAT_ONLY cannot be false; the first release is private-chat-only.'')) (\<lambda>_.
        Inr (level, ttl, pat_only, private_only))))))))"

definition limit_settings ::
  "config_env \<Rightarrow> config_error + int \<times> int \<times> int \<times> int \<times> int \<times> int \<times> int \<times> int" where
  "limit_settings env =
     rbind (parse_int env ''MAX_BATCH_MESSAGES'' ''20'' 1 50) (\<lambda>batch.
     rbind (parse_int env ''MAX_MESSAGE_CHARACTERS'' ''8000'' 100 32000) (\<lambda>message.
     rbind (parse_int env ''MAX_PROMPT_CHARACTERS'' ''32000'' 1000 200000) (\<lambda>prompt.
     rbind (ensure (\<not> prompt < message) (RuntimeError
              ''MAX_PROMPT_CHARACTERS must be greater than or equal to MAX_MESSAGE_CHARACTERS.'')) (\<lambda>_.
     rbind (parse_int env ''MAX_ATTACHMENT_BYTES'' ''10485760'' 1 52428800) (\<lambda>bytes.
     rbind (parse_int env ''MAX_ATTACHMENT_COUNT'' ''10'' 1 50) (\<lambda>number.
     rbind (parse_int env ''MAX_QUEUE_SIZE'' ''100'' 1 10000) (\<lambda>queue.
     rbind (parse_int env ''MAX_CONCURRENT_GEMINI'' ''2'' 1 16) (\<lambda>gemini.
     rbind (parse_int env ''MAX_CONCURRENT_JIRA'' ''4'' 1 16) (\<lambda>jira.
       Inr (batch, message, prompt, bytes, number, queue, gemini, jira))))))))))"

definition from_environment :: "config_env \<Rightarrow> config_error + settings" where
  "from_environment env =
     rbind (telegram_settings env) (\<lambda>(token, gemini_key, timeout, admins, updates, poll, allowed).
     rbind (jira_settings env) (\<lambda>(rules, db, url, verify, bundle, project, credentials).
     rbind (vpn_settings env) (\<lambda>(vpn, allow_start, connection, profile, nmcli, sudo, vpn_timeout).
     rbind (auth_settings env) (\<lambda>(level, ttl, pat_only, private_only).
     rbind (limit_settings env) (\<lambda>(batch, message, prompt, bytes, number, queue, gemini, jira).
       Inr \<lparr>st_telegram_bot_token = token, st_gemini_api_key = gemini_key, st_gemini_timeout_seconds = timeout,
            st_telegram_admin_user_ids = admins, st_telegram_concurrent_updates = updates,
            st_telegram_allowed_user_ids = allowed, st_jira_rules_path = rules, st_workflow_db_path = db,
            st_vpn_enabled = vpn, st_vpn_connection_name = connection, st_vpn_profile_path = profile,
            st_vpn_allow_start = allow_start, st_vpn_nmcli_bin = nmcli, st_vpn_sudo_bin = sudo,
            st_vpn_command_timeout_seconds = vpn_timeout, st_log_level = level, st_jira_url = url,
            st_jira_verify_ssl = verify, st_jira_ca_bundle_path = bundle, st_jira_default_project_key = project,
            st_user_credentials_path = credentials, st_auth_ttl_seconds = ttl, st_auth_pat_only = pat_only,
            st_private_chat_only = private_only, st_max_batch_messages = batch, st_max_message_characters = message,
            st_max_prompt_characters = prompt, st_max_attachment_bytes = bytes, st_max_attachment_count = number,
            st_max_queue_size = queue, st_max_concurrent_gemini = gemini, st_max_concurrent_jira = jira,
            st_notification_poll_interval_seconds = poll\<rparr>)))))"

datatype tls_verify = VerifyDefault bool | VerifyBundle string

definition jira_tls_verify :: "settings \<Rightarrow> tls_verify" where
  "jira_tls_verify s =
     (if \<not> st_jira_verify_ssl s then VerifyDefault False
      else case st_jira_ca_bundle_path s of Some p \<Rightarrow> VerifyBundle (path_text p) | None \<Rightarrow> VerifyDefault True)"

section \<open>Every setting is within its bounds\<close>

lemma parse_int_Inr: "parse_int env name d lo hi = Inr v \<Longrightarrow> lo \<le> v \<and> v \<le> hi"
  by (auto simp: parse_int_def split: option.splits if_splits)

lemma parse_float_Inr: "parse_float env name d lo hi = Inr v \<Longrightarrow> 1000 * lo \<le> v \<and> v \<le> 1000 * hi"
  by (auto simp: parse_float_def split: option.splits if_splits)

lemma parse_positive_id_set_Inr:
  assumes "parse_positive_id_set raw name required = Inr ids"
  shows "finite ids \<and> (\<forall>i\<in>ids. 0 < i) \<and> (required \<longrightarrow> ids \<noteq> {})"
  using assms by (auto simp: parse_positive_id_set_def list_ex_iff not_le split: option.splits if_splits)

lemma absolute_path_Inr: "absolute_path env raw problem = Inr p \<Longrightarrow> is_absolute p"
  by (auto simp: absolute_path_def rbind_eq_Inr split: if_splits)

lemma secret_Inr: "secret env name = Inr v \<Longrightarrow> \<not> unset v"
  by (auto simp: secret_def Let_def split: if_splits)

lemma telegram_settings_Inr:
  assumes "telegram_settings env = Inr (token, gemini_key, timeout, admins, updates, poll, allowed)"
  shows "\<not> unset token" "\<not> unset gemini_key" "1000 \<le> timeout" "timeout \<le> 120000"
    "finite admins" "admins \<noteq> {}" "\<forall>i\<in>admins. 0 < i" "1 \<le> updates" "updates \<le> 32" "60 \<le> poll" "poll \<le> 86400"
    "\<And>ids. allowed = Some ids \<Longrightarrow> finite ids \<and> ids \<noteq> {} \<and> (\<forall>i\<in>ids. 0 < i)"
  using assms
  by (auto simp: telegram_settings_def rbind_eq_Inr Let_def parse_optional_allowed_users_def
      dest!: parse_int_Inr parse_float_Inr parse_positive_id_set_Inr secret_Inr split: if_splits)

lemma jira_settings_Inr:
  assumes "jira_settings env = Inr (rules, db, url, verify, bundle, project, credentials)"
  shows "\<And>p. db = Some p \<Longrightarrow> is_absolute p \<and> \<not> is_under env p (ce_repository_root env) \<and> \<not> is_synced_path p"
    "\<exists>raw. parse_jira_url env raw = Inr url" "\<And>p. bundle = Some p \<Longrightarrow> verify \<and> is_absolute p"
    "\<And>k. project = Some k \<Longrightarrow> project_key_ok k"
  using assms
  by (auto simp: jira_settings_def rbind_eq_Inr Let_def parse_workflow_db_path_def parse_optional_absolute_path_def
      parse_optional_project_key_def dest!: absolute_path_Inr split: if_splits)

lemma vpn_settings_Inr:
  assumes "vpn_settings env = Inr (enabled, allow_start, connection, profile, nmcli, sudo, timeout)"
  shows "allow_start \<Longrightarrow> enabled" "enabled \<Longrightarrow> connection \<noteq> [] \<and> length connection \<le> 128 \<and> profile \<noteq> None \<and>
      is_absolute nmcli \<and> is_absolute sudo" "\<And>p. profile = Some p \<Longrightarrow> is_absolute p" "1000 \<le> timeout" "timeout \<le> 60000"
  using assms
  by (auto simp: vpn_settings_def rbind_eq_Inr Let_def vpn_profile_def
      dest!: parse_float_Inr absolute_path_Inr split: if_splits)

lemma auth_settings_Inr:
  assumes "auth_settings env = Inr (level, ttl, pat_only, private_only)"
  shows "level \<in> LOG_LEVELS" "60 \<le> ttl" "ttl \<le> 900" "pat_only" "private_only"
  using assms by (auto simp: auth_settings_def rbind_eq_Inr Let_def dest!: parse_int_Inr)

lemma limit_settings_Inr:
  assumes "limit_settings env = Inr (batch, message, prompt, bytes, number, queue, gemini, jira)"
  shows "batch \<in> {1..50}" "message \<in> {100..32000}" "prompt \<in> {1000..200000}" "message \<le> prompt" "bytes \<in> {1..52428800}"
    "number \<in> {1..50}" "queue \<in> {1..10000}" "gemini \<in> {1..16}" "jira \<in> {1..16}"
  using assms by (auto simp: limit_settings_def rbind_eq_Inr dest!: parse_int_Inr)

lemma from_environment_sections:
  assumes "from_environment env = Inr s"
  shows "telegram_settings env = Inr (st_telegram_bot_token s, st_gemini_api_key s, st_gemini_timeout_seconds s,
      st_telegram_admin_user_ids s, st_telegram_concurrent_updates s, st_notification_poll_interval_seconds s,
      st_telegram_allowed_user_ids s)"
    "jira_settings env = Inr (st_jira_rules_path s, st_workflow_db_path s, st_jira_url s, st_jira_verify_ssl s,
      st_jira_ca_bundle_path s, st_jira_default_project_key s, st_user_credentials_path s)"
    "vpn_settings env = Inr (st_vpn_enabled s, st_vpn_allow_start s, st_vpn_connection_name s, st_vpn_profile_path s,
      st_vpn_nmcli_bin s, st_vpn_sudo_bin s, st_vpn_command_timeout_seconds s)"
    "auth_settings env = Inr (st_log_level s, st_auth_ttl_seconds s, st_auth_pat_only s, st_private_chat_only s)"
    "limit_settings env = Inr (st_max_batch_messages s, st_max_message_characters s, st_max_prompt_characters s,
      st_max_attachment_bytes s, st_max_attachment_count s, st_max_queue_size s, st_max_concurrent_gemini s,
      st_max_concurrent_jira s)"
  using assms unfolding from_environment_def by (auto simp: rbind_eq_Inr)

text \<open>
  C28. The settings that are loaded are safe: whatever the environment, if \<open>from_environment\<close> returns then there is
  an administrator, an allowlist that is present is not empty, all identifiers are positive, PAT-only and private-chat-only are on, the
  database lies on an absolute path outside the checkout and outside cloud-synced directories, a certificate bundle is used
  only with verification, a VPN can be started only if it is enabled and configured, and every limit is within its range.
\<close>

theorem loaded_settings_safe:
  assumes "from_environment env = Inr s"
  shows "st_telegram_admin_user_ids s \<noteq> {} \<and> (\<forall>i \<in> st_telegram_admin_user_ids s. 0 < i) \<and>
    (\<forall>ids. st_telegram_allowed_user_ids s = Some ids \<longrightarrow> ids \<noteq> {} \<and> (\<forall>i\<in>ids. 0 < i)) \<and>
    st_auth_pat_only s \<and> st_private_chat_only s \<and> st_auth_ttl_seconds s \<in> {60..900} \<and>
    (\<forall>p. st_workflow_db_path s = Some p \<longrightarrow> is_absolute p \<and> \<not> is_under env p (ce_repository_root env) \<and> \<not> is_synced_path p) \<and>
    (st_jira_ca_bundle_path s \<noteq> None \<longrightarrow> st_jira_verify_ssl s) \<and>
    (st_vpn_allow_start s \<longrightarrow> st_vpn_enabled s) \<and>
    (st_vpn_enabled s \<longrightarrow> st_vpn_profile_path s \<noteq> None \<and> is_absolute (st_vpn_nmcli_bin s) \<and> is_absolute (st_vpn_sudo_bin s)) \<and>
    st_gemini_timeout_seconds s \<in> {1000..120000} \<and> st_vpn_command_timeout_seconds s \<in> {1000..60000} \<and>
    st_telegram_concurrent_updates s \<in> {1..32} \<and> st_notification_poll_interval_seconds s \<in> {60..86400} \<and>
    st_max_batch_messages s \<in> {1..50} \<and> st_max_message_characters s \<in> {100..32000} \<and>
    st_max_prompt_characters s \<in> {1000..200000} \<and> st_max_message_characters s \<le> st_max_prompt_characters s \<and>
    st_max_attachment_bytes s \<in> {1..52428800} \<and> st_max_attachment_count s \<in> {1..50} \<and>
    st_max_queue_size s \<in> {1..10000} \<and> st_max_concurrent_gemini s \<in> {1..16} \<and> st_max_concurrent_jira s \<in> {1..16}"
proof -
  note sections = from_environment_sections[OF assms]
  note telegram = telegram_settings_Inr[OF sections(1)] and jira = jira_settings_Inr[OF sections(2)]
    and vpn = vpn_settings_Inr[OF sections(3)] and auth = auth_settings_Inr[OF sections(4)]
    and limits = limit_settings_Inr[OF sections(5)]
  show ?thesis
    by (intro conjI allI impI) (use telegram jira vpn auth limits in \<open>auto\<close>)
qed

section \<open>Samples\<close>

definition sample_config :: config_env where
  "sample_config = \<lparr>ce_vars = (\<lambda>_. None), ce_float = (\<lambda>_. None), ce_home = (\<lambda>_. None), ce_resolve = id,
     ce_repository_root = parse_path ''/srv/bot'', ce_bracketed = (\<lambda>_. True)\<rparr>"

definition sample_environment :: config_env where
  "sample_environment = sample_config\<lparr>
     ce_vars := map_of [(''TELEGRAM_BOT_TOKEN'', ''t''), (''GEMINI_API_KEY'', ''k''), (''TELEGRAM_ADMIN_USER_IDS'', '' 42, 43''),
       (''JIRA_RULES_PATH'', ''/etc/bot/rules.md''), (''JIRA_URL'', ''https://jira.example.com''), (''MAX_ATTACHMENT_COUNT'', ''1'')],
     ce_float := map_of [(''30'', Some 30000), (''10'', Some 10000)]\<rparr>"

lemmas config_eval = sample_environment_def sample_config_def getenv_def unset_def starts_with_def py_strip_def is_space_def
  int_text_def is_digit_def digits_value_def

lemma sample_telegram: "\<not> isl (telegram_settings sample_environment)"
  by (simp add: telegram_settings_def secret_def parse_float_def parse_positive_id_set_def parse_int_def
      parse_optional_allowed_users_def config_eval)

lemma sample_jira: "\<not> isl (jira_settings sample_environment)"
  by (simp add: jira_settings_def parse_path_def expanduser_def path_parent_def path_join_def parse_workflow_db_path_def
      environment_bool_def parse_optional_absolute_path_def parse_optional_project_key_def config_eval
      parse_jira_url_def url_parse_def split_scheme_def clean_url_def before_char_def
      after_char_def is_lower_letter_def is_upper_letter_def scheme_char_def py_lower_def lower_char_def split_netloc_def
      url_hostname_def url_hostinfo_def after_last_def url_has_userinfo_def url_port_def url_port_text_def
      drop_params_def rstrip_slash_def)

lemma sample_vpn: "\<not> isl (vpn_settings sample_environment)"
  by (simp add: vpn_settings_def environment_bool_def todo_blank_def vpn_profile_def parse_float_def config_eval)

lemma sample_auth: "\<not> isl (auth_settings sample_environment)"
  by (simp add: auth_settings_def environment_bool_def parse_int_def LOG_LEVELS_def py_upper_def upper_char_def config_eval)

lemma sample_limits: "\<exists>b m p a q g. limit_settings sample_environment = Inr (b, m, p, a, 1, q, g, 4)"
  by (simp add: limit_settings_def parse_int_def config_eval)

lemma sample_loads: "\<exists>s. from_environment sample_environment = Inr s \<and> st_max_attachment_count s = 1 \<and> st_max_concurrent_jira s = 4"
proof -
  obtain t where t: "telegram_settings sample_environment = Inr t" using sample_telegram by (metis isl_def sum.exhaust)
  obtain j where j: "jira_settings sample_environment = Inr j" using sample_jira by (metis isl_def sum.exhaust)
  obtain v where v: "vpn_settings sample_environment = Inr v" using sample_vpn by (metis isl_def sum.exhaust)
  obtain a where a: "auth_settings sample_environment = Inr a" using sample_auth by (metis isl_def sum.exhaust)
  from sample_limits obtain l1 l2 l3 l4 l6 l7 where l: "limit_settings sample_environment = Inr (l1, l2, l3, l4, 1, l6, l7, 4)" by blast
  show ?thesis
    by (cases t; cases j; cases v; cases a) (simp add: from_environment_def t j v a l)
qed

theorem loaded_settings_safe_witness:
  "\<exists>s. from_environment sample_environment = Inr s \<and> st_telegram_admin_user_ids s \<noteq> {} \<and> st_private_chat_only s"
proof -
  from sample_loads obtain s where s: "from_environment sample_environment = Inr s" by blast
  from loaded_settings_safe [OF s] s show ?thesis by blast
qed

end
