(* ===== verification/Jira_Url.thy ===== *)
theory Jira_Url
  imports Config
begin

text \<open>
  The normal form of the Jira URL: \<open>_parse_jira_url\<close> of \<open>src/src/dztgbot/config.py\<close> accepts its own result and leaves it
  alone, for hosts without brackets and paths without parameters.
\<close>

section \<open>Characters of a URL\<close>

text \<open>A character that is neither a letter nor the lower case of one is not changed by \<open>lower\<close>.\<close>

lemma lower_char_code:
  "(of_char (lower_char c) :: nat) = (let n = of_char c in
     if (65 \<le> n \<and> n \<le> 90) \<or> (192 \<le> n \<and> n \<le> 222 \<and> n \<noteq> 215) then n + 32 else n)"
  by (auto simp: lower_char_def Let_def take_bit_eq_mod)

lemma lower_char_eq_iff:
  assumes "(of_char d :: nat) < 65 \<or> of_char d \<in> {91..96::nat} \<or> of_char d \<in> {123..191::nat}"
  shows "lower_char c = d \<longleftrightarrow> c = d"
proof
  assume "lower_char c = d"
  with assms lower_char_code[of c] show "c = d" by (auto simp: lower_char_def Let_def split: if_splits)
next
  assume "c = d"
  with assms show "lower_char c = d" by (auto simp: lower_char_def Let_def)
qed

lemma lower_char_idem [simp]: "lower_char (lower_char c) = lower_char c"
  using lower_char_code[of c] lower_char_def[of "lower_char c"] by (auto simp: Let_def split: if_splits)

lemma py_lower_idem [simp]: "py_lower (py_lower s) = py_lower s"
  by (simp add: py_lower_def)

definition url_mark :: "char \<Rightarrow> bool" where
  "url_mark c \<longleftrightarrow> c \<in> set ''/?#@:%[]''"

lemma url_mark_lower: "url_mark d \<Longrightarrow> lower_char c = d \<longleftrightarrow> c = d"
  by (rule lower_char_eq_iff) (auto simp: url_mark_def)

lemma in_py_lower: "url_mark d \<Longrightarrow> d \<in> set (py_lower s) \<longleftrightarrow> d \<in> set s"
  by (induction s) (auto simp: py_lower_def url_mark_lower eq_commute[of d])

lemma before_char_lower: "url_mark d \<Longrightarrow> before_char d (py_lower s) = py_lower (before_char d s)"
  by (induction s) (auto simp: before_char_def py_lower_def url_mark_lower)

lemma before_char_id: "d \<notin> set s \<Longrightarrow> before_char d s = s"
  by (simp add: before_char_def takeWhile_eq_all_conv) blast

lemma not_in_before_char [simp]: "d \<notin> set (before_char d s)"
  by (auto simp: before_char_def dest: set_takeWhileD)

lemma set_before_char: "set (before_char d s) \<subseteq> set s"
  by (auto simp: before_char_def dest: set_takeWhileD)

lemma after_char_absent: "d \<notin> set s \<Longrightarrow> after_char d s = []"
  by (induction s) (auto simp: after_char_def)

lemma before_char_append: "d \<notin> set a \<Longrightarrow> before_char d (a @ d # b) = a"
  by (induction a) (auto simp: before_char_def)

lemma after_char_append: "d \<notin> set a \<Longrightarrow> after_char d (a @ d # b) = b"
  by (induction a) (auto simp: after_char_def)

lemma after_last_absent: "d \<notin> set s \<Longrightarrow> after_last d s = s"
  unfolding after_last_def by (subst takeWhile_eq_all_conv[THEN iffD2]) auto

text \<open>The host part after normalisation: lower case up to a zone.\<close>

definition lower_host :: "string \<Rightarrow> string" where
  "lower_host h = py_lower (before_char (CHR ''%'') h) @ drop (length (before_char (CHR ''%'') h)) h"

lemma drop_before_char: "before_char d h @ drop (length (before_char d h)) h = h"
  unfolding before_char_def by (induction h) auto

lemma lower_host_idem: "lower_host (lower_host h) = lower_host h"
proof -
  let ?z = "drop (length (before_char (CHR ''%'') h)) h"
  have z: "?z = [] \<or> hd ?z = CHR ''%''"
    unfolding before_char_def by (induction h) auto
  have "before_char (CHR ''%'') (py_lower (before_char (CHR ''%'') h) @ ?z) = py_lower (before_char (CHR ''%'') h)"
  proof -
    have no: "CHR ''%'' \<notin> set (py_lower (before_char (CHR ''%'') h))"
      by (subst in_py_lower) (simp_all add: url_mark_def)
    show ?thesis
    proof (cases ?z)
      case Nil
      with no show ?thesis by (simp add: before_char_id)
    next
      case (Cons c cs)
      with z have "c = CHR ''%''" by simp
      with no Cons show ?thesis by (simp add: before_char_append)
    qed
  qed
  then show ?thesis by (simp add: lower_host_def)
qed

lemma in_lower_host: "url_mark d \<Longrightarrow> d \<in> set (lower_host h) \<longleftrightarrow> d \<in> set h"
proof -
  assume d: "url_mark d"
  have "set h = set (before_char (CHR ''%'') h) \<union> set (drop (length (before_char (CHR ''%'') h)) h)"
    by (metis drop_before_char set_append)
  with d show ?thesis by (simp add: lower_host_def in_py_lower)
qed

lemma lower_host_Nil [simp]: "lower_host h = [] \<longleftrightarrow> h = []"
  by (metis append_is_Nil_conv drop_before_char lower_host_def list.map_disc_iff py_lower_def)

text \<open>What the parser makes of a URL in normal form.\<close>

definition plain_url :: "string \<Rightarrow> int option \<Rightarrow> string \<Rightarrow> bool" where
  "plain_url host port p \<longleftrightarrow>
     host \<noteq> [] \<and> lower_host host = host \<and> (\<forall>c \<in> set host. c \<notin> set ''/?#@:[]'' \<and> c \<notin> {CHR 0x09, CHR 0x0A, CHR 0x0D}) \<and>
     (case port of None \<Rightarrow> True | Some n \<Rightarrow> 0 \<le> n \<and> n \<le> 65535) \<and>
     (p = [] \<or> hd p = CHR ''/'') \<and> (\<forall>c \<in> set p. c \<notin> set ''?#;'' \<and> c \<notin> {CHR 0x09, CHR 0x0A, CHR 0x0D}) \<and>
     rstrip_slash p = p"

definition url_text :: "string \<Rightarrow> int option \<Rightarrow> string \<Rightarrow> string" where
  "url_text host port p = ''https://'' @ (case port of None \<Rightarrow> host | Some n \<Rightarrow> host @ '':'' @ decimal_int n) @ p"

definition netloc_text :: "string \<Rightarrow> int option \<Rightarrow> string" where
  "netloc_text host port = (case port of None \<Rightarrow> host | Some n \<Rightarrow> host @ '':'' @ decimal_int n)"

lemma decimal_int_chars: "0 \<le> n \<Longrightarrow> c \<in> set (decimal_int n) \<Longrightarrow> is_digit c"
  using decimal_digits by (auto simp: decimal_int_def)

lemma digit_not_mark: "is_digit c \<Longrightarrow> c \<notin> set ''/?#@:%[]'' \<and> c \<notin> {CHR 0x09, CHR 0x0A, CHR 0x0D}"
  by (auto simp: is_digit_def)

lemma netloc_chars:
  assumes "plain_url host port p" and "c \<in> set (netloc_text host port)"
  shows "c \<notin> set ''/?#@[]'' \<and> c \<notin> {CHR 0x09, CHR 0x0A, CHR 0x0D}"
proof (cases "c \<in> set host \<or> c = CHR '':''")
  case False
  with assms(2) obtain n where n: "port = Some n" "c \<in> set (decimal_int n)" by (auto simp: netloc_text_def split: option.splits)
  with assms(1) have "0 \<le> n" by (simp add: plain_url_def)
  from digit_not_mark[OF decimal_int_chars[OF this n(2)]] show ?thesis by simp
qed (use assms(1) in \<open>auto simp: plain_url_def\<close>)

lemma split_netloc_plain:
  assumes "plain_url host port p"
  shows "split_netloc (''//'' @ netloc_text host port @ p) = (netloc_text host port, p)"
proof -
  let ?d = "\<lambda>c. c = CHR ''/'' \<or> c = CHR ''?'' \<or> c = CHR ''#''"
  have no: "\<not> ?d c" if "c \<in> set (netloc_text host port)" for c
    using netloc_chars[OF assms that] by auto
  have "takeWhile (\<lambda>c. \<not> ?d c) (netloc_text host port @ p) = netloc_text host port \<and>
    dropWhile (\<lambda>c. \<not> ?d c) (netloc_text host port @ p) = p"
    using assms no by (cases p) (auto simp: takeWhile_append dropWhile_append plain_url_def)
  then show ?thesis by (simp add: split_netloc_def starts_with_def)
qed

lemma drop_params_plain: "CHR '';'' \<notin> set s \<Longrightarrow> drop_params s = s"
proof -
  assume no: "CHR '';'' \<notin> set s"
  let ?t = "takeWhile (\<lambda>c. c \<noteq> CHR ''/'') (rev s)"
  have "rev s = ?t @ dropWhile (\<lambda>c. c \<noteq> CHR ''/'') (rev s)" by simp
  then have s: "s = rev (dropWhile (\<lambda>c. c \<noteq> CHR ''/'') (rev s)) @ rev ?t" by (metis rev_append rev_rev_ident)
  then have "set (rev ?t) \<subseteq> set s" by (metis Un_upper2 set_append)
  with no have "before_char (CHR '';'') (rev ?t) = rev ?t" by (intro before_char_id) blast
  moreover have "take (length s - length (rev ?t)) s @ rev ?t = s"
    by (metis s append_eq_conv_conj append_take_drop_id diff_diff_cancel length_append length_rev add_diff_cancel_right')
  ultimately show ?thesis by (simp add: drop_params_def after_last_def)
qed

lemma url_parse_plain:
  assumes "plain_url host port p"
  shows "url_parse b (url_text host port p) =
    Some \<lparr>pu_scheme = ''https'', pu_netloc = netloc_text host port, pu_path = p, pu_query = [], pu_fragment = []\<rparr>"
proof -
  have clean: "clean_url (url_text host port p) = url_text host port p"
  proof -
    have "c \<notin> {CHR 0x09, CHR 0x0A, CHR 0x0D}" if "c \<in> set (url_text host port p)" for c
      using that netloc_chars[OF assms, of c] assms
      by (auto simp: url_text_def plain_url_def netloc_text_def[symmetric])
    then have "filter (\<lambda>c. c \<notin> {CHR 0x09, CHR 0x0A, CHR 0x0D}) (url_text host port p) = url_text host port p"
      by (subst filter_id_conv) blast
    moreover have "dropWhile (\<lambda>c. (of_char c :: nat) \<le> 32) (url_text host port p) = url_text host port p"
      by (simp add: url_text_def)
    ultimately show ?thesis by (simp add: clean_url_def)
  qed
  have scheme: "split_scheme (url_text host port p) = (''https'', ''//'' @ netloc_text host port @ p)"
    by (simp add: split_scheme_def url_text_def netloc_text_def before_char_def after_char_def scheme_char_def
        is_lower_letter_def py_lower_def lower_char_def)
  have brackets: "CHR ''['' \<notin> set (netloc_text host port)" "CHR '']'' \<notin> set (netloc_text host port)"
    using netloc_chars[OF assms] by fastforce+
  have path: "CHR ''#'' \<notin> set p" "CHR ''?'' \<notin> set p" "CHR '';'' \<notin> set p"
    using assms by (auto simp: plain_url_def)
  show ?thesis
    unfolding url_parse_def clean scheme prod.case split_netloc_plain[OF assms]
    using brackets path by (simp add: before_char_id drop_params_plain)
qed

lemma url_host_plain:
  assumes "plain_url host port p"
    and "u = \<lparr>pu_scheme = ''https'', pu_netloc = netloc_text host port, pu_path = p, pu_query = [], pu_fragment = []\<rparr>"
  shows "url_hostname u = Some host" and "\<not> url_has_userinfo u" and "url_port u = Some port"
proof -
  have no: "CHR ''@'' \<notin> set (netloc_text host port)" "CHR ''['' \<notin> set (netloc_text host port)"
    using netloc_chars[OF assms(1)] by fastforce+
  then have info: "url_hostinfo u = netloc_text host port" by (simp add: url_hostinfo_def assms(2) after_last_absent)
  have host: "CHR '':'' \<notin> set host" "host \<noteq> []" "lower_host host = host" using assms(1) by (auto simp: plain_url_def)
  have "before_char (CHR '':'') (netloc_text host port) = host"
    using host by (auto simp: netloc_text_def before_char_id before_char_append split: option.splits)
  with no info host show "url_hostname u = Some host"
    by (simp add: url_hostname_def lower_host_def)
  show "\<not> url_has_userinfo u" using no by (simp add: url_has_userinfo_def assms(2))
  show "url_port u = Some port"
  proof (cases port)
    case None
    with host no info show ?thesis by (simp add: url_port_def url_port_text_def netloc_text_def after_char_absent)
  next
    case (Some n)
    with assms(1) have n: "0 \<le> n" "n \<le> 65535" by (simp_all add: plain_url_def)
    then have "nat n < 10 ^ 5" by simp
    then have "length (decimal (nat n)) \<le> 5" by (rule length_decimal_le) simp
    moreover have "url_port_text u = decimal (nat n)"
      using Some no info host n by (simp add: url_port_text_def netloc_text_def after_char_append decimal_int_def)
    moreover have "list_all is_digit (decimal (nat n))" using decimal_digits by (auto simp: list_all_iff)
    ultimately show ?thesis using n Some by (simp add: url_port_def digits_value_decimal)
  qed
qed

lemma parse_plain_url:
  assumes "plain_url host port p"
  shows "parse_jira_url env (url_text host port p) = Inr (url_text host port p)"
proof -
  have "\<not> unset (url_text host port p)" by (simp add: unset_def url_text_def starts_with_def)
  moreover have "rstrip_slash p = p" using assms by (simp add: plain_url_def)
  ultimately show ?thesis
    unfolding parse_jira_url_def url_parse_plain[OF assms]
    by (simp add: url_host_plain[OF assms refl]) (simp add: url_text_def)
qed

lemma rstrip_slash_prefix: "\<exists>t. s = rstrip_slash s @ t"
proof -
  have "rev s = takeWhile (\<lambda>c. c = CHR ''/'') (rev s) @ dropWhile (\<lambda>c. c = CHR ''/'') (rev s)" by simp
  then show ?thesis unfolding rstrip_slash_def by (metis rev_append rev_rev_ident)
qed

lemma rstrip_slash_idem [simp]: "rstrip_slash (rstrip_slash s) = rstrip_slash s"
  by (simp add: rstrip_slash_def)

lemma set_after_char: "set (after_char d s) \<subseteq> set s"
  by (induction s) (auto simp: after_char_def)

lemma split_scheme_set: "set (snd (split_scheme s)) \<subseteq> set s"
  using set_after_char by (auto simp: split_scheme_def Let_def)

lemma split_netloc_set:
  assumes "split_netloc s = (netloc, rest)"
  shows "set netloc \<subseteq> set s" "set rest \<subseteq> set s" "\<forall>c \<in> set netloc. c \<notin> set ''/?#''"
    "netloc \<noteq> [] \<Longrightarrow> rest = [] \<or> hd rest \<in> set ''/?#''"
proof -
  let ?d = "\<lambda>c. c = CHR ''/'' \<or> c = CHR ''?'' \<or> c = CHR ''#''"
  consider "netloc = []" "rest = s"
    | "netloc = takeWhile (\<lambda>c. \<not> ?d c) (drop 2 s)" "rest = dropWhile (\<lambda>c. \<not> ?d c) (drop 2 s)"
  proof (cases "starts_with ''//'' s")
    case True
    with assms have "(takeWhile (\<lambda>c. \<not> ?d c) (drop 2 s), dropWhile (\<lambda>c. \<not> ?d c) (drop 2 s)) = (netloc, rest)"
      unfolding split_netloc_def Let_def by (simp only: if_True)
    then show thesis using that(2) by blast
  next
    case False
    with assms have "([], s) = (netloc, rest)" unfolding split_netloc_def Let_def by (simp only: if_False)
    then show thesis using that(1) by blast
  qed
  then have "set netloc \<subseteq> set s \<and> set rest \<subseteq> set s \<and> (\<forall>c \<in> set netloc. c \<notin> set ''/?#'') \<and>
    (netloc \<noteq> [] \<longrightarrow> rest = [] \<or> hd rest \<in> set ''/?#'')"
  proof cases
    case 2
    have sub: "set (drop 2 s) \<subseteq> set s" by (rule set_drop_subset)
    have "set netloc \<subseteq> set (drop 2 s)" "set rest \<subseteq> set (drop 2 s)" unfolding 2
      by (auto dest: set_takeWhileD set_dropWhileD)
    moreover have "\<forall>c \<in> set netloc. c \<notin> set ''/?#''" unfolding 2 by (auto dest: set_takeWhileD)
    moreover have "rest = [] \<or> hd rest \<in> set ''/?#''"
      unfolding 2 using hd_dropWhile[of "\<lambda>c. \<not> ?d c" "drop 2 s"] by auto
    ultimately show ?thesis using sub by auto
  qed simp
  then show "set netloc \<subseteq> set s" "set rest \<subseteq> set s" "\<forall>c \<in> set netloc. c \<notin> set ''/?#''"
    "netloc \<noteq> [] \<Longrightarrow> rest = [] \<or> hd rest \<in> set ''/?#''" by blast+
qed

text \<open>The parts of a URL without parameters, as far as the normal form depends on them.\<close>

lemma url_parse_parts:
  assumes "url_parse b raw = Some u" and "CHR '';'' \<notin> set raw"
  shows "set (pu_netloc u) \<subseteq> set raw"
    and "\<forall>c \<in> set (pu_netloc u). c \<notin> set ''/?#'' \<and> c \<notin> {CHR 0x09, CHR 0x0A, CHR 0x0D}"
    and "\<forall>c \<in> set (pu_path u). c \<notin> set ''?#;'' \<and> c \<notin> {CHR 0x09, CHR 0x0A, CHR 0x0D}"
    and "CHR ''['' \<in> set (pu_netloc u) \<longleftrightarrow> CHR '']'' \<in> set (pu_netloc u)"
    and "pu_netloc u \<noteq> [] \<Longrightarrow> pu_path u = [] \<or> hd (pu_path u) = CHR ''/''"
proof -
  obtain scheme s1 where sc: "split_scheme (clean_url raw) = (scheme, s1)" by fastforce
  obtain netloc s2 where nl: "split_netloc s1 = (netloc, s2)" by fastforce
  let ?p = "before_char (CHR ''?'') (before_char (CHR ''#'') s2)"
  note run = assms(1)[unfolded url_parse_def sc nl prod.case]
  have clean: "set (clean_url raw) \<subseteq> set raw" "\<forall>c \<in> set (clean_url raw). c \<notin> {CHR 0x09, CHR 0x0A, CHR 0x0D}"
    by (auto simp: clean_url_def dest: set_dropWhileD)
  from split_scheme_set[of "clean_url raw"] sc have s1: "set s1 \<subseteq> set (clean_url raw)" by simp
  note netloc = split_netloc_set[OF nl]
  have p_sub: "set ?p \<subseteq> set s2" using set_before_char by blast
  have "CHR '';'' \<notin> set ?p" using p_sub netloc(2) s1 clean(1) assms(2) by blast
  from drop_params_plain[OF this] run have u: "pu_netloc u = netloc" "pu_path u = ?p"
    "CHR ''['' \<in> set netloc \<longleftrightarrow> CHR '']'' \<in> set netloc"
    by (auto simp: Let_def split: if_splits)
  show "set (pu_netloc u) \<subseteq> set raw" using u netloc(1) s1 clean(1) by blast
  show "\<forall>c \<in> set (pu_netloc u). c \<notin> set ''/?#'' \<and> c \<notin> {CHR 0x09, CHR 0x0A, CHR 0x0D}"
  proof (intro ballI conjI)
    fix c assume c: "c \<in> set (pu_netloc u)"
    show "c \<notin> set ''/?#''" using c netloc(3) unfolding u(1) by blast
    have "c \<in> set (clean_url raw)" using c netloc(1) s1 unfolding u(1) by blast
    then show "c \<notin> {CHR 0x09, CHR 0x0A, CHR 0x0D}" using clean(2) by blast
  qed
  show "CHR ''['' \<in> set (pu_netloc u) \<longleftrightarrow> CHR '']'' \<in> set (pu_netloc u)" using u by simp
  have q: "CHR ''?'' \<notin> set ?p" by (rule not_in_before_char)
  have h: "CHR ''#'' \<notin> set ?p" using set_before_char not_in_before_char by blast
  show "\<forall>c \<in> set (pu_path u). c \<notin> set ''?#;'' \<and> c \<notin> {CHR 0x09, CHR 0x0A, CHR 0x0D}"
  proof (intro ballI conjI)
    fix c assume "c \<in> set (pu_path u)"
    then have c: "c \<in> set ?p" unfolding u(2) .
    then have "c \<noteq> CHR ''?''" "c \<noteq> CHR ''#''" "c \<noteq> CHR '';''" using q h \<open>CHR '';'' \<notin> set ?p\<close> by blast+
    then show "c \<notin> set ''?#;''" by simp
    have "c \<in> set (clean_url raw)" using c p_sub netloc(2) s1 by blast
    then show "c \<notin> {CHR 0x09, CHR 0x0A, CHR 0x0D}" using clean(2) by blast
  qed
  show "pu_path u = [] \<or> hd (pu_path u) = CHR ''/''" if "pu_netloc u \<noteq> []"
    using netloc(4) that u by (cases s2) (auto simp: before_char_def)
qed

lemma parse_jira_url_plain:
  assumes "parse_jira_url env raw = Inr url" and "CHR '';'' \<notin> set raw" and "CHR ''['' \<notin> set raw"
  obtains host port p where "plain_url host port p" and "url = url_text host port p"
proof -
  from assms(1) obtain u host port where u: "url_parse (ce_bracketed env) raw = Some u" "url_hostname u = Some host"
    "\<not> url_has_userinfo u" "url_port u = Some port" and
    url: "url = url_text host port (rstrip_slash (pu_path u))"
    by (auto simp: parse_jira_url_def url_text_def split: if_splits option.splits)
  note parts = url_parse_parts[OF u(1) assms(2)]
  have no: "CHR ''['' \<notin> set (pu_netloc u)" "CHR '']'' \<notin> set (pu_netloc u)" "CHR ''@'' \<notin> set (pu_netloc u)"
  proof -
    show a: "CHR ''['' \<notin> set (pu_netloc u)" using parts(1) assms(3) by blast
    show "CHR '']'' \<notin> set (pu_netloc u)" using a parts(4) by simp
    show "CHR ''@'' \<notin> set (pu_netloc u)" using u(3) by (simp add: url_has_userinfo_def)
  qed
  let ?h = "before_char (CHR '':'') (pu_netloc u)"
  have info: "url_hostinfo u = pu_netloc u" using no by (simp add: url_hostinfo_def after_last_absent)
  with u(2) no have host: "host = lower_host ?h" "?h \<noteq> []"
    by (auto simp: url_hostname_def lower_host_def Let_def split: if_splits)
  have h_sub: "set ?h \<subseteq> set (pu_netloc u)" by (rule set_before_char)
  have chars: "c \<notin> set ''/?#@:[]'' \<and> c \<notin> {CHR 0x09, CHR 0x0A, CHR 0x0D}" if "c \<in> set host" for c
  proof
    show "c \<notin> set ''/?#@:[]''"
    proof
      assume c: "c \<in> set ''/?#@:[]''"
      then have "url_mark c" by (auto simp: url_mark_def)
      from in_lower_host[OF this] that host have "c \<in> set ?h" by simp
      then have "c \<in> set (pu_netloc u)" "c \<noteq> CHR '':''" using h_sub not_in_before_char by blast+
      with parts(2) no c show False by fastforce
    qed
    show "c \<notin> {CHR 0x09, CHR 0x0A, CHR 0x0D}"
    proof
      assume c: "c \<in> {CHR 0x09, CHR 0x0A, CHR 0x0D}"
      from that host obtain x where "x \<in> set ?h" "c = x \<or> c = lower_char x"
        unfolding lower_host_def py_lower_def by (auto dest: in_set_dropD subsetD[OF set_before_char])
      moreover from c have "lower_char x = c \<longleftrightarrow> x = c" by (intro lower_char_eq_iff) auto
      ultimately have "c \<in> set ?h" by auto
      with c h_sub parts(2) show False by blast
    qed
  qed
  have port: "case port of None \<Rightarrow> True | Some n \<Rightarrow> 0 \<le> n \<and> n \<le> 65535"
    using u(4) by (auto simp: url_port_def Let_def split: if_splits)
  have "pu_netloc u \<noteq> []" using host(2) by (auto simp: before_char_def)
  with parts(5) have path: "pu_path u = [] \<or> hd (pu_path u) = CHR ''/''" by blast
  obtain t where t: "pu_path u = rstrip_slash (pu_path u) @ t" using rstrip_slash_prefix by blast
  have "set (rstrip_slash (pu_path u)) \<subseteq> set (pu_path u)" by (subst (2) t) simp
  moreover have "rstrip_slash (pu_path u) = [] \<or> hd (rstrip_slash (pu_path u)) = CHR ''/''"
    using path t by (metis Nil_is_append_conv hd_append2)
  ultimately have "plain_url host port (rstrip_slash (pu_path u))"
    unfolding plain_url_def using host chars port parts(3) by (auto simp: lower_host_idem)
  with url show thesis by (rule that[rotated])
qed

text \<open>
  The Jira URL is normalised once: the text \<open>_parse_jira_url\<close> makes of a setting without a bracketed host and without path
  parameters is accepted again and left as it is, so it has a lower-case host, no user information, query or fragment and no slash at its end.
\<close>

theorem jira_url_fixed_point:
  assumes "parse_jira_url env raw = Inr url" and "CHR '';'' \<notin> set raw" and "CHR ''['' \<notin> set raw"
  shows "parse_jira_url env url = Inr url \<and> starts_with ''https://'' url \<and> (\<forall>c \<in> set url. c \<notin> set ''?#'')"
proof -
  from parse_jira_url_plain[OF assms] obtain host port p where plain: "plain_url host port p" and url: "url = url_text host port p"
    by blast
  have "c \<notin> set ''?#''" if "c \<in> set url" for c
    using that netloc_chars[OF plain, of c] plain
    by (auto simp: url url_text_def netloc_text_def[symmetric] plain_url_def)
  with parse_plain_url[OF plain, of env] show ?thesis
    unfolding url by (auto simp: url_text_def starts_with_def)
qed

theorem jira_url_fixed_point_witness:
  "parse_jira_url sample_config ''https://jira.example.com/jira/'' = Inr ''https://jira.example.com/jira'' \<and>
   parse_jira_url sample_config ''https://jira.example.com/jira'' = Inr ''https://jira.example.com/jira''"
proof -
  have run: "parse_jira_url sample_config ''https://jira.example.com/jira/'' = Inr ''https://jira.example.com/jira''"
    by (simp add: parse_jira_url_def unset_def starts_with_def url_parse_def split_scheme_def clean_url_def before_char_def
        after_char_def is_lower_letter_def is_upper_letter_def scheme_char_def py_lower_def lower_char_def split_netloc_def
        sample_config_def url_hostname_def url_hostinfo_def after_last_def url_has_userinfo_def url_port_def url_port_text_def
        digits_value_def drop_params_def rstrip_slash_def is_digit_def decimal_int_def decimal.simps)
  from jira_url_fixed_point [OF run] run show ?thesis by simp
qed

text \<open>With a bracketed host the brackets are lost, and the result is not a URL with a host any more.\<close>

lemma bracketed_host_loses_brackets:
  "parse_jira_url sample_config ''https://[::1]/jira'' = Inr ''https://::1/jira''"
  "parse_jira_url sample_config ''https://::1/jira'' = Inl (RuntimeError ''JIRA_URL must include a host name.'')"
  by (simp add: parse_jira_url_def unset_def starts_with_def url_parse_def split_scheme_def clean_url_def before_char_def
        after_char_def is_lower_letter_def is_upper_letter_def scheme_char_def py_lower_def lower_char_def split_netloc_def
        sample_config_def url_hostname_def url_hostinfo_def after_last_def url_has_userinfo_def url_port_def url_port_text_def
        digits_value_def drop_params_def rstrip_slash_def is_digit_def decimal_int_def decimal.simps)+

end
