(* ===== verification/Composition.thy ===== *)
theory Composition
  imports Jira_Url Limits Gemini_Gateway Workflow_Sqlite
begin

text \<open>
  The composition root, \<open>src/src/dztgbot/__main__.py\<close>: the resource limits and the Gemini gateway \<open>run\<close> builds from the
  settings, and \<open>KeyedUpdateProcessor\<close>, which chooses the key under which an update of Telegram is serialised.
  Telegram's objects are reduced to the attributes the code reads.  The order of start and shutdown, the registration of
  handlers and logging are not modelled.
\<close>

section \<open>Limits\<close>

text \<open>\<open>ResourceLimitSpec(...)\<close> of one kind; durations in milliseconds.\<close>

definition limit_spec_of :: "int \<Rightarrow> int \<Rightarrow> settings \<Rightarrow> int \<Rightarrow> exn + limit_spec" where
  "limit_spec_of global actor s deadline =
     limit_spec_post_init \<lparr>rl_global_limit = global, rl_per_actor_limit = actor, rl_queue_limit = st_max_queue_size s,
       rl_total_deadline = deadline, rl_retry_budget = 0, rl_failure_threshold = 3, rl_cooldown = 5000\<rparr>"

definition resource_limits :: "settings \<Rightarrow> exn + (resource_kind \<times> limit_spec) list" where
  "resource_limits s =
     rbind (limit_spec_of (st_max_concurrent_gemini s) (min 2 (st_max_concurrent_gemini s)) s (st_gemini_timeout_seconds s)) (\<lambda>gemini.
     rbind (limit_spec_of (st_max_concurrent_jira s) (min 2 (st_max_concurrent_jira s)) s 10000) (\<lambda>jira.
     rbind (limit_spec_of (min (st_max_concurrent_jira s) (st_max_attachment_count s)) (min 2 (st_max_concurrent_jira s)) s 30000)
       (\<lambda>attachments. Inr [(RK_GEMINI, gemini), (RK_JIRA, jira), (RK_ATTACHMENT, attachments)])))"

text \<open>\<open>GeminiGateway(api_key=..., deadline_seconds=...)\<close>: one retry, 100 milliseconds of backoff.\<close>

definition gemini_from_settings :: "settings \<Rightarrow> exn + gemini_gateway" where
  "gemini_from_settings s =
     gemini_gateway_init (Some (st_gemini_api_key s)) False DEFAULT_MODELS (st_gemini_timeout_seconds s) 1 100 None"

section \<open>The key of an update\<close>

text \<open>\<open>up_query\<close>: the update has a callback query; the other fields are \<open>None\<close> when absent or not of the type tested for.\<close>

record telegram_update =
  up_query :: bool
  up_data :: "string option"
  up_actor :: "int option"
  up_chat :: "int option"
  up_thread :: "int option"

definition derive_collection_key :: "blake2b \<Rightarrow> telegram_update \<Rightarrow> exn + work_key" where
  "derive_collection_key blake2b u =
     (let thread = (case up_thread u of Some t \<Rightarrow> if t > 0 then Some t else None | None \<Rightarrow> None);
          fallback = for_collection blake2b 1 1 None in
      case (up_actor u, up_chat u) of
        (Some actor, Some chat) \<Rightarrow>
          if actor > 0 \<and> chat \<noteq> 0 then
            (case for_collection blake2b actor chat thread of Inr k \<Rightarrow> Inr k | Inl _ \<Rightarrow> fallback)
          else fallback
      | _ \<Rightarrow> fallback)"

text \<open>The lookup of the draft behind a button; every exception of it falls through.\<close>

definition callback_key :: "blake2b \<Rightarrow> (string \<Rightarrow> string) \<Rightarrow> string \<Rightarrow> (repo, exn, work_key option) sx" where
  "callback_key blake2b sha raw =
     sx_bind (sx_lift (rbind (parse_callback_data (Some raw)) (\<lambda>p. hash_opaque_token sha (pc_opaque_token p)))) (\<lambda>h.
     sx_bind (repo_get_callback h) (\<lambda>found.
       (case found of
          Some r \<Rightarrow> if ct_draft_id r \<noteq> [] then sx_lift (rbind (for_workflow blake2b (ct_draft_id r)) (\<lambda>k. Inr (Some k)))
                    else sx_return None
        | None \<Rightarrow> sx_return None)))"

definition derive_key :: "blake2b \<Rightarrow> (string \<Rightarrow> string) \<Rightarrow> telegram_update \<Rightarrow> (repo, exn, work_key) sx" where
  "derive_key blake2b sha u = (\<lambda>s.
     (case up_data u of
        Some raw \<Rightarrow>
          if up_query u \<and> starts_with ''j1:'' raw then
            (case callback_key blake2b sha raw s of
               (Inr (Some k), s') \<Rightarrow> (Inr k, s')
             | (_, s') \<Rightarrow> (derive_collection_key blake2b u, s'))
          else (derive_collection_key blake2b u, s)
      | None \<Rightarrow> (derive_collection_key blake2b u, s)))"

text \<open>\<open>do_process_update\<close>: the text it sends back when the processor did not complete the update.\<close>

definition update_feedback :: "'a processing_result \<Rightarrow> string option" where
  "update_feedback r =
     (if \<not> pr_completed r then (case pr_feedback r of Some f \<Rightarrow> if f \<noteq> [] then Some f else None | None \<Rightarrow> None) else None)"

section \<open>What the settings start\<close>

lemma limit_spec_of_Inr_iff:
  assumes "0 \<le> st_max_queue_size s" and "0 < deadline" and "0 < global" and "0 < actor"
  shows "isl (limit_spec_of global actor s deadline) \<longleftrightarrow> global < actor"
  using assms by (simp add: limit_spec_of_def limit_spec_post_init_def)

lemma limit_spec_of_Inl:
  assumes "0 < global" and "0 < actor" and "global < actor"
  shows "limit_spec_of global actor s deadline = Inl (ValueError ''per_actor_limit cannot exceed global_limit'')"
  using assms by (simp add: limit_spec_of_def limit_spec_post_init_def)

lemma gemini_settings_accepted:
  assumes "from_environment env = Inr s"
  shows "\<not> isl (gemini_from_settings s)"
proof -
  note telegram = telegram_settings_Inr[OF from_environment_sections(1)[OF assms]]
  from telegram(2,3) show ?thesis
    by (simp add: gemini_from_settings_def gemini_gateway_init_def DEFAULT_MODELS_def unset_def)
qed

lemma limits_from_settings:
  assumes "from_environment env = Inr s"
  shows "resource_limits s = Inl (ValueError ''per_actor_limit cannot exceed global_limit'') \<and>
      st_max_attachment_count s = 1 \<and> 2 \<le> st_max_concurrent_jira s \<or>
    \<not> isl (resource_limits s) \<and> (2 \<le> st_max_attachment_count s \<or> st_max_concurrent_jira s = 1)"
proof -
  note telegram = telegram_settings_Inr[OF from_environment_sections(1)[OF assms]]
    and limits = limit_settings_Inr[OF from_environment_sections(5)[OF assms]]
  let ?g = "st_max_concurrent_gemini s" and ?j = "st_max_concurrent_jira s" and ?a = "st_max_attachment_count s"
  from limits telegram(3) have pos: "0 \<le> st_max_queue_size s" "0 < st_gemini_timeout_seconds s" "0 < ?g" "0 < ?j" "0 < ?a"
    by auto
  have "\<not> isl (limit_spec_of ?g (min 2 ?g) s (st_gemini_timeout_seconds s))" "\<not> isl (limit_spec_of ?j (min 2 ?j) s 10000)"
    using pos by (simp_all add: limit_spec_of_Inr_iff)
  then obtain a b where ab: "limit_spec_of ?g (min 2 ?g) s (st_gemini_timeout_seconds s) = Inr a"
    "limit_spec_of ?j (min 2 ?j) s 10000 = Inr b" using sum_result_Inr by (metis isl_def sum.exhaust)
  show ?thesis
  proof (cases "min ?j ?a < min 2 ?j")
    case True
    with pos have "limit_spec_of (min ?j ?a) (min 2 ?j) s 30000 = Inl (ValueError ''per_actor_limit cannot exceed global_limit'')"
      by (intro limit_spec_of_Inl) auto
    moreover from True pos have "?a = 1" "2 \<le> ?j" by auto
    ultimately show ?thesis unfolding resource_limits_def ab by (simp only: rbind_simps) simp
  next
    case False
    with pos have "\<not> isl (limit_spec_of (min ?j ?a) (min 2 ?j) s 30000)" by (subst limit_spec_of_Inr_iff) auto
    then obtain c where "limit_spec_of (min ?j ?a) (min 2 ?j) s 30000 = Inr c" by (metis isl_def sum.exhaust)
    moreover from False pos have "2 \<le> ?a \<or> ?j = 1" by auto
    ultimately show ?thesis unfolding resource_limits_def ab by (simp only: rbind_simps) simp
  qed
qed

text \<open>
  Which settings start: the Gemini gateway accepts every configuration that loads, and so do the resource limits with one
  exception - a single attachment per issue with two or more concurrent Jira calls, which \<open>from_environment\<close> allows, makes the limit of
  the attachments refuse its per-actor limit.
\<close>

theorem loaded_settings_start_iff:
  assumes "from_environment env = Inr s"
  shows "\<not> isl (gemini_from_settings s) \<and>
    (isl (resource_limits s) \<longleftrightarrow> st_max_attachment_count s = 1 \<and> 2 \<le> st_max_concurrent_jira s)"
  using gemini_settings_accepted[OF assms] limits_from_settings[OF assms] by auto

theorem loaded_settings_start_iff_witness:
  "\<exists>s. from_environment sample_environment = Inr s \<and> isl (resource_limits s)"
proof -
  from sample_loads obtain s where s: "from_environment sample_environment = Inr s" "st_max_attachment_count s = 1" "st_max_concurrent_jira s = 4"
    by blast
  from loaded_settings_start_iff [OF s(1)] s show ?thesis by auto
qed

section \<open>Separation of keys\<close>

lemma get_callback_sync_db: "get_callback_sync h d = Inr (x, d') \<Longrightarrow> d' = d"
  by (auto simp: get_callback_sync_def rbind_eq_Inr split: option.splits)

lemma repo_get_callback_state: "snd (repo_get_callback h s) = s"
  by (cases "get_callback_sync h (rp_db s)")
     (auto simp: repo_get_callback_def repo_run_def split: sum.splits dest: get_callback_sync_db)

lemma callback_key_state: "snd (callback_key blake2b sha raw s) = s"
proof -
  have "snd (repo_get_callback h s) = s" for h by (rule repo_get_callback_state)
  then show ?thesis
    by (auto simp: callback_key_def sx_bind_def sx_lift_def sx_return_def split: sum.splits prod.splits option.splits)
       (metis snd_conv)+
qed

text \<open>The scope of an update that names a user and a chat.\<close>

definition message_scope :: "telegram_update \<Rightarrow> (int \<times> int \<times> int option) option" where
  "message_scope u =
     (case (up_actor u, up_chat u) of
        (Some actor, Some chat) \<Rightarrow>
          if actor > 0 \<and> chat \<noteq> 0
          then Some (actor, chat, case up_thread u of Some t \<Rightarrow> if t > 0 then Some t else None | None \<Rightarrow> None) else None
      | _ \<Rightarrow> None)"

definition digest_16 :: "blake2b \<Rightarrow> bool" where
  "digest_16 blake2b \<longleftrightarrow> (\<forall>person payload. length (blake2b person payload) = 16)"

lemma for_collection_Inr:
  assumes "digest_16 blake2b" and "actor > 0" and "chat \<noteq> 0" and "\<And>t. thread = Some t \<Longrightarrow> t > 0"
  shows "for_collection blake2b actor chat thread = Inr \<lparr>wk_namespace = ''collection'',
     wk_digest = opaque_digest blake2b ''dztgbot-collection-v1'' (collection_payload actor chat thread)\<rparr>"
proof -
  have "length (opaque_digest blake2b ''dztgbot-collection-v1'' (collection_payload actor chat thread)) = 16"
    using assms(1) unfolding digest_16_def opaque_digest_def by blast
  moreover have "\<not> (case thread of None \<Rightarrow> False | Some t \<Rightarrow> t \<le> 0)"
    using assms(4) by (auto split: option.splits simp: not_le)
  ultimately show ?thesis using assms(2,3) by (simp add: for_collection_def work_key_post_init_def)
qed

lemma derive_collection_key_scope:
  assumes "digest_16 blake2b" and "message_scope u = Some (actor, chat, thread)"
  shows "derive_collection_key blake2b u = Inr \<lparr>wk_namespace = ''collection'',
     wk_digest = opaque_digest blake2b ''dztgbot-collection-v1'' (collection_payload actor chat thread)\<rparr>"
proof -
  from assms(2) have u: "up_actor u = Some actor" "up_chat u = Some chat" "actor > 0" "chat \<noteq> 0"
    and t: "thread = (case up_thread u of Some t \<Rightarrow> if t > 0 then Some t else None | None \<Rightarrow> None)"
    by (auto simp: message_scope_def split: option.splits if_splits)
  from t have "x > 0" if "thread = Some x" for x using that by (auto split: option.splits if_splits)
  from for_collection_Inr[OF assms(1) u(3,4) this] u t show ?thesis
    by (simp add: derive_collection_key_def)
qed

lemma derive_collection_key_total:
  assumes "digest_16 blake2b"
  shows "\<exists>k. derive_collection_key blake2b u = Inr k"
  using for_collection_Inr[OF assms, of 1 1 None]
  by (auto simp: derive_collection_key_def Let_def split: option.splits sum.splits)

text \<open>Distinct scopes have distinct payloads.\<close>

lemma decimal_int_inject: "decimal_int i = decimal_int j \<longleftrightarrow> i = j"
proof
  assume eq: "decimal_int i = decimal_int j"
  have minus: "CHR ''-'' \<notin> set (decimal n)" for n using decimal_digits by (force simp: is_digit_def)
  show "i = j"
  proof (cases "i < 0 \<longleftrightarrow> j < 0")
    case True
    with eq show ?thesis by (auto simp: decimal_int_def decimal_inject split: if_splits)
  next
    case False
    with eq minus[of "nat i"] minus[of "nat j"] show ?thesis
      by (auto simp: decimal_int_def split: if_splits) (metis list.set_intros(1))+
  qed
qed simp

lemma colon_not_decimal: "CHR '':'' \<notin> set (decimal_int i)"
  using decimal_digits[of "CHR '':''"] by (auto simp: decimal_int_def is_digit_def)

lemma collection_payload_inject:
  assumes "collection_payload a c t = collection_payload a' c' t'"
    and "\<And>x. t = Some x \<Longrightarrow> x > 0" and "\<And>x. t' = Some x \<Longrightarrow> x > 0"
  shows "a = a' \<and> c = c' \<and> t = t'"
proof -
  have split: "split_on (CHR '':'') (collection_payload a c t) =
      [decimal_int a, decimal_int c, decimal_int (case t of None \<Rightarrow> 0 | Some x \<Rightarrow> x)]" for a c t
    by (simp add: collection_payload_def split_on_append split_on_no_delim colon_not_decimal)
  have "decimal_int a = decimal_int a'" "decimal_int c = decimal_int c'"
    "decimal_int (case t of None \<Rightarrow> 0 | Some x \<Rightarrow> x) = decimal_int (case t' of None \<Rightarrow> 0 | Some x \<Rightarrow> x)"
    using split[of a c t] split[of a' c' t'] assms(1) by simp_all
  with assms(2,3) show ?thesis
    by (auto simp: decimal_int_inject split: option.splits)
qed

text \<open>
  Updates are serialised by scope: messages of the same user, chat and thread get the same key, and two messages with the same key are of the
  same user, chat and thread unless BLAKE2b maps two different payloads to the same 16 bytes; no key is missing and the
  repository is only read.
\<close>

theorem derive_key_separates:
  assumes "digest_16 blake2b"
    and "message_scope u1 = Some (a1, c1, t1)" and "message_scope u2 = Some (a2, c2, t2)"
    and "up_data u1 = None" and "up_data u2 = None"
  shows "\<exists>k1 k2. derive_key blake2b sha u1 s = (Inr k1, s) \<and> derive_key blake2b sha u2 s = (Inr k2, s) \<and>
    (message_scope u1 = message_scope u2 \<longrightarrow> k1 = k2) \<and>
    (k1 = k2 \<longrightarrow> message_scope u1 = message_scope u2 \<or>
      collection_payload a1 c1 t1 \<noteq> collection_payload a2 c2 t2 \<and>
      opaque_digest blake2b ''dztgbot-collection-v1'' (collection_payload a1 c1 t1) =
      opaque_digest blake2b ''dztgbot-collection-v1'' (collection_payload a2 c2 t2))"
proof -
  have pos: "x > 0" if "message_scope u = Some (a, c, Some x)" for u a c x
    using that by (auto simp: message_scope_def split: option.splits if_splits)
  have "collection_payload a1 c1 t1 = collection_payload a2 c2 t2 \<Longrightarrow> message_scope u1 = message_scope u2"
    using collection_payload_inject[of a1 c1 t1 a2 c2 t2] pos assms(2,3) by auto
  with derive_collection_key_scope[OF assms(1,2)] derive_collection_key_scope[OF assms(1,3)] assms(2-5) show ?thesis
    by (auto simp: derive_key_def)
qed

definition sample_update :: telegram_update where
  "sample_update = \<lparr>up_query = False, up_data = None, up_actor = Some 7, up_chat = Some 7, up_thread = None\<rparr>"

theorem derive_key_separates_witness:
  "\<exists>k. derive_key (\<lambda>_ _. replicate 16 0) (\<lambda>t. t) sample_update \<lparr>rp_db = empty_db, rp_initialized = True\<rparr> =
     (Inr k, \<lparr>rp_db = empty_db, rp_initialized = True\<rparr>)"
proof -
  have d: "digest_16 (\<lambda>_ _. replicate 16 0)" by (simp add: digest_16_def)
  have m: "message_scope sample_update = Some (7, 7, None)" "up_data sample_update = None"
    by (simp_all add: message_scope_def sample_update_def)
  from derive_key_separates [OF d m(1) m(1) m(2) m(2)] show ?thesis by blast
qed

text \<open>The presses on the buttons of one draft share a key, whoever presses.\<close>

lemma button_key:
  assumes "digest_16 blake2b" and "up_query u" and "up_data u = Some raw" and "starts_with ''j1:'' raw"
    and "parse_callback_data (Some raw) = Inr p" and "hash_opaque_token sha (pc_opaque_token p) = Inr h"
    and "repo_get_callback h s = (Inr (Some r), s)"
    and "py_strip (ct_draft_id r) \<noteq> []" and "length (py_strip (ct_draft_id r)) \<le> 256"
  shows "derive_key blake2b sha u s = (for_workflow blake2b (ct_draft_id r), s) \<and> \<not> isl (for_workflow blake2b (ct_draft_id r))"
proof -
  have "length (opaque_digest blake2b ''dztgbot-workflow-v1'' (py_strip (ct_draft_id r))) = 16"
    using assms(1) unfolding digest_16_def opaque_digest_def by blast
  with assms(8,9) obtain k where k: "for_workflow blake2b (ct_draft_id r) = Inr k"
    by (simp add: for_workflow_def work_key_post_init_def)
  from assms(8) have "ct_draft_id r \<noteq> []" by auto
  with assms(5-7) k have "callback_key blake2b sha raw s = (Inr (Some k), s)"
    by (simp add: callback_key_def sx_bind_def)
  with assms(2-4) k show ?thesis by (simp add: derive_key_def)
qed

end
