(* ===== verification/Vpn.thy ===== *)
theory Vpn
  imports Config
begin

text \<open>
  The VPN helper, \<open>src/src/dztgbot/vpn.py\<close>, and the connectivity cache over it, \<open>src/src/dztgbot/services/connectivity_service.py\<close>.
  A command is its argument list; the environment \<open>vpn_commands\<close> says how the \<open>n\<close>-th command ends and how long it takes, and
  the state keeps the clock and the commands run so far.  Both locks are held across a whole operation, so operations of one
  object are atomic here.
\<close>

section \<open>Commands\<close>

datatype command_end = CannotStart | Hangs | Exits int string

record vpn_manager =
  vm_enabled :: bool
  vm_connection_name :: string
  vm_profile_path :: path
  vm_allow_start :: bool
  vm_nmcli_bin :: path
  vm_sudo_bin :: path
  vm_timeout :: int

record vpn_world =
  vw_clock :: int
  vw_commands :: "string list list"

type_synonym vpn_commands = "nat \<Rightarrow> string list \<Rightarrow> command_end \<times> nat"

text \<open>
  Running a command under the timeout: \<open>None\<close> when it could not be started or was killed (the code logs and gives up),
  else the exit code and the output.
\<close>

definition run_command :: "vpn_manager \<Rightarrow> vpn_commands \<Rightarrow> string list \<Rightarrow> vpn_world \<Rightarrow> (int \<times> string) option \<times> vpn_world" where
  "run_command m cmds argv w =
     (let sent = w\<lparr>vw_commands := vw_commands w @ [argv]\<rparr> in
      case cmds (length (vw_commands w)) argv of
        (CannotStart, d) \<Rightarrow> (None, sent)
      | (Hangs, d) \<Rightarrow> (None, sent\<lparr>vw_clock := vw_clock w + vm_timeout m\<rparr>)
      | (Exits code out, d) \<Rightarrow>
          if int d > vm_timeout m then (None, sent\<lparr>vw_clock := vw_clock w + vm_timeout m\<rparr>)
          else (Some (code, out), sent\<lparr>vw_clock := vw_clock w + int d\<rparr>))"

text \<open>\<open>_run_for_state\<close>: at most 256 bytes of the output are read (its bytes are characters here).\<close>

definition run_for_state :: "vpn_manager \<Rightarrow> vpn_commands \<Rightarrow> string list \<Rightarrow> vpn_world \<Rightarrow> (int \<times> string) option \<times> vpn_world" where
  "run_for_state m cmds argv w = apfst (map_option (apsnd (take 256))) (run_command m cmds argv w)"

definition run_quiet :: "vpn_manager \<Rightarrow> vpn_commands \<Rightarrow> string list \<Rightarrow> vpn_world \<Rightarrow> int option \<times> vpn_world" where
  "run_quiet m cmds argv w = apfst (map_option fst) (run_command m cmds argv w)"

section \<open>Status and start\<close>

datatype vpn_state = VPN_UP | VPN_DOWN | VPN_DISABLED | VPN_ERROR

record tunnel_status =
  vs_state :: vpn_state
  vs_message :: string

definition is_up :: "tunnel_status \<Rightarrow> bool" where
  "is_up v \<longleftrightarrow> vs_state v = VPN_UP"

definition status_of :: "vpn_state \<Rightarrow> string \<Rightarrow> tunnel_status" where
  "status_of st msg = \<lparr>vs_state = st, vs_message = msg\<rparr>"

definition status_command :: "vpn_manager \<Rightarrow> string list" where
  "status_command m = [path_text (vm_nmcli_bin m), ''--terse'', ''--fields'', ''GENERAL.STATE'', ''connection'', ''show'',
     vm_connection_name m]"

definition load_command :: "vpn_manager \<Rightarrow> string list" where
  "load_command m = [path_text (vm_sudo_bin m), ''-n'', path_text (vm_nmcli_bin m), ''connection'', ''load'',
     path_text (vm_profile_path m)]"

definition up_command :: "vpn_manager \<Rightarrow> string list" where
  "up_command m = [path_text (vm_sudo_bin m), ''-n'', path_text (vm_nmcli_bin m), ''connection'', ''up'', vm_connection_name m]"

definition vpn_status :: "vpn_manager \<Rightarrow> vpn_commands \<Rightarrow> vpn_world \<Rightarrow> tunnel_status \<times> vpn_world" where
  "vpn_status m cmds w =
     (if \<not> vm_enabled m then (status_of VPN_DISABLED ''L2TP/IPsec VPN support is disabled.'', w)
      else case run_for_state m cmds (status_command m) w of
        (None, w') \<Rightarrow> (status_of VPN_ERROR ''L2TP/IPsec VPN status could not be checked.'', w')
      | (Some (code, out), w') \<Rightarrow>
          if code \<noteq> 0 then (status_of VPN_DOWN ''L2TP/IPsec VPN tunnel is down.'', w')
          else if py_lower (py_strip (after_last (CHR '':'') out)) = ''activated''
          then (status_of VPN_UP ''L2TP/IPsec VPN tunnel is up.'', w')
          else (status_of VPN_DOWN ''L2TP/IPsec VPN tunnel is down.'', w'))"

definition vpn_start :: "vpn_manager \<Rightarrow> vpn_commands \<Rightarrow> vpn_world \<Rightarrow> tunnel_status \<times> vpn_world" where
  "vpn_start m cmds w =
     (case vpn_status m cmds w of (current, w1) \<Rightarrow>
        if is_up current \<or> \<not> vm_enabled m then (current, w1)
        else if \<not> vm_allow_start m then
          (status_of VPN_DOWN ''L2TP/IPsec VPN tunnel is down and remote start is disabled.'', w1)
        else (case run_quiet m cmds (load_command m) w1 of (loaded, w2) \<Rightarrow>
          if loaded \<noteq> Some 0 then (status_of VPN_ERROR ''The private VPN profile could not be loaded.'', w2)
          else (case run_quiet m cmds (up_command m) w2 of (started, w3) \<Rightarrow>
            if started \<noteq> Some 0 then (status_of VPN_ERROR ''L2TP/IPsec VPN tunnel could not be started.'', w3)
            else vpn_status m cmds w3)))"

section \<open>Connectivity\<close>

record connectivity =
  cn_ttl :: int
  cn_last_positive :: "int option"
  cn_world :: vpn_world

definition cn_now :: "connectivity \<Rightarrow> int" where
  "cn_now c = vw_clock (cn_world c)"

definition invalidate_cache :: "connectivity \<Rightarrow> connectivity" where
  "invalidate_cache c = c\<lparr>cn_last_positive := None\<rparr>"

definition is_cache_valid :: "connectivity \<Rightarrow> bool" where
  "is_cache_valid c =
     (case cn_last_positive c of None \<Rightarrow> False | Some t \<Rightarrow> 0 \<le> cn_now c - t \<and> cn_now c - t < cn_ttl c)"

definition counts_as_connected :: "tunnel_status \<Rightarrow> bool" where
  "counts_as_connected v \<longleftrightarrow> is_up v \<or> vs_state v = VPN_DISABLED"

definition mark_positive :: "connectivity \<Rightarrow> connectivity" where
  "mark_positive c = c\<lparr>cn_last_positive := Some (cn_now c)\<rparr>"

definition is_connected :: "vpn_manager \<Rightarrow> vpn_commands \<Rightarrow> connectivity \<Rightarrow> bool \<times> connectivity" where
  "is_connected m cmds c =
     (if is_cache_valid c then (True, c)
      else case vpn_status m cmds (cn_world c) of (status, w) \<Rightarrow>
        (let c' = c\<lparr>cn_world := w\<rparr> in
         if counts_as_connected status then (True, mark_positive c') else (False, invalidate_cache c')))"

definition ensure_connected :: "vpn_manager \<Rightarrow> vpn_commands \<Rightarrow> connectivity \<Rightarrow> bool \<times> connectivity" where
  "ensure_connected m cmds c =
     (if is_cache_valid c then (True, c)
      else case vpn_status m cmds (cn_world c) of (status, w) \<Rightarrow>
        (let c1 = c\<lparr>cn_world := w\<rparr> in
         if counts_as_connected status then (True, mark_positive c1)
         else case vpn_start m cmds w of (started, w') \<Rightarrow>
           (let c2 = c1\<lparr>cn_world := w'\<rparr> in
            if counts_as_connected started then (True, mark_positive c2) else (False, invalidate_cache c2))))"

section \<open>What a start runs\<close>

lemma run_command_cases:
  assumes "run_command m cmds argv w = (r, w')" and "0 \<le> vm_timeout m"
  shows "vw_commands w' = vw_commands w @ [argv]" and "vw_clock w \<le> vw_clock w'" and "vw_clock w' \<le> vw_clock w + vm_timeout m"
    and "r = Some (code, out) \<Longrightarrow> fst (cmds (length (vw_commands w)) argv) = Exits code out"
  using assms by (auto simp: run_command_def Let_def split: prod.splits command_end.splits if_splits)

lemma run_quiet_cases:
  assumes "run_quiet m cmds argv w = (r, w')" and "0 \<le> vm_timeout m"
  shows "vw_commands w' = vw_commands w @ [argv]" and "vw_clock w \<le> vw_clock w'" and "vw_clock w' \<le> vw_clock w + vm_timeout m"
    and "r = Some code \<Longrightarrow> \<exists>out. fst (cmds (length (vw_commands w)) argv) = Exits code out"
proof -
  obtain x where run: "run_command m cmds argv w = (x, w')" and r: "r = map_option fst x"
    using assms(1) by (cases "run_command m cmds argv w") (auto simp: run_quiet_def)
  note * = run_command_cases[OF run assms(2)]
  show "vw_commands w' = vw_commands w @ [argv]" "vw_clock w \<le> vw_clock w'" "vw_clock w' \<le> vw_clock w + vm_timeout m"
    by (fact *)+
  show "\<exists>out. fst (cmds (length (vw_commands w)) argv) = Exits code out" if "r = Some code"
    using that r *(4) by auto
qed

lemma vpn_status_cases:
  assumes "vpn_status m cmds w = (v, w')" and "0 \<le> vm_timeout m"
  shows "vw_commands w' = vw_commands w @ (if vm_enabled m then [status_command m] else [])"
    and "vw_clock w \<le> vw_clock w'" and "vw_clock w' \<le> vw_clock w + (if vm_enabled m then vm_timeout m else 0)"
    and "\<not> vm_enabled m \<Longrightarrow> vs_state v = VPN_DISABLED" and "vm_enabled m \<Longrightarrow> vs_state v \<noteq> VPN_DISABLED"
    and "is_up v \<Longrightarrow> vm_enabled m \<and> (\<exists>out. fst (cmds (length (vw_commands w)) (status_command m)) = Exits 0 out)"
proof -
  obtain x u where run: "run_command m cmds (status_command m) w = (x, u)" by fastforce
  note * = run_command_cases[OF run assms(2)]
  have "vw_commands w' = vw_commands w @ (if vm_enabled m then [status_command m] else []) \<and> vw_clock w \<le> vw_clock w' \<and>
    vw_clock w' \<le> vw_clock w + (if vm_enabled m then vm_timeout m else 0) \<and>
    (\<not> vm_enabled m \<longrightarrow> vs_state v = VPN_DISABLED) \<and> (vm_enabled m \<longrightarrow> vs_state v \<noteq> VPN_DISABLED) \<and>
    (is_up v \<longrightarrow> vm_enabled m \<and> (\<exists>out. fst (cmds (length (vw_commands w)) (status_command m)) = Exits 0 out))"
  proof (cases "vm_enabled m")
    case True
    with assms(1) run *(1-3) *(4) show ?thesis
      by (cases x) (auto simp: vpn_status_def run_for_state_def status_of_def is_up_def split: if_splits)
  qed (use assms in \<open>auto simp: vpn_status_def status_of_def is_up_def\<close>)
  then show "vw_commands w' = vw_commands w @ (if vm_enabled m then [status_command m] else [])"
    and "vw_clock w \<le> vw_clock w'" and "vw_clock w' \<le> vw_clock w + (if vm_enabled m then vm_timeout m else 0)"
    and "\<not> vm_enabled m \<Longrightarrow> vs_state v = VPN_DISABLED" and "vm_enabled m \<Longrightarrow> vs_state v \<noteq> VPN_DISABLED"
    and "is_up v \<Longrightarrow> vm_enabled m \<and> (\<exists>out. fst (cmds (length (vw_commands w)) (status_command m)) = Exits 0 out)"
    by blast+
qed

abbreviation start_commands :: "vpn_manager \<Rightarrow> string list list" where
  "start_commands m \<equiv> [status_command m, load_command m, up_command m, status_command m]"

lemma vpn_start_run:
  assumes "vpn_start m cmds w = (v, w')" and "0 \<le> vm_timeout m"
  shows "\<exists>k \<le> 4. vw_commands w' = vw_commands w @ take k (start_commands m) \<and>
    vw_clock w \<le> vw_clock w' \<and> vw_clock w' \<le> vw_clock w + int k * vm_timeout m \<and>
    (1 \<le> k \<longrightarrow> vm_enabled m) \<and> (2 \<le> k \<longrightarrow> vm_allow_start m) \<and>
    (3 \<le> k \<longrightarrow> (\<exists>out. fst (cmds (length (vw_commands w) + 1) (load_command m)) = Exits 0 out)) \<and>
    (is_up v \<longrightarrow> k = 1 \<or> k = 4)"
proof -
  obtain v1 w1 where s: "vpn_status m cmds w = (v1, w1)" by fastforce
  obtain l w2 where ld: "run_quiet m cmds (load_command m) w1 = (l, w2)" by fastforce
  obtain u w3 where up: "run_quiet m cmds (up_command m) w2 = (u, w3)" by fastforce
  obtain v4 w4 where e: "vpn_status m cmds w3 = (v4, w4)" by fastforce
  note run = assms(1)[unfolded vpn_start_def s ld up e prod.case]
  note s = vpn_status_cases[OF s assms(2)] and ld = run_quiet_cases[OF ld assms(2)]
    and up = run_quiet_cases[OF up assms(2)] and e = vpn_status_cases[OF e assms(2)]
  consider (stop) "\<not> vm_enabled m" "v = v1" "w' = w1"
    | (current) "vm_enabled m" "is_up v1 \<or> \<not> vm_allow_start m" "w' = w1"
    | (unloaded) "vm_enabled m" "vm_allow_start m" "w' = w2" "\<not> is_up v"
    | (failed) "vm_enabled m" "vm_allow_start m" "l = Some 0" "w' = w3" "\<not> is_up v"
    | (started) "vm_enabled m" "vm_allow_start m" "l = Some 0" "v = v4" "w' = w4"
    using run by (auto simp: is_up_def status_of_def split: if_splits)
  then show ?thesis
  proof cases
    case stop
    with s show ?thesis by (intro exI[of _ 0]) (simp add: is_up_def)
  next
    case current
    with s show ?thesis by (intro exI[of _ 1]) simp
  next
    case unloaded
    with s(1-3) ld(1-3) show ?thesis by (intro exI[of _ 2]) simp
  next
    case failed
    with s(1-3) ld(1-3) up(1-3) ld(4)[of 0] show ?thesis by (intro exI[of _ 3]) (simp add: eval_nat_numeral)
  next
    case started
    with s(1-3) ld(1-3) up(1-3) ld(4)[of 0] e(1-3) show ?thesis by (intro exI[of _ 4]) (simp add: eval_nat_numeral)
  qed
qed

text \<open>
  C29. A VPN start is bounded and privileged only on purpose: \<open>start\<close> runs a prefix of status, load, up and status, within one timeout each
  even if every command hangs; commands run only if the VPN is enabled, the two that use sudo only if a
  start is allowed too, and the tunnel is brought up only after its profile was loaded.
\<close>

theorem vpn_start_guarded:
  assumes "vpn_start m cmds w = (v, w')" and "0 \<le> vm_timeout m"
  shows "\<exists>k \<le> 4. vw_commands w' = vw_commands w @ take k (start_commands m) \<and>
    vw_clock w \<le> vw_clock w' \<and> vw_clock w' \<le> vw_clock w + int k * vm_timeout m \<and>
    (1 \<le> k \<longrightarrow> vm_enabled m) \<and> (2 \<le> k \<longrightarrow> vm_allow_start m) \<and>
    (3 \<le> k \<longrightarrow> (\<exists>out. fst (cmds (length (vw_commands w) + 1) (load_command m)) = Exits 0 out)) \<and>
    (is_up v \<longrightarrow> k = 1 \<or> k = 4)"
  using assms by (rule vpn_start_run)

section \<open>How old the answer of the cache may be\<close>

datatype connectivity_op = AskConnected | EnsureConnected | Invalidate | Pass nat

definition connectivity_step :: "vpn_manager \<Rightarrow> vpn_commands \<Rightarrow> connectivity_op \<Rightarrow> connectivity \<Rightarrow> connectivity" where
  "connectivity_step m cmds op c =
     (case op of
        AskConnected \<Rightarrow> snd (is_connected m cmds c)
      | EnsureConnected \<Rightarrow> snd (ensure_connected m cmds c)
      | Invalidate \<Rightarrow> invalidate_cache c
      | Pass d \<Rightarrow> c\<lparr>cn_world := (cn_world c)\<lparr>vw_clock := vw_clock (cn_world c) + int d\<rparr>\<rparr>)"

text \<open>The times at which an operation was told that the tunnel is up (or that there is none to need).\<close>

definition positive_at :: "tunnel_status \<times> vpn_world \<Rightarrow> int list" where
  "positive_at r = (if counts_as_connected (fst r) then [vw_clock (snd r)] else [])"

definition observed :: "vpn_manager \<Rightarrow> vpn_commands \<Rightarrow> connectivity_op \<Rightarrow> connectivity \<Rightarrow> int list" where
  "observed m cmds op c =
     (let asked = vpn_status m cmds (cn_world c) in
      case op of
        AskConnected \<Rightarrow> if is_cache_valid c then [] else positive_at asked
      | EnsureConnected \<Rightarrow> if is_cache_valid c then []
          else if counts_as_connected (fst asked) then positive_at asked
          else positive_at (vpn_start m cmds (snd asked))
      | _ \<Rightarrow> [])"

fun connectivity_run :: "vpn_manager \<Rightarrow> vpn_commands \<Rightarrow> connectivity_op list \<Rightarrow> connectivity \<times> int list \<Rightarrow> connectivity \<times> int list" where
  "connectivity_run m cmds [] cs = cs"
| "connectivity_run m cmds (op # ops) (c, seen) =
     connectivity_run m cmds ops (connectivity_step m cmds op c, seen @ observed m cmds op c)"

definition cache_sound :: "connectivity \<times> int list \<Rightarrow> bool" where
  "cache_sound cs \<longleftrightarrow> (case cn_last_positive (fst cs) of None \<Rightarrow> True | Some t \<Rightarrow> t \<in> set (snd cs))"

lemma cache_sound_step:
  assumes "cache_sound (c, seen)"
  shows "cache_sound (connectivity_step m cmds op c, seen @ observed m cmds op c)"
proof -
  obtain v w where s: "vpn_status m cmds (cn_world c) = (v, w)" by fastforce
  obtain v' w' where st: "vpn_start m cmds w = (v', w')" by fastforce
  show ?thesis using assms
    by (cases op) (auto simp: connectivity_step_def cache_sound_def observed_def positive_at_def is_connected_def
      ensure_connected_def mark_positive_def invalidate_cache_def cn_now_def s st Let_def split: option.splits if_splits)
qed

lemma cache_sound_run: "cache_sound cs \<Longrightarrow> cache_sound (connectivity_run m cmds ops cs)"
proof (induction ops arbitrary: cs)
  case (Cons op ops)
  from Cons.prems have "cache_sound (connectivity_step m cmds op (fst cs), snd cs @ observed m cmds op (fst cs))"
    by (intro cache_sound_step) simp
  from Cons.IH[OF this] show ?case by (cases cs) simp
qed simp

lemma ttl_step: "cn_ttl (connectivity_step m cmds op c) = cn_ttl c"
  by (cases op) (auto simp: connectivity_step_def is_connected_def ensure_connected_def mark_positive_def
    invalidate_cache_def Let_def split: prod.splits)

lemma ttl_run: "cn_ttl (fst (connectivity_run m cmds ops cs)) = cn_ttl (fst cs)"
  by (induction ops arbitrary: cs) (auto simp: ttl_step split: prod.splits)

lemma connected_observed:
  assumes "cache_sound (c, seen)" and "is_connected m cmds c = (True, c')" and "0 < cn_ttl c"
  shows "\<exists>t \<in> set (seen @ observed m cmds AskConnected c). t \<le> cn_now c' \<and> cn_now c' - t < cn_ttl c"
proof (cases "is_cache_valid c")
  case True
  with assms show ?thesis
    by (auto simp: is_cache_valid_def cache_sound_def is_connected_def split: option.splits)
next
  case False
  obtain v w where s: "vpn_status m cmds (cn_world c) = (v, w)" by fastforce
  from False assms(2,3) s show ?thesis
    by (auto simp: is_connected_def observed_def positive_at_def mark_positive_def cn_now_def Let_def split: if_splits)
qed

text \<open>
  The connectivity cache never answers from old news: after any sequence of questions, starts, invalidations and passing
  time, a positive answer is based on an observation of the tunnel less than the time to live ago.
\<close>

theorem connected_answer_is_fresh:
  assumes "connectivity_run m cmds ops (\<lparr>cn_ttl = ttl, cn_last_positive = None, cn_world = w\<rparr>, []) = (c, seen)"
    and "is_connected m cmds c = (True, c')" and "0 < ttl"
  shows "\<exists>t \<in> set (seen @ observed m cmds AskConnected c). t \<le> cn_now c' \<and> cn_now c' - t < ttl"
proof -
  let ?start = "(\<lparr>cn_ttl = ttl, cn_last_positive = None, cn_world = w\<rparr>, []) :: connectivity \<times> int list"
  have "cache_sound (connectivity_run m cmds ops ?start)" by (rule cache_sound_run) (simp add: cache_sound_def)
  with assms(1) have sound: "cache_sound (c, seen)" by simp
  have "cn_ttl c = ttl" using ttl_run[of m cmds ops ?start] assms(1) by simp
  with connected_observed[OF sound assms(2)] assms(3) show ?thesis by simp
qed

section \<open>Samples\<close>

definition sample_vpn_manager :: vpn_manager where
  "sample_vpn_manager = \<lparr>vm_enabled = True, vm_connection_name = ''office'', vm_profile_path = parse_path ''/etc/vpn'',
     vm_allow_start = True, vm_nmcli_bin = parse_path ''/usr/bin/nmcli'', vm_sudo_bin = parse_path ''/usr/bin/sudo'', vm_timeout = 10000\<rparr>"

text \<open>The tunnel is down at first, and up after it was started.\<close>

definition sample_commands :: vpn_commands where
  "sample_commands n argv = (if n = 0 then (Exits 10 [], 20) else (Exits 0 ''GENERAL.STATE:activated'', 20))"

abbreviation "idle_vpn \<equiv> \<lparr>vw_clock = 0, vw_commands = []\<rparr> :: vpn_world"

lemma sample_start:
  "\<exists>w'. vpn_start sample_vpn_manager sample_commands idle_vpn = (status_of VPN_UP ''L2TP/IPsec VPN tunnel is up.'', w') \<and>
     vw_clock w' = 80"
  by (simp add: vpn_start_def vpn_status_def run_for_state_def run_quiet_def run_command_def sample_vpn_manager_def sample_commands_def
      is_up_def status_of_def after_last_def py_strip_def is_space_def py_lower_def lower_char_def)

theorem vpn_start_guarded_witness:
  "\<exists>v w' k. vpn_start sample_vpn_manager sample_commands idle_vpn = (v, w') \<and> is_up v \<and>
     vw_commands w' = take k (start_commands sample_vpn_manager)"
proof -
  from sample_start obtain w' where run: "vpn_start sample_vpn_manager sample_commands idle_vpn =
      (status_of VPN_UP ''L2TP/IPsec VPN tunnel is up.'', w')" by blast
  have "0 \<le> vm_timeout sample_vpn_manager" by (simp add: sample_vpn_manager_def)
  from vpn_start_guarded [OF run this] run show ?thesis
    by (auto simp: is_up_def status_of_def)
qed

lemmas vpn_eval = vpn_start_def vpn_status_def run_for_state_def run_quiet_def run_command_def sample_vpn_manager_def sample_commands_def
  is_up_def status_of_def after_last_def py_strip_def is_space_def py_lower_def lower_char_def

lemma sample_connectivity:
  "\<exists>c. connectivity_run sample_vpn_manager sample_commands [EnsureConnected, Pass 5000]
      (\<lparr>cn_ttl = 10000, cn_last_positive = None, cn_world = idle_vpn\<rparr>, []) = (c, [40]) \<and>
     is_connected sample_vpn_manager sample_commands c = (True, c) \<and> cn_now c = 5040"
  by (simp add: connectivity_step_def ensure_connected_def is_connected_def observed_def positive_at_def is_cache_valid_def
      counts_as_connected_def mark_positive_def cn_now_def vpn_eval)

theorem connected_answer_is_fresh_witness:
  "\<exists>c t. connectivity_run sample_vpn_manager sample_commands [EnsureConnected, Pass 5000]
      (\<lparr>cn_ttl = 10000, cn_last_positive = None, cn_world = idle_vpn\<rparr>, []) = (c, [40]) \<and>
     is_connected sample_vpn_manager sample_commands c = (True, c) \<and> cn_now c - t < 10000"
proof -
  from sample_connectivity obtain c where run: "connectivity_run sample_vpn_manager sample_commands [EnsureConnected, Pass 5000]
      (\<lparr>cn_ttl = 10000, cn_last_positive = None, cn_world = idle_vpn\<rparr>, []) = (c, [40])"
    and up: "is_connected sample_vpn_manager sample_commands c = (True, c)" by blast
  have "0 < (10000 :: int)" by simp
  from connected_answer_is_fresh [OF run up this] obtain t where "cn_now c - t < 10000" by blast
  with run up show ?thesis by blast
qed

end
