(* ===== verification/Admin.thy ===== *)
theory Admin
  imports Rules_Store Policy Vpn
begin

text \<open>
  The administrator commands, \<open>src/src/dztgbot/admin.py\<close>: \<open>/rules\<close>, \<open>/setrules\<close>, \<open>/vpn\<close> and \<open>/vpnstart\<close> over the rules store and the VPN
  helper, each behind the private-chat and administrator gate.  A fixed denial text is represented by its denial code.
  Sending a reply does not fail here, and log lines are not modelled.
\<close>

section \<open>Updates and replies\<close>

record replied_message =
  rm_text :: "string option"
  rm_caption :: "string option"

text \<open>\<open>au_chat\<close> is \<open>None\<close> without a chat, and the chat's type (if it has one) otherwise.\<close>

record admin_update =
  au_user :: "int option"
  au_chat :: "string option option"
  au_message :: bool
  au_text :: "string option"
  au_reply_to :: "replied_message option"

datatype admin_reply = AdminText string | AdminDenial denial_code

record admin_world =
  aw_rules :: rules_store
  aw_vpn :: vpn_world
  aw_replies :: "admin_reply list"

record admin_env =
  ae_admins :: "int list"
  ae_faults :: faults
  ae_max_bytes :: nat
  ae_rules_path :: string
  ae_vpn :: vpn_manager
  ae_commands :: vpn_commands

type_synonym 'a admin_sx = "(admin_world, exn, 'a) sx"

definition reply :: "admin_reply \<Rightarrow> unit admin_sx" where
  "reply m = sx_modify (\<lambda>w. w\<lparr>aw_replies := aw_replies w @ [m]\<rparr>)"

definition on_rules :: "'a rules_sx \<Rightarrow> 'a admin_sx" where
  "on_rules m = (\<lambda>w. case m (aw_rules w) of (r, s) \<Rightarrow> (r, w\<lparr>aw_rules := s\<rparr>))"

definition on_vpn :: "(vpn_world \<Rightarrow> 'a \<times> vpn_world) \<Rightarrow> 'a admin_sx" where
  "on_vpn f = (\<lambda>w. case f (aw_vpn w) of (x, v) \<Rightarrow> (Inr x, w\<lparr>aw_vpn := v\<rparr>))"

section \<open>Texts\<close>

text \<open>\<open>text.split(maxsplit=1)\<close>.\<close>

definition split_once :: "string \<Rightarrow> string list" where
  "split_once s =
     (let t = dropWhile is_space s; rest = dropWhile is_space (dropWhile (\<lambda>c. \<not> is_space c) t) in
      if t = [] then [] else if rest = [] then [takeWhile (\<lambda>c. \<not> is_space c) t]
      else [takeWhile (\<lambda>c. \<not> is_space c) t, rest])"

definition non_blank :: "string option \<Rightarrow> string option" where
  "non_blank t = (case t of None \<Rightarrow> None | Some s \<Rightarrow> if py_strip s = [] then None else Some (py_strip s))"

text \<open>\<open>getattr(replied_to, "text", None) or getattr(replied_to, "caption", None)\<close>.\<close>

definition replied_text :: "replied_message \<Rightarrow> string option" where
  "replied_text r = (case rm_text r of Some t \<Rightarrow> if t \<noteq> [] then Some t else rm_caption r | None \<Rightarrow> rm_caption r)"

definition rules_from_command :: "string option \<Rightarrow> replied_message option \<Rightarrow> string option" where
  "rules_from_command command replied_to =
     (case (case command of None \<Rightarrow> None | Some c \<Rightarrow>
              (case split_once c of [_, rest] \<Rightarrow> non_blank (Some rest) | _ \<Rightarrow> None)) of
        Some rules \<Rightarrow> Some rules
      | None \<Rightarrow> (case replied_to of None \<Rightarrow> None | Some r \<Rightarrow> non_blank (replied_text r)))"

fun chunks_of :: "nat \<Rightarrow> string \<Rightarrow> string list" where
  "chunks_of n s = (if n = 0 \<or> s = [] then [] else take n s # chunks_of n (drop n s))"

declare chunks_of.simps [simp del]

definition telegram_chunks :: "string \<Rightarrow> string list" where
  "telegram_chunks s = (let cs = chunks_of 3500 s in if cs = [] then [[]] else cs)"

section \<open>The gate\<close>

definition require_authorised_private :: "admin_env \<Rightarrow> admin_update \<Rightarrow> bool admin_sx" where
  "require_authorised_private env u =
     (case (au_user u, au_chat u) of
        (Some user, Some chat_type) \<Rightarrow>
          (case require_private_admin chat_type user (ae_admins env) of
             Allow \<Rightarrow> sx_return True
           | Deny code \<Rightarrow>
               sx_bind (if au_message u then reply (AdminDenial code) else sx_return ()) (\<lambda>_. sx_return False))
      | _ \<Rightarrow> sx_return False)"

abbreviation when_authorised :: "admin_env \<Rightarrow> admin_update \<Rightarrow> unit admin_sx \<Rightarrow> unit admin_sx" where
  "when_authorised env u m \<equiv>
     sx_bind (require_authorised_private env u) (\<lambda>ok. if ok \<and> au_message u then m else sx_return ())"

section \<open>Commands\<close>

definition view_rules :: "admin_env \<Rightarrow> admin_update \<Rightarrow> unit admin_sx" where
  "view_rules env u =
     when_authorised env u
       (if \<not> may_disclose_runtime_rules (the (au_chat u)) then reply (AdminDenial DC_NOT_PRIVATE_CHAT)
        else sx_bind (on_rules (current_rules (ae_faults env) (ae_max_bytes env) (ae_rules_path env))) (\<lambda>rules.
          let chunks = telegram_chunks rules in
          sx_bind (reply (AdminText (''Current runtime Jira rules:'' @ [CHR 0x0A, CHR 0x0A] @ hd chunks))) (\<lambda>_.
            sx_each (\<lambda>c. reply (AdminText c)) (tl chunks))))"

definition set_rules :: "admin_env \<Rightarrow> admin_update \<Rightarrow> unit admin_sx" where
  "set_rules env u =
     when_authorised env u
       (if \<not> may_disclose_runtime_rules (the (au_chat u)) then reply (AdminDenial DC_NOT_PRIVATE_CHAT)
        else case rules_from_command (au_text u) (au_reply_to u) of
          None \<Rightarrow> reply (AdminText
            ''Provide non-empty rules after /setrules, or reply with /setrules to a text message.'')
        | Some candidate \<Rightarrow> (\<lambda>w.
            (case on_rules (replace_rules (ae_faults env) (ae_max_bytes env) (ae_rules_path env) candidate) w of
               (Inl e, w') \<Rightarrow>
                 if is_rules_error e
                 then reply (AdminText ''Rules update failed. The previous rules remain active.'') w'
                 else (Inl e, w')
             | (Inr _, w') \<Rightarrow> reply (AdminText ''Rules updated and reloaded. The new rules are active now.'') w')))"

definition show_vpn :: "admin_env \<Rightarrow> admin_update \<Rightarrow> unit admin_sx" where
  "show_vpn env u =
     when_authorised env u
       (sx_bind (on_vpn (vpn_status (ae_vpn env) (ae_commands env))) (\<lambda>v. reply (AdminText (vs_message v))))"

definition start_vpn :: "admin_env \<Rightarrow> admin_update \<Rightarrow> unit admin_sx" where
  "start_vpn env u =
     when_authorised env u
       (sx_bind (on_vpn (vpn_start (ae_vpn env) (ae_commands env))) (\<lambda>v. reply (AdminText (vs_message v))))"

datatype admin_command = CmdRules | CmdSetRules | CmdVpn | CmdVpnStart

fun run_admin :: "admin_env \<Rightarrow> admin_command \<Rightarrow> admin_update \<Rightarrow> unit admin_sx" where
  "run_admin env CmdRules u = view_rules env u"
| "run_admin env CmdSetRules u = set_rules env u"
| "run_admin env CmdVpn u = show_vpn env u"
| "run_admin env CmdVpnStart u = start_vpn env u"

section \<open>Only administrators in private chats\<close>

definition private_administrator :: "admin_env \<Rightarrow> admin_update \<Rightarrow> bool" where
  "private_administrator env u \<longleftrightarrow>
     (\<exists>user chat_type. au_user u = Some user \<and> au_chat u = Some chat_type \<and> is_private_chat chat_type \<and> user \<in> set (ae_admins env))"

lemma gate_allows: "private_administrator env u \<Longrightarrow> require_authorised_private env u w = (Inr True, w)"
  by (auto simp: private_administrator_def require_authorised_private_def require_private_admin_def require_private_chat_def
      require_admin_def)

lemma gate_refuses:
  assumes "\<not> private_administrator env u"
  shows "\<exists>denials. require_authorised_private env u w = (Inr False, w\<lparr>aw_replies := aw_replies w @ denials\<rparr>) \<and>
    set denials \<subseteq> {AdminDenial DC_NOT_PRIVATE_CHAT, AdminDenial DC_NOT_ADMIN}"
proof (cases "au_user u = None \<or> au_chat u = None")
  case True
  then have "require_authorised_private env u w = (Inr False, w\<lparr>aw_replies := aw_replies w @ []\<rparr>)"
    by (auto simp: require_authorised_private_def split: option.split)
  then show ?thesis by (intro exI[of _ "[]"]) simp
next
  case False
  then obtain user chat_type where u: "au_user u = Some user" "au_chat u = Some chat_type" by auto
  let ?code = "if is_private_chat chat_type then DC_NOT_ADMIN else DC_NOT_PRIVATE_CHAT"
  have d: "require_private_admin chat_type user (ae_admins env) = Deny ?code"
    using assms u by (cases "is_private_chat chat_type")
      (auto simp: private_administrator_def require_private_admin_def require_private_chat_def require_admin_def decision_allowed_def)
  let ?denials = "if au_message u then [AdminDenial ?code] else []"
  have "require_authorised_private env u w = (Inr False, w\<lparr>aw_replies := aw_replies w @ ?denials\<rparr>)"
    using u d by (simp add: require_authorised_private_def reply_def sx_bind_def sx_modify_def)
  then show ?thesis by (intro exI[of _ ?denials]) auto
qed

lemma refused_command:
  assumes "\<not> private_administrator env u"
  shows "\<exists>denials. run_admin env cmd u w = (Inr (), w\<lparr>aw_replies := aw_replies w @ denials\<rparr>) \<and>
    set denials \<subseteq> {AdminDenial DC_NOT_PRIVATE_CHAT, AdminDenial DC_NOT_ADMIN}"
proof -
  from gate_refuses[OF assms] obtain denials where
    g: "require_authorised_private env u w = (Inr False, w\<lparr>aw_replies := aw_replies w @ denials\<rparr>)"
    and d: "set denials \<subseteq> {AdminDenial DC_NOT_PRIVATE_CHAT, AdminDenial DC_NOT_ADMIN}" by blast
  have "run_admin env cmd u w = (Inr (), w\<lparr>aw_replies := aw_replies w @ denials\<rparr>)"
    by (cases cmd) (simp_all add: view_rules_def set_rules_def show_vpn_def start_vpn_def sx_bind_def g)
  with d show ?thesis by blast
qed

text \<open>
  C30. The administrator commands are for administrators in private chats: one of the four sent by anyone else, or elsewhere, changes neither
  the rules nor the VPN, runs no command, and reads nothing but one of the two fixed denials.  This is about these commands
  only: the Jira client starts the VPN itself while it checks a credential, for every user who may send one
  (\<open>Auth.validation_starts_vpn\<close>).
\<close>

theorem admin_commands_guarded:
  assumes "\<not> private_administrator env u"
  shows "\<exists>denials. run_admin env cmd u w = (Inr (), w\<lparr>aw_replies := aw_replies w @ denials\<rparr>) \<and>
    set denials \<subseteq> {AdminDenial DC_NOT_PRIVATE_CHAT, AdminDenial DC_NOT_ADMIN}"
  using assms by (rule refused_command)

section \<open>The rules are shown in full\<close>

lemma concat_chunks_of: "0 < n \<Longrightarrow> concat (chunks_of n s) = s"
  by (induction n s rule: chunks_of.induct) (subst chunks_of.simps, simp)

lemma length_chunk: "c \<in> set (chunks_of n s) \<Longrightarrow> length c \<le> n"
  by (induction n s rule: chunks_of.induct) (subst (asm) chunks_of.simps, auto split: if_splits)

lemma concat_telegram_chunks: "concat (telegram_chunks s) = s"
  using concat_chunks_of[of 3500 s] by (auto simp: telegram_chunks_def Let_def)

lemma length_telegram_chunk: "c \<in> set (telegram_chunks s) \<Longrightarrow> length c \<le> 3500"
  using length_chunk[of c 3500 s] by (auto simp: telegram_chunks_def Let_def split: if_splits)

lemma telegram_chunks_not_Nil [simp]: "telegram_chunks s \<noteq> []"
  by (simp add: telegram_chunks_def Let_def)

lemma each_reply: "sx_each (\<lambda>c. reply (AdminText c)) cs w = (Inr (), w\<lparr>aw_replies := aw_replies w @ map AdminText cs\<rparr>)"
  by (induction cs arbitrary: w) (simp_all add: reply_def sx_bind_def)

definition reply_length :: "admin_reply \<Rightarrow> nat" where
  "reply_length r = (case r of AdminText t \<Rightarrow> length t | AdminDenial _ \<Rightarrow> 0)"

text \<open>
  An administrator reads the rules in full: in a private chat \<open>/rules\<close> sends the rules that are active, in order and without a gap,
  in messages within Telegram's limit of 4096 characters.
\<close>

theorem rules_shown_in_full:
  assumes "private_administrator env u" and "au_message u"
    and "current_rules (ae_faults env) (ae_max_bytes env) (ae_rules_path env) (aw_rules w) = (Inr rules, s')"
  shows "\<exists>texts. view_rules env u w = (Inr (), w\<lparr>aw_rules := s', aw_replies := aw_replies w @ map AdminText texts\<rparr>) \<and>
    concat texts = ''Current runtime Jira rules:'' @ [CHR 0x0A, CHR 0x0A] @ rules \<and> list_all (\<lambda>t. length t \<le> 4096) texts"
proof -
  let ?cs = "telegram_chunks rules" and ?head = "''Current runtime Jira rules:'' @ [CHR 0x0A, CHR 0x0A]"
  let ?texts = "(?head @ hd ?cs) # tl ?cs"
  from assms(1) obtain chat_type where "au_chat u = Some chat_type" "is_private_chat chat_type"
    by (auto simp: private_administrator_def)
  then have "view_rules env u w = (Inr (), w\<lparr>aw_rules := s', aw_replies := aw_replies w @ map AdminText ?texts\<rparr>)"
    using assms(2,3)
    by (simp add: view_rules_def sx_bind_def gate_allows[OF assms(1)] may_disclose_runtime_rules_def on_rules_def reply_def
        each_reply[unfolded reply_def] Let_def)
  moreover have "concat ?texts = ?head @ rules"
    using concat_telegram_chunks[of rules] by (cases ?cs) (simp_all add: telegram_chunks_not_Nil)
  moreover have "list_all (\<lambda>t. length t \<le> 4096) ?texts"
  proof -
    have "length (hd ?cs) \<le> 3500" using length_telegram_chunk hd_in_set[OF telegram_chunks_not_Nil] by blast
    then have head: "length (?head @ hd ?cs) \<le> 4096" by simp
    have tail: "length c \<le> 4096" if "c \<in> set (tl ?cs)" for c
    proof -
      have "c \<in> set ?cs" using that list.set_sel(2)[OF telegram_chunks_not_Nil] by blast
      then have "length c \<le> 3500" by (rule length_telegram_chunk)
      then show ?thesis by simp
    qed
    show ?thesis unfolding list_all_iff list.set using head tail by blast
  qed
  ultimately show ?thesis by (intro exI[of _ ?texts] conjI) (simp_all only: append_assoc)
qed

section \<open>Samples\<close>

definition sample_admin_env :: admin_env where
  "sample_admin_env = \<lparr>ae_admins = [42], ae_faults = (\<lambda>_. False), ae_max_bytes = 10, ae_rules_path = ''r'',
     ae_vpn = sample_vpn_manager, ae_commands = sample_commands\<rparr>"

definition sample_admin_world :: admin_world where
  "sample_admin_world = \<lparr>aw_rules = (sample_rules_store ''a'')\<lparr>rl_signature := Some 1\<rparr>, aw_vpn = idle_vpn, aw_replies = []\<rparr>"

definition sample_admin_update :: "int \<Rightarrow> admin_update" where
  "sample_admin_update user = \<lparr>au_user = Some user, au_chat = Some (Some ''private''), au_message = True,
     au_text = Some ''/setrules b'', au_reply_to = None\<rparr>"

lemma sample_private: "is_private_chat (Some ''private'')"
  by (simp add: is_private_chat_def py_casefold_def fold_char_def)

theorem admin_commands_guarded_witness:
  "\<exists>denials. run_admin sample_admin_env CmdSetRules (sample_admin_update 7) sample_admin_world =
     (Inr (), sample_admin_world\<lparr>aw_replies := denials\<rparr>)"
proof -
  have "\<not> private_administrator sample_admin_env (sample_admin_update 7)"
    by (simp add: private_administrator_def sample_admin_env_def sample_admin_update_def)
  from admin_commands_guarded [OF this, of CmdSetRules sample_admin_world] show ?thesis
    by (auto simp: sample_admin_world_def)
qed

theorem rules_shown_in_full_witness:
  "\<exists>w' texts. view_rules sample_admin_env (sample_admin_update 42) sample_admin_world = (Inr (), w') \<and>
     concat texts = ''Current runtime Jira rules:'' @ [CHR 0x0A, CHR 0x0A] @ ''a''"
proof -
  have admin: "private_administrator sample_admin_env (sample_admin_update 42)" "au_message (sample_admin_update 42)"
    using sample_private by (simp_all add: private_administrator_def sample_admin_env_def sample_admin_update_def)
  have "\<exists>s'. current_rules (\<lambda>_. False) 10 ''r'' ((sample_rules_store ''a'')\<lparr>rl_signature := Some 1\<rparr>) = (Inr ''a'', s')"
    by (simp add: current_rules_def sample_rules_store_def sx_bind_app with_disk_app signature_app)
  then obtain s' where "current_rules (ae_faults sample_admin_env) (ae_max_bytes sample_admin_env) (ae_rules_path sample_admin_env)
      (aw_rules sample_admin_world) = (Inr ''a'', s')"
    by (auto simp: sample_admin_env_def sample_admin_world_def)
  from rules_shown_in_full [OF admin this] show ?thesis by blast
qed

end
