(* ===== verification/Issue_Service.thy ===== *)
theory Issue_Service
  imports Jira_Gateway Workflow_Contracts
begin

text \<open>
  The services behind the issue cards: \<open>src/src/dztgbot/services/jira_issue_service.py\<close> over the Jira adapter,
  \<open>card_tracker_service.py\<close> and \<open>notification_service.py\<close> over the repository.  \<open>lookup\<close> stands for the credential store
  handed to the service: the exception its \<open>get_credentials\<close> raises, or the token of the user, if any.  Log lines are not
  modelled, nor are the names of states outside the character type.
\<close>

section \<open>The issue service\<close>

type_synonym credential_lookup = "int \<Rightarrow> exn + string option"

definition get_pat :: "credential_lookup \<Rightarrow> int \<Rightarrow> exn + string" where
  "get_pat lookup user =
     rbind (lookup user) (\<lambda>creds.
       (case creds of
          Some pat \<Rightarrow> if pat \<noteq> [] then Inr pat
                      else Inl (ValueError ''Authentication required. Use /auth to log in with your Jira PAT.'')
        | None \<Rightarrow> Inl (ValueError ''Authentication required. Use /auth to log in with your Jira PAT.'')))"

text \<open>\<open>UserStore\<close> has no attribute \<open>get_credentials\<close>.\<close>

definition user_store_lookup :: credential_lookup where
  "user_store_lookup user = Inl (OtherError ''AttributeError'')"

abbreviation with_pat :: "credential_lookup \<Rightarrow> int \<Rightarrow> (string \<Rightarrow> 'a http_sx) \<Rightarrow> 'a http_sx" where
  "with_pat lookup user f \<equiv> sx_bind (sx_lift (get_pat lookup user)) f"

fun filter_jql :: "string \<Rightarrow> string" where
  "filter_jql name =
     (if name = ''my_open'' then ''assignee = currentUser() AND resolution = Unresolved ORDER BY priority DESC, updated DESC''
      else if name = ''i_created'' then ''reporter = currentUser() AND resolution = Unresolved ORDER BY updated DESC''
      else if name = ''unassigned'' then ''assignee is EMPTY AND resolution = Unresolved ORDER BY updated DESC''
      else if name = ''blocked'' then ''(Flagged = Impediment OR issueFunction in linkedIssuesOf('' @ [CHR 0x27] @
        ''resolution = Unresolved'' @ [CHR 0x27] @ '', '' @ [CHR 0x27] @ ''is blocked by'' @ [CHR 0x27] @
        '')) AND resolution = Unresolved ORDER BY updated DESC''
      else ''sprint in openSprints() AND (assignee = currentUser() OR reporter = currentUser()) '' @
        ''AND resolution = Unresolved ORDER BY priority DESC'')"

definition escape_keywords :: "string \<Rightarrow> string" where
  "escape_keywords kw = concat (map (\<lambda>c. if c = CHR 0x22 then [CHR 0x5C, CHR 0x22] else [c]) kw)"

definition keyword_jql :: "string \<Rightarrow> string" where
  "keyword_jql kw = ''text ~ '' @ [CHR 0x22] @ escape_keywords kw @ [CHR 0x22] @
     '' AND resolution = Unresolved ORDER BY updated DESC''"

definition standup_jql :: string where
  "standup_jql = ''sprint in openSprints() OR (assignee = currentUser() AND updated >= -7d) ORDER BY priority DESC, updated DESC''"

definition service_get_issue :: "jira_env \<Rightarrow> credential_lookup \<Rightarrow> int \<Rightarrow> string \<Rightarrow> jira_issue_view http_sx" where
  "service_get_issue env lookup user key = with_pat lookup user (get_issue_details env key)"

definition service_filter ::
  "jira_env \<Rightarrow> credential_lookup \<Rightarrow> int \<Rightarrow> string \<Rightarrow> int \<Rightarrow> jira_search_result http_sx" where
  "service_filter env lookup user name max_results =
     with_pat lookup user (\<lambda>pat. search_jql env pat (filter_jql name) max_results)"

definition search_keywords ::
  "jira_env \<Rightarrow> credential_lookup \<Rightarrow> int \<Rightarrow> string \<Rightarrow> int \<Rightarrow> jira_search_result http_sx" where
  "search_keywords env lookup user kw max_results =
     with_pat lookup user (\<lambda>pat. search_jql env pat (keyword_jql kw) max_results)"

definition service_get_transitions ::
  "jira_env \<Rightarrow> credential_lookup \<Rightarrow> int \<Rightarrow> string \<Rightarrow> jira_transition_view list http_sx" where
  "service_get_transitions env lookup user key = with_pat lookup user (get_transitions env key)"

text \<open>A change, then the issue as it is now.\<close>

abbreviation change_then_view ::
  "jira_env \<Rightarrow> credential_lookup \<Rightarrow> int \<Rightarrow> string \<Rightarrow> (string \<Rightarrow> unit http_sx) \<Rightarrow> jira_issue_view http_sx" where
  "change_then_view env lookup user key change \<equiv>
     with_pat lookup user (\<lambda>pat. sx_bind (change pat) (\<lambda>_. get_issue_details env key pat))"

definition audit_note :: "int \<Rightarrow> string option \<Rightarrow> string" where
  "audit_note user comment =
     (let note = ''via Telegram by user '' @ decimal_int user in
      case comment of
        Some c \<Rightarrow> if c \<noteq> [] then c @ [CHR 0x0A, CHR 0x0A] @ ''('' @ note @ '')'' else note
      | None \<Rightarrow> note)"

definition service_transition ::
  "jira_env \<Rightarrow> credential_lookup \<Rightarrow> int \<Rightarrow> string \<Rightarrow> string \<Rightarrow> string option \<Rightarrow> jira_issue_view http_sx" where
  "service_transition env lookup user key transition_id comment =
     change_then_view env lookup user key (\<lambda>pat. execute_transition env key transition_id pat (Some (audit_note user comment)))"

definition service_add_comment :: "jira_env \<Rightarrow> credential_lookup \<Rightarrow> int \<Rightarrow> string \<Rightarrow> string \<Rightarrow> jira_issue_view http_sx" where
  "service_add_comment env lookup user key body =
     change_then_view env lookup user key (\<lambda>pat.
       sx_bind (add_comment env key (body @ [CHR 0x0A, CHR 0x0A] @ ''*(via Telegram)*'') pat) (\<lambda>_. sx_return ()))"

definition service_upload ::
  "jira_env \<Rightarrow> credential_lookup \<Rightarrow> int \<Rightarrow> string \<Rightarrow> string \<Rightarrow> string \<Rightarrow> string \<Rightarrow> jira_issue_view http_sx" where
  "service_upload env lookup user key filename content mime =
     change_then_view env lookup user key (\<lambda>pat.
       sx_bind (gateway_upload env key filename content mime pat) (\<lambda>_. sx_return ()))"

definition service_assign :: "jira_env \<Rightarrow> credential_lookup \<Rightarrow> int \<Rightarrow> string \<Rightarrow> string \<Rightarrow> jira_issue_view http_sx" where
  "service_assign env lookup user key assignee =
     change_then_view env lookup user key (\<lambda>pat.
       sx_bind (assign_issue env key assignee pat) (\<lambda>_.
       sx_bind (add_comment env key (''Reassigned to '' @ (if assignee \<noteq> [] then assignee else ''Unassigned'') @ '' via Telegram.'') pat)
         (\<lambda>_. sx_return ())))"

definition service_block ::
  "jira_env \<Rightarrow> credential_lookup \<Rightarrow> int \<Rightarrow> string \<Rightarrow> string \<Rightarrow> string option \<Rightarrow> jira_issue_view http_sx" where
  "service_block env lookup user key blocker reason =
     change_then_view env lookup user key (\<lambda>pat. block_issue env key blocker pat reason)"

definition service_unblock :: "jira_env \<Rightarrow> credential_lookup \<Rightarrow> int \<Rightarrow> string \<Rightarrow> string \<Rightarrow> jira_issue_view http_sx" where
  "service_unblock env lookup user key link_id =
     change_then_view env lookup user key (unblock_issue env key link_id)"

definition service_watch :: "jira_env \<Rightarrow> credential_lookup \<Rightarrow> int \<Rightarrow> string \<Rightarrow> jira_issue_view http_sx" where
  "service_watch env lookup user key = change_then_view env lookup user key (watch_issue env key)"

definition service_unwatch :: "jira_env \<Rightarrow> credential_lookup \<Rightarrow> int \<Rightarrow> string \<Rightarrow> jira_issue_view http_sx" where
  "service_unwatch env lookup user key = change_then_view env lookup user key (unwatch_issue env key)"

text \<open>The groups of the stand-up report.\<close>

datatype standup_group = Blocked | Closed | In_QA | In_Progress

definition standup_group :: "jira_issue_view \<Rightarrow> standup_group" where
  "standup_group i =
     (let st = py_lower (iv_status i) in
      if iv_is_flagged i \<or> iv_blocker_keys i \<noteq> [] then Blocked
      else if contains ''done'' st \<or> contains ''closed'' st \<or> contains ''resolved'' st then Closed
      else if contains ''qa'' st \<or> contains ''testing'' st \<or> contains ''review'' st then In_QA
      else In_Progress)"

definition group_issues :: "jira_issue_view list \<Rightarrow> standup_group \<Rightarrow> jira_issue_view list" where
  "group_issues issues g = filter (\<lambda>i. standup_group i = g) issues"

definition get_standup_summary :: "jira_env \<Rightarrow> credential_lookup \<Rightarrow> int \<Rightarrow>
    (jira_issue_view list \<times> jira_issue_view list \<times> jira_issue_view list \<times> jira_issue_view list) http_sx" where
  "get_standup_summary env lookup user =
     with_pat lookup user (\<lambda>pat. sx_bind (search_jql env pat standup_jql 30) (\<lambda>r.
       sx_return (group_issues (sr_issues r) Blocked, group_issues (sr_issues r) In_Progress,
                  group_issues (sr_issues r) In_QA, group_issues (sr_issues r) Closed)))"

section \<open>Cards\<close>

definition register_card :: "int \<Rightarrow> int \<Rightarrow> int \<Rightarrow> string \<Rightarrow> int \<Rightarrow> (repo, exn, unit) sx" where
  "register_card now chat msg key owner = repo_register_card_message now chat msg key owner"

text \<open>
  \<open>refresh_issue_cards\<close>: the result is the calls of \<open>updater\<close>.  An exception of one call is logged and the loop
  goes on, so how the calls end does not matter.
\<close>

definition refresh_issue_cards :: "string \<Rightarrow> (repo, exn, (int \<times> int) list) sx" where
  "refresh_issue_cards key =
     sx_bind (repo_get_card_messages key) (\<lambda>records. sx_return (map (\<lambda>(chat, msg, owner). (chat, msg)) records))"

section \<open>Notifications\<close>

text \<open>The repository and the notifications attempted so far: user, issue and comment.\<close>

record poll_world =
  pw_repo :: repo
  pw_sent :: "(int \<times> string \<times> string) list"

type_synonym 'a poll_sx = "(poll_world, exn, 'a) sx"

definition on_poll_repo :: "(repo, exn, 'a) sx \<Rightarrow> 'a poll_sx" where
  "on_poll_repo m = (\<lambda>w. case m (pw_repo w) of (r, s) \<Rightarrow> (r, w\<lparr>pw_repo := s\<rparr>))"

text \<open>The notifier is called after the new comment was recorded; \<open>notifier\<close> says how the call ends.\<close>

definition notify :: "(jira_issue_view \<Rightarrow> exn option) option \<Rightarrow> int \<Rightarrow> jira_issue_view \<Rightarrow> unit poll_sx" where
  "notify notifier user i = (\<lambda>w.
     (case notifier of
        None \<Rightarrow> (Inr (), w)
      | Some f \<Rightarrow>
          (case f i of None \<Rightarrow> Inr () | Some e \<Rightarrow> Inl e,
           w\<lparr>pw_sent := pw_sent w @ [(user, iv_issue_key i, iv_last_comment_summary i)]\<rparr>)))"

definition poll_issue :: "(jira_issue_view \<Rightarrow> exn option) option \<Rightarrow> int \<Rightarrow> jira_issue_view \<Rightarrow> unit poll_sx" where
  "poll_issue notifier user i =
     sx_bind (on_poll_repo (repo_get_last_notified user (iv_issue_key i))) (\<lambda>last_notified.
       if last_notified \<noteq> Some (iv_last_comment_summary i) then
         sx_bind (on_poll_repo (repo_record_notification user (iv_issue_key i) (iv_last_comment_summary i))) (\<lambda>_.
           if last_notified \<noteq> None then notify notifier user i else sx_return ())
       else sx_return ())"

text \<open>\<open>search\<close> is the outcome of \<open>search_my_open\<close>; every exception ends the poll silently.\<close>

definition poll_user_notifications ::
  "(jira_issue_view \<Rightarrow> exn option) option \<Rightarrow> int \<Rightarrow> exn + jira_search_result \<Rightarrow> poll_world \<Rightarrow> poll_world" where
  "poll_user_notifications notifier user search w =
     snd (sx_bind (sx_lift search) (\<lambda>r. sx_each (poll_issue notifier user) (sr_issues r)) w)"

section \<open>Without a credential nothing is sent\<close>

datatype issue_op =
    GetIssue string | Filter string int | Keywords string int | GetTransitions string
  | Transition string string "string option" | AddComment string string | Upload string string string string
  | Assign string string | Block string string "string option" | Unblock string string | Watch string | Unwatch string | Standup

abbreviation ignoring :: "'a http_sx \<Rightarrow> unit http_sx" where
  "ignoring m \<equiv> sx_bind m (\<lambda>_. sx_return ())"

fun run_issue_op :: "jira_env \<Rightarrow> credential_lookup \<Rightarrow> int \<Rightarrow> issue_op \<Rightarrow> unit http_sx" where
  "run_issue_op env lookup user (GetIssue key) = ignoring (service_get_issue env lookup user key)"
| "run_issue_op env lookup user (Filter name n) = ignoring (service_filter env lookup user name n)"
| "run_issue_op env lookup user (Keywords kw n) = ignoring (search_keywords env lookup user kw n)"
| "run_issue_op env lookup user (GetTransitions key) = ignoring (service_get_transitions env lookup user key)"
| "run_issue_op env lookup user (Transition key t c) = ignoring (service_transition env lookup user key t c)"
| "run_issue_op env lookup user (AddComment key c) = ignoring (service_add_comment env lookup user key c)"
| "run_issue_op env lookup user (Upload key f c m) = ignoring (service_upload env lookup user key f c m)"
| "run_issue_op env lookup user (Assign key a) = ignoring (service_assign env lookup user key a)"
| "run_issue_op env lookup user (Block key b r) = ignoring (service_block env lookup user key b r)"
| "run_issue_op env lookup user (Unblock key l) = ignoring (service_unblock env lookup user key l)"
| "run_issue_op env lookup user (Watch key) = ignoring (service_watch env lookup user key)"
| "run_issue_op env lookup user (Unwatch key) = ignoring (service_unwatch env lookup user key)"
| "run_issue_op env lookup user Standup = ignoring (get_standup_summary env lookup user)"

lemma no_credential_no_request:
  assumes "get_pat lookup user = Inl e"
  shows "run_issue_op env lookup user op w = (Inl e, w)"
  using assms
  by (cases op) (simp_all add: service_get_issue_def service_filter_def search_keywords_def service_get_transitions_def
    service_transition_def service_add_comment_def service_upload_def service_assign_def service_block_def service_unblock_def
    service_watch_def service_unwatch_def get_standup_summary_def)

text \<open>
  The issue service cannot act for anybody: with the credential store of the program, every operation of every user
  raises \<open>AttributeError\<close> before its first request.
\<close>

theorem issue_service_locked_out:
  "run_issue_op env user_store_lookup user op w = (Inl (OtherError ''AttributeError''), w)"
  by (rule no_credential_no_request) (simp add: get_pat_def user_store_lookup_def)

section \<open>Keywords in JQL\<close>

text \<open>How JQL reads a string literal after its opening quote: a backslash takes the next character literally.\<close>

fun scan_quoted :: "string \<Rightarrow> (string \<times> string) option" where
  "scan_quoted [] = None"
| "scan_quoted (c # cs) =
     (if c = CHR 0x22 then Some ([], cs)
      else if c = CHR 0x5C then (case cs of [] \<Rightarrow> None | d # ds \<Rightarrow> map_option (apfst ((#) d)) (scan_quoted ds))
      else map_option (apfst ((#) c)) (scan_quoted cs))"

lemma escape_keywords_simps [simp]:
  "escape_keywords [] = []"
  "escape_keywords (c # cs) = (if c = CHR 0x22 then CHR 0x5C # CHR 0x22 # escape_keywords cs else c # escape_keywords cs)"
  by (simp_all add: escape_keywords_def)

lemma scan_escaped: "CHR 0x5C \<notin> set kw \<Longrightarrow> scan_quoted (escape_keywords kw @ CHR 0x22 # rest) = Some (kw, rest)"
  by (induction kw) auto

text \<open>
  A keyword search asks for the keywords and nothing else as long as they have no backslash; with a backslash before a
  quote, what follows is read as a part of the query, outside of the string literal.
\<close>

theorem keyword_search_quoting:
  "(CHR 0x5C \<notin> set kw \<longrightarrow> scan_quoted (drop 8 (keyword_jql kw)) = Some (kw, '' AND resolution = Unresolved ORDER BY updated DESC'')) \<and>
   scan_quoted (drop 8 (keyword_jql (CHR 0x5C # CHR 0x22 # query))) =
     Some ([CHR 0x5C], escape_keywords query @ [CHR 0x22] @ '' AND resolution = Unresolved ORDER BY updated DESC'')"
  by (simp add: keyword_jql_def scan_escaped)

theorem keyword_search_quoting_witness:
  "scan_quoted (drop 8 (keyword_jql ''disk full'')) = Some (''disk full'', '' AND resolution = Unresolved ORDER BY updated DESC'')"
proof -
  have "CHR 0x5C \<notin> set ''disk full''" by simp
  with keyword_search_quoting [of "''disk full''" "[]"] show ?thesis by blast
qed

section \<open>The stand-up groups\<close>

lemma group_issues_count:
  "count_list (group_issues issues Blocked) i + count_list (group_issues issues In_Progress) i +
   count_list (group_issues issues In_QA) i + count_list (group_issues issues Closed) i = count_list issues i"
proof (induction issues)
  case (Cons x xs)
  then show ?case by (cases "standup_group x") (simp_all add: group_issues_def)
qed (simp add: group_issues_def)

section \<open>Notifications are not repeated\<close>

definition recorded :: "db \<Rightarrow> int \<Rightarrow> string \<Rightarrow> string option" where
  "recorded d user key = map_option n_last_updated (find_row notif_key (user, key) (db_notifications d))"

lemma find_row_upserted:
  assumes "sql_upsert check clash key r rows = Inr rows'"
  shows "find_row key k rows' = (if k = key r then Some r else find_row key k rows)"
proof -
  have "find_row key k (update_rows (\<lambda>x. key x = key r) (\<lambda>_. r) rows) =
    (if k = key r then if list_ex (\<lambda>x. key x = key r) rows then Some r else None else find_row key k rows)" for k
    by (induction rows) (auto simp: update_rows_def)
  moreover have "find_row key k (rows @ [r]) = (case find_row key k rows of None \<Rightarrow> if k = key r then Some r else None | Some x \<Rightarrow> Some x)"
    for k by (induction rows) auto
  moreover have "\<not> list_ex (\<lambda>x. key x = key r) rows \<Longrightarrow> find_row key (key r) rows = None"
    by (induction rows) auto
  ultimately show ?thesis using assms by (auto simp: sql_upsert_def split: if_splits option.splits)
qed

lemma upsert_notification:
  "\<exists>rows'. sql_upsert (\<lambda>_. True) notif_clash notif_key r rows = Inr rows'"
  by (auto simp: sql_upsert_def notif_clash_def list_ex_iff)

lemma record_notification_run:
  assumes "rp_initialized s"
  obtains d where "repo_record_notification user key c s = (Inr (), s\<lparr>rp_db := d\<rparr>)"
    and "\<And>u k. recorded d u k = (if u = user \<and> k = key then Some c else recorded (rp_db s) u k)"
proof -
  let ?r = "\<lparr>n_user_id = user, n_issue_key = key, n_last_updated = c\<rparr>"
  obtain rows where rows: "sql_upsert (\<lambda>_. True) notif_clash notif_key ?r (db_notifications (rp_db s)) = Inr rows"
    using upsert_notification by blast
  let ?d = "(rp_db s)\<lparr>db_notifications := rows\<rparr>"
  have "repo_record_notification user key c s = (Inr (), s\<lparr>rp_db := ?d\<rparr>)"
    using assms rows by (simp add: repo_record_notification_def repo_run_def record_notification_sync_def)
  moreover have "recorded ?d u k = (if u = user \<and> k = key then Some c else recorded (rp_db s) u k)" for u k
    using find_row_upserted[OF rows, of "(u, k)"] by (auto simp: recorded_def notif_key_def)
  ultimately show thesis by (rule that)
qed

lemma poll_issue_run:
  assumes "rp_initialized (pw_repo w)" and "poll_issue notifier user i w = (r, w')"
  shows "rp_initialized (pw_repo w') \<and>
    (let old = recorded (rp_db (pw_repo w)) user (iv_issue_key i); c = iv_last_comment_summary i in
     (\<forall>u k. recorded (rp_db (pw_repo w')) u k =
        (if u = user \<and> k = iv_issue_key i then Some c else recorded (rp_db (pw_repo w)) u k)) \<and>
     pw_sent w' = pw_sent w @ (if old \<noteq> None \<and> old \<noteq> Some c \<and> notifier \<noteq> None then [(user, iv_issue_key i, c)] else []) \<and>
     (notifier = None \<or> notifier = Some (\<lambda>_. None) \<longrightarrow> r = Inr ()))"
proof -
  let ?s = "pw_repo w" and ?key = "iv_issue_key i" and ?c = "iv_last_comment_summary i"
  let ?old = "recorded (rp_db ?s) user ?key"
  have get: "on_poll_repo (repo_get_last_notified user ?key) w = (Inr ?old, w)"
    using assms(1) by (simp add: on_poll_repo_def repo_get_last_notified_def repo_run_def get_last_notified_sync_def recorded_def)
  show ?thesis
  proof (cases "?old = Some ?c")
    case True
    with assms get show ?thesis by (auto simp: poll_issue_def sx_bind_def Let_def)
  next
    case False
    obtain d where rec: "repo_record_notification user ?key ?c ?s = (Inr (), ?s\<lparr>rp_db := d\<rparr>)"
      and d: "\<And>u k. recorded d u k = (if u = user \<and> k = ?key then Some ?c else recorded (rp_db ?s) u k)"
      by (rule record_notification_run[OF assms(1), of user ?key ?c]) blast
    have "on_poll_repo (repo_record_notification user ?key ?c) w = (Inr (), w\<lparr>pw_repo := ?s\<lparr>rp_db := d\<rparr>\<rparr>)"
      by (simp add: on_poll_repo_def rec)
    with False get assms(2) have run: "(if ?old \<noteq> None then notify notifier user i else sx_return ()) (w\<lparr>pw_repo := ?s\<lparr>rp_db := d\<rparr>\<rparr>) = (r, w')"
      by (simp add: poll_issue_def sx_bind_def)
    then show ?thesis using False assms(1) d
      by (cases notifier) (auto simp: notify_def Let_def split: if_splits)
  qed
qed

text \<open>
  The comment of the last notification about an issue is the one on record, and no two successive
  notifications about an issue carry the same comment.
\<close>

definition comments_sent :: "poll_world \<Rightarrow> int \<Rightarrow> string \<Rightarrow> string list" where
  "comments_sent w user key = map (snd \<circ> snd) (filter (\<lambda>(u, k, c). u = user \<and> k = key) (pw_sent w))"

definition notifications_ok :: "poll_world \<Rightarrow> bool" where
  "notifications_ok w \<longleftrightarrow> rp_initialized (pw_repo w) \<and>
     (\<forall>user key. let cs = comments_sent w user key in
        distinct_adj cs \<and> (cs \<noteq> [] \<longrightarrow> recorded (rp_db (pw_repo w)) user key = Some (last cs)))"

lemma poll_issue_ok:
  assumes "notifications_ok w" and "poll_issue (Some f) user i w = (r, w')"
  shows "notifications_ok w'"
proof -
  from assms(1) have init: "rp_initialized (pw_repo w)" by (simp add: notifications_ok_def)
  let ?old = "recorded (rp_db (pw_repo w)) user (iv_issue_key i)" and ?c = "iv_last_comment_summary i"
  let ?new = "if ?old \<noteq> None \<and> ?old \<noteq> Some ?c then [(user, iv_issue_key i, ?c)] else []"
  from poll_issue_run[OF init assms(2)] have run: "rp_initialized (pw_repo w')" "pw_sent w' = pw_sent w @ ?new"
    "\<And>u k. recorded (rp_db (pw_repo w')) u k = (if u = user \<and> k = iv_issue_key i then Some ?c else recorded (rp_db (pw_repo w)) u k)"
    by (simp_all add: Let_def)
  have "distinct_adj (comments_sent w' u k) \<and>
      (comments_sent w' u k \<noteq> [] \<longrightarrow> recorded (rp_db (pw_repo w')) u k = Some (last (comments_sent w' u k)))" for u k
  proof -
    let ?cs = "comments_sent w u k"
    from assms(1) have old: "distinct_adj ?cs" "?cs \<noteq> [] \<Longrightarrow> recorded (rp_db (pw_repo w)) u k = Some (last ?cs)"
      by (simp_all add: notifications_ok_def Let_def)
    have sent: "comments_sent w' u k =
        (if (u = user \<and> k = iv_issue_key i) \<and> (?old \<noteq> None \<and> ?old \<noteq> Some ?c) then ?cs @ [?c] else ?cs)"
      by (auto simp: comments_sent_def run(2))
    show ?thesis
    proof (cases "u = user \<and> k = iv_issue_key i")
      case False
      then have eq: "comments_sent w' u k = ?cs" "recorded (rp_db (pw_repo w')) u k = recorded (rp_db (pw_repo w)) u k"
        using sent run(3)[of u k] by auto
      show ?thesis unfolding eq using old by blast
    next
      case True
      with run(3) have rec: "recorded (rp_db (pw_repo w')) u k = Some ?c" by simp
      show ?thesis
      proof (cases "?old \<noteq> None \<and> ?old \<noteq> Some ?c")
        case False
        with sent have "comments_sent w' u k = ?cs" by argo
        with False old rec True show ?thesis by auto
      next
        case new: True
        with True sent have "comments_sent w' u k = ?cs @ [?c]" by argo
        with new old rec True show ?thesis by (auto simp: distinct_adj_append_iff)
      qed
    qed
  qed
  with run(1) show ?thesis by (simp add: notifications_ok_def Let_def)
qed

lemma poll_issues_ok:
  "notifications_ok w \<Longrightarrow> sx_each (poll_issue (Some f) user) is w = (r, w') \<Longrightarrow> notifications_ok w'"
proof (induction "is" arbitrary: w)
  case (Cons i "is")
  obtain x u where one: "poll_issue (Some f) user i w = (x, u)" by fastforce
  note ok = poll_issue_ok[OF Cons.prems(1) one]
  show ?case
  proof (cases x)
    case (Inl e)
    with one Cons.prems(2) ok show ?thesis by (simp add: sx_bind_def)
  next
    case (Inr y)
    with one Cons.prems(2) have "sx_each (poll_issue (Some f) user) is u = (r, w')" by (simp add: sx_bind_def)
    from Cons.IH[OF ok this] show ?thesis .
  qed
qed simp

lemma poll_ok: "notifications_ok w \<Longrightarrow> notifications_ok (poll_user_notifications (Some f) user search w)"
proof (cases search)
  case (Inr r)
  assume "notifications_ok w"
  moreover obtain x w' where "sx_each (poll_issue (Some f) user) (sr_issues r) w = (x, w')" by fastforce
  ultimately show ?thesis using poll_issues_ok[of w f user "sr_issues r" x w'] Inr
    by (simp add: poll_user_notifications_def)
qed (simp add: poll_user_notifications_def)

text \<open>A sequence of polls: who is polled, what the search gave, and how the notifier ends.\<close>

fun run_polls :: "(int \<times> (exn + jira_search_result) \<times> (jira_issue_view \<Rightarrow> exn option)) list \<Rightarrow> poll_world \<Rightarrow> poll_world" where
  "run_polls [] w = w"
| "run_polls ((user, search, f) # ps) w = run_polls ps (poll_user_notifications (Some f) user search w)"

lemma run_polls_ok: "notifications_ok w \<Longrightarrow> notifications_ok (run_polls ps w)"
  by (induction ps w rule: run_polls.induct) (simp_all add: poll_ok)

text \<open>
  C31. Nobody is told the same news twice in a row: over any polls of any users, with searches and notifiers that fail or not, two
  successive notifications to a user about an issue never carry the same comment.
\<close>

theorem notifications_not_repeated:
  assumes "rp_initialized s"
  shows "distinct_adj (comments_sent (run_polls ps \<lparr>pw_repo = s, pw_sent = []\<rparr>) user key)"
proof -
  have "notifications_ok \<lparr>pw_repo = s, pw_sent = []\<rparr>"
    using assms by (simp add: notifications_ok_def comments_sent_def)
  from run_polls_ok[OF this, of ps] show ?thesis by (simp add: notifications_ok_def Let_def)
qed

definition sample_issue :: "string \<Rightarrow> jira_issue_view" where
  "sample_issue comment = \<lparr>iv_issue_key = ''OPS-1'', iv_issue_id = ''1'', iv_summary = [], iv_status = ''Open'', iv_priority = [],
     iv_assignee = [], iv_reporter = [], iv_epic_key = [], iv_epic_name = [], iv_sprint_name = [], iv_is_flagged = False,
     iv_blocker_keys = [], iv_description = [], iv_issue_url = [], iv_last_comment_summary = comment, iv_updated_at = [],
     iv_is_watching = False\<rparr>"

abbreviation "sample_poll \<equiv> \<lambda>comment. (7, Inr \<lparr>sr_total = 1, sr_issues = [sample_issue comment], sr_jql = []\<rparr>, \<lambda>_. None)"

theorem notifications_not_repeated_witness:
  "let w = run_polls [sample_poll ''a'', sample_poll ''b'', sample_poll ''b'']
       \<lparr>pw_repo = \<lparr>rp_db = empty_db, rp_initialized = True\<rparr>, pw_sent = []\<rparr> in
   comments_sent w 7 ''OPS-1'' = [''b''] \<and> distinct_adj (comments_sent w 7 ''OPS-1'')"
proof -
  have "rp_initialized \<lparr>rp_db = empty_db, rp_initialized = True\<rparr>" by simp
  from notifications_not_repeated [OF this, of "[sample_poll ''a'', sample_poll ''b'', sample_poll ''b'']" 7 "''OPS-1''"]
  show ?thesis unfolding Let_def
    by (intro conjI) (simp add: poll_user_notifications_def poll_issue_def on_poll_repo_def sx_bind_def
      repo_get_last_notified_def repo_record_notification_def repo_run_def get_last_notified_sync_def record_notification_sync_def
      sql_upsert_def update_rows_def notif_key_def notif_clash_def sample_issue_def empty_db_def notify_def comments_sent_def)
qed

end
