(* ===== verification/Markup.thy ===== *)
theory Markup
  imports Prelude
begin

text \<open>
  Texts as lists of Unicode code points, \<open>html.escape\<close>, and how a client reads the HTML subset of Telegram messages: a
  scanner with the stack of open tags, the text shown so far and the mode it is in.  The cards of Rendering and the
  buttons of Keyboards are texts in this sense; strings of the other components embed by \<open>codes\<close>.
\<close>

named_theorems shown \<open>texts with well-formed markup\<close>

type_synonym utext = "nat list"

definition codes :: "string \<Rightarrow> utext" where
  "codes s = map of_char s"

lemma codes_simps [simp]:
  "codes [] = []" "codes (c # cs) = of_char c # codes cs" "codes (xs @ ys) = codes xs @ codes ys" "length (codes xs) = length xs"
  by (simp_all add: codes_def)

lemma codes_inject [simp]: "codes xs = codes ys \<longleftrightarrow> xs = ys"
  unfolding codes_def by (rule inj_map_eq_map) (metis injI of_char_eq_iff)

fun text_join :: "utext \<Rightarrow> utext list \<Rightarrow> utext" where
  "text_join sep [] = []"
| "text_join sep [x] = x"
| "text_join sep (x # y # zs) = x @ sep @ text_join sep (y # zs)"

lemma text_join_append: "xs \<noteq> [] \<Longrightarrow> ys \<noteq> [] \<Longrightarrow> text_join sep (xs @ ys) = text_join sep xs @ sep @ text_join sep ys"
proof (induction sep xs rule: text_join.induct)
  case (2 sep x)
  then show ?case by (cases ys) simp_all
qed simp_all

section \<open>Escaping\<close>

text \<open>\<open>text.replace\<close> for a single code point, and \<open>html.escape\<close> with its five replacements.\<close>

definition replace_code :: "nat \<Rightarrow> utext \<Rightarrow> utext \<Rightarrow> utext" where
  "replace_code c t s = concat (map (\<lambda>x. if x = c then t else [x]) s)"

definition py_escape :: "utext \<Rightarrow> utext" where
  "py_escape s =
     replace_code 0x27 (codes ''&#x27;'') (replace_code 0x22 (codes ''&quot;'') (replace_code 0x3E (codes ''&gt;'')
       (replace_code 0x3C (codes ''&lt;'') (replace_code 0x26 (codes ''&amp;'') s))))"

definition escape_code :: "nat \<Rightarrow> utext" where
  "escape_code c =
     (if c = 0x26 then codes ''&amp;'' else if c = 0x3C then codes ''&lt;'' else if c = 0x3E then codes ''&gt;''
      else if c = 0x22 then codes ''&quot;'' else if c = 0x27 then codes ''&#x27;'' else [c])"

lemma replace_code_simps [simp]:
  "replace_code c t [] = []" "replace_code c t (x # xs) = (if x = c then t else [x]) @ replace_code c t xs"
  "replace_code c t (xs @ ys) = replace_code c t xs @ replace_code c t ys"
  by (simp_all add: replace_code_def)

text \<open>The five replacements do not interfere: together they replace every code point once.\<close>

lemma py_escape_simps [simp]:
  "py_escape [] = []" "py_escape (x # xs) = escape_code x @ py_escape xs"
  by (simp_all add: py_escape_def escape_code_def)

lemma py_escape_eq: "py_escape s = concat (map escape_code s)"
  by (induction s) simp_all

lemma py_escape_append [simp]: "py_escape (xs @ ys) = py_escape xs @ py_escape ys"
  by (simp add: py_escape_eq)

lemma length_py_escape: "length (py_escape s) \<le> 6 * length s"
proof (induction s)
  case (Cons x xs)
  moreover have "length (escape_code x) \<le> 6" by (simp add: escape_code_def)
  ultimately show ?case by simp
qed simp

lemma py_escape_no_angle: "0x3C \<notin> set (py_escape s) \<and> 0x3E \<notin> set (py_escape s) \<and> 0x22 \<notin> set (py_escape s)"
  by (induction s) (auto simp: escape_code_def)

section \<open>Elements\<close>

definition element :: "string \<Rightarrow> utext \<Rightarrow> utext" where
  "element name t = codes ''<'' @ codes name @ codes ''>'' @ t @ codes ''</'' @ codes name @ codes ''>''"

abbreviation "bold \<equiv> element ''b''"
abbreviation "italic \<equiv> element ''i''"
abbreviation "code_text \<equiv> element ''code''"
abbreviation "preformatted \<equiv> element ''pre''"

text \<open>\<open><a href="...">...</a>\<close>; the address is already escaped.\<close>

definition link_to :: "utext \<Rightarrow> utext \<Rightarrow> utext" where
  "link_to url t = codes ''<a href='' @ [0x22] @ url @ [0x22] @ codes ''>'' @ t @ codes ''</a>''"

section \<open>How a client reads a message\<close>

datatype scan_mode = Plain | In_Tag utext | In_Entity utext

type_synonym scan_state = "utext list \<times> utext \<times> scan_mode"

definition entity_code :: "utext \<Rightarrow> nat option" where
  "entity_code e = map_of [(codes ''amp'', 0x26), (codes ''lt'', 0x3C), (codes ''gt'', 0x3E), (codes ''quot'', 0x22), (codes ''#x27'', 0x27)] e"

text \<open>The end of a tag: an opening one is pushed by its name, a closing one must match the innermost open one.\<close>

fun end_tag :: "utext \<Rightarrow> utext list \<Rightarrow> utext \<Rightarrow> scan_state option" where
  "end_tag [] st out = None"
| "end_tag (c # cs) st out =
     (if c = 0x2F then (case st of [] \<Rightarrow> None | n # ns \<Rightarrow> if n = cs then Some (ns, out, Plain) else None)
      else Some (takeWhile (\<lambda>x. x \<noteq> 0x20) (c # cs) # st, out, Plain))"

fun scan_step :: "scan_state \<Rightarrow> nat \<Rightarrow> scan_state option" where
  "scan_step (st, out, Plain) c =
     (if c = 0x3C then Some (st, out, In_Tag []) else if c = 0x26 then Some (st, out, In_Entity [])
      else if c = 0x3E then None else Some (st, out @ [c], Plain))"
| "scan_step (st, out, In_Tag t) c =
     (if c = 0x3E then end_tag t st out else if c = 0x3C then None else Some (st, out, In_Tag (t @ [c])))"
| "scan_step (st, out, In_Entity e) c =
     (if c = 0x3B then map_option (\<lambda>x. (st, out @ [x], Plain)) (entity_code e)
      else if c = 0x3C \<or> c = 0x3E \<or> c = 0x26 then None else Some (st, out, In_Entity (e @ [c])))"

fun scan :: "scan_state \<Rightarrow> utext \<Rightarrow> scan_state option" where
  "scan s [] = Some s"
| "scan s (c # cs) = (case scan_step s c of None \<Rightarrow> None | Some s' \<Rightarrow> scan s' cs)"

text \<open>
  The text of a message once its markup is read: \<open>None\<close> when a tag or an entity is broken or a tag is left open.  This
  specifies the markup only.  Telegram also refuses a message whose text is empty or longer than 4096 characters; statements
  about those bounds speak of the length of the text seen.
\<close>

definition reader_sees :: "utext \<Rightarrow> utext option" where
  "reader_sees x = (case scan ([], [], Plain) x of Some ([], v, Plain) \<Rightarrow> Some v | _ \<Rightarrow> None)"

lemma scan_append: "scan s (xs @ ys) = (case scan s xs of None \<Rightarrow> None | Some s' \<Rightarrow> scan s' ys)"
  by (induction xs arbitrary: s) (simp_all split: option.splits)

text \<open>A fragment that shows a text in every context.\<close>

definition displays :: "utext \<Rightarrow> utext \<Rightarrow> bool" where
  "displays x v \<longleftrightarrow> (\<forall>st out. scan (st, out, Plain) x = Some (st, out @ v, Plain))"

lemma reader_sees_displays: "displays x v \<Longrightarrow> reader_sees x = Some v"
  by (simp add: displays_def reader_sees_def)

lemma displays_Nil: "displays [] []"
  by (simp add: displays_def)

lemma displays_append: "displays x v \<Longrightarrow> displays y w \<Longrightarrow> displays (x @ y) (v @ w)"
  by (simp add: displays_def scan_append)

abbreviation ordinary :: "nat \<Rightarrow> bool" where
  "ordinary c \<equiv> c \<noteq> 0x3C \<and> c \<noteq> 0x26 \<and> c \<noteq> 0x3E"

lemma displays_ordinary: "list_all ordinary x \<Longrightarrow> displays x x"
proof (induction x)
  case (Cons c x)
  then have "displays [c] [c]" "displays x x" by (simp_all add: displays_def)
  from displays_append[OF this] show ?case by simp
qed (rule displays_Nil)

lemma displays_code: "displays (escape_code c) [c]"
proof -
  have "ordinary c \<Longrightarrow> displays [c] [c]" by (rule displays_ordinary) simp
  then show ?thesis by (simp add: escape_code_def displays_def entity_code_def)
qed

lemma displays_escape: "displays (py_escape s) s"
proof (induction s)
  case (Cons c s)
  from displays_append[OF displays_code this, of c] show ?case by simp
qed (simp add: displays_Nil)

lemma scan_in_tag: "0x3C \<notin> set n \<Longrightarrow> 0x3E \<notin> set n \<Longrightarrow> scan (st, out, In_Tag t) (n @ r) = scan (st, out, In_Tag (t @ n)) r"
  by (induction n arbitrary: t) auto

lemma displays_element:
  assumes "displays t v" and "0x3C \<notin> set (codes name)" "0x3E \<notin> set (codes name)" "0x20 \<notin> set (codes name)"
    and "name \<noteq> []" "hd (codes name) \<noteq> 0x2F"
  shows "displays (element name t) v"
proof -
  have "takeWhile (\<lambda>x. x \<noteq> 0x20) (codes name) = codes name" using assms(4) by (auto simp: takeWhile_eq_all_conv)
  moreover obtain c cs where n: "codes name = c # cs" "c \<noteq> 0x2F" using assms(5,6) by (cases name) auto
  ultimately have t: "takeWhile (\<lambda>x. x \<noteq> 0x20) (c # cs) = codes name" by simp
  have "scan (st, out, Plain) (element name t) = Some (st, out @ v, Plain)" for st out
  proof -
    have "scan (st, out, Plain) (element name t) = scan (codes name # st, out, Plain) (t @ codes ''</'' @ codes name @ codes ''>'')"
      using n t scan_in_tag[OF assms(2,3), of st out "[]"] by (simp add: element_def)
    also have "\<dots> = scan (codes name # st, out @ v, In_Tag [0x2F]) (codes name @ codes ''>'')"
      using assms(1) by (simp add: displays_def scan_append)
    also have "\<dots> = Some (st, out @ v, Plain)"
      using scan_in_tag[OF assms(2,3), of "codes name # st" "out @ v" "[0x2F]" "codes ''>''"] by simp
    finally show ?thesis .
  qed
  then show ?thesis by (simp add: displays_def)
qed

lemma displays_link:
  assumes "displays t v"
  shows "displays (link_to (py_escape url) t) v"
proof -
  have "scan (st, out, Plain) (link_to (py_escape url) t) = Some (st, out @ v, Plain)" for st out
  proof -
    have "scan (st, out, Plain) (link_to (py_escape url) t) =
        scan (st, out, In_Tag (codes ''a href='' @ [0x22])) (py_escape url @ [0x22] @ codes ''>'' @ t @ codes ''</a>'')"
      by (simp add: link_to_def)
    also have "\<dots> = scan (codes ''a'' # st, out, Plain) (t @ codes ''</a>'')"
      using scan_in_tag[of "py_escape url" st out "codes ''a href='' @ [0x22]"] py_escape_no_angle[of url] by simp
    also have "\<dots> = Some (st, out @ v, Plain)"
      using assms by (simp add: displays_def scan_append)
    finally show ?thesis .
  qed
  then show ?thesis by (simp add: displays_def)
qed

text \<open>Fragments with well-formed markup, whatever they show.\<close>

definition displayable :: "utext \<Rightarrow> bool" where
  "displayable x \<longleftrightarrow> (\<exists>v. displays x v)"

lemma reader_sees_displayable: "displayable x \<Longrightarrow> reader_sees x \<noteq> None"
  by (auto simp: displayable_def dest: reader_sees_displays)

lemma displayable_append [shown]: "displayable x \<Longrightarrow> displayable y \<Longrightarrow> displayable (x @ y)"
  by (auto simp: displayable_def intro: displays_append)

lemma displayable_escape [shown]: "displayable (py_escape s)"
  by (auto simp: displayable_def intro: displays_escape)

lemma displayable_link [shown]: "displayable t \<Longrightarrow> displayable (link_to (py_escape url) t)"
  by (auto simp: displayable_def intro: displays_link)

lemma displayable_elements [shown]:
  assumes "displayable t"
  shows "displayable (bold t)" "displayable (italic t)" "displayable (code_text t)" "displayable (preformatted t)"
proof -
  from assms obtain v where "displays t v" by (auto simp: displayable_def)
  then have "displays (bold t) v" "displays (italic t) v" "displays (code_text t) v" "displays (preformatted t) v"
    by (auto intro!: displays_element)
  then show "displayable (bold t)" "displayable (italic t)" "displayable (code_text t)" "displayable (preformatted t)"
    by (auto simp: displayable_def)
qed

lemma displayable_ordinary: "list_all ordinary x \<Longrightarrow> displayable x"
  by (auto simp: displayable_def intro: displays_ordinary)

lemma displayable_if [shown]: "(P \<Longrightarrow> displayable x) \<Longrightarrow> (\<not> P \<Longrightarrow> displayable y) \<Longrightarrow> displayable (if P then x else y)"
  by simp

lemma displayable_join: "displayable sep \<Longrightarrow> list_all displayable xs \<Longrightarrow> displayable (text_join sep xs)"
proof (induction sep xs rule: text_join.induct)
  case (1 sep)
  show ?case by (auto simp: displayable_def intro: displays_Nil)
next
  case (3 sep x y zs)
  then have "displayable x" "displayable sep" "displayable (text_join sep (y # zs))" by simp_all
  then show ?case by (simp add: displayable_append)
qed simp

text \<open>Fragments that show at least so many characters.\<close>

definition shows_at_least :: "nat \<Rightarrow> utext \<Rightarrow> bool" where
  "shows_at_least n x \<longleftrightarrow> (\<exists>v. displays x v \<and> n \<le> length v)"

lemma shows_at_least_displayable: "displayable x \<Longrightarrow> shows_at_least 0 x"
  by (simp add: displayable_def shows_at_least_def)

lemma reader_sees_at_least: "shows_at_least n x \<Longrightarrow> \<exists>v. reader_sees x = Some v \<and> n \<le> length v"
  by (auto simp: shows_at_least_def dest: reader_sees_displays)

lemma shows_at_least_append: "shows_at_least m x \<Longrightarrow> shows_at_least n y \<Longrightarrow> shows_at_least (m + n) (x @ y)"
  unfolding shows_at_least_def by (metis add_mono displays_append length_append)

lemma shows_at_least_front: "shows_at_least n x \<Longrightarrow> displayable y \<Longrightarrow> shows_at_least n (x @ y)"
  using shows_at_least_append[OF _ shows_at_least_displayable] by fastforce

lemma shows_at_least_end: "displayable x \<Longrightarrow> shows_at_least n y \<Longrightarrow> shows_at_least n (x @ y)"
  using shows_at_least_append[OF shows_at_least_displayable] by fastforce

lemma shows_at_least_ordinary: "list_all ordinary x \<Longrightarrow> n \<le> length x \<Longrightarrow> shows_at_least n x"
  by (auto simp: shows_at_least_def intro: displays_ordinary)

lemma shows_at_least_escape: "shows_at_least (length s) (py_escape s)"
  by (auto simp: shows_at_least_def intro: displays_escape)

lemma shows_at_least_link: "shows_at_least n t \<Longrightarrow> shows_at_least n (link_to (py_escape url) t)"
  by (auto simp: shows_at_least_def intro: displays_link)

lemma shows_at_least_elements:
  assumes "shows_at_least n t"
  shows "shows_at_least n (bold t)" "shows_at_least n (italic t)" "shows_at_least n (code_text t)"
proof -
  from assms obtain v where v: "displays t v" "n \<le> length v" by (auto simp: shows_at_least_def)
  then have "displays (bold t) v" "displays (italic t) v" "displays (code_text t) v"
    by (auto intro!: displays_element)
  with v show "shows_at_least n (bold t)" "shows_at_least n (italic t)" "shows_at_least n (code_text t)"
    by (auto simp: shows_at_least_def)
qed

text \<open>Every line of a joined list is shown.\<close>

lemma shows_at_least_join:
  assumes "displayable sep" and "\<And>x. shows_at_least (g x) (f x)"
  shows "shows_at_least (\<Sum>x\<leftarrow>xs. g x) (text_join sep (map f xs))"
proof (induction xs rule: induct_list012)
  case 1
  show ?case by (simp add: shows_at_least_def) (metis displays_Nil)
next
  case (2 x)
  then show ?case using assms(2) by simp
next
  case (3 x y zs)
  have "shows_at_least (g x + (0 + (\<Sum>x\<leftarrow>y # zs. g x))) (f x @ sep @ text_join sep (map f (y # zs)))"
    using 3(2) by (intro shows_at_least_append assms(2) shows_at_least_displayable assms(1))
  then show ?case by simp
qed

lemma shows_at_least_lines:
  assumes "displayable sep" and "list_all displayable as" and "list_all displayable bs" and "\<And>x. shows_at_least (g x) (f x)"
  shows "shows_at_least (\<Sum>x\<leftarrow>xs. g x) (text_join sep (as @ map f xs @ bs))"
proof (cases "xs = []")
  case True
  with assms(1-3) show ?thesis by (simp add: shows_at_least_displayable displayable_join)
next
  case False
  have xs: "shows_at_least (\<Sum>x\<leftarrow>xs. g x) (text_join sep (map f xs))"
    by (rule shows_at_least_join[OF assms(1,4)])
  have "shows_at_least (\<Sum>x\<leftarrow>xs. g x) (text_join sep (map f xs @ bs))"
  proof (cases "bs = []")
    case bs: False
    with False assms(1,3) show ?thesis
      by (subst text_join_append) (auto intro!: shows_at_least_front xs displayable_append displayable_join)
  qed (use xs in simp)
  then show ?thesis
  proof (cases "as = []")
    case as: False
    with False show ?thesis
      by (subst text_join_append)
        (auto intro!: shows_at_least_end displayable_join assms \<open>shows_at_least _ (text_join sep (map f xs @ bs))\<close>)
  qed simp
qed

section \<open>Cuts inside an element\<close>

text \<open>Without an angle bracket no tag is opened or closed.\<close>

lemma scan_keeps_stack:
  "\<lbrakk>scan (st, out, m) x = Some (st', out', m'); 0x3C \<notin> set x; \<And>t. m \<noteq> In_Tag t\<rbrakk> \<Longrightarrow> st' = st"
proof (induction x arbitrary: out m)
  case (Cons c x)
  then obtain out2 m2 where "scan_step (st, out, m) c = Some (st, out2, m2)" "scan (st, out2, m2) x = Some (st', out', m')"
    "\<And>t. m2 \<noteq> In_Tag t"
    by (cases m) (auto split: option.splits if_splits)
  with Cons.IH[of out2 m2] Cons.prems(2) show ?case by simp
qed simp

lemma cut_in_element:
  assumes "displayable p" and "0x3C \<notin> set x"
  shows "reader_sees (p @ codes ''<pre>'' @ x) = None"
proof -
  obtain v where "displays p v" using assms(1) by (auto simp: displayable_def)
  then have *: "scan ([], [], Plain) (p @ codes ''<pre>'' @ x) = scan ([codes ''pre''], v, Plain) x"
    by (simp add: displays_def scan_append)
  show ?thesis
  proof (cases "scan ([codes ''pre''], v, Plain) x")
    case (Some s)
    then obtain st out m where s: "scan ([codes ''pre''], v, Plain) x = Some (st, out, m)" by (cases s) auto
    from scan_keeps_stack[OF this assms(2)] have "st = [codes ''pre'']" by simp
    with s * show ?thesis by (simp add: reader_sees_def del: codes_simps(2))
  qed (simp add: reader_sees_def * del: codes_simps(2))
qed

end
