(* ===== verification/Rendering.thy ===== *)
theory Rendering
  imports Markup Models Callbacks
begin

text \<open>
  The cards of \<open>src/src/dztgbot/ui/rendering.py\<close>: every formatter of a message in the HTML subset of Telegram.  Constants
  outside ASCII are written as code points.  A title and an error summary given by a caller are texts; the fields of drafts and
  issues are strings.
\<close>

section \<open>Escaping and truncation\<close>

definition TELEGRAM_MESSAGE_LIMIT :: nat where
  "TELEGRAM_MESSAGE_LIMIT = 4096"

definition html_escape :: "utext option \<Rightarrow> utext" where
  "html_escape t = (case t of None \<Rightarrow> [] | Some s \<Rightarrow> py_escape s)"

abbreviation esc :: "string \<Rightarrow> utext" where
  "esc s \<equiv> html_escape (Some (codes s))"

text \<open>\<open>text[:m]\<close>, where a negative bound counts from the end, and \<open>truncate_text\<close>.\<close>

definition slice_to :: "int \<Rightarrow> 'a list \<Rightarrow> 'a list" where
  "slice_to m t = (if 0 \<le> m then take (nat m) t else take (length t - nat (- m)) t)"

definition truncate_text :: "utext \<Rightarrow> nat \<Rightarrow> utext" where
  "truncate_text t max_chars =
     (if length t \<le> max_chars then t else slice_to (int max_chars - 14) t @ (codes ''...[truncated]''))"

abbreviation newline :: utext where
  "newline \<equiv> [0x0A]"

definition number :: "nat \<Rightarrow> utext" where
  "number n = codes (decimal n)"

definition number_int :: "int \<Rightarrow> utext" where
  "number_int i = codes (decimal_int i)"

section \<open>Draft cards\<close>

definition draft_header :: "draft \<Rightarrow> utext option \<Rightarrow> utext" where
  "draft_header d title =
     (case title of Some (c # cs) \<Rightarrow> c # cs
      | _ \<Rightarrow> bold (([0x1F4CB] @ codes '' '' @ [0x5DE5, 0x55AE, 0x8349, 0x7A3F] @ codes '' Preview (Rev '') @ number_int (d_revision d) @ (codes '')'')))"

definition draft_lines :: "draft \<Rightarrow> utext option \<Rightarrow> utext list" where
  "draft_lines d title =
     [draft_header d title,
      bold (codes ''Draft ID:'') @ (codes '' '') @ code_text (esc (d_draft_id d)),
      bold ([0x72C0, 0x614B] @ codes '':'') @ (codes '' '') @ code_text (esc (state_value (d_state d)))]"

definition template_lines :: "jira_template \<Rightarrow> utext list" where
  "template_lines t =
     [bold (codes ''Project:'') @ (codes '' '') @ code_text (esc (jt_project_key t)),
      bold (codes ''Type:'') @ (codes '' '') @ code_text (esc (jt_issue_type t)),
      bold (codes ''Priority:'') @ (codes '' '') @ code_text (esc (jt_priority t)),
      bold (codes ''Summary:'') @ (codes '' '') @ esc (jt_summary t)]"

definition description_line :: "jira_template \<Rightarrow> utext" where
  "description_line t =
     bold (codes ''Description:'') @ newline @ preformatted (html_escape (Some (truncate_text (codes (jt_description t)) 800)))"

definition detail_lines :: "jira_template \<Rightarrow> utext list" where
  "detail_lines t =
     (if jt_labels t = [] then [] else [bold (codes ''Labels:'') @ (codes '' '') @ text_join (codes '', '') (map esc (jt_labels t))]) @
     (if jt_components t = [] then [] else [bold (codes ''Components:'') @ (codes '' '') @ text_join (codes '', '') (map esc (jt_components t))]) @
     (if jt_assignee t = [] then [] else [bold (codes ''Assignee:'') @ (codes '' '') @ code_text (esc (jt_assignee t))]) @
     (if jt_acceptance_criteria t = [] then []
      else [bold (codes ''Acceptance Criteria:'') @ newline @
            text_join newline (map (\<lambda>ac. ([0x2022] @ codes '' '') @ esc ac) (jt_acceptance_criteria t))])"

definition closing_lines :: "draft \<Rightarrow> utext list" where
  "closing_lines d =
     (if d_attachments d = [] then []
      else [bold ([0x9644, 0x4EF6, 0x6578, 0x91CF] @ codes '':'') @ (codes '' '') @ number (length (d_attachments d)) @ (codes '' '' @ [0x500B, 0x6A94, 0x6848])]) @
     (case d_last_error d of
        Some (c # cs) \<Rightarrow> [bold ([0x6700, 0x8FD1, 0x932F, 0x8AA4] @ codes '':'') @ (codes '' '') @ code_text (esc (c # cs))]
      | _ \<Rightarrow> [])"

definition draft_card_text :: "draft \<Rightarrow> utext option \<Rightarrow> utext" where
  "draft_card_text d title =
     text_join newline
       (draft_lines d title @
        (case d_template d of None \<Rightarrow> []
         | Some t \<Rightarrow> template_lines t @ (if jt_description t = [] then [] else [description_line t]) @ detail_lines t) @
        closing_lines d)"

definition render_draft_card :: "draft \<Rightarrow> utext option \<Rightarrow> utext" where
  "render_draft_card d title =
     (let full_output = draft_card_text d title in
      if length full_output > TELEGRAM_MESSAGE_LIMIT
      then take (TELEGRAM_MESSAGE_LIMIT - 20) full_output @ ([0xA] @ codes ''...[truncated]'')
      else full_output)"

section \<open>Submission cards\<close>

definition draft_id_line :: "draft \<Rightarrow> utext" where
  "draft_id_line d = bold (codes ''Draft ID:'') @ (codes '' '') @ code_text (esc (d_draft_id d))"

definition render_submission_progress :: "draft \<Rightarrow> utext" where
  "render_submission_progress d =
     bold ([0x1F680] @ codes '' '' @ [0x5DE5, 0x55AE, 0x63D0, 0x4EA4, 0x4E2D] @ codes ''...'') @ newline @ draft_id_line d @ newline @ ([0x8ACB, 0x7A0D, 0x5019, 0xFF0C, 0x6B63, 0x5728, 0x8207] @ codes '' Jira '' @ [0x4F3A, 0x670D, 0x5668, 0x901A, 0x8A0A, 0x3002])"

definition render_published_card :: "draft \<Rightarrow> published_issue \<Rightarrow> utext" where
  "render_published_card d i =
     text_join newline
       ([bold ([0x1F389] @ codes '' '' @ [0x5DE5, 0x55AE, 0x5DF2, 0x6210, 0x529F, 0x5EFA, 0x7ACB, 0xFF01]) @ newline,
         bold (codes ''Issue Key:'') @ (codes '' '') @ link_to (esc (pi_issue_url i)) (bold (esc (pi_issue_key i))),
         bold (codes ''Issue ID:'') @ (codes '' '') @ code_text (esc (pi_issue_id i)),
         draft_id_line d] @
        (case d_template d of None \<Rightarrow> [] | Some t \<Rightarrow> [bold (codes ''Summary:'') @ (codes '' '') @ esc (jt_summary t)]) @
        (if d_attachments d = [] then []
         else [bold ([0x9644, 0x4EF6, 0x8655, 0x7406] @ codes '':'') @ (codes '' '' @ [0x5DF2, 0x8655, 0x7406] @ codes '' '') @ number (length (d_attachments d)) @ (codes '' '' @ [0x500B, 0x9644, 0x4EF6])]))"

text \<open>The values of the changed fields are given as the texts \<open>str(value)\<close>.\<close>

definition render_published_update_card :: "draft \<Rightarrow> (string \<times> utext) list \<Rightarrow> utext" where
  "render_published_update_card d changed_fields =
     text_join newline
       ([bold (([0x1F4DD] @ codes '' '' @ [0x8B8A, 0x66F4, 0x767C, 0x5E03, 0x5DE5, 0x55AE, 0x78BA, 0x8A8D] @ codes '': '') @
           esc (case d_published_issue d of None \<Rightarrow> ''UNKNOWN'' | Some i \<Rightarrow> pi_issue_key i)),
         draft_id_line d,
         bold ([0x8B8A, 0x66F4, 0x6B04, 0x4F4D] @ codes '':'')] @
        map (\<lambda>(key, v). ([0x2022] @ codes '' '') @ code_text (esc key) @ (codes '': '') @ html_escape (Some v)) changed_fields)"

definition render_cancelled_card :: "draft \<Rightarrow> utext" where
  "render_cancelled_card d = bold ([0x274C] @ codes '' '' @ [0x5DE5, 0x55AE, 0x8349, 0x7A3F, 0x5DF2, 0x53D6, 0x6D88, 0x3002]) @ newline @ draft_id_line d"

definition render_expired_card :: "draft \<Rightarrow> utext" where
  "render_expired_card d = bold ([0x23F0] @ codes '' '' @ [0x5DE5, 0x55AE, 0x8349, 0x7A3F, 0x5DF2, 0x904E, 0x671F, 0x3002]) @ newline @ draft_id_line d"

definition non_empty_or :: "utext option \<Rightarrow> utext \<Rightarrow> utext" where
  "non_empty_or t e = (case t of Some (c # cs) \<Rightarrow> c # cs | _ \<Rightarrow> e)"

definition render_submission_error_card :: "draft \<Rightarrow> utext option \<Rightarrow> utext" where
  "render_submission_error_card d error_summary =
     bold ([0x26A0, 0xFE0F] @ codes '' '' @ [0x5DE5, 0x55AE, 0x63D0, 0x4EA4, 0x5931, 0x6557, 0xFF08, 0x53EF, 0x91CD, 0x8A66, 0xFF09]) @ newline @ draft_id_line d @ newline @
     bold ([0x932F, 0x8AA4, 0x539F, 0x56E0] @ codes '':'') @ (codes '' '') @
     code_text (html_escape (Some (non_empty_or error_summary
       (non_empty_or (map_option codes (d_last_error d)) ([0x672A, 0x77E5, 0x7684, 0x7DB2, 0x8DEF, 0x6216, 0x4F3A, 0x670D, 0x5668, 0x932F, 0x8AA4]))))) @
     newline @ newline @ ([0x60A8, 0x53EF, 0x4EE5, 0x9EDE, 0x64CA, 0x4E0B, 0x65B9, 0x6309, 0x9215, 0x91CD, 0x8A66, 0x63D0, 0x4EA4, 0x6216, 0x53D6, 0x6D88, 0x8349, 0x7A3F, 0x3002])"

definition render_unknown_outcome_card :: "draft \<Rightarrow> utext" where
  "render_unknown_outcome_card d =
     bold ([0x2753] @ codes '' '' @ [0x5DE5, 0x55AE, 0x63D0, 0x4EA4, 0x72C0, 0x614B, 0x672A, 0x77E5, 0xFF08, 0x9700, 0x8ABF, 0x67E5, 0x8ABF, 0x548C, 0xFF09]) @ newline @ draft_id_line d @ newline @
     bold ([0x7D30, 0x7BC0] @ codes '':'') @ (codes '' '') @
     code_text (html_escape (Some (non_empty_or (map_option codes (d_last_error d)) ([0x9023, 0x7DDA, 0x903E, 0x6642, 0xFF0C, 0x63D0, 0x4EA4, 0x7D50, 0x679C, 0x672A, 0x77E5])))) @
     newline @ newline @ ([0x70BA, 0x4E86, 0x9632, 0x6B62, 0x91CD, 0x8907, 0x5EFA, 0x7ACB, 0x5DE5, 0x55AE, 0xFF0C, 0x8ACB, 0x9EDE, 0x64CA, 0x300C, 0x8ABF, 0x67E5] @ codes ''/'' @ [0x8ABF, 0x548C, 0x300D, 0x6309, 0x9215, 0x78BA, 0x8A8D] @ codes '' Jira '' @ [0x7AEF, 0x7684, 0x5EFA, 0x7ACB, 0x7D50, 0x679C, 0x3002])"

definition render_safe_feedback :: "utext \<Rightarrow> utext" where
  "render_safe_feedback message = bold (codes ''Notice:'') @ (codes '' '') @ html_escape (Some message)"

definition render_private_only_warning :: utext where
  "render_private_only_warning = ([0x26A0, 0xFE0F] @ codes '' '') @ bold ([0x5B89, 0x5168, 0x63D0, 0x793A] @ codes '':'') @ (codes '' '' @ [0x6B64, 0x6A5F, 0x5668, 0x4EBA, 0x50C5, 0x9650, 0x79C1, 0x8A0A, 0xFF08] @ codes ''Private Chat'' @ [0xFF09, 0x4F7F, 0x7528, 0x3002])"

section \<open>Issue cards\<close>

definition blocker_text :: "jira_issue_view \<Rightarrow> utext" where
  "blocker_text i =
     (if iv_blocker_keys i \<noteq> [] then
        newline @ ([0x26A0, 0xFE0F] @ codes '' '') @ bold ((codes ''Blocked by '') @ html_escape (Some (text_join (codes '', '') (map codes (iv_blocker_keys i))))) @
        (if iv_is_flagged i then (codes '' '' @ [0xB7] @ codes '' '') @ bold (codes ''Flagged'') else [])
      else if iv_is_flagged i then newline @ ([0x26A0, 0xFE0F] @ codes '' '') @ bold (codes ''Flagged (Impediment)'') else [])"

definition context_text :: "jira_issue_view \<Rightarrow> utext" where
  "context_text i =
     (let parts = (if iv_epic_key i = [] then [] else [(codes ''Epic: '') @ esc (iv_epic_key i)]) @
                  (if iv_sprint_name i = [] then [] else [(codes ''Sprint: '') @ esc (iv_sprint_name i)]) in
      if parts = [] then [] else newline @ text_join (codes '' | '') parts)"

definition render_issue_card :: "jira_issue_view \<Rightarrow> utext option \<Rightarrow> utext" where
  "render_issue_card i header_title =
     (case header_title of Some (c # cs) \<Rightarrow> bold (html_escape (Some (c # cs))) @ newline | _ \<Rightarrow> []) @
     bold (link_to (esc (iv_issue_url i)) (esc (iv_issue_key i))) @ (codes ''  '' @ [0x25CF] @ codes ''  '') @ bold (esc (iv_status i)) @ (codes ''  '' @ [0x25CF] @ codes ''  '') @
     bold (esc (iv_priority i)) @ newline @
     bold (esc (iv_summary i)) @ newline @
     (codes ''Assignee: '') @ (if iv_assignee i = [] then italic (codes ''Unassigned'') else esc (iv_assignee i)) @ (codes '' | Reporter: '') @
     (if iv_reporter i = [] then italic (codes ''Unknown'') else esc (iv_reporter i)) @
     context_text i @ blocker_text i @
     (if iv_last_comment_summary i = [] then [] else newline @ ([0x1F4AC] @ codes '' '') @ italic (esc (iv_last_comment_summary i)))"

section \<open>Search results\<close>

definition render_search_results :: "jira_search_result \<Rightarrow> utext \<Rightarrow> utext" where
  "render_search_results r title =
     (if length (sr_issues r) = 0
      then ([0x1F50D] @ codes '' '') @ bold (html_escape (Some title)) @ newline @ newline @ italic (codes ''No open issues found matching query.'')
      else ([0x1F50D] @ codes '' '') @ bold (html_escape (Some title)) @ (codes '' (Found '') @ number_int (sr_total r) @ (codes '' open issues, showing '') @
        number (length (sr_issues r)) @ (codes ''):''))"

text \<open>
  The page of a list of \<open>n\<close> entries: the number of pages, the page shown (the wanted one, clamped) and the index of its first
  entry.  Every caller leaves the page size at its default.
\<close>

definition per_page :: nat where
  "per_page = 5"

definition total_pages :: "nat \<Rightarrow> nat" where
  "total_pages n = max 1 ((n + per_page - 1) div per_page)"

definition current_page :: "int \<Rightarrow> nat \<Rightarrow> nat" where
  "current_page page n = nat (max 1 (min page (int (total_pages n))))"

definition start_index :: "int \<Rightarrow> nat \<Rightarrow> nat" where
  "start_index page n = (current_page page n - 1) * per_page"

definition page_of :: "int \<Rightarrow> 'a list \<Rightarrow> (nat \<times> 'a) list" where
  "page_of page xs =
     (let start = start_index page (length xs); stop = min (start + per_page) (length xs) in
      enumerate (start + 1) (drop start (take stop xs)))"

definition issue_link :: "jira_issue_view \<Rightarrow> utext" where
  "issue_link i = bold (link_to (esc (iv_issue_url i)) (esc (iv_issue_key i)))"

definition render_compact_search_list :: "jira_search_result \<Rightarrow> utext \<Rightarrow> int \<Rightarrow> utext" where
  "render_compact_search_list r title page =
     (let n = length (sr_issues r) in
      if n = 0 then ([0x1F50D] @ codes '' '') @ bold (html_escape (Some title)) @ newline @ newline @ italic ([0x672A, 0x627E, 0x5230, 0x7B26, 0x5408, 0x689D, 0x4EF6, 0x7684, 0x672A, 0x89E3, 0x6C7A, 0x5DE5, 0x55AE, 0x3002])
      else text_join newline
        ([([0x1F50D] @ codes '' '') @ bold (html_escape (Some title)) @ (codes '' ('' @ [0x5171] @ codes '' '') @ number_int (sr_total r) @ (codes '' '' @ [0x7B46, 0xFF0C, 0x7B2C] @ codes '' '') @
            number (current_page page n) @ (codes ''/'') @ number (total_pages n) @ (codes '' '' @ [0x9801] @ codes ''):'') @ newline] @
         map (\<lambda>(idx, i). number idx @ (codes ''. '') @ issue_link i @ (codes '': '') @
                html_escape (Some (truncate_text (codes (iv_summary i)) 45))) (page_of page (sr_issues r)) @
         [newline @ italic ([0x9EDE, 0x64CA, 0x4E0B, 0x65B9, 0x6578, 0x5B57, 0x6309, 0x9215, 0x67E5, 0x770B, 0x5DE5, 0x55AE, 0x8A73, 0x7D30, 0x5361, 0x7247, 0x8207, 0x64CD, 0x4F5C, 0x4ECB, 0x9762] @ codes '':'')]))"

section \<open>Stand-up report\<close>

definition standup_line :: "jira_issue_view \<Rightarrow> utext" where
  "standup_line i = ([0x2022] @ codes '' '') @ issue_link i @ (codes '': '') @ html_escape (Some (truncate_text (codes (iv_summary i)) 40))"

definition standup_assigned :: "jira_issue_view \<Rightarrow> utext" where
  "standup_assigned i =
     standup_line i @ (codes '' ('') @ esc (if iv_assignee i = [] then ''Unassigned'' else iv_assignee i) @ (codes '')'')"

definition standup_section :: "utext \<Rightarrow> utext \<Rightarrow> utext \<Rightarrow> 'a list \<Rightarrow> utext list \<Rightarrow> utext list" where
  "standup_section mark heading none_text issues shown =
     (mark @ bold (heading @ number (length issues) @ (codes '' '' @ [0x7B46] @ codes ''):''))) # (if issues = [] then [italic none_text] else shown)"

definition render_standup_report ::
  "jira_issue_view list \<Rightarrow> jira_issue_view list \<Rightarrow> jira_issue_view list \<Rightarrow> jira_issue_view list \<Rightarrow> utext" where
  "render_standup_report blocked in_progress in_qa finished =
     text_join newline
       ([([0x1F4CA] @ codes '' '') @ bold ([0x6BCF, 0x65E5, 0x5718, 0x968A, 0x7AD9, 0x6703, 0x6458, 0x8981] @ codes '' (Daily Standup Summary)'') @ newline] @
        standup_section ([0x1F534] @ codes '' '') ([0x963B, 0x7919, 0x4E2D] @ codes '' (Blocked - '') ([0x7121, 0x963B, 0x7919, 0x9805, 0x76EE]) blocked (map standup_assigned blocked) @ [[]] @
        standup_section ([0x1F535] @ codes '' '') ([0x9032, 0x884C, 0x4E2D] @ codes '' (In Progress - '') ([0x7121, 0x9032, 0x884C, 0x4E2D, 0x9805, 0x76EE]) in_progress
          (map standup_assigned (take 5 in_progress)) @ [[]] @
        standup_section ([0x1F7E1] @ codes '' '') ([0x5F85, 0x6E2C, 0x8A66] @ codes '' (In QA / Review - '') ([0x7121, 0x5F85, 0x6E2C, 0x9805, 0x76EE]) in_qa
          (map standup_assigned (take 5 in_qa)) @ [[]] @
        standup_section ([0x1F7E2] @ codes '' '') ([0x672C, 0x9031, 0x5DF2, 0x5B8C, 0x6210] @ codes '' (Done - '') ([0x7121, 0x5B8C, 0x6210, 0x9805, 0x76EE]) finished
          (map standup_line (take 5 finished)))"

section \<open>Every card is well formed\<close>

lemma displayable_esc [shown]: "displayable (html_escape t)"
  by (cases t) (simp_all add: html_escape_def displayable_escape displayable_ordinary)

lemma displayable_link_esc [shown]: "displayable t \<Longrightarrow> displayable (link_to (html_escape url) t)"
  by (cases url) (simp_all add: html_escape_def displayable_link displayable_link[of _ "[]", simplified])

lemma decimal_char_ordinary: "list_all (\<lambda>c. ordinary (of_char c)) (decimal n)"
proof (induction n rule: decimal.induct)
  case (1 n)
  have "ordinary (of_char (char_of (48 + k) :: char))" if "k < 10" for k :: nat
    using that by (auto simp: of_char_of take_bit_eq_mod)
  with 1 show ?case by (subst decimal.simps) (auto simp: list_all_iff)
qed

lemma displayable_number [shown]: "displayable (number n)"
  using decimal_char_ordinary[of n] by (intro displayable_ordinary) (simp add: number_def codes_def list_all_iff)

lemma displayable_number_int [shown]: "displayable (number_int i)"
  using decimal_char_ordinary[of "nat i"] decimal_char_ordinary[of "nat (- i)"]
  by (intro displayable_ordinary) (auto simp: number_int_def decimal_int_def codes_def list_all_iff)

lemmas displayable_list [shown] = displayable_join displayable_ordinary[of newline, simplified]

text \<open>Lists of lines and the branches of a card.\<close>

lemma shown_lists [shown]:
  "list_all displayable []"
  "displayable x \<Longrightarrow> list_all displayable xs \<Longrightarrow> list_all displayable (x # xs)"
  "list_all displayable xs \<Longrightarrow> list_all displayable ys \<Longrightarrow> list_all displayable (xs @ ys)"
  "(\<And>y. displayable (f y)) \<Longrightarrow> list_all displayable (map f zs)"
  "(P \<Longrightarrow> list_all displayable xs) \<Longrightarrow> (\<not> P \<Longrightarrow> list_all displayable ys) \<Longrightarrow> list_all displayable (if P then xs else ys)"
  by (auto simp: list_all_iff)

lemma shown_cases [shown]:
  "displayable a \<Longrightarrow> (\<And>x. displayable (f x)) \<Longrightarrow> displayable (case opt of None \<Rightarrow> a | Some x \<Rightarrow> f x)"
  "displayable a \<Longrightarrow> (\<And>y ys. displayable (g y ys)) \<Longrightarrow> displayable (case xs of [] \<Rightarrow> a | y # ys \<Rightarrow> g y ys)"
  "list_all displayable as \<Longrightarrow> (\<And>x. list_all displayable (h x)) \<Longrightarrow> list_all displayable (case opt of None \<Rightarrow> as | Some x \<Rightarrow> h x)"
  "list_all displayable as \<Longrightarrow> (\<And>y ys. list_all displayable (k y ys)) \<Longrightarrow> list_all displayable (case xs of [] \<Rightarrow> as | y # ys \<Rightarrow> k y ys)"
  "(\<And>x y. displayable (p x y)) \<Longrightarrow> displayable (case z of (x, y) \<Rightarrow> p x y)"
  by (auto split: option.splits list.splits prod.splits)

lemma draft_id_line_shown [shown]: "displayable (draft_id_line d)"
  unfolding draft_id_line_def by (rule shown | (rule displayable_ordinary, simp; fail))+

lemma issue_link_shown [shown]: "displayable (issue_link i)"
  unfolding issue_link_def by (rule shown | (rule displayable_ordinary, simp; fail))+

lemma template_lines_shown [shown]: "list_all displayable (template_lines t)"
  unfolding template_lines_def by (rule shown | (rule displayable_ordinary, simp; fail))+

lemma draft_card_text_shown:
  assumes "displayable (draft_header d title)"
  shows "displayable (draft_card_text d title)"
  unfolding draft_card_text_def draft_lines_def description_line_def detail_lines_def closing_lines_def
  by (rule shown assms | (rule displayable_ordinary, simp; fail))+

lemma draft_header_shown: "title = None \<Longrightarrow> displayable (draft_header d title)"
  unfolding draft_header_def by (simp only: option.case) (rule shown | (rule displayable_ordinary, simp; fail))+

lemma submission_cards_shown [shown]:
  "displayable (render_submission_progress d)" "displayable (render_published_card d p)"
  "displayable (render_published_update_card d changed)" "displayable (render_cancelled_card d)"
  "displayable (render_expired_card d)" "displayable (render_submission_error_card d e)"
  "displayable (render_unknown_outcome_card d)" "displayable (render_safe_feedback m)"
  "displayable render_private_only_warning"
  unfolding render_submission_progress_def render_published_card_def render_published_update_card_def render_cancelled_card_def
    render_expired_card_def render_submission_error_card_def render_unknown_outcome_card_def render_safe_feedback_def
    render_private_only_warning_def
  by (rule shown | (rule displayable_ordinary, simp; fail))+

lemma issue_cards_shown [shown]:
  "displayable (render_issue_card i header)" "displayable (render_search_results r m)"
  "displayable (render_compact_search_list r m page)"
  unfolding render_issue_card_def context_text_def blocker_text_def render_search_results_def render_compact_search_list_def Let_def
  by (rule shown | (rule displayable_ordinary, simp; fail))+

lemma standup_shown [shown]: "displayable (render_standup_report bs ps qs fs)"
  unfolding render_standup_report_def standup_section_def standup_assigned_def standup_line_def
  by (rule shown | (rule displayable_ordinary, simp; fail))+

section \<open>What the reader sees\<close>

text \<open>
  C39. Escaping is undone by the reader: an escaped text is shown as it was, whatever markup it holds, and a feedback message is
  shown after its heading.
\<close>

theorem escaped_text_is_read_back:
  "reader_sees (html_escape (Some t)) = Some t \<and> reader_sees (render_safe_feedback t) = Some ((codes ''Notice: '') @ t)"
proof -
  have t: "displays (html_escape (Some t)) t" by (simp add: html_escape_def displays_escape)
  have "displays (bold (codes ''Notice:'') @ (codes '' '') @ html_escape (Some t)) ((codes ''Notice:'') @ (codes '' '') @ t)"
    by (intro displays_append displays_element displays_ordinary t) simp_all
  with t show ?thesis by (simp add: render_safe_feedback_def reader_sees_displays)
qed

text \<open>What a card shows at least: something in each of them, and a list that is not cut in full.\<close>

lemma shows_at_least_esc: "shows_at_least (length s) (esc s)"
  using shows_at_least_escape[of "codes s"] by (simp add: html_escape_def)

lemma shows_heading: "list_all ordinary t \<Longrightarrow> t \<noteq> [] \<Longrightarrow> shows_at_least 1 (bold t)"
  by (intro shows_at_least_elements shows_at_least_ordinary) (auto simp: Suc_le_eq)

lemma text_join_front: "text_join sep ((x @ y) # xs) = x @ text_join sep (y # xs)"
  by (cases xs) simp_all

lemma shows_first_line:
  assumes "shows_at_least 1 x" and "displayable y" and "list_all displayable xs"
  shows "shows_at_least 1 (text_join newline ((x @ y) # xs))"
  unfolding text_join_front using assms by (intro shows_at_least_front displayable_list) simp_all

lemma update_card_shows:
  "shows_at_least (\<Sum>(key, v)\<leftarrow>changed. length key + length v) (render_published_update_card d changed)"
proof -
  have line: "shows_at_least (case kv of (key, v) \<Rightarrow> length key + length v)
      (case kv of (key, v) \<Rightarrow> ([0x2022] @ codes '' '') @ code_text (esc key) @ (codes '': '') @ html_escape (Some v))" for kv :: "string \<times> utext"
  proof (cases kv)
    case (Pair key v)
    have v: "shows_at_least (length v) (html_escape (Some v))"
      by (simp add: html_escape_def shows_at_least_escape)
    have "shows_at_least (length key + length v) (code_text (esc key) @ (codes '': '') @ html_escape (Some v))"
      by (intro shows_at_least_append shows_at_least_elements shows_at_least_esc shows_at_least_end[OF _ v] displayable_ordinary) simp
    then have "shows_at_least (length key + length v) (([0x2022] @ codes '' '') @ code_text (esc key) @ (codes '': '') @ html_escape (Some v))"
      by (rule shows_at_least_end[OF displayable_ordinary, rotated]) simp
    with Pair show ?thesis by simp
  qed
  show ?thesis
    unfolding render_published_update_card_def
    by (rule shows_at_least_lines[OF _ _ _ line, of newline _ "[]", simplified append_Nil2])
      (rule shown | (rule displayable_ordinary, simp; fail))+
qed


lemma standup_assigned_shows: "shows_at_least (length (iv_issue_key i) + length (iv_assignee i)) (standup_assigned i)"
proof -
  have link: "shows_at_least (length (iv_issue_key i)) (issue_link i)"
    unfolding issue_link_def html_escape_def option.case
    by (intro shows_at_least_elements shows_at_least_link) (use shows_at_least_escape[of "codes (iv_issue_key i)"] in simp)
  have "shows_at_least (length (iv_issue_key i)) (standup_line i)"
    unfolding standup_line_def by (rule shows_at_least_end shows_at_least_front link shown | (rule displayable_ordinary, simp; fail))+
  moreover have "shows_at_least (length (iv_assignee i)) ((codes '' ('') @ esc (if iv_assignee i = [] then ''Unassigned'' else iv_assignee i) @ (codes '')''))"
    using shows_at_least_esc[of "iv_assignee i"]
    by (intro shows_at_least_end shows_at_least_front displayable_ordinary) (auto intro: shows_at_least_displayable shown)
  ultimately show ?thesis
    unfolding standup_assigned_def by (rule shows_at_least_append)
qed

lemma standup_report_shows:
  "shows_at_least (\<Sum>i\<leftarrow>bs. length (iv_issue_key i) + length (iv_assignee i)) (render_standup_report bs ps qs fs)"
proof -
  let ?heading = "(([0x1F534] @ codes '' '') @ bold (([0x963B, 0x7919, 0x4E2D] @ codes '' (Blocked - '') @ number (length bs) @ (codes '' '' @ [0x7B46] @ codes ''):''))) #
    (if bs = [] then [italic ([0x7121, 0x963B, 0x7919, 0x9805, 0x76EE])] else [])"
  let ?others = "[[]] @ standup_section ([0x1F535] @ codes '' '') ([0x9032, 0x884C, 0x4E2D] @ codes '' (In Progress - '') ([0x7121, 0x9032, 0x884C, 0x4E2D, 0x9805, 0x76EE]) ps (map standup_assigned (take 5 ps)) @ [[]] @
    standup_section ([0x1F7E1] @ codes '' '') ([0x5F85, 0x6E2C, 0x8A66] @ codes '' (In QA / Review - '') ([0x7121, 0x5F85, 0x6E2C, 0x9805, 0x76EE]) qs (map standup_assigned (take 5 qs)) @ [[]] @
    standup_section ([0x1F7E2] @ codes '' '') ([0x672C, 0x9031, 0x5DF2, 0x5B8C, 0x6210] @ codes '' (Done - '') ([0x7121, 0x5B8C, 0x6210, 0x9805, 0x76EE]) fs (map standup_line (take 5 fs))"
  have blocked: "standup_section ([0x1F534] @ codes '' '') ([0x963B, 0x7919, 0x4E2D] @ codes '' (Blocked - '') ([0x7121, 0x963B, 0x7919, 0x9805, 0x76EE]) bs (map standup_assigned bs) =
      ?heading @ map standup_assigned bs"
    by (simp add: standup_section_def)
  have report: "render_standup_report bs ps qs fs =
      text_join newline (([([0x1F4CA] @ codes '' '') @ bold ([0x6BCF, 0x65E5, 0x5718, 0x968A, 0x7AD9, 0x6703, 0x6458, 0x8981] @ codes '' (Daily Standup Summary)'') @ newline] @ ?heading) @ map standup_assigned bs @ ?others)"
    unfolding render_standup_report_def blocked by (simp only: append_assoc)
  show ?thesis
    unfolding report standup_section_def
    by (rule shows_at_least_lines[OF _ _ _ standup_assigned_shows])
      (unfold standup_assigned_def standup_line_def, (rule shown | (rule displayable_ordinary, simp; fail))+)
qed
lemma starts_with_text: "list_all ordinary x \<Longrightarrow> x \<noteq> [] \<Longrightarrow> displayable y \<Longrightarrow> shows_at_least 1 (x @ y)"
  by (rule shows_at_least_front[OF shows_at_least_ordinary]) (simp_all add: Suc_le_eq)

lemma first_line_shows:
  "shows_at_least 1 x \<Longrightarrow> list_all displayable xs \<Longrightarrow> list_all displayable ys \<Longrightarrow> shows_at_least 1 (text_join newline ((x # xs) @ ys))"
  using shows_first_line[of x "[]" "xs @ ys"] by (simp add: displayable_ordinary)

lemma dot_shows: "displayable a \<Longrightarrow> displayable b \<Longrightarrow> displayable y \<Longrightarrow> shows_at_least 1 (a @ b @ (codes ''  '' @ [0x25CF] @ codes ''  '') @ y)"
  by (intro shows_at_least_end starts_with_text) simp_all

lemma issue_card_shows: "shows_at_least 1 (render_issue_card i header)"
  unfolding render_issue_card_def context_text_def blocker_text_def Let_def
  by (rule dot_shows) (rule shown | (rule displayable_ordinary, simp; fail))+

lemma fixed_cards_show:
  "shows_at_least 1 (render_submission_progress d)" "shows_at_least 1 (render_cancelled_card d)"
  "shows_at_least 1 (render_expired_card d)" "shows_at_least 1 (render_submission_error_card d e)"
  "shows_at_least 1 (render_unknown_outcome_card d)" "shows_at_least 1 (render_safe_feedback m)"
  unfolding render_submission_progress_def render_cancelled_card_def render_expired_card_def render_submission_error_card_def
    render_unknown_outcome_card_def render_safe_feedback_def
  by (rule shows_at_least_front[OF shows_heading], simp, simp, (rule shown | (rule displayable_ordinary, simp; fail))+)+

lemma listed_cards_show:
  "shows_at_least 1 (render_published_card d p)" "shows_at_least 1 (render_published_update_card d changed)"
  "shows_at_least 1 (render_standup_report bs ps qs fs)"
proof -
  have mark: "shows_at_least 1 (([0x1F4DD] @ codes '' '' @ [0x8B8A, 0x66F4, 0x767C, 0x5E03, 0x5DE5, 0x55AE, 0x78BA, 0x8A8D] @ codes '': '') @ y)" if "displayable y" for y
    using that by (rule starts_with_text[rotated 2]) simp_all
  show "shows_at_least 1 (render_published_card d p)"
    unfolding render_published_card_def
    by (rule first_line_shows[OF shows_at_least_front[OF shows_heading]], simp, simp) (rule shown | (rule displayable_ordinary, simp; fail))+
  show "shows_at_least 1 (render_published_update_card d changed)"
    unfolding render_published_update_card_def
    by (rule first_line_shows[OF shows_at_least_elements(1)[OF mark]]) (rule shown | (rule displayable_ordinary, simp; fail))+
  show "shows_at_least 1 (render_standup_report bs ps qs fs)"
    unfolding render_standup_report_def standup_section_def standup_assigned_def standup_line_def
    by (rule first_line_shows[OF starts_with_text], simp, simp) (rule shown | (rule displayable_ordinary, simp; fail))+
qed

lemma search_cards_show:
  "shows_at_least 1 (render_search_results r m)" "shows_at_least 1 (render_compact_search_list r m page)"
  "shows_at_least 1 render_private_only_warning"
proof -
  have lens: "shows_at_least 1 (([0x1F50D] @ codes '' '') @ y)" if "displayable y" for y
    using that by (rule starts_with_text[rotated 2]) simp_all
  have pick: "shows_at_least 1 (if P then x else y)" if "shows_at_least 1 x" "shows_at_least 1 y" for P x y
    using that by simp
  show "shows_at_least 1 (render_search_results r m)"
    unfolding render_search_results_def
    by (rule pick; rule lens) (rule shown | (rule displayable_ordinary, simp; fail))+
  show "shows_at_least 1 (render_compact_search_list r m page)"
    unfolding render_compact_search_list_def Let_def
    by (rule pick lens first_line_shows shown | (rule displayable_ordinary, simp; fail))+
  show "shows_at_least 1 render_private_only_warning"
    unfolding render_private_only_warning_def
    by (rule starts_with_text) (rule shown | (rule displayable_ordinary, simp; fail) | simp; fail)+
qed

lemma shown_not_empty: "shows_at_least 1 x \<Longrightarrow> reader_sees x \<notin> {None, Some []}"
  by (auto dest!: reader_sees_at_least)

lemmas cards_show = fixed_cards_show listed_cards_show search_cards_show issue_card_shows


lemma render_draft_card_length: "length (render_draft_card d title) \<le> TELEGRAM_MESSAGE_LIMIT"
  by (simp add: render_draft_card_def TELEGRAM_MESSAGE_LIMIT_def Let_def)

lemma render_draft_card_fits: "length (draft_card_text d title) \<le> TELEGRAM_MESSAGE_LIMIT \<Longrightarrow> render_draft_card d title = draft_card_text d title"
  by (simp add: render_draft_card_def)

text \<open>
  A draft card never exceeds \<open>TELEGRAM_MESSAGE_LIMIT\<close> code points, and if it did not before truncation, its markup is well formed.
\<close>

theorem draft_card_bounded:
  "length (render_draft_card d title) \<le> TELEGRAM_MESSAGE_LIMIT \<and>
   (length (draft_card_text d None) \<le> TELEGRAM_MESSAGE_LIMIT \<longrightarrow> reader_sees (render_draft_card d None) \<noteq> None)"
  using render_draft_card_length reader_sees_displayable[OF draft_card_text_shown[OF draft_header_shown[OF refl]]]
  by (metis render_draft_card_fits)

section \<open>What truncation cuts\<close>

lemma no_angle_esc: "0x3C \<notin> set (html_escape t)"
  using py_escape_no_angle by (cases t) (simp_all add: html_escape_def)

lemma draft_card_split:
  assumes "d_template d = Some t" and "jt_description t \<noteq> []"
  obtains rest where "draft_card_text d None =
    (text_join newline (draft_lines d None @ template_lines t) @ newline @ bold (codes ''Description:'') @ newline) @ codes ''<pre>'' @
    html_escape (Some (truncate_text (codes (jt_description t)) 800)) @ rest"
proof -
  let ?ls = "draft_lines d None @ template_lines t" and ?tl = "detail_lines t @ closing_lines d"
  have ne: "?ls \<noteq> []" by (simp add: draft_lines_def)
  have "draft_card_text d None = text_join newline (?ls @ [description_line t] @ ?tl)"
    using assms by (simp add: draft_card_text_def)
  also have "\<dots> = text_join newline ?ls @ newline @ text_join newline ([description_line t] @ ?tl)"
    using ne by (subst text_join_append) simp_all
  also have "text_join newline ([description_line t] @ ?tl) =
      description_line t @ (if ?tl = [] then [] else newline @ text_join newline ?tl)"
  proof (cases "?tl = []")
    case False
    then show ?thesis by (subst text_join_append) simp_all
  qed simp
  finally show thesis
    by (intro that[of "codes ''</pre>'' @ (if ?tl = [] then [] else newline @ text_join newline ?tl)"])
      (simp add: description_line_def element_def)
qed

lemma cut_card_unreadable:
  assumes "d_template d = Some t" and "jt_description t \<noteq> []"
    and "p = text_join newline (draft_lines d None @ template_lines t) @ newline @ bold (codes ''Description:'') @ newline"
    and "length p + 5 \<le> 4076"
    and "4096 \<le> length (html_escape (Some (truncate_text (codes (jt_description t)) 800)))"
  shows "reader_sees (render_draft_card d None) = None"
proof -
  let ?e = "html_escape (Some (truncate_text (codes (jt_description t)) 800))" and ?k = "4076 - (length p + 5)"
  obtain rest where full: "draft_card_text d None = p @ codes ''<pre>'' @ ?e @ rest"
    using draft_card_split[OF assms(1,2)] assms(3) by metis
  have p: "displayable p"
    unfolding assms(3) draft_lines_def by (rule shown draft_header_shown refl | (rule displayable_ordinary, simp; fail))+
  have len: "length (draft_card_text d None) = length p + 5 + length ?e + length rest"
    unfolding full by simp
  have "take 4076 (draft_card_text d None) = p @ codes ''<pre>'' @ take ?k ?e"
    using assms(4,5) by (simp add: full take_Cons' del: codes_simps(2))
  moreover have "length (draft_card_text d None) > 4096" using len assms(5) by linarith
  ultimately have "render_draft_card d None = p @ codes ''<pre>'' @ (take ?k ?e @ ([0xA] @ codes ''...[truncated]''))"
    by (simp add: render_draft_card_def TELEGRAM_MESSAGE_LIMIT_def Let_def)
  moreover have "0x3C \<notin> set (take ?k ?e @ ([0xA] @ codes ''...[truncated]''))"
    using no_angle_esc by (auto dest: in_set_takeD)
  ultimately show ?thesis using cut_in_element[OF p] by simp
qed

lemma length_esc: "length (esc s) \<le> 6 * length s"
  using length_py_escape[of "codes s"] by (simp add: html_escape_def)

lemma length_state_value: "length (state_value st) \<le> 30"
  by (cases st) simp_all

lemma length_element [simp]: "length (element name t) = 2 * length name + 5 + length t"
  by (simp add: element_def)

text \<open>
  A cut can fall inside the description: when the fields before it are short (600 characters in all) and its escaped form alone
  reaches the limit (683 quotes or angle brackets are enough), the card is cut within \<open><pre>\<close>, which is never closed, and the
  client refuses the message.
\<close>

theorem truncated_card_unreadable:
  assumes "d_template d = Some t"
    and "length (d_draft_id d) + length (jt_project_key t) + length (jt_issue_type t) + length (jt_priority t) + length (jt_summary t) \<le> 600"
    and "length (decimal_int (d_revision d)) \<le> 20"
    and "4096 \<le> length (html_escape (Some (truncate_text (codes (jt_description t)) 800)))"
  shows "reader_sees (render_draft_card d None) = None"
proof -
  have "length (text_join newline (draft_lines d None @ template_lines t) @ newline @ bold (codes ''Description:'') @ newline) + 5 \<le> 4076"
    using assms(2,3) length_esc[of "d_draft_id d"] length_esc[of "jt_project_key t"] length_esc[of "jt_issue_type t"]
      length_esc[of "jt_priority t"] length_esc[of "jt_summary t"] length_esc[of "state_value (d_state d)"]
      length_state_value[of "d_state d"]
    by (simp add: draft_lines_def draft_header_def template_lines_def number_int_def)
  moreover have "jt_description t \<noteq> []"
    using assms(4) by (auto simp: truncate_text_def html_escape_def)
  ultimately show ?thesis using cut_card_unreadable[OF assms(1) _ refl _ assms(4)] by blast
qed

section \<open>Samples\<close>

definition sample_card_template :: "string \<Rightarrow> jira_template" where
  "sample_card_template description = \<lparr>jt_project_key = ''DZT'', jt_issue_type = ''Bug'', jt_summary = ''Crash <fast>'',
     jt_description = description, jt_priority = ''High'', jt_labels = [''ui''], jt_components = [], jt_assignee = [],
     jt_acceptance_criteria = [''No crash'']\<rparr>"

definition sample_card_draft :: "string \<Rightarrow> draft" where
  "sample_card_draft description = \<lparr>d_draft_id = ''d1'', d_owner_id = 7, d_chat_id = 7, d_thread_id = None, d_state = REVIEW,
     d_revision = 3, d_template = Some (sample_card_template description), d_source_messages = [], d_attachments = [],
     d_created_at = Aware 0, d_updated_at = Aware 0, d_published_issue = None, d_last_error = None\<rparr>"

lemma length_escaped_quotes: "length (py_escape (codes (replicate n (CHR 0x22)))) = 6 * n"
  by (induction n) (simp_all add: escape_code_def)

theorem truncated_card_unreadable_witness:
  "reader_sees (render_draft_card (sample_card_draft (replicate 800 (CHR 0x22))) None) = None"
  by (rule truncated_card_unreadable[of _ "sample_card_template (replicate 800 (CHR 0x22))"])
    (simp_all add: sample_card_draft_def sample_card_template_def decimal_int_def decimal.simps truncate_text_def html_escape_def
      length_escaped_quotes)

theorem draft_card_bounded_witness:
  "reader_sees (render_draft_card (sample_card_draft ''It stops <now> & then.'') None) \<noteq> None"
proof -
  have "length (draft_card_text (sample_card_draft ''It stops <now> & then.'') None) \<le> TELEGRAM_MESSAGE_LIMIT"
    by (simp add: TELEGRAM_MESSAGE_LIMIT_def draft_card_text_def sample_card_draft_def sample_card_template_def draft_lines_def
        draft_header_def template_lines_def description_line_def detail_lines_def closing_lines_def truncate_text_def
        html_escape_def escape_code_def number_int_def decimal_int_def decimal.simps)
  with draft_card_bounded show ?thesis by blast
qed

end
