(* ===== verification/Keyboards.thy ===== *)
theory Keyboards
  imports Rendering Callback_Service
begin

text \<open>
  The keyboards of \<open>src/src/dztgbot/ui/keyboards.py\<close>: inline keyboards are rows of labelled buttons with callback data, an
  address or a text to copy; reply keyboards are rows of labels.  The library version decides whether copy buttons exist
  (\<open>has_copy\<close>).
\<close>

section \<open>Buttons\<close>

datatype button_target = Callback string | Address string | Copy string

record inline_button =
  bt_label :: utext
  bt_target :: button_target

type_synonym inline_keyboard = "inline_button list list"

definition callback_button :: "utext \<Rightarrow> string \<Rightarrow> inline_button" where
  "callback_button label data = \<lparr>bt_label = label, bt_target = Callback data\<rparr>"

definition url_button :: "utext \<Rightarrow> string \<Rightarrow> inline_button" where
  "url_button label url = \<lparr>bt_label = label, bt_target = Address url\<rparr>"

text \<open>A mapping of actions to issued buttons or plain strings.\<close>

datatype button_item = Issued issued_button | Plain_Data string

type_synonym button_map = "(callback_action \<times> button_item) list"

definition issued_map :: "issued_button list \<Rightarrow> button_map" where
  "issued_map bs = map (\<lambda>b. (ib_action b, Issued b)) bs"

definition get_callback_data :: "button_map \<Rightarrow> callback_action \<Rightarrow> string option" where
  "get_callback_data buttons action =
     (case map_of buttons action of None \<Rightarrow> None
      | Some (Issued b) \<Rightarrow> Some (ib_callback_data b)
      | Some (Plain_Data s) \<Rightarrow> Some s)"

text \<open>A button appears only with data that is not empty, and a row only with a button.\<close>

definition button_if :: "button_map \<Rightarrow> callback_action \<Rightarrow> utext \<Rightarrow> inline_button list" where
  "button_if buttons action label =
     (case get_callback_data buttons action of Some (c # cs) \<Rightarrow> [callback_button label (c # cs)] | _ \<Rightarrow> [])"

definition row_if :: "inline_button list \<Rightarrow> inline_keyboard" where
  "row_if row = (if row = [] then [] else [row])"

section \<open>Draft keyboards\<close>

definition build_draft_inline_keyboard :: "button_map \<Rightarrow> inline_keyboard" where
  "build_draft_inline_keyboard buttons =
     row_if (button_if buttons A_CONFIRM ([0x2705] @ codes '' '' @ [0x78BA, 0x5B9A, 0x63D0, 0x4EA4]) @ button_if buttons A_EDIT ([0x270F, 0xFE0F] @ codes '' '' @ [0x7DE8, 0x8F2F, 0x6B04, 0x4F4D])) @
     row_if (button_if buttons A_TOGGLE_TYPE ([0x1F3F7, 0xFE0F] @ codes '' '' @ [0x5207, 0x63DB, 0x985E, 0x578B]) @ button_if buttons A_TOGGLE_PRIORITY ([0x26A1] @ codes '' '' @ [0x5207, 0x63DB, 0x512A, 0x5148, 0x7D1A])) @
     row_if (button_if buttons A_CANCEL ([0x274C] @ codes '' '' @ [0x53D6, 0x6D88, 0x8349, 0x7A3F]))"

definition build_retry_inline_keyboard :: "button_map \<Rightarrow> inline_keyboard" where
  "build_retry_inline_keyboard buttons =
     row_if (button_if buttons A_RETRY ([0x1F504] @ codes '' '' @ [0x91CD, 0x8A66, 0x63D0, 0x4EA4]) @ button_if buttons A_CANCEL ([0x274C] @ codes '' '' @ [0x53D6, 0x6D88, 0x8349, 0x7A3F]))"

definition build_reconcile_inline_keyboard :: "button_map \<Rightarrow> inline_keyboard" where
  "build_reconcile_inline_keyboard buttons =
     row_if (button_if buttons A_RECONCILE ([0x1F50D] @ codes '' '' @ [0x8ABF, 0x67E5] @ codes ''/'' @ [0x8ABF, 0x548C]) @ button_if buttons A_CANCEL ([0x274C] @ codes '' '' @ [0x53D6, 0x6D88]))"

definition build_published_inline_keyboard :: "bool \<Rightarrow> published_issue \<Rightarrow> button_map option \<Rightarrow> inline_keyboard" where
  "build_published_inline_keyboard has_copy i buttons =
     [[url_button ([0x1F517] @ codes '' View in Jira'') (pi_issue_url i)] @
      (if has_copy then [\<lparr>bt_label = ([0x1F4CB] @ codes '' Copy Key''), bt_target = Copy (pi_issue_key i)\<rparr>] else [])] @
     (case buttons of None \<Rightarrow> [] | Some bs \<Rightarrow> row_if (button_if bs A_EDIT_PUBLISHED ([0x1F4DD] @ codes '' '' @ [0x7DE8, 0x8F2F, 0x767C, 0x5E03, 0x5DE5, 0x55AE])))"

definition get_draft_reply_keyboard :: "utext list list" where
  "get_draft_reply_keyboard =
     [[([0x1F3F7, 0xFE0F] @ codes '' '' @ [0x985E, 0x578B] @ codes '': Task''), ([0x1F3F7, 0xFE0F] @ codes '' '' @ [0x985E, 0x578B] @ codes '': '' @ [0x7F3A, 0x9677])], [([0x26A1] @ codes '' '' @ [0x512A, 0x5148, 0x7D1A] @ codes '': High''), ([0x26A1] @ codes '' '' @ [0x512A, 0x5148, 0x7D1A] @ codes '': Medium'')], [([0x2705] @ codes '' '' @ [0x78BA, 0x5B9A, 0x63D0, 0x4EA4, 0x5DE5, 0x55AE]), ([0x274C] @ codes '' '' @ [0x53D6, 0x6D88, 0x8349, 0x7A3F])]]"

definition get_unauthenticated_reply_keyboard :: "utext list list" where
  "get_unauthenticated_reply_keyboard = [[([0x1F511] @ codes '' '' @ [0x9023, 0x7D50] @ codes '' Jira''), ([0x1F4D6] @ codes '' '' @ [0x8AAA, 0x660E])]]"

definition get_authenticated_reply_keyboard :: "utext list list" where
  "get_authenticated_reply_keyboard = [[([0x1F4CB] @ codes '' '' @ [0x6307, 0x6D3E, 0x7D66, 0x6211, 0x7684]), ([0x1F6A9] @ codes '' '' @ [0x6211, 0x5EFA, 0x7684])], [([0x1F50D] @ codes '' '' @ [0x641C, 0x5C0B]), ([0x1F4DD] @ codes '' '' @ [0x65B0, 0x5EFA])], [([0x1F6AA] @ codes '' Logout'')]]"

section \<open>Figma links\<close>

text \<open>A prefix without regard to case; the pattern \<open>FIGMA_URL_PATTERN\<close> at a position, and its first match in a text.\<close>

fun strip_nocase :: "string \<Rightarrow> string \<Rightarrow> string option" where
  "strip_nocase [] s = Some s"
| "strip_nocase (p # ps) [] = None"
| "strip_nocase (p # ps) (c # cs) = (if lower_char c = lower_char p then strip_nocase ps cs else None)"

definition figma_char :: "char \<Rightarrow> bool" where
  "figma_char c \<longleftrightarrow> \<not> is_space c \<and> c \<noteq> CHR ''>'' \<and> c \<noteq> CHR ''<'' \<and> c \<noteq> CHR 0x22 \<and> c \<noteq> CHR 0x27"

definition optional_nocase :: "string \<Rightarrow> string \<Rightarrow> string" where
  "optional_nocase p s = (case strip_nocase p s of None \<Rightarrow> s | Some r \<Rightarrow> r)"

definition first_nocase :: "string list \<Rightarrow> string \<Rightarrow> string option" where
  "first_nocase ps s = map_option (\<lambda>p. drop (length p) s) (List.find (\<lambda>p. strip_nocase p s \<noteq> None) ps)"

text \<open>The rest after a match at the start of \<open>s\<close>.\<close>

definition figma_rest :: "string \<Rightarrow> string option" where
  "figma_rest s =
     (case strip_nocase ''http'' s of None \<Rightarrow> None | Some s1 \<Rightarrow>
      case strip_nocase ''://'' (optional_nocase ''s'' s1) of None \<Rightarrow> None | Some s2 \<Rightarrow>
      case strip_nocase ''figma.com/'' (optional_nocase ''www.'' s2) of None \<Rightarrow> None | Some s3 \<Rightarrow>
      case first_nocase [''file'', ''design'', ''proto'', ''board''] s3 of None \<Rightarrow> None | Some s4 \<Rightarrow>
      case strip_nocase ''/'' s4 of None \<Rightarrow> None | Some s5 \<Rightarrow>
      if takeWhile figma_char s5 = [] then None else Some (dropWhile figma_char s5))"

fun figma_search :: "string \<Rightarrow> string option" where
  "figma_search [] = None"
| "figma_search (c # cs) =
     (case figma_rest (c # cs) of Some r \<Rightarrow> Some (take (length (c # cs) - length r) (c # cs)) | None \<Rightarrow> figma_search cs)"

definition extract_figma_url :: "string \<Rightarrow> string option" where
  "extract_figma_url t = (if t = [] then None else figma_search t)"

section \<open>Issue cards\<close>

definition data_or :: "button_map \<Rightarrow> callback_action \<Rightarrow> string \<Rightarrow> string" where
  "data_or buttons action default_data =
     (case get_callback_data buttons action of Some (c # cs) \<Rightarrow> c # cs | _ \<Rightarrow> default_data)"

definition build_universal_issue_card_keyboard ::
  "string \<Rightarrow> string \<Rightarrow> bool \<Rightarrow> bool \<Rightarrow> jira_transition_view option \<Rightarrow> button_map \<Rightarrow> string option \<Rightarrow> inline_keyboard" where
  "build_universal_issue_card_keyboard key url is_blocked is_watching primary buttons figma =
     [[(case primary of
          Some t \<Rightarrow> callback_button (([0x25B6, 0xFE0F] @ codes '' '') @ codes (tv_name t) @ (codes '' ('') @ codes (tv_to_status t) @ (codes '')''))
            (''do_mv:'' @ key @ '':'' @ tv_transition_id t)
        | None \<Rightarrow> callback_button ([0x27A1, 0xFE0F] @ codes '' Move'') (data_or buttons A_MOVE_TRANSITION (''card_mv:'' @ key))),
       callback_button ([0x1F4DD] @ codes '' Edit'') (data_or buttons A_QUICK_EDIT (''card_qed:'' @ key)),
       callback_button ([0x1F4AC] @ codes '' Comment'') (data_or buttons A_ADD_COMMENT (''card_cmt:'' @ key))],
      [(if is_blocked then callback_button ([0x2705] @ codes '' Unblock'') (data_or buttons A_UNBLOCK_ISSUE (''card_ubk:'' @ key))
        else callback_button ([0x26A0, 0xFE0F] @ codes '' Block'') (data_or buttons A_BLOCK_ISSUE (''card_blk:'' @ key))),
       callback_button ([0x1F464] @ codes '' Assign'') (data_or buttons A_ASSIGN_ISSUE (''card_asn:'' @ key)),
       (if is_watching then callback_button ([0x1F441, 0xFE0F] @ codes '' Unwatch'') (''card_uwtc:'' @ key)
        else callback_button ([0x1F441, 0xFE0F] @ codes '' Watch'') (''card_wtc:'' @ key)),
       callback_button ([0x2795] @ codes '' Sub-task'') (data_or buttons A_CREATE_SUBTASK (''card_sub:'' @ key))],
      [url_button (codes ''Open in Jira '' @ [0x2197]) url] @
      (case figma of Some (c # cs) \<Rightarrow> [url_button ([0x1F3A8] @ codes '' Figma Spec '' @ [0x2197]) (c # cs)] | _ \<Rightarrow> [])]"

section \<open>Search keyboards\<close>

definition build_smart_filter_bar_keyboard :: inline_keyboard where
  "build_smart_filter_bar_keyboard =
     [[callback_button (codes ''My Open'') ''flt:my'', callback_button (codes ''I Created'') ''flt:created'',
       callback_button (codes ''Unassigned'') ''flt:unassigned''],
      [callback_button (codes ''Blocked'') ''flt:blocked'', callback_button (codes ''This Sprint'') ''flt:sprint'']]"

definition page_data :: "string \<Rightarrow> nat \<Rightarrow> string" where
  "page_data filter_code page = ''pg:'' @ filter_code @ '':'' @ decimal page"

definition page_row :: "string \<Rightarrow> nat \<Rightarrow> nat \<Rightarrow> inline_button list" where
  "page_row filter_code cur pages =
     [(if cur > 1 then callback_button ([0x25C0, 0xFE0F] @ codes '' '' @ [0x4E0A, 0x4E00, 0x9801]) (page_data filter_code (cur - 1)) else callback_button (codes '' '' @ [0x300D, 0xFF0C]) ''ignore''),
      callback_button (number cur @ (codes '' / '') @ number pages) ''ignore'',
      (if cur < pages then callback_button ([0x4E0B, 0x4E00, 0x9801] @ codes '' '' @ [0x25B6, 0xFE0F]) (page_data filter_code (cur + 1)) else callback_button (codes '' '' @ [0x300D, 0xFF0C]) ''ignore'')]"

definition build_paginated_search_keyboard :: "jira_issue_view list \<Rightarrow> string \<Rightarrow> int \<Rightarrow> inline_keyboard" where
  "build_paginated_search_keyboard issues filter_code page =
     (let n = length issues in
      if n = 0 then build_smart_filter_bar_keyboard
      else [map (\<lambda>(idx, i). callback_button (number idx @ (codes ''. '') @ codes (iv_issue_key i)) (''shc:'' @ iv_issue_key i))
              (page_of page issues)] @
           (if total_pages n > 1 then [page_row filter_code (current_page page n) (total_pages n)] else []) @
           build_smart_filter_bar_keyboard)"

section \<open>Pages\<close>

lemma current_page_range: "1 \<le> current_page page n \<and> current_page page n \<le> total_pages n"
  by (auto simp: current_page_def total_pages_def)

lemma current_page_in_range: "1 \<le> p \<Longrightarrow> p \<le> total_pages n \<Longrightarrow> current_page (int p) n = p"
  by (simp add: current_page_def)

lemma total_pages_enough: "n \<le> total_pages n * 5"
  by (simp add: total_pages_def per_page_def max_def) presburger

lemma total_pages_tight: "(total_pages n - 1) * 5 < n \<or> n = 0"
  by (simp add: total_pages_def per_page_def max_def) presburger

lemma page_of_in_range:
  assumes "1 \<le> p" "p \<le> total_pages (length xs)"
  shows "page_of (int p) xs = enumerate (5 * (p - 1) + 1) (take 5 (drop (5 * (p - 1)) xs))"
proof -
  have "start_index (int p) (length xs) = 5 * (p - 1)"
    using current_page_in_range[OF assms] by (simp add: start_index_def per_page_def)
  moreover have "drop a (take (min (a + 5) (length xs)) xs) = take 5 (drop a xs)" for a
    by (simp add: take_drop min_def add.commute)
  ultimately show ?thesis by (simp add: page_of_def Let_def per_page_def)
qed

lemma pages_prefix:
  "concat (map (\<lambda>p. enumerate (5 * p + 1) (take 5 (drop (5 * p) xs))) [0..<k]) = enumerate 1 (take (5 * k) xs)"
proof (induction k)
  case (Suc k)
  have "take (5 * Suc k) xs = take (5 * k) xs @ take 5 (drop (5 * k) xs)"
    by (metis mult_Suc_right take_add add.commute)
  moreover have "enumerate 1 (take (5 * k) xs @ ys) = enumerate 1 (take (5 * k) xs) @ enumerate (5 * k + 1) ys"
    if "ys \<noteq> [] \<longrightarrow> 5 * k \<le> length xs" for ys
    using that by (cases "ys = []") (simp_all add: enumerate_append_eq min_def)
  moreover have "take 5 (drop (5 * k) xs) \<noteq> [] \<longrightarrow> 5 * k \<le> length xs" by simp
  ultimately show ?case using Suc by simp
qed simp

text \<open>
  The pages of a search partition its issues: read one after the other they give every issue once, numbered from one, and no
  page has more than five.
\<close>

theorem pages_partition:
  "concat (map (\<lambda>p. page_of (int p) xs) [1..<total_pages (length xs) + 1]) = enumerate 1 xs \<and>
   length (page_of page xs) \<le> 5"
proof
  have upt_shift: "[1..<total_pages (length xs) + 1] = map Suc [0..<total_pages (length xs)]"
    by (simp add: map_Suc_upt del: upt_Suc)
  have "map (\<lambda>p. page_of (int p) xs) [1..<total_pages (length xs) + 1] =
      map (\<lambda>p. enumerate (5 * p + 1) (take 5 (drop (5 * p) xs))) [0..<total_pages (length xs)]"
    unfolding upt_shift list.map_comp by (intro map_cong refl) (simp add: page_of_in_range[of "Suc _", simplified])
  then have "concat (map (\<lambda>p. page_of (int p) xs) [1..<total_pages (length xs) + 1]) = enumerate 1 (take (5 * total_pages (length xs)) xs)"
    using pages_prefix[of xs "total_pages (length xs)"] by argo
  moreover have "take (5 * total_pages (length xs)) xs = xs"
    using total_pages_enough[of "length xs"] by simp
  ultimately show "concat (map (\<lambda>p. page_of (int p) xs) [1..<total_pages (length xs) + 1]) = enumerate 1 xs"
    by argo
  show "length (page_of page xs) \<le> 5" by (simp add: page_of_def Let_def per_page_def)
qed

end
