(* ===== verification/I18n.thy ===== *)
theory I18n
  imports Markup
begin

text \<open>
  The user-interface texts of \<open>src/src/dztgbot/ui/i18n.py\<close>: the languages, how a language code is normalised and the table
  of texts.
\<close>

datatype language = ZH_TW | EN | ZH_CN

fun language_value :: "language \<Rightarrow> string" where
  "language_value ZH_TW = ''zh_TW''"
| "language_value EN = ''en''"
| "language_value ZH_CN = ''zh_CN''"

definition normalize_language :: "string option \<Rightarrow> language" where
  "normalize_language lang =
     (case lang of None \<Rightarrow> ZH_TW
      | Some l \<Rightarrow>
          (let code = map (\<lambda>c. if c = CHR ''-'' then CHR ''_'' else c) (py_lower (py_strip l)) in
           if l = [] then ZH_TW
           else if code \<in> {''zh_tw'', ''zh_hk'', ''zh_hant'', ''tw'', ''traditional''} then ZH_TW
           else if code \<in> {''en'', ''en_us'', ''en_gb'', ''english''} then EN
           else if code \<in> {''zh_cn'', ''zh_sg'', ''zh_hans'', ''cn'', ''simplified''} then ZH_CN
           else ZH_TW))"

definition ui_strings :: "(string \<times> (language \<times> utext) list) list" where
  "ui_strings = [
    (''btn_auth'', [(ZH_TW, ([0x1F511] @ codes '' '' @ [0x9023, 0x7D50] @ codes '' Jira'')), (EN, ([0x1F511] @ codes '' Link Jira'')), (ZH_CN, ([0x1F511] @ codes '' '' @ [0x7ED1, 0x5B9A] @ codes '' Jira''))]),
    (''btn_logout'', [(ZH_TW, ([0x1F6AA] @ codes '' Logout'')), (EN, ([0x1F6AA] @ codes '' Logout'')), (ZH_CN, ([0x1F6AA] @ codes '' '' @ [0x9000, 0x51FA, 0x767B, 0x5F55]))]),
    (''btn_my_issues'', [(ZH_TW, ([0x1F4CB] @ codes '' '' @ [0x6307, 0x6D3E, 0x7D66, 0x6211, 0x7684])), (EN, ([0x1F4CB] @ codes '' Assigned to Me'')), (ZH_CN, ([0x1F4CB] @ codes '' '' @ [0x6307, 0x6D3E, 0x7ED9, 0x6211, 0x7684]))]),
    (''btn_created_issues'', [(ZH_TW, ([0x1F6A9] @ codes '' '' @ [0x6211, 0x5EFA, 0x7684])), (EN, ([0x1F6A9] @ codes '' Created by Me'')), (ZH_CN, ([0x1F6A9] @ codes '' '' @ [0x6211, 0x521B, 0x5EFA, 0x7684]))]),
    (''btn_search'', [(ZH_TW, ([0x1F50D] @ codes '' '' @ [0x641C, 0x5C0B])), (EN, ([0x1F50D] @ codes '' Search'')), (ZH_CN, ([0x1F50D] @ codes '' '' @ [0x641C, 0x7D22]))]),
    (''btn_new'', [(ZH_TW, ([0x1F4DD] @ codes '' '' @ [0x65B0, 0x5EFA])), (EN, ([0x1F4DD] @ codes '' New Issue'')), (ZH_CN, ([0x1F4DD] @ codes '' '' @ [0x65B0, 0x5EFA, 0x5DE5, 0x5355]))]),
    (''btn_standup'', [(ZH_TW, ([0x1F4CA] @ codes '' '' @ [0x7AD9, 0x6703, 0x5831, 0x544A])), (EN, ([0x1F4CA] @ codes '' Standup Report'')), (ZH_CN, ([0x1F4CA] @ codes '' '' @ [0x7AD9, 0x4F1A, 0x62A5, 0x544A]))]),
    (''btn_language'', [(ZH_TW, ([0x1F310] @ codes '' '' @ [0x8A9E, 0x8A00, 0x8A2D, 0x7F6E])), (EN, ([0x1F310] @ codes '' Language'')), (ZH_CN, ([0x1F310] @ codes '' '' @ [0x8BED, 0x8A00, 0x8BBE, 0x7F6E]))]),
    (''btn_help'', [(ZH_TW, ([0x1F4D6] @ codes '' '' @ [0x8AAA, 0x660E])), (EN, ([0x1F4D6] @ codes '' Help'')), (ZH_CN, ([0x1F4D6] @ codes '' '' @ [0x4F7F, 0x7528, 0x8BF4, 0x660E]))]),
    (''action_move'', [(ZH_TW, ([0x27A1, 0xFE0F] @ codes '' '' @ [0x79FB, 0x52D5])), (EN, ([0x27A1, 0xFE0F] @ codes '' Move'')), (ZH_CN, ([0x27A1, 0xFE0F] @ codes '' '' @ [0x79FB, 0x52A8]))]),
    (''action_edit'', [(ZH_TW, ([0x1F4DD] @ codes '' '' @ [0x7DE8, 0x8F2F])), (EN, ([0x1F4DD] @ codes '' Edit'')), (ZH_CN, ([0x1F4DD] @ codes '' '' @ [0x7F16, 0x8F91]))]),
    (''action_comment'', [(ZH_TW, ([0x1F4AC] @ codes '' '' @ [0x7559, 0x8A00])), (EN, ([0x1F4AC] @ codes '' Comment'')), (ZH_CN, ([0x1F4AC] @ codes '' '' @ [0x7559, 0x8A00]))]),
    (''action_block'', [(ZH_TW, ([0x26A0, 0xFE0F] @ codes '' '' @ [0x963B, 0x7919])), (EN, ([0x26A0, 0xFE0F] @ codes '' Block'')), (ZH_CN, ([0x26A0, 0xFE0F] @ codes '' '' @ [0x6807, 0x8BB0, 0x963B, 0x788D]))]),
    (''action_assign'', [(ZH_TW, ([0x1F464] @ codes '' '' @ [0x6307, 0x6D3E])), (EN, ([0x1F464] @ codes '' Assign'')), (ZH_CN, ([0x1F464] @ codes '' '' @ [0x6307, 0x6D3E]))]),
    (''action_watch'', [(ZH_TW, ([0x1F441, 0xFE0F] @ codes '' '' @ [0x95DC, 0x6CE8])), (EN, ([0x1F441, 0xFE0F] @ codes '' Watch'')), (ZH_CN, ([0x1F441, 0xFE0F] @ codes '' '' @ [0x5173, 0x6CE8]))]),
    (''action_unwatch'', [(ZH_TW, ([0x1F441, 0xFE0F] @ codes '' '' @ [0x53D6, 0x6D88, 0x95DC, 0x6CE8])), (EN, ([0x1F441, 0xFE0F] @ codes '' Unwatch'')), (ZH_CN, ([0x1F441, 0xFE0F] @ codes '' '' @ [0x53D6, 0x6D88, 0x5173, 0x6CE8]))]),
    (''action_subtask'', [(ZH_TW, ([0x2795] @ codes '' '' @ [0x5B50, 0x4EFB, 0x52D9])), (EN, ([0x2795] @ codes '' Sub-task'')), (ZH_CN, ([0x2795] @ codes '' '' @ [0x5B50, 0x4EFB, 0x52A1]))]),
    (''action_open_jira'', [(ZH_TW, ([0x5728] @ codes '' Jira '' @ [0x67E5, 0x770B] @ codes '' '' @ [0x2197])), (EN, (codes ''Open in Jira '' @ [0x2197])), (ZH_CN, ([0x5728] @ codes '' Jira '' @ [0x67E5, 0x770B] @ codes '' '' @ [0x2197]))]),
    (''lang_select_prompt'', [(ZH_TW, ([0x1F310] @ codes '' <b>'' @ [0x8ACB, 0x9078, 0x64C7, 0x60A8, 0x7684, 0x754C, 0x9762, 0x8A9E, 0x8A00] @ codes '' / Select UI Language:</b>'')), (EN, ([0x1F310] @ codes '' <b>Please select your preferred UI Language:</b>'')), (ZH_CN, ([0x1F310] @ codes '' <b>'' @ [0x8BF7, 0x9009, 0x62E9, 0x60A8, 0x7684, 0x754C, 0x9762, 0x8BED, 0x8A00] @ codes '' / Select UI Language:</b>''))]),
    (''lang_changed_notice'', [(ZH_TW, ([0x2705] @ codes '' '' @ [0x754C, 0x9762, 0x8A9E, 0x8A00, 0x5DF2, 0x5207, 0x63DB, 0x70BA, 0xFF1A] @ codes ''<b>'' @ [0x7E41, 0x9AD4, 0x4E2D, 0x6587] @ codes ''</b>'')), (EN, ([0x2705] @ codes '' UI language has been set to: <b>English</b>'')), (ZH_CN, ([0x2705] @ codes '' '' @ [0x754C, 0x9762, 0x8BED, 0x8A00, 0x5DF2, 0x5207, 0x6362, 0x4E3A, 0xFF1A] @ codes ''<b>'' @ [0x7B80, 0x4F53, 0x4E2D, 0x6587] @ codes ''</b>''))])]"

definition text_in :: "string \<Rightarrow> language \<Rightarrow> utext" where
  "text_in key language =
     (case map_of ui_strings key of None \<Rightarrow> codes key
      | Some entry \<Rightarrow>
          (if entry = [] then codes key
           else case map_of entry language of Some t \<Rightarrow> t
           | None \<Rightarrow> (case map_of entry ZH_TW of Some t \<Rightarrow> t | None \<Rightarrow> codes key)))"

text \<open>\<open>get_text\<close> with a language code, and with a member of the enumeration.\<close>

definition get_text :: "string \<Rightarrow> string \<Rightarrow> utext" where
  "get_text key lang = text_in key (normalize_language (Some lang))"

lemma normalize_language_value [simp]: "normalize_language (Some (language_value l)) = l"
  by (induct l; code_simp)

lemma translations_complete: "list_all (\<lambda>(key, entry). map fst entry = [ZH_TW, EN, ZH_CN]) ui_strings"
  by (simp add: ui_strings_def)

end
