(* ===== verification/Chat.thy ===== *)
theory Chat
  imports Keyboards I18n Policy File_Store
begin

text \<open>
  What the handlers do to a Telegram chat: their calls in order, each of which may fail, and the fixed texts for denials
  (\<open>user_message_for_denial\<close> in \<open>src/src/dztgbot/domain/policy.py\<close>).
\<close>

section \<open>Denials\<close>

fun user_message_for_denial :: "denial_code \<Rightarrow> utext" where
  "user_message_for_denial DC_NOT_PRIVATE_CHAT = ([0x6B64, 0x64CD, 0x4F5C, 0x50C5, 0x9650, 0x8207, 0x6A5F, 0x5668, 0x4EBA, 0x7684, 0x79C1, 0x804A, 0x8996, 0x7A97, 0x4F7F, 0x7528, 0x3002])"
| "user_message_for_denial DC_NOT_ALLOWED_USER = ([0x60A8, 0x6C92, 0x6709, 0x6B0A, 0x9650, 0x4F7F, 0x7528, 0x6B64, 0x6A5F, 0x5668, 0x4EBA, 0x3002])"
| "user_message_for_denial DC_NOT_ADMIN = ([0x60A8, 0x6C92, 0x6709, 0x6B0A, 0x9650, 0x7BA1, 0x7406, 0x6B64, 0x6A5F, 0x5668, 0x4EBA, 0x3002])"
| "user_message_for_denial DC_MALFORMED_CALLBACK = ([0x6B64, 0x6309, 0x9215, 0x7121, 0x6548, 0x6216, 0x5DF2, 0x904E, 0x671F, 0x3002])"
| "user_message_for_denial DC_UNKNOWN_TOKEN = ([0x6B64, 0x6309, 0x9215, 0x7121, 0x6548, 0x6216, 0x5DF2, 0x904E, 0x671F, 0x3002])"
| "user_message_for_denial DC_FOREIGN_ACTOR = ([0x60A8, 0x7121, 0x6CD5, 0x64CD, 0x4F5C, 0x5176, 0x4ED6, 0x4EBA, 0x7684, 0x5DE5, 0x55AE, 0x8349, 0x7A3F, 0x3002])"
| "user_message_for_denial DC_WRONG_CHAT = ([0x6B64, 0x6309, 0x9215, 0x4E0D, 0x9069, 0x7528, 0x65BC, 0x76EE, 0x524D, 0x7684, 0x804A, 0x5929, 0x3002])"
| "user_message_for_denial DC_WRONG_THREAD = ([0x6B64, 0x6309, 0x9215, 0x4E0D, 0x9069, 0x7528, 0x65BC, 0x76EE, 0x524D, 0x7684, 0x8A0E, 0x8AD6, 0x4E32, 0x3002])"
| "user_message_for_denial DC_WRONG_MESSAGE = ([0x6B64, 0x6309, 0x9215, 0x5DF2, 0x5931, 0x6548, 0xFF0C, 0x8ACB, 0x4F7F, 0x7528, 0x6700, 0x65B0, 0x7684, 0x9810, 0x89BD, 0x8A0A, 0x606F, 0x3002])"
| "user_message_for_denial DC_ACTION_MISMATCH = ([0x6B64, 0x6309, 0x9215, 0x7121, 0x6548, 0x6216, 0x5DF2, 0x904E, 0x671F, 0x3002])"
| "user_message_for_denial DC_TOKEN_EXPIRED = ([0x6B64, 0x6309, 0x9215, 0x5DF2, 0x903E, 0x6642, 0xFF0C, 0x8ACB, 0x91CD, 0x65B0, 0x53D6, 0x5F97, 0x9810, 0x89BD, 0x3002])"
| "user_message_for_denial DC_TOKEN_CONSUMED = ([0x6B64, 0x64CD, 0x4F5C, 0x5DF2, 0x8655, 0x7406, 0xFF0C, 0x8ACB, 0x52FF, 0x91CD, 0x8907, 0x9EDE, 0x64CA, 0x3002])"
| "user_message_for_denial DC_STALE_REVISION = ([0x8349, 0x7A3F, 0x5DF2, 0x66F4, 0x65B0, 0xFF0C, 0x8ACB, 0x4F7F, 0x7528, 0x6700, 0x65B0, 0x7684, 0x9810, 0x89BD, 0x6309, 0x9215, 0x3002])"
| "user_message_for_denial DC_ILLEGAL_STATE = ([0x76EE, 0x524D, 0x72C0, 0x614B, 0x7121, 0x6CD5, 0x57F7, 0x884C, 0x6B64, 0x64CD, 0x4F5C, 0x3002])"
| "user_message_for_denial DC_ALREADY_PROCESSING = ([0x6B63, 0x5728, 0x8655, 0x7406, 0x4E2D, 0xFF0C, 0x8ACB, 0x7A0D, 0x5019, 0x3002])"
| "user_message_for_denial DC_CREDENTIAL_EMPTY = ([0x6191, 0x64DA, 0x4E0D, 0x80FD, 0x70BA, 0x7A7A, 0x3002])"
| "user_message_for_denial DC_CREDENTIAL_FORMAT_REJECTED = ([0x50C5, 0x652F, 0x63F4] @ codes '' Jira '' @ [0x500B, 0x4EBA, 0x5B58, 0x53D6, 0x4EE4, 0x724C] @ codes '' (PAT)'' @ [0x3002, 0x5E33, 0x865F, 0x5BC6, 0x78BC, 0x8207] @ codes '' Session Cookie '' @ [0x5DF2, 0x505C, 0x7528, 0x3002])"
| "user_message_for_denial DC_AUTH_EXPIRED = ([0x7D81, 0x5B9A, 0x64CD, 0x4F5C, 0x5DF2, 0x903E, 0x6642, 0xFF0C, 0x8ACB, 0x91CD, 0x65B0, 0x958B, 0x59CB] @ codes '' /auth'' @ [0x3002])"
| "user_message_for_denial DC_CREDENTIAL_DELETE_FAILED = ([0x7121, 0x6CD5, 0x81EA, 0x52D5, 0x522A, 0x9664, 0x542B, 0x6709, 0x6191, 0x64DA, 0x7684, 0x8A0A, 0x606F, 0xFF0C, 0x8ACB, 0x7ACB, 0x5373, 0x624B, 0x52D5, 0x522A, 0x9664, 0x8A72, 0x8A0A, 0x606F, 0x3002])"
| "user_message_for_denial DC_DENIED = ([0x64CD, 0x4F5C, 0x88AB, 0x62D2, 0x7D55, 0x3002])"

section \<open>Text of a message\<close>

definition is_uspace :: "nat \<Rightarrow> bool" where
  "is_uspace n \<longleftrightarrow> (9 \<le> n \<and> n \<le> 13) \<or> (28 \<le> n \<and> n \<le> 32) \<or> n = 0x85 \<or> n = 0xA0 \<or> n = 0x1680 \<or> (0x2000 \<le> n \<and> n \<le> 0x200A) \<or>
     n = 0x2028 \<or> n = 0x2029 \<or> n = 0x202F \<or> n = 0x205F \<or> n = 0x3000"

definition ustrip :: "utext \<Rightarrow> utext" where
  "ustrip t = rev (dropWhile is_uspace (rev (dropWhile is_uspace t)))"

text \<open>A text as a string of the other components, when its code points allow it.\<close>

definition latin :: "utext \<Rightarrow> string option" where
  "latin t = (if list_all (\<lambda>n. n < 256) t then Some (map char_of t) else None)"

lemma latin_codes [simp]: "latin (codes s) = Some s"
proof -
  have "list_all (\<lambda>n. n < 256) (codes s)" by (induction s) simp_all
  moreover have "map char_of (codes s) = s" by (induction s) simp_all
  ultimately show ?thesis by (simp add: latin_def)
qed

section \<open>Calls\<close>

datatype reply_markup = No_Markup | Inline inline_keyboard | Menu "utext list list" | Remove_Menu

datatype chat_call =
    Answer "utext option" bool
  | Reply utext reply_markup
  | Send utext reply_markup
  | Edit_Text utext reply_markup
  | Edit_Markup reply_markup
  | Delete_Message

record chat =
  ch_log :: "(chat_call \<times> bool) list"

text \<open>The environment says which of the calls raise.\<close>

definition tg_call :: "(nat \<Rightarrow> bool) \<Rightarrow> chat_call \<Rightarrow> ('a chat_scheme, exn, unit) sx" where
  "tg_call fails c = (\<lambda>s.
     (let ok = \<not> fails (length (ch_log s)) in
      (if ok then Inr () else Inl (OtherError ''TelegramError''), s\<lparr>ch_log := ch_log s @ [(c, ok)]\<rparr>)))"

definition calls_made :: "'a chat_scheme \<Rightarrow> chat_call list" where
  "calls_made s = map fst (ch_log s)"

end
