(* ===== verification/Updates.thy ===== *)
theory Updates
  imports Keyboards I18n Models
begin

text \<open>
  What arrives from Telegram: the normalisation of forwarded messages in \<open>src/src/dztgbot/core.py\<close>, and which of the handlers
  registered in \<open>src/src/dztgbot/__main__.py\<close> an update reaches.  The dispatcher of the Telegram library gives an update to the
  first registered handler that accepts it; its filters and its conversation handler are modelled as the sources use them.
\<close>

section \<open>Messages\<close>

datatype media_type =
    MT_TEXT | MT_ANIMATION | MT_AUDIO | MT_CONTACT | MT_DICE | MT_DOCUMENT | MT_GAME | MT_PAID_MEDIA | MT_PHOTO | MT_POLL
  | MT_STICKER | MT_STORY | MT_VENUE | MT_LOCATION | MT_VIDEO | MT_VIDEO_NOTE | MT_VOICE | MT_UNKNOWN

record telegram_identity =
  ti_id :: "int option"
  ti_display_name :: "utext option"
  ti_username :: "utext option"

record telegram_chat =
  tc_id :: "int option"
  tc_title :: "utext option"
  tc_full_name :: "utext option"
  tc_username :: "utext option"

datatype message_origin =
    Origin_User int utext "utext option"
  | Origin_Hidden_User utext
  | Origin_Chat "utext option" telegram_chat
  | Origin_Channel "utext option" telegram_chat
  | Origin_Other

text \<open>Whether a message starts with a command, and whether that is one for this bot.\<close>

datatype command_entity = No_Command | Own_Command string | Foreign_Command

record message_part =
  mp_text :: "utext option"
  mp_caption :: "utext option"
  mp_media :: "media_type list"
  mp_forward_origin :: "message_origin option"
  mp_command :: command_entity
  mp_url_entity :: bool

record tg_message = message_part +
  tm_reply_to :: "message_part option"

section \<open>Forwarded messages\<close>

definition forwarded_message_in :: "tg_message \<Rightarrow> message_part option" where
  "forwarded_message_in m =
     (if mp_forward_origin m \<noteq> None then Some (message_part.truncate m)
      else case tm_reply_to m of None \<Rightarrow> None
      | Some r \<Rightarrow> if mp_forward_origin r \<noteq> None then Some r else None)"

definition or_text :: "utext option \<Rightarrow> utext option \<Rightarrow> utext option" where
  "or_text a b = (case a of Some (c # cs) \<Rightarrow> Some (c # cs) | _ \<Rightarrow> b)"

definition chat_identity :: "telegram_chat \<Rightarrow> telegram_identity" where
  "chat_identity c = \<lparr>ti_id = tc_id c, ti_display_name = or_text (tc_title c) (tc_full_name c), ti_username = tc_username c\<rparr>"

definition signature_identity :: "utext option \<Rightarrow> telegram_identity option" where
  "signature_identity s =
     (case s of Some (c # cs) \<Rightarrow> Some \<lparr>ti_id = None, ti_display_name = s, ti_username = None\<rparr> | _ \<Rightarrow> None)"

fun origin_identities :: "message_origin option \<Rightarrow> telegram_identity option \<times> telegram_identity option" where
  "origin_identities (Some (Origin_User uid name username)) =
     (Some \<lparr>ti_id = Some uid, ti_display_name = Some name, ti_username = username\<rparr>, None)"
| "origin_identities (Some (Origin_Hidden_User name)) =
     (Some \<lparr>ti_id = None, ti_display_name = Some name, ti_username = None\<rparr>, None)"
| "origin_identities (Some (Origin_Chat signature c)) = (signature_identity signature, Some (chat_identity c))"
| "origin_identities (Some (Origin_Channel signature c)) = (signature_identity signature, Some (chat_identity c))"
| "origin_identities (Some Origin_Other) = (None, None)"
| "origin_identities None = (None, None)"

definition media_fields :: "media_type list" where
  "media_fields =
     [MT_ANIMATION, MT_AUDIO, MT_CONTACT, MT_DICE, MT_DOCUMENT, MT_GAME, MT_PAID_MEDIA, MT_PHOTO, MT_POLL, MT_STICKER, MT_STORY,
      MT_VENUE, MT_LOCATION, MT_VIDEO, MT_VIDEO_NOTE, MT_VOICE]"

definition media_type_of :: "message_part \<Rightarrow> media_type" where
  "media_type_of m =
     (if mp_text m \<noteq> None then MT_TEXT
      else case List.find (\<lambda>t. t \<in> set (mp_media m)) media_fields of Some t \<Rightarrow> t | None \<Rightarrow> MT_UNKNOWN)"

record forwarded_message =
  fm_original_sender :: "telegram_identity option"
  fm_original_chat :: "telegram_identity option"
  fm_text :: "utext option"
  fm_media_type :: media_type

definition extract_forwarded_message :: "message_part \<Rightarrow> exn + forwarded_message" where
  "extract_forwarded_message m =
     (if mp_forward_origin m = None then Inl (ValueError ''message is not a forward'')
      else (case origin_identities (mp_forward_origin m) of (sender, chat) \<Rightarrow>
        Inr \<lparr>fm_original_sender = sender, fm_original_chat = chat,
             fm_text = (if mp_text m \<noteq> None then mp_text m else mp_caption m), fm_media_type = media_type_of m\<rparr>))"

section \<open>Registered handlers\<close>

datatype update_event = Message tg_message | Callback_Query string | Inline_Query

datatype handler =
    H_Auth_Conversation | H_Auth_Button | H_Start | H_Logout | H_Logout_Button | H_My_Button | H_Created_Button
  | H_Search_Prompt | H_Standup_Button | H_Language | H_Language_Callback | H_Language_Button | H_Help | H_Help_Button
  | H_Rules | H_Set_Rules | H_Vpn | H_Vpn_Start
  | H_My | H_Created | H_Unassigned | H_Blocked | H_Sprint | H_Standup | H_Keyword_Search
  | H_Filter_Callback | H_Show_Card_Callback | H_Page_Callback | H_Inline_Query | H_Url_Unfurl
  | H_Card_Action | H_Execute_Move | H_Execute_Assign | H_Execute_Unblock | H_Reply_Comment | H_Block_Input
  | H_New | H_Create | H_Forward_Intake | H_Draft_Reply_Text | H_Draft_Callback

definition registered_handlers :: "handler list" where
  "registered_handlers =
     [H_Auth_Conversation, H_Auth_Button, H_Start, H_Logout, H_Logout_Button, H_My_Button, H_Created_Button, H_Search_Prompt,
      H_Standup_Button, H_Language, H_Language_Callback, H_Language_Button, H_Help, H_Help_Button] @
     [H_Rules, H_Set_Rules, H_Vpn, H_Vpn_Start] @
     [H_My, H_Created, H_Unassigned, H_Blocked, H_Sprint, H_Standup, H_Keyword_Search, H_Filter_Callback, H_Show_Card_Callback,
      H_Page_Callback, H_Inline_Query, H_Url_Unfurl] @
     [H_Card_Action, H_Execute_Move, H_Execute_Assign, H_Execute_Unblock, H_Reply_Comment, H_Block_Input] @
     [H_New, H_Create, H_Forward_Intake, H_Draft_Reply_Text, H_Draft_Callback]"

text \<open>The filters \<open>TEXT\<close>, \<open>COMMAND\<close>, \<open>PHOTO\<close>, and \<open>Regex\<close> for \<open>^(a|b|...)$\<close>, where \<open>$\<close> also stands before a last newline.\<close>

definition has_text :: "tg_message \<Rightarrow> bool" where
  "has_text m = (case mp_text m of Some (c # cs) \<Rightarrow> True | _ \<Rightarrow> False)"

definition is_command :: "tg_message \<Rightarrow> bool" where
  "is_command m \<longleftrightarrow> mp_command m \<noteq> No_Command"

definition has_photo :: "tg_message \<Rightarrow> bool" where
  "has_photo m \<longleftrightarrow> MT_PHOTO \<in> set (mp_media m)"

definition is_label :: "utext list \<Rightarrow> tg_message \<Rightarrow> bool" where
  "is_label labels m = (case mp_text m of None \<Rightarrow> False | Some t \<Rightarrow> t \<in> set labels \<or> t \<in> (\<lambda>l. l @ newline) ` set labels)"

definition auth_labels :: "utext list" where
  "auth_labels = [([0x1F511] @ codes '' '' @ [0x9023, 0x7D50] @ codes '' Jira''), ([0x1F511] @ codes '' Link Jira''), ([0x1F511] @ codes '' '' @ [0x7D81, 0x5B9A] @ codes '' Jira '' @ [0x5E33, 0x865F]), ([0x1F511] @ codes '' '' @ [0x7ED1, 0x5B9A] @ codes '' Jira '' @ [0x8D26, 0x53F7]), ([0x1F511] @ codes '' '' @ [0x7ED1, 0x5B9A] @ codes '' Jira'')]"

definition logout_labels :: "utext list" where
  "logout_labels = [([0x1F6AA] @ codes '' Logout''), ([0x1F6AA] @ codes '' '' @ [0x89E3, 0x7D81] @ codes '' Jira '' @ [0x5E33, 0x865F]), ([0x1F6AA] @ codes '' '' @ [0x89E3, 0x7ED1] @ codes '' Jira '' @ [0x8D26, 0x53F7]), ([0x1F6AA] @ codes '' '' @ [0x9000, 0x51FA, 0x767B, 0x5F55])]"

definition my_labels :: "utext list" where
  "my_labels = [([0x1F4CB] @ codes '' '' @ [0x6307, 0x6D3E, 0x7D66, 0x6211, 0x7684]), ([0x1F4CB] @ codes '' Assigned to Me''), ([0x1F4CB] @ codes '' '' @ [0x6307, 0x6D3E, 0x7ED9, 0x6211, 0x7684])]"

definition created_labels :: "utext list" where
  "created_labels = [([0x1F6A9] @ codes '' '' @ [0x6211, 0x5EFA, 0x7684]), ([0x1F6A9] @ codes '' Created by Me''), ([0x1F6A9] @ codes '' '' @ [0x6211, 0x521B, 0x5EFA, 0x7684])]"

definition search_labels :: "utext list" where
  "search_labels = [([0x1F50D] @ codes '' '' @ [0x641C, 0x5C0B]), ([0x1F50D] @ codes '' Search''), ([0x1F50D] @ codes '' '' @ [0x641C, 0x7D22])]"

definition standup_labels :: "utext list" where
  "standup_labels = [([0x1F4CA] @ codes '' '' @ [0x7AD9, 0x6703, 0x5831, 0x544A]), ([0x1F4CA] @ codes '' Standup Report''), ([0x1F4CA] @ codes '' '' @ [0x7AD9, 0x4F1A, 0x62A5, 0x544A])]"

definition language_labels :: "utext list" where
  "language_labels = [([0x1F310] @ codes '' '' @ [0x8A9E, 0x8A00, 0x8A2D, 0x7F6E]), ([0x1F310] @ codes '' Language''), ([0x1F310] @ codes '' '' @ [0x8BED, 0x8A00, 0x8BBE, 0x7F6E])]"

definition help_labels :: "utext list" where
  "help_labels = [([0x1F4D6] @ codes '' '' @ [0x8AAA, 0x660E]), ([0x1F4D6] @ codes '' Help''), ([0x1F4D6] @ codes '' '' @ [0x4F7F, 0x7528, 0x8AAA, 0x660E]), ([0x1F4D6] @ codes '' '' @ [0x4F7F, 0x7528, 0x8BF4, 0x660E])]"

text \<open>
  The conversation handler of the log-in: outside of a conversation its entry points, within one the handlers of the state
  and the fallback.
\<close>

definition auth_conversation_accepts :: "bool \<Rightarrow> tg_message \<Rightarrow> bool" where
  "auth_conversation_accepts awaiting_pat m \<longleftrightarrow>
     (if awaiting_pat then has_text m \<and> \<not> is_command m \<or> mp_command m = Own_Command ''cancel''
      else mp_command m = Own_Command ''auth'' \<or> is_label auth_labels m)"

fun accepts_message :: "bool \<Rightarrow> handler \<Rightarrow> tg_message \<Rightarrow> bool" where
  "accepts_message aw H_Auth_Conversation m = auth_conversation_accepts aw m"
| "accepts_message aw H_Auth_Button m = is_label auth_labels m"
| "accepts_message aw H_Start m = (mp_command m = Own_Command ''start'')"
| "accepts_message aw H_Logout m = (mp_command m = Own_Command ''logout'')"
| "accepts_message aw H_Logout_Button m = is_label logout_labels m"
| "accepts_message aw H_My_Button m = is_label my_labels m"
| "accepts_message aw H_Created_Button m = is_label created_labels m"
| "accepts_message aw H_Search_Prompt m = is_label search_labels m"
| "accepts_message aw H_Standup_Button m = is_label standup_labels m"
| "accepts_message aw H_Language m = (mp_command m = Own_Command ''language'')"
| "accepts_message aw H_Language_Button m = is_label language_labels m"
| "accepts_message aw H_Help m = (mp_command m = Own_Command ''help'')"
| "accepts_message aw H_Help_Button m = is_label help_labels m"
| "accepts_message aw H_Rules m = (mp_command m = Own_Command ''rules'')"
| "accepts_message aw H_Set_Rules m = (mp_command m = Own_Command ''setrules'')"
| "accepts_message aw H_Vpn m = (mp_command m = Own_Command ''vpn'')"
| "accepts_message aw H_Vpn_Start m = (mp_command m = Own_Command ''vpnstart'')"
| "accepts_message aw H_My m = (mp_command m = Own_Command ''my'')"
| "accepts_message aw H_Created m = (mp_command m = Own_Command ''created'')"
| "accepts_message aw H_Unassigned m = (mp_command m = Own_Command ''unassigned'')"
| "accepts_message aw H_Blocked m = (mp_command m = Own_Command ''blocked'')"
| "accepts_message aw H_Sprint m = (mp_command m = Own_Command ''sprint'')"
| "accepts_message aw H_Standup m = (mp_command m = Own_Command ''standup'')"
| "accepts_message aw H_Keyword_Search m = (mp_command m = Own_Command ''s'')"
| "accepts_message aw H_Url_Unfurl m = (has_text m \<and> mp_url_entity m)"
| "accepts_message aw H_Reply_Comment m = (tm_reply_to m \<noteq> None \<and> (has_text m \<or> has_photo m))"
| "accepts_message aw H_Block_Input m = (has_text m \<and> \<not> is_command m)"
| "accepts_message aw H_New m = (mp_command m = Own_Command ''new'')"
| "accepts_message aw H_Create m = (mp_command m = Own_Command ''create'')"
| "accepts_message aw H_Forward_Intake m = (forwarded_message_in m \<noteq> None)"
| "accepts_message aw H_Draft_Reply_Text m = ((has_text m \<or> has_photo m) \<and> \<not> is_command m)"
| "accepts_message aw _ m = False"

definition callback_prefix :: "handler \<Rightarrow> string option" where
  "callback_prefix h = map_of
     [(H_Language_Callback, ''set_lang:''), (H_Filter_Callback, ''flt:''), (H_Show_Card_Callback, ''shc:''),
      (H_Page_Callback, ''pg:''), (H_Card_Action, ''card_''), (H_Execute_Move, ''do_mv:''), (H_Execute_Assign, ''do_asn:''),
      (H_Execute_Unblock, ''do_ubk:''), (H_Draft_Callback, ''j1:'')] h"

fun accepts :: "bool \<Rightarrow> update_event \<Rightarrow> handler \<Rightarrow> bool" where
  "accepts aw (Message m) h = accepts_message aw h m"
| "accepts aw (Callback_Query d) h = (case callback_prefix h of None \<Rightarrow> False | Some p \<Rightarrow> take (length p) d = p)"
| "accepts aw Inline_Query h = (h = H_Inline_Query)"

definition route :: "bool \<Rightarrow> update_event \<Rightarrow> handler option" where
  "route awaiting_pat u = List.find (accepts awaiting_pat u) registered_handlers"

section \<open>Which handler an update reaches\<close>

lemma find_append: "List.find P (xs @ ys) = (case List.find P xs of None \<Rightarrow> List.find P ys | Some x \<Rightarrow> Some x)"
  by (induction xs) simp_all

lemma find_in: "List.find P (xs @ x # ys) = Some y \<Longrightarrow> P x \<Longrightarrow> y \<in> set (xs @ [x])"
  by (induction xs) (auto split: if_splits)

lemma handlers_before_drafts:
  "\<exists>pre post. registered_handlers = pre @ H_Block_Input # post \<and> H_Forward_Intake \<notin> set pre \<and> H_Draft_Reply_Text \<notin> set pre"
proof -
  let ?i = "35 :: nat"
  have "registered_handlers = take ?i registered_handlers @ H_Block_Input # drop (Suc ?i) registered_handlers"
    by (simp add: registered_handlers_def)
  moreover have "H_Forward_Intake \<notin> set (take ?i registered_handlers) \<and> H_Draft_Reply_Text \<notin> set (take ?i registered_handlers)"
    by (simp add: registered_handlers_def)
  ultimately show ?thesis by blast
qed

lemma draft_handlers_late:
  assumes "has_text m" and "\<not> is_command m"
  shows "route awaiting_pat (Message m) \<notin> {None, Some H_Forward_Intake, Some H_Draft_Reply_Text}"
proof -
  obtain pre post where h: "registered_handlers = pre @ H_Block_Input # post"
    and pre: "H_Forward_Intake \<notin> set pre" "H_Draft_Reply_Text \<notin> set pre"
    using handlers_before_drafts by blast
  have accepts: "accepts awaiting_pat (Message m) H_Block_Input" using assms by simp
  then have "List.find (accepts awaiting_pat (Message m)) registered_handlers \<noteq> None"
    unfolding h by (auto simp: find_None_iff)
  then obtain y where y: "List.find (accepts awaiting_pat (Message m)) registered_handlers = Some y" by auto
  from find_in[OF this[unfolded h] accepts] pre have "y \<noteq> H_Forward_Intake \<and> y \<noteq> H_Draft_Reply_Text" by auto
  with y show ?thesis by (simp add: route_def)
qed

lemma route_accepts: "route aw u = Some h \<Longrightarrow> accepts aw u h"
  by (auto simp: route_def find_Some_iff)

text \<open>
  C38. Plain text does not reach the draft handlers.  A text message never reaches the handler that edits the active draft, and it reaches
  the intake of forwards, or no handler, only if it starts with a command; then it is a forward or answers one.  Every other text,
  forwarded or typed, is taken by an earlier handler, at the latest by the one that reads the key of a blocking issue: so a draft
  is made only from forwards without text and forwards that start with a command, and typing never edits one.
\<close>

theorem plain_text_never_reaches_drafts:
  assumes "has_text m"
  shows "route awaiting_pat (Message m) \<noteq> Some H_Draft_Reply_Text \<and>
    (route awaiting_pat (Message m) \<in> {None, Some H_Forward_Intake} \<longrightarrow> is_command m) \<and>
    (route awaiting_pat (Message m) = Some H_Forward_Intake \<longrightarrow> forwarded_message_in m \<noteq> None)"
proof -
  have "\<not> is_command m" if "route awaiting_pat (Message m) = Some H_Draft_Reply_Text"
    using route_accepts[OF that] by simp
  with draft_handlers_late[OF assms, of awaiting_pat]
  have "route awaiting_pat (Message m) \<noteq> Some H_Draft_Reply_Text \<and>
      (route awaiting_pat (Message m) \<in> {None, Some H_Forward_Intake} \<longrightarrow> is_command m)" by blast
  then show ?thesis using route_accepts[of awaiting_pat "Message m" H_Forward_Intake] by simp
qed

text \<open>A message that was typed or sent with a button of a reply keyboard.\<close>

definition typed :: "utext \<Rightarrow> tg_message" where
  "typed t = \<lparr>mp_text = Some t, mp_caption = None, mp_media = [], mp_forward_origin = None, mp_command = No_Command,
     mp_url_entity = False, tm_reply_to = None\<rparr>"

theorem plain_text_never_reaches_drafts_witness:
  "route False (Message (typed (codes ''Fix the title'')\<lparr>mp_forward_origin := Some Origin_Other\<rparr>)) \<notin>
     {None, Some H_Forward_Intake, Some H_Draft_Reply_Text}"
proof -
  let ?m = "typed (codes ''Fix the title'')\<lparr>mp_forward_origin := Some Origin_Other\<rparr>"
  have "has_text ?m" and "\<not> is_command ?m" by (simp_all add: has_text_def is_command_def typed_def)
  with plain_text_never_reaches_drafts [of ?m False] show ?thesis by blast
qed

text \<open>A forwarded text that starts with a command nobody registered does make a draft.\<close>

lemma forwarded_command_reaches_drafts:
  "route False (Message (typed (codes ''/deploy failed'')\<lparr>mp_forward_origin := Some Origin_Other, mp_command := Own_Command ''deploy''\<rparr>)) =
     Some H_Forward_Intake"
  by (simp add: route_def registered_handlers_def typed_def auth_conversation_accepts_def is_label_def has_text_def is_command_def
      auth_labels_def logout_labels_def my_labels_def created_labels_def search_labels_def standup_labels_def language_labels_def
      help_labels_def forwarded_message_in_def message_part.defs)

section \<open>The origin of a forward\<close>

text \<open>
  The forward an update is about always has an origin, so normalising it never fails, and what is kept does not
  depend on the comment that answers it.
\<close>

lemma forward_extracted: "forwarded_message_in m = Some f \<Longrightarrow> \<exists>r. extract_forwarded_message f = Inr r"
proof -
  assume "forwarded_message_in m = Some f"
  then have "mp_forward_origin f \<noteq> None"
    by (auto simp: forwarded_message_in_def message_part.defs split: if_splits option.splits)
  then show ?thesis by (auto simp: extract_forwarded_message_def split: prod.splits)
qed

lemma media_type_text: "media_type_of m = MT_TEXT \<longleftrightarrow> mp_text m \<noteq> None"
  by (auto simp: media_type_of_def media_fields_def split: option.splits)

end
