(* ===== verification/Jira_Client.thy ===== *)
theory Jira_Client
  imports Jira_Gateway Vpn
begin

text \<open>
  The facade \<open>src/src/dztgbot/jira_client.py\<close> over the Jira gateway: it starts the VPN before every request, ignoring how that
  ends, and translates errors.  A \<open>JiraClientError\<close> is a classified operation error, as the gateway's are; the shared transport
  is the HTTP client parameter of the gateway.
\<close>

record jira_user =
  ju_username :: string
  ju_display_name :: string
  ju_email :: "string option"

record created_ref =
  cr_key :: string
  cr_url :: string

record jira_client =
  jl_gateway :: jira_env
  jl_vpn :: "(vpn_manager \<times> vpn_commands) option"

record client_world =
  cl_http :: http_world
  cl_vpn :: vpn_world

type_synonym 'a client_sx = "(client_world, exn, 'a) sx"

definition client_ensure_vpn :: "jira_client \<Rightarrow> unit client_sx" where
  "client_ensure_vpn c =
     (case jl_vpn c of None \<Rightarrow> sx_return ()
      | Some (m, cmds) \<Rightarrow> sx_modify (\<lambda>w. w\<lparr>cl_vpn := snd (vpn_start m cmds (cl_vpn w))\<rparr>))"

text \<open>\<open>_translate\<close>: gateway errors keep their classification, a \<open>ValueError\<close> gets one.\<close>

definition translate_client_error :: "operation \<Rightarrow> exn \<Rightarrow> exn" where
  "translate_client_error op e =
     (case e of
        ValueError _ \<Rightarrow>
          (case ErrorClassification EK_VALIDATION op RT_NEVER
                 (if op \<in> {OP_JIRA_CREATE, OP_JIRA_UPDATE, OP_JIRA_ATTACHMENT} then MC_NOT_DISPATCHED else MC_NOT_APPLICABLE)
                 SC_VALIDATION_FAILED of
             Inl e' \<Rightarrow> e' | Inr c \<Rightarrow> DomainError (ClassifiedOperationError c))
      | _ \<Rightarrow> e)"

text \<open>A request through the facade.\<close>

definition client_request :: "jira_client \<Rightarrow> operation \<Rightarrow> 'a http_sx \<Rightarrow> 'a client_sx" where
  "client_request c op m =
     sx_bind (client_ensure_vpn c) (\<lambda>_ w.
       (case m (cl_http w) of
          (Inl e, h) \<Rightarrow> (Inl (translate_client_error op e), w\<lparr>cl_http := h\<rparr>)
        | (Inr x, h) \<Rightarrow> (Inr x, w\<lparr>cl_http := h\<rparr>)))"

definition authentication_failed :: exn where
  "authentication_failed =
     (case ErrorClassification EK_AUTHENTICATION OP_AUTHENTICATION RT_NEVER MC_NOT_APPLICABLE SC_AUTHENTICATION_FAILED of
        Inl e \<Rightarrow> e | Inr c \<Rightarrow> DomainError (ClassifiedOperationError c))"

definition validate_credentials :: "jira_client \<Rightarrow> string \<Rightarrow> jira_user client_sx" where
  "validate_credentials c pat =
     sx_bind (client_request c OP_AUTHENTICATION (test_credential (jl_gateway c) pat)) (\<lambda>valid.
       if \<not> valid then sx_raise authentication_failed
       else sx_return \<lparr>ju_username = [], ju_display_name = [], ju_email = None\<rparr>)"

definition client_create_issue :: "jira_client \<Rightarrow> int \<Rightarrow> string \<Rightarrow> jira_template \<Rightarrow> created_ref client_sx" where
  "client_create_issue c now pat t =
     sx_bind (client_request c OP_JIRA_CREATE (create_issue (jl_gateway c) now t pat [])) (\<lambda>i.
       sx_return \<lparr>cr_key = pi_issue_key i, cr_url = pi_issue_url i\<rparr>)"

definition client_update_issue :: "jira_client \<Rightarrow> string \<Rightarrow> string \<Rightarrow> jira_template \<Rightarrow> created_ref client_sx" where
  "client_update_issue c pat key t =
     sx_bind (client_request c OP_JIRA_UPDATE (update_issue (jl_gateway c) key t pat)) (\<lambda>_.
       sx_return \<lparr>cr_key = key, cr_url = je_base_url (jl_gateway c) @ ''/browse/'' @ key\<rparr>)"

definition client_add_attachment :: "jira_client \<Rightarrow> string \<Rightarrow> string \<Rightarrow> string \<Rightarrow> string \<Rightarrow> string \<Rightarrow> unit client_sx" where
  "client_add_attachment c pat key filename content mime =
     sx_bind (client_request c OP_JIRA_ATTACHMENT (gateway_upload (jl_gateway c) key filename content mime pat)) (\<lambda>_. sx_return ())"

section \<open>Identities\<close>

text \<open>A valid credential is never given an identity.\<close>

lemma validated_user: "validate_credentials c pat w = (Inr u, w') \<Longrightarrow> ju_username u = [] \<and> ju_display_name u = []"
  by (auto simp: validate_credentials_def sx_bind_def split: prod.splits sum.splits if_splits)

end
