(* ===== verification/Auth.thy ===== *)
theory Auth
  imports Chat Updates Jira_Client User_Store
begin

text \<open>
  The log-in conversation and the commands around it, \<open>src/src/dztgbot/jira_auth.py\<close>: \<open>/start\<close>, \<open>/help\<close>, \<open>/auth\<close> with the
  credential it asks for, \<open>/cancel\<close>, the timeout, \<open>/logout\<close> and the language.  Every call to Telegram may fail; the credential
  store has its file system faults and Jira and the VPN their environments.  How a text with code points outside of the modelled
  characters is judged as a credential is the parameter \<open>ae_wide\<close>.
\<close>

section \<open>State and environment\<close>

datatype conversation = Awaiting_PAT | Ended

record auth_update =
  up_user :: "int option"
  up_chat :: "string option option"
  up_message :: bool
  up_text :: "utext option"

record auth_config =
  ac_allowed :: "int list option"
  ac_pat_only :: bool
  ac_ttl_seconds :: int
  ac_tg_fails :: "nat \<Rightarrow> bool"
  ac_client :: jira_client
  ac_store_fails :: faults
  ac_store_path :: string
  ac_wide :: "utext \<Rightarrow> denial_code + string"

record auth_world = chat +
  aw_users :: user_store
  aw_client :: client_world
  aw_started :: "(int \<times> datetime) list"

type_synonym 'a auth_sx = "(auth_world, exn, 'a) sx"

definition on_users :: "'a store_sx \<Rightarrow> 'a auth_sx" where
  "on_users m = (\<lambda>w. case m (aw_users w) of (r, s) \<Rightarrow> (r, w\<lparr>aw_users := s\<rparr>))"

definition on_client :: "'a client_sx \<Rightarrow> 'a auth_sx" where
  "on_client m = (\<lambda>w. case m (aw_client w) of (r, c) \<Rightarrow> (r, w\<lparr>aw_client := c\<rparr>))"

abbreviation call :: "auth_config \<Rightarrow> chat_call \<Rightarrow> unit auth_sx" where
  "call env \<equiv> tg_call (ac_tg_fails env)"

abbreviation best_effort :: "unit auth_sx \<Rightarrow> unit auth_sx" where
  "best_effort m \<equiv> sx_try m (\<lambda>_. True) (\<lambda>_. sx_return ())"

section \<open>Fixed texts and menus\<close>

definition menu_button_texts :: "utext list" where
  "menu_button_texts =
     [([0x1F511] @ codes '' '' @ [0x9023, 0x7D50] @ codes '' Jira''), ([0x1F511] @ codes '' '' @ [0x7D81, 0x5B9A] @ codes '' Jira '' @ [0x5E33, 0x865F]), ([0x1F6AA] @ codes '' Logout''), ([0x1F6AA] @ codes '' '' @ [0x89E3, 0x7D81] @ codes '' Jira '' @ [0x5E33, 0x865F]), ([0x1F4CB] @ codes '' '' @ [0x6307, 0x6D3E, 0x7D66, 0x6211, 0x7684]), ([0x1F6A9] @ codes '' '' @ [0x6211, 0x5EFA, 0x7684]), ([0x1F50D] @ codes '' '' @ [0x641C, 0x5C0B]), ([0x1F4DD] @ codes '' '' @ [0x65B0, 0x5EFA]),
      ([0x1F4DD] @ codes '' '' @ [0x624B, 0x52D5, 0x5EFA, 0x7ACB] @ codes '' Jira '' @ [0x5DE5, 0x55AE]), ([0x1F4CA] @ codes '' '' @ [0x7AD9, 0x6703, 0x5831, 0x544A]), ([0x1F310] @ codes '' '' @ [0x8A9E, 0x8A00, 0x8A2D, 0x7F6E]), ([0x1F4D6] @ codes '' '' @ [0x8AAA, 0x660E]),
      ([0x1F511] @ codes '' Link Jira''), ([0x1F4CB] @ codes '' Assigned to Me''), ([0x1F6A9] @ codes '' Created by Me''), ([0x1F50D] @ codes '' Search''), ([0x1F4DD] @ codes '' New Issue''), ([0x1F4CA] @ codes '' Standup Report''), ([0x1F310] @ codes '' Language''), ([0x1F4D6] @ codes '' Help''),
      ([0x1F511] @ codes '' '' @ [0x7ED1, 0x5B9A] @ codes '' Jira''), ([0x1F511] @ codes '' '' @ [0x7ED1, 0x5B9A] @ codes '' Jira '' @ [0x8D26, 0x53F7]), ([0x1F6AA] @ codes '' '' @ [0x9000, 0x51FA, 0x767B, 0x5F55]), ([0x1F6AA] @ codes '' '' @ [0x89E3, 0x7ED1] @ codes '' Jira '' @ [0x8D26, 0x53F7]), ([0x1F4CB] @ codes '' '' @ [0x6307, 0x6D3E, 0x7ED9, 0x6211, 0x7684]), ([0x1F6A9] @ codes '' '' @ [0x6211, 0x521B, 0x5EFA, 0x7684]), ([0x1F50D] @ codes '' '' @ [0x641C, 0x7D22]), ([0x1F4DD] @ codes '' '' @ [0x65B0, 0x5EFA, 0x5DE5, 0x5355]),
      ([0x1F310] @ codes '' '' @ [0x8BED, 0x8A00, 0x8BBE, 0x7F6E]), ([0x1F4D6] @ codes '' '' @ [0x4F7F, 0x7528, 0x8BF4, 0x660E]),
      ([0x1F1F9, 0x1F1FC] @ codes '' '' @ [0x7E41, 0x9AD4, 0x4E2D, 0x6587]), ([0x1F1FA, 0x1F1F8] @ codes '' English''), ([0x1F1E8, 0x1F1F3] @ codes '' '' @ [0x7B80, 0x4F53, 0x4E2D, 0x6587])]"

definition auth_prompt :: utext where
  "auth_prompt =
     ([0x1F511] @ codes '' <b>'' @ [0x7D81, 0x5B9A, 0x60A8, 0x7684] @ codes '' Jira '' @ [0x5E33, 0x865F] @ codes ''</b>'' @ [0xA, 0xA, 0x8ACB, 0x767C, 0x9001, 0x60A8, 0x7684] @ codes '' <b>Jira '' @ [0x500B, 0x4EBA, 0x5B58, 0x53D6, 0x4EE4, 0x724C] @ codes '' (PAT)</b>'' @ [0x3002, 0xA, 0xA, 0x26A0, 0xFE0F] @ codes '' <b>'' @ [0x5B89, 0x5168, 0x63D0, 0x793A] @ codes ''</b>'' @ [0xFF1A, 0x6A5F, 0x5668, 0x4EBA, 0x6536, 0x5230, 0x6191, 0x64DA, 0x5F8C, 0x5C07] @ codes ''<b>'' @ [0x8655, 0x7406, 0x4E26, 0x522A, 0x9664] @ codes ''</b>'' @ [0x60A8, 0x7684, 0x8A0A, 0x606F, 0x3002, 0xA, 0x5982, 0x9700, 0x53D6, 0x6D88, 0xFF0C, 0x8ACB, 0x767C, 0x9001] @ codes '' /cancel'' @ [0x3002])"

definition auth_prompt_basic_allowed :: utext where
  "auth_prompt_basic_allowed =
     ([0x1F511] @ codes '' <b>'' @ [0x7D81, 0x5B9A, 0x60A8, 0x7684] @ codes '' Jira '' @ [0x5E33, 0x865F] @ codes ''</b>'' @ [0xA, 0xA, 0x8ACB, 0x767C, 0x9001, 0x60A8, 0x7684] @ codes '' <b>Jira '' @ [0x500B, 0x4EBA, 0x5B58, 0x53D6, 0x4EE4, 0x724C] @ codes '' (PAT)</b>'' @ [0xFF0C, 0xA, 0x6216, 0x767C, 0x9001] @ codes '' <code>'' @ [0x5E33, 0x865F] @ codes '':'' @ [0x5BC6, 0x78BC] @ codes ''</code> ('' @ [0x4F8B, 0x5982] @ codes '' <code>username:password</code>)'' @ [0x3002, 0xA, 0xA, 0x26A0, 0xFE0F] @ codes '' <b>'' @ [0x5B89, 0x5168, 0x63D0, 0x793A] @ codes ''</b>'' @ [0xFF1A, 0x6A5F, 0x5668, 0x4EBA, 0x6536, 0x5230, 0x6191, 0x64DA, 0x5F8C, 0x5C07] @ codes ''<b>'' @ [0x8655, 0x7406, 0x4E26, 0x522A, 0x9664] @ codes ''</b>'' @ [0x60A8, 0x7684, 0x8A0A, 0x606F, 0x3002, 0xA, 0x5982, 0x9700, 0x53D6, 0x6D88, 0xFF0C, 0x8ACB, 0x767C, 0x9001] @ codes '' /cancel'' @ [0x3002])"

definition group_redirect :: utext where
  "group_redirect = ([0x1F512] @ codes '' '' @ [0x70BA, 0x4E86, 0x60A8, 0x7684, 0x5E33, 0x865F, 0x5B89, 0x5168, 0xFF0C, 0x8ACB, 0x5728, 0x8207, 0x6A5F, 0x5668, 0x4EBA, 0x7684, 0x79C1, 0x804A, 0x8996, 0x7A97, 0x4E2D, 0x64CD, 0x4F5C, 0x3002, 0xA, 0x9EDE, 0x64CA, 0x6A5F, 0x5668, 0x4EBA, 0x982D, 0x50CF, 0x5373, 0x53EF, 0x958B, 0x555F, 0x79C1, 0x804A, 0x3002])"

definition logout_success :: utext where
  "logout_success = ([0x1F6AA] @ codes '' <b>'' @ [0x5DF2, 0x6210, 0x529F, 0x89E3, 0x9664, 0x672C, 0x6A5F, 0x7D81, 0x5B9A] @ codes ''</b>'' @ [0xA, 0xA, 0x672C, 0x6A5F, 0x5DF2, 0x6E05, 0x9664, 0x60A8, 0x7684] @ codes '' Jira '' @ [0x8A8D, 0x8B49, 0x8CC7, 0x6599, 0x3002, 0x6B64, 0x64CD, 0x4F5C, 0x4E0D, 0x6703, 0x64A4, 0x92B7] @ codes '' Jira '' @ [0x7AEF, 0x7684, 0x500B, 0x4EBA, 0x5B58, 0x53D6, 0x4EE4, 0x724C] @ codes '' (PAT)'' @ [0xFF1B, 0x5982, 0x9700, 0x64A4, 0x92B7, 0x8ACB, 0x81F3] @ codes '' Jira '' @ [0x81EA, 0x884C, 0x8655, 0x7406, 0x3002, 0xA, 0xA, 0x5982, 0x9700, 0x91CD, 0x65B0, 0x7D81, 0x5B9A, 0x8ACB, 0x9EDE, 0x64CA, 0x4E0B, 0x65B9, 0x6309, 0x9215, 0x6216, 0x767C, 0x9001] @ codes '' /auth'' @ [0x3002])"

definition logout_none :: utext where
  "logout_none = ([0x672A, 0x6AA2, 0x6E2C, 0x5230, 0x60A8, 0x5DF2, 0x7D81, 0x5B9A, 0x7684] @ codes '' Jira '' @ [0x5E33, 0x865F, 0x3002])"

definition logout_failed :: utext where
  "logout_failed = ([0x89E3, 0x7D81, 0x5931, 0x6557, 0xFF1A, 0x7121, 0x6CD5, 0x66F4, 0x65B0, 0x672C, 0x6A5F, 0x8A8D, 0x8B49, 0x5132, 0x5B58, 0x3002, 0x8ACB, 0x7A0D, 0x5F8C, 0x91CD, 0x8A66, 0x3002])"

definition store_failure :: utext where
  "store_failure = ([0x7D81, 0x5B9A, 0x5931, 0x6557, 0xFF1A, 0x7121, 0x6CD5, 0x5B89, 0x5168, 0x5132, 0x5B58, 0x8A8D, 0x8B49, 0x8CC7, 0x6599, 0x3002, 0x5148, 0x524D, 0x72C0, 0x614B, 0x5DF2, 0x4FDD, 0x7559, 0xFF0C, 0x8ACB, 0x7A0D, 0x5F8C, 0x91CD, 0x8A66, 0x6216, 0x767C, 0x9001] @ codes '' /cancel'' @ [0x3002])"

definition validation_failure :: utext where
  "validation_failure = ([0x274C] @ codes '' '' @ [0x9A57, 0x8B49, 0x5931, 0x6557, 0x3002, 0x8ACB, 0x78BA, 0x8A8D, 0x60A8, 0x7684, 0x500B, 0x4EBA, 0x5B58, 0x53D6, 0x4EE4, 0x724C, 0x5F8C, 0x91CD, 0x65B0, 0x767C, 0x9001, 0xFF0C, 0x6216, 0x767C, 0x9001] @ codes '' /cancel '' @ [0x53D6, 0x6D88, 0x3002])"

definition validating :: utext where
  "validating = ([0x1F504] @ codes '' '' @ [0x6B63, 0x5728, 0x9A57, 0x8B49, 0x60A8, 0x7684] @ codes '' Jira '' @ [0x500B, 0x4EBA, 0x5B58, 0x53D6, 0x4EE4, 0x724C] @ codes ''...'')"

definition cancelled_text :: utext where
  "cancelled_text = ([0x5DF2, 0x53D6, 0x6D88] @ codes '' Jira '' @ [0x5E33, 0x865F, 0x7D81, 0x5B9A, 0x64CD, 0x4F5C, 0x3002])"

definition late_input_ended :: utext where
  "late_input_ended = ([0x7D81, 0x5B9A, 0x64CD, 0x4F5C, 0x5DF2, 0x7D50, 0x675F, 0x3002, 0x5982, 0x9700, 0x7D81, 0x5B9A, 0x8ACB, 0x91CD, 0x65B0, 0x767C, 0x9001] @ codes '' /auth'' @ [0x3002])"

definition menu_updated :: utext where
  "menu_updated = ([0x529F, 0x80FD, 0x8868, 0x5DF2, 0x66F4, 0x65B0, 0xFF1A])"

definition main_menu :: "bool \<Rightarrow> string \<Rightarrow> utext list list" where
  "main_menu is_authed lang =
     (if is_authed then
        [[get_text ''btn_my_issues'' lang, get_text ''btn_created_issues'' lang],
         [get_text ''btn_search'' lang, get_text ''btn_new'' lang],
         [get_text ''btn_standup'' lang, get_text ''btn_language'' lang, get_text ''btn_logout'' lang]]
      else [[get_text ''btn_auth'' lang, get_text ''btn_language'' lang, get_text ''btn_help'' lang]])"

definition get_main_menu_keyboard :: "int option \<Rightarrow> user_store \<Rightarrow> utext list list" where
  "get_main_menu_keyboard user s =
     (case user of None \<Rightarrow> main_menu False ''zh_TW''
      | Some u \<Rightarrow> main_menu (get_credentials u s \<noteq> None) (get_language u s))"

abbreviation menu_of :: "int option \<Rightarrow> auth_world \<Rightarrow> reply_markup" where
  "menu_of user w \<equiv> Menu (get_main_menu_keyboard user (aw_users w))"

definition is_menu_button_text :: "utext \<Rightarrow> bool" where
  "is_menu_button_text t \<longleftrightarrow> ustrip t \<in> set menu_button_texts"

section \<open>The session\<close>

definition auth_ttl :: "int \<Rightarrow> int" where
  "auth_ttl ttl = (if ttl < 1 then 180 else ttl)"

definition is_auth_conversation_expired :: "datetime option \<Rightarrow> int \<Rightarrow> int \<Rightarrow> bool" where
  "is_auth_conversation_expired started now ttl_seconds =
     (case started of None \<Rightarrow> True
      | Some (Naive _) \<Rightarrow> True
      | Some (Aware t) \<Rightarrow> now \<ge> t + ttl_seconds * 1000000)"

text \<open>The user data exists for an update with a user.\<close>

definition clear_auth_session :: "int option \<Rightarrow> unit auth_sx" where
  "clear_auth_session user =
     (case user of None \<Rightarrow> sx_return ()
      | Some u \<Rightarrow> sx_modify (\<lambda>w. w\<lparr>aw_started := AList.delete u (aw_started w)\<rparr>))"

definition mark_auth_started :: "int option \<Rightarrow> datetime \<Rightarrow> unit auth_sx" where
  "mark_auth_started user t =
     (case user of None \<Rightarrow> sx_return ()
      | Some u \<Rightarrow> sx_modify (\<lambda>w. w\<lparr>aw_started := AList.update u t (aw_started w)\<rparr>))"

definition actor_is_allowed :: "auth_config \<Rightarrow> int \<Rightarrow> bool" where
  "actor_is_allowed env u = decision_allowed (require_allowed_user u (ac_allowed env))"

definition deny_not_allowed :: "auth_config \<Rightarrow> unit auth_sx" where
  "deny_not_allowed env = call env (Reply (user_message_for_denial DC_NOT_ALLOWED_USER) No_Markup)"

definition delete_credential_message :: "auth_config \<Rightarrow> unit auth_sx" where
  "delete_credential_message env =
     sx_try (call env Delete_Message) (\<lambda>_. True)
       (\<lambda>_. best_effort (call env (Send (user_message_for_denial DC_CREDENTIAL_DELETE_FAILED) No_Markup)))"

text \<open>\<open>credential_policy_decision\<close> followed by \<open>normalize_pat_input\<close>.\<close>

definition credential_of :: "auth_config \<Rightarrow> utext \<Rightarrow> denial_code + string" where
  "credential_of env t =
     (case latin t of None \<Rightarrow> ac_wide env t
      | Some s \<Rightarrow>
          (case credential_policy_decision (Some s) (ac_pat_only env) of
             Deny code \<Rightarrow> Inl code
           | Allow \<Rightarrow> (case normalize_pat_input s (ac_pat_only env) of
                 None \<Rightarrow> Inl DC_CREDENTIAL_FORMAT_REJECTED | Some pat \<Rightarrow> Inr pat)))"

definition edit_or_send :: "auth_config \<Rightarrow> utext \<Rightarrow> unit auth_sx" where
  "edit_or_send env t = sx_try (call env (Edit_Text t No_Markup)) (\<lambda>_. True) (\<lambda>_. call env (Send t No_Markup))"

section \<open>The conversation\<close>

definition auth_entry :: "auth_config \<Rightarrow> int \<Rightarrow> auth_update \<Rightarrow> conversation auth_sx" where
  "auth_entry env now u =
     (if \<not> up_message u \<or> up_chat u = None then sx_return Ended
      else if \<not> decision_allowed (require_private_chat (the (up_chat u))) then
        sx_bind (call env (Reply group_redirect No_Markup)) (\<lambda>_. sx_return Ended)
      else if (case up_user u of None \<Rightarrow> True | Some user \<Rightarrow> \<not> actor_is_allowed env user) then
        sx_bind (deny_not_allowed env) (\<lambda>_. sx_return Ended)
      else
        sx_bind (mark_auth_started (up_user u) (Aware now)) (\<lambda>_.
        sx_bind (call env (Reply (if ac_pat_only env then auth_prompt else auth_prompt_basic_allowed) No_Markup)) (\<lambda>_.
          sx_return Awaiting_PAT)))"

text \<open>\<open>except (UserStoreError, OSError, RuntimeError)\<close>.\<close>

definition is_store_failure :: "exn \<Rightarrow> bool" where
  "is_store_failure e = (case e of UserStoreError _ \<Rightarrow> True | OSError \<Rightarrow> True | OtherError n \<Rightarrow> n = ''RuntimeError'' | _ \<Rightarrow> False)"

text \<open>What follows a validated credential: the identity becomes part of the stored credentials.\<close>

definition store_validated :: "auth_config \<Rightarrow> int \<Rightarrow> string \<Rightarrow> jira_user \<Rightarrow> conversation auth_sx" where
  "store_validated env user pat ju =
     sx_bind (sx_lift (jira_credentials_post_init
       \<lparr>jc_username = ju_username ju, jc_display_name = ju_display_name ju, jc_pat = pat\<rparr>)) (\<lambda>credentials w.
       (case on_users (store_credentials (ac_store_fails env) (ac_store_path env) user credentials) w of
          (Inl e, w') \<Rightarrow>
            if is_store_failure e then sx_bind (edit_or_send env store_failure) (\<lambda>_. sx_return Awaiting_PAT) w' else (Inl e, w')
        | (Inr _, w') \<Rightarrow>
            sx_bind (clear_auth_session (Some user)) (\<lambda>_.
            sx_bind (sx_get (menu_of (Some user))) (\<lambda>menu.
            sx_bind (call env (Edit_Text
              (([0x2705] @ codes '' <b>Jira '' @ [0x5E33, 0x865F, 0x7D81, 0x5B9A, 0x6210, 0x529F, 0xFF01] @ codes ''</b>'' @ [0xA, 0xA, 0x5DF2, 0x9A57, 0x8B49, 0x8EAB, 0x4EFD, 0xFF1A] @ codes ''<b>'') @ py_escape (codes (ju_display_name ju)) @ (codes ''</b> ('') @
               py_escape (codes (ju_username ju)) @ (codes '')'' @ [0xA, 0xA, 0x60A8, 0x73FE, 0x5728, 0x53EF, 0x4EE5, 0x76F4, 0x63A5, 0x8F49, 0x767C, 0x8A0A, 0x606F, 0x6216, 0x9EDE, 0x64CA, 0x4E0B, 0x65B9, 0x6309, 0x9215, 0x5EFA, 0x7ACB, 0x5DE5, 0x55AE, 0x3002])) No_Markup)) (\<lambda>_.
            sx_bind (call env (Send menu_updated menu)) (\<lambda>_. sx_return Ended)))) w'))"

definition validate_and_store :: "auth_config \<Rightarrow> int \<Rightarrow> string \<Rightarrow> conversation auth_sx" where
  "validate_and_store env user pat =
     sx_bind (call env (Send validating No_Markup)) (\<lambda>_ w.
       (case on_client (validate_credentials (ac_client env) pat) w of
          (Inl _, w') \<Rightarrow> sx_bind (edit_or_send env validation_failure) (\<lambda>_. sx_return Awaiting_PAT) w'
        | (Inr ju, w') \<Rightarrow> store_validated env user pat ju w'))"

definition receive_pat :: "auth_config \<Rightarrow> int \<Rightarrow> auth_update \<Rightarrow> conversation auth_sx" where
  "receive_pat env now u =
     (case (up_message u, up_user u, up_chat u) of
        (True, Some user, Some chat_type) \<Rightarrow>
          if \<not> decision_allowed (require_private_chat chat_type) then
            sx_bind (clear_auth_session (Some user)) (\<lambda>_.
            sx_bind (call env (Reply group_redirect No_Markup)) (\<lambda>_. sx_return Ended))
          else
            (let stripped = ustrip (case up_text u of None \<Rightarrow> [] | Some t \<Rightarrow> t) in
             if \<not> actor_is_allowed env user then
               sx_bind (clear_auth_session (Some user)) (\<lambda>_.
               sx_bind (if stripped \<noteq> [] \<and> \<not> is_menu_button_text stripped then delete_credential_message env else sx_return ()) (\<lambda>_.
               sx_bind (deny_not_allowed env) (\<lambda>_. sx_return Ended)))
             else
               sx_bind (sx_get (\<lambda>w. is_auth_conversation_expired (map_of (aw_started w) user) now (auth_ttl (ac_ttl_seconds env)))) (\<lambda>expired.
               if is_menu_button_text stripped then
                 sx_bind (clear_auth_session (Some user)) (\<lambda>_.
                 sx_bind (sx_get (menu_of (Some user))) (\<lambda>menu.
                 sx_bind (call env (Reply (if expired then user_message_for_denial DC_AUTH_EXPIRED else late_input_ended) menu)) (\<lambda>_.
                   sx_return Ended)))
               else
                 sx_bind (delete_credential_message env) (\<lambda>_.
                 if expired then
                   sx_bind (clear_auth_session (Some user)) (\<lambda>_.
                   sx_bind (sx_get (menu_of (Some user))) (\<lambda>menu.
                   sx_bind (call env (Send (user_message_for_denial DC_AUTH_EXPIRED) menu)) (\<lambda>_. sx_return Ended)))
                 else (case credential_of env stripped of
                     Inl code \<Rightarrow> sx_bind (call env (Send (user_message_for_denial code) No_Markup)) (\<lambda>_. sx_return Awaiting_PAT)
                   | Inr pat \<Rightarrow> validate_and_store env user pat))))
      | _ \<Rightarrow> sx_bind (clear_auth_session (up_user u)) (\<lambda>_. sx_return Ended))"

definition cancel_auth :: "auth_config \<Rightarrow> auth_update \<Rightarrow> conversation auth_sx" where
  "cancel_auth env u =
     sx_bind (clear_auth_session (up_user u)) (\<lambda>_.
     sx_bind (if up_message u then
                sx_bind (sx_get (menu_of (up_user u))) (\<lambda>menu. call env (Reply cancelled_text menu))
              else sx_return ()) (\<lambda>_. sx_return Ended))"

definition auth_timeout :: "auth_config \<Rightarrow> auth_update \<Rightarrow> conversation auth_sx" where
  "auth_timeout env u =
     sx_bind (clear_auth_session (up_user u)) (\<lambda>_.
     sx_bind (sx_get (menu_of (up_user u))) (\<lambda>menu.
     sx_bind (best_effort
       (if up_message u then call env (Reply (user_message_for_denial DC_AUTH_EXPIRED) menu)
        else if up_chat u \<noteq> None then call env (Send (user_message_for_denial DC_AUTH_EXPIRED) menu)
        else sx_return ())) (\<lambda>_. sx_return Ended)))"

section \<open>Commands\<close>

definition help_text :: utext where
  "help_text =
     ([0x1F4D6] @ codes '' <b>DZTGBot Jira '' @ [0x52A9, 0x624B, 0x4F7F, 0x7528, 0x6307, 0x5357] @ codes ''</b>'' @ [0xA, 0xA, 0x1F916] @ codes '' <b>'' @ [0x4E00, 0x3001] @ codes ''AI '' @ [0x667A, 0x6167, 0x8F49, 0x767C, 0x5EFA, 0x55AE] @ codes ''</b>'' @ [0xA, 0x2022] @ codes '' <b>'' @ [0x8F49, 0x767C, 0x8A0A, 0x606F, 0x5EFA, 0x55AE, 0xFF1A] @ codes ''</b> '' @ [0x5C07, 0x4EFB, 0x4F55, 0x5C0D, 0x8A71, 0x6216, 0x5716, 0x7247, 0x8F49, 0x767C, 0x7D66, 0x6A5F, 0x5668, 0x4EBA, 0xFF0C] @ codes ''AI '' @ [0x81EA, 0x52D5, 0x63D0, 0x53D6, 0x6A19, 0x984C, 0x8207, 0x5167, 0x5BB9, 0x7522, 0x51FA, 0x8349, 0x7A3F, 0xFF0C, 0x9EDE, 0x64CA] @ codes '' <code>['' @ [0x2705] @ codes '' '' @ [0x78BA, 0x5B9A, 0x63D0, 0x4EA4] @ codes '']</code> '' @ [0x5373, 0x53EF, 0x767C, 0x5E03, 0x3002, 0xA, 0x2022] @ codes '' <b>PROD '' @ [0x55AE, 0x865F, 0x81EA, 0x52D5, 0x95DC, 0x806F, 0xFF1A] @ codes ''</b> '' @ [0x8F49, 0x767C, 0x5167, 0x5BB9, 0x542B] @ codes '' <code>PROD-xxx</code> '' @ [0x6642, 0xFF0C, 0x81EA, 0x52D5, 0x5EFA, 0x7ACB, 0x975E] @ codes '' PROD '' @ [0x958B, 0x767C, 0x55AE, 0xFF0C, 0x4E26, 0x81EA, 0x52D5, 0x9023, 0x7D50] @ codes '' (Relates to) '' @ [0x539F] @ codes '' PROD '' @ [0x55AE, 0x865F, 0x3002, 0xA, 0xA, 0x1F50D] @ codes '' <b>'' @ [0x4E8C, 0x3001, 0x5DE5, 0x55AE, 0x641C, 0x5C0B, 0x8207, 0x5FEB, 0x901F, 0x9078, 0x55AE] @ codes ''</b>'' @ [0xA, 0x2022] @ codes '' <b>'' @ [0x5FEB, 0x6377, 0x9078, 0x55AE, 0x6309, 0x9215, 0xFF1A] @ codes ''</b>'' @ [0xA] @ codes ''  - <code>['' @ [0x1F4CB] @ codes '' '' @ [0x6307, 0x6D3E, 0x7D66, 0x6211, 0x7684] @ codes '']</code>'' @ [0xFF1A, 0x5217, 0x51FA, 0x6307, 0x6D3E, 0x7D66, 0x60A8, 0x7684, 0x672A, 0x89E3, 0x6C7A, 0x5DE5, 0x55AE] @ codes '' (/my)'' @ [0xA] @ codes ''  - <code>['' @ [0x1F6A9] @ codes '' '' @ [0x6211, 0x5EFA, 0x7684] @ codes '']</code>'' @ [0xFF1A, 0x5217, 0x51FA, 0x60A8, 0x767C, 0x8D77, 0x7684, 0x5DE5, 0x55AE] @ codes '' (/created)'' @ [0xA] @ codes ''  - <code>['' @ [0x1F50D] @ codes '' '' @ [0x641C, 0x5C0B] @ codes '']</code>'' @ [0xFF1A, 0x8F38, 0x5165] @ codes '' <code>/s '' @ [0x95DC, 0x9375, 0x5B57] @ codes ''</code> '' @ [0x641C, 0x5C0B, 0x5DE5, 0x55AE] @ codes '' (/s)'' @ [0xA] @ codes ''  - <code>['' @ [0x1F4DD] @ codes '' '' @ [0x65B0, 0x5EFA] @ codes '']</code>'' @ [0xFF1A, 0x624B, 0x52D5, 0x5EFA, 0x7ACB, 0x5DE5, 0x55AE, 0x8349, 0x7A3F] @ codes '' (/new)'' @ [0xA, 0x2022] @ codes '' <b>'' @ [0x55AE, 0x865F] @ codes ''/'' @ [0x7DB2, 0x5740, 0x81EA, 0x52D5, 0x958B, 0x555F, 0xFF1A] @ codes ''</b> '' @ [0x5728, 0x5C0D, 0x8A71, 0x4E2D, 0x767C, 0x9001] @ codes '' <code>PROJ-123</code> '' @ [0x6216] @ codes '' Jira '' @ [0x7DB2, 0x5740, 0xFF0C, 0x81EA, 0x52D5, 0x6D6E, 0x73FE, 0x4E92, 0x52D5, 0x5361, 0x7247, 0x3002, 0xA, 0x2022] @ codes '' <b>Inline '' @ [0x641C, 0x5C0B, 0xFF1A] @ codes ''</b> '' @ [0x5728, 0x4EFB, 0x4F55, 0x804A, 0x5929, 0x8996, 0x7A97, 0x8F38, 0x5165] @ codes '' <code>@'' @ [0x6A5F, 0x5668, 0x4EBA, 0x540D, 0x7A31] @ codes '' '' @ [0x95DC, 0x9375, 0x5B57] @ codes ''</code> '' @ [0x5373, 0x53EF, 0x5206, 0x4EAB, 0x5DE5, 0x55AE, 0x3002, 0xA, 0xA, 0x26A1] @ codes '' <b>'' @ [0x4E09, 0x3001, 0x5DE5, 0x55AE, 0x5361, 0x7247, 0x5FEB, 0x6377, 0x64CD, 0x4F5C] @ codes '' (Issue Card)</b>'' @ [0xA, 0x2022] @ codes '' <b>'' @ [0x5DE5, 0x4F5C, 0x6D41, 0x8F49, 0x79FB, 0xFF1A] @ codes ''</b> '' @ [0x9EDE, 0x64CA] @ codes '' <code>['' @ [0x25B6, 0xFE0F] @ codes '' '' @ [0x958B, 0x59CB, 0x958B, 0x767C] @ codes '']</code> '' @ [0x6216] @ codes '' <code>['' @ [0x27A1, 0xFE0F] @ codes '' Move]</code> '' @ [0x5207, 0x63DB] @ codes '' Jira '' @ [0x72C0, 0x614B, 0x3002, 0xA, 0x2022] @ codes '' <b>'' @ [0x56DE, 0x8986, 0x5361, 0x7247, 0x65B0, 0x589E, 0x7559, 0x8A00] @ codes ''/'' @ [0x9644, 0x4EF6, 0xFF1A] @ codes ''</b> '' @ [0x76F4, 0x63A5] @ codes ''<b>'' @ [0x56DE, 0x8986] @ codes '' (Reply)</b> '' @ [0x5361, 0x7247, 0x8A0A, 0x606F, 0xFF08, 0x767C, 0x9001, 0x6587, 0x5B57, 0x6216, 0x7167, 0x7247, 0xFF09, 0xFF0C, 0x81EA, 0x52D5, 0x540C, 0x6B65, 0x81F3] @ codes '' Jira'' @ [0xFF01, 0xA, 0x2022] @ codes '' <b>'' @ [0x6307, 0x6D3E, 0x8207, 0x963B, 0x7919, 0xFF1A] @ codes ''</b> '' @ [0x9EDE, 0x64CA] @ codes '' <code>['' @ [0x1F464] @ codes '' '' @ [0x6307, 0x6D3E] @ codes '']</code> '' @ [0x5FEB, 0x901F, 0x6307, 0x6D3E, 0xFF0C, 0x6216, 0x9EDE, 0x64CA] @ codes '' <code>['' @ [0x26A0, 0xFE0F] @ codes '' '' @ [0x963B, 0x7919] @ codes '']</code> '' @ [0x6A19, 0x8A18] @ codes '' Impediment '' @ [0x963B, 0x7919, 0x3002, 0xA, 0x2022] @ codes '' <b>'' @ [0x5B50, 0x4EFB, 0x52D9, 0x5EFA, 0x7ACB, 0xFF1A] @ codes ''</b> '' @ [0x9EDE, 0x64CA] @ codes '' <code>['' @ [0x2795] @ codes '' '' @ [0x5B50, 0x4EFB, 0x52D9] @ codes '']</code> '' @ [0x767C, 0x8D77, 0x95DC, 0x806F] @ codes '' Sub-task '' @ [0x8349, 0x7A3F, 0x3002, 0xA, 0xA, 0x1F514] @ codes '' <b>'' @ [0x56DB, 0x3001, 0x672A, 0x8B80, 0x901A, 0x77E5, 0x63A8, 0x64AD] @ codes ''</b>'' @ [0xA, 0x2022] @ codes '' '' @ [0x6BCF] @ codes '' 5 '' @ [0x5206, 0x9418, 0x81EA, 0x52D5, 0x8F2A, 0x8A62, 0x4E26, 0x63A8, 0x64AD, 0x60A8, 0x7684, 0x5F85, 0x8FA6, 0x7570, 0x52D5, 0x8207, 0x6700, 0x65B0, 0x7559, 0x8A00, 0x81F3] @ codes '' Telegram'' @ [0x3002, 0xA, 0xA, 0x1F511] @ codes '' <b>'' @ [0x4E94, 0x3001, 0x5E33, 0x865F, 0x7BA1, 0x7406] @ codes ''</b>'' @ [0xA, 0x2022] @ codes '' <code>['' @ [0x1F511] @ codes '' '' @ [0x9023, 0x7D50] @ codes '' Jira]</code> '' @ [0x6216] @ codes '' <code>/auth</code>'' @ [0xFF1A, 0x7D81, 0x5B9A] @ codes '' Jira '' @ [0x500B, 0x4EBA, 0x5B58, 0x53D6, 0x4EE4, 0x724C] @ codes '' (PAT) '' @ [0x6216] @ codes '' '' @ [0x5E33, 0x865F] @ codes '':'' @ [0x5BC6, 0x78BC, 0x3002, 0xA, 0x2022] @ codes '' <code>['' @ [0x1F6AA] @ codes '' Logout]</code> '' @ [0x6216] @ codes '' <code>/logout</code>'' @ [0xFF1A, 0x89E3, 0x7D81, 0x672C, 0x6A5F, 0x6191, 0x64DA, 0x3002])"

definition welcome_text :: "jira_credentials option \<Rightarrow> utext" where
  "welcome_text c =
     (case c of
        Some c \<Rightarrow> ([0x1F44B] @ codes '' '' @ [0x6B61, 0x8FCE, 0x4F7F, 0x7528] @ codes '' DZTGBot'' @ [0xFF01, 0xA, 0x76EE, 0x524D, 0x7D81, 0x5B9A, 0x5E33, 0x865F, 0xFF1A] @ codes ''<b>'') @ py_escape (codes (jc_display_name c)) @ (codes ''</b> ('') @
          py_escape (codes (jc_username c)) @ (codes '')'' @ [0xA, 0xA, 0x53EF, 0x4EE5, 0x76F4, 0x63A5, 0x8F49, 0x767C] @ codes '' Telegram '' @ [0x8A0A, 0x606F, 0x751F, 0x6210, 0x5DE5, 0x55AE, 0xFF0C, 0x6216, 0x9EDE, 0x64CA, 0x4E0B, 0x65B9, 0x6309, 0x9215, 0x958B, 0x59CB, 0x4F7F, 0x7528, 0x3002])
      | None \<Rightarrow> ([0x1F44B] @ codes '' '' @ [0x6B61, 0x8FCE, 0x4F7F, 0x7528] @ codes '' DZTGBot'' @ [0xFF01, 0xA, 0xA, 0x8ACB, 0x5148, 0x9EDE, 0x64CA, 0x4E0B, 0x65B9] @ codes '' <b>['' @ [0x1F511] @ codes '' '' @ [0x7D81, 0x5B9A] @ codes '' Jira '' @ [0x5E33, 0x865F] @ codes '']</b> '' @ [0x5B8C, 0x6210, 0x7D81, 0x5B9A, 0xFF0C, 0x5373, 0x53EF, 0x8F49, 0x767C, 0x8A0A, 0x606F, 0x6216, 0x9EDE, 0x64CA] @ codes '' <b>['' @ [0x1F4DD] @ codes '' '' @ [0x624B, 0x52D5, 0x5EFA, 0x7ACB] @ codes '' Jira '' @ [0x5DE5, 0x55AE] @ codes '']</b> '' @ [0x5FEB, 0x901F, 0x767C, 0x55AE, 0x3002]))"

definition start_command :: "auth_config \<Rightarrow> auth_update \<Rightarrow> unit auth_sx" where
  "start_command env u =
     (case (up_message u, up_user u, up_chat u) of
        (True, Some user, Some chat_type) \<Rightarrow>
          if \<not> decision_allowed (require_private_chat chat_type) then call env (Reply group_redirect No_Markup)
          else if \<not> actor_is_allowed env user then deny_not_allowed env
          else
            sx_bind (sx_get (\<lambda>w. (menu_of (Some user) w,
              if may_disclose_jira_identity chat_type then get_credentials user (aw_users w) else None))) (\<lambda>(menu, credentials).
              call env (Reply (welcome_text credentials) menu))
      | _ \<Rightarrow> sx_return ())"

definition help_command :: "auth_config \<Rightarrow> auth_update \<Rightarrow> unit auth_sx" where
  "help_command env u =
     (if \<not> up_message u then sx_return ()
      else if \<not> decision_allowed (require_private_chat (case up_chat u of None \<Rightarrow> None | Some t \<Rightarrow> t)) then
        call env (Reply group_redirect No_Markup)
      else (case up_user u of
          Some user \<Rightarrow>
            if actor_is_allowed env user then sx_bind (sx_get (menu_of (Some user))) (\<lambda>menu. call env (Reply help_text menu))
            else deny_not_allowed env
        | None \<Rightarrow> deny_not_allowed env))"

definition logout_command :: "auth_config \<Rightarrow> auth_update \<Rightarrow> unit auth_sx" where
  "logout_command env u =
     (case (up_message u, up_user u) of
        (True, Some user) \<Rightarrow>
          if \<not> decision_allowed (require_private_chat (case up_chat u of None \<Rightarrow> None | Some t \<Rightarrow> t)) then
            call env (Reply group_redirect No_Markup)
          else if \<not> actor_is_allowed env user then deny_not_allowed env
          else
            sx_bind (clear_auth_session (Some user)) (\<lambda>_ w.
              (case on_users (remove_credentials (ac_store_fails env) (ac_store_path env) user) w of
                 (Inl e, w') \<Rightarrow>
                   if is_store_failure e
                   then sx_bind (sx_get (menu_of (Some user))) (\<lambda>menu. call env (Reply logout_failed menu)) w' else (Inl e, w')
               | (Inr removed, w') \<Rightarrow>
                   sx_bind (sx_get (menu_of (Some user))) (\<lambda>menu.
                     call env (Reply (if removed then logout_success else logout_none) menu)) w'))
      | _ \<Rightarrow> sx_return ())"

section \<open>Languages\<close>

definition build_language_selection_keyboard :: inline_keyboard where
  "build_language_selection_keyboard =
     [[callback_button ([0x1F1F9, 0x1F1FC] @ codes '' '' @ [0x7E41, 0x9AD4, 0x4E2D, 0x6587]) ''set_lang:zh_TW'', callback_button ([0x1F1FA, 0x1F1F8] @ codes '' English'') ''set_lang:en'',
       callback_button ([0x1F1E8, 0x1F1F3] @ codes '' '' @ [0x7B80, 0x4F53, 0x4E2D, 0x6587]) ''set_lang:zh_CN'']]"

definition language_command :: "auth_config \<Rightarrow> auth_update \<Rightarrow> unit auth_sx" where
  "language_command env u =
     (case (up_message u, up_user u) of
        (True, Some user) \<Rightarrow>
          sx_bind (sx_get (\<lambda>w. get_language user (aw_users w))) (\<lambda>lang.
            call env (Reply (get_text ''lang_select_prompt'' lang) (Inline build_language_selection_keyboard)))
      | _ \<Rightarrow> sx_return ())"

text \<open>A press of a language button; \<open>has_message\<close> says whether its message still exists.\<close>

definition handle_language_callback :: "auth_config \<Rightarrow> int option \<Rightarrow> string \<Rightarrow> bool \<Rightarrow> unit auth_sx" where
  "handle_language_callback env user data has_message =
     (case user of None \<Rightarrow> sx_return ()
      | Some u \<Rightarrow>
          sx_bind (call env (Answer None False)) (\<lambda>_.
          if \<not> starts_with ''set_lang:'' data then sx_return ()
          else
            (let selected = split_on (CHR '':'') data ! 1 in
             sx_bind (on_users (set_language (ac_store_fails env) (ac_store_path env) u selected)) (\<lambda>_.
             sx_bind (sx_get (menu_of (Some u))) (\<lambda>menu.
             sx_bind (best_effort (call env (Edit_Text (get_text ''lang_changed_notice'' selected) No_Markup))) (\<lambda>_.
               if has_message then call env (Reply ([0x2728]) menu) else sx_return ()))))))"

section \<open>Nobody logs in\<close>

text \<open>No user has credentials that \<open>s\<close> does not hold.\<close>

definition no_new_credentials :: "user_store \<Rightarrow> user_store \<Rightarrow> bool" where
  "no_new_credentials s t \<longleftrightarrow> (\<forall>uid. get_credentials uid t \<in> {None, get_credentials uid s})"

abbreviation nothing_new :: "user_store \<Rightarrow> auth_world \<Rightarrow> bool" where
  "nothing_new s \<equiv> \<lambda>w. no_new_credentials s (aw_users w)"

lemma keeps_calls [inv_intros]: "sx_keeps (nothing_new s) (call env c)"
  by (simp add: sx_keeps_def tg_call_def Let_def)

lemma keeps_client [inv_intros]: "sx_keeps (nothing_new s) (on_client m)"
  by (simp add: sx_keeps_def on_client_def split: prod.splits)

lemma keeps_session [inv_intros]:
  "sx_keeps (nothing_new s) (clear_auth_session u)" "sx_keeps (nothing_new s) (mark_auth_started u t)"
  by (auto simp: clear_auth_session_def mark_auth_started_def intro!: inv_intros keeps_modify)

lemma keeps_users: "sx_keeps (no_new_credentials s) m \<Longrightarrow> sx_keeps (nothing_new s) (on_users m)"
  by (auto simp: sx_keeps_def on_users_def split: prod.splits)

lemma write_store_credentials: "us_credentials (snd (write_store fails p cs ls t)) = us_credentials t"
proof -
  obtain ls' where "snd (serialize_store cs ls t) = t\<lparr>us_languages := ls'\<rparr>" using serialize_state by blast
  then show ?thesis
    by (auto simp: write_store_def sx_bind_def on_disk_def split: prod.splits sum.splits)
qed

lemma keeps_write [inv_intros]: "sx_keeps (no_new_credentials s) (write_store fails p cs ls)"
  by (simp add: sx_keeps_def no_new_credentials_def get_credentials_def write_store_credentials)

lemma keeps_set_language [inv_intros]: "sx_keeps (no_new_credentials s) (set_language fails p uid l)"
  unfolding set_language_def Let_def
  by (intro inv_intros) (auto intro!: inv_intros keeps_modify simp: no_new_credentials_def get_credentials_def split: prod.splits)?

lemma remove_run:
  "no_new_credentials s t \<Longrightarrow> no_new_credentials s (snd (remove_credentials fails p uid t))"
proof -
  assume t: "no_new_credentials s t"
  let ?w = "write_store fails p (AList.delete uid (us_credentials t)) None t"
  have *: "us_credentials (snd ?w) = us_credentials t" by (rule write_store_credentials)
  have "snd (remove_credentials fails p uid t) \<in> {t, snd ?w, (snd ?w)\<lparr>us_credentials := AList.delete uid (us_credentials t)\<rparr>}"
    by (cases ?w) (auto simp: remove_credentials_def sx_bind_def sx_lift_def sx_get_def sx_return_def sx_modify_def validate_user_id_def
        ensure_def split: sum.splits)
  moreover have "no_new_credentials s (snd ?w)" using t * by (simp add: no_new_credentials_def get_credentials_def)
  moreover have "no_new_credentials s ((snd ?w)\<lparr>us_credentials := AList.delete uid (us_credentials t)\<rparr>)"
    using t by (auto simp: no_new_credentials_def get_credentials_def delete_conv')
  ultimately show ?thesis using t by auto
qed

lemma keeps_remove [inv_intros]: "sx_keeps (no_new_credentials s) (remove_credentials fails p uid)"
  by (simp add: sx_keeps_def remove_run)

text \<open>A validated credential has no identity, so that the credentials to store cannot be built.\<close>

lemma store_validated_raises:
  "ju_username ju = [] \<Longrightarrow>
     store_validated env user pat ju w = (Inl (UserStoreError ''jira_username must be a non-empty string''), w)"
  by (simp add: store_validated_def jira_credentials_post_init_def sx_bind_def sx_lift_def)

lemma keeps_messages [inv_intros]:
  "sx_keeps (nothing_new s) (edit_or_send env t)" "sx_keeps (nothing_new s) (deny_not_allowed env)"
  "sx_keeps (nothing_new s) (delete_credential_message env)"
  unfolding edit_or_send_def deny_not_allowed_def delete_credential_message_def by (intro inv_intros)+

lemma keeps_validate [inv_intros]: "sx_keeps (nothing_new s) (validate_and_store env user pat)"
proof -
  have "sx_keeps (nothing_new s) (\<lambda>w. case on_client (validate_credentials (ac_client env) pat) w of
      (Inl e, w') \<Rightarrow> sx_bind (edit_or_send env validation_failure) (\<lambda>_. sx_return Awaiting_PAT) w'
    | (Inr ju, w') \<Rightarrow> store_validated env user pat ju w')" (is "sx_keeps _ ?m")
  proof -
    have "nothing_new s (snd (?m w))" if w: "nothing_new s w" for w
    proof (cases "on_client (validate_credentials (ac_client env) pat) w")
      case (Pair r t)
      from sx_keepsD[OF keeps_client w, of "validate_credentials (ac_client env) pat"] Pair have t: "nothing_new s t" by simp
      have m: "sx_keeps (nothing_new s) (sx_bind (edit_or_send env validation_failure) (\<lambda>_. sx_return Awaiting_PAT))"
        by (intro inv_intros)
      show ?thesis
      proof (cases r)
        case (Inr ju)
        from Pair Inr have "ju_username ju = []" by (auto simp: on_client_def split: prod.splits dest: validated_user)
        from store_validated_raises[OF this] Pair Inr t show ?thesis by simp
      next
        case (Inl e)
        with Pair sx_keepsD[OF m t] show ?thesis by simp
      qed
    qed
    then show ?thesis by (simp add: sx_keeps_def)
  qed
  then show ?thesis unfolding validate_and_store_def by (intro inv_intros)
qed

datatype auth_op =
    Start auth_update | Help auth_update | Auth int auth_update | Credential int auth_update | Cancel auth_update
  | Timeout auth_update | Logout auth_update | Language auth_update | Language_Button "int option" string bool

fun run_auth_op :: "auth_config \<Rightarrow> auth_op \<Rightarrow> auth_world \<Rightarrow> auth_world" where
  "run_auth_op env (Start u) w = snd (start_command env u w)"
| "run_auth_op env (Help u) w = snd (help_command env u w)"
| "run_auth_op env (Auth now u) w = snd (auth_entry env now u w)"
| "run_auth_op env (Credential now u) w = snd (receive_pat env now u w)"
| "run_auth_op env (Cancel u) w = snd (cancel_auth env u w)"
| "run_auth_op env (Timeout u) w = snd (auth_timeout env u w)"
| "run_auth_op env (Logout u) w = snd (logout_command env u w)"
| "run_auth_op env (Language u) w = snd (language_command env u w)"
| "run_auth_op env (Language_Button user data m) w = snd (handle_language_callback env user data m w)"

lemma keeps_pair3 [inv_intros]:
  "\<lbrakk>\<And>b c. sx_keeps P (f b c); sx_keeps P g\<rbrakk> \<Longrightarrow>
     sx_keeps P (case (a, x, y) of (True, Some b, Some c) \<Rightarrow> f b c | _ \<Rightarrow> g)"
  "\<lbrakk>\<And>b. sx_keeps P (h b); sx_keeps P g\<rbrakk> \<Longrightarrow> sx_keeps P (case (a, x) of (True, Some b) \<Rightarrow> h b | _ \<Rightarrow> g)"
  "(\<And>u v. sx_keeps P (k u v)) \<Longrightarrow> sx_keeps P (case z of (u, v) \<Rightarrow> k u v)"
  by (auto split: bool.splits option.splits prod.splits)

lemma keeps_conversation:
  "sx_keeps (nothing_new s) (auth_entry env now u)" "sx_keeps (nothing_new s) (receive_pat env now u)"
  "sx_keeps (nothing_new s) (cancel_auth env u)" "sx_keeps (nothing_new s) (auth_timeout env u)"
  unfolding auth_entry_def receive_pat_def cancel_auth_def auth_timeout_def Let_def
  by (intro inv_intros)+

lemma keeps_if_handled: "sx_keeps P m \<Longrightarrow> sx_keeps P (\<lambda>w. if b then m w else (Inl e, w))"
  by (simp add: sx_keeps_def)

lemma keeps_logout: "sx_keeps (nothing_new s) (logout_command env u)"
proof -
  have step: "sx_keeps (nothing_new s) (\<lambda>w. case m w of (Inl e, w') \<Rightarrow> if c e then f w' else (Inl e, w') | (Inr r, w') \<Rightarrow> g r w')"
    if "sx_keeps (nothing_new s) m" "sx_keeps (nothing_new s) f" "\<And>r. sx_keeps (nothing_new s) (g r)"
    for m :: "bool auth_sx" and f :: "unit auth_sx" and g c
  proof -
    have "nothing_new s (snd (case m w of (Inl e, w') \<Rightarrow> if c e then f w' else (Inl e, w') | (Inr r, w') \<Rightarrow> g r w'))"
      if w: "nothing_new s w" for w
    proof (cases "m w")
      case (Pair r t)
      with sx_keepsD[OF \<open>sx_keeps (nothing_new s) m\<close> w] have t: "nothing_new s t" by simp
      from sx_keepsD[OF \<open>sx_keeps (nothing_new s) f\<close> t] sx_keepsD[OF \<open>\<And>r. sx_keeps (nothing_new s) (g r)\<close> t] t Pair
      show ?thesis by (cases r) simp_all
    qed
    then show ?thesis by (simp add: sx_keeps_def)
  qed
  show ?thesis
    unfolding logout_command_def
    by (rule keeps_pair3(2); (intro inv_intros step keeps_users)?)
qed

lemma keeps_commands:
  "sx_keeps (nothing_new s) (start_command env u)" "sx_keeps (nothing_new s) (help_command env u)"
  "sx_keeps (nothing_new s) (language_command env u)" "sx_keeps (nothing_new s) (handle_language_callback env user data m)"
  unfolding start_command_def help_command_def language_command_def handle_language_callback_def Let_def
  by (intro inv_intros keeps_users)+

lemma run_auth_ops_keep: "nothing_new s w \<Longrightarrow> nothing_new s (fold (run_auth_op env) ops w)"
proof (induction ops arbitrary: w)
  case (Cons x xs)
  have "nothing_new s (run_auth_op env x w)"
    using Cons.prems keeps_conversation keeps_commands keeps_logout by (cases x) (auto intro: sx_keepsD)
  with Cons.IH show ?case by simp
qed simp

text \<open>
  C36. Nobody can log in: over any sequence of commands, conversations and language changes of any users, whatever Jira, Telegram, the
  VPN and the disk answer, no user ever gets credentials that were not there before (and the credential conversation of a valid
  token ends in a \<open>UserStoreError\<close>).
\<close>

theorem nobody_logs_in:
  "get_credentials user (aw_users (fold (run_auth_op env) ops w)) \<in> {None, get_credentials user (aw_users w)}"
  using run_auth_ops_keep[of "aw_users w" w env ops] by (simp add: no_new_credentials_def)

section \<open>What the conversation does with a text\<close>

text \<open>Calls that say nothing about the text: deletions, and fixed texts with the menu of a user.\<close>

fun quiet_text :: "auth_config \<Rightarrow> utext \<Rightarrow> bool" where
  "quiet_text env t \<longleftrightarrow> t \<in> range user_message_for_denial \<union> {group_redirect, late_input_ended, validating, validation_failure, store_failure}"

fun quiet_call :: "auth_config \<Rightarrow> chat_call \<Rightarrow> bool" where
  "quiet_call env Delete_Message = True"
| "quiet_call env (Reply t m) = quiet_text env t"
| "quiet_call env (Send t m) = quiet_text env t"
| "quiet_call env (Edit_Text t m) = quiet_text env t"
| "quiet_call env _ = False"

lemma quiet_texts [inv_intros]:
  "quiet_text env (user_message_for_denial c)" "quiet_text env group_redirect" "quiet_text env late_input_ended"
  "quiet_text env validating" "quiet_text env validation_failure" "quiet_text env store_failure"
  "quiet_text env s \<Longrightarrow> quiet_text env t \<Longrightarrow> quiet_text env (if b then s else t)"
  by auto

declare quiet_text.simps [simp del]

lemma quiet_call_texts [inv_intros]:
  "quiet_call env Delete_Message" "quiet_text env t \<Longrightarrow> quiet_call env (Reply t m)"
  "quiet_text env t \<Longrightarrow> quiet_call env (Send t m)" "quiet_text env t \<Longrightarrow> quiet_call env (Edit_Text t m)"
  by simp_all

text \<open>The log grows by quiet calls only.\<close>

definition log_quiet :: "auth_config \<Rightarrow> (chat_call \<times> bool) list \<Rightarrow> auth_world \<Rightarrow> bool" where
  "log_quiet env base w \<longleftrightarrow> (\<exists>rest. ch_log w = base @ rest \<and> list_all (quiet_call env \<circ> fst) rest)"

lemma quiet_calls [inv_intros]: "quiet_call env c \<Longrightarrow> sx_keeps (log_quiet env base) (call env' c)"
  by (auto simp: sx_keeps_def tg_call_def Let_def log_quiet_def)

lemma quiet_session [inv_intros]: "sx_keeps (log_quiet env base) (clear_auth_session u)"
  by (auto simp: clear_auth_session_def log_quiet_def intro!: inv_intros keeps_modify)

lemma quiet_client: "sx_keeps (log_quiet env base) (on_client m)"
  by (simp add: sx_keeps_def on_client_def log_quiet_def split: prod.splits)

lemma quiet_messages [inv_intros]:
  "quiet_text env t \<Longrightarrow> sx_keeps (log_quiet env base) (edit_or_send env' t)"
  "sx_keeps (log_quiet env base) (deny_not_allowed env')"
  "sx_keeps (log_quiet env base) (delete_credential_message env')"
  unfolding edit_or_send_def deny_not_allowed_def delete_credential_message_def by (intro inv_intros; assumption?)+

lemma quiet_validate [inv_intros]: "sx_keeps (log_quiet env base) (validate_and_store env' user pat)"
proof -
  let ?m = "\<lambda>w. case on_client (validate_credentials (ac_client env') pat) w of
      (Inl e, w') \<Rightarrow> sx_bind (edit_or_send env' validation_failure) (\<lambda>_. sx_return Awaiting_PAT) w'
    | (Inr ju, w') \<Rightarrow> store_validated env' user pat ju w'"
  have "log_quiet env base (snd (?m w))" if w: "log_quiet env base w" for w
  proof (cases "on_client (validate_credentials (ac_client env') pat) w")
    case (Pair r t)
    from sx_keepsD[OF quiet_client w, of "validate_credentials (ac_client env') pat"] Pair have t: "log_quiet env base t" by simp
    show ?thesis
    proof (cases r)
      case (Inr ju)
      from Pair Inr have "ju_username ju = []" by (auto simp: on_client_def split: prod.splits dest: validated_user)
      from store_validated_raises[OF this] Pair Inr t show ?thesis by simp
    next
      case (Inl e)
      have "sx_keeps (log_quiet env base) (sx_bind (edit_or_send env' validation_failure) (\<lambda>_. sx_return Awaiting_PAT))"
        by (intro inv_intros)
      with Pair Inl sx_keepsD[OF this t] show ?thesis by simp
    qed
  qed
  then have "sx_keeps (log_quiet env base) ?m" by (simp add: sx_keeps_def)
  then show ?thesis unfolding validate_and_store_def by (intro inv_intros)
qed

lemma receive_pat_quiet: "sx_keeps (log_quiet env base) (receive_pat env' now u)"
  unfolding receive_pat_def Let_def by (intro inv_intros)+

text \<open>Everything but a validation leaves Jira and the VPN alone.\<close>

definition client_is :: "client_world \<Rightarrow> auth_world \<Rightarrow> bool" where
  "client_is c w \<longleftrightarrow> aw_client w = c"

lemma client_calls [inv_intros]: "sx_keeps (client_is k) (call env c)"
  by (simp add: sx_keeps_def tg_call_def Let_def client_is_def)

lemma client_session [inv_intros]: "sx_keeps (client_is k) (clear_auth_session u)"
  by (auto simp: clear_auth_session_def client_is_def intro!: inv_intros keeps_modify)

lemma client_messages [inv_intros]:
  "sx_keeps (client_is k) (deny_not_allowed env)" "sx_keeps (client_is k) (delete_credential_message env)"
  unfolding deny_not_allowed_def delete_credential_message_def by (intro inv_intros)+

lemma delete_run:
  obtains rest where "set (map fst rest) \<subseteq> {Send (user_message_for_denial DC_CREDENTIAL_DELETE_FAILED) No_Markup}"
    and "delete_credential_message env w =
      (Inr (), w\<lparr>ch_log := ch_log w @ (Delete_Message, \<not> ac_tg_fails env (length (ch_log w))) # rest\<rparr>)"
proof (cases "ac_tg_fails env (length (ch_log w))")
  case True
  then show thesis
    by (intro that[of "[(Send (user_message_for_denial DC_CREDENTIAL_DELETE_FAILED) No_Markup, \<not> ac_tg_fails env (Suc (length (ch_log w))))]"])
      (simp_all add: delete_credential_message_def sx_try_def tg_call_def Let_def sx_return_def)
next
  case False
  then show thesis
    by (intro that[of "[]"]) (simp_all add: delete_credential_message_def sx_try_def tg_call_def Let_def)
qed

lemma receive_pat_client:
  assumes "receive_pat env now u w = (r, w')" and "aw_client w' \<noteq> aw_client w"
  shows "\<exists>user chat_type pat rest. up_user u = Some user \<and> up_chat u = Some chat_type \<and> is_private_chat chat_type \<and>
    actor_is_allowed env user \<and>
    \<not> is_auth_conversation_expired (map_of (aw_started w) user) now (auth_ttl (ac_ttl_seconds env)) \<and>
    credential_of env (ustrip (case up_text u of None \<Rightarrow> [] | Some t \<Rightarrow> t)) = Inr pat \<and>
    set (map fst rest) \<subseteq> {Send (user_message_for_denial DC_CREDENTIAL_DELETE_FAILED) No_Markup} \<and>
    receive_pat env now u w = validate_and_store env user pat
      (w\<lparr>ch_log := ch_log w @ (Delete_Message, \<not> ac_tg_fails env (length (ch_log w))) # rest\<rparr>)"
proof -
  let ?t = "ustrip (case up_text u of None \<Rightarrow> [] | Some t \<Rightarrow> t)"
  have keep: "\<not> sx_keeps (client_is (aw_client w)) (receive_pat env now u)"
    using assms sx_keepsD[of "client_is (aw_client w)" "receive_pat env now u" w] by (auto simp: client_is_def)
  have stop: "sx_keeps (client_is (aw_client w)) (sx_bind (clear_auth_session v) (\<lambda>_. sx_return Ended))" for v
    by (intro inv_intros)
  have m: "up_message u" and "up_user u \<noteq> None" and "up_chat u \<noteq> None"
    using keep stop by (auto simp: receive_pat_def split: bool.splits option.splits)
  then obtain user chat_type where user: "up_user u = Some user" and chat: "up_chat u = Some chat_type" by auto
  note run = receive_pat_def[of env now u, unfolded user chat Let_def, simplified m prod.case bool.case option.case]
  have priv: "is_private_chat chat_type"
  proof (rule ccontr)
    assume "\<not> is_private_chat chat_type"
    then have "receive_pat env now u = sx_bind (clear_auth_session (Some user)) (\<lambda>_.
        sx_bind (call env (Reply group_redirect No_Markup)) (\<lambda>_. sx_return Ended))"
      by (simp add: run require_private_chat_def decision_allowed_def)
    moreover have "sx_keeps (client_is (aw_client w)) (sx_bind (clear_auth_session (Some user)) (\<lambda>_.
        sx_bind (call env (Reply group_redirect No_Markup)) (\<lambda>_. sx_return Ended)))"
      by (intro inv_intros)
    ultimately show False using keep by simp
  qed
  then have p: "decision_allowed (require_private_chat chat_type)" by (simp add: require_private_chat_def decision_allowed_def)
  have allowed: "actor_is_allowed env user"
  proof (rule ccontr)
    assume n: "\<not> actor_is_allowed env user"
    have "sx_keeps (client_is (aw_client w)) (receive_pat env now u)"
      unfolding run using p n by (simp only: if_True if_False not_True_eq_False not_False_eq_True) (intro inv_intros)
    with keep show False by blast
  qed
  let ?expired = "is_auth_conversation_expired (map_of (aw_started w) user) now (auth_ttl (ac_ttl_seconds env))"
  have menu: "\<not> is_menu_button_text ?t"
  proof
    assume n: "is_menu_button_text ?t"
    have "sx_keeps (client_is (aw_client w)) (receive_pat env now u)"
      unfolding run using p allowed n by (simp only: if_True if_False not_True_eq_False) (intro inv_intros)
    with keep show False by blast
  qed
  obtain rest where said: "set (map fst rest) \<subseteq> {Send (user_message_for_denial DC_CREDENTIAL_DELETE_FAILED) No_Markup}"
    and del: "delete_credential_message env w =
      (Inr (), w\<lparr>ch_log := ch_log w @ (Delete_Message, \<not> ac_tg_fails env (length (ch_log w))) # rest\<rparr>)"
    by (rule delete_run)
  let ?w = "w\<lparr>ch_log := ch_log w @ (Delete_Message, \<not> ac_tg_fails env (length (ch_log w))) # rest\<rparr>"
  let ?go = "if ?expired then
         sx_bind (clear_auth_session (Some user)) (\<lambda>_.
         sx_bind (sx_get (menu_of (Some user))) (\<lambda>menu.
         sx_bind (call env (Send (user_message_for_denial DC_AUTH_EXPIRED) menu)) (\<lambda>_. sx_return Ended)))
       else case credential_of env ?t of
           Inl code \<Rightarrow> sx_bind (call env (Send (user_message_for_denial code) No_Markup)) (\<lambda>_. sx_return Awaiting_PAT)
         | Inr pat \<Rightarrow> validate_and_store env user pat"
  have go: "receive_pat env now u w = ?go ?w"
    unfolding run using p allowed menu del by (simp add: sx_bind_def sx_get_def)
  with assms have res: "?go ?w = (r, w')" by simp
  have "client_is (aw_client w) ?w" by (simp add: client_is_def)
  then have "\<not> sx_keeps (client_is (aw_client w)) ?go"
    using res assms(2) sx_keepsD[of "client_is (aw_client w)" ?go ?w] by (auto simp: client_is_def)
  then have live: "\<not> ?expired" and "\<exists>pat. credential_of env ?t = Inr pat"
    by (auto intro!: inv_intros split: sum.splits if_splits)
  then obtain pat where pat: "credential_of env ?t = Inr pat" by blast
  with go live have "receive_pat env now u w = validate_and_store env user pat ?w" by simp
  with user chat priv allowed live pat said show ?thesis by blast
qed

text \<open>
  C37. The credential conversation is careful with what it is sent: whatever the text is, all it says are fixed texts; and when the Jira
  client was used, a permitted user sent a well-formed credential in a private chat before the deadline, and the validation, the
  only step that asks Jira and stores anything, ran from a world that differs from the one before the message in nothing but this: the
  deletion of the message was attempted (and a fixed warning sent when Telegram refused it).
\<close>

theorem credential_text_protected:
  "list_all (\<lambda>(c, _). quiet_call env c) (drop (length (ch_log w)) (ch_log (snd (receive_pat env now u w)))) \<and>
   (aw_client (snd (receive_pat env now u w)) \<noteq> aw_client w \<longrightarrow>
      (\<exists>user chat_type pat rest. up_user u = Some user \<and> up_chat u = Some chat_type \<and> is_private_chat chat_type \<and>
        actor_is_allowed env user \<and>
        \<not> is_auth_conversation_expired (map_of (aw_started w) user) now (auth_ttl (ac_ttl_seconds env)) \<and>
        credential_of env (ustrip (case up_text u of None \<Rightarrow> [] | Some t \<Rightarrow> t)) = Inr pat \<and>
        set (map fst rest) \<subseteq> {Send (user_message_for_denial DC_CREDENTIAL_DELETE_FAILED) No_Markup} \<and>
        receive_pat env now u w = validate_and_store env user pat
          (w\<lparr>ch_log := ch_log w @ (Delete_Message, \<not> ac_tg_fails env (length (ch_log w))) # rest\<rparr>)))"
proof (intro conjI impI)
  have "log_quiet env (ch_log w) w" by (simp add: log_quiet_def)
  from sx_keepsD[OF receive_pat_quiet this, of env now u]
  show "list_all (\<lambda>(c, _). quiet_call env c) (drop (length (ch_log w)) (ch_log (snd (receive_pat env now u w))))"
    by (fastforce simp: log_quiet_def list_all_iff)
next
  assume "aw_client (snd (receive_pat env now u w)) \<noteq> aw_client w"
  then show "\<exists>user chat_type pat rest. up_user u = Some user \<and> up_chat u = Some chat_type \<and> is_private_chat chat_type \<and>
        actor_is_allowed env user \<and>
        \<not> is_auth_conversation_expired (map_of (aw_started w) user) now (auth_ttl (ac_ttl_seconds env)) \<and>
        credential_of env (ustrip (case up_text u of None \<Rightarrow> [] | Some t \<Rightarrow> t)) = Inr pat \<and>
        set (map fst rest) \<subseteq> {Send (user_message_for_denial DC_CREDENTIAL_DELETE_FAILED) No_Markup} \<and>
        receive_pat env now u w = validate_and_store env user pat
          (w\<lparr>ch_log := ch_log w @ (Delete_Message, \<not> ac_tg_fails env (length (ch_log w))) # rest\<rparr>)"
    by (rule receive_pat_client[OF surjective_pairing])
qed

section \<open>A sample conversation\<close>

text \<open>A validation starts the VPN, whatever Jira answers.\<close>

lemma edit_or_send_client: "aw_client (snd (edit_or_send env t w)) = aw_client w"
  by (simp add: edit_or_send_def sx_try_def tg_call_def Let_def)

lemma validation_starts_vpn:
  assumes "jl_vpn (ac_client env) = Some (m, cmds)" and "\<And>n. \<not> ac_tg_fails env n"
  shows "cl_vpn (aw_client (snd (validate_and_store env user pat w))) = snd (vpn_start m cmds (cl_vpn (aw_client w)))"
proof -
  let ?w = "w\<lparr>ch_log := ch_log w @ [(Send validating No_Markup, True)]\<rparr>"
  obtain r c where v: "validate_credentials (ac_client env) pat (aw_client w) = (r, c)" by fastforce
  have vpn: "cl_vpn c = snd (vpn_start m cmds (cl_vpn (aw_client w)))"
    using v assms(1)
    by (auto simp: validate_credentials_def client_request_def client_ensure_vpn_def sx_bind_def sx_modify_def sx_raise_def sx_return_def
        split: prod.splits sum.splits if_splits)
  have call: "call env (Send validating No_Markup) w = (Inr (), ?w)" using assms(2) by (simp add: tg_call_def)
  have client: "on_client (validate_credentials (ac_client env) pat) ?w = (r, ?w\<lparr>aw_client := c\<rparr>)"
    using v by (simp add: on_client_def)
  show ?thesis
  proof (cases r)
    case (Inr ju)
    with v have "ju_username ju = []" by (auto dest: validated_user)
    from store_validated_raises[OF this] Inr call client vpn show ?thesis by (simp add: validate_and_store_def sx_bind_def)
  next
    case (Inl e)
    have "sx_keeps (client_is c) (sx_bind (edit_or_send env validation_failure) (\<lambda>_. sx_return Awaiting_PAT))"
      by (intro inv_intros) (simp add: sx_keeps_def client_is_def edit_or_send_client)
    from sx_keepsD[OF this, of "?w\<lparr>aw_client := c\<rparr>"] Inl call client vpn show ?thesis
      by (simp add: validate_and_store_def sx_bind_def client_is_def)
  qed
qed

definition sample_auth_config :: auth_config where
  "sample_auth_config = \<lparr>ac_allowed = None, ac_pat_only = True, ac_ttl_seconds = 180, ac_tg_fails = (\<lambda>_. False),
     ac_client = \<lparr>jl_gateway = sample_jira_env (\<lambda>_ _. HttpTimeout), jl_vpn = Some (sample_vpn_manager, sample_commands)\<rparr>,
     ac_store_fails = (\<lambda>_. False), ac_store_path = ''users.json'', ac_wide = (\<lambda>_. Inl DC_CREDENTIAL_FORMAT_REJECTED)\<rparr>"

definition sample_auth_world :: auth_world where
  "sample_auth_world = \<lparr>ch_log = [], aw_users = user_store_init sample_disk,
     aw_client = \<lparr>cl_http = idle_world, cl_vpn = idle_vpn\<rparr>, aw_started = [(7, Aware 0)]\<rparr>"

definition sample_credential :: auth_update where
  "sample_credential = \<lparr>up_user = Some 7, up_chat = Some (Some ''private''), up_message = True, up_text = Some (codes ''token'')\<rparr>"

lemma sample_credential_accepted:
  "credential_of sample_auth_config (codes ''token'') = Inr ''token''" "ustrip (codes ''token'') = codes ''token''"
  "\<not> is_menu_button_text (codes ''token'')"
proof -
  show "ustrip (codes ''token'') = codes ''token''" by (simp add: ustrip_def is_uspace_def)
  then show "\<not> is_menu_button_text (codes ''token'')" by (simp add: is_menu_button_text_def menu_button_texts_def)
  have "classify_credential_text ''token'' = CK_PAT"
    by (subst classify_credential_text.simps)
      (simp add: Let_def py_strip_def is_space_def py_casefold_def fold_char_def starts_with_def contains_def)
  then show "credential_of sample_auth_config (codes ''token'') = Inr ''token''"
    by (simp add: credential_of_def credential_policy_decision_def normalize_pat_input_def sample_auth_config_def latin_codes
        classify_credential_input_def Let_def py_strip_def is_space_def py_casefold_def fold_char_def starts_with_def
        del: codes_simps)
qed


lemma sample_config_fields:
  "ac_allowed sample_auth_config = None" "ac_ttl_seconds sample_auth_config = 180" "ac_tg_fails sample_auth_config n = False"
  "jl_vpn (ac_client sample_auth_config) = Some (sample_vpn_manager, sample_commands)"
  by (simp_all add: sample_auth_config_def)

lemma sample_guards:
  "actor_is_allowed sample_auth_config 7" "is_private_chat (Some ''private'')"
  "\<not> is_auth_conversation_expired (map_of (aw_started sample_auth_world) 7) 0 (auth_ttl (ac_ttl_seconds sample_auth_config))"
  by (simp_all add: actor_is_allowed_def require_allowed_user_def decision_allowed_def is_private_chat_def py_casefold_def fold_char_def
      is_auth_conversation_expired_def auth_ttl_def sample_auth_world_def sample_config_fields)

lemma sample_validates:
  "receive_pat sample_auth_config 0 sample_credential sample_auth_world =
     validate_and_store sample_auth_config 7 ''token'' (sample_auth_world\<lparr>ch_log := [(Delete_Message, True)]\<rparr>)"
proof -
  have "delete_credential_message sample_auth_config sample_auth_world =
      (Inr (), sample_auth_world\<lparr>ch_log := [(Delete_Message, True)]\<rparr>)"
    by (simp add: delete_credential_message_def sx_try_def tg_call_def sample_config_fields sample_auth_world_def)
  then show ?thesis
    using sample_guards sample_credential_accepted
    by (simp add: receive_pat_def sample_credential_def require_private_chat_def decision_allowed_def sx_bind_def sx_get_def
        del: codes_simps)
qed

theorem credential_text_protected_witness:
  "\<exists>user pat rest. receive_pat sample_auth_config 0 sample_credential sample_auth_world =
     validate_and_store sample_auth_config user pat (sample_auth_world\<lparr>ch_log := (Delete_Message, True) # rest\<rparr>)"
proof -
  obtain w' where start: "vpn_start sample_vpn_manager sample_commands idle_vpn =
      (status_of VPN_UP ''L2TP/IPsec VPN tunnel is up.'', w')" and clock: "vw_clock w' = 80"
    using sample_start by blast
  have "cl_vpn (aw_client (snd (receive_pat sample_auth_config 0 sample_credential sample_auth_world))) = w'"
    unfolding sample_validates
    by (subst validation_starts_vpn[of _ sample_vpn_manager sample_commands])
      (simp_all add: sample_config_fields sample_auth_world_def start)
  then have "aw_client (snd (receive_pat sample_auth_config 0 sample_credential sample_auth_world)) \<noteq> aw_client sample_auth_world"
    using clock by (auto simp: sample_auth_world_def)
  moreover have "ch_log sample_auth_world = []" "\<not> ac_tg_fails sample_auth_config 0"
    by (simp_all add: sample_auth_world_def sample_config_fields)
  ultimately show ?thesis
    using credential_text_protected [where w = sample_auth_world and env = sample_auth_config and now = 0 and u = sample_credential]
    by auto
qed
end
