(* ===== verification/Card_Handlers.thy ===== *)
theory Card_Handlers
  imports Chat Updates Keyboards Issue_Service Admin Intake_Analysis Url Workflow_Service
begin

text \<open>
  The handlers of issue cards and searches over the issue service: \<open>src/src/dztgbot/ui/handlers/search.py\<close> and
  \<open>src/src/dztgbot/ui/handlers/actions.py\<close>.  A handler is a computation over the log of the calls to Telegram, the
  repository with the card table, the world of the Jira adapter, the edits of registered cards, the answers to inline queries
  and the two entries that a user's \<open>user_data\<close> has for them.  Texts of messages and names of users are strings of
  the character type here, since the patterns and the data of buttons are.
\<close>

section \<open>World, environment and updates\<close>

record article =
  ra_id :: string
  ra_title :: string
  ra_description :: string
  ra_card :: utext
  ra_keyboard :: inline_keyboard

record card_world = chat +
  kw_repo :: repo
  kw_http :: http_world
  kw_edits :: "(int \<times> int \<times> utext \<times> inline_keyboard) list"
  kw_articles :: "article list list"
  kw_search :: "(jira_search_result \<times> string \<times> string) option"
  kw_pending_block :: "string option"

type_synonym 'a card_sx = "(card_world, exn, 'a) sx"

text \<open>
  What the handlers get from outside: the Jira environment, the credential store, the clock, a fresh draft identifier, the
  identifier of the card a call sends, which calls to Telegram fail, the downloaded photo and \<open>str\<close> of an exception.
\<close>

record card_env =
  ke_jira :: jira_env
  ke_lookup :: credential_lookup
  ke_now :: int
  ke_new_id :: string
  ke_message_id :: int
  ke_tg_fails :: "nat \<Rightarrow> bool"
  ke_photo :: "exn + string"
  ke_str :: "exn \<Rightarrow> utext"

text \<open>
  An update: the user with the user name and the first name, the chat, whether there is a message and its text, the arguments of
  a command, the text or caption of the message it replies to, the file of its last photo, the data of the pressed button and whether
  its message is known, and the text of an inline query.
\<close>

record card_update =
  cu_user :: "int option"
  cu_username :: "string option"
  cu_first_name :: string
  cu_chat :: "int option"
  cu_message :: bool
  cu_text :: "string option"
  cu_args :: "string list"
  cu_reply_to :: "string option"
  cu_photo :: "string option"
  cu_query :: "(string option \<times> bool) option"
  cu_inline :: "string option"

definition on_http :: "'a http_sx \<Rightarrow> 'a card_sx" where
  "on_http m = (\<lambda>w. case m (kw_http w) of (r, h) \<Rightarrow> (r, w\<lparr>kw_http := h\<rparr>))"

definition on_cards :: "(repo, exn, 'a) sx \<Rightarrow> 'a card_sx" where
  "on_cards m = (\<lambda>w. case m (kw_repo w) of (r, s) \<Rightarrow> (r, w\<lparr>kw_repo := s\<rparr>))"

abbreviation call :: "card_env \<Rightarrow> chat_call \<Rightarrow> unit card_sx" where
  "call env \<equiv> tg_call (ke_tg_fails env)"

text \<open>\<open>except Exception as error\<close>.\<close>

abbreviation catching :: "'a card_sx \<Rightarrow> (exn \<Rightarrow> 'a card_sx) \<Rightarrow> 'a card_sx" where
  "catching m \<equiv> sx_try m (\<lambda>_. True)"

definition has_query_message :: "card_update \<Rightarrow> bool" where
  "has_query_message u = (case cu_query u of Some (_, m) \<Rightarrow> m | None \<Rightarrow> False)"

definition query_data :: "card_update \<Rightarrow> string option" where
  "query_data u = (case cu_query u of Some (Some (c # cs), _) \<Rightarrow> Some (c # cs) | _ \<Rightarrow> None)"

text \<open>\<open>if update.callback_query and update.callback_query.message: ... reply_html\<close>.\<close>

definition query_reply :: "card_env \<Rightarrow> card_update \<Rightarrow> utext \<Rightarrow> reply_markup \<Rightarrow> unit card_sx" where
  "query_reply env u t m = (if has_query_message u then call env (Reply t m) else sx_return ())"

definition query_error :: "card_env \<Rightarrow> card_update \<Rightarrow> exn \<Rightarrow> unit card_sx" where
  "query_error env u e = query_reply env u (render_safe_feedback (ke_str env e)) No_Markup"

section \<open>Searches\<close>

definition is_blocked_view :: "jira_issue_view \<Rightarrow> bool" where
  "is_blocked_view i \<longleftrightarrow> iv_is_flagged i \<or> iv_blocker_keys i \<noteq> []"

definition search_filter_code :: "string \<Rightarrow> string" where
  "search_filter_code title =
     (if contains ''Created'' title then ''created'' else if contains ''Unassigned'' title then ''unassigned''
      else if contains ''Blocked'' title then ''blocked'' else if contains ''Sprint'' title then ''sprint'' else ''my'')"

definition send_search_results ::
  "card_env \<Rightarrow> card_update \<Rightarrow> string \<Rightarrow> (int \<Rightarrow> jira_search_result http_sx) \<Rightarrow> unit card_sx" where
  "send_search_results env u title fetcher =
     (case (cu_user u, cu_chat u) of
        (Some user, Some _) \<Rightarrow>
          sx_bind (catching (sx_bind (on_http (fetcher user)) (\<lambda>r. sx_return (Some r)))
            (\<lambda>e. sx_bind (if cu_message u then call env (Reply (render_safe_feedback (ke_str env e)) No_Markup) else query_error env u e)
                    (\<lambda>_. sx_return None))) (\<lambda>found.
            (case found of
               None \<Rightarrow> sx_return ()
             | Some result \<Rightarrow>
                 (let code = search_filter_code title;
                      shown = Reply (render_compact_search_list result (codes title) 1)
                        (Inline (build_paginated_search_keyboard (sr_issues result) code 1)) in
                  sx_bind (sx_modify (\<lambda>w. w\<lparr>kw_search := Some (result, title, code)\<rparr>)) (\<lambda>_.
                  if has_query_message u then sx_bind (call env (Answer None False)) (\<lambda>_. call env shown)
                  else if cu_message u then call env shown else sx_return ()))))
      | _ \<Rightarrow> sx_return ())"

definition handle_my_open :: "card_env \<Rightarrow> card_update \<Rightarrow> unit card_sx" where
  "handle_my_open env u = send_search_results env u ''My Open Issues''
     (\<lambda>user. service_filter (ke_jira env) (ke_lookup env) user ''my_open'' 7)"

definition handle_created :: "card_env \<Rightarrow> card_update \<Rightarrow> unit card_sx" where
  "handle_created env u = send_search_results env u ''Issues I Created''
     (\<lambda>user. service_filter (ke_jira env) (ke_lookup env) user ''i_created'' 7)"

definition handle_unassigned :: "card_env \<Rightarrow> card_update \<Rightarrow> unit card_sx" where
  "handle_unassigned env u = send_search_results env u ''Unassigned Open Issues''
     (\<lambda>user. service_filter (ke_jira env) (ke_lookup env) user ''unassigned'' 7)"

definition handle_blocked :: "card_env \<Rightarrow> card_update \<Rightarrow> unit card_sx" where
  "handle_blocked env u = send_search_results env u ''Blocked & Flagged Issues''
     (\<lambda>user. service_filter (ke_jira env) (ke_lookup env) user ''blocked'' 7)"

definition handle_sprint :: "card_env \<Rightarrow> card_update \<Rightarrow> unit card_sx" where
  "handle_sprint env u = send_search_results env u ''Active Sprint Issues''
     (\<lambda>user. service_filter (ke_jira env) (ke_lookup env) user ''sprint'' 7)"

text \<open>The \<open>if\<close> chain that a filter button and a page button of a forgotten search share.\<close>

definition search_by_code :: "card_env \<Rightarrow> card_update \<Rightarrow> string \<Rightarrow> unit card_sx" where
  "search_by_code env u code =
     (if code = ''my'' then handle_my_open env u else if code = ''created'' then handle_created env u
      else if code = ''unassigned'' then handle_unassigned env u else if code = ''blocked'' then handle_blocked env u
      else if code = ''sprint'' then handle_sprint env u else sx_return ())"

definition handle_filter_callback :: "card_env \<Rightarrow> card_update \<Rightarrow> unit card_sx" where
  "handle_filter_callback env u =
     (case query_data u of
        None \<Rightarrow> sx_return ()
      | Some data \<Rightarrow> search_by_code env u (if starts_with ''flt:'' data then drop 4 data else data))"

definition handle_page_callback :: "card_env \<Rightarrow> card_update \<Rightarrow> unit card_sx" where
  "handle_page_callback env u =
     (case (query_data u, cu_user u) of
        (Some data, Some user) \<Rightarrow>
          sx_bind (call env (Answer None False)) (\<lambda>_.
          (let parts = split_on (CHR '':'') data in
           if length parts < 3 then sx_return ()
           else (let page = (case int_text (parts ! 2) of None \<Rightarrow> 1 | Some n \<Rightarrow> n) in
             sx_bind (sx_get kw_search) (\<lambda>stored.
             (case stored of
                None \<Rightarrow> search_by_code env u (parts ! 1)
              | Some (result, title, _) \<Rightarrow>
                  if has_query_message u then
                    call env (Edit_Text (render_compact_search_list result (codes title) page)
                      (Inline (build_paginated_search_keyboard (sr_issues result) (parts ! 1) page)))
                  else sx_return ())))))
      | _ \<Rightarrow> sx_return ())"

fun join_words :: "string list \<Rightarrow> string" where
  "join_words [] = []"
| "join_words [w] = w"
| "join_words (w # ws) = w @ CHR '' '' # join_words ws"

definition handle_keyword_search :: "card_env \<Rightarrow> card_update \<Rightarrow> unit card_sx" where
  "handle_keyword_search env u =
     (if cu_args u = [] then
        if cu_message u then call env (Reply (codes ''Usage: <code>/s &lt;keywords&gt;</code>'') No_Markup) else sx_return ()
      else (let keywords = join_words (cu_args u) in
        send_search_results env u (''Search: '' @ keywords)
          (\<lambda>user. search_keywords (ke_jira env) (ke_lookup env) user keywords 7)))"

definition handle_search_prompt :: "card_env \<Rightarrow> card_update \<Rightarrow> unit card_sx" where
  "handle_search_prompt env u =
     (if cu_message u then call env (Reply (([0x1F50D] @ codes '' '') @ bold ((codes ''Jira '' @ [0x5DE5, 0x55AE, 0x641C, 0x5C0B])) @ newline @ newline @
        ([0x8ACB, 0x4F7F, 0x7528] @ codes '' <code>/s &lt;'' @ [0x95DC, 0x9375, 0x5B57] @ codes ''&gt;</code> '' @ [0x641C, 0x5C0B, 0x5DE5, 0x55AE] @ codes '' ('' @ [0x4F8B, 0x5982] @ codes '': <code>/s '' @ [0x767B, 0x5165] @ codes ''</code>)'' @ [0x3002]) @ newline @
        ([0x6216, 0x9EDE, 0x64CA, 0x5FEB, 0x901F, 0x9078, 0x55AE] @ codes '': <b>['' @ [0x1F4CB] @ codes '' '' @ [0x6307, 0x6D3E, 0x7D66, 0x6211, 0x7684] @ codes '']</b> '' @ [0x6216] @ codes '' <b>['' @ [0x1F6A9] @ codes '' '' @ [0x6211, 0x5EFA, 0x7684] @ codes '']</b>'')) No_Markup)
      else sx_return ())"

definition handle_standup_report :: "card_env \<Rightarrow> card_update \<Rightarrow> unit card_sx" where
  "handle_standup_report env u =
     (case cu_user u of
        None \<Rightarrow> sx_return ()
      | Some user \<Rightarrow> catching
          (sx_bind (on_http (get_standup_summary (ke_jira env) (ke_lookup env) user)) (\<lambda>(blocked, in_progress, in_qa, finished).
             (let shown = Reply (render_standup_report blocked in_progress in_qa finished) No_Markup in
              if cu_message u then call env shown
              else if has_query_message u then sx_bind (call env (Answer None False)) (\<lambda>_. call env shown)
              else sx_return ())))
          (\<lambda>e. if cu_message u then call env (Reply (render_safe_feedback (ke_str env e)) No_Markup) else sx_return ()))"

section \<open>Showing a card\<close>

text \<open>\<open>str.split\<close> at a word: the piece after its first occurrence, up to the next one.\<close>

fun until_word :: "string \<Rightarrow> string \<Rightarrow> string" where
  "until_word p [] = []"
| "until_word p (c # cs) = (if starts_with p (c # cs) then [] else c # until_word p cs)"

fun after_word :: "string \<Rightarrow> string \<Rightarrow> string" where
  "after_word p [] = []"
| "after_word p (c # cs) =
     (if starts_with p (c # cs) then until_word p (drop (length p) (c # cs)) else after_word p cs)"

definition view_keyboard :: "jira_issue_view \<Rightarrow> jira_transition_view option \<Rightarrow> inline_keyboard" where
  "view_keyboard i primary = build_universal_issue_card_keyboard (iv_issue_key i) (iv_issue_url i) (is_blocked_view i) (iv_is_watching i)
     primary [] (extract_figma_url (iv_description i))"

text \<open>The keyboard of an unfurled or inline card, which passes neither the watch state nor a Figma link.\<close>

definition plain_keyboard :: "jira_issue_view \<Rightarrow> inline_keyboard" where
  "plain_keyboard i = build_universal_issue_card_keyboard (iv_issue_key i) (iv_issue_url i) (is_blocked_view i) False None [] None"

definition register_sent :: "card_env \<Rightarrow> int \<Rightarrow> int \<Rightarrow> jira_issue_view \<Rightarrow> unit card_sx" where
  "register_sent env user chat i = on_cards (register_card (ke_now env) chat (ke_message_id env) (iv_issue_key i) user)"

definition handle_show_card_callback :: "card_env \<Rightarrow> card_update \<Rightarrow> unit card_sx" where
  "handle_show_card_callback env u =
     (case (query_data u, cu_user u, cu_chat u) of
        (Some data, Some user, Some chat) \<Rightarrow>
          sx_bind (call env (Answer None False)) (\<lambda>_.
          (let key = after_word ''shc:'' data in
           if key = [] then sx_return ()
           else catching
             (sx_bind (on_http (service_get_issue (ke_jira env) (ke_lookup env) user key)) (\<lambda>i.
              sx_bind (on_http (service_get_transitions (ke_jira env) (ke_lookup env) user key)) (\<lambda>ts.
              sx_bind (call env (Send (render_issue_card i None)
                (Inline (view_keyboard i (case ts of [] \<Rightarrow> None | t # _ \<Rightarrow> Some t))))) (\<lambda>_.
                register_sent env user chat i))))
             (\<lambda>e. if has_query_message u then query_error env u e else sx_raise (OtherError ''AttributeError''))))
      | _ \<Rightarrow> sx_return ())"

text \<open>The pattern \<open>https?://[^/]+/browse/([A-Z0-9]+-\d+)\<close> without case, at a position and in a text: the key.\<close>

definition key_char :: "char \<Rightarrow> bool" where
  "key_char c \<longleftrightarrow> is_digit c \<or> is_upper_letter c"

text \<open>A key at the head of \<open>s\<close> and what follows it.\<close>

definition key_at :: "(char \<Rightarrow> bool) \<Rightarrow> string \<Rightarrow> (string \<times> string) option" where
  "key_at letter s =
     (let project = takeWhile letter s; tail = dropWhile letter s; digits = takeWhile is_digit (drop 1 tail) in
      if project \<noteq> [] \<and> tail \<noteq> [] \<and> hd tail = CHR ''-'' \<and> digits \<noteq> []
      then Some (project @ CHR ''-'' # digits, dropWhile is_digit (drop 1 tail)) else None)"

definition key_char_nocase :: "char \<Rightarrow> bool" where
  "key_char_nocase c \<longleftrightarrow> key_char c \<or> is_lower_letter c"

definition browse_key :: "string \<Rightarrow> string option" where
  "browse_key s =
     (case strip_nocase ''http'' s of None \<Rightarrow> None | Some s1 \<Rightarrow>
      case strip_nocase ''://'' (optional_nocase ''s'' s1) of None \<Rightarrow> None | Some s2 \<Rightarrow>
      if takeWhile (\<lambda>c. c \<noteq> CHR ''/'') s2 = [] then None else
      case strip_nocase ''/browse/'' (dropWhile (\<lambda>c. c \<noteq> CHR ''/'') s2) of None \<Rightarrow> None | Some s3 \<Rightarrow>
      map_option fst (key_at key_char_nocase s3))"

fun browse_search :: "string \<Rightarrow> string option" where
  "browse_search [] = None"
| "browse_search (c # cs) = (case browse_key (c # cs) of Some k \<Rightarrow> Some k | None \<Rightarrow> browse_search cs)"

definition handle_url_unfurl :: "card_env \<Rightarrow> card_update \<Rightarrow> unit card_sx" where
  "handle_url_unfurl env u =
     (case (cu_user u, cu_chat u, cu_message u, cu_text u) of
        (Some user, Some chat, True, Some t) \<Rightarrow>
          (case browse_search t of
             None \<Rightarrow> sx_return ()
           | Some k \<Rightarrow> catching
               (sx_bind (on_http (service_get_issue (ke_jira env) (ke_lookup env) user (py_upper k))) (\<lambda>i.
                sx_bind (call env (Reply (render_issue_card i None) (Inline (plain_keyboard i)))) (\<lambda>_.
                  register_sent env user chat i)))
               (\<lambda>e. sx_return ()))
      | _ \<Rightarrow> sx_return ())"

definition article_of :: "jira_issue_view \<Rightarrow> article" where
  "article_of i =
     \<lparr>ra_id = ''jira_'' @ iv_issue_key i, ra_title = iv_issue_key i @ '': '' @ iv_summary i,
      ra_description = iv_status i @ '' | '' @ iv_priority i @ '' | '' @ (if iv_assignee i = [] then ''Unassigned'' else iv_assignee i),
      ra_card = render_issue_card i None, ra_keyboard = plain_keyboard i\<rparr>"

definition answer_inline :: "card_env \<Rightarrow> article list \<Rightarrow> unit card_sx" where
  "answer_inline env rs = (\<lambda>w. if ke_tg_fails env (length (ch_log w)) then (Inl (OtherError ''TelegramError''), w)
     else (Inr (), w\<lparr>kw_articles := kw_articles w @ [rs]\<rparr>))"

definition handle_inline_query :: "card_env \<Rightarrow> card_update \<Rightarrow> unit card_sx" where
  "handle_inline_query env u =
     (case (cu_inline u, cu_user u) of
        (Some q, Some user) \<Rightarrow>
          if py_strip q = [] then sx_return ()
          else catching
            (sx_bind (on_http (search_keywords (ke_jira env) (ke_lookup env) user (py_strip q) 5)) (\<lambda>r.
               answer_inline env (map article_of (sr_issues r))))
            (\<lambda>e. sx_return ())
      | _ \<Rightarrow> sx_return ())"

section \<open>Refreshing cards\<close>

text \<open>Every registered card of the issue is edited; a failed edit is logged and the next one follows.\<close>

definition refresh_all_cards :: "jira_issue_view \<Rightarrow> unit card_sx" where
  "refresh_all_cards i =
     sx_bind (on_cards (refresh_issue_cards (iv_issue_key i))) (\<lambda>cards.
     sx_modify (\<lambda>w. w\<lparr>kw_edits := kw_edits w @
       map (\<lambda>(chat, msg). (chat, msg, render_issue_card i None, view_keyboard i None)) cards\<rparr>))"

section \<open>Buttons of a card\<close>

definition watch_toggle :: "card_env \<Rightarrow> card_update \<Rightarrow> int \<Rightarrow> string \<Rightarrow> bool \<Rightarrow> unit card_sx" where
  "watch_toggle env u user key watch =
     catching
       (sx_bind (on_http (if watch then service_watch (ke_jira env) (ke_lookup env) user key
                          else service_unwatch (ke_jira env) (ke_lookup env) user key)) (\<lambda>i.
        sx_bind (call env (Answer (Some (if watch then ([0x1F441, 0xFE0F] @ codes '' '' @ [0x5DF2, 0x52A0, 0x5165, 0x95DC, 0x6CE8, 0x6B64, 0x5DE5, 0x55AE, 0xFF01]) else ([0x1F441, 0xFE0F] @ codes '' '' @ [0x5DF2, 0x53D6, 0x6D88, 0x95DC, 0x6CE8, 0x6B64, 0x5DE5, 0x55AE, 0x3002]))) False)) (\<lambda>_.
          refresh_all_cards i)))
       (query_error env u)"

definition transition_buttons :: "string \<Rightarrow> jira_transition_view list \<Rightarrow> inline_keyboard" where
  "transition_buttons key ts = map (\<lambda>t. [callback_button (([0x27A1, 0xFE0F] @ codes '' '') @ codes (tv_name t) @ (codes '' ('') @ codes (tv_to_status t) @ (codes '')''))
     (''do_mv:'' @ key @ '':'' @ tv_transition_id t)]) ts"

definition move_start :: "card_env \<Rightarrow> card_update \<Rightarrow> int \<Rightarrow> string \<Rightarrow> unit card_sx" where
  "move_start env u user key =
     catching
       (sx_bind (on_http (service_get_transitions (ke_jira env) (ke_lookup env) user key)) (\<lambda>ts.
          if ts = [] then query_reply env u (([0x26A0, 0xFE0F] @ codes '' '') @ codes key @ (codes '' '' @ [0x7121, 0x53EF, 0x7528, 0x7684, 0x72C0, 0x614B, 0x8F49, 0x63DB, 0x3002])) No_Markup
          else query_reply env u (([0x27A1, 0xFE0F] @ codes '' '') @ bold (([0x8ACB, 0x9078, 0x64C7] @ codes '' '') @ codes key @ (codes '' '' @ [0x8981, 0x8F49, 0x79FB, 0x7684, 0x72C0, 0x614B] @ codes '':''))) (Inline (transition_buttons key ts))))
       (query_error env u)"

definition assign_start :: "card_env \<Rightarrow> card_update \<Rightarrow> string \<Rightarrow> unit card_sx" where
  "assign_start env u key =
     (let name = (case cu_username u of Some (c # cs) \<Rightarrow> c # cs | _ \<Rightarrow> cu_first_name u) in
      query_reply env u (([0x1F464] @ codes '' '') @ bold (([0x8ACB, 0x9078, 0x64C7] @ codes '' '') @ codes key @ (codes '' '' @ [0x7684, 0x6307, 0x6D3E, 0x5C0D, 0x8C61] @ codes '':'')))
        (Inline [[callback_button (([0x1F464] @ codes '' '' @ [0x6307, 0x6D3E, 0x7D66, 0x6211] @ codes '' (Me)'')) (''do_asn:'' @ key @ '':'' @ name),
                  callback_button (([0x1F6AB] @ codes '' '' @ [0x89E3, 0x9664, 0x6307, 0x6D3E] @ codes '' (Unassign)'')) (''do_asn:'' @ key @ '':UNASSIGNED'')]]))"

definition block_start :: "card_env \<Rightarrow> card_update \<Rightarrow> string \<Rightarrow> unit card_sx" where
  "block_start env u key =
     (if \<not> has_query_message u then sx_return ()
      else sx_bind (sx_modify (\<lambda>w. w\<lparr>kw_pending_block := Some key\<rparr>)) (\<lambda>_.
        call env (Reply (([0x26A0, 0xFE0F] @ codes '' '') @ bold (([0x6A19, 0x8A18, 0x963B, 0x7919] @ codes '' (Block) '') @ codes key @ (codes '':'')) @ newline @
          ([0x8ACB, 0x76F4, 0x63A5, 0x767C, 0x9001, 0x8A0A, 0x606F, 0x8F38, 0x5165] @ codes ''<b>'' @ [0x963B, 0x7919, 0x6B64, 0x5DE5, 0x55AE, 0x7684] @ codes '' Jira Issue Key ('' @ [0x4F8B, 0x5982] @ codes '': PROJ-100)</b>'' @ [0xFF0C]) @
          ([0x4EA6, 0x53EF, 0x9644, 0x5E36, 0x8AAA, 0x660E, 0x539F, 0x56E0] @ codes '' ('' @ [0x4F8B, 0x5982] @ codes '': <code>PROJ-100 '' @ [0x7B49, 0x5F85] @ codes '' API '' @ [0x683C, 0x5F0F, 0x78BA, 0x8A8D] @ codes ''</code>)'' @ [0x3002])) No_Markup)))"

definition unblock_start :: "card_env \<Rightarrow> card_update \<Rightarrow> int \<Rightarrow> string \<Rightarrow> unit card_sx" where
  "unblock_start env u user key =
     catching
       (sx_bind (on_http (service_get_issue (ke_jira env) (ke_lookup env) user key)) (\<lambda>i.
          if iv_blocker_keys i = [] then query_reply env u (([0x2139, 0xFE0F] @ codes '' '') @ codes key @ (codes '' '' @ [0x76EE, 0x524D, 0x7121, 0x8A18, 0x9304, 0x4E2D, 0x7684, 0x963B, 0x7919, 0x95DC, 0x806F, 0x3002])) No_Markup
          else query_reply env u (([0x2705] @ codes '' '') @ bold (([0x8ACB, 0x9078, 0x64C7, 0x8981, 0x70BA] @ codes '' '') @ codes key @ (codes '' '' @ [0x89E3, 0x9664, 0x7684, 0x963B, 0x7919, 0x5DE5, 0x55AE] @ codes '':'')))
            (Inline (map (\<lambda>b. [callback_button (([0x1F5D1, 0xFE0F] @ codes '' '' @ [0x89E3, 0x9664, 0x8207] @ codes '' '') @ codes b @ (codes '' '' @ [0x7684, 0x963B, 0x7919, 0x95DC, 0x806F])) (''do_ubk:'' @ key @ '':'' @ b)]) (iv_blocker_keys i)))))
       (query_error env u)"

definition subtask_template :: "string \<Rightarrow> jira_template" where
  "subtask_template parent =
     \<lparr>jt_project_key = hd (split_on (CHR ''-'') parent), jt_issue_type = ''Sub-task'', jt_summary = ''Sub-task for '' @ parent,
      jt_description = ''Parent: '' @ parent, jt_priority = ''Medium'', jt_labels = [], jt_components = [], jt_assignee = [],
      jt_acceptance_criteria = []\<rparr>"

definition subtask_start :: "card_env \<Rightarrow> card_update \<Rightarrow> int \<Rightarrow> string \<Rightarrow> unit card_sx" where
  "subtask_start env u user parent =
     sx_bind (on_cards (create_manual_draft (ke_now env) (ke_new_id env) user (case cu_chat u of Some chat \<Rightarrow> chat | None \<Rightarrow> user)
       (subtask_template parent) None None)) (\<lambda>dr.
       query_reply env u (([0x2795] @ codes '' '') @ bold (([0x5DF2, 0x5EFA, 0x7ACB, 0x5B50, 0x4EFB, 0x52D9] @ codes '' (Sub-task) '' @ [0x8349, 0x7A3F, 0xFF01])) @ newline @ bold (codes ''Parent Key:'') @ codes '' '' @
         code_text (codes parent) @ newline @ bold (codes ''Draft ID:'') @ codes '' '' @ code_text (codes (d_draft_id dr)) @ newline @ newline @
         ([0x8ACB, 0x8F38, 0x5165, 0x5B50, 0x4EFB, 0x52D9, 0x7684, 0x6A19, 0x984C, 0x8207, 0x6558, 0x8FF0, 0x5B8C, 0x6210, 0x8349, 0x7A3F, 0x3002])) No_Markup)"

text \<open>\<open>data.split(":", 1)\<close>.\<close>

definition split_action :: "string \<Rightarrow> string \<times> string" where
  "split_action data = (takeWhile (\<lambda>c. c \<noteq> CHR '':'') data, drop 1 (dropWhile (\<lambda>c. c \<noteq> CHR '':'') data))"

definition card_action :: "card_env \<Rightarrow> card_update \<Rightarrow> int \<Rightarrow> string \<Rightarrow> string \<Rightarrow> unit card_sx" where
  "card_action env u user prefix key =
     (if prefix = ''card_mv'' then move_start env u user key
      else if prefix = ''card_asn'' then assign_start env u key
      else if prefix = ''card_blk'' then block_start env u key
      else if prefix = ''card_ubk'' then unblock_start env u user key
      else if prefix = ''card_wtc'' then watch_toggle env u user key True
      else if prefix = ''card_uwtc'' then watch_toggle env u user key False
      else if prefix = ''card_cmt'' then
        (if has_query_message u then
           call env (Reply (([0x1F4AC] @ codes '' '') @ bold (([0x65B0, 0x589E, 0x5C0D] @ codes '' '') @ codes key @ (codes '' '' @ [0x7684, 0x7559, 0x8A00] @ codes '':'')) @ newline @
             ([0x8ACB, 0x76F4, 0x63A5] @ codes ''<b>'' @ [0x56DE, 0x8986] @ codes '' (Reply)</b> '' @ [0x6B64] @ codes '' Issue Card '' @ [0x8A0A, 0x606F, 0x8F38, 0x5165, 0x6587, 0x5B57, 0x6216, 0x7167, 0x7247, 0x3002])) No_Markup)
         else sx_raise (OtherError ''AttributeError''))
      else if prefix = ''card_sub'' then subtask_start env u user key
      else sx_return ())"

definition handle_card_action_callback :: "card_env \<Rightarrow> card_update \<Rightarrow> unit card_sx" where
  "handle_card_action_callback env u =
     (case (query_data u, cu_user u) of
        (Some data, Some user) \<Rightarrow>
          if CHR '':'' \<notin> set data then sx_return ()
          else (case split_action data of (prefix, key) \<Rightarrow>
            sx_bind (call env (Answer None False)) (\<lambda>_. card_action env u user prefix key))
      | _ \<Rightarrow> sx_return ())"

section \<open>Buttons that carry out an action\<close>

text \<open>The frame of \<open>handle_execute_move\<close>, \<open>handle_execute_assign\<close> and \<open>handle_execute_unblock\<close>.\<close>

definition execute ::
  "card_env \<Rightarrow> card_update \<Rightarrow> utext \<Rightarrow> (int \<Rightarrow> string \<Rightarrow> string \<Rightarrow> jira_issue_view http_sx) \<Rightarrow>
   (string \<Rightarrow> string \<Rightarrow> jira_issue_view \<Rightarrow> utext) \<Rightarrow> unit card_sx" where
  "execute env u notice act shown =
     (case (query_data u, cu_user u) of
        (Some data, Some user) \<Rightarrow>
          (case split_on (CHR '':'') data of
             [_, key, arg] \<Rightarrow>
               sx_bind (call env (Answer (Some notice) False)) (\<lambda>_.
               catching
                 (sx_bind (on_http (act user key arg)) (\<lambda>i.
                  sx_bind (refresh_all_cards i) (\<lambda>_.
                    query_reply env u (shown key arg i) No_Markup)))
                 (query_error env u))
           | _ \<Rightarrow> sx_return ())
      | _ \<Rightarrow> sx_return ())"

definition handle_execute_move :: "card_env \<Rightarrow> card_update \<Rightarrow> unit card_sx" where
  "handle_execute_move env u = execute env u ([0x72C0, 0x614B, 0x66F4, 0x65B0, 0x4E2D] @ codes ''...'')
     (\<lambda>user key transition. service_transition (ke_jira env) (ke_lookup env) user key transition None)
     (\<lambda>key _ i. ([0x2705] @ codes '' '') @ bold (codes key) @ (codes '' '' @ [0x72C0, 0x614B, 0x5DF2, 0x6210, 0x529F, 0x66F4, 0x65B0, 0x70BA] @ codes '' '') @ bold (codes (iv_status i)) @ ([0xFF01]))"

definition handle_execute_assign :: "card_env \<Rightarrow> card_update \<Rightarrow> unit card_sx" where
  "handle_execute_assign env u = execute env u ([0x66F4, 0x65B0, 0x7D93, 0x8FA6, 0x4EBA] @ codes ''...'')
     (\<lambda>user key assignee. service_assign (ke_jira env) (ke_lookup env) user key (if assignee = ''UNASSIGNED'' then [] else assignee))
     (\<lambda>key _ i. ([0x2705] @ codes '' '') @ bold (codes key) @ (codes '' '' @ [0x7D93, 0x8FA6, 0x4EBA, 0x5DF2, 0x66F4, 0x65B0, 0x70BA] @ codes '' '') @
        bold (codes (if iv_assignee i = [] then ''Unassigned'' else iv_assignee i)) @ ([0xFF01]))"

definition handle_execute_unblock :: "card_env \<Rightarrow> card_update \<Rightarrow> unit card_sx" where
  "handle_execute_unblock env u = execute env u ([0x89E3, 0x9664, 0x963B, 0x7919, 0x4E2D] @ codes ''...'')
     (\<lambda>user key blocker. service_unblock (ke_jira env) (ke_lookup env) user key blocker)
     (\<lambda>key blocker i. ([0x2705] @ codes '' '') @ bold (codes key) @ (codes '' '' @ [0x5DF2, 0x89E3, 0x9664, 0x8207] @ codes '' '') @ bold (codes blocker) @ (codes '' '' @ [0x7684, 0x963B, 0x7919, 0x95DC, 0x806F, 0xFF01]))"

section \<open>Messages that carry out an action\<close>

definition reply_error :: "card_env \<Rightarrow> exn \<Rightarrow> unit card_sx" where
  "reply_error env e = call env (Reply (render_safe_feedback (ke_str env e)) No_Markup)"

definition handle_block_input_message :: "card_env \<Rightarrow> card_update \<Rightarrow> unit card_sx" where
  "handle_block_input_message env u =
     (case (cu_user u, cu_message u, cu_text u) of
        (Some user, True, Some (c # cs)) \<Rightarrow>
          sx_bind (sx_get kw_pending_block) (\<lambda>pending.
          sx_bind (sx_modify (\<lambda>w. w\<lparr>kw_pending_block := None\<rparr>)) (\<lambda>_.
          (case pending of
             Some (k # ks) \<Rightarrow>
               (case split_once (py_strip (c # cs)) of
                  [] \<Rightarrow> sx_raise (OtherError ''IndexError'')
                | blocker # rest \<Rightarrow>
                    catching
                      (sx_bind (on_http (service_block (ke_jira env) (ke_lookup env) user (k # ks) (py_upper blocker)
                         (case rest of [] \<Rightarrow> None | reason # _ \<Rightarrow> Some reason))) (\<lambda>i.
                       sx_bind (refresh_all_cards i) (\<lambda>_.
                         call env (Reply (([0x26A0, 0xFE0F] @ codes '' '') @ bold (codes (k # ks)) @ (codes '' '' @ [0x5DF2, 0x6210, 0x529F, 0x65B0, 0x589E, 0x963B, 0x7919, 0x95DC, 0x806F] @ codes '': '') @ bold (codes (py_upper blocker)) @ ([0xFF01])) No_Markup))))
                      (reply_error env))
           | _ \<Rightarrow> sx_return ())))
      | _ \<Rightarrow> sx_return ())"

text \<open>The first match of \<open>\b([A-Z0-9]+-\d+)\b\<close>; the flag says that the character before is not of a word.\<close>

fun key_search :: "bool \<Rightarrow> string \<Rightarrow> string option" where
  "key_search boundary [] = None"
| "key_search boundary (c # cs) =
     (case (if boundary then key_at key_char (c # cs) else None) of
        Some (key, tail) \<Rightarrow> if tail = [] \<or> \<not> is_word_char (hd tail) then Some key else key_search (\<not> is_word_char c) cs
      | None \<Rightarrow> key_search (\<not> is_word_char c) cs)"

definition handle_reply_comment_or_attachment :: "card_env \<Rightarrow> card_update \<Rightarrow> unit card_sx" where
  "handle_reply_comment_or_attachment env u =
     (case (cu_message u, cu_user u, cu_reply_to u) of
        (True, Some user, Some shown) \<Rightarrow>
          (case key_search True shown of
             None \<Rightarrow> sx_return ()
           | Some key \<Rightarrow>
               (case (cu_photo u, cu_text u) of
                  (Some photo, _) \<Rightarrow>
                    catching
                      (sx_bind (sx_lift (ke_photo env)) (\<lambda>content.
                       sx_bind (on_http (service_upload (ke_jira env) (ke_lookup env) user key (''photo_'' @ photo @ ''.jpg'') content
                         ''image/jpeg'')) (\<lambda>i.
                       sx_bind (call env (Reply (([0x2705] @ codes '' '' @ [0x7167, 0x7247, 0x5DF2, 0x6210, 0x529F, 0x4F5C, 0x70BA, 0x9644, 0x4EF6, 0x4E0A, 0x50B3, 0x81F3] @ codes '' Jira '' @ [0x5DE5, 0x55AE] @ codes '' '') @ bold (codes key) @ ([0xFF01])) No_Markup)) (\<lambda>_.
                         refresh_all_cards i))))
                      (reply_error env)
                | (None, Some (c # cs)) \<Rightarrow>
                    catching
                      (sx_bind (on_http (service_add_comment (ke_jira env) (ke_lookup env) user key (py_strip (c # cs)))) (\<lambda>i.
                       sx_bind (call env (Reply (([0x2705] @ codes '' '' @ [0x7559, 0x8A00, 0x5DF2, 0x6210, 0x529F, 0x65B0, 0x589E, 0x81F3] @ codes '' Jira '' @ [0x5DE5, 0x55AE] @ codes '' '') @ bold (codes key) @ ([0xFF01])) No_Markup)) (\<lambda>_.
                         refresh_all_cards i)))
                      (reply_error env)
                | _ \<Rightarrow> sx_return ()))
      | _ \<Rightarrow> sx_return ())"
end
