(* ===== verification/Draft_Handlers.thy ===== *)
theory Draft_Handlers
  imports Chat Submission_Safety Attachment_Service User_Store
begin

text \<open>
  The handlers of drafts over the services: the buttons of a preview (\<open>src/src/dztgbot/ui/handlers/callbacks.py\<close>), forwards,
  \<open>/new\<close> and typed edits (\<open>src/src/dztgbot/ui/handlers/drafts.py\<close>), and the preview that \<open>src/src/dztgbot/__main__.py\<close> sends for
  an analysed batch.  A handler is a computation over the repository with the calls to Jira, the uploads, the credentials, the
  active draft of every user and the log of the calls to Telegram.  Its environment says which of those calls fail, what
  time each service call of the update reads, which identifiers and tokens are drawn and which identifier the
  preview message gets.  \<open>ue_text\<close> turns a text of a chat into a string of the drafts, whose characters the other
  components restrict.
\<close>

section \<open>World and environment\<close>

record ui_world = chat +
  uw_sub :: sub_world
  uw_loads :: nat
  uw_uploads :: "upload list"
  uw_users :: "user_store option"
  uw_active :: "(int \<times> (string \<times> int)) list"

type_synonym 'a ui_sx = "(ui_world, exn, 'a) sx"

record ui_env =
  ue_allowed :: "int list option"
  ue_settings_allowed :: "int list option"
  ue_project :: string
  ue_clock :: "nat \<Rightarrow> int"
  ue_sha :: "string \<Rightarrow> string"
  ue_tokens :: "nat \<Rightarrow> string"
  ue_new_id :: string
  ue_attempt_id :: string
  ue_message_id :: int
  ue_tg_fails :: "nat \<Rightarrow> bool"
  ue_submission :: "(submission_gateway \<times> (json \<Rightarrow> string)) option"
  ue_attachments :: "(attachment_ports \<times> attachment_policy) option"
  ue_has_copy :: bool
  ue_text :: "utext \<Rightarrow> string"
  ue_str :: "json \<Rightarrow> utext"

definition on_db :: "(repo, exn, 'a) sx \<Rightarrow> 'a ui_sx" where
  "on_db m = (\<lambda>w. case on_repo m (uw_sub w) of (r, s) \<Rightarrow> (r, w\<lparr>uw_sub := s\<rparr>))"

definition on_submission :: "(sub_world, exn, 'a) sx \<Rightarrow> 'a ui_sx" where
  "on_submission m = (\<lambda>w. case m (uw_sub w) of (r, s) \<Rightarrow> (r, w\<lparr>uw_sub := s\<rparr>))"

definition on_attachments :: "(att_world, exn, 'a) sx \<Rightarrow> 'a ui_sx" where
  "on_attachments m = (\<lambda>w.
     case m \<lparr>aw_repo = sw_repo (uw_sub w), aw_calls = uw_loads w, aw_uploads = uw_uploads w\<rparr> of
       (r, a) \<Rightarrow> (r, w\<lparr>uw_sub := (uw_sub w)\<lparr>sw_repo := aw_repo a\<rparr>, uw_loads := aw_calls a, uw_uploads := aw_uploads a\<rparr>))"

abbreviation tell :: "ui_env \<Rightarrow> chat_call \<Rightarrow> unit ui_sx" where
  "tell env \<equiv> tg_call (ue_tg_fails env)"

text \<open>\<open>except DomainError as error\<close> with the code the user is shown.\<close>

definition catch_domain :: "'a ui_sx \<Rightarrow> (utext \<Rightarrow> 'a ui_sx) \<Rightarrow> 'a ui_sx" where
  "catch_domain m h = sx_try m (\<lambda>e. case e of DomainError _ \<Rightarrow> True | _ \<Rightarrow> False)
     (\<lambda>e. case e of DomainError err \<Rightarrow> h (codes (domain_error_code err)) | _ \<Rightarrow> sx_raise e)"

section \<open>Pressed buttons\<close>

text \<open>A press: its data, who pressed in which chat, and the message with the button and its thread.\<close>

record press =
  pr_data :: "string option"
  pr_actor :: "int option"
  pr_chat :: "(int \<times> string) option"
  pr_message :: "(int \<times> int option) option"

definition get_user_pat :: "int \<Rightarrow> user_store option \<Rightarrow> string option" where
  "get_user_pat actor users =
     (case users of None \<Rightarrow> None | Some s \<Rightarrow> (case get_credentials actor s of None \<Rightarrow> None | Some c \<Rightarrow> Some (jc_pat c)))"

definition preview_actions :: "callback_action list" where
  "preview_actions = [A_CONFIRM, A_TOGGLE_TYPE, A_TOGGLE_PRIORITY, A_EDIT, A_CANCEL]"

definition issue_buttons :: "ui_env \<Rightarrow> nat \<Rightarrow> draft \<Rightarrow> callback_action list \<Rightarrow> int \<Rightarrow> button_map ui_sx" where
  "issue_buttons env i dr actions mid =
     sx_bind (on_db (issue_preview_buttons (ue_sha env) (ue_tokens env) (ue_clock env i) dr actions mid None None True)) (\<lambda>issued.
       sx_return (issued_map issued))"

definition alert :: "ui_env \<Rightarrow> utext \<Rightarrow> unit ui_sx" where
  "alert env t = tell env (Answer (Some t) True)"

definition toast :: "ui_env \<Rightarrow> utext \<Rightarrow> unit ui_sx" where
  "toast env t = tell env (Answer (Some t) False)"

definition edit_card :: "ui_env \<Rightarrow> utext \<Rightarrow> reply_markup \<Rightarrow> unit ui_sx" where
  "edit_card env t m = tell env (Edit_Text t m)"

definition press_toggle :: "ui_env \<Rightarrow> utext \<Rightarrow> (repo, exn, draft) sx \<Rightarrow> int \<Rightarrow> unit ui_sx" where
  "press_toggle env notice change mid =
     sx_bind (toast env notice) (\<lambda>_.
     catch_domain
       (sx_bind (on_db change) (\<lambda>updated.
        sx_bind (issue_buttons env 2 updated preview_actions mid) (\<lambda>buttons.
          edit_card env (render_draft_card updated None) (Inline (build_draft_inline_keyboard buttons)))))
       (alert env))"

definition press_cancel :: "ui_env \<Rightarrow> int \<Rightarrow> int \<Rightarrow> draft \<Rightarrow> callback_token_record \<Rightarrow> unit ui_sx" where
  "press_cancel env actor chat dr r =
     sx_bind (toast env ([0x8349, 0x7A3F, 0x5DF2, 0x53D6, 0x6D88])) (\<lambda>_.
     catch_domain
       (sx_bind (on_db (cancel_draft (ue_clock env 1) (d_draft_id dr) actor chat (ct_expected_revision r))) (\<lambda>cancelled.
        sx_bind (on_db (invalidate_preview_tokens (ue_clock env 2) (d_draft_id dr))) (\<lambda>_.
          edit_card env (render_cancelled_card cancelled) No_Markup)))
       (alert env))"

definition press_edit :: "ui_env \<Rightarrow> int \<Rightarrow> draft \<Rightarrow> unit ui_sx" where
  "press_edit env actor dr =
     sx_bind (alert env ([0x8ACB, 0x5728, 0x5C0D, 0x8A71, 0x8996, 0x7A97, 0x4E2D, 0x8F38, 0x5165, 0x65B0, 0x6A19, 0x984C, 0x6216, 0x63CF, 0x8FF0, 0x5167, 0x5BB9])) (\<lambda>_.
       sx_modify (\<lambda>w. w\<lparr>uw_active := AList.update actor (d_draft_id dr, d_revision dr) (uw_active w)\<rparr>))"

definition show_published :: "ui_env \<Rightarrow> draft \<Rightarrow> published_issue \<Rightarrow> unit ui_sx" where
  "show_published env dr issue =
     edit_card env (render_published_card dr issue) (Inline (build_published_inline_keyboard (ue_has_copy env) issue None))"

text \<open>Uploading is best effort: every exception is logged.\<close>

definition upload_if_any :: "ui_env \<Rightarrow> draft \<Rightarrow> string \<Rightarrow> unit ui_sx" where
  "upload_if_any env dr pat =
     (case ue_attachments env of
        None \<Rightarrow> sx_return ()
      | Some (pt, pol) \<Rightarrow>
          if d_attachments dr = [] then sx_return ()
          else sx_try (sx_bind (on_attachments (upload_pending pt pol (ue_clock env 2) (d_draft_id dr) pat)) (\<lambda>_. sx_return ()))
                 (\<lambda>_. True) (\<lambda>_. sx_return ()))"

definition show_submitted :: "ui_env \<Rightarrow> draft \<Rightarrow> string \<Rightarrow> int \<Rightarrow> submission_result \<Rightarrow> unit ui_sx" where
  "show_submitted env dr pat mid res =
     (case rs_issue res of
        Some issue \<Rightarrow> sx_bind (upload_if_any env dr pat) (\<lambda>_. show_published env (rs_draft res) issue)
      | None \<Rightarrow>
          if d_state (rs_draft res) = SUBMISSION_RETRYABLE then
            sx_bind (issue_buttons env 2 (rs_draft res) [A_RETRY, A_CANCEL] mid) (\<lambda>buttons.
              edit_card env (render_submission_error_card (rs_draft res) None) (Inline (build_retry_inline_keyboard buttons)))
          else if d_state (rs_draft res) = SUBMISSION_UNKNOWN then
            sx_bind (issue_buttons env 2 (rs_draft res) [A_RECONCILE, A_CANCEL] mid) (\<lambda>buttons.
              edit_card env (render_unknown_outcome_card (rs_draft res)) (Inline (build_reconcile_inline_keyboard buttons)))
          else sx_return ())"

definition press_confirm :: "ui_env \<Rightarrow> int \<Rightarrow> int \<Rightarrow> draft \<Rightarrow> callback_token_record \<Rightarrow> unit ui_sx" where
  "press_confirm env actor mid dr r =
     sx_bind (toast env ([0x6B63, 0x5728, 0x63D0, 0x4EA4, 0x5DE5, 0x55AE] @ codes ''...'')) (\<lambda>_.
     sx_bind (sx_get (\<lambda>w. get_user_pat actor (uw_users w))) (\<lambda>pat.
     if pat = None \<or> pat = Some [] then alert env ([0x8ACB, 0x5148, 0x900F, 0x904E] @ codes '' /auth '' @ [0x8A2D, 0x5B9A] @ codes '' Jira PAT '' @ [0x8A8D, 0x8B49, 0x6191, 0x8B49])
     else (case ue_submission env of
         None \<Rightarrow> alert env ([0x63D0, 0x4EA4, 0x670D, 0x52D9, 0x5C1A, 0x672A, 0x914D, 0x7F6E])
       | Some (gw, dh) \<Rightarrow>
           sx_bind (edit_card env (render_submission_progress dr) No_Markup) (\<lambda>_.
           sx_bind (catch_domain
             (sx_bind (on_submission (submit gw dh (ue_attempt_id env) (ue_clock env 1) (d_draft_id dr) (the pat)
                (Some (ct_expected_revision r)))) (\<lambda>res. sx_return (Some res)))
             (\<lambda>code. sx_bind (edit_card env (render_submission_error_card dr (Some code)) No_Markup) (\<lambda>_. sx_return None))) (\<lambda>res.
           (case res of None \<Rightarrow> sx_return () | Some res \<Rightarrow> show_submitted env dr (the pat) mid res))))))"

definition press_retry :: "ui_env \<Rightarrow> int \<Rightarrow> draft \<Rightarrow> callback_token_record \<Rightarrow> unit ui_sx" where
  "press_retry env actor dr r =
     sx_bind (toast env ([0x6B63, 0x5728, 0x91CD, 0x8A66, 0x63D0, 0x4EA4] @ codes ''...'')) (\<lambda>_.
     sx_bind (sx_get (\<lambda>w. get_user_pat actor (uw_users w))) (\<lambda>pat.
     (case (pat, ue_submission env) of
        (Some (c # cs), Some (gw, dh)) \<Rightarrow>
          catch_domain
            (sx_bind (on_submission (submit gw dh (ue_attempt_id env) (ue_clock env 1) (d_draft_id dr) (c # cs)
               (Some (ct_expected_revision r)))) (\<lambda>res.
             (case rs_issue res of
                Some issue \<Rightarrow> show_published env (rs_draft res) issue
              | None \<Rightarrow> edit_card env (render_submission_error_card (rs_draft res) None) No_Markup)))
            (alert env)
      | _ \<Rightarrow> alert env ([0x7121, 0x6CD5, 0x91CD, 0x8A66, 0xFF1A, 0x6191, 0x8B49, 0x6216, 0x670D, 0x52D9, 0x672A, 0x914D, 0x7F6E]))))"

definition press_reconcile :: "ui_env \<Rightarrow> int \<Rightarrow> draft \<Rightarrow> unit ui_sx" where
  "press_reconcile env actor dr =
     sx_bind (toast env ([0x6B63, 0x5728, 0x8ABF, 0x67E5] @ codes ''/'' @ [0x8ABF, 0x548C, 0x63D0, 0x4EA4, 0x72C0, 0x614B] @ codes ''...'')) (\<lambda>_.
     sx_bind (sx_get (\<lambda>w. get_user_pat actor (uw_users w))) (\<lambda>pat.
     (case (pat, ue_submission env) of
        (Some (c # cs), Some (gw, dh)) \<Rightarrow>
          catch_domain
            (sx_bind (on_submission (reconcile_create gw (ue_clock env 1) (d_draft_id dr) (c # cs))) (\<lambda>res.
             (case rs_issue res of
                Some issue \<Rightarrow> show_published env (rs_draft res) issue
              | None \<Rightarrow> alert env ([0x8ABF, 0x548C, 0x7D50, 0x679C, 0x4ECD, 0x4E0D, 0x660E, 0x78BA, 0xFF0C, 0x9700, 0x4EBA, 0x5DE5, 0x78BA, 0x8A8D] @ codes '' Jira '' @ [0x72C0, 0x614B]))))
            (alert env)
      | _ \<Rightarrow> alert env ([0x7121, 0x6CD5, 0x8ABF, 0x548C, 0xFF1A, 0x6191, 0x8B49, 0x6216, 0x670D, 0x52D9, 0x672A, 0x914D, 0x7F6E]))))"

definition press_edit_published :: "ui_env \<Rightarrow> draft \<Rightarrow> callback_token_record \<Rightarrow> unit ui_sx" where
  "press_edit_published env dr r =
     sx_bind (toast env ([0x6E96, 0x5099, 0x7DE8, 0x8F2F, 0x5DF2, 0x767C, 0x5E03, 0x5DE5, 0x55AE] @ codes ''...'')) (\<lambda>_.
     (case (ue_submission env, d_template dr) of
        (Some _, Some tpl) \<Rightarrow>
          catch_domain
            (sx_bind (on_submission (prepare_published_update (ue_clock env 1) (d_draft_id dr) tpl (ct_expected_revision r))) (\<lambda>plan.
              edit_card env (render_published_update_card (up_draft plan)
                (map (\<lambda>(k, v). (k, ue_str env v)) (up_changed_fields plan))) No_Markup))
            (alert env)
      | _ \<Rightarrow> sx_return ()))"

definition dispatch_press :: "ui_env \<Rightarrow> int \<Rightarrow> int \<Rightarrow> int \<Rightarrow> draft \<Rightarrow> callback_token_record \<Rightarrow> callback_action \<Rightarrow> unit ui_sx" where
  "dispatch_press env actor chat mid dr r action =
     (case action of
        A_TOGGLE_TYPE \<Rightarrow> press_toggle env ([0x985E, 0x578B, 0x5DF2, 0x66F4, 0x65B0])
          (toggle_issue_type (ue_clock env 1) (d_draft_id dr) actor chat (ct_expected_revision r) default_issue_types) mid
      | A_TOGGLE_PRIORITY \<Rightarrow> press_toggle env ([0x512A, 0x5148, 0x7D1A, 0x5DF2, 0x66F4, 0x65B0])
          (toggle_priority (ue_clock env 1) (d_draft_id dr) actor chat (ct_expected_revision r) default_priorities) mid
      | A_CANCEL \<Rightarrow> press_cancel env actor chat dr r
      | A_EDIT \<Rightarrow> press_edit env actor dr
      | A_CONFIRM \<Rightarrow> press_confirm env actor mid dr r
      | A_RETRY \<Rightarrow> press_retry env actor dr r
      | A_RECONCILE \<Rightarrow> press_reconcile env actor dr
      | A_EDIT_PUBLISHED \<Rightarrow> press_edit_published env dr r
      | _ \<Rightarrow> sx_return ())"

definition answer_authorized :: "ui_env \<Rightarrow> int \<Rightarrow> int \<Rightarrow> int \<Rightarrow> auth_result \<Rightarrow> unit ui_sx" where
  "answer_authorized env actor chat mid res =
     (if \<not> ar_allowed res then
        alert env (case ar_denial_code res of None \<Rightarrow> ([0x64CD, 0x4F5C, 0x7121, 0x6548, 0x6216, 0x6309, 0x9215, 0x5DF2, 0x904E, 0x671F]) | Some c \<Rightarrow> user_message_for_denial c)
      else (case (ar_draft res, ar_action res, ar_record res) of
          (Some dr, Some action, Some r) \<Rightarrow> dispatch_press env actor chat mid dr r action
        | _ \<Rightarrow> alert env ([0x627E, 0x4E0D, 0x5230, 0x5C0D, 0x61C9, 0x7684, 0x5DE5, 0x55AE, 0x8349, 0x7A3F, 0x8A18, 0x9304])))"

definition handle_callback_query :: "ui_env \<Rightarrow> press \<Rightarrow> unit ui_sx" where
  "handle_callback_query env p =
     (case pr_data p of None \<Rightarrow> sx_return ()
      | Some data \<Rightarrow>
          (case (pr_actor p, pr_chat p, pr_message p) of
             (Some actor, Some (chat, chat_type), Some (mid, thread)) \<Rightarrow>
               if \<not> decision_allowed (require_allowed_user actor (ue_allowed env)) then
                 alert env (user_message_for_denial DC_NOT_ALLOWED_USER)
               else
                 sx_bind (on_db (authorize (ue_sha env) (ue_clock env 0) (Some data) actor chat chat_type thread (Some mid)))
                   (answer_authorized env actor chat mid)
           | _ \<Rightarrow> alert env ([0x7121, 0x6548, 0x7684, 0x5C0D, 0x8A71, 0x6216, 0x4F7F, 0x7528, 0x8005, 0x4E0A, 0x4E0B, 0x6587])))"

section \<open>Messages\<close>

text \<open>A message to the bot, with the arguments of a command; identifiers are those of the update.\<close>

record draft_update =
  du_actor :: "int option"
  du_chat :: "(int \<times> string) option"
  du_message :: bool
  du_thread :: "int option"
  du_text :: "utext option"
  du_caption :: "utext option"
  du_args :: "utext list"

definition resolve_allowed :: "int list option \<Rightarrow> int list option \<Rightarrow> int list option" where
  "resolve_allowed explicit settings = (case explicit of None \<Rightarrow> settings | Some ids \<Rightarrow> Some ids)"

definition in_private_chat :: "draft_update \<Rightarrow> bool" where
  "in_private_chat u \<longleftrightarrow> (case du_chat u of None \<Rightarrow> False | Some (_, chat_type) \<Rightarrow> chat_type = ''private'')"

definition say :: "ui_env \<Rightarrow> utext \<Rightarrow> reply_markup \<Rightarrow> unit ui_sx" where
  "say env t m = tell env (Reply t m)"

definition feedback :: "ui_env \<Rightarrow> utext \<Rightarrow> unit ui_sx" where
  "feedback env t = say env (render_safe_feedback t) No_Markup"

text \<open>The guards that the three handlers share, then \<open>go actor chat\<close>.\<close>

definition guarded :: "ui_env \<Rightarrow> draft_update \<Rightarrow> (int \<Rightarrow> int \<Rightarrow> unit ui_sx) \<Rightarrow> unit ui_sx" where
  "guarded env u go =
     (if \<not> in_private_chat u then
        if du_message u then say env render_private_only_warning No_Markup else sx_return ()
      else (case (du_actor u, du_chat u, du_message u) of
          (Some actor, Some (chat, _), True) \<Rightarrow>
            if \<not> decision_allowed (require_allowed_user actor (resolve_allowed (ue_allowed env) (ue_settings_allowed env)))
            then feedback env (user_message_for_denial DC_NOT_ALLOWED_USER)
            else go actor chat
        | _ \<Rightarrow> sx_return ()))"

definition track_draft :: "int \<Rightarrow> draft \<Rightarrow> unit ui_sx" where
  "track_draft actor dr = sx_modify (\<lambda>w. w\<lparr>uw_active := AList.update actor (d_draft_id dr, d_revision dr) (uw_active w)\<rparr>)"

definition untrack_draft :: "int \<Rightarrow> unit ui_sx" where
  "untrack_draft actor = sx_modify (\<lambda>w. w\<lparr>uw_active := AList.delete actor (uw_active w)\<rparr>)"

text \<open>A new draft: the preview is sent first, because its identifier is a part of the buttons.\<close>

definition present_draft :: "ui_env \<Rightarrow> int \<Rightarrow> draft \<Rightarrow> unit ui_sx" where
  "present_draft env actor dr =
     sx_bind (say env (render_draft_card dr None) (Menu get_draft_reply_keyboard)) (\<lambda>_.
     sx_bind (issue_buttons env 1 dr preview_actions (ue_message_id env)) (\<lambda>buttons.
     sx_bind (edit_card env (render_draft_card dr None) (Inline (build_draft_inline_keyboard buttons))) (\<lambda>_.
       track_draft actor dr)))"

definition make_draft :: "ui_env \<Rightarrow> draft_update \<Rightarrow> int \<Rightarrow> int \<Rightarrow> jira_template \<Rightarrow> unit ui_sx" where
  "make_draft env u actor chat t =
     sx_bind (catch_domain
       (sx_bind (on_db (create_manual_draft (ue_clock env 0) (ue_new_id env) actor chat t (du_thread u) None)) (\<lambda>dr.
          sx_return (Some dr)))
       (\<lambda>code. sx_bind (feedback env code) (\<lambda>_. sx_return None))) (\<lambda>made.
     (case made of None \<Rightarrow> sx_return () | Some dr \<Rightarrow> present_draft env actor dr))"

definition manual_template :: "ui_env \<Rightarrow> utext \<Rightarrow> utext \<Rightarrow> jira_template" where
  "manual_template env summary description =
     \<lparr>jt_project_key = ue_project env, jt_issue_type = ''Task'', jt_summary = ue_text env summary,
      jt_description = ue_text env description, jt_priority = ''Medium'', jt_labels = [], jt_components = [], jt_assignee = [],
      jt_acceptance_criteria = []\<rparr>"

definition raw_text :: "draft_update \<Rightarrow> utext" where
  "raw_text u = (case (case du_text u of Some (c # cs) \<Rightarrow> Some (c # cs) | _ \<Rightarrow> du_caption u) of None \<Rightarrow> [] | Some t \<Rightarrow> t)"

definition forward_template :: "ui_env \<Rightarrow> utext \<Rightarrow> jira_template" where
  "forward_template env t =
     manual_template env (if t \<noteq> [] then take 100 t else ([0x8F49, 0x50B3, 0x8A0A, 0x606F, 0x5DE5, 0x55AE])) (if t \<noteq> [] then t else ([0x8F49, 0x50B3, 0x5167, 0x5BB9, 0x5167, 0x5BB9]))"

definition handle_forward_intake :: "ui_env \<Rightarrow> draft_update \<Rightarrow> unit ui_sx" where
  "handle_forward_intake env u =
     guarded env u (\<lambda>actor chat. make_draft env u actor chat (forward_template env (raw_text u)))"

definition handle_manual_create :: "ui_env \<Rightarrow> draft_update \<Rightarrow> unit ui_sx" where
  "handle_manual_create env u =
     guarded env u (\<lambda>actor chat. make_draft env u actor chat
       (manual_template env (if du_args u \<noteq> [] then text_join (codes '' '') (du_args u) else ([0x65B0, 0x5DE5, 0x55AE, 0x8349, 0x7A3F])) ([0x7531, 0x624B, 0x52D5, 0x6307, 0x4EE4, 0x5EFA, 0x7ACB])))"

section \<open>Typed edits\<close>

definition typed_change :: "ui_env \<Rightarrow> int \<Rightarrow> (repo, exn, draft) sx \<Rightarrow> utext option \<Rightarrow> unit ui_sx" where
  "typed_change env actor change title =
     catch_domain
       (sx_bind (on_db change) (\<lambda>updated.
        sx_bind (track_draft actor updated) (\<lambda>_.
          say env (render_draft_card updated title) (Menu get_draft_reply_keyboard))))
       (feedback env)"

definition typed_cancel :: "ui_env \<Rightarrow> int \<Rightarrow> int \<Rightarrow> draft \<Rightarrow> unit ui_sx" where
  "typed_cancel env actor chat dr =
     catch_domain
       (sx_bind (on_db (cancel_draft (ue_clock env 1) (d_draft_id dr) actor chat (d_revision dr))) (\<lambda>cancelled.
        sx_bind (on_db (invalidate_preview_tokens (ue_clock env 2) (d_draft_id dr))) (\<lambda>_.
        sx_bind (untrack_draft actor) (\<lambda>_.
          say env (render_cancelled_card cancelled) Remove_Menu))))
       (feedback env)"

definition cancel_label :: utext where "cancel_label = ([0x274C] @ codes '' '' @ [0x53D6, 0x6D88, 0x8349, 0x7A3F])"
definition type_label :: utext where "type_label = ([0x1F3F7, 0xFE0F] @ codes '' '' @ [0x985E, 0x578B] @ codes '':'')"
definition priority_label :: utext where "priority_label = ([0x26A1] @ codes '' '' @ [0x512A, 0x5148, 0x7D1A] @ codes '':'')"

definition typed_text :: "ui_env \<Rightarrow> int \<Rightarrow> int \<Rightarrow> draft \<Rightarrow> utext \<Rightarrow> unit ui_sx" where
  "typed_text env actor chat dr t =
     (if t = cancel_label then typed_cancel env actor chat dr
      else if take (length type_label) t = type_label then
        typed_change env actor (toggle_issue_type (ue_clock env 1) (d_draft_id dr) actor chat (d_revision dr) default_issue_types) None
      else if take (length priority_label) t = priority_label then
        typed_change env actor (toggle_priority (ue_clock env 1) (d_draft_id dr) actor chat (d_revision dr) default_priorities) None
      else (case d_template dr of None \<Rightarrow> sx_return ()
        | Some tpl \<Rightarrow>
            typed_change env actor
              (update_template (ue_clock env 1) (d_draft_id dr) actor chat (tpl\<lparr>jt_summary := ue_text env t\<rparr>) (d_revision dr))
              (Some (codes ''<b>'' @ [0x270F, 0xFE0F] @ codes '' '' @ [0x5DF2, 0x66F4, 0x65B0] @ codes '' Summary</b>''))))"

definition edit_active :: "ui_env \<Rightarrow> int \<Rightarrow> int \<Rightarrow> utext \<Rightarrow> string \<times> int \<Rightarrow> unit ui_sx" where
  "edit_active env actor chat t active =
     (case active of (k, expected) \<Rightarrow>
       if k = [] then sx_return ()
       else
         sx_bind (catch_domain (sx_bind (on_db (get_draft k (Some actor) (Some chat))) (\<lambda>dr. sx_return (Some dr)))
           (\<lambda>_. sx_bind (untrack_draft actor) (\<lambda>_.
                sx_bind (feedback env ([0x627E, 0x4E0D, 0x5230, 0x6D3B, 0x8E8D, 0x7684, 0x5DE5, 0x55AE, 0x8349, 0x7A3F, 0x6216, 0x7121, 0x6B0A, 0x5B58, 0x53D6, 0x3002])) (\<lambda>_. sx_return None)))) (\<lambda>found.
         (case found of None \<Rightarrow> sx_return ()
          | Some dr \<Rightarrow>
              if d_revision dr \<noteq> expected then feedback env ([0x8349, 0x7A3F, 0x7248, 0x672C, 0x5DF2, 0x8B8A, 0x66F4, 0xFF0C, 0x8ACB, 0x4F7F, 0x7528, 0x6700, 0x65B0, 0x6309, 0x9215, 0x64CD, 0x4F5C, 0x3002])
              else typed_text env actor chat dr (ustrip t))))"

definition handle_draft_reply_text :: "ui_env \<Rightarrow> draft_update \<Rightarrow> unit ui_sx" where
  "handle_draft_reply_text env u =
     (if in_private_chat u \<and> (du_text u = None \<or> du_text u = Some []) then sx_return ()
      else guarded env u (\<lambda>actor chat.
        sx_bind (sx_get (\<lambda>w. map_of (uw_active w) actor)) (\<lambda>active.
        (case active of None \<Rightarrow> sx_return ()
         | Some a \<Rightarrow> edit_active env actor chat (case du_text u of None \<Rightarrow> [] | Some t \<Rightarrow> t) a))))"

section \<open>The preview of an analysed batch\<close>

definition on_draft_ready :: "ui_env \<Rightarrow> draft \<Rightarrow> unit ui_sx" where
  "on_draft_ready env dr =
     sx_try
       (sx_bind (tell env (Send (render_draft_card dr None) (Menu get_draft_reply_keyboard))) (\<lambda>_.
        sx_bind (issue_buttons env 0 dr preview_actions (ue_message_id env)) (\<lambda>buttons.
          tell env (Edit_Markup (Inline (build_draft_inline_keyboard buttons))))))
       (\<lambda>_. True) (\<lambda>_. sx_return ())"
end
