(* ===== verification/Draft_Safety.thy ===== *)
theory Draft_Safety
  imports Draft_Handlers
begin

text \<open>
  What holds over every sequence of updates that the five draft handlers serve - presses on the buttons of drafts, messages, analysed
  batches - whatever Telegram, Jira and the uploads answer: a creation whose outcome is unknown is never dispatched again, and
  these handlers submit and upload only for an authorised press of a user with a stored credential.  (The conversation for credentials
  and the issue cards have worlds of their own, in \<open>Auth\<close> and \<open>Card_Handlers\<close>.)
\<close>

section \<open>Updates\<close>

text \<open>An update that reaches a draft handler: a press, a forward, \<open>/new\<close>, a typed text, or the end of an analysis.\<close>

datatype ui_op = Press press | Forward draft_update | New_Draft draft_update | Typed draft_update | Analysed draft

fun run_update :: "ui_env \<times> ui_op \<Rightarrow> ui_world \<Rightarrow> ui_world" where
  "run_update (env, Press p) w = snd (handle_callback_query env p w)"
| "run_update (env, Forward u) w = snd (handle_forward_intake env u w)"
| "run_update (env, New_Draft u) w = snd (handle_manual_create env u w)"
| "run_update (env, Typed u) w = snd (handle_draft_reply_text env u w)"
| "run_update (env, Analysed dr) w = snd (on_draft_ready env dr w)"

definition run_updates :: "(ui_env \<times> ui_op) list \<Rightarrow> ui_world \<Rightarrow> ui_world" where
  "run_updates ops w = fold run_update ops w"

section \<open>What a handler keeps of the repository and the calls\<close>

text \<open>A predicate on the repository and the calls to Jira is kept by what does not touch them.\<close>

abbreviation on_sub :: "(sub_world \<Rightarrow> bool) \<Rightarrow> ui_world \<Rightarrow> bool" where
  "on_sub P \<equiv> \<lambda>w. P (uw_sub w)"

lemma keeps_tell [inv_intros]: "sx_keeps (on_sub P) (tell env c)"
  by (simp add: sx_keeps_def tg_call_def Let_def)

lemma keeps_said [inv_intros]:
  "sx_keeps (on_sub P) (alert env t)" "sx_keeps (on_sub P) (toast env t)" "sx_keeps (on_sub P) (edit_card env t m)"
  "sx_keeps (on_sub P) (say env t m)" "sx_keeps (on_sub P) (feedback env t)" "sx_keeps (on_sub P) (show_published env dr i)"
  unfolding alert_def toast_def edit_card_def say_def feedback_def show_published_def by (intro inv_intros)+

lemma keeps_tracking [inv_intros]:
  "sx_keeps (on_sub P) (track_draft actor dr)" "sx_keeps (on_sub P) (untrack_draft actor)"
  by (simp_all add: track_draft_def untrack_draft_def sx_keeps_def)

lemma keeps_catch_domain [inv_intros]:
  "\<lbrakk>sx_keeps P m; \<And>c. sx_keeps P (h c)\<rbrakk> \<Longrightarrow> sx_keeps P (catch_domain m h)"
  unfolding catch_domain_def by (intro keeps_try) (auto split: exn.splits)

lemma keeps_on_submission: "sx_keeps P m \<Longrightarrow> sx_keeps (on_sub P) (on_submission m)"
  by (auto simp: sx_keeps_def on_submission_def split: prod.splits)

lemma keeps_on_db: "sx_keeps P (on_repo m) \<Longrightarrow> sx_keeps (on_sub P) (on_db m)"
  by (auto simp: sx_keeps_def on_db_def split: prod.splits)

section \<open>Updates and a sealed draft\<close>

text \<open>Tokens, their checks and the buttons leave the drafts alone.\<close>

abbreviation flows :: "(wf_row list \<Rightarrow> bool) \<Rightarrow> repo \<Rightarrow> bool" where
  "flows P s \<equiv> P (db_workflows (rp_db s))"

lemma keeps_flows: "(\<And>d x d'. f d = Inr (x, d') \<Longrightarrow> db_workflows d' = db_workflows d) \<Longrightarrow> sx_keeps (flows P) (repo_run f)"
  by (rule keeps_repo_run) metis

lemma flows_tokens [inv_intros]:
  "sx_keeps (flows P) (repo_store_callback r)" "sx_keeps (flows P) (repo_consume_callback h t)"
  "sx_keeps (flows P) (repo_invalidate_tokens j t)" "sx_keeps (flows P) (repo_get_callback h)"
  "sx_keeps (flows P) (repo_list_attachments j)" "sx_keeps (flows P) (repo_get_by_id j)"
  unfolding repo_store_callback_def repo_consume_callback_def repo_invalidate_tokens_def repo_get_callback_def
    repo_list_attachments_def repo_get_by_id_def
  by (intro inv_intros keeps_flows;
      force dest: workflows_untouched simp: get_callback_sync_def list_attachments_sync_def get_by_id_sync_def rbind_eq_Inr
        split: option.splits)+

lemma flows_authorize: "sx_keeps (flows P) (authorize sha now raw actor chat ct thread preview)"
  unfolding authorize_def authorize_record_def Let_def by (intro inv_intros)+

lemma flows_issue_loop: "sx_keeps (flows P) (issue_loop sha tok dr e th pv actions i issued)"
proof (induction actions arbitrary: i issued)
  case Nil
  show ?case by (simp add: sx_keeps_def)
next
  case (Cons a actions)
  show ?case unfolding issue_loop.simps by (intro inv_intros Cons.IH)
qed

lemma flows_issue:
  "sx_keeps (flows P) (issue_preview_buttons sha tok now dr actions pv th ttl inval)"
  "sx_keeps (flows P) (invalidate_preview_tokens now j)"
  unfolding issue_preview_buttons_def invalidate_preview_tokens_def Let_def by (intro inv_intros flows_issue_loop)+

lemma locked_flows: "sx_keeps (flows (\<lambda>rows. locked k (empty_db\<lparr>db_workflows := rows\<rparr>))) m \<Longrightarrow> sx_keeps (repo_locked k) m"
  using locked_workflows[of "empty_db\<lparr>db_workflows := db_workflows d\<rparr>" d k for d] by (simp add: sx_keeps_def)

lemma version_flows: "sx_keeps (flows (\<lambda>rows. version (empty_db\<lparr>db_workflows := rows\<rparr>) k = v)) m \<Longrightarrow>
    sx_keeps (\<lambda>s. version (rp_db s) k = v) m"
  using version_workflows[of "empty_db\<lparr>db_workflows := db_workflows d\<rparr>" d k for d] by (simp add: sx_keeps_def)

lemmas locked_tokens [inv_intros] = flows_tokens(5)[THEN locked_flows] flows_authorize[THEN locked_flows] flows_issue[THEN locked_flows]

text \<open>No review is saved over a sealed draft.\<close>

lemma locked_save_review: "d_state dr = REVIEW \<Longrightarrow> sx_keeps (repo_locked k) (repo_save dr e)"
proof -
  assume r: "d_state dr = REVIEW"
  have "locked k d'" if l: "locked k d" and save: "save_sync dr e d = Inr (x, d')" for d x d'
  proof (cases "d_draft_id dr = k")
    case False
    with save_sync_workflows[OF save] l show ?thesis
      by (metis (no_types, lifting) locked_def save_row_version version_workflows)
  next
    case True
    from l obtain st n where v: "version d k = Some (st, n)" "st \<in> settled_states" by (auto simp: locked_def)
    have step: "version_step (version d k) (version d' k)" and "version d' k = Some (REVIEW, d_revision dr)"
      using save_sync_version[OF save, of k] True r by auto
    then have "version_step (Some (st, n)) (Some (REVIEW, d_revision dr))" using v by metis
    with locked_not_editable[OF v(2)] v(2) show ?thesis
      by (auto simp: version_step_simps settled_states_def post_create_states_def)
  qed
  then have "sx_keeps (repo_locked k) (repo_run (save_sync dr e))" by (rule keeps_repo_run)
  then show ?thesis unfolding repo_save_def by (intro inv_intros)
qed

lemma locked_create [inv_intros]: "sx_keeps (repo_locked k) (create_manual_draft now i owner chat t th did)"
  unfolding create_manual_draft_def
  by (intro seal_intros locked_save_review) (auto simp: draft_post_init_Inr)

lemma locked_edits [inv_intros]:
  "sx_keeps (repo_locked k) (toggle_issue_type now j owner chat rv ts)"
  "sx_keeps (repo_locked k) (toggle_priority now j owner chat rv ps)"
  "sx_keeps (repo_locked k) (cancel_draft now j owner chat rv)"
  "sx_keeps (repo_locked k) (update_template now j owner chat t rv)"
  "sx_keeps (repo_locked k) (get_draft j actor there)"
  by (rule keeps_edits keeps_update_template keeps_get_draft)+

lemma sealed_services [inv_intros]:
  "sx_keeps (sealed k n) (submit gw dh aid now j pat rv)" "sx_keeps (sealed k n) (reconcile_create gw now j pat)"
  "sx_keeps (sealed k n) (prepare_published_update now j t rv2)"
proof -
  show "sx_keeps (sealed k n) (submit gw dh aid now j pat rv)"
    using sealed_submission(1)[of j k n] by (cases "j = k") (auto simp: sx_keeps_def submit_locked)
qed (rule sealed_submission sealed_prepare)+

section \<open>Uploads\<close>

abbreviation att_locked :: "string \<Rightarrow> att_world \<Rightarrow> bool" where
  "att_locked k a \<equiv> repo_locked k (aw_repo a)"

lemma keeps_in_repo: "sx_keeps P m \<Longrightarrow> sx_keeps (\<lambda>a. P (aw_repo a)) (in_repo m)"
  by (auto simp: sx_keeps_def in_repo_def split: prod.splits)

lemma locked_statuses [inv_intros]:
  "sx_keeps (repo_locked k) (service_set_status j uid es ts at u err)"
  unfolding service_set_status_def by (intro inv_intros keeps_untouched) (auto dest: workflows_untouched)

lemma locked_try_upload [inv_intros]: "sx_keeps (att_locked k) (try_upload pt pol pat key used a)"
  by (simp add: sx_keeps_def try_upload_def Let_def split: sum.splits)

lemma locked_upload_one [inv_intros]:
  "sx_keeps (att_locked k) (skip_attachment now j r code)" "sx_keeps (att_locked k) (upload_one pt pol now j pat key acc r)"
  unfolding skip_attachment_def upload_one_def Let_def by (intro inv_intros keeps_in_repo)+

lemma locked_upload_loop: "sx_keeps (att_locked k) (upload_loop pt pol now j pat key i rs acc)"
proof (induction rs arbitrary: i acc)
  case Nil
  show ?case by (simp add: sx_keeps_def)
next
  case (Cons r rs)
  show ?case unfolding upload_loop.simps Let_def by (intro inv_intros Cons.IH)
qed

lemma locked_upload: "sx_keeps (att_locked k) (upload_pending pt pol now j pat)"
  unfolding upload_pending_def upload_found_def upload_attaching_def upload_records_def finish_batch_def Let_def
  by (intro inv_intros keeps_in_repo locked_upload_loop locked_cas; simp)

lemma keeps_on_attachments:
  "sx_keeps (att_locked k) m \<Longrightarrow> sx_keeps (on_sub (sealed k n)) (on_attachments m)"
proof -
  assume keep: "sx_keeps (att_locked k) m"
  have "on_sub (sealed k n) (snd (on_attachments m w))" if w: "on_sub (sealed k n) w" for w
  proof -
    let ?a = "\<lparr>aw_repo = sw_repo (uw_sub w), aw_calls = uw_loads w, aw_uploads = uw_uploads w\<rparr>"
    have "att_locked k (snd (m ?a))" using sx_keepsD[OF keep, of ?a] w by simp
    then show ?thesis using w by (cases "m ?a") (simp add: on_attachments_def creates_def)
  qed
  then show ?thesis by (simp add: sx_keeps_def)
qed

section \<open>An unknown outcome is not dispatched again by any update\<close>

lemma sealed_repo [inv_intros]: "sx_keeps (repo_locked k) m \<Longrightarrow> sx_keeps (on_sub (sealed k n)) (on_db m)"
  by (intro keeps_on_db sealed_on_repo)

lemma sealed_calls [inv_intros]: "sx_keeps (sealed k n) m \<Longrightarrow> sx_keeps (on_sub (sealed k n)) (on_submission m)"
  by (rule keeps_on_submission)

lemma sealed_buttons [inv_intros]:
  "sx_keeps (on_sub (sealed k n)) (issue_buttons env i dr actions mid)"
  "sx_keeps (on_sub (sealed k n)) (upload_if_any env dr pat)"
  "sx_keeps (on_sub (sealed k n)) (press_edit env actor dr)"
  unfolding issue_buttons_def upload_if_any_def press_edit_def
  by (intro inv_intros keeps_on_attachments locked_upload keeps_modify; simp)+

lemma sealed_presses [inv_intros]:
  "sx_keeps (repo_locked k) change \<Longrightarrow> sx_keeps (on_sub (sealed k n)) (press_toggle env t change mid)"
  "sx_keeps (on_sub (sealed k n)) (press_cancel env actor chat dr r)"
  "sx_keeps (on_sub (sealed k n)) (show_submitted env dr pat mid res)"
  "sx_keeps (on_sub (sealed k n)) (press_edit_published env dr r)"
  unfolding press_toggle_def press_cancel_def show_submitted_def press_edit_published_def
  by (intro inv_intros; assumption?)+

lemma sealed_submissions [inv_intros]:
  "sx_keeps (on_sub (sealed k n)) (press_confirm env actor mid dr r)"
  "sx_keeps (on_sub (sealed k n)) (press_retry env actor dr r)"
  "sx_keeps (on_sub (sealed k n)) (press_reconcile env actor dr)"
  unfolding press_confirm_def press_retry_def press_reconcile_def
  by (intro inv_intros)+

lemma sealed_press: "sx_keeps (on_sub (sealed k n)) (handle_callback_query env p)"
proof -
  have "sx_keeps (on_sub (sealed k n)) (dispatch_press env actor chat mid dr r action)" for actor chat mid dr r action
    unfolding dispatch_press_def by (cases action; simp; intro inv_intros)
  then show ?thesis
    unfolding handle_callback_query_def answer_authorized_def by (intro inv_intros)
qed

lemma sealed_messages [inv_intros]:
  "sx_keeps (on_sub (sealed k n)) (make_draft env u actor chat t)"
  "sx_keeps (on_sub (sealed k n)) (typed_text env actor chat dr t2)"
  "sx_keeps (on_sub (sealed k n)) (on_draft_ready env dr2)"
  unfolding make_draft_def present_draft_def typed_text_def typed_cancel_def typed_change_def on_draft_ready_def
  by (intro inv_intros)+

lemma keeps_guarded:
  "(\<And>actor chat. sx_keeps (on_sub P) (go actor chat)) \<Longrightarrow> sx_keeps (on_sub P) (guarded env u go)"
  unfolding guarded_def by (auto intro!: inv_intros split: option.splits bool.splits)

lemma sealed_drafts:
  "sx_keeps (on_sub (sealed k n)) (handle_forward_intake env u)"
  "sx_keeps (on_sub (sealed k n)) (handle_manual_create env u)"
  "sx_keeps (on_sub (sealed k n)) (handle_draft_reply_text env u)"
  unfolding handle_forward_intake_def handle_manual_create_def handle_draft_reply_text_def edit_active_def
  by (intro inv_intros keeps_guarded)+

lemma run_updates_sealed: "sealed k n (uw_sub w) \<Longrightarrow> sealed k n (uw_sub (run_updates ops w))"
proof (induction ops arbitrary: w)
  case Nil
  then show ?case by (simp add: run_updates_def)
next
  case (Cons x ops)
  obtain env op where x: "x = (env, op)" by (cases x)
  have "on_sub (sealed k n) (run_update x w)"
    unfolding x
    by (cases op) (use sealed_press[THEN sx_keepsD] sealed_drafts[THEN sx_keepsD] sealed_messages(3)[THEN sx_keepsD] Cons.prems in simp_all)
  from Cons.IH[OF this] show ?case by (simp add: run_updates_def)
qed

text \<open>
  C7. Once the outcome of a creation is unknown, or the issue exists, nothing that users do in the chat creates it again: over any
  sequence of presses, forwards, new drafts, typed edits and analysed batches, in any environment, no further creation of the draft is
  dispatched, and it stays in one of these states.
\<close>

theorem updates_never_redispatch:
  assumes "version (rp_db (sw_repo (uw_sub w))) k = Some (st, n)" and "st \<in> {SUBMISSION_UNKNOWN} \<union> post_create_states"
  shows "creates k (uw_sub (run_updates ops w)) = creates k (uw_sub w) \<and>
    (\<exists>st' n'. version (rp_db (sw_repo (uw_sub (run_updates ops w)))) k = Some (st', n') \<and>
       st' \<in> {SUBMISSION_UNKNOWN} \<union> post_create_states)"
proof -
  have "sealed k (creates k (uw_sub w)) (uw_sub w)" using assms by (simp add: locked_def settled_states_def)
  from run_updates_sealed[OF this, of ops] show ?thesis by (simp add: locked_def settled_states_def)
qed

section \<open>Who makes the bot call Jira\<close>

text \<open>What holds of the calls to Jira and the credentials as long as no submission runs.\<close>

definition unspoken :: "(gateway_call \<times> db) list \<times> upload list \<Rightarrow> user_store option \<Rightarrow> ui_world \<Rightarrow> bool" where
  "unspoken cs us w \<longleftrightarrow> (sw_calls (uw_sub w), uw_uploads w) = cs \<and> uw_users w = us"

lemma unspoken_tell [inv_intros]: "sx_keeps (unspoken cs us) (tell env c)"
  by (simp add: sx_keeps_def tg_call_def Let_def unspoken_def)

lemma unspoken_said [inv_intros]:
  "sx_keeps (unspoken cs us) (alert env t)" "sx_keeps (unspoken cs us) (toast env t)" "sx_keeps (unspoken cs us) (edit_card env t m)"
  "sx_keeps (unspoken cs us) (say env t m)" "sx_keeps (unspoken cs us) (feedback env t)"
  unfolding alert_def toast_def edit_card_def say_def feedback_def by (intro inv_intros)+

lemma unspoken_rest [inv_intros]:
  "sx_keeps (unspoken cs us) (track_draft actor dr)" "sx_keeps (unspoken cs us) (untrack_draft actor)"
  "sx_keeps (unspoken cs us) (on_db m)" "sx_keeps (unspoken cs us) (on_submission (prepare_published_update now k t rv))"
proof -
  show db: "sx_keeps (unspoken cs us) (on_db m)" for m :: "(repo, exn, 'z) sx"
    using on_repo_calls[of m] by (auto simp: sx_keeps_def on_db_def unspoken_def split: prod.splits) (metis snd_conv)
  have "sx_keeps (\<lambda>s. sw_calls s = fst cs) (prepare_published_update now k t rv)"
    unfolding prepare_published_update_def required_draft_def by (intro inv_intros keeps_on_repo_calls)
  then show "sx_keeps (unspoken cs us) (on_submission (prepare_published_update now k t rv))"
    by (cases cs) (auto simp: sx_keeps_def on_submission_def unspoken_def split: prod.splits)
qed (simp_all add: track_draft_def untrack_draft_def sx_keeps_def unspoken_def)

lemma unspoken_buttons [inv_intros]:
  "sx_keeps (unspoken cs us) (issue_buttons env i dr actions mid)" "sx_keeps (unspoken cs us) (press_edit env actor dr)"
  "sx_keeps (unspoken cs us) (press_toggle env t change mid)" "sx_keeps (unspoken cs us) (press_cancel env actor chat dr r)"
  "sx_keeps (unspoken cs us) (press_edit_published env dr r)"
  unfolding issue_buttons_def press_edit_def press_toggle_def press_cancel_def press_edit_published_def
  by (intro inv_intros keeps_modify; simp add: unspoken_def)+

lemma unspoken_messages:
  "sx_keeps (unspoken cs us) (handle_forward_intake env u)" "sx_keeps (unspoken cs us) (handle_manual_create env u)"
  "sx_keeps (unspoken cs us) (handle_draft_reply_text env u)" "sx_keeps (unspoken cs us) (on_draft_ready env dr)"
proof -
  have guard: "(\<And>actor chat. sx_keeps (unspoken cs us) (go actor chat)) \<Longrightarrow> sx_keeps (unspoken cs us) (guarded env u go)" for go
    unfolding guarded_def by (auto intro!: inv_intros split: option.splits bool.splits)
  show "sx_keeps (unspoken cs us) (handle_forward_intake env u)" "sx_keeps (unspoken cs us) (handle_manual_create env u)"
    "sx_keeps (unspoken cs us) (handle_draft_reply_text env u)" "sx_keeps (unspoken cs us) (on_draft_ready env dr)"
    unfolding handle_forward_intake_def handle_manual_create_def handle_draft_reply_text_def on_draft_ready_def make_draft_def
      present_draft_def edit_active_def typed_text_def typed_cancel_def typed_change_def
    by (intro inv_intros guard)+
qed

text \<open>A submission needs a credential of the user who pressed.\<close>

lemma unspoken_without_pat:
  assumes "get_user_pat actor us \<in> {None, Some []}"
  shows "sx_keeps (unspoken cs us) (press_confirm env actor mid dr r)" "sx_keeps (unspoken cs us) (press_retry env actor dr r)"
    "sx_keeps (unspoken cs us) (press_reconcile env actor dr)"
proof -
  have read: "sx_keeps (unspoken cs us) (sx_bind (toast env t) (\<lambda>_. sx_bind (sx_get (\<lambda>w. get_user_pat actor (uw_users w))) f))"
    if "\<And>pat. pat \<in> {None, Some []} \<Longrightarrow> sx_keeps (unspoken cs us) (f pat)" for t and f :: "string option \<Rightarrow> unit ui_sx"
  proof (rule sx_keeps_bind)
    show "sx_keeps (unspoken cs us) (toast env t)" by (intro inv_intros)
    show "sx_keeps (unspoken cs us) (sx_bind (sx_get (\<lambda>w. get_user_pat actor (uw_users w))) f)"
      using assms that by (auto simp: sx_keeps_def unspoken_def)
  qed
  show "sx_keeps (unspoken cs us) (press_confirm env actor mid dr r)" "sx_keeps (unspoken cs us) (press_retry env actor dr r)"
    "sx_keeps (unspoken cs us) (press_reconcile env actor dr)"
    unfolding press_confirm_def press_retry_def press_reconcile_def
    by (rule read; auto intro!: inv_intros)+
qed

lemma unspoken_dispatch:
  assumes "action \<notin> {A_CONFIRM, A_RETRY, A_RECONCILE} \<or> get_user_pat actor us \<in> {None, Some []}"
  shows "sx_keeps (unspoken cs us) (dispatch_press env actor chat mid dr r action)"
  using assms unspoken_without_pat[of actor us]
  unfolding dispatch_press_def by (cases action; auto intro!: inv_intros)

text \<open>A press that was authorised, of a permitted user.\<close>

definition authorized_press :: "ui_env \<Rightarrow> press \<Rightarrow> ui_world \<Rightarrow> int \<Rightarrow> int \<Rightarrow> int \<Rightarrow> auth_result \<Rightarrow> repo \<Rightarrow> bool" where
  "authorized_press env p w actor chat mid res s \<longleftrightarrow>
     (\<exists>data chat_type thread. p = \<lparr>pr_data = Some data, pr_actor = Some actor, pr_chat = Some (chat, chat_type),
        pr_message = Some (mid, thread)\<rparr> \<and>
      decision_allowed (require_allowed_user actor (ue_allowed env)) \<and>
      authorize (ue_sha env) (ue_clock env 0) (Some data) actor chat chat_type thread (Some mid) (sw_repo (uw_sub w)) = (Inr res, s) \<and>
      ar_allowed res)"

lemma on_db_app: "m (sw_repo (uw_sub w)) = (r, s) \<Longrightarrow> on_db m w = (r, w\<lparr>uw_sub := (uw_sub w)\<lparr>sw_repo := s\<rparr>\<rparr>)"
  by (simp add: on_db_def on_repo_def)

lemma press_run:
  assumes "authorized_press env p w actor chat mid res s"
  shows "handle_callback_query env p w = answer_authorized env actor chat mid res (w\<lparr>uw_sub := (uw_sub w)\<lparr>sw_repo := s\<rparr>\<rparr>)"
  using assms by (auto simp: authorized_press_def handle_callback_query_def sx_bind_def on_db_app)

lemma press_unauthorized:
  assumes "\<nexists>actor chat mid res s. authorized_press env p w actor chat mid res s"
  shows "unspoken (sw_calls (uw_sub w), uw_uploads w) (uw_users w) (snd (handle_callback_query env p w))"
proof -
  let ?P = "unspoken (sw_calls (uw_sub w), uw_uploads w) (uw_users w)"
  have w: "?P w" by (simp add: unspoken_def)
  note said = unspoken_said(1)[THEN sx_keepsD, OF w]
  show ?thesis
  proof (cases "\<exists>data actor chat chat_type mid thread. p = \<lparr>pr_data = Some data, pr_actor = Some actor,
      pr_chat = Some (chat, chat_type), pr_message = Some (mid, thread)\<rparr> \<and> decision_allowed (require_allowed_user actor (ue_allowed env))")
    case False
    then show ?thesis
      using w said by (cases p) (auto simp: handle_callback_query_def split: option.splits)
  next
    case True
    then obtain data actor chat chat_type mid thread where p: "p = \<lparr>pr_data = Some data, pr_actor = Some actor,
      pr_chat = Some (chat, chat_type), pr_message = Some (mid, thread)\<rparr>" and allowed: "decision_allowed (require_allowed_user actor (ue_allowed env))"
      by blast
    obtain r s where run: "authorize (ue_sha env) (ue_clock env 0) (Some data) actor chat chat_type thread (Some mid) (sw_repo (uw_sub w)) = (r, s)"
      by fastforce
    let ?w = "w\<lparr>uw_sub := (uw_sub w)\<lparr>sw_repo := s\<rparr>\<rparr>"
    have w': "?P ?w" using w by (simp add: unspoken_def)
    show ?thesis
    proof (cases r)
      case (Inl e)
      then show ?thesis using run w' by (simp add: handle_callback_query_def p allowed sx_bind_def on_db_app)
    next
      case (Inr res)
      then have "\<not> ar_allowed res" using assms run allowed p by (auto simp: authorized_press_def)
      then have "handle_callback_query env p w = alert env (case ar_denial_code res of None \<Rightarrow> ([0x64CD, 0x4F5C, 0x7121, 0x6548, 0x6216, 0x6309, 0x9215, 0x5DF2, 0x904E, 0x671F]) | Some c \<Rightarrow> user_message_for_denial c) ?w"
        using run Inr by (simp add: handle_callback_query_def p allowed sx_bind_def on_db_app answer_authorized_def)
      then show ?thesis using unspoken_said(1)[THEN sx_keepsD, OF w'] by simp
    qed
  qed
qed

text \<open>
  C8. The draft handlers let Jira hear of a draft only through its owner: whenever a press on a draft's button, a forwarded, typed or
  \<open>/new\<close> message, or a ready analysis makes the submission service call Jira or the attachment service dispatch an upload, the update is
  the press of a Confirm, Retry or Reconcile button by a permitted user, the press was authorised against its stored token and
  the draft as it is stored, and the user has a stored credential.
\<close>

theorem jira_needs_authorized_press:
  assumes "sw_calls (uw_sub (run_update (env, op) w)) \<noteq> sw_calls (uw_sub w) \<or> uw_uploads (run_update (env, op) w) \<noteq> uw_uploads w"
  shows "\<exists>p actor chat mid res s pat. op = Press p \<and> authorized_press env p w actor chat mid res s \<and>
    ar_action res \<in> {Some A_CONFIRM, Some A_RETRY, Some A_RECONCILE} \<and> get_user_pat actor (uw_users w) = Some pat \<and> pat \<noteq> []"
proof -
  let ?P = "unspoken (sw_calls (uw_sub w), uw_uploads w) (uw_users w)"
  have w: "?P w" by (simp add: unspoken_def)
  have n: "\<not> ?P (run_update (env, op) w)" using assms by (auto simp: unspoken_def)
  with unspoken_messages[THEN sx_keepsD, OF w] obtain p where p: "op = Press p" by (cases op) simp_all
  with n press_unauthorized obtain actor chat mid res s where a: "authorized_press env p w actor chat mid res s"
    by (metis run_update.simps(1))
  let ?w = "w\<lparr>uw_sub := (uw_sub w)\<lparr>sw_repo := s\<rparr>\<rparr>"
  have w': "?P ?w" by (simp add: unspoken_def)
  from n p press_run[OF a] have m: "\<not> ?P (snd (answer_authorized env actor chat mid res ?w))" by simp
  then have "\<not> sx_keeps ?P (answer_authorized env actor chat mid res)" using sx_keepsD[where P = ?P and s = ?w] w' by blast
  then obtain dr r action where act: "ar_action res = Some action" and d: "\<not> sx_keeps ?P (dispatch_press env actor chat mid dr r action)"
    unfolding answer_authorized_def by (auto intro!: inv_intros split: option.splits if_splits)
  from d unspoken_dispatch[of action actor "uw_users w" "(sw_calls (uw_sub w), uw_uploads w)" env chat mid dr r]
  have "action \<in> {A_CONFIRM, A_RETRY, A_RECONCILE}" and "get_user_pat actor (uw_users w) \<notin> {None, Some []}" by blast+
  then obtain pat where "get_user_pat actor (uw_users w) = Some pat" "pat \<noteq> []"
      "ar_action res \<in> {Some A_CONFIRM, Some A_RETRY, Some A_RECONCILE}"
    using act by (cases "get_user_pat actor (uw_users w)") auto
  with p a show ?thesis by blast
qed


section \<open>A sample press\<close>

text \<open>A repository with one draft and the token of one button, and a press of it.\<close>

abbreviation sample_button :: "callback_action \<Rightarrow> callback_token_record" where
  "sample_button a \<equiv> sample_record\<lparr>ct_action := a\<rparr>"

definition sample_ui_repo :: "callback_action \<Rightarrow> repo" where
  "sample_ui_repo a = sample_review_repo\<lparr>rp_db := (rp_db sample_review_repo)\<lparr>db_callbacks := [sample_button a]\<rparr>\<rparr>"

definition sample_ui_env :: ui_env where
  "sample_ui_env = \<lparr>ue_allowed = None, ue_settings_allowed = None, ue_project = ''OPS'', ue_clock = (\<lambda>_. 50),
     ue_sha = (\<lambda>_. sample_hash), ue_tokens = (\<lambda>_. sample_token), ue_new_id = ''d2'', ue_attempt_id = ''a1'', ue_message_id = 11,
     ue_tg_fails = (\<lambda>_. False), ue_submission = Some (sample_gateway (\<lambda>_. Inl OSError), \<lambda>_. ''h''), ue_attachments = None,
     ue_has_copy = True, ue_text = map char_of, ue_str = (\<lambda>_. [])\<rparr>"

definition sample_ui_users :: user_store where
  "sample_ui_users = (user_store_init sample_disk)\<lparr>us_credentials :=
     [(7, \<lparr>jc_username = ''ann'', jc_display_name = ''Ann'', jc_pat = ''pat''\<rparr>)]\<rparr>"

definition sample_ui_world :: "callback_action \<Rightarrow> user_store option \<Rightarrow> ui_world" where
  "sample_ui_world a users = \<lparr>ch_log = [], uw_sub = \<lparr>sw_repo = sample_ui_repo a, sw_calls = []\<rparr>, uw_loads = 0, uw_uploads = [],
     uw_users = users, uw_active = []\<rparr>"

definition sample_ui_press :: "callback_action \<Rightarrow> press" where
  "sample_ui_press a = \<lparr>pr_data = Some (wire a sample_token), pr_actor = Some 7, pr_chat = Some (7, ''private''),
     pr_message = Some (9, None)\<rparr>"

definition sample_ui_draft :: draft where
  "sample_ui_draft = \<lparr>d_draft_id = ''d1'', d_owner_id = 7, d_chat_id = 7, d_thread_id = None, d_state = REVIEW,
     d_revision = 4, d_template = Some sample_template, d_source_messages = [], d_attachments = [],
     d_created_at = Aware 10, d_updated_at = Aware 20, d_published_issue = None, d_last_error = None\<rparr>"

text \<open>The repository after the press: its token is consumed.\<close>

definition sample_pressed_repo :: "callback_action \<Rightarrow> repo" where
  "sample_pressed_repo a = sample_review_repo\<lparr>rp_db := (rp_db sample_review_repo)\<lparr>db_callbacks :=
     [(sample_button a)\<lparr>ct_consumed_at := Some (Aware 50)\<rparr>]\<rparr>\<rparr>"

lemma sample_ui_ok: "db_ok (rp_db (sample_ui_repo A_CONFIRM))"
  by (simp add: sample_ui_repo_def sample_review_repo_def sample_row_def db_ok_def tables_ok_def children_ok_def empty_db_def
      table_ok_def wf_check_def cb_check_def sample_record_def sample_hash_def is_lower_hex_def
      all_states_def stored_actions_def list_all_iff)

lemma sample_ui_load:
  "load_draft (rp_db (sample_ui_repo a)) ''d1'' = Inr (Some sample_ui_draft)"
  "load_draft (rp_db (sample_pressed_repo a)) ''d1'' = Inr (Some sample_ui_draft)"
  using load_review_sample by (simp_all add: sample_ui_repo_def sample_pressed_repo_def sample_ui_draft_def)

lemma sample_ui_steps:
  "repo_get_callback sample_hash (sample_ui_repo a) = (Inr (Some (sample_button a)), (sample_ui_repo a))"
  "repo_get_by_id ''d1'' (sample_ui_repo a) = (Inr (Some sample_ui_draft), (sample_ui_repo a))"
  "repo_consume_callback sample_hash (Aware 50) (sample_ui_repo a) = (Inr True, (sample_pressed_repo a))"
proof -
  have valid: "valid_token_record (sample_button a)"
    by (simp add: valid_token_record_def sample_record_def sample_hash_def TOKEN_HASH_HEX_LENGTH_def is_lower_hex_def list_all_iff)
  have init: "rp_initialized (sample_ui_repo a)" by (simp add: sample_ui_repo_def sample_review_repo_def)
  have find: "find_row ct_token_hash sample_hash (db_callbacks (rp_db (sample_ui_repo a))) = Some (sample_button a)"
    by (simp add: sample_ui_repo_def sample_record_def)
  have "(sample_button a)\<lparr>ct_expires_at := ct_expires_at (sample_button a), ct_consumed_at := ct_consumed_at (sample_button a)\<rparr> = (sample_button a)"
    by simp
  then show "repo_get_callback sample_hash (sample_ui_repo a) = (Inr (Some (sample_button a)), (sample_ui_repo a))"
    using valid init find
    by (auto simp: repo_get_callback_def repo_run_Inr get_callback_sync_def rbind_eq_Inr valid_token_record_def)
  show "repo_get_by_id ''d1'' (sample_ui_repo a) = (Inr (Some sample_ui_draft), (sample_ui_repo a))"
    using init by (simp add: repo_get_by_id_Inr sample_ui_load)
  show "repo_consume_callback sample_hash (Aware 50) (sample_ui_repo a) = (Inr True, (sample_pressed_repo a))"
    by (simp add: repo_consume_callback_def validate_datetime_def repo_run_def consume_callback_sync_def to_db_datetime_def
        sample_ui_repo_def sample_pressed_repo_def sample_review_repo_def consumable_def sample_record_def count_rows_def update_rows_def)
qed

lemma sample_ui_authorized:
  "authorized_press sample_ui_env (sample_ui_press a) (sample_ui_world a users) 7 7 9
     (result_allow a sample_ui_draft (sample_button a) sample_hash) (sample_pressed_repo a)"
proof -
  have fields: "ct_draft_id (sample_button a) = ''d1''" "ct_token_hash (sample_button a) = sample_hash"
    "ct_owner_user_id (sample_button a) = 7" "ct_chat_id (sample_button a) = 7" "ct_action (sample_button a) = a"
    "ct_message_thread_id (sample_button a) = None" "ct_preview_message_id (sample_button a) = Some 9"
    "ct_expected_revision (sample_button a) = 4" "ct_expected_state (sample_button a) = ''review''"
    "ct_expires_at (sample_button a) = Aware 500" "ct_one_shot (sample_button a)" "ct_consumed_at (sample_button a) = None"
    "d_revision sample_ui_draft = 4" "d_state sample_ui_draft = REVIEW"
    by (simp_all add: sample_record_def sample_ui_draft_def)
  have "authorize (\<lambda>_. sample_hash) 50 (Some (wire a sample_token)) 7 7 ''private'' None (Some 9) (sample_ui_repo a) =
      (Inr (result_allow a sample_ui_draft (sample_button a) sample_hash), (sample_pressed_repo a))"
    by (simp add: authorize_def require_private_chat_def private_sample parse_wire sample_token_ok hash_opaque_token_def
        sx_bind_app sample_ui_steps authorize_record_def fields auth_input_post_init_def authorize_callback_def)
  then show ?thesis
    by (simp add: authorized_press_def sample_ui_press_def sample_ui_env_def sample_ui_world_def require_allowed_user_def
        decision_allowed_def result_allow_def)
qed

lemma sample_ui_fields:
  "ue_clock sample_ui_env n = 50" "ue_attempt_id sample_ui_env = ''a1''" "ue_tg_fails sample_ui_env n = False"
  "ue_submission sample_ui_env = Some (sample_gateway (\<lambda>_. Inl OSError), \<lambda>_. ''h'')" "d_draft_id sample_ui_draft = ''d1''"
  "ct_expected_revision (sample_button a) = 4" "uw_sub (sample_ui_world a us) = \<lparr>sw_repo = sample_ui_repo a, sw_calls = []\<rparr>"
  "uw_users (sample_ui_world a us) = us" "ch_log (sample_ui_world a us) = []" "uw_active (sample_ui_world a us) = []" "ue_sha sample_ui_env t = sample_hash"
  "ue_allowed sample_ui_env = None" "get_user_pat 7 (Some sample_ui_users) = Some ''pat''"
  by (simp_all add: sample_ui_env_def sample_ui_draft_def sample_record_def sample_ui_world_def get_user_pat_def
      get_credentials_def sample_ui_users_def)

lemma sample_pressed:
  "run_update (sample_ui_env, Press (sample_ui_press A_CONFIRM)) (sample_ui_world A_CONFIRM us) =
     snd (press_confirm sample_ui_env 7 9 sample_ui_draft (sample_button A_CONFIRM)
       (sample_ui_world A_CONFIRM us\<lparr>uw_sub := \<lparr>sw_repo = sample_pressed_repo A_CONFIRM, sw_calls = []\<rparr>\<rparr>))"
  by (simp add: press_run[OF sample_ui_authorized] answer_authorized_def result_allow_def dispatch_press_def sample_ui_fields)

lemma calls_upload: "sx_keeps (\<lambda>w. sw_calls (uw_sub w) = cs) (upload_if_any env dr pat)"
  unfolding upload_if_any_def
  by (intro inv_intros) (auto simp: sx_keeps_def on_attachments_def split: prod.splits)

lemma calls_submitted: "sx_keeps (\<lambda>w. sw_calls (uw_sub w) = cs) (show_submitted env dr pat mid res)"
proof -
  have said: "sx_keeps (\<lambda>w. sw_calls (uw_sub w) = cs) (tell env c)" "sx_keeps (\<lambda>w. sw_calls (uw_sub w) = cs) (on_db m)"
    for c and m :: "(repo, exn, 'z) sx"
    using on_repo_calls[of m] by (auto simp: sx_keeps_def tg_call_def Let_def on_db_def split: prod.splits) (metis snd_conv)
  show ?thesis
    unfolding show_submitted_def show_published_def issue_buttons_def edit_card_def say_def feedback_def alert_def toast_def
    by (intro inv_intros calls_upload said)
qed

lemma sample_submit:
  "\<exists>res s. submit (sample_gateway (\<lambda>_. Inl OSError)) (\<lambda>_. ''h'') ''a1'' 50 ''d1'' ''pat'' (Some 4)
     \<lparr>sw_repo = sample_pressed_repo A_CONFIRM, sw_calls = []\<rparr> = (Inr res, s) \<and> sw_calls s \<noteq> []"
proof -
  let ?w = "\<lparr>sw_repo = sample_pressed_repo A_CONFIRM, sw_calls = []\<rparr>"
  let ?m = "submit (sample_gateway (\<lambda>_. Inl OSError)) (\<lambda>_. ''h'') ''a1'' 50 ''d1'' ''pat'' (Some 4) ?w"
  have "\<not> isl (fst ?m) \<and> sw_calls (snd ?m) \<noteq> []"
    by (simp add: submit_def required_draft_def on_repo_def repo_get_by_id_def get_by_id_sync_def repo_run_def
        sample_ui_load sx_bind_app sample_ui_draft_def)
       (simp add: submit_loaded_def move_draft_def on_repo_def repo_cas_def validate_safe_code_def cas_sync_def
        sx_bind_app repo_eval sample_pressed_repo_def sample_review_repo_def load_draft_def draft_post_init_def new_attempt_def
        repo_get_latest_attempt_def get_latest_attempt_sync_def submission_attempt_post_init_def
        canonical_request_hash_def repo_claim_attempt_def claim_attempt_sync_def attempt_claim_states_def
        attempt_values_def attempt_statuses_def sql_insert_def sa_check_def sa_clash_def opt_to_db_def
        sample_gateway_def record_create_def finish_unknown_def close_attempt_def repo_update_attempt_def
        update_attempt_sync_def safe_code_char_def)
  then show ?thesis using sum_result_Inr[of ?m] by fastforce
qed

theorem jira_needs_authorized_press_witness:
  "\<exists>res s. authorized_press sample_ui_env (sample_ui_press A_CONFIRM) (sample_ui_world A_CONFIRM (Some sample_ui_users)) 7 7 9 res s \<and>
     sw_calls (uw_sub (run_update (sample_ui_env, Press (sample_ui_press A_CONFIRM)) (sample_ui_world A_CONFIRM (Some sample_ui_users)))) \<noteq> []"
proof -
  let ?w = "sample_ui_world A_CONFIRM (Some sample_ui_users)"
  let ?p = "\<lparr>sw_repo = sample_pressed_repo A_CONFIRM, sw_calls = []\<rparr>"
  obtain res s where run: "submit (sample_gateway (\<lambda>_. Inl OSError)) (\<lambda>_. ''h'') ''a1'' 50 ''d1'' ''pat'' (Some 4) ?p = (Inr res, s)"
    and calls: "sw_calls s \<noteq> []" using sample_submit by blast
  let ?said = "[(Answer (Some ([0x6B63, 0x5728, 0x63D0, 0x4EA4, 0x5DE5, 0x55AE] @ codes ''...'')) False, True), (Edit_Text (render_submission_progress sample_ui_draft) No_Markup, True)]"
  let ?next = "?w\<lparr>ch_log := ?said, uw_sub := s\<rparr>"
  have "run_update (sample_ui_env, Press (sample_ui_press A_CONFIRM)) ?w =
      snd (show_submitted sample_ui_env sample_ui_draft ''pat'' 9 res ?next)"
    unfolding sample_pressed
    using run by (simp add: press_confirm_def toast_def edit_card_def tg_call_def sx_bind_app on_submission_def catch_domain_def
        sx_try_def sample_ui_fields Let_def)
  moreover have "sw_calls (uw_sub (snd (show_submitted sample_ui_env sample_ui_draft ''pat'' 9 res ?next))) = sw_calls s"
    by (rule sx_keepsD[OF calls_submitted]) simp
  ultimately have called: "sw_calls (uw_sub (run_update (sample_ui_env, Press (sample_ui_press A_CONFIRM)) ?w)) \<noteq> []"
    using calls by simp
  then have "sw_calls (uw_sub (run_update (sample_ui_env, Press (sample_ui_press A_CONFIRM)) ?w)) \<noteq> sw_calls (uw_sub ?w) \<or>
      uw_uploads (run_update (sample_ui_env, Press (sample_ui_press A_CONFIRM)) ?w) \<noteq> uw_uploads ?w"
    by (simp add: sample_ui_world_def)
  from jira_needs_authorized_press [OF this] called show ?thesis
    using sample_ui_authorized by blast
qed

theorem updates_never_redispatch_witness:
  "creates ''d1'' (uw_sub (run_updates [(sample_ui_env, Press (sample_ui_press A_CONFIRM)), (sample_ui_env, Press (sample_ui_press A_CONFIRM))]
     (sample_ui_world A_CONFIRM None\<lparr>uw_sub := \<lparr>sw_repo = sample_repo SUBMISSION_UNKNOWN 4, sw_calls = []\<rparr>\<rparr>))) = 0"
proof -
  let ?w = "sample_ui_world A_CONFIRM None\<lparr>uw_sub := \<lparr>sw_repo = sample_repo SUBMISSION_UNKNOWN 4, sw_calls = []\<rparr>\<rparr>"
  have "version (rp_db (sw_repo (uw_sub ?w))) ''d1'' = Some (SUBMISSION_UNKNOWN, 4)"
    by (simp add: version_def find_workflow_def sample_repo_def sample_row_def)
  from updates_never_redispatch [OF this, of "[(sample_ui_env, Press (sample_ui_press A_CONFIRM)), (sample_ui_env, Press (sample_ui_press A_CONFIRM))]"]
  show ?thesis by (simp add: creates_def)
qed
end
