(* ===== verification/Draft_Flows.thy ===== *)
theory Draft_Flows
  imports Draft_Safety
begin

text \<open>
  Whole conversations about a draft: the first preview stays without its buttons, a Confirm without a stored credential spends its button,
  and an edit by button locks out typed edits.
\<close>

section \<open>Confirming without a credential\<close>

lemma authorized_press_data: "authorized_press env p w actor chat mid res s \<Longrightarrow> pr_data p = Some raw \<Longrightarrow>
    \<exists>ct thread. authorize (ue_sha env) (ue_clock env 0) (Some raw) actor chat ct thread (Some mid) (sw_repo (uw_sub w)) = (Inr res, s) \<and>
      ar_allowed res"
  by (auto simp: authorized_press_def) blast

lemma allowed_action:
  assumes "authorize sha now raw actor chat ct thread preview s = (Inr res, s')" and "ar_allowed res"
    and "parse_callback_data raw = Inr pc"
  shows "ar_action res = Some (pc_action pc)"
  using authorize_allowed[OF assms(1,2)] assms(3)
  by (auto simp: authorize_record_def sx_bind_eq_Inr Let_def decision_allowed_def result_deny_def result_allow_def
      split: if_splits option.splits simp del: sx_bind_simps dest!: arg_cong[where f = ar_allowed])

text \<open>
  C10. A user who has no credential loses the Confirm button: pressing it is answered with the advice to log in, nothing is sent to
  Jira and no draft changes, but the token of the button is spent, so that after logging in every press of that button, of any user
  and in any chat, is refused, whatever the repository does in between.
\<close>

theorem confirm_without_credential_spends_button:
  assumes "db_ok (rp_db (sw_repo (uw_sub w)))" and "authorized_press env p w actor chat mid res s"
    and "pr_data p = Some raw" and "parse_callback_data (Some raw) = Inr pc" and "pc_action pc = A_CONFIRM"
    and "get_user_pat actor (uw_users w) = None" and "\<And>n. \<not> ue_tg_fails env n"
    and "list_all (\<lambda>op. \<not> issues_token (ue_sha env (pc_opaque_token pc)) op) ops"
    and "sw_repo (uw_sub v) = exec_ops ops (sw_repo (uw_sub (snd (handle_callback_query env p w))))"
    and "pr_data q = Some raw" and "ue_sha env' = ue_sha env"
  shows "ch_log (snd (handle_callback_query env p w)) = ch_log w @
      [(Answer (Some ([0x6B63, 0x5728, 0x63D0, 0x4EA4, 0x5DE5, 0x55AE] @ codes ''...'')) False, True), (Answer (Some ([0x8ACB, 0x5148, 0x900F, 0x904E] @ codes '' /auth '' @ [0x8A2D, 0x5B9A] @ codes '' Jira PAT '' @ [0x8A8D, 0x8B49, 0x6191, 0x8B49])) True, True)] \<and>
    sw_calls (uw_sub (snd (handle_callback_query env p w))) = sw_calls (uw_sub w) \<and>
    \<not> authorized_press env' q v actor' chat' mid' res' s'"
proof -
  from authorized_press_data[OF assms(2,3)] obtain ct thread where
    run: "authorize (ue_sha env) (ue_clock env 0) (Some raw) actor chat ct thread (Some mid) (sw_repo (uw_sub w)) = (Inr res, s)"
    and allowed: "ar_allowed res" by blast
  from allowed_action[OF run allowed assms(4)] assms(5) have act: "ar_action res = Some A_CONFIRM" by simp
  from authorize_allowed[OF run allowed] authorize_record_allowed[OF _ allowed] obtain dr r where
    "ar_draft res = Some dr" "ar_record res = Some r" by blast
  with act have handled: "handle_callback_query env p w =
      (Inr (), w\<lparr>uw_sub := (uw_sub w)\<lparr>sw_repo := s\<rparr>, ch_log := ch_log w @
        [(Answer (Some ([0x6B63, 0x5728, 0x63D0, 0x4EA4, 0x5DE5, 0x55AE] @ codes ''...'')) False, True), (Answer (Some ([0x8ACB, 0x5148, 0x900F, 0x904E] @ codes '' /auth '' @ [0x8A2D, 0x5B9A] @ codes '' Jira PAT '' @ [0x8A8D, 0x8B49, 0x6191, 0x8B49])) True, True)]\<rparr>)"
    using assms(6,7) allowed
    by (simp add: press_run[OF assms(2)] answer_authorized_def dispatch_press_def press_confirm_def toast_def alert_def tg_call_def
        sx_bind_app)
  have spent: "spent_token (ue_sha env (pc_opaque_token pc)) (rp_db s)"
    using allowed_press_facts[OF assms(1) run allowed] assms(4,5) by (auto simp: default_one_shot_def ONE_SHOT_ACTIONS_def)
  have "spent_token (ue_sha env (pc_opaque_token pc)) (rp_db (exec_ops ops s))"
    by (rule tokens.spent_forever[OF exec_ops_env[OF assms(8)] spent])
  moreover have "db_ok (rp_db (exec_ops ops s))" by (rule exec_ops_ok[OF authorize_allowed_ok[OF assms(1) run allowed]])
  moreover have "sw_repo (uw_sub v) = exec_ops ops s" using assms(9) handled by simp
  ultimately have "\<not> authorized_press env' q v actor' chat' mid' res' s'"
    using authorized_press_data[of env' q v actor' chat' mid' res' s', OF _ assms(10)] spent_press_denied[OF assms(4)] assms(11)
    by (metis (no_types, lifting))
  with handled show ?thesis by simp
qed

theorem confirm_without_credential_spends_button_witness:
  "\<exists>w. w = snd (handle_callback_query sample_ui_env (sample_ui_press A_CONFIRM) (sample_ui_world A_CONFIRM None)) \<and>
     sw_calls (uw_sub w) = [] \<and> \<not> (\<exists>res s. authorized_press sample_ui_env (sample_ui_press A_CONFIRM)
       (sample_ui_world A_CONFIRM (Some sample_ui_users)\<lparr>uw_sub := uw_sub w\<rparr>) 7 7 9 res s)"
proof -
  let ?w = "snd (handle_callback_query sample_ui_env (sample_ui_press A_CONFIRM) (sample_ui_world A_CONFIRM None))"
  have ok: "db_ok (rp_db (sw_repo (uw_sub (sample_ui_world A_CONFIRM None))))" by (simp add: sample_ui_fields sample_ui_ok)
  have data: "pr_data (sample_ui_press A_CONFIRM) = Some (wire A_CONFIRM sample_token)" by (simp add: sample_ui_press_def)
  have pat: "get_user_pat 7 (uw_users (sample_ui_world A_CONFIRM None)) = None" by (simp add: sample_ui_fields get_user_pat_def)
  have rest: "\<not> ue_tg_fails sample_ui_env n" for n by (simp add: sample_ui_fields)
  have "sw_calls (uw_sub ?w) = [] \<and> \<not> authorized_press sample_ui_env (sample_ui_press A_CONFIRM)
      (sample_ui_world A_CONFIRM (Some sample_ui_users)\<lparr>uw_sub := uw_sub ?w\<rparr>) 7 7 9 res s" for res s
    using confirm_without_credential_spends_button [OF ok sample_ui_authorized data parse_wire[OF sample_token_ok] _ pat rest, of "[]"
      "sample_ui_world A_CONFIRM (Some sample_ui_users)\<lparr>uw_sub := uw_sub ?w\<rparr>" "sample_ui_press A_CONFIRM" sample_ui_env 7 7 9 res s]
    by (simp add: data sample_ui_fields exec_ops_def)
  then show ?thesis by blast
qed

section \<open>Typing after an edit by button\<close>

text \<open>The user tracks a version of the draft that is no longer stored.\<close>

definition stale :: "int \<Rightarrow> string \<Rightarrow> int \<Rightarrow> sub_world \<Rightarrow> ui_world \<Rightarrow> bool" where
  "stale actor k n s w \<longleftrightarrow> uw_sub w = s \<and> map_of (uw_active w) actor \<in> {None, Some (k, n)}"

lemma stale_said [inv_intros]: "sx_keeps (stale actor k n s) (feedback env t)" "sx_keeps (stale actor k n s) (say env t m)"
  by (simp_all add: sx_keeps_def feedback_def say_def tg_call_def Let_def stale_def)

lemma stale_untrack [inv_intros]: "sx_keeps (stale actor k n s) (untrack_draft actor)"
  by (simp add: sx_keeps_def untrack_draft_def stale_def delete_conv')

lemma on_db_get: "on_db (get_draft k actor chat) w = (fst (get_draft k actor chat (sw_repo (uw_sub w))), w)"
  using get_draft_state[of k actor chat "sw_repo (uw_sub w)"]
  by (cases "get_draft k actor chat (sw_repo (uw_sub w))") (simp add: on_db_def on_repo_def)

lemma stale_edit:
  assumes "version (rp_db (sw_repo s)) k = Some (st, m)" and "m \<noteq> n" and w: "stale actor k n s w"
  shows "stale actor k n s (snd (edit_active env actor chat t (k, n) w))"
proof (cases "k = []")
  case True
  with w show ?thesis by (simp add: edit_active_def)
next
  case False
  let ?none = "sx_bind (untrack_draft actor) (\<lambda>_. sx_bind (feedback env ([0x627E, 0x4E0D, 0x5230, 0x6D3B, 0x8E8D, 0x7684, 0x5DE5, 0x55AE, 0x8349, 0x7A3F, 0x6216, 0x7121, 0x6B0A, 0x5B58, 0x53D6, 0x3002])) (\<lambda>_. sx_return (None :: draft option)))"
  let ?get = "catch_domain (sx_bind (on_db (get_draft k (Some actor) (Some chat))) (\<lambda>dr. sx_return (Some dr))) (\<lambda>_. ?none)"
  have "sx_keeps (stale actor k n s) ?none" by (intro inv_intros)
  from sx_keepsD[OF this w] have none: "stale actor k n s (snd (?none w))" .
  have none_None: "fst (?none w) = Inr x \<Longrightarrow> x = None" for x
    by (auto simp: sx_bind_def split: prod.splits sum.splits)
  have "stale actor k n s (snd (?get w)) \<and> (\<forall>dr. fst (?get w) = Inr (Some dr) \<longrightarrow> d_revision dr = m)"
  proof (cases "get_draft k (Some actor) (Some chat) (sw_repo (uw_sub w))")
    case (Pair r s')
    show ?thesis
    proof (cases r)
      case (Inl e)
      then show ?thesis
        using Pair w none none_None by (cases e) (auto simp: catch_domain_def sx_try_def sx_bind_app on_db_get)
    next
      case (Inr dr)
      with Pair w have "load_draft (rp_db (sw_repo s)) k = Inr (Some dr)" by (auto simp: get_draft_Inr stale_def)
      from load_draft_version[OF this] assms(1) have "d_revision dr = m" by simp
      then show ?thesis using Pair Inr w by (simp add: catch_domain_def sx_try_def sx_bind_app on_db_get)
    qed
  qed
  then obtain r w' where get: "?get w = (r, w')" and w': "stale actor k n s w'" and rev: "\<And>dr. r = Inr (Some dr) \<Longrightarrow> d_revision dr = m"
    by (cases "?get w") auto
  have "edit_active env actor chat t (k, n) w = (case r of Inl e \<Rightarrow> (Inl e, w')
      | Inr None \<Rightarrow> (Inr (), w') | Inr (Some dr) \<Rightarrow> feedback env ([0x8349, 0x7A3F, 0x7248, 0x672C, 0x5DF2, 0x8B8A, 0x66F4, 0xFF0C, 0x8ACB, 0x4F7F, 0x7528, 0x6700, 0x65B0, 0x6309, 0x9215, 0x64CD, 0x4F5C, 0x3002]) w')"
    using False get rev assms(2) by (auto simp: edit_active_def sx_bind_def[of ?get] split: sum.split option.split)
  then show ?thesis using w' sx_keepsD[OF stale_said(1) w'] by (simp split: sum.split option.split)
qed

lemma stale_typed:
  assumes "version (rp_db (sw_repo s)) k = Some (st, m)" and "m \<noteq> n" and w: "stale actor k n s w" and "du_actor u = Some actor"
  shows "stale actor k n s (snd (handle_draft_reply_text env u w))"
proof -
  let ?go = "\<lambda>actor chat. sx_bind (sx_get (\<lambda>w. map_of (uw_active w) actor)) (\<lambda>active.
        (case active of None \<Rightarrow> sx_return ()
         | Some a \<Rightarrow> edit_active env actor chat (case du_text u of None \<Rightarrow> [] | Some t \<Rightarrow> t) a))"
  have "stale actor k n s (snd (?go actor chat w))" for chat
  proof (cases "map_of (uw_active w) actor")
    case None
    with w show ?thesis by simp
  next
    case (Some a)
    with w have "a = (k, n)" by (auto simp: stale_def)
    with Some stale_edit[OF assms(1,2) w] show ?thesis by simp
  qed
  then show ?thesis
    using w assms(4) sx_keepsD[OF stale_said(1) w] sx_keepsD[OF stale_said(2) w]
    by (auto simp: handle_draft_reply_text_def guarded_def split: option.splits bool.splits)
qed

lemma stale_run:
  assumes "version (rp_db (sw_repo s)) k = Some (st, m)" and "m \<noteq> n" and "stale actor k n s w"
  shows "stale actor k n s (run_updates (map (\<lambda>(env, u). (env, Typed (u\<lparr>du_actor := Some actor\<rparr>))) us) w)"
  using assms(3)
proof (induction us arbitrary: w)
  case Nil
  then show ?case by (simp add: run_updates_def)
next
  case (Cons x us)
  from stale_typed[OF assms(1,2) Cons.prems, of "(snd x)\<lparr>du_actor := Some actor\<rparr>" "fst x"]
  have "stale actor k n s (run_update (fst x, Typed ((snd x)\<lparr>du_actor := Some actor\<rparr>)) w)" by simp
  from Cons.IH[OF this] show ?case by (simp add: run_updates_def case_prod_unfold)
qed

text \<open>What a toggle leaves: the version of its change, and the tracked drafts as they were.\<close>

lemma toggle_keeps_active: "sx_keeps (\<lambda>w. uw_active w = a) (press_toggle env t change mid)"
proof -
  have tell: "sx_keeps (\<lambda>w. uw_active w = a) (tell env c)" for c by (simp add: sx_keeps_def tg_call_def Let_def)
  have db: "sx_keeps (\<lambda>w. uw_active w = a) (on_db m)" for m :: "(repo, exn, 'z) sx"
    by (auto simp: sx_keeps_def on_db_def split: prod.splits)
  show ?thesis
    unfolding press_toggle_def toast_def alert_def edit_card_def issue_buttons_def by (intro inv_intros tell db)
qed

lemma toggle_version:
  assumes "change (sw_repo (uw_sub w)) = (Inr dr, s)" and "version (rp_db s) k = v" and "\<not> ue_tg_fails env (length (ch_log w))"
  shows "version (rp_db (sw_repo (uw_sub (snd (press_toggle env t change mid w))))) k = v"
proof -
  let ?Q = "on_sub (\<lambda>x. version (rp_db (sw_repo x)) k = v)"
  let ?rest = "\<lambda>updated. sx_bind (issue_buttons env 2 updated preview_actions mid) (\<lambda>buttons.
          edit_card env (render_draft_card updated None) (Inline (build_draft_inline_keyboard buttons)))"
  have db: "sx_keeps ?Q (on_db m)" if "sx_keeps (\<lambda>s. version (rp_db s) k = v) m" for m :: "(repo, exn, 'z) sx"
    using that by (auto simp: sx_keeps_def on_db_def on_repo_def split: prod.splits)
  have rest: "sx_keeps ?Q (?rest dr)"
    unfolding issue_buttons_def by (intro inv_intros db flows_issue[THEN version_flows])
  let ?w1 = "w\<lparr>ch_log := ch_log w @ [(Answer (Some t) False, True)]\<rparr>"
  let ?w2 = "?w1\<lparr>uw_sub := (uw_sub w)\<lparr>sw_repo := s\<rparr>\<rparr>"
  have w2: "?Q ?w2" using assms(2) by simp
  have toast: "toast env t w = (Inr (), ?w1)" using assms(3) by (simp add: toast_def tg_call_def)
  have changed: "on_db change ?w1 = (Inr dr, ?w2)" using assms(1) by (simp add: on_db_def on_repo_def)
  have "sx_keeps ?Q (catch_domain (?rest dr) (alert env))" by (intro inv_intros rest)
  from sx_keepsD[OF this w2] have "?Q (snd (catch_domain (?rest dr) (alert env) ?w2))" .
  moreover have "press_toggle env t change mid w = catch_domain (?rest dr) (alert env) ?w2"
    using toast changed by (simp add: press_toggle_def sx_bind_app[of "toast env t"] catch_domain_def sx_try_def sx_bind_app[of "on_db change"])
  ultimately show ?thesis by simp
qed

text \<open>
  A button edit locks out typing: after the type of the tracked draft was changed with its button, no text the user types,
  however often, changes the draft or anything else in the repository: the tracked revision is not the stored one, and
  typing never brings it up to date.
\<close>

theorem button_edit_locks_typing:
  assumes "authorized_press env p w actor chat mid res s" and "ar_action res = Some A_TOGGLE_TYPE"
    and "ar_draft res = Some dr" and "ar_record res = Some r"
    and "toggle_issue_type (ue_clock env 1) (d_draft_id dr) actor chat (ct_expected_revision r) default_issue_types s = (Inr dr', s')"
    and "ct_expected_revision r = d_revision dr" and "\<not> ue_tg_fails env (length (ch_log w))"
    and "map_of (uw_active w) actor = Some (d_draft_id dr, d_revision dr)"
  shows "version (rp_db (sw_repo (uw_sub (run_update (env, Press p) w)))) (d_draft_id dr) = Some (REVIEW, d_revision dr + 1) \<and>
    uw_sub (run_updates (map (\<lambda>(env, u). (env, Typed (u\<lparr>du_actor := Some actor\<rparr>))) us) (run_update (env, Press p) w)) =
      uw_sub (run_update (env, Press p) w)"
proof -
  let ?w = "w\<lparr>uw_sub := (uw_sub w)\<lparr>sw_repo := s\<rparr>\<rparr>"
  let ?toggle = "press_toggle env ([0x985E, 0x578B, 0x5DF2, 0x66F4, 0x65B0])
      (toggle_issue_type (ue_clock env 1) (d_draft_id dr) actor chat (ct_expected_revision r) default_issue_types) mid"
  have allowed: "ar_allowed res" using assms(1) by (simp add: authorized_press_def) blast
  have run: "run_update (env, Press p) w = snd (?toggle ?w)"
    using assms(2-4) allowed by (simp add: press_run[OF assms(1)] answer_authorized_def dispatch_press_def)
  from toggle_template_result[OF assms(5)[unfolded toggle_issue_type_def]] assms(6)
  have "version (rp_db s') (d_draft_id dr) = Some (REVIEW, d_revision dr + 1)" by auto
  from toggle_version[OF _ this, of _ ?w] assms(5,7)
  have v: "version (rp_db (sw_repo (uw_sub (run_update (env, Press p) w)))) (d_draft_id dr) = Some (REVIEW, d_revision dr + 1)"
    unfolding run by simp
  have "uw_active (run_update (env, Press p) w) = uw_active w"
    unfolding run using sx_keepsD[OF toggle_keeps_active[where a = "uw_active w"], of ?w] by simp
  then have "stale actor (d_draft_id dr) (d_revision dr) (uw_sub (run_update (env, Press p) w)) (run_update (env, Press p) w)"
    using assms(8) by (simp add: stale_def)
  from stale_run[OF v _ this, of us] v show ?thesis by (simp add: stale_def)
qed

lemma authorized_press_sub:
  "uw_sub v = uw_sub w \<Longrightarrow> authorized_press env p w actor chat mid res s \<Longrightarrow> authorized_press env p v actor chat mid res s"
  by (simp add: authorized_press_def)

definition typed_new :: draft_update where
  "typed_new = \<lparr>du_actor = Some 7, du_chat = Some (7, ''private''), du_message = True, du_thread = None, du_text = Some (codes ''/new''),
     du_caption = None, du_args = [codes ''printer'']\<rparr>"

theorem button_edit_locks_typing_witness:
  "let w = run_update (sample_ui_env, Press (sample_ui_press A_TOGGLE_TYPE))
     (sample_ui_world A_TOGGLE_TYPE None\<lparr>uw_active := [(7, (''d1'', 4))]\<rparr>)
   in version (rp_db (sw_repo (uw_sub w))) ''d1'' = Some (REVIEW, 5) \<and>
      uw_sub (run_updates (map (\<lambda>(env, u). (env, Typed (u\<lparr>du_actor := Some 7\<rparr>))) [(sample_ui_env, typed_new), (sample_ui_env, typed_new)]) w) = uw_sub w"
proof -
  let ?w = "sample_ui_world A_TOGGLE_TYPE None\<lparr>uw_active := [(7, (''d1'', 4))]\<rparr>"
  let ?r = "result_allow A_TOGGLE_TYPE sample_ui_draft (sample_button A_TOGGLE_TYPE) sample_hash"
  have a: "authorized_press sample_ui_env (sample_ui_press A_TOGGLE_TYPE) ?w 7 7 9 ?r (sample_pressed_repo A_TOGGLE_TYPE)"
    by (rule authorized_press_sub[OF _ sample_ui_authorized]) simp
  have "\<not> isl (fst (toggle_issue_type 50 ''d1'' 7 7 4 default_issue_types (sample_pressed_repo A_TOGGLE_TYPE)))"
    by (simp add: toggle_issue_type_def toggle_template_def update_template_def get_draft_def
        repo_get_by_id_def get_by_id_sync_def repo_run_def sample_ui_load sx_bind_app
        draft_post_init_def repo_save_def validate_safe_code_def save_sync_def sample_ui_draft_def)
      (simp add: sample_pressed_repo_def sample_review_repo_def find_workflow_def sample_row_def empty_db_def save_guard_def
        save_workflow_row_def workflow_row_of_def to_db_datetime_def sql_update_def wf_check_def
        count_rows_def update_rows_def save_sources_def save_attachments_def save_published_def)
  then obtain dr s' where t: "toggle_issue_type 50 ''d1'' 7 7 4 default_issue_types (sample_pressed_repo A_TOGGLE_TYPE) = (Inr dr, s')"
    using sum_result_Inr by blast
  have rev: "d_revision sample_ui_draft = 4" by (simp add: sample_ui_draft_def)
  show ?thesis
    using button_edit_locks_typing [OF a, of sample_ui_draft "sample_button A_TOGGLE_TYPE" dr s' "[(sample_ui_env, typed_new), (sample_ui_env, typed_new)]"] t
    by (simp add: result_allow_def sample_ui_fields rev)
qed

section \<open>The buttons of a first preview\<close>

text \<open>One button for each action, in the order of the actions.\<close>

lemma dict_set_new: "ib_action b \<notin> ib_action ` set xs \<Longrightarrow> dict_set b xs = xs @ [b]"
  by (induction b xs rule: dict_set.induct) auto

lemma issue_loop_actions:
  assumes "issue_loop sha tok dr e th pv actions i issued s = (Inr bs, s')" and "distinct (map ib_action issued @ actions)"
  shows "map ib_action bs = map ib_action issued @ actions"
  using assms
proof (induction actions arbitrary: i issued s)
  case (Cons a actions)
  from Cons.prems(1) obtain data r s1 where
    "issue_loop sha tok dr e th pv actions (Suc i)
       (dict_set \<lparr>ib_action = a, ib_callback_data = data, ib_token_hash = ct_token_hash r, ib_record = r\<rparr> issued) s1 = (Inr bs, s')"
    by (auto simp: sx_bind_eq_Inr simp del: sx_bind_simps)
  moreover from Cons.prems(2) have "dict_set \<lparr>ib_action = a, ib_callback_data = data, ib_token_hash = ct_token_hash r, ib_record = r\<rparr> issued =
      issued @ [\<lparr>ib_action = a, ib_callback_data = data, ib_token_hash = ct_token_hash r, ib_record = r\<rparr>]"
    by (intro dict_set_new) auto
  ultimately show ?case using Cons.IH[of "Suc i" "issued @ [_]" s1] Cons.prems(2) by simp
qed simp

lemma issued_actions:
  assumes "issue_preview_buttons sha tok now dr actions pv th ttl inval s = (Inr bs, s')" and "distinct actions"
  shows "map ib_action bs = actions"
  using assms by (auto simp: issue_preview_buttons_def sx_bind_eq_Inr Let_def simp del: sx_bind_simps dest!: issue_loop_actions)

lemma get_issued: "map ib_action bs = actions \<Longrightarrow> a \<in> set actions \<Longrightarrow> \<exists>b \<in> set bs. ib_action b = a \<and>
    get_callback_data (issued_map bs) a = Some (ib_callback_data b)"
  by (induction bs arbitrary: actions) (auto simp: issued_map_def get_callback_data_def)

lemma created_draft:
  assumes "create_manual_draft now i owner chat t th None s = (Inr dr, s')" and "db_ok (rp_db s)"
    and "find_workflow (rp_db s) i = None" and "i \<noteq> []"
  shows "load_draft (rp_db s') i = Inr (Some dr) \<and> db_ok (rp_db s') \<and> d_draft_id dr = i \<and> d_owner_id dr = owner \<and> d_chat_id dr = chat \<and>
    d_thread_id dr = th \<and> d_state dr = REVIEW \<and> d_revision dr = 1 \<and> d_template dr = Some t"
proof -
  from assms(1) obtain d where dr: "dr = \<lparr>d_draft_id = i, d_owner_id = owner, d_chat_id = chat, d_thread_id = th, d_state = REVIEW,
        d_revision = 1, d_template = Some t, d_source_messages = [], d_attachments = [], d_created_at = Aware now,
        d_updated_at = Aware now, d_published_issue = None, d_last_error = None\<rparr>"
    and save: "save_sync dr None (rp_db s) = Inr ((), d)" and s': "s' = s\<lparr>rp_db := d\<rparr>"
    by (auto simp: create_manual_draft_def sx_bind_eq_Inr repo_save_Inr simp del: sx_bind_simps)
  have "load_draft (rp_db s) (d_draft_id dr) = Inr None" using assms(3) dr by (simp add: load_draft_def)
  from load_saved_draft[OF assms(2) this _ save] dr assms(4) have "load_draft d i = Inr (Some dr)" by (simp add: stored_draft_new)
  with save_sync_ok[OF assms(2) save] s' dr show ?thesis by simp
qed

lemma keyboard_buttons:
  assumes "map ib_action bs = preview_actions" and "\<And>b. b \<in> set bs \<Longrightarrow> ib_callback_data b \<noteq> []"
  shows "length (concat (build_draft_inline_keyboard (issued_map bs))) = 5 \<and>
    list_all (\<lambda>b. \<exists>ib \<in> set bs. bt_target b = Callback (ib_callback_data ib)) (concat (build_draft_inline_keyboard (issued_map bs)))"
proof -
  have button: "\<exists>b. button_if (issued_map bs) a l = [b] \<and> (\<exists>ib \<in> set bs. bt_target b = Callback (ib_callback_data ib))"
    if "a \<in> set preview_actions" for a l
  proof -
    from get_issued[OF assms(1) that] obtain ib where ib: "ib \<in> set bs" "get_callback_data (issued_map bs) a = Some (ib_callback_data ib)"
      by blast
    from assms(2)[OF ib(1)] ib(2) have "button_if (issued_map bs) a l = [callback_button l (ib_callback_data ib)]"
      by (cases "ib_callback_data ib") (simp_all add: button_if_def)
    with ib(1) show ?thesis by (auto simp: callback_button_def)
  qed
  have on: "A_CONFIRM \<in> set preview_actions" "A_EDIT \<in> set preview_actions" "A_TOGGLE_TYPE \<in> set preview_actions"
    "A_TOGGLE_PRIORITY \<in> set preview_actions" "A_CANCEL \<in> set preview_actions" by (simp_all add: preview_actions_def)
  let ?on = "\<lambda>b. \<exists>ib \<in> set bs. bt_target b = Callback (ib_callback_data ib)"
  obtain c where c: "button_if (issued_map bs) A_CONFIRM (([0x2705] @ codes '' '' @ [0x78BA, 0x5B9A, 0x63D0, 0x4EA4])) = [c]" "?on c" using button[OF on(1)] by blast
  obtain e where e: "button_if (issued_map bs) A_EDIT (([0x270F, 0xFE0F] @ codes '' '' @ [0x7DE8, 0x8F2F, 0x6B04, 0x4F4D])) = [e]" "?on e" using button[OF on(2)] by blast
  obtain t where t: "button_if (issued_map bs) A_TOGGLE_TYPE (([0x1F3F7, 0xFE0F] @ codes '' '' @ [0x5207, 0x63DB, 0x985E, 0x578B])) = [t]" "?on t" using button[OF on(3)] by blast
  obtain p where p: "button_if (issued_map bs) A_TOGGLE_PRIORITY (([0x26A1] @ codes '' '' @ [0x5207, 0x63DB, 0x512A, 0x5148, 0x7D1A])) = [p]" "?on p" using button[OF on(4)] by blast
  obtain n where n: "button_if (issued_map bs) A_CANCEL (([0x274C] @ codes '' '' @ [0x53D6, 0x6D88, 0x8349, 0x7A3F])) = [n]" "?on n" using button[OF on(5)] by blast
  have "build_draft_inline_keyboard (issued_map bs) = [[c, e], [t, p], [n]]"
    unfolding build_draft_inline_keyboard_def c(1) e(1) t(1) p(1) n(1) by (simp add: row_if_def)
  then show ?thesis using c(2) e(2) t(2) p(2) n(2) by simp
qed

text \<open>Buttons can be issued for a stored draft whose tokens are fresh.\<close>

lemma issue_step:
  assumes "rp_initialized s" and "find_workflow (rp_db s) (d_draft_id dr) = Some x" and "d_draft_id dr \<noteq> []" and "0 < d_owner_id dr"
    and "d_chat_id dr \<noteq> 0" and "1 \<le> d_revision dr" and "0 < pv" and "w_owner_id x = d_owner_id dr" and "w_chat_id x = d_chat_id dr"
    and "w_thread_id x = th" and "w_revision x = d_revision dr" and "w_state x = d_state dr" and "a \<in> set stored_actions"
    and "opaque_token_ok (tok i)" and "length (sha (tok i)) = 64" and "list_all is_lower_hex (sha (tok i))"
    and "\<And>c. c \<in> set (db_callbacks (rp_db s)) \<Longrightarrow> ct_token_hash c \<noteq> sha (tok i) \<and> (ct_draft_id c = d_draft_id dr \<longrightarrow> ct_action c \<noteq> a)"
  shows "\<exists>r b. issue_loop sha tok dr (Aware e) th pv (a # as) i bs s =
      issue_loop sha tok dr (Aware e) th pv as (Suc i) (dict_set b bs)
        (s\<lparr>rp_db := (rp_db s)\<lparr>db_callbacks := db_callbacks (rp_db s) @ [r]\<rparr>\<rparr>) \<and>
      ct_token_hash r = sha (tok i) \<and> ct_draft_id r = d_draft_id dr \<and> ct_action r = a"
proof -
  define r where "r = \<lparr>ct_token_hash = sha (tok i), ct_draft_id = d_draft_id dr, ct_owner_user_id = d_owner_id dr,
    ct_chat_id = d_chat_id dr, ct_message_thread_id = th, ct_preview_message_id = Some pv, ct_expected_revision = d_revision dr,
    ct_expected_state = state_value (d_state dr), ct_action = a, ct_expires_at = Aware e, ct_one_shot = default_one_shot a,
    ct_consumed_at = None\<rparr>"
  have build: "build_token_record sha (tok i) (d_draft_id dr) (d_owner_id dr) (d_chat_id dr) a (d_revision dr)
      (state_value (d_state dr)) (Aware e) th (Some pv) None = Inr r"
    using assms(3-6,14-16) by (simp add: build_token_record_def hash_opaque_token_def token_record_post_init_def TOKEN_HASH_HEX_LENGTH_def r_def)
  have "sql_insert cb_check cb_clash r (db_callbacks (rp_db s)) = Inr (db_callbacks (rp_db s) @ [r])"
    using assms(4-7,13,15,16) assms(17) by (auto simp: sql_insert_Inr cb_check_def cb_clash_def r_def)
  then have "repo_store_callback r s = (Inr (), s\<lparr>rp_db := (rp_db s)\<lparr>db_callbacks := db_callbacks (rp_db s) @ [r]\<rparr>\<rparr>)"
    using assms(1,2,8-12)
    by (simp add: repo_store_callback_def repo_run_def store_callback_sync_def r_def to_db_datetime_def opt_to_db_def)
  moreover have "encode_callback_data (action_value a) (tok i) = Inr (wire a (tok i))" using assms(14) by (simp add: encode_wire)
  ultimately show ?thesis using build by (auto simp: generate_opaque_token_def sx_bind_app r_def)
qed

lemma issue_loop_succeeds:
  assumes "rp_initialized s" and "find_workflow (rp_db s) (d_draft_id dr) = Some x" and "d_draft_id dr \<noteq> []" and "0 < d_owner_id dr"
    and "d_chat_id dr \<noteq> 0" and "1 \<le> d_revision dr" and "0 < pv" and "w_owner_id x = d_owner_id dr" and "w_chat_id x = d_chat_id dr"
    and "w_thread_id x = th" and "w_revision x = d_revision dr" and "w_state x = d_state dr" and "set as \<subseteq> set stored_actions"
    and "list_all (\<lambda>j. opaque_token_ok (tok j) \<and> length (sha (tok j)) = 64 \<and> list_all is_lower_hex (sha (tok j))) [i..<i + length as]"
    and "distinct as" and "distinct (map (\<lambda>j. sha (tok j)) [i..<i + length as])"
    and "\<And>c. c \<in> set (db_callbacks (rp_db s)) \<Longrightarrow>
      ct_token_hash c \<notin> set (map (\<lambda>j. sha (tok j)) [i..<i + length as]) \<and> (ct_draft_id c = d_draft_id dr \<longrightarrow> ct_action c \<notin> set as)"
  shows "\<exists>bs' s'. issue_loop sha tok dr (Aware e) th pv as i bs s = (Inr bs', s')"
  using assms(1,2,13-17)
proof (induction as arbitrary: i bs s)
  case (Cons a as)
  have range: "[i..<i + length (a # as)] = i # [Suc i..<Suc i + length as]" by (simp add: upt_rec)
  have here: "ct_token_hash c \<noteq> sha (tok i) \<and> (ct_draft_id c = d_draft_id dr \<longrightarrow> ct_action c \<noteq> a)"
    if "c \<in> set (db_callbacks (rp_db s))" for c
    using Cons.prems(7)[OF that] unfolding range by simp
  have "a \<in> set stored_actions" using Cons.prems(3) by simp
  from issue_step[where sha = sha and tok = tok and i = i and as = as and bs = bs and e = e, OF Cons.prems(1,2) assms(3-12) this _ _ _ here] Cons.prems(4)[unfolded range]
  obtain r b where step: "issue_loop sha tok dr (Aware e) th pv (a # as) i bs s =
      issue_loop sha tok dr (Aware e) th pv as (Suc i) (dict_set b bs)
        (s\<lparr>rp_db := (rp_db s)\<lparr>db_callbacks := db_callbacks (rp_db s) @ [r]\<rparr>\<rparr>)"
    and r: "ct_token_hash r = sha (tok i)" "ct_draft_id r = d_draft_id dr" "ct_action r = a" by auto
  let ?s = "s\<lparr>rp_db := (rp_db s)\<lparr>db_callbacks := db_callbacks (rp_db s) @ [r]\<rparr>\<rparr>"
  have "\<exists>bs' s'. issue_loop sha tok dr (Aware e) th pv as (Suc i) (dict_set b bs) ?s = (Inr bs', s')"
  proof (rule Cons.IH)
    show "rp_initialized ?s" "find_workflow (rp_db ?s) (d_draft_id dr) = Some x" "set as \<subseteq> set stored_actions" "distinct as"
      using Cons.prems(1-3,5) by (simp_all add: find_workflow_def)
    show "list_all (\<lambda>j. opaque_token_ok (tok j) \<and> length (sha (tok j)) = 64 \<and> list_all is_lower_hex (sha (tok j))) [Suc i..<Suc i + length as]"
      using Cons.prems(4) unfolding range by simp
    show "distinct (map (\<lambda>j. sha (tok j)) [Suc i..<Suc i + length as])" using Cons.prems(6) unfolding range by simp
    show "ct_token_hash c \<notin> set (map (\<lambda>j. sha (tok j)) [Suc i..<Suc i + length as]) \<and>
        (ct_draft_id c = d_draft_id dr \<longrightarrow> ct_action c \<notin> set as)" if "c \<in> set (db_callbacks (rp_db ?s))" for c
    proof (cases "c = r")
      case True
      with r Cons.prems(5,6) show ?thesis unfolding range by simp
    next
      case False
      with that have "c \<in> set (db_callbacks (rp_db s))" by simp
      from Cons.prems(7)[OF this] show ?thesis unfolding range by simp
    qed
  qed
  with step show ?case by simp
qed simp

lemma create_succeeds:
  assumes "rp_initialized s" and "find_workflow (rp_db s) i = None" and "i \<noteq> []" and "0 < owner" and "chat \<noteq> 0"
  shows "\<exists>dr x d. create_manual_draft now i owner chat t th None s = (Inr dr, s\<lparr>rp_db := d\<rparr>) \<and> find_workflow d i = Some x \<and>
    db_callbacks d = db_callbacks (rp_db s) \<and> w_owner_id x = owner \<and> w_chat_id x = chat \<and> w_thread_id x = th \<and>
    w_revision x = 1 \<and> w_state x = REVIEW"
proof -
  from assms(2) have absent: "find_row w_draft_id i (db_workflows (rp_db s)) = None" "i \<notin> w_draft_id ` set (db_workflows (rp_db s))"
    by (simp_all add: find_workflow_def find_row_None)
  then have "list_all (\<lambda>x. \<not> wf_clash x y) (db_workflows (rp_db s))" if "w_draft_id y = i" for y
    using that unfolding list_all_iff wf_clash_def by (metis imageI)
  with assms absent(1) show ?thesis
    by (simp add: create_manual_draft_def draft_post_init_def sx_bind_app repo_save_def validate_safe_code_def repo_run_def save_sync_def
        save_guard_def save_workflow_row_def workflow_row_of_def to_db_datetime_def sql_insert_def wf_check_def
        save_sources_def save_attachments_def save_published_def rmap_def find_workflow_def find_row_append Let_def)
      (intro exI conjI, rule refl, simp add: find_row_append, simp_all)
qed

text \<open>The environment of a handler that can draw fresh tokens: well formed, with digests that are distinct and not in use.\<close>

definition fresh_tokens :: "ui_env \<Rightarrow> callback_token_record list \<Rightarrow> bool" where
  "fresh_tokens env rows \<longleftrightarrow> list_all (\<lambda>j. opaque_token_ok (ue_tokens env j) \<and> length (ue_sha env (ue_tokens env j)) = 64 \<and>
       list_all is_lower_hex (ue_sha env (ue_tokens env j))) [0..<5] \<and>
     distinct (map (\<lambda>j. ue_sha env (ue_tokens env j)) [0..<5]) \<and>
     list_all (\<lambda>c. ct_token_hash c \<notin> set (map (\<lambda>j. ue_sha env (ue_tokens env j)) [0..<5])) rows"

lemma present_refused:
  assumes "rp_initialized s" and "find_workflow (rp_db s) (d_draft_id dr) = Some x" and "d_draft_id dr \<noteq> []" and "0 < d_owner_id dr"
    and "d_chat_id dr \<noteq> 0" and "1 \<le> d_revision dr" and "0 < ue_message_id env" and "w_owner_id x = d_owner_id dr"
    and "w_chat_id x = d_chat_id dr" and "w_thread_id x = d_thread_id dr" and "w_revision x = d_revision dr" and "w_state x = d_state dr"
    and "fresh_tokens env (db_callbacks (rp_db s))" and "d_draft_id dr \<notin> ct_draft_id ` set (db_callbacks (rp_db s))"
    and "\<not> ue_tg_fails env (length (ch_log w))" and "ue_tg_fails env (Suc (length (ch_log w)))" and "sw_repo (uw_sub w) = s"
  shows "\<exists>bs s'. issue_preview_buttons (ue_sha env) (ue_tokens env) (ue_clock env 1) dr preview_actions (ue_message_id env) None None True s =
      (Inr bs, s') \<and>
    present_draft env actor dr w = (Inl (OtherError ''TelegramError''),
      w\<lparr>ch_log := ch_log w @ [(Reply (render_draft_card dr None) (Menu get_draft_reply_keyboard), True),
        (Edit_Text (render_draft_card dr None) (Inline (build_draft_inline_keyboard (issued_map bs))), False)],
      uw_sub := (uw_sub w)\<lparr>sw_repo := s'\<rparr>\<rparr>)"
proof -
  let ?rows = "update_rows (active_token (d_draft_id dr) (Aware (ue_clock env 1))) (\<lambda>r. r\<lparr>ct_expires_at := Aware (ue_clock env 1)\<rparr>)
    (db_callbacks (rp_db s))"
  let ?s = "s\<lparr>rp_db := (rp_db s)\<lparr>db_callbacks := ?rows\<rparr>\<rparr>"
  have actions: "set preview_actions \<subseteq> set stored_actions" "distinct preview_actions" "length preview_actions = 5"
    by (simp_all add: preview_actions_def stored_actions_def)
  have old: "ct_token_hash c \<notin> set (map (\<lambda>j. ue_sha env (ue_tokens env j)) [0..<0 + length preview_actions]) \<and>
      (ct_draft_id c = d_draft_id dr \<longrightarrow> ct_action c \<notin> set preview_actions)" if "c \<in> set (db_callbacks (rp_db ?s))" for c
  proof -
    from that obtain c0 where "c0 \<in> set (db_callbacks (rp_db s))" "ct_token_hash c = ct_token_hash c0" "ct_draft_id c = ct_draft_id c0"
      by (auto simp: update_rows_def split: if_splits)
    moreover from this(1) assms(14) have "ct_draft_id c0 \<noteq> d_draft_id dr" by (metis imageI)
    ultimately show ?thesis using assms(13) actions(3) by (auto simp: fresh_tokens_def list_all_iff)
  qed
  from issue_loop_succeeds[where sha = "ue_sha env" and tok = "ue_tokens env" and i = 0 and s = ?s and as = preview_actions and bs = "[]"
      and e = "ue_clock env 1 + DEFAULT_PREVIEW_TOKEN_TTL", OF _ _ assms(3-12) actions(1) _ actions(2) _ old] assms(1,2,13) actions(3)
  obtain bs s' where "issue_loop (ue_sha env) (ue_tokens env) dr (Aware (ue_clock env 1 + DEFAULT_PREVIEW_TOKEN_TTL)) (d_thread_id dr)
      (ue_message_id env) preview_actions 0 [] ?s = (Inr bs, s')"
    by (auto simp: fresh_tokens_def find_workflow_def)
  then have issue: "issue_preview_buttons (ue_sha env) (ue_tokens env) (ue_clock env 1) dr preview_actions (ue_message_id env) None None True s =
      (Inr bs, s')"
    using assms(1,3,7) by (simp add: issue_preview_buttons_def sx_bind_app repo_invalidate_tokens_def validate_datetime_def repo_run_def
        invalidate_tokens_sync_def to_db_datetime_def Let_def preview_actions_def)
  then show ?thesis
    using assms(15-17) by (simp add: present_draft_def say_def edit_card_def tg_call_def issue_buttons_def on_db_def on_repo_def
        sx_bind_app Let_def)
qed

text \<open>
  C9. The first preview never gets its buttons.  The preview is sent with a reply keyboard, and then edited to carry the inline buttons;
  Telegram lets a bot edit only messages without a reply markup or with an inline one, so it refuses that edit.  When the reply goes
  through and the edit is refused, an allowed user who types \<open>/new\<close> in the private chat, or whose forward reaches its handler (one
  without text, or one that starts with a command: theory Updates), is left with a draft stored in REVIEW, with five tokens that would each authorise a press for the hour, and with a card without buttons: nothing else is
  said, and the draft does not become the user's active draft, so that typing does not reach it either.
\<close>

theorem first_preview_stays_bare:
  assumes "db_ok (rp_db (sw_repo (uw_sub w)))" and "rp_initialized (sw_repo (uw_sub w))"
    and "find_workflow (rp_db (sw_repo (uw_sub w))) (ue_new_id env) = None" and "ue_new_id env \<noteq> []"
    and "fresh_tokens env (db_callbacks (rp_db (sw_repo (uw_sub w))))" and "0 < ue_message_id env"
    and "\<not> ue_tg_fails env (length (ch_log w))" and "ue_tg_fails env (Suc (length (ch_log w)))"
    and "op \<in> {Forward u, New_Draft u}" and "du_actor u = Some actor" and "du_chat u = Some (chat, ''private'')" and "du_message u"
    and "0 < actor" and "chat \<noteq> 0"
    and "decision_allowed (require_allowed_user actor (resolve_allowed (ue_allowed env) (ue_settings_allowed env)))"
    and "now < ue_clock env 1 + DEFAULT_PREVIEW_TOKEN_TTL"
  shows "\<exists>dr kb. ch_log (run_update (env, op) w) = ch_log w @ [(Reply (render_draft_card dr None) (Menu get_draft_reply_keyboard), True),
        (Edit_Text (render_draft_card dr None) (Inline kb), False)] \<and>
    load_draft (rp_db (sw_repo (uw_sub (run_update (env, op) w)))) (ue_new_id env) = Inr (Some dr) \<and>
    d_owner_id dr = actor \<and> d_chat_id dr = chat \<and> d_state dr = REVIEW \<and>
    uw_active (run_update (env, op) w) = uw_active w \<and> length (concat kb) = 5 \<and>
    list_all (\<lambda>b. \<exists>data res s. bt_target b = Callback data \<and> authorize (ue_sha env) now (Some data) actor chat ''private'' (du_thread u)
      (Some (ue_message_id env)) (sw_repo (uw_sub (run_update (env, op) w))) = (Inr res, s) \<and> ar_allowed res) (concat kb)"
proof -
  let ?w' = "run_update (env, op) w" and ?s = "sw_repo (uw_sub w)"
  obtain t where run: "?w' = snd (make_draft env u actor chat t w)"
    using assms(9-12,15) by (auto simp: handle_forward_intake_def handle_manual_create_def guarded_def in_private_chat_def)
  let ?create = "create_manual_draft (ue_clock env 0) (ue_new_id env) actor chat t (du_thread u) None"
  from create_succeeds[OF assms(2-4,13,14)] obtain dr x d where create: "?create ?s = (Inr dr, ?s\<lparr>rp_db := d\<rparr>)"
    and x: "find_workflow d (ue_new_id env) = Some x" "db_callbacks d = db_callbacks (rp_db ?s)" "w_owner_id x = actor"
      "w_chat_id x = chat" "w_thread_id x = du_thread u" "w_revision x = 1" "w_state x = REVIEW" by blast
  let ?w1 = "w\<lparr>uw_sub := (uw_sub w)\<lparr>sw_repo := ?s\<lparr>rp_db := d\<rparr>\<rparr>\<rparr>"
  from created_draft[OF create assms(1,3,4)] have stored: "load_draft d (ue_new_id env) = Inr (Some dr)" and ok: "db_ok d"
    and dr: "d_draft_id dr = ue_new_id env" "d_owner_id dr = actor" "d_chat_id dr = chat" "d_thread_id dr = du_thread u"
      "d_state dr = REVIEW" "d_revision dr = 1" by auto
  have "ue_new_id env \<notin> ct_draft_id ` set (db_callbacks d)"
    using assms(1,3) x(2) by (auto simp: db_ok_def children_ok_def Let_def find_workflow_def find_row_None)
  with present_refused[of "?s\<lparr>rp_db := d\<rparr>" dr x env ?w1 actor] x dr assms(2,4-8,13,14) obtain bs s' where
    bs: "issue_preview_buttons (ue_sha env) (ue_tokens env) (ue_clock env 1) dr preview_actions (ue_message_id env) None None True
      (?s\<lparr>rp_db := d\<rparr>) = (Inr bs, s')"
    and present: "present_draft env actor dr ?w1 = (Inl (OtherError ''TelegramError''),
      ?w1\<lparr>ch_log := ch_log w @ [(Reply (render_draft_card dr None) (Menu get_draft_reply_keyboard), True),
        (Edit_Text (render_draft_card dr None) (Inline (build_draft_inline_keyboard (issued_map bs))), False)],
      uw_sub := (uw_sub w)\<lparr>sw_repo := s'\<rparr>\<rparr>)"
    by auto
  have w': "?w' = ?w1\<lparr>ch_log := ch_log w @ [(Reply (render_draft_card dr None) (Menu get_draft_reply_keyboard), True),
        (Edit_Text (render_draft_card dr None) (Inline (build_draft_inline_keyboard (issued_map bs))), False)],
      uw_sub := (uw_sub w)\<lparr>sw_repo := s'\<rparr>\<rparr>"
    using run create present dr
    by (simp add: make_draft_def catch_domain_def sx_try_def sx_bind_app on_db_def on_repo_def)
  from issue_buttons_result[OF bs] ok obtain rows where ok2: "db_ok (rp_db s')" and init: "rp_initialized s'"
    and same: "rp_db s' = d\<lparr>db_callbacks := rows\<rparr>"
    and each: "\<And>ib. ib \<in> set bs \<Longrightarrow> button_for (ue_sha env) dr (Aware (ue_clock env 1 + DEFAULT_PREVIEW_TOKEN_TTL)) (du_thread u)
      (ue_message_id env) (db_callbacks (rp_db s')) ib"
    using dr(4) by auto
  have load2: "load_draft (rp_db s') (d_draft_id dr) = Inr (Some dr)" using stored same dr(1) by simp
  have wire: "ib_callback_data ib \<noteq> []" if "ib \<in> set bs" for ib
    using each[OF that] by (auto simp: button_for_def wire_def)
  have "distinct preview_actions" by (simp add: preview_actions_def)
  note kb = keyboard_buttons[OF issued_actions[OF bs this] wire]
  have "\<exists>data res s3. bt_target btn = Callback data \<and> authorize (ue_sha env) now (Some data) actor chat ''private'' (du_thread u)
      (Some (ue_message_id env)) s' = (Inr res, s3) \<and> ar_allowed res"
    if "btn \<in> set (concat (build_draft_inline_keyboard (issued_map bs)))" for btn
  proof -
    from kb that obtain ib where ib: "ib \<in> set bs" "bt_target btn = Callback (ib_callback_data ib)" by (auto simp: list_all_iff)
    from button_press_allowed[OF ok2 init each[OF ib(1)] load2, of now] assms(16) dr ib(2) show ?thesis by auto
  qed
  then have "list_all (\<lambda>b. \<exists>data res s. bt_target b = Callback data \<and> authorize (ue_sha env) now (Some data) actor chat ''private'' (du_thread u)
      (Some (ue_message_id env)) s' = (Inr res, s) \<and> ar_allowed res) (concat (build_draft_inline_keyboard (issued_map bs)))"
    by (simp only: list_all_iff) blast
  with kb w' load2 dr show ?thesis
    by (intro exI[of _ dr] exI[of _ "build_draft_inline_keyboard (issued_map bs)"]) simp
qed

definition fresh_ui_env :: ui_env where
  "fresh_ui_env = sample_ui_env\<lparr>ue_tokens := (\<lambda>j. replicate 31 (CHR ''b'') @ [''0123456789abcdef'' ! (j mod 16)]), ue_sha := (\<lambda>t. t @ t),
     ue_tg_fails := (\<lambda>n. n = 1)\<rparr>"

theorem first_preview_stays_bare_witness:
  "\<exists>dr kb. load_draft (rp_db (sw_repo (uw_sub (run_update (fresh_ui_env, New_Draft typed_new) (sample_ui_world A_CONFIRM None))))) ''d2'' =
       Inr (Some dr) \<and> d_owner_id dr = 7 \<and> d_state dr = REVIEW \<and> length (concat kb) = 5 \<and>
     ch_log (run_update (fresh_ui_env, New_Draft typed_new) (sample_ui_world A_CONFIRM None)) =
       [(Reply (render_draft_card dr None) (Menu get_draft_reply_keyboard), True), (Edit_Text (render_draft_card dr None) (Inline kb), False)]"
proof -
  let ?w = "sample_ui_world A_CONFIRM None"
  have ok: "db_ok (rp_db (sw_repo (uw_sub ?w)))" by (simp add: sample_ui_fields sample_ui_ok)
  have w: "rp_initialized (sw_repo (uw_sub ?w))" "find_workflow (rp_db (sw_repo (uw_sub ?w))) (ue_new_id fresh_ui_env) = None"
    "ue_new_id fresh_ui_env \<noteq> []" "ch_log ?w = []"
    by (simp_all add: sample_ui_fields fresh_ui_env_def sample_ui_env_def sample_ui_repo_def sample_review_repo_def find_workflow_def
        sample_row_def empty_db_def)
  have fresh: "ue_tokens fresh_ui_env j = replicate 31 (CHR ''b'') @ [''0123456789abcdef'' ! (j mod 16)]" "ue_sha fresh_ui_env t = t @ t" for j t
    by (simp_all add: fresh_ui_env_def)
  have "db_callbacks (rp_db (sw_repo (uw_sub ?w))) = [sample_button A_CONFIRM]" by (simp add: sample_ui_fields sample_ui_repo_def)
  moreover have "[0..<5] = [0, 1, 2, 3, 4::nat]" by (simp add: upt_rec)
  moreover have "list_all is_lower_hex (replicate 31 (CHR ''b''))" by (simp add: list_all_iff is_lower_hex_def)
  moreover have "ct_token_hash (sample_button A_CONFIRM) = CHR ''a'' # replicate 63 (CHR ''a'')"
    by (simp add: sample_record_def sample_hash_def numeral_eq_Suc)
  moreover have "replicate 31 (CHR ''b'') = CHR ''b'' # replicate 30 (CHR ''b'')" by (simp add: numeral_eq_Suc)
  ultimately have tokens: "fresh_tokens fresh_ui_env (db_callbacks (rp_db (sw_repo (uw_sub ?w))))"
    by (simp add: fresh_tokens_def fresh opaque_token_ok_def OPAQUE_TOKEN_HEX_LENGTH_def OPAQUE_TOKEN_BYTES_def is_lower_hex_def
        append_eq_append_conv)
  have env: "ue_new_id fresh_ui_env = ''d2''" "ue_message_id fresh_ui_env = 11" "\<not> ue_tg_fails fresh_ui_env (length (ch_log ?w))"
    "ue_tg_fails fresh_ui_env (Suc (length (ch_log ?w)))" "ue_clock fresh_ui_env n = 50" "resolve_allowed (ue_allowed fresh_ui_env) (ue_settings_allowed fresh_ui_env) = None" for n
    by (simp_all add: fresh_ui_env_def sample_ui_env_def sample_ui_world_def resolve_allowed_def)
  have user: "du_actor typed_new = Some 7" "du_chat typed_new = Some (7, ''private'')" "du_message typed_new"
    by (simp_all add: typed_new_def)
  let ?r = "run_update (fresh_ui_env, New_Draft typed_new) ?w"
  have rest: "0 < ue_message_id fresh_ui_env" "New_Draft typed_new \<in> {Forward typed_new, New_Draft typed_new}"
    "decision_allowed (require_allowed_user 7 (resolve_allowed (ue_allowed fresh_ui_env) (ue_settings_allowed fresh_ui_env)))"
    "60 < ue_clock fresh_ui_env 1 + DEFAULT_PREVIEW_TOKEN_TTL" "0 < (7::int)" "(7::int) \<noteq> 0"
    by (simp_all add: env DEFAULT_PREVIEW_TOKEN_TTL_def require_allowed_user_def decision_allowed_def)
  from first_preview_stays_bare [OF ok w(1-3) tokens rest(1) env(3,4) rest(2) user rest(5,6,3,4)]
  obtain dr kb where "ch_log ?r = ch_log ?w @ [(Reply (render_draft_card dr None) (Menu get_draft_reply_keyboard), True),
        (Edit_Text (render_draft_card dr None) (Inline kb), False)]"
    and "load_draft (rp_db (sw_repo (uw_sub ?r))) (ue_new_id fresh_ui_env) = Inr (Some dr)" "d_owner_id dr = 7" "d_state dr = REVIEW"
      "length (concat kb) = 5"
    by blast
  then show ?thesis
    by (intro exI[of _ dr] exI[of _ kb]) (simp add: env w(4) del: run_update.simps)
qed
end
