(* ===== verification/Card_Safety.thy ===== *)
theory Card_Safety
  imports Card_Handlers Draft_Flows
begin

text \<open>
  What the buttons of issue cards do: where their data leads, which cards a change refreshes, that the whole interface is out of
  order with the credential store of the program, and that a sub-task draft cannot be operated.
\<close>

section \<open>The handlers by their registration\<close>

fun card_handler :: "handler \<Rightarrow> (card_env \<Rightarrow> card_update \<Rightarrow> unit card_sx) option" where
  "card_handler H_My_Button = Some handle_my_open"
| "card_handler H_My = Some handle_my_open"
| "card_handler H_Created_Button = Some handle_created"
| "card_handler H_Created = Some handle_created"
| "card_handler H_Unassigned = Some handle_unassigned"
| "card_handler H_Blocked = Some handle_blocked"
| "card_handler H_Sprint = Some handle_sprint"
| "card_handler H_Search_Prompt = Some handle_search_prompt"
| "card_handler H_Standup_Button = Some handle_standup_report"
| "card_handler H_Standup = Some handle_standup_report"
| "card_handler H_Keyword_Search = Some handle_keyword_search"
| "card_handler H_Filter_Callback = Some handle_filter_callback"
| "card_handler H_Show_Card_Callback = Some handle_show_card_callback"
| "card_handler H_Page_Callback = Some handle_page_callback"
| "card_handler H_Inline_Query = Some handle_inline_query"
| "card_handler H_Url_Unfurl = Some handle_url_unfurl"
| "card_handler H_Card_Action = Some handle_card_action_callback"
| "card_handler H_Execute_Move = Some handle_execute_move"
| "card_handler H_Execute_Assign = Some handle_execute_assign"
| "card_handler H_Execute_Unblock = Some handle_execute_unblock"
| "card_handler H_Reply_Comment = Some handle_reply_comment_or_attachment"
| "card_handler H_Block_Input = Some handle_block_input_message"
| "card_handler _ = None"

definition run_card :: "card_env \<times> handler \<times> card_update \<Rightarrow> card_world \<Rightarrow> card_world" where
  "run_card x w = (case x of (env, h, u) \<Rightarrow> (case card_handler h of None \<Rightarrow> w | Some f \<Rightarrow> snd (f env u w)))"

definition run_cards :: "(card_env \<times> handler \<times> card_update) list \<Rightarrow> card_world \<Rightarrow> card_world" where
  "run_cards xs w = fold run_card xs w"

section \<open>With the credential store of the program\<close>

lemma locked_services:
  "service_get_issue env user_store_lookup user key = sx_raise (OtherError ''AttributeError'')"
  "service_filter env user_store_lookup user name n = sx_raise (OtherError ''AttributeError'')"
  "search_keywords env user_store_lookup user kw n = sx_raise (OtherError ''AttributeError'')"
  "service_get_transitions env user_store_lookup user key = sx_raise (OtherError ''AttributeError'')"
  "service_transition env user_store_lookup user key t c = sx_raise (OtherError ''AttributeError'')"
  "service_add_comment env user_store_lookup user key body = sx_raise (OtherError ''AttributeError'')"
  "service_upload env user_store_lookup user key f content m = sx_raise (OtherError ''AttributeError'')"
  "service_assign env user_store_lookup user key assignee = sx_raise (OtherError ''AttributeError'')"
  "service_block env user_store_lookup user key blocker reason = sx_raise (OtherError ''AttributeError'')"
  "service_unblock env user_store_lookup user key link_id = sx_raise (OtherError ''AttributeError'')"
  "service_watch env user_store_lookup user key = sx_raise (OtherError ''AttributeError'')"
  "service_unwatch env user_store_lookup user key = sx_raise (OtherError ''AttributeError'')"
  "get_standup_summary env user_store_lookup user = sx_raise (OtherError ''AttributeError'')"
  by (simp_all add: fun_eq_iff sx_bind_app service_get_issue_def service_filter_def search_keywords_def service_get_transitions_def
    service_transition_def service_add_comment_def service_upload_def service_assign_def service_block_def service_unblock_def
    service_watch_def service_unwatch_def get_standup_summary_def get_pat_def user_store_lookup_def)

lemma on_http_raise: "on_http (sx_raise e) = sx_raise e"
  by (simp add: fun_eq_iff on_http_def)

lemma raise_bind: "sx_bind (sx_raise e) f = sx_raise e"
  by (simp add: fun_eq_iff sx_bind_def)

lemma catching_raise: "catching (sx_raise e) h = h e"
  by (simp add: fun_eq_iff sx_try_def)

lemmas locked = locked_services on_http_raise raise_bind catching_raise

definition untouched :: "card_world \<Rightarrow> card_world \<Rightarrow> bool" where
  "untouched v w \<longleftrightarrow> kw_http w = kw_http v \<and> kw_edits w = kw_edits v \<and> kw_articles w = kw_articles v \<and> kw_search w = kw_search v \<and>
     db_cards (rp_db (kw_repo w)) = db_cards (rp_db (kw_repo v))"

lemma untouched_call [inv_intros]: "sx_keeps (untouched v) (call env c)"
  by (simp add: sx_keeps_def tg_call_def untouched_def Let_def)

lemma untouched_reply [inv_intros]: "sx_keeps (untouched v) (query_reply env u t m)" "sx_keeps (untouched v) (query_error env u e)"
  "sx_keeps (untouched v) (reply_error env e)"
  unfolding query_error_def query_reply_def reply_error_def by (intro inv_intros)+

lemma save_sync_cards: "save_sync dr e d = Inr (x, d') \<Longrightarrow> db_cards d' = db_cards d"
  by (auto simp: save_sync_def save_workflow_row_def save_sources_def save_attachments_def save_published_def upsert_published_issue_def
      rbind_eq_Inr Let_def split: option.splits if_splits)

lemma untouched_create [inv_intros]: "sx_keeps (untouched v) (on_cards (create_manual_draft now i owner chat t th did))"
proof -
  have "db_cards (rp_db (snd (create_manual_draft now i owner chat t th did s))) = db_cards (rp_db s)" for s
    by (auto simp: create_manual_draft_def repo_save_def sx_bind_def repo_run_def split: sum.splits dest: save_sync_cards)
  then show ?thesis by (auto simp: sx_keeps_def on_cards_def untouched_def split: prod.splits) (metis snd_conv)+
qed

lemma untouched_pending [inv_intros]: "sx_keeps (untouched v) (sx_modify (\<lambda>w. w\<lparr>kw_pending_block := p\<rparr>))"
  by (simp add: sx_keeps_def sx_modify_def untouched_def)

lemma bind_none: "sx_bind (sx_bind m (\<lambda>_. sx_return None)) (case_option n g) = sx_bind m (\<lambda>_. n)"
  by (simp add: fun_eq_iff sx_bind_def split: prod.split sum.split)

lemma untouched_search: "sx_keeps (untouched v) (send_search_results env u t (\<lambda>_. sx_raise e))"
  unfolding send_search_results_def locked bind_none by (auto split: option.split intro!: inv_intros)

lemmas locked_searches = handle_my_open_def handle_created_def handle_unassigned_def handle_blocked_def handle_sprint_def

lemma untouched_code:
  assumes "ke_lookup env = user_store_lookup"
  shows "sx_keeps (untouched v) (handle_my_open env u)" "sx_keeps (untouched v) (handle_created env u)"
    "sx_keeps (untouched v) (handle_unassigned env u)" "sx_keeps (untouched v) (handle_blocked env u)"
    "sx_keeps (untouched v) (handle_sprint env u)" "sx_keeps (untouched v) (search_by_code env u code)"
  unfolding search_by_code_def locked_searches assms locked by (intro inv_intros untouched_search)+

lemma untouched_execute:
  "(\<And>user key arg. act user key arg = sx_raise e) \<Longrightarrow> sx_keeps (untouched v) (execute env u notice act texts)"
  unfolding execute_def by (auto simp: locked split: option.split list.split intro!: inv_intros)

lemma untouched_action:
  assumes "ke_lookup env = user_store_lookup"
  shows "sx_keeps (untouched v) (card_action env u user prefix key)"
  unfolding card_action_def move_start_def assign_start_def block_start_def unblock_start_def watch_toggle_def subtask_start_def
    assms locked Let_def if_cancel by (intro inv_intros)

lemma untouched_others:
  assumes "ke_lookup env = user_store_lookup"
  shows "sx_keeps (untouched v) (handle_search_prompt env u)"
    "sx_keeps (untouched v) (handle_standup_report env u)"
    "sx_keeps (untouched v) (handle_keyword_search env u)"
    "sx_keeps (untouched v) (handle_filter_callback env u)"
    "sx_keeps (untouched v) (handle_inline_query env u)"
    "sx_keeps (untouched v) (handle_execute_move env u)"
    "sx_keeps (untouched v) (handle_execute_assign env u)"
    "sx_keeps (untouched v) (handle_execute_unblock env u)"
  unfolding handle_search_prompt_def handle_standup_report_def handle_keyword_search_def handle_filter_callback_def
    handle_inline_query_def handle_execute_move_def handle_execute_assign_def handle_execute_unblock_def assms locked Let_def
  by (auto split: option.split intro!: inv_intros untouched_search untouched_code[OF assms] untouched_execute)

lemma untouched_buttons:
  assumes "ke_lookup env = user_store_lookup"
  shows "sx_keeps (untouched v) (handle_show_card_callback env u)"
    "sx_keeps (untouched v) (handle_card_action_callback env u)"
  unfolding handle_show_card_callback_def handle_card_action_callback_def assms locked Let_def
  by (auto split: option.split prod.split intro!: inv_intros untouched_action[OF assms])

lemma untouched_page:
  assumes "ke_lookup env = user_store_lookup"
  shows "sx_keeps (untouched v) (handle_page_callback env u)"
  unfolding handle_page_callback_def Let_def
  by (auto split: option.split prod.split intro!: inv_intros untouched_code[OF assms])

lemma untouched_messages:
  assumes "ke_lookup env = user_store_lookup"
  shows "sx_keeps (untouched v) (handle_url_unfurl env u)"
    "sx_keeps (untouched v) (handle_block_input_message env u)"
    "sx_keeps (untouched v) (handle_reply_comment_or_attachment env u)"
  unfolding handle_url_unfurl_def handle_block_input_message_def handle_reply_comment_or_attachment_def assms locked
  by (auto split: option.split bool.split list.split intro!: inv_intros)

lemma untouched_handler:
  assumes "card_handler h = Some f" and "ke_lookup env = user_store_lookup"
  shows "sx_keeps (untouched v) (f env u)"
  using assms(1)
  by (cases rule: card_handler.elims)
    (simp_all add: untouched_code[OF assms(2)] untouched_others[OF assms(2)] untouched_buttons[OF assms(2)]
      untouched_page[OF assms(2)] untouched_messages[OF assms(2)])

text \<open>
  C11. With the credential store of the program every card and search handler is out of order: whatever updates reach them, in whatever
  order, no request is sent, no registered card is edited, no card is registered, no inline query is answered and no search result is
  kept.
\<close>

theorem cards_out_of_order:
  "untouched w (run_cards (map (\<lambda>(env, h, u). (env\<lparr>ke_lookup := user_store_lookup\<rparr>, h, u)) xs) w)"
proof (induction xs rule: rev_induct)
  case Nil
  then show ?case by (simp add: run_cards_def untouched_def)
next
  case (snoc x xs)
  let ?v = "run_cards (map (\<lambda>(env, h, u). (env\<lparr>ke_lookup := user_store_lookup\<rparr>, h, u)) xs) w"
  obtain env h u where x: "x = (env, h, u)" by (cases x)
  show ?case
  proof (cases "card_handler h")
    case None
    with snoc x show ?thesis by (simp add: run_cards_def run_card_def)
  next
    case (Some f)
    have "sx_keeps (untouched w) (f (env\<lparr>ke_lookup := user_store_lookup\<rparr>) u)" by (rule untouched_handler[OF Some]) simp
    from sx_keepsD[OF this snoc] Some x show ?thesis by (simp add: run_cards_def run_card_def)
  qed
qed

section \<open>Where the buttons lead\<close>

text \<open>The handler that the router picks for the data of a button, and how that handler reads it.\<close>

definition led_to :: "inline_button \<Rightarrow> (handler option \<times> string list) option" where
  "led_to b = (case bt_target b of
     Callback d \<Rightarrow> Some (route False (Callback_Query d),
       if route False (Callback_Query d) = Some H_Card_Action then [fst (split_action d), snd (split_action d)] else split_on (CHR '':'') d)
   | _ \<Rightarrow> None)"

lemma split_no_colon: "CHR '':'' \<notin> set s \<Longrightarrow> split_on (CHR '':'') s = [s]"
  by (induction s) auto

lemma split_on_colon: "CHR '':'' \<notin> set s \<Longrightarrow> split_on (CHR '':'') (s @ CHR '':'' # t) = s # split_on (CHR '':'') t"
  by (induction s) auto

lemma route_card:
  "route aw (Callback_Query (CHR ''c'' # CHR ''a'' # CHR ''r'' # CHR ''d'' # CHR ''_'' # s)) = Some H_Card_Action"
  "route aw (Callback_Query (CHR ''d'' # CHR ''o'' # CHR ''_'' # CHR ''m'' # CHR ''v'' # CHR '':'' # s)) = Some H_Execute_Move"
  "route aw (Callback_Query (CHR ''d'' # CHR ''o'' # CHR ''_'' # CHR ''a'' # CHR ''s'' # CHR ''n'' # CHR '':'' # s)) = Some H_Execute_Assign"
  "route aw (Callback_Query (CHR ''d'' # CHR ''o'' # CHR ''_'' # CHR ''u'' # CHR ''b'' # CHR ''k'' # CHR '':'' # s)) = Some H_Execute_Unblock"
  "route aw (Callback_Query (CHR ''p'' # CHR ''g'' # CHR '':'' # s)) = Some H_Page_Callback"
  "route aw (Callback_Query (CHR ''s'' # CHR ''h'' # CHR ''c'' # CHR '':'' # s)) = Some H_Show_Card_Callback"
  "route aw (Callback_Query (CHR ''f'' # CHR ''l'' # CHR ''t'' # CHR '':'' # s)) = Some H_Filter_Callback"
  by (simp_all add: route_def registered_handlers_def callback_prefix_def)

text \<open>
  Each button of an issue card leads to the operation that its label names on the issue of the card, with a transition
  the one that the button shows; only the Edit button leads to an operation the handler does not know, so that it does nothing.
\<close>

theorem card_buttons_lead_to_actions:
  assumes "CHR '':'' \<notin> set (iv_issue_key i)"
    and "case primary of None \<Rightarrow> True | Some t \<Rightarrow> CHR '':'' \<notin> set (tv_transition_id t)"
  shows "List.map_filter led_to (concat (view_keyboard i primary)) =
    [(case primary of None \<Rightarrow> (Some H_Card_Action, [''card_mv'', iv_issue_key i])
      | Some t \<Rightarrow> (Some H_Execute_Move, [''do_mv'', iv_issue_key i, tv_transition_id t])),
     (Some H_Card_Action, [''card_qed'', iv_issue_key i]), (Some H_Card_Action, [''card_cmt'', iv_issue_key i]),
     (Some H_Card_Action, [if is_blocked_view i then ''card_ubk'' else ''card_blk'', iv_issue_key i]),
     (Some H_Card_Action, [''card_asn'', iv_issue_key i]),
     (Some H_Card_Action, [if iv_is_watching i then ''card_uwtc'' else ''card_wtc'', iv_issue_key i]),
     (Some H_Card_Action, [''card_sub'', iv_issue_key i])] \<and>
    card_action env u user ''card_qed'' (iv_issue_key i) = sx_return ()"
  using assms
  by (cases primary)
    (simp_all add: view_keyboard_def build_universal_issue_card_keyboard_def led_to_def callback_button_def url_button_def map_filter_simps
      data_or_def get_callback_data_def route_card split_action_def split_no_colon split_on_colon card_action_def split: option.split list.split)

definition sample_view :: jira_issue_view where
  "sample_view = \<lparr>iv_issue_key = ''OPS-1'', iv_issue_id = ''10'', iv_summary = ''Disk'', iv_status = ''Open'', iv_priority = ''High'',
     iv_assignee = ''ann'', iv_reporter = ''bob'', iv_epic_key = [], iv_epic_name = [], iv_sprint_name = [], iv_is_flagged = False,
     iv_blocker_keys = [], iv_description = ''full'', iv_issue_url = ''https://jira/browse/OPS-1'', iv_last_comment_summary = [],
     iv_updated_at = [], iv_is_watching = False\<rparr>"

theorem card_buttons_lead_to_actions_witness:
  "length (List.map_filter led_to (concat (view_keyboard sample_view (Some
     \<lparr>tv_transition_id = ''31'', tv_name = ''Start'', tv_to_status = ''In Progress'', tv_has_screen = False\<rparr>)))) = 7"
  using card_buttons_lead_to_actions [of sample_view "Some \<lparr>tv_transition_id = ''31'', tv_name = ''Start'', tv_to_status = ''In Progress'',
     tv_has_screen = False\<rparr>"]
  by (simp add: sample_view_def)

section \<open>Cards that a change refreshes\<close>

definition cards_of :: "string \<Rightarrow> db \<Rightarrow> (int \<times> int) list" where
  "cards_of key d = map (\<lambda>r. (c_chat_id r, c_message_id r))
     (sort_key (\<lambda>r. - dt_instant (c_updated_at r)) (filter (\<lambda>r. c_issue_key r = key) (db_cards d)))"

lemma refresh_run:
  assumes "rp_initialized (kw_repo w)"
  shows "refresh_all_cards i w = (Inr (), w\<lparr>kw_edits := kw_edits w @ map (\<lambda>(chat, msg). (chat, msg, render_issue_card i None,
    view_keyboard i None)) (cards_of (iv_issue_key i) (rp_db (kw_repo w)))\<rparr>)"
  using assms
  by (simp add: refresh_all_cards_def refresh_issue_cards_def repo_get_card_messages_def repo_run_def get_card_messages_sync_def
      on_cards_def sx_bind_app sx_modify_def cards_of_def comp_def case_prod_unfold)

text \<open>
  Pressing the button of a transition, an assignee or a blocking issue runs its operation once, on the issue and with the argument in
  its data.  When that succeeds, every registered card of the issue is edited, the latest first, to show the issue as it is now, and no
  other card is; when it fails, no card changes and the user is told the error, escaped.
\<close>

theorem action_refreshes_cards:
  assumes "cu_user u = Some user" and "query_data u = Some (prefix @ '':'' @ key @ '':'' @ arg)"
    and "CHR '':'' \<notin> set (prefix @ key @ arg)" and "has_query_message u" and "\<And>n. \<not> ke_tg_fails env n"
    and "rp_initialized (kw_repo w)" and "act user key arg (kw_http w) = (r, h)"
  shows "snd (execute env u notice act texts w) = (case r of
      Inl e \<Rightarrow> w\<lparr>kw_http := h, ch_log := ch_log w @ [(Answer (Some notice) False, True),
        (Reply (render_safe_feedback (ke_str env e)) No_Markup, True)]\<rparr>
    | Inr i \<Rightarrow> w\<lparr>kw_http := h, ch_log := ch_log w @ [(Answer (Some notice) False, True), (Reply (texts key arg i) No_Markup, True)],
        kw_edits := kw_edits w @ map (\<lambda>(chat, msg). (chat, msg, render_issue_card i None, view_keyboard i None))
          (cards_of (iv_issue_key i) (rp_db (kw_repo w)))\<rparr>)"
proof -
  have "split_on (CHR '':'') (prefix @ CHR '':'' # key @ CHR '':'' # arg) = [prefix, key, arg]"
    using assms(3) by (simp add: split_on_colon split_no_colon)
  then show ?thesis
    using assms
    by (cases r) (simp_all add: execute_def sx_bind_app tg_call_def sx_try_def on_http_def query_error_def query_reply_def refresh_run)
qed

section \<open>Sub-task drafts\<close>

text \<open>
  The Sub-task button does not ask who presses it: any user gets a draft in REVIEW in the chat of the press, allow list or not.  And
  nobody can operate that draft: no press of any button that exists is authorised for it, so it can be neither confirmed nor
  cancelled.
\<close>

theorem subtask_draft_cannot_be_operated:
  assumes "db_ok (rp_db (kw_repo w))" and "rp_initialized (kw_repo w)"
    and "find_workflow (rp_db (kw_repo w)) (ke_new_id env) = None" and "ke_new_id env \<noteq> []" and "0 < user" and "chat \<noteq> 0"
    and "cu_user u = Some user" and "cu_chat u = Some chat" and "query_data u = Some (''card_sub:'' @ key)" and "\<And>n. \<not> ke_tg_fails env n"
  shows "\<exists>dr. load_draft (rp_db (kw_repo (run_card (env, H_Card_Action, u) w))) (ke_new_id env) = Inr (Some dr) \<and>
    d_owner_id dr = user \<and> d_chat_id dr = chat \<and> d_state dr = REVIEW \<and> d_template dr = Some (subtask_template key) \<and>
    \<not> (\<exists>res s' raw ct thread preview dr'. authorize sha now raw actor chat' ct thread preview (kw_repo (run_card (env, H_Card_Action, u) w)) =
      (Inr res, s') \<and> ar_allowed res \<and> ar_draft res = Some dr' \<and> d_draft_id dr' = ke_new_id env)"
proof -
  let ?w' = "run_card (env, H_Card_Action, u) w"
  let ?create = "create_manual_draft (ke_now env) (ke_new_id env) user chat (subtask_template key) None None"
  from create_succeeds[OF assms(2-6)] obtain dr d where create: "?create (kw_repo w) = (Inr dr, (kw_repo w)\<lparr>rp_db := d\<rparr>)"
    and cb: "db_callbacks d = db_callbacks (rp_db (kw_repo w))" by blast
  have "split_action (''card_sub:'' @ key) = (''card_sub'', key)" by (simp add: split_action_def)
  then have repo: "kw_repo ?w' = (kw_repo w)\<lparr>rp_db := d\<rparr>"
    using assms(7-10) create
    by (simp add: run_card_def handle_card_action_callback_def sx_bind_app tg_call_def card_action_def subtask_start_def on_cards_def
        query_reply_def)
  from created_draft[OF create assms(1,3,4)] have stored: "load_draft d (ke_new_id env) = Inr (Some dr)" and ok: "db_ok d"
    and dr: "d_owner_id dr = user" "d_chat_id dr = chat" "d_state dr = REVIEW" "d_template dr = Some (subtask_template key)" by auto
  have "ke_new_id env \<notin> ct_draft_id ` set (db_callbacks d)"
    using assms(1,3) cb by (auto simp: db_ok_def children_ok_def Let_def find_workflow_def find_row_None)
  then have "d_draft_id dr' \<noteq> ke_new_id env"
    if "authorize sha now raw actor chat' ct thread preview (kw_repo ?w') = (Inr res, s')" "ar_allowed res" "ar_draft res = Some dr'"
    for res s' raw ct thread preview dr'
    using allowed_press_facts[OF _ that(1,2)] that(3) ok load_draft_version unfolding repo by (fastforce simp: image_iff)
  then show ?thesis using stored dr unfolding repo by auto
qed

definition sample_card_env :: card_env where
  "sample_card_env = \<lparr>ke_jira = sample_jira_env (\<lambda>_ _. HttpTimeout), ke_lookup = user_store_lookup, ke_now = 50, ke_new_id = ''d2'', ke_message_id = 11,
     ke_tg_fails = (\<lambda>_. False), ke_photo = Inr [], ke_str = (\<lambda>_. [])\<rparr>"

definition sample_card_world :: card_world where
  "sample_card_world = \<lparr>ch_log = [], kw_repo = sample_ui_repo A_CONFIRM, kw_http = \<lparr>hw_requests = [], hw_cache = [], hw_closed = False\<rparr>,
     kw_edits = [], kw_articles = [], kw_search = None, kw_pending_block = None\<rparr>"

definition sample_card_update :: "string \<Rightarrow> card_update" where
  "sample_card_update data = \<lparr>cu_user = Some 8, cu_username = None, cu_first_name = ''Eve'', cu_chat = Some 8, cu_message = False,
     cu_text = None, cu_args = [], cu_reply_to = None, cu_photo = None, cu_query = Some (Some data, True), cu_inline = None\<rparr>"

theorem subtask_draft_cannot_be_operated_witness:
  "\<exists>dr. load_draft (rp_db (kw_repo (run_card (sample_card_env, H_Card_Action, sample_card_update ''card_sub:OPS-1'') sample_card_world))) ''d2'' =
     Inr (Some dr) \<and> d_owner_id dr = 8"
proof -
  have ok: "db_ok (rp_db (kw_repo sample_card_world))" by (simp add: sample_card_world_def sample_ui_ok)
  have w: "rp_initialized (kw_repo sample_card_world)" "find_workflow (rp_db (kw_repo sample_card_world)) (ke_new_id sample_card_env) = None"
    by (simp_all add: sample_card_world_def sample_card_env_def sample_ui_repo_def sample_review_repo_def find_workflow_def
        sample_row_def empty_db_def)
  from subtask_draft_cannot_be_operated [OF ok w, of 8 8 "sample_card_update ''card_sub:OPS-1''" "''OPS-1''"]
  show ?thesis by (simp add: sample_card_env_def sample_card_update_def query_data_def) blast
qed

theorem action_refreshes_cards_witness:
  "kw_edits (snd (execute sample_card_env (sample_card_update ''do_mv:OPS-1:31'') [] (\<lambda>_ _ _ h. (Inr sample_view, h)) (\<lambda>_ _ _. [])
     (sample_card_world\<lparr>kw_repo := sample_review_repo\<lparr>rp_db := (rp_db sample_review_repo)\<lparr>db_cards :=
       [\<lparr>c_chat_id = 8, c_message_id = 5, c_issue_key = ''OPS-1'', c_owner_id = 8, c_updated_at = Aware 3\<rparr>]\<rparr>\<rparr>\<rparr>))) =
   [(8, 5, render_issue_card sample_view None, view_keyboard sample_view None)]"
proof -
  let ?w = "sample_card_world\<lparr>kw_repo := sample_review_repo\<lparr>rp_db := (rp_db sample_review_repo)\<lparr>db_cards :=
       [\<lparr>c_chat_id = 8, c_message_id = 5, c_issue_key = ''OPS-1'', c_owner_id = 8, c_updated_at = Aware 3\<rparr>]\<rparr>\<rparr>\<rparr>"
  have u: "cu_user (sample_card_update d) = Some 8" "has_query_message (sample_card_update d)" for d
    by (simp_all add: sample_card_update_def has_query_message_def)
  have data: "query_data (sample_card_update ''do_mv:OPS-1:31'') = Some (''do_mv'' @ '':'' @ ''OPS-1'' @ '':'' @ ''31'')"
    by (simp add: sample_card_update_def query_data_def)
  have colons: "CHR '':'' \<notin> set (''do_mv'' @ ''OPS-1'' @ ''31'')" by simp
  have env: "\<not> ke_tg_fails sample_card_env n" for n by (simp add: sample_card_env_def)
  have w: "rp_initialized (kw_repo ?w)" "kw_edits ?w = []" "cards_of ''OPS-1'' (rp_db (kw_repo ?w)) = [(8, 5)]"
    by (simp_all add: sample_card_world_def sample_review_repo_def cards_of_def)
  have key: "iv_issue_key sample_view = ''OPS-1''" by (simp add: sample_view_def)
  show ?thesis
    using action_refreshes_cards [OF u(1) data colons u(2) env w(1), of "\<lambda>_ _ _ h. (Inr sample_view, h)" "Inr sample_view" "kw_http ?w"
        "[]" "\<lambda>_ _ _. []"] w(2,3) key
    by simp
qed
end
