(* ===== verification/Metrics.thy ===== *)
theory Metrics
  imports Errors "HOL-Library.AList"
begin

text \<open>
  The metrics of \<open>src/src/dztgbot/services/observability.py\<close>: counters, total durations and a bounded history, and the timer that
  records one observation for a block of code.  Durations are integers (of nanoseconds) or not finite; the rounding of floats is not
  modelled.  A method of \<open>SafeMetrics\<close> holds its lock from the first change to the last, so each is one step.
\<close>

section \<open>Codes\<close>

datatype event_code = KEYED_PROCESS | GEMINI_CALL | JIRA_CALL | ATTACHMENT_CALL | QUEUE_ADMISSION | SHUTDOWN

datatype outcome_code = OC_OK | OC_ERROR | OC_OVERLOADED | OC_DEADLINE | OC_COOLDOWN | OC_CANCELLED

fun event_value :: "event_code \<Rightarrow> string" where
  "event_value KEYED_PROCESS = ''keyed_process''"
| "event_value GEMINI_CALL = ''gemini_call''"
| "event_value JIRA_CALL = ''jira_call''"
| "event_value ATTACHMENT_CALL = ''attachment_call''"
| "event_value QUEUE_ADMISSION = ''queue_admission''"
| "event_value SHUTDOWN = ''shutdown''"

fun outcome_value :: "outcome_code \<Rightarrow> string" where
  "outcome_value OC_OK = ''ok''"
| "outcome_value OC_ERROR = ''error''"
| "outcome_value OC_OVERLOADED = ''overloaded''"
| "outcome_value OC_DEADLINE = ''deadline''"
| "outcome_value OC_COOLDOWN = ''cooldown''"
| "outcome_value OC_CANCELLED = ''cancelled''"

definition event_codes :: "event_code list" where
  "event_codes = [KEYED_PROCESS, GEMINI_CALL, JIRA_CALL, ATTACHMENT_CALL, QUEUE_ADMISSION, SHUTDOWN]"

definition outcome_codes :: "outcome_code list" where
  "outcome_codes = [OC_OK, OC_ERROR, OC_OVERLOADED, OC_DEADLINE, OC_COOLDOWN, OC_CANCELLED]"

lemma event_codes_complete: "c \<in> set event_codes"
  by (cases c) (simp_all add: event_codes_def)

lemma outcome_codes_complete: "c \<in> set outcome_codes"
  by (cases c) (simp_all add: outcome_codes_def)

instantiation event_code :: enum
begin

definition enum_event_code :: "event_code list" where
  "enum_event_code = event_codes"

definition enum_all_event_code :: "(event_code \<Rightarrow> bool) \<Rightarrow> bool" where
  "enum_all_event_code P = list_all P event_codes"

definition enum_ex_event_code :: "(event_code \<Rightarrow> bool) \<Rightarrow> bool" where
  "enum_ex_event_code P = list_ex P event_codes"

instance
proof
  show "(UNIV :: event_code set) = set enum_class.enum" by (auto simp: enum_event_code_def event_codes_complete)
  show "distinct (enum_class.enum :: event_code list)" by (simp add: enum_event_code_def event_codes_def)
  show "enum_class.enum_all P \<longleftrightarrow> Ball UNIV P" "enum_class.enum_ex P \<longleftrightarrow> Bex UNIV P" for P :: "event_code \<Rightarrow> bool"
    by (auto simp: enum_all_event_code_def enum_ex_event_code_def list_all_iff list_ex_iff event_codes_complete)
qed

end

instantiation outcome_code :: enum
begin

definition enum_outcome_code :: "outcome_code list" where
  "enum_outcome_code = outcome_codes"

definition enum_all_outcome_code :: "(outcome_code \<Rightarrow> bool) \<Rightarrow> bool" where
  "enum_all_outcome_code P = list_all P outcome_codes"

definition enum_ex_outcome_code :: "(outcome_code \<Rightarrow> bool) \<Rightarrow> bool" where
  "enum_ex_outcome_code P = list_ex P outcome_codes"

instance
proof
  show "(UNIV :: outcome_code set) = set enum_class.enum" by (auto simp: enum_outcome_code_def outcome_codes_complete)
  show "distinct (enum_class.enum :: outcome_code list)" by (simp add: enum_outcome_code_def outcome_codes_def)
  show "enum_class.enum_all P \<longleftrightarrow> Ball UNIV P" "enum_class.enum_ex P \<longleftrightarrow> Bex UNIV P" for P :: "outcome_code \<Rightarrow> bool"
    by (auto simp: enum_all_outcome_code_def enum_ex_outcome_code_def list_all_iff list_ex_iff outcome_codes_complete)
qed

end

definition token_char :: "char \<Rightarrow> bool" where
  "token_char c \<longleftrightarrow> (let n = (of_char c :: nat) in
     (65 \<le> n \<and> n \<le> 90) \<or> (97 \<le> n \<and> n \<le> 122) \<or> (48 \<le> n \<and> n \<le> 57) \<or> c = CHR ''_'' \<or> c = CHR ''-'')"

definition correlation_pattern :: "string \<Rightarrow> bool" where
  "correlation_pattern s \<longleftrightarrow> starts_with ''c1_'' s \<and> 16 \<le> length (drop 3 s) \<and> length (drop 3 s) \<le> 64 \<and> list_all token_char (drop 3 s)"

text \<open>\<open>CorrelationId.__post_init__\<close>, and \<open>new_correlation_id\<close> over the result of \<open>secrets.token_urlsafe(18)\<close>.\<close>

definition CorrelationId :: "string \<Rightarrow> exn + string" where
  "CorrelationId s = (if correlation_pattern s then Inr s else Inl (ValueError ''correlation ID must be an opaque c1 token''))"

definition new_correlation_id :: "string \<Rightarrow> exn + string" where
  "new_correlation_id token = CorrelationId (''c1_'' @ token)"

lemma new_correlation_id_ok: "length token = 24 \<Longrightarrow> list_all token_char token \<Longrightarrow> new_correlation_id token = Inr (''c1_'' @ token)"
  by (simp add: new_correlation_id_def CorrelationId_def correlation_pattern_def starts_with_def)

section \<open>The metrics\<close>

datatype duration = Finite int | Not_Finite

record observation =
  ob_event :: event_code
  ob_outcome :: outcome_code
  ob_correlation :: string
  ob_duration :: "int option"

type_synonym metric_key = "event_code \<times> outcome_code"

record metrics =
  mt_limit :: nat
  mt_counters :: "(metric_key \<times> nat) list"
  mt_durations :: "(metric_key \<times> int) list"
  mt_recent :: "observation list"

definition metrics_init :: "int \<Rightarrow> exn + metrics" where
  "metrics_init limit =
     (if limit < 0 \<or> 10000 < limit then Inl (ValueError ''recent_event_limit must be between 0 and 10000'')
      else Inr \<lparr>mt_limit = nat limit, mt_counters = [], mt_durations = [], mt_recent = []\<rparr>)"

definition value_or :: "'v \<Rightarrow> ('k \<times> 'v) list \<Rightarrow> 'k \<Rightarrow> 'v" where
  "value_or d xs k = (case map_of xs k of None \<Rightarrow> d | Some v \<Rightarrow> v)"

text \<open>\<open>deque(maxlen=limit).append\<close>.\<close>

definition push_bounded :: "nat \<Rightarrow> 'a \<Rightarrow> 'a list \<Rightarrow> 'a list" where
  "push_bounded limit x xs = drop (Suc (length xs) - limit) (xs @ [x])"

definition record_event ::
  "event_code \<Rightarrow> outcome_code \<Rightarrow> string \<Rightarrow> duration option \<Rightarrow> (metrics, exn, unit) sx" where
  "record_event e oc cid d =
     sx_bind (sx_ensure (case d of None \<Rightarrow> True | Some (Finite n) \<Rightarrow> 0 \<le> n | Some Not_Finite \<Rightarrow> False)
                (ValueError ''duration_seconds must be finite and not negative'')) (\<lambda>_.
     (let ms = (case d of Some (Finite n) \<Rightarrow> Some n | _ \<Rightarrow> None); key = (e, oc) in
      sx_modify (\<lambda>m. m\<lparr>mt_counters := AList.update key (value_or 0 (mt_counters m) key + 1) (mt_counters m),
        mt_durations := (case ms of None \<Rightarrow> mt_durations m
          | Some n \<Rightarrow> AList.update key (value_or 0 (mt_durations m) key + n) (mt_durations m)),
        mt_recent := push_bounded (mt_limit m) \<lparr>ob_event = e, ob_outcome = oc, ob_correlation = cid, ob_duration = ms\<rparr> (mt_recent m)\<rparr>)))"

text \<open>\<open>snapshot\<close> copies what the lock protects.\<close>

record metrics_snapshot =
  ms_counters :: "(metric_key \<times> nat) list"
  ms_durations :: "(metric_key \<times> int) list"
  ms_recent :: "observation list"

definition snapshot :: "metrics \<Rightarrow> metrics_snapshot" where
  "snapshot m = \<lparr>ms_counters = mt_counters m, ms_durations = mt_durations m, ms_recent = mt_recent m\<rparr>"

section \<open>Timers\<close>

record timer =
  ti_event :: event_code
  ti_correlation :: string
  ti_started :: "int option"
  ti_outcome :: outcome_code
  ti_finished :: bool

definition new_timer :: "event_code \<Rightarrow> string \<Rightarrow> timer" where
  "new_timer e cid = \<lparr>ti_event = e, ti_correlation = cid, ti_started = None, ti_outcome = OC_OK, ti_finished = False\<rparr>"

text \<open>How a block ends: normally, with a cancellation (\<open>CancelledError\<close> or \<open>KeyboardInterrupt\<close>) or with another exception.\<close>

datatype block_end = Normal | Cancelled_Block | Failed_Block

type_synonym 'a timer_sx = "(timer \<times> metrics, exn, 'a) sx"

definition set_outcome :: "outcome_code \<Rightarrow> unit timer_sx" where
  "set_outcome oc = sx_modify (\<lambda>(t, m). (t\<lparr>ti_outcome := oc\<rparr>, m))"

definition timer_enter :: "int \<Rightarrow> unit timer_sx" where
  "timer_enter now = sx_bind (sx_get fst) (\<lambda>t.
     sx_bind (sx_ensure (ti_started t = None) (OtherError ''RuntimeError'')) (\<lambda>_.
       sx_modify (\<lambda>(t, m). (t\<lparr>ti_started := Some now\<rparr>, m))))"

definition timer_finish :: "int \<Rightarrow> unit timer_sx" where
  "timer_finish now = sx_bind (sx_get fst) (\<lambda>t.
     (case ti_started t of
        None \<Rightarrow> sx_raise (OtherError ''RuntimeError'')
      | Some started \<Rightarrow>
          if ti_finished t then sx_raise (OtherError ''RuntimeError'')
          else sx_bind (\<lambda>(t, m). (case record_event (ti_event t) (ti_outcome t) (ti_correlation t) (Some (Finite (max 0 (now - started)))) m
                          of (r, m') \<Rightarrow> (r, (t, m')))) (\<lambda>_.
                 sx_modify (\<lambda>(t, m). (t\<lparr>ti_finished := True\<rparr>, m)))))"

definition timer_exit :: "block_end \<Rightarrow> int \<Rightarrow> unit timer_sx" where
  "timer_exit b now =
     sx_bind (case b of Normal \<Rightarrow> sx_return () | Cancelled_Block \<Rightarrow> set_outcome OC_CANCELLED | Failed_Block \<Rightarrow> set_outcome OC_ERROR) (\<lambda>_.
       timer_finish now)"

section \<open>What the metrics count\<close>

text \<open>The history: every accepted observation, in the order of the calls.\<close>

type_synonym metric_call = "event_code \<times> outcome_code \<times> string \<times> duration option"

definition accepted_call :: "metric_call \<Rightarrow> bool" where
  "accepted_call c = (case c of (_, _, _, d) \<Rightarrow> (case d of None \<Rightarrow> True | Some (Finite n) \<Rightarrow> 0 \<le> n | Some Not_Finite \<Rightarrow> False))"

definition observation_of :: "metric_call \<Rightarrow> observation" where
  "observation_of c = (case c of (e, oc, cid, d) \<Rightarrow>
     \<lparr>ob_event = e, ob_outcome = oc, ob_correlation = cid, ob_duration = (case d of Some (Finite n) \<Rightarrow> Some n | _ \<Rightarrow> None)\<rparr>)"

definition observed_by :: "metric_call list \<Rightarrow> observation list" where
  "observed_by cs = map observation_of (filter accepted_call cs)"

definition record_call :: "metric_call \<Rightarrow> metrics \<Rightarrow> metrics" where
  "record_call c m = (case c of (e, oc, cid, d) \<Rightarrow> snd (record_event e oc cid d m))"

definition of_key :: "metric_key \<Rightarrow> observation list \<Rightarrow> observation list" where
  "of_key key os = filter (\<lambda>x. (ob_event x, ob_outcome x) = key) os"

definition duration_of :: "observation \<Rightarrow> int" where
  "duration_of x = (case ob_duration x of None \<Rightarrow> 0 | Some n \<Rightarrow> n)"

definition accounts :: "nat \<Rightarrow> observation list \<Rightarrow> metrics \<Rightarrow> bool" where
  "accounts limit os m \<longleftrightarrow> mt_limit m = limit \<and> mt_recent m = drop (length os - limit) os \<and>
     (\<forall>key. value_or 0 (mt_counters m) key = length (of_key key os)) \<and>
     (\<forall>key. value_or 0 (mt_durations m) key = sum_list (map duration_of (of_key key os)))"

lemma push_bounded_history: "push_bounded n x (drop (length os - n) os) = drop (length (os @ [x]) - n) (os @ [x])"
proof (cases "n \<le> length os")
  case True
  then show ?thesis by (cases n) (simp_all add: push_bounded_def Suc_diff_le Suc_diff_Suc)
next
  case False
  then show ?thesis by (simp add: push_bounded_def)
qed

lemma value_or_update: "value_or d (AList.update k v xs) k' = (if k' = k then v else value_or d xs k')"
  by (simp add: value_or_def update_conv')

lemma record_call_run:
  "record_call c m = (if accepted_call c then
     (let x = observation_of c; key = (ob_event x, ob_outcome x) in
      m\<lparr>mt_counters := AList.update key (value_or 0 (mt_counters m) key + 1) (mt_counters m),
        mt_durations := (case ob_duration x of None \<Rightarrow> mt_durations m
          | Some n \<Rightarrow> AList.update key (value_or 0 (mt_durations m) key + n) (mt_durations m)),
        mt_recent := push_bounded (mt_limit m) x (mt_recent m)\<rparr>) else m)"
  by (cases c) (auto simp: record_call_def record_event_def accepted_call_def observation_of_def sx_bind_app sx_modify_def Let_def
      split: option.splits duration.splits)

lemma record_call_accounts:
  assumes "accounts limit os m"
  shows "accounts limit (os @ observed_by [c]) (record_call c m)"
proof (cases "accepted_call c")
  case True
  with assms show ?thesis
    by (cases "ob_duration (observation_of c)")
      (auto simp: accounts_def record_call_run observed_by_def Let_def push_bounded_history[simplified] value_or_update of_key_def duration_of_def)
next
  case False
  with assms show ?thesis by (simp add: record_call_run observed_by_def)
qed

lemma record_calls_account: "accounts limit os m \<Longrightarrow> accounts limit (os @ observed_by cs) (fold record_call cs m)"
proof (induction cs arbitrary: os m)
  case (Cons c cs)
  have "observed_by (c # cs) = observed_by [c] @ observed_by cs" by (simp add: observed_by_def)
  with Cons.IH[OF record_call_accounts[OF Cons.prems]] show ?case by simp
qed (simp add: observed_by_def)

text \<open>The dimensions are fixed: there are at most 36 counters and totals, whatever is recorded.\<close>

lemma keys_bounded: "distinct (map fst (xs :: (metric_key \<times> 'v) list)) \<Longrightarrow> length xs \<le> 36"
proof -
  assume "distinct (map fst xs)"
  then have "length xs = card (set (map fst xs))" by (metis distinct_card length_map)
  also have "\<dots> \<le> card (UNIV :: metric_key set)" by (rule card_mono) simp_all
  also have "(UNIV :: metric_key set) = set (List.product event_codes outcome_codes)"
    using event_codes_complete outcome_codes_complete by auto
  also have "card (set (List.product event_codes outcome_codes)) \<le> 36"
    by (rule order_trans[OF card_length]) (simp add: event_codes_def outcome_codes_def)
  finally show ?thesis .
qed

lemma record_call_distinct:
  "distinct (map fst (mt_counters m)) \<and> distinct (map fst (mt_durations m)) \<Longrightarrow>
   distinct (map fst (mt_counters (record_call c m))) \<and> distinct (map fst (mt_durations (record_call c m)))"
  by (simp add: record_call_run Let_def distinct_update split: option.split)

lemma record_calls_distinct:
  "distinct (map fst (mt_counters m)) \<and> distinct (map fst (mt_durations m)) \<Longrightarrow>
   distinct (map fst (mt_counters (fold record_call cs m))) \<and> distinct (map fst (mt_durations (fold record_call cs m)))"
  by (induction cs arbitrary: m) (simp_all add: record_call_distinct)

text \<open>
  Whatever is recorded, the counter of an event and an outcome is the number of its observations, the total is the sum of their durations, the
  history is the latest observations, at most the configured number of them, that number is at most ten thousand, and there are at most 36 counters and totals.
\<close>

theorem metrics_exact_and_bounded:
  assumes "metrics_init limit = Inr m"
  shows "accounts (nat limit) (observed_by cs) (fold record_call cs m) \<and> length (mt_recent (fold record_call cs m)) \<le> 10000 \<and>
    length (mt_counters (fold record_call cs m)) \<le> 36 \<and> length (mt_durations (fold record_call cs m)) \<le> 36"
proof -
  from assms have "accounts (nat limit) [] m" "nat limit \<le> 10000"
    by (auto simp: metrics_init_def accounts_def value_or_def of_key_def split: if_splits)
  moreover have "distinct (map fst (mt_counters m)) \<and> distinct (map fst (mt_durations m))" using assms by (auto simp: metrics_init_def split: if_splits)
  ultimately show ?thesis using record_calls_account[of "nat limit" "[]" m cs] record_calls_distinct[of m cs]
      keys_bounded[of "mt_counters (fold record_call cs m)"] keys_bounded[of "mt_durations (fold record_call cs m)"]
    by (auto simp: accounts_def)
qed

theorem metrics_exact_and_bounded_witness:
  "\<exists>m. metrics_init 1 = Inr m \<and>
     accounts 1 (observed_by [(JIRA_CALL, OC_OK, ''c'', None), (JIRA_CALL, OC_OK, ''c'', Some Not_Finite)])
       (fold record_call [(JIRA_CALL, OC_OK, ''c'', None), (JIRA_CALL, OC_OK, ''c'', Some Not_Finite)] m)"
  using metrics_exact_and_bounded [of 1 _ "[(JIRA_CALL, OC_OK, ''c'', None), (JIRA_CALL, OC_OK, ''c'', Some Not_Finite)]"]
  by (simp add: metrics_init_def)

section \<open>A timer records once\<close>

datatype timer_call = Enter int | Exit block_end int | Outcome outcome_code

fun timer_step :: "timer_call \<Rightarrow> timer \<times> metrics \<Rightarrow> timer \<times> metrics" where
  "timer_step (Enter now) s = snd (timer_enter now s)"
| "timer_step (Exit b now) s = snd (timer_exit b now s)"
| "timer_step (Outcome oc) s = snd (set_outcome oc s)"

definition records :: "metrics \<Rightarrow> nat" where
  "records m = sum_list (map snd (mt_counters m))"

definition timer_accounts :: "nat \<Rightarrow> timer \<times> metrics \<Rightarrow> bool" where
  "timer_accounts n s \<longleftrightarrow> distinct (map fst (mt_counters (snd s))) \<and>
     records (snd s) = n + (if ti_finished (fst s) then 1 else 0) \<and> (ti_finished (fst s) \<longrightarrow> ti_started (fst s) \<noteq> None)"

lemma records_update:
  "distinct (map fst xs) \<Longrightarrow> sum_list (map snd (AList.update k (Suc (value_or 0 xs k)) xs)) = Suc (sum_list (map snd xs))"
  by (induction xs) (auto simp: value_or_def map_of_eq_None_iff split: option.splits)

lemma timer_enter_run: "snd (timer_enter now (t, m)) = (if ti_started t = None then (t\<lparr>ti_started := Some now\<rparr>, m) else (t, m))"
  by (simp add: timer_enter_def sx_bind_app sx_modify_def ensure_def)

lemma record_event_run:
  "0 \<le> n \<Longrightarrow> record_event e oc cid (Some (Finite n)) m = (Inr (), m\<lparr>mt_counters := AList.update (e, oc) (value_or 0 (mt_counters m) (e, oc) + 1)
     (mt_counters m), mt_durations := AList.update (e, oc) (value_or 0 (mt_durations m) (e, oc) + n) (mt_durations m),
     mt_recent := push_bounded (mt_limit m) \<lparr>ob_event = e, ob_outcome = oc, ob_correlation = cid, ob_duration = Some n\<rparr> (mt_recent m)\<rparr>)"
  by (simp add: record_event_def sx_bind_app sx_modify_def Let_def)

lemma timer_finish_accounts:
  assumes "timer_accounts n (t, m)"
  shows "timer_accounts n (snd (timer_finish now (t, m)))"
proof (cases "ti_started t = None \<or> ti_finished t")
  case True
  with assms show ?thesis by (auto simp: timer_finish_def sx_bind_app split: option.split)
next
  case False
  then obtain started where "ti_started t = Some started" "\<not> ti_finished t" by auto
  with assms show ?thesis
    by (simp add: timer_finish_def sx_bind_app record_event_run sx_modify_def timer_accounts_def records_def records_update distinct_update)
qed

lemma timer_step_accounts:
  assumes "timer_accounts n s"
  shows "timer_accounts n (timer_step c s)"
proof -
  obtain t m where s: "s = (t, m)" by (cases s)
  show ?thesis
  proof (cases c)
    case (Enter now)
    with assms s show ?thesis by (simp add: timer_enter_run timer_accounts_def)
  next
    case (Exit b now)
    have "timer_accounts n (t\<lparr>ti_outcome := oc\<rparr>, m)" for oc using assms s by (simp add: timer_accounts_def)
    from timer_finish_accounts[OF this] timer_finish_accounts[OF assms[unfolded s]] Exit s show ?thesis
      by (cases b) (simp_all add: timer_exit_def sx_bind_app set_outcome_def sx_modify_def)
  next
    case (Outcome oc)
    with assms s show ?thesis by (simp add: set_outcome_def sx_modify_def timer_accounts_def)
  qed
qed

text \<open>However a timer is entered, left and told its outcome, it records at most one observation, and none before it is left.\<close>

theorem timer_records_once:
  assumes "distinct (map fst (mt_counters m))"
  shows "records (snd (fold timer_step cs (new_timer e cid, m))) =
    records m + (if ti_finished (fst (fold timer_step cs (new_timer e cid, m))) then 1 else 0)"
proof -
  have "timer_accounts n (fold timer_step cs s)" if "timer_accounts n s" for n s
    using that by (induction cs arbitrary: s) (simp_all add: timer_step_accounts)
  moreover have "timer_accounts (records m) (new_timer e cid, m)" using assms by (simp add: timer_accounts_def new_timer_def)
  ultimately show ?thesis by (simp add: timer_accounts_def)
qed

end
