(* ===== verification/Workflow_Startup.thy ===== *)
theory Workflow_Startup
  imports Workflow_Sqlite Config
begin

text \<open>
  How \<open>SQLiteWorkflowRepository\<close> of \<open>src/src/dztgbot/infrastructure/persistence/workflow_sqlite.py\<close> is constructed and initialised: the
  check of the database path (on POSIX), the journal mode and the migrations.  What the environment says is in \<open>db_env\<close>: the lines of
  \<open>/proc/self/mounts\<close>, what stands at the path, the migration files, which scripts fail, the clock, and whether the parent directory can be made and the mode of the file changed.  The content of the schema is
  the list of the scripts that ran; what those scripts create is modelled in \<open>Workflow_Tables\<close>.
\<close>

section \<open>The path\<close>

definition DB_SYNCED_PATH_MARKERS :: "string list" where
  "DB_SYNCED_PATH_MARKERS = [''dropbox'', ''google drive'', ''googledrive'', ''icloud drive'', ''icloudrive'']"

definition NETWORK_FILESYSTEM_TYPES :: "string list" where
  "NETWORK_FILESYSTEM_TYPES =
     [''9p'', ''afs'', ''cifs'', ''davfs'', ''davfs2'', ''fuse.sshfs'', ''gcsfuse'', ''nfs'', ''nfs4'', ''smbfs'', ''sshfs'']"

definition is_synced_db_path :: "path \<Rightarrow> bool" where
  "is_synced_db_path p \<longleftrightarrow>
     list_ex (\<lambda>part. starts_with ''onedrive'' (py_casefold part) \<or> py_casefold part \<in> set DB_SYNCED_PATH_MARKERS) (path_parts p)"

text \<open>\<open>str.replace\<close> of a backslash and three digits.\<close>

fun replace_octal :: "char \<Rightarrow> char \<Rightarrow> char \<Rightarrow> char \<Rightarrow> string \<Rightarrow> string" where
  "replace_octal a b c r (w # x # y # z # s) =
     (if w = CHR 0x5C \<and> x = a \<and> y = b \<and> z = c then r # replace_octal a b c r s else w # replace_octal a b c r (x # y # z # s))"
| "replace_octal a b c r s = s"

definition unescape_proc_mount :: "string \<Rightarrow> string" where
  "unescape_proc_mount s =
     replace_octal (CHR ''1'') (CHR ''3'') (CHR ''4'') (CHR 0x5C)
       (replace_octal (CHR ''0'') (CHR ''1'') (CHR ''2'') (CHR 0x0A)
         (replace_octal (CHR ''0'') (CHR ''1'') (CHR ''1'') (CHR 0x09)
           (replace_octal (CHR ''0'') (CHR ''4'') (CHR ''0'') (CHR '' '') s)))"

fun fields_of :: "string \<Rightarrow> string \<Rightarrow> string list" where
  "fields_of w [] = (if w = [] then [] else [w])"
| "fields_of w (c # cs) = (if is_space c then (if w = [] then fields_of [] cs else w # fields_of [] cs) else fields_of (w @ [c]) cs)"

text \<open>One line of the mounts against the best match so far.\<close>

definition mount_step :: "string \<Rightarrow> string \<Rightarrow> string \<times> string option \<Rightarrow> string \<times> string option" where
  "mount_step resolved line best =
     (case fields_of [] line of
        _ # raw # kind # _ \<Rightarrow>
          (let stripped = rstrip_slash (unescape_proc_mount raw); mount_point = (if stripped = [] then ''/'' else stripped) in
           if (resolved = mount_point \<or> starts_with (rstrip_slash mount_point @ ''/'') resolved) \<and> length (fst best) < length mount_point
           then (mount_point, Some (py_casefold kind)) else best)
      | _ \<Rightarrow> best)"

definition posix_mount_type :: "string list option \<Rightarrow> string \<Rightarrow> string option" where
  "posix_mount_type mounts resolved =
     (case mounts of None \<Rightarrow> None | Some lines \<Rightarrow> snd (fold (mount_step resolved) lines ([], None)))"

text \<open>What stands at the path.\<close>

datatype db_node = DB_Absent | DB_Regular | DB_Symlink | DB_Other

record db_env =
  de_path :: path
  de_resolved :: string
  de_mounts :: "string list option"
  de_node :: db_node
  de_mkdir :: "exn + unit"
  de_wal :: bool
  de_journal :: "exn + string"
  de_migration :: "string \<Rightarrow> string option"
  de_sha :: "string \<Rightarrow> string"
  de_script_fails :: "string \<Rightarrow> bool"
  de_now :: datetime
  de_chmod_fails :: bool

definition database_path_is_local :: "db_env \<Rightarrow> bool" where
  "database_path_is_local env \<longleftrightarrow> is_absolute (de_path env) \<and> \<not> is_synced_db_path (de_path env) \<and>
     (case posix_mount_type (de_mounts env) (de_resolved env) of None \<Rightarrow> True | Some t \<Rightarrow> t \<notin> set NETWORK_FILESYSTEM_TYPES)"

definition prepare_database_path :: "db_env \<Rightarrow> exn + unit" where
  "prepare_database_path env =
     (if \<not> database_path_is_local env then Inl (RepositoryError WorkflowRepositoryError ''workflow_database_must_be_local'')
      else if de_node env = DB_Symlink then Inl (RepositoryError WorkflowRepositoryError ''workflow_database_symlink_refused'')
      else if de_node env = DB_Other then Inl (RepositoryError WorkflowRepositoryError ''workflow_database_not_regular'')
      else de_mkdir env)"

text \<open>The constructor, with the timeout in milliseconds.\<close>

definition repository_new :: "path \<Rightarrow> int \<Rightarrow> exn + unit" where
  "repository_new p timeout_ms =
     (if \<not> is_absolute p then Inl (ValueError ''workflow database path must be absolute'')
      else if timeout_ms < 50 \<or> 30000 < timeout_ms then Inl (ValueError ''busy timeout must be between 0.05 and 30 seconds'')
      else Inr ())"

text \<open>
  Of two entries with the same mount point the first one counts, although the second one is mounted over it: a share mounted by
  \<open>autofs\<close> is taken for a local file system.
\<close>

lemma automounted_share_is_local:
  "posix_mount_type (Some [''none / ext4'', ''none /d autofs'', ''h:/d /d nfs4'']) ''/d/w'' = Some ''autofs'' \<and>
   posix_mount_type (Some [''none / ext4'', ''h:/d /d nfs4'']) ''/d/w'' = Some ''nfs4''"
  by (simp add: posix_mount_type_def mount_step_def is_space_def unescape_proc_mount_def rstrip_slash_def starts_with_def
      py_casefold_def fold_char_def)

section \<open>Migrations\<close>

record migration_row =
  mi_version :: int
  mi_name :: string
  mi_checksum :: string
  mi_applied_at :: datetime

text \<open>The schema: the version SQLite reports, the table of the migrations, and the scripts that ran.\<close>

record schema =
  sc_user_version :: int
  sc_history :: "migration_row list"
  sc_scripts :: "string list"

definition LATEST_SCHEMA_VERSION :: int where
  "LATEST_SCHEMA_VERSION = 4"

definition MIGRATIONS :: "(int \<times> string) list" where
  "MIGRATIONS = [(1, ''001_initial.sql''), (2, ''002_indexes.sql''), (3, ''003_card_tracker.sql''), (4, ''004_notifications.sql'')]"

definition mi_check :: "migration_row \<Rightarrow> bool" where
  "mi_check r \<longleftrightarrow> 0 < mi_version r \<and> length (mi_checksum r) = 64"

definition mi_clash :: "migration_row \<Rightarrow> migration_row \<Rightarrow> bool" where
  "mi_clash x y \<longleftrightarrow> mi_version x = mi_version y \<or> mi_name x = mi_name y"

text \<open>One transaction: the script, its row and the version; a failure of one rolls back all of them.\<close>

definition run_migration :: "db_env \<Rightarrow> int \<Rightarrow> string \<Rightarrow> string \<Rightarrow> (schema, exn, unit) sx" where
  "run_migration env v name sql = (\<lambda>s.
     if de_script_fails env name then (Inl (OtherError ''OperationalError''), s)
     else (case rbind (to_db_datetime (de_now env)) (\<lambda>at. sql_insert mi_check mi_clash
             \<lparr>mi_version = v, mi_name = name, mi_checksum = de_sha env sql, mi_applied_at = at\<rparr> (sc_history s)) of
         Inl e \<Rightarrow> (Inl e, s)
       | Inr rows \<Rightarrow> (Inr (), s\<lparr>sc_history := rows, sc_scripts := sc_scripts s @ [sql], sc_user_version := v\<rparr>)))"

definition apply_migration :: "db_env \<Rightarrow> migration_row list \<Rightarrow> int \<times> string \<Rightarrow> (schema, exn, unit) sx" where
  "apply_migration env applied m = (case m of (v, name) \<Rightarrow>
     (case de_migration env name of
        None \<Rightarrow> sx_raise (RepositoryError MigrationError ''workflow_migration_missing'')
      | Some sql \<Rightarrow>
          (case find_row mi_version v applied of
             Some r \<Rightarrow>
               if mi_name r \<noteq> name \<or> mi_checksum r \<noteq> de_sha env sql
               then sx_raise (RepositoryError MigrationError ''workflow_migration_checksum_mismatch'') else sx_return ()
           | None \<Rightarrow> run_migration env v name sql)))"

definition apply_migrations :: "db_env \<Rightarrow> (schema, exn, unit) sx" where
  "apply_migrations env =
     sx_bind (sx_get sc_user_version) (\<lambda>reported.
     sx_bind (sx_ensure (reported \<le> LATEST_SCHEMA_VERSION) (RepositoryError MigrationError ''workflow_schema_version_unknown'')) (\<lambda>_.
     sx_bind (sx_get sc_history) (\<lambda>applied.
     sx_bind (sx_ensure (set (map mi_version applied) \<subseteq> set (map fst MIGRATIONS))
       (RepositoryError MigrationError ''workflow_schema_version_unknown'')) (\<lambda>_.
     sx_bind (sx_each (apply_migration env applied) MIGRATIONS) (\<lambda>_.
     sx_bind (sx_get sc_history) (\<lambda>rows.
     sx_bind (sx_ensure (sort (map mi_version rows) = [1..LATEST_SCHEMA_VERSION])
       (RepositoryError MigrationError ''workflow_schema_history_incomplete'')) (\<lambda>_.
     sx_bind (sx_get sc_user_version) (\<lambda>final.
       sx_ensure (final = LATEST_SCHEMA_VERSION) (RepositoryError MigrationError ''workflow_schema_version_mismatch'')))))))))"

text \<open>\<open>initialize\<close>: an SQLite error becomes a repository error; the flag says whether the repository may be used.\<close>

definition initialize_sync :: "db_env \<Rightarrow> (schema, exn, unit) sx" where
  "initialize_sync env =
     sx_bind (sx_lift (prepare_database_path env)) (\<lambda>_.
     sx_bind (sx_lift (de_journal env)) (\<lambda>mode.
     sx_bind (sx_ensure (py_casefold mode = py_casefold (if de_wal env then ''WAL'' else ''DELETE''))
       (RepositoryError WorkflowRepositoryError ''workflow_journal_mode_unavailable'')) (\<lambda>_.
     sx_bind (apply_migrations env) (\<lambda>_.
       sx_ensure (\<not> de_chmod_fails env) (RepositoryError WorkflowRepositoryError ''workflow_database_permissions_failed'')))))"

definition initialize :: "db_env \<Rightarrow> schema \<times> repo \<Rightarrow> (exn + unit) \<times> (schema \<times> repo)" where
  "initialize env w =
     (case initialize_sync env (fst w) of
        (Inr _, s) \<Rightarrow> (Inr (), (s, (snd w)\<lparr>rp_initialized := True\<rparr>))
      | (Inl e, s) \<Rightarrow>
          (Inl (case e of
             IntegrityError \<Rightarrow> RepositoryError WorkflowRepositoryError ''workflow_repository_initialize_failed''
           | OtherError _ \<Rightarrow> RepositoryError WorkflowRepositoryError ''workflow_repository_initialize_failed''
           | _ \<Rightarrow> e), (s, snd w)))"

section \<open>Connections and what they report\<close>

text \<open>Every operation opens a connection of its own and sets it up; the transactions are begun by hand.\<close>

record db_connection =
  dc_foreign_keys :: bool
  dc_busy_timeout :: int
  dc_trusted_schema :: bool
  dc_full_sync :: bool
  dc_in_transaction :: bool

definition connect_db :: "int \<Rightarrow> db_connection" where
  "connect_db timeout_ms =
     \<lparr>dc_foreign_keys = True, dc_busy_timeout = timeout_ms, dc_trusted_schema = False, dc_full_sync = True, dc_in_transaction = False\<rparr>"

definition begin_db :: "db_connection \<Rightarrow> exn + db_connection" where
  "begin_db c = (if dc_in_transaction c then Inl (OtherError ''OperationalError'') else Inr (c\<lparr>dc_in_transaction := True\<rparr>))"

definition rollback_db :: "db_connection \<Rightarrow> db_connection" where
  "rollback_db c = (if dc_in_transaction c then c\<lparr>dc_in_transaction := False\<rparr> else c)"

definition when_initialized :: "schema \<times> repo \<Rightarrow> 'a \<Rightarrow> exn + 'a" where
  "when_initialized w x =
     (if rp_initialized (snd w) then Inr x else Inl (RepositoryError WorkflowRepositoryError ''workflow_repository_not_initialized''))"

definition schema_version :: "schema \<times> repo \<Rightarrow> exn + int" where
  "schema_version w = when_initialized w (sc_user_version (fst w))"

definition journal_mode :: "string \<Rightarrow> schema \<times> repo \<Rightarrow> exn + string" where
  "journal_mode mode w = when_initialized w (py_casefold mode)"

definition foreign_keys_enabled :: "int \<Rightarrow> schema \<times> repo \<Rightarrow> exn + bool" where
  "foreign_keys_enabled timeout_ms w = when_initialized w (dc_foreign_keys (connect_db timeout_ms))"

definition busy_timeout_milliseconds :: "int \<Rightarrow> schema \<times> repo \<Rightarrow> exn + int" where
  "busy_timeout_milliseconds timeout_ms w = when_initialized w (dc_busy_timeout (connect_db timeout_ms))"

lemma rollback_ends: "\<not> dc_in_transaction (rollback_db c)"
  by (simp add: rollback_db_def)

section \<open>The schema is always a prefix of the migrations\<close>

text \<open>
  The schema at version \<open>n\<close>: SQLite reports it, the table lists the first \<open>n\<close> migrations, and the scripts that ran have the recorded
  checksums.  Which files the program finds now does not matter.
\<close>

definition whole_version :: "(string \<Rightarrow> string) \<Rightarrow> nat \<Rightarrow> schema \<Rightarrow> bool" where
  "whole_version sha n s \<longleftrightarrow> n \<le> length MIGRATIONS \<and> sc_user_version s = int n \<and>
     map (\<lambda>r. (mi_version r, mi_name r)) (sc_history s) = take n MIGRATIONS \<and>
     map mi_checksum (sc_history s) = map sha (sc_scripts s)"

text \<open>The file of a recorded migration is there with the recorded checksum.\<close>

definition row_matches :: "db_env \<Rightarrow> migration_row \<Rightarrow> bool" where
  "row_matches env r \<longleftrightarrow> map_option (de_sha env) (de_migration env (mi_name r)) = Some (mi_checksum r)"

abbreviation files_match :: "db_env \<Rightarrow> schema \<Rightarrow> bool" where
  "files_match env s \<equiv> list_all (row_matches env) (sc_history s)"

text \<open>A healthy environment: every file is there, no script fails, a checksum has 64 characters and the clock is in UTC.\<close>

definition migrations_healthy :: "db_env \<Rightarrow> bool" where
  "migrations_healthy env \<longleftrightarrow> list_all (\<lambda>m. de_migration env (snd m) \<noteq> None \<and> \<not> de_script_fails env (snd m)) MIGRATIONS \<and>
     (\<forall>sql. length (de_sha env sql) = 64) \<and> \<not> isl (to_db_datetime (de_now env))"

lemma migration_version: "j < length MIGRATIONS \<Longrightarrow> fst (MIGRATIONS ! j) = int j + 1"
  by (auto simp: MIGRATIONS_def less_Suc_eq nth_Cons')

lemma migration_versions: "map fst (take n MIGRATIONS) = map (\<lambda>j. int j + 1) [0..<min n (length MIGRATIONS)]"
  by (rule nth_equalityI) (auto simp: migration_version min.commute)

lemma history_pairs:
  assumes "whole_version sha n s"
  shows "map mi_version (sc_history s) = map fst (take n MIGRATIONS)" "map mi_name (sc_history s) = map snd (take n MIGRATIONS)"
proof -
  have "map fst (map (\<lambda>r. (mi_version r, mi_name r)) (sc_history s)) = map fst (take n MIGRATIONS)"
    "map snd (map (\<lambda>r. (mi_version r, mi_name r)) (sc_history s)) = map snd (take n MIGRATIONS)"
    using assms by (simp_all only: whole_version_def)
  then show "map mi_version (sc_history s) = map fst (take n MIGRATIONS)" "map mi_name (sc_history s) = map snd (take n MIGRATIONS)"
    by (simp_all add: comp_def)
qed

lemma history_versions:
  assumes "whole_version sha n s"
  shows "map mi_version (sc_history s) = map (\<lambda>j. int j + 1) [0..<n]"
  using assms history_pairs(1)[OF assms] by (simp add: migration_versions whole_version_def)

lemma history_length: "whole_version sha n s \<Longrightarrow> length (sc_history s) = n"
  by (metis history_versions length_map length_upt diff_zero)

lemma history_row:
  assumes "whole_version sha n s" and "j < n"
  shows "find_row mi_version (int j + 1) (sc_history s) = Some (sc_history s ! j) \<and> mi_name (sc_history s ! j) = snd (MIGRATIONS ! j)"
proof -
  let ?r = "sc_history s ! j"
  note len = history_length[OF assms(1)]
  have "map mi_version (sc_history s) ! j = map (\<lambda>j. int j + 1) [0..<n] ! j" "map mi_name (sc_history s) ! j = map snd (take n MIGRATIONS) ! j"
    using history_versions[OF assms(1)] history_pairs(2)[OF assms(1)] by simp_all
  then have row: "mi_version ?r = int j + 1" "mi_name ?r = snd (MIGRATIONS ! j)"
    using assms len by (simp_all add: whole_version_def)
  have "distinct (map mi_version (sc_history s))" unfolding history_versions[OF assms(1)] by (simp add: distinct_map inj_on_def)
  from find_row_unique[OF this, of ?r] len assms have "find_row mi_version (mi_version ?r) (sc_history s) = Some ?r" by simp
  then show ?thesis using row by simp
qed

lemma history_none:
  assumes "whole_version sha n s" and "n \<le> j"
  shows "find_row mi_version (int j + 1) (sc_history s) = None"
proof -
  have "mi_version ` set (sc_history s) = (\<lambda>j. int j + 1) ` {0..<n}"
    using arg_cong[OF history_versions[OF assms(1)], of set] by simp
  with assms(2) show ?thesis by (auto simp: find_row_None)
qed

text \<open>A recorded migration is skipped, or refused when its file is missing or changed.\<close>

lemma migration_old:
  assumes "whole_version sha n s" and "j < n"
  obtains "row_matches env (sc_history s ! j)" and "apply_migration env (sc_history s) (MIGRATIONS ! j) t = (Inr (), t)"
  | e where "\<not> row_matches env (sc_history s ! j)" and "apply_migration env (sc_history s) (MIGRATIONS ! j) t = (Inl e, t)"
proof -
  obtain v name where m: "MIGRATIONS ! j = (v, name)" by fastforce
  from assms have "j < length MIGRATIONS" by (simp add: whole_version_def)
  with migration_version[of j] m history_row[OF assms]
  have f: "find_row mi_version v (sc_history s) = Some (sc_history s ! j)" "mi_name (sc_history s ! j) = name" by simp_all
  show thesis
  proof (cases "row_matches env (sc_history s ! j)")
    case True
    with f m have "apply_migration env (sc_history s) (MIGRATIONS ! j) t = (Inr (), t)"
      by (auto simp: apply_migration_def row_matches_def)
    with True that(1) show thesis by blast
  next
    case False
    with f m have "\<exists>e. apply_migration env (sc_history s) (MIGRATIONS ! j) t = (Inl e, t)"
      by (cases "de_migration env name") (auto simp: apply_migration_def row_matches_def)
    with False that(2) show thesis by blast
  qed
qed

text \<open>A new migration is applied as a whole, or changes nothing.\<close>

lemma migration_applied:
  assumes old: "whole_version (de_sha env) n s" and "n \<le> j" and "j < length MIGRATIONS" and now: "whole_version (de_sha env) j t"
    and run: "apply_migration env (sc_history s) (MIGRATIONS ! j) t = (r, t')"
  shows "r = Inr () \<and> whole_version (de_sha env) (Suc j) t' \<and>
      (\<exists>row sql. row_matches env row \<and> sc_history t' = sc_history t @ [row] \<and> sc_scripts t' = sc_scripts t @ [sql]) \<or> isl r \<and> t' = t"
proof -
  obtain v name where m: "MIGRATIONS ! j = (v, name)" by fastforce
  with migration_version[OF assms(3)] have v: "v = int j + 1" by simp
  have take: "take (Suc j) MIGRATIONS = take j MIGRATIONS @ [(v, name)]" using assms(3) m by (simp add: take_Suc_conv_app_nth)
  from run history_none[OF old assms(2)] m v show ?thesis
    using now take assms(3)
    by (auto simp: apply_migration_def run_migration_def whole_version_def row_matches_def rbind_eq_Inr sql_insert_Inr
        split: option.splits if_splits sum.splits)
qed

lemma migration_succeeds:
  assumes healthy: "migrations_healthy env" and "whole_version sha n s" and "n \<le> j" and j: "j < length MIGRATIONS" and now: "whole_version sha j t"
  shows "fst (apply_migration env (sc_history s) (MIGRATIONS ! j) t) = Inr ()"
proof -
  obtain v name where m: "MIGRATIONS ! j = (v, name)" by fastforce
  with migration_version[OF j] have v: "v = int j + 1" by simp
  have names: "name \<notin> set (map mi_name (sc_history t))"
  proof -
    have "distinct (map snd MIGRATIONS)" by (simp add: MIGRATIONS_def)
    moreover have "map snd MIGRATIONS = map snd (take j MIGRATIONS) @ name # map snd (drop (Suc j) MIGRATIONS)"
      using id_take_nth_drop[OF j] m by (metis list.simps(9) map_append snd_conv)
    ultimately show ?thesis unfolding history_pairs(2)[OF now] by (metis distinct_append not_distinct_conv_prefix)
  qed
  moreover have "v \<notin> set (map mi_version (sc_history t))" unfolding history_versions[OF now] v by auto
  ultimately have "\<forall>x \<in> set (sc_history t). mi_version x \<noteq> v \<and> mi_name x \<noteq> name" by auto
  moreover from healthy nth_mem[OF j] m have "\<exists>sql. de_migration env name = Some sql" "\<not> de_script_fails env name"
    by (auto simp: migrations_healthy_def list_all_iff)
  moreover from healthy obtain now where "to_db_datetime (de_now env) = Inr now"
    unfolding migrations_healthy_def isl_def by (meson sum.exhaust)
  ultimately show ?thesis using healthy history_none[OF assms(2,3)] m v
    by (auto simp del: to_db_datetime_Inr simp: apply_migration_def run_migration_def sql_insert_def mi_check_def mi_clash_def list_all_iff migrations_healthy_def)
qed

text \<open>What the loop from migration \<open>k\<close> on leaves, of a schema that was at version \<open>n\<close> and is now \<open>t\<close>.\<close>

definition migrated :: "db_env \<Rightarrow> nat \<Rightarrow> schema \<Rightarrow> nat \<Rightarrow> schema \<Rightarrow> exn + unit \<Rightarrow> schema \<Rightarrow> bool" where
  "migrated env n s k t r t' \<longleftrightarrow>
     (\<exists>m hs ss. max n k \<le> m \<and> whole_version (de_sha env) m t' \<and> sc_history t' = sc_history t @ hs \<and> sc_scripts t' = sc_scripts t @ ss \<and>
        list_all (row_matches env) hs \<and>
        (\<not> isl r \<longrightarrow> m = length MIGRATIONS \<and> list_all (row_matches env) (drop k (sc_history s))) \<and>
        (migrations_healthy env \<and> list_all (row_matches env) (drop k (sc_history s)) \<longrightarrow> \<not> isl r))"

lemma migrations_run:
  assumes old: "whole_version (de_sha env) n s" and "k \<le> length MIGRATIONS" and "whole_version (de_sha env) (max n k) t"
    and "sx_each (apply_migration env (sc_history s)) (drop k MIGRATIONS) t = (r, t')"
  shows "migrated env n s k t r t'"
  using assms(2-4)
proof (induction "length MIGRATIONS - k" arbitrary: k t)
  case 0
  then have "r = Inr ()" "t' = t" "n \<le> k" "k = length MIGRATIONS" using old by (simp_all add: whole_version_def)
  with 0 history_length[OF old] show ?case by (auto simp: migrated_def max_def intro!: exI[of _ k])
next
  case (Suc x)
  then have k: "k < length MIGRATIONS" and x: "x = length MIGRATIONS - Suc k" by simp_all
  then have step: "sx_bind (apply_migration env (sc_history s) (MIGRATIONS ! k))
      (\<lambda>_. sx_each (apply_migration env (sc_history s)) (drop (Suc k) MIGRATIONS)) t = (r, t')"
    using Suc.prems(3) by (simp add: Cons_nth_drop_Suc[symmetric])
  show ?case
  proof (cases "k < n")
    case True
    then have max: "max n (Suc k) = max n k" by simp
    have drop: "drop k (sc_history s) = sc_history s ! k # drop (Suc k) (sc_history s)"
      using True history_length[OF old] by (simp add: Cons_nth_drop_Suc)
    show ?thesis
    proof (cases rule: migration_old[OF old True, of env t])
      case 1
      with step have "sx_each (apply_migration env (sc_history s)) (drop (Suc k) MIGRATIONS) t = (r, t')" by (simp add: sx_bind_app)
      with Suc.hyps(1)[OF x, of t] Suc.prems(2) k max have "migrated env n s (Suc k) t r t'" by simp
      with 1 drop max show ?thesis by (simp add: migrated_def)
    next
      case (2 e)
      with step have "r = Inl e" "t' = t" by (simp_all add: sx_bind_def)
      with 2 drop Suc.prems(2) show ?thesis by (auto simp: migrated_def intro!: exI[of _ "max n k"])
    qed
  next
    case False
    then have gone: "drop k (sc_history s) = []" "drop (Suc k) (sc_history s) = []" using history_length[OF old] by simp_all
    obtain r1 t1 where one: "apply_migration env (sc_history s) (MIGRATIONS ! k) t = (r1, t1)" by fastforce
    from False Suc.prems(2) have now: "whole_version (de_sha env) k t" by (simp add: max_def split: if_splits)
    from False have nk: "n \<le> k" by simp
    from migration_applied[OF old nk k now one] show ?thesis
    proof (elim disjE conjE exE)
      fix row sql assume ok: "r1 = Inr ()" "whole_version (de_sha env) (Suc k) t1" "row_matches env row"
        "sc_history t1 = sc_history t @ [row]" "sc_scripts t1 = sc_scripts t @ [sql]"
      with step one have rest: "sx_each (apply_migration env (sc_history s)) (drop (Suc k) MIGRATIONS) t1 = (r, t')" by (simp add: sx_bind_app)
      have max: "max n (Suc k) = Suc k" "max n k = k" using False by simp_all
      from Suc.hyps(1)[OF x _ _ rest] ok(2) k max have "migrated env n s (Suc k) t1 r t'" by simp
      then obtain m hs ss where "Suc k \<le> m" "whole_version (de_sha env) m t'" "sc_history t' = sc_history t @ row # hs"
        "sc_scripts t' = sc_scripts t @ sql # ss" "list_all (row_matches env) hs" "\<not> isl r \<longrightarrow> m = length MIGRATIONS"
        "migrations_healthy env \<longrightarrow> \<not> isl r"
        unfolding migrated_def max gone using ok(4,5) by auto
      with ok(3) max gone show ?thesis
        unfolding migrated_def by (intro exI[of _ m] exI[of _ "row # hs"] exI[of _ "sql # ss"]) simp
    next
      assume "isl r1" "t1 = t"
      with step one have "isl r" "t' = t" by (auto simp: sx_bind_def split: sum.splits)
      moreover have "\<not> migrations_healthy env"
        using migration_succeeds[OF _ old nk k now, of env] one \<open>isl r1\<close> by (cases r1) auto
      ultimately show ?thesis using Suc.prems(2) by (auto simp: migrated_def intro!: exI[of _ "max n k"])
    qed
  qed
qed

lemma apply_migrations_run:
  assumes "whole_version (de_sha env) n s" and "apply_migrations env s = (r, s')"
  shows "migrated env n s 0 s r s'"
proof -
  have four: "length MIGRATIONS = 4" by (simp add: MIGRATIONS_def)
  have known: "sc_user_version s \<le> LATEST_SCHEMA_VERSION" "set (map mi_version (sc_history s)) \<subseteq> set (map fst MIGRATIONS)"
  proof -
    show "sc_user_version s \<le> LATEST_SCHEMA_VERSION" using assms(1) four by (simp add: whole_version_def LATEST_SCHEMA_VERSION_def)
    show "set (map mi_version (sc_history s)) \<subseteq> set (map fst MIGRATIONS)"
      unfolding history_pairs(1)[OF assms(1)] by (simp add: image_mono set_take_subset)
  qed
  obtain r1 s1 where each: "sx_each (apply_migration env (sc_history s)) MIGRATIONS s = (r1, s1)" by fastforce
  from migrations_run[OF assms(1), of 0 s r1 s1] assms(1) each have m: "migrated env n s 0 s r1 s1" by simp
  show ?thesis
  proof (cases r1)
    case (Inl e)
    with assms(2) each known have "r = Inl e" "s' = s1" by (simp_all add: apply_migrations_def sx_bind_app)
    with m Inl show ?thesis by simp
  next
    case (Inr u)
    with m have all: "whole_version (de_sha env) (length MIGRATIONS) s1" by (auto simp: migrated_def)
    have "sort (map mi_version (sc_history s1)) = [1..LATEST_SCHEMA_VERSION]" "sc_user_version s1 = LATEST_SCHEMA_VERSION"
      using history_versions[OF all] all four by (simp_all add: LATEST_SCHEMA_VERSION_def whole_version_def upt_rec upto_rec1)
    with assms(2) each known Inr have "r = Inr ()" "s' = s1" by (simp_all add: apply_migrations_def sx_bind_app)
    with m Inr show ?thesis by simp
  qed
qed

text \<open>What an initialisation needs besides the migrations, before them and after them.\<close>

definition journal_ok :: "db_env \<Rightarrow> bool" where
  "journal_ok env \<longleftrightarrow> (case de_journal env of Inl _ \<Rightarrow> False | Inr mode \<Rightarrow> py_casefold mode = py_casefold (if de_wal env then ''WAL'' else ''DELETE''))"

lemma initialize_sync_cases:
  assumes "initialize_sync env s = (r, s')"
  obtains "isl r" and "s' = s" and "prepare_database_path env \<noteq> Inr () \<or> \<not> journal_ok env"
  | r1 where "prepare_database_path env = Inr ()" and "journal_ok env" and "apply_migrations env s = (r1, s')"
      and "isl r \<longleftrightarrow> isl r1 \<or> de_chmod_fails env"
proof (cases "prepare_database_path env = Inr () \<and> journal_ok env")
  case True
  then obtain mode where "prepare_database_path env = Inr ()" "de_journal env = Inr mode"
      "py_casefold mode = py_casefold (if de_wal env then ''WAL'' else ''DELETE'')"
    by (auto simp: journal_ok_def split: sum.splits)
  then have "initialize_sync env s = sx_bind (apply_migrations env) (\<lambda>_.
       sx_ensure (\<not> de_chmod_fails env) (RepositoryError WorkflowRepositoryError ''workflow_database_permissions_failed'')) s"
    by (simp add: initialize_sync_def)
  with assms have "\<exists>r1. apply_migrations env s = (r1, s') \<and> (isl r \<longleftrightarrow> isl r1 \<or> de_chmod_fails env)"
    by (auto simp: sx_bind_def sx_ensure_def ensure_def split: prod.splits sum.splits if_splits)
  with True that(2) show thesis by blast
next
  case False
  then have "isl r" "s' = s"
    using assms by (cases "prepare_database_path env"; cases "de_journal env"; auto simp: initialize_sync_def journal_ok_def sx_bind_def)+
  with False that(1) show thesis by blast
qed

text \<open>
  C34. Initialising the workflow database only ever leaves a whole version of the schema: starting from version \<open>n\<close>, and whatever
  path, journal, file, script or permission fails, the schema is afterwards at some version from \<open>n\<close> on, the recorded history and the
  scripts that ran were only extended, and the repository becomes usable exactly by a success.  A success means the latest version, with
  every recorded migration's file present and unchanged; and when those files are unchanged and nothing fails, it is a success.
\<close>

theorem migrations_whole_versions:
  assumes "whole_version (de_sha env) n (fst w)" and "initialize env w = (r, w')"
  shows "\<exists>m hs ss. n \<le> m \<and> whole_version (de_sha env) m (fst w') \<and>
    sc_history (fst w') = sc_history (fst w) @ hs \<and> sc_scripts (fst w') = sc_scripts (fst w) @ ss \<and>
    rp_initialized (snd w') = (rp_initialized (snd w) \<or> r = Inr ()) \<and>
    (r = Inr () \<longrightarrow> m = length MIGRATIONS \<and> files_match env (fst w')) \<and>
    (prepare_database_path env = Inr () \<and> journal_ok env \<and> migrations_healthy env \<and> files_match env (fst w) \<and> \<not> de_chmod_fails env \<longrightarrow>
       r = Inr ())"
proof -
  obtain r0 s' where run: "initialize_sync env (fst w) = (r0, s')" by fastforce
  with assms(2) have w': "fst w' = s'" "rp_initialized (snd w') = (rp_initialized (snd w) \<or> r = Inr ())" "r = Inr () \<longleftrightarrow> \<not> isl r0"
    by (auto simp: initialize_def split: sum.splits)
  show ?thesis
  proof (cases rule: initialize_sync_cases[OF run])
    case 1
    with assms(1) w' show ?thesis by auto
  next
    case (2 r1)
    from apply_migrations_run[OF assms(1) 2(3)] obtain m hs ss where
      "n \<le> m" "whole_version (de_sha env) m s'" "sc_history s' = sc_history (fst w) @ hs" "sc_scripts s' = sc_scripts (fst w) @ ss"
      "list_all (row_matches env) hs" "\<not> isl r1 \<longrightarrow> m = length MIGRATIONS \<and> files_match env (fst w)"
      "migrations_healthy env \<and> files_match env (fst w) \<longrightarrow> \<not> isl r1"
      by (auto simp: migrated_def)
    with 2(4) w' show ?thesis by (intro exI[of _ m] exI[of _ hs] exI[of _ ss]) auto
  qed
qed

definition sample_sha :: "string \<Rightarrow> string" where
  "sample_sha sql = replicate 64 (CHR ''a'')"

definition fresh_schema :: schema where
  "fresh_schema = \<lparr>sc_user_version = 0, sc_history = [], sc_scripts = []\<rparr>"

definition sample_db_env :: "(string \<Rightarrow> bool) \<Rightarrow> db_env" where
  "sample_db_env fails = \<lparr>de_path = parse_path ''/data/workflow.sqlite3'', de_resolved = ''/data/workflow.sqlite3'',
     de_mounts = Some [''/dev/sda1 / ext4 rw 0 0'', ''host:/x /mnt/share nfs4 rw 0 0''], de_node = DB_Absent, de_mkdir = Inr (), de_wal = True,
     de_journal = Inr ''wal'', de_migration = Some, de_sha = sample_sha, de_script_fails = fails, de_now = Aware 0, de_chmod_fails = False\<rparr>"

abbreviation "idle_repo \<equiv> \<lparr>rp_db = empty_db, rp_initialized = False\<rparr>"

lemma fresh_schema_version: "whole_version sha 0 fresh_schema"
  by (simp add: whole_version_def fresh_schema_def)

lemma sample_env_path: "prepare_database_path (sample_db_env fails) = Inr ()"
  by code_simp

lemma sample_env_journal: "journal_ok (sample_db_env fails)"
  by code_simp

text \<open>The third script fails: the schema stays at a whole version.  No script fails: the repository is usable.\<close>

theorem migrations_whole_versions_witness:
  "(\<exists>m. whole_version sample_sha m (fst (snd (initialize (sample_db_env (\<lambda>name. name = ''003_card_tracker.sql'')) (fresh_schema, idle_repo))))) \<and>
   fst (initialize (sample_db_env (\<lambda>_. False)) (fresh_schema, idle_repo)) = Inr ()"
proof -
  have sha: "de_sha (sample_db_env f) = sample_sha" for f by (simp add: sample_db_env_def)
  have start: "whole_version (de_sha env) 0 (fst (fresh_schema, idle_repo))" for env by (simp add: fresh_schema_version)
  have "migrations_healthy (sample_db_env (\<lambda>_. False))" "\<not> de_chmod_fails (sample_db_env (\<lambda>_. False))" "files_match (sample_db_env (\<lambda>_. False)) fresh_schema"
    by (simp_all add: sample_db_env_def migrations_healthy_def MIGRATIONS_def sample_sha_def to_db_datetime_def fresh_schema_def)
  with migrations_whole_versions [OF start surjective_pairing, of "sample_db_env (\<lambda>_. False)"] sample_env_path sample_env_journal
  have "fst (initialize (sample_db_env (\<lambda>_. False)) (fresh_schema, idle_repo)) = Inr ()" by auto
  moreover have "\<exists>m. whole_version sample_sha m (fst (snd (initialize (sample_db_env (\<lambda>name. name = ''003_card_tracker.sql'')) (fresh_schema, idle_repo))))"
    using migrations_whole_versions [OF start surjective_pairing, of "sample_db_env (\<lambda>name. name = ''003_card_tracker.sql'')"]
    unfolding sha by blast
  ultimately show ?thesis by blast
qed

section \<open>A database that was refused\<close>

text \<open>The repository is usable only after an initialisation that found a local regular file and brought it to the latest version.\<close>

lemma apply_migrations_latest: "apply_migrations env s = (Inr (), s') \<Longrightarrow> sc_user_version s' = LATEST_SCHEMA_VERSION"
  by (auto simp: apply_migrations_def sx_bind_def sx_ensure_def sx_get_def split: sum.splits if_splits prod.splits)

theorem initialized_only_when_local:
  assumes "initialize env (s, rp) = (r, (s', rp'))" and "\<not> rp_initialized rp" and "rp_initialized rp'"
  shows "r = Inr () \<and> database_path_is_local env \<and> de_node env \<in> {DB_Absent, DB_Regular} \<and> sc_user_version s' = LATEST_SCHEMA_VERSION"
proof -
  from assms have r: "r = Inr ()" and run: "initialize_sync env s = (Inr (), s')"
    by (auto simp: initialize_def split: prod.splits sum.splits)
  from run have "prepare_database_path env = Inr ()" by (auto simp: initialize_sync_def sx_bind_def sx_lift_def split: sum.splits)
  then have "database_path_is_local env" "de_node env \<in> {DB_Absent, DB_Regular}"
    by (cases "de_node env"; auto simp: prepare_database_path_def split: if_splits)+
  moreover from run have "apply_migrations env s = (Inr (), s')"
    by (auto simp: initialize_sync_def sx_bind_def sx_lift_def sx_ensure_def split: sum.splits if_splits prod.splits)
  ultimately show ?thesis using r apply_migrations_latest by blast
qed

lemma initialized_reports_latest:
  assumes "initialize env (s, rp) = (Inr (), w)"
  shows "schema_version w = Inr LATEST_SCHEMA_VERSION \<and> foreign_keys_enabled timeout_ms w = Inr True"
proof -
  from assms have run: "initialize_sync env s = (Inr (), fst w)" and rp: "rp_initialized (snd w)"
    by (auto simp: initialize_def split: prod.splits sum.splits)
  from run have "apply_migrations env s = (Inr (), fst w)"
    by (auto simp: initialize_sync_def sx_bind_def sx_lift_def sx_ensure_def split: sum.splits if_splits prod.splits)
  with rp apply_migrations_latest show ?thesis
    by (simp add: schema_version_def foreign_keys_enabled_def when_initialized_def connect_db_def)
qed

end
