(* ===== verification/Lifecycle.thy ===== *)
theory Lifecycle
  imports Composition Workflow_Startup Jira_Gateway Markup
begin

text \<open>
  The life of the process, \<open>run\<close> and \<open>main\<close> of \<open>src/src/dztgbot/__main__.py\<close>: what is opened in which order, the polling, and the
  teardown.  The settings, the database and the limits are those of the other components; the outcome of every other
  stage (the stores, the VPN query, the calls of the Telegram library) is the environment.
\<close>

section \<open>Stages and resources\<close>

text \<open>\<open>Res_Legacy_Client\<close> is the HTTP pool that the \<open>JiraClient\<close> for the conversation handlers opens in its constructor.\<close>

datatype life_resource =
    Res_Repository | Res_Scheduler | Res_Jira | Res_Gemini | Res_Limiter | Res_Processor | Res_Legacy_Client

datatype life_stage =
    LS_Rules | LS_Users | LS_Vpn_Status | LS_Services | LS_Processor | LS_Build | LS_Handlers | LS_Updater
  | LS_App_Enter | LS_Polling | LS_App_Start | LS_Stop_Polling | LS_Stop_App | LS_App_Exit

datatype life_event =
    Opened life_resource | Closing life_resource | Shut_Down life_resource | App_Entered | Polling_Started | App_Started | Polling_Stopping | App_Stopping | App_Exiting

record life_env =
  le_settings :: "exn + settings"
  le_db :: "path \<Rightarrow> db_env"
  le_stage :: "life_stage \<Rightarrow> exn option"

record life_world =
  lw_db :: "schema \<times> repo"
  lw_held :: "life_resource set"
  lw_events :: "life_event list"

type_synonym life_sx = "(life_world, exn, unit) sx"

definition emit :: "life_event \<Rightarrow> life_sx" where
  "emit e = sx_modify (\<lambda>w. w\<lparr>lw_events := lw_events w @ [e]\<rparr>)"

definition stage_outcome :: "life_env \<Rightarrow> life_stage \<Rightarrow> life_sx" where
  "stage_outcome env st = (case le_stage env st of None \<Rightarrow> sx_return () | Some e \<Rightarrow> sx_raise e)"

definition acquire :: "life_resource \<Rightarrow> life_sx" where
  "acquire r = sx_bind (sx_modify (\<lambda>w. w\<lparr>lw_held := insert r (lw_held w)\<rparr>)) (\<lambda>_. emit (Opened r))"

text \<open>\<open>try: ... finally: ...\<close>: an exception of the second part replaces the outcome of the first.\<close>

definition sx_finally :: "('s, 'e, 'a) sx \<Rightarrow> ('s, 'e, unit) sx \<Rightarrow> ('s, 'e, 'a) sx" where
  "sx_finally m f = (\<lambda>s. case m s of (r, t) \<Rightarrow> (case f t of (Inl e, u) \<Rightarrow> (Inl e, u) | (Inr _, u) \<Rightarrow> (r, u)))"

section \<open>Composition\<close>

text \<open>The attribute \<open>settings.jira_timeout_seconds\<close>, which \<open>Settings\<close> does not have.\<close>

definition jira_timeout_seconds :: "settings \<Rightarrow> exn + int" where
  "jira_timeout_seconds s = Inl (OtherError ''AttributeError'')"

definition open_repository :: "life_env \<Rightarrow> path \<Rightarrow> life_sx" where
  "open_repository env p =
     sx_bind (sx_lift (repository_new p 5000)) (\<lambda>_.
     sx_bind (acquire Res_Repository) (\<lambda>_.
       (\<lambda>w. case initialize (le_db env p) (lw_db w) of (r, db) \<Rightarrow> (r, w\<lparr>lw_db := db\<rparr>))))"

definition open_jira :: "(settings \<Rightarrow> exn + int) \<Rightarrow> settings \<Rightarrow> life_sx" where
  "open_jira timeout s =
     sx_bind (sx_lift (rbind (timeout s) (\<lambda>t.
       rbind (jira_timeouts_post_init \<lparr>jt_connect = t, jt_read = t, jt_write = t, jt_pool = 5000\<rparr>) (\<lambda>_.
         gateway_init (st_jira_url s) 60000 2)))) (\<lambda>_. acquire Res_Jira)"

definition open_infrastructure :: "(settings \<Rightarrow> exn + int) \<Rightarrow> life_env \<Rightarrow> settings \<Rightarrow> path \<Rightarrow> life_sx" where
  "open_infrastructure timeout env s p =
     sx_bind (stage_outcome env LS_Rules) (\<lambda>_.
     sx_bind (stage_outcome env LS_Users) (\<lambda>_.
     sx_bind (stage_outcome env LS_Vpn_Status) (\<lambda>_.
     sx_bind (open_repository env p) (\<lambda>_.
     sx_bind (acquire Res_Scheduler) (\<lambda>_.
     sx_bind (open_jira timeout s) (\<lambda>_.
     sx_bind (sx_lift (gemini_from_settings s)) (\<lambda>_. acquire Res_Gemini)))))))"

definition open_processor :: "life_env \<Rightarrow> settings \<Rightarrow> life_sx" where
  "open_processor env s =
     (if 1 < st_telegram_concurrent_updates s then sx_bind (stage_outcome env LS_Processor) (\<lambda>_. acquire Res_Processor) else sx_return ())"

text \<open>The services, the limits, the Telegram application, its handlers and the updater, after the infrastructure.\<close>

definition build_application :: "(settings \<Rightarrow> exn + int) \<Rightarrow> life_env \<Rightarrow> settings \<Rightarrow> path \<Rightarrow> life_sx" where
  "build_application timeout env s p =
     sx_bind (open_infrastructure timeout env s p) (\<lambda>_.
     sx_bind (stage_outcome env LS_Services) (\<lambda>_.
     sx_bind (sx_lift (resource_limits s)) (\<lambda>_.
     sx_bind (acquire Res_Limiter) (\<lambda>_.
     sx_bind (open_processor env s) (\<lambda>_.
     sx_bind (stage_outcome env LS_Build) (\<lambda>_.
     sx_bind (acquire Res_Legacy_Client) (\<lambda>_.
     sx_bind (stage_outcome env LS_Handlers) (\<lambda>_.
       stage_outcome env LS_Updater))))))))"

section \<open>Polling\<close>

definition has_event :: "life_event \<Rightarrow> life_world \<Rightarrow> bool" where
  "has_event e w \<longleftrightarrow> e \<in> set (lw_events w)"

definition poll_until_stopped :: "life_env \<Rightarrow> life_sx" where
  "poll_until_stopped env =
     sx_finally
       (sx_bind (stage_outcome env LS_Polling) (\<lambda>_.
        sx_bind (emit Polling_Started) (\<lambda>_.
        sx_bind (stage_outcome env LS_App_Start) (\<lambda>_. emit App_Started))))
       (sx_bind (sx_get (has_event Polling_Started)) (\<lambda>polling.
        sx_bind (if polling then sx_bind (emit Polling_Stopping) (\<lambda>_. stage_outcome env LS_Stop_Polling) else sx_return ()) (\<lambda>_.
        sx_bind (sx_get (has_event App_Started)) (\<lambda>started.
          if started then sx_bind (emit App_Stopping) (\<lambda>_. stage_outcome env LS_Stop_App) else sx_return ()))))"

text \<open>\<open>KeyedUpdateProcessor.shutdown\<close>, which the library calls when the application is left: it closes the processor, ahead of the teardown.\<close>

definition shut_down_processor :: life_sx where
  "shut_down_processor =
     sx_bind (sx_get (\<lambda>w. Res_Processor \<in> lw_held w)) (\<lambda>held. if held then emit (Shut_Down Res_Processor) else sx_return ())"

definition run_application :: "life_env \<Rightarrow> life_sx" where
  "run_application env =
     sx_bind (stage_outcome env LS_App_Enter) (\<lambda>_.
     sx_bind (emit App_Entered) (\<lambda>_.
       sx_finally (poll_until_stopped env) (sx_bind (emit App_Exiting) (\<lambda>_.
         sx_bind shut_down_processor (\<lambda>_. stage_outcome env LS_App_Exit)))))"

section \<open>Teardown\<close>

text \<open>Every close is attempted, and what it raises is only logged.\<close>

definition teardown_order :: "life_resource list" where
  "teardown_order = [Res_Processor, Res_Limiter, Res_Scheduler, Res_Gemini, Res_Jira, Res_Repository]"

definition life_resources :: "life_resource list" where
  "life_resources = [Res_Repository, Res_Scheduler, Res_Jira, Res_Gemini, Res_Limiter, Res_Processor, Res_Legacy_Client]"

instantiation life_resource :: enum
begin

definition enum_life_resource :: "life_resource list" where
  "enum_life_resource = life_resources"

definition enum_all_life_resource :: "(life_resource \<Rightarrow> bool) \<Rightarrow> bool" where
  "enum_all_life_resource P = list_all P life_resources"

definition enum_ex_life_resource :: "(life_resource \<Rightarrow> bool) \<Rightarrow> bool" where
  "enum_ex_life_resource P = list_ex P life_resources"

instance
proof
  have all: "r \<in> set life_resources" for r by (cases r) (simp_all add: life_resources_def)
  then show "(UNIV :: life_resource set) = set enum_class.enum" by (auto simp: enum_life_resource_def)
  show "distinct (enum_class.enum :: life_resource list)" by (simp add: enum_life_resource_def life_resources_def)
  show "enum_class.enum_all P \<longleftrightarrow> Ball UNIV P" "enum_class.enum_ex P \<longleftrightarrow> Bex UNIV P" for P :: "life_resource \<Rightarrow> bool"
    using all by (auto simp: enum_all_life_resource_def enum_ex_life_resource_def list_all_iff list_ex_iff)
qed

end

lemma torn_down_resources: "r \<in> set teardown_order \<longleftrightarrow> r \<noteq> Res_Legacy_Client"
  by (cases r) (simp_all add: teardown_order_def)

definition close_resource :: "life_resource \<Rightarrow> life_sx" where
  "close_resource r = sx_bind (sx_get (\<lambda>w. r \<in> lw_held w)) (\<lambda>held. if held then emit (Closing r) else sx_return ())"

definition teardown :: life_sx where
  "teardown = sx_each close_resource teardown_order"

definition run :: "(settings \<Rightarrow> exn + int) \<Rightarrow> life_env \<Rightarrow> life_sx" where
  "run timeout env =
     sx_bind (sx_lift (le_settings env)) (\<lambda>s.
       (case st_workflow_db_path s of
          None \<Rightarrow> sx_raise (OtherError ''RuntimeError'')
        | Some p \<Rightarrow> sx_finally (sx_bind (build_application timeout env s p) (\<lambda>_. run_application env)) teardown))"

text \<open>\<open>main\<close>: the exit status.  \<open>by_keyboard\<close> says that a \<open>KeyboardInterrupt\<close> left \<open>asyncio.run\<close>.\<close>

definition main_exit :: "bool \<Rightarrow> exn + unit \<Rightarrow> nat" where
  "main_exit by_keyboard r = (if by_keyboard then 0 else if isl r then 1 else 0)"

definition process_start :: "schema \<times> repo \<Rightarrow> life_world" where
  "process_start db = \<lparr>lw_db = db, lw_held = {}, lw_events = []\<rparr>"

section \<open>Feedback and commands\<close>

datatype feedback_call = Feedback_Alert string | Feedback_Reply string

text \<open>\<open>_send_feedback\<close>: the alert of a callback query, or a reply when that fails or there is none.  The list holds what was delivered.\<close>

definition send_feedback :: "bool option \<Rightarrow> bool option \<Rightarrow> string \<Rightarrow> feedback_call list" where
  "send_feedback answer_fails reply_fails feedback =
     (if answer_fails = Some False then [Feedback_Alert feedback]
      else if reply_fails = Some False then [Feedback_Reply feedback] else [])"

definition bot_commands :: "(string \<times> utext) list" where
  "bot_commands =
     [(''start'', ([0x958B, 0x59CB, 0x4F7F, 0x7528] @ codes '' / '' @ [0x67E5, 0x770B, 0x8AAA, 0x660E])), (''new'', ([0x1F4DD] @ codes '' '' @ [0x624B, 0x52D5, 0x5EFA, 0x7ACB] @ codes '' Jira '' @ [0x5DE5, 0x55AE])), (''my'', ([0x1F4CB] @ codes '' '' @ [0x6211, 0x7684, 0x5F85, 0x8FA6, 0x5DE5, 0x55AE] @ codes '' (My Open)'')),
      (''created'', ([0x1F6A9] @ codes '' '' @ [0x6211, 0x56DE, 0x5831, 0x7684, 0x5DE5, 0x55AE] @ codes '' (I Created)'')), (''unassigned'', ([0x1F4E5] @ codes '' '' @ [0x672A, 0x6307, 0x6D3E, 0x5DE5, 0x55AE] @ codes '' (Unassigned)'')), (''blocked'', ([0x26A0, 0xFE0F] @ codes '' '' @ [0x88AB, 0x963B, 0x7919, 0x7684, 0x5DE5, 0x55AE] @ codes '' (Blocked)'')),
      (''sprint'', ([0x1F3C3] @ codes '' '' @ [0x7576, 0x524D] @ codes '' Sprint '' @ [0x5DE5, 0x55AE])), (''s'', ([0x1F50D] @ codes '' '' @ [0x95DC, 0x9375, 0x5B57, 0x641C, 0x5C0B] @ codes '' Jira '' @ [0x5DE5, 0x55AE])), (''auth'', ([0x1F511] @ codes '' '' @ [0x7D81, 0x5B9A] @ codes '' Jira '' @ [0x5E33, 0x865F])),
      (''logout'', ([0x1F6AA] @ codes '' '' @ [0x89E3, 0x7D81] @ codes '' Jira '' @ [0x5E33, 0x865F])), (''help'', ([0x1F4D6] @ codes '' '' @ [0x67E5, 0x770B, 0x4F7F, 0x7528, 0x8AAA, 0x660E]))]"

section \<open>What is opened is closed, but for one pool\<close>

definition idle :: "life_world \<Rightarrow> bool" where
  "idle w \<longleftrightarrow> set (lw_events w) \<inter> {App_Entered, Polling_Started, App_Started, Polling_Stopping, App_Stopping, App_Exiting} = {}"

definition wound_up :: "life_env \<Rightarrow> life_event list \<Rightarrow> bool" where
  "wound_up env es \<longleftrightarrow>
     (App_Entered \<in> set es \<longrightarrow> App_Exiting \<in> set es) \<and> (Polling_Started \<in> set es \<longrightarrow> Polling_Stopping \<in> set es) \<and>
     (App_Started \<in> set es \<longrightarrow> App_Stopping \<in> set es \<or> le_stage env LS_Stop_Polling \<noteq> None)"

text \<open>
  The events of a run: first everything is opened and, when it was entered, left again; then the teardown closes what was opened,
  except the pool of the legacy client.
\<close>

definition closed_once :: "life_event list \<Rightarrow> bool" where
  "closed_once es \<longleftrightarrow> (\<forall>r. count_list es (Closing r) = (if Opened r \<in> set es \<and> r \<noteq> Res_Legacy_Client then 1 else 0))"

definition orderly :: "life_env \<Rightarrow> life_event list \<Rightarrow> bool" where
  "orderly env es \<longleftrightarrow> (\<exists>pre. es = pre @ map Closing (filter (\<lambda>r. Opened r \<in> set pre) teardown_order) \<and>
     (\<forall>r. Closing r \<notin> set pre) \<and> wound_up env pre)"

lemma teardown_run:
  "teardown w = (Inr (), w\<lparr>lw_events := lw_events w @ map Closing (filter (\<lambda>r. r \<in> lw_held w) teardown_order)\<rparr>)"
proof -
  have "sx_each close_resource rs w = (Inr (), w\<lparr>lw_events := lw_events w @ map Closing (filter (\<lambda>r. r \<in> lw_held w) rs)\<rparr>)" for rs w
    by (induction rs arbitrary: w) (simp_all add: close_resource_def emit_def sx_bind_app)
  then show ?thesis by (simp add: teardown_def)
qed

text \<open>The invariant while the application is built: nothing is closed, and nothing is entered.\<close>

definition building :: "life_world \<Rightarrow> bool" where
  "building w \<longleftrightarrow> lw_held w = {r. Opened r \<in> set (lw_events w)} \<and> (\<forall>r. Closing r \<notin> set (lw_events w)) \<and> idle w"

lemma keeps_stage_outcome [inv_intros]: "sx_keeps P (stage_outcome env st)"
  by (auto simp: sx_keeps_def stage_outcome_def split: option.split)

lemma keeps_acquire [inv_intros]: "sx_keeps building (acquire r)"
  by (auto simp: sx_keeps_def acquire_def emit_def building_def idle_def)

lemma keeps_open_repository: "sx_keeps building (open_repository env p)"
  unfolding open_repository_def
  by (intro inv_intros) (auto simp: sx_keeps_def building_def idle_def split: prod.split)

lemma keeps_build: "sx_keeps building (build_application timeout env s p)"
  unfolding build_application_def open_infrastructure_def open_processor_def open_jira_def by (intro inv_intros keeps_open_repository)

lemma run_application_winds_up:
  assumes "building w"
  shows "lw_held (snd (run_application env w)) = lw_held w \<and>
    (\<exists>es. lw_events (snd (run_application env w)) = lw_events w @ es \<and> (\<forall>r. Opened r \<notin> set es \<and> Closing r \<notin> set es) \<and> wound_up env es)"
  using assms
  by (auto simp: run_application_def poll_until_stopped_def sx_finally_def sx_bind_app emit_def stage_outcome_def has_event_def building_def idle_def
      wound_up_def shut_down_processor_def split: option.splits)

lemma closings_counted: "\<forall>r. Closing r \<notin> set pre \<Longrightarrow> closed_once (pre @ map Closing (filter (\<lambda>r. Opened r \<in> set pre) teardown_order))"
proof -
  assume pre: "\<forall>r. Closing r \<notin> set pre"
  have "count_list (map Closing rs) (Closing r) = (if r \<in> set rs then 1 else 0)" if "distinct rs" for rs r
    using that by (induction rs) auto
  moreover have "distinct teardown_order" by (simp add: teardown_order_def)
  ultimately show ?thesis using pre torn_down_resources by (auto simp: closed_once_def count_notin)
qed

text \<open>
  C33. Whatever fails on the way, the teardown of the run closes each resource that was opened exactly once and in a fixed order, after
  everything else, and nothing that was not opened - except the HTTP pool of the legacy Jira client, which is never closed.
  A started polling is stopped, an entered application is left, and a started one is stopped unless stopping the polling failed.
\<close>

theorem run_tears_down:
  "orderly env (lw_events (snd (run timeout env (process_start db)))) \<and> closed_once (lw_events (snd (run timeout env (process_start db)))) \<and>
   Closing Res_Legacy_Client \<notin> set (lw_events (snd (run timeout env (process_start db))))"
proof -
  have start: "building (process_start db)" by (simp add: building_def idle_def process_start_def)
  have none: "orderly env []" by (simp add: orderly_def wound_up_def)
  have "orderly env (lw_events (snd (run timeout env (process_start db))))"
  proof (cases "\<exists>s p. le_settings env = Inr s \<and> st_workflow_db_path s = Some p")
    case False
    with none show ?thesis by (cases "le_settings env") (auto simp: run_def process_start_def split: option.split)
  next
    case True
    then obtain s p where sp: "le_settings env = Inr s" "st_workflow_db_path s = Some p" by blast
    let ?body = "sx_bind (build_application timeout env s p) (\<lambda>_. run_application env)"
    have run: "run timeout env w = sx_finally ?body teardown w" for w using sp by (simp add: run_def)
    have before: "lw_held w' = {r. Opened r \<in> set (lw_events w')} \<and> (\<forall>r. Closing r \<notin> set (lw_events w')) \<and> wound_up env (lw_events w')"
      if "w' = snd (?body (process_start db))" for w'
    proof -
      obtain r1 w1 where one: "build_application timeout env s p (process_start db) = (r1, w1)" by fastforce
      with sx_keepsD[OF keeps_build start, of timeout env s p] have b: "building w1" by simp
      then have idle: "wound_up env (lw_events w1)" by (auto simp: building_def idle_def wound_up_def)
      show ?thesis
      proof (cases r1)
        case (Inl e)
        with one that b idle show ?thesis by (simp add: sx_bind_def building_def)
      next
        case (Inr u)
        with one that have w': "w' = snd (run_application env w1)" by (simp add: sx_bind_def)
        from run_application_winds_up[OF b, of env] obtain es where
          "lw_held w' = lw_held w1" "lw_events w' = lw_events w1 @ es" "\<forall>r. Opened r \<notin> set es \<and> Closing r \<notin> set es" "wound_up env es"
          unfolding w' by blast
        with b show ?thesis by (auto simp: building_def idle_def wound_up_def)
      qed
    qed
    let ?w = "snd (?body (process_start db))"
    have "lw_events (snd (run timeout env (process_start db))) = lw_events ?w @ map Closing (filter (\<lambda>r. r \<in> lw_held ?w) teardown_order)"
      unfolding run by (simp add: sx_finally_def teardown_run split: prod.split)
    with before[of ?w] show ?thesis unfolding orderly_def by (intro exI[of _ "lw_events ?w"]) simp
  qed
  moreover from this have once: "closed_once (lw_events (snd (run timeout env (process_start db))))"
    using closings_counted by (auto simp: orderly_def)
  moreover from once have "count_list (lw_events (snd (run timeout env (process_start db)))) (Closing Res_Legacy_Client) = 0"
    by (simp add: closed_once_def)
  ultimately show ?thesis by (simp add: count_list_0_iff)
qed

section \<open>The program does not start\<close>

lemma open_jira_fails: "open_jira jira_timeout_seconds s w = (Inl (OtherError ''AttributeError''), w)"
  by (simp add: open_jira_def jira_timeout_seconds_def sx_bind_app)

text \<open>C32. The gateway is built from an attribute the settings do not have, so that every run ends with an exception and none run ever reaches the polling.\<close>

theorem program_never_polls:
  "isl (fst (run jira_timeout_seconds env (process_start db))) \<and>
   Polling_Started \<notin> set (lw_events (snd (run jira_timeout_seconds env (process_start db))))"
proof -
  have start: "building (process_start db)" by (simp add: building_def idle_def process_start_def)
  show ?thesis
  proof (cases "\<exists>s p. le_settings env = Inr s \<and> st_workflow_db_path s = Some p")
    case False
    then show ?thesis by (cases "le_settings env") (auto simp: run_def process_start_def split: option.split)
  next
    case True
    then obtain s p where sp: "le_settings env = Inr s" "st_workflow_db_path s = Some p" by blast
    obtain r w where build: "build_application jira_timeout_seconds env s p (process_start db) = (r, w)" by fastforce
    then have "isl r"
      by (auto simp: build_application_def open_infrastructure_def sx_bind_app open_jira_fails acquire_def emit_def split: prod.splits sum.splits)
    moreover from sx_keepsD[OF keeps_build start, of jira_timeout_seconds env s p] build have "Polling_Started \<notin> set (lw_events w)"
      by (simp add: building_def idle_def)
    ultimately show ?thesis using build sp
      by (cases r) (auto simp: run_def sx_bind_app sx_finally_def teardown_run)
  qed
qed

text \<open>With an attribute that exists and stages that succeed, the same run polls, stops and closes everything.\<close>

lemma healthy_run_polls:
  assumes "le_settings env = Inr s" and "st_workflow_db_path s = Some p" and "\<And>st. le_stage env st = None"
    and "repository_new p 5000 = Inr ()" and "\<And>db. fst (initialize (le_db env p) db) = Inr ()"
    and "0 < t" and "starts_with ''https://'' (st_jira_url s)" and "\<not> isl (gemini_from_settings s)" and "\<not> isl (resource_limits s)"
    and "1 < st_telegram_concurrent_updates s"
  shows "lw_events (snd (run (\<lambda>_. Inr t) env (process_start db))) =
    map Opened life_resources @
    [App_Entered, Polling_Started, App_Started, Polling_Stopping, App_Stopping, App_Exiting, Shut_Down Res_Processor] @ map Closing teardown_order"
proof -
  obtain g where g: "gemini_from_settings s = Inr g" using assms(8) by (cases "gemini_from_settings s") auto
  obtain l where l: "resource_limits s = Inr l" using assms(9) by (cases "resource_limits s") auto
  obtain db' where i: "initialize (le_db env p) db = (Inr (), db')" using assms(5)[of db] by (cases "initialize (le_db env p) db") auto
  have t: "jira_timeouts_post_init \<lparr>jt_connect = t, jt_read = t, jt_write = t, jt_pool = 5000\<rparr> =
      Inr \<lparr>jt_connect = t, jt_read = t, jt_write = t, jt_pool = 5000\<rparr>" using assms(6) by (simp add: jira_timeouts_post_init_def)
  have stage: "stage_outcome env st = sx_return ()" for st using assms(3) by (simp add: stage_outcome_def)
  have jira: "gateway_init (st_jira_url s) 60000 2 = Inr (rev (dropWhile (\<lambda>c. c = CHR ''/'') (rev (st_jira_url s))))"
    using assms(7) by (simp add: gateway_init_def)
  show ?thesis using assms(1,2,4,10)
    by (simp add: run_def sx_finally_def build_application_def open_infrastructure_def open_processor_def open_repository_def open_jira_def sx_bind_app acquire_def emit_def g l i stage jira t
        run_application_def poll_until_stopped_def has_event_def process_start_def teardown_run teardown_order_def shut_down_processor_def life_resources_def)
qed

text \<open>The order of the teardown is not the reverse of the order of opening, as the code says of it: the scheduler goes before both gateways.\<close>

lemma teardown_not_reversed: "filter (\<lambda>r. r \<noteq> Res_Legacy_Client) (rev life_resources) \<noteq> teardown_order"
  by (simp add: life_resources_def teardown_order_def)
end
