(* ===== verification/Legacy_Analysis.thy ===== *)
theory Legacy_Analysis
  imports Gemini_Gateway Updates Chat
begin

text \<open>
  \<open>src/src/dztgbot/analysis.py\<close>: the facade that keeps the older shape of the analysis.  The analyzer is composed with the model of
  the gateway in Gemini_Gateway; its client is a parameter, and so is \<open>txt\<close>, which turns a text of a chat into a string of the
  gateway.  The template of the facade holds texts, since its preview, its editable form and their parser have constants
  outside ASCII.  \<open>str.lower\<close> is modelled for the letters of ASCII: no other letter becomes a letter of the keys it is compared with.
\<close>

section \<open>The template\<close>

record legacy_template =
  lt_project_key :: utext
  lt_issue_type :: utext
  lt_summary :: utext
  lt_description :: utext
  lt_priority :: utext
  lt_labels :: "utext list"
  lt_components :: "utext list"
  lt_assignee :: utext
  lt_acceptance_criteria :: "utext list"

definition or_blank :: "utext option \<Rightarrow> utext" where
  "or_blank t = (case t of None \<Rightarrow> [] | Some s \<Rightarrow> s)"

text \<open>The constructor: the older and the newer spelling of the issue type, of which the newer one counts.\<close>

definition legacy_template_new ::
  "utext \<Rightarrow> utext \<Rightarrow> utext option \<Rightarrow> utext list \<Rightarrow> utext \<Rightarrow> utext option \<Rightarrow> utext list \<Rightarrow> utext option \<Rightarrow> utext list \<Rightarrow> utext option \<Rightarrow>
     exn + legacy_template" where
  "legacy_template_new summary description issuetype labels priority project_key components assignee criteria issue_type =
     (let selected = (if issue_type \<noteq> None then issue_type else issuetype) in
      if or_blank selected = [] then Inl (ValueError ''issue_type must not be empty'')
      else Inr \<lparr>lt_project_key = or_blank project_key, lt_issue_type = or_blank selected, lt_summary = summary, lt_description = description,
             lt_priority = priority, lt_labels = labels, lt_components = components, lt_assignee = or_blank assignee,
             lt_acceptance_criteria = criteria\<rparr>)"

text \<open>The alias of the older spelling, and a canonical template as texts.\<close>

definition issuetype :: "legacy_template \<Rightarrow> utext" where
  "issuetype t = lt_issue_type t"

definition texts_of :: "jira_template \<Rightarrow> legacy_template" where
  "texts_of t = \<lparr>lt_project_key = codes (jt_project_key t), lt_issue_type = codes (jt_issue_type t), lt_summary = codes (jt_summary t),
     lt_description = codes (jt_description t), lt_priority = codes (jt_priority t), lt_labels = map codes (jt_labels t),
     lt_components = map codes (jt_components t), lt_assignee = codes (jt_assignee t),
     lt_acceptance_criteria = map codes (jt_acceptance_criteria t)\<rparr>"

definition from_canonical :: "legacy_template \<Rightarrow> exn + legacy_template" where
  "from_canonical t = legacy_template_new (lt_summary t) (lt_description t) None (lt_labels t) (lt_priority t) (Some (lt_project_key t))
     (lt_components t) (Some (lt_assignee t)) (lt_acceptance_criteria t) (Some (lt_issue_type t))"

lemma from_canonical_eq: "from_canonical t = (if lt_issue_type t = [] then Inl (ValueError ''issue_type must not be empty'') else Inr t)"
  by (simp add: from_canonical_def legacy_template_new_def or_blank_def)

section \<open>The client adapter\<close>

text \<open>How a call of an older client ends: for an exception, whether its text mentions 429.\<close>

datatype legacy_outcome = Legacy_Answer provider_response | Legacy_Raised provider_exn bool | Legacy_Hangs

record legacy_client =
  lc_can_generate :: bool
  lc_generate :: "nat \<Rightarrow> string \<Rightarrow> string \<Rightarrow> legacy_outcome \<times> nat"

definition rate_limited :: provider_exn where
  "rate_limited = \<lparr>px_status = IntStatus 429, px_response_status = NoStatus, px_timeout = False\<rparr>"

definition plain_exception :: provider_exn where
  "plain_exception = \<lparr>px_status = NoStatus, px_response_status = NoStatus, px_timeout = False\<rparr>"

definition normalize_issuetype :: "json \<Rightarrow> json" where
  "normalize_issuetype j =
     (case j of
        JObj ms \<Rightarrow>
          (case map_of ms ''issuetype'' of
             Some v \<Rightarrow> if map_of ms ''issue_type'' = None then JObj (filter (\<lambda>(k, _). k \<noteq> ''issuetype'') ms @ [(''issue_type'', v)]) else j
           | None \<Rightarrow> j)
      | _ \<Rightarrow> j)"

definition normalize_response :: "provider_response \<Rightarrow> provider_response" where
  "normalize_response r = (case pr_parsed r of ParsedValue j \<Rightarrow> r\<lparr>pr_parsed := ParsedValue (normalize_issuetype j)\<rparr> | _ \<Rightarrow> r)"

definition legacy_generate_content :: "legacy_client \<Rightarrow> nat \<Rightarrow> string \<Rightarrow> string \<Rightarrow> provider_outcome \<times> nat" where
  "legacy_generate_content c n model prompt =
     (if \<not> lc_can_generate c then (ProviderRaised plain_exception, 0)
      else (case lc_generate c n model prompt of
        (Legacy_Answer r, d) \<Rightarrow> (ProviderAnswer (normalize_response r), d)
      | (Legacy_Raised x mentions, d) \<Rightarrow> (ProviderRaised (if mentions then rate_limited else x), d)
      | (Legacy_Hangs, d) \<Rightarrow> (ProviderHangs, d)))"

section \<open>The analyzer\<close>

record legacy_analyzer =
  la_gateway :: gemini_gateway
  la_client :: legacy_client
  la_project :: "string option"

definition build_gateway :: "int \<Rightarrow> exn + gemini_gateway" where
  "build_gateway timeout = gemini_gateway_init None True DEFAULT_MODELS timeout (max 0 (int (length DEFAULT_MODELS) - 1)) 0 None"

definition legacy_analyzer_new :: "legacy_client \<Rightarrow> int \<Rightarrow> string option \<Rightarrow> exn + legacy_analyzer" where
  "legacy_analyzer_new client timeout project =
     rbind (build_gateway timeout) (\<lambda>g. Inr \<lparr>la_gateway = g, la_client = client, la_project = project\<rparr>)"

definition legacy_env :: "string \<Rightarrow> legacy_analyzer \<Rightarrow> gemini_env" where
  "legacy_env zh a = \<lparr>gn_gateway = la_gateway a, gn_can_generate = True, gn_generate = legacy_generate_content (la_client a), gn_zh = zh\<rparr>"

definition legacy_media_kind :: "media_type \<Rightarrow> media_kind" where
  "legacy_media_kind m =
     (case m of MT_PHOTO \<Rightarrow> MEDIA_PHOTO | MT_DOCUMENT \<Rightarrow> MEDIA_DOCUMENT | MT_VIDEO \<Rightarrow> MEDIA_VIDEO | MT_VOICE \<Rightarrow> MEDIA_VOICE | _ \<Rightarrow> MEDIA_TEXT)"

definition source_ref :: "(utext \<Rightarrow> string) \<Rightarrow> datetime \<Rightarrow> forwarded_message \<Rightarrow> nat \<Rightarrow> exn + source_message" where
  "source_ref txt now m index =
     source_message_post_init \<lparr>sm_message_id = int index, sm_chat_id = 1, sm_sender_id = 1,
       sm_text = (case fm_text m of None \<Rightarrow> [] | Some t \<Rightarrow> txt t), sm_media_kind = legacy_media_kind (fm_media_type m), sm_received_at = now\<rparr>"

fun source_refs :: "(utext \<Rightarrow> string) \<Rightarrow> datetime \<Rightarrow> nat \<Rightarrow> forwarded_message list \<Rightarrow> exn + source_message list" where
  "source_refs txt now index [] = Inr []"
| "source_refs txt now index (m # ms) =
     rbind (source_ref txt now m index) (\<lambda>r. rbind (source_refs txt now (Suc index) ms) (\<lambda>rs. Inr (r # rs)))"

text \<open>The state: the world of the gateway and the index of the current model, which follows the gateway after an answer.\<close>

definition legacy_analyze ::
  "(utext \<Rightarrow> string) \<Rightarrow> string \<Rightarrow> datetime \<Rightarrow> legacy_analyzer \<Rightarrow> exn + string \<Rightarrow> forwarded_message list \<Rightarrow>
     gemini_world \<times> nat \<Rightarrow> (exn + legacy_template) \<times> (gemini_world \<times> nat)" where
  "legacy_analyze txt zh now a rules ms s =
     (case rbind rules (\<lambda>r. rbind (source_refs txt now 1 ms) (\<lambda>refs. Inr (r, refs))) of
        Inl e \<Rightarrow> (Inl e, s)
      | Inr (r, refs) \<Rightarrow>
          (case analyze_messages (legacy_env zh a) refs r
              (case la_project a of Some (c # cs) \<Rightarrow> c # cs | _ \<Rightarrow> ''UNSPECIFIED'') (fst s) of
             (Inl e, w) \<Rightarrow> (Inl e, (w, snd s))
           | (Inr t, w) \<Rightarrow> (from_canonical (texts_of t), (w, gw_preferred w))))"

definition current_model :: "gemini_world \<times> nat \<Rightarrow> string" where
  "current_model s = DEFAULT_MODELS ! snd s"

section \<open>Preview and editable text\<close>

definition bounded_text :: "utext \<Rightarrow> nat \<Rightarrow> utext" where
  "bounded_text v limit = (if length v \<le> limit then v else take (limit - 3) v @ (codes ''...''))"

definition or_text_blank :: "utext \<Rightarrow> utext \<Rightarrow> utext" where
  "or_text_blank a b = (if a = [] then b else a)"

definition dashed :: "utext list \<Rightarrow> utext" where
  "dashed items = text_join [0x0A] (map (\<lambda>i. (codes ''- '') @ i) items)"

definition jira_template_preview :: "legacy_template \<Rightarrow> int \<Rightarrow> utext" where
  "jira_template_preview t image_count =
     (let labels = (if lt_labels t = [] then ([0x7121]) else text_join (codes '', '') (lt_labels t));
          components = (if lt_components t = [] then ([0x7121]) else text_join (codes '', '') (lt_components t));
          images = (if 0 < image_count then codes (decimal_int image_count) @ (codes '' '' @ [0x5F35, 0x5716, 0x7247]) else ([0x7121])) in
      take 4000
       (([0x1F4CB] @ codes '' **Jira '' @ [0x5DE5, 0x55AE, 0x8349, 0x7A3F, 0x9810, 0x89BD] @ codes ''**'' @ [0xFF08, 0x5C1A, 0x672A, 0x5EFA, 0x7ACB, 0xFF09, 0xA, 0xA]) @
        (codes ''**'' @ [0x6A19, 0x984C] @ codes '' (Summary)**: '') @ lt_summary t @ [0x0A] @
        (codes ''**'' @ [0x985E, 0x578B] @ codes '' (Type)**: '') @ lt_issue_type t @ [0x0A] @
        (codes ''**'' @ [0x512A, 0x5148, 0x7D1A] @ codes '' (Priority)**: '') @ lt_priority t @ [0x0A] @
        (codes ''**'' @ [0x5C08, 0x6848] @ codes '' (Project)**: '') @ or_text_blank (lt_project_key t) ([0x672A, 0x6307, 0x5B9A]) @ [0x0A] @
        (codes ''**'' @ [0x7D93, 0x8FA6, 0x4EBA] @ codes '' (Assignee)**: '') @ or_text_blank (lt_assignee t) ([0x672A, 0x6307, 0x5B9A]) @ [0x0A] @
        (codes ''**'' @ [0x6A19, 0x7C64] @ codes '' (Labels)**: '') @ labels @ [0x0A] @
        (codes ''**'' @ [0x6A21, 0x7D44] @ codes '' (Components)**: '') @ components @ [0x0A] @
        (codes ''**'' @ [0x9644, 0x5716] @ codes '' (Attachments)**: '') @ images @ [0x0A, 0x0A] @
        (codes ''**'' @ [0x8A73, 0x7D30, 0x63CF, 0x8FF0] @ codes '' (Description)**:'' @ [0xA]) @ bounded_text (lt_description t) 1200 @ [0x0A, 0x0A] @
        (codes ''**'' @ [0x9A57, 0x6536, 0x6A19, 0x6E96] @ codes '' (Acceptance Criteria)**:'' @ [0xA]) @ bounded_text (or_text_blank (dashed (lt_acceptance_criteria t)) ([0x7121])) 1200))"

definition jira_template_editable_text :: "legacy_template \<Rightarrow> utext" where
  "jira_template_editable_text t =
     ([0x6A19, 0x984C] @ codes '': '') @ or_text_blank (lt_summary t) (codes ''('' @ [0x8ACB, 0x8F38, 0x5165, 0x6A19, 0x984C] @ codes '')'') @ [0x0A] @
     ([0x985E, 0x578B] @ codes '': '') @ or_text_blank (lt_issue_type t) (codes ''Task'') @ [0x0A] @
     ([0x5C08, 0x6848] @ codes '': '') @ or_text_blank (lt_project_key t) (codes ''NGSSA3'') @ [0x0A] @
     ([0x512A, 0x5148, 0x7D1A] @ codes '': '') @ or_text_blank (lt_priority t) (codes ''Medium'') @ [0x0A] @
     ([0x63CF, 0x8FF0] @ codes '':'' @ [0xA]) @ or_text_blank (lt_description t) (codes ''('' @ [0x8ACB, 0x8F38, 0x5165, 0x63CF, 0x8FF0] @ codes '')'') @ [0x0A, 0x0A] @
     ([0x9A57, 0x6536, 0x6A19, 0x6E96] @ codes '':'' @ [0xA]) @ or_text_blank (dashed (lt_acceptance_criteria t)) (codes ''- ('' @ [0x8ACB, 0x8F38, 0x5165, 0x9A57, 0x6536, 0x6A19, 0x6E96] @ codes '')'')"

section \<open>Reading the edited text\<close>

definition is_line_break :: "nat \<Rightarrow> bool" where
  "is_line_break n \<longleftrightarrow> (10 \<le> n \<and> n \<le> 13) \<or> (28 \<le> n \<and> n \<le> 30) \<or> n = 0x85 \<or> n = 0x2028 \<or> n = 0x2029"

fun text_lines :: "bool \<Rightarrow> utext \<Rightarrow> utext \<Rightarrow> utext list" where
  "text_lines after_cr w [] = (if w = [] then [] else [w])"
| "text_lines after_cr w (c # cs) =
     (if after_cr \<and> c = 0x0A then text_lines False [] cs
      else if is_line_break c then w # text_lines (c = 0x0D) [] cs
      else text_lines False (w @ [c]) cs)"

datatype edit_field = EF_Summary | EF_Issue_Type | EF_Project | EF_Priority

datatype edit_mode = EM_Header | EM_Description | EM_Criteria

record edit_state =
  es_summary :: utext
  es_issue_type :: utext
  es_project_key :: utext
  es_priority :: utext
  es_description :: "utext list"
  es_criteria :: "utext list"
  es_mode :: edit_mode

definition edit_prefixes :: "(utext \<times> edit_field) list" where
  "edit_prefixes =
     [(([0x6A19, 0x984C]), EF_Summary), (([0x6807, 0x9898]), EF_Summary), ((codes ''summary''), EF_Summary),
      (([0x985E, 0x578B]), EF_Issue_Type), (([0x7C7B, 0x578B]), EF_Issue_Type), ((codes ''type''), EF_Issue_Type), ((codes ''issuetype''), EF_Issue_Type),
      (([0x5C08, 0x6848]), EF_Project), (([0x9879, 0x76EE]), EF_Project), ((codes ''project''), EF_Project),
      (([0x512A, 0x5148, 0x7D1A]), EF_Priority), (([0x4F18, 0x5148, 0x7EA7]), EF_Priority), ((codes ''priority''), EF_Priority)]"

definition description_keys :: "utext list" where
  "description_keys = [([0x63CF, 0x8FF0]), (codes ''description'')]"

definition criteria_keys :: "utext list" where
  "criteria_keys = [([0x9A57, 0x6536, 0x6A19, 0x6E96]), ([0x9A8C, 0x6536, 0x6807, 0x51C6]), (codes ''acceptance criteria'')]"

fun set_field :: "edit_field \<Rightarrow> utext \<Rightarrow> edit_state \<Rightarrow> edit_state" where
  "set_field EF_Summary v s = s\<lparr>es_summary := v\<rparr>"
| "set_field EF_Issue_Type v s = s\<lparr>es_issue_type := v\<rparr>"
| "set_field EF_Project v s = s\<lparr>es_project_key := v\<rparr>"
| "set_field EF_Priority v s = s\<lparr>es_priority := v\<rparr>"

definition ascii_lower :: "utext \<Rightarrow> utext" where
  "ascii_lower t = map (\<lambda>n. if 65 \<le> n \<and> n \<le> 90 then n + 32 else n) t"

definition strip_marks :: "utext \<Rightarrow> utext" where
  "strip_marks t = dropWhile (\<lambda>n. n = 0x2D \<or> n = 0x2A \<or> n = 0x20) t"

definition placeholder :: "utext \<Rightarrow> bool" where
  "placeholder t \<longleftrightarrow> take 4 t = (codes ''('' @ [0x8ACB, 0x8F38, 0x5165])"

definition edit_line :: "edit_state \<Rightarrow> utext \<Rightarrow> edit_state" where
  "edit_line s line =
     (let stripped = ustrip line; normalized = replace_code 0xFF1A [0x3A] stripped;
          raw_key = takeWhile (\<lambda>n. n \<noteq> 0x3A) normalized; key = ascii_lower raw_key;
          v = drop (Suc (length raw_key)) normalized in
      if key \<in> set description_keys then
        s\<lparr>es_mode := EM_Description, es_description := es_description s @ (if ustrip v = [] then [] else [ustrip v])\<rparr>
      else if key \<in> set criteria_keys then
        s\<lparr>es_mode := EM_Criteria, es_criteria := es_criteria s @ (if ustrip v = [] then [] else [strip_marks (ustrip v)])\<rparr>
      else if es_mode s = EM_Header \<and> 0x3A \<in> set normalized \<and> map_of edit_prefixes key \<noteq> None then
        (let cleaned = ustrip (takeWhile (\<lambda>n. n \<noteq> 0x28) v) in
         if cleaned \<noteq> [] \<and> \<not> placeholder cleaned then set_field (the (map_of edit_prefixes key)) cleaned s else s)
      else if es_mode s = EM_Description then s\<lparr>es_description := es_description s @ [line]\<rparr>
      else if es_mode s = EM_Criteria \<and> stripped \<noteq> [] then
        (let cleaned = ustrip (strip_marks stripped) in
         if cleaned \<noteq> [] \<and> \<not> placeholder cleaned then s\<lparr>es_criteria := es_criteria s @ [cleaned]\<rparr> else s)
      else s)"

definition edit_start :: "legacy_template \<Rightarrow> edit_state" where
  "edit_start t = \<lparr>es_summary = lt_summary t, es_issue_type = lt_issue_type t, es_project_key = lt_project_key t, es_priority = lt_priority t,
     es_description = [], es_criteria = [], es_mode = EM_Header\<rparr>"

definition parse_edited_template :: "utext \<Rightarrow> legacy_template \<Rightarrow> exn + legacy_template" where
  "parse_edited_template raw t =
     (let s = foldl edit_line (edit_start t) (text_lines False [] (ustrip raw)) in
      legacy_template_new (es_summary s) (or_text_blank (ustrip (text_join [0x0A] (es_description s))) (lt_description t)) None (lt_labels t)
        (es_priority s) (Some (es_project_key s)) (lt_components t) (Some (lt_assignee t))
        (if es_criteria s = [] then lt_acceptance_criteria t else es_criteria s) (Some (es_issue_type s)))"

text \<open>\<open>alnum\<close> is \<open>str.isalnum\<close> of one character.\<close>

definition validate_template_fields :: "(nat \<Rightarrow> bool) \<Rightarrow> legacy_template \<Rightarrow> utext list" where
  "validate_template_fields alnum t =
     (if ustrip (lt_summary t) = [] then [([0x6A19, 0x984C] @ codes '' (Summary) '' @ [0x4E0D, 0x80FD, 0x70BA, 0x7A7A, 0x3002])]
      else if 255 < length (lt_summary t) then [([0x6A19, 0x984C] @ codes '' (Summary) '' @ [0x904E, 0x9577, 0xFF0C, 0x6700, 0x5927, 0x9577, 0x5EA6, 0x70BA] @ codes '' 255 '' @ [0x500B, 0x5B57, 0x5143, 0x3002])] else []) @
     (if ustrip (lt_description t) = [] then [([0x8A73, 0x7D30, 0x63CF, 0x8FF0] @ codes '' (Description) '' @ [0x4E0D, 0x80FD, 0x70BA, 0x7A7A, 0x3002])] else []) @
     (if lt_issue_type t \<notin> {(codes ''Task''), (codes ''Epic''), ([0x7F3A, 0x9677]), ([0x512A, 0x5316]), ([0x4F18, 0x5316])} then [([0x5DE5, 0x55AE, 0x985E, 0x578B, 0x4E0D, 0x7B26, 0x5408, 0x5C08, 0x6848, 0x898F, 0x7BC4, 0x3002])] else []) @
     (if lt_project_key t \<noteq> [] \<and> \<not> list_all alnum (lt_project_key t) then [([0x5C08, 0x6848] @ codes '' Key '' @ [0x683C, 0x5F0F, 0x7121, 0x6548, 0x3002])] else [])"

section \<open>The analyzer is the gateway\<close>

text \<open>An exception that only mentions 429 in its text counts as a rate limit, so the next model is tried.\<close>

lemma mentioned_rate_limit_automatic: "automatic (classify_provider_exception rate_limited)"
  by (simp add: classify_provider_exception_def rate_limited_def gemini_error_def ErrorClassification_def Let_def)

text \<open>An answer in the older spelling is read like one in the newer spelling.\<close>

lemma older_spelling_read:
  "normalize_issuetype (JObj [(''project_key'', p), (''issuetype'', i), (''summary'', s)]) =
   JObj [(''project_key'', p), (''summary'', s), (''issue_type'', i)]"
  by (simp add: normalize_issuetype_def)

section \<open>An edited template is read back\<close>

definition unbroken :: "utext \<Rightarrow> bool" where
  "unbroken t \<longleftrightarrow> (\<forall>n \<in> set t. \<not> is_line_break n)"

text \<open>A text that a header line carries unchanged, a line of a description, and a criterion.\<close>

definition header_value :: "utext \<Rightarrow> bool" where
  "header_value t \<longleftrightarrow> t \<noteq> [] \<and> ustrip t = t \<and> unbroken t \<and> 0x28 \<notin> set t \<and> 0xFF1A \<notin> set t"

definition line_key :: "utext \<Rightarrow> utext" where
  "line_key line = ascii_lower (takeWhile (\<lambda>n. n \<noteq> 0x3A) (replace_code 0xFF1A [0x3A] (ustrip line)))"

definition description_line_ok :: "utext \<Rightarrow> bool" where
  "description_line_ok l \<longleftrightarrow> unbroken l \<and> line_key l \<notin> set description_keys \<and> line_key l \<notin> set criteria_keys"

definition criterion_ok :: "utext \<Rightarrow> bool" where
  "criterion_ok c \<longleftrightarrow> c \<noteq> [] \<and> ustrip c = c \<and> unbroken c \<and> strip_marks c = c \<and> \<not> placeholder c"

definition reads_back :: "legacy_template \<Rightarrow> bool" where
  "reads_back t \<longleftrightarrow> list_all header_value [lt_summary t, lt_issue_type t, lt_project_key t, lt_priority t] \<and>
     lt_description t \<noteq> [] \<and> ustrip (lt_description t) = lt_description t \<and>
     list_all description_line_ok (text_lines False [] (lt_description t)) \<and>
     text_join [0x0A] (text_lines False [] (lt_description t)) = lt_description t \<and>
     list_all criterion_ok (lt_acceptance_criteria t)"

lemma uspace_ends: "ustrip t = t \<Longrightarrow> t \<noteq> [] \<Longrightarrow> \<not> is_uspace (hd t) \<and> \<not> is_uspace (last t)"
proof -
  assume t: "ustrip t = t" "t \<noteq> []"
  let ?d = "dropWhile is_uspace t"
  have "rev t = dropWhile is_uspace (rev ?d)" using t(1) by (metis rev_rev_ident ustrip_def)
  then have "\<not> is_uspace (hd (rev t))" using t(2) by (metis hd_dropWhile rev_is_Nil_conv)
  moreover have "length t \<le> length ?d" using t(1) length_dropWhile_le[of is_uspace "rev ?d"] by (metis length_rev ustrip_def)
  then have "?d = t" by (metis append_same_eq append_self_conv2 length_append length_greater_0_conv less_add_same_cancel2 not_le takeWhile_dropWhile_id)
  then have "\<not> is_uspace (hd t)" using t(2) by (metis hd_dropWhile)
  ultimately show ?thesis using t(2) by (simp add: hd_rev)
qed

lemma ustrip_ends: "t = [] \<or> \<not> is_uspace (hd t) \<and> \<not> is_uspace (last t) \<Longrightarrow> ustrip t = t"
  by (cases "t = []") (simp_all add: ustrip_def dropWhile_eq_self_iff[THEN iffD2] hd_rev)

lemma ustrip_newline: "ustrip t = t \<Longrightarrow> t \<noteq> [] \<Longrightarrow> ustrip (t @ [0x0A]) = t"
proof -
  assume "ustrip t = t" "t \<noteq> []"
  with uspace_ends have "\<not> is_uspace (hd t)" "\<not> is_uspace (last t)" "t \<noteq> []" by blast+
  then have "dropWhile is_uspace (t @ [0x0A]) = t @ [0x0A]" "dropWhile is_uspace (rev t) = rev t"
    by (cases t, simp, simp) (simp add: dropWhile_eq_self_iff hd_rev \<open>\<not> is_uspace (last t)\<close>)
  then show ?thesis by (simp add: ustrip_def is_uspace_def[of 10])
qed

lemma text_lines_line: "unbroken l \<Longrightarrow> text_lines False w (l @ 0x0A # rest) = (w @ l) # text_lines False [] rest"
  by (induction l arbitrary: w) (auto simp: unbroken_def is_line_break_def)

lemma text_lines_last: "unbroken l \<Longrightarrow> w @ l \<noteq> [] \<Longrightarrow> text_lines False w l = [w @ l]"
  by (induction l arbitrary: w) (auto simp: unbroken_def)

lemma text_lines_join: "list_all unbroken ls \<Longrightarrow> ls \<noteq> [] \<Longrightarrow> last ls \<noteq> [] \<Longrightarrow> text_lines False [] (text_join [0x0A] ls) = ls"
proof (induction "[0x0A :: nat]" ls rule: text_join.induct)
  case (2 x)
  then show ?case by (simp add: text_lines_last)
next
  case (3 x y zs)
  then show ?case using text_lines_line[of x "[]" "text_join [0x0A] (y # zs)"] by simp
qed simp

lemma replace_code_absent: "c \<notin> set t \<Longrightarrow> replace_code c r t = t"
  by (induction t) auto

lemma header_line_read:
  assumes "header_value v" and "k \<noteq> []" and "\<not> is_uspace (hd k)" and "0x3A \<notin> set k" and "0xFF1A \<notin> set k" and "ascii_lower k = k"
    and "k \<notin> set description_keys" and "k \<notin> set criteria_keys" and "map_of edit_prefixes k = Some f" and "es_mode s = EM_Header"
  shows "edit_line s (k @ 0x3A # 0x20 # v) = set_field f v s"
proof -
  let ?line = "k @ 0x3A # 0x20 # v"
  from assms(1) have v: "v \<noteq> []" "ustrip v = v" "0x28 \<notin> set v" "0xFF1A \<notin> set v" by (simp_all add: header_value_def)
  have strip: "ustrip ?line = ?line" using assms(2,3) v uspace_ends[of v] by (intro ustrip_ends) simp
  have norm: "replace_code 0xFF1A [0x3A] ?line = ?line" using assms(5) v by (intro replace_code_absent) simp
  have key: "takeWhile (\<lambda>n. n \<noteq> 0x3A) ?line = k" using assms(4) by (simp add: takeWhile_append2 takeWhile_tail) (metis append_Nil2 takeWhile_append2)
  have "takeWhile (\<lambda>n. n \<noteq> 0x28) v = v" using v by (metis (mono_tags, lifting) takeWhile_eq_all_conv)
  moreover have "ustrip (0x20 # v) = v" using v(2) by (simp add: ustrip_def is_uspace_def)
  moreover have "\<not> placeholder v" using v by (cases v) (auto simp: placeholder_def)
  ultimately show ?thesis using assms strip norm key v by (simp add: edit_line_def Let_def del: takeWhile_eq_all_conv)
qed

lemma header_read:
  assumes "list_all header_value [a, b, c, d]" and "es_mode s = EM_Header"
  shows "foldl edit_line s [([0x6A19, 0x984C] @ codes '': '') @ a, ([0x985E, 0x578B] @ codes '': '') @ b, ([0x5C08, 0x6848] @ codes '': '') @ c, ([0x512A, 0x5148, 0x7D1A] @ codes '': '') @ d] =
    s\<lparr>es_summary := a, es_issue_type := b, es_project_key := c, es_priority := d\<rparr>"
proof -
  note keys = description_keys_def criteria_keys_def edit_prefixes_def is_uspace_def ascii_lower_def
  have one: "edit_line s (([0x6A19, 0x984C] @ codes '': '') @ a) = s\<lparr>es_summary := a\<rparr>" if "es_mode s = EM_Header" for s
    using header_line_read[of a "([0x6A19, 0x984C])" EF_Summary s] assms(1) that by (simp add: keys)
  have two: "edit_line s (([0x985E, 0x578B] @ codes '': '') @ b) = s\<lparr>es_issue_type := b\<rparr>" if "es_mode s = EM_Header" for s
    using header_line_read[of b "([0x985E, 0x578B])" EF_Issue_Type s] assms(1) that by (simp add: keys)
  have three: "edit_line s (([0x5C08, 0x6848] @ codes '': '') @ c) = s\<lparr>es_project_key := c\<rparr>" if "es_mode s = EM_Header" for s
    using header_line_read[of c "([0x5C08, 0x6848])" EF_Project s] assms(1) that by (simp add: keys)
  have four: "edit_line s (([0x512A, 0x5148, 0x7D1A] @ codes '': '') @ d) = s\<lparr>es_priority := d\<rparr>" if "es_mode s = EM_Header" for s
    using header_line_read[of d "([0x512A, 0x5148, 0x7D1A])" EF_Priority s] assms(1) that by (simp add: keys)
  show ?thesis using one two three four assms(2) by simp
qed

lemma description_read:
  "list_all description_line_ok ls \<Longrightarrow> es_mode s = EM_Description \<Longrightarrow> foldl edit_line s ls = s\<lparr>es_description := es_description s @ ls\<rparr>"
proof (induction ls arbitrary: s)
  case (Cons l ls)
  then have "edit_line s l = s\<lparr>es_description := es_description s @ [l]\<rparr>"
    by (simp add: edit_line_def Let_def description_line_ok_def line_key_def)
  with Cons show ?case by simp
qed simp

lemma criterion_line_read:
  assumes "criterion_ok c" and "es_mode s = EM_Criteria"
  shows "edit_line s (0x2D # 0x20 # c) = s\<lparr>es_criteria := es_criteria s @ [c]\<rparr>"
proof -
  from assms(1) have c: "c \<noteq> []" "ustrip c = c" "strip_marks c = c" "\<not> placeholder c" by (simp_all add: criterion_ok_def)
  have "ustrip (0x2D # 0x20 # c) = 0x2D # 0x20 # c" using c uspace_ends[of c] by (intro ustrip_ends) (simp add: is_uspace_def)
  moreover have "strip_marks (0x2D # 0x20 # c) = c" using c(3) by (simp add: strip_marks_def)
  moreover have "0x2D # t \<notin> set description_keys" "0x2D # t \<notin> set criteria_keys" for t
    by (simp_all add: description_keys_def criteria_keys_def)
  ultimately show ?thesis using assms(2) c by (simp add: edit_line_def Let_def ascii_lower_def)
qed

lemma criteria_read:
  "list_all criterion_ok cs \<Longrightarrow> es_mode s = EM_Criteria \<Longrightarrow>
     foldl edit_line s (map (\<lambda>i. (codes ''- '') @ i) cs) = s\<lparr>es_criteria := es_criteria s @ cs\<rparr>"
proof (induction cs arbitrary: s)
  case (Cons c cs)
  with criterion_line_read[of c s] show ?case by simp
qed simp

lemma section_lines_read:
  "edit_line s ([0x63CF, 0x8FF0] @ codes '':'') = s\<lparr>es_mode := EM_Description\<rparr>" "edit_line s ([0x9A57, 0x6536, 0x6A19, 0x6E96] @ codes '':'') = s\<lparr>es_mode := EM_Criteria\<rparr>"
  "es_mode s = EM_Description \<Longrightarrow> edit_line s [] = s\<lparr>es_description := es_description s @ [[]]\<rparr>"
  "es_mode s = EM_Criteria \<Longrightarrow> edit_line s ((codes ''- ('' @ [0x8ACB, 0x8F38, 0x5165, 0x9A57, 0x6536, 0x6A19, 0x6E96] @ codes '')'')) = s"
  by (simp_all add: edit_line_def Let_def description_keys_def criteria_keys_def ustrip_def is_uspace_def ascii_lower_def strip_marks_def placeholder_def)

definition criteria_lines :: "legacy_template \<Rightarrow> utext list" where
  "criteria_lines t = (if lt_acceptance_criteria t = [] then [(codes ''- ('' @ [0x8ACB, 0x8F38, 0x5165, 0x9A57, 0x6536, 0x6A19, 0x6E96] @ codes '')'')] else map (\<lambda>i. (codes ''- '') @ i) (lt_acceptance_criteria t))"

definition editable_lines :: "legacy_template \<Rightarrow> utext list" where
  "editable_lines t = [([0x6A19, 0x984C] @ codes '': '') @ lt_summary t, ([0x985E, 0x578B] @ codes '': '') @ lt_issue_type t, ([0x5C08, 0x6848] @ codes '': '') @ lt_project_key t, ([0x512A, 0x5148, 0x7D1A] @ codes '': '') @ lt_priority t, ([0x63CF, 0x8FF0] @ codes '':'')] @
     text_lines False [] (lt_description t) @ [[], ([0x9A57, 0x6536, 0x6A19, 0x6E96] @ codes '':'')] @ criteria_lines t"

lemma text_join_Cons: "xs \<noteq> [] \<Longrightarrow> text_join sep (x # xs) = x @ sep @ text_join sep xs"
  by (cases xs) simp_all

lemma editable_text_lines:
  assumes "reads_back t"
  shows "jira_template_editable_text t = text_join [0x0A] (editable_lines t)"
proof -
  let ?ls = "text_lines False [] (lt_description t)"
  from assms have d: "text_join [0x0A] ?ls = lt_description t" "lt_description t \<noteq> []" by (simp_all add: reads_back_def)
  then have ls: "?ls \<noteq> []" by (metis text_join.simps(1))
  have "text_join [0x0A] (?ls @ [[], ([0x9A57, 0x6536, 0x6A19, 0x6E96] @ codes '':'')] @ criteria_lines t) =
      lt_description t @ [0x0A, 0x0A] @ ([0x9A57, 0x6536, 0x6A19, 0x6E96] @ codes '':'') @ [0x0A] @ text_join [0x0A] (criteria_lines t)"
    using ls d by (simp add: text_join_append text_join_Cons criteria_lines_def)
  moreover have "text_join [0x0A] (criteria_lines t) = or_text_blank (dashed (lt_acceptance_criteria t)) (codes ''- ('' @ [0x8ACB, 0x8F38, 0x5165, 0x9A57, 0x6536, 0x6A19, 0x6E96] @ codes '')'')"
  proof (cases "lt_acceptance_criteria t")
    case Nil
    then show ?thesis by (simp add: criteria_lines_def dashed_def or_text_blank_def)
  next
    case (Cons c cs)
    have "dashed (c # cs) \<noteq> []" by (cases cs) (simp_all add: dashed_def)
    moreover have "criteria_lines t = map (\<lambda>i. (codes ''- '') @ i) (lt_acceptance_criteria t)" using Cons by (simp add: criteria_lines_def)
    then have "text_join [0x0A] (criteria_lines t) = dashed (lt_acceptance_criteria t)" by (simp only: dashed_def)
    ultimately show ?thesis using Cons by (simp add: or_text_blank_def)
  qed
  ultimately show ?thesis using assms ls d
    by (simp add: editable_lines_def jira_template_editable_text_def text_join_Cons or_text_blank_def reads_back_def header_value_def)
qed

lemma editable_lines_unbroken:
  assumes "reads_back t"
  shows "list_all unbroken (editable_lines t)"
proof -
  have "list_all unbroken (text_lines False [] (lt_description t))"
    using assms by (auto simp: reads_back_def description_line_ok_def list_all_iff)
  moreover have "list_all unbroken (criteria_lines t)"
    using assms by (auto simp: criteria_lines_def reads_back_def criterion_ok_def unbroken_def is_line_break_def list_all_iff)
  ultimately show ?thesis
    using assms by (auto simp: editable_lines_def reads_back_def header_value_def unbroken_def is_line_break_def)
qed

lemma editable_text_stripped:
  assumes "reads_back t"
  shows "ustrip (jira_template_editable_text t) = jira_template_editable_text t"
proof (rule ustrip_ends, rule disjI2, rule conjI)
  show "\<not> is_uspace (hd (jira_template_editable_text t))" by (simp add: jira_template_editable_text_def is_uspace_def)
  have "text_join [0x0A] xs \<noteq> [] \<and> last (text_join [0x0A] xs) = last (last xs)" if "xs \<noteq> []" "last xs \<noteq> []" for xs :: "utext list"
    using that by (induction "[0x0A :: nat]" xs rule: text_join.induct) auto
  moreover have "editable_lines t \<noteq> []" "last (editable_lines t) = last (criteria_lines t)" "criteria_lines t \<noteq> []"
    by (simp_all add: editable_lines_def criteria_lines_def)
  moreover have "last (criteria_lines t) \<noteq> [] \<and> \<not> is_uspace (last (last (criteria_lines t)))"
  proof (cases "lt_acceptance_criteria t" rule: rev_cases)
    case Nil
    then show ?thesis by (simp add: criteria_lines_def is_uspace_def)
  next
    case (snoc cs c)
    with assms have "criterion_ok c" by (simp add: reads_back_def)
    with uspace_ends[of c] snoc show ?thesis by (simp add: criteria_lines_def criterion_ok_def)
  qed
  ultimately show "\<not> is_uspace (last (jira_template_editable_text t))" unfolding editable_text_lines[OF assms] by metis
qed

text \<open>
  The text offered for editing, sent back as it is, gives the template it was made of: its header, description and criteria, with the
  labels, components and the assignee of the original.  The header must not contain a bracket or a wide colon, no line of
  the description may read like a heading, and the criteria must not start with a mark.
\<close>

theorem edited_template_read_back:
  assumes "reads_back t"
  shows "parse_edited_template (jira_template_editable_text t) t = Inr t"
proof -
  let ?ls = "text_lines False [] (lt_description t)" and ?s = "edit_start t"
  have "criteria_lines t \<noteq> []" "last (criteria_lines t) \<noteq> []"
    by (cases "lt_acceptance_criteria t" rule: rev_cases; simp add: criteria_lines_def)+
  then have "last (editable_lines t) \<noteq> []" by (simp add: editable_lines_def)
  with text_lines_join[OF editable_lines_unbroken[OF assms]] editable_text_lines[OF assms]
  have lines: "text_lines False [] (ustrip (jira_template_editable_text t)) = editable_lines t"
    unfolding editable_text_stripped[OF assms] by (simp add: editable_lines_def)
  have header: "foldl edit_line ?s [([0x6A19, 0x984C] @ codes '': '') @ lt_summary t, ([0x985E, 0x578B] @ codes '': '') @ lt_issue_type t, ([0x5C08, 0x6848] @ codes '': '') @ lt_project_key t, ([0x512A, 0x5148, 0x7D1A] @ codes '': '') @ lt_priority t] = ?s"
    using header_read[of "lt_summary t" "lt_issue_type t" "lt_project_key t" "lt_priority t" ?s] assms
    by (simp add: reads_back_def edit_start_def)
  have desc: "list_all description_line_ok ?ls" "text_join [0x0A] ?ls = lt_description t" "lt_description t \<noteq> []"
      "ustrip (lt_description t) = lt_description t" and crit: "list_all criterion_ok (lt_acceptance_criteria t)"
    using assms by (simp_all add: reads_back_def)
  have criteria: "foldl edit_line s (criteria_lines t) = s\<lparr>es_criteria := es_criteria s @ lt_acceptance_criteria t\<rparr>" if "es_mode s = EM_Criteria" for s
    using criteria_read[OF crit that] section_lines_read(4)[OF that] by (simp add: criteria_lines_def)
  let ?d = "?s\<lparr>es_mode := EM_Description\<rparr>" and ?e = "?s\<lparr>es_mode := EM_Description, es_description := ?ls\<rparr>"
    and ?f = "?s\<lparr>es_mode := EM_Criteria, es_description := ?ls @ [[]]\<rparr>"
  have ends: "foldl edit_line ?d ?ls = ?e" "foldl edit_line ?f (criteria_lines t) = ?f\<lparr>es_criteria := lt_acceptance_criteria t\<rparr>"
    using description_read[OF desc(1), of ?d] criteria[of ?f] by (simp_all add: edit_start_def)
  have middle: "foldl edit_line ?s [([0x63CF, 0x8FF0] @ codes '':'')] = ?d" "foldl edit_line ?e [[], ([0x9A57, 0x6536, 0x6A19, 0x6E96] @ codes '':'')] = ?f"
    by (simp_all only: foldl.simps section_lines_read) (simp_all add: section_lines_read(2,3) edit_start_def)
  have split: "editable_lines t =
      [([0x6A19, 0x984C] @ codes '': '') @ lt_summary t, ([0x985E, 0x578B] @ codes '': '') @ lt_issue_type t, ([0x5C08, 0x6848] @ codes '': '') @ lt_project_key t, ([0x512A, 0x5148, 0x7D1A] @ codes '': '') @ lt_priority t] @ [([0x63CF, 0x8FF0] @ codes '':'')] @ ?ls @
      [[], ([0x9A57, 0x6536, 0x6A19, 0x6E96] @ codes '':'')] @ criteria_lines t" by (simp add: editable_lines_def)
  have "foldl edit_line ?s (editable_lines t) = ?f\<lparr>es_criteria := lt_acceptance_criteria t\<rparr>"
    unfolding split by (simp only: foldl_append header middle ends)
  moreover have "?ls \<noteq> []" using desc by (metis text_join.simps(1))
  then have "text_join [0x0A] (?ls @ [[]]) = lt_description t @ [0x0A]" using desc by (simp add: text_join_append)
  moreover have "ustrip (lt_description t @ [0x0A]) = lt_description t"
    using desc by (intro ustrip_newline)
  moreover have "lt_issue_type t \<noteq> []" using assms by (simp add: reads_back_def header_value_def)
  ultimately show ?thesis using desc unfolding parse_edited_template_def lines
    by (simp add: Let_def legacy_template_new_def or_blank_def or_text_blank_def edit_start_def)
qed

definition sample_legacy :: legacy_template where
  "sample_legacy = \<lparr>lt_project_key = (codes ''OPS''), lt_issue_type = ([0x7F3A, 0x9677]), lt_summary = ([0x78C1, 0x789F]), lt_description = (codes ''a'' @ [0xA] @ codes ''b''), lt_priority = (codes ''High''),
     lt_labels = [(codes ''x'')], lt_components = [], lt_assignee = [], lt_acceptance_criteria = [(codes ''ok'')]\<rparr>"

theorem edited_template_read_back_witness:
  "parse_edited_template (jira_template_editable_text sample_legacy) sample_legacy = Inr sample_legacy"
  by (rule edited_template_read_back)
    (simp add: sample_legacy_def reads_back_def header_value_def description_line_ok_def criterion_ok_def line_key_def unbroken_def
      is_line_break_def ustrip_def is_uspace_def description_keys_def criteria_keys_def ascii_lower_def strip_marks_def placeholder_def)

text \<open>A summary with a bracket loses what follows it, and a line of the description that reads like a heading moves to another field.\<close>

lemma bracket_cut_from_summary:
  "parse_edited_template (jira_template_editable_text (sample_legacy\<lparr>lt_summary := (codes ''GC (G1)'')\<rparr>)) sample_legacy =
   Inr (sample_legacy\<lparr>lt_summary := (codes ''GC'')\<rparr>)"
  by (simp add: sample_legacy_def jira_template_editable_text_def or_text_blank_def dashed_def parse_edited_template_def Let_def ustrip_def is_uspace_def
      is_line_break_def edit_line_def description_keys_def criteria_keys_def edit_prefixes_def ascii_lower_def strip_marks_def placeholder_def edit_start_def
      legacy_template_new_def or_blank_def)

end
