(* ===== verification/Patterns.thy ===== *)
theory Patterns
  imports Intake_Analysis
begin

text \<open>
  Regular expressions of Python's \<open>re\<close>, as far as \<open>src/scripts/handoff.py\<close> uses them: literals (also without case), bounded and
  unbounded runs of a class of characters (greedy or lazy), sequence, choice, groups and the zero-width assertions.  A pattern gives
  at a position the ends of its matches in the order in which the backtracking of \<open>re\<close> tries them; the first one is the match.
\<close>

datatype pattern =
    P_Empty | P_Text bool string | P_Run bool "char \<Rightarrow> bool" nat "nat option" | P_Seq pattern pattern | P_Choice pattern pattern
  | P_Group nat pattern | P_Word_Boundary | P_Line_Start | P_Line_End

type_synonym captures = "(nat \<times> string) list"

definition lower_ascii :: "string \<Rightarrow> string" where
  "lower_ascii s = map (\<lambda>c. let n = (of_char c :: nat) in if 65 \<le> n \<and> n \<le> 90 then char_of (n + 32) else c) s"

text \<open>The slice \<open>s[i:j]\<close> for \<open>i \<le> j\<close>.\<close>

definition slice :: "nat \<Rightarrow> nat \<Rightarrow> 'a list \<Rightarrow> 'a list" where
  "slice i j s = take (j - i) (drop i s)"

definition word_at :: "string \<Rightarrow> nat \<Rightarrow> bool" where
  "word_at s i \<longleftrightarrow> i < length s \<and> is_word_char (s ! i)"

definition word_boundary :: "string \<Rightarrow> nat \<Rightarrow> bool" where
  "word_boundary s i \<longleftrightarrow> (0 < i \<and> word_at s (i - 1)) \<noteq> word_at s i"

definition run_ends :: "bool \<Rightarrow> (char \<Rightarrow> bool) \<Rightarrow> nat \<Rightarrow> nat option \<Rightarrow> string \<Rightarrow> nat \<Rightarrow> nat list" where
  "run_ends greedy P least most s i =
     (let n = length (takeWhile P (drop i s)); top = (case most of None \<Rightarrow> n | Some m \<Rightarrow> min m n);
          ends = map (\<lambda>k. i + k) [least..<Suc top]
      in if greedy then rev ends else ends)"

fun pattern_matches :: "pattern \<Rightarrow> string \<Rightarrow> nat \<Rightarrow> (nat \<times> captures) list" where
  "pattern_matches P_Empty s i = [(i, [])]"
| "pattern_matches (P_Text nocase w) s i =
     (let t = slice i (i + length w) s in
      if (if nocase then lower_ascii t = lower_ascii w else t = w) then [(i + length w, [])] else [])"
| "pattern_matches (P_Run greedy P least most) s i = map (\<lambda>j. (j, [])) (run_ends greedy P least most s i)"
| "pattern_matches (P_Seq a b) s i =
     concat (map (\<lambda>(j, c). map (\<lambda>(k, d). (k, c @ d)) (pattern_matches b s j)) (pattern_matches a s i))"
| "pattern_matches (P_Choice a b) s i = pattern_matches a s i @ pattern_matches b s i"
| "pattern_matches (P_Group n a) s i = map (\<lambda>(j, c). (j, (n, slice i j s) # c)) (pattern_matches a s i)"
| "pattern_matches P_Word_Boundary s i = (if word_boundary s i then [(i, [])] else [])"
| "pattern_matches P_Line_Start s i = (if i = 0 \<or> s ! (i - 1) = CHR 0x0A then [(i, [])] else [])"
| "pattern_matches P_Line_End s i = (if length s \<le> i \<or> s ! i = CHR 0x0A then [(i, [])] else [])"

definition p_seq :: "pattern list \<Rightarrow> pattern" where
  "p_seq ps = foldr P_Seq ps P_Empty"

fun p_choice :: "pattern list \<Rightarrow> pattern" where
  "p_choice [] = P_Empty"
| "p_choice [p] = p"
| "p_choice (p # q # ps) = P_Choice p (p_choice (q # ps))"

text \<open>\<open>search\<close>, \<open>fullmatch\<close>, and \<open>finditer\<close> for patterns that match no empty text.\<close>

definition re_search :: "pattern \<Rightarrow> string \<Rightarrow> bool" where
  "re_search p s = list_ex (\<lambda>i. pattern_matches p s i \<noteq> []) [0..<Suc (length s)]"

definition re_fullmatch :: "pattern \<Rightarrow> string \<Rightarrow> bool" where
  "re_fullmatch p s = list_ex (\<lambda>(j, _). j = length s) (pattern_matches p s 0)"

function re_finditer :: "pattern \<Rightarrow> string \<Rightarrow> nat \<Rightarrow> (nat \<times> nat \<times> captures) list" where
  "re_finditer p s i =
     (if length s < i then []
      else case pattern_matches p s i of
        [] \<Rightarrow> re_finditer p s (Suc i)
      | (j, c) # _ \<Rightarrow> (i, j, c) # re_finditer p s (max j (Suc i)))"
  by pat_completeness auto
termination by (relation "measure (\<lambda>(_, s, i). Suc (length s) - i)") auto

declare re_finditer.simps [simp del]

fun sub_from :: "(captures \<Rightarrow> string) \<Rightarrow> string \<Rightarrow> nat \<Rightarrow> (nat \<times> nat \<times> captures) list \<Rightarrow> string" where
  "sub_from f s i [] = drop i s"
| "sub_from f s i ((j, k, c) # ms) = slice i j s @ f c @ sub_from f s k ms"

definition re_sub :: "pattern \<Rightarrow> (captures \<Rightarrow> string) \<Rightarrow> string \<Rightarrow> string" where
  "re_sub p f s = sub_from f s 0 (re_finditer p s 0)"

definition capture :: "captures \<Rightarrow> nat \<Rightarrow> string" where
  "capture c n = (case map_of c n of None \<Rightarrow> [] | Some t \<Rightarrow> t)"

section \<open>Where a pattern can end\<close>

definition ends_at :: "pattern \<Rightarrow> string \<Rightarrow> nat \<Rightarrow> nat \<Rightarrow> bool" where
  "ends_at p s i j \<longleftrightarrow> j \<in> fst ` set (pattern_matches p s i)"

lemma re_search_iff: "re_search p s \<longleftrightarrow> (\<exists>i j. i \<le> length s \<and> ends_at p s i j)"
proof -
  have "pattern_matches p s i \<noteq> [] \<longleftrightarrow> (\<exists>j. ends_at p s i j)" for i
    by (cases "pattern_matches p s i") (auto simp: ends_at_def)
  then show ?thesis by (auto simp: re_search_def list_ex_iff less_Suc_eq_le simp del: upt_Suc)
qed

lemma ends_at_seq: "ends_at (P_Seq a b) s i k \<longleftrightarrow> (\<exists>j. ends_at a s i j \<and> ends_at b s j k)"
  unfolding ends_at_def by (auto simp: image_iff) force+

lemma ends_at_p_seq:
  "ends_at (p_seq []) s i k \<longleftrightarrow> k = i"
  "ends_at (p_seq (p # ps)) s i k \<longleftrightarrow> (\<exists>j. ends_at p s i j \<and> ends_at (p_seq ps) s j k)"
  by (simp_all add: p_seq_def ends_at_seq) (simp add: ends_at_def)

lemma ends_at_choice: "ends_at (P_Choice a b) s i k \<longleftrightarrow> ends_at a s i k \<or> ends_at b s i k"
  by (auto simp: ends_at_def)

lemma ends_at_group: "ends_at (P_Group n a) s i k \<longleftrightarrow> ends_at a s i k"
  unfolding ends_at_def by (simp add: image_image case_prod_unfold)

lemma ends_at_boundary: "ends_at P_Word_Boundary s i k \<longleftrightarrow> k = i \<and> word_boundary s i"
  by (auto simp: ends_at_def)

lemma ends_at_text: "ends_at (P_Text False w) s i k \<longleftrightarrow> k = i + length w \<and> slice i k s = w"
  by (auto simp: ends_at_def Let_def)

lemma ends_at_run:
  "ends_at (P_Run g P least most) s i k \<longleftrightarrow>
     i + least \<le> k \<and> k \<le> i + length (takeWhile P (drop i s)) \<and> (\<forall>m. most = Some m \<longrightarrow> k \<le> i + m)"
proof -
  have "ends_at (P_Run g P least most) s i k \<longleftrightarrow> k \<in> set (run_ends g P least most s i)"
    by (simp add: ends_at_def image_image)
  also have "\<dots> \<longleftrightarrow> i + least \<le> k \<and> k \<le> i + length (takeWhile P (drop i s)) \<and> (\<forall>m. most = Some m \<longrightarrow> k \<le> i + m)"
  proof (cases most)
    case None
    then show ?thesis by (auto simp: run_ends_def Let_def image_iff less_Suc_eq_le intro!: bexI[of _ "k - i"] simp del: upt_Suc)
  next
    case (Some m)
    then show ?thesis by (auto simp: run_ends_def Let_def image_iff less_Suc_eq_le intro!: bexI[of _ "k - i"] simp del: upt_Suc)
  qed
  finally show ?thesis .
qed

lemmas ends_at_simps = ends_at_p_seq ends_at_choice ends_at_group ends_at_boundary ends_at_text ends_at_run

lemma run_in_text:
  assumes "list_all P w"
  shows "length (takeWhile P (drop (length a) (a @ w @ b))) = length w + length (takeWhile P b)"
  using assms by (simp add: takeWhile_append2 list_all_iff)

lemma text_in_text: "ends_at (P_Text False w) (a @ w @ b) (length a) (length a + length w)"
  by (simp add: ends_at_text slice_def)

lemma word_at_text: "word_at (a @ b) (length a) \<longleftrightarrow> b \<noteq> [] \<and> is_word_char (hd b)"
  by (cases b) (auto simp: word_at_def nth_append)

lemma boundary_in_text:
  "word_boundary (a @ b) (length a) \<longleftrightarrow> (a \<noteq> [] \<and> is_word_char (last a)) \<noteq> (b \<noteq> [] \<and> is_word_char (hd b))"
proof -
  have "(0 < length a \<and> word_at (a @ b) (length a - 1)) \<longleftrightarrow> a \<noteq> [] \<and> is_word_char (last a)"
    by (cases a rule: rev_cases) (auto simp: word_at_def nth_append)
  then show ?thesis by (simp add: word_boundary_def word_at_text)
qed

end
