(* ===== verification/Handoff.thy ===== *)
theory Handoff
  imports Patterns Url
begin

text \<open>
  \<open>src/scripts/handoff.py\<close>: the script that refreshes the hand-over document, scans the repository for secrets, and pushes or pulls
  it.  The working tree is a map from relative paths to nodes; a file is its text, whose size in bytes is a parameter.  Git is a
  parameter too: a function of the arguments, the tree and a state of its own.  Every call of it is logged.
\<close>

section \<open>The world\<close>

datatype tree_node = Absent | Directory | Regular string | Link tree_node

primrec node_exists :: "tree_node \<Rightarrow> bool" where
  "node_exists Absent = False"
| "node_exists Directory = True"
| "node_exists (Regular _) = True"
| "node_exists (Link n) = node_exists n"

primrec node_text :: "tree_node \<Rightarrow> string option" where
  "node_text Absent = None"
| "node_text Directory = None"
| "node_text (Regular t) = Some t"
| "node_text (Link n) = node_text n"

fun is_link :: "tree_node \<Rightarrow> bool" where
  "is_link (Link _) = True"
| "is_link _ = False"

type_synonym tree = "string \<Rightarrow> tree_node"

record git_result =
  gr_code :: int
  gr_stdout :: string
  gr_stderr :: string

record 'g git_env =
  ge_run :: "string list \<Rightarrow> tree \<times> 'g \<Rightarrow> git_result \<times> tree \<times> 'g"
  ge_size :: "string \<Rightarrow> nat"
  ge_now :: string
  ge_today :: string

record 'g hand_world =
  hw_tree :: tree
  hw_git :: 'g
  hw_log :: "string list list"
  hw_printed :: "string list"

text \<open>\<open>HandoffError\<close>, the \<open>ValueError\<close> of \<open>str.index\<close> and the \<open>OSError\<close> of a missing file; \<open>main\<close> catches all three.\<close>

datatype hand_error = HandoffError string | Substring_Not_Found | File_Not_Found

type_synonym ('g, 'a) hand_sx = "('g hand_world, hand_error, 'a) sx"

section \<open>Text\<close>

fun split_lines :: "bool \<Rightarrow> string \<Rightarrow> string \<Rightarrow> string list" where
  "split_lines after_cr w [] = (if w = [] then [] else [w])"
| "split_lines after_cr w (c # cs) =
     (let n = (of_char c :: nat) in
      if after_cr \<and> n = 10 then split_lines False [] cs
      else if (10 \<le> n \<and> n \<le> 13) \<or> (28 \<le> n \<and> n \<le> 30) \<or> n = 133 then w # split_lines (n = 13) [] cs
      else split_lines False (w @ [c]) cs)"

definition splitlines :: "string \<Rightarrow> string list" where
  "splitlines s = split_lines False [] s"

text \<open>What \<open>read_text\<close> makes of line ends.\<close>

fun universal_newlines :: "bool \<Rightarrow> string \<Rightarrow> string" where
  "universal_newlines after_cr [] = []"
| "universal_newlines after_cr (c # cs) =
     (if c = CHR 0x0D then CHR 0x0A # universal_newlines True cs
      else if after_cr \<and> c = CHR 0x0A then universal_newlines False cs
      else c # universal_newlines False cs)"

fun find_text :: "string \<Rightarrow> string \<Rightarrow> nat option" where
  "find_text p [] = (if p = [] then Some 0 else None)"
| "find_text p (c # cs) = (if starts_with p (c # cs) then Some 0 else map_option Suc (find_text p cs))"

text \<open>\<open>str.count\<close> of a text that is not empty: \<open>skip\<close> characters belong to the occurrence before.\<close>

fun count_from :: "nat \<Rightarrow> string \<Rightarrow> string \<Rightarrow> nat" where
  "count_from skip p [] = 0"
| "count_from skip p (c # cs) =
     (if 0 < skip then count_from (skip - 1) p cs
      else if starts_with p (c # cs) then Suc (count_from (length p - 1) p cs) else count_from 0 p cs)"

definition join_spaces :: "string list \<Rightarrow> string" where
  "join_spaces ws = (case ws of [] \<Rightarrow> [] | w # vs \<Rightarrow> w @ concat (map (\<lambda>v. '' '' @ v) vs))"

definition ends_with :: "string \<Rightarrow> string \<Rightarrow> bool" where
  "ends_with p s \<longleftrightarrow> starts_with (rev p) (rev s)"

section \<open>What counts as a secret\<close>

definition HANDOFF_PATH :: string where "HANDOFF_PATH = ''docs/context/HANDOFF.md''"
definition METADATA_START :: string where "METADATA_START = ''<!-- HANDOFF-METADATA:START -->''"
definition METADATA_END :: string where "METADATA_END = ''<!-- HANDOFF-METADATA:END -->''"
definition MAX_SCAN_BYTES :: nat where "MAX_SCAN_BYTES = 5000000"

definition secret_char :: "char \<Rightarrow> bool" where
  "secret_char c \<longleftrightarrow> (let n = (of_char c :: nat) in
     (65 \<le> n \<and> n \<le> 90) \<or> (97 \<le> n \<and> n \<le> 122) \<or> (48 \<le> n \<and> n \<le> 57) \<or> c = CHR ''_'' \<or> c = CHR ''-'')"

abbreviation not_blank_or :: "string \<Rightarrow> char \<Rightarrow> bool" where
  "not_blank_or cs c \<equiv> \<not> is_space c \<and> c \<notin> set cs"

definition url_scheme :: pattern where
  "url_scheme = p_seq [P_Text True ''http'', p_choice [P_Text True ''s'', P_Empty], P_Text False ''://'']"

definition telegram_token :: pattern where
  "telegram_token = p_seq [P_Word_Boundary, P_Run True is_digit 6 (Some 12), P_Text False '':'', P_Run True secret_char 20 None, P_Word_Boundary]"

definition google_key :: pattern where
  "google_key = p_seq [P_Word_Boundary, P_Text False ''AIza'', P_Run True secret_char 20 None, P_Word_Boundary]"

definition private_key :: pattern where
  "private_key = p_seq [P_Text False ''-----BEGIN '', p_choice [P_Text False ''RSA '', P_Text False ''OPENSSH '', P_Text False ''EC '', P_Empty],
     P_Text False ''PRIVATE KEY-----'']"

definition url_credential :: pattern where
  "url_credential = p_seq [url_scheme, P_Run True (not_blank_or ''/:@'') 1 None, P_Text False '':'', P_Run True (not_blank_or ''@'') 1 None, P_Text False ''@'']"

definition jira_cloud :: pattern where
  "jira_cloud = p_seq [url_scheme, P_Run True (not_blank_or ''/'') 1 None, P_Text True ''.atlassian.net'',
     p_choice [p_seq [P_Text False ''/'', P_Run True (not_blank_or []) 0 None], P_Empty]]"

definition CREDENTIAL_PATTERNS :: "(string \<times> pattern) list" where
  "CREDENTIAL_PATTERNS = [(''Telegram-token-shaped value'', telegram_token), (''Google-key-shaped value'', google_key),
     (''private-key material'', private_key), (''credential embedded in URL'', url_credential), (''Jira cloud endpoint'', jira_cloud)]"

definition assignment_of :: "string list \<Rightarrow> pattern" where
  "assignment_of names = p_seq [P_Line_Start, P_Run True is_space 0 None, P_Group 1 (p_choice (map (P_Text False) names)),
     P_Run True is_space 0 None, P_Text False ''='', P_Run True is_space 0 None,
     P_Group 2 (P_Run False (\<lambda>c. c \<noteq> CHR 0x0A) 0 None), P_Run True is_space 0 None, P_Line_End]"

definition SENSITIVE_ASSIGNMENTS :: "pattern list" where
  "SENSITIVE_ASSIGNMENTS = [assignment_of [''TELEGRAM_BOT_TOKEN'', ''GEMINI_API_KEY'', ''VPN_PASSWORD'', ''IPSEC_PSK'']]"

definition VPN_PROFILE_ASSIGNMENTS :: "pattern list" where
  "VPN_PROFILE_ASSIGNMENTS = [assignment_of [''ipsec-psk'', ''password'', ''gateway'']]"

definition SAFE_VALUE_PREFIXES :: "string list" where
  "SAFE_VALUE_PREFIXES = [''TODO'', ''PLACEHOLDER'', ''TEST_ONLY'', ''<'', ''${'', CHR 0x22 # ''TODO'', CHR 0x27 # ''TODO'']"

definition assignment_findings :: "string \<Rightarrow> pattern \<Rightarrow> string list" where
  "assignment_findings s p =
     map (\<lambda>(_, _, c). ''configured '' @ capture c 1 @ '' assignment'')
       (filter (\<lambda>(_, _, c). py_strip (capture c 2) \<noteq> [] \<and> \<not> list_ex (\<lambda>prefix. starts_with prefix (py_strip (capture c 2))) SAFE_VALUE_PREFIXES)
         (re_finditer p s 0))"

definition secret_findings_in_text :: "string \<Rightarrow> bool \<Rightarrow> string list" where
  "secret_findings_in_text s scan_vpn =
     sort (remdups (map fst (filter (\<lambda>(_, p). re_search p s) CREDENTIAL_PATTERNS) @
       concat (map (assignment_findings s) (SENSITIVE_ASSIGNMENTS @ (if scan_vpn then VPN_PROFILE_ASSIGNMENTS else [])))))"

definition path_name :: "path \<Rightarrow> string" where
  "path_name p = (if pt_names p = [] then [] else List.last (pt_names p))"

definition path_suffix :: "path \<Rightarrow> string" where
  "path_suffix p =
     (let name = path_name p; tail = takeWhile (\<lambda>c. c \<noteq> CHR ''.'') (rev name) in
      if CHR ''.'' \<in> set name \<and> tail \<noteq> [] \<and> Suc (length tail) < length name then CHR ''.'' # rev tail else [])"

definition path_forbidden :: "string \<Rightarrow> string option" where
  "path_forbidden relative =
     (let normalized = map (\<lambda>c. if c = CHR 0x5C then CHR ''/'' else c) relative; p = parse_path normalized; lower = py_lower normalized in
      if lower = ''.env'' \<or> starts_with ''.env.'' lower \<and> lower \<noteq> ''.env.example'' then Some ''environment file''
      else if starts_with ''src/ref/'' lower \<or> py_lower (path_name p) = ''vpnsettings.xml'' then Some ''private VPN reference''
      else if list_ex (\<lambda>part. py_lower part \<in> {''secrets'', ''credentials'', ''private''}) (path_parts p) then Some ''private-data directory''
      else if py_lower (path_suffix p) \<in> {''.key'', ''.pem'', ''.p12'', ''.pfx'', ''.ovpn'', ''.wg''} then Some ''credential or VPN file''
      else if ends_with ''.nmconnection'' lower \<and> \<not> ends_with ''.example.nmconnection'' lower then Some ''private NetworkManager profile''
      else None)"

section \<open>Git\<close>

definition redact_url :: "string \<Rightarrow> string" where
  "redact_url = re_sub (p_seq [P_Group 1 url_scheme, P_Run True (not_blank_or ''/@:'') 1 None, P_Text False '':'',
     P_Run True (not_blank_or ''@'') 1 None, P_Text False ''@'']) (\<lambda>c. capture c 1 @ ''<redacted>@'')"

definition redact_token :: "string \<Rightarrow> string" where
  "redact_token = re_sub (p_seq [P_Word_Boundary,
     p_choice [p_seq [P_Text False ''gh'', P_Run True (\<lambda>c. c \<in> set ''pousr'') 1 (Some 1), P_Text False ''_''], P_Text False ''github_pat_'', P_Text False ''AIza''],
     P_Run True secret_char 1 None, P_Word_Boundary]) (\<lambda>_. ''<redacted-credential>'')"

definition safe_git_error :: "string \<Rightarrow> string" where
  "safe_git_error stderr =
     (let lines = filter (\<lambda>l. l \<noteq> []) (map py_strip (splitlines (redact_token (redact_url stderr)))) in
      take 500 (join_spaces (drop (length lines - 2) lines)))"

definition git_call :: "'g git_env \<Rightarrow> string list \<Rightarrow> 'g hand_world \<Rightarrow> git_result \<times> 'g hand_world" where
  "git_call env args w =
     (case ge_run env args (hw_tree w, hw_git w) of (res, t, g) \<Rightarrow> (res, w\<lparr>hw_tree := t, hw_git := g, hw_log := hw_log w @ [args]\<rparr>))"

definition run_git :: "'g git_env \<Rightarrow> bool \<Rightarrow> string list \<Rightarrow> ('g, git_result) hand_sx" where
  "run_git env check args = (\<lambda>w. case git_call env args w of (res, w') \<Rightarrow>
     (if check \<and> gr_code res \<noteq> 0 then
        Inl (HandoffError (''git '' @ join_spaces (take 2 args) @ '' failed with exit code '' @ decimal_int (gr_code res) @ ''.'' @
          (if safe_git_error (gr_stderr res) = [] then [] else '' '' @ safe_git_error (gr_stderr res))))
      else Inr res, w'))"

definition git_output :: "'g git_env \<Rightarrow> string list \<Rightarrow> ('g, string option) hand_sx" where
  "git_output env args = sx_bind (run_git env False args) (\<lambda>res.
     sx_return (if gr_code res \<noteq> 0 then None else Some (py_strip (gr_stdout res))))"

definition require_repository :: "'g git_env \<Rightarrow> ('g, unit) hand_sx" where
  "require_repository env = sx_bind (git_output env [''rev-parse'', ''--is-inside-work-tree'']) (\<lambda>out.
     sx_ensure (out = Some ''true'') (HandoffError ''Run this helper from the DZTGBot Git repository.''))"

definition branch_char :: "char \<Rightarrow> bool" where
  "branch_char c \<longleftrightarrow> (let n = (of_char c :: nat) in
     (65 \<le> n \<and> n \<le> 90) \<or> (97 \<le> n \<and> n \<le> 122) \<or> (48 \<le> n \<and> n \<le> 57) \<or> c \<in> set ''._/-'')"

definition current_branch :: "'g git_env \<Rightarrow> ('g, string) hand_sx" where
  "current_branch env = sx_bind (git_output env [''branch'', ''--show-current'']) (\<lambda>out.
     (case out of
        Some (c # cs) \<Rightarrow>
          sx_bind (sx_ensure (re_fullmatch (P_Run True branch_char 1 None) (c # cs))
            (HandoffError ''The current branch name contains unsupported characters.'')) (\<lambda>_. sx_return (c # cs))
      | _ \<Rightarrow> sx_raise (HandoffError ''A named Git branch is required; detached HEAD is not supported.'')))"

definition upstream_name :: "'g git_env \<Rightarrow> string \<Rightarrow> ('g, string) hand_sx" where
  "upstream_name env branch =
     sx_bind (git_output env [''rev-parse'', ''--abbrev-ref'', ''--symbolic-full-name'', CHR ''@'' # ''{upstream}'']) (\<lambda>upstream.
     (case upstream of
        Some (c # cs) \<Rightarrow> sx_return (c # cs)
      | _ \<Rightarrow>
          sx_bind (git_output env [''config'', ''--get'', ''branch.'' @ branch @ ''.remote'']) (\<lambda>remote.
          sx_bind (git_output env [''config'', ''--get'', ''branch.'' @ branch @ ''.merge'']) (\<lambda>merge.
            sx_return (case (remote, merge) of
              (Some (r # rs), Some m) \<Rightarrow>
                if starts_with ''refs/heads/'' m then (r # rs) @ ''/'' @ drop (length ''refs/heads/'') m else ''not configured''
            | _ \<Rightarrow> ''not configured'')))))"

definition candidate_paths :: "'g git_env \<Rightarrow> ('g, string list) hand_sx" where
  "candidate_paths env = sx_bind (run_git env True [''ls-files'', ''--cached'', ''--others'', ''--exclude-standard'', ''-z'']) (\<lambda>res.
     sx_return (sort (filter (\<lambda>p. p \<noteq> []) (split_on (CHR 0x00) (gr_stdout res)))))"

section \<open>Validation\<close>

definition scan_path :: "(string \<Rightarrow> nat) \<Rightarrow> string \<Rightarrow> tree_node \<Rightarrow> string list" where
  "scan_path bytes_of p n =
     (case path_forbidden p of
        Some reason \<Rightarrow> [p @ '': forbidden '' @ reason]
      | None \<Rightarrow>
          if \<not> node_exists n then []
          else if is_link n then [p @ '': symbolic links are not accepted by the handoff gate'']
          else (case n of
             Regular t \<Rightarrow>
               if MAX_SCAN_BYTES < bytes_of t then [p @ '': too large for the handoff safety scan'']
               else if CHR 0x00 \<in> set t then []
               else map (\<lambda>r. p @ '': '' @ r) (secret_findings_in_text t (py_lower (path_suffix (parse_path p)) \<noteq> ''.py''))
           | _ \<Rightarrow> []))"

definition secret_scan :: "'g git_env \<Rightarrow> ('g, unit) hand_sx" where
  "secret_scan env = sx_bind (candidate_paths env) (\<lambda>ps. sx_bind (sx_get hw_tree) (\<lambda>tree.
     let findings = concat (map (\<lambda>p. scan_path (ge_size env) p (tree p)) ps) in
     sx_ensure (findings = []) (HandoffError (''Secret-safety validation failed:'' @ concat (map (\<lambda>f. CHR 0x0A # ''- '' @ f) findings)))))"

definition REQUIRED_HEADINGS :: "(string \<times> string list) list" where
  "REQUIRED_HEADINGS =
     [(''docs/context/HANDOFF.md'', [''## Current objective'', ''## Completed'', ''## Decisions'', ''## Open items'', ''## Exact next action'',
         ''## Verification'', ''## Git snapshot metadata'']),
      (''docs/context/CONTINUE_HERE.md'', [''## Current status'', ''## Exact next action'',
         ''## Inputs still required from the user or target environment'', ''## Do not redo'', ''## Required verification on resume'']),
      (''docs/context/PROJECT_CONTEXT.md'', [''## Purpose and boundary'', ''## Current architecture'', ''## Settled decisions'',
         ''## Required private inputs'', ''## Evidence boundaries'', ''## Durable context model''])]"

definition read_text :: "string \<Rightarrow> ('g, string) hand_sx" where
  "read_text p = sx_bind (sx_get (\<lambda>w. node_text (hw_tree w p))) (\<lambda>t.
     (case t of None \<Rightarrow> sx_raise File_Not_Found | Some s \<Rightarrow> sx_return (universal_newlines False s)))"

definition is_file_at :: "string \<Rightarrow> 'g hand_world \<Rightarrow> bool" where
  "is_file_at p w \<longleftrightarrow> node_text (hw_tree w p) \<noteq> None"

definition check_headings :: "string \<times> string list \<Rightarrow> ('g, unit) hand_sx" where
  "check_headings entry = (case entry of (p, headings) \<Rightarrow>
     sx_bind (sx_get (is_file_at p)) (\<lambda>present.
     sx_bind (sx_ensure present (HandoffError (''Required context file is missing: '' @ p))) (\<lambda>_.
     sx_bind (read_text p) (\<lambda>t.
       (case filter (\<lambda>h. \<not> contains h t) headings of
          [] \<Rightarrow> sx_return ()
        | h # _ \<Rightarrow> sx_raise (HandoffError (p @ '' is missing heading: '' @ h)))))))"

definition index_text :: "string \<Rightarrow> string \<Rightarrow> ('g, nat) hand_sx" where
  "index_text p s = (case find_text p s of None \<Rightarrow> sx_raise Substring_Not_Found | Some i \<Rightarrow> sx_return i)"

definition validate_required_files :: "('g, unit) hand_sx" where
  "validate_required_files =
     sx_bind (sx_each check_headings REQUIRED_HEADINGS) (\<lambda>_.
     sx_bind (read_text HANDOFF_PATH) (\<lambda>handoff.
     sx_bind (sx_ensure (count_from 0 METADATA_START handoff = 1 \<and> count_from 0 METADATA_END handoff = 1)
       (HandoffError ''HANDOFF.md must contain exactly one metadata marker pair.'')) (\<lambda>_.
     sx_bind (index_text METADATA_START handoff) (\<lambda>start.
     sx_bind (index_text METADATA_END handoff) (\<lambda>stop.
     sx_bind (sx_ensure (start < stop) (HandoffError ''HANDOFF.md metadata markers are out of order.'')) (\<lambda>_.
       sx_each (\<lambda>p. sx_bind (sx_get (is_file_at p)) (\<lambda>present.
           sx_ensure present (HandoffError (''Required agent entry point is missing: '' @ p)))) [''AGENTS.md'', ''GEMINI.md'', ''README.md'']))))))"

definition validate_ignore_rules :: "'g git_env \<Rightarrow> ('g, unit) hand_sx" where
  "validate_ignore_rules env =
     sx_each (\<lambda>p. sx_bind (run_git env False [''check-ignore'', ''--quiet'', ''--'', p]) (\<lambda>res.
         sx_ensure (gr_code res = 0) (HandoffError (''The Git ignore policy does not protect '' @ p @ ''.''))))
       [''.env'', ''src/ref/vpnsettings.xml'', ''config/private.nmconnection'']"

definition validate_repository :: "'g git_env \<Rightarrow> ('g, unit) hand_sx" where
  "validate_repository env =
     sx_bind (require_repository env) (\<lambda>_. sx_bind validate_required_files (\<lambda>_. sx_bind (validate_ignore_rules env) (\<lambda>_. secret_scan env)))"

section \<open>The four modes\<close>

definition write_text :: "string \<Rightarrow> string \<Rightarrow> ('g, unit) hand_sx" where
  "write_text p s = sx_modify (\<lambda>w. w\<lparr>hw_tree := (hw_tree w)(p := Regular s)\<rparr>)"

text \<open>The text between the markers, with them.\<close>

definition metadata_text :: "string \<Rightarrow> string \<Rightarrow> string \<Rightarrow> string \<Rightarrow> nat \<Rightarrow> string" where
  "metadata_text generated branch upstream base entries =
     METADATA_START @ [CHR 0x0A] @
     ''- Generated UTC: `'' @ generated @ ''`'' @ [CHR 0x0A] @
     ''- Branch: `'' @ branch @ ''`'' @ [CHR 0x0A] @
     ''- Upstream: `'' @ upstream @ ''`'' @ [CHR 0x0A] @
     ''- Base commit before this handoff: `'' @ base @ ''`'' @ [CHR 0x0A] @
     ''- Working-tree entries before metadata refresh: `'' @ decimal entries @ ''`'' @ [CHR 0x0A] @
     ''- The handoff commit is the commit containing this file.'' @ [CHR 0x0A] @ METADATA_END"

definition or_else :: "string option \<Rightarrow> string \<Rightarrow> string" where
  "or_else x y = (case x of Some (c # cs) \<Rightarrow> c # cs | _ \<Rightarrow> y)"

definition replace_metadata :: "string \<Rightarrow> ('g, unit) hand_sx" where
  "replace_metadata metadata =
     sx_bind (read_text HANDOFF_PATH) (\<lambda>existing.
     sx_bind (index_text METADATA_START existing) (\<lambda>start.
     sx_bind (index_text METADATA_END existing) (\<lambda>stop.
       write_text HANDOFF_PATH (take start existing @ metadata @ drop (stop + length METADATA_END) existing))))"

definition refresh_snapshot :: "'g git_env \<Rightarrow> ('g, unit) hand_sx" where
  "refresh_snapshot env =
     sx_bind (require_repository env) (\<lambda>_.
     sx_bind (current_branch env) (\<lambda>branch.
     sx_bind (git_output env [''rev-parse'', ''--verify'', ''HEAD'']) (\<lambda>head.
     let base = or_else head ''initial repository''; shown = (if base = ''initial repository'' then base else take 12 base) in
     sx_bind (git_output env [''status'', ''--porcelain'']) (\<lambda>status.
     sx_bind (upstream_name env branch) (\<lambda>upstream.
       replace_metadata (metadata_text (ge_now env) branch upstream shown (length (splitlines (or_else status [])))))))))"

definition remote_branch_exists :: "'g git_env \<Rightarrow> string \<Rightarrow> ('g, bool) hand_sx" where
  "remote_branch_exists env branch =
     sx_bind (run_git env False [''ls-remote'', ''--exit-code'', ''--heads'', ''origin'', ''refs/heads/'' @ branch]) (\<lambda>res.
       if gr_code res = 0 then sx_return True
       else if gr_code res = 2 then sx_return False
       else sx_raise (HandoffError ''Could not inspect the origin branch. Check Git authentication and connectivity.''))"

definition ensure_remote_not_ahead :: "'g git_env \<Rightarrow> string \<Rightarrow> ('g, unit) hand_sx" where
  "ensure_remote_not_ahead env branch =
     sx_bind (remote_branch_exists env branch) (\<lambda>exists.
       if \<not> exists then sx_return ()
       else sx_bind (git_output env [''rev-parse'', ''--verify'', ''HEAD'']) (\<lambda>head.
         sx_bind (sx_ensure (head \<noteq> None) (HandoffError ''The remote branch already exists but the local branch has no commit.'')) (\<lambda>_.
         sx_bind (run_git env True [''fetch'', ''--prune'', ''origin'', branch]) (\<lambda>_.
         sx_bind (run_git env False [''merge-base'', ''--is-ancestor'', ''refs/remotes/origin/'' @ branch, ''HEAD'']) (\<lambda>res.
           sx_ensure (gr_code res = 0) (HandoffError
             (''origin has commits not contained in the local branch. Run DZTGBot continue from a clean checkout '' @
              ''before creating another handoff.'')))))))"

definition print_line :: "string \<Rightarrow> ('g, unit) hand_sx" where
  "print_line s = sx_modify (\<lambda>w. w\<lparr>hw_printed := hw_printed w @ [s]\<rparr>)"

text \<open>The part of \<open>sync\<close> after the staging.\<close>

definition publish :: "'g git_env \<Rightarrow> string option \<Rightarrow> string \<Rightarrow> ('g, unit) hand_sx" where
  "publish env message branch =
     sx_bind (run_git env False [''diff'', ''--cached'', ''--quiet'', ''--'']) (\<lambda>staged.
     sx_bind (sx_ensure (gr_code staged = 0 \<or> gr_code staged = 1) (HandoffError ''Could not inspect the staged handoff changes.'')) (\<lambda>_.
     sx_bind (if gr_code staged = 1
              then sx_bind (run_git env True [''commit'', ''-m'', or_else message (''handoff: DZTGBot '' @ ge_today env)]) (\<lambda>_. sx_return ())
              else sx_return ()) (\<lambda>_.
     sx_bind (run_git env True [''push'', ''--set-upstream'', ''origin'', branch]) (\<lambda>_.
     sx_bind (git_output env [''rev-parse'', ''--short'', ''HEAD'']) (\<lambda>commit.
       print_line (''[handoff] Synced branch '' @ branch @ '' at commit '' @ or_else commit ''unknown'' @ ''.''))))))"

definition sync_handoff :: "'g git_env \<Rightarrow> string option \<Rightarrow> ('g, unit) hand_sx" where
  "sync_handoff env message =
     sx_bind (refresh_snapshot env) (\<lambda>_.
     sx_bind (validate_repository env) (\<lambda>_.
     sx_bind (current_branch env) (\<lambda>branch.
     sx_bind (ensure_remote_not_ahead env branch) (\<lambda>_.
     sx_bind (run_git env True [''add'', ''-A'', ''--'', ''.'']) (\<lambda>_.
     sx_bind (secret_scan env) (\<lambda>_. publish env message branch))))))"

definition continue_from_remote :: "'g git_env \<Rightarrow> ('g, unit) hand_sx" where
  "continue_from_remote env =
     sx_bind (require_repository env) (\<lambda>_.
     sx_bind (git_output env [''status'', ''--porcelain'']) (\<lambda>status.
     sx_bind (sx_ensure (or_else status [] = []) (HandoffError
       (''The checkout has local changes. Nothing was pulled; preserve and review them before integrating '' @ ''remote work.''))) (\<lambda>_.
     sx_bind (current_branch env) (\<lambda>branch.
     sx_bind (remote_branch_exists env branch) (\<lambda>exists.
     sx_bind (sx_ensure exists (HandoffError (''origin/'' @ branch @ '' does not exist, so there is no remote handoff to load.''))) (\<lambda>_.
     sx_bind (run_git env True [''fetch'', ''--prune'', ''origin'', branch]) (\<lambda>_.
     sx_bind (run_git env True [''pull'', ''--ff-only'', ''origin'', branch]) (\<lambda>_.
     sx_bind (validate_repository env) (\<lambda>_.
     sx_bind (git_output env [''rev-parse'', ''--short'', ''HEAD'']) (\<lambda>commit.
     sx_bind (print_line (''[handoff] Loaded branch '' @ branch @ '' at commit '' @ or_else commit ''unknown'' @ ''.'')) (\<lambda>_.
       print_line (''[handoff] Read docs/context/HANDOFF.md, CONTINUE_HERE.md, PROJECT_CONTEXT.md, then README.md.''))))))))))))"

datatype hand_mode = Mode_Snapshot | Mode_Validate | Mode_Sync | Mode_Continue

definition error_text :: "hand_error \<Rightarrow> string" where
  "error_text e = (case e of HandoffError m \<Rightarrow> m | Substring_Not_Found \<Rightarrow> ''substring not found'' | File_Not_Found \<Rightarrow> ''No such file or directory'')"

definition hand_main :: "'g git_env \<Rightarrow> hand_mode \<Rightarrow> string option \<Rightarrow> 'g hand_world \<Rightarrow> nat \<times> 'g hand_world" where
  "hand_main env mode message w =
     (case (case mode of
          Mode_Snapshot \<Rightarrow> sx_bind (refresh_snapshot env) (\<lambda>_. print_line ''[handoff] Snapshot metadata refreshed.'')
        | Mode_Validate \<Rightarrow> sx_bind (validate_repository env) (\<lambda>_. print_line ''[handoff] Context and secret-safety validation passed.'')
        | Mode_Sync \<Rightarrow> sync_handoff env message
        | Mode_Continue \<Rightarrow> continue_from_remote env) w of
        (Inr _, w') \<Rightarrow> (0, w')
      | (Inl e, w') \<Rightarrow> (1, w'\<lparr>hw_printed := hw_printed w' @ [''[handoff] ERROR: '' @ error_text e]\<rparr>))"

end
