(* ===== verification/Handoff_Safety.thy ===== *)
theory Handoff_Safety
  imports Handoff
begin

text \<open>
  What the hand-over script guarantees: nothing is committed or pushed before a scan without findings, nothing is fetched into a
  tree with local changes, and a refreshed snapshot changes only the text between its markers.
\<close>

section \<open>The calls a computation makes\<close>

definition logged :: "string list list \<Rightarrow> (string list \<Rightarrow> bool) \<Rightarrow> 'g hand_world \<Rightarrow> bool" where
  "logged base Q w \<longleftrightarrow> (\<exists>cs. hw_log w = base @ cs \<and> list_all Q cs)"

definition publishing :: "string list \<Rightarrow> bool" where
  "publishing c \<longleftrightarrow> hd c \<in> {''commit'', ''push''}"

definition integrating :: "string list \<Rightarrow> bool" where
  "integrating c \<longleftrightarrow> hd c \<in> {''fetch'', ''pull'', ''merge'', ''checkout''}"

lemma logged_start [simp]: "logged (hw_log w) Q w"
  by (simp add: logged_def)

lemma keeps_calls_each [inv_intros]: "(\<And>x. sx_keeps P (f x)) \<Longrightarrow> sx_keeps P (sx_each f xs)"
  by (induction xs) (simp_all, (intro inv_intros)+)

lemma keeps_run_git: "Q args \<Longrightarrow> sx_keeps (logged base Q) (run_git env check args)"
  by (auto simp: sx_keeps_def run_git_def git_call_def logged_def split: prod.splits)

lemma keeps_git_output: "Q args \<Longrightarrow> sx_keeps (logged base Q) (git_output env args)"
  unfolding git_output_def by (intro inv_intros keeps_run_git)

lemma keeps_write_text [inv_intros]: "sx_keeps (logged base Q) (write_text p s)"
  unfolding write_text_def by (rule keeps_modify) (simp add: logged_def)

lemma keeps_print_line [inv_intros]: "sx_keeps (logged base Q) (print_line s)"
  unfolding print_line_def by (rule keeps_modify) (simp add: logged_def)

lemma keeps_read_text [inv_intros]: "sx_keeps (logged base Q) (read_text p)"
  unfolding read_text_def by (intro inv_intros)

lemma keeps_index_text [inv_intros]: "sx_keeps (logged base Q) (index_text p s)"
  unfolding index_text_def by (intro inv_intros)

abbreviation local_call :: "string list \<Rightarrow> bool" where
  "local_call c \<equiv> \<not> publishing c \<and> \<not> integrating c"

lemma local_calls:
  "local_call (''rev-parse'' # xs)" "local_call (''branch'' # xs)" "local_call (''config'' # xs)" "local_call (''status'' # xs)"
  "local_call (''ls-files'' # xs)" "local_call (''check-ignore'' # xs)" "local_call (''ls-remote'' # xs)" "local_call (''diff'' # xs)"
  "local_call (''merge-base'' # xs)" "local_call (''add'' # xs)" "\<not> publishing (''fetch'' # xs)"
  by (simp_all add: publishing_def integrating_def)

lemma keeps_local_output: "(\<And>c. local_call c \<Longrightarrow> Q c) \<Longrightarrow> local_call args \<Longrightarrow> sx_keeps (logged base Q) (git_output env args)"
  by (rule keeps_git_output) blast

lemma keeps_local_run: "(\<And>c. local_call c \<Longrightarrow> Q c) \<Longrightarrow> local_call args \<Longrightarrow> sx_keeps (logged base Q) (run_git env check args)"
  by (rule keeps_run_git) blast

lemma keeps_require_repository:
  assumes "\<And>c. local_call c \<Longrightarrow> Q c"
  shows "sx_keeps (logged base Q) (require_repository env)"
  unfolding require_repository_def by (intro inv_intros keeps_local_output[OF assms] local_calls)

lemma keeps_current_branch:
  assumes "\<And>c. local_call c \<Longrightarrow> Q c"
  shows "sx_keeps (logged base Q) (current_branch env)"
  unfolding current_branch_def
  by (intro inv_intros keeps_local_output[OF assms] local_calls) (auto split: option.split list.split intro!: inv_intros)

lemma keeps_upstream_name:
  assumes "\<And>c. local_call c \<Longrightarrow> Q c"
  shows "sx_keeps (logged base Q) (upstream_name env branch)"
  unfolding upstream_name_def
  by (intro inv_intros keeps_local_output[OF assms] local_calls)
    (auto split: option.split list.split intro!: inv_intros keeps_local_output[OF assms] local_calls)

lemma keeps_candidate_paths:
  assumes "\<And>c. local_call c \<Longrightarrow> Q c"
  shows "sx_keeps (logged base Q) (candidate_paths env)"
  unfolding candidate_paths_def by (intro inv_intros keeps_local_run[OF assms] local_calls)

lemma keeps_secret_scan:
  assumes "\<And>c. local_call c \<Longrightarrow> Q c"
  shows "sx_keeps (logged base Q) (secret_scan env)"
  unfolding secret_scan_def Let_def by (intro inv_intros keeps_candidate_paths[OF assms])

lemma keeps_validate_required_files: "sx_keeps (logged base Q) validate_required_files"
proof -
  have "sx_keeps (logged base Q) (check_headings e)" for e
    unfolding check_headings_def by (cases e) (auto split: list.split intro!: inv_intros)
  then show ?thesis unfolding validate_required_files_def by (intro inv_intros) auto
qed

lemma keeps_validate_repository:
  assumes "\<And>c. local_call c \<Longrightarrow> Q c"
  shows "sx_keeps (logged base Q) (validate_repository env)"
  unfolding validate_repository_def validate_ignore_rules_def
  by (intro inv_intros keeps_require_repository[OF assms] keeps_validate_required_files keeps_secret_scan[OF assms]
      keeps_local_run[OF assms] local_calls)

lemma keeps_refresh_snapshot:
  assumes "\<And>c. local_call c \<Longrightarrow> Q c"
  shows "sx_keeps (logged base Q) (refresh_snapshot env)"
  unfolding refresh_snapshot_def replace_metadata_def Let_def
  by (intro inv_intros keeps_require_repository[OF assms] keeps_current_branch[OF assms] keeps_upstream_name[OF assms]
      keeps_local_output[OF assms] local_calls)

lemma keeps_remote_branch_exists:
  assumes "\<And>c. local_call c \<Longrightarrow> Q c"
  shows "sx_keeps (logged base Q) (remote_branch_exists env branch)"
  unfolding remote_branch_exists_def by (intro inv_intros keeps_local_run[OF assms] local_calls)

lemma keeps_ensure_remote_not_ahead: "sx_keeps (logged base (\<lambda>c. \<not> publishing c)) (ensure_remote_not_ahead env branch)"
  unfolding ensure_remote_not_ahead_def
  by (intro inv_intros keeps_remote_branch_exists keeps_local_output keeps_run_git local_calls conjunct1[OF local_calls(9)]) auto

section \<open>Nothing is published before a scan without findings\<close>

definition stage :: "'g git_env \<Rightarrow> ('g, string) hand_sx" where
  "stage env =
     sx_bind (refresh_snapshot env) (\<lambda>_. sx_bind (validate_repository env) (\<lambda>_. sx_bind (current_branch env) (\<lambda>branch.
     sx_bind (ensure_remote_not_ahead env branch) (\<lambda>_. sx_bind (run_git env True [''add'', ''-A'', ''--'', ''.'']) (\<lambda>_. sx_return branch)))))"

lemma sync_staged: "sync_handoff env message = sx_bind (stage env) (\<lambda>branch. sx_bind (secret_scan env) (\<lambda>_. publish env message branch))"
  by (rule ext) (auto simp: sync_handoff_def stage_def sx_bind_def split: prod.splits sum.splits)

lemma keeps_stage: "sx_keeps (logged base (\<lambda>c. \<not> publishing c)) (stage env)"
  unfolding stage_def
  by (intro inv_intros keeps_refresh_snapshot keeps_validate_repository keeps_current_branch keeps_ensure_remote_not_ahead keeps_local_run local_calls) auto

lemma stage_ends_with_add: "stage env w = (Inr branch, w') \<Longrightarrow> List.last (hw_log w') = [''add'', ''-A'', ''--'', ''.'']"
  by (auto simp: stage_def sx_bind_eq_Inr run_git_def git_call_def split: prod.splits)

lemma secret_scan_clean:
  assumes "secret_scan env w = (Inr u, w')"
  shows "\<exists>ps. candidate_paths env w = (Inr ps, w') \<and> list_all (\<lambda>p. scan_path (ge_size env) p (hw_tree w' p) = []) ps"
  using assms by (auto simp: secret_scan_def sx_bind_eq_Inr Let_def list_all_iff ensure_def split: if_splits)

text \<open>
  C35. A run of \<open>sync\<close> either commits and pushes nothing, or everything is staged, the scan of all the files of the repository after that
  has no finding, and only then the changes are published.
\<close>

theorem sync_publishes_scanned:
  "logged (hw_log w) (\<lambda>c. \<not> publishing c) (snd (sync_handoff env message w)) \<or>
   (\<exists>branch w1 ps w2. stage env w = (Inr branch, w1) \<and> logged (hw_log w) (\<lambda>c. \<not> publishing c) w1 \<and>
      List.last (hw_log w1) = [''add'', ''-A'', ''--'', ''.''] \<and> candidate_paths env w1 = (Inr ps, w2) \<and>
      list_all (\<lambda>p. scan_path (ge_size env) p (hw_tree w2 p) = []) ps \<and>
      sync_handoff env message w = publish env message branch w2)"
proof -
  let ?quiet = "logged (hw_log w) (\<lambda>c. \<not> publishing c)"
  obtain r1 w1 where one: "stage env w = (r1, w1)" by fastforce
  with sx_keepsD[OF keeps_stage, of "hw_log w" w env] have quiet: "?quiet w1" by simp
  show ?thesis
  proof (cases r1)
    case (Inl e)
    with one quiet show ?thesis by (simp add: sync_staged sx_bind_def)
  next
    case (Inr branch)
    obtain r2 w2 where two: "secret_scan env w1 = (r2, w2)" by fastforce
    have "sx_keeps ?quiet (secret_scan env)" by (rule keeps_secret_scan) simp
    from sx_keepsD[OF this quiet] two have "?quiet w2" by simp
    show ?thesis
    proof (cases r2)
      case (Inl e)
      with one Inr two \<open>?quiet w2\<close> show ?thesis by (simp add: sync_staged sx_bind_def)
    next
      case (Inr u)
      with one \<open>r1 = Inr branch\<close> two have "sync_handoff env message w = publish env message branch w2" by (simp add: sync_staged sx_bind_def)
      with one quiet \<open>r1 = Inr branch\<close> stage_ends_with_add[of env w branch w1] secret_scan_clean[of env w1 u w2] two Inr show ?thesis by blast
    qed
  qed
qed

text \<open>What the scan finds: for example a key of Google anywhere in a text.\<close>

lemma google_key_found:
  assumes "list_all secret_char w" and "20 \<le> length w" and "is_word_char (last w)"
    and "a = [] \<or> \<not> is_word_char (last a)" and "b = [] \<or> \<not> is_word_char (hd b) \<and> \<not> secret_char (hd b)"
  shows "''Google-key-shaped value'' \<in> set (secret_findings_in_text (a @ ''AIza'' @ w @ b) vpn)"
proof -
  let ?s = "a @ ''AIza'' @ w @ b"
  have "word_boundary ?s (length a)" using assms(4) boundary_in_text[of a "''AIza'' @ w @ b"] by (auto simp: is_word_char_def)
  moreover have "ends_at (P_Text False ''AIza'') ?s (length a) (length a + 4)" using text_in_text[of "''AIza''" a "w @ b"] by (simp add: eval_nat_numeral)
  moreover have "takeWhile secret_char b = []" using assms(5) by (cases b) auto
  then have "ends_at (P_Run True secret_char 20 None) ?s (length a + 4) (length a + 4 + length w)"
    using run_in_text[OF assms(1), of "a @ ''AIza''" b] assms(2) by (simp add: ends_at_run)
  moreover have "w \<noteq> []" using assms(2) by auto
  then have "word_boundary ?s (length a + 4 + length w)"
    using boundary_in_text[of "a @ ''AIza'' @ w" b] assms(3,5) by (auto simp: eval_nat_numeral)
  ultimately have "ends_at google_key ?s (length a) (length a + 4 + length w)" 
    unfolding google_key_def ends_at_p_seq ends_at_boundary by blast
  then have "re_search google_key ?s" unfolding re_search_iff by (intro exI conjI) (auto simp: length_append)
  then show ?thesis by (simp add: secret_findings_in_text_def CREDENTIAL_PATTERNS_def)
qed

text \<open>The environment file is looked for at the root only.\<close>

lemma nested_env_not_forbidden: "path_forbidden ''.env'' = Some ''environment file'' \<and> path_forbidden ''config/.env'' = None"
  by (simp add: path_forbidden_def py_lower_def lower_char_def parse_path_def path_name_def path_suffix_def path_parts_def
      starts_with_def ends_with_def Let_def)

text \<open>The blanks after the equals sign may be line ends: an empty assignment takes the next line as its value.\<close>

lemma empty_assignment_reported:
  "assignment_findings (''gateway='' @ [CHR 0x0A] @ ''x'') (assignment_of [''gateway'']) = [''configured gateway assignment'']"
  by (simp add: assignment_findings_def re_finditer.simps assignment_of_def p_seq_def slice_def run_ends_def is_space_def Let_def capture_def
      py_strip_def SAFE_VALUE_PREFIXES_def starts_with_def upt_rec)

section \<open>Nothing is pulled into a tree with local changes\<close>

text \<open>A run of \<open>continue\<close> either fetches and pulls nothing, or \<open>git status\<close> listed no change before.\<close>

theorem continue_refuses_local_changes:
  "logged (hw_log w) (\<lambda>c. \<not> integrating c) (snd (continue_from_remote env w)) \<or>
   (\<exists>w1 out w2. logged (hw_log w) (\<lambda>c. \<not> integrating c) w2 \<and> git_output env [''status'', ''--porcelain''] w1 = (Inr out, w2) \<and> or_else out [] = [])"
proof -
  let ?quiet = "logged (hw_log w) (\<lambda>c. \<not> integrating c)"
  obtain r1 w1 where one: "require_repository env w = (r1, w1)" by fastforce
  have "sx_keeps ?quiet (require_repository env)" by (rule keeps_require_repository) simp
  from sx_keepsD[OF this, of w] one have q1: "?quiet w1" by simp
  obtain r2 w2 where two: "git_output env [''status'', ''--porcelain''] w1 = (r2, w2)" by fastforce
  have "sx_keeps ?quiet (git_output env [''status'', ''--porcelain''])" by (rule keeps_local_output) (simp_all add: local_calls)
  from sx_keepsD[OF this q1] two have q2: "?quiet w2" by simp
  show ?thesis
  proof (cases "\<exists>u out. r1 = Inr u \<and> r2 = Inr out \<and> or_else out [] = []")
    case True
    with q2 two show ?thesis by blast
  next
    case False
    with one two have "snd (continue_from_remote env w) \<in> {w1, w2}"
      by (cases r1; cases r2) (auto simp: continue_from_remote_def sx_bind_app)
    with q1 q2 show ?thesis by auto
  qed
qed

section \<open>A snapshot changes only the text between its markers\<close>

definition occurs_at :: "string \<Rightarrow> string \<Rightarrow> nat \<Rightarrow> bool" where
  "occurs_at p s i \<longleftrightarrow> starts_with p (drop i s)"

lemma find_text_Some: "find_text p s = Some i \<longleftrightarrow> i \<le> length s \<and> occurs_at p s i \<and> (\<forall>j<i. \<not> occurs_at p s j)"
proof (induction s arbitrary: i)
  case Nil
  then show ?case by (auto simp: occurs_at_def starts_with_def)
next
  case (Cons c cs)
  show ?case
  proof (cases i)
    case 0
    then show ?thesis by (auto simp: occurs_at_def)
  next
    case (Suc k)
    with Cons.IH[of k] show ?thesis by (auto simp: occurs_at_def less_Suc_eq_0_disj)
  qed
qed

lemma occurs_at_prefix: "j + length p \<le> length s \<Longrightarrow> occurs_at p (s @ t) j \<longleftrightarrow> occurs_at p s j"
  by (simp add: occurs_at_def starts_with_def)

lemma occurs_at_bound: "occurs_at p s j \<Longrightarrow> j \<le> length s \<Longrightarrow> j + length p \<le> length s"
  by (metis add_le_cancel_left append_eq_conv_conj append_take_drop_id le_add_diff_inverse length_append length_drop occurs_at_def
      starts_with_def le_add1 take_all_iff linorder_linear length_take min.absorb2)

lemma occurs_at_head: "p \<noteq> [] \<Longrightarrow> occurs_at p s j \<Longrightarrow> j < length s \<and> s ! j = hd p"
proof -
  assume "p \<noteq> []" and "occurs_at p s j"
  then obtain cs where "drop j s = hd p # cs" by (cases p; cases "drop j s") (auto simp: occurs_at_def starts_with_def)
  then show ?thesis by (metis drop_all linorder_not_le list.distinct(1) nth_via_drop)
qed

text \<open>The text before the first marker and the text after the second one.\<close>

definition outside_markers :: "string \<Rightarrow> (string \<times> string) option" where
  "outside_markers s = (case (find_text METADATA_START s, find_text METADATA_END s) of
     (Some i, Some j) \<Rightarrow> if i + length METADATA_START \<le> j then Some (take i s, drop (j + length METADATA_END) s) else None
   | _ \<Rightarrow> None)"

definition plain_text :: "string \<Rightarrow> bool" where
  "plain_text s \<longleftrightarrow> CHR ''<'' \<notin> set s \<and> CHR 0x0D \<notin> set s"

text \<open>The first occurrences of both markers, when only the text between them is exchanged.\<close>

lemma markers_found:
  assumes "find_text METADATA_START (a @ METADATA_START @ m @ METADATA_END @ b) = Some (length a)"
    and "find_text METADATA_END (a @ METADATA_START @ m @ METADATA_END @ b) = Some (length a + length METADATA_START + length m)"
    and "CHR ''<'' \<notin> set m'"
  shows "find_text METADATA_START (a @ METADATA_START @ m' @ METADATA_END @ b) = Some (length a) \<and>
    find_text METADATA_END (a @ METADATA_START @ m' @ METADATA_END @ b) = Some (length a + length METADATA_START + length m')"
proof
  let ?t = "a @ METADATA_START @ m @ METADATA_END @ b" and ?t' = "a @ METADATA_START @ m' @ METADATA_END @ b"
  have len: "length METADATA_START = 31" "length METADATA_END = 29" by (simp_all add: METADATA_START_def METADATA_END_def)
  have same: "occurs_at p ?t' j = occurs_at p ?t j" if "j + length p \<le> length a + 31" for p j
    using that occurs_at_prefix[of j p "a @ METADATA_START"] len by simp
  from assms(1) have first: "\<not> occurs_at METADATA_START ?t j" if "j < length a" for j using that by (simp add: find_text_Some)
  show "find_text METADATA_START ?t' = Some (length a)"
    unfolding find_text_Some using same[of _ METADATA_START] first len by (auto simp: occurs_at_def[of _ _ "length a"])
  have early: "\<not> occurs_at METADATA_END ?t' j" if j: "j < length a + 31 + length m'" for j
  proof
    assume at: "occurs_at METADATA_END ?t' j"
    then have "?t' ! j = CHR ''<''" using occurs_at_head[of METADATA_END ?t' j] by (simp add: METADATA_END_def)
    consider "j < length a" | "j = length a" | "length a < j" "j < length a + 31" | "length a + 31 \<le> j" by linarith
    then show False
    proof cases
      case 1
      with at same[of j METADATA_END] len have "occurs_at METADATA_END ?t j" by simp
      with assms(2) 1 len show False by (simp add: find_text_Some)
    next
      case 2
      with at show False by (simp add: occurs_at_def starts_with_def METADATA_START_def METADATA_END_def)
    next
      case 3
      then have "?t' ! j = METADATA_START ! (j - length a)" using len by (auto simp: nth_append)
      moreover have "0 < j - length a" "j - length a < length METADATA_START" using 3 len by simp_all
      then have "METADATA_START ! (j - length a) \<in> set (tl METADATA_START)" by (metis One_nat_def Suc_pred length_tl nth_mem nth_tl less_diff_conv add.commute plus_1_eq_Suc)
      ultimately show False using \<open>?t' ! j = CHR ''<''\<close> by (simp add: METADATA_START_def)
    next
      case 4
      with j len have "?t' ! j = (m' @ METADATA_END @ b) ! (j - length (a @ METADATA_START))" and k: "j - length a - 31 < length m'"
        using nth_append[of "a @ METADATA_START" "m' @ METADATA_END @ b" j] by auto
      then have "?t' ! j = m' ! (j - length a - 31)" using len by (simp add: nth_append_left)
      with k \<open>?t' ! j = CHR ''<''\<close> assms(3) show False by (metis nth_mem)
    qed
  qed
  show "find_text METADATA_END ?t' = Some (length a + length METADATA_START + length m')"
    unfolding find_text_Some using early len by (auto simp: occurs_at_def)
qed

lemma universal_newlines_plain: "CHR 0x0D \<notin> set s \<Longrightarrow> universal_newlines False s = s"
  by (induction s) auto

lemma universal_newlines_no_return: "CHR 0x0D \<notin> set (universal_newlines after_cr s)"
  by (induction after_cr s rule: universal_newlines.induct) auto

lemma metadata_text_split:
  "\<exists>m. metadata_text generated branch upstream base entries = METADATA_START @ m @ METADATA_END \<and>
     (plain_text generated \<and> plain_text branch \<and> plain_text upstream \<and> plain_text base \<longrightarrow> plain_text m)"
proof -
  have "plain_text (decimal n)" for n using decimal_digits by (force simp: plain_text_def is_digit_def)
  then show ?thesis by (auto simp: metadata_text_def plain_text_def)
qed

lemma outside_markers_split:
  assumes "outside_markers s = Some (a, b)"
  shows "\<exists>m. s = a @ METADATA_START @ m @ METADATA_END @ b \<and> find_text METADATA_START s = Some (length a) \<and>
    find_text METADATA_END s = Some (length a + length METADATA_START + length m)"
proof -
  from assms obtain i j where ij: "find_text METADATA_START s = Some i" "find_text METADATA_END s = Some j" "i + length METADATA_START \<le> j"
      and ab: "a = take i s" "b = drop (j + length METADATA_END) s"
    by (auto simp: outside_markers_def split: option.splits if_splits)
  let ?m = "slice (i + length METADATA_START) j s"
  have at: "occurs_at METADATA_START s i" "occurs_at METADATA_END s j" "i \<le> length s" "j \<le> length s" using ij by (simp_all add: find_text_Some)
  then have "drop i s = METADATA_START @ drop (i + length METADATA_START) s" "drop j s = METADATA_END @ b"
    unfolding occurs_at_def starts_with_def ab by (metis append_take_drop_id drop_drop add.commute)+
  moreover have "drop (i + length METADATA_START) s = ?m @ drop j s"
    using ij(3) by (metis append_take_drop_id drop_drop le_add_diff_inverse2 slice_def)
  ultimately have "s = a @ METADATA_START @ ?m @ METADATA_END @ b" by (metis ab(1) append.assoc append_take_drop_id)
  moreover have "length a = i" "length ?m = j - (i + length METADATA_START)" using at ab by (simp_all add: slice_def)
  ultimately show ?thesis using ij by (intro exI[of _ ?m]) simp
qed

lemma outside_markers_of:
  assumes "find_text METADATA_START (a @ METADATA_START @ m @ METADATA_END @ b) = Some (length a)"
    and "find_text METADATA_END (a @ METADATA_START @ m @ METADATA_END @ b) = Some (length a + length METADATA_START + length m)"
  shows "outside_markers (a @ METADATA_START @ m @ METADATA_END @ b) = Some (a, b)"
  using assms by (simp add: outside_markers_def)

lemma replace_metadata_run:
  assumes "node_text (hw_tree w HANDOFF_PATH) = Some t" and "universal_newlines False t = a @ METADATA_START @ m @ METADATA_END @ b"
    and "find_text METADATA_START (universal_newlines False t) = Some (length a)"
    and "find_text METADATA_END (universal_newlines False t) = Some (length a + length METADATA_START + length m)"
  shows "replace_metadata x w = (Inr (), w\<lparr>hw_tree := (hw_tree w)(HANDOFF_PATH := Regular (a @ x @ b))\<rparr>)"
  using assms by (simp add: replace_metadata_def read_text_def index_text_def write_text_def sx_bind_app)

text \<open>
  Refreshing the metadata of a document with its two markers in order keeps the text before and after them, up to the kind of line
  ends, and leaves a document with its markers in order, which the same refresh does not change again.
\<close>

theorem snapshot_keeps_the_rest:
  assumes "node_text (hw_tree w HANDOFF_PATH) = Some t" and "outside_markers (universal_newlines False t) = Some rest"
    and "list_all plain_text [generated, branch, upstream, base]"
  shows "\<exists>w' t'. replace_metadata (metadata_text generated branch upstream base entries) w = (Inr (), w') \<and>
    hw_tree w' = (hw_tree w)(HANDOFF_PATH := Regular t') \<and> outside_markers (universal_newlines False t') = Some rest \<and>
    replace_metadata (metadata_text generated branch upstream base entries) w' = (Inr (), w')"
proof -
  obtain a b where rest: "rest = (a, b)" by fastforce
  from outside_markers_split[OF assms(2)[unfolded rest]] obtain m where
    t: "universal_newlines False t = a @ METADATA_START @ m @ METADATA_END @ b" and
    finds: "find_text METADATA_START (universal_newlines False t) = Some (length a)"
      "find_text METADATA_END (universal_newlines False t) = Some (length a + length METADATA_START + length m)" by blast
  from metadata_text_split[of generated branch upstream base entries] assms(3) obtain m' where
    x: "metadata_text generated branch upstream base entries = METADATA_START @ m' @ METADATA_END" and m': "plain_text m'" by auto
  let ?t' = "a @ METADATA_START @ m' @ METADATA_END @ b"
  let ?w' = "w\<lparr>hw_tree := (hw_tree w)(HANDOFF_PATH := Regular ?t')\<rparr>"
  have "CHR 0x0D \<notin> set ?t'" using universal_newlines_no_return[of False t] m' unfolding t by (simp add: plain_text_def)
  then have same: "universal_newlines False ?t' = ?t'" by (rule universal_newlines_plain)
  from markers_found[OF finds[unfolded t]] m' have
    finds': "find_text METADATA_START ?t' = Some (length a)" "find_text METADATA_END ?t' = Some (length a + length METADATA_START + length m')"
    by (simp_all add: plain_text_def)
  have "replace_metadata (METADATA_START @ m' @ METADATA_END) w = (Inr (), ?w')"
    using replace_metadata_run[OF assms(1) t finds] by simp
  moreover have "replace_metadata (METADATA_START @ m' @ METADATA_END) ?w' = (Inr (), ?w')"
    using replace_metadata_run[of ?w' ?t' a m' b] same finds' by simp
  ultimately show ?thesis unfolding x rest using same outside_markers_of[OF finds'] by (intro exI[of _ ?w'] exI[of _ ?t']) simp
qed

definition sample_handoff :: "unit hand_world" where
  "sample_handoff = \<lparr>hw_tree = (\<lambda>_. Absent)(HANDOFF_PATH := Regular (''# Notes'' @ METADATA_START @ ''old'' @ METADATA_END @ ''end'')),
     hw_git = (), hw_log = [], hw_printed = []\<rparr>"

theorem snapshot_keeps_the_rest_witness:
  "\<exists>w' t'. replace_metadata (metadata_text ''2026-01-01T00:00:00Z'' ''main'' ''origin/main'' ''0123456789ab'' 3) sample_handoff = (Inr (), w') \<and>
     hw_tree w' = (hw_tree sample_handoff)(HANDOFF_PATH := Regular t') \<and> outside_markers (universal_newlines False t') = Some (''# Notes'', ''end'')"
  using snapshot_keeps_the_rest [of sample_handoff "''# Notes'' @ METADATA_START @ ''old'' @ METADATA_END @ ''end''" "(''# Notes'', ''end'')"
      "''2026-01-01T00:00:00Z''" "''main''" "''origin/main''" "''0123456789ab''" 3]
  by (simp add: sample_handoff_def outside_markers_def METADATA_START_def METADATA_END_def starts_with_def plain_text_def) blast

text \<open>
  \<open>sync\<close> refreshes the snapshot before it validates the document: with the markers out of order it has already written a document with
  a second pair of markers when the validation refuses it.
\<close>

lemma markers_out_of_order_duplicated:
  "replace_metadata (METADATA_START @ METADATA_END) (sample_handoff\<lparr>hw_tree := (\<lambda>_. Absent)(HANDOFF_PATH := Regular (METADATA_END @ METADATA_START))\<rparr>) =
   (Inr (), sample_handoff\<lparr>hw_tree := (\<lambda>_. Absent)(HANDOFF_PATH :=
      Regular (METADATA_END @ METADATA_START @ METADATA_END @ METADATA_START))\<rparr>)"
  by (simp add: replace_metadata_def read_text_def index_text_def write_text_def sx_bind_app sample_handoff_def METADATA_START_def METADATA_END_def
      starts_with_def)

end
