(* ===== verification/Spec2Isabelle.thy ===== *)
theory Spec2Isabelle
  imports Callback_Service Submission_Safety Attachment_Service Intake_Analysis Keyed_Processor Limits Jira_Submission User_Store Rules_Store Analysis_Pipeline Composition Admin Issue_Service Auth Card_Safety Metrics Lifecycle Legacy_Analysis Handoff_Safety
begin

text \<open>
  A verification library for a Telegram bot that turns chat messages into Jira issues.  The program is the Python package under
  \<open>src/src/dztgbot\<close>.  A user forwards messages or types a command; the bot makes a draft of an issue (with the help of Gemini, when the
  intake service is used), shows it as a card with buttons, lets the user edit it, and on confirmation creates the issue through the
  Jira REST interface, uploads the attachments and keeps the card of the issue up to date.  Everything durable is in one SQLite database; the
  credentials of the users and the rules for the analysis are in files.

  \<^bold>\<open>How the parts interact.\<close>  Telegram delivers an update; the keyed processor runs the work of one draft or one conversation one piece
  at a time; the router picks the first registered handler that accepts the update; the handler calls services; the services call the
  repository (compare-and-swap on the revision of a draft), the Jira adapter and the Gemini adapter; the resource limiter bounds
  how many of those calls run.

  \<^bold>\<open>Theories and what they model.\<close>

  \<^item> Foundations. \<open>Prelude\<close>: results (\<open>exn + 'a\<close>), the state and exception type \<open>sx\<close> with its rules (\<open>inv_intros\<close> collects the
    rules of invariants), Python string operations, list tables. \<open>Concurrency\<close>: the locale \<open>draining\<close> (an invariant, a measure and a
    step relation give termination). \<open>Json_Text\<close>, \<open>Url\<close>, \<open>Markup\<close>, \<open>File_Store\<close>: the parts of the standard library and of the file
    system that the program relies on (\<open>json\<close>, \<open>urllib.parse\<close>, \<open>html.escape\<close> with the reader of Telegram markup, replacing files with
    faults and crashes).
  \<^item> Domain (\<open>domain/\<close>). \<open>Errors\<close>, \<open>Fsm\<close>, \<open>Models\<close>, \<open>Callbacks\<close>, \<open>Policy\<close>: one definition for each class, function and table, with the
    guards of every \<open>__post_init__\<close> in their order.
  \<^item> Database (\<open>infrastructure/persistence/\<close>). \<open>Workflow_Tables\<close>: the schema as rows with CHECK constraints and unique indexes
    (locales \<open>sql_table\<close>, \<open>keyed_table\<close>, interpreted for all eight tables). \<open>Workflow_Sqlite\<close>: every operation of the repository.
    \<open>Workflow_Invariant\<close>: uniqueness, checks and references are kept by all of them. \<open>Workflow_Refinement\<close>: the abstract
    specification, a map from drafts to versions, and the simulation. \<open>Workflow_Contracts\<close>: what clients rely on (read back what was saved,
    consume once; locale \<open>token_store\<close>). \<open>Workflow_Startup\<close>: the constructor, the check of the database path, the migrations and
    \<open>initialize\<close>.
  \<^item> Services (\<open>services/\<close>). \<open>Workflow_Service\<close>, \<open>Callback_Service\<close>, \<open>Submission\<close> and \<open>Submission_Safety\<close>, \<open>Attachment_Service\<close>,
    \<open>Intake\<close> and \<open>Intake_Analysis\<close>, \<open>Issue_Service\<close> (issue use cases, card tracker, notifications), \<open>Limits\<close>, \<open>Metrics\<close> (\<open>observability.py\<close>).
  \<^item> Adapters. \<open>Jira_Gateway\<close>, \<open>Jira_Client\<close>, \<open>Gemini_Gateway\<close>, \<open>Vpn\<close>, \<open>Keyed_Processor\<close>, \<open>User_Store\<close> (locale \<open>crash_safe\<close>),
    \<open>Rules_Store\<close>.
  \<^item> Configuration and composition. \<open>Config\<close> and \<open>Jira_Url\<close> (\<open>config.py\<close>), \<open>Composition\<close> (\<open>__main__.py\<close>: limits and keys), \<open>Lifecycle\<close>
    (\<open>run\<close> and \<open>main\<close> of \<open>__main__.py\<close>: opening, polling, teardown), \<open>Updates\<close> (the registered handlers and the router, \<open>core.py\<close>).
  \<^item> Beside the bot. \<open>Legacy_Analysis\<close> (\<open>analysis.py\<close>, the older facade of the analysis over \<open>Gemini_Gateway\<close>); \<open>Patterns\<close>
    (regular expressions with the backtracking order of \<open>re\<close>), \<open>Handoff\<close> and \<open>Handoff_Safety\<close> (\<open>src/scripts/handoff.py\<close>).
  \<^item> User interface (\<open>ui/\<close>). \<open>Rendering\<close>, \<open>Keyboards\<close>, \<open>I18n\<close>; \<open>Chat\<close>: the log of the calls to Telegram, each of which may fail;
    \<open>Auth\<close> (\<open>jira_auth.py\<close>), \<open>Admin\<close> (\<open>admin.py\<close>), \<open>Draft_Handlers\<close> (\<open>ui/handlers/callbacks.py\<close>, \<open>drafts.py\<close>) and \<open>Card_Handlers\<close>
    (\<open>ui/handlers/search.py\<close>, \<open>actions.py\<close>).
  \<^item> Across components. \<open>Jira_Submission\<close> (submission over the adapter), \<open>Analysis_Pipeline\<close> (intake, Gemini, submission; locale
    \<open>analyzer\<close>), \<open>Draft_Safety\<close> and \<open>Draft_Flows\<close> (sequences of updates of all users over handlers, services, repository and
    Jira), \<open>Card_Safety\<close> (routing, card handlers and repository).

  \<^bold>\<open>What is proved.\<close>  Of the database: its integrity, the refinement, and that a saved draft, new or replacing a stored one, is read
  back.  Of buttons: the grammar round-trips and a one-shot button is allowed once.  Of submissions: every create, update and link of
  the submission service found its durable claim, an unknown outcome is never sent again over every sequence of updates of the draft
  handlers, these handlers let the submission and attachment services call Jira only on an authorised press, and which crash
  windows nobody recovers.  Of the schedulers: order, exclusion, bounds and that they drain.  Of the stores: memory and
  disk agree and survive a crash.  Of the texts: escaping round-trips, and the markup of every card is well-formed (its length is another matter: only the
  card of a draft is cut to a message).  Of the commands of administrators: anyone else is refused.  Of the process: every
  initialisation leaves the schema at a whole version, the teardown closes every opened resource once except the HTTP pool of the
  legacy Jira client, and the hand-over script publishes only what it has scanned.  Several theorems state
  what goes wrong: the composition root reads a missing attribute, so that no run reaches the polling; nobody can log in, texts that are no command never
  reach the drafts, the first preview never gets its buttons, a creation that Jira accepted may be repeated, the cards are out of order, the update
  card and the stand-up report are not bounded, a Confirm without a credential is lost.

  \<^bold>\<open>Conventions.\<close>  Strings of drafts, of Jira and of data are lists of characters below 256 (\<open>string\<close>); texts shown in a chat are lists
  of Unicode code points (\<open>utext\<close>), and \<open>ue_text\<close> is how a handler turns one into the other.  Instants are integers in microseconds with a
  flag for the zone.  An exception is a value of \<open>exn\<close>; a branch that raises in the source is an \<open>Inl\<close>.  Every
  \<open>await\<close>-free stretch of a concurrent component is one step, and the orders of steps are arbitrary.  Clocks,
  identifiers, tokens, SHA-256, the HTTP client, the Gemini SDK, the file system faults and the calls of Telegram are parameters:
  no property assumes more of them than its statement says.

  \<^bold>\<open>Bounds.\<close>  Only the reader of JSON texts (\<open>read_value\<close>) has fuel, which \<open>json_loads\<close> takes from the length of the text; the round trip
  \<open>json_loads_dumps\<close> shows that it is enough for every text that is written.  All other loops recurse on lists, on the number of retries left (\<open>safe_attempts\<close>, \<open>try_models\<close>,
  \<open>next_attempt\<close>) or on a measure of the text that is parsed, so that every run ends; steps of schedulers decrease the budgets
  \<open>processor_budget\<close> and \<open>limiter_budget\<close>.

  \<^bold>\<open>Not modelled.\<close>  Waiting times between retries, connection pools; log lines and signal
  handlers; the Windows branch of the path check; file modes; bytes that are not UTF-8; the deployment shell script; the HTTP and SDK libraries themselves (parameters).  What else a component leaves out is said at the head of its theory.
\<close>

end
